(* ===== verification/Prelude.thy ===== *)
theory Prelude
  imports Main "HOL-Library.Word" "HOL-Library.Multiset" "HOL-Library.List_Lexorder"
    "HOL-Library.Char_ord" "HOL-Library.AList"
begin

text \<open>
  Shared ground of the development: Go's 64-bit signed arithmetic with its wrap-around, time as
  nanoseconds, the parts of Go's standard library that several components use (stable sorting with
  a comparator, string search and trimming, decimal text), and the lemma collections that carry
  the component proofs.  Go strings are byte strings (\<^typ>\<open>string\<close>, a list of bytes); Go's
  comparison of strings is the lexicographic order on bytes, which is the order of
  \<^verbatim>\<open>HOL-Library.List_Lexorder\<close> over \<^verbatim>\<open>HOL-Library.Char_ord\<close>.
\<close>

named_theorems i64_simps \<open>range facts of 64-bit signed arithmetic\<close>
named_theorems sort_simps \<open>facts of stable sorting\<close>

section \<open>64-bit signed integers\<close>

text \<open>
  Go's \<^verbatim>\<open>int64\<close>, \<^verbatim>\<open>int\<close> and \<^verbatim>\<open>time.Duration\<close> are two's complement with silent wrap-around.  Values
  are mathematical integers; every operation of the code whose overflow can matter is passed
  through \<^verbatim>\<open>wrap64\<close>.
\<close>

definition wrap64 :: "int \<Rightarrow> int" where
  "wrap64 x = (x + 2 ^ 63) mod 2 ^ 64 - 2 ^ 63"

definition in_i64 :: "int \<Rightarrow> bool" where
  "in_i64 x \<longleftrightarrow> - (2 ^ 63) \<le> x \<and> x < 2 ^ 63"

abbreviation max_i64 :: int where
  "max_i64 \<equiv> 9223372036854775807"

lemma wrap64_id [i64_simps]: "in_i64 x \<Longrightarrow> wrap64 x = x"
  by (simp add: wrap64_def in_i64_def)

lemma in_i64_wrap64 [simp]: "in_i64 (wrap64 x)"
proof -
  have "0 \<le> (x + 2 ^ 63) mod 2 ^ 64" and "(x + 2 ^ 63) mod 2 ^ 64 < 2 ^ 64"
    by simp_all
  then show ?thesis by (simp add: wrap64_def in_i64_def)
qed

lemma in_i64_nonneg [i64_simps]: "0 \<le> x \<Longrightarrow> x \<le> max_i64 \<Longrightarrow> in_i64 x"
  by (simp add: in_i64_def)

lemma in_i64_between: "in_i64 a \<Longrightarrow> in_i64 b \<Longrightarrow> a \<le> x \<Longrightarrow> x \<le> b \<Longrightarrow> in_i64 x"
  by (simp add: in_i64_def)

text \<open>Go's integer division truncates towards zero.\<close>

definition go_div :: "int \<Rightarrow> int \<Rightarrow> int" where
  "go_div a b = sgn a * sgn b * (\<bar>a\<bar> div \<bar>b\<bar>)"

definition go_mod :: "int \<Rightarrow> int \<Rightarrow> int" where
  "go_mod a b = a - b * go_div a b"

lemma go_div_nonneg [i64_simps]: "0 \<le> a \<Longrightarrow> 0 < b \<Longrightarrow> go_div a b = a div b"
  by (cases "a = 0") (simp_all add: go_div_def)

lemma go_mod_eq_0_iff: "b \<noteq> 0 \<Longrightarrow> go_mod a b = 0 \<longleftrightarrow> b dvd a"
proof -
  assume "b \<noteq> 0"
  have "b dvd a" if "go_mod a b = 0"
    using that by (auto simp: go_mod_def intro: dvdI [of _ _ "go_div a b"])
  moreover have "go_mod a b = 0" if "b dvd a"
  proof -
    from that obtain k where k: "a = b * k" by (auto simp: dvd_def)
    have "\<bar>b * k\<bar> div \<bar>b\<bar> = \<bar>k\<bar>" using \<open>b \<noteq> 0\<close> by (simp add: abs_mult)
    then have "go_div a b = sgn (b * k) * sgn b * \<bar>k\<bar>" by (simp add: go_div_def k)
    also have "\<dots> = (sgn b * sgn b) * (sgn k * \<bar>k\<bar>)" by (simp add: sgn_mult)
    also have "\<dots> = k" using \<open>b \<noteq> 0\<close> by (simp add: sgn_mult_abs sgn_if)
    finally show ?thesis by (simp add: go_mod_def k)
  qed
  ultimately show ?thesis by blast
qed

section \<open>Time\<close>

text \<open>
  A point in time is the number of nanoseconds since the Unix epoch, a duration a number of
  nanoseconds.  \<^verbatim>\<open>time.Time{}\<close> (1 January of year 1, \<^verbatim>\<open>IsZero\<close>) is its own value.
\<close>

type_synonym waktu = int
type_synonym durasi = int

abbreviation milidetik :: durasi where "milidetik \<equiv> 1000000"
abbreviation detik :: durasi where "detik \<equiv> 1000000000"
abbreviation menit :: durasi where "menit \<equiv> 60000000000"
abbreviation jam :: durasi where "jam \<equiv> 3600000000000"

definition waktu_nol :: waktu where
  "waktu_nol = - 62135596800 * detik"

text \<open>\<^verbatim>\<open>Time.UnixMilli\<close> and \<^verbatim>\<open>Duration.Milliseconds\<close>.\<close>

definition unix_milli :: "waktu \<Rightarrow> int" where
  "unix_milli t = t div milidetik"

definition milliseconds :: "durasi \<Rightarrow> int" where
  "milliseconds d = go_div d milidetik"

lemma unix_milli_mono: "s \<le> t \<Longrightarrow> unix_milli s \<le> unix_milli t"
  by (simp add: unix_milli_def zdiv_mono1)

lemma milliseconds_nonneg: "0 \<le> d \<Longrightarrow> milliseconds d = d div milidetik"
  by (simp add: milliseconds_def go_div_nonneg)

section \<open>Comparators and stable sorting\<close>

text \<open>\<^verbatim>\<open>cmp.Compare\<close>.\<close>

definition cmp_compare :: "'a::linorder \<Rightarrow> 'a \<Rightarrow> int" where
  "cmp_compare a b = (if a < b then - 1 else if b < a then 1 else 0)"

lemma cmp_compare_simps [simp]:
  "cmp_compare a b < 0 \<longleftrightarrow> a < b" "0 < cmp_compare a b \<longleftrightarrow> b < a"
  "cmp_compare a b \<le> 0 \<longleftrightarrow> a \<le> b" "cmp_compare a b = 0 \<longleftrightarrow> a = b"
  by (auto simp: cmp_compare_def)

text \<open>
  \<^verbatim>\<open>slices.SortStableFunc\<close>: an element moves ahead of an earlier one only where the comparator says
  \<^verbatim>\<open>< 0\<close>.  Insertion, the algorithm Go itself uses on short runs, computes the stable order.
\<close>

fun sisip_stabil :: "('a \<Rightarrow> 'a \<Rightarrow> int) \<Rightarrow> 'a \<Rightarrow> 'a list \<Rightarrow> 'a list" where
  "sisip_stabil cmp x [] = [x]"
| "sisip_stabil cmp x (y # ys) =
     (if cmp y x < 0 then y # sisip_stabil cmp x ys else x # y # ys)"

fun sort_stable_func :: "('a \<Rightarrow> 'a \<Rightarrow> int) \<Rightarrow> 'a list \<Rightarrow> 'a list" where
  "sort_stable_func cmp [] = []"
| "sort_stable_func cmp (x # xs) = sisip_stabil cmp x (sort_stable_func cmp xs)"

lemma mset_sisip [sort_simps]: "mset (sisip_stabil cmp x ys) = {#x#} + mset ys"
  by (induction ys) auto

lemma mset_sort_stable [sort_simps]: "mset (sort_stable_func cmp xs) = mset xs"
  by (induction xs) (auto simp: mset_sisip)

lemma set_sort_stable [simp]: "set (sort_stable_func cmp xs) = set xs"
  by (metis mset_sort_stable set_mset_mset)

lemma length_sort_stable [simp]: "length (sort_stable_func cmp xs) = length xs"
  by (metis mset_sort_stable size_mset)

lemma set_sisip [simp]: "set (sisip_stabil cmp x ys) = insert x (set ys)"
  by (induction ys) auto

text \<open>
  The contract a comparator must meet for the sort to be meaningful: its sign flips with its
  arguments and \<^verbatim>\<open>\<le>\<close> is transitive.  Every comparator of the routing strategies is an instance.
\<close>

locale go_cmp =
  fixes cmp :: "'a \<Rightarrow> 'a \<Rightarrow> int"
  assumes cmp_flip: "cmp a b < 0 \<longleftrightarrow> 0 < cmp b a"
    and cmp_trans: "cmp a b \<le> 0 \<Longrightarrow> cmp b c \<le> 0 \<Longrightarrow> cmp a c \<le> 0"
begin

lemma not_less_iff: "\<not> cmp b a < 0 \<longleftrightarrow> cmp a b \<le> 0"
  using cmp_flip [of b a] by linarith

lemma sisip_refines:
  assumes "sorted_wrt (\<lambda>a b. cmp a b < 0 \<or> cmp a b = 0 \<and> P a b) ys"
    and "\<forall>y\<in>set ys. P x y"
  shows "sorted_wrt (\<lambda>a b. cmp a b < 0 \<or> cmp a b = 0 \<and> P a b) (sisip_stabil cmp x ys)"
  using assms
proof (induction ys)
  case Nil
  then show ?case by simp
next
  case (Cons y ys)
  show ?case
  proof (cases "cmp y x < 0")
    case True
    with Cons show ?thesis by auto
  next
    case False
    then have xy: "cmp x y \<le> 0" by (simp add: not_less_iff)
    have "cmp x z \<le> 0" if "z \<in> set (y # ys)" for z
    proof (cases "z = y")
      case False
      with that Cons.prems(1) have "cmp y z \<le> 0" by auto
      with xy show ?thesis by (rule cmp_trans)
    qed (simp add: xy)
    then have "\<forall>z\<in>set (y # ys). cmp x z < 0 \<or> cmp x z = 0 \<and> P x z"
      using Cons.prems(2) by (metis antisym_conv2 not_less)
    with False Cons.prems(1) show ?thesis by simp
  qed
qed

text \<open>
  The whole content of stability: the result is ordered by the comparator, and where the
  comparator ties, by whatever order \<open>P\<close> the input already had.
\<close>

lemma sort_stable_refines:
  "sorted_wrt P xs \<Longrightarrow>
   sorted_wrt (\<lambda>a b. cmp a b < 0 \<or> cmp a b = 0 \<and> P a b) (sort_stable_func cmp xs)"
  by (induction xs) (auto intro: sisip_refines)

lemma sorted_wrt_triv: "sorted_wrt (\<lambda>a b. True) xs"
  by (induction xs) auto

lemma sort_stable_sorted: "sorted_wrt (\<lambda>a b. cmp a b \<le> 0) (sort_stable_func cmp xs)"
  using sort_stable_refines [OF sorted_wrt_triv, of xs]
  by (rule sorted_wrt_mono_rel [rotated]) auto

end

lemma sorted_wrt_unique:
  assumes "mset xs = mset ys" and "sorted_wrt R xs" and "sorted_wrt R ys"
    and "\<And>a b. a \<in> set xs \<Longrightarrow> b \<in> set xs \<Longrightarrow> R a b \<Longrightarrow> R b a \<Longrightarrow> a = b"
  shows "xs = ys"
  using assms
proof (induction xs arbitrary: ys)
  case Nil
  then show ?case by simp
next
  case (Cons x xs)
  from Cons.prems(1) obtain y ys' where ys: "ys = y # ys'"
    by (cases ys) auto
  have sets: "set (x # xs) = set ys" using Cons.prems(1) by (metis set_mset_mset)
  have "x = y"
  proof (rule ccontr)
    assume neq: "x \<noteq> y"
    with sets ys have "x \<in> set ys'" and "y \<in> set xs" by auto
    then have "R x y" and "R y x" using Cons.prems(2,3) ys by auto
    then show False using neq Cons.prems(4) sets ys by (metis list.set_intros(1))
  qed
  moreover from this have "xs = ys'"
    using Cons.prems ys by (intro Cons.IH) auto
  ultimately show ?case by (simp add: ys)
qed

section \<open>Strings\<close>

text \<open>
  \<^verbatim>\<open>strings.TrimSpace\<close> on ASCII blanks, \<^verbatim>\<open>strings.Index\<close>, \<^verbatim>\<open>strings.Contains\<close>,
  \<^verbatim>\<open>strings.IndexByte\<close> and \<^verbatim>\<open>strings.ToLower\<close> on ASCII letters.  Blanks and letters outside ASCII
  are not folded.
\<close>

definition is_space :: "char \<Rightarrow> bool" where
  "is_space c \<longleftrightarrow> c \<in> {CHR '' '', CHR 0x09, CHR 0x0A, CHR 0x0B, CHR 0x0C, CHR 0x0D}"

definition trim_space :: "string \<Rightarrow> string" where
  "trim_space s = rev (dropWhile is_space (rev (dropWhile is_space s)))"

fun has_prefix :: "string \<Rightarrow> string \<Rightarrow> bool" where
  "has_prefix s [] = True"
| "has_prefix [] (p # ps) = False"
| "has_prefix (c # s) (p # ps) = (c = p \<and> has_prefix s ps)"

fun index_of :: "string \<Rightarrow> string \<Rightarrow> nat option" where
  "index_of s p =
     (if has_prefix s p then Some 0
      else case s of [] \<Rightarrow> None | _ # s' \<Rightarrow> map_option Suc (index_of s' p))"

declare index_of.simps [simp del]

fun index_byte :: "string \<Rightarrow> char \<Rightarrow> nat option" where
  "index_byte [] c = None"
| "index_byte (x # xs) c = (if x = c then Some 0 else map_option Suc (index_byte xs c))"

definition contains :: "string \<Rightarrow> string \<Rightarrow> bool" where
  "contains s p \<longleftrightarrow> index_of s p \<noteq> None"

definition to_lower_char :: "char \<Rightarrow> char" where
  "to_lower_char c =
     (if 65 \<le> (of_char c :: nat) \<and> (of_char c :: nat) \<le> 90 then char_of ((of_char c :: nat) + 32) else c)"

definition to_lower :: "string \<Rightarrow> string" where
  "to_lower s = map to_lower_char s"

lemma trim_space_Nil [simp]: "trim_space [] = []"
  by (simp add: trim_space_def)

lemma has_prefix_iff: "has_prefix s p \<longleftrightarrow> (\<exists>t. s = p @ t)"
  by (induction s p rule: has_prefix.induct) auto

lemma index_of_Some:
  "index_of s p = Some i \<Longrightarrow> i \<le> length s \<and> has_prefix (drop i s) p"
proof (induction s p arbitrary: i rule: index_of.induct)
  case (1 s p)
  show ?case
  proof (cases "has_prefix s p")
    case True
    with "1.prems" show ?thesis by (simp add: index_of.simps [of s p])
  next
    case False
    with "1.prems" obtain c s' j where "s = c # s'" "index_of s' p = Some j" "i = Suc j"
      by (auto simp: index_of.simps [of s p] split: list.splits)
    with "1.IH" [OF False, of c s' j] show ?thesis by simp
  qed
qed

lemma index_of_first:
  "index_of s p = Some i \<Longrightarrow> j < i \<Longrightarrow> \<not> has_prefix (drop j s) p"
proof (induction s p arbitrary: i j rule: index_of.induct)
  case (1 s p)
  show ?case
  proof (cases "has_prefix s p")
    case True
    with "1.prems" show ?thesis by (simp add: index_of.simps [of s p])
  next
    case False
    with "1.prems" obtain c s' k where "s = c # s'" "index_of s' p = Some k" "i = Suc k"
      by (auto simp: index_of.simps [of s p] split: list.splits)
    with "1.IH" [OF False, of c s' k] "1.prems"(2) False show ?thesis
      by (cases j) auto
  qed
qed

lemma index_of_None:
  "index_of s p = None \<longleftrightarrow> (\<forall>i\<le>length s. \<not> has_prefix (drop i s) p)"
proof (induction s p rule: index_of.induct)
  case (1 s p)
  show ?case
  proof (cases "has_prefix s p")
    case True
    then have "has_prefix (drop 0 s) p" by simp
    with True show ?thesis by (auto simp: index_of.simps [of s p] simp del: drop0)
  next
    case False
    show ?thesis
    proof (cases s)
      case Nil
      with False show ?thesis by (simp add: index_of.simps [of "[]" p])
    next
      case (Cons c s')
      have "index_of s p = None \<longleftrightarrow> index_of s' p = None"
        using False Cons by (simp add: index_of.simps [of "c # s'" p])
      also have "\<dots> \<longleftrightarrow> (\<forall>i\<le>length s'. \<not> has_prefix (drop i s') p)"
        using "1.IH" [OF False Cons] .
      also have "\<dots> \<longleftrightarrow> (\<forall>i\<le>length s. \<not> has_prefix (drop i s) p)"
        using False Cons by (auto simp: le_Suc_eq less_Suc_eq_le [symmetric] All_less_Suc2)
      finally show ?thesis .
    qed
  qed
qed

lemma contains_iff: "contains s p \<longleftrightarrow> (\<exists>a b. s = a @ p @ b)"
proof
  assume "contains s p"
  then obtain i where "index_of s p = Some i" by (auto simp: contains_def)
  then have "has_prefix (drop i s) p" by (simp add: index_of_Some)
  then obtain t where "drop i s = p @ t" by (auto simp: has_prefix_iff)
  then have "s = take i s @ p @ t" by (metis append_take_drop_id)
  then show "\<exists>a b. s = a @ p @ b" by blast
next
  assume "\<exists>a b. s = a @ p @ b"
  then obtain a b where "s = a @ p @ b" by blast
  then have "has_prefix (drop (length a) s) p" and "length a \<le> length s"
    by (auto simp: has_prefix_iff)
  then show "contains s p" by (auto simp: contains_def index_of_None)
qed

lemma index_byte_Some:
  "index_byte s c = Some i \<longleftrightarrow> i < length s \<and> s ! i = c \<and> c \<notin> set (take i s)"
proof (induction s arbitrary: i)
  case Nil
  then show ?case by simp
next
  case (Cons x s)
  show ?case by (cases i) (auto simp: Cons)
qed

lemma index_byte_None: "index_byte s c = None \<longleftrightarrow> c \<notin> set s"
  by (induction s) auto

section \<open>Association lists\<close>

lemma map_of_Some_distinct:
  "distinct (map fst xs) \<Longrightarrow> (k, v) \<in> set xs \<longleftrightarrow> map_of xs k = Some v"
  by auto

lemma sum_list_distinct_map_of:
  assumes "distinct (map fst xs)"
  shows "sum_list (map (\<lambda>(k, v). f k v) xs) = (\<Sum>k\<in>dom (map_of xs). f k (the (map_of xs k)))"
  using assms
proof (induction xs)
  case Nil
  then show ?case by simp
next
  case (Cons x xs)
  obtain k v where x: "x = (k, v)" by (cases x)
  with Cons.prems have k: "k \<notin> dom (map_of xs)" by (auto simp: dom_map_of_conv_image_fst)
  then have "(\<Sum>j\<in>dom (map_of xs). f j (the (((map_of xs)(k \<mapsto> v)) j)))
           = (\<Sum>j\<in>dom (map_of xs). f j (the (map_of xs j)))"
    by (intro sum.cong) auto
  moreover have "dom (map_of (x # xs)) = insert k (dom (map_of xs))"
    by (simp add: x)
  ultimately show ?case
    using k x Cons by (simp add: finite_dom_map_of fun_upd_same del: fun_upd_apply)
qed

section \<open>Fallible computations\<close>

text \<open>\<^verbatim>\<open>if err != nil { return err }\<close>: the error is \<^const>\<open>Inl\<close>, the value \<^const>\<open>Inr\<close>.\<close>

fun lanjut :: "'e + 'a \<Rightarrow> ('a \<Rightarrow> 'e + 'b) \<Rightarrow> 'e + 'b" where
  "lanjut (Inl e) f = Inl e"
| "lanjut (Inr x) f = f x"

lemma lanjut_Inr_iff: "lanjut m f = Inr y \<longleftrightarrow> (\<exists>x. m = Inr x \<and> f x = Inr y)"
  by (cases m) auto

lemma lanjut_InrE:
  assumes "lanjut m f = Inr y"
  obtains x where "m = Inr x" and "f x = Inr y"
  using assms by (auto simp: lanjut_Inr_iff)

end
