(* ===== verification/Money.thy ===== *)
theory Money
  imports Prelude
begin

text \<open>
  Money and prices: \<^verbatim>\<open>internal/database/repo/upstream/money.go\<close> (the type \<^verbatim>\<open>USD\<close>, an \<^verbatim>\<open>int64\<close> counting
  10^-8 dollars, its parser and its decimal form) and the arithmetic of
  \<^verbatim>\<open>internal/database/repo/upstream/pricing.go\<close> (\<^verbatim>\<open>Price.Cost\<close> and its helpers).  A \<^verbatim>\<open>USD\<close> is an integer
  in the range of \<^verbatim>\<open>int64\<close>; where the code uses \<^verbatim>\<open>math/big\<close> the model uses unbounded integers and
  the \<^verbatim>\<open>IsInt64\<close> test is written out.
\<close>

section \<open>Decimal text\<close>

type_synonym usd = int

definition usd_scale :: nat where "usd_scale = 8"
definition usd_units_per_usd :: int where "usd_units_per_usd = 100000000"
definition usd_units_per_price_unit :: int where "usd_units_per_price_unit = 100"
definition tokens_per_mtok :: int where "tokens_per_mtok = 1000000"

text \<open>All failures wrap \<^verbatim>\<open>ErrInvalidAmount\<close>; the constructors are the messages.\<close>

datatype amount_error =
    TeksKosong | TidakMemuatAngka | TerlaluPresisi nat | DiLuarRentang | BukanDesimal
  | TokenNegatif | HargaNegatif | PengaliTidakSah | JumlahDiLuarRentang

datatype num_error = ErrSyntax | ErrRange

text \<open>\<^verbatim>\<open>strconv.ParseUint\<close> and \<^verbatim>\<open>strconv.ParseInt\<close> in base 10 at 64 bits.\<close>

definition is_digit :: "char \<Rightarrow> bool" where
  "is_digit c \<longleftrightarrow> 48 \<le> (of_char c :: nat) \<and> (of_char c :: nat) \<le> 57"

definition digit_val :: "char \<Rightarrow> nat" where
  "digit_val c = of_char c - 48"

fun parse_uint_loop :: "nat \<Rightarrow> string \<Rightarrow> num_error + nat" where
  "parse_uint_loop n [] = Inr n"
| "parse_uint_loop n (c # cs) =
     (if \<not> is_digit c then Inl ErrSyntax
      else let n1 = n * 10 + digit_val c
           in if 18446744073709551615 < n1 then Inl ErrRange else parse_uint_loop n1 cs)"

definition parse_uint :: "string \<Rightarrow> num_error + nat" where
  "parse_uint s = (if s = [] then Inl ErrSyntax else parse_uint_loop 0 s)"

definition parse_int :: "string \<Rightarrow> num_error + int" where
  "parse_int s =
     (case s of
        [] \<Rightarrow> Inl ErrSyntax
      | c # cs \<Rightarrow>
          let neg = (c = CHR ''-'');
              body = (if c = CHR ''+'' \<or> c = CHR ''-'' then cs else s)
          in lanjut (parse_uint body) (\<lambda>un.
               if \<not> neg \<and> 2 ^ 63 \<le> un then Inl ErrRange
               else if neg \<and> 2 ^ 63 < un then Inl ErrRange
               else Inr (if neg then - int un else int un)))"

text \<open>\<^verbatim>\<open>strings.TrimRight(frac, "0")\<close>.\<close>

definition trim_right_zero :: "string \<Rightarrow> string" where
  "trim_right_zero s = rev (dropWhile (\<lambda>c. c = CHR ''0'') (rev s))"

text \<open>\<^verbatim>\<open>ParseUSD\<close>.\<close>

definition parse_usd :: "string \<Rightarrow> amount_error + usd" where
  "parse_usd s =
     (case trim_space s of
        [] \<Rightarrow> Inl TeksKosong
      | c # cs \<Rightarrow>
          let neg = (c = CHR ''-'');
              t = (if c = CHR ''+'' \<or> c = CHR ''-'' then cs else c # cs);
              (whole, frac) =
                (case index_byte t (CHR ''.'') of
                   Some i \<Rightarrow> (take i t, drop (i + 1) t)
                 | None \<Rightarrow> (t, []))
          in if whole = [] \<and> frac = [] then Inl TidakMemuatAngka
             else
               let frac = (if usd_scale < length frac
                           then let trimmed = trim_right_zero frac
                                in if length trimmed \<le> usd_scale then trimmed else frac
                           else frac)
               in if usd_scale < length frac then Inl (TerlaluPresisi (length frac))
                  else
                    let digits = whole @ frac @ replicate (usd_scale - length frac) (CHR ''0'')
                    in case parse_int digits of
                         Inl ErrRange \<Rightarrow> Inl DiLuarRentang
                       | Inl ErrSyntax \<Rightarrow> Inl BukanDesimal
                       | Inr units \<Rightarrow> Inr (if neg then wrap64 (- units) else units))"

text \<open>\<^verbatim>\<open>%d\<close> of a \<^verbatim>\<open>uint64\<close> and the zero-padded \<^verbatim>\<open>%0*d\<close>.\<close>

definition digit_char :: "nat \<Rightarrow> char" where
  "digit_char d = char_of (48 + d)"

fun show_nat :: "nat \<Rightarrow> string" where
  "show_nat n = (if n < 10 then [digit_char n] else show_nat (n div 10) @ [digit_char (n mod 10)])"

declare show_nat.simps [simp del]

text \<open>\<^verbatim>\<open>strconv.FormatInt\<close> in base 10.\<close>

definition show_int :: "int \<Rightarrow> string" where
  "show_int n = (if n < 0 then CHR ''-'' # show_nat (nat (- n)) else show_nat (nat n))"

definition pad_left :: "nat \<Rightarrow> string \<Rightarrow> string" where
  "pad_left w s = replicate (w - length s) (CHR ''0'') @ s"

text \<open>
  \<^verbatim>\<open>USD.Decimal\<close>.  A negative value is negated as \<^verbatim>\<open>uint64\<close>, so that the magnitude of the smallest
  \<^verbatim>\<open>int64\<close> is still representable.
\<close>

definition decimal_usd :: "usd \<Rightarrow> string" where
  "decimal_usd a =
     (let u = nat (if a < 0 then (- a) mod 2 ^ 64 else a)
      in (if a < 0 then ''-'' else []) @ show_nat (u div nat usd_units_per_usd) @ ''.'' @
         pad_left usd_scale (show_nat (u mod nat usd_units_per_usd)))"

text \<open>\<^verbatim>\<open>USD.IsPriceScale\<close>.\<close>

definition is_price_scale :: "usd \<Rightarrow> bool" where
  "is_price_scale a \<longleftrightarrow> go_mod a usd_units_per_price_unit = 0"

section \<open>Prices and costs\<close>

record price =
  pr_id :: string
  pr_provider_model_id :: string
  pr_input :: usd
  pr_output :: usd
  pr_cached_input :: "usd option"
  pr_reasoning :: "usd option"
  pr_currency :: string
  pr_effective_from :: waktu
  pr_effective_to :: "waktu option"
  pr_source :: string
  pr_created_at :: waktu
  pr_created_by :: "string option"

text \<open>\<^verbatim>\<open>Price.IsCurrent\<close>.\<close>

definition is_current :: "price \<Rightarrow> bool" where
  "is_current p \<longleftrightarrow> pr_effective_to p = None"

record token_usage =
  tu_input :: int
  tu_cached_input :: int
  tu_cache_creation :: int
  tu_cache_creation_1h :: int
  tu_cache_creation_5m :: int
  tu_output :: int
  tu_reasoning :: int

text \<open>\<^verbatim>\<open>TokenUsage.Total\<close> wraps; \<^verbatim>\<open>TotalTerjaga\<close> refuses instead.\<close>

definition token_total :: "token_usage \<Rightarrow> int" where
  "token_total u =
     wrap64 (wrap64 (wrap64 (wrap64 (tu_input u + tu_cached_input u) + tu_cache_creation u)
       + tu_output u) + tu_reasoning u)"

definition total_terjaga :: "token_usage \<Rightarrow> amount_error + int" where
  "total_terjaga u =
     (let total = tu_input u + tu_cached_input u + tu_cache_creation u + tu_output u + tu_reasoning u
      in if \<not> in_i64 total then Inl DiLuarRentang else Inr total)"

record cost_breakdown =
  cb_input :: usd
  cb_cached_input :: usd
  cb_cache_creation :: usd
  cb_output :: usd
  cb_reasoning :: usd
  cb_total :: usd

definition pengali_cache_creation_num :: int where "pengali_cache_creation_num = 5"
definition pengali_cache_creation_den :: int where "pengali_cache_creation_den = 4"
definition pengali_cache_creation_1h_num :: int where "pengali_cache_creation_1h_num = 2"
definition pengali_cache_creation_1h_den :: int where "pengali_cache_creation_1h_den = 1"

text \<open>\<^verbatim>\<open>jumlahUSD\<close>.\<close>

definition jumlah_usd :: "usd list \<Rightarrow> amount_error + usd" where
  "jumlah_usd ks = (let total = sum_list ks in if \<not> in_i64 total then Inl JumlahDiLuarRentang else Inr total)"

text \<open>\<^verbatim>\<open>costOf\<close> and \<^verbatim>\<open>costOfScaled\<close>.\<close>

definition cost_of :: "int \<Rightarrow> usd \<Rightarrow> amount_error + usd" where
  "cost_of tokens per_mtok =
     (if tokens < 0 then Inl TokenNegatif
      else if per_mtok < 0 then Inl HargaNegatif
      else if tokens = 0 \<or> per_mtok = 0 then Inr 0
      else
        let total = go_div (tokens * per_mtok + go_div tokens_per_mtok 2) tokens_per_mtok
        in if \<not> in_i64 total then Inl DiLuarRentang else Inr total)"

definition cost_of_scaled :: "int \<Rightarrow> usd \<Rightarrow> int \<Rightarrow> int \<Rightarrow> amount_error + usd" where
  "cost_of_scaled tokens per_mtok num den =
     (if tokens < 0 then Inl TokenNegatif
      else if per_mtok < 0 then Inl HargaNegatif
      else if tokens = 0 \<or> per_mtok = 0 then Inr 0
      else if num \<le> 0 \<or> den \<le> 0 then Inl PengaliTidakSah
      else
        let pembagi = tokens_per_mtok * den;
            total = go_div (tokens * per_mtok * num + go_div pembagi 2) pembagi
        in if \<not> in_i64 total then Inl DiLuarRentang else Inr total)"

text \<open>\<^verbatim>\<open>Price.Cost\<close>: the parts in the order of the code, stopping at the first failure.\<close>

definition price_cost :: "price \<Rightarrow> token_usage \<Rightarrow> amount_error + cost_breakdown" where
  "price_cost p u =
     (let cached_price = (case pr_cached_input p of None \<Rightarrow> pr_input p | Some v \<Rightarrow> v);
          reasoning_price = (case pr_reasoning p of None \<Rightarrow> pr_output p | Some v \<Rightarrow> v)
      in lanjut (cost_of (tu_input u) (pr_input p)) (\<lambda>inp.
         lanjut (cost_of (tu_cached_input u) cached_price) (\<lambda>cached.
         lanjut (cost_of (tu_output u) (pr_output p)) (\<lambda>outp.
         lanjut (cost_of (tu_reasoning u) reasoning_price) (\<lambda>reason.
         let porsi1h = min (max (tu_cache_creation_1h u) 0) (max (tu_cache_creation u) 0)
         in lanjut (cost_of_scaled (wrap64 (tu_cache_creation u - porsi1h)) (pr_input p)
                pengali_cache_creation_num pengali_cache_creation_den) (\<lambda>biaya5m.
            lanjut (cost_of_scaled porsi1h (pr_input p)
                pengali_cache_creation_1h_num pengali_cache_creation_1h_den) (\<lambda>biaya1h.
            lanjut (jumlah_usd [biaya5m, biaya1h]) (\<lambda>creation.
            lanjut (jumlah_usd [inp, cached, creation, outp, reason]) (\<lambda>total.
            Inr \<lparr>cb_input = inp, cb_cached_input = cached, cb_cache_creation = creation,
                 cb_output = outp, cb_reasoning = reason, cb_total = total\<rparr>)))))))))"


section \<open>Lemmas: decimal text\<close>

lemma of_char_digit_char: "d < 10 \<Longrightarrow> of_char (digit_char d) = 48 + d"
  by (simp add: digit_char_def)

lemma is_digit_digit_char: "d < 10 \<Longrightarrow> is_digit (digit_char d)"
  by (simp add: is_digit_def of_char_digit_char)

lemma digit_val_digit_char: "d < 10 \<Longrightarrow> digit_val (digit_char d) = d"
  by (simp add: digit_val_def of_char_digit_char)

lemma show_nat_not_Nil [simp]: "show_nat n \<noteq> []"
  by (subst show_nat.simps) simp

lemma show_nat_digits: "\<forall>c\<in>set (show_nat n). is_digit c"
proof (induction n rule: show_nat.induct)
  case (1 n)
  then show ?case
    by (subst show_nat.simps) (auto simp: is_digit_digit_char)
qed

definition dec_val :: "nat \<Rightarrow> string \<Rightarrow> nat" where
  "dec_val n s = foldl (\<lambda>a c. a * 10 + digit_val c) n s"

lemma dec_val_append: "dec_val n (s @ t) = dec_val (dec_val n s) t"
  by (simp add: dec_val_def)

lemma dec_val_Nil [simp]: "dec_val n [] = n"
  by (simp add: dec_val_def)

lemma dec_val_Cons: "dec_val n (c # s) = dec_val (n * 10 + digit_val c) s"
  by (simp add: dec_val_def)

lemma dec_val_shift: "dec_val n s = n * 10 ^ length s + dec_val 0 s"
proof (induction s arbitrary: n)
  case Nil
  then show ?case by simp
next
  case (Cons c s)
  have "dec_val n (c # s) = (n * 10 + digit_val c) * 10 ^ length s + dec_val 0 s"
    unfolding dec_val_Cons by (rule Cons)
  moreover have "dec_val 0 (c # s) = digit_val c * 10 ^ length s + dec_val 0 s"
    unfolding dec_val_Cons using Cons [of "digit_val c"] by simp
  ultimately show ?case by (simp add: add_mult_distrib)
qed

lemma dec_val_mono: "n \<le> dec_val n s"
  by (subst dec_val_shift) (simp add: trans_le_add1)

lemma dec_val_show_nat: "dec_val 0 (show_nat n) = n"
proof (induction n rule: show_nat.induct)
  case (1 n)
  show ?case
  proof (cases "n < 10")
    case True
    then show ?thesis by (subst show_nat.simps) (simp add: dec_val_Cons digit_val_digit_char)
  next
    case False
    with 1 show ?thesis
      by (subst show_nat.simps) (simp add: dec_val_append dec_val_Cons digit_val_digit_char)
  qed
qed

lemma digit_zero: "is_digit (CHR ''0'')" "digit_val (CHR ''0'') = 0"
  by (simp_all add: is_digit_def digit_val_def)

lemma dec_val_zeros: "dec_val 0 (replicate k (CHR ''0'')) = 0"
  by (induction k) (simp_all add: dec_val_Cons digit_zero)

lemma parse_uint_loop_digits:
  "\<forall>c\<in>set s. is_digit c \<Longrightarrow> dec_val n s \<le> 18446744073709551615 \<Longrightarrow>
   parse_uint_loop n s = Inr (dec_val n s)"
proof (induction s arbitrary: n)
  case Nil
  then show ?case by simp
next
  case (Cons c s)
  have "n * 10 + digit_val c \<le> dec_val n (c # s)"
    by (simp add: dec_val_Cons dec_val_mono)
  with Cons show ?case by (simp add: dec_val_Cons Let_def)
qed

lemma length_show_nat_le: "n < 10 ^ k \<Longrightarrow> 0 < k \<Longrightarrow> length (show_nat n) \<le> k"
proof (induction n arbitrary: k rule: show_nat.induct)
  case (1 n)
  show ?case
  proof (cases "n < 10")
    case True
    with "1.prems" show ?thesis by (subst show_nat.simps) simp
  next
    case False
    with "1.prems" obtain j where k: "k = Suc j" "0 < j" by (cases k; cases "k = 1") auto
    with "1.prems" have "n div 10 < 10 ^ j" by (simp add: div_less_iff_less_mult mult.commute)
    with "1.IH" [OF False, of j] k False show ?thesis by (subst show_nat.simps) simp
  qed
qed

lemma pad_left_facts:
  assumes "\<forall>c\<in>set s. is_digit c" and "length s \<le> w"
  shows "length (pad_left w s) = w" and "\<forall>c\<in>set (pad_left w s). is_digit c"
    and "dec_val 0 (pad_left w s) = dec_val 0 s"
  using assms by (auto simp: pad_left_def dec_val_append dec_val_zeros digit_zero)

lemma digit_facts:
  assumes "is_digit c"
  shows "c \<noteq> CHR ''-''" "c \<noteq> CHR ''+''" "c \<noteq> CHR ''.''" "\<not> is_space c"
  using assms by (auto simp: is_digit_def is_space_def)

lemma trim_space_id:
  assumes "s \<noteq> []" and "\<not> is_space (hd s)" and "\<not> is_space (last s)"
  shows "trim_space s = s"
proof -
  have "dropWhile is_space s = s" using assms(1,2) by (cases s) auto
  moreover have "dropWhile is_space (rev s) = rev s"
    using assms(1,3) by (cases s rule: rev_cases) auto
  ultimately show ?thesis by (simp add: trim_space_def)
qed

lemma index_byte_append: "c \<notin> set a \<Longrightarrow> index_byte (a @ c # b) c = Some (length a)"
  by (induction a) auto

text \<open>A decimal numeral with eight fractional digits is read back exactly.\<close>

lemma parse_usd_numeral:
  assumes w: "\<forall>c\<in>set w. is_digit c" "w \<noteq> []"
    and f: "\<forall>c\<in>set f. is_digit c" "length f = 8"
    and v: "dec_val 0 (w @ f) < 2 ^ 63"
  shows "parse_usd ((if neg then ''-'' else []) @ w @ ''.'' @ f) =
         Inr (if neg then - int (dec_val 0 (w @ f)) else int (dec_val 0 (w @ f)))"
proof -
  let ?t = "w @ CHR ''.'' # f"
  let ?s = "(if neg then ''-'' else []) @ ?t"
  obtain x xs where wx: "w = x # xs" using w(2) by (cases w) auto
  have x: "x \<noteq> CHR ''-''" "x \<noteq> CHR ''+''" "\<not> is_space x"
    using w(1) wx digit_facts by auto
  have "f \<noteq> []" using f(2) by auto
  then have "last ?s \<in> set f" by (auto simp: last_append)
  then have trim: "trim_space ?s = ?s"
    using f(1) x(3) wx digit_facts(4) by (intro trim_space_id) (auto simp: is_space_def)
  have dot: "index_byte ?t (CHR ''.'') = Some (length w)"
    using w(1) digit_facts(3) by (intro index_byte_append) auto
  have "parse_uint (w @ f) = Inr (dec_val 0 (w @ f))"
    unfolding parse_uint_def using w f v by (auto intro!: parse_uint_loop_digits)
  then have pint: "parse_int (w @ f) = Inr (int (dec_val 0 (w @ f)))"
    using v x wx by (simp add: parse_int_def not_le)
  have wrap: "wrap64 (- int (dec_val 0 (w @ f))) = - int (dec_val 0 (w @ f))"
    using v by (intro wrap64_id) (simp add: in_i64_def)
  show ?thesis
  proof (cases neg)
    case True
    then show ?thesis
      using trim dot pint wrap f(2) w(2)
      by (simp add: parse_usd_def usd_scale_def Let_def)
  next
    case False
    then show ?thesis
      using trim dot pint f(2) w(2) x wx
      by (simp add: parse_usd_def usd_scale_def Let_def)
  qed
qed

lemma parse_decimal_usd:
  assumes "- (2 ^ 63) < a" and "a < 2 ^ 63"
  shows "parse_usd (decimal_usd a) = Inr a"
proof -
  let ?u = "nat \<bar>a\<bar>"
  let ?w = "show_nat (?u div 100000000)"
  let ?r = "show_nat (?u mod 100000000)"
  let ?f = "pad_left 8 ?r"
  have "- a mod 18446744073709551616 = - a" if "a < 0"
    using that assms by simp
  then have dec: "decimal_usd a = (if a < 0 then ''-'' else []) @ ?w @ ''.'' @ ?f"
    by (auto simp: decimal_usd_def usd_units_per_usd_def usd_scale_def Let_def)
  have "length ?r \<le> 8" by (rule length_show_nat_le) simp_all
  note pad = pad_left_facts [OF show_nat_digits this]
  have val: "dec_val 0 (?w @ ?f) = ?u"
  proof -
    have "dec_val 0 (?w @ ?f) = dec_val (?u div 100000000) ?f"
      by (simp only: dec_val_append dec_val_show_nat)
    also have "\<dots> = (?u div 100000000) * 10 ^ length ?f + dec_val 0 ?f"
      by (rule dec_val_shift)
    also have "\<dots> = (?u div 100000000) * 100000000 + ?u mod 100000000"
      by (simp only: pad dec_val_show_nat) simp
    finally show ?thesis by simp
  qed
  have "?u < 2 ^ 63" using assms by (simp add: nat_less_iff)
  then have "parse_usd (decimal_usd a) = Inr (if a < 0 then - int ?u else int ?u)"
    unfolding dec using parse_usd_numeral [OF show_nat_digits show_nat_not_Nil pad(2,1),
      of "?u div 100000000" "a < 0", unfolded val] by blast
  then show ?thesis by auto
qed

section \<open>Lemmas: costs\<close>

lemma cost_of_Inr:
  "cost_of t p = Inr c \<longleftrightarrow>
   0 \<le> t \<and> 0 \<le> p \<and> c = (t * p + 500000) div 1000000 \<and> in_i64 c"
proof -
  have "go_div (t * p + 500000) 1000000 = (t * p + 500000) div 1000000" if "0 \<le> t" "0 \<le> p"
    using that by (intro go_div_nonneg) simp_all
  moreover have "go_div 1000000 2 = 500000" by (simp add: go_div_nonneg)
  ultimately show ?thesis
    by (auto simp: cost_of_def tokens_per_mtok_def Let_def in_i64_def)
qed

lemma cost_of_scaled_Inr:
  assumes "0 < num" and "0 < den"
  shows "cost_of_scaled t p num den = Inr c \<longleftrightarrow>
   0 \<le> t \<and> 0 \<le> p \<and> c = (t * p * num + 500000 * den) div (1000000 * den) \<and> in_i64 c"
proof -
  have half: "go_div (1000000 * den) 2 = 500000 * den"
    using assms by (subst go_div_nonneg) simp_all
  have "go_div (t * p * num + 500000 * den) (1000000 * den)
        = (t * p * num + 500000 * den) div (1000000 * den)" if "0 \<le> t" "0 \<le> p"
    using that assms by (intro go_div_nonneg) simp_all
  moreover have "(500000 * den) div (1000000 * den) = 0"
    using assms by (intro div_pos_pos_trivial) simp_all
  ultimately show ?thesis
    using assms half
    by (auto simp: cost_of_scaled_def tokens_per_mtok_def Let_def in_i64_def)
qed

lemma half_up_bounds:
  fixes x m :: int
  assumes "0 < m"
  shows "2 * m * ((2 * x + m) div (2 * m)) \<le> 2 * x + m"
    and "2 * x + m < 2 * m * ((2 * x + m) div (2 * m)) + 2 * m"
proof -
  have "2 * x + m = 2 * m * ((2 * x + m) div (2 * m)) + (2 * x + m) mod (2 * m)"
    by simp
  moreover have "0 \<le> (2 * x + m) mod (2 * m)" "(2 * x + m) mod (2 * m) < 2 * m"
    using assms by simp_all
  ultimately show "2 * m * ((2 * x + m) div (2 * m)) \<le> 2 * x + m"
    and "2 * x + m < 2 * m * ((2 * x + m) div (2 * m)) + 2 * m" by linarith+
qed

lemma cost_of_rounds:
  assumes "cost_of t p = Inr c"
  shows "2 * \<bar>c * 1000000 - t * p\<bar> \<le> 1000000" and "0 \<le> c"
proof -
  from assms have c: "c = (t * p + 500000) div 1000000" and n: "0 \<le> t * p"
    by (simp_all add: cost_of_Inr)
  have "c * 1000000 \<le> t * p + 500000" "t * p + 500000 < c * 1000000 + 1000000"
    using c by linarith+
  then show "2 * \<bar>c * 1000000 - t * p\<bar> \<le> 1000000"
    unfolding abs_if by (simp split: if_split)
  show "0 \<le> c" using c n by linarith
qed

lemma cost_of_mono:
  "cost_of t p = Inr c \<Longrightarrow> cost_of t' p = Inr c' \<Longrightarrow> t \<le> t' \<Longrightarrow> c \<le> c'"
  by (auto simp: cost_of_Inr intro!: zdiv_mono1 mult_right_mono)

lemma jumlah_usd_Inr: "jumlah_usd ks = Inr c \<longleftrightarrow> c = sum_list ks \<and> in_i64 c"
  by (auto simp: jumlah_usd_def Let_def)

lemmas price_cost_simps =
  price_cost_def lanjut_Inr_iff cost_of_Inr cost_of_scaled_Inr jumlah_usd_Inr Let_def
  pengali_cache_creation_num_def pengali_cache_creation_den_def
  pengali_cache_creation_1h_num_def pengali_cache_creation_1h_den_def

text \<open>
  The exact cost in units of one four-millionth of the smallest money unit: every part is
  tokens times price over a million, cache writes at 5/4 (five minutes) and 2/1 (one hour) of the
  input price.
\<close>

definition porsi_1h :: "token_usage \<Rightarrow> int" where
  "porsi_1h u = min (max (tu_cache_creation_1h u) 0) (max (tu_cache_creation u) 0)"

definition harga_cached :: "price \<Rightarrow> usd" where
  "harga_cached p = (case pr_cached_input p of None \<Rightarrow> pr_input p | Some v \<Rightarrow> v)"

definition harga_reasoning :: "price \<Rightarrow> usd" where
  "harga_reasoning p = (case pr_reasoning p of None \<Rightarrow> pr_output p | Some v \<Rightarrow> v)"

definition exact_cost :: "price \<Rightarrow> token_usage \<Rightarrow> int" where
  "exact_cost p u =
     4 * (tu_input u * pr_input p) + 4 * (tu_cached_input u * harga_cached p) +
     4 * (tu_output u * pr_output p) + 4 * (tu_reasoning u * harga_reasoning p) +
     5 * ((tu_cache_creation u - porsi_1h u) * pr_input p) + 8 * (porsi_1h u * pr_input p)"

lemma half_up_int:
  fixes x m c :: int
  assumes "0 < m" and "c = (x + m) div (2 * m)"
  shows "2 * m * c \<le> x + m" and "x + m < 2 * m * c + 2 * m"
proof -
  have eq: "x + m = 2 * m * c + (x + m) mod (2 * m)" using assms by simp
  have "0 \<le> (x + m) mod (2 * m)" "(x + m) mod (2 * m) < 2 * m" using assms(1) by simp_all
  with eq show "2 * m * c \<le> x + m" and "x + m < 2 * m * c + 2 * m" by linarith+
qed

lemma cost_of_bounds:
  assumes "cost_of t p = Inr c"
  shows "0 \<le> c" "1000000 * c \<le> t * p + 500000" "t * p + 500000 < 1000000 * c + 1000000"
proof -
  from assms have c: "c = (t * p + 500000) div 1000000" and n: "0 \<le> t * p"
    by (simp_all add: cost_of_Inr)
  show "1000000 * c \<le> t * p + 500000" "t * p + 500000 < 1000000 * c + 1000000"
    using half_up_int [of 500000 c "t * p"] c by simp_all
  show "0 \<le> c" using c n by simp
qed

lemma cost_of_scaled_bounds:
  assumes "cost_of_scaled t p num den = Inr c" and "0 < num" and "0 < den"
  shows "0 \<le> c" "1000000 * den * c \<le> t * p * num + 500000 * den"
    "t * p * num + 500000 * den < 1000000 * den * c + 1000000 * den"
proof -
  from assms have c: "c = (t * p * num + 500000 * den) div (1000000 * den)" and n: "0 \<le> t * p * num"
    by (simp_all add: cost_of_scaled_Inr)
  show "1000000 * den * c \<le> t * p * num + 500000 * den"
    "t * p * num + 500000 * den < 1000000 * den * c + 1000000 * den"
    using half_up_int [of "500000 * den" c "t * p * num"] assms(3) c by (simp_all add: algebra_simps)
  show "0 \<le> c" using c n assms(3) by (simp add: pos_imp_zdiv_nonneg_iff)
qed

lemma price_cost_Inr:
  "price_cost p u = Inr b \<longleftrightarrow>
     (\<exists>h5 h1.
        cost_of (tu_input u) (pr_input p) = Inr (cb_input b) \<and>
        cost_of (tu_cached_input u) (harga_cached p) = Inr (cb_cached_input b) \<and>
        cost_of (tu_output u) (pr_output p) = Inr (cb_output b) \<and>
        cost_of (tu_reasoning u) (harga_reasoning p) = Inr (cb_reasoning b) \<and>
        cost_of_scaled (wrap64 (tu_cache_creation u - porsi_1h u)) (pr_input p) 5 4 = Inr h5 \<and>
        cost_of_scaled (porsi_1h u) (pr_input p) 2 1 = Inr h1 \<and>
        cb_cache_creation b = h5 + h1 \<and> in_i64 (h5 + h1) \<and>
        cb_total b = cb_input b + cb_cached_input b + cb_cache_creation b + cb_output b + cb_reasoning b \<and>
        in_i64 (cb_total b))"
proof -
  have b: "b = \<lparr>cb_input = i, cb_cached_input = c, cb_cache_creation = w, cb_output = ou, cb_reasoning = r, cb_total = t\<rparr>
    \<longleftrightarrow> cb_input b = i \<and> cb_cached_input b = c \<and> cb_cache_creation b = w \<and> cb_output b = ou \<and>
        cb_reasoning b = r \<and> cb_total b = t" for i c w ou r t
    by (cases b) auto
  show ?thesis
    unfolding price_cost_def Let_def lanjut_Inr_iff jumlah_usd_Inr porsi_1h_def [symmetric]
      harga_cached_def [symmetric] harga_reasoning_def [symmetric]
      pengali_cache_creation_num_def pengali_cache_creation_den_def
      pengali_cache_creation_1h_num_def pengali_cache_creation_1h_den_def
    by (auto simp: eq_commute [of _ b] b add.assoc)
qed

lemma porsi_1h_bounds: "0 \<le> porsi_1h u" "0 \<le> tu_cache_creation u \<Longrightarrow> porsi_1h u \<le> tu_cache_creation u"
  by (simp_all add: porsi_1h_def)

lemma wrap64_creation:
  assumes "in_i64 (tu_cache_creation u)"
  shows "wrap64 (tu_cache_creation u - porsi_1h u) = tu_cache_creation u - porsi_1h u"
proof -
  have "porsi_1h u \<le> max (tu_cache_creation u) 0" "0 \<le> porsi_1h u" by (simp_all add: porsi_1h_def)
  with assms show ?thesis by (intro wrap64_id) (auto simp: in_i64_def max_def split: if_splits)
qed

lemma cost_of_defined:
  assumes "0 \<le> t" "0 \<le> p" "t * p + 500000 \<le> 1000000 * max_i64"
  shows "\<exists>c. cost_of t p = Inr c"
proof -
  let ?c = "(t * p + 500000) div 1000000"
  have "0 \<le> t * p" using assms(1,2) by simp
  then have "0 \<le> ?c" by simp
  moreover have "?c \<le> max_i64" using assms(3) by linarith
  ultimately have "cost_of t p = Inr ?c"
    using assms(1,2) by (simp add: cost_of_Inr in_i64_nonneg)
  then show ?thesis by blast
qed

lemma cost_of_scaled_defined:
  assumes "0 \<le> t" "0 \<le> p" "0 < num" "0 < den"
    "t * p * num + 500000 * den \<le> 1000000 * den * max_i64"
  shows "\<exists>c. cost_of_scaled t p num den = Inr c"
proof -
  let ?c = "(t * p * num + 500000 * den) div (1000000 * den)"
  have n: "0 \<le> t * p * num" using assms by simp
  have "0 \<le> ?c" using n assms(4) by (simp add: pos_imp_zdiv_nonneg_iff)
  moreover have "?c \<le> (1000000 * den * max_i64) div (1000000 * den)"
    using assms(4,5) by (intro zdiv_mono1) simp_all
  then have "?c \<le> max_i64" using assms(4) by simp
  ultimately have "cost_of_scaled t p num den = Inr ?c"
    using assms by (simp add: cost_of_scaled_Inr in_i64_nonneg)
  then show ?thesis by blast
qed

lemma show_nat_small: "n < 10 \<Longrightarrow> show_nat n = [digit_char n]"
  by (subst show_nat.simps) simp

lemma show_nat_step: "10 \<le> n \<Longrightarrow> show_nat n = show_nat (n div 10) @ [digit_char (n mod 10)]"
  by (subst show_nat.simps) simp

lemma digit_char_table:
  "digit_char 0 = CHR ''0''" "digit_char (Suc 0) = CHR ''1''" "digit_char 2 = CHR ''2''"
  "digit_char 3 = CHR ''3''" "digit_char 4 = CHR ''4''" "digit_char 5 = CHR ''5''"
  "digit_char 6 = CHR ''6''" "digit_char 7 = CHR ''7''" "digit_char 8 = CHR ''8''"
  "digit_char 9 = CHR ''9''"
  by code_simp+

lemma replicate_numeral': "replicate (numeral k) x = x # replicate (pred_numeral k) x"
  by (simp add: numeral_eq_Suc)

lemmas decimal_usd_eval = decimal_usd_def usd_units_per_usd_def usd_scale_def pad_left_def
  show_nat_small show_nat_step digit_char_table Let_def replicate_numeral'

lemmas parse_usd_eval = parse_usd_def trim_space_def is_space_def usd_scale_def parse_int_def
  parse_uint_def trim_right_zero_def is_digit_def digit_val_def wrap64_def Let_def replicate_numeral'

section \<open>Properties\<close>

text \<open>C32.  The recorded cost is the sum of its five non-negative parts and is within three of
  the smallest money units of the exact cost, six roundings of at most half a unit each; no
  overflow can hide in it.\<close>

theorem price_cost_accurate:
  assumes "price_cost p u = Inr b" and "in_i64 (tu_cache_creation u)"
  shows "cb_total b = cb_input b + cb_cached_input b + cb_cache_creation b + cb_output b + cb_reasoning b
    \<and> 0 \<le> cb_input b \<and> 0 \<le> cb_cached_input b \<and> 0 \<le> cb_cache_creation b \<and> 0 \<le> cb_output b
    \<and> 0 \<le> cb_reasoning b \<and> in_i64 (cb_total b)
    \<and> \<bar>4000000 * cb_total b - exact_cost p u\<bar> \<le> 3 * 4000000"
proof -
  from assms(1) obtain h5 h1 where
    i: "cost_of (tu_input u) (pr_input p) = Inr (cb_input b)" and
    c: "cost_of (tu_cached_input u) (harga_cached p) = Inr (cb_cached_input b)" and
    ou: "cost_of (tu_output u) (pr_output p) = Inr (cb_output b)" and
    r: "cost_of (tu_reasoning u) (harga_reasoning p) = Inr (cb_reasoning b)" and
    h5: "cost_of_scaled (tu_cache_creation u - porsi_1h u) (pr_input p) 5 4 = Inr h5" and
    h1: "cost_of_scaled (porsi_1h u) (pr_input p) 2 1 = Inr h1" and
    s: "cb_cache_creation b = h5 + h1" and
    t: "cb_total b = cb_input b + cb_cached_input b + cb_cache_creation b + cb_output b + cb_reasoning b" and
    m: "in_i64 (cb_total b)"
    unfolding price_cost_Inr wrap64_creation [OF assms(2)] by blast
  note bounds = cost_of_bounds [OF i] cost_of_bounds [OF c] cost_of_bounds [OF ou] cost_of_bounds [OF r]
    cost_of_scaled_bounds [OF h5] cost_of_scaled_bounds [OF h1]
  have "\<bar>4000000 * cb_total b - exact_cost p u\<bar> \<le> 3 * 4000000"
    using bounds s t by (simp add: exact_cost_def abs_le_iff)
  with bounds s t m show ?thesis by simp
qed

lemma price_cost_accurate_witness:
  "let p = \<lparr>pr_id = ''p'', pr_provider_model_id = ''m'', pr_input = 100, pr_output = 100,
            pr_cached_input = None, pr_reasoning = None, pr_currency = ''USD'',
            pr_effective_from = 0, pr_effective_to = None, pr_source = ''manual'',
            pr_created_at = 0, pr_created_by = None\<rparr>;
       u = \<lparr>tu_input = 5000, tu_cached_input = 5000, tu_cache_creation = 6500,
            tu_cache_creation_1h = 2500, tu_cache_creation_5m = 4000, tu_output = 5000, tu_reasoning = 5000\<rparr>;
       b = \<lparr>cb_input = 1, cb_cached_input = 1, cb_cache_creation = 2, cb_output = 1,
            cb_reasoning = 1, cb_total = 6\<rparr>
   in price_cost p u = Inr b \<and> \<bar>4000000 * cb_total b - exact_cost p u\<bar> = 3 * 4000000
      \<and> \<bar>4000000 * cb_total b - exact_cost p u\<bar> \<le> 3 * 4000000"
proof -
  let ?p = "\<lparr>pr_id = ''p'', pr_provider_model_id = ''m'', pr_input = 100, pr_output = 100,
            pr_cached_input = None, pr_reasoning = None, pr_currency = ''USD'',
            pr_effective_from = 0, pr_effective_to = None, pr_source = ''manual'',
            pr_created_at = 0, pr_created_by = None\<rparr>"
  let ?u = "\<lparr>tu_input = 5000, tu_cached_input = 5000, tu_cache_creation = 6500,
            tu_cache_creation_1h = 2500, tu_cache_creation_5m = 4000, tu_output = 5000, tu_reasoning = 5000\<rparr>"
  let ?b = "\<lparr>cb_input = 1, cb_cached_input = 1, cb_cache_creation = 2, cb_output = 1,
            cb_reasoning = 1, cb_total = 6\<rparr>"
  have c: "price_cost ?p ?u = Inr ?b" by code_simp
  have "\<bar>4000000 * cb_total ?b - exact_cost ?p ?u\<bar> \<le> 3 * 4000000"
    using price_cost_accurate [OF c] by (simp add: in_i64_def)
  moreover have "\<bar>4000000 * cb_total ?b - exact_cost ?p ?u\<bar> = 3 * 4000000" by code_simp
  ultimately show ?thesis using c by (simp add: Let_def)
qed

text \<open> A bill is refused only for a reason: with non-negative token counts and prices, and
  an exact cost that leaves room for the roundings below the largest \<^verbatim>\<open>int64\<close>, \<^verbatim>\<open>Price.Cost\<close>
  returns a breakdown.\<close>

theorem price_cost_defined:
  assumes tok: "0 \<le> tu_input u" "0 \<le> tu_cached_input u" "0 \<le> tu_cache_creation u"
      "0 \<le> tu_output u" "0 \<le> tu_reasoning u"
    and pr: "0 \<le> pr_input p" "0 \<le> pr_output p" "0 \<le> harga_cached p" "0 \<le> harga_reasoning p"
    and i64: "in_i64 (tu_cache_creation u)"
    and fits: "exact_cost p u + 12000000 \<le> 4000000 * max_i64"
  shows "\<exists>b. price_cost p u = Inr b"
proof -
  let ?h = "porsi_1h u"
  have h: "0 \<le> ?h" "0 \<le> tu_cache_creation u - ?h"
    using porsi_1h_bounds [of u] tok(3) by simp_all
  have pos: "0 \<le> tu_input u * pr_input p" "0 \<le> tu_cached_input u * harga_cached p"
    "0 \<le> tu_output u * pr_output p" "0 \<le> tu_reasoning u * harga_reasoning p"
    "0 \<le> (tu_cache_creation u - ?h) * pr_input p" "0 \<le> ?h * pr_input p"
    using tok pr h by simp_all
  note x = fits [unfolded exact_cost_def]
  obtain i where i: "cost_of (tu_input u) (pr_input p) = Inr i"
    using cost_of_defined [OF tok(1) pr(1)] x pos by fastforce
  obtain c where c: "cost_of (tu_cached_input u) (harga_cached p) = Inr c"
    using cost_of_defined [OF tok(2) pr(3)] x pos by fastforce
  obtain ou where ou: "cost_of (tu_output u) (pr_output p) = Inr ou"
    using cost_of_defined [OF tok(4) pr(2)] x pos by fastforce
  obtain r where r: "cost_of (tu_reasoning u) (harga_reasoning p) = Inr r"
    using cost_of_defined [OF tok(5) pr(4)] x pos by fastforce
  obtain h5 where h5: "cost_of_scaled (tu_cache_creation u - ?h) (pr_input p) 5 4 = Inr h5"
    using cost_of_scaled_defined [OF h(2) pr(1), of 5 4] x pos by fastforce
  obtain h1 where h1: "cost_of_scaled ?h (pr_input p) 2 1 = Inr h1"
    using cost_of_scaled_defined [OF h(1) pr(1), of 2 1] x pos by fastforce
  note bounds = cost_of_bounds [OF i] cost_of_bounds [OF c] cost_of_bounds [OF ou] cost_of_bounds [OF r]
    cost_of_scaled_bounds [OF h5] cost_of_scaled_bounds [OF h1]
  let ?b = "\<lparr>cb_input = i, cb_cached_input = c, cb_cache_creation = h5 + h1, cb_output = ou,
    cb_reasoning = r, cb_total = i + c + (h5 + h1) + ou + r\<rparr>"
  have "in_i64 (h5 + h1)" "in_i64 (i + c + (h5 + h1) + ou + r)"
    using bounds x pos by (auto intro!: in_i64_nonneg)
  then have "price_cost p u = Inr ?b"
    unfolding price_cost_Inr wrap64_creation [OF i64] using i c ou r h5 h1 by simp
  then show ?thesis by blast
qed

lemma price_cost_defined_witness:
  "\<exists>b. price_cost
     \<lparr>pr_id = ''p'', pr_provider_model_id = ''m'', pr_input = 250000000, pr_output = 1000000000,
      pr_cached_input = Some 125000000, pr_reasoning = None, pr_currency = ''USD'',
      pr_effective_from = 0, pr_effective_to = None, pr_source = ''manual'',
      pr_created_at = 0, pr_created_by = None\<rparr>
     \<lparr>tu_input = 1200, tu_cached_input = 300, tu_cache_creation = 90, tu_cache_creation_1h = 40,
      tu_cache_creation_5m = 50, tu_output = 700, tu_reasoning = 20\<rparr> = Inr b"
  by (rule price_cost_defined; code_simp)

text \<open> A stored amount survives the trip through its decimal text: \<^verbatim>\<open>ParseUSD\<close> reads back
  what \<^verbatim>\<open>USD.Decimal\<close> writes, for every \<^verbatim>\<open>int64\<close> but the smallest.\<close>

theorem usd_roundtrip:
  assumes "- (2 ^ 63) < a" and "a < 2 ^ 63"
  shows "parse_usd (decimal_usd a) = Inr a"
  by (rule parse_decimal_usd [OF assms])

lemma usd_roundtrip_witness: "decimal_usd (- 250) = ''-0.00000250'' \<and> parse_usd (decimal_usd (- 250)) = Inr (- 250)"
proof
  show "decimal_usd (- 250) = ''-0.00000250''" by (simp add: decimal_usd_eval)
  show "parse_usd (decimal_usd (- 250)) = Inr (- 250)" by (rule usd_roundtrip) simp_all
qed

text \<open>What \<^verbatim>\<open>ParseUSD\<close> does with odd signs and with the smallest \<^verbatim>\<open>int64\<close>: a doubled sign is
  accepted and the two signs multiply, and the text of the smallest value is out of range.\<close>

theorem parse_usd_odd_signs:
  "parse_usd ''--5'' = Inr 500000000 \<and> parse_usd ''+-5'' = Inr (- 500000000) \<and>
   parse_usd (decimal_usd (- (2 ^ 63))) = Inl DiLuarRentang"
proof (intro conjI)
  show "parse_usd ''--5'' = Inr 500000000" "parse_usd ''+-5'' = Inr (- 500000000)"
    by (simp_all add: parse_usd_eval)
  have "decimal_usd (- (2 ^ 63)) = ''-92233720368.54775808''"
    by (simp add: decimal_usd_eval)
  then show "parse_usd (decimal_usd (- (2 ^ 63))) = Inl DiLuarRentang"
    by (simp add: parse_usd_eval)
qed

end
