(* ===== verification/Price_Table.thy ===== *)
theory Price_Table
  imports Money
begin

text \<open>
  The price history of \<^verbatim>\<open>internal/database/repo/upstream/pricing.go\<close>: \<^verbatim>\<open>PricingRepo.Set\<close>, which closes
  the open row and opens a new one inside a transaction, and the readers \<^verbatim>\<open>At\<close>, \<^verbatim>\<open>Current\<close>,
  \<^verbatim>\<open>CurrentAll\<close> and \<^verbatim>\<open>AdaHargaMasaDepanTerbuka\<close>.  The table \<^verbatim>\<open>model_pricing\<close> is a list of rows; the
  statements of the Go code are list operations and the constraints are those of
  \<^verbatim>\<open>internal/database/migrations/0004_models.sql\<close>.  A failing statement aborts the transaction, so an
  error leaves the table as it was.  Existence of the referenced model mapping and user, the
  clock of the database and the generated key are arguments.
\<close>

section \<open>Validation\<close>

definition is_hex_byte :: "char \<Rightarrow> bool" where
  "is_hex_byte c \<longleftrightarrow>
     (let n = (of_char c :: nat)
      in (48 \<le> n \<and> n \<le> 57) \<or> (97 \<le> n \<and> n \<le> 102) \<or> (65 \<le> n \<and> n \<le> 70))"

text \<open>\<^verbatim>\<open>idOK\<close>: the shape of a UUID.\<close>

definition id_ok :: "string \<Rightarrow> bool" where
  "id_ok s \<longleftrightarrow>
     length s = 36 \<and>
     list_all (\<lambda>i. if i = 8 \<or> i = 13 \<or> i = 18 \<or> i = 23 then s ! i = CHR ''-'' else is_hex_byte (s ! i))
       [0..<36]"

text \<open>\<^verbatim>\<open>strOr\<close>.\<close>

definition str_or :: "string \<Rightarrow> string \<Rightarrow> string" where
  "str_or v d = (if trim_space v = [] then d else v)"

record set_price_params =
  sp_provider_model_id :: string
  sp_input :: usd
  sp_output :: usd
  sp_cached_input :: "usd option"
  sp_reasoning :: "usd option"
  sp_currency :: string
  sp_effective_from :: waktu
  sp_source :: string
  sp_created_by :: "string option"

datatype nama_harga = HargaInput | HargaOutput | HargaCached | HargaReasoning

datatype set_error =
    PerluTx
  | ReferensiTidakSah
  | HargaNegatifParam nama_harga
  | HargaTerlaluPresisi nama_harga
  | KonflikHarga waktu
  | KonflikUnik
  | GalatKendala

text \<open>The loop of \<^verbatim>\<open>SetPriceParams.validate\<close> over the four prices, the first failure winning.\<close>

fun periksa_harga :: "(nama_harga \<times> usd option) list \<Rightarrow> set_error option" where
  "periksa_harga [] = None"
| "periksa_harga ((n, None) # fs) = periksa_harga fs"
| "periksa_harga ((n, Some v) # fs) =
     (if v < 0 then Some (HargaNegatifParam n)
      else if \<not> is_price_scale v then Some (HargaTerlaluPresisi n)
      else periksa_harga fs)"

definition validate_price :: "set_price_params \<Rightarrow> set_error option" where
  "validate_price p =
     (if \<not> id_ok (sp_provider_model_id p) then Some ReferensiTidakSah
      else periksa_harga
        [(HargaInput, Some (sp_input p)), (HargaOutput, Some (sp_output p)),
         (HargaCached, sp_cached_input p), (HargaReasoning, sp_reasoning p)])"

section \<open>The table\<close>

text \<open>\<^verbatim>\<open>numeric(14,6)\<close>: eight digits before the point.\<close>

definition muat_numeric :: "usd \<Rightarrow> bool" where
  "muat_numeric v \<longleftrightarrow> \<bar>v\<bar> < 10 ^ 8 * usd_units_per_usd"

text \<open>\<^verbatim>\<open>currency ~ '^[A-Z]{3}$'\<close>.\<close>

definition currency_format :: "string \<Rightarrow> bool" where
  "currency_format s \<longleftrightarrow> length s = 3 \<and> list_all (\<lambda>c. 65 \<le> (of_char c :: nat) \<and> (of_char c :: nat) \<le> 90) s"

text \<open>The check constraints of a row.\<close>

definition baris_sah :: "price \<Rightarrow> bool" where
  "baris_sah r \<longleftrightarrow>
     0 \<le> pr_input r \<and> 0 \<le> pr_output r \<and>
     (case pr_cached_input r of None \<Rightarrow> True | Some v \<Rightarrow> 0 \<le> v \<and> muat_numeric v) \<and>
     (case pr_reasoning r of None \<Rightarrow> True | Some v \<Rightarrow> 0 \<le> v \<and> muat_numeric v) \<and>
     muat_numeric (pr_input r) \<and> muat_numeric (pr_output r) \<and>
     (case pr_effective_to r of None \<Rightarrow> True | Some t \<Rightarrow> pr_effective_from r < t) \<and>
     currency_format (pr_currency r)"

text \<open>The range predicate shared by \<^verbatim>\<open>At\<close>, \<^verbatim>\<open>Current\<close> and \<^verbatim>\<open>CurrentAll\<close>.\<close>

definition berlaku_pada :: "waktu \<Rightarrow> price \<Rightarrow> bool" where
  "berlaku_pada t r \<longleftrightarrow>
     pr_effective_from r \<le> t \<and> (case pr_effective_to r of None \<Rightarrow> True | Some e \<Rightarrow> t < e)"

text \<open>\<^verbatim>\<open>PricingRepo.At\<close>; \<^verbatim>\<open>PricingRepo.Current\<close> is the same query at the clock of the database.\<close>

definition price_at :: "price list \<Rightarrow> string \<Rightarrow> waktu \<Rightarrow> price option" where
  "price_at T pm t =
     (if \<not> id_ok pm then None
      else case sort_stable_func (\<lambda>a b. cmp_compare (pr_effective_from b) (pr_effective_from a))
              (filter (\<lambda>r. pr_provider_model_id r = to_lower pm \<and> berlaku_pada t r) T) of
             [] \<Rightarrow> None
           | r # _ \<Rightarrow> Some r)"

definition price_current :: "price list \<Rightarrow> waktu \<Rightarrow> string \<Rightarrow> price option" where
  "price_current T now pm =
     (if \<not> id_ok pm then None
      else case sort_stable_func (\<lambda>a b. cmp_compare (pr_effective_from b) (pr_effective_from a))
              (filter (\<lambda>r. pr_provider_model_id r = to_lower pm \<and> berlaku_pada now r) T) of
             [] \<Rightarrow> None
           | r # _ \<Rightarrow> Some r)"

definition price_current_all :: "price list \<Rightarrow> waktu \<Rightarrow> price list" where
  "price_current_all T now =
     sort_stable_func (\<lambda>a b. let c = cmp_compare (pr_provider_model_id a) (pr_provider_model_id b)
                             in if c \<noteq> 0 then c
                                else cmp_compare (pr_effective_from a) (pr_effective_from b))
       (filter (berlaku_pada now) T)"

text \<open>\<^verbatim>\<open>AdaHargaMasaDepanTerbuka\<close>; \<^const>\<open>None\<close> is \<^verbatim>\<open>ErrNotFound\<close>.\<close>

definition ada_harga_masa_depan :: "price list \<Rightarrow> waktu \<Rightarrow> string \<Rightarrow> bool option" where
  "ada_harga_masa_depan T now pm =
     (if \<not> id_ok pm then None
      else Some (list_ex (\<lambda>r. pr_provider_model_id r = to_lower pm \<and> pr_effective_to r = None
                              \<and> now < pr_effective_from r) T))"

text \<open>\<^verbatim>\<open>update model_pricing set effective_to = ... where id = ...\<close>.\<close>

definition tutup :: "string \<Rightarrow> waktu \<Rightarrow> price list \<Rightarrow> price list" where
  "tutup i t T = map (\<lambda>r. if pr_id r = i then r\<lparr>pr_effective_to := Some t\<rparr> else r) T"

text \<open>
  \<^verbatim>\<open>insert into model_pricing\<close> with the check constraints, \<^verbatim>\<open>unique (provider_model_id, effective_from)\<close>,
  the partial unique index on open rows and the foreign keys.
\<close>

definition sisip_baris ::
    "(string \<Rightarrow> bool) \<Rightarrow> (string \<Rightarrow> bool) \<Rightarrow> price \<Rightarrow> price list \<Rightarrow> set_error + price list" where
  "sisip_baris pm_ada user_ada r T =
     (if \<not> baris_sah r then Inl GalatKendala
      else if list_ex (\<lambda>q. pr_id q = pr_id r) T then Inl KonflikUnik
      else if list_ex (\<lambda>q. pr_provider_model_id q = pr_provider_model_id r
                         \<and> pr_effective_from q = pr_effective_from r) T then Inl KonflikUnik
      else if pr_effective_to r = None \<and>
              list_ex (\<lambda>q. pr_provider_model_id q = pr_provider_model_id r \<and> pr_effective_to q = None) T
           then Inl KonflikUnik
      else if \<not> pm_ada (pr_provider_model_id r) then Inl ReferensiTidakSah
      else if (case pr_created_by r of None \<Rightarrow> False | Some u \<Rightarrow> \<not> user_ada u) then Inl ReferensiTidakSah
      else Inr (T @ [r]))"

text \<open>\<^verbatim>\<open>PricingRepo.Set\<close>.\<close>

definition set_price ::
    "bool \<Rightarrow> (string \<Rightarrow> bool) \<Rightarrow> (string \<Rightarrow> bool) \<Rightarrow> waktu \<Rightarrow> string \<Rightarrow> set_price_params \<Rightarrow>
     price list \<Rightarrow> set_error + price \<times> price list" where
  "set_price in_tx pm_ada user_ada now id_baru p T =
     (if \<not> in_tx then Inl PerluTx
      else case validate_price p of
        Some e \<Rightarrow> Inl e
      | None \<Rightarrow>
        if (case sp_created_by p of None \<Rightarrow> False | Some u \<Rightarrow> \<not> id_ok u) then Inl ReferensiTidakSah
        else
          let from = (if sp_effective_from p = waktu_nol then now else sp_effective_from p);
              pm = to_lower (sp_provider_model_id p);
              baru = \<lparr>pr_id = id_baru, pr_provider_model_id = pm, pr_input = sp_input p,
                      pr_output = sp_output p, pr_cached_input = sp_cached_input p,
                      pr_reasoning = sp_reasoning p, pr_currency = str_or (sp_currency p) ''USD'',
                      pr_effective_from = from, pr_effective_to = None,
                      pr_source = str_or (sp_source p) ''manual'', pr_created_at = now,
                      pr_created_by = map_option to_lower (sp_created_by p)\<rparr>
          in lanjut
               (case filter (\<lambda>r. pr_provider_model_id r = pm \<and> pr_effective_to r = None) T of
                  cur # _ \<Rightarrow>
                    if \<not> pr_effective_from cur < from then Inl (KonflikHarga (pr_effective_from cur))
                    else Inr (tutup (pr_id cur) from T)
                | [] \<Rightarrow> Inr T)
               (\<lambda>T1. lanjut (sisip_baris pm_ada user_ada baru T1) (\<lambda>T2. Inr (baru, T2))))"

text \<open>\<^verbatim>\<open>SetPrice\<close> runs \<^verbatim>\<open>Set\<close> in a transaction of its own: on error the table stays as it was.\<close>

definition set_price_tx ::
    "(string \<Rightarrow> bool) \<Rightarrow> (string \<Rightarrow> bool) \<Rightarrow> waktu \<Rightarrow> string \<Rightarrow> set_price_params \<Rightarrow>
     price list \<Rightarrow> (set_error + price) \<times> price list" where
  "set_price_tx pm_ada user_ada now id_baru p T =
     (case set_price True pm_ada user_ada now id_baru p T of
        Inl e \<Rightarrow> (Inl e, T)
      | Inr (r, T') \<Rightarrow> (Inr r, T'))"

section \<open>The timeline\<close>

text \<open>
  The shape every reachable table has: keys are distinct, rows of one mapping never overlap, and
  a mapping with any row has an open one.
\<close>

definition tabel_sah :: "price list \<Rightarrow> bool" where
  "tabel_sah T \<longleftrightarrow>
     distinct (map pr_id T) \<and>
     (\<forall>r\<in>set T. baris_sah r) \<and>
     (\<forall>r\<in>set T. \<forall>q\<in>set T. pr_provider_model_id r = pr_provider_model_id q \<longrightarrow> pr_id r \<noteq> pr_id q \<longrightarrow>
        (case pr_effective_to r of Some e \<Rightarrow> e \<le> pr_effective_from q | None \<Rightarrow> False) \<or>
        (case pr_effective_to q of Some e \<Rightarrow> e \<le> pr_effective_from r | None \<Rightarrow> False)) \<and>
     (\<forall>r\<in>set T. \<exists>q\<in>set T. pr_provider_model_id q = pr_provider_model_id r \<and> pr_effective_to q = None)"

section \<open>Lemmas\<close>

definition terpisah :: "price \<Rightarrow> price \<Rightarrow> bool" where
  "terpisah r q \<longleftrightarrow>
     (case pr_effective_to r of Some e \<Rightarrow> e \<le> pr_effective_from q | None \<Rightarrow> False) \<or>
     (case pr_effective_to q of Some e \<Rightarrow> e \<le> pr_effective_from r | None \<Rightarrow> False)"

lemma tabel_sah_alt:
  "tabel_sah T \<longleftrightarrow>
     distinct (map pr_id T) \<and> (\<forall>r\<in>set T. baris_sah r) \<and>
     (\<forall>r\<in>set T. \<forall>q\<in>set T. pr_provider_model_id r = pr_provider_model_id q \<longrightarrow> pr_id r \<noteq> pr_id q \<longrightarrow> terpisah r q) \<and>
     (\<forall>r\<in>set T. \<exists>q\<in>set T. pr_provider_model_id q = pr_provider_model_id r \<and> pr_effective_to q = None)"
  by (simp add: tabel_sah_def terpisah_def)

lemma terpisah_not_both: "terpisah r q \<Longrightarrow> \<not> (berlaku_pada t r \<and> berlaku_pada t q)"
  by (auto simp: terpisah_def berlaku_pada_def split: option.splits)

lemma distinct_id_eq:
  "distinct (map pr_id T) \<Longrightarrow> r \<in> set T \<Longrightarrow> q \<in> set T \<Longrightarrow> pr_id r = pr_id q \<Longrightarrow> r = q"
  by (meson inj_onD distinct_map)

lemma price_at_Some:
  assumes "tabel_sah T"
  shows "price_at T pm t = Some r \<longleftrightarrow>
    id_ok pm \<and> r \<in> set T \<and> pr_provider_model_id r = to_lower pm \<and> berlaku_pada t r"
proof -
  let ?P = "\<lambda>r. pr_provider_model_id r = to_lower pm \<and> berlaku_pada t r"
  let ?S = "sort_stable_func (\<lambda>a b. cmp_compare (pr_effective_from b) (pr_effective_from a)) (filter ?P T)"
  have uniq: "q = r" if "r \<in> set T" "?P r" "q \<in> set T" "?P q" for r q
    using assms that terpisah_not_both [of q r t] distinct_id_eq [of T q r]
    unfolding tabel_sah_alt by metis
  have mem: "set ?S = set (filter ?P T)" by simp
  show ?thesis
  proof (cases ?S)
    case Nil
    with mem have "filter ?P T = []" by simp
    with Nil show ?thesis by (auto simp: price_at_def filter_empty_conv)
  next
    case (Cons x xs)
    with mem have x: "x \<in> set T" "?P x" by auto
    show ?thesis using Cons x uniq [of x r] by (auto simp: price_at_def)
  qed
qed

lemma price_at_None:
  assumes "tabel_sah T"
  shows "price_at T pm t = None \<longleftrightarrow>
    (id_ok pm \<longrightarrow> (\<forall>r\<in>set T. pr_provider_model_id r = to_lower pm \<longrightarrow> \<not> berlaku_pada t r))"
  using price_at_Some [OF assms, of pm t] by (metis option.exhaust option.distinct(1))

lemma set_price_Inr:
  assumes "set_price in_tx pm_ada user_ada now i p T = Inr (r, T')"
  obtains T1 where "T' = T1 @ [r]" "pr_effective_to r = None" "baris_sah r"
    "\<forall>q\<in>set T1. pr_id q \<noteq> pr_id r"
    "(T1 = T \<and> (\<forall>q\<in>set T. pr_provider_model_id q = pr_provider_model_id r \<longrightarrow> pr_effective_to q \<noteq> None)) \<or>
     (\<exists>cur\<in>set T. pr_effective_to cur = None \<and> pr_provider_model_id cur = pr_provider_model_id r
        \<and> pr_effective_from cur < pr_effective_from r \<and> T1 = tutup (pr_id cur) (pr_effective_from r) T)"
    "pr_provider_model_id r = to_lower (sp_provider_model_id p)"
    "pr_effective_from r = (if sp_effective_from p = waktu_nol then now else sp_effective_from p)"
proof -
  let ?open = "filter (\<lambda>r. pr_provider_model_id r = to_lower (sp_provider_model_id p) \<and> pr_effective_to r = None) T"
  have ins: "T2 = T1 @ [b] \<and> baris_sah b \<and> (\<forall>q\<in>set T1. pr_id q \<noteq> pr_id b)"
    if "sisip_baris pm_ada user_ada b T1 = Inr T2" for T1 T2 b
    using that by (auto simp: sisip_baris_def list_ex_iff split: if_splits)
  show thesis
  proof (cases ?open)
    case Nil
    with assms ins that [of T] show thesis
      by (fastforce simp: set_price_def Let_def lanjut_Inr_iff filter_empty_conv
          split: if_splits option.splits)
  next
    case (Cons cur cs)
    then have "cur \<in> set ?open" by simp
    then have "cur \<in> set T" "pr_provider_model_id cur = to_lower (sp_provider_model_id p)"
      "pr_effective_to cur = None" by auto
    with Cons assms ins that [of "tutup (pr_id cur) (pr_effective_from r) T"] show thesis
      by (fastforce simp: set_price_def Let_def lanjut_Inr_iff split: if_splits option.splits)
  qed
qed

lemma tutup_ids: "map pr_id (tutup i t T) = map pr_id T"
  by (simp add: tutup_def)

lemma tutup_mem:
  "q' \<in> set (tutup i t T) \<longleftrightarrow> (\<exists>q\<in>set T. q' = (if pr_id q = i then q\<lparr>pr_effective_to := Some t\<rparr> else q))"
  unfolding tutup_def set_map by blast

lemmas tutup_facts = tutup_ids tutup_mem

lemma closed_before_open:
  assumes "tabel_sah T" "q \<in> set T" "cur \<in> set T" "pr_effective_to cur = None"
    "pr_provider_model_id q = pr_provider_model_id cur" "q \<noteq> cur"
  shows "\<exists>e. pr_effective_to q = Some e \<and> e \<le> pr_effective_from cur"
proof -
  have "pr_id q \<noteq> pr_id cur"
    using assms distinct_id_eq unfolding tabel_sah_alt by metis
  then have "terpisah q cur" using assms unfolding tabel_sah_alt by metis
  with assms(4) show ?thesis by (auto simp: terpisah_def split: option.splits)
qed

lemma baris_sah_tutup:
  "baris_sah r \<Longrightarrow> pr_effective_from r < t \<Longrightarrow> baris_sah (r\<lparr>pr_effective_to := Some t\<rparr>)"
  by (simp add: baris_sah_def)

text \<open>Closing the open row and appending the new one keeps the timeline in shape.\<close>

lemma tabel_sah_tutup_sisip:
  assumes T: "tabel_sah T" and cur: "cur \<in> set T" "pr_effective_to cur = None"
    and r: "pr_effective_to r = None" "baris_sah r" "pr_provider_model_id cur = pr_provider_model_id r"
      "pr_effective_from cur < pr_effective_from r"
    and T1: "T1 = tutup (pr_id cur) (pr_effective_from r) T" and new: "\<forall>q\<in>set T1. pr_id q \<noteq> pr_id r"
  shows "tabel_sah (T1 @ [r])"
proof -
  let ?c = "\<lambda>q. if pr_id q = pr_id cur then q\<lparr>pr_effective_to := Some (pr_effective_from r)\<rparr> else q"
  have c: "?c q = (if q = cur then cur\<lparr>pr_effective_to := Some (pr_effective_from r)\<rparr> else q)" if "q \<in> set T" for q
    using that T cur(1) distinct_id_eq [of T q cur] unfolding tabel_sah_alt by auto
  have mem: "q' \<in> set T1 \<longleftrightarrow> (\<exists>q\<in>set T. q' = ?c q)" for q' by (simp add: T1 tutup_facts)
  have ids: "distinct (map pr_id (T1 @ [r]))"
  proof -
    have "map pr_id T1 = map pr_id T" by (simp add: T1 tutup_facts)
    moreover have "pr_id r \<notin> set (map pr_id T1)" using new by auto
    ultimately show ?thesis using T by (simp add: tabel_sah_alt)
  qed
  have sah: "\<forall>q\<in>set (T1 @ [r]). baris_sah q"
  proof
    fix q' assume "q' \<in> set (T1 @ [r])"
    then consider "q' = r" | q where "q \<in> set T" "q' = ?c q" using mem by auto
    then show "baris_sah q'"
    proof cases
      case (2 q)
      with T c [of q] r(4) show ?thesis
        by (simp add: baris_sah_tutup cur(1) tabel_sah_alt split: if_splits)
    qed (simp add: r(2))
  qed
  have sep_new: "terpisah q' r \<and> terpisah r q'" if "q' \<in> set T1" "pr_provider_model_id q' = pr_provider_model_id r" for q'
  proof -
    from that(1) obtain q where q: "q \<in> set T" "q' = ?c q" unfolding mem by blast
    show ?thesis
    proof (cases "q = cur")
      case True
      with q c show ?thesis by (simp add: terpisah_def)
    next
      case False
      with q c [of q] have "q' = q" by simp
      with False that q obtain e where "pr_effective_to q = Some e" "e \<le> pr_effective_from cur"
        using closed_before_open [OF T q(1) cur] r(3) by auto
      with r(4) \<open>q' = q\<close> show ?thesis by (simp add: terpisah_def)
    qed
  qed
  have sep_old: "terpisah q' s'" if "q' \<in> set T1" "s' \<in> set T1"
    "pr_provider_model_id q' = pr_provider_model_id s'" "pr_id q' \<noteq> pr_id s'" for q' s'
  proof -
    from that(1,2) obtain q s where qs: "q \<in> set T" "q' = ?c q" "s \<in> set T" "s' = ?c s"
      unfolding mem by blast
    have ids: "pr_provider_model_id q' = pr_provider_model_id q" "pr_id q' = pr_id q"
      "pr_provider_model_id s' = pr_provider_model_id s" "pr_id s' = pr_id s"
      unfolding qs(2,4) by simp_all
    have pm: "pr_provider_model_id q = pr_provider_model_id s" and ne: "pr_id q \<noteq> pr_id s"
      using that(3,4) unfolding ids by simp_all
    have sep: "terpisah q s" using T qs(1,3) pm ne unfolding tabel_sah_alt by blast
    have "terpisah (?c q) (?c s)"
      unfolding c [OF qs(1)] c [OF qs(3)]
      using sep cur(2) ne by (auto simp: terpisah_def split: option.splits)
    with qs show ?thesis by simp
  qed
  have open_row: "\<forall>q\<in>set (T1 @ [r]). \<exists>s\<in>set (T1 @ [r]). pr_provider_model_id s = pr_provider_model_id q \<and> pr_effective_to s = None"
  proof
    fix q' assume q': "q' \<in> set (T1 @ [r])"
    show "\<exists>s\<in>set (T1 @ [r]). pr_provider_model_id s = pr_provider_model_id q' \<and> pr_effective_to s = None"
    proof (cases "pr_provider_model_id q' = pr_provider_model_id r")
      case True
      with r(1) show ?thesis by auto
    next
      case False
      with q' obtain q where q: "q \<in> set T" "q' = ?c q" by (auto simp: mem)
      then obtain s where s: "s \<in> set T" "pr_provider_model_id s = pr_provider_model_id q" "pr_effective_to s = None"
        using T unfolding tabel_sah_alt by blast
      have "pr_provider_model_id q = pr_provider_model_id q'" using q(2) by simp
      with False s r(3) have "s \<noteq> cur" by auto
      with c [OF s(1)] have "s \<in> set T1" unfolding mem using s(1) by force
      with s q(2) show ?thesis by (intro bexI [of _ s]) (auto split: if_splits)
    qed
  qed
  show ?thesis
    unfolding tabel_sah_alt
    using ids sah open_row sep_new sep_old by auto
qed

lemma tabel_sah_sisip:
  assumes T: "tabel_sah T"
    and none: "\<forall>q\<in>set T. pr_provider_model_id q = pr_provider_model_id r \<longrightarrow> pr_effective_to q \<noteq> None"
    and r: "pr_effective_to r = None" "baris_sah r" and new: "\<forall>q\<in>set T. pr_id q \<noteq> pr_id r"
  shows "tabel_sah (T @ [r])" "\<forall>q\<in>set T. pr_provider_model_id q \<noteq> pr_provider_model_id r"
proof -
  show none': "\<forall>q\<in>set T. pr_provider_model_id q \<noteq> pr_provider_model_id r"
    using T none unfolding tabel_sah_alt by metis
  show "tabel_sah (T @ [r])"
    using T none' r new unfolding tabel_sah_alt by (auto 0 3)
qed

lemma set_price_tabel_sah:
  assumes T: "tabel_sah T" and s: "set_price in_tx pm_ada user_ada now i p T = Inr (r, T')"
  shows "tabel_sah T'"
  using s
proof (rule set_price_Inr)
  fix T1
  assume a: "T' = T1 @ [r]" "pr_effective_to r = None" "baris_sah r" "\<forall>q\<in>set T1. pr_id q \<noteq> pr_id r"
    "(T1 = T \<and> (\<forall>q\<in>set T. pr_provider_model_id q = pr_provider_model_id r \<longrightarrow> pr_effective_to q \<noteq> None)) \<or>
     (\<exists>cur\<in>set T. pr_effective_to cur = None \<and> pr_provider_model_id cur = pr_provider_model_id r
        \<and> pr_effective_from cur < pr_effective_from r \<and> T1 = tutup (pr_id cur) (pr_effective_from r) T)"
  from a(5) show ?thesis
    using a tabel_sah_sisip(1) [OF T] tabel_sah_tutup_sisip [OF T] by auto
qed

lemma berlaku_tutup:
  "berlaku_pada t (q\<lparr>pr_effective_to := Some e\<rparr>) \<longleftrightarrow> pr_effective_from q \<le> t \<and> t < e"
  by (simp add: berlaku_pada_def)

lemma set_price_at_after:
  assumes T: "tabel_sah T" and s: "set_price in_tx pm_ada user_ada now i p T = Inr (r, T')"
    and pm: "id_ok pm" "to_lower pm = pr_provider_model_id r" and t: "pr_effective_from r \<le> t"
  shows "price_at T' pm t = Some r"
proof -
  have "tabel_sah T'" by (rule set_price_tabel_sah [OF T s])
  moreover have "r \<in> set T'" "pr_effective_to r = None" using s by (rule set_price_Inr; simp)+
  ultimately show ?thesis using pm t by (simp add: price_at_Some berlaku_pada_def)
qed

lemma set_price_at_before:
  assumes T: "tabel_sah T" and s: "set_price in_tx pm_ada user_ada now i p T = Inr (r, T')"
    and t: "to_lower pm = pr_provider_model_id r \<Longrightarrow> t < pr_effective_from r"
  shows "map_option (\<lambda>q. q\<lparr>pr_effective_to := None\<rparr>) (price_at T' pm t) =
         map_option (\<lambda>q. q\<lparr>pr_effective_to := None\<rparr>) (price_at T pm t)"
proof -
  have T': "tabel_sah T'" by (rule set_price_tabel_sah [OF T s])
  obtain T1 where a: "T' = T1 @ [r]"
    "(T1 = T \<and> (\<forall>q\<in>set T. pr_provider_model_id q = pr_provider_model_id r \<longrightarrow> pr_effective_to q \<noteq> None)) \<or>
     (\<exists>cur\<in>set T. pr_effective_to cur = None \<and> pr_provider_model_id cur = pr_provider_model_id r
        \<and> pr_effective_from cur < pr_effective_from r \<and> T1 = tutup (pr_id cur) (pr_effective_from r) T)"
    using s by (rule set_price_Inr)
  have nr: "\<not> (pr_provider_model_id r = to_lower pm \<and> berlaku_pada t r)"
    using t by (auto simp: berlaku_pada_def)
  show ?thesis
  proof (cases "T1 = T")
    case True
    have "price_at T' pm t = price_at T pm t"
    proof (cases "price_at T pm t")
      case None
      then have "price_at T' pm t = None"
        unfolding price_at_None [OF T] price_at_None [OF T'] using nr a(1) True by auto
      with None show ?thesis by simp
    next
      case (Some q)
      then have "price_at T' pm t = Some q"
        unfolding price_at_Some [OF T] price_at_Some [OF T'] using a(1) True by auto
      with Some show ?thesis by simp
    qed
    then show ?thesis by simp
  next
    case False
    with a(2) obtain cur where cur: "cur \<in> set T" "pr_effective_to cur = None"
      "pr_provider_model_id cur = pr_provider_model_id r" "T1 = tutup (pr_id cur) (pr_effective_from r) T" by blast
    let ?c = "\<lambda>q. if pr_id q = pr_id cur then q\<lparr>pr_effective_to := Some (pr_effective_from r)\<rparr> else q"
    have mem: "q' \<in> set T1 \<longleftrightarrow> (\<exists>q\<in>set T. q' = ?c q)" for q' by (simp add: cur tutup_facts)
    have c: "?c q = (if q = cur then cur\<lparr>pr_effective_to := Some (pr_effective_from r)\<rparr> else q)" if "q \<in> set T" for q
      using that T cur(1) distinct_id_eq [of T q cur] unfolding tabel_sah_alt by auto
    have same: "pr_provider_model_id (?c q) = to_lower pm \<and> berlaku_pada t (?c q) \<longleftrightarrow>
      pr_provider_model_id q = to_lower pm \<and> berlaku_pada t q" if "q \<in> set T" for q
      using t cur(2,3) c [OF that] by (auto simp: berlaku_pada_def)
    show ?thesis
    proof (cases "price_at T pm t")
      case None
      then have *: "id_ok pm \<Longrightarrow> q \<in> set T \<Longrightarrow> \<not> (pr_provider_model_id q = to_lower pm \<and> berlaku_pada t q)" for q
        unfolding price_at_None [OF T] by blast
      have "\<not> (pr_provider_model_id q' = to_lower pm \<and> berlaku_pada t q')" if "id_ok pm" "q' \<in> set T'" for q'
      proof (cases "q' = r")
        case False
        with that(2) have "q' \<in> set T1" by (simp add: a(1))
        then obtain q where q: "q \<in> set T" "q' = ?c q" unfolding mem by blast
        show ?thesis unfolding q(2) same [OF q(1)] by (rule * [OF that(1) q(1)])
      qed (simp only: nr not_False_eq_True)
      then have "price_at T' pm t = None" unfolding price_at_None [OF T'] by blast
      with None show ?thesis by simp
    next
      case (Some q)
      then have "price_at T' pm t = Some (?c q)"
        using same unfolding price_at_Some [OF T] price_at_Some [OF T']
        unfolding a(1) set_append Un_iff mem by (auto split: if_splits)
      with Some show ?thesis by simp
    qed
  qed
qed

section \<open>Properties\<close>

text \<open>C34.  Installing a price keeps the history well formed (no overlap, one open row per mapping,
  all constraints) and changes the timeline exactly at and after its start: from then on \<^verbatim>\<open>At\<close>
  answers the new row, before it and for other mappings the answer keeps its prices.\<close>

theorem set_price_timeline:
  assumes T: "tabel_sah T" and s: "set_price in_tx pm_ada user_ada now i p T = Inr (r, T')"
  shows "tabel_sah T' \<and>
    (\<forall>pm t. if id_ok pm \<and> to_lower pm = pr_provider_model_id r \<and> pr_effective_from r \<le> t
            then price_at T' pm t = Some r
            else map_option (\<lambda>q. q\<lparr>pr_effective_to := None\<rparr>) (price_at T' pm t) =
                 map_option (\<lambda>q. q\<lparr>pr_effective_to := None\<rparr>) (price_at T pm t))"
proof (intro conjI allI)
  show "tabel_sah T'" by (rule set_price_tabel_sah [OF T s])
  fix pm t
  show "if id_ok pm \<and> to_lower pm = pr_provider_model_id r \<and> pr_effective_from r \<le> t
        then price_at T' pm t = Some r
        else map_option (\<lambda>q. q\<lparr>pr_effective_to := None\<rparr>) (price_at T' pm t) =
             map_option (\<lambda>q. q\<lparr>pr_effective_to := None\<rparr>) (price_at T pm t)"
  proof (cases "id_ok pm")
    case True
    then show ?thesis
      using set_price_at_after [OF T s] set_price_at_before [OF T s, of pm t] by (simp add: not_le)
  next
    case False
    then show ?thesis by (simp add: price_at_def)
  qed
qed

definition contoh_harga :: price where
  "contoh_harga = \<lparr>pr_id = ''p1'', pr_provider_model_id = ''00000000-0000-0000-0000-00000000000a'',
     pr_input = 250000000, pr_output = 1000000000, pr_cached_input = None, pr_reasoning = None,
     pr_currency = ''USD'', pr_effective_from = 100, pr_effective_to = None, pr_source = ''manual'',
     pr_created_at = 100, pr_created_by = None\<rparr>"

definition contoh_params :: set_price_params where
  "contoh_params = \<lparr>sp_provider_model_id = ''00000000-0000-0000-0000-00000000000A'',
     sp_input = 200000000, sp_output = 900000000, sp_cached_input = Some 50000000, sp_reasoning = None,
     sp_currency = [], sp_effective_from = waktu_nol, sp_source = [], sp_created_by = None\<rparr>"

lemma contoh_tabel_sah: "tabel_sah [contoh_harga]"
  by (simp add: tabel_sah_def baris_sah_def contoh_harga_def muat_numeric_def usd_units_per_usd_def
      currency_format_def)

lemma contoh_set:
  "set_price True (\<lambda>_. True) (\<lambda>_. True) 500 ''p2'' contoh_params [contoh_harga] =
   Inr (contoh_harga\<lparr>pr_id := ''p2'', pr_input := 200000000, pr_output := 900000000,
          pr_cached_input := Some 50000000, pr_effective_from := 500, pr_created_at := 500\<rparr>,
        [contoh_harga\<lparr>pr_effective_to := Some 500\<rparr>,
         contoh_harga\<lparr>pr_id := ''p2'', pr_input := 200000000, pr_output := 900000000,
          pr_cached_input := Some 50000000, pr_effective_from := 500, pr_created_at := 500\<rparr>])"
  by code_simp

lemma set_price_timeline_witness:
  "price_at [contoh_harga\<lparr>pr_effective_to := Some 500\<rparr>,
         contoh_harga\<lparr>pr_id := ''p2'', pr_input := 200000000, pr_output := 900000000,
          pr_cached_input := Some 50000000, pr_effective_from := 500, pr_created_at := 500\<rparr>]
     ''00000000-0000-0000-0000-00000000000a'' 500 =
   Some (contoh_harga\<lparr>pr_id := ''p2'', pr_input := 200000000, pr_output := 900000000,
          pr_cached_input := Some 50000000, pr_effective_from := 500, pr_created_at := 500\<rparr>)"
proof -
  have "id_ok ''00000000-0000-0000-0000-00000000000a''"
    "to_lower ''00000000-0000-0000-0000-00000000000a'' = pr_provider_model_id contoh_harga" by code_simp+
  then show ?thesis
    using set_price_timeline [OF contoh_tabel_sah contoh_set] by (simp split: if_splits)
qed

end
