(* ===== verification/Cache_Keys.thy ===== *)
theory Cache_Keys
  imports Prelude
begin

text \<open>
  The shared key builder of the cache, \<^verbatim>\<open>internal/cache/keys.go\<close>: every Redis key of the limiter, the
  circuit breaker and the response cache is \<^verbatim>\<open>Key\<close> of its parts.  A part is escaped byte by byte.
\<close>

definition key_prefix :: string where "key_prefix = ''routex''"
definition key_separator :: char where "key_separator = CHR '':''"
definition namespace_rate_limit :: string where "namespace_rate_limit = ''rl''"
definition namespace_circuit_breaker :: string where "namespace_circuit_breaker = ''cb''"

text \<open>\<^verbatim>\<open>isSafeKeyByte\<close>.\<close>

definition is_safe_key_byte :: "char \<Rightarrow> bool" where
  "is_safe_key_byte c \<longleftrightarrow>
     (let n = (of_char c :: nat)
      in (97 \<le> n \<and> n \<le> 122) \<or> (65 \<le> n \<and> n \<le> 90) \<or> (48 \<le> n \<and> n \<le> 57) \<or>
         c \<in> {CHR ''-'', CHR ''_'', CHR ''.'', CHR ''/'', CHR ''@''})"

definition hex_digits :: string where "hex_digits = ''0123456789ABCDEF''"

text \<open>The loop of \<^verbatim>\<open>escapeKeyPart\<close>, and the function with its fast path.\<close>

fun escape_loop :: "string \<Rightarrow> string" where
  "escape_loop [] = []"
| "escape_loop (c # cs) =
     (if is_safe_key_byte c then c # escape_loop cs
      else CHR ''%'' # hex_digits ! (of_char c div 16) # hex_digits ! (of_char c mod 16) # escape_loop cs)"

definition escape_key_part :: "string \<Rightarrow> string" where
  "escape_key_part part = (if list_all is_safe_key_byte part then part else escape_loop part)"

text \<open>\<^verbatim>\<open>Key\<close>.\<close>

fun key_loop :: "string list \<Rightarrow> string" where
  "key_loop [] = []"
| "key_loop (p # ps) =
     (let p' = trim_space p
      in if p' = [] then key_loop ps else key_separator # escape_key_part p' @ key_loop ps)"

definition key :: "string list \<Rightarrow> string" where
  "key parts = key_prefix @ key_loop parts"

definition rate_limit_key :: "string \<Rightarrow> string \<Rightarrow> string \<Rightarrow> string" where
  "rate_limit_key scope i window = key [namespace_rate_limit, scope, i, window]"

definition circuit_breaker_key :: "string \<Rightarrow> string \<Rightarrow> string" where
  "circuit_breaker_key provider_id model = key [namespace_circuit_breaker, provider_id, model]"

section \<open>Lemmas\<close>

lemma escape_loop_safe: "list_all is_safe_key_byte p \<Longrightarrow> escape_loop p = p"
  by (induction p) auto

lemma escape_key_part_loop: "escape_key_part p = escape_loop p"
  by (simp add: escape_key_part_def escape_loop_safe)

lemma not_safe: "\<not> is_safe_key_byte (CHR ''%'')" "\<not> is_safe_key_byte (CHR '':'')"
  by code_simp+

lemma hex_cases: "n < 16 \<Longrightarrow> n \<in> {0,1,2,3,4,5,6,7,8,9,10,11,12,13,14,15::nat}"
  by (simp add: less_Suc_eq numeral_eq_Suc)

lemma hex_digit_safe: "n < 16 \<Longrightarrow> is_safe_key_byte (hex_digits ! n)"
proof -
  have "\<forall>n\<in>{0,1,2,3,4,5,6,7,8,9,10,11,12,13,14,15::nat}. is_safe_key_byte (hex_digits ! n)" by code_simp
  then show "n < 16 \<Longrightarrow> is_safe_key_byte (hex_digits ! n)" using hex_cases by blast
qed

lemma hex_digit_inj: "m < 16 \<Longrightarrow> n < 16 \<Longrightarrow> hex_digits ! m = hex_digits ! n \<longleftrightarrow> m = n"
proof -
  have "distinct hex_digits" "length hex_digits = 16" by code_simp+
  then show "m < 16 \<Longrightarrow> n < 16 \<Longrightarrow> hex_digits ! m = hex_digits ! n \<longleftrightarrow> m = n"
    by (simp add: nth_eq_iff_index_eq)
qed

lemma of_char_hex: "of_char c div 16 < (16::nat)" "of_char c mod 16 < (16::nat)"
proof -
  have "of_char c < (256::nat)" by (rule nat_of_char_less_256)
  then show "of_char c div 16 < (16::nat)" by (simp add: div_less_iff_less_mult)
qed simp

lemma hex_pair_inj:
  assumes "hex_digits ! (of_char c div 16) = hex_digits ! (of_char d div 16)"
    and "hex_digits ! (of_char c mod 16) = hex_digits ! (of_char d mod 16)"
  shows "c = d"
proof -
  have "of_char c div 16 = (of_char d div 16 :: nat)" "of_char c mod 16 = (of_char d mod 16 :: nat)"
    using assms hex_digit_inj of_char_hex by blast+
  then have "of_char c = (of_char d :: nat)" by (metis div_mult_mod_eq)
  then show ?thesis by simp
qed

text \<open>The escaped text is free of separators and determines the part.\<close>

lemma escape_loop_bytes: "c \<in> set (escape_loop p) \<Longrightarrow> is_safe_key_byte c \<or> c = CHR ''%''"
  by (induction p) (auto simp: hex_digit_safe of_char_hex split: if_splits)

lemma escape_loop_no_sep: "key_separator \<notin> set (escape_loop p)"
  using escape_loop_bytes [of key_separator p] by (auto simp: key_separator_def not_safe)

lemma escape_loop_inj: "escape_loop p = escape_loop q \<longleftrightarrow> p = q"
proof (induction p arbitrary: q)
  case Nil
  show ?case by (cases q) auto
next
  case (Cons c p)
  show ?case
  proof (cases q)
    case (Cons d q')
    then show ?thesis
      using Cons.IH [of q'] not_safe(1) hex_pair_inj [of c d] by (cases "c = d") auto
  qed simp
qed

lemma prefix_free_append:
  assumes "x \<notin> set a" "x \<notin> set b" and "r = [] \<or> hd r = x" "s = [] \<or> hd s = x"
  shows "a @ r = b @ s \<longleftrightarrow> a = b \<and> r = s"
  using assms
proof (induction a arbitrary: b)
  case Nil
  then show ?case by (cases b) auto
next
  case (Cons y a)
  show ?case
  proof (cases b)
    case Nil
    with Cons.prems show ?thesis by auto
  next
    case (Cons z b')
    with Cons.IH [of b'] Cons.prems show ?thesis by auto
  qed
qed

text \<open>What a key remembers of its parts: the trimmed ones that are not empty, in order.\<close>

definition bagian :: "string list \<Rightarrow> string list" where
  "bagian ps = filter (\<lambda>p. p \<noteq> []) (map trim_space ps)"

lemma bagian_simps [simp]:
  "bagian [] = []" "bagian (p # ps) = (if trim_space p = [] then bagian ps else trim_space p # bagian ps)"
  by (simp_all add: bagian_def)

lemma key_loop_bagian: "key_loop ps = concat (map (\<lambda>p. key_separator # escape_loop p) (bagian ps))"
  by (induction ps) (auto simp: Let_def escape_key_part_loop)

lemma segments_inj:
  "concat (map (\<lambda>p. key_separator # escape_loop p) xs) = concat (map (\<lambda>p. key_separator # escape_loop p) ys)
   \<longleftrightarrow> xs = ys"
proof (induction xs arbitrary: ys)
  case Nil
  show ?case by (cases ys) auto
next
  case (Cons x xs)
  have sep: "concat (map (\<lambda>p. key_separator # escape_loop p) zs) = [] \<or>
    hd (concat (map (\<lambda>p. key_separator # escape_loop p) zs)) = key_separator" for zs
    by (cases zs) auto
  show ?case
  proof (cases ys)
    case (Cons y ys')
    have "concat (map (\<lambda>p. key_separator # escape_loop p) (x # xs)) =
          concat (map (\<lambda>p. key_separator # escape_loop p) (y # ys')) \<longleftrightarrow>
          escape_loop x = escape_loop y \<and>
          concat (map (\<lambda>p. key_separator # escape_loop p) xs) =
          concat (map (\<lambda>p. key_separator # escape_loop p) ys')"
      using prefix_free_append [OF escape_loop_no_sep escape_loop_no_sep sep sep] by simp
    with Cons Cons.IH [of ys'] show ?thesis by (simp add: escape_loop_inj)
  qed simp
qed

lemma key_eq_iff: "key ps = key qs \<longleftrightarrow> bagian ps = bagian qs"
  by (simp add: key_def key_loop_bagian segments_inj)

section \<open>Properties\<close>

text \<open> Two keys coincide exactly when their parts do after trimming and dropping the empty
  ones, so no identifier can be chosen to collide with another scope, and every byte of the
  escaped part is plain.\<close>

theorem key_injective:
  "(key ps = key qs \<longleftrightarrow> bagian ps = bagian qs) \<and>
   (\<forall>c\<in>set (escape_key_part p). is_safe_key_byte c \<or> c = CHR ''%'')"
  using key_eq_iff escape_loop_bytes by (auto simp: escape_key_part_loop)

lemma key_injective_witness:
  "key [''rl'', ''ip'', ''a:b''] = ''routex:rl:ip:a%3Ab'' \<and>
   key [''a'', [], ''b''] = key ['' a'', ''b''] \<and> key [''a:b''] \<noteq> key [''a'', ''b'']"
proof (intro conjI)
  show "key [''rl'', ''ip'', ''a:b''] = ''routex:rl:ip:a%3Ab''" by code_simp
  have "bagian [''a'', [], ''b''] = bagian ['' a'', ''b'']" by code_simp
  then show "key [''a'', [], ''b''] = key ['' a'', ''b'']" using key_injective by blast
  have "bagian [''a:b''] \<noteq> bagian [''a'', ''b'']" by code_simp
  then show "key [''a:b''] \<noteq> key [''a'', ''b'']" using key_injective by blast
qed

end
