(* ===== verification/Routing_Rules.thy ===== *)
theory Routing_Rules
  imports Money
begin

text \<open>
  Routing rules: \<^verbatim>\<open>internal/router/router.go\<close> (strategies, the request as the router sees it) and
  \<^verbatim>\<open>internal/router/rules.go\<close> (a rule, its alias, when it matches, the first match, the combo recipe
  of the admin API), with the row types of \<^verbatim>\<open>internal/database/repo/upstream\<close>.  A nil pointer is
  \<^const>\<open>None\<close>.  The decoder of the recipe's JSON is an argument.
\<close>

section \<open>Data\<close>

type_synonym strategy = string

definition strategy_priority :: strategy where "strategy_priority = ''priority''"
definition strategy_round_robin :: strategy where "strategy_round_robin = ''round_robin''"
definition strategy_weighted :: strategy where "strategy_weighted = ''weighted''"
definition strategy_lowest_latency :: strategy where "strategy_lowest_latency = ''lowest_latency''"
definition strategy_lowest_cost :: strategy where "strategy_lowest_cost = ''lowest_cost''"
definition strategy_capability :: strategy where "strategy_capability = ''capability''"

lemmas strategy_defs = strategy_priority_def strategy_round_robin_def strategy_weighted_def
  strategy_lowest_latency_def strategy_lowest_cost_def strategy_capability_def

text \<open>\<^verbatim>\<open>Strategy.Valid\<close>.\<close>

definition strategy_valid :: "strategy \<Rightarrow> bool" where
  "strategy_valid s \<longleftrightarrow>
     s = strategy_priority \<or> s = strategy_round_robin \<or> s = strategy_weighted \<or>
     s = strategy_lowest_latency \<or> s = strategy_lowest_cost \<or> s = strategy_capability"

record token_estimate =
  te_input :: int
  te_output :: int

definition te_is_zero :: "token_estimate \<Rightarrow> bool" where
  "te_is_zero t \<longleftrightarrow> te_input t = 0 \<and> te_output t = 0"

record request =
  rq_model_id :: string
  rq_model_name :: string
  rq_api_key_id :: string
  rq_owner_user_id :: string
  rq_capabilities :: "string list"
  rq_streaming :: bool
  rq_tokens :: token_estimate

record route_candidate =
  rc_model_id :: string
  rc_provider_model_id :: string
  rc_upstream_model_name :: string
  rc_max_context_window :: "int option"
  rc_supports_streaming :: bool
  rc_supports_tools :: bool
  rc_priority :: int
  rc_weight :: int
  rc_provider_id :: string
  rc_provider_name :: string
  rc_kind :: string
  rc_base_url :: string
  rc_timeout_ms :: int
  rc_max_retries :: int
  rc_rate_limit_rpm :: "int option"
  rc_rate_limit_tpm :: "int option"
  rc_max_concurrent :: "int option"
  rc_egress_pool_id :: "string option"
  rc_is_byok :: bool
  rc_owner_user_id :: "string option"
  rc_last_health_status :: "string option"
  rc_last_latency_ms :: "int option"
  rc_consecutive_failures :: int

record rule_provider =
  rp_provider_id :: string
  rp_position :: int
  rp_weight :: "int option"

record combo_pipeline =
  cp_strategy :: strategy
  cp_attempts :: int
  cp_models :: "string list"

record rule =
  ru_id :: string
  ru_name :: string
  ru_description :: string
  ru_priority :: int
  ru_match_model_id :: string
  ru_match_api_key_id :: string
  ru_match_capabilities :: "string list"
  ru_strategy :: strategy
  ru_max_attempts :: int
  ru_backoff_base :: durasi
  ru_failure_threshold :: int
  ru_open_duration :: durasi
  ru_half_open_probes :: int
  ru_pipeline :: "combo_pipeline option"
  ru_virtual_alias :: string
  ru_providers :: "rule_provider list"

text \<open>The row \<^verbatim>\<open>upstream.RoutingRule\<close>.\<close>

record routing_rule =
  rr_id :: string
  rr_name :: string
  rr_description :: "string option"
  rr_priority :: int
  rr_match_model_id :: "string option"
  rr_match_api_key_id :: "string option"
  rr_match_capabilities :: "string list"
  rr_strategy :: string
  rr_max_attempts :: int
  rr_backoff_ms :: int
  rr_failure_threshold :: int
  rr_open_duration_ms :: int
  rr_half_open_probes :: int
  rr_enabled :: bool
  rr_created_at :: waktu
  rr_updated_at :: waktu
  rr_created_by :: "string option"
  rr_pipeline :: string
  rr_virtual_alias :: "string option"
  rr_providers :: "rule_provider list"

section \<open>Operations\<close>

text \<open>\<^verbatim>\<open>Rule.Combo\<close>.\<close>

definition combo :: "rule option \<Rightarrow> bool" where
  "combo r = (case r of None \<Rightarrow> False
     | Some r \<Rightarrow> (case ru_pipeline r of None \<Rightarrow> False | Some p \<Rightarrow> 1 < length (cp_models p)))"

datatype rule_error = AturanKosong | StrategiTidakDikenal string string

text \<open>
  \<^verbatim>\<open>RuleFromRow\<close>.  \<open>urai\<close> is \<^verbatim>\<open>parseComboPipeline\<close>, that is \<^verbatim>\<open>json.Unmarshal\<close>; a recipe it cannot
  read leaves the rule without one.
\<close>

definition rule_from_row :: "(string \<Rightarrow> combo_pipeline option) \<Rightarrow> routing_rule option \<Rightarrow> rule_error + rule" where
  "rule_from_row urai row =
     (case row of
        None \<Rightarrow> Inl AturanKosong
      | Some row \<Rightarrow>
          if \<not> strategy_valid (rr_strategy row) then Inl (StrategiTidakDikenal (rr_name row) (rr_strategy row))
          else Inr \<lparr>
            ru_id = rr_id row,
            ru_name = rr_name row,
            ru_description = (case rr_description row of None \<Rightarrow> [] | Some d \<Rightarrow> d),
            ru_priority = rr_priority row,
            ru_match_model_id = (case rr_match_model_id row of None \<Rightarrow> [] | Some m \<Rightarrow> m),
            ru_match_api_key_id = (case rr_match_api_key_id row of None \<Rightarrow> [] | Some k \<Rightarrow> k),
            ru_match_capabilities = rr_match_capabilities row,
            ru_strategy = rr_strategy row,
            ru_max_attempts = rr_max_attempts row,
            ru_backoff_base = wrap64 (rr_backoff_ms row * milidetik),
            ru_failure_threshold = rr_failure_threshold row,
            ru_open_duration = wrap64 (rr_open_duration_ms row * milidetik),
            ru_half_open_probes = rr_half_open_probes row,
            ru_pipeline = (if rr_pipeline row = [] then None else urai (rr_pipeline row)),
            ru_virtual_alias = (case rr_virtual_alias row of None \<Rightarrow> [] | Some a \<Rightarrow> a),
            ru_providers = sort_stable_func (\<lambda>a b. wrap64 (rp_position a - rp_position b)) (rr_providers row)\<rparr>)"

text \<open>\<^verbatim>\<open>ExtractComboAlias\<close>.\<close>

definition combo_alias_prefix :: string where "combo_alias_prefix = ''[combo:alias=''"

definition extract_combo_alias :: "string \<Rightarrow> string" where
  "extract_combo_alias description =
     (case index_of description combo_alias_prefix of
        None \<Rightarrow> []
      | Some idx \<Rightarrow>
          let sub = drop (idx + length combo_alias_prefix) description
          in case index_byte sub (CHR '']'') of
               None \<Rightarrow> []
             | Some e \<Rightarrow> trim_space (take e sub))"

text \<open>\<^verbatim>\<open>Rule.Alias\<close>.\<close>

definition alias_rule :: "rule \<Rightarrow> string" where
  "alias_rule r = (if ru_virtual_alias r \<noteq> [] then ru_virtual_alias r else extract_combo_alias (ru_description r))"

text \<open>\<^verbatim>\<open>Rule.Matches\<close>.\<close>

definition rule_matches :: "rule \<Rightarrow> request \<Rightarrow> bool" where
  "rule_matches r req =
     (let alias = alias_rule r;
          explicit_target = rq_model_name req \<noteq> [] \<and> alias \<noteq> [] \<and> alias = rq_model_name req
      in if \<not> explicit_target \<and> ru_match_model_id r \<noteq> [] \<and> ru_match_model_id r \<noteq> rq_model_id req then False
         else if ru_match_api_key_id r \<noteq> [] \<and> ru_match_api_key_id r \<noteq> rq_api_key_id req then False
         else list_all (\<lambda>butuh. butuh \<in> set (rq_capabilities req)) (ru_match_capabilities r))"

text \<open>\<^verbatim>\<open>FirstMatch\<close>: a rule asked for by its name or alias first, then the first that matches.\<close>

definition disebut :: "request \<Rightarrow> rule \<Rightarrow> bool" where
  "disebut req r \<longleftrightarrow> ru_name r = rq_model_name req \<or> (alias_rule r \<noteq> [] \<and> alias_rule r = rq_model_name req)"

definition first_match :: "rule list \<Rightarrow> request \<Rightarrow> rule option" where
  "first_match rules req =
     (let umum = List.find (\<lambda>r. rule_matches r req) rules
      in if rq_model_name req \<noteq> []
         then (case List.find (\<lambda>r. disebut req r \<and> rule_matches r req) rules of
                 Some r \<Rightarrow> Some r
               | None \<Rightarrow> umum)
         else umum)"

section \<open>The recipe of the admin API\<close>

datatype pipeline_error =
  PipelineKosong | StrategiPipeline string | AttemptsDiLuar int | JumlahModelDiLuar nat
  | ModelKosong nat | ModelGanda string | BukanJSON

definition pipeline_strategies :: "string list" where
  "pipeline_strategies =
     [strategy_priority, strategy_round_robin, strategy_lowest_latency, strategy_lowest_cost]"

fun periksa_model :: "nat \<Rightarrow> string list \<Rightarrow> string list \<Rightarrow> pipeline_error option" where
  "periksa_model i seen [] = None"
| "periksa_model i seen (m # ms) =
     (if trim_space m = [] then Some (ModelKosong (i + 1))
      else if m \<in> set seen then Some (ModelGanda m)
      else periksa_model (i + 1) (m # seen) ms)"

text \<open>\<^verbatim>\<open>ComboPipelineDTO.Valid\<close> and \<^verbatim>\<open>ParseComboPipelineDTO\<close>.\<close>

definition pipeline_dto_valid :: "combo_pipeline option \<Rightarrow> pipeline_error option" where
  "pipeline_dto_valid p =
     (case p of
        None \<Rightarrow> Some PipelineKosong
      | Some p \<Rightarrow>
          if cp_strategy p \<notin> set pipeline_strategies then Some (StrategiPipeline (cp_strategy p))
          else if cp_attempts p < 1 \<or> 20 < cp_attempts p then Some (AttemptsDiLuar (cp_attempts p))
          else if length (cp_models p) < 1 \<or> 8 < length (cp_models p)
               then Some (JumlahModelDiLuar (length (cp_models p)))
          else periksa_model 0 [] (cp_models p))"

definition parse_combo_pipeline_dto ::
    "(string \<Rightarrow> combo_pipeline option) \<Rightarrow> string \<Rightarrow> pipeline_error + combo_pipeline" where
  "parse_combo_pipeline_dto urai raw =
     (case urai raw of
        None \<Rightarrow> Inl BukanJSON
      | Some p \<Rightarrow> (case pipeline_dto_valid (Some p) of Some e \<Rightarrow> Inl e | None \<Rightarrow> Inr p))"

section \<open>Lemmas\<close>

lemma find_Some:
  "List.find P xs = Some x \<longleftrightarrow> (\<exists>us vs. xs = us @ x # vs \<and> P x \<and> (\<forall>u\<in>set us. \<not> P u))"
proof (induction xs)
  case Nil
  then show ?case by simp
next
  case (Cons y ys)
  show ?case
  proof (cases "P y")
    case True
    then have "List.find P (y # ys) = Some x \<longleftrightarrow> x = y" by auto
    also have "\<dots> \<longleftrightarrow> (\<exists>us vs. y # ys = us @ x # vs \<and> P x \<and> (\<forall>u\<in>set us. \<not> P u))"
    proof
      assume "x = y"
      with True show "\<exists>us vs. y # ys = us @ x # vs \<and> P x \<and> (\<forall>u\<in>set us. \<not> P u)"
        by (intro exI [of _ "[]"] exI [of _ ys]) simp
    next
      assume "\<exists>us vs. y # ys = us @ x # vs \<and> P x \<and> (\<forall>u\<in>set us. \<not> P u)"
      then obtain us vs where "y # ys = us @ x # vs" "\<forall>u\<in>set us. \<not> P u" by blast
      with True show "x = y" by (cases us) auto
    qed
    finally show ?thesis .
  next
    case False
    have "(\<exists>us vs. ys = us @ x # vs \<and> P x \<and> (\<forall>u\<in>set us. \<not> P u)) \<longleftrightarrow>
          (\<exists>us vs. y # ys = us @ x # vs \<and> P x \<and> (\<forall>u\<in>set us. \<not> P u))" (is "?L \<longleftrightarrow> ?R")
    proof
      assume ?L
      then obtain us vs where "ys = us @ x # vs" "P x" "\<forall>u\<in>set us. \<not> P u" by blast
      with False show ?R by (intro exI [of _ "y # us"] exI [of _ vs]) simp
    next
      assume ?R
      then obtain us vs where "y # ys = us @ x # vs" "P x" "\<forall>u\<in>set us. \<not> P u" by blast
      with False show ?L by (cases us) auto
    qed
    with False Cons show ?thesis by simp
  qed
qed

lemma find_Some_mem: "List.find P xs = Some x \<Longrightarrow> x \<in> set xs \<and> P x"
  unfolding find_Some by auto

lemma find_None: "List.find P xs = None \<longleftrightarrow> (\<forall>x\<in>set xs. \<not> P x)"
  by (induction xs) auto

lemma rule_matches_iff:
  "rule_matches r req \<longleftrightarrow>
     (ru_match_model_id r = [] \<or> ru_match_model_id r = rq_model_id req
        \<or> (rq_model_name req \<noteq> [] \<and> alias_rule r = rq_model_name req)) \<and>
     (ru_match_api_key_id r = [] \<or> ru_match_api_key_id r = rq_api_key_id req) \<and>
     set (ru_match_capabilities r) \<subseteq> set (rq_capabilities req)"
  unfolding rule_matches_def Let_def list_all_iff subset_iff by (auto split: if_splits)

lemma first_match_None: "first_match rules req = None \<longleftrightarrow> (\<forall>r\<in>set rules. \<not> rule_matches r req)"
  unfolding first_match_def Let_def
  by (auto simp: find_None dest!: find_Some_mem split: option.splits if_splits)

lemma first_match_Some_mem:
  "first_match rules req = Some r \<Longrightarrow> r \<in> set rules \<and> rule_matches r req"
  unfolding first_match_def Let_def
  by (auto dest!: find_Some_mem split: option.splits if_splits)

lemma periksa_model_None:
  "periksa_model i seen ms = None \<longleftrightarrow>
     (\<forall>m\<in>set ms. trim_space m \<noteq> []) \<and> distinct ms \<and> set ms \<inter> set seen = {}"
  by (induction i seen ms rule: periksa_model.induct) auto

lemma index_byte_first:
  "CHR '']'' \<notin> set a \<Longrightarrow> index_byte (a @ CHR '']'' # b) (CHR '']'') = Some (length a)"
  by (rule index_byte_append)

lemma index_of_at:
  assumes "\<And>j. j < length a \<Longrightarrow> \<not> has_prefix (drop j (a @ p @ b)) p"
  shows "index_of (a @ p @ b) p = Some (length a)"
proof (cases "index_of (a @ p @ b) p")
  case None
  then have "\<not> has_prefix (drop (length a) (a @ p @ b)) p"
    unfolding index_of_None by (metis le_add1 length_append)
  then show ?thesis by (simp add: has_prefix_iff)
next
  case (Some i)
  have "has_prefix (drop (length a) (a @ p @ b)) p" by (simp add: has_prefix_iff)
  then have "\<not> length a < i" using index_of_first [OF Some] by blast
  moreover have "\<not> i < length a" using index_of_Some [OF Some] assms by blast
  ultimately show ?thesis using Some by simp
qed

section \<open>Properties\<close>

text \<open> The rule that decides a request: none is chosen only when none matches; a rule named
  by the request (by its name or its alias) wins over every other that matches, otherwise the
  first match in the given order wins; the chosen rule does match.\<close>

theorem first_match_spec:
  "(first_match rules req = None \<longleftrightarrow> (\<forall>r\<in>set rules. \<not> rule_matches r req)) \<and>
   (\<forall>r. first_match rules req = Some r \<longrightarrow>
      (\<exists>us vs. rules = us @ r # vs \<and> rule_matches r req \<and>
         (if rq_model_name req \<noteq> [] \<and> (\<exists>q\<in>set rules. disebut req q \<and> rule_matches q req)
          then disebut req r \<and> (\<forall>u\<in>set us. \<not> (disebut req u \<and> rule_matches u req))
          else (\<forall>u\<in>set us. \<not> rule_matches u req))))"
proof (intro conjI allI impI)
  show "first_match rules req = None \<longleftrightarrow> (\<forall>r\<in>set rules. \<not> rule_matches r req)"
    by (rule first_match_None)
  fix r assume r: "first_match rules req = Some r"
  let ?Q = "\<lambda>r. disebut req r \<and> rule_matches r req"
  show "\<exists>us vs. rules = us @ r # vs \<and> rule_matches r req \<and>
         (if rq_model_name req \<noteq> [] \<and> (\<exists>q\<in>set rules. ?Q q)
          then disebut req r \<and> (\<forall>u\<in>set us. \<not> ?Q u) else (\<forall>u\<in>set us. \<not> rule_matches u req))"
  proof (cases "rq_model_name req \<noteq> [] \<and> (\<exists>q\<in>set rules. ?Q q)")
    case True
    then have "List.find ?Q rules \<noteq> None" by (auto simp: find_None)
    with True r have "List.find ?Q rules = Some r"
      by (auto simp: first_match_def Let_def split: option.splits)
    with True show ?thesis unfolding find_Some by auto
  next
    case False
    then have "List.find (\<lambda>r. rule_matches r req) rules = Some r"
      using r by (auto simp: first_match_def Let_def find_Some split: option.splits if_splits)
    with False show ?thesis unfolding find_Some by auto
  qed
qed

definition contoh_rule :: rule where
  "contoh_rule = \<lparr>ru_id = ''r1'', ru_name = ''cepat'', ru_description = ''[combo:alias= turbo ]'',
     ru_priority = 1, ru_match_model_id = ''m9'', ru_match_api_key_id = [], ru_match_capabilities = [],
     ru_strategy = ''priority'', ru_max_attempts = 2, ru_backoff_base = 0, ru_failure_threshold = 5,
     ru_open_duration = 0, ru_half_open_probes = 1, ru_pipeline = None, ru_virtual_alias = [],
     ru_providers = []\<rparr>"

definition contoh_request :: request where
  "contoh_request = \<lparr>rq_model_id = ''m1'', rq_model_name = ''turbo'', rq_api_key_id = [],
     rq_owner_user_id = [], rq_capabilities = [''tools''], rq_streaming = False,
     rq_tokens = \<lparr>te_input = 100, te_output = 50\<rparr>\<rparr>"

lemma first_match_spec_witness:
  "first_match [contoh_rule\<lparr>ru_id := ''r0'', ru_match_model_id := [], ru_description := []\<rparr>, contoh_rule] contoh_request
     = Some contoh_rule \<and>
   (\<exists>us vs. [contoh_rule\<lparr>ru_id := ''r0'', ru_match_model_id := [], ru_description := []\<rparr>, contoh_rule]
      = us @ contoh_rule # vs \<and> rule_matches contoh_rule contoh_request)"
proof -
  let ?rs = "[contoh_rule\<lparr>ru_id := ''r0'', ru_match_model_id := [], ru_description := []\<rparr>, contoh_rule]"
  have f: "first_match ?rs contoh_request = Some contoh_rule" by code_simp
  then show ?thesis using first_match_spec [of ?rs contoh_request] by blast
qed

text \<open>A request whose model name is a rule's alias is not held to that rule's model
  condition, while the rule's own name gives no such right; all other conditions always bind.\<close>

theorem rule_matches_spec:
  "rule_matches r req \<longleftrightarrow>
     (ru_match_model_id r = [] \<or> ru_match_model_id r = rq_model_id req
        \<or> (rq_model_name req \<noteq> [] \<and> alias_rule r = rq_model_name req)) \<and>
     (ru_match_api_key_id r = [] \<or> ru_match_api_key_id r = rq_api_key_id req) \<and>
     set (ru_match_capabilities r) \<subseteq> set (rq_capabilities req)"
  by (rule rule_matches_iff)

text \<open> A combo recipe is accepted by the admin API exactly when it meets the constraints of
  the database column: one of the four strategies, 1 to 20 attempts, 1 to 8 distinct models none
  of which is blank.\<close>

theorem pipeline_dto_valid_spec:
  "parse_combo_pipeline_dto urai raw = Inr p \<longleftrightarrow>
     urai raw = Some p \<and> cp_strategy p \<in> set pipeline_strategies \<and>
     1 \<le> cp_attempts p \<and> cp_attempts p \<le> 20 \<and>
     1 \<le> length (cp_models p) \<and> length (cp_models p) \<le> 8 \<and>
     distinct (cp_models p) \<and> (\<forall>m\<in>set (cp_models p). trim_space m \<noteq> [])"
proof -
  have *: "pipeline_dto_valid (Some q) = None \<longleftrightarrow>
     cp_strategy q \<in> set pipeline_strategies \<and> 1 \<le> cp_attempts q \<and> cp_attempts q \<le> 20 \<and>
     1 \<le> length (cp_models q) \<and> length (cp_models q) \<le> 8 \<and>
     distinct (cp_models q) \<and> (\<forall>m\<in>set (cp_models q). trim_space m \<noteq> [])" for q
    by (auto simp: pipeline_dto_valid_def periksa_model_None not_less Suc_le_eq)
  have "parse_combo_pipeline_dto urai raw = Inr p \<longleftrightarrow> urai raw = Some p \<and> pipeline_dto_valid (Some p) = None"
    by (auto simp: parse_combo_pipeline_dto_def split: option.splits)
  then show ?thesis unfolding * .
qed

lemma pipeline_dto_valid_spec_witness:
  "parse_combo_pipeline_dto (\<lambda>_. Some \<lparr>cp_strategy = ''priority'', cp_attempts = 3, cp_models = [''a'', ''b'']\<rparr>) ''x''
   = Inr \<lparr>cp_strategy = ''priority'', cp_attempts = 3, cp_models = [''a'', ''b'']\<rparr>"
  unfolding pipeline_dto_valid_spec by code_simp

end
