(* ===== verification/Selector.thy ===== *)
theory Selector
  imports Routing_Rules Complex_Main
begin

text \<open>
  The routing strategies, \<^verbatim>\<open>internal/router/strategies.go\<close>.  A \<^verbatim>\<open>Selector\<close> is a record of its mutable
  state (the round-robin counters with their last use, the number of counters, the jitter counter);
  the latency and cost sources and the random source are arguments: \<open>acak i\<close> is the bit pattern of
  the \<open>i\<close>-th draw of one call of \<^verbatim>\<open>Order\<close>.  Float keys of the weighted strategy are real numbers:
  \<^verbatim>\<open>-math.Log(u)/float64(w)\<close> is taken without rounding.  All operations of one call are one atomic
  step and read the clock once.
\<close>

section \<open>State and sources\<close>

record penghitung_rr =
  pe_n :: "64 word"
  pe_terakhir :: waktu

record selector =
  sel_rr :: "(string \<times> penghitung_rr) list"
  sel_jumlah_rr :: int
  sel_jitter :: "64 word"

record sumber =
  su_latency :: "(string \<Rightarrow> durasi option) option"
  su_cost :: "(string \<Rightarrow> token_estimate \<Rightarrow> usd option) option"
  su_acak :: "nat \<Rightarrow> 64 word"

definition new_selector :: selector where
  "new_selector = \<lparr>sel_rr = [], sel_jumlah_rr = 0, sel_jitter = 0\<rparr>"

definition ambang_sapu_rr :: int where "ambang_sapu_rr = 512"
definition umur_entri_rr :: durasi where "umur_entri_rr = jam"

section \<open>Filtering\<close>

text \<open>\<^verbatim>\<open>muatKonteks\<close>.\<close>

definition muat_konteks :: "route_candidate \<Rightarrow> token_estimate \<Rightarrow> bool" where
  "muat_konteks c est =
     (case rc_max_context_window c of
        None \<Rightarrow> True
      | Some w \<Rightarrow> if te_input est \<le> 0 then True else wrap64 (te_input est + te_output est) \<le> w)"

text \<open>\<^verbatim>\<open>saringKandidat\<close>.\<close>

definition izin_provider :: "rule option \<Rightarrow> string \<Rightarrow> bool" where
  "izin_provider rule pid =
     (case rule of
        None \<Rightarrow> True
      | Some r \<Rightarrow> ru_providers r = [] \<or> list_ex (\<lambda>rp. rp_provider_id rp = pid) (ru_providers r))"

definition saring_kandidat :: "request \<Rightarrow> rule option \<Rightarrow> route_candidate list \<Rightarrow> route_candidate list" where
  "saring_kandidat req rule cands =
     (let butuh_tools = ''tools'' \<in> set (rq_capabilities req)
      in filter (\<lambda>c.
           if \<not> izin_provider rule (rc_provider_id c) then False
           else if rq_streaming req \<and> \<not> rc_supports_streaming c then False
           else if butuh_tools \<and> \<not> rc_supports_tools c then False
           else muat_konteks c (rq_tokens req)) cands)"

section \<open>Orders\<close>

text \<open>\<^verbatim>\<open>urutPrioritas\<close>.\<close>

definition cmp_prioritas :: "route_candidate \<Rightarrow> route_candidate \<Rightarrow> int" where
  "cmp_prioritas a b =
     (let v = cmp_compare (rc_priority a) (rc_priority b)
      in if v \<noteq> 0 then v
         else let v = cmp_compare (rc_weight b) (rc_weight a)
              in if v \<noteq> 0 then v else cmp_compare (rc_provider_name a) (rc_provider_name b))"

definition urut_prioritas :: "route_candidate list \<Rightarrow> route_candidate list" where
  "urut_prioritas = sort_stable_func cmp_prioritas"

text \<open>The comparator shared by the orders in which a missing value goes last.\<close>

definition cmp_jendela :: "route_candidate \<Rightarrow> route_candidate \<Rightarrow> int" where
  "cmp_jendela a b =
     (case (rc_max_context_window a, rc_max_context_window b) of
        (None, None) \<Rightarrow> 0
      | (None, Some _) \<Rightarrow> 1
      | (Some _, None) \<Rightarrow> - 1
      | (Some ja, Some jb) \<Rightarrow> cmp_compare jb ja)"

definition urut_kemampuan :: "route_candidate list \<Rightarrow> route_candidate list" where
  "urut_kemampuan cands = sort_stable_func cmp_jendela (urut_prioritas cands)"

definition cmp_terukur :: "(route_candidate \<Rightarrow> int option) \<Rightarrow> route_candidate \<Rightarrow> route_candidate \<Rightarrow> int" where
  "cmp_terukur nilai a b =
     (case (nilai a, nilai b) of
        (None, None) \<Rightarrow> 0
      | (None, Some _) \<Rightarrow> 1
      | (Some _, None) \<Rightarrow> - 1
      | (Some va, Some vb) \<Rightarrow> cmp_compare va vb)"

text \<open>\<^verbatim>\<open>urutTerukur\<close>.\<close>

definition urut_terukur :: "(route_candidate \<Rightarrow> int option) \<Rightarrow> route_candidate list \<Rightarrow> route_candidate list" where
  "urut_terukur nilai cands = sort_stable_func (cmp_terukur nilai) (urut_prioritas cands)"

text \<open>A Go map filled from the candidates, keyed by \<^verbatim>\<open>ProviderModelID\<close>; a later entry overwrites.\<close>

definition peta_nilai :: "(route_candidate \<Rightarrow> 'v option) \<Rightarrow> route_candidate list \<Rightarrow> string \<rightharpoonup> 'v" where
  "peta_nilai f cands =
     foldl (\<lambda>m c. case f c of None \<Rightarrow> m | Some v \<Rightarrow> m(rc_provider_model_id c \<mapsto> v)) (\<lambda>_. None) cands"

text \<open>\<^verbatim>\<open>latensi\<close> and \<^verbatim>\<open>urutLatensi\<close>.\<close>

definition latensi :: "sumber \<Rightarrow> route_candidate \<Rightarrow> durasi option" where
  "latensi su c =
     (case (case su_latency su of None \<Rightarrow> None | Some l \<Rightarrow> l (rc_provider_model_id c)) of
        Some d \<Rightarrow> Some d
      | None \<Rightarrow>
          (case rc_last_latency_ms c of
             Some ms \<Rightarrow> if 0 \<le> ms then Some (wrap64 (ms * milidetik)) else None
           | None \<Rightarrow> None))"

definition urut_latensi :: "sumber \<Rightarrow> route_candidate list \<Rightarrow> route_candidate list" where
  "urut_latensi su cands =
     (let ukur = peta_nilai (latensi su) cands
      in urut_terukur (\<lambda>c. ukur (rc_provider_model_id c)) cands)"

text \<open>\<^verbatim>\<open>urutBiaya\<close>.\<close>

definition urut_biaya :: "sumber \<Rightarrow> request \<Rightarrow> route_candidate list \<Rightarrow> route_candidate list" where
  "urut_biaya su req cands =
     (let biaya = (case su_cost su of
                     None \<Rightarrow> (\<lambda>_. None)
                   | Some f \<Rightarrow> peta_nilai (\<lambda>c. f (rc_provider_model_id c) (rq_tokens req)) cands)
      in urut_terukur (\<lambda>c. biaya (rc_provider_model_id c)) cands)"

section \<open>Round robin\<close>

text \<open>\<^verbatim>\<open>putarSlice\<close>: rotation to the left by three reversals.\<close>

definition putar_slice :: "'a list \<Rightarrow> nat \<Rightarrow> 'a list" where
  "putar_slice s n =
     (if length s < 2 then s
      else let n = n mod length s
           in if n = 0 then s else rev (rev (take n s) @ rev (drop n s)))"

text \<open>\<^verbatim>\<open>sapuRR\<close>: the entries not used for an hour are deleted, the count follows.\<close>

definition sapu_rr :: "waktu \<Rightarrow> selector \<Rightarrow> selector" where
  "sapu_rr now s =
     (let batas = now - umur_entri_rr;
          sisa = filter (\<lambda>(k, v). \<not> pe_terakhir v < batas) (sel_rr s)
      in s\<lparr>sel_rr := sisa,
           sel_jumlah_rr := sel_jumlah_rr s - int (length (sel_rr s) - length sisa)\<rparr>)"

text \<open>\<^verbatim>\<open>putar\<close>.\<close>

definition putar :: "waktu \<Rightarrow> string \<Rightarrow> route_candidate list \<Rightarrow> selector \<Rightarrow> selector \<times> route_candidate list" where
  "putar now k cands s =
     (if length cands < 2 then (s, cands)
      else
        let dimuat = map_of (sel_rr s) k \<noteq> None;
            ctr = (case map_of (sel_rr s) k of None \<Rightarrow> \<lparr>pe_n = 0, pe_terakhir = 0\<rparr> | Some v \<Rightarrow> v);
            ctr = ctr\<lparr>pe_terakhir := now\<rparr>;
            s1 = s\<lparr>sel_rr := AList.update k ctr (sel_rr s)\<rparr>;
            s2 = (if \<not> dimuat then s1\<lparr>sel_jumlah_rr := sel_jumlah_rr s1 + 1\<rparr> else s1);
            s3 = (if \<not> dimuat \<and> ambang_sapu_rr < sel_jumlah_rr s2 then sapu_rr now s2 else s2);
            ctr = ctr\<lparr>pe_n := pe_n ctr + 1\<rparr>;
            s4 = (if map_of (sel_rr s3) k = None then s3
                  else s3\<lparr>sel_rr := AList.update k ctr (sel_rr s3)\<rparr>)
        in (s4, putar_slice cands (unat (pe_n ctr mod of_nat (length cands)))))"

text \<open>\<^verbatim>\<open>rotasiKey\<close>.\<close>

definition rotasi_key :: "request \<Rightarrow> rule option \<Rightarrow> string" where
  "rotasi_key req rule =
     (case rule of None \<Rightarrow> rq_model_id req | Some r \<Rightarrow> ru_id r @ [CHR 0x00] @ rq_model_id req)"

section \<open>Weighted order\<close>

text \<open>\<^verbatim>\<open>hashTieBreak\<close>: FNV-1a over 64-bit words.\<close>

definition fnv_prime64 :: "64 word" where "fnv_prime64 = 1099511628211"
definition fnv_offset64 :: "64 word" where "fnv_offset64 = 14695981039346656037"

definition fnv_byte :: "64 word \<Rightarrow> char \<Rightarrow> 64 word" where
  "fnv_byte h c = Bit_Operations.xor h (word_of_nat (of_char c)) * fnv_prime64"

definition hash_tie_break :: "64 word \<Rightarrow> string \<Rightarrow> string \<Rightarrow> 64 word" where
  "hash_tie_break salt pm_id p_id =
     foldl fnv_byte (fnv_byte (foldl fnv_byte (Bit_Operations.xor fnv_offset64 salt) pm_id) (CHR '':'')) p_id"

text \<open>The value of a finite IEEE double from its bits.\<close>

definition f64_value :: "64 word \<Rightarrow> real" where
  "f64_value w =
     (let e = uint (drop_bit 52 w) mod 2048;
          m = uint w mod 2 ^ 52;
          v = (if e = 0 then real_of_int m / 2 ^ 1074
               else real_of_int (2 ^ 52 + m) * 2 powi (e - 1075))
      in if 2 ^ 63 \<le> uint w then - v else v)"

definition smallest_nonzero_float64 :: real where
  "smallest_nonzero_float64 = 1 / 2 ^ 1074"

text \<open>\<^verbatim>\<open>urutBobot\<close>.\<close>

definition timpa_bobot :: "rule option \<Rightarrow> string \<rightharpoonup> int" where
  "timpa_bobot rule =
     (case rule of
        None \<Rightarrow> (\<lambda>_. None)
      | Some r \<Rightarrow> foldl (\<lambda>m rp. case rp_weight rp of None \<Rightarrow> m | Some w \<Rightarrow> m(rp_provider_id rp \<mapsto> w))
                   (\<lambda>_. None) (ru_providers r))"

definition bobot_efektif :: "rule option \<Rightarrow> route_candidate \<Rightarrow> int" where
  "bobot_efektif rule c =
     (let w = (case timpa_bobot rule (rc_provider_id c) of None \<Rightarrow> rc_weight c | Some v \<Rightarrow> v)
      in if w \<le> 0 then 1 else w)"

definition undian :: "real \<Rightarrow> real" where
  "undian u = (if u \<le> 0 then smallest_nonzero_float64 else u)"

fun kunci_bobot ::
    "rule option \<Rightarrow> (nat \<Rightarrow> 64 word) \<Rightarrow> nat \<Rightarrow> route_candidate list \<Rightarrow> (string \<rightharpoonup> real) \<Rightarrow> string \<rightharpoonup> real" where
  "kunci_bobot rule acak i [] m = m"
| "kunci_bobot rule acak i (c # cs) m =
     kunci_bobot rule acak (i + 1) cs
       (m(rc_provider_model_id c \<mapsto>
          - ln (undian (f64_value (acak i))) / real_of_int (bobot_efektif rule c)))"

definition cmp_bobot ::
    "(string \<rightharpoonup> real) \<Rightarrow> (string \<rightharpoonup> 64 word) \<Rightarrow> route_candidate \<Rightarrow> route_candidate \<Rightarrow> int" where
  "cmp_bobot kunci tie a b =
     (let k = (\<lambda>c. case kunci (rc_provider_model_id c) of None \<Rightarrow> 0 | Some v \<Rightarrow> v);
          t = (\<lambda>c. case tie (rc_provider_model_id c) of None \<Rightarrow> 0 | Some v \<Rightarrow> v);
          v = cmp_compare (k a) (k b)
      in if v \<noteq> 0 then v
         else let v = cmp_compare (t a) (t b)
              in if v \<noteq> 0 then v else cmp_compare (rc_provider_name a) (rc_provider_name b))"

definition urut_bobot ::
    "(nat \<Rightarrow> 64 word) \<Rightarrow> rule option \<Rightarrow> route_candidate list \<Rightarrow> selector \<Rightarrow> selector \<times> route_candidate list" where
  "urut_bobot acak rule cands s =
     (let j = sel_jitter s + 1;
          salt = Bit_Operations.xor j (acak 0);
          kunci = kunci_bobot rule acak 1 cands (\<lambda>_. None);
          tie = peta_nilai (\<lambda>c. Some (hash_tie_break salt (rc_provider_model_id c) (rc_provider_id c))) cands
      in (s\<lparr>sel_jitter := j\<rparr>, sort_stable_func (cmp_bobot kunci tie) cands))"

section \<open>Order\<close>

definition strategi_dipakai :: "rule option \<Rightarrow> strategy" where
  "strategi_dipakai rule =
     (case rule of None \<Rightarrow> strategy_priority
      | Some r \<Rightarrow> if strategy_valid (ru_strategy r) then ru_strategy r else strategy_priority)"

definition order ::
    "sumber \<Rightarrow> waktu \<Rightarrow> request \<Rightarrow> rule option \<Rightarrow> route_candidate list \<Rightarrow> selector \<Rightarrow>
     selector \<times> route_candidate list" where
  "order su now req rule cands s =
     (if cands = [] then (s, [])
      else
        let strategy = strategi_dipakai rule;
            out = saring_kandidat req rule cands
        in if out = [] then (s, [])
           else if strategy = strategy_round_robin then putar now (rotasi_key req rule) (urut_prioritas out) s
           else if strategy = strategy_weighted then urut_bobot (su_acak su) rule out s
           else if strategy = strategy_lowest_latency then (s, urut_latensi su out)
           else if strategy = strategy_lowest_cost then (s, urut_biaya su req out)
           else if strategy = strategy_capability then (s, urut_kemampuan out)
           else (s, urut_prioritas out))"

section \<open>Lemmas: the comparators\<close>

text \<open>All comparators of the strategies are lawful, so the facts on stable sorting hold for each.\<close>

lemma cmp_compare_flip: "cmp_compare b a = - cmp_compare a b"
  by (auto simp: cmp_compare_def)

lemma cmp_prioritas_le:
  "cmp_prioritas a b \<le> 0 \<longleftrightarrow>
     rc_priority a < rc_priority b \<or> rc_priority a = rc_priority b \<and>
     (rc_weight b < rc_weight a \<or> rc_weight b = rc_weight a \<and> rc_provider_name a \<le> rc_provider_name b)"
  by (auto simp: cmp_prioritas_def Let_def cmp_compare_def)

lemma cmp_prioritas_eq:
  "cmp_prioritas a b = 0 \<longleftrightarrow>
     rc_priority a = rc_priority b \<and> rc_weight a = rc_weight b \<and> rc_provider_name a = rc_provider_name b"
  by (auto simp: cmp_prioritas_def Let_def cmp_compare_def)

interpretation prio: go_cmp cmp_prioritas
proof
  fix a b c
  show "cmp_prioritas a b < 0 \<longleftrightarrow> 0 < cmp_prioritas b a"
    by (auto simp: cmp_prioritas_def Let_def cmp_compare_def)
  show "cmp_prioritas a b \<le> 0 \<Longrightarrow> cmp_prioritas b c \<le> 0 \<Longrightarrow> cmp_prioritas a c \<le> 0"
    unfolding cmp_prioritas_le by (elim disjE conjE) (auto intro: order_trans)
qed

interpretation jendela: go_cmp cmp_jendela
proof
  fix a b c
  show "cmp_jendela a b < 0 \<longleftrightarrow> 0 < cmp_jendela b a"
    by (auto simp: cmp_jendela_def split: option.splits)
  show "cmp_jendela a b \<le> 0 \<Longrightarrow> cmp_jendela b c \<le> 0 \<Longrightarrow> cmp_jendela a c \<le> 0"
    by (auto simp: cmp_jendela_def split: option.splits)
qed

lemma terukur_cmp: "go_cmp (cmp_terukur nilai)"
proof
  fix a b c
  show "cmp_terukur nilai a b < 0 \<longleftrightarrow> 0 < cmp_terukur nilai b a"
    by (auto simp: cmp_terukur_def split: option.splits)
  show "cmp_terukur nilai a b \<le> 0 \<Longrightarrow> cmp_terukur nilai b c \<le> 0 \<Longrightarrow> cmp_terukur nilai a c \<le> 0"
    by (auto simp: cmp_terukur_def split: option.splits)
qed

interpretation terukur: go_cmp "cmp_terukur nilai" for nilai
  by (rule terukur_cmp)

lemma cmp_bobot_eqs:
  "cmp_bobot kunci tie a b =
     (let k = \<lambda>c. case kunci (rc_provider_model_id c) of None \<Rightarrow> 0 | Some v \<Rightarrow> v;
          t = \<lambda>c. case tie (rc_provider_model_id c) of None \<Rightarrow> 0 | Some v \<Rightarrow> v
      in if k a < k b then - 1 else if k b < k a then 1
         else if t a < t b then - 1 else if t b < t a then 1
         else cmp_compare (rc_provider_name a) (rc_provider_name b))"
  by (auto simp: cmp_bobot_def Let_def cmp_compare_def)

interpretation bobot: go_cmp "cmp_bobot kunci tie" for kunci tie
proof
  fix a b c
  show "cmp_bobot kunci tie a b < 0 \<longleftrightarrow> 0 < cmp_bobot kunci tie b a"
    unfolding cmp_bobot_eqs Let_def by (auto simp: cmp_compare_def)
  show "cmp_bobot kunci tie a b \<le> 0 \<Longrightarrow> cmp_bobot kunci tie b c \<le> 0 \<Longrightarrow> cmp_bobot kunci tie a c \<le> 0"
    unfolding cmp_bobot_eqs Let_def by (auto split: if_splits)
qed

text \<open>\<^verbatim>\<open>urutPrioritas\<close> depends only on the multiset of candidates when names are distinct.\<close>

lemma mset_urut_prioritas [sort_simps]: "mset (urut_prioritas xs) = mset xs"
  by (simp add: urut_prioritas_def mset_sort_stable)

lemma urut_prioritas_sorted: "sorted_wrt (\<lambda>a b. cmp_prioritas a b \<le> 0) (urut_prioritas xs)"
  unfolding urut_prioritas_def by (rule prio.sort_stable_sorted)

lemma urut_prioritas_unique:
  assumes "mset xs = mset ys" and "inj_on rc_provider_name (set xs)"
  shows "urut_prioritas xs = urut_prioritas ys"
proof (rule sorted_wrt_unique [OF _ urut_prioritas_sorted urut_prioritas_sorted])
  show "mset (urut_prioritas xs) = mset (urut_prioritas ys)"
    using assms(1) by (simp add: mset_urut_prioritas)
  fix a b assume "a \<in> set (urut_prioritas xs)" "b \<in> set (urut_prioritas xs)"
  then have ab: "a \<in> set xs" "b \<in> set xs" by (simp_all add: urut_prioritas_def)
  assume "cmp_prioritas a b \<le> 0" "cmp_prioritas b a \<le> 0"
  then have "rc_provider_name a = rc_provider_name b" by (auto simp: cmp_prioritas_le)
  with ab assms(2) show "a = b" by (simp add: inj_on_def)
qed

lemma urut_terukur_refines:
  "sorted_wrt (\<lambda>a b. cmp_terukur nilai a b < 0 \<or> cmp_terukur nilai a b = 0 \<and> cmp_prioritas a b \<le> 0)
     (urut_terukur nilai xs)"
  unfolding urut_terukur_def by (rule terukur.sort_stable_refines [OF urut_prioritas_sorted])

lemma urut_kemampuan_refines:
  "sorted_wrt (\<lambda>a b. cmp_jendela a b < 0 \<or> cmp_jendela a b = 0 \<and> cmp_prioritas a b \<le> 0) (urut_kemampuan xs)"
  unfolding urut_kemampuan_def by (rule jendela.sort_stable_refines [OF urut_prioritas_sorted])

lemma sisip_cong:
  "(\<And>y. y \<in> set ys \<Longrightarrow> cmp y x = cmp' y x) \<Longrightarrow> sisip_stabil cmp x ys = sisip_stabil cmp' x ys"
  by (induction ys) auto

lemma sort_stable_cong:
  "(\<And>a b. a \<in> set xs \<Longrightarrow> b \<in> set xs \<Longrightarrow> cmp a b = cmp' a b) \<Longrightarrow> sort_stable_func cmp xs = sort_stable_func cmp' xs"
proof (induction xs)
  case (Cons x xs)
  have "sort_stable_func cmp xs = sort_stable_func cmp' xs" using Cons by simp
  moreover have "sisip_stabil cmp x (sort_stable_func cmp' xs) = sisip_stabil cmp' x (sort_stable_func cmp' xs)"
    using Cons.prems by (intro sisip_cong) simp
  ultimately show ?case by simp
qed simp

section \<open>Lemmas: rotation\<close>

lemma putar_slice_rotate: "putar_slice s n = rotate n s"
proof (cases "length s < 2")
  case True
  then have "rotate n s = s" by (cases s) (auto simp: rotate1_length01)
  with True show ?thesis by (simp add: putar_slice_def)
next
  case False
  have "rotate n s = drop (n mod length s) s @ take (n mod length s) s" by (rule rotate_drop_take)
  with False show ?thesis by (simp add: putar_slice_def Let_def)
qed

lemma mset_putar_slice [sort_simps]: "mset (putar_slice s n) = mset s"
  by (simp add: putar_slice_def Let_def) (metis append_take_drop_id mset_append union_commute mset_rev)

lemma hd_putar_slice: "s \<noteq> [] \<Longrightarrow> hd (putar_slice s n) = s ! (n mod length s)"
  by (simp add: putar_slice_rotate hd_rotate_conv_nth)

lemma saring_kandidat_eq: "saring_kandidat req rule cands = filter (\<lambda>c. c \<in> set (saring_kandidat req rule cands)) cands"
  by (auto simp: saring_kandidat_def Let_def intro: filter_cong)

lemma mset_order: "mset (snd (order su now req rule cands s)) = mset (saring_kandidat req rule cands)"
proof (cases "cands = []")
  case True
  then show ?thesis by (simp add: order_def saring_kandidat_def)
next
  case False
  have p: "mset (snd (putar now k xs s)) = mset xs" for k xs
    by (simp add: putar_def Let_def mset_putar_slice)
  show ?thesis
    using False
    by (simp add: order_def Let_def p urut_bobot_def urut_latensi_def urut_biaya_def urut_terukur_def
        urut_kemampuan_def sort_simps)
qed
section \<open>Lemmas: counters\<close>

definition rr_hitung :: "selector \<Rightarrow> string \<Rightarrow> 64 word" where
  "rr_hitung s k = (case map_of (sel_rr s) k of None \<Rightarrow> 0 | Some v \<Rightarrow> pe_n v)"

text \<open>The shape of the counter table: one entry per key, and the count is their number.\<close>

definition selector_sah :: "selector \<Rightarrow> bool" where
  "selector_sah s \<longleftrightarrow> distinct (map fst (sel_rr s)) \<and> sel_jumlah_rr s = int (length (sel_rr s))"

lemma map_of_filter_Some:
  "map_of xs k = Some v \<Longrightarrow> P v \<Longrightarrow> map_of (filter (\<lambda>(k, v). P v) xs) k = Some v"
  by (induction xs) (auto split: if_splits)

lemma sapu_rr_keeps:
  "map_of (sel_rr s) k = Some v \<Longrightarrow> now - umur_entri_rr \<le> pe_terakhir v \<Longrightarrow>
   map_of (sel_rr (sapu_rr now s)) k = Some v"
  by (simp add: sapu_rr_def Let_def map_of_filter_Some)

lemma length_filter_minus: "int (length xs - length (filter P xs)) = int (length xs) - int (length (filter P xs))"
  by (simp add: of_nat_diff)

lemma selector_sah_sapu: "selector_sah s \<Longrightarrow> selector_sah (sapu_rr now s)"
  by (simp add: selector_sah_def sapu_rr_def Let_def length_filter_minus distinct_map_filter)

lemma length_update:
  "length (AList.update k v xs) = (if map_of xs k = None then Suc (length xs) else length xs)"
  by (induction xs) auto

lemma selector_sah_update:
  "selector_sah s \<Longrightarrow> map_of (sel_rr s) k \<noteq> None \<Longrightarrow> selector_sah (s\<lparr>sel_rr := AList.update k v (sel_rr s)\<rparr>)"
  by (auto simp: selector_sah_def length_update distinct_update)

lemma selector_sah_insert:
  "selector_sah s \<Longrightarrow> map_of (sel_rr s) k = None \<Longrightarrow>
   selector_sah (s\<lparr>sel_rr := AList.update k v (sel_rr s), sel_jumlah_rr := sel_jumlah_rr s + 1\<rparr>)"
  by (auto simp: selector_sah_def length_update distinct_update)

lemma putar_step:
  assumes "2 \<le> length cands"
  shows "snd (putar now k cands s) = rotate (unat ((rr_hitung s k + 1) mod of_nat (length cands))) cands"
    and "rr_hitung (fst (putar now k cands s)) k = rr_hitung s k + 1"
    and "selector_sah s \<Longrightarrow> selector_sah (fst (putar now k cands s))"
proof -
  define ctr where "ctr = (case map_of (sel_rr s) k of None \<Rightarrow> \<lparr>pe_n = 0, pe_terakhir = 0\<rparr> | Some v \<Rightarrow> v)\<lparr>pe_terakhir := now\<rparr>"
  define s1 where "s1 = s\<lparr>sel_rr := AList.update k ctr (sel_rr s)\<rparr>"
  define s2 where "s2 = (if \<not> map_of (sel_rr s) k \<noteq> None then s1\<lparr>sel_jumlah_rr := sel_jumlah_rr s1 + 1\<rparr> else s1)"
  define s3 where "s3 = (if \<not> map_of (sel_rr s) k \<noteq> None \<and> ambang_sapu_rr < sel_jumlah_rr s2 then sapu_rr now s2 else s2)"
  define ctr' where "ctr' = ctr\<lparr>pe_n := pe_n ctr + 1\<rparr>"
  have n: "pe_n ctr = rr_hitung s k" by (simp add: ctr_def rr_hitung_def split: option.splits)
  have k2: "map_of (sel_rr s2) k = Some ctr" by (simp add: s2_def s1_def update_conv)
  have k3: "map_of (sel_rr s3) k = Some ctr"
    using k2 by (auto simp: s3_def intro!: sapu_rr_keeps) (simp add: ctr_def umur_entri_rr_def)
  have eq: "putar now k cands s =
    (s3\<lparr>sel_rr := AList.update k ctr' (sel_rr s3)\<rparr>, putar_slice cands (unat (pe_n ctr' mod of_nat (length cands))))"
    unfolding putar_def Let_def ctr_def [symmetric] unfolding s1_def [symmetric] unfolding s2_def [symmetric]
    unfolding s3_def [symmetric] ctr'_def [symmetric] using assms k3 by simp
  show "snd (putar now k cands s) = rotate (unat ((rr_hitung s k + 1) mod of_nat (length cands))) cands"
    by (simp add: eq putar_slice_rotate ctr'_def n)
  show "rr_hitung (fst (putar now k cands s)) k = rr_hitung s k + 1"
  proof -
    have "rr_hitung (s3\<lparr>sel_rr := AList.update k ctr' (sel_rr s3)\<rparr>) k = pe_n ctr'"
      by (simp add: rr_hitung_def update_conv)
    then show ?thesis by (simp add: eq ctr'_def n)
  qed
  assume s: "selector_sah s"
  have "selector_sah s2"
    using s by (auto simp: s2_def s1_def intro: selector_sah_update selector_sah_insert)
  then have "selector_sah s3" by (simp add: s3_def selector_sah_sapu)
  then have "selector_sah (s3\<lparr>sel_rr := AList.update k ctr' (sel_rr s3)\<rparr>)"
    using k3 by (auto intro: selector_sah_update)
  then show "selector_sah (fst (putar now k cands s))" by (simp add: eq)
qed

lemma selector_sah_order: "selector_sah s \<Longrightarrow> selector_sah (fst (order su now req rule cands s))"
proof -
  assume s: "selector_sah s"
  have "selector_sah (fst (putar now k xs s))" for k xs
    using s putar_step(3) [of xs s now k] by (cases "2 \<le> length xs") (auto simp: putar_def)
  with s show ?thesis
    by (simp add: order_def Let_def urut_bobot_def) (simp add: selector_sah_def)
qed

text \<open>States a selector can get into.\<close>

inductive sel_reach :: "selector \<Rightarrow> bool" where
  mulai: "sel_reach new_selector"
| langkah: "sel_reach s \<Longrightarrow> sel_reach (fst (order su now req rule cands s))"

lemma sel_reach_sah: "sel_reach s \<Longrightarrow> selector_sah s"
  by (induction rule: sel_reach.induct) (auto simp: selector_sah_order, simp add: selector_sah_def new_selector_def)

text \<open>Several calls of \<^verbatim>\<open>Order\<close> for the same request, one per clock reading.\<close>

fun order_berulang ::
    "sumber \<Rightarrow> request \<Rightarrow> rule option \<Rightarrow> route_candidate list \<Rightarrow> waktu list \<Rightarrow> selector \<Rightarrow> route_candidate list list" where
  "order_berulang su req rule cands [] s = []"
| "order_berulang su req rule cands (now # nows) s =
     (case order su now req rule cands s of
        (s', out) \<Rightarrow> out # order_berulang su req rule cands nows s')"

lemma order_rr:
  assumes "strategi_dipakai rule = strategy_round_robin" and "saring_kandidat req rule cands \<noteq> []"
  shows "order su now req rule cands s =
    putar now (rotasi_key req rule) (urut_prioritas (saring_kandidat req rule cands)) s"
  using assms by (auto simp: order_def Let_def) (simp add: saring_kandidat_def)

lemma unat_next:
  fixes c :: "64 word"
  assumes "unat c + n < 2 ^ 64" and "1 \<le> n"
  shows "unat (c + 1) = unat c + 1"
  using assms by (intro unat_plus_simple [THEN iffD1, THEN trans]) (auto simp: word_le_nat_alt unat_word_ariths)

lemma order_berulang_heads:
  assumes rr: "strategi_dipakai rule = strategy_round_robin"
    and out: "out = urut_prioritas (saring_kandidat req rule cands)" "2 \<le> length out"
    and c: "unat (rr_hitung s (rotasi_key req rule)) + length nows < 2 ^ 64" "length out < 2 ^ 64"
  shows "map hd (order_berulang su req rule cands nows s) =
    map (\<lambda>i. out ! ((unat (rr_hitung s (rotasi_key req rule)) + 1 + i) mod length out)) [0..<length nows]"
  using c(1)
proof (induction nows arbitrary: s)
  case Nil
  then show ?case by simp
next
  case (Cons now nows)
  let ?k = "rotasi_key req rule"
  let ?c = "rr_hitung s ?k"
  let ?r = "putar now ?k out s"
  have ne: "saring_kandidat req rule cands \<noteq> []" using out by (auto simp: urut_prioritas_def)
  have ord: "order su now req rule cands s = ?r" using order_rr [OF rr ne] out(1) by simp
  have c1: "unat (?c + 1) = unat ?c + 1"
    using Cons.prems by (intro unat_next [of _ "length (now # nows)"]) simp_all
  have "unat ((?c + 1) mod of_nat (length out)) = (unat ?c + 1) mod length out"
    using c(2) c1 by (simp add: unat_mod unat_of_nat)
  then have hd0: "hd (snd ?r) = out ! ((unat ?c + 1) mod length out)"
    using out(2) putar_step(1) [OF out(2), of now ?k s] hd_rotate_conv_nth [of out] by fastforce
  have next_c: "unat (rr_hitung (fst ?r) ?k) = unat ?c + 1"
    using putar_step(2) [OF out(2), of now ?k s] c1 by simp
  have "map hd (order_berulang su req rule cands nows (fst ?r)) =
    map (\<lambda>i. out ! ((unat ?c + 1 + 1 + i) mod length out)) [0..<length nows]"
    using Cons.IH [of "fst ?r"] Cons.prems by (simp add: next_c)
  also have "\<dots> = map (\<lambda>i. out ! ((unat ?c + 1 + i) mod length out)) [1..<Suc (length nows)]"
    by (simp add: map_Suc_upt [symmetric, of 0] del: upt_Suc)
  finally show ?case
    using hd0 by (simp add: ord case_prod_beta upt_conv_Cons del: upt_Suc)
qed
lemma mset_rotation_heads:
  assumes "out \<noteq> []"
  shows "mset (map (\<lambda>i. out ! ((k + i) mod length out)) [0..<length out]) = mset out"
proof -
  have "map (\<lambda>i. out ! ((k + i) mod length out)) [0..<length out] = rotate k out"
    by (rule nth_equalityI) (simp_all add: nth_rotate add.commute)
  then show ?thesis
    by (metis rotate_drop_take append_take_drop_id mset_append union_commute)
qed

section \<open>Lemmas: measured values\<close>

lemma peta_nilai_snoc:
  "peta_nilai f (cs @ [c]) = (case f c of None \<Rightarrow> peta_nilai f cs | Some v \<Rightarrow> (peta_nilai f cs)(rc_provider_model_id c \<mapsto> v))"
  unfolding peta_nilai_def foldl_append by simp

lemma peta_nilai_mem:
  assumes "inj_on rc_provider_model_id (set cs)" and "c \<in> set cs"
  shows "peta_nilai f cs (rc_provider_model_id c) = f c"
proof -
  have none: "peta_nilai f cs k = None" if "k \<notin> rc_provider_model_id ` set cs" for cs k
    using that by (induction cs rule: rev_induct) (auto simp: peta_nilai_snoc split: option.splits, simp add: peta_nilai_def)
  show ?thesis
    using assms
  proof (induction cs rule: rev_induct)
    case (snoc d cs)
    have inj: "inj_on rc_provider_model_id (set cs)" using snoc.prems(1) by (simp add: inj_on_def)
    show ?case
    proof (cases "c \<in> set cs")
      case True
      then have "d = c \<or> rc_provider_model_id d \<noteq> rc_provider_model_id c"
        using snoc.prems by (auto simp: inj_on_def)
      with True snoc.IH [OF inj True] show ?thesis
        by (auto simp: peta_nilai_snoc split: option.splits)
    next
      case False
      with snoc.prems have c: "c = d" "rc_provider_model_id d \<notin> rc_provider_model_id ` set cs"
        by (auto simp: inj_on_def)
      then show ?thesis using none [OF c(2)] by (auto simp: peta_nilai_snoc split: option.splits)
    qed
  qed simp
qed

text \<open>The order promised by the measured strategies: known values ascending, then the unknown;
  priority decides among equals.\<close>

definition urutan_terukur :: "(route_candidate \<Rightarrow> int option) \<Rightarrow> route_candidate list \<Rightarrow> bool" where
  "urutan_terukur nilai out \<longleftrightarrow>
     sorted_wrt (\<lambda>a b. case (nilai a, nilai b) of
         (Some va, Some vb) \<Rightarrow> va < vb \<or> va = vb \<and> cmp_prioritas a b \<le> 0
       | (Some _, None) \<Rightarrow> True
       | (None, Some _) \<Rightarrow> False
       | (None, None) \<Rightarrow> cmp_prioritas a b \<le> 0) out"

lemma urut_terukur_urutan:
  assumes "\<And>c. c \<in> set xs \<Longrightarrow> nilai c = nilai' c"
  shows "urutan_terukur nilai' (urut_terukur nilai xs)"
proof -
  have "set (urut_terukur nilai xs) = set xs" by (simp add: urut_terukur_def urut_prioritas_def)
  with assms have eq: "\<And>c. c \<in> set (urut_terukur nilai xs) \<Longrightarrow> nilai c = nilai' c" by simp
  show ?thesis
    unfolding urutan_terukur_def
    by (rule sorted_wrt_mono_rel [OF _ urut_terukur_refines [of nilai xs]])
       (auto simp: cmp_terukur_def eq split: option.splits)
qed

lemma strategi_dipakai_Some: "strategy_valid (ru_strategy r) \<Longrightarrow> strategi_dipakai (Some r) = ru_strategy r"
  by (simp add: strategi_dipakai_def)

lemma set_saring: "set (saring_kandidat req rule cands) \<subseteq> set cands"
  by (auto simp: saring_kandidat_def Let_def)

lemma order_cost:
  assumes "strategi_dipakai rule = strategy_lowest_cost"
  shows "snd (order su now req rule cands s) = urut_biaya su req (saring_kandidat req rule cands)"
  using assms
  by (auto simp: order_def Let_def strategy_defs saring_kandidat_def urut_biaya_def urut_terukur_def urut_prioritas_def)

lemma order_latency:
  assumes "strategi_dipakai rule = strategy_lowest_latency"
  shows "snd (order su now req rule cands s) = urut_latensi su (saring_kandidat req rule cands)"
  using assms
  by (auto simp: order_def Let_def strategy_defs saring_kandidat_def urut_latensi_def urut_terukur_def urut_prioritas_def)

lemma peta_biaya:
  assumes "c \<in> set cs"
  shows "peta_nilai (\<lambda>c. f (rc_provider_model_id c)) cs (rc_provider_model_id c) = f (rc_provider_model_id c)"
proof -
  have "peta_nilai (\<lambda>c. f (rc_provider_model_id c)) cs k = (if k \<in> rc_provider_model_id ` set cs then f k else None)" for k
    by (induction cs rule: rev_induct) (auto simp: peta_nilai_snoc split: option.splits, simp_all add: peta_nilai_def)
  with assms show ?thesis by simp
qed

section \<open>Lemmas: weights\<close>

lemma undian_pos: "0 < undian u"
  by (simp add: undian_def smallest_nonzero_float64_def)

lemma bobot_pos: "0 < bobot_efektif rule c"
  by (simp add: bobot_efektif_def Let_def)

text \<open>The draw a candidate gets: its position in the filtered list, after the draw for the salt.\<close>

definition skor :: "rule option \<Rightarrow> (nat \<Rightarrow> 64 word) \<Rightarrow> route_candidate list \<Rightarrow> nat \<Rightarrow> real" where
  "skor rule acak out i = undian (f64_value (acak (i + 1))) powr (1 / real_of_int (bobot_efektif rule (out ! i)))"

lemma kunci_bobot_other:
  "k \<notin> rc_provider_model_id ` set cs \<Longrightarrow> kunci_bobot rule acak i cs m k = m k"
  by (induction cs arbitrary: i m) auto

lemma kunci_bobot_nth:
  assumes "distinct (map rc_provider_model_id cs)" and "j < length cs"
  shows "kunci_bobot rule acak i cs m (rc_provider_model_id (cs ! j)) =
    Some (- ln (undian (f64_value (acak (i + j)))) / real_of_int (bobot_efektif rule (cs ! j)))"
  using assms
proof (induction cs arbitrary: i j m)
  case Nil
  then show ?case by simp
next
  case (Cons c cs)
  show ?case
  proof (cases j)
    case 0
    with Cons.prems show ?thesis by (simp add: kunci_bobot_other)
  next
    case (Suc j')
    with Cons.IH [of j' "i + 1"] Cons.prems show ?thesis by simp
  qed
qed

lemma powr_key:
  fixes u v :: real
  assumes "0 < u" "0 < v" "0 < a" "0 < b"
  shows "u powr (1 / a) < v powr (1 / b) \<longleftrightarrow> - ln v / b < - ln u / a"
proof -
  have "u powr (1 / a) = exp (ln u / a)" "v powr (1 / b) = exp (ln v / b)"
    using assms by (simp_all add: powr_def)
  then show ?thesis by simp
qed

lemma order_bobot:
  assumes "strategi_dipakai rule = strategy_weighted"
  shows "snd (order su now req rule cands s) = snd (urut_bobot (su_acak su) rule (saring_kandidat req rule cands) s)"
  using assms
  by (auto simp: order_def Let_def strategy_defs saring_kandidat_def urut_bobot_def)

lemma sorted_wrt_precedes:
  assumes "sorted_wrt R xs" and "a \<in> set xs" "b \<in> set xs" "a \<noteq> b" "\<not> R b a"
  shows "\<exists>us vs ws. xs = us @ a # vs @ b # ws"
proof -
  from assms(2) obtain us rest where xs: "xs = us @ a # rest" by (meson split_list)
  show ?thesis
  proof (cases "b \<in> set rest")
    case True
    then obtain vs ws where "rest = vs @ b # ws" by (meson split_list)
    with xs show ?thesis by blast
  next
    case False
    with assms(3,4) xs have "b \<in> set us" by auto
    with assms(1,5) xs show ?thesis by (auto simp: sorted_wrt_append)
  qed
qed

section \<open>Properties\<close>

text \<open>C11.  Whatever the strategy, the draws and the state of the selector, the order returned is
  a permutation of exactly those candidates that can serve the request: allowed by the rule,
  streaming and tools where asked for, and a context window that holds input and output.\<close>

theorem order_permutation:
  "mset (snd (order su now req rule cands s)) =
     filter_mset (\<lambda>c.
       (\<forall>r. rule = Some r \<longrightarrow> ru_providers r \<noteq> [] \<longrightarrow> (\<exists>rp\<in>set (ru_providers r). rp_provider_id rp = rc_provider_id c)) \<and>
       (rq_streaming req \<longrightarrow> rc_supports_streaming c) \<and>
       (''tools'' \<in> set (rq_capabilities req) \<longrightarrow> rc_supports_tools c) \<and>
       (\<forall>w. rc_max_context_window c = Some w \<longrightarrow> 0 < te_input (rq_tokens req) \<longrightarrow>
          wrap64 (te_input (rq_tokens req) + te_output (rq_tokens req)) \<le> w)) (mset cands)"
proof -
  have "saring_kandidat req rule cands = filter (\<lambda>c.
       (\<forall>r. rule = Some r \<longrightarrow> ru_providers r \<noteq> [] \<longrightarrow> (\<exists>rp\<in>set (ru_providers r). rp_provider_id rp = rc_provider_id c)) \<and>
       (rq_streaming req \<longrightarrow> rc_supports_streaming c) \<and>
       (''tools'' \<in> set (rq_capabilities req) \<longrightarrow> rc_supports_tools c) \<and>
       (\<forall>w. rc_max_context_window c = Some w \<longrightarrow> 0 < te_input (rq_tokens req) \<longrightarrow>
          wrap64 (te_input (rq_tokens req) + te_output (rq_tokens req)) \<le> w)) cands"
    unfolding saring_kandidat_def Let_def
    by (intro filter_cong)
       (auto simp: izin_provider_def muat_konteks_def list_ex_iff not_less split: option.splits)
  then show ?thesis by (simp add: mset_order)
qed

definition contoh_cand :: "string \<Rightarrow> int \<Rightarrow> int \<Rightarrow> route_candidate" where
  "contoh_cand n pr w = \<lparr>rc_model_id = ''m1'', rc_provider_model_id = ''pm-'' @ n, rc_upstream_model_name = ''u'',
     rc_max_context_window = Some 1000, rc_supports_streaming = True, rc_supports_tools = True,
     rc_priority = pr, rc_weight = w, rc_provider_id = n, rc_provider_name = n, rc_kind = ''openai'',
     rc_base_url = [], rc_timeout_ms = 1000, rc_max_retries = 1, rc_rate_limit_rpm = None,
     rc_rate_limit_tpm = None, rc_max_concurrent = None, rc_egress_pool_id = None, rc_is_byok = False,
     rc_owner_user_id = None, rc_last_health_status = None, rc_last_latency_ms = None,
     rc_consecutive_failures = 0\<rparr>"

definition contoh_sumber :: sumber where
  "contoh_sumber = \<lparr>su_latency = None,
     su_cost = Some (\<lambda>pm t. if pm = ''pm-a'' then Some 30 else if pm = ''pm-b'' then Some 10 else None),
     su_acak = (\<lambda>i. 4602678819172646912)\<rparr>"

lemma order_permutation_witness:
  "mset (snd (order contoh_sumber 0 contoh_request None
      [contoh_cand ''a'' 2 1, (contoh_cand ''b'' 1 1)\<lparr>rc_supports_tools := False\<rparr>] new_selector)) \<noteq>
   mset [contoh_cand ''a'' 2 1, (contoh_cand ''b'' 1 1)\<lparr>rc_supports_tools := False\<rparr>]"
  by (simp add: order_permutation contoh_request_def contoh_cand_def)

text \<open>C15.  The cheapest-first and fastest-first strategies: known values ascending, a candidate
  without a price or a measurement behind all that have one, ties by priority, weight and name.\<close>

theorem order_terukur:
  assumes "ru_strategy r = strategy_lowest_cost \<or> ru_strategy r = strategy_lowest_latency"
    and "inj_on rc_provider_model_id (set cands)"
  shows "urutan_terukur
     (if ru_strategy r = strategy_lowest_cost
      then (\<lambda>c. case su_cost su of None \<Rightarrow> None | Some f \<Rightarrow> f (rc_provider_model_id c) (rq_tokens req))
      else latensi su)
     (snd (order su now req (Some r) cands s))"
proof (cases "ru_strategy r = strategy_lowest_cost")
  case True
  then have "strategi_dipakai (Some r) = strategy_lowest_cost"
    by (simp add: strategi_dipakai_Some strategy_valid_def)
  then show ?thesis
    using True peta_biaya [of _ "saring_kandidat req (Some r) cands" "\<lambda>pm. f pm (rq_tokens req)" for f]
    by (auto simp: order_cost urut_biaya_def intro!: urut_terukur_urutan split: option.splits)
next
  case False
  with assms(1) have "strategi_dipakai (Some r) = strategy_lowest_latency"
    by (simp add: strategi_dipakai_Some strategy_valid_def)
  moreover have "inj_on rc_provider_model_id (set (saring_kandidat req (Some r) cands))"
    using assms(2) set_saring by (rule inj_on_subset)
  ultimately show ?thesis
    using False by (auto simp: order_latency urut_latensi_def Let_def peta_nilai_mem intro!: urut_terukur_urutan)
qed

lemma order_terukur_witness:
  "urutan_terukur (\<lambda>c. case su_cost contoh_sumber of None \<Rightarrow> None | Some f \<Rightarrow> f (rc_provider_model_id c) (rq_tokens contoh_request))
     (snd (order contoh_sumber 0 contoh_request (Some (contoh_rule\<lparr>ru_strategy := strategy_lowest_cost\<rparr>))
        [contoh_cand ''c'' 1 1, contoh_cand ''a'' 2 1, contoh_cand ''b'' 3 1] new_selector)) \<and>
   map rc_provider_name (snd (order contoh_sumber 0 contoh_request (Some (contoh_rule\<lparr>ru_strategy := strategy_lowest_cost\<rparr>))
        [contoh_cand ''c'' 1 1, contoh_cand ''a'' 2 1, contoh_cand ''b'' 3 1] new_selector)) = [''b'', ''a'', ''c'']"
proof
  let ?r = "contoh_rule\<lparr>ru_strategy := strategy_lowest_cost\<rparr>"
  let ?cs = "[contoh_cand ''c'' 1 1, contoh_cand ''a'' 2 1, contoh_cand ''b'' 3 1]"
  have inj: "inj_on rc_provider_model_id (set ?cs)" by (simp add: contoh_cand_def inj_on_def)
  show "urutan_terukur (\<lambda>c. case su_cost contoh_sumber of None \<Rightarrow> None | Some f \<Rightarrow> f (rc_provider_model_id c) (rq_tokens contoh_request))
     (snd (order contoh_sumber 0 contoh_request (Some ?r) ?cs new_selector))"
    using order_terukur [OF _ inj, of ?r] by simp
  have "strategi_dipakai (Some ?r) = strategy_lowest_cost" "saring_kandidat contoh_request (Some ?r) ?cs = ?cs"
    by code_simp+
  moreover have "map rc_provider_name (urut_biaya contoh_sumber contoh_request ?cs) = [''b'', ''a'', ''c'']"
    by code_simp
  ultimately show "map rc_provider_name (snd (order contoh_sumber 0 contoh_request (Some ?r) ?cs new_selector)) = [''b'', ''a'', ''c'']"
    by (simp add: order_cost)
qed

text \<open>C17.  Round robin is fair: over as many calls as there are eligible candidates, each comes
  first exactly once, whatever the other counters do and even when old ones are swept.\<close>

theorem round_robin_fair:
  assumes "ru_strategy r = strategy_round_robin"
    and "out = saring_kandidat req (Some r) cands" and "2 \<le> length out"
    and "unat (rr_hitung s (rotasi_key req (Some r))) + length out < 2 ^ 64"
    and "length nows = length out"
  shows "mset (map hd (order_berulang su req (Some r) cands nows s)) = mset out"
proof -
  let ?out = "urut_prioritas out"
  have len: "length ?out = length out" by (simp add: urut_prioritas_def)
  have "strategi_dipakai (Some r) = strategy_round_robin"
    using assms(1) by (simp add: strategi_dipakai_Some strategy_valid_def)
  then have "map hd (order_berulang su req (Some r) cands nows s) =
    map (\<lambda>i. ?out ! ((unat (rr_hitung s (rotasi_key req (Some r))) + 1 + i) mod length ?out)) [0..<length ?out]"
    using order_berulang_heads [of "Some r" ?out req cands s nows su] assms len by simp
  also have "mset \<dots> = mset ?out" using assms(3) len by (intro mset_rotation_heads) auto
  finally show ?thesis by (simp add: mset_urut_prioritas)
qed

lemma round_robin_fair_witness:
  "mset (map hd (order_berulang contoh_sumber contoh_request (Some (contoh_rule\<lparr>ru_strategy := strategy_round_robin\<rparr>))
     [contoh_cand ''a'' 1 1, contoh_cand ''b'' 1 1, contoh_cand ''c'' 1 1] [5, 6, 7] new_selector)) =
   mset [contoh_cand ''a'' 1 1, contoh_cand ''b'' 1 1, contoh_cand ''c'' 1 1]"
proof (rule round_robin_fair)
  show "[contoh_cand ''a'' 1 1, contoh_cand ''b'' 1 1, contoh_cand ''c'' 1 1] =
    saring_kandidat contoh_request (Some (contoh_rule\<lparr>ru_strategy := strategy_round_robin\<rparr>))
      [contoh_cand ''a'' 1 1, contoh_cand ''b'' 1 1, contoh_cand ''c'' 1 1]" by code_simp
qed (simp_all add: rr_hitung_def new_selector_def)

text \<open> The weighted order is the Efraimidis-Spirakis sample: the candidate with the larger
  \<open>u powr (1/w)\<close> comes first, for every pair, so every position of the failover order respects the
  weights (a rule's weight overriding the provider's).\<close>

theorem weighted_order:
  assumes "ru_strategy r = strategy_weighted"
    and "out = saring_kandidat req (Some r) cands" and "distinct (map rc_provider_model_id out)"
    and "i < length out" and "j < length out"
    and "skor (Some r) (su_acak su) out j < skor (Some r) (su_acak su) out i"
  shows "\<exists>us vs ws. snd (order su now req (Some r) cands s) = us @ out ! i # vs @ out ! j # ws"
proof -
  let ?acak = "su_acak su"
  define kunci where "kunci = kunci_bobot (Some r) ?acak 1 out (\<lambda>_. None)"
  define tie where "tie = peta_nilai (\<lambda>c. Some (hash_tie_break (Bit_Operations.xor (sel_jitter s + 1) (?acak 0))
      (rc_provider_model_id c) (rc_provider_id c))) out"
  let ?res = "sort_stable_func (cmp_bobot kunci tie) out"
  have "strategi_dipakai (Some r) = strategy_weighted"
    using assms(1) by (simp add: strategi_dipakai_Some strategy_valid_def)
  then have res: "snd (order su now req (Some r) cands s) = ?res"
    using assms(2) by (simp add: order_bobot urut_bobot_def Let_def kunci_def tie_def)
  have k: "kunci (rc_provider_model_id (out ! l)) =
    Some (- ln (undian (f64_value (?acak (l + 1)))) / real_of_int (bobot_efektif (Some r) (out ! l)))"
    if "l < length out" for l
    using kunci_bobot_nth [OF assms(3) that, of "Some r" ?acak 1] by (simp add: kunci_def add.commute)
  have "- ln (undian (f64_value (?acak (i + 1)))) / real_of_int (bobot_efektif (Some r) (out ! i)) <
        - ln (undian (f64_value (?acak (j + 1)))) / real_of_int (bobot_efektif (Some r) (out ! j))"
    using assms(6) unfolding skor_def by (subst (asm) powr_key) (simp_all add: undian_pos bobot_pos)
  then have "cmp_bobot kunci tie (out ! i) (out ! j) < 0" "out ! i \<noteq> out ! j"
    using k [OF assms(4)] k [OF assms(5)] by (auto simp: cmp_bobot_def Let_def cmp_compare_def)
  moreover from this(1) have "\<not> cmp_bobot kunci tie (out ! j) (out ! i) \<le> 0"
    using bobot.cmp_flip [of kunci tie "out ! i" "out ! j"] by simp
  ultimately show ?thesis
    unfolding res using assms(4,5)
    by (intro sorted_wrt_precedes [OF bobot.sort_stable_sorted]) simp_all
qed

text \<open> The order does not depend on how the candidates arrive: for every strategy but the
  weighted one, listing the same candidates in another order gives the same answer.\<close>

theorem order_deterministic:
  assumes "mset cands = mset cands'" and "inj_on rc_provider_name (set cands)"
    and "inj_on rc_provider_model_id (set cands)" and "strategi_dipakai rule \<noteq> strategy_weighted"
  shows "order su now req rule cands s = order su now req rule cands' s"
proof -
  let ?x = "saring_kandidat req rule cands" and ?y = "saring_kandidat req rule cands'"
  have m: "mset ?x = mset ?y" using assms(1) by (simp add: saring_kandidat_def Let_def)
  have nil: "cands = [] \<longleftrightarrow> cands' = []" "?x = [] \<longleftrightarrow> ?y = []"
    using assms(1) m by (metis mset_zero_iff)+
  have inj: "inj_on rc_provider_name (set ?x)" "inj_on rc_provider_model_id (set ?x)"
    by (rule inj_on_subset [OF assms(2) set_saring], rule inj_on_subset [OF assms(3) set_saring])
  have prio: "urut_prioritas ?x = urut_prioritas ?y" by (rule urut_prioritas_unique [OF m inj(1)])
  have sets: "set ?x = set ?y" using m by (metis set_mset_mset)
  have peta: "peta_nilai f ?x (rc_provider_model_id c) = peta_nilai f ?y (rc_provider_model_id c)" if "c \<in> set ?x" for f :: "route_candidate \<Rightarrow> int option" and c
    using that inj(2) sets peta_nilai_mem by metis
  have terukur: "urut_terukur (\<lambda>c. peta_nilai f ?x (rc_provider_model_id c)) ?x =
    urut_terukur (\<lambda>c. peta_nilai f ?y (rc_provider_model_id c)) ?y" for f :: "route_candidate \<Rightarrow> int option"
    unfolding urut_terukur_def prio [symmetric]
    by (rule sort_stable_cong) (simp add: cmp_terukur_def peta urut_prioritas_def)
  have biaya: "urut_biaya su req ?x = urut_biaya su req ?y"
    using terukur prio by (simp add: urut_biaya_def urut_terukur_def Let_def split: option.split)
  show ?thesis
    using assms(4) nil prio terukur biaya
    by (simp add: order_def Let_def urut_latensi_def urut_kemampuan_def)
qed

lemma order_deterministic_witness:
  "order contoh_sumber 9 contoh_request None [contoh_cand ''a'' 1 1, contoh_cand ''b'' 1 2] new_selector =
   order contoh_sumber 9 contoh_request None [contoh_cand ''b'' 1 2, contoh_cand ''a'' 1 1] new_selector"
  by (rule order_deterministic)
     (simp_all add: contoh_cand_def strategi_dipakai_def strategy_defs add_mset_commute)

lemma weighted_order_witness:
  "\<exists>us vs ws. snd (order (contoh_sumber\<lparr>su_acak := (\<lambda>i. if i = 1 then 4602678819172646912 else 4598175219545276416)\<rparr>)
      0 contoh_request (Some (contoh_rule\<lparr>ru_strategy := strategy_weighted\<rparr>))
      [contoh_cand ''a'' 1 1, contoh_cand ''b'' 1 1] new_selector) =
    us @ contoh_cand ''a'' 1 1 # vs @ contoh_cand ''b'' 1 1 # ws"
proof -
  let ?su = "contoh_sumber\<lparr>su_acak := (\<lambda>i. if i = 1 then 4602678819172646912 else 4598175219545276416)\<rparr>"
  let ?r = "contoh_rule\<lparr>ru_strategy := strategy_weighted\<rparr>"
  let ?cs = "[contoh_cand ''a'' 1 1, contoh_cand ''b'' 1 1]"
  have saring: "?cs = saring_kandidat contoh_request (Some ?r) ?cs" by code_simp
  have w: "bobot_efektif (Some ?r) (contoh_cand n 1 1) = 1" for n
    by (simp add: bobot_efektif_def timpa_bobot_def contoh_rule_def contoh_cand_def)
  have bits: "uint (drop_bit 52 (4602678819172646912 :: 64 word)) = 1022"
    "uint (drop_bit 52 (4598175219545276416 :: 64 word)) = 1021" by code_simp+
  have "f64_value 4602678819172646912 = 1 / 2" "f64_value 4598175219545276416 = 1 / 4"
    by (simp_all add: f64_value_def bits power_int_def power_one_over)
  then have "skor (Some ?r) (su_acak ?su) ?cs 1 < skor (Some ?r) (su_acak ?su) ?cs 0"
    by (simp add: skor_def w undian_def)
  then show ?thesis
    using weighted_order [of ?r ?cs contoh_request ?cs 0 1 ?su 0 new_selector] saring
    by (simp add: contoh_cand_def)
qed

text \<open> The table of round-robin counters stays consistent in every reachable state: one entry
  per rotation key, and the running count is the number of entries.\<close>

theorem selector_reachable:
  assumes "sel_reach s"
  shows "distinct (map fst (sel_rr s)) \<and> sel_jumlah_rr s = int (length (sel_rr s))"
  using sel_reach_sah [OF assms] by (simp add: selector_sah_def)

lemma selector_reachable_witness:
  "distinct (map fst (sel_rr new_selector)) \<and> sel_jumlah_rr new_selector = int (length (sel_rr new_selector))"
  by (rule selector_reachable [OF mulai])

end
