(* ===== verification/Route_Engine.thy ===== *)
theory Route_Engine
  imports Selector
begin

text \<open>
  The routing engine, \<^verbatim>\<open>internal/router/engine.go\<close>: a cache of the active rules in front of a rule
  source, the choice of the rule and the order of the candidates.  The source is a database
  query: what it answers in one call is an argument (\<^const>\<open>Inl\<close> a failure, \<^const>\<open>Inr\<close> the rows,
  \<^const>\<open>None\<close> no source at all), and so are the clock and the decoder of combo recipes.
\<close>

record engine =
  en_cache :: "rule list"
  en_segar_di :: waktu
  en_sel :: selector

definition default_rule_ttl :: durasi where "default_rule_ttl = 5 * detik"

definition new_engine :: engine where
  "new_engine = \<lparr>en_cache = [], en_segar_di = waktu_nol, en_sel = new_selector\<rparr>"

type_synonym jawaban_sumber = "(string + routing_rule list) option"

text \<open>A row that cannot be converted is skipped.\<close>

definition aturan_dari :: "(string \<Rightarrow> combo_pipeline option) \<Rightarrow> routing_rule list \<Rightarrow> rule list" where
  "aturan_dari urai rows =
     List.map_filter (\<lambda>row. case rule_from_row urai (Some row) of Inl _ \<Rightarrow> None | Inr r \<Rightarrow> Some r) rows"

text \<open>\<^verbatim>\<open>Engine.aturan\<close>: the rules to use, and whether the source failed.\<close>

definition aturan ::
    "(string \<Rightarrow> combo_pipeline option) \<Rightarrow> durasi \<Rightarrow> jawaban_sumber \<Rightarrow> waktu \<Rightarrow> engine \<Rightarrow>
     engine \<times> rule list \<times> string option" where
  "aturan urai ttl src now e =
     (case src of
        None \<Rightarrow> (e, [], None)
      | Some jawaban \<Rightarrow>
          if now < en_segar_di e then (e, en_cache e, None)
          else (case jawaban of
                  Inl err \<Rightarrow> (e, en_cache e, Some err)
                | Inr rows \<Rightarrow>
                    let baru = aturan_dari urai rows
                    in (e\<lparr>en_cache := baru, en_segar_di := now + ttl\<rparr>, baru, None)))"

record decision =
  de_rule :: "rule option"
  de_candidates :: "route_candidate list"

text \<open>\<^verbatim>\<open>Engine.Route\<close>.\<close>

definition route ::
    "(string \<Rightarrow> combo_pipeline option) \<Rightarrow> durasi \<Rightarrow> sumber \<Rightarrow> jawaban_sumber \<Rightarrow> waktu \<Rightarrow> request \<Rightarrow>
     route_candidate list \<Rightarrow> engine \<Rightarrow> engine \<times> decision" where
  "route urai ttl su src now req cands e =
     (case aturan urai ttl src now e of
        (e1, rules, _) \<Rightarrow>
          let rule = first_match rules req
          in (case order su now req rule cands (en_sel e1) of
                (s, out) \<Rightarrow> (e1\<lparr>en_sel := s\<rparr>, \<lparr>de_rule = rule, de_candidates = out\<rparr>)))"

text \<open>\<^verbatim>\<open>Engine.OrderCandidates\<close>: a stand-in rule carries the strategy of the recipe.\<close>

definition rule_tiruan :: "string \<Rightarrow> strategy \<Rightarrow> rule" where
  "rule_tiruan i st = \<lparr>ru_id = i, ru_name = [], ru_description = [], ru_priority = 0,
     ru_match_model_id = [], ru_match_api_key_id = [], ru_match_capabilities = [], ru_strategy = st,
     ru_max_attempts = 0, ru_backoff_base = 0, ru_failure_threshold = 0, ru_open_duration = 0,
     ru_half_open_probes = 0, ru_pipeline = None, ru_virtual_alias = [], ru_providers = []\<rparr>"

definition order_candidates ::
    "sumber \<Rightarrow> waktu \<Rightarrow> request \<Rightarrow> string \<Rightarrow> strategy \<Rightarrow> route_candidate list \<Rightarrow> engine \<Rightarrow>
     engine \<times> route_candidate list" where
  "order_candidates su now req rule_id strategy cands e =
     (case order su now req (Some (rule_tiruan rule_id strategy)) cands (en_sel e) of
        (s, out) \<Rightarrow> (e\<lparr>en_sel := s\<rparr>, out))"

text \<open>\<^verbatim>\<open>Engine.Invalidate\<close>.\<close>

definition invalidate :: "engine \<Rightarrow> engine" where
  "invalidate e = e\<lparr>en_segar_di := waktu_nol\<rparr>"

text \<open>\<^verbatim>\<open>Engine.FindRuleTargetModelID\<close>.\<close>

definition find_rule_target_model_id ::
    "(string \<Rightarrow> combo_pipeline option) \<Rightarrow> durasi \<Rightarrow> jawaban_sumber \<Rightarrow> waktu \<Rightarrow> string \<Rightarrow> engine \<Rightarrow>
     engine \<times> string" where
  "find_rule_target_model_id urai ttl src now requested e =
     (if requested = [] then (e, [])
      else case aturan urai ttl src now e of
        (e1, rules, err) \<Rightarrow>
          (e1,
           if err \<noteq> None \<or> rules = [] then []
           else case List.find (\<lambda>r. (ru_name r = requested \<or> (alias_rule r \<noteq> [] \<and> alias_rule r = requested))
                                 \<and> ru_match_model_id r \<noteq> []) rules of
                  Some r \<Rightarrow> ru_match_model_id r
                | None \<Rightarrow> []))"

section \<open>Lemmas\<close>

text \<open>
  Runs of an engine: the log holds the successful loads, newest first.  Every operation may come
  with any answer of the source; the clock may stand still or move either way.
\<close>

datatype engine_op =
    OpRoute jawaban_sumber waktu request "route_candidate list"
  | OpTarget jawaban_sumber waktu string
  | OpOrder waktu request string strategy "route_candidate list"
  | OpInvalidate

definition muat_log :: "engine \<Rightarrow> jawaban_sumber \<Rightarrow> waktu \<Rightarrow> (waktu \<times> routing_rule list) list \<Rightarrow> (waktu \<times> routing_rule list) list" where
  "muat_log e src now rw =
     (case src of Some (Inr rows) \<Rightarrow> if now < en_segar_di e then rw else (now, rows) # rw | _ \<Rightarrow> rw)"

inductive engine_run ::
    "(string \<Rightarrow> combo_pipeline option) \<Rightarrow> durasi \<Rightarrow> sumber \<Rightarrow> engine \<Rightarrow> (waktu \<times> routing_rule list) list \<Rightarrow> bool"
  for urai ttl su where
  awal: "engine_run urai ttl su new_engine []"
| jalan_route: "engine_run urai ttl su e rw \<Longrightarrow>
    engine_run urai ttl su (fst (route urai ttl su src now req cands e)) (muat_log e src now rw)"
| jalan_target: "engine_run urai ttl su e rw \<Longrightarrow> requested \<noteq> [] \<Longrightarrow>
    engine_run urai ttl su (fst (find_rule_target_model_id urai ttl src now requested e)) (muat_log e src now rw)"
| jalan_order: "engine_run urai ttl su e rw \<Longrightarrow>
    engine_run urai ttl su (fst (order_candidates su now req rid st cands e)) rw"
| jalan_invalidate: "engine_run urai ttl su e rw \<Longrightarrow> engine_run urai ttl su (invalidate e) rw"

definition engine_sah :: "(string \<Rightarrow> combo_pipeline option) \<Rightarrow> durasi \<Rightarrow> engine \<Rightarrow> (waktu \<times> routing_rule list) list \<Rightarrow> bool" where
  "engine_sah urai ttl e rw \<longleftrightarrow>
     (case rw of
        [] \<Rightarrow> en_cache e = [] \<and> en_segar_di e = waktu_nol
      | (t0, rows) # _ \<Rightarrow> en_cache e = aturan_dari urai rows \<and> (en_segar_di e = t0 + ttl \<or> en_segar_di e = waktu_nol))
     \<and> selector_sah (en_sel e)"

lemma engine_sah_aturan:
  "engine_sah urai ttl e rw \<Longrightarrow> engine_sah urai ttl (fst (aturan urai ttl src now e)) (muat_log e src now rw)"
  by (auto simp: engine_sah_def aturan_def muat_log_def Let_def split: option.splits sum.splits list.splits)

lemma engine_sah_sel:
  "engine_sah urai ttl e rw \<Longrightarrow> selector_sah s \<Longrightarrow> engine_sah urai ttl (e\<lparr>en_sel := s\<rparr>) rw"
  by (auto simp: engine_sah_def split: list.splits)

lemma fst_route:
  "fst (route urai ttl su src now req cands e) =
     (let e1 = fst (aturan urai ttl src now e);
          rule = first_match (fst (snd (aturan urai ttl src now e))) req
      in e1\<lparr>en_sel := fst (order su now req rule cands (en_sel e1))\<rparr>)"
  by (simp add: route_def Let_def split: prod.split)

lemma snd_route:
  "snd (route urai ttl su src now req cands e) =
     (let rule = first_match (fst (snd (aturan urai ttl src now e))) req
      in \<lparr>de_rule = rule,
          de_candidates = snd (order su now req rule cands (en_sel (fst (aturan urai ttl src now e))))\<rparr>)"
  by (simp add: route_def Let_def split: prod.split)

lemma en_sel_sah: "engine_sah urai ttl e rw \<Longrightarrow> selector_sah (en_sel e)"
  by (simp add: engine_sah_def)

lemma engine_run_sah: "engine_run urai ttl su e rw \<Longrightarrow> engine_sah urai ttl e rw"
proof (induction rule: engine_run.induct)
  case awal
  then show ?case by (simp add: engine_sah_def new_engine_def selector_sah_def new_selector_def)
next
  case (jalan_route e rw src now req cands)
  note s = engine_sah_aturan [OF jalan_route.IH, of src now]
  show ?case unfolding fst_route Let_def
    by (rule engine_sah_sel [OF s selector_sah_order [OF en_sel_sah [OF s]]])
next
  case (jalan_target e rw requested src now)
  then show ?case
    using engine_sah_aturan [of urai ttl e rw src now]
    by (cases "aturan urai ttl src now e") (simp add: find_rule_target_model_id_def)
next
  case (jalan_order e rw now req rid st cands)
  have "fst (order_candidates su now req rid st cands e) =
    e\<lparr>en_sel := fst (order su now req (Some (rule_tiruan rid st)) cands (en_sel e))\<rparr>"
    by (simp add: order_candidates_def split: prod.split)
  then show ?case
    using engine_sah_sel [OF jalan_order.IH selector_sah_order [OF en_sel_sah [OF jalan_order.IH]]] by simp
next
  case (jalan_invalidate e rw)
  then show ?case by (auto simp: engine_sah_def invalidate_def split: list.splits)
qed

section \<open>Properties\<close>

text \<open>C24.  Routing never fails for want of rules and never uses rules it has no right to: in every
  run the rule chosen comes from the newest load that succeeded, that load is younger than the TTL
  unless the source failed in this very call, and the candidates returned are exactly the eligible
  ones, whatever the source answers.\<close>

theorem route_fresh:
  assumes run: "engine_run urai ttl su e rw" and src: "src \<noteq> None" and now: "waktu_nol \<le> now"
    and d: "snd (route urai ttl su src now req cands e) = d"
  shows "mset (de_candidates d) = mset (saring_kandidat req (de_rule d) cands) \<and>
    (case muat_log e src now rw of
       [] \<Rightarrow> de_rule d = None
     | (t0, rows) # _ \<Rightarrow>
         de_rule d = first_match (aturan_dari urai rows) req \<and>
         (t0 = now \<or> now < t0 + ttl \<or> (\<exists>err. src = Some (Inl err))))"
proof
  have d': "d = \<lparr>de_rule = first_match (fst (snd (aturan urai ttl src now e))) req,
     de_candidates = snd (order su now req (first_match (fst (snd (aturan urai ttl src now e))) req) cands
        (en_sel (fst (aturan urai ttl src now e))))\<rparr>"
    using d by (simp add: snd_route Let_def)
  show "mset (de_candidates d) = mset (saring_kandidat req (de_rule d) cands)"
    by (simp add: d' mset_order)
  have fm: "first_match [] req = None" by (simp add: first_match_None)
  show "case muat_log e src now rw of
       [] \<Rightarrow> de_rule d = None
     | (t0, rows) # _ \<Rightarrow>
         de_rule d = first_match (aturan_dari urai rows) req \<and>
         (t0 = now \<or> now < t0 + ttl \<or> (\<exists>err. src = Some (Inl err)))"
    using engine_run_sah [OF run] src now fm
    by (auto simp: d' engine_sah_def aturan_def muat_log_def Let_def split: list.splits option.splits sum.splits)
qed

lemma route_fresh_witness:
  "de_candidates (snd (route (\<lambda>_. None) default_rule_ttl contoh_sumber (Some (Inl ''db'')) 100 contoh_request
      [contoh_cand ''a'' 1 1] new_engine)) \<noteq> []"
proof -
  let ?d = "snd (route (\<lambda>_. None) default_rule_ttl contoh_sumber (Some (Inl ''db'')) 100 contoh_request
      [contoh_cand ''a'' 1 1] new_engine)"
  have run: "engine_run (\<lambda>_. None) default_rule_ttl contoh_sumber new_engine []" by (rule engine_run.awal)
  have nol: "waktu_nol \<le> 100" by (simp add: waktu_nol_def)
  have "mset (de_candidates ?d) = mset (saring_kandidat contoh_request (de_rule ?d) [contoh_cand ''a'' 1 1])"
    and "de_rule ?d = None"
    using route_fresh [OF run _ nol refl, of "Some (Inl ''db'')" contoh_request "[contoh_cand ''a'' 1 1]"]
    by (simp_all add: muat_log_def)
  moreover have "saring_kandidat contoh_request None [contoh_cand ''a'' 1 1] = [contoh_cand ''a'' 1 1]" by code_simp
  ultimately show ?thesis by auto
qed

end
