(* ===== verification/Redis_Hash.thy ===== *)
theory Redis_Hash
  imports Cache_Keys
begin

text \<open>
  The Redis commands the circuit breaker's scripts call on hashes.  Redis is a service: the scripts
  and the Go code take it as a record of commands over an abstract server state, and what they
  rely on is the locale \<open>redis_hash\<close>, the documented behaviour of these commands.  Hash fields
  are those the scripts write; a field \<^verbatim>\<open>t<i>\<close> or \<^verbatim>\<open>f<i>\<close> is one constructor with its bucket index,
  and values, which the scripts write with \<^verbatim>\<open>%d\<close>, are integers.
\<close>

datatype cb_field = OpenUntil | OpenFailures | Probes | ProbesAt | T int | F int

record 'r redis =
  rd_hgetall :: "'r \<Rightarrow> string \<Rightarrow> (cb_field \<times> int) list"
  rd_hset :: "'r \<Rightarrow> string \<Rightarrow> (cb_field \<times> int) list \<Rightarrow> 'r"
  rd_hincrby :: "'r \<Rightarrow> string \<Rightarrow> cb_field \<Rightarrow> int \<Rightarrow> 'r"
  rd_hdel :: "'r \<Rightarrow> string \<Rightarrow> cb_field \<Rightarrow> 'r"
  rd_del :: "'r \<Rightarrow> string \<Rightarrow> 'r"
  rd_pexpire :: "'r \<Rightarrow> string \<Rightarrow> int \<Rightarrow> 'r"
  rd_scan :: "'r \<Rightarrow> string \<Rightarrow> string list"

text \<open>The content of a hash as a map.\<close>

definition isi :: "'r redis \<Rightarrow> 'r \<Rightarrow> string \<Rightarrow> cb_field \<rightharpoonup> int" where
  "isi R s k = map_of (rd_hgetall R s k)"

definition nilai_field :: "(cb_field \<rightharpoonup> int) \<Rightarrow> cb_field \<Rightarrow> int" where
  "nilai_field h f = (case h f of None \<Rightarrow> 0 | Some v \<Rightarrow> v)"

text \<open>
  \<^verbatim>\<open>HGETALL\<close> lists each field once; \<^verbatim>\<open>HSET\<close> writes the given fields; \<^verbatim>\<open>HINCRBY\<close> counts a missing field
  as zero; \<^verbatim>\<open>HDEL\<close> and \<^verbatim>\<open>DEL\<close> remove; \<^verbatim>\<open>PEXPIRE\<close> with a positive time leaves the content; every command
  touches its own key only; \<^verbatim>\<open>SCAN\<close> with a pattern finds every key that starts with the prefix.
\<close>

locale redis_hash =
  fixes R :: "'r redis"
  assumes hgetall_distinct: "distinct (map fst (rd_hgetall R s k))"
    and isi_hset: "isi R (rd_hset R s k fs) k' = (if k' = k then isi R s k ++ map_of (rev fs) else isi R s k')"
    and isi_hincrby: "isi R (rd_hincrby R s k f d) k' =
          (if k' = k then (isi R s k)(f \<mapsto> nilai_field (isi R s k) f + d) else isi R s k')"
    and isi_hdel: "isi R (rd_hdel R s k f) k' = (if k' = k then (isi R s k)(f := None) else isi R s k')"
    and isi_del: "isi R (rd_del R s k) k' = (if k' = k then Map.empty else isi R s k')"
    and isi_pexpire: "0 < ms \<Longrightarrow> isi R (rd_pexpire R s k ms) k' = isi R s k'"
    and scan_complete: "isi R s k \<noteq> Map.empty \<Longrightarrow> has_prefix k p \<Longrightarrow> k \<in> set (rd_scan R s p)"
begin

lemmas isi_simps = isi_hset isi_hincrby isi_hdel isi_del isi_pexpire

lemma hgetall_mem: "(f, v) \<in> set (rd_hgetall R s k) \<longleftrightarrow> isi R s k f = Some v"
  by (simp add: isi_def hgetall_distinct)

lemma sum_hgetall:
  "sum_list (map (\<lambda>(f, v). g f v) (rd_hgetall R s k)) = (\<Sum>f\<in>dom (isi R s k). g f (the (isi R s k f)))"
  unfolding isi_def by (rule sum_list_distinct_map_of [OF hgetall_distinct])

lemma isi_hdels:
  "isi R (foldl (\<lambda>s f. rd_hdel R s k f) s fs) k' =
     (if k' = k then (\<lambda>f. if f \<in> set fs then None else isi R s k f) else isi R s k')"
  by (induction fs arbitrary: s) (auto simp: isi_hdel fun_eq_iff)

end

section \<open>A store that meets the contract\<close>

text \<open>An in-memory store: an association list of keys to association lists of fields.\<close>

type_synonym simpanan = "(string \<times> (cb_field \<times> int) list) list"

definition mem_ambil :: "simpanan \<Rightarrow> string \<Rightarrow> (cb_field \<times> int) list" where
  "mem_ambil s k = (case map_of s k of None \<Rightarrow> [] | Some h \<Rightarrow> AList.clearjunk h)"

definition mem_tulis :: "simpanan \<Rightarrow> string \<Rightarrow> (cb_field \<times> int) list \<Rightarrow> simpanan" where
  "mem_tulis s k h = AList.update k h s"

definition mem_redis :: "simpanan redis" where
  "mem_redis = \<lparr>
     rd_hgetall = mem_ambil,
     rd_hset = (\<lambda>s k fs. mem_tulis s k (rev fs @ mem_ambil s k)),
     rd_hincrby = (\<lambda>s k f d. mem_tulis s k ((f, nilai_field (map_of (mem_ambil s k)) f + d) # mem_ambil s k)),
     rd_hdel = (\<lambda>s k f. mem_tulis s k (AList.delete f (mem_ambil s k))),
     rd_del = (\<lambda>s k. AList.delete k s),
     rd_pexpire = (\<lambda>s k ms. s),
     rd_scan = (\<lambda>s p. filter (\<lambda>k. has_prefix k p) (map fst s))\<rparr>"

lemma isi_mem: "isi mem_redis s k = (case map_of s k of None \<Rightarrow> Map.empty | Some h \<Rightarrow> map_of h)"
  by (auto simp: isi_def mem_redis_def mem_ambil_def map_of_clearjunk split: option.split)

lemma map_of_mem_ambil: "map_of (mem_ambil s k) = isi mem_redis s k"
  by (simp add: isi_def mem_redis_def)

lemma isi_mem_tulis: "isi mem_redis (mem_tulis s k h) k' = (if k' = k then map_of h else isi mem_redis s k')"
  by (auto simp: isi_mem mem_tulis_def update_conv)

lemma mem_ops:
  "rd_hgetall mem_redis s k = mem_ambil s k"
  "rd_hset mem_redis s k fs = mem_tulis s k (rev fs @ mem_ambil s k)"
  "rd_hincrby mem_redis s k f d = mem_tulis s k ((f, nilai_field (map_of (mem_ambil s k)) f + d) # mem_ambil s k)"
  "rd_hdel mem_redis s k f = mem_tulis s k (AList.delete f (mem_ambil s k))"
  "rd_del mem_redis s k = AList.delete k s"
  "rd_pexpire mem_redis s k ms = s"
  "rd_scan mem_redis s p = filter (\<lambda>k. has_prefix k p) (map fst s)"
  by (simp_all add: mem_redis_def)

interpretation mem: redis_hash mem_redis
proof
  fix s k k' f p and fs :: "(cb_field \<times> int) list" and d ms :: int
  show "distinct (map fst (rd_hgetall mem_redis s k))"
    by (simp add: mem_ops mem_ambil_def distinct_clearjunk split: option.split)
  show "isi mem_redis (rd_hset mem_redis s k fs) k' =
    (if k' = k then isi mem_redis s k ++ map_of (rev fs) else isi mem_redis s k')"
    by (simp add: mem_ops isi_mem_tulis map_of_mem_ambil)
  show "isi mem_redis (rd_hincrby mem_redis s k f d) k' =
    (if k' = k then (isi mem_redis s k)(f \<mapsto> nilai_field (isi mem_redis s k) f + d) else isi mem_redis s k')"
    by (simp add: mem_ops isi_mem_tulis map_of_mem_ambil)
  show "isi mem_redis (rd_hdel mem_redis s k f) k' =
    (if k' = k then (isi mem_redis s k)(f := None) else isi mem_redis s k')"
    by (simp add: mem_ops isi_mem_tulis map_of_mem_ambil
        delete_conv')
  show "isi mem_redis (rd_del mem_redis s k) k' = (if k' = k then Map.empty else isi mem_redis s k')"
    by (simp add: mem_ops isi_mem delete_conv')
  show "0 < ms \<Longrightarrow> isi mem_redis (rd_pexpire mem_redis s k ms) k' = isi mem_redis s k'"
    by (simp add: mem_ops)
  show "isi mem_redis s k \<noteq> Map.empty \<Longrightarrow> has_prefix k p \<Longrightarrow> k \<in> set (rd_scan mem_redis s p)"
  proof -
    assume "isi mem_redis s k \<noteq> Map.empty" and p: "has_prefix k p"
    then have "k \<in> fst ` set s"
      by (cases "map_of s k") (auto simp: isi_mem dest!: map_of_SomeD intro: rev_image_eqI)
    with p show ?thesis by (auto simp: mem_ops)
  qed
qed

end
