(* ===== verification/Breaker_Scripts.thy ===== *)
theory Breaker_Scripts
  imports Redis_Hash Complex_Main
begin

text \<open>
  The circuit breaker's configuration and its three Lua scripts, \<^verbatim>\<open>internal/gateway/breaker.go\<close>.
  A script runs atomically on the server: it is a function from the server state to the new state
  and the reply.  Lua numbers are integers here (bucket indices and times are far below 2^53); the
  failure threshold is a rational, \<^const>\<open>None\<close> standing for NaN before normalisation.
\<close>

section \<open>Configuration\<close>

type_synonym state = string

definition state_closed :: state where "state_closed = ''closed''"
definition state_open :: state where "state_open = ''open''"
definition state_half_open :: state where "state_half_open = ''half_open''"

lemmas state_defs = state_closed_def state_open_def state_half_open_def

text \<open>\<^verbatim>\<open>State.Gauge\<close>: 0 closed, 1 half open, 2 open.\<close>

definition state_gauge :: "state \<Rightarrow> int" where
  "state_gauge s = (if s = state_half_open then 1 else if s = state_open then 2 else 0)"

record breaker_config =
  bc_failure_threshold :: "rat option"
  bc_min_samples :: int
  bc_window :: durasi
  bc_open_duration :: durasi
  bc_half_open_probes :: int

definition default_failure_threshold :: rat where "default_failure_threshold = 1 / 2"
definition default_min_samples :: int where "default_min_samples = 5"
definition default_window :: durasi where "default_window = menit"
definition default_open_duration :: durasi where "default_open_duration = 30 * detik"
definition default_half_open_probes :: int where "default_half_open_probes = 1"
definition min_open_duration :: durasi where "min_open_duration = detik"
definition max_open_duration :: durasi where "max_open_duration = jam"
definition min_half_open_probes :: int where "min_half_open_probes = 1"
definition max_half_open_probes :: int where "max_half_open_probes = 100"
definition min_window :: durasi where "min_window = detik"
definition max_window :: durasi where "max_window = jam"
definition window_buckets :: int where "window_buckets = 10"

lemmas breaker_consts = default_failure_threshold_def default_min_samples_def default_window_def
  default_open_duration_def default_half_open_probes_def min_open_duration_def max_open_duration_def
  min_half_open_probes_def max_half_open_probes_def min_window_def max_window_def window_buckets_def

definition default_breaker_config :: breaker_config where
  "default_breaker_config = \<lparr>bc_failure_threshold = Some default_failure_threshold,
     bc_min_samples = default_min_samples, bc_window = default_window,
     bc_open_duration = default_open_duration, bc_half_open_probes = default_half_open_probes\<rparr>"

text \<open>\<^verbatim>\<open>BreakerConfig.normalized\<close>.\<close>

definition normalized :: "breaker_config \<Rightarrow> breaker_config" where
  "normalized c =
     (let ft = (case bc_failure_threshold c of
                  None \<Rightarrow> default_failure_threshold
                | Some v \<Rightarrow> if v \<le> 0 then default_failure_threshold else v);
          ft = (if 1 < ft then 1 else ft);
          ms = (if bc_min_samples c \<le> 0 then default_min_samples else bc_min_samples c);
          w = (if bc_window c \<le> 0 then default_window else bc_window c);
          w = min (max w min_window) max_window;
          d = (if bc_open_duration c \<le> 0 then default_open_duration else bc_open_duration c);
          d = min (max d min_open_duration) max_open_duration;
          p = (if bc_half_open_probes c \<le> 0 then default_half_open_probes else bc_half_open_probes c);
          p = min (max p min_half_open_probes) max_half_open_probes
      in \<lparr>bc_failure_threshold = Some ft, bc_min_samples = ms, bc_window = w,
          bc_open_duration = d, bc_half_open_probes = p\<rparr>)"

text \<open>\<^verbatim>\<open>bucketWidth\<close>, \<^verbatim>\<open>probeWait\<close> and \<^verbatim>\<open>keyTTL\<close>.\<close>

definition bucket_width :: "breaker_config \<Rightarrow> durasi" where
  "bucket_width c = (let w = go_div (bc_window c) window_buckets in if w < milidetik then milidetik else w)"

definition probe_wait :: "breaker_config \<Rightarrow> durasi" where
  "probe_wait c = bc_open_duration c"

definition key_ttl :: "breaker_config \<Rightarrow> durasi" where
  "key_ttl c = wrap64 (bc_window c + bc_open_duration c + probe_wait c)"

section \<open>Scripts\<close>

datatype lua_val = LInt int | LStr string

text \<open>The prelude shared by the scripts: \<^verbatim>\<open>num\<close> and \<^verbatim>\<open>state_of\<close>.\<close>

definition num :: "(cb_field \<times> int) list \<Rightarrow> cb_field \<Rightarrow> int" where
  "num h f = nilai_field (map_of h) f"

definition state_of :: "(cb_field \<times> int) list \<Rightarrow> int \<Rightarrow> string" where
  "state_of h now =
     (let open_until = num h OpenUntil
      in if open_until = 0 then ''closed'' else if now < open_until then ''open'' else ''half_open'')"

text \<open>\<^verbatim>\<open>allowScript\<close>: arguments now, probe quota, probe wait and key TTL, times in milliseconds.\<close>

definition allow_script ::
    "'r redis \<Rightarrow> int \<Rightarrow> int \<Rightarrow> int \<Rightarrow> int \<Rightarrow> string \<Rightarrow> 'r \<Rightarrow> 'r \<times> lua_val list" where
  "allow_script R now quota wait ttl k s =
     (let h = rd_hgetall R s k;
          state = state_of h now
      in if state = ''closed'' then (s, [LInt 1, LStr state, LInt 0, LInt 0])
         else if state = ''open'' then (s, [LInt 0, LStr state, LInt (num h OpenUntil - now), LInt 0])
         else
           let granted = num h Probes;
               since = num h ProbesAt;
               (granted, since) = (if since = 0 \<or> wait \<le> now - since then (0, now) else (granted, since))
           in if quota \<le> granted then (s, [LInt 0, LStr state, LInt 0, LInt 0])
              else
                let s1 = rd_hset R s k [(Probes, granted + 1), (ProbesAt, since)];
                    s2 = rd_pexpire R s1 k ttl
                in (s2, [LInt 1, LStr state, LInt 0, LInt since]))"

text \<open>The window scan of \<^verbatim>\<open>recordScript\<close>.\<close>

fun t_segar :: "int \<Rightarrow> cb_field \<times> int \<Rightarrow> int" where
  "t_segar oldest (T i, v) = (if oldest \<le> i then v else 0)"
| "t_segar oldest _ = 0"

fun f_segar :: "int \<Rightarrow> cb_field \<times> int \<Rightarrow> int" where
  "f_segar oldest (F i, v) = (if oldest \<le> i then v else 0)"
| "f_segar oldest _ = 0"

fun basi :: "int \<Rightarrow> cb_field \<Rightarrow> bool" where
  "basi oldest (T i) = (i < oldest)"
| "basi oldest (F i) = (i < oldest)"
| "basi oldest _ = False"

text \<open>
  \<^verbatim>\<open>recordScript\<close>: arguments now, success, threshold, minimum of samples, bucket width, number of
  buckets, open duration, key TTL, whether the result is a probe's, and the episode token.
\<close>

definition record_script ::
    "'r redis \<Rightarrow> int \<Rightarrow> bool \<Rightarrow> rat \<Rightarrow> int \<Rightarrow> int \<Rightarrow> int \<Rightarrow> int \<Rightarrow> int \<Rightarrow> bool \<Rightarrow> int \<Rightarrow> string \<Rightarrow> 'r \<Rightarrow>
     'r \<times> lua_val list" where
  "record_script R now ok thr minimum width nb open_ms ttl probe token k s =
     (let h = rd_hgetall R s k;
          state = state_of h now
      in if state = ''open'' then
           (s, [LStr state, LInt (num h OpenUntil - now), LInt 0, LInt 0, LInt 0])
         else if state = ''half_open'' then
           if \<not> probe \<or> (token \<noteq> 0 \<and> token \<noteq> num h ProbesAt) then
             (s, [LStr ''half_open'', LInt 0, LInt 0, LInt 0, LInt 0])
           else
             let prev = num h OpenFailures;
                 s1 = rd_del R s k
             in if ok then (s1, [LStr ''closed'', LInt 0, LInt 0, LInt 0, LInt 1])
                else
                  let s2 = rd_hset R s1 k [(OpenUntil, now + open_ms), (OpenFailures, prev + 1)];
                      s3 = rd_pexpire R s2 k ttl
                  in (s3, [LStr ''open'', LInt open_ms, LInt 0, LInt 0, LInt 1])
         else
           let bucket = now div width;
               oldest = bucket - nb + 1;
               total = 1 + sum_list (map (t_segar oldest) h);
               failures = (if ok then 0 else 1) + sum_list (map (f_segar oldest) h);
               expired = filter (basi oldest) (map fst h);
               s1 = rd_hincrby R s k (T bucket) 1;
               s2 = (if ok then s1 else rd_hincrby R s1 k (F bucket) 1);
               s3 = foldl (\<lambda>s f. rd_hdel R s k f) s2 expired
           in if minimum \<le> total \<and> thr * of_int total \<le> of_int failures then
                let s4 = rd_del R s3 k;
                    s5 = rd_hset R s4 k [(OpenUntil, now + open_ms), (OpenFailures, failures)];
                    s6 = rd_pexpire R s5 k ttl
                in (s6, [LStr ''open'', LInt open_ms, LInt total, LInt failures, LInt 1])
              else
                (rd_pexpire R s3 k ttl, [LStr ''closed'', LInt 0, LInt total, LInt failures, LInt 0]))"

text \<open>\<^verbatim>\<open>stateScript\<close>.\<close>

definition state_script :: "'r redis \<Rightarrow> int \<Rightarrow> string \<Rightarrow> 'r \<Rightarrow> lua_val list" where
  "state_script R now k s =
     (let h = rd_hgetall R s k;
          state = state_of h now;
          remaining = (if state = ''open'' then num h OpenUntil - now else 0)
      in [LStr state, LInt remaining])"

section \<open>Replies\<close>

text \<open>\<^verbatim>\<open>stateFromLua\<close> and \<^verbatim>\<open>msToDuration\<close>.\<close>

definition state_from_lua :: "string \<Rightarrow> state" where
  "state_from_lua name =
     (if name = state_closed \<or> name = state_open \<or> name = state_half_open then name else state_closed)"

definition ms_to_duration :: "int \<Rightarrow> durasi" where
  "ms_to_duration ms = (if ms \<le> 0 then 0 else wrap64 (ms * milidetik))"

text \<open>A failed type assertion yields the zero value.\<close>

fun lua_int :: "lua_val \<Rightarrow> int" where
  "lua_int (LInt n) = n"
| "lua_int (LStr s) = 0"

fun lua_str :: "lua_val \<Rightarrow> string" where
  "lua_str (LStr s) = s"
| "lua_str (LInt n) = []"

text \<open>\<^verbatim>\<open>parseAllow\<close>, \<^verbatim>\<open>parseRecord\<close> and \<^verbatim>\<open>parseState\<close>.\<close>

definition parse_allow :: "lua_val list \<Rightarrow> bool \<times> state \<times> durasi \<times> int" where
  "parse_allow v =
     (if length v < 3 then (True, state_closed, 0, 0)
      else (lua_int (v ! 0) = 1, state_from_lua (lua_str (v ! 1)), ms_to_duration (lua_int (v ! 2)),
            if 4 \<le> length v then lua_int (v ! 3) else 0))"

definition parse_record :: "lua_val list \<Rightarrow> state \<times> durasi \<times> int \<times> int \<times> bool" where
  "parse_record v =
     (if length v < 5 then (state_closed, 0, 0, 0, False)
      else (state_from_lua (lua_str (v ! 0)), ms_to_duration (lua_int (v ! 1)),
            lua_int (v ! 2), lua_int (v ! 3), lua_int (v ! 4) = 1))"

definition parse_state :: "lua_val list \<Rightarrow> state \<times> durasi" where
  "parse_state v =
     (if length v < 2 then (state_closed, 0)
      else (state_from_lua (lua_str (v ! 0)), ms_to_duration (lua_int (v ! 1))))"

section \<open>Lemmas: configuration\<close>

definition config_sah :: "breaker_config \<Rightarrow> bool" where
  "config_sah c \<longleftrightarrow>
     (\<exists>t. bc_failure_threshold c = Some t \<and> 0 < t \<and> t \<le> 1) \<and> 1 \<le> bc_min_samples c \<and>
     detik \<le> bc_window c \<and> bc_window c \<le> jam \<and>
     detik \<le> bc_open_duration c \<and> bc_open_duration c \<le> jam \<and>
     1 \<le> bc_half_open_probes c \<and> bc_half_open_probes c \<le> 100"

lemma config_sah_normalized: "config_sah (normalized c)"
  by (auto simp: config_sah_def normalized_def Let_def breaker_consts split: option.split)

lemma normalized_id: "config_sah c \<Longrightarrow> normalized c = c"
  by (cases c) (auto simp: config_sah_def normalized_def Let_def breaker_consts)

lemma config_ms:
  assumes "config_sah c"
  shows "1000 \<le> milliseconds (bc_open_duration c)" "milliseconds (bc_open_duration c) \<le> 3600000"
    "100 \<le> milliseconds (bucket_width c)" "3000 \<le> milliseconds (key_ttl c)"
proof -
  from assms have d: "detik \<le> bc_open_duration c" "bc_open_duration c \<le> jam"
    "detik \<le> bc_window c" "bc_window c \<le> jam" by (simp_all add: config_sah_def)
  show "1000 \<le> milliseconds (bc_open_duration c)" "milliseconds (bc_open_duration c) \<le> 3600000"
    using d by (simp_all add: milliseconds_nonneg)
  have "go_div (bc_window c) window_buckets = bc_window c div 10"
    using d by (simp add: go_div_nonneg window_buckets_def)
  then have "bucket_width c = bc_window c div 10" "100000000 \<le> bc_window c div 10"
    using d by (simp_all add: bucket_width_def Let_def)
  then show "100 \<le> milliseconds (bucket_width c)" by (simp add: milliseconds_nonneg)
  have "key_ttl c = bc_window c + bc_open_duration c + bc_open_duration c"
    using d by (simp add: key_ttl_def probe_wait_def wrap64_id in_i64_def)
  then show "3000 \<le> milliseconds (key_ttl c)" using d by (simp add: milliseconds_nonneg)
qed

end
