(* ===== verification/Breaker_Runs.thy ===== *)
theory Breaker_Runs
  imports Breaker_Scripts
begin

text \<open>
  What the circuit breaker's scripts do to one breaker: an abstract breaker is the content of its
  hash, the scripts refine functions on it for every Redis that keeps its contract, and the runs of
  a breaker under any interleaving of callers, resets and expiry satisfy the probe quota, the bound
  on the window and the recovery guarantee.
\<close>

section \<open>Abstract breaker\<close>

type_synonym bhash = "cb_field \<rightharpoonup> int"

definition b_state :: "bhash \<Rightarrow> int \<Rightarrow> state" where
  "b_state h now =
     (if nilai_field h OpenUntil = 0 then state_closed
      else if now < nilai_field h OpenUntil then state_open else state_half_open)"

definition episode_baru :: "bhash \<Rightarrow> int \<Rightarrow> int \<Rightarrow> bool" where
  "episode_baru h now wait \<longleftrightarrow> nilai_field h ProbesAt = 0 \<or> wait \<le> now - nilai_field h ProbesAt"

text \<open>The grant of a probe: the count and the token to store, if the quota allows one.\<close>

definition izin_probe :: "int \<Rightarrow> int \<Rightarrow> int \<Rightarrow> bhash \<Rightarrow> (int \<times> int) option" where
  "izin_probe now quota wait h =
     (let granted = (if episode_baru h now wait then 0 else nilai_field h Probes);
          since = (if episode_baru h now wait then now else nilai_field h ProbesAt)
      in if quota \<le> granted then None else Some (granted + 1, since))"

text \<open>Allow: the new hash, whether the request passes, and the episode token.\<close>

definition b_allow :: "int \<Rightarrow> int \<Rightarrow> int \<Rightarrow> bhash \<Rightarrow> bhash \<times> bool \<times> int" where
  "b_allow now quota wait h =
     (if b_state h now = state_closed then (h, True, 0)
      else if b_state h now = state_open then (h, False, 0)
      else case izin_probe now quota wait h of
             None \<Rightarrow> (h, False, 0)
           | Some (g, t) \<Rightarrow> (h(Probes \<mapsto> g, ProbesAt \<mapsto> t), True, t))"

definition jumlah_t :: "int \<Rightarrow> bhash \<Rightarrow> int" where
  "jumlah_t oldest h = (\<Sum>f\<in>dom h. t_segar oldest (f, the (h f)))"

definition jumlah_f :: "int \<Rightarrow> bhash \<Rightarrow> int" where
  "jumlah_f oldest h = (\<Sum>f\<in>dom h. f_segar oldest (f, the (h f)))"

definition catat_sampel :: "int \<Rightarrow> bool \<Rightarrow> bhash \<Rightarrow> bhash" where
  "catat_sampel b ok h =
     (let h1 = h(T b \<mapsto> nilai_field h (T b) + 1)
      in if ok then h1 else h1(F b \<mapsto> nilai_field h (F b) + 1))"

definition buang_basi :: "int \<Rightarrow> bhash \<Rightarrow> bhash \<Rightarrow> bhash" where
  "buang_basi oldest lama h = (\<lambda>f. if lama f \<noteq> None \<and> basi oldest f then None else h f)"

text \<open>Record: the new hash, the state reported, and whether the state changed.\<close>

definition b_record ::
    "int \<Rightarrow> bool \<Rightarrow> rat \<Rightarrow> int \<Rightarrow> int \<Rightarrow> int \<Rightarrow> int \<Rightarrow> bool \<Rightarrow> int \<Rightarrow> bhash \<Rightarrow> bhash \<times> state \<times> bool" where
  "b_record now ok thr minimum width nb open_ms probe token h =
     (if b_state h now = state_open then (h, state_open, False)
      else if b_state h now = state_half_open then
        if \<not> probe \<or> (token \<noteq> 0 \<and> token \<noteq> nilai_field h ProbesAt) then (h, state_half_open, False)
        else if ok then (Map.empty, state_closed, True)
        else ([OpenUntil \<mapsto> now + open_ms, OpenFailures \<mapsto> nilai_field h OpenFailures + 1], state_open, True)
      else
        let bucket = now div width;
            oldest = bucket - nb + 1;
            total = 1 + jumlah_t oldest h;
            failures = (if ok then 0 else 1) + jumlah_f oldest h
        in if minimum \<le> total \<and> thr * of_int total \<le> of_int failures
           then ([OpenUntil \<mapsto> now + open_ms, OpenFailures \<mapsto> failures], state_open, True)
           else (buang_basi oldest h (catat_sampel bucket ok h), state_closed, False))"

section \<open>Refinement\<close>

lemma state_of_b_state: "state_of (rd_hgetall R s k) now = b_state (isi R s k) now"
  by (simp add: state_of_def b_state_def num_def isi_def Let_def state_defs)

lemma map_of_two:
  "g \<noteq> f \<Longrightarrow> m ++ map_of (rev [(f, a), (g, b)]) = m(f \<mapsto> a, g \<mapsto> b)"
  "g \<noteq> f \<Longrightarrow> map_of (rev [(f, a), (g, b)]) = [f \<mapsto> a, g \<mapsto> b]"
  by (auto simp: fun_eq_iff map_add_def)

lemma b_state_cases: "b_state h now = state_closed \<or> b_state h now = state_open \<or> b_state h now = state_half_open"
  by (simp add: b_state_def)

lemma state_distinct [simp]:
  "state_closed \<noteq> state_open" "state_open \<noteq> state_closed" "state_closed \<noteq> state_half_open"
  "state_half_open \<noteq> state_closed" "state_open \<noteq> state_half_open" "state_half_open \<noteq> state_open"
  by (simp_all add: state_defs)

context redis_hash begin

lemma num_isi: "num (rd_hgetall R s k) f = nilai_field (isi R s k) f"
  by (simp add: num_def isi_def)

lemma allow_script_cases:
  "allow_script R now quota wait ttl k s =
     (if b_state (isi R s k) now = state_closed then (s, [LInt 1, LStr state_closed, LInt 0, LInt 0])
      else if b_state (isi R s k) now = state_open
      then (s, [LInt 0, LStr state_open, LInt (nilai_field (isi R s k) OpenUntil - now), LInt 0])
      else case izin_probe now quota wait (isi R s k) of
             None \<Rightarrow> (s, [LInt 0, LStr state_half_open, LInt 0, LInt 0])
           | Some (g, t) \<Rightarrow>
               (rd_pexpire R (rd_hset R s k [(Probes, g), (ProbesAt, t)]) k ttl,
                [LInt 1, LStr state_half_open, LInt 0, LInt t]))"
  using b_state_cases [of "isi R s k" now]
  unfolding allow_script_def Let_def state_of_b_state num_isi izin_probe_def episode_baru_def
    state_defs [symmetric]
  by (elim disjE) simp_all

lemma allow_refines:
  assumes "0 < ttl"
  shows "isi R (fst (allow_script R now quota wait ttl k s)) k' =
    (if k' = k then fst (b_allow now quota wait (isi R s k)) else isi R s k')"
  unfolding allow_script_cases b_allow_def
  by (cases "izin_probe now quota wait (isi R s k)")
     (simp_all add: isi_pexpire [OF assms] isi_hset map_of_two split: prod.split del: rev.simps map_of.simps)

lemma allow_reply:
  "snd (allow_script R now quota wait ttl k s) =
     [LInt (if fst (snd (b_allow now quota wait (isi R s k))) then 1 else 0), LStr (b_state (isi R s k) now),
      LInt (if b_state (isi R s k) now = state_open then nilai_field (isi R s k) OpenUntil - now else 0),
      LInt (snd (snd (b_allow now quota wait (isi R s k))))]"
  unfolding allow_script_cases b_allow_def using b_state_cases [of "isi R s k" now]
  by (elim disjE; cases "izin_probe now quota wait (isi R s k)") (simp_all split: prod.split)

lemma window_sums:
  "sum_list (map (t_segar o') (rd_hgetall R s k)) = jumlah_t o' (isi R s k)"
  "sum_list (map (f_segar o') (rd_hgetall R s k)) = jumlah_f o' (isi R s k)"
  using sum_hgetall [of "\<lambda>f v. t_segar o' (f, v)"] sum_hgetall [of "\<lambda>f v. f_segar o' (f, v)"]
  by (simp_all add: jumlah_t_def jumlah_f_def)

lemma expired_mem:
  "f \<in> set (filter (basi o') (map fst (rd_hgetall R s k))) \<longleftrightarrow> isi R s k f \<noteq> None \<and> basi o' f"
proof -
  have "f \<in> fst ` set (rd_hgetall R s k) \<longleftrightarrow> isi R s k f \<noteq> None"
    by (simp add: isi_def map_of_eq_None_iff)
  then show ?thesis by auto
qed

lemma catat_isi:
  "isi R (if ok then rd_hincrby R s k (T b) 1 else rd_hincrby R (rd_hincrby R s k (T b) 1) k (F b) 1) k' =
     (if k' = k then catat_sampel b ok (isi R s k) else isi R s k')"
  by (simp add: isi_hincrby catat_sampel_def Let_def nilai_field_def)

lemma buang_isi:
  "isi R (foldl (\<lambda>s f. rd_hdel R s k f) s1 (filter (basi o') (map fst (rd_hgetall R s k)))) k' =
     (if k' = k then buang_basi o' (isi R s k) (isi R s1 k) else isi R s1 k')"
  unfolding isi_hdels expired_mem buang_basi_def by simp

lemma buka_isi:
  "isi R (rd_hset R (rd_del R s k) k [(OpenUntil, a), (OpenFailures, b)]) k' =
     (if k' = k then [OpenUntil \<mapsto> a, OpenFailures \<mapsto> b] else isi R s k')"
  by (simp add: isi_hset isi_del map_of_two del: rev.simps map_of.simps)

lemma record_script_cases:
  "record_script R now ok thr minimum width nb open_ms ttl probe token k s =
     (let h = isi R s k
      in if b_state h now = state_open then
           (s, [LStr state_open, LInt (nilai_field h OpenUntil - now), LInt 0, LInt 0, LInt 0])
         else if b_state h now = state_half_open then
           if \<not> probe \<or> (token \<noteq> 0 \<and> token \<noteq> nilai_field h ProbesAt) then
             (s, [LStr state_half_open, LInt 0, LInt 0, LInt 0, LInt 0])
           else if ok then (rd_del R s k, [LStr state_closed, LInt 0, LInt 0, LInt 0, LInt 1])
           else (rd_pexpire R (rd_hset R (rd_del R s k) k
                   [(OpenUntil, now + open_ms), (OpenFailures, nilai_field h OpenFailures + 1)]) k ttl,
                 [LStr state_open, LInt open_ms, LInt 0, LInt 0, LInt 1])
         else
           let oldest = now div width - nb + 1;
               total = 1 + jumlah_t oldest h;
               failures = (if ok then 0 else 1) + jumlah_f oldest h;
               s3 = foldl (\<lambda>s f. rd_hdel R s k f)
                      (if ok then rd_hincrby R s k (T (now div width)) 1
                       else rd_hincrby R (rd_hincrby R s k (T (now div width)) 1) k (F (now div width)) 1)
                      (filter (basi oldest) (map fst (rd_hgetall R s k)))
           in if minimum \<le> total \<and> thr * of_int total \<le> of_int failures then
                (rd_pexpire R (rd_hset R (rd_del R s3 k) k [(OpenUntil, now + open_ms), (OpenFailures, failures)]) k ttl,
                 [LStr state_open, LInt open_ms, LInt total, LInt failures, LInt 1])
              else (rd_pexpire R s3 k ttl, [LStr state_closed, LInt 0, LInt total, LInt failures, LInt 0]))"
  unfolding record_script_def Let_def state_of_b_state num_isi window_sums state_half_open_def [symmetric]
  unfolding state_closed_def [symmetric] state_open_def [symmetric]
  using b_state_cases [of "isi R s k" now]
  by (elim disjE) (simp_all split del: if_split cong: if_cong)

lemma record_refines:
  assumes "0 < ttl"
  shows "isi R (fst (record_script R now ok thr minimum width nb open_ms ttl probe token k s)) k' =
    (if k' = k then fst (b_record now ok thr minimum width nb open_ms probe token (isi R s k)) else isi R s k')"
proof -
  note catat = catat_isi [where ok = True, unfolded if_True] catat_isi [where ok = False, unfolded if_False]
  show ?thesis
    unfolding record_script_cases b_record_def Let_def
    using b_state_cases [of "isi R s k" now]
    by (elim disjE; cases ok)
       (simp_all add: buka_isi isi_del isi_pexpire [OF assms] buang_isi catat)
qed

lemma record_reply:
  "\<exists>sisa total failures. snd (record_script R now ok thr minimum width nb open_ms ttl probe token k s) =
      [LStr (fst (snd (b_record now ok thr minimum width nb open_ms probe token (isi R s k)))), LInt sisa,
       LInt total, LInt failures,
       LInt (if snd (snd (b_record now ok thr minimum width nb open_ms probe token (isi R s k))) then 1 else 0)]"
  unfolding record_script_cases b_record_def Let_def by simp

end

section \<open>Runs\<close>

text \<open>The calls as the Go code makes them: every argument from the configuration, in milliseconds.\<close>

definition panggil_allow :: "'r redis \<Rightarrow> breaker_config \<Rightarrow> int \<Rightarrow> string \<Rightarrow> 'r \<Rightarrow> 'r \<times> lua_val list" where
  "panggil_allow R c now k s =
     allow_script R now (bc_half_open_probes c) (milliseconds (probe_wait c)) (milliseconds (key_ttl c)) k s"

definition ambang :: "breaker_config \<Rightarrow> rat" where
  "ambang c = (case bc_failure_threshold c of None \<Rightarrow> 0 | Some v \<Rightarrow> v)"

definition panggil_record ::
    "'r redis \<Rightarrow> breaker_config \<Rightarrow> int \<Rightarrow> bool \<Rightarrow> bool \<Rightarrow> int \<Rightarrow> string \<Rightarrow> 'r \<Rightarrow> 'r \<times> lua_val list" where
  "panggil_record R c now ok probe token k s =
     record_script R now ok (ambang c) (bc_min_samples c) (milliseconds (bucket_width c)) window_buckets
       (milliseconds (bc_open_duration c)) (milliseconds (key_ttl c)) probe token k s"

text \<open>
  A run of the breaker with key \<open>k\<close>: any callers asking and reporting in any order, with any
  success, probe flag and token; the clock moves forward; other keys change at will; the key may
  vanish at any time (expiry, eviction, a reset).  \<open>izin\<close> lists the tokens of the probes granted.
\<close>

inductive breaker_run :: "'r redis \<Rightarrow> breaker_config \<Rightarrow> string \<Rightarrow> 'r \<Rightarrow> int \<Rightarrow> int list \<Rightarrow> bool"
  for R c k where
  mulai: "isi R s k = Map.empty \<Longrightarrow> 0 < now \<Longrightarrow> breaker_run R c k s now []"
| maju: "breaker_run R c k s now izin \<Longrightarrow> now \<le> now' \<Longrightarrow> breaker_run R c k s now' izin"
| minta: "breaker_run R c k s now izin \<Longrightarrow> panggil_allow R c now k s = (s', v) \<Longrightarrow>
    breaker_run R c k s' now (if lua_int (v ! 3) \<noteq> 0 then lua_int (v ! 3) # izin else izin)"
| lapor: "breaker_run R c k s now izin \<Longrightarrow>
    breaker_run R c k (fst (panggil_record R c now ok probe token k s)) now izin"
| lain: "breaker_run R c k s now izin \<Longrightarrow> isi R s' k = isi R s k \<Longrightarrow> breaker_run R c k s' now izin"
| hilang: "breaker_run R c k s now izin \<Longrightarrow> isi R s' k = Map.empty \<Longrightarrow> breaker_run R c k s' now izin"

definition b_inv :: "breaker_config \<Rightarrow> bhash \<Rightarrow> int \<Rightarrow> int list \<Rightarrow> bool" where
  "b_inv c h now izin \<longleftrightarrow>
     0 < now \<and>
     0 \<le> nilai_field h OpenUntil \<and> nilai_field h OpenUntil \<le> now + milliseconds (bc_open_duration c) \<and>
     0 \<le> nilai_field h ProbesAt \<and> nilai_field h ProbesAt \<le> now \<and>
     0 \<le> nilai_field h Probes \<and> nilai_field h Probes \<le> bc_half_open_probes c \<and>
     (nilai_field h ProbesAt \<noteq> 0 \<longrightarrow> int (count_list izin (nilai_field h ProbesAt)) \<le> nilai_field h Probes) \<and>
     (\<forall>t\<in>set izin. 0 < t \<and> t \<le> now \<and>
        (t \<le> nilai_field h ProbesAt \<or> nilai_field h OpenUntil = 0 \<or> t < nilai_field h OpenUntil)) \<and>
     (\<forall>t. int (count_list izin t) \<le> bc_half_open_probes c)"

definition b_ember :: "breaker_config \<Rightarrow> bhash \<Rightarrow> int \<Rightarrow> bool" where
  "b_ember c h now \<longleftrightarrow>
     (\<exists>b\<le>now div milliseconds (bucket_width c).
        \<forall>i. h (T i) \<noteq> None \<or> h (F i) \<noteq> None \<longrightarrow> b - window_buckets < i \<and> i \<le> b)"

lemma nilai_field_upd [simp]:
  "nilai_field (h(f \<mapsto> v)) g = (if g = f then v else nilai_field h g)"
  "nilai_field Map.empty g = 0" "nilai_field (\<lambda>x. None) g = 0"
  by (simp_all add: nilai_field_def)

lemma b_inv_allow:
  assumes inv: "b_inv c h now izin" and c: "config_sah c"
    and a: "b_allow now (bc_half_open_probes c) (milliseconds (probe_wait c)) h = (h', ok, token)"
  shows "b_inv c h' now (if token \<noteq> 0 then token # izin else izin)"
proof (cases "ok \<and> b_state h now \<noteq> state_closed")
  case False
  with a have "h' = h" "token = 0"
    by (auto simp: b_allow_def split: if_splits option.splits)
  with inv show ?thesis by simp
next
  case True
  let ?w = "milliseconds (probe_wait c)"
  let ?new = "episode_baru h now ?w"
  have w: "1000 \<le> ?w" using config_ms(1) [OF c] by (simp add: probe_wait_def)
  from True a have ho: "b_state h now = state_half_open" using b_state_cases [of h now]
    by (auto simp: b_allow_def split: if_splits)
  then have ou: "nilai_field h OpenUntil \<noteq> 0" "nilai_field h OpenUntil \<le> now"
    by (auto simp: b_state_def split: if_splits)
  from True a ho obtain g t where gt: "izin_probe now (bc_half_open_probes c) ?w h = Some (g, t)"
    and h': "h' = h(Probes \<mapsto> g, ProbesAt \<mapsto> t)" and tok: "token = t"
    by (auto simp: b_allow_def split: option.splits)
  have g: "g = (if ?new then 1 else nilai_field h Probes + 1)" "t = (if ?new then now else nilai_field h ProbesAt)"
    "g \<le> bc_half_open_probes c"
    using gt by (auto simp: izin_probe_def Let_def split: if_splits)
  have fresh: "count_list izin now = 0" if "?new"
  proof -
    have "now \<notin> set izin"
    proof
      assume "now \<in> set izin"
      with inv have "now \<le> nilai_field h ProbesAt \<or> nilai_field h OpenUntil = 0 \<or> now < nilai_field h OpenUntil"
        unfolding b_inv_def by blast
      with ou have "now \<le> nilai_field h ProbesAt" by auto
      with that w inv show False by (auto simp: episode_baru_def b_inv_def)
    qed
    then show ?thesis by (simp add: count_notin)
  qed
  have cnt: "int (count_list izin t) + 1 \<le> g"
    using fresh g inv by (auto simp: b_inv_def episode_baru_def)
  have t0: "0 < t" "t \<le> now" using g(2) inv by (auto simp: b_inv_def episode_baru_def)
  have quota: "int (count_list (t # izin) u) \<le> bc_half_open_probes c" for u
    using inv cnt g(3) by (cases "u = t") (auto simp: b_inv_def)
  have members: "0 < u \<and> u \<le> now \<and> (u \<le> t \<or> nilai_field h OpenUntil = 0 \<or> u < nilai_field h OpenUntil)"
    if "u \<in> set (t # izin)" for u
  proof (cases "u = t")
    case False
    then have "u \<in> set izin" using that by simp
    with inv have "0 < u" "u \<le> now"
      "u \<le> nilai_field h ProbesAt \<or> nilai_field h OpenUntil = 0 \<or> u < nilai_field h OpenUntil"
      unfolding b_inv_def by blast+
    then show ?thesis using g(2) by (cases ?new) auto
  qed (simp add: t0)
  have "0 \<le> g" using g(1) inv by (auto simp: b_inv_def split: if_splits)
  moreover have "0 < now" "0 \<le> nilai_field h OpenUntil"
    "nilai_field h OpenUntil \<le> now + milliseconds (bc_open_duration c)" using inv by (simp_all add: b_inv_def)
  moreover have "\<forall>u\<in>set (t # izin). 0 < u \<and> u \<le> now \<and> (u \<le> t \<or> nilai_field h OpenUntil = 0 \<or> u < nilai_field h OpenUntil)"
    using members by blast
  moreover have "\<forall>u. int (count_list (t # izin) u) \<le> bc_half_open_probes c" using quota by blast
  moreover have "int (count_list (t # izin) t) \<le> g" using cnt by simp
  moreover have "t \<noteq> 0" "0 \<le> t" using t0 by simp_all
  ultimately show ?thesis
    unfolding h' tok b_inv_def using t0(2) g(3) by (simp del: set_simps count_list.simps)
qed

lemma b_inv_empty: "b_inv c h now izin \<Longrightarrow> config_sah c \<Longrightarrow> b_inv c Map.empty now izin"
  using config_ms(1) [of c] by (auto simp: b_inv_def config_sah_def)

lemma b_inv_buka:
  assumes "b_inv c h now izin" and "config_sah c"
  shows "b_inv c [OpenUntil \<mapsto> now + milliseconds (bc_open_duration c), OpenFailures \<mapsto> f] now izin"
proof -
  have "1000 \<le> milliseconds (bc_open_duration c)" by (rule config_ms(1) [OF assms(2)])
  moreover have "\<forall>t\<in>set izin. 0 < t \<and> t \<le> now" using assms(1) by (auto simp: b_inv_def)
  ultimately show ?thesis
    using assms by (force simp: b_inv_def config_sah_def)
qed

lemma nilai_catat:
  assumes "f \<in> {OpenUntil, Probes, ProbesAt}"
  shows "nilai_field (buang_basi o' h (catat_sampel b ok h)) f = nilai_field h f"
  using assms by (auto simp: nilai_field_def buang_basi_def catat_sampel_def Let_def)

lemma b_inv_cong:
  "b_inv c h now izin \<Longrightarrow> (\<And>f. f \<in> {OpenUntil, Probes, ProbesAt} \<Longrightarrow> nilai_field h' f = nilai_field h f) \<Longrightarrow>
   b_inv c h' now izin"
  by (simp add: b_inv_def)

lemma b_inv_record:
  assumes "b_inv c h now izin" and "config_sah c"
  shows "b_inv c (fst (b_record now ok thr minimum width nb (milliseconds (bc_open_duration c)) probe token h)) now izin"
  unfolding b_record_def Let_def
  using assms b_inv_empty [OF assms] b_inv_buka [OF assms]
  by (auto intro: b_inv_cong [OF assms(1)] nilai_catat)

lemma b_ember_allow:
  "b_ember c h now \<Longrightarrow> b_ember c (fst (b_allow now quota wait h)) now"
  by (auto simp: b_ember_def b_allow_def split: option.split)

lemma b_ember_empty [simp]: "b_ember c Map.empty now"
  by (auto simp: b_ember_def)

lemma b_ember_record:
  assumes "b_ember c h now"
  shows "b_ember c (fst (b_record now ok thr minimum (milliseconds (bucket_width c)) window_buckets open_ms probe token h)) now"
proof -
  let ?b = "now div milliseconds (bucket_width c)"
  let ?o = "?b - window_buckets + 1"
  from assms obtain b0 where b0: "b0 \<le> ?b"
    "\<And>i. h (T i) \<noteq> None \<or> h (F i) \<noteq> None \<Longrightarrow> b0 - window_buckets < i \<and> i \<le> b0"
    by (auto simp: b_ember_def)
  have "?b - window_buckets < i \<and> i \<le> ?b"
    if "buang_basi ?o h (catat_sampel ?b ok h) (T i) \<noteq> None \<or> buang_basi ?o h (catat_sampel ?b ok h) (F i) \<noteq> None" for i
  proof -
    have "i = ?b \<or> (h (T i) \<noteq> None \<or> h (F i) \<noteq> None) \<and> ?o \<le> i"
      using that by (auto simp: buang_basi_def catat_sampel_def Let_def split: if_splits)
    moreover have "i \<le> b0" if "h (T i) \<noteq> None \<or> h (F i) \<noteq> None" using b0(2) [OF that] by simp
    ultimately show ?thesis using b0(1) by (auto simp: window_buckets_def)
  qed
  then have "b_ember c (buang_basi ?o h (catat_sampel ?b ok h)) now"
    unfolding b_ember_def by (intro exI [of _ ?b]) auto
  moreover have "b_ember c [OpenUntil \<mapsto> x, OpenFailures \<mapsto> y] now" for x y
    by (auto simp: b_ember_def)
  ultimately show ?thesis using assms by (cases ok) (simp_all add: b_record_def Let_def)
qed

context redis_hash begin

lemma run_inv:
  assumes "breaker_run R c k s now izin" and "config_sah c"
  shows "b_inv c (isi R s k) now izin \<and> b_ember c (isi R s k) now"
  using assms(1)
proof induction
  case (mulai s now)
  with assms(2) show ?case by (auto simp: b_inv_def config_sah_def config_ms milliseconds_nonneg)
next
  case (maju s now izin now')
  then have "now div milliseconds (bucket_width c) \<le> now' div milliseconds (bucket_width c)"
    using config_ms(3) [OF assms(2)] by (intro zdiv_mono1) auto
  then have "b_ember c (isi R s k) now'"
    using maju.IH unfolding b_ember_def by (meson order_trans)
  moreover have "b_inv c (isi R s k) now' izin"
    using maju.IH maju.hyps(2) unfolding b_inv_def by (meson order_trans add_right_mono order_less_le_trans)
  ultimately show ?case by blast
next
  case (minta s now izin s' v)
  let ?a = "b_allow now (bc_half_open_probes c) (milliseconds (probe_wait c)) (isi R s k)"
  have ttl: "0 < milliseconds (key_ttl c)" using config_ms(4) [OF assms(2)] by simp
  have s': "isi R s' k = fst ?a"
    using minta.hyps(2) allow_refines [OF ttl, of now "bc_half_open_probes c" "milliseconds (probe_wait c)" k s k]
    by (simp add: panggil_allow_def)
  have v: "lua_int (v ! 3) = snd (snd ?a)"
    using minta.hyps(2) allow_reply [of now "bc_half_open_probes c" "milliseconds (probe_wait c)" "milliseconds (key_ttl c)" k s]
    by (simp add: panggil_allow_def)
  have "?a = (fst ?a, fst (snd ?a), snd (snd ?a))" by simp
  from b_inv_allow [OF _ assms(2) this] b_ember_allow minta.IH show ?case
    unfolding s' v by blast
next
  case (lapor s now izin ok probe token)
  have ttl: "0 < milliseconds (key_ttl c)" using config_ms(4) [OF assms(2)] by simp
  show ?case
    using lapor.IH b_inv_record [OF _ assms(2)] b_ember_record
    by (simp add: panggil_record_def record_refines [OF ttl])
next
  case (lain s now izin s')
  then show ?case by simp
next
  case (hilang s now izin s')
  then show ?case using b_inv_empty [OF _ assms(2)] b_ember_empty unfolding hilang.hyps(2) by blast
qed

end

lemma b_ember_card:
  assumes "b_ember c h now"
  shows "finite (dom h) \<and> card (dom h) \<le> 24"
proof -
  from assms obtain b where b: "\<And>i. h (T i) \<noteq> None \<or> h (F i) \<noteq> None \<Longrightarrow> b - 10 < i \<and> i \<le> b"
    by (auto simp: b_ember_def window_buckets_def)
  let ?I = "{b - 9..b}"
  let ?S = "{OpenUntil, OpenFailures, Probes, ProbesAt} \<union> T ` ?I \<union> F ` ?I"
  have "dom h \<subseteq> ?S"
  proof
    fix f assume "f \<in> dom h"
    then show "f \<in> ?S" using b by (cases f) force+
  qed
  moreover have "card ?S \<le> 24"
  proof -
    have "card ?S \<le> card ({OpenUntil, OpenFailures, Probes, ProbesAt} \<union> T ` ?I) + card (F ` ?I)" by (rule card_Un_le)
    also have "\<dots> \<le> card {OpenUntil, OpenFailures, Probes, ProbesAt} + card (T ` ?I) + card (F ` ?I)"
      by (intro add_right_mono card_Un_le)
    also have "\<dots> \<le> 4 + 10 + 10"
      using card_image_le [of ?I T] card_image_le [of ?I F] by simp
    finally show ?thesis by simp
  qed
  moreover have "finite ?S" by simp
  ultimately show ?thesis by (meson card_mono finite_subset le_trans)
qed

lemma b_allow_recovers:
  assumes "b_inv c h now izin" and "config_sah c" and "now + milliseconds (bc_open_duration c) \<le> now'"
  shows "fst (snd (b_allow now' (bc_half_open_probes c) (milliseconds (probe_wait c)) h))"
proof -
  have "nilai_field h OpenUntil \<le> now'" "nilai_field h ProbesAt \<le> now"
    using assms(1,3) by (auto simp: b_inv_def)
  then have "b_state h now' \<noteq> state_open" "episode_baru h now' (milliseconds (probe_wait c))"
    using assms(3) by (auto simp: b_state_def episode_baru_def probe_wait_def)
  then show ?thesis
    using assms(2) by (auto simp: b_allow_def izin_probe_def config_sah_def)
qed

lemma b_record_spec:
  assumes "0 < now" and "0 < open_ms"
    and r: "b_record now ok thr minimum width nb open_ms probe token h = (h', st, changed)"
  shows "st = b_state h' now" and "changed \<longleftrightarrow> b_state h' now \<noteq> b_state h now"
    and "\<not> changed \<Longrightarrow> b_state h now \<noteq> state_closed \<Longrightarrow> h' = h"
    and "changed \<Longrightarrow>
      b_state h now = state_closed \<and> st = state_open \<and>
        minimum \<le> 1 + jumlah_t (now div width - nb + 1) h \<and>
        thr * of_int (1 + jumlah_t (now div width - nb + 1) h)
          \<le> of_int ((if ok then 0 else 1) + jumlah_f (now div width - nb + 1) h) \<or>
      b_state h now = state_half_open \<and> probe \<and> (token = 0 \<or> token = nilai_field h ProbesAt) \<and>
        st = (if ok then state_closed else state_open)"
proof -
  have buka: "b_state [OpenUntil \<mapsto> now + open_ms, OpenFailures \<mapsto> x] now = state_open" for x
    using assms(1,2) by (simp add: b_state_def)
  have kosong: "b_state Map.empty now = state_closed" by (simp add: b_state_def)
  have sama: "b_state (buang_basi o' h (catat_sampel b ok h)) now = b_state h now" for o' b
    by (simp add: b_state_def nilai_catat)
  consider "b_state h now = state_closed" | "b_state h now = state_open" | "b_state h now = state_half_open"
    using b_state_cases by blast
  then show "st = b_state h' now" and "changed \<longleftrightarrow> b_state h' now \<noteq> b_state h now"
    and "\<not> changed \<Longrightarrow> b_state h now \<noteq> state_closed \<Longrightarrow> h' = h"
    and "changed \<Longrightarrow>
      b_state h now = state_closed \<and> st = state_open \<and>
        minimum \<le> 1 + jumlah_t (now div width - nb + 1) h \<and>
        thr * of_int (1 + jumlah_t (now div width - nb + 1) h)
          \<le> of_int ((if ok then 0 else 1) + jumlah_f (now div width - nb + 1) h) \<or>
      b_state h now = state_half_open \<and> probe \<and> (token = 0 \<or> token = nilai_field h ProbesAt) \<and>
        st = (if ok then state_closed else state_open)"
    using r buka kosong sama unfolding b_record_def Let_def
    by (cases; auto split: if_splits)+
qed

section \<open>Properties\<close>

text \<open>C3.  The probe quota holds across all instances: in any interleaving of requests, results,
  resets and expiry, an episode of the half-open breaker never lets more than
  \<^verbatim>\<open>HalfOpenProbes\<close> requests through.\<close>

theorem breaker_probe_quota:
  assumes "redis_hash R" and "config_sah c" and "breaker_run R c k s now izin"
  shows "int (count_list izin t) \<le> bc_half_open_probes c"
  using redis_hash.run_inv [OF assms(1,3,2)] unfolding b_inv_def by blast

definition contoh_config :: breaker_config where
  "contoh_config = default_breaker_config\<lparr>bc_min_samples := 1\<rparr>"

lemma contoh_config_sah: "config_sah contoh_config"
proof -
  have "bc_failure_threshold contoh_config = Some (1 / 2)"
    by (simp add: contoh_config_def default_breaker_config_def breaker_consts)
  then have "\<exists>t. bc_failure_threshold contoh_config = Some t \<and> 0 < t \<and> t \<le> 1"
    by (intro exI [of _ "1 / 2"]) simp
  then show ?thesis
    by (simp add: config_sah_def del: not_None_eq)
       (simp add: contoh_config_def default_breaker_config_def breaker_consts)
qed

definition contoh_terbuka :: simpanan where
  "contoh_terbuka = fst (panggil_record mem_redis contoh_config 1000 False False 0 ''k'' [])"

lemma contoh_lain: "map_of contoh_terbuka ''lain'' = None"
  by code_simp

lemma contoh_run_terbuka: "breaker_run mem_redis contoh_config ''k'' contoh_terbuka 1000 []"
  unfolding contoh_terbuka_def
  by (intro breaker_run.lapor breaker_run.mulai) (simp_all add: isi_mem)

lemma contoh_run_probe:
  "breaker_run mem_redis contoh_config ''k'' (fst (panggil_allow mem_redis contoh_config 31000 ''k'' contoh_terbuka)) 31000 [31000]"
proof -
  have "breaker_run mem_redis contoh_config ''k'' contoh_terbuka 31000 []"
    by (rule breaker_run.maju [OF contoh_run_terbuka]) simp
  moreover have "lua_int (snd (panggil_allow mem_redis contoh_config 31000 ''k'' contoh_terbuka) ! 3) = 31000"
    by code_simp
  ultimately show ?thesis
    using breaker_run.minta [of mem_redis contoh_config "''k''" contoh_terbuka 31000 "[]"
        "fst (panggil_allow mem_redis contoh_config 31000 ''k'' contoh_terbuka)"
        "snd (panggil_allow mem_redis contoh_config 31000 ''k'' contoh_terbuka)"] by simp
qed

lemma breaker_probe_quota_witness: "int (count_list [31000] (31000 :: int)) \<le> bc_half_open_probes contoh_config"
  by (rule breaker_probe_quota [OF mem.redis_hash_axioms contoh_config_sah contoh_run_probe])

text \<open>C4.  A breaker never gets stuck: whatever happened before, and even if every probe was
  granted and never reported, a request that comes one open duration later is let through.\<close>

theorem breaker_recovers:
  assumes "redis_hash R" and "config_sah c" and "breaker_run R c k s now izin"
    and "now + milliseconds (bc_open_duration c) \<le> now'"
  shows "lua_int (snd (panggil_allow R c now' k s) ! 0) = 1"
  using b_allow_recovers [OF conjunct1 [OF redis_hash.run_inv [OF assms(1,3,2)]] assms(2,4)]
  by (simp add: panggil_allow_def redis_hash.allow_reply [OF assms(1)])

lemma breaker_recovers_witness:
  "lua_int (snd (panggil_allow mem_redis contoh_config 61000 ''k''
      (fst (panggil_allow mem_redis contoh_config 31000 ''k'' contoh_terbuka))) ! 0) = 1"
  by (rule breaker_recovers [OF mem.redis_hash_axioms contoh_config_sah contoh_run_probe]) code_simp

text \<open> The memory a breaker takes in Redis is bounded: its hash never holds more than ten
  buckets of each kind and the four fields of an episode.\<close>

theorem breaker_hash_bounded:
  assumes "redis_hash R" and "config_sah c" and "breaker_run R c k s now izin"
  shows "length (rd_hgetall R s k) \<le> 24"
proof -
  have "card (dom (isi R s k)) \<le> 24"
    using redis_hash.run_inv [OF assms(1,3,2)] b_ember_card by blast
  moreover have "dom (isi R s k) = set (map fst (rd_hgetall R s k))"
    by (simp add: isi_def dom_map_of_conv_image_fst)
  ultimately show ?thesis
    using distinct_card [OF redis_hash.hgetall_distinct [OF assms(1), of s k]] by simp
qed

lemma breaker_hash_bounded_witness: "length (rd_hgetall mem_redis contoh_terbuka ''k'') \<le> 24"
  by (rule breaker_hash_bounded [OF mem.redis_hash_axioms contoh_config_sah contoh_run_terbuka])

text \<open>The scripts implement the abstract breaker on every Redis that keeps its contract: the
  content of the key after a call is the abstract result, the first reply of \<^verbatim>\<open>allow\<close> is the abstract verdict, and no
  other key is touched.\<close>

theorem breaker_scripts_refine:
  assumes "redis_hash R" and "0 < ttl"
  shows "isi R (fst (allow_script R now quota wait ttl k s)) k' =
      (if k' = k then fst (b_allow now quota wait (isi R s k)) else isi R s k') \<and>
    (lua_int (snd (allow_script R now quota wait ttl k s) ! 0) = 1 \<longleftrightarrow> fst (snd (b_allow now quota wait (isi R s k)))) \<and>
    isi R (fst (record_script R now ok thr minimum width nb open_ms ttl probe token k s)) k' =
      (if k' = k then fst (b_record now ok thr minimum width nb open_ms probe token (isi R s k)) else isi R s k')"
  using redis_hash.allow_refines [OF assms] redis_hash.record_refines [OF assms]
  by (simp add: redis_hash.allow_reply [OF assms(1)])

lemma breaker_scripts_refine_witness:
  "isi mem_redis (fst (allow_script mem_redis 31000 1 30000 120000 ''k'' contoh_terbuka)) ''lain'' = Map.empty"
  using breaker_scripts_refine [OF mem.redis_hash_axioms, of 120000 31000 1 30000 "''k''" contoh_terbuka "''lain''"]
  by (simp add: isi_mem contoh_lain)

text \<open>C5.  What a reported result can do: the state answered is the state of the stored breaker;
  it changes only from closed, when the window with this sample reaches the minimum and the
  failure ratio, or from half open, by the result of a probe of the running episode; a stale or
  foreign result leaves the breaker untouched.\<close>

theorem breaker_record_effect:
  assumes R: "redis_hash R" and c: "config_sah c" and now: "0 < now"
    and r: "panggil_record R c now ok probe token k s = (s', v)"
  shows "lua_str (v ! 0) = b_state (isi R s' k) now \<and>
    (lua_int (v ! 4) = 1 \<longleftrightarrow> b_state (isi R s' k) now \<noteq> b_state (isi R s k) now) \<and>
    (b_state (isi R s' k) now = b_state (isi R s k) now \<longrightarrow> b_state (isi R s k) now \<noteq> state_closed \<longrightarrow>
       isi R s' k = isi R s k) \<and>
    (b_state (isi R s' k) now \<noteq> b_state (isi R s k) now \<longrightarrow>
       (let oldest = now div milliseconds (bucket_width c) - window_buckets + 1;
            total = 1 + jumlah_t oldest (isi R s k);
            failures = (if ok then 0 else 1) + jumlah_f oldest (isi R s k)
        in b_state (isi R s k) now = state_closed \<and> lua_str (v ! 0) = state_open \<and>
           bc_min_samples c \<le> total \<and> ambang c * of_int total \<le> of_int failures) \<or>
       b_state (isi R s k) now = state_half_open \<and> probe \<and>
         (token = 0 \<or> token = nilai_field (isi R s k) ProbesAt) \<and>
         lua_str (v ! 0) = (if ok then state_closed else state_open))"
proof -
  have ttl: "0 < milliseconds (key_ttl c)" and open0: "0 < milliseconds (bc_open_duration c)"
    using config_ms [OF c] by simp_all
  let ?b = "b_record now ok (ambang c) (bc_min_samples c) (milliseconds (bucket_width c)) window_buckets
    (milliseconds (bc_open_duration c)) probe token (isi R s k)"
  obtain h' st ch where b: "?b = (h', st, ch)" by (cases ?b) auto
  have h': "isi R s' k = h'"
    using redis_hash.record_refines [OF R ttl, of now ok "ambang c" "bc_min_samples c" "milliseconds (bucket_width c)"
        window_buckets "milliseconds (bc_open_duration c)" probe token k s k] r b
    by (simp add: panggil_record_def)
  have v: "lua_str (v ! 0) = st" "lua_int (v ! 4) = 1 \<longleftrightarrow> ch"
    using redis_hash.record_reply [OF R, of now ok "ambang c" "bc_min_samples c" "milliseconds (bucket_width c)"
        window_buckets "milliseconds (bc_open_duration c)" "milliseconds (key_ttl c)" probe token k s] r b
    by (auto simp: panggil_record_def split: if_splits)
  note spec = b_record_spec [OF now open0 b]
  show ?thesis
    unfolding h' v Let_def using spec by blast
qed

lemma breaker_record_effect_witness:
  "b_state (isi mem_redis contoh_terbuka ''k'') 1000 = state_open"
proof -
  let ?r = "panggil_record mem_redis contoh_config 1000 False False 0 ''k'' []"
  have r: "?r = (contoh_terbuka, snd ?r)" by (simp add: contoh_terbuka_def)
  have "lua_str (snd ?r ! 0) = state_open" by code_simp
  with breaker_record_effect [OF mem.redis_hash_axioms contoh_config_sah _ r] show ?thesis by simp
qed

text \<open> Every configuration a caller can hand in, zero, negative, absurd or NaN, is brought into
  the ranges of the schema, and a configuration within them is kept as it is.\<close>

theorem normalized_sah:
  "config_sah (normalized c) \<and> (normalized (normalized c) = normalized c) \<and> (config_sah c \<longrightarrow> normalized c = c)"
  using config_sah_normalized normalized_id by blast

lemma normalized_sah_witness:
  "config_sah (normalized \<lparr>bc_failure_threshold = None, bc_min_samples = - 3, bc_window = 5 * 10 ^ 15,
     bc_open_duration = 0, bc_half_open_probes = 4000\<rparr>) \<and> normalized contoh_config = contoh_config"
  using normalized_sah contoh_config_sah by blast

end
