(* ===== verification/Breaker.thy ===== *)
theory Breaker
  imports Breaker_Runs
begin

text \<open>
  The circuit breaker of one gateway instance, \<^verbatim>\<open>internal/gateway/breaker.go\<close>: the in-memory decisions
  in front of the scripts, the two ways of asking and reporting (with the breaker's own or with a
  rule's configuration), the state-change listener and the operator's reset.  The server state is
  threaded through; a script call that fails may or may not have run on the server.  The digest of
  a configuration (SHA-256 of its fields) is the argument \<open>sidik\<close>.  The breaker is present and
  every operation is one atomic step with one reading of the clock.
\<close>

section \<open>State\<close>

record memo_entry =
  me_allow :: bool
  me_state :: state
  me_expires :: waktu

record peristiwa =
  pi_kunci :: string
  pi_provider :: string
  pi_model :: string
  pi_state :: state
  pi_total :: int
  pi_failures :: int

text \<open>\<^verbatim>\<open>br_terkirim\<close> lists the calls of the listener, newest first.\<close>

record breaker =
  br_ada_redis :: bool
  br_cfg :: breaker_config
  br_memo :: "(string \<times> memo_entry) list"
  br_transisi :: "(string \<times> state) list"
  br_listener :: bool
  br_is_closed :: bool
  br_terkirim :: "peristiwa list"

definition memo_ttl :: durasi where "memo_ttl = 200 * milidetik"
definition memo_max_entries :: nat where "memo_max_entries = 4096"

definition new_breaker :: "bool \<Rightarrow> breaker_config \<Rightarrow> breaker" where
  "new_breaker ada_redis cfg = \<lparr>br_ada_redis = ada_redis, br_cfg = normalized cfg, br_memo = [],
     br_transisi = [], br_listener = False, br_is_closed = False, br_terkirim = []\<rparr>"

definition set_state_change_listener :: "bool \<Rightarrow> breaker \<Rightarrow> breaker" where
  "set_state_change_listener ada b = b\<lparr>br_listener := ada\<rparr>"

text \<open>\<^verbatim>\<open>Close\<close>: no listener call starts afterwards.  Waiting for the running ones is not modelled.\<close>

definition close_breaker :: "breaker \<Rightarrow> breaker" where
  "close_breaker b = b\<lparr>br_is_closed := True\<rparr>"

text \<open>How one round trip to the server goes: it succeeds, or it fails before or after the script ran.\<close>

datatype putaran = Berhasil | Gagal string bool

datatype breaker_error = ErrNoProvider | ErrRedis string

section \<open>Keys and memo\<close>

text \<open>\<^verbatim>\<open>kunciUntuk\<close>.\<close>

definition kunci_untuk :: "(breaker_config \<Rightarrow> string) \<Rightarrow> breaker_config \<Rightarrow> string \<Rightarrow> string \<Rightarrow> breaker_config \<Rightarrow> string" where
  "kunci_untuk sidik global provider_id model cfg =
     (let kunci = circuit_breaker_key provider_id model
      in if cfg = global then kunci else kunci @ '':'' @ sidik cfg)"

definition memo_expiry :: "waktu \<Rightarrow> durasi \<Rightarrow> waktu" where
  "memo_expiry now open_remaining =
     (if 0 < open_remaining \<and> open_remaining < memo_ttl then now + open_remaining else now + memo_ttl)"

definition memo_get :: "string \<Rightarrow> waktu \<Rightarrow> breaker \<Rightarrow> memo_entry option" where
  "memo_get k now b =
     (case map_of (br_memo b) k of
        None \<Rightarrow> None
      | Some e \<Rightarrow> if \<not> now < me_expires e then None else Some e)"

definition memo_put :: "string \<Rightarrow> memo_entry \<Rightarrow> breaker \<Rightarrow> breaker" where
  "memo_put k e b =
     (let memo = (if map_of (br_memo b) k = None \<and> memo_max_entries \<le> length (br_memo b) then [] else br_memo b)
      in b\<lparr>br_memo := AList.update k e memo\<rparr>)"

definition memo_drop :: "string \<Rightarrow> breaker \<Rightarrow> breaker" where
  "memo_drop k b = b\<lparr>br_memo := AList.delete k (br_memo b)\<rparr>"

section \<open>Asking\<close>

record hasil_izin =
  hi_izin :: bool
  hi_state :: state
  hi_token :: int
  hi_err :: "breaker_error option"

text \<open>\<^verbatim>\<open>allowDengan\<close>.\<close>

definition allow_dengan ::
    "'r redis \<Rightarrow> (breaker_config \<Rightarrow> string) \<Rightarrow> putaran \<Rightarrow> waktu \<Rightarrow> string \<Rightarrow> string \<Rightarrow> breaker_config \<Rightarrow> bool \<Rightarrow>
     breaker \<Rightarrow> 'r \<Rightarrow> breaker \<times> 'r \<times> hasil_izin" where
  "allow_dengan R sidik jalan now provider_id model cfg pakai_memo b s =
     (if \<not> br_ada_redis b then (b, s, \<lparr>hi_izin = True, hi_state = state_closed, hi_token = 0, hi_err = None\<rparr>)
      else if trim_space provider_id = [] then
        (b, s, \<lparr>hi_izin = True, hi_state = state_closed, hi_token = 0, hi_err = Some ErrNoProvider\<rparr>)
      else
        let k = kunci_untuk sidik (br_cfg b) provider_id model cfg
        in case (if pakai_memo then memo_get k now b else None) of
             Some e \<Rightarrow> (b, s, \<lparr>hi_izin = me_allow e, hi_state = me_state e, hi_token = 0, hi_err = None\<rparr>)
           | None \<Rightarrow>
               (case panggil_allow R cfg (unix_milli now) k s of
                  (s', res) \<Rightarrow>
                    (case jalan of
                       Gagal err sudah \<Rightarrow>
                         (b, if sudah then s' else s,
                          \<lparr>hi_izin = True, hi_state = state_closed, hi_token = 0, hi_err = Some (ErrRedis err)\<rparr>)
                     | Berhasil \<Rightarrow>
                         (case parse_allow res of
                            (izin, state, open_remaining, token) \<Rightarrow>
                              (if pakai_memo \<and> state \<noteq> state_half_open
                               then memo_put k \<lparr>me_allow = izin, me_state = state,
                                      me_expires = memo_expiry now open_remaining\<rparr> b
                               else b,
                               s', \<lparr>hi_izin = izin, hi_state = state, hi_token = token, hi_err = None\<rparr>)))))"

text \<open>\<^verbatim>\<open>Allow\<close>, \<^verbatim>\<open>IzinkanEpisode\<close> and their variants with a rule's configuration.\<close>

definition izinkan_episode where
  "izinkan_episode R sidik jalan now provider_id model b s =
     allow_dengan R sidik jalan now provider_id model (br_cfg b) True b s"

definition izinkan_episode_with_config where
  "izinkan_episode_with_config R sidik jalan now provider_id model cfg b s =
     allow_dengan R sidik jalan now provider_id model (normalized cfg) False b s"

definition allow where
  "allow R sidik jalan now provider_id model b s =
     (case allow_dengan R sidik jalan now provider_id model (br_cfg b) True b s of
        (b', s', h) \<Rightarrow> (b', s', hi_izin h, hi_state h, hi_err h))"

definition allow_with_config where
  "allow_with_config R sidik jalan now provider_id model cfg b s =
     (case allow_dengan R sidik jalan now provider_id model (normalized cfg) False b s of
        (b', s', h) \<Rightarrow> (b', s', hi_izin h, hi_state h, hi_err h))"

section \<open>Reporting\<close>

text \<open>\<^verbatim>\<open>sampaikanTransisi\<close>.\<close>

definition sampaikan_transisi ::
    "string \<Rightarrow> string \<Rightarrow> string \<Rightarrow> state \<Rightarrow> int \<Rightarrow> int \<Rightarrow> breaker \<Rightarrow> breaker" where
  "sampaikan_transisi k provider_id model state tot failures b =
     (if \<not> br_listener b \<or> br_is_closed b then b
      else if map_of (br_transisi b) k = Some state then b
      else b\<lparr>br_transisi := AList.update k state (br_transisi b),
             br_terkirim := \<lparr>pi_kunci = k, pi_provider = provider_id, pi_model = model, pi_state = state,
                             pi_total = tot, pi_failures = failures\<rparr> # br_terkirim b\<rparr>)"

text \<open>\<^verbatim>\<open>recordDengan\<close>.\<close>

definition record_dengan ::
    "'r redis \<Rightarrow> (breaker_config \<Rightarrow> string) \<Rightarrow> putaran \<Rightarrow> waktu \<Rightarrow> string \<Rightarrow> string \<Rightarrow> bool \<Rightarrow> breaker_config \<Rightarrow>
     bool \<Rightarrow> bool \<Rightarrow> int \<Rightarrow> breaker \<Rightarrow> 'r \<Rightarrow> breaker \<times> 'r \<times> breaker_error option" where
  "record_dengan R sidik jalan now provider_id model sukses cfg pakai_memo probe token b s =
     (if \<not> br_ada_redis b then (b, s, None)
      else if trim_space provider_id = [] then (b, s, Some ErrNoProvider)
      else
        let k = kunci_untuk sidik (br_cfg b) provider_id model cfg
        in case panggil_record R cfg (unix_milli now) sukses probe token k s of
             (s', res) \<Rightarrow>
               (case jalan of
                  Gagal err sudah \<Rightarrow> (b, if sudah then s' else s, Some (ErrRedis err))
                | Berhasil \<Rightarrow>
                    (case parse_record res of
                       (state, open_remaining, tot, failures, changed) \<Rightarrow>
                         let b1 = (if pakai_memo \<and> state \<noteq> state_half_open
                                   then memo_put k \<lparr>me_allow = (state \<noteq> state_open), me_state = state,
                                          me_expires = memo_expiry now open_remaining\<rparr> b
                                   else b);
                             b2 = (if changed
                                   then sampaikan_transisi k provider_id model state tot failures b1
                                   else b1)
                         in (b2, s', None))))"

text \<open>\<^verbatim>\<open>Record\<close>, \<^verbatim>\<open>RecordHasil\<close>, \<^verbatim>\<open>RecordHasilEpisode\<close> and the variants with a rule's configuration.\<close>

definition record_biasa where
  "record_biasa R sidik jalan now provider_id model sukses b s =
     record_dengan R sidik jalan now provider_id model sukses (br_cfg b) True False 0 b s"

definition record_with_config where
  "record_with_config R sidik jalan now provider_id model sukses cfg b s =
     record_dengan R sidik jalan now provider_id model sukses (normalized cfg) False False 0 b s"

definition record_hasil where
  "record_hasil R sidik jalan now provider_id model sukses probe b s =
     record_dengan R sidik jalan now provider_id model sukses (br_cfg b) True probe 0 b s"

definition record_hasil_with_config where
  "record_hasil_with_config R sidik jalan now provider_id model sukses probe cfg b s =
     record_dengan R sidik jalan now provider_id model sukses (normalized cfg) False probe 0 b s"

definition record_hasil_episode where
  "record_hasil_episode R sidik jalan now provider_id model sukses token b s =
     record_dengan R sidik jalan now provider_id model sukses (br_cfg b) True (token \<noteq> 0) token b s"

definition record_hasil_episode_with_config where
  "record_hasil_episode_with_config R sidik jalan now provider_id model sukses token cfg b s =
     record_dengan R sidik jalan now provider_id model sukses (normalized cfg) False (token \<noteq> 0) token b s"

section \<open>Reading and resetting\<close>

text \<open>\<^verbatim>\<open>stateDariKunci\<close>, \<^verbatim>\<open>State\<close> and \<^verbatim>\<open>StateUntukKunci\<close>; on failure the answer is closed, with the error.\<close>

definition state_dari_kunci :: "'r redis \<Rightarrow> string option \<Rightarrow> waktu \<Rightarrow> string \<Rightarrow> 'r \<Rightarrow> state \<times> string option" where
  "state_dari_kunci R galat now k s =
     (case galat of
        Some e \<Rightarrow> (state_closed, Some e)
      | None \<Rightarrow> (fst (parse_state (state_script R (unix_milli now) k s)), None))"

definition state_breaker ::
    "'r redis \<Rightarrow> string option \<Rightarrow> waktu \<Rightarrow> string \<Rightarrow> string \<Rightarrow> breaker \<Rightarrow> 'r \<Rightarrow> state \<times> breaker_error option" where
  "state_breaker R galat now provider_id model b s =
     (if \<not> br_ada_redis b then (state_closed, None)
      else if trim_space provider_id = [] then (state_closed, Some ErrNoProvider)
      else case state_dari_kunci R galat now (circuit_breaker_key provider_id model) s of
             (st, err) \<Rightarrow> (st, map_option ErrRedis err))"

definition state_untuk_kunci ::
    "'r redis \<Rightarrow> string option \<Rightarrow> waktu \<Rightarrow> string \<Rightarrow> breaker \<Rightarrow> 'r \<Rightarrow> state \<times> breaker_error option" where
  "state_untuk_kunci R galat now k b s =
     (if \<not> br_ada_redis b then (state_closed, None)
      else case state_dari_kunci R galat now k s of (st, err) \<Rightarrow> (st, map_option ErrRedis err))"

text \<open>Which of the round trips of \<^verbatim>\<open>Reset\<close> fail: the scan, each state read, the deletion.\<close>

record reset_galat =
  rg_scan :: "string option"
  rg_state :: "string \<Rightarrow> string option"
  rg_del :: "string option"

definition tanpa_galat :: reset_galat where
  "tanpa_galat = \<lparr>rg_scan = None, rg_state = (\<lambda>_. None), rg_del = None\<rparr>"

definition reset_breaker ::
    "'r redis \<Rightarrow> reset_galat \<Rightarrow> waktu \<Rightarrow> string \<Rightarrow> string \<Rightarrow> breaker \<Rightarrow> 'r \<Rightarrow> breaker \<times> 'r \<times> breaker_error option" where
  "reset_breaker R g now provider_id model b s =
     (if \<not> br_ada_redis b then (b, s, None)
      else if trim_space provider_id = [] then (b, s, Some ErrNoProvider)
      else
        let k = circuit_breaker_key provider_id model
        in case rg_scan g of
             Some e \<Rightarrow> (b, s, Some (ErrRedis e))
           | None \<Rightarrow>
               let semua = k # rd_scan R s (k @ '':'');
                   terbuka = list_ex (\<lambda>k'. case state_dari_kunci R (rg_state g k') now k' s of
                                             (st, err) \<Rightarrow> err = None \<and> st \<noteq> state_closed) semua
               in case rg_del g of
                    Some e \<Rightarrow> (b, s, Some (ErrRedis e))
                  | None \<Rightarrow>
                      let s' = foldl (rd_del R) s semua;
                          b1 = foldl (\<lambda>b k'. memo_drop k' b) b semua;
                          b2 = (if terbuka
                                then sampaikan_transisi k provider_id model state_closed 0 0
                                  (b1\<lparr>br_transisi := AList.delete k
                                        (foldl (\<lambda>m k'. AList.update k' state_closed m) (br_transisi b1) semua)\<rparr>)
                                else b1)
                      in (b2, s', None))"

section \<open>Lemmas\<close>

lemma state_from_lua_id: "st = state_closed \<or> st = state_open \<or> st = state_half_open \<Longrightarrow> state_from_lua st = st"
  by (auto simp: state_from_lua_def)

lemma state_from_lua_b [simp]: "state_from_lua (b_state h now) = b_state h now"
  using b_state_cases by (rule state_from_lua_id)

lemma ms_to_duration_nonneg: "ms_to_duration ms \<le> 0 \<or> 0 < ms_to_duration ms"
  by linarith

text \<open>What an entry of the memo may say, \<open>t\<close> being the latest clock reading.\<close>

definition entri_sah :: "waktu \<Rightarrow> memo_entry \<Rightarrow> bool" where
  "entri_sah t e \<longleftrightarrow>
     (me_state e = state_closed \<or> me_state e = state_open) \<and>
     (me_allow e \<longleftrightarrow> me_state e = state_closed) \<and> me_expires e \<le> t + memo_ttl"

definition memo_sah :: "breaker \<Rightarrow> waktu \<Rightarrow> bool" where
  "memo_sah b t \<longleftrightarrow>
     distinct (map fst (br_memo b)) \<and> length (br_memo b) \<le> memo_max_entries \<and>
     (\<forall>(k, e)\<in>set (br_memo b). entri_sah t e)"

lemma memo_expiry_le: "memo_expiry now r \<le> now + memo_ttl"
  by (simp add: memo_expiry_def)

lemma length_alist_update:
  "length (AList.update k v xs) = (if map_of xs k = None then Suc (length xs) else length xs)"
  by (induction xs) auto

lemma set_alist_update: "set (AList.update k v xs) \<subseteq> insert (k, v) (set xs)"
  by (induction xs) auto

lemma memo_put_sah:
  assumes "memo_sah b t" and "entri_sah t e"
  shows "memo_sah (memo_put k e b) t"
proof -
  let ?m = "if map_of (br_memo b) k = None \<and> memo_max_entries \<le> length (br_memo b) then [] else br_memo b"
  have "distinct (map fst ?m)" "\<forall>(k, e)\<in>set ?m. entri_sah t e" using assms(1) by (auto simp: memo_sah_def)
  moreover have "length (AList.update k e ?m) \<le> memo_max_entries"
    using assms(1) by (auto simp: length_alist_update memo_sah_def memo_max_entries_def)
  moreover have "set (AList.update k e ?m) \<subseteq> insert (k, e) (set ?m)" by (rule set_alist_update)
  ultimately show ?thesis
    using assms(2) unfolding memo_sah_def memo_put_def Let_def by (auto simp: distinct_update)
qed

lemma memo_drop_sah: "memo_sah b t \<Longrightarrow> memo_sah (memo_drop k b) t"
proof -
  assume b: "memo_sah b t"
  have "AList.delete k (br_memo b) = filter (\<lambda>(k', _). k \<noteq> k') (br_memo b)" by (simp add: AList.delete_eq)
  moreover have "length (filter (\<lambda>(k', _). k \<noteq> k') (br_memo b)) \<le> memo_max_entries"
    using b length_filter_le [of "\<lambda>(k', _). k \<noteq> k'" "br_memo b"] unfolding memo_sah_def by linarith
  ultimately show ?thesis
    using b by (auto simp: memo_sah_def memo_drop_def distinct_map_filter)
qed

lemma memo_drops_sah: "memo_sah b t \<Longrightarrow> memo_sah (foldl (\<lambda>b k. memo_drop k b) b ks) t"
  by (induction ks arbitrary: b) (auto simp: memo_drop_sah)

lemma br_memo_put [simp]:
  "br_transisi (memo_put k e b) = br_transisi b" "br_terkirim (memo_put k e b) = br_terkirim b"
  "br_listener (memo_put k e b) = br_listener b" "br_is_closed (memo_put k e b) = br_is_closed b"
  by (simp_all add: memo_put_def Let_def)

lemma br_memo_sampaikan [simp]:
  "br_memo (sampaikan_transisi k p m st tot f b) = br_memo b" "br_cfg (sampaikan_transisi k p m st tot f b) = br_cfg b"
  "br_ada_redis (sampaikan_transisi k p m st tot f b) = br_ada_redis b"
  by (simp_all add: sampaikan_transisi_def)

lemma memo_sah_cong: "memo_sah b t \<Longrightarrow> br_memo b' = br_memo b \<Longrightarrow> memo_sah b' t"
  by (simp add: memo_sah_def)

lemma memo_sah_other [simp]:
  "memo_sah (sampaikan_transisi k p m st tot f b) t = memo_sah b t" "memo_sah (b\<lparr>br_transisi := x\<rparr>) t = memo_sah b t"
  by (simp_all add: memo_sah_def)

lemma memo_sah_mono: "memo_sah b t \<Longrightarrow> t \<le> t' \<Longrightarrow> memo_sah b t'"
  by (fastforce simp: memo_sah_def entri_sah_def)

context redis_hash begin

lemma parse_allow_panggil:
  "\<exists>sisa. parse_allow (snd (panggil_allow R c ms k s)) =
     (fst (snd (b_allow ms (bc_half_open_probes c) (milliseconds (probe_wait c)) (isi R s k))),
      b_state (isi R s k) ms, sisa, snd (snd (b_allow ms (bc_half_open_probes c) (milliseconds (probe_wait c)) (isi R s k))))"
  by (simp add: panggil_allow_def allow_reply parse_allow_def)

lemma memo_sah_allow:
  assumes "memo_sah b now" and "allow_dengan R sidik jalan now p m cfg pm b s = (b', s', h)"
  shows "memo_sah b' now"
proof -
  let ?k = "kunci_untuk sidik (br_cfg b) p m cfg"
  let ?a = "b_allow (unix_milli now) (bc_half_open_probes cfg) (milliseconds (probe_wait cfg)) (isi R s ?k)"
  let ?st = "b_state (isi R s ?k) (unix_milli now)"
  obtain sisa where pa: "parse_allow (snd (panggil_allow R cfg (unix_milli now) ?k s)) = (fst (snd ?a), ?st, sisa, snd (snd ?a))"
    using parse_allow_panggil by blast
  obtain s1 res where call: "panggil_allow R cfg (unix_milli now) ?k s = (s1, res)" by (cases "panggil_allow R cfg (unix_milli now) ?k s") auto
  have "entri_sah now \<lparr>me_allow = fst (snd ?a), me_state = ?st, me_expires = memo_expiry now sisa\<rparr>" if "?st \<noteq> state_half_open"
    using that b_state_cases [of "isi R s ?k" "unix_milli now"] memo_expiry_le by (auto simp: entri_sah_def b_allow_def)
  then show ?thesis
    using assms pa call memo_put_sah
    by (auto simp: allow_dengan_def Let_def split: if_splits option.splits putaran.splits)
qed

lemma memo_sah_record:
  assumes "memo_sah b now" and "record_dengan R sidik jalan now p m sukses cfg pm probe token b s = (b', s', e)"
  shows "memo_sah b' now"
proof -
  let ?k = "kunci_untuk sidik (br_cfg b) p m cfg"
  obtain s1 res where call: "panggil_record R cfg (unix_milli now) sukses probe token ?k s = (s1, res)"
    by (cases "panggil_record R cfg (unix_milli now) sukses probe token ?k s") auto
  obtain st sisa tot f ch where pr: "parse_record res = (st, sisa, tot, f, ch)" by (cases "parse_record res") auto
  have st: "st = state_closed \<or> st = state_open \<or> st = state_half_open"
    using pr by (auto simp: parse_record_def state_from_lua_def split: if_splits)
  have "memo_sah (memo_put ?k \<lparr>me_allow = (st \<noteq> state_open), me_state = st, me_expires = memo_expiry now sisa\<rparr> b) now"
    if "st \<noteq> state_half_open"
    using that st memo_expiry_le by (intro memo_put_sah [OF assms(1)]) (auto simp: entri_sah_def)
  then show ?thesis
    using assms call pr
    by (auto simp: record_dengan_def Let_def split: if_splits putaran.splits intro: memo_sah_cong)
qed

lemma memo_sah_reset:
  assumes "memo_sah b now" and "reset_breaker R g now p m b s = (b', s', e)"
  shows "memo_sah b' now"
  using assms memo_drops_sah
  by (auto simp: reset_breaker_def Let_def memo_drop_sah split: if_splits option.splits)

end

section \<open>Runs of one instance\<close>

text \<open>
  Any sequence of the operations with a forward clock; the server state may change between them in
  any way, as other instances write to it.  \<open>ada_reset\<close> says whether resets occur.
\<close>

inductive client_run ::
    "'r redis \<Rightarrow> (breaker_config \<Rightarrow> string) \<Rightarrow> bool \<Rightarrow> breaker \<Rightarrow> 'r \<Rightarrow> waktu \<Rightarrow> bool"
  for R sidik ada_reset where
  lahir: "client_run R sidik ada_reset (new_breaker ada cfg) s t"
| tanya: "client_run R sidik ada_reset b s t \<Longrightarrow> t \<le> now \<Longrightarrow>
    allow_dengan R sidik jalan now p m cfg pm b s = (b', s', h) \<Longrightarrow> client_run R sidik ada_reset b' s' now"
| catat: "client_run R sidik ada_reset b s t \<Longrightarrow> t \<le> now \<Longrightarrow>
    record_dengan R sidik jalan now p m sukses cfg pm probe token b s = (b', s', e) \<Longrightarrow>
    client_run R sidik ada_reset b' s' now"
| reset: "client_run R sidik ada_reset b s t \<Longrightarrow> ada_reset \<Longrightarrow> t \<le> now \<Longrightarrow>
    reset_breaker R g now p m b s = (b', s', e) \<Longrightarrow> client_run R sidik ada_reset b' s' now"
| pasang: "client_run R sidik ada_reset b s t \<Longrightarrow> client_run R sidik ada_reset (set_state_change_listener ada b) s t"
| tutup: "client_run R sidik ada_reset b s t \<Longrightarrow> client_run R sidik ada_reset (close_breaker b) s t"
| server: "client_run R sidik ada_reset b s t \<Longrightarrow> client_run R sidik ada_reset b s' t"

lemma client_run_memo:
  assumes "redis_hash R" and "client_run R sidik ada_reset b s t"
  shows "memo_sah b t"
  using assms(2)
proof induction
  case (lahir ada cfg s t)
  then show ?case by (simp add: memo_sah_def new_breaker_def)
next
  case (tanya b s t now jalan p m cfg pm b' s' h)
  then show ?case using redis_hash.memo_sah_allow [OF assms(1)] memo_sah_mono by blast
next
  case (catat b s t now jalan p m sukses cfg pm probe token b' s' e)
  then show ?case using redis_hash.memo_sah_record [OF assms(1)] memo_sah_mono by blast
next
  case (reset b s t now g p m b' s' e)
  then show ?case using redis_hash.memo_sah_reset [OF assms(1)] memo_sah_mono by blast
qed (auto simp: set_state_change_listener_def close_breaker_def intro: memo_sah_cong)

text \<open>The listener's log agrees with what the breaker remembers having told it.\<close>

definition kabar :: "breaker \<Rightarrow> string \<Rightarrow> state list" where
  "kabar b k = map pi_state (filter (\<lambda>e. pi_kunci e = k) (br_terkirim b))"

definition kabar_sah :: "breaker \<Rightarrow> bool" where
  "kabar_sah b \<longleftrightarrow>
     (\<forall>k. map_of (br_transisi b) k = (case kabar b k of [] \<Rightarrow> None | st # _ \<Rightarrow> Some st) \<and> distinct_adj (kabar b k))"

lemma kabar_sah_cong:
  "kabar_sah b \<Longrightarrow> br_transisi b' = br_transisi b \<Longrightarrow> br_terkirim b' = br_terkirim b \<Longrightarrow> kabar_sah b'"
  by (simp add: kabar_sah_def kabar_def)

lemma kabar_sah_sampaikan:
  assumes "kabar_sah b"
  shows "kabar_sah (sampaikan_transisi k p m st tot f b)"
proof (cases "br_listener b \<and> \<not> br_is_closed b \<and> map_of (br_transisi b) k \<noteq> Some st")
  case False
  then show ?thesis using assms by (auto simp: sampaikan_transisi_def)
next
  case True
  let ?b = "sampaikan_transisi k p m st tot f b"
  have t: "map_of (br_transisi ?b) = (map_of (br_transisi b))(k \<mapsto> st)"
    using True by (simp add: sampaikan_transisi_def update_conv')
  have "kabar ?b k' = (if k' = k then st # kabar b k else kabar b k')" for k'
    using True by (simp add: sampaikan_transisi_def kabar_def)
  moreover have "distinct_adj (kabar b k)" "map_of (br_transisi b) k = (case kabar b k of [] \<Rightarrow> None | st # _ \<Rightarrow> Some st)"
    using assms unfolding kabar_sah_def by blast+
  then have "distinct_adj (st # kabar b k)"
    using True by (cases "kabar b k") auto
  ultimately show ?thesis
    using assms t by (auto simp: kabar_sah_def)
qed

lemma client_run_kabar:
  assumes "client_run R sidik False b s t"
  shows "kabar_sah b"
  using assms
proof (induction rule: client_run.induct)
  case (lahir ada cfg s t)
  then show ?case by (simp add: kabar_sah_def kabar_def new_breaker_def)
next
  case (tanya b s t now jalan p m cfg pm b' s' h)
  from tanya(3) have "br_transisi b' = br_transisi b \<and> br_terkirim b' = br_terkirim b"
    by (auto simp: allow_dengan_def Let_def split: if_splits option.splits putaran.splits prod.splits)
  with tanya show ?case by (auto intro: kabar_sah_cong)
next
  case (catat b s t now jalan p m sukses cfg pm probe token b' s' e)
  have "kabar_sah (memo_put k e b)" for k e using catat.IH by (auto intro: kabar_sah_cong)
  then show ?case
    using catat.IH catat.hyps(3) kabar_sah_sampaikan
    by (auto simp: record_dengan_def Let_def split: if_splits putaran.splits prod.splits)
qed (auto simp: set_state_change_listener_def close_breaker_def intro: kabar_sah_cong)

lemma allow_dengan_ditolak:
  assumes "redis_hash R" and "allow_dengan R sidik jalan now p m cfg pm b s = (b', s', h)" and "\<not> hi_izin h"
  shows "hi_err h = None \<and>
    ((\<exists>e. pm \<and> map_of (br_memo b) (kunci_untuk sidik (br_cfg b) p m cfg) = Some e \<and> now < me_expires e
        \<and> \<not> me_allow e \<and> hi_state h = me_state e) \<or>
     jalan = Berhasil \<and> hi_state h = b_state (isi R s (kunci_untuk sidik (br_cfg b) p m cfg)) (unix_milli now) \<and>
       \<not> fst (snd (b_allow (unix_milli now) (bc_half_open_probes cfg) (milliseconds (probe_wait cfg))
                  (isi R s (kunci_untuk sidik (br_cfg b) p m cfg)))))"
proof -
  let ?k = "kunci_untuk sidik (br_cfg b) p m cfg"
  obtain sisa where pa: "parse_allow (snd (panggil_allow R cfg (unix_milli now) ?k s)) =
      (fst (snd (b_allow (unix_milli now) (bc_half_open_probes cfg) (milliseconds (probe_wait cfg)) (isi R s ?k))),
       b_state (isi R s ?k) (unix_milli now), sisa,
       snd (snd (b_allow (unix_milli now) (bc_half_open_probes cfg) (milliseconds (probe_wait cfg)) (isi R s ?k))))"
    using redis_hash.parse_allow_panggil [OF assms(1)] by blast
  obtain s1 res where call: "panggil_allow R cfg (unix_milli now) ?k s = (s1, res)"
    by (cases "panggil_allow R cfg (unix_milli now) ?k s") auto
  show ?thesis
    using assms(2,3) pa call
    by (auto simp: allow_dengan_def memo_get_def Let_def split: if_splits option.splits putaran.splits)
qed

lemma b_allow_ditolak: "\<not> fst (snd (b_allow now quota wait h)) \<Longrightarrow> b_state h now \<noteq> state_closed"
  by (auto simp: b_allow_def)

context redis_hash begin

lemma isi_dels:
  "isi R (foldl (rd_del R) s ks) k' = (if k' \<in> set ks then Map.empty else isi R s k')"
  by (induction ks arbitrary: s) (auto simp: isi_del)

lemma reset_kosong:
  assumes "reset_breaker R g now p m b s = (b', s', None)" and "br_ada_redis b"
  shows "isi R s' (kunci_untuk sidik (br_cfg b') p m cfg) = Map.empty"
    and "memo_get (circuit_breaker_key p m) now' b' = None" and "br_cfg b' = br_cfg b" and "br_ada_redis b'"
proof -
  let ?k = "circuit_breaker_key p m"
  let ?semua = "?k # rd_scan R s (?k @ '':'')"
  let ?b1 = "foldl (\<lambda>b k'. memo_drop k' b) b ?semua"
  have s': "s' = foldl (rd_del R) s ?semua"
    using assms by (simp add: reset_breaker_def Let_def split: if_splits option.splits del: foldl_Cons)
  have b': "br_memo b' = br_memo ?b1 \<and> br_cfg b' = br_cfg ?b1 \<and> br_ada_redis b' = br_ada_redis ?b1"
    using assms by (auto simp: reset_breaker_def Let_def split: if_splits option.splits simp del: foldl_Cons)
  have drops: "br_cfg (foldl (\<lambda>b k'. memo_drop k' b) b ks) = br_cfg b \<and>
    br_ada_redis (foldl (\<lambda>b k'. memo_drop k' b) b ks) = br_ada_redis b" for ks b
    by (induction ks arbitrary: b) (auto simp: memo_drop_def)
  show cfg: "br_cfg b' = br_cfg b" and "br_ada_redis b'" using b' drops [of b ?semua] assms(2) by simp_all
  have memo: "map_of (br_memo (foldl (\<lambda>b k'. memo_drop k' b) b ks)) k = (if k \<in> set ks then None else map_of (br_memo b) k)" for ks b k
    by (induction ks arbitrary: b) (auto simp: memo_drop_def delete_conv')
  show "memo_get ?k now' b' = None"
    using b' memo [of b ?semua ?k] by (simp add: memo_get_def del: foldl_Cons)
  let ?kc = "kunci_untuk sidik (br_cfg b') p m cfg"
  have "?kc = ?k \<or> has_prefix ?kc (?k @ '':'')"
    by (auto simp: kunci_untuk_def Let_def has_prefix_iff)
  then have "?kc \<in> set ?semua \<or> isi R s ?kc = Map.empty"
    using scan_complete by auto
  then show "isi R s' ?kc = Map.empty" unfolding s' isi_dels by auto
qed

end

section \<open>Properties\<close>

text \<open> The in-memory decisions of an instance are harmless in every run: a half-open verdict is
  never kept (so a probe is never handed out twice), an entry refuses exactly for an open breaker,
  lives at most 200 ms, and the table stays within its bound.\<close>

theorem breaker_memo_sah:
  assumes "redis_hash R" and "client_run R sidik ada_reset b s t" and "(k, e) \<in> set (br_memo b)"
  shows "length (br_memo b) \<le> memo_max_entries \<and> me_state e \<noteq> state_half_open \<and>
    (me_allow e \<longleftrightarrow> me_state e \<noteq> state_open) \<and> me_expires e \<le> t + memo_ttl"
  using client_run_memo [OF assms(1,2)] assms(3) by (auto simp: memo_sah_def entri_sah_def)

definition contoh_breaker :: breaker where
  "contoh_breaker = fst (record_dengan mem_redis (\<lambda>_. []) Berhasil (1000 * milidetik) ''p'' ''m'' False contoh_config
     True False 0 (set_state_change_listener True (new_breaker True contoh_config)) [])"

definition contoh_server :: simpanan where
  "contoh_server = fst (snd (record_dengan mem_redis (\<lambda>_. []) Berhasil (1000 * milidetik) ''p'' ''m'' False contoh_config
     True False 0 (set_state_change_listener True (new_breaker True contoh_config)) []))"

lemma contoh_client_run: "client_run mem_redis (\<lambda>_. []) r contoh_breaker contoh_server (1000 * milidetik)"
proof -
  have "client_run mem_redis (\<lambda>_. []) r (set_state_change_listener True (new_breaker True contoh_config)) [] 0"
    by (intro client_run.pasang client_run.lahir)
  from client_run.catat [OF this, of "1000 * milidetik" Berhasil "''p''" "''m''" False contoh_config True False 0]
  show ?thesis unfolding contoh_breaker_def contoh_server_def by (metis order.refl prod.collapse zero_le_numeral mult_nonneg_nonneg)
qed

lemma contoh_memo:
  "br_memo contoh_breaker = [(''routex:cb:p:m'', \<lparr>me_allow = False, me_state = ''open'', me_expires = 1200 * milidetik\<rparr>)]"
  by code_simp

lemma breaker_memo_sah_witness: "me_expires \<lparr>me_allow = False, me_state = ''open'', me_expires = 1200 * milidetik\<rparr> \<le> 1000 * milidetik + memo_ttl"
  using breaker_memo_sah [OF mem.redis_hash_axioms contoh_client_run, of "''routex:cb:p:m''"] contoh_memo by force

text \<open>C6.  A request is refused only for cause: never when Redis cannot be reached, and otherwise
  only because the breaker is open or its probes are spent, as the server says now or said to this
  instance at most 200 ms before its last reading of the clock.\<close>

theorem breaker_refuses_for_cause:
  assumes R: "redis_hash R" and run: "client_run R sidik ada_reset b s t"
    and a: "allow_dengan R sidik jalan now p m cfg pm b s = (b', s', h)" and no: "\<not> hi_izin h"
  shows "hi_err h = None \<and> hi_state h \<noteq> state_closed \<and>
    (hi_state h = state_open \<and> now < t + memo_ttl \<or>
     jalan = Berhasil \<and>
       \<not> fst (snd (b_allow (unix_milli now) (bc_half_open_probes cfg) (milliseconds (probe_wait cfg))
                  (isi R s (kunci_untuk sidik (br_cfg b) p m cfg)))))"
proof -
  have memo: "me_state e = state_open \<and> me_expires e \<le> t + memo_ttl"
    if "map_of (br_memo b) k = Some e" "\<not> me_allow e" for k e
    using client_run_memo [OF R run] map_of_SomeD [OF that(1)] that(2) by (auto simp: memo_sah_def entri_sah_def)
  show ?thesis
    using allow_dengan_ditolak [OF R a no] memo b_allow_ditolak by fastforce
qed

lemma breaker_refuses_for_cause_witness:
  "hi_state (snd (snd (allow_dengan mem_redis (\<lambda>_. []) (Gagal ''timeout'' True) (1100 * milidetik) ''p'' ''m'' contoh_config
     True contoh_breaker contoh_server))) = state_open"
proof -
  let ?r = "allow_dengan mem_redis (\<lambda>_. []) (Gagal ''timeout'' True) (1100 * milidetik) ''p'' ''m'' contoh_config
     True contoh_breaker contoh_server"
  have r: "?r = (fst ?r, fst (snd ?r), snd (snd ?r))" by simp
  have "\<not> hi_izin (snd (snd ?r))" by code_simp
  from breaker_refuses_for_cause [OF mem.redis_hash_axioms contoh_client_run r this] show ?thesis by simp
qed

text \<open> Without resets the listener hears only real changes: for each breaker the states
  delivered to it never repeat, so every opening is followed by a closing before the next.\<close>

theorem breaker_listener_alternates:
  assumes "client_run R sidik False b s t"
  shows "distinct_adj (map pi_state (filter (\<lambda>e. pi_kunci e = k) (br_terkirim b)))"
  using client_run_kabar [OF assms] by (simp add: kabar_sah_def kabar_def)

lemma breaker_listener_alternates_witness:
  "br_terkirim contoh_breaker \<noteq> [] \<and>
   distinct_adj (map pi_state (filter (\<lambda>e. pi_kunci e = ''routex:cb:p:m'') (br_terkirim contoh_breaker)))"
proof
  show "br_terkirim contoh_breaker \<noteq> []" by code_simp
qed (rule breaker_listener_alternates [OF contoh_client_run])

text \<open> The operator's reset works: once it reports success, a request for the pair passes under
  the breaker's own configuration and under every rule's, at once and on this instance.\<close>

theorem breaker_reset_opens:
  assumes R: "redis_hash R" and r: "reset_breaker R g now p m b s = (b', s', None)" and ada: "br_ada_redis b"
    and pm: "pm \<Longrightarrow> cfg = br_cfg b"
  shows "hi_izin (snd (snd (allow_dengan R sidik jalan now' p m cfg pm b' s')))"
proof (rule ccontr)
  assume no: "\<not> ?thesis"
  let ?a = "allow_dengan R sidik jalan now' p m cfg pm b' s'"
  let ?k = "kunci_untuk sidik (br_cfg b') p m cfg"
  have a: "?a = (fst ?a, fst (snd ?a), snd (snd ?a))" by simp
  note k = redis_hash.reset_kosong [OF R r ada]
  have kosong: "isi R s' ?k = Map.empty" by (rule k(1))
  have "?k = circuit_breaker_key p m" if pm
    using pm [OF that] k(3) by (simp add: kunci_untuk_def)
  then have "memo_get ?k now' b' = None" if pm using k(2) that by metis
  then have "\<not> (\<exists>e. pm \<and> map_of (br_memo b') ?k = Some e \<and> now' < me_expires e \<and> \<not> me_allow e)"
    by (auto simp: memo_get_def split: option.splits if_splits)
  with allow_dengan_ditolak [OF R a no]
  have "\<not> fst (snd (b_allow (unix_milli now') (bc_half_open_probes cfg) (milliseconds (probe_wait cfg)) Map.empty))"
    unfolding kosong by blast
  then show False by (simp add: b_allow_def b_state_def)
qed

lemma breaker_reset_opens_witness:
  "hi_izin (snd (snd (allow_dengan mem_redis (\<lambda>_. []) Berhasil (1100 * milidetik) ''p'' ''m'' contoh_config True
     (fst (reset_breaker mem_redis tanpa_galat (1050 * milidetik) ''p'' ''m'' contoh_breaker contoh_server))
     (fst (snd (reset_breaker mem_redis tanpa_galat (1050 * milidetik) ''p'' ''m'' contoh_breaker contoh_server))))))"
proof -
  let ?r = "reset_breaker mem_redis tanpa_galat (1050 * milidetik) ''p'' ''m'' contoh_breaker contoh_server"
  have "snd (snd ?r) = None" by code_simp
  then have r: "?r = (fst ?r, fst (snd ?r), None)" by (metis prod.collapse)
  have "br_ada_redis contoh_breaker" "br_cfg contoh_breaker = contoh_config" by code_simp+
  then show ?thesis using breaker_reset_opens [OF mem.redis_hash_axioms r] by simp
qed

end
