(* ===== verification/Limiter.thy ===== *)
theory Limiter
  imports Cache_Keys Money
begin

text \<open>
  The request and token limiter, \<^verbatim>\<open>internal/apikey/limiter.go\<close>: limits per scope, the time windows and
  their Redis keys, the two Lua scripts over counters, and the decision made from their reply.
  Redis counters are a parameter with a contract (\<open>redis_counter\<close>); a stored value is an integer
  or a text that is none (\<open>Racun\<close>, what the scripts' pattern \<^verbatim>\<open>^-?%d+$\<close> rejects).  Metrics and logs
  are not modelled.
\<close>

section \<open>Redis counters\<close>

datatype isi_penghitung = Angka int | Racun string

record 'r counters =
  rk_get :: "'r \<Rightarrow> string \<Rightarrow> isi_penghitung option"
  rk_incrby :: "'r \<Rightarrow> string \<Rightarrow> int \<Rightarrow> 'r \<times> int"
  rk_pttl :: "'r \<Rightarrow> string \<Rightarrow> int"
  rk_pexpire :: "'r \<Rightarrow> string \<Rightarrow> int \<Rightarrow> 'r"
  rk_del :: "'r \<Rightarrow> string \<Rightarrow> 'r"

text \<open>What the scripts read from a key: no key and a poisoned key count as zero.\<close>

definition baca :: "'r counters \<Rightarrow> 'r \<Rightarrow> string \<Rightarrow> int" where
  "baca R s k = (case rk_get R s k of Some (Angka n) \<Rightarrow> n | _ \<Rightarrow> 0)"

definition beracun :: "'r counters \<Rightarrow> 'r \<Rightarrow> string \<Rightarrow> bool" where
  "beracun R s k = (case rk_get R s k of Some (Racun t) \<Rightarrow> True | _ \<Rightarrow> False)"

text \<open>
  \<^verbatim>\<open>INCRBY\<close> on an integer or absent key adds and answers the new value, and keeps the key's time to
  live; \<^verbatim>\<open>PEXPIRE\<close> with a positive time sets one and keeps the value; \<^verbatim>\<open>DEL\<close> removes the key; every
  command leaves other keys alone.
\<close>

locale redis_counter =
  fixes R :: "'r counters"
  assumes get_incrby: "\<not> beracun R s k \<Longrightarrow> rk_get R (fst (rk_incrby R s k d)) k' =
          (if k' = k then Some (Angka (baca R s k + d)) else rk_get R s k')"
    and incrby_reply: "\<not> beracun R s k \<Longrightarrow> snd (rk_incrby R s k d) = baca R s k + d"
    and get_pexpire: "0 < ms \<Longrightarrow> rk_get R (rk_pexpire R s k ms) k' = rk_get R s k'"
    and get_del: "rk_get R (rk_del R s k) k' = (if k' = k then None else rk_get R s k')"
    and pttl_pexpire: "0 < ms \<Longrightarrow> rk_get R s k \<noteq> None \<Longrightarrow> 0 \<le> rk_pttl R (rk_pexpire R s k ms) k"
    and pttl_other: "k' \<noteq> k \<Longrightarrow> rk_pttl R (rk_pexpire R s k ms) k' = rk_pttl R s k'"
      "k' \<noteq> k \<Longrightarrow> rk_pttl R (fst (rk_incrby R s k d)) k' = rk_pttl R s k'"

section \<open>Limits\<close>

record limits =
  li_rps :: int
  li_rpm :: int
  li_daily :: int
  li_monthly :: int

record token_limits =
  tl_tpm :: int
  tl_daily :: int
  tl_monthly :: int

definition limits_is_zero :: "limits \<Rightarrow> bool" where
  "limits_is_zero l \<longleftrightarrow> li_rps l \<le> 0 \<and> li_rpm l \<le> 0 \<and> li_daily l \<le> 0 \<and> li_monthly l \<le> 0"

definition limits_with_defaults :: "limits \<Rightarrow> limits \<Rightarrow> limits" where
  "limits_with_defaults l d = \<lparr>
     li_rps = (if li_rps l \<le> 0 then li_rps d else li_rps l),
     li_rpm = (if li_rpm l \<le> 0 then li_rpm d else li_rpm l),
     li_daily = (if li_daily l \<le> 0 then li_daily d else li_daily l),
     li_monthly = (if li_monthly l \<le> 0 then li_monthly d else li_monthly l)\<rparr>"

definition token_limits_is_zero :: "token_limits \<Rightarrow> bool" where
  "token_limits_is_zero l \<longleftrightarrow> tl_tpm l \<le> 0 \<and> tl_daily l \<le> 0 \<and> tl_monthly l \<le> 0"

definition token_limits_with_defaults :: "token_limits \<Rightarrow> token_limits \<Rightarrow> token_limits" where
  "token_limits_with_defaults l d = \<lparr>
     tl_tpm = (if tl_tpm l \<le> 0 then tl_tpm d else tl_tpm l),
     tl_daily = (if tl_daily l \<le> 0 then tl_daily d else tl_daily l),
     tl_monthly = (if tl_monthly l \<le> 0 then tl_monthly d else tl_monthly l)\<rparr>"

text \<open>The limit columns of an API key row.\<close>

record key_row =
  ky_id :: string
  ky_rate_limit_rps :: "int option"
  ky_rate_limit_rpm :: "int option"
  ky_rate_limit_tpm :: "int option"
  ky_daily_request_limit :: "int option"
  ky_monthly_request_limit :: "int option"
  ky_daily_token_limit :: "int option"
  ky_monthly_token_limit :: "int option"

definition deref_int :: "int option \<Rightarrow> int" where
  "deref_int v = (case v of None \<Rightarrow> 0 | Some n \<Rightarrow> n)"

definition limits_from_key :: "key_row option \<Rightarrow> limits" where
  "limits_from_key k =
     (case k of
        None \<Rightarrow> \<lparr>li_rps = 0, li_rpm = 0, li_daily = 0, li_monthly = 0\<rparr>
      | Some k \<Rightarrow> \<lparr>li_rps = deref_int (ky_rate_limit_rps k), li_rpm = deref_int (ky_rate_limit_rpm k),
                  li_daily = deref_int (ky_daily_request_limit k),
                  li_monthly = deref_int (ky_monthly_request_limit k)\<rparr>)"

definition token_limits_from_key :: "key_row option \<Rightarrow> token_limits" where
  "token_limits_from_key k =
     (case k of
        None \<Rightarrow> \<lparr>tl_tpm = 0, tl_daily = 0, tl_monthly = 0\<rparr>
      | Some k \<Rightarrow> \<lparr>tl_tpm = deref_int (ky_rate_limit_tpm k), tl_daily = deref_int (ky_daily_token_limit k),
                  tl_monthly = deref_int (ky_monthly_token_limit k)\<rparr>)"

section \<open>Windows\<close>

definition scope_api_key :: string where "scope_api_key = ''apikey''"
definition scope_ip :: string where "scope_ip = ''ip''"
definition scope_global :: string where "scope_global = ''global''"
definition scope_user :: string where "scope_user = ''user''"
definition scope_provider :: string where "scope_provider = ''provider''"
definition scope_model :: string where "scope_model = ''model''"
definition global_id :: string where "global_id = ''all''"

text \<open>Civil dates in UTC, for the day and month windows (\<^verbatim>\<open>time.Date\<close>, \<^verbatim>\<open>Year\<close>, \<^verbatim>\<open>Month\<close>, \<^verbatim>\<open>Day\<close>).\<close>

definition hari_dari_sipil :: "int \<Rightarrow> int \<Rightarrow> int \<Rightarrow> int" where
  "hari_dari_sipil y m d =
     (let y = (if m \<le> 2 then y - 1 else y);
          era = y div 400;
          yoe = y - era * 400;
          doy = (153 * (if 2 < m then m - 3 else m + 9) + 2) div 5 + d - 1;
          doe = yoe * 365 + yoe div 4 - yoe div 100 + doy
      in era * 146097 + doe - 719468)"

definition sipil_dari_hari :: "int \<Rightarrow> int \<times> int \<times> int" where
  "sipil_dari_hari z =
     (let z = z + 719468;
          era = z div 146097;
          doe = z - era * 146097;
          yoe = (doe - doe div 1460 + doe div 36524 - doe div 146096) div 365;
          doy = doe - (365 * yoe + yoe div 4 - yoe div 100);
          mp = (5 * doy + 2) div 153;
          d = doy - (153 * mp + 2) div 5 + 1;
          m = (if mp < 10 then mp + 3 else mp - 9);
          y = yoe + era * 400
      in (if m \<le> 2 then y + 1 else y, m, d))"

definition sehari :: durasi where "sehari = 86400 * detik"

definition show_pad :: "nat \<Rightarrow> int \<Rightarrow> string" where
  "show_pad w n = (if n < 0 then ''-'' @ pad_left w (show_nat (nat (- n))) else pad_left w (show_nat (nat n)))"

record window =
  wi_scope :: string
  wi_limit :: string
  wi_id :: string
  wi_bucket :: string
  wi_value :: int
  wi_reset_at :: waktu

definition second_window :: "waktu \<Rightarrow> string \<times> waktu" where
  "second_window now = (let n = now div detik in (show_pad 0 n, (n + 1) * detik))"

definition minute_window :: "waktu \<Rightarrow> string \<times> waktu" where
  "minute_window now = (let n = now div menit in (show_pad 0 n, (n + 1) * menit))"

definition day_window :: "waktu \<Rightarrow> string \<times> waktu" where
  "day_window now =
     (let h = now div sehari
      in case sipil_dari_hari h of
           (y, m, d) \<Rightarrow> (show_pad 4 y @ show_pad 2 m @ show_pad 2 d, (h + 1) * sehari))"

definition month_window :: "waktu \<Rightarrow> string \<times> waktu" where
  "month_window now =
     (case sipil_dari_hari (now div sehari) of
        (y, m, d) \<Rightarrow>
          (show_pad 4 y @ show_pad 2 m,
           (if m = 12 then hari_dari_sipil (y + 1) 1 1 else hari_dari_sipil y (m + 1) 1) * sehari))"

definition window_key :: "window \<Rightarrow> string" where
  "window_key w = rate_limit_key (wi_scope w) (wi_id w) (wi_limit w @ ''-'' @ wi_bucket w)"

definition jendela_baru :: "string \<Rightarrow> string \<Rightarrow> string \<Rightarrow> int \<Rightarrow> string \<times> waktu \<Rightarrow> window" where
  "jendela_baru scope limit i v br =
     \<lparr>wi_scope = scope, wi_limit = limit, wi_id = i, wi_bucket = fst br, wi_value = v, wi_reset_at = snd br\<rparr>"

text \<open>\<^verbatim>\<open>requestWindows\<close> and \<^verbatim>\<open>tokenWindows\<close>.\<close>

definition request_windows :: "string \<Rightarrow> string \<Rightarrow> limits \<Rightarrow> waktu \<Rightarrow> window list" where
  "request_windows scope i l now =
     (if i = [] \<or> limits_is_zero l then []
      else (if 0 < li_rps l then [jendela_baru scope ''rps'' i (li_rps l) (second_window now)] else []) @
           (if 0 < li_rpm l then [jendela_baru scope ''rpm'' i (li_rpm l) (minute_window now)] else []) @
           (if 0 < li_daily l then [jendela_baru scope ''daily'' i (li_daily l) (day_window now)] else []) @
           (if 0 < li_monthly l then [jendela_baru scope ''monthly'' i (li_monthly l) (month_window now)] else []))"

definition token_windows :: "string \<Rightarrow> string \<Rightarrow> token_limits \<Rightarrow> waktu \<Rightarrow> window list" where
  "token_windows scope i l now =
     (if i = [] \<or> token_limits_is_zero l then []
      else (if 0 < tl_tpm l then [jendela_baru scope ''tpm'' i (tl_tpm l) (minute_window now)] else []) @
           (if 0 < tl_daily l then [jendela_baru scope ''daily_tokens'' i (tl_daily l) (day_window now)] else []) @
           (if 0 < tl_monthly l then [jendela_baru scope ''monthly_tokens'' i (tl_monthly l) (month_window now)] else []))"

section \<open>Scripts\<close>

type_synonym kunci_batas = "string \<times> int \<times> int"

text \<open>Modes: 0 enforce, 1 record, 2 peek.  A key comes with its limit and its time to live.\<close>

fun fase_baca :: "'r counters \<Rightarrow> int \<Rightarrow> kunci_batas list \<Rightarrow> 'r \<Rightarrow> 'r \<times> int list" where
  "fase_baca R mode [] s = (s, [])"
| "fase_baca R mode ((k, lim, ttl) # ks) s =
     (let s1 = (if beracun R s k \<and> mode \<noteq> 2 then rk_del R s k else s);
          c = baca R s k
      in case fase_baca R mode ks s1 of (s2, cs) \<Rightarrow> (s2, c # cs))"

text \<open>The index, from 1, of the first position where the test holds; 0 for none.\<close>

fun pertama :: "(int \<Rightarrow> int \<Rightarrow> bool) \<Rightarrow> nat \<Rightarrow> kunci_batas list \<Rightarrow> int list \<Rightarrow> nat" where
  "pertama P i ((k, lim, ttl) # ks) (c # cs) = (if P c lim then i else pertama P (i + 1) ks cs)"
| "pertama P i _ _ = 0"

fun fase_naik :: "'r counters \<Rightarrow> int \<Rightarrow> kunci_batas list \<Rightarrow> 'r \<Rightarrow> 'r \<times> int list" where
  "fase_naik R cost [] s = (s, [])"
| "fase_naik R cost ((k, lim, ttl) # ks) s =
     (case rk_incrby R s k cost of
        (s1, c) \<Rightarrow>
          let s2 = (if c = cost \<or> rk_pttl R s1 k < 0 then rk_pexpire R s1 k ttl else s1)
          in case fase_naik R cost ks s2 of (s3, cs) \<Rightarrow> (s3, c # cs))"

text \<open>\<^verbatim>\<open>limiterScript\<close>: the new server state, the index of the exceeded limit and the counts.\<close>

definition limiter_script ::
    "'r counters \<Rightarrow> int \<Rightarrow> int \<Rightarrow> kunci_batas list \<Rightarrow> 'r \<Rightarrow> 'r \<times> nat \<times> int list" where
  "limiter_script R mode cost ks s =
     (case fase_baca R mode ks s of
        (s1, counts) \<Rightarrow>
          let exceeded = (if mode = 0 then pertama (\<lambda>c lim. lim < c + cost) 1 ks counts else 0)
          in case (if mode \<noteq> 2 \<and> exceeded = 0 then fase_naik R cost ks s1 else (s1, counts)) of
               (s2, counts) \<Rightarrow>
                 let exceeded = (if mode \<noteq> 0 then pertama (\<lambda>c lim. lim \<le> c) 1 ks counts else exceeded)
                 in (s2, exceeded, counts))"

text \<open>\<^verbatim>\<open>refundScript\<close>.\<close>

fun refund_script :: "'r counters \<Rightarrow> int \<Rightarrow> string list \<Rightarrow> 'r \<Rightarrow> 'r" where
  "refund_script R cost [] s = s"
| "refund_script R cost (k # ks) s =
     (let s1 = (if beracun R s k then rk_del R s k
                else if rk_get R s k \<noteq> None then
                  (case rk_incrby R s k (- cost) of
                     (s', sisa) \<Rightarrow> if sisa < 0 then fst (rk_incrby R s' k (- sisa)) else s')
                else s)
      in refund_script R cost ks s1)"

section \<open>Decisions\<close>

record keputusan =
  kp_allowed :: bool
  kp_degraded :: bool
  kp_scope :: string
  kp_limit :: string
  kp_limit_value :: int
  kp_remaining :: int
  kp_reset_at :: waktu
  kp_retry_after :: durasi

definition keputusan_boleh :: "bool \<Rightarrow> bool \<Rightarrow> keputusan" where
  "keputusan_boleh boleh degraded = \<lparr>kp_allowed = boleh, kp_degraded = degraded, kp_scope = [], kp_limit = [],
     kp_limit_value = 0, kp_remaining = 0, kp_reset_at = waktu_nol, kp_retry_after = 0\<rparr>"

text \<open>\<^verbatim>\<open>SetHeaders\<close>: limit, remaining and, if known, the reset in Unix seconds.\<close>

definition set_headers :: "keputusan \<Rightarrow> (int \<times> int \<times> int option) option" where
  "set_headers d =
     (if kp_limit_value d \<le> 0 then None
      else Some (kp_limit_value d, (if kp_remaining d < 0 then 0 else kp_remaining d),
                 (if kp_reset_at d \<noteq> waktu_nol then Some (kp_reset_at d div detik) else None)))"

definition ttl_millis :: "window \<Rightarrow> waktu \<Rightarrow> int" where
  "ttl_millis w now = (let ms = milliseconds (wi_reset_at w - now) in if ms < 1 then 1 else ms)"

text \<open>The reply of the script as Redis sends it, and \<^verbatim>\<open>parseScriptResult\<close>; \<^const>\<open>None\<close> is an unknown shape.\<close>

datatype nilai_redis = RInt int | RLain

fun semua_int :: "nilai_redis list \<Rightarrow> int list option" where
  "semua_int [] = Some []"
| "semua_int (RInt v # vs) = map_option (Cons v) (semua_int vs)"
| "semua_int (RLain # vs) = None"

definition parse_script_result :: "nilai_redis list \<Rightarrow> nat \<Rightarrow> (nat \<times> int list) option" where
  "parse_script_result res n =
     (if length res \<noteq> n + 1 then None
      else case hd res of
             RLain \<Rightarrow> None
           | RInt first \<Rightarrow>
               if first < 0 \<or> int n < first then None
               else map_option (\<lambda>cs. (nat first, cs)) (semua_int (tl res)))"

text \<open>The loop of \<^verbatim>\<open>decisionFrom\<close> over the windows: the least remaining, ties to the earlier reset.\<close>

fun paling_sempit :: "(window \<times> int) list \<Rightarrow> (window \<times> int) option \<Rightarrow> (window \<times> int) option" where
  "paling_sempit [] best = best"
| "paling_sempit ((w, c) # ws) best =
     (let remaining = (let r = wi_value w - c in if r < 0 then 0 else r)
      in case best of
           None \<Rightarrow> paling_sempit ws (Some (w, remaining))
         | Some (bw, br) \<Rightarrow>
             if remaining < br \<or> (remaining = br \<and> wi_reset_at w < wi_reset_at bw)
             then paling_sempit ws (Some (w, remaining))
             else paling_sempit ws best)"

definition decision_from :: "window list \<Rightarrow> int list \<Rightarrow> nat \<Rightarrow> waktu \<Rightarrow> keputusan" where
  "decision_from windows counts exceeded now =
     (if 0 < exceeded then
        let w = windows ! (exceeded - 1);
            retry = (let r = wi_reset_at w - now in if r < 0 then 0 else r)
        in \<lparr>kp_allowed = False, kp_degraded = False, kp_scope = wi_scope w, kp_limit = wi_limit w,
            kp_limit_value = wi_value w, kp_remaining = 0, kp_reset_at = wi_reset_at w, kp_retry_after = retry\<rparr>
      else case paling_sempit (zip windows counts) None of
             None \<Rightarrow> keputusan_boleh True False
           | Some (w, r) \<Rightarrow>
               \<lparr>kp_allowed = True, kp_degraded = False, kp_scope = wi_scope w, kp_limit = wi_limit w,
                kp_limit_value = wi_value w, kp_remaining = r, kp_reset_at = wi_reset_at w, kp_retry_after = 0\<rparr>)"

section \<open>The limiter\<close>

record scope_limits =
  sc_scope :: string
  sc_id :: string
  sc_limits :: limits

record scope_token_limits =
  st_scope :: string
  st_id :: string
  st_limits :: token_limits

text \<open>An IP address is its text, \<^const>\<open>None\<close> when not valid; the principal is its API key row.\<close>

record limiter =
  lm_ada_redis :: bool
  lm_fail_closed :: bool
  lm_key_defaults :: limits
  lm_ip_limits :: limits
  lm_resolver :: "(key_row \<Rightarrow> string option \<Rightarrow> scope_limits list) option"

text \<open>One script call: it succeeds, or fails before or after it ran on the server.\<close>

datatype panggilan = SkripBerhasil | SkripGagal bool

definition fail_open_decision :: "limiter \<Rightarrow> keputusan" where
  "fail_open_decision l =
     (if lm_fail_closed l
      then (keputusan_boleh False True)\<lparr>kp_scope := ''infrastruktur'', kp_limit := ''redis-tidak-tersedia''\<rparr>
      else keputusan_boleh True True)"

text \<open>\<^verbatim>\<open>run\<close>.\<close>

definition run_limiter ::
    "'r counters \<Rightarrow> panggilan \<Rightarrow> limiter \<Rightarrow> int \<Rightarrow> int \<Rightarrow> window list \<Rightarrow> waktu \<Rightarrow> 'r \<Rightarrow> 'r \<times> keputusan" where
  "run_limiter R p l mode cost windows now s =
     (if windows = [] then (s, keputusan_boleh True False)
      else case limiter_script R mode cost (map (\<lambda>w. (window_key w, wi_value w, ttl_millis w now)) windows) s of
             (s', exceeded, counts) \<Rightarrow>
               (case p of
                  SkripGagal sudah \<Rightarrow> (if sudah then s' else s, fail_open_decision l)
                | SkripBerhasil \<Rightarrow>
                    (s', case parse_script_result (RInt (int exceeded) # map RInt counts) (length windows) of
                           None \<Rightarrow> fail_open_decision l
                         | Some (e, cs) \<Rightarrow> decision_from windows cs e now)))"

definition allow_scopes_at ::
    "'r counters \<Rightarrow> panggilan \<Rightarrow> limiter \<Rightarrow> scope_limits list \<Rightarrow> waktu \<Rightarrow> 'r \<Rightarrow> 'r \<times> keputusan" where
  "allow_scopes_at R p l scopes now s =
     (if \<not> lm_ada_redis l then (s, keputusan_boleh True False)
      else run_limiter R p l 0 1
             (concat (map (\<lambda>c. request_windows (sc_scope c) (sc_id c) (sc_limits c) now) scopes)) now s)"

definition scope_bawaan :: "limiter \<Rightarrow> string \<Rightarrow> limits \<Rightarrow> string option \<Rightarrow> scope_limits list" where
  "scope_bawaan l key_id limits ip =
     \<lparr>sc_scope = scope_api_key, sc_id = key_id, sc_limits = limits_with_defaults limits (lm_key_defaults l)\<rparr> #
     (case ip of None \<Rightarrow> [] | Some a \<Rightarrow> [\<lparr>sc_scope = scope_ip, sc_id = a, sc_limits = lm_ip_limits l\<rparr>])"

definition allow_at ::
    "'r counters \<Rightarrow> panggilan \<Rightarrow> limiter \<Rightarrow> string \<Rightarrow> limits \<Rightarrow> string option \<Rightarrow> waktu \<Rightarrow> 'r \<Rightarrow> 'r \<times> keputusan" where
  "allow_at R p l key_id limits ip now s =
     allow_scopes_at R p l (scope_bawaan l key_id limits ip) now s"

definition token_windows_for :: "scope_token_limits list \<Rightarrow> waktu \<Rightarrow> window list" where
  "token_windows_for scopes now = concat (map (\<lambda>c. token_windows (st_scope c) (st_id c) (st_limits c) now) scopes)"

definition tokens_exceeded_scopes ::
    "'r counters \<Rightarrow> panggilan \<Rightarrow> limiter \<Rightarrow> scope_token_limits list \<Rightarrow> waktu \<Rightarrow> 'r \<Rightarrow> 'r \<times> keputusan" where
  "tokens_exceeded_scopes R p l scopes now s =
     (if \<not> lm_ada_redis l then (s, keputusan_boleh True False)
      else run_limiter R p l 2 0 (token_windows_for scopes now) now s)"

definition record_tokens_scopes ::
    "'r counters \<Rightarrow> panggilan \<Rightarrow> limiter \<Rightarrow> scope_token_limits list \<Rightarrow> int \<Rightarrow> waktu \<Rightarrow> 'r \<Rightarrow> 'r \<times> keputusan" where
  "record_tokens_scopes R p l scopes tokens now s =
     (if \<not> lm_ada_redis l then (s, keputusan_boleh True False)
      else if tokens \<le> 0 then tokens_exceeded_scopes R p l scopes now s
      else run_limiter R p l 1 tokens (token_windows_for scopes now) now s)"

text \<open>\<^verbatim>\<open>RefundScopesAt\<close>: the windows of the moment the request was counted.\<close>

definition refund_scopes_at ::
    "'r counters \<Rightarrow> panggilan \<Rightarrow> limiter \<Rightarrow> scope_limits list \<Rightarrow> waktu \<Rightarrow> 'r \<Rightarrow> 'r" where
  "refund_scopes_at R p l scopes now s =
     (let windows = concat (map (\<lambda>c. request_windows (sc_scope c) (sc_id c) (sc_limits c) now) scopes)
      in if \<not> lm_ada_redis l \<or> scopes = [] \<or> windows = [] then s
         else case p of
                SkripGagal False \<Rightarrow> s
              | _ \<Rightarrow> refund_script R 1 (map window_key windows) s)"

definition refund_request ::
    "'r counters \<Rightarrow> panggilan \<Rightarrow> limiter \<Rightarrow> key_row option \<Rightarrow> string option \<Rightarrow> waktu option \<Rightarrow> waktu \<Rightarrow> 'r \<Rightarrow> 'r" where
  "refund_request R p l prinsipal ip jangkar now s =
     (case prinsipal of
        None \<Rightarrow> s
      | Some ky \<Rightarrow>
          let scopes = (case lm_resolver l of
                          Some f \<Rightarrow> f ky ip
                        | None \<Rightarrow> scope_bawaan l (ky_id ky) (limits_from_key (Some ky)) ip)
          in refund_scopes_at R p l scopes (case jangkar of Some t \<Rightarrow> t | None \<Rightarrow> now) s)"

text \<open>\<^verbatim>\<open>Limit\<close>: the request goes on with the time anchor in its context, or is answered here.\<close>

datatype hasil_limit = Lanjutkan waktu keputusan | Ditolak401 | Ditolak429 keputusan

definition limit_middleware ::
    "'r counters \<Rightarrow> panggilan \<Rightarrow> limiter \<Rightarrow> key_row option \<Rightarrow> string option \<Rightarrow> waktu \<Rightarrow> 'r \<Rightarrow> 'r \<times> hasil_limit" where
  "limit_middleware R p l prinsipal ip now s =
     (case prinsipal of
        None \<Rightarrow> (s, Ditolak401)
      | Some ky \<Rightarrow>
          (case (case lm_resolver l of
                   Some f \<Rightarrow> allow_scopes_at R p l (f ky ip) now s
                 | None \<Rightarrow> allow_at R p l (ky_id ky) (limits_from_key (Some ky)) ip now s) of
             (s', d) \<Rightarrow> (s', if \<not> kp_allowed d then Ditolak429 d else Lanjutkan now d)))"

section \<open>Lemmas\<close>

lemma semua_int_map [simp]: "semua_int (map RInt cs) = Some cs"
  by (induction cs) auto

lemma parse_ok: "e \<le> n \<Longrightarrow> length cs = n \<Longrightarrow> parse_script_result (RInt (int e) # map RInt cs) n = Some (e, cs)"
  by (simp add: parse_script_result_def)

lemma pertama_bounds: "pertama P i ks cs \<noteq> 0 \<Longrightarrow> 0 < i \<Longrightarrow> i \<le> pertama P i ks cs \<and> pertama P i ks cs < i + length ks"
  by (induction P i ks cs rule: pertama.induct) (auto split: if_splits)

lemma pertama_0:
  "0 < i \<Longrightarrow> length ks = length cs \<Longrightarrow>
   pertama P i ks cs = 0 \<longleftrightarrow> (\<forall>j<length ks. \<not> P (cs ! j) (fst (snd (ks ! j))))"
proof (induction P i ks cs rule: pertama.induct)
  case (1 P i k lim ttl ks c cs)
  then show ?case by (auto simp: less_Suc_eq_0_disj)
qed auto

lemma pertama_pos:
  "0 < i \<Longrightarrow> length ks = length cs \<Longrightarrow> pertama P i ks cs \<noteq> 0 \<Longrightarrow>
   P (cs ! (pertama P i ks cs - i)) (fst (snd (ks ! (pertama P i ks cs - i)))) \<and>
   (\<forall>j<pertama P i ks cs - i. \<not> P (cs ! j) (fst (snd (ks ! j))))"
proof (induction P i ks cs rule: pertama.induct)
  case (1 P i k lim ttl ks c cs)
  show ?case
  proof (cases "P c lim")
    case False
    then have eq: "pertama P i ((k, lim, ttl) # ks) (c # cs) = pertama P (i + 1) ks cs" by simp
    with 1 have ne: "pertama P (i + 1) ks cs \<noteq> 0" by simp
    define d where "d = pertama P (i + 1) ks cs - (i + 1)"
    from ne False 1 have IH: "P (cs ! d) (fst (snd (ks ! d)))" "\<forall>j<d. \<not> P (cs ! j) (fst (snd (ks ! j)))"
      unfolding d_def by auto
    have "i + 1 \<le> pertama P (i + 1) ks cs" using pertama_bounds [OF ne] by simp
    then have shift: "pertama P (i + 1) ks cs - i = Suc d" by (simp add: d_def)
    show ?thesis unfolding eq shift using IH False by (auto simp: less_Suc_eq_0_disj)
  qed auto
qed auto

text \<open>The windows of a list of scopes, and when their keys cannot collide.\<close>

definition jendela_cakupan :: "scope_limits list \<Rightarrow> waktu \<Rightarrow> window list" where
  "jendela_cakupan scopes now = concat (map (\<lambda>c. request_windows (sc_scope c) (sc_id c) (sc_limits c) now) scopes)"

definition rapi :: "string \<Rightarrow> bool" where "rapi p \<longleftrightarrow> trim_space p = p \<and> p \<noteq> []"

definition cakupan_sah :: "scope_limits list \<Rightarrow> bool" where
  "cakupan_sah scopes \<longleftrightarrow> distinct (map (\<lambda>c. (sc_scope c, sc_id c)) scopes) \<and>
     (\<forall>c\<in>set scopes. rapi (sc_scope c) \<and> (sc_id c = [] \<or> rapi (sc_id c)))"

lemma trim_space_plain:
  assumes "list_all (\<lambda>c. \<not> is_space c) s" shows "trim_space s = s"
proof -
  have drop: "dropWhile is_space t = t" if "list_all (\<lambda>c. \<not> is_space c) t" for t
    using that by (cases t) auto
  have "list_all (\<lambda>c. \<not> is_space c) (rev s)" using assms by (simp add: list_all_iff)
  then show ?thesis using drop assms by (simp add: trim_space_def)
qed

lemma show_pad_plain: "list_all (\<lambda>c. \<not> is_space c) (show_pad w n)"
proof -
  have "list_all (\<lambda>c. \<not> is_space c) (show_nat n)" for n
    using show_nat_digits digit_facts(4) by (auto simp: list_all_iff)
  moreover have "\<not> is_space (CHR ''0'')" "\<not> is_space (CHR ''-'')" by (simp_all add: is_space_def)
  ultimately show ?thesis by (auto simp: show_pad_def pad_left_def list_all_iff)
qed

lemma bucket_plain:
  "list_all (\<lambda>c. \<not> is_space c) (fst (second_window now))" "list_all (\<lambda>c. \<not> is_space c) (fst (minute_window now))"
  "list_all (\<lambda>c. \<not> is_space c) (fst (day_window now))" "list_all (\<lambda>c. \<not> is_space c) (fst (month_window now))"
  using show_pad_plain
  by (auto simp: second_window_def minute_window_def day_window_def month_window_def Let_def split: prod.split)

lemma window_key_bagian:
  assumes "rapi sc" "rapi i" "list_all (\<lambda>c. \<not> is_space c) (lim @ ''-'' @ b)"
  shows "bagian [namespace_rate_limit, sc, i, lim @ ''-'' @ b] = [namespace_rate_limit, sc, i, lim @ ''-'' @ b]"
proof -
  have "trim_space namespace_rate_limit = namespace_rate_limit" by code_simp
  then show ?thesis using assms trim_space_plain [OF assms(3)] by (simp add: rapi_def namespace_rate_limit_def)
qed

definition jendela_rapi :: "window \<Rightarrow> bool" where
  "jendela_rapi w \<longleftrightarrow> rapi (wi_scope w) \<and> rapi (wi_id w) \<and> list_all (\<lambda>c. \<not> is_space c) (wi_limit w @ ''-'' @ wi_bucket w)"

lemma window_key_eq:
  "jendela_rapi w \<Longrightarrow> jendela_rapi v \<Longrightarrow> window_key w = window_key v \<longleftrightarrow>
     wi_scope w = wi_scope v \<and> wi_id w = wi_id v \<and> wi_limit w @ ''-'' @ wi_bucket w = wi_limit v @ ''-'' @ wi_bucket v"
  using window_key_bagian [of "wi_scope w" "wi_id w" "wi_limit w" "wi_bucket w"]
    window_key_bagian [of "wi_scope v" "wi_id v" "wi_limit v" "wi_bucket v"]
  unfolding window_key_def rate_limit_key_def key_eq_iff jendela_rapi_def by auto

lemma request_windows_scope: "w \<in> set (request_windows sc i l now) \<Longrightarrow> wi_scope w = sc \<and> wi_id w = i"
  by (auto simp: request_windows_def jendela_baru_def split: if_splits)

lemma request_windows_rapi:
  "rapi sc \<Longrightarrow> i = [] \<or> rapi i \<Longrightarrow> w \<in> set (request_windows sc i l now) \<Longrightarrow> jendela_rapi w"
  using bucket_plain
  by (auto simp: request_windows_def jendela_baru_def jendela_rapi_def is_space_def split: if_splits)

lemma request_windows_distinct:
  assumes "rapi sc" "i = [] \<or> rapi i"
  shows "distinct (map window_key (request_windows sc i l now))"
proof -
  have "distinct (map (\<lambda>w. wi_limit w @ ''-'' @ wi_bucket w) (request_windows sc i l now))"
    by (simp add: request_windows_def jendela_baru_def)
  then have "distinct (request_windows sc i l now)" and
    "inj_on (\<lambda>w. wi_limit w @ ''-'' @ wi_bucket w) (set (request_windows sc i l now))"
    by (simp_all add: distinct_map)
  then show ?thesis
    using window_key_eq request_windows_rapi [OF assms] by (auto simp: distinct_map inj_on_def)
qed

lemma window_keys_distinct: "cakupan_sah scopes \<Longrightarrow> distinct (map window_key (jendela_cakupan scopes now))"
proof (induction scopes)
  case Nil
  then show ?case by (simp add: jendela_cakupan_def)
next
  case (Cons c cs)
  have sah: "cakupan_sah cs" "rapi (sc_scope c)" "sc_id c = [] \<or> rapi (sc_id c)" using Cons.prems by (auto simp: cakupan_sah_def)
  have "window_key w \<noteq> window_key v"
    if w: "w \<in> set (request_windows (sc_scope c) (sc_id c) (sc_limits c) now)" and v: "v \<in> set (jendela_cakupan cs now)" for w v
  proof -
    obtain c' where c': "c' \<in> set cs" "v \<in> set (request_windows (sc_scope c') (sc_id c') (sc_limits c') now)"
      using v by (auto simp: jendela_cakupan_def)
    have "(sc_scope c, sc_id c) \<noteq> (sc_scope c', sc_id c')" using Cons.prems c'(1) by (force simp: cakupan_sah_def)
    moreover have "jendela_rapi w" by (rule request_windows_rapi [OF sah(2,3) w])
    moreover have "jendela_rapi v"
      by (rule request_windows_rapi [OF _ _ c'(2)]) (use sah(1) c'(1) in \<open>auto simp: cakupan_sah_def\<close>)
    ultimately show ?thesis using request_windows_scope [OF w] request_windows_scope [OF c'(2)] window_key_eq by auto
  qed
  then have "window_key ` set (request_windows (sc_scope c) (sc_id c) (sc_limits c) now) \<inter>
             window_key ` set (jendela_cakupan cs now) = {}" by blast
  moreover have "jendela_cakupan (c # cs) now = request_windows (sc_scope c) (sc_id c) (sc_limits c) now @ jendela_cakupan cs now"
    by (simp add: jendela_cakupan_def)
  ultimately show ?case using Cons.IH [OF sah(1)] request_windows_distinct [OF sah(2,3)] by simp
qed

lemma ttl_millis_pos: "0 < ttl_millis w now"
  by (simp add: ttl_millis_def Let_def)

context redis_counter begin

lemma baca_del: "baca R (rk_del R s k) k' = (if k' = k then 0 else baca R s k')"
  by (simp add: baca_def get_del)

lemma beracun_del: "beracun R (rk_del R s k) k' = (k' \<noteq> k \<and> beracun R s k')"
  by (simp add: beracun_def get_del)

lemma baca_beracun: "beracun R s k \<Longrightarrow> baca R s k = 0"
  by (auto simp: baca_def beracun_def split: option.splits isi_penghitung.splits)

lemma fase_baca_spec:
  "fase_baca R mode ks s = (s1, cs) \<Longrightarrow>
     cs = map (\<lambda>(k, _). baca R s k) ks \<and> (\<forall>k. baca R s1 k = baca R s k) \<and>
     (\<forall>k. mode \<noteq> 2 \<longrightarrow> k \<in> fst ` set ks \<longrightarrow> \<not> beracun R s1 k) \<and> (\<forall>k. k \<notin> fst ` set ks \<longrightarrow> rk_get R s1 k = rk_get R s k) \<and>
     (\<forall>k. beracun R s1 k \<longrightarrow> beracun R s k)"
proof (induction ks arbitrary: s s1 cs)
  case Nil
  then show ?case by simp
next
  case (Cons x ks)
  obtain k lim ttl where x: "x = (k, lim, ttl)" by (cases x) auto
  define sa where "sa = (if beracun R s k \<and> mode \<noteq> 2 then rk_del R s k else s)"
  obtain s2 cs2 where rec: "fase_baca R mode ks sa = (s2, cs2)" by (cases "fase_baca R mode ks sa") auto
  have eq: "s1 = s2" "cs = baca R s k # cs2" using Cons.prems rec by (simp_all add: x sa_def [symmetric] Let_def)
  have sa: "baca R sa k' = baca R s k'" for k'
    by (auto simp: sa_def baca_del baca_beracun)
  have sa': "mode \<noteq> 2 \<Longrightarrow> \<not> beracun R sa k" "k' \<noteq> k \<Longrightarrow> rk_get R sa k' = rk_get R s k'" "beracun R sa k' \<Longrightarrow> beracun R s k'" for k'
    by (auto simp: sa_def beracun_del get_del split: if_splits)
  show ?case using Cons.IH [OF rec] sa sa' by (auto simp: eq x)
qed

lemma baca_incr: "\<not> beracun R s k \<Longrightarrow> baca R (fst (rk_incrby R s k d)) k' = (if k' = k then baca R s k + d else baca R s k')"
  by (simp add: baca_def get_incrby)

lemma beracun_incr: "\<not> beracun R s k \<Longrightarrow> beracun R (fst (rk_incrby R s k d)) k' = (k' \<noteq> k \<and> beracun R s k')"
  by (simp add: beracun_def get_incrby)

lemma fase_naik_spec:
  assumes "fase_naik R cost ks s = (s1, cs)" and "distinct (map fst ks)"
    and "\<forall>(k, _, ttl)\<in>set ks. \<not> beracun R s k \<and> 0 < ttl"
  shows "cs = map (\<lambda>(k, _). baca R s k + cost) ks \<and>
     (\<forall>k. rk_get R s1 k = (if k \<in> fst ` set ks then Some (Angka (baca R s k + cost)) else rk_get R s k)) \<and>
     (\<forall>k\<in>fst ` set ks. 0 \<le> rk_pttl R s1 k) \<and> (\<forall>k. k \<notin> fst ` set ks \<longrightarrow> rk_pttl R s1 k = rk_pttl R s k)"
  using assms
proof (induction ks arbitrary: s s1 cs)
  case Nil
  then show ?case by simp
next
  case (Cons x ks)
  obtain k lim ttl where x: "x = (k, lim, ttl)" by (cases x) auto
  from Cons.prems(3) x have nb: "\<not> beracun R s k" and ttl: "0 < ttl" by auto
  obtain sa c where inc: "rk_incrby R s k cost = (sa, c)" by (cases "rk_incrby R s k cost") auto
  define sb where "sb = (if c = cost \<or> rk_pttl R sa k < 0 then rk_pexpire R sa k ttl else sa)"
  obtain s2 cs2 where rec: "fase_naik R cost ks sb = (s2, cs2)" by (cases "fase_naik R cost ks sb") auto
  have eq: "s1 = s2" "cs = c # cs2" using Cons.prems(1) inc rec by (simp_all add: x sb_def [symmetric] Let_def)
  have c: "c = baca R s k + cost" using incrby_reply [OF nb, of cost] inc by simp
  have sa: "rk_get R sa k' = (if k' = k then Some (Angka (baca R s k + cost)) else rk_get R s k')" for k'
    using get_incrby [OF nb, of cost k'] inc by simp
  have sb: "rk_get R sb k' = rk_get R sa k'" for k' by (simp add: sb_def get_pexpire [OF ttl])
  have pt: "0 \<le> rk_pttl R sb k" using pttl_pexpire [OF ttl, of sa k] sa [of k] by (auto simp: sb_def)
  have pto: "rk_pttl R sb k' = rk_pttl R s k'" if "k' \<noteq> k" for k'
    using pttl_other [OF that] inc by (auto simp: sb_def) (metis fst_conv)+
  have kn: "k \<notin> fst ` set ks" using Cons.prems(2) by (simp add: x)
  have "\<forall>(k', _, ttl)\<in>set ks. \<not> beracun R sb k' \<and> 0 < ttl"
  proof
    fix y assume y: "y \<in> set ks"
    obtain k' lim' ttl' where y': "y = (k', lim', ttl')" by (cases y) auto
    with y kn have "k' \<noteq> k" by force
    with sa sb have "beracun R sb k' = beracun R s k'" by (simp add: beracun_def)
    moreover have "\<not> beracun R s k' \<and> 0 < ttl'" using Cons.prems(3) y y' by auto
    ultimately show "case y of (k', _, ttl) \<Rightarrow> \<not> beracun R sb k' \<and> 0 < ttl" by (simp add: y')
  qed
  note IH = Cons.IH [OF rec _ this]
  have bs: "baca R sb k' = baca R s k'" if "k' \<noteq> k" for k' using that sa sb by (simp add: baca_def)
  have ne: "k' \<noteq> k" if "k' \<in> fst ` set ks" for k' using that kn by auto
  have d: "distinct (map fst ks)" using Cons.prems(2) by (simp add: x)
  have map: "map (\<lambda>(k, _). baca R sb k + cost) ks = map (\<lambda>(k, _). baca R s k + cost) ks"
  proof (intro map_cong refl)
    fix y assume "y \<in> set ks"
    then have "fst y \<noteq> k" using ne by blast
    then show "(case y of (k, _) \<Rightarrow> baca R sb k + cost) = (case y of (k, _) \<Rightarrow> baca R s k + cost)"
      using bs by (cases y) simp
  qed
  have "cs = map (\<lambda>(k, _). baca R s k + cost) (x # ks)"
    using conjunct1 [OF IH [OF d]] map by (simp add: eq x c)
  moreover have "rk_get R s1 k' = (if k' \<in> fst ` set (x # ks) then Some (Angka (baca R s k' + cost)) else rk_get R s k')" for k'
  proof -
    have *: "rk_get R s1 k' = (if k' \<in> fst ` set ks then Some (Angka (baca R sb k' + cost)) else rk_get R sb k')"
      using IH [OF d] unfolding eq by blast
    show ?thesis
    proof (cases "k' \<in> fst ` set ks")
      case True
      with * bs [OF ne [OF True]] show ?thesis by (simp add: x)
    next
      case False
      with * show ?thesis by (simp add: x sb sa)
    qed
  qed
  moreover have "0 \<le> rk_pttl R s1 k'" if "k' \<in> fst ` set (x # ks)" for k'
  proof (cases "k' = k")
    case True
    with IH [OF d] kn pt show ?thesis by (simp add: eq)
  next
    case False
    with that have "k' \<in> fst ` set ks" by (simp add: x)
    then show ?thesis using IH [OF d] unfolding eq by blast
  qed
  moreover have "rk_pttl R s1 k' = rk_pttl R s k'" if "k' \<notin> fst ` set (x # ks)" for k'
    using that IH [OF d] pto [of k'] by (simp add: eq x)
  ultimately show ?case by blast
qed

text \<open>The enforcing script, as a whole.\<close>

lemma limiter_enforce_spec:
  assumes "limiter_script R 0 cost ks s = (s', e, cs)" and "distinct (map fst ks)"
    and "\<forall>(k, _, ttl)\<in>set ks. 0 < ttl"
  shows "e \<le> length ks" and "length cs = length ks"
    and "e = 0 \<longleftrightarrow> (\<forall>(k, lim, _)\<in>set ks. baca R s k + cost \<le> lim)"
    and "e = 0 \<Longrightarrow> baca R s' k = (if k \<in> fst ` set ks then baca R s k + cost else baca R s k)"
    and "e \<noteq> 0 \<Longrightarrow> baca R s' k = baca R s k"
    and "e \<noteq> 0 \<Longrightarrow> fst (snd (ks ! (e - 1))) < baca R s (fst (ks ! (e - 1))) + cost \<and>
      (\<forall>j<e - 1. baca R s (fst (ks ! j)) + cost \<le> fst (snd (ks ! j)))"
    and "e = 0 \<Longrightarrow> cs = map (\<lambda>(k, _). baca R s k + cost) ks"
    and "k \<notin> fst ` set ks \<Longrightarrow> rk_get R s' k = rk_get R s k"
    and "e = 0 \<Longrightarrow> k \<in> fst ` set ks \<Longrightarrow> 0 \<le> rk_pttl R s' k"
proof -
  obtain s1 c0 where b: "fase_baca R 0 ks s = (s1, c0)" by (cases "fase_baca R 0 ks s") auto
  note B = fase_baca_spec [OF b]
  define e0 where "e0 = pertama (\<lambda>c lim. lim < c + cost) 1 ks c0"
  obtain s2 c2 where n: "fase_naik R cost ks s1 = (s2, c2)" by (cases "fase_naik R cost ks s1") auto
  have res: "e = e0" "s' = (if e0 = 0 then s2 else s1)" "cs = (if e0 = 0 then c2 else c0)"
    using assms(1) b n by (auto simp: limiter_script_def e0_def Let_def split: if_splits)
  have len: "length c0 = length ks" using B by simp
  have c0: "c0 ! j = baca R s (fst (ks ! j))" if "j < length ks" for j
    using B that by (simp add: case_prod_beta)
  have "\<forall>(k, _, ttl)\<in>set ks. \<not> beracun R s1 k \<and> 0 < ttl"
    using B assms(3) by (force simp: image_iff)
  note N = fase_naik_spec [OF n assms(2) this]
  show "e \<le> length ks" using pertama_bounds [of "\<lambda>c lim. lim < c + cost" 1 ks c0] by (fastforce simp: res e0_def)
  show "length cs = length ks" using N len by (simp add: res)
  have "e0 = 0 \<longleftrightarrow> (\<forall>j<length ks. \<not> fst (snd (ks ! j)) < baca R s (fst (ks ! j)) + cost)"
    unfolding e0_def using pertama_0 [of 1 ks c0 "\<lambda>c lim. lim < c + cost"] len c0 by auto
  also have "\<dots> \<longleftrightarrow> (\<forall>(k, lim, _)\<in>set ks. baca R s k + cost \<le> lim)"
    by (auto simp: all_set_conv_all_nth not_less case_prod_beta)
  finally show "e = 0 \<longleftrightarrow> (\<forall>(k, lim, _)\<in>set ks. baca R s k + cost \<le> lim)" by (simp add: res)
  show "e = 0 \<Longrightarrow> baca R s' k = (if k \<in> fst ` set ks then baca R s k + cost else baca R s k)"
  proof -
    assume "e = 0"
    then have "s' = s2" by (simp add: res)
    moreover have "rk_get R s2 k = (if k \<in> fst ` set ks then Some (Angka (baca R s1 k + cost)) else rk_get R s1 k)"
      using N by blast
    moreover have "baca R s1 k = baca R s k" using B by blast
    ultimately show ?thesis by (auto simp: baca_def [of R s2] baca_def [of R s1])
  qed
  show "e \<noteq> 0 \<Longrightarrow> baca R s' k = baca R s k" using B by (simp add: res)
  show "e = 0 \<Longrightarrow> cs = map (\<lambda>(k, _). baca R s k + cost) ks" using N B by (simp add: res)
  show "k \<notin> fst ` set ks \<Longrightarrow> rk_get R s' k = rk_get R s k" using N B by (simp add: res)
  show "e = 0 \<Longrightarrow> k \<in> fst ` set ks \<Longrightarrow> 0 \<le> rk_pttl R s' k"
    using conjunct1 [OF conjunct2 [OF conjunct2 [OF N]]] by (simp add: res del: ball_simps)
  assume "e \<noteq> 0"
  then have ne: "e0 \<noteq> 0" by (simp add: res)
  note bd = pertama_bounds [OF ne [unfolded e0_def] zero_less_one, folded e0_def]
  have "fst (snd (ks ! (e0 - 1))) < c0 ! (e0 - 1) + cost" "\<forall>j<e0 - 1. \<not> fst (snd (ks ! j)) < c0 ! j + cost"
    using pertama_pos [of 1 ks c0 "\<lambda>c lim. lim < c + cost"] ne len unfolding e0_def by auto
  then show "fst (snd (ks ! (e - 1))) < baca R s (fst (ks ! (e - 1))) + cost \<and>
      (\<forall>j<e - 1. baca R s (fst (ks ! j)) + cost \<le> fst (snd (ks ! j)))"
    using bd c0 by (auto simp: res not_less)
qed

lemma refund_spec:
  assumes "distinct ks" and "0 \<le> cost" and "\<forall>k. 0 \<le> baca R s k"
  shows "baca R (refund_script R cost ks s) k = (if k \<in> set ks then max 0 (baca R s k - cost) else baca R s k)"
  using assms
proof (induction ks arbitrary: s)
  case Nil
  then show ?case by simp
next
  case (Cons x ks)
  define s1 where "s1 = (if beracun R s x then rk_del R s x
                else if rk_get R s x \<noteq> None then
                  (case rk_incrby R s x (- cost) of
                     (s', sisa) \<Rightarrow> if sisa < 0 then fst (rk_incrby R s' x (- sisa)) else s')
                else s)"
  have s1: "baca R s1 k = (if k = x then max 0 (baca R s k - cost) else baca R s k)" for k
  proof (cases "beracun R s x")
    case True
    then show ?thesis using Cons.prems(2) by (auto simp: s1_def baca_del baca_beracun)
  next
    case False
    obtain sa sisa where inc: "rk_incrby R s x (- cost) = (sa, sisa)" by (cases "rk_incrby R s x (- cost)") auto
    have sisa: "sisa = baca R s x - cost" using incrby_reply [OF False, of "- cost"] inc by simp
    have sa: "baca R sa k' = (if k' = x then baca R s x - cost else baca R s k')" for k'
      using baca_incr [OF False, of "- cost" k'] inc by simp
    have "\<not> beracun R sa x" using beracun_incr [OF False, of "- cost" x] inc by simp
    note sb = baca_incr [OF this]
    show ?thesis
    proof (cases "rk_get R s x = None")
      case True
      then have "baca R s x = 0" by (simp add: baca_def)
      with True False Cons.prems(2) show ?thesis by (simp add: s1_def)
    next
      case nn: False
      then show ?thesis using False inc sisa sa sb by (auto simp: s1_def)
    qed
  qed
  have "\<forall>k. 0 \<le> baca R s1 k" using s1 Cons.prems(3) by simp
  then have "baca R (refund_script R cost ks s1) k = (if k \<in> set ks then max 0 (baca R s1 k - cost) else baca R s1 k)"
    using Cons.IH Cons.prems by simp
  moreover have "refund_script R cost (x # ks) s = refund_script R cost ks s1"
    unfolding refund_script.simps Let_def s1_def ..
  ultimately show ?case using s1 Cons.prems(1) by auto
qed

text \<open>One admission call, on the windows of all its scopes.\<close>

lemma allow_scopes_at_spec:
  assumes call: "allow_scopes_at R p l scopes now s = (s', d)" and red: "lm_ada_redis l" and sah: "cakupan_sah scopes"
  defines "W \<equiv> jendela_cakupan scopes now"
  defines "cukup \<equiv> \<forall>w\<in>set W. baca R s (window_key w) + 1 \<le> wi_value w"
  shows "p = SkripBerhasil \<Longrightarrow> kp_allowed d \<longleftrightarrow> cukup" and "p = SkripBerhasil \<Longrightarrow> \<not> kp_degraded d"
    and "baca R s' k = (if p \<noteq> SkripGagal False \<and> cukup \<and> k \<in> window_key ` set W then baca R s k + 1 else baca R s k)"
    and "p = SkripBerhasil \<Longrightarrow> \<not> cukup \<Longrightarrow> \<exists>i<length W. \<not> baca R s (window_key (W ! i)) + 1 \<le> wi_value (W ! i) \<and>
           (\<forall>j<i. baca R s (window_key (W ! j)) + 1 \<le> wi_value (W ! j)) \<and>
           kp_scope d = wi_scope (W ! i) \<and> kp_limit d = wi_limit (W ! i) \<and> kp_reset_at d = wi_reset_at (W ! i)"
    and "p \<noteq> SkripGagal False \<Longrightarrow> cukup \<Longrightarrow> k \<in> window_key ` set W \<Longrightarrow> 0 \<le> rk_pttl R s' k"
    and "k \<notin> window_key ` set W \<Longrightarrow> rk_get R s' k = rk_get R s k"
    and "p \<noteq> SkripBerhasil \<Longrightarrow> W \<noteq> [] \<Longrightarrow> kp_degraded d \<and> kp_allowed d = (\<not> lm_fail_closed l)"
proof -
  define ks where "ks = map (\<lambda>w. (window_key w, wi_value w, ttl_millis w now)) W"
  obtain s2 e cs where sc: "limiter_script R 0 1 ks s = (s2, e, cs)" by (cases "limiter_script R 0 1 ks s") auto
  have dk: "distinct (map fst ks)" using window_keys_distinct [OF sah, of now] by (simp add: ks_def W_def comp_def)
  have tk: "\<forall>(k, _, ttl)\<in>set ks. 0 < ttl" by (auto simp: ks_def ttl_millis_pos)
  note S = limiter_enforce_spec [OF sc dk tk]
  have fk: "fst ` set ks = window_key ` set W" by (auto simp: ks_def image_iff)
  have len: "length ks = length W" by (simp add: ks_def)
  have ck: "e = 0 \<longleftrightarrow> cukup" using S(3) by (simp add: ks_def cukup_def)
  have Wd: "concat (map (\<lambda>c. request_windows (sc_scope c) (sc_id c) (sc_limits c) now) scopes) = W"
    by (simp add: W_def jendela_cakupan_def)
  have emp: "W = [] \<Longrightarrow> cukup \<and> s' = s \<and> d = keputusan_boleh True False"
    using call red by (simp add: allow_scopes_at_def run_limiter_def Wd cukup_def)
  have run: "(s', d) = (case p of
                  SkripGagal sudah \<Rightarrow> (if sudah then s2 else s, fail_open_decision l)
                | SkripBerhasil \<Rightarrow> (s2, decision_from W cs e now))" if "W \<noteq> []"
    using call red that S(1,2) len
    by (cases p) (auto simp: allow_scopes_at_def run_limiter_def Wd sc [unfolded ks_def] parse_ok)
  have dec: "kp_allowed (decision_from W cs e now) \<longleftrightarrow> e = 0" "\<not> kp_degraded (decision_from W cs e now)"
    by (auto simp: decision_from_def Let_def keputusan_boleh_def split: option.split)
  show "p = SkripBerhasil \<Longrightarrow> kp_allowed d \<longleftrightarrow> cukup" and "p = SkripBerhasil \<Longrightarrow> \<not> kp_degraded d"
    using emp run dec ck by (cases "W = []"; simp add: keputusan_boleh_def)+
  show "baca R s' k = (if p \<noteq> SkripGagal False \<and> cukup \<and> k \<in> window_key ` set W then baca R s k + 1 else baca R s k)"
  proof (cases "W = []")
    case False
    have "s' = (if p = SkripGagal False then s else s2)" using run [OF False] by (auto split: panggilan.splits if_splits)
    then show ?thesis using S(4,5) [of k] ck fk by auto
  qed (simp add: emp)
  show "p \<noteq> SkripGagal False \<Longrightarrow> cukup \<Longrightarrow> k \<in> window_key ` set W \<Longrightarrow> 0 \<le> rk_pttl R s' k"
    using run S(9) [of k] ck fk by (cases "W = []"; cases p) auto
  show "k \<notin> window_key ` set W \<Longrightarrow> rk_get R s' k = rk_get R s k"
    using emp run S(8) [of k] fk by (cases "W = []") (auto split: panggilan.splits if_splits)
  show "p \<noteq> SkripBerhasil \<Longrightarrow> W \<noteq> [] \<Longrightarrow> kp_degraded d \<and> kp_allowed d = (\<not> lm_fail_closed l)"
    using run by (auto simp: fail_open_decision_def keputusan_boleh_def split: panggilan.splits)
  assume p: "p = SkripBerhasil" and "\<not> cukup"
  then have e: "e \<noteq> 0" and W: "W \<noteq> []" using ck emp by auto
  have i: "e - 1 < length W" using S(1) e len by simp
  have "fst (ks ! j) = window_key (W ! j) \<and> fst (snd (ks ! j)) = wi_value (W ! j)" if "j < length W" for j
    using that by (simp add: ks_def)
  with S(6) [OF e] i have "\<not> baca R s (window_key (W ! (e - 1))) + 1 \<le> wi_value (W ! (e - 1))"
    "\<forall>j<e - 1. baca R s (window_key (W ! j)) + 1 \<le> wi_value (W ! j)" by auto
  then show "\<exists>i<length W. \<not> baca R s (window_key (W ! i)) + 1 \<le> wi_value (W ! i) \<and>
           (\<forall>j<i. baca R s (window_key (W ! j)) + 1 \<le> wi_value (W ! j)) \<and>
           kp_scope d = wi_scope (W ! i) \<and> kp_limit d = wi_limit (W ! i) \<and> kp_reset_at d = wi_reset_at (W ! i)"
    using i run [OF W] e p by (auto simp: decision_from_def Let_def)
qed

text \<open>A refund after an admission that counted.\<close>

lemma refund_after_allow:
  assumes call: "allow_scopes_at R p l scopes now s = (s', d)" and red: "lm_ada_redis l" and sah: "cakupan_sah scopes"
    and counted: "p = SkripBerhasil" "kp_allowed d" and pos: "\<forall>k. 0 \<le> baca R s k" and q: "q \<noteq> SkripGagal False"
  shows "baca R (refund_scopes_at R q l scopes now s') k = baca R s k"
proof -
  note A = allow_scopes_at_spec [OF call red sah]
  define W where "W = jendela_cakupan scopes now"
  have d: "distinct (map window_key W)" unfolding W_def by (rule window_keys_distinct [OF sah])
  have up: "baca R s' k = (if k \<in> window_key ` set W then baca R s k + 1 else baca R s k)" for k
    using A(1) A(3) [of k] counted by (auto simp: W_def)
  have "\<forall>k. 0 \<le> baca R s' k" using up pos by (auto simp: add_nonneg_pos)
  note R = refund_spec [OF d zero_le_one this]
  have Wd: "concat (map (\<lambda>c. request_windows (sc_scope c) (sc_id c) (sc_limits c) now) scopes) = W"
    by (simp add: W_def jendela_cakupan_def)
  show ?thesis
  proof (cases "W = []")
    case True
    then show ?thesis using up by (simp add: refund_scopes_at_def Wd)
  next
    case False
    then have "scopes \<noteq> []" by (auto simp: W_def jendela_cakupan_def)
    with False have "refund_scopes_at R q l scopes now s' = refund_script R 1 (map window_key W) s'"
      using q red by (auto simp: refund_scopes_at_def Wd split: panggilan.splits bool.splits)
    then show ?thesis using R [of k] up [of k] pos by auto
  qed
qed

text \<open>Refunds alone: a reading never grows and never becomes negative.\<close>

lemma refund_bounds:
  assumes "lm_ada_redis l" "cakupan_sah scopes" "\<forall>k. 0 \<le> baca R s k"
  shows "0 \<le> baca R (refund_scopes_at R q l scopes now s) k \<and> baca R (refund_scopes_at R q l scopes now s) k \<le> baca R s k"
proof -
  have "refund_scopes_at R q l scopes now s \<in> {s, refund_script R 1 (map window_key (jendela_cakupan scopes now)) s}"
    by (auto simp: refund_scopes_at_def Let_def jendela_cakupan_def split: panggilan.split bool.split)
  then show ?thesis
    using assms(3) refund_spec [OF window_keys_distinct [OF assms(2), of now] zero_le_one assms(3), of k] by auto
qed

end

section \<open>Runs\<close>

text \<open>A run of admission calls: each with what the script call does, its scopes and its time.\<close>

type_synonym panggilan_batas = "panggilan \<times> scope_limits list \<times> waktu"

fun jalan_batas :: "'r counters \<Rightarrow> limiter \<Rightarrow> panggilan_batas list \<Rightarrow> 'r \<Rightarrow> 'r \<times> keputusan list" where
  "jalan_batas R l [] s = (s, [])"
| "jalan_batas R l ((p, scopes, now) # cs) s =
     (case allow_scopes_at R p l scopes now s of
        (s', d) \<Rightarrow> case jalan_batas R l cs s' of (s'', ds) \<Rightarrow> (s'', d # ds))"

text \<open>The admissions of a run that were checked and count on a key.\<close>

definition terhitung :: "string \<Rightarrow> panggilan_batas list \<Rightarrow> keputusan list \<Rightarrow> int" where
  "terhitung k cs ds = int (length (filter (\<lambda>((p, scopes, now), d).
     kp_allowed d \<and> \<not> kp_degraded d \<and> k \<in> window_key ` set (jendela_cakupan scopes now)) (zip cs ds)))"

context redis_counter begin

lemma quota_run:
  assumes "jalan_batas R l cs s = (s', ds)" and "lm_ada_redis l" and "\<forall>(p, scopes, now)\<in>set cs. cakupan_sah scopes"
    and "\<forall>(p, scopes, now)\<in>set cs. \<forall>w\<in>set (jendela_cakupan scopes now). window_key w = k \<longrightarrow> wi_value w \<le> v"
  shows "baca R s k + terhitung k cs ds \<le> baca R s' k \<and> baca R s' k \<le> max (baca R s k) v"
  using assms
proof (induction cs arbitrary: s ds)
  case Nil
  then show ?case by (simp add: terhitung_def)
next
  case (Cons c cs)
  obtain p scopes now where c: "c = (p, scopes, now)" by (cases c) auto
  obtain s1 d where a: "allow_scopes_at R p l scopes now s = (s1, d)" by (cases "allow_scopes_at R p l scopes now s") auto
  obtain ds' where r: "jalan_batas R l cs s1 = (s', ds')" "ds = d # ds'" using Cons.prems(1) a by (auto simp: c split: prod.splits)
  have sah: "cakupan_sah scopes" using Cons.prems(3) by (simp add: c)
  note A = allow_scopes_at_spec [OF a Cons.prems(2) sah]
  have IH: "baca R s1 k + terhitung k cs ds' \<le> baca R s' k \<and> baca R s' k \<le> max (baca R s1 k) v"
    using Cons.IH [OF r(1)] Cons.prems by auto
  define hit where "hit = (kp_allowed d \<and> \<not> kp_degraded d \<and> k \<in> window_key ` set (jendela_cakupan scopes now))"
  have t: "terhitung k (c # cs) ds = (if hit then 1 else 0) + terhitung k cs ds'"
    by (simp add: terhitung_def c r hit_def)
  have up: "baca R s1 k \<le> max (baca R s k) v"
    using A(3) [of k] Cons.prems(4) by (fastforce simp: c split: if_splits)
  have "p = SkripBerhasil" if hit
  proof (rule ccontr)
    assume "p \<noteq> SkripBerhasil"
    moreover have "jendela_cakupan scopes now \<noteq> []" using that unfolding hit_def by fastforce
    ultimately show False using A(7) that unfolding hit_def by blast
  qed
  then have "baca R s k + (if hit then 1 else 0) \<le> baca R s1 k"
  proof (cases hit)
    case True
    then have "p = SkripBerhasil" and "k \<in> window_key ` set (jendela_cakupan scopes now)" and "kp_allowed d"
      using \<open>hit \<Longrightarrow> p = SkripBerhasil\<close> unfolding hit_def by blast+
    then show ?thesis using A(1) A(3) [of k] True by simp
  next
    case False
    then show ?thesis using A(3) [of k] by (simp split: if_splits)
  qed
  then show ?case using IH up t by linarith
qed

end

section \<open>A store that meets the contract\<close>

text \<open>An association list of keys to their value and time to live in milliseconds.\<close>

type_synonym simpanan_penghitung = "(string \<times> isi_penghitung \<times> int option) list"

definition mem_counters :: "simpanan_penghitung counters" where
  "mem_counters = \<lparr>
     rk_get = (\<lambda>s k. map_option fst (map_of s k)),
     rk_incrby = (\<lambda>s k d.
        case map_of s k of
          None \<Rightarrow> (AList.update k (Angka d, None) s, d)
        | Some (Angka n, t) \<Rightarrow> (AList.update k (Angka (n + d), t) s, n + d)
        | Some (Racun x, t) \<Rightarrow> (s, 0)),
     rk_pttl = (\<lambda>s k. case map_of s k of None \<Rightarrow> - 2 | Some (v, None) \<Rightarrow> - 1 | Some (v, Some ms) \<Rightarrow> ms),
     rk_pexpire = (\<lambda>s k ms.
        case map_of s k of
          None \<Rightarrow> s
        | Some (v, t) \<Rightarrow> if ms \<le> 0 then AList.delete k s else AList.update k (v, Some ms) s),
     rk_del = (\<lambda>s k. AList.delete k s)\<rparr>"

interpretation memk: redis_counter mem_counters
proof
  fix s :: simpanan_penghitung and k k' :: string and d ms :: int
  show "\<not> beracun mem_counters s k \<Longrightarrow> rk_get mem_counters (fst (rk_incrby mem_counters s k d)) k' =
          (if k' = k then Some (Angka (baca mem_counters s k + d)) else rk_get mem_counters s k')"
    and "\<not> beracun mem_counters s k \<Longrightarrow> snd (rk_incrby mem_counters s k d) = baca mem_counters s k + d"
    by (auto simp: mem_counters_def beracun_def baca_def update_conv' split: option.splits isi_penghitung.splits)
  show "0 < ms \<Longrightarrow> rk_get mem_counters (rk_pexpire mem_counters s k ms) k' = rk_get mem_counters s k'"
    by (auto simp: mem_counters_def update_conv' split: option.splits)
  show "rk_get mem_counters (rk_del mem_counters s k) k' = (if k' = k then None else rk_get mem_counters s k')"
    by (simp add: mem_counters_def delete_conv')
  show "0 < ms \<Longrightarrow> rk_get mem_counters s k \<noteq> None \<Longrightarrow> 0 \<le> rk_pttl mem_counters (rk_pexpire mem_counters s k ms) k"
    by (auto simp: mem_counters_def update_conv' split: option.splits)
  show "k' \<noteq> k \<Longrightarrow> rk_pttl mem_counters (rk_pexpire mem_counters s k ms) k' = rk_pttl mem_counters s k'"
    by (auto simp: mem_counters_def update_conv' delete_conv' split: option.splits)
  show "k' \<noteq> k \<Longrightarrow> rk_pttl mem_counters (fst (rk_incrby mem_counters s k d)) k' = rk_pttl mem_counters s k'"
    by (auto simp: mem_counters_def update_conv' split: option.splits isi_penghitung.splits)
qed

section \<open>Properties\<close>

text \<open>C12.  Admission is all or nothing: a checked request is admitted exactly when every window of
  every scope has room; then each counter goes up by one and holds a time to live, and no other key
  changes.  Otherwise no counter moves and the decision names the first window without room.\<close>

theorem limiter_all_or_nothing:
  assumes "allow_scopes_at mem_counters SkripBerhasil l scopes now s = (s', d)"
    and "lm_ada_redis l" and "cakupan_sah scopes"
  shows "let W = jendela_cakupan scopes now;
             baca' = baca mem_counters;
             cukup = (\<lambda>w. baca' s (window_key w) + 1 \<le> wi_value w)
         in kp_allowed d = list_all cukup W \<and> \<not> kp_degraded d \<and>
            (\<forall>k. baca' s' k = (if kp_allowed d \<and> k \<in> window_key ` set W then baca' s k + 1 else baca' s k)) \<and>
            (\<forall>k. k \<notin> window_key ` set W \<longrightarrow> rk_get mem_counters s' k = rk_get mem_counters s k) \<and>
            (kp_allowed d \<longrightarrow> (\<forall>w\<in>set W. 0 \<le> rk_pttl mem_counters s' (window_key w))) \<and>
            (\<not> kp_allowed d \<longrightarrow> (\<exists>i<length W. \<not> cukup (W ! i) \<and> (\<forall>j<i. cukup (W ! j)) \<and>
               kp_scope d = wi_scope (W ! i) \<and> kp_limit d = wi_limit (W ! i) \<and> kp_reset_at d = wi_reset_at (W ! i)))"
  using memk.allow_scopes_at_spec [OF assms] unfolding Let_def list_all_iff by simp

definition contoh_limiter :: limiter where
  "contoh_limiter = \<lparr>lm_ada_redis = True, lm_fail_closed = False,
     lm_key_defaults = \<lparr>li_rps = 0, li_rpm = 0, li_daily = 0, li_monthly = 0\<rparr>,
     lm_ip_limits = \<lparr>li_rps = 0, li_rpm = 0, li_daily = 0, li_monthly = 0\<rparr>, lm_resolver = None\<rparr>"

definition contoh_scopes :: "scope_limits list" where
  "contoh_scopes = [\<lparr>sc_scope = scope_api_key, sc_id = ''k1'', sc_limits = \<lparr>li_rps = 1, li_rpm = 5, li_daily = 0, li_monthly = 0\<rparr>\<rparr>]"

lemma limiter_all_or_nothing_witness:
  "kp_allowed (snd (allow_scopes_at mem_counters SkripBerhasil contoh_limiter contoh_scopes 0 []))"
proof -
  obtain s' d where a: "allow_scopes_at mem_counters SkripBerhasil contoh_limiter contoh_scopes 0 [] = (s', d)"
    by (cases "allow_scopes_at mem_counters SkripBerhasil contoh_limiter contoh_scopes 0 []") auto
  have h: "lm_ada_redis contoh_limiter" "cakupan_sah contoh_scopes" by code_simp+
  have "list_all (\<lambda>w. baca mem_counters [] (window_key w) + 1 \<le> wi_value w) (jendela_cakupan contoh_scopes 0)"
    by code_simp
  then show ?thesis using limiter_all_or_nothing [OF a h] a by (simp add: Let_def)
qed



text \<open>C18.  A refund undoes an admission: with the time the request was counted at, every reading is
  back where it was, and a refund on its own never raises a reading or makes it negative.\<close>

theorem limiter_refund_roundtrip:
  assumes "lm_ada_redis l" and "cakupan_sah scopes" and "\<forall>k. 0 \<le> baca mem_counters s k"
  shows "(\<forall>s' d. allow_scopes_at mem_counters SkripBerhasil l scopes now s = (s', d) \<and> kp_allowed d \<longrightarrow>
            (\<forall>k. baca mem_counters (refund_scopes_at mem_counters SkripBerhasil l scopes now s') k = baca mem_counters s k)) \<and>
         (\<forall>q t k. 0 \<le> baca mem_counters (refund_scopes_at mem_counters q l scopes t s) k \<and>
            baca mem_counters (refund_scopes_at mem_counters q l scopes t s) k \<le> baca mem_counters s k)"
  using memk.refund_after_allow [OF _ assms(1,2) refl _ assms(3)] memk.refund_bounds [OF assms] by blast

lemma limiter_refund_roundtrip_witness:
  "baca mem_counters (refund_scopes_at mem_counters SkripBerhasil contoh_limiter contoh_scopes 0
     (fst (allow_scopes_at mem_counters SkripBerhasil contoh_limiter contoh_scopes 0 [(''x'', Angka 3, None)]))) ''x'' = 3"
proof -
  let ?a = "allow_scopes_at mem_counters SkripBerhasil contoh_limiter contoh_scopes 0 [(''x'', Angka 3, None)]"
  have h: "lm_ada_redis contoh_limiter" "cakupan_sah contoh_scopes" and ok: "kp_allowed (snd ?a)" by code_simp+
  have "\<forall>k. 0 \<le> baca mem_counters [(''x'', Angka 3, None)] k" by (simp add: baca_def mem_counters_def)
  from limiter_refund_roundtrip [OF h this, of 0] ok show ?thesis
    by (cases ?a) (auto simp: baca_def mem_counters_def)
qed

end
