(* ===== verification/Policy_Cache.thy ===== *)
theory Policy_Cache
  imports Prelude
begin

text \<open>
  The in-memory copy of a policy table, the pattern \<^verbatim>\<open>muat\<close> that \<^verbatim>\<open>internal/ratelimit/ratelimit.go\<close>
  and \<^verbatim>\<open>internal/billing/billing.go\<close> share: the copy is read again after its TTL, a failed read
  keeps the old copy and blocks new reads for \<^verbatim>\<open>jedaGagalMuat\<close>.  The database query is an argument
  (\<^const>\<open>None\<close> no source, \<^const>\<open>Inl\<close> a failure, \<^const>\<open>Inr\<close> the rows); the clock is read once per call.
\<close>

definition jeda_gagal_muat :: durasi where "jeda_gagal_muat = 5 * detik"

record 'c salinan =
  sa_dimuat :: waktu
  sa_gagal :: waktu
  sa_pernah :: bool
  sa_isi :: 'c

definition salinan_baru :: "'c \<Rightarrow> 'c salinan" where
  "salinan_baru kosong = \<lparr>sa_dimuat = waktu_nol, sa_gagal = waktu_nol, sa_pernah = False, sa_isi = kosong\<rparr>"

definition segar :: "durasi \<Rightarrow> waktu \<Rightarrow> 'c salinan \<Rightarrow> bool" where
  "segar ttl now s \<longleftrightarrow> sa_dimuat s \<noteq> waktu_nol \<and> now - sa_dimuat s < ttl"

definition baru_gagal :: "waktu \<Rightarrow> 'c salinan \<Rightarrow> bool" where
  "baru_gagal now s \<longleftrightarrow> sa_gagal s \<noteq> waktu_nol \<and> now - sa_gagal s < jeda_gagal_muat"

type_synonym 'row baris_kebijakan = "(string + 'row list) option"

definition muat_salinan ::
    "durasi \<Rightarrow> ('row list \<Rightarrow> 'c) \<Rightarrow> 'row baris_kebijakan \<Rightarrow> waktu \<Rightarrow> 'c salinan \<Rightarrow> 'c salinan" where
  "muat_salinan ttl bangun src now s =
     (case src of
        None \<Rightarrow> s
      | Some jawaban \<Rightarrow>
          if segar ttl now s then s
          else if baru_gagal now s then s
          else (case jawaban of
                  Inl err \<Rightarrow> s\<lparr>sa_gagal := now\<rparr>
                | Inr rows \<Rightarrow> s\<lparr>sa_isi := bangun rows, sa_dimuat := now, sa_pernah := True, sa_gagal := waktu_nol\<rparr>))"

definition batalkan :: "'c salinan \<Rightarrow> 'c salinan" where
  "batalkan s = s\<lparr>sa_dimuat := waktu_nol\<rparr>"

text \<open>
  A store that keeps such a copy: reading the copy out, and what its operations do to it.  Every
  operation either leaves the copy, reloads it or invalidates it.
\<close>

inductive salinan_run :: "durasi \<Rightarrow> ('row list \<Rightarrow> 'c) \<Rightarrow> 'c \<Rightarrow> 'c salinan \<Rightarrow> (waktu \<times> 'row list) list \<Rightarrow> waktu list \<Rightarrow> bool"
  for ttl bangun kosong where
  sr_awal: "salinan_run ttl bangun kosong (salinan_baru kosong) [] []"
| sr_segar: "salinan_run ttl bangun kosong s rw fs \<Longrightarrow> segar ttl now s \<or> baru_gagal now s \<or> src = None \<Longrightarrow>
    salinan_run ttl bangun kosong (muat_salinan ttl bangun src now s) rw fs"
| sr_gagal: "salinan_run ttl bangun kosong s rw fs \<Longrightarrow> \<not> segar ttl now s \<Longrightarrow> \<not> baru_gagal now s \<Longrightarrow>
    salinan_run ttl bangun kosong (muat_salinan ttl bangun (Some (Inl err)) now s) rw (now # fs)"
| sr_muat: "salinan_run ttl bangun kosong s rw fs \<Longrightarrow> \<not> segar ttl now s \<Longrightarrow> \<not> baru_gagal now s \<Longrightarrow>
    salinan_run ttl bangun kosong (muat_salinan ttl bangun (Some (Inr rows)) now s) ((now, rows) # rw) fs"
| sr_batal: "salinan_run ttl bangun kosong s rw fs \<Longrightarrow> salinan_run ttl bangun kosong (batalkan s) rw fs"

text \<open>In every run the copy is what the newest successful read gave, or the empty one.\<close>

lemma salinan_run_sah:
  "salinan_run ttl bangun kosong s rw fs \<Longrightarrow>
     sa_isi s = (case rw of [] \<Rightarrow> kosong | (t, rows) # _ \<Rightarrow> bangun rows) \<and>
     (sa_dimuat s = waktu_nol \<or> (\<exists>rows rw'. rw = (sa_dimuat s, rows) # rw')) \<and>
     (sa_gagal s = waktu_nol \<or> (\<exists>fs'. fs = sa_gagal s # fs')) \<and> sa_pernah s = (rw \<noteq> [])"
  by (induction rule: salinan_run.induct)
     (auto simp: salinan_baru_def muat_salinan_def batalkan_def split: list.splits option.splits)

text \<open>After a call the copy is younger than its TTL, unless a read failed less than the pause ago.\<close>

lemma muat_salinan_usia:
  assumes "src \<noteq> None" and "0 < ttl"
  shows "let s' = muat_salinan ttl bangun src now s
         in segar ttl now s' \<or> baru_gagal now s' \<or> now = waktu_nol"
  using assms by (auto simp: muat_salinan_def segar_def baru_gagal_def jeda_gagal_muat_def Let_def
      split: option.splits sum.splits)

text \<open>Failed reads of one run are at least the pause apart, as long as no read succeeds between.\<close>

lemma muat_salinan_jeda:
  "baru_gagal now s \<Longrightarrow> muat_salinan ttl bangun src now s = s"
  by (simp add: muat_salinan_def split: option.split)

end
