(* ===== verification/Rate_Policy.thy ===== *)
theory Rate_Policy
  imports Complex_Main Policy_Cache Limiter
begin

text \<open>
  The rate limit policy, \<^verbatim>\<open>internal/ratelimit/ratelimit.go\<close>: rows of the table \<^verbatim>\<open>rate_limits\<close>
  (\<^verbatim>\<open>internal/database/repo/policy\<close>) merged per scope and entity, and the scopes one request is
  limited by; the policy targets of a request from \<^verbatim>\<open>internal/gateway/guard.go\<close>; and the token bucket
  \<^verbatim>\<open>MemoryLimiter\<close>, its floats as rationals.
\<close>

section \<open>Rows and targets\<close>

definition ps_global :: string where "ps_global = ''global''"
definition ps_api_key :: string where "ps_api_key = ''api_key''"
definition ps_user :: string where "ps_user = ''user''"
definition ps_provider :: string where "ps_provider = ''provider''"
definition ps_model :: string where "ps_model = ''model''"
definition ps_ip :: string where "ps_ip = ''ip''"

record target =
  tg_scope :: string
  tg_id :: string

record rate_limit_row =
  rl_id :: string
  rl_scope :: string
  rl_scope_id :: string
  rl_rps :: "int option"
  rl_rpm :: "int option"
  rl_tpm :: "int option"
  rl_daily_requests :: "int option"
  rl_monthly_requests :: "int option"
  rl_daily_tokens :: "int option"
  rl_monthly_tokens :: "int option"
  rl_enabled :: bool
  rl_created_at :: waktu

text \<open>\<^verbatim>\<open>ActiveRateLimits\<close>: the enabled rows, global first, then by scope, age and id.\<close>

definition banding_baris :: "rate_limit_row \<Rightarrow> rate_limit_row \<Rightarrow> int" where
  "banding_baris a b =
     (let g = cmp_compare (rl_scope a \<noteq> ps_global) (rl_scope b \<noteq> ps_global);
          s = cmp_compare (rl_scope a) (rl_scope b);
          t = cmp_compare (rl_created_at a) (rl_created_at b)
      in if g \<noteq> 0 then g else if s \<noteq> 0 then s else if t \<noteq> 0 then t else cmp_compare (rl_id a) (rl_id b))"

definition active_rate_limits :: "rate_limit_row list \<Rightarrow> rate_limit_row list" where
  "active_rate_limits tabel = sort_stable_func banding_baris (filter rl_enabled tabel)"

text \<open>\<^verbatim>\<open>TargetsFor\<close>, from the key of the request, its owner, the model and a valid address.\<close>

definition targets_for :: "string \<Rightarrow> string \<Rightarrow> string \<Rightarrow> string option \<Rightarrow> target list" where
  "targets_for key_id owner model_id ip =
     (if key_id \<noteq> [] then [\<lparr>tg_scope = ps_api_key, tg_id = key_id\<rparr>] else []) @
     (if owner \<noteq> [] then [\<lparr>tg_scope = ps_user, tg_id = owner\<rparr>] else []) @
     (if model_id \<noteq> [] then [\<lparr>tg_scope = ps_model, tg_id = model_id\<rparr>] else []) @
     (case ip of Some a \<Rightarrow> [\<lparr>tg_scope = ps_ip, tg_id = a\<rparr>] | None \<Rightarrow> []) @
     [\<lparr>tg_scope = ps_global, tg_id = []\<rparr>]"

section \<open>The engine\<close>

record batas =
  ba_requests :: limits
  ba_tokens :: token_limits

definition batas_nol :: batas where
  "batas_nol = \<lparr>ba_requests = \<lparr>li_rps = 0, li_rpm = 0, li_daily = 0, li_monthly = 0\<rparr>,
     ba_tokens = \<lparr>tl_tpm = 0, tl_daily = 0, tl_monthly = 0\<rparr>\<rparr>"

definition kosong :: "batas \<Rightarrow> bool" where
  "kosong b \<longleftrightarrow> limits_is_zero (ba_requests b) \<and> token_limits_is_zero (ba_tokens b)"

definition dari_baris :: "rate_limit_row \<Rightarrow> batas" where
  "dari_baris row = \<lparr>
     ba_requests = \<lparr>li_rps = deref_int (rl_rps row), li_rpm = deref_int (rl_rpm row),
       li_daily = deref_int (rl_daily_requests row), li_monthly = deref_int (rl_monthly_requests row)\<rparr>,
     ba_tokens = \<lparr>tl_tpm = deref_int (rl_tpm row), tl_daily = deref_int (rl_daily_tokens row),
       tl_monthly = deref_int (rl_monthly_tokens row)\<rparr>\<rparr>"

definition gabung :: "batas \<Rightarrow> batas \<Rightarrow> batas" where
  "gabung a b = \<lparr>ba_requests = limits_with_defaults (ba_requests a) (ba_requests b),
     ba_tokens = token_limits_with_defaults (ba_tokens a) (ba_tokens b)\<rparr>"

definition scope_redis :: "string \<Rightarrow> string option" where
  "scope_redis = map_of [(ps_global, scope_global), (ps_api_key, scope_api_key), (ps_user, scope_user),
     (ps_provider, scope_provider), (ps_model, scope_model), (ps_ip, scope_ip)]"

record salinan_batas =
  sb_global :: batas
  sb_per_cakupan :: "string \<Rightarrow> (string \<Rightarrow> batas option) option"

definition salinan_kosong :: salinan_batas where
  "salinan_kosong = \<lparr>sb_global = batas_nol, sb_per_cakupan = (\<lambda>_. None)\<rparr>"

text \<open>The loop of \<^verbatim>\<open>muat\<close> over the rows; a missing entry reads as the zero limits.\<close>

definition langkah_baris :: "salinan_batas \<Rightarrow> rate_limit_row \<Rightarrow> salinan_batas" where
  "langkah_baris s row =
     (let b = dari_baris row
      in if kosong b then s
         else if rl_scope row = ps_global then s\<lparr>sb_global := gabung (sb_global s) b\<rparr>
         else let per = (case sb_per_cakupan s (rl_scope row) of None \<Rightarrow> (\<lambda>_. None) | Some m \<Rightarrow> m);
                  lama = (case per (rl_scope_id row) of None \<Rightarrow> batas_nol | Some x \<Rightarrow> x)
              in s\<lparr>sb_per_cakupan := (sb_per_cakupan s)(rl_scope row \<mapsto> per(rl_scope_id row \<mapsto> gabung lama b))\<rparr>)"

definition bangun_batas :: "rate_limit_row list \<Rightarrow> salinan_batas" where
  "bangun_batas rows = foldl langkah_baris salinan_kosong rows"

type_synonym rate_engine = "salinan_batas salinan"

definition new_rate_engine :: rate_engine where
  "new_rate_engine = salinan_baru salinan_kosong"

definition default_rate_ttl :: durasi where "default_rate_ttl = 5 * detik"

definition muat_batas :: "durasi \<Rightarrow> rate_limit_row baris_kebijakan \<Rightarrow> waktu \<Rightarrow> rate_engine \<Rightarrow> rate_engine" where
  "muat_batas ttl src now e = muat_salinan ttl bangun_batas src now e"

definition invalidate_rates :: "rate_engine \<Rightarrow> rate_engine" where
  "invalidate_rates e = batalkan e"

definition cari_terkunci :: "rate_engine \<Rightarrow> target \<Rightarrow> batas" where
  "cari_terkunci e t =
     (if tg_scope t = ps_global then sb_global (sa_isi e)
      else case sb_per_cakupan (sa_isi e) (tg_scope t) of
             Some per \<Rightarrow> (case per (tg_id t) of Some b \<Rightarrow> b | None \<Rightarrow> batas_nol)
           | None \<Rightarrow> batas_nol)"

definition id_untuk :: "target \<Rightarrow> string" where
  "id_untuk t = (if tg_scope t = ps_global then global_id else tg_id t)"

text \<open>The loops of \<^verbatim>\<open>Requests\<close> and \<^verbatim>\<open>Tokens\<close>, after the load.\<close>

fun requests_loop :: "rate_engine \<Rightarrow> limits \<Rightarrow> target list \<Rightarrow> scope_limits list" where
  "requests_loop e key_limits [] = []"
| "requests_loop e key_limits (t # ts) =
     (case scope_redis (tg_scope t) of
        None \<Rightarrow> requests_loop e key_limits ts
      | Some redis_scope \<Rightarrow>
          let b = cari_terkunci e t;
              limits = (if tg_scope t = ps_api_key then limits_with_defaults key_limits (ba_requests b) else ba_requests b)
          in if limits_is_zero limits then requests_loop e key_limits ts
             else \<lparr>sc_scope = redis_scope, sc_id = id_untuk t, sc_limits = limits\<rparr> # requests_loop e key_limits ts)"

definition requests :: "durasi \<Rightarrow> rate_limit_row baris_kebijakan \<Rightarrow> waktu \<Rightarrow> target list \<Rightarrow> limits \<Rightarrow>
    rate_engine \<Rightarrow> rate_engine \<times> scope_limits list" where
  "requests ttl src now targets key_limits e =
     (let e1 = muat_batas ttl src now e in (e1, requests_loop e1 key_limits targets))"

fun tokens_loop :: "rate_engine \<Rightarrow> token_limits \<Rightarrow> target list \<Rightarrow> scope_token_limits list" where
  "tokens_loop e key_limits [] = []"
| "tokens_loop e key_limits (t # ts) =
     (case scope_redis (tg_scope t) of
        None \<Rightarrow> tokens_loop e key_limits ts
      | Some redis_scope \<Rightarrow>
          let b = cari_terkunci e t;
              limits = (if tg_scope t = ps_api_key then token_limits_with_defaults key_limits (ba_tokens b) else ba_tokens b)
          in if token_limits_is_zero limits then tokens_loop e key_limits ts
             else \<lparr>st_scope = redis_scope, st_id = id_untuk t, st_limits = limits\<rparr> # tokens_loop e key_limits ts)"

definition tokens :: "durasi \<Rightarrow> rate_limit_row baris_kebijakan \<Rightarrow> waktu \<Rightarrow> target list \<Rightarrow> token_limits \<Rightarrow>
    rate_engine \<Rightarrow> rate_engine \<times> scope_token_limits list" where
  "tokens ttl src now targets key_limits e =
     (let e1 = muat_batas ttl src now e in (e1, tokens_loop e1 key_limits targets))"

section \<open>The token bucket\<close>

record memory_limiter =
  ml_rate :: rat
  ml_capacity :: rat
  ml_tokens :: rat
  ml_last :: waktu

definition new_memory_limiter :: "rat \<Rightarrow> int \<Rightarrow> waktu \<Rightarrow> memory_limiter" where
  "new_memory_limiter rate burst now =
     (let rate = (if rate \<le> 0 then 1 else rate); burst = (if burst \<le> 0 then 1 else burst)
      in \<lparr>ml_rate = rate, ml_capacity = of_int burst, ml_tokens = of_int burst, ml_last = now\<rparr>)"

definition detik_rat :: "durasi \<Rightarrow> rat" where
  "detik_rat d = of_int d / of_int detik"

definition allow_n :: "waktu \<Rightarrow> rat \<Rightarrow> memory_limiter \<Rightarrow> memory_limiter \<times> bool" where
  "allow_n now n l =
     (let elapsed = detik_rat (now - ml_last l);
          l1 = (if 0 < elapsed
                then let t = ml_tokens l + elapsed * ml_rate l
                     in l\<lparr>ml_tokens := (if ml_capacity l < t then ml_capacity l else t), ml_last := now\<rparr>
                else l)
      in if n \<le> ml_tokens l1 then (l1\<lparr>ml_tokens := ml_tokens l1 - n\<rparr>, True) else (l1, False))"

section \<open>Lemmas\<close>

definition pertama_positif :: "int list \<Rightarrow> int" where
  "pertama_positif vs = (case List.find ((<) 0) vs of Some v \<Rightarrow> v | None \<Rightarrow> 0)"

lemma pertama_positif_simps [simp]:
  "pertama_positif [] = 0" "pertama_positif (v # vs) = (if 0 < v then v else pertama_positif vs)"
  by (simp_all add: pertama_positif_def)

lemma pertama_positif_nonneg: "0 \<le> pertama_positif vs"
  by (induction vs) auto

lemma pertama_positif_snoc:
  "pertama_positif (vs @ [v]) = (if 0 < pertama_positif vs then pertama_positif vs else max 0 v)"
  by (induction vs) auto

text \<open>A field of the limits: merging keeps the first positive value.\<close>

definition bidang :: "(batas \<Rightarrow> int) \<Rightarrow> bool" where
  "bidang f \<longleftrightarrow> f batas_nol = 0 \<and> (\<forall>a b. f (gabung a b) = (if f a \<le> 0 then f b else f a)) \<and> (\<forall>b. kosong b \<longrightarrow> f b \<le> 0)"

lemma bidang_semua:
  "bidang (\<lambda>b. li_rps (ba_requests b))" "bidang (\<lambda>b. li_rpm (ba_requests b))"
  "bidang (\<lambda>b. li_daily (ba_requests b))" "bidang (\<lambda>b. li_monthly (ba_requests b))"
  "bidang (\<lambda>b. tl_tpm (ba_tokens b))" "bidang (\<lambda>b. tl_daily (ba_tokens b))" "bidang (\<lambda>b. tl_monthly (ba_tokens b))"
  by (simp_all add: bidang_def batas_nol_def gabung_def kosong_def limits_is_zero_def token_limits_is_zero_def
      limits_with_defaults_def token_limits_with_defaults_def)

definition cocok_target :: "target \<Rightarrow> rate_limit_row \<Rightarrow> bool" where
  "cocok_target t row \<longleftrightarrow> rl_scope row = tg_scope t \<and> (tg_scope t = ps_global \<or> rl_scope_id row = tg_id t)"

definition baris_untuk :: "target \<Rightarrow> rate_limit_row list \<Rightarrow> rate_limit_row list" where
  "baris_untuk t rows = filter (cocok_target t) rows"

definition isi_untuk :: "salinan_batas \<Rightarrow> target \<Rightarrow> batas" where
  "isi_untuk s t =
     (if tg_scope t = ps_global then sb_global s
      else case sb_per_cakupan s (tg_scope t) of
             Some per \<Rightarrow> (case per (tg_id t) of Some b \<Rightarrow> b | None \<Rightarrow> batas_nol)
           | None \<Rightarrow> batas_nol)"

lemma cari_isi: "cari_terkunci e t = isi_untuk (sa_isi e) t"
  by (simp add: cari_terkunci_def isi_untuk_def)

lemma isi_langkah:
  "isi_untuk (langkah_baris s row) t =
     (if cocok_target t row \<and> \<not> kosong (dari_baris row) then gabung (isi_untuk s t) (dari_baris row) else isi_untuk s t)"
  by (auto simp: isi_untuk_def langkah_baris_def cocok_target_def Let_def split: option.splits)

lemma isi_bangun:
  assumes "bidang f"
  shows "max 0 (f (isi_untuk (bangun_batas rows) t)) = pertama_positif (map (\<lambda>r. f (dari_baris r)) (baris_untuk t rows))"
proof (induction rows rule: rev_induct)
  case Nil
  then show ?case using assms
    by (simp add: bangun_batas_def isi_untuk_def salinan_kosong_def baris_untuk_def bidang_def)
next
  case (snoc r rows)
  have "bangun_batas (rows @ [r]) = langkah_baris (bangun_batas rows) r" by (simp add: bangun_batas_def)
  with snoc assms show ?case
    by (auto simp: isi_langkah baris_untuk_def pertama_positif_snoc bidang_def simp flip: snoc split: if_splits)
qed

text \<open>The reference: per field, the key's own limit first, then the rows in order.\<close>

definition nilai_request :: "rate_limit_row list \<Rightarrow> limits \<Rightarrow> target \<Rightarrow> (limits \<Rightarrow> int) \<Rightarrow> int" where
  "nilai_request rows key_limits t f =
     pertama_positif ((if tg_scope t = ps_api_key then [f key_limits] else []) @
       map (\<lambda>r. f (ba_requests (dari_baris r))) (baris_untuk t rows))"

definition nilai_token :: "rate_limit_row list \<Rightarrow> token_limits \<Rightarrow> target \<Rightarrow> (token_limits \<Rightarrow> int) \<Rightarrow> int" where
  "nilai_token rows key_limits t f =
     pertama_positif ((if tg_scope t = ps_api_key then [f key_limits] else []) @
       map (\<lambda>r. f (ba_tokens (dari_baris r))) (baris_untuk t rows))"

definition acuan_requests :: "rate_limit_row list \<Rightarrow> limits \<Rightarrow> target list \<Rightarrow> (string \<times> string \<times> int list) list" where
  "acuan_requests rows key_limits ts = List.map_filter (\<lambda>t.
     case scope_redis (tg_scope t) of
       None \<Rightarrow> None
     | Some rs \<Rightarrow>
         let v = map (nilai_request rows key_limits t) [li_rps, li_rpm, li_daily, li_monthly]
         in if v = [0, 0, 0, 0] then None else Some (rs, id_untuk t, v)) ts"

definition acuan_tokens :: "rate_limit_row list \<Rightarrow> token_limits \<Rightarrow> target list \<Rightarrow> (string \<times> string \<times> int list) list" where
  "acuan_tokens rows key_limits ts = List.map_filter (\<lambda>t.
     case scope_redis (tg_scope t) of
       None \<Rightarrow> None
     | Some rs \<Rightarrow>
         let v = map (nilai_token rows key_limits t) [tl_tpm, tl_daily, tl_monthly]
         in if v = [0, 0, 0] then None else Some (rs, id_untuk t, v)) ts"

text \<open>The limits of a scope as the windows see them: not positive means none.\<close>

definition ringkas_requests :: "scope_limits \<Rightarrow> string \<times> string \<times> int list" where
  "ringkas_requests c = (sc_scope c, sc_id c,
     map (\<lambda>f. max 0 (f (sc_limits c))) [li_rps, li_rpm, li_daily, li_monthly])"

definition ringkas_tokens :: "scope_token_limits \<Rightarrow> string \<times> string \<times> int list" where
  "ringkas_tokens c = (st_scope c, st_id c, map (\<lambda>f. max 0 (f (st_limits c))) [tl_tpm, tl_daily, tl_monthly])"

lemma max_if: "max 0 (if a \<le> 0 then d else a) = (if 0 < a then a else max 0 (d::int))"
  by simp

lemma nilai_request_isi:
  assumes "f \<in> {li_rps, li_rpm, li_daily, li_monthly}"
  shows "nilai_request rows k t f = max 0 (f (if tg_scope t = ps_api_key
      then limits_with_defaults k (ba_requests (isi_untuk (bangun_batas rows) t)) else ba_requests (isi_untuk (bangun_batas rows) t)))"
proof -
  have b: "bidang (\<lambda>b. f (ba_requests b))" using assms bidang_semua by auto
  have "f (limits_with_defaults a d) = (if f a \<le> 0 then f d else f a)" for a d
    using assms by (elim insertE emptyE) (simp_all add: limits_with_defaults_def)
  then show ?thesis using isi_bangun [OF b, of rows t] by (simp add: nilai_request_def)
qed

lemma nilai_token_isi:
  assumes "f \<in> {tl_tpm, tl_daily, tl_monthly}"
  shows "nilai_token rows k t f = max 0 (f (if tg_scope t = ps_api_key
      then token_limits_with_defaults k (ba_tokens (isi_untuk (bangun_batas rows) t)) else ba_tokens (isi_untuk (bangun_batas rows) t)))"
proof -
  have b: "bidang (\<lambda>b. f (ba_tokens b))" using assms bidang_semua by auto
  have "f (token_limits_with_defaults a d) = (if f a \<le> 0 then f d else f a)" for a d
    using assms by (elim insertE emptyE) (simp_all add: token_limits_with_defaults_def)
  then show ?thesis using isi_bangun [OF b, of rows t] by (simp add: nilai_token_def)
qed

lemma max_0_iff: "max 0 x = 0 \<longleftrightarrow> x \<le> (0::int)" by auto

lemma requests_loop_acuan:
  assumes "sa_isi e = bangun_batas rows"
  shows "map ringkas_requests (requests_loop e key_limits ts) = acuan_requests rows key_limits ts"
proof (induction ts)
  case Nil
  then show ?case by (simp add: acuan_requests_def)
next
  case (Cons t ts)
  define v where "v = (if tg_scope t = ps_api_key
      then limits_with_defaults key_limits (ba_requests (cari_terkunci e t)) else ba_requests (cari_terkunci e t))"
  have n: "nilai_request rows key_limits t f = max 0 (f v)" if "f \<in> {li_rps, li_rpm, li_daily, li_monthly}" for f
    using nilai_request_isi [OF that] by (simp add: v_def cari_isi assms)
  show ?case
    using Cons.IH n
    by (cases "scope_redis (tg_scope t)")
       (auto simp: acuan_requests_def List.map_filter_simps Let_def v_def [symmetric] limits_is_zero_def
         ringkas_requests_def max_0_iff simp del: max_def)
qed

lemma tokens_loop_acuan:
  assumes "sa_isi e = bangun_batas rows"
  shows "map ringkas_tokens (tokens_loop e key_limits ts) = acuan_tokens rows key_limits ts"
proof (induction ts)
  case Nil
  then show ?case by (simp add: acuan_tokens_def)
next
  case (Cons t ts)
  define v where "v = (if tg_scope t = ps_api_key
      then token_limits_with_defaults key_limits (ba_tokens (cari_terkunci e t)) else ba_tokens (cari_terkunci e t))"
  have n: "nilai_token rows key_limits t f = max 0 (f v)" if "f \<in> {tl_tpm, tl_daily, tl_monthly}" for f
    using nilai_token_isi [OF that] by (simp add: v_def cari_isi assms)
  show ?case
    using Cons.IH n
    by (cases "scope_redis (tg_scope t)")
       (auto simp: acuan_tokens_def List.map_filter_simps Let_def v_def [symmetric] token_limits_is_zero_def
         ringkas_tokens_def max_0_iff simp del: max_def)
qed

text \<open>The scopes of one request cannot collide.\<close>

lemma scope_redis_facts:
  assumes "scope_redis a = Some x" "scope_redis b = Some y" shows "rapi x" and "x = y \<longleftrightarrow> a = b"
proof -
  have "list_all (\<lambda>(a, x). rapi x \<and> list_all (\<lambda>(b, y). x = y \<longleftrightarrow> a = b)
      [(ps_global, scope_global), (ps_api_key, scope_api_key), (ps_user, scope_user),
       (ps_provider, scope_provider), (ps_model, scope_model), (ps_ip, scope_ip)])
      [(ps_global, scope_global), (ps_api_key, scope_api_key), (ps_user, scope_user),
       (ps_provider, scope_provider), (ps_model, scope_model), (ps_ip, scope_ip)]" by code_simp
  moreover from assms have "(a, x) \<in> set [(ps_global, scope_global), (ps_api_key, scope_api_key), (ps_user, scope_user),
       (ps_provider, scope_provider), (ps_model, scope_model), (ps_ip, scope_ip)]"
    and "(b, y) \<in> set [(ps_global, scope_global), (ps_api_key, scope_api_key), (ps_user, scope_user),
       (ps_provider, scope_provider), (ps_model, scope_model), (ps_ip, scope_ip)]"
    unfolding scope_redis_def by (blast dest: map_of_SomeD)+
  ultimately show "rapi x" and "x = y \<longleftrightarrow> a = b" unfolding list_all_iff by fast+
qed

lemma requests_loop_in:
  "c \<in> set (requests_loop e k ts) \<Longrightarrow> \<exists>t\<in>set ts. scope_redis (tg_scope t) = Some (sc_scope c) \<and> sc_id c = id_untuk t"
  by (induction ts) (auto simp: Let_def split: option.splits if_splits)

lemma requests_loop_sah:
  assumes "distinct (map tg_scope ts)" and "\<forall>t\<in>set ts. id_untuk t = [] \<or> rapi (id_untuk t)"
  shows "cakupan_sah (requests_loop e k ts)"
  using assms
proof (induction ts)
  case Nil
  then show ?case by (simp add: cakupan_sah_def)
next
  case (Cons t ts)
  then have IH: "cakupan_sah (requests_loop e k ts)" by simp
  have baru: "sc_scope c \<noteq> rs" if "scope_redis (tg_scope t) = Some rs" "c \<in> set (requests_loop e k ts)" for rs c
    using requests_loop_in [OF that(2)] scope_redis_facts(2) [OF that(1)] Cons.prems(1) by force
  show ?case
  proof (cases "scope_redis (tg_scope t)")
    case (Some rs)
    with IH baru [OF Some] scope_redis_facts(1) [OF Some Some] Cons.prems(2) show ?thesis
      by (auto simp: cakupan_sah_def Let_def)
  qed (simp add: IH)
qed

lemma targets_for_distinct: "distinct (map tg_scope (targets_for key_id owner model_id ip))"
  by (auto simp: targets_for_def ps_global_def ps_api_key_def ps_user_def ps_model_def ps_ip_def split: option.split)

text \<open>Runs of the engine: its copy is a copy in the sense of \<open>salinan_run\<close>.\<close>

lemma muat_batas_run:
  "salinan_run ttl bangun_batas salinan_kosong e rw fs \<Longrightarrow>
     \<exists>rw' fs'. salinan_run ttl bangun_batas salinan_kosong (muat_batas ttl src now e) rw' fs' \<and>
       (rw' = rw \<or> (\<exists>rows. src = Some (Inr rows) \<and> rw' = (now, rows) # rw))"
proof -
  assume run: "salinan_run ttl bangun_batas salinan_kosong e rw fs"
  show ?thesis
  proof (cases "segar ttl now e \<or> baru_gagal now e \<or> src = None")
    case True
    then show ?thesis using sr_segar [OF run] unfolding muat_batas_def by blast
  next
    case False
    then show ?thesis
      using sr_gagal [OF run, of now] sr_muat [OF run, of now] unfolding muat_batas_def
      by (metis not_Some_eq old.sum.exhaust)
  qed
qed

text \<open>Calls to the token bucket, with the amount they were granted in all.\<close>

fun jalan_ember :: "(waktu \<times> rat) list \<Rightarrow> memory_limiter \<Rightarrow> memory_limiter \<times> rat" where
  "jalan_ember [] l = (l, 0)"
| "jalan_ember ((now, n) # cs) l =
     (case allow_n now n l of (l', ok) \<Rightarrow>
        case jalan_ember cs l' of (l'', g) \<Rightarrow> (l'', g + (if ok then n else 0)))"

lemma allow_n_step:
  assumes "allow_n now n l = (l', ok)" and "0 \<le> n" and "0 \<le> ml_tokens l" and "ml_tokens l \<le> ml_capacity l" and "0 \<le> ml_rate l"
    and "ml_last l \<le> now"
  shows "0 \<le> ml_tokens l' \<and> ml_tokens l' \<le> ml_capacity l' \<and> ml_capacity l' = ml_capacity l \<and> ml_rate l' = ml_rate l \<and>
     ml_last l' = now \<and>
     ml_tokens l' + (if ok then n else 0) \<le> ml_tokens l + ml_rate l * detik_rat (now - ml_last l)"
proof -
  define el where "el = detik_rat (now - ml_last l)"
  have el: "0 < el \<longleftrightarrow> ml_last l < now" "0 \<le> el" using assms(6)
    by (auto simp: el_def detik_rat_def zero_less_divide_iff)
  define l1 where "l1 = (if 0 < el then l\<lparr>ml_tokens := (if ml_capacity l < ml_tokens l + el * ml_rate l then ml_capacity l
      else ml_tokens l + el * ml_rate l), ml_last := now\<rparr> else l)"
  have l1: "0 \<le> ml_tokens l1" "ml_tokens l1 \<le> ml_capacity l" "ml_capacity l1 = ml_capacity l" "ml_rate l1 = ml_rate l"
    "ml_last l1 = now" "ml_tokens l1 \<le> ml_tokens l + ml_rate l * el"
    using assms(3-6) el by (auto simp: l1_def mult.commute)
  have "(l', ok) = (if n \<le> ml_tokens l1 then (l1\<lparr>ml_tokens := ml_tokens l1 - n\<rparr>, True) else (l1, False))"
    using assms(1) unfolding allow_n_def Let_def el_def l1_def by (rule sym)
  then show ?thesis using l1 assms(2) unfolding el_def [symmetric] by (auto split: if_splits)
qed

section \<open>Properties\<close>

text \<open>C33.  The scopes of a request are what the operator wrote: on every run of the engine, per target and
  field, the limit is the first positive one of the key's own column and the rows of the last
  successful read, in order; targets without any limit are left out, the order of the targets is kept.\<close>

theorem rate_limits_effective:
  assumes "salinan_run ttl bangun_batas salinan_kosong e rw fs"
  defines "rows \<equiv> (case rw of [] \<Rightarrow> [] | (t, rows) # _ \<Rightarrow> rows)"
  shows "map ringkas_requests (requests_loop e key_limits ts) = acuan_requests rows key_limits ts \<and>
         map ringkas_tokens (tokens_loop e key_tokens ts) = acuan_tokens rows key_tokens ts"
proof -
  have "sa_isi e = bangun_batas rows"
    using salinan_run_sah [OF assms(1)] by (auto simp: rows_def bangun_batas_def split: list.splits)
  then show ?thesis using requests_loop_acuan tokens_loop_acuan by blast
qed

definition contoh_row :: rate_limit_row where
  "contoh_row = \<lparr>rl_id = ''r1'', rl_scope = ps_api_key, rl_scope_id = ''k1'', rl_rps = Some 5, rl_rpm = Some 60,
     rl_tpm = None, rl_daily_requests = None, rl_monthly_requests = None, rl_daily_tokens = None,
     rl_monthly_tokens = None, rl_enabled = True, rl_created_at = 0\<rparr>"

lemma rate_limits_effective_witness:
  "map ringkas_requests (requests_loop (muat_salinan default_rate_ttl bangun_batas (Some (Inr [contoh_row])) 0 (salinan_baru salinan_kosong))
      \<lparr>li_rps = 2, li_rpm = 0, li_daily = 0, li_monthly = 0\<rparr> [\<lparr>tg_scope = ps_api_key, tg_id = ''k1''\<rparr>]) =
   [(''apikey'', ''k1'', [2, 60, 0, 0])]"
proof -
  have run: "salinan_run default_rate_ttl bangun_batas salinan_kosong
      (muat_salinan default_rate_ttl bangun_batas (Some (Inr [contoh_row])) 0 (salinan_baru salinan_kosong)) [(0, [contoh_row])] []"
    by (rule sr_muat [OF sr_awal]) (simp_all add: segar_def baru_gagal_def salinan_baru_def)
  have "acuan_requests [contoh_row] \<lparr>li_rps = 2, li_rpm = 0, li_daily = 0, li_monthly = 0\<rparr>
      [\<lparr>tg_scope = ps_api_key, tg_id = ''k1''\<rparr>] = [(''apikey'', ''k1'', [2, 60, 0, 0])]" by code_simp
  then show ?thesis using conjunct1 [OF rate_limits_effective [OF run]] unfolding list.case prod.case by metis
qed

text \<open> The scopes built for a request never share a counter: with tidy identifiers every window key of
  the request is its own, so the limiter's admission applies to them whatever the tables hold.\<close>

theorem rate_scopes_distinct:
  assumes "rapi key_id" and "owner = [] \<or> rapi owner" and "model_id = [] \<or> rapi model_id"
    and "ip = None \<or> (\<exists>a. ip = Some a \<and> rapi a)"
  shows "cakupan_sah (snd (requests ttl src now (targets_for key_id owner model_id ip) limits e)) \<and>
    distinct (map window_key (jendela_cakupan (snd (requests ttl src now (targets_for key_id owner model_id ip) limits e)) t))"
proof -
  have g: "rapi global_id" by code_simp
  have "\<forall>t\<in>set (targets_for key_id owner model_id ip). id_untuk t = [] \<or> rapi (id_untuk t)"
    using assms g by (auto simp: targets_for_def id_untuk_def split: option.splits)
  then have "cakupan_sah (snd (requests ttl src now (targets_for key_id owner model_id ip) limits e))"
    using requests_loop_sah [OF targets_for_distinct] by (simp add: requests_def Let_def)
  then show ?thesis using window_keys_distinct by blast
qed

lemma rate_scopes_distinct_witness:
  "cakupan_sah (snd (requests default_rate_ttl (Some (Inr [contoh_row])) 0 (targets_for ''k1'' ''u1'' [] (Some ''10.0.0.1''))
      \<lparr>li_rps = 2, li_rpm = 0, li_daily = 0, li_monthly = 0\<rparr> new_rate_engine))"
proof -
  have "rapi ''k1''" "rapi ''u1''" "rapi ''10.0.0.1''" by code_simp+
  then show ?thesis
    using rate_scopes_distinct [of "''k1''" "''u1''" "[]" "Some ''10.0.0.1''"] by blast
qed

text \<open> The copy of the limits is never stale without cause: in every run a call leaves it as the
  newest successful read, which is younger than the TTL unless a read failed within the last five
  seconds; within these no further query is made.\<close>

theorem rate_policy_fresh:
  assumes run: "salinan_run ttl bangun_batas salinan_kosong e rw fs" and "src \<noteq> None" and "0 < ttl" and "now \<noteq> waktu_nol"
  shows "let e' = fst (requests ttl src now ts limits e)
         in (\<exists>rw' fs'. salinan_run ttl bangun_batas salinan_kosong e' rw' fs' \<and>
              sa_isi e' = (case rw' of [] \<Rightarrow> salinan_kosong | (t, rows) # _ \<Rightarrow> bangun_batas rows) \<and>
              (rw' = rw \<or> (\<exists>rows. src = Some (Inr rows) \<and> rw' = (now, rows) # rw)) \<and>
              (segar ttl now e' \<longrightarrow> (\<exists>rows rest. rw' = (sa_dimuat e', rows) # rest))) \<and>
            (segar ttl now e' \<or> baru_gagal now e') \<and>
            (baru_gagal now e \<longrightarrow> e' = e)"
proof -
  let ?e = "fst (requests ttl src now ts limits e)"
  have e: "?e = muat_batas ttl src now e" by (simp add: requests_def Let_def)
  obtain rw' fs' where r: "salinan_run ttl bangun_batas salinan_kosong ?e rw' fs'"
    "rw' = rw \<or> (\<exists>rows. src = Some (Inr rows) \<and> rw' = (now, rows) # rw)"
    using muat_batas_run [OF run, of src now] unfolding e by blast
  note s = salinan_run_sah [OF r(1)]
  have "segar ttl now ?e \<or> baru_gagal now ?e"
    using muat_salinan_usia [OF assms(2,3), of bangun_batas now e] assms(4) unfolding e muat_batas_def by (simp add: Let_def)
  moreover have "baru_gagal now e \<longrightarrow> ?e = e" using muat_salinan_jeda unfolding e muat_batas_def by blast
  moreover have "segar ttl now ?e \<longrightarrow> (\<exists>rows rest. rw' = (sa_dimuat ?e, rows) # rest)" using s unfolding segar_def by blast
  ultimately show ?thesis using r s unfolding Let_def by blast
qed

lemma rate_policy_fresh_witness:
  "segar default_rate_ttl 7 (fst (requests default_rate_ttl (Some (Inr [contoh_row])) 7 [] \<lparr>li_rps = 0, li_rpm = 0, li_daily = 0, li_monthly = 0\<rparr> new_rate_engine)) \<or>
   baru_gagal 7 (fst (requests default_rate_ttl (Some (Inr [contoh_row])) 7 [] \<lparr>li_rps = 0, li_rpm = 0, li_daily = 0, li_monthly = 0\<rparr> new_rate_engine))"
  using rate_policy_fresh [OF sr_awal, of "Some (Inr [contoh_row])" default_rate_ttl 7 "[]"]
  by (simp add: new_rate_engine_def default_rate_ttl_def waktu_nol_def Let_def)

text \<open> The token bucket: over any calls on a forward clock it holds between nothing and its capacity,
  and what it grants is at most the tokens at the start plus the rate times the time passed.\<close>

theorem memory_limiter_bound:
  assumes "jalan_ember cs l = (l', g)" and "0 \<le> ml_tokens l" and "ml_tokens l \<le> ml_capacity l" and "0 \<le> ml_rate l"
    and "sorted (ml_last l # map fst cs)" and "list_all (\<lambda>(t, n). 0 \<le> n) cs"
  shows "0 \<le> ml_tokens l' \<and> ml_tokens l' \<le> ml_capacity l' \<and>
     ml_tokens l' + g \<le> ml_tokens l + ml_rate l * detik_rat (ml_last l' - ml_last l)"
  using assms
proof (induction cs arbitrary: l g)
  case Nil
  then show ?case by (simp add: detik_rat_def)
next
  case (Cons c cs)
  obtain now n where c: "c = (now, n)" by (cases c)
  obtain l1 ok where a: "allow_n now n l = (l1, ok)" by (cases "allow_n now n l")
  obtain g1 where r: "jalan_ember cs l1 = (l', g1)" "g = g1 + (if ok then n else 0)"
    using Cons.prems(1) by (auto simp: c a split: prod.splits)
  have st: "0 \<le> ml_tokens l1 \<and> ml_tokens l1 \<le> ml_capacity l1 \<and> ml_capacity l1 = ml_capacity l \<and> ml_rate l1 = ml_rate l \<and>
     ml_last l1 = now \<and> ml_tokens l1 + (if ok then n else 0) \<le> ml_tokens l + ml_rate l * detik_rat (now - ml_last l)"
    using Cons.prems by (intro allow_n_step [OF a]) (simp_all add: c)
  have IH: "0 \<le> ml_tokens l' \<and> ml_tokens l' \<le> ml_capacity l' \<and>
     ml_tokens l' + g1 \<le> ml_tokens l1 + ml_rate l1 * detik_rat (ml_last l' - ml_last l1)"
    using st Cons.prems by (intro Cons.IH [OF r(1)]) (simp_all add: c)
  have "detik_rat (now - ml_last l) + detik_rat (ml_last l' - now) = detik_rat (ml_last l' - ml_last l)"
    by (simp add: detik_rat_def flip: add_divide_distrib)
  then have "ml_rate l * detik_rat (now - ml_last l) + ml_rate l * detik_rat (ml_last l' - now) =
      ml_rate l * detik_rat (ml_last l' - ml_last l)" by (metis distrib_left)
  with IH st r(2) show ?case by auto
qed

lemma memory_limiter_bound_witness:
  "snd (jalan_ember [(0, 1), (0, 1), (0, 1)] (new_memory_limiter 1 2 0)) \<le> 2"
proof -
  let ?l = "new_memory_limiter 1 2 0"
  obtain l' g where j: "jalan_ember [(0, 1), (0, 1), (0, 1)] ?l = (l', g)" by (cases "jalan_ember [(0, 1), (0, 1), (0, 1)] ?l")
  have "0 \<le> ml_tokens l' \<and> ml_tokens l' \<le> ml_capacity l' \<and>
     ml_tokens l' + g \<le> ml_tokens ?l + ml_rate ?l * detik_rat (ml_last l' - ml_last ?l)"
    by (rule memory_limiter_bound [OF j]) (simp_all add: new_memory_limiter_def Let_def)
  moreover have "ml_last l' = 0" using j
    by (auto simp: new_memory_limiter_def allow_n_def Let_def detik_rat_def split: if_splits)
  ultimately show ?thesis using j by (simp add: new_memory_limiter_def Let_def detik_rat_def)
qed

end
