(* ===== verification/Budgets.thy ===== *)
theory Budgets
  imports Rate_Policy Money
begin

text \<open>
  Spending budgets, \<^verbatim>\<open>internal/database/repo/policy/budgets.go\<close>: the row and its predicates, the end of a
  period, and the SQL operations over the table \<^verbatim>\<open>budgets\<close>, which is a list of rows in insertion
  order.  Amounts are units of \<^verbatim>\<open>upstream.USD\<close>.  Checks made by column constraints, identifiers that
  are no UUID, query failures and \<^verbatim>\<open>updated_at\<close> are left out; the operator's zone is a fixed
  offset from UTC.
\<close>

definition period_daily :: string where "period_daily = ''daily''"
definition period_weekly :: string where "period_weekly = ''weekly''"
definition period_monthly :: string where "period_monthly = ''monthly''"
definition action_block :: string where "action_block = ''block''"

record budget =
  bu_id :: string
  bu_name :: string
  bu_scope :: string
  bu_scope_id :: string
  bu_period :: string
  bu_limit :: usd
  bu_spent :: usd
  bu_period_start :: waktu
  bu_period_end :: "waktu option"
  bu_action :: string
  bu_threshold_pct :: int
  bu_alerted_at :: "waktu option"
  bu_exceeded_alerted_at :: "waktu option"
  bu_enabled :: bool
  bu_created_at :: waktu

definition exceeded :: "budget \<Rightarrow> bool" where
  "exceeded b \<longleftrightarrow> bu_limit b \<le> bu_spent b"

definition blocks :: "budget \<Rightarrow> bool" where
  "blocks b \<longleftrightarrow> bu_enabled b \<and> bu_action b = action_block \<and> exceeded b"

definition should_alert_threshold :: "budget \<Rightarrow> bool" where
  "should_alert_threshold b =
     (if \<not> bu_enabled b \<or> bu_alerted_at b \<noteq> None \<or> bu_limit b \<le> 0 \<or> bu_threshold_pct b \<le> 0 then False
      else if exceeded b then False
      else let spent = bu_spent b; limit = bu_limit b; pct = bu_threshold_pct b
           in if go_div max_i64 100 < spent then True
              else if go_div max_i64 pct < limit then wrap64 (go_div limit 100 * pct) \<le> spent
              else wrap64 (limit * pct) \<le> wrap64 (spent * 100))"

definition should_alert_exceeded :: "budget \<Rightarrow> bool" where
  "should_alert_exceeded b =
     (if \<not> bu_enabled b \<or> bu_exceeded_alerted_at b \<noteq> None \<or> bu_limit b \<le> 0 then False else exceeded b)"

definition remaining :: "budget \<Rightarrow> usd" where
  "remaining b = (if bu_limit b \<le> bu_spent b then 0 else wrap64 (bu_limit b - bu_spent b))"

section \<open>Periods\<close>

text \<open>\<^verbatim>\<open>AkhirPeriodeDi\<close>; day 0 of the epoch is a Thursday, Go counts weekdays from Sunday.\<close>

definition akhir_periode_di :: "string \<Rightarrow> waktu \<Rightarrow> durasi \<Rightarrow> waktu option" where
  "akhir_periode_di period dari zona =
     (if period = period_daily then Some (dari + sehari)
      else if period = period_weekly then
        let hari = (dari + zona) div sehari;
            weekday = (hari + 4) mod 7;
            kandidat = (hari + go_mod (8 - weekday) 7) * sehari - zona
        in Some (if kandidat \<le> dari then kandidat + 7 * sehari else kandidat)
      else if period = period_monthly then
        (case sipil_dari_hari ((dari + zona) div sehari) of
           (y, m, d) \<Rightarrow> Some ((if m = 12 then hari_dari_sipil (y + 1) 1 1 else hari_dari_sipil y (m + 1) 1) * sehari - zona))
      else None)"

section \<open>The table\<close>

datatype galat_anggaran = Galat_tidak_ada | Galat_konflik | Galat_jumlah_negatif | Galat_tanpa_perubahan

definition masih_berlaku :: "waktu \<Rightarrow> budget \<Rightarrow> bool" where
  "masih_berlaku now b \<longleftrightarrow> bu_enabled b \<and> (case bu_period_end b of None \<Rightarrow> True | Some t \<Rightarrow> now < t)"

definition banding_anggaran :: "budget \<Rightarrow> budget \<Rightarrow> int" where
  "banding_anggaran a b =
     (let g = cmp_compare (bu_scope a \<noteq> ps_global) (bu_scope b \<noteq> ps_global);
          s = cmp_compare (bu_scope a) (bu_scope b);
          t = cmp_compare (bu_created_at a) (bu_created_at b)
      in if g \<noteq> 0 then g else if s \<noteq> 0 then s else if t \<noteq> 0 then t else cmp_compare (bu_id a) (bu_id b))"

definition active_budgets :: "waktu \<Rightarrow> budget list \<Rightarrow> budget list" where
  "active_budgets now tabel = sort_stable_func banding_anggaran (filter (masih_berlaku now) tabel)"

definition expired_budgets :: "waktu \<Rightarrow> budget list \<Rightarrow> budget list" where
  "expired_budgets as_of tabel =
     sort_stable_func (\<lambda>a b. let t = cmp_compare (bu_created_at a) (bu_created_at b)
                            in if t \<noteq> 0 then t else cmp_compare (bu_id a) (bu_id b))
       (filter (\<lambda>b. bu_enabled b \<and> (case bu_period_end b of None \<Rightarrow> False | Some t \<Rightarrow> t \<le> as_of)) tabel)"

text \<open>\<^verbatim>\<open>CreateBudget\<close>: the row it inserts, for the identifier and the clock of the database.\<close>

record create_budget_params =
  cb_name :: string
  cb_scope :: string
  cb_scope_id :: string
  cb_period :: string
  cb_limit :: usd
  cb_period_start :: waktu
  cb_period_end :: "waktu option"
  cb_action :: string
  cb_threshold_pct :: int

definition create_budget :: "durasi \<Rightarrow> string \<Rightarrow> waktu \<Rightarrow> create_budget_params \<Rightarrow> budget list \<Rightarrow> budget list \<times> budget" where
  "create_budget zona i now p tabel =
     (let action = (if cb_action p = [] then action_block else cb_action p);
          threshold = (if cb_threshold_pct p = 0 then 80 else cb_threshold_pct p);
          start = (if cb_period_start p = waktu_nol then now else cb_period_start p);
          akhir = (case cb_period_end p of Some t \<Rightarrow> Some t | None \<Rightarrow> akhir_periode_di (cb_period p) start zona);
          b = \<lparr>bu_id = i, bu_name = cb_name p, bu_scope = cb_scope p, bu_scope_id = cb_scope_id p,
               bu_period = cb_period p, bu_limit = cb_limit p, bu_spent = 0, bu_period_start = start,
               bu_period_end = akhir, bu_action = action, bu_threshold_pct = threshold, bu_alerted_at = None,
               bu_exceeded_alerted_at = None, bu_enabled = True, bu_created_at = now\<rparr>
      in (tabel @ [b], b))"

text \<open>\<^verbatim>\<open>scopeArrays\<close> and \<^verbatim>\<open>AddSpend\<close>.\<close>

definition scope_arrays :: "target list \<Rightarrow> (string \<times> string) list" where
  "scope_arrays targets =
     map (\<lambda>t. (tg_scope t, tg_id t)) (filter (\<lambda>t. \<not> (tg_scope t = [] \<or> tg_scope t = ps_global \<or> tg_id t = [])) targets)"

definition terkena :: "target list \<Rightarrow> waktu \<Rightarrow> budget \<Rightarrow> bool" where
  "terkena targets now b \<longleftrightarrow> masih_berlaku now b \<and>
     (bu_scope b = ps_global \<or> (bu_scope b, bu_scope_id b) \<in> set (scope_arrays targets))"

definition add_spend :: "target list \<Rightarrow> usd \<Rightarrow> waktu \<Rightarrow> budget list \<Rightarrow> galat_anggaran + budget list \<times> nat" where
  "add_spend targets amount now tabel =
     (if amount = 0 then Inr (tabel, 0)
      else if amount < 0 then Inl Galat_jumlah_negatif
      else Inr (map (\<lambda>b. if terkena targets now b then b\<lparr>bu_spent := bu_spent b + amount\<rparr> else b) tabel,
                length (filter (terkena targets now) tabel)))"

text \<open>Updates of one row by its identifier, which is the primary key.\<close>

definition ubah :: "string \<Rightarrow> (budget \<Rightarrow> budget) \<Rightarrow> budget list \<Rightarrow> budget list" where
  "ubah i f tabel = map (\<lambda>b. if bu_id b = i then f b else b) tabel"

definition get_budget :: "string \<Rightarrow> budget list \<Rightarrow> galat_anggaran + budget" where
  "get_budget i tabel = (case List.find (\<lambda>b. bu_id b = i) tabel of Some b \<Rightarrow> Inr b | None \<Rightarrow> Inl Galat_tidak_ada)"

definition ubah_dan_ambil :: "string \<Rightarrow> (budget \<Rightarrow> budget) \<Rightarrow> budget list \<Rightarrow> budget list \<times> (galat_anggaran + budget)" where
  "ubah_dan_ambil i f tabel = (let tabel' = ubah i f tabel in (tabel', get_budget i tabel'))"

definition reset_period :: "string \<Rightarrow> waktu \<Rightarrow> waktu option \<Rightarrow> budget list \<Rightarrow> budget list \<times> (galat_anggaran + budget)" where
  "reset_period i start akhir tabel =
     ubah_dan_ambil i (\<lambda>b. b\<lparr>bu_spent := 0, bu_period_start := start, bu_period_end := akhir,
       bu_alerted_at := None, bu_exceeded_alerted_at := None\<rparr>) tabel"

definition reset_period_with_spend ::
    "string \<Rightarrow> waktu \<Rightarrow> waktu option \<Rightarrow> usd \<Rightarrow> waktu \<Rightarrow> waktu option \<Rightarrow> budget list \<Rightarrow>
     budget list \<times> (galat_anggaran + budget)" where
  "reset_period_with_spend i start akhir spent expected_start expected_end tabel =
     (let cocok = (\<lambda>b. bu_id b = i \<and> bu_period_start b = expected_start \<and> bu_period_end b = expected_end)
      in if \<not> list_ex cocok tabel
         then (tabel, case get_budget i tabel of Inl err \<Rightarrow> Inl err | Inr _ \<Rightarrow> Inl Galat_konflik)
         else let tabel' = map (\<lambda>b. if cocok b
                  then b\<lparr>bu_spent := spent, bu_period_start := start, bu_period_end := akhir,
                         bu_alerted_at := None, bu_exceeded_alerted_at := None\<rparr> else b) tabel
              in (tabel', get_budget i tabel'))"

definition mark_threshold_alerted :: "string \<Rightarrow> waktu \<Rightarrow> budget list \<Rightarrow> budget list \<times> bool" where
  "mark_threshold_alerted i now tabel =
     (let kena = (\<lambda>b. bu_id b = i \<and> bu_alerted_at b = None)
      in (map (\<lambda>b. if kena b then b\<lparr>bu_alerted_at := Some now\<rparr> else b) tabel, length (filter kena tabel) = 1))"

definition mark_exceeded_alerted :: "string \<Rightarrow> waktu \<Rightarrow> budget list \<Rightarrow> budget list \<times> bool" where
  "mark_exceeded_alerted i now tabel =
     (let kena = (\<lambda>b. bu_id b = i \<and> bu_exceeded_alerted_at b = None)
      in (map (\<lambda>b. if kena b then b\<lparr>bu_exceeded_alerted_at := Some now\<rparr> else b) tabel, length (filter kena tabel) = 1))"

definition set_budget_enabled :: "string \<Rightarrow> bool \<Rightarrow> budget list \<Rightarrow> budget list \<times> (galat_anggaran + budget)" where
  "set_budget_enabled i enabled tabel = ubah_dan_ambil i (\<lambda>b. b\<lparr>bu_enabled := enabled\<rparr>) tabel"

definition delete_budget :: "string \<Rightarrow> budget list \<Rightarrow> budget list \<times> (galat_anggaran + unit)" where
  "delete_budget i tabel =
     (filter (\<lambda>b. bu_id b \<noteq> i) tabel,
      if list_ex (\<lambda>b. bu_id b = i) tabel then Inr () else Inl Galat_tidak_ada)"

record update_budget_params =
  ub_name :: "string option"
  ub_limit :: "usd option"
  ub_action :: "string option"
  ub_threshold_pct :: "int option"
  ub_enabled :: "bool option"

definition pilih :: "'a option \<Rightarrow> 'a \<Rightarrow> 'a" where
  "pilih v lama = (case v of Some x \<Rightarrow> x | None \<Rightarrow> lama)"

definition update_budget :: "string \<Rightarrow> update_budget_params \<Rightarrow> budget list \<Rightarrow> budget list \<times> (galat_anggaran + budget)" where
  "update_budget i p tabel =
     (if ub_name p = None \<and> ub_limit p = None \<and> ub_action p = None \<and> ub_threshold_pct p = None \<and> ub_enabled p = None
      then (tabel, Inl Galat_tanpa_perubahan)
      else ubah_dan_ambil i (\<lambda>b. b\<lparr>bu_name := pilih (ub_name p) (bu_name b), bu_limit := pilih (ub_limit p) (bu_limit b),
             bu_action := pilih (ub_action p) (bu_action b), bu_threshold_pct := pilih (ub_threshold_pct p) (bu_threshold_pct b),
             bu_enabled := pilih (ub_enabled p) (bu_enabled b)\<rparr>) tabel)"

section \<open>Lemmas\<close>

text \<open>A period reset is won once: a second reset that expects the window of the first finds another one.\<close>

lemma reset_once:
  assumes "reset_period_with_spend i start akhir spent es ee tabel = (tabel', Inr b)" and "(start, akhir) \<noteq> (es, ee)"
  shows "\<exists>err. reset_period_with_spend i start2 akhir2 spent2 es ee tabel' = (tabel', Inl err)"
proof -
  define ganti where "ganti = (\<lambda>b::budget. if bu_id b = i \<and> bu_period_start b = es \<and> bu_period_end b = ee
      then b\<lparr>bu_spent := spent, bu_period_start := start, bu_period_end := akhir,
             bu_alerted_at := None, bu_exceeded_alerted_at := None\<rparr> else b)"
  have t: "tabel' = map ganti tabel"
    using assms(1) unfolding reset_period_with_spend_def Let_def ganti_def by (simp split: if_splits sum.splits)
  have "\<not> (bu_id (ganti b) = i \<and> bu_period_start (ganti b) = es \<and> bu_period_end (ganti b) = ee)" for b
    using assms(2) by (simp add: ganti_def)
  then have "\<forall>b\<in>set tabel'. \<not> (bu_id b = i \<and> bu_period_start b = es \<and> bu_period_end b = ee)"
    unfolding t by simp
  then have "\<not> list_ex (\<lambda>b. bu_id b = i \<and> bu_period_start b = es \<and> bu_period_end b = ee) tabel'"
    by (simp add: list_ex_iff)
  then show ?thesis by (auto simp: reset_period_with_spend_def Let_def split: sum.split)
qed

section \<open>Properties\<close>

text \<open>C40.  The threshold alert on 64-bit amounts: it never stays silent once the share of the limit is
  reached, whatever the sizes, and for limits up to \<^verbatim>\<open>MaxInt64/100\<close> units it is exact.\<close>

theorem alert_threshold_exact:
  assumes b: "bu_enabled b" "bu_alerted_at b = None" and lim: "0 < bu_limit b" "in_i64 (bu_limit b)"
    and pct: "0 < bu_threshold_pct b" "bu_threshold_pct b \<le> 100" and spent: "0 \<le> bu_spent b" "bu_spent b < bu_limit b"
  shows "(bu_limit b * bu_threshold_pct b \<le> bu_spent b * 100 \<longrightarrow> should_alert_threshold b) \<and>
    (bu_limit b \<le> max_i64 div 100 \<longrightarrow>
       should_alert_threshold b = (bu_limit b * bu_threshold_pct b \<le> bu_spent b * 100))"
proof -
  let ?l = "bu_limit b" and ?s = "bu_spent b" and ?p = "bu_threshold_pct b"
  have unf: "should_alert_threshold b =
     (if max_i64 div 100 < ?s then True else if max_i64 div ?p < ?l then wrap64 (?l div 100 * ?p) \<le> ?s
      else wrap64 (?l * ?p) \<le> wrap64 (?s * 100))"
    using b lim pct spent by (simp add: should_alert_threshold_def exceeded_def Let_def go_div_nonneg)
  have w: "wrap64 (?l div 100 * ?p) = ?l div 100 * ?p"
  proof -
    have "0 \<le> ?l div 100" using lim(1) by simp
    moreover have "?l div 100 * ?p \<le> ?l div 100 * 100" using lim(1) pct by (intro mult_left_mono) auto
    moreover have "?l div 100 * 100 \<le> ?l" by (simp add: minus_mod_eq_div_mult [symmetric] lim(1) less_imp_le)
    moreover have "0 \<le> ?l div 100 * ?p" using lim(1) pct(1) by (intro mult_nonneg_nonneg) auto
    ultimately show ?thesis using lim(2) by (intro wrap64_id) (auto simp: in_i64_def)
  qed
  have w2: "wrap64 (?l * ?p) = ?l * ?p" if "\<not> max_i64 div ?p < ?l"
  proof -
    have "?l * ?p \<le> max_i64 div ?p * ?p" using that pct(1) by (intro mult_right_mono) auto
    also have "\<dots> \<le> max_i64" using pct(1) by (simp add: minus_mod_eq_div_mult [symmetric])
    finally show ?thesis using lim(1) pct(1) by (intro wrap64_id in_i64_nonneg) auto
  qed
  have w3: "wrap64 (?s * 100) = ?s * 100" if "\<not> max_i64 div 100 < ?s"
    using that spent(1) by (intro wrap64_id in_i64_nonneg) auto
  have "should_alert_threshold b" if h: "?l * ?p \<le> ?s * 100"
  proof -
    have "?l div 100 * ?p * 100 \<le> ?l * ?p"
    proof -
      have "?l div 100 * 100 \<le> ?l" by (simp add: minus_mod_eq_div_mult [symmetric] lim(1) less_imp_le)
      then have "(?l div 100 * 100) * ?p \<le> ?l * ?p" using pct(1) by (intro mult_right_mono) auto
      then show ?thesis by (simp add: mult.assoc mult.commute mult.left_commute)
    qed
    with h have "?l div 100 * ?p \<le> ?s" by linarith
    then show ?thesis using h w w2 w3 by (simp add: unf)
  qed
  moreover have "should_alert_threshold b = (?l * ?p \<le> ?s * 100)" if "?l \<le> max_i64 div 100"
  proof -
    have "max_i64 div 100 \<le> max_i64 div ?p" using pct by (intro zdiv_mono2) auto
    then show ?thesis using that spent w2 w3 by (simp add: unf)
  qed
  ultimately show ?thesis by blast
qed

lemma alert_threshold_exact_witness:
  "should_alert_threshold \<lparr>bu_id = ''b1'', bu_name = ''g'', bu_scope = ps_global, bu_scope_id = [], bu_period = ''total'',
     bu_limit = 1000, bu_spent = 800, bu_period_start = 0, bu_period_end = None, bu_action = action_block, bu_threshold_pct = 80,
     bu_alerted_at = None, bu_exceeded_alerted_at = None, bu_enabled = True, bu_created_at = 0\<rparr>"
  by (rule mp [OF conjunct1 [OF alert_threshold_exact]]) (simp_all add: in_i64_def)

end
