(* ===== verification/Billing.thy ===== *)
theory Billing
  imports Budgets
begin

text \<open>
  The budget enforcer, \<^verbatim>\<open>internal/billing/billing.go\<close>: an in-memory copy of the active budgets, the
  check, the reservation of an estimate (\<^verbatim>\<open>Tahan\<close>) and the announcements.  Amounts stay in the range
  of the money columns, so 64-bit sums do not wrap; each operation runs under the enforcer's mutex and
  reads the clock once.
\<close>

definition default_budget_ttl :: durasi where "default_budget_ttl = 5 * detik"
definition hold_ttl_bawaan :: durasi where "hold_ttl_bawaan = 10 * menit"

record tahanan =
  th_jumlah :: usd
  th_sampai :: waktu

record salinan_anggaran =
  sg_global :: "budget list"
  sg_per_cakupan :: "string \<Rightarrow> (string \<Rightarrow> budget list option) option"

definition salinan_anggaran_kosong :: salinan_anggaran where
  "salinan_anggaran_kosong = \<lparr>sg_global = [], sg_per_cakupan = (\<lambda>_. None)\<rparr>"

text \<open>The loop of \<^verbatim>\<open>muat\<close> over the rows.\<close>

definition langkah_anggaran :: "salinan_anggaran \<Rightarrow> budget \<Rightarrow> salinan_anggaran" where
  "langkah_anggaran s b =
     (if bu_scope b = ps_global then s\<lparr>sg_global := sg_global s @ [b]\<rparr>
      else let per = (case sg_per_cakupan s (bu_scope b) of None \<Rightarrow> (\<lambda>_. None) | Some m \<Rightarrow> m);
               lama = (case per (bu_scope_id b) of None \<Rightarrow> [] | Some bs \<Rightarrow> bs)
           in s\<lparr>sg_per_cakupan := (sg_per_cakupan s)(bu_scope b \<mapsto> per(bu_scope_id b \<mapsto> lama @ [b]))\<rparr>)"

definition bangun_anggaran :: "budget list \<Rightarrow> salinan_anggaran" where
  "bangun_anggaran rows = foldl langkah_anggaran salinan_anggaran_kosong rows"

record enforcer =
  ef_ttl :: durasi
  ef_ttl_tahan :: durasi
  ef_salinan :: "salinan_anggaran salinan"
  ef_tahan :: "(string \<times> tahanan list) list"

definition new_enforcer :: enforcer where
  "new_enforcer = \<lparr>ef_ttl = default_budget_ttl, ef_ttl_tahan = hold_ttl_bawaan,
     ef_salinan = salinan_baru salinan_anggaran_kosong, ef_tahan = []\<rparr>"

definition muat_anggaran :: "budget baris_kebijakan \<Rightarrow> waktu \<Rightarrow> enforcer \<Rightarrow> enforcer" where
  "muat_anggaran src now e = e\<lparr>ef_salinan := muat_salinan (ef_ttl e) bangun_anggaran src now (ef_salinan e)\<rparr>"

definition invalidate_budgets :: "enforcer \<Rightarrow> enforcer" where
  "invalidate_budgets e = e\<lparr>ef_salinan := batalkan (ef_salinan e)\<rparr>"

text \<open>The budgets a request is held against, in the order the code visits them.\<close>

definition anggaran_berlaku :: "salinan_anggaran \<Rightarrow> target list \<Rightarrow> budget list" where
  "anggaran_berlaku s targets =
     sg_global s @
     concat (map (\<lambda>t. if tg_scope t = ps_global \<or> tg_id t = [] then []
                      else case sg_per_cakupan s (tg_scope t) of
                             None \<Rightarrow> []
                           | Some per \<Rightarrow> (case per (tg_id t) of None \<Rightarrow> [] | Some bs \<Rightarrow> bs)) targets)"

record verdict =
  vd_blocked :: bool
  vd_budget :: "budget option"
  vd_alerts :: "budget list"

definition verdict_kosong :: verdict where
  "verdict_kosong = \<lparr>vd_blocked = False, vd_budget = None, vd_alerts = []\<rparr>"

text \<open>\<^verbatim>\<open>Check\<close>: among the blocking budgets the one with the least left is reported.\<close>

definition periksa :: "verdict \<Rightarrow> budget \<Rightarrow> verdict" where
  "periksa v b =
     (let v1 = (if should_alert_threshold b \<or> should_alert_exceeded b then v\<lparr>vd_alerts := vd_alerts v @ [b]\<rparr> else v)
      in if \<not> blocks b then v1
         else if (case vd_budget v1 of None \<Rightarrow> True | Some c \<Rightarrow> bu_limit b - bu_spent b < bu_limit c - bu_spent c)
         then v1\<lparr>vd_blocked := True, vd_budget := Some b\<rparr> else v1)"

definition check :: "budget baris_kebijakan \<Rightarrow> waktu \<Rightarrow> target list \<Rightarrow> enforcer \<Rightarrow> enforcer \<times> verdict" where
  "check src now targets e =
     (let e1 = muat_anggaran src now e
      in (e1, foldl periksa verdict_kosong (anggaran_berlaku (sa_isi (ef_salinan e1)) targets)))"

text \<open>\<^verbatim>\<open>sapuTahanTerkunci\<close>, \<^verbatim>\<open>totalTahanTerkunci\<close>.\<close>

definition sapu_tahan :: "waktu \<Rightarrow> (string \<times> tahanan list) list \<Rightarrow> (string \<times> tahanan list) list" where
  "sapu_tahan sekarang ts =
     filter (\<lambda>(i, ds). ds \<noteq> []) (map (\<lambda>(i, ds). (i, filter (\<lambda>t. sekarang < th_sampai t) ds)) ts)"

definition daftar_tahan :: "(string \<times> tahanan list) list \<Rightarrow> string \<Rightarrow> tahanan list" where
  "daftar_tahan ts i = (case map_of ts i of None \<Rightarrow> [] | Some ds \<Rightarrow> ds)"

definition total_tahan :: "(string \<times> tahanan list) list \<Rightarrow> string \<Rightarrow> waktu \<Rightarrow> usd" where
  "total_tahan ts i sekarang =
     sum_list (map th_jumlah (filter (\<lambda>t. sekarang < th_sampai t) (daftar_tahan ts i)))"

definition menahan :: "budget \<Rightarrow> bool" where
  "menahan b \<longleftrightarrow> \<not> (\<not> bu_enabled b \<or> bu_action b \<noteq> action_block)"

text \<open>The closure \<^verbatim>\<open>periksa\<close> of \<^verbatim>\<open>Tahan\<close>; the second part is what the reported budget has left.\<close>

definition periksa_tahan ::
    "(string \<times> tahanan list) list \<Rightarrow> waktu \<Rightarrow> usd \<Rightarrow> verdict \<times> usd \<Rightarrow> budget \<Rightarrow> verdict \<times> usd" where
  "periksa_tahan ts sekarang jumlah vs b =
     (case vs of (v, sisa_pemblokir) \<Rightarrow>
        let v1 = (if should_alert_threshold b \<or> should_alert_exceeded b then v\<lparr>vd_alerts := vd_alerts v @ [b]\<rparr> else v)
        in if \<not> menahan b then (v1, sisa_pemblokir)
           else let sisa = bu_limit b - bu_spent b - total_tahan ts (bu_id b) sekarang
                in if sisa < jumlah \<and> (vd_budget v1 = None \<or> sisa < sisa_pemblokir)
                   then (v1\<lparr>vd_blocked := True, vd_budget := Some b\<rparr>, sisa)
                   else (v1, sisa_pemblokir))"

definition pasang_tahan :: "tahanan \<Rightarrow> (string \<times> tahanan list) list \<Rightarrow> budget \<Rightarrow> (string \<times> tahanan list) list" where
  "pasang_tahan t ts b = (if \<not> menahan b then ts else AList.update (bu_id b) (daftar_tahan ts (bu_id b) @ [t]) ts)"

definition tahan ::
    "budget baris_kebijakan \<Rightarrow> waktu \<Rightarrow> target list \<Rightarrow> usd \<Rightarrow> enforcer \<Rightarrow> enforcer \<times> verdict" where
  "tahan src now targets jumlah e =
     (if jumlah \<le> 0 then check src now targets e
      else let e1 = muat_anggaran src now e;
               ts = sapu_tahan now (ef_tahan e1);
               berlaku = anggaran_berlaku (sa_isi (ef_salinan e1)) targets;
               v = fst (foldl (periksa_tahan ts now jumlah) (verdict_kosong, 0) berlaku)
           in if vd_blocked v then (e1\<lparr>ef_tahan := ts\<rparr>, v)
              else (e1\<lparr>ef_tahan := foldl (pasang_tahan \<lparr>th_jumlah = jumlah, th_sampai = now + ef_ttl_tahan e\<rparr>) ts berlaku\<rparr>, v))"

text \<open>\<^verbatim>\<open>Remaining\<close>: the least left among the budgets that apply.\<close>

definition remaining_budget :: "budget baris_kebijakan \<Rightarrow> waktu \<Rightarrow> target list \<Rightarrow> enforcer \<Rightarrow> enforcer \<times> usd option" where
  "remaining_budget src now targets e =
     (let e1 = muat_anggaran src now e
      in (e1, foldl (\<lambda>acc b. case acc of None \<Rightarrow> Some (remaining b)
                             | Some sisa \<Rightarrow> Some (if remaining b < sisa then remaining b else sisa)) None
                (anggaran_berlaku (sa_isi (ef_salinan e1)) targets)))"

text \<open>\<^verbatim>\<open>Announce\<close>: the marks in the source decide who announces; the result lists the events sent.\<close>

record 's penanda =
  pn_ambang :: "string \<Rightarrow> 's \<Rightarrow> 's \<times> (string + bool)"
  pn_terlampaui :: "string \<Rightarrow> 's \<Rightarrow> 's \<times> (string + bool)"

definition umumkan_ambang :: "'s penanda \<Rightarrow> budget \<Rightarrow> 's \<Rightarrow> 's \<times> (string \<times> string) list" where
  "umumkan_ambang P b s =
     (case pn_ambang P (bu_id b) s of
        (s', Inr True) \<Rightarrow> (s', [(''budget.threshold'', bu_id b)])
      | (s', _) \<Rightarrow> (s', []))"

definition umumkan_terlampaui :: "'s penanda \<Rightarrow> budget \<Rightarrow> 's \<Rightarrow> 's \<times> (string \<times> string) list" where
  "umumkan_terlampaui P b s =
     (case pn_terlampaui P (bu_id b) s of
        (s', Inr True) \<Rightarrow> (s', [(''budget.exceeded'', bu_id b)])
      | (s', _) \<Rightarrow> (s', []))"

fun umumkan :: "'s penanda \<Rightarrow> budget list \<Rightarrow> 's \<Rightarrow> 's \<times> (string \<times> string) list" where
  "umumkan P [] s = (s, [])"
| "umumkan P (b # bs) s =
     (case (if should_alert_threshold b then umumkan_ambang P b s
            else if should_alert_exceeded b \<and> bu_alerted_at b = None \<and> 0 < bu_threshold_pct b then umumkan_ambang P b s
            else (s, [])) of
        (s1, ev1) \<Rightarrow>
          (case (if should_alert_exceeded b then umumkan_terlampaui P b s1 else (s1, [])) of
             (s2, ev2) \<Rightarrow> (case umumkan P bs s2 of (s3, ev3) \<Rightarrow> (s3, ev1 @ ev2 @ ev3))))"

definition announce :: "'s penanda \<Rightarrow> budget list \<Rightarrow> 's \<Rightarrow> enforcer \<Rightarrow> 's \<times> (string \<times> string) list \<times> enforcer" where
  "announce P bs s e = (case umumkan P bs s of (s', ev) \<Rightarrow> (s', ev, invalidate_budgets e))"

section \<open>Lemmas\<close>

definition mengena :: "target list \<Rightarrow> budget \<Rightarrow> bool" where
  "mengena targets b \<longleftrightarrow> bu_scope b = ps_global \<or>
     (\<exists>t\<in>set targets. tg_scope t = bu_scope b \<and> tg_id t = bu_scope_id b \<and> tg_id t \<noteq> [])"

lemma per_bangun:
  "(case sg_per_cakupan (bangun_anggaran rows) sc of None \<Rightarrow> []
      | Some per \<Rightarrow> (case per i of None \<Rightarrow> [] | Some bs \<Rightarrow> bs)) =
     filter (\<lambda>b. bu_scope b \<noteq> ps_global \<and> bu_scope b = sc \<and> bu_scope_id b = i) rows"
proof (induction rows rule: rev_induct)
  case Nil
  then show ?case by (simp add: bangun_anggaran_def salinan_anggaran_kosong_def)
next
  case (snoc b rows)
  have "bangun_anggaran (rows @ [b]) = langkah_anggaran (bangun_anggaran rows) b" by (simp add: bangun_anggaran_def)
  with snoc show ?case by (auto simp: langkah_anggaran_def Let_def split: option.splits if_splits)
qed

lemma global_bangun: "sg_global (bangun_anggaran rows) = filter (\<lambda>b. bu_scope b = ps_global) rows"
proof (induction rows rule: rev_induct)
  case Nil
  then show ?case by (simp add: bangun_anggaran_def salinan_anggaran_kosong_def)
next
  case (snoc b rows)
  have "bangun_anggaran (rows @ [b]) = langkah_anggaran (bangun_anggaran rows) b" by (simp add: bangun_anggaran_def)
  with snoc show ?case by (simp add: langkah_anggaran_def Let_def)
qed

lemma anggaran_berlaku_set:
  "b \<in> set (anggaran_berlaku (bangun_anggaran rows) targets) \<longleftrightarrow> b \<in> set rows \<and> mengena targets b"
proof -
  have "set (anggaran_berlaku (bangun_anggaran rows) targets) =
      {b \<in> set rows. bu_scope b = ps_global} \<union>
      (\<Union>t\<in>set targets. if tg_scope t = ps_global \<or> tg_id t = [] then {}
         else {b \<in> set rows. bu_scope b \<noteq> ps_global \<and> bu_scope b = tg_scope t \<and> bu_scope_id b = tg_id t})"
    by (auto simp: anggaran_berlaku_def per_bangun global_bangun split: if_splits)
  then show ?thesis by (fastforce simp: mengena_def split: if_splits)
qed

text \<open>What a verdict of the reservation says.\<close>

lemma periksa_tahan_blocked:
  "\<not> vd_blocked (fst (foldl (periksa_tahan ts now j) (v, s) bs)) \<Longrightarrow> (vd_budget v = None \<longrightarrow> \<not> vd_blocked v) \<Longrightarrow>
     \<not> vd_blocked v \<and> (vd_budget v = None \<longrightarrow>
       (\<forall>b\<in>set bs. menahan b \<longrightarrow> j \<le> bu_limit b - bu_spent b - total_tahan ts (bu_id b) now))"
proof (induction bs arbitrary: v s)
  case Nil
  then show ?case by simp
next
  case (Cons b bs)
  obtain v1 s1 where p: "periksa_tahan ts now j (v, s) b = (v1, s1)" by (cases "periksa_tahan ts now j (v, s) b")
  have v1: "vd_budget v1 = None \<longrightarrow> vd_budget v = None \<and> vd_blocked v1 = vd_blocked v"
      "vd_blocked v \<longrightarrow> vd_blocked v1" "vd_budget v1 = None \<longrightarrow> menahan b \<longrightarrow> j \<le> bu_limit b - bu_spent b - total_tahan ts (bu_id b) now \<or> vd_budget v \<noteq> None"
      "vd_budget v1 \<noteq> None \<longrightarrow> vd_budget v = None \<longrightarrow> vd_blocked v1"
    using p by (auto simp: periksa_tahan_def Let_def split: if_splits)
  have IH: "\<not> vd_blocked v1 \<and> (vd_budget v1 = None \<longrightarrow>
       (\<forall>b\<in>set bs. menahan b \<longrightarrow> j \<le> bu_limit b - bu_spent b - total_tahan ts (bu_id b) now))"
    using Cons.prems v1 by (intro Cons.IH) (auto simp: p)
  then show ?case using v1 by auto
qed

lemma daftar_pasang:
  "daftar_tahan (foldl (pasang_tahan t) ts bs) i =
     daftar_tahan ts i @ replicate (length (filter (\<lambda>b. menahan b \<and> bu_id b = i) bs)) t"
proof (induction bs arbitrary: ts)
  case (Cons b bs)
  have "daftar_tahan (pasang_tahan t ts b) i = daftar_tahan ts i @ (if menahan b \<and> bu_id b = i then [t] else [])"
    by (simp add: pasang_tahan_def daftar_tahan_def update_conv')
  with Cons show ?case by (simp add: replicate_append_same)
qed simp

lemma map_of_sapu:
  "distinct (map fst ts) \<Longrightarrow> map_of (sapu_tahan now ts) i =
     (case map_of ts i of None \<Rightarrow> None
      | Some ds \<Rightarrow> let hidup = filter (\<lambda>t. now < th_sampai t) ds in if hidup = [] then None else Some hidup)"
proof (induction ts)
  case Nil
  then show ?case by (simp add: sapu_tahan_def)
next
  case (Cons x ts)
  obtain k ds where x: "x = (k, ds)" by (cases x)
  have eq: "sapu_tahan now (x # ts) =
      (let h = filter (\<lambda>t. now < th_sampai t) ds in if h = [] then [] else [(k, h)]) @ sapu_tahan now ts"
    by (simp add: sapu_tahan_def x Let_def)
  show ?case
  proof (cases "k = i")
    case True
    with Cons.prems have "map_of ts i = None" by (simp add: x map_of_eq_None_iff)
    with True Cons show ?thesis unfolding eq by (simp add: x Let_def)
  next
    case False
    with Cons show ?thesis unfolding eq by (simp add: x Let_def)
  qed
qed

lemma daftar_sapu:
  "distinct (map fst ts) \<Longrightarrow>
   daftar_tahan (sapu_tahan now ts) i = filter (\<lambda>t. now < th_sampai t) (daftar_tahan ts i)"
  by (simp add: daftar_tahan_def map_of_sapu Let_def split: option.split)

lemma distinct_sapu: "distinct (map fst ts) \<Longrightarrow> distinct (map fst (sapu_tahan now ts))"
  unfolding sapu_tahan_def by (induction ts) (auto simp: image_iff)

lemma distinct_pasang: "distinct (map fst ts) \<Longrightarrow> distinct (map fst (foldl (pasang_tahan t) ts bs))"
  by (induction bs arbitrary: ts) (auto simp: pasang_tahan_def distinct_update)

lemma total_sapu:
  "distinct (map fst ts) \<Longrightarrow> now \<le> later \<Longrightarrow> total_tahan (sapu_tahan now ts) i later = total_tahan ts i later"
proof -
  assume d: "distinct (map fst ts)" and le: "now \<le> later"
  have "filter (\<lambda>t. later < th_sampai t) (filter (\<lambda>t. now < th_sampai t) xs) = filter (\<lambda>t. later < th_sampai t) xs"
    for xs :: "tahanan list"
    using le by (induction xs) auto
  then show ?thesis unfolding total_tahan_def daftar_sapu [OF d] by metis
qed

lemma total_pasang:
  assumes "0 \<le> th_jumlah t"
  shows "total_tahan ts i later +
     (if later < th_sampai t \<and> (\<exists>b\<in>set bs. menahan b \<and> bu_id b = i) then th_jumlah t else 0)
     \<le> total_tahan (foldl (pasang_tahan t) ts bs) i later"
proof -
  define n where "n = length (filter (\<lambda>b. menahan b \<and> bu_id b = i) bs)"
  have "total_tahan (foldl (pasang_tahan t) ts bs) i later =
      total_tahan ts i later + (if later < th_sampai t then int n * th_jumlah t else 0)"
    unfolding total_tahan_def daftar_pasang n_def [symmetric] by (simp add: sum_list_replicate)
  moreover have "1 \<le> n" if "\<exists>b\<in>set bs. menahan b \<and> bu_id b = i"
    using that unfolding n_def by (metis (mono_tags, lifting) One_nat_def Suc_leI filter_empty_conv length_greater_0_conv)
  then have "th_jumlah t \<le> int n * th_jumlah t" if "\<exists>b\<in>set bs. menahan b \<and> bu_id b = i"
    using that assms by (metis mult_le_cancel_right1 nat_int_comparison(3) not_le of_nat_1)
  moreover have "0 \<le> int n * th_jumlah t" using assms by simp
  ultimately show ?thesis by auto
qed

section \<open>One gateway and its budget table\<close>

text \<open>
  The enforcer together with the table it reads: requests are admitted by \<^const>\<open>tahan\<close> with an
  estimate, and while they are young enough their real cost is booked by \<^const>\<open>add_spend\<close> (the
  booking adds the provider to the targets, as the usage recorder does).  The database answers every
  query.  A request is young until its hold has only one TTL of the copy left to live; the plan
  budget of the executor keeps real requests far below that.
\<close>

datatype status_permintaan = Berjalan | Tercatat waktu

record permintaan =
  pm_targets :: "target list"
  pm_estimasi :: usd
  pm_mulai :: waktu
  pm_status :: status_permintaan

record sistem =
  si_db :: "budget list"
  si_ef :: enforcer
  si_log :: "permintaan list"
  si_now :: waktu

definition muda :: "enforcer \<Rightarrow> waktu \<Rightarrow> permintaan \<Rightarrow> bool" where
  "muda e now r \<longleftrightarrow> now < pm_mulai r + ef_ttl_tahan e - ef_ttl e"

definition admisi :: "waktu \<Rightarrow> target list \<Rightarrow> usd \<Rightarrow> sistem \<Rightarrow> sistem \<times> verdict" where
  "admisi now targets jumlah s =
     (case tahan (Some (Inr (active_budgets now (si_db s)))) now targets jumlah (si_ef s) of
        (e, v) \<Rightarrow>
          (s\<lparr>si_ef := e, si_now := now,
             si_log := (if vd_blocked v then si_log s
                        else si_log s @ [\<lparr>pm_targets = targets, pm_estimasi = jumlah, pm_mulai = now, pm_status = Berjalan\<rparr>])\<rparr>, v))"

inductive sistem_run :: "budget list \<Rightarrow> sistem \<Rightarrow> bool" for db0 where
  mulai: "0 < now \<Longrightarrow> sistem_run db0 \<lparr>si_db = db0, si_ef = new_enforcer, si_log = [], si_now = now\<rparr>"
| tahan_lewat: "sistem_run db0 s \<Longrightarrow> si_now s \<le> now \<Longrightarrow> 0 < jumlah \<Longrightarrow>
    sistem_run db0 (fst (admisi now targets jumlah s))"
| catat_biaya: "sistem_run db0 s \<Longrightarrow> si_now s \<le> now \<Longrightarrow> j < length (si_log s) \<Longrightarrow> si_log s ! j = r \<Longrightarrow>
    pm_status r = Berjalan \<Longrightarrow> muda (si_ef s) now r \<Longrightarrow> 0 \<le> biaya \<Longrightarrow> biaya \<le> pm_estimasi r \<Longrightarrow>
    tg_scope t = ps_provider \<Longrightarrow> add_spend (pm_targets r @ [t]) biaya now (si_db s) = Inr (db', n) \<Longrightarrow>
    sistem_run db0 (s\<lparr>si_db := db', si_now := now, si_log := (si_log s)[j := r\<lparr>pm_status := Tercatat now\<rparr>]\<rparr>)"
| batal: "sistem_run db0 s \<Longrightarrow> sistem_run db0 (s\<lparr>si_ef := invalidate_budgets (si_ef s)\<rparr>)"
| periksa_saja: "sistem_run db0 s \<Longrightarrow> si_now s \<le> now \<Longrightarrow>
    sistem_run db0 (s\<lparr>si_ef := fst (check (Some (Inr (active_budgets now (si_db s)))) now targets (si_ef s)), si_now := now\<rparr>)"

text \<open>The estimates still counted against a budget: of requests that are running and young.\<close>

definition beban :: "(permintaan \<Rightarrow> bool) \<Rightarrow> permintaan list \<Rightarrow> int" where
  "beban P riwayat = sum_list (map (\<lambda>r. if P r then pm_estimasi r else 0) riwayat)"

definition tertunda :: "budget \<Rightarrow> sistem \<Rightarrow> int" where
  "tertunda b s = beban (\<lambda>r. mengena (pm_targets r) b \<and> pm_status r = Berjalan \<and> muda (si_ef s) (si_now s) r) (si_log s)"

text \<open>
  A blocking budget of any scope but a provider's: a provider is not known yet when a request reserves, so its budgets are booked
  and checked but never reserved.
\<close>

definition anggaran_dijaga :: "budget \<Rightarrow> bool" where
  "anggaran_dijaga b \<longleftrightarrow> bu_enabled b \<and> bu_action b = action_block \<and>
     bu_scope b \<noteq> ps_provider \<and> bu_scope b \<noteq> []"

lemma beban_append: "beban P (xs @ [r]) = beban P xs + (if P r then pm_estimasi r else 0)"
  by (simp add: beban_def)

lemma beban_mono:
  "\<forall>r\<in>set riwayat. 0 \<le> pm_estimasi r \<and> (P r \<longrightarrow> Q r) \<Longrightarrow> beban P riwayat \<le> beban Q riwayat"
  unfolding beban_def by (intro sum_list_mono) auto

lemma beban_or:
  "\<forall>r\<in>set riwayat. 0 \<le> pm_estimasi r \<and> \<not> (P r \<and> Q r) \<and> (P r \<or> Q r \<longrightarrow> T r) \<Longrightarrow> beban P riwayat + beban Q riwayat \<le> beban T riwayat"
  unfolding beban_def sum_list_addf [symmetric] by (intro sum_list_mono) auto

lemma beban_update:
  "j < length riwayat \<Longrightarrow> beban P (riwayat[j := r]) =
     beban P riwayat - (if P (riwayat ! j) then pm_estimasi (riwayat ! j) else 0) + (if P r then pm_estimasi r else 0)"
proof (induction riwayat arbitrary: j)
  case (Cons q riwayat)
  then show ?case by (cases j) (simp_all add: beban_def)
qed simp

abbreviation baris :: "budget \<Rightarrow> usd \<Rightarrow> budget" where "baris b x \<equiv> b\<lparr>bu_spent := x\<rparr>"

text \<open>Booked since the copy was read.\<close>

definition susulan :: "budget \<Rightarrow> waktu \<Rightarrow> permintaan \<Rightarrow> bool" where
  "susulan b t0 r \<longleftrightarrow> mengena (pm_targets r) b \<and> (\<exists>t. pm_status r = Tercatat t \<and> t0 \<le> t)"

definition salinan_cukup :: "budget \<Rightarrow> usd \<Rightarrow> permintaan list \<Rightarrow> waktu \<Rightarrow> salinan_anggaran salinan \<Rightarrow> bool" where
  "salinan_cukup b x riwayat now sal \<longleftrightarrow> 0 < sa_dimuat sal \<and> sa_dimuat sal \<le> now \<and>
     (\<exists>rows c. sa_isi sal = bangun_anggaran rows \<and> baris b c \<in> set rows \<and>
        x \<le> c + beban (susulan b (sa_dimuat sal)) riwayat)"

definition riwayat_sah :: "waktu \<Rightarrow> permintaan list \<Rightarrow> bool" where
  "riwayat_sah now riwayat \<longleftrightarrow> (\<forall>r\<in>set riwayat. 0 \<le> pm_estimasi r \<and>
     (\<forall>t. pm_status r = Tercatat t \<longrightarrow> t \<le> now \<and> t < pm_mulai r + hold_ttl_bawaan - default_budget_ttl))"

definition hidup :: "budget \<Rightarrow> waktu \<Rightarrow> permintaan \<Rightarrow> bool" where
  "hidup b later r \<longleftrightarrow> mengena (pm_targets r) b \<and> later < pm_mulai r + hold_ttl_bawaan"

definition enforcer_sah :: "budget \<Rightarrow> waktu \<Rightarrow> permintaan list \<Rightarrow> enforcer \<Rightarrow> bool" where
  "enforcer_sah b now riwayat e \<longleftrightarrow> ef_ttl e = default_budget_ttl \<and> ef_ttl_tahan e = hold_ttl_bawaan \<and>
     sa_gagal (ef_salinan e) = waktu_nol \<and> distinct (map fst (ef_tahan e)) \<and>
     (\<forall>later\<ge>now. beban (hidup b later) riwayat \<le> total_tahan (ef_tahan e) (bu_id b) later)"

definition sistem_sah :: "budget \<Rightarrow> sistem \<Rightarrow> bool" where
  "sistem_sah b s \<longleftrightarrow> 0 < si_now s \<and> enforcer_sah b (si_now s) (si_log s) (si_ef s) \<and> riwayat_sah (si_now s) (si_log s) \<and>
     (\<exists>x. baris b x \<in> set (si_db s) \<and> x + tertunda b s \<le> bu_limit b \<and>
        (sa_dimuat (ef_salinan (si_ef s)) = waktu_nol \<or> salinan_cukup b x (si_log s) (si_now s) (ef_salinan (si_ef s))))"

lemma waktu_nol_neg: "waktu_nol < 0"
  by (simp add: waktu_nol_def)

lemma mengena_baris [simp]: "mengena ts (baris b x) = mengena ts b"
  by (simp add: mengena_def)

lemma berlaku_mundur: "now \<le> later \<Longrightarrow> masih_berlaku later b \<Longrightarrow> masih_berlaku now b"
  by (auto simp: masih_berlaku_def split: option.splits)

lemma berlaku_baris [simp]: "masih_berlaku now (baris b x) = masih_berlaku now b"
  by (simp add: masih_berlaku_def)

lemma baris_aktif: "masih_berlaku now b \<Longrightarrow> baris b x \<in> set db \<Longrightarrow> baris b x \<in> set (active_budgets now db)"
  by (simp add: active_budgets_def)

text \<open>After a reload the copy is fresh and accounts for everything booked.\<close>

lemma muat_cukup:
  assumes g: "masih_berlaku now b" and sal: "sa_dimuat (ef_salinan e) = waktu_nol \<or> salinan_cukup b x riwayat now0 (ef_salinan e)"
    and e: "enforcer_sah b now0 riwayat e" and x: "baris b x \<in> set db" and now: "now0 \<le> now" "0 < now"
    and r: "riwayat_sah now0 riwayat"
  defines "e1 \<equiv> muat_anggaran (Some (Inr (active_budgets now db))) now e"
  shows "salinan_cukup b x riwayat now (ef_salinan e1) \<and> now < sa_dimuat (ef_salinan e1) + default_budget_ttl \<and>
    enforcer_sah b now riwayat e1 \<and> ef_tahan e1 = ef_tahan e"
proof (cases "segar (ef_ttl e) now (ef_salinan e)")
  case True
  then have "ef_salinan e1 = ef_salinan e" by (simp add: e1_def muat_anggaran_def muat_salinan_def)
  moreover have "sa_dimuat (ef_salinan e) \<noteq> waktu_nol" "now - sa_dimuat (ef_salinan e) < default_budget_ttl"
    using True e by (simp_all add: segar_def enforcer_sah_def)
  ultimately show ?thesis using sal e now
    by (auto simp: e1_def muat_anggaran_def salinan_cukup_def enforcer_sah_def)
next
  case False
  have "\<not> baru_gagal now (ef_salinan e)" using e by (simp add: baru_gagal_def enforcer_sah_def)
  with False have s1: "ef_salinan e1 = (ef_salinan e)\<lparr>sa_isi := bangun_anggaran (active_budgets now db), sa_dimuat := now,
      sa_pernah := True, sa_gagal := waktu_nol\<rparr>"
    by (simp add: e1_def muat_anggaran_def muat_salinan_def)
  have "0 \<le> beban (susulan b now) riwayat"
    using r by (auto simp: beban_def riwayat_sah_def intro!: sum_list_nonneg)
  then have "salinan_cukup b x riwayat now (ef_salinan e1)"
    using baris_aktif [OF g x] now(2) unfolding salinan_cukup_def s1
    by (auto intro!: exI [of _ "active_budgets now db"] exI [of _ x])
  then show ?thesis using e now
    by (simp add: s1 enforcer_sah_def default_budget_ttl_def) (simp add: e1_def muat_anggaran_def)
qed

text \<open>What is left when a reservation passes covers everything outstanding.\<close>

lemma cukup_untuk:
  assumes "salinan_cukup b x riwayat now sal" and fresh: "now < sa_dimuat sal + default_budget_ttl"
    and hold: "beban (hidup b now) riwayat \<le> tot" and r: "riwayat_sah now riwayat"
  shows "\<exists>rows c. sa_isi sal = bangun_anggaran rows \<and> baris b c \<in> set rows \<and>
     x + beban (\<lambda>r. mengena (pm_targets r) b \<and> pm_status r = Berjalan \<and> now < pm_mulai r + hold_ttl_bawaan - default_budget_ttl) riwayat
       \<le> c + tot"
proof -
  obtain rows c where c: "sa_isi sal = bangun_anggaran rows" "baris b c \<in> set rows"
    "x \<le> c + beban (susulan b (sa_dimuat sal)) riwayat" using assms(1) by (auto simp: salinan_cukup_def)
  have "beban (susulan b (sa_dimuat sal)) riwayat +
      beban (\<lambda>r. mengena (pm_targets r) b \<and> pm_status r = Berjalan \<and> now < pm_mulai r + hold_ttl_bawaan - default_budget_ttl) riwayat
      \<le> beban (hidup b now) riwayat"
  proof (rule beban_or, intro ballI conjI impI notI)
    fix q assume q: "q \<in> set riwayat"
    then show "0 \<le> pm_estimasi q" using r by (simp add: riwayat_sah_def)
    show False if "susulan b (sa_dimuat sal) q \<and> mengena (pm_targets q) b \<and> pm_status q = Berjalan \<and>
        now < pm_mulai q + hold_ttl_bawaan - default_budget_ttl"
      using that by (auto simp: susulan_def)
    assume "susulan b (sa_dimuat sal) q \<or> mengena (pm_targets q) b \<and> pm_status q = Berjalan \<and>
        now < pm_mulai q + hold_ttl_bawaan - default_budget_ttl"
    then show "hidup b now q"
    proof
      assume "susulan b (sa_dimuat sal) q"
      then obtain t where t: "mengena (pm_targets q) b" "pm_status q = Tercatat t" "sa_dimuat sal \<le> t" by (auto simp: susulan_def)
      then have "t < pm_mulai q + hold_ttl_bawaan - default_budget_ttl" using r q by (auto simp: riwayat_sah_def)
      with t fresh show ?thesis by (simp add: hidup_def)
    qed (simp add: hidup_def default_budget_ttl_def)
  qed
  with c hold show ?thesis by force
qed

text \<open>The reservation: what it answers and what it leaves.\<close>

lemma tahan_unfold:
  assumes "0 < jumlah"
  shows "tahan src now targets jumlah e =
     (let e1 = muat_anggaran src now e;
          ts = sapu_tahan now (ef_tahan e1);
          berlaku = anggaran_berlaku (sa_isi (ef_salinan e1)) targets;
          v = fst (foldl (periksa_tahan ts now jumlah) (verdict_kosong, 0) berlaku)
      in (e1\<lparr>ef_tahan := (if vd_blocked v then ts
            else foldl (pasang_tahan \<lparr>th_jumlah = jumlah, th_sampai = now + ef_ttl_tahan e\<rparr>) ts berlaku)\<rparr>, v))"
  using assms by (simp add: tahan_def Let_def)

lemma sistem_sah_admisi:
  assumes g: "anggaran_dijaga b" and mb: "masih_berlaku now b" and inv: "sistem_sah b s" and now: "si_now s \<le> now" and j: "0 < jumlah"
  shows "sistem_sah b (fst (admisi now targets jumlah s))"
proof -
  let ?e = "si_ef s" and ?L = "si_log s"
  define e1 where "e1 = muat_anggaran (Some (Inr (active_budgets now (si_db s)))) now ?e"
  define ts where "ts = sapu_tahan now (ef_tahan e1)"
  define berlaku where "berlaku = anggaran_berlaku (sa_isi (ef_salinan e1)) targets"
  define v where "v = fst (foldl (periksa_tahan ts now jumlah) (verdict_kosong, 0) berlaku)"
  define th where "th = \<lparr>th_jumlah = jumlah, th_sampai = now + ef_ttl_tahan ?e\<rparr>"
  define ts2 where "ts2 = (if vd_blocked v then ts else foldl (pasang_tahan th) ts berlaku)"
  define r where "r = \<lparr>pm_targets = targets, pm_estimasi = jumlah, pm_mulai = now, pm_status = Berjalan\<rparr>"
  define L2 where "L2 = (if vd_blocked v then ?L else ?L @ [r])"
  have s': "fst (admisi now targets jumlah s) = s\<lparr>si_ef := e1\<lparr>ef_tahan := ts2\<rparr>, si_now := now, si_log := L2\<rparr>"
    by (simp add: admisi_def tahan_unfold [OF j] Let_def ts2_def L2_def r_def v_def berlaku_def ts_def e1_def th_def)
  from inv obtain x where x: "baris b x \<in> set (si_db s)" "x + tertunda b s \<le> bu_limit b"
    "sa_dimuat (ef_salinan ?e) = waktu_nol \<or> salinan_cukup b x ?L (si_now s) (ef_salinan ?e)"
    and e: "enforcer_sah b (si_now s) ?L ?e" and rs: "riwayat_sah (si_now s) ?L" and pos: "0 < si_now s"
    by (auto simp: sistem_sah_def)
  have rs': "riwayat_sah now ?L" using rs now by (force simp: riwayat_sah_def)
  have M: "salinan_cukup b x ?L now (ef_salinan e1) \<and> now < sa_dimuat (ef_salinan e1) + default_budget_ttl \<and>
      enforcer_sah b now ?L e1 \<and> ef_tahan e1 = ef_tahan ?e"
    unfolding e1_def using now pos by (intro muat_cukup [OF mb x(3) e x(1) _ _ rs]) auto
  have ttl: "ef_ttl e1 = default_budget_ttl" "ef_ttl_tahan e1 = hold_ttl_bawaan" "ef_ttl_tahan ?e = hold_ttl_bawaan"
    using M e by (auto simp: enforcer_sah_def)
  have dts: "distinct (map fst ts)" using M distinct_sapu unfolding ts_def enforcer_sah_def by blast
  have tot: "total_tahan ts (bu_id b) later = total_tahan (ef_tahan e1) (bu_id b) later" if "now \<le> later" for later
    using M that total_sapu unfolding ts_def enforcer_sah_def by blast
  have hold: "beban (hidup b later) ?L \<le> total_tahan ts (bu_id b) later" if "now \<le> later" for later
    using M that unfolding tot [OF that] enforcer_sah_def by blast
  define P where "P = (\<lambda>q::permintaan. mengena (pm_targets q) b \<and> pm_status q = Berjalan \<and> now < pm_mulai q + hold_ttl_bawaan - default_budget_ttl)"
  obtain rows c where c: "sa_isi (ef_salinan e1) = bangun_anggaran rows" "baris b c \<in> set rows"
    "x + beban P ?L \<le> c + total_tahan ts (bu_id b) now"
    using cukup_untuk [OF conjunct1 [OF M] conjunct1 [OF conjunct2 [OF M]] hold rs'] unfolding P_def by blast
  have mem: "baris b c \<in> set berlaku" if "mengena targets b"
    using c(1,2) that by (simp add: berlaku_def anggaran_berlaku_set)
  have men: "menahan (baris b c)" using g by (simp add: menahan_def anggaran_dijaga_def)
  have lolos: "x + beban P ?L + jumlah \<le> bu_limit b" if "\<not> vd_blocked v" "mengena targets b"
  proof -
    have "jumlah \<le> bu_limit (baris b c) - bu_spent (baris b c) - total_tahan ts (bu_id (baris b c)) now"
      using periksa_tahan_blocked [of ts now jumlah verdict_kosong 0 berlaku] that mem men
      unfolding v_def [symmetric] by (auto simp: verdict_kosong_def)
    with c(3) show ?thesis by simp
  qed
  have "beban P ?L \<le> tertunda b s"
    unfolding tertunda_def using e now rs
    by (intro beban_mono) (auto simp: P_def muda_def enforcer_sah_def riwayat_sah_def)
  then have "x + beban P L2 \<le> bu_limit b"
    using x(2) lolos by (auto simp: L2_def beban_append P_def r_def)
  moreover have "tertunda b (fst (admisi now targets jumlah s)) = beban P L2"
    by (simp add: tertunda_def s' muda_def P_def ttl)
  moreover have "salinan_cukup b x L2 now (ef_salinan e1)"
    using conjunct1 [OF M] by (auto simp: L2_def salinan_cukup_def beban_append susulan_def r_def)
  moreover have "riwayat_sah now L2" using rs' j by (auto simp: L2_def riwayat_sah_def r_def)
  moreover have "beban (hidup b later) L2 \<le> total_tahan ts2 (bu_id b) later" if "now \<le> later" for later
  proof (cases "vd_blocked v")
    case True
    then show ?thesis using hold [OF that] by (simp add: ts2_def L2_def)
  next
    case False
    have "(\<exists>d\<in>set berlaku. menahan d \<and> bu_id d = bu_id b)" if "mengena targets b" using mem [OF that] men by force
    then show ?thesis
      using total_pasang [of th ts "bu_id b" later berlaku] hold [OF that] j False
      by (auto simp: ts2_def L2_def beban_append hidup_def r_def th_def ttl split: if_splits)
  qed
  moreover have "distinct (map fst ts2)" using dts distinct_pasang by (simp add: ts2_def)
  ultimately show ?thesis using M x(1) now pos
    by (auto simp: sistem_sah_def s' enforcer_sah_def)
qed

lemma terkena_baris:
  assumes "anggaran_dijaga b" "tg_scope t = ps_provider" "masih_berlaku now b"
  shows "terkena (ts @ [t]) now (baris b x) = mengena ts b"
  using assms by (auto simp: terkena_def scope_arrays_def mengena_def anggaran_dijaga_def image_iff)

lemma sistem_sah_catat:
  assumes g: "anggaran_dijaga b" and mb: "masih_berlaku now b" and inv: "sistem_sah b s" and now: "si_now s \<le> now"
    and j: "j < length (si_log s)" "si_log s ! j = r" "pm_status r = Berjalan" and m: "muda (si_ef s) now r"
    and biaya: "0 \<le> biaya" "biaya \<le> pm_estimasi r" and t: "tg_scope t = ps_provider"
    and add: "add_spend (pm_targets r @ [t]) biaya now (si_db s) = Inr (db', n)"
  shows "sistem_sah b (s\<lparr>si_db := db', si_now := now, si_log := (si_log s)[j := r\<lparr>pm_status := Tercatat now\<rparr>]\<rparr>)"
proof -
  let ?e = "si_ef s" and ?L = "si_log s"
  let ?r = "r\<lparr>pm_status := Tercatat now\<rparr>"
  let ?L2 = "?L[j := ?r]"
  from inv obtain x where x: "baris b x \<in> set (si_db s)" "x + tertunda b s \<le> bu_limit b"
    "sa_dimuat (ef_salinan ?e) = waktu_nol \<or> salinan_cukup b x ?L (si_now s) (ef_salinan ?e)"
    and e: "enforcer_sah b (si_now s) ?L ?e" and rs: "riwayat_sah (si_now s) ?L" and pos: "0 < si_now s"
    by (auto simp: sistem_sah_def)
  define x2 where "x2 = (if mengena (pm_targets r) b then x + biaya else x)"
  have x2: "baris b x2 \<in> set db'"
  proof (cases "biaya = 0")
    case True
    with add x(1) show ?thesis by (simp add: add_spend_def x2_def)
  next
    case False
    with add biaya(1) have "db' = map (\<lambda>b. if terkena (pm_targets r @ [t]) now b then b\<lparr>bu_spent := bu_spent b + biaya\<rparr> else b) (si_db s)"
      by (simp add: add_spend_def split: if_splits)
    then show ?thesis using x(1) terkena_baris [OF g t mb, of "pm_targets r" x]
      by (force simp: x2_def image_iff)
  qed
  have pe: "0 \<le> pm_estimasi r" using biaya by simp
  have rj: "r \<in> set ?L" using j by (metis nth_mem)
  have md: "now < pm_mulai r + hold_ttl_bawaan - default_budget_ttl" using m e by (simp add: muda_def enforcer_sah_def)
  define P where "P = (\<lambda>q::permintaan. mengena (pm_targets q) b \<and> pm_status q = Berjalan \<and> muda ?e now q)"
  have "beban P ?L \<le> tertunda b s"
    unfolding tertunda_def using now rs by (intro beban_mono) (auto simp: P_def muda_def riwayat_sah_def)
  moreover have "beban P ?L2 = beban P ?L - (if mengena (pm_targets r) b then pm_estimasi r else 0)"
    using j m by (simp add: beban_update P_def)
  ultimately have cap: "x2 + beban P ?L2 \<le> bu_limit b" using x(2) biaya by (auto simp: x2_def)
  have "beban (hidup b later) ?L2 = beban (hidup b later) ?L" for later
    using j by (simp add: beban_update hidup_def)
  then have e2: "enforcer_sah b now ?L2 ?e" using e now by (auto simp: enforcer_sah_def)
  have rs2: "riwayat_sah now ?L2"
  proof -
    have "set ?L2 \<subseteq> insert ?r (set ?L)" by (rule set_update_subset_insert)
    moreover have "riwayat_sah now ?L" using rs now by (force simp: riwayat_sah_def)
    ultimately show ?thesis using pe md by (auto simp: riwayat_sah_def dest!: subsetD)
  qed
  have "sa_dimuat (ef_salinan ?e) = waktu_nol \<or> salinan_cukup b x2 ?L2 now (ef_salinan ?e)"
  proof (cases "sa_dimuat (ef_salinan ?e) = waktu_nol")
    case False
    with x(3) have sc: "salinan_cukup b x ?L (si_now s) (ef_salinan ?e)" by simp
    then have t0: "sa_dimuat (ef_salinan ?e) \<le> now" using now by (simp add: salinan_cukup_def)
    have "beban (susulan b (sa_dimuat (ef_salinan ?e))) ?L2 =
        beban (susulan b (sa_dimuat (ef_salinan ?e))) ?L + (if mengena (pm_targets r) b then pm_estimasi r else 0)"
      using j t0 by (simp add: beban_update susulan_def)
    moreover obtain rows c where "sa_isi (ef_salinan ?e) = bangun_anggaran rows" "baris b c \<in> set rows"
      "x \<le> c + beban (susulan b (sa_dimuat (ef_salinan ?e))) ?L" "0 < sa_dimuat (ef_salinan ?e)"
      using sc by (auto simp: salinan_cukup_def)
    moreover from this(3) calculation(1) biaya have "x2 \<le> c + beban (susulan b (sa_dimuat (ef_salinan ?e))) ?L2"
      by (simp add: x2_def split: if_splits)
    ultimately show ?thesis using t0 unfolding salinan_cukup_def by blast
  qed simp
  with x2 cap e2 rs2 now pos show ?thesis
    by (auto simp: sistem_sah_def tertunda_def P_def)
qed

lemma sistem_sah_periksa:
  assumes g: "anggaran_dijaga b" and mb: "masih_berlaku now b" and inv: "sistem_sah b s" and now: "si_now s \<le> now"
  shows "sistem_sah b (s\<lparr>si_ef := fst (check (Some (Inr (active_budgets now (si_db s)))) now targets (si_ef s)), si_now := now\<rparr>)"
proof -
  let ?e = "si_ef s" and ?L = "si_log s"
  from inv obtain x where x: "baris b x \<in> set (si_db s)" "x + tertunda b s \<le> bu_limit b"
    "sa_dimuat (ef_salinan ?e) = waktu_nol \<or> salinan_cukup b x ?L (si_now s) (ef_salinan ?e)"
    and e: "enforcer_sah b (si_now s) ?L ?e" and rs: "riwayat_sah (si_now s) ?L" and pos: "0 < si_now s"
    by (auto simp: sistem_sah_def)
  define e1 where "e1 = muat_anggaran (Some (Inr (active_budgets now (si_db s)))) now ?e"
  have M: "salinan_cukup b x ?L now (ef_salinan e1)" "enforcer_sah b now ?L e1"
    using muat_cukup [OF mb x(3) e x(1) now _ rs] now pos unfolding e1_def by auto
  have "riwayat_sah now ?L" using rs now by (force simp: riwayat_sah_def)
  moreover have "tertunda b (s\<lparr>si_ef := e1, si_now := now\<rparr>) \<le> tertunda b s"
    unfolding tertunda_def using now rs M(2) e
    by (simp, intro beban_mono) (auto simp: muda_def riwayat_sah_def enforcer_sah_def)
  ultimately show ?thesis using M x(1,2) now pos
    by (auto simp: sistem_sah_def check_def Let_def simp flip: e1_def intro!: exI [of _ x])
qed

text \<open>Within its period the budget is guarded; once the period is over nothing is booked against it any more.\<close>

definition terjaga :: "budget \<Rightarrow> sistem \<Rightarrow> bool" where
  "terjaga b s \<longleftrightarrow> (if masih_berlaku (si_now s) b then sistem_sah b s else \<exists>x. baris b x \<in> set (si_db s) \<and> x \<le> bu_limit b)"

lemma tertunda_nonneg: "sistem_sah b s \<Longrightarrow> 0 \<le> tertunda b s"
  by (auto simp: sistem_sah_def tertunda_def beban_def riwayat_sah_def intro!: sum_list_nonneg)

lemma terjaga_batas: "terjaga b s \<Longrightarrow> \<exists>x. baris b x \<in> set (si_db s) \<and> x \<le> bu_limit b"
  using tertunda_nonneg [of b s] by (force simp: terjaga_def sistem_sah_def split: if_splits)

lemma terjaga_langkah:
  assumes inv: "terjaga b s" and now: "si_now s \<le> now" and t: "si_now s' = now"
    and dalam: "masih_berlaku now b \<Longrightarrow> sistem_sah b s \<Longrightarrow> sistem_sah b s'"
    and luar: "\<And>x. \<not> masih_berlaku now b \<Longrightarrow> baris b x \<in> set (si_db s) \<Longrightarrow> baris b x \<in> set (si_db s')"
  shows "terjaga b s'"
proof (cases "masih_berlaku now b")
  case True
  with berlaku_mundur [OF now] inv have "sistem_sah b s" by (simp add: terjaga_def)
  with dalam True t show ?thesis by (simp add: terjaga_def)
next
  case False
  with terjaga_batas [OF inv] luar t show ?thesis by (auto simp: terjaga_def)
qed

lemma sistem_run_sah:
  assumes "sistem_run db0 s" and g: "anggaran_dijaga b" and "b \<in> set db0" "bu_spent b \<le> bu_limit b"
  shows "terjaga b s"
  using assms(1)
proof induction
  case (mulai now)
  have b: "baris b (bu_spent b) = b" by simp
  then have "sistem_sah b \<lparr>si_db = db0, si_ef = new_enforcer, si_log = [], si_now = now\<rparr>" using mulai assms(3,4)
    by (auto simp: sistem_sah_def new_enforcer_def enforcer_sah_def salinan_baru_def riwayat_sah_def beban_def
        total_tahan_def daftar_tahan_def tertunda_def intro!: exI [of _ "bu_spent b"])
  then show ?case using b assms(3,4) by (auto simp: terjaga_def intro!: exI [of _ "bu_spent b"])
next
  case (tahan_lewat s now jumlah targets)
  show ?case
    by (rule terjaga_langkah [OF tahan_lewat.IH tahan_lewat(2)])
      (use sistem_sah_admisi [OF g _ _ tahan_lewat(2,3)] in \<open>auto simp: admisi_def split: prod.splits\<close>)
next
  case (catat_biaya s now j r biaya t db' n)
  show ?case
  proof (rule terjaga_langkah [OF catat_biaya.IH catat_biaya(2)])
    fix x assume "\<not> masih_berlaku now b" "baris b x \<in> set (si_db s)"
    moreover from this(1) have "\<not> terkena ts now (baris b x)" for ts by (simp add: terkena_def)
    ultimately have "baris b x \<in> set db'" using catat_biaya(10) by (force simp: add_spend_def image_iff split: if_splits)
    then show "baris b x \<in> set (si_db (s\<lparr>si_db := db', si_now := now, si_log := (si_log s)[j := r\<lparr>pm_status := Tercatat now\<rparr>]\<rparr>))" by simp
  qed (use sistem_sah_catat [OF g _ _ catat_biaya(2-10)] in simp_all)
next
  case (batal s)
  have "sistem_sah b s \<Longrightarrow> sistem_sah b (s\<lparr>si_ef := invalidate_budgets (si_ef s)\<rparr>)"
    unfolding sistem_sah_def tertunda_def muda_def
    by (elim conjE exE) (simp add: invalidate_budgets_def batalkan_def enforcer_sah_def, blast)
  with batal.IH show ?case by (auto simp: terjaga_def)
next
  case (periksa_saja s now targets)
  show ?case
    by (rule terjaga_langkah [OF periksa_saja.IH periksa_saja(2)]) (use sistem_sah_periksa [OF g _ _ periksa_saja(2)] in simp_all)
qed

lemma map_ids_add_spend: "add_spend ts a now db = Inr (db', n) \<Longrightarrow> map bu_id db' = map bu_id db"
  by (auto simp: add_spend_def comp_def split: if_splits)

lemma sistem_run_ids: "sistem_run db0 s \<Longrightarrow> map bu_id (si_db s) = map bu_id db0"
  by (induction rule: sistem_run.induct) (auto simp: admisi_def map_ids_add_spend split: prod.splits)

section \<open>Properties\<close>

text \<open>C25.  A blocking budget of any scope but a provider's (those are booked but never reserved) is never overspent by one
  gateway, however requests, bookings, reloads and checks interleave, as long as no booking exceeds the estimate
  its request reserved or comes when its reservation is about to expire, the rows change only by bookings and the
  database answers: the money spent stays within the limit, also after the period of the budget has ended,
  and until then it does so together with the estimates of the requests still running.\<close>

theorem billing_never_overspends:
  assumes run: "sistem_run db0 s" and g: "anggaran_dijaga b" and b: "b \<in> set db0" and start: "bu_spent b \<le> bu_limit b"
    and ids: "distinct (map bu_id db0)" and row: "b' \<in> set (si_db s)" "bu_id b' = bu_id b"
  shows "bu_limit b' = bu_limit b \<and> bu_spent b' \<le> bu_limit b' \<and>
    (if masih_berlaku (si_now s) b then bu_spent b' + tertunda b s \<le> bu_limit b' else True)"
proof -
  note inv = sistem_run_sah [OF run g b start]
  obtain x where x: "baris b x \<in> set (si_db s)" "x \<le> bu_limit b" "masih_berlaku (si_now s) b \<Longrightarrow> x + tertunda b s \<le> bu_limit b"
  proof (cases "masih_berlaku (si_now s) b")
    case True
    with inv have "sistem_sah b s" by (simp add: terjaga_def)
    with tertunda_nonneg [OF this] that show thesis by (force simp: sistem_sah_def)
  next
    case False
    with terjaga_batas [OF inv] that show thesis by blast
  qed
  have "inj_on bu_id (set (si_db s))"
    using ids sistem_run_ids [OF run] by (metis distinct_map)
  moreover have "bu_id b' = bu_id (baris b x)" using row(2) by simp
  ultimately have "b' = baris b x" using row(1) x(1) by (rule inj_onD)
  with x(2,3) show ?thesis by simp
qed

definition contoh_budget :: budget where
  "contoh_budget = \<lparr>bu_id = ''b1'', bu_name = ''g'', bu_scope = ps_global, bu_scope_id = [], bu_period = ''daily'', bu_limit = 100,
     bu_spent = 0, bu_period_start = 0, bu_period_end = Some 10, bu_action = action_block, bu_threshold_pct = 80,
     bu_alerted_at = None, bu_exceeded_alerted_at = None, bu_enabled = True, bu_created_at = 0\<rparr>"

definition contoh_sistem :: "nat \<Rightarrow> sistem" where
  "contoh_sistem n = ((\<lambda>s. fst (admisi 2 [] 60 s)) ^^ n)
     \<lparr>si_db = [contoh_budget], si_ef = new_enforcer, si_log = [], si_now = 1\<rparr>"

text \<open>Two requests of 60 against 100: the first is let through, the second is refused.\<close>

lemma billing_never_overspends_witness:
  "tertunda contoh_budget (contoh_sistem 2) \<le> 100 \<and> length (si_log (contoh_sistem 2)) = 1"
proof -
  have step: "sistem_run [contoh_budget] (contoh_sistem n) \<Longrightarrow> si_now (contoh_sistem n) \<le> 2 \<Longrightarrow>
      sistem_run [contoh_budget] (contoh_sistem (Suc n)) \<and> si_now (contoh_sistem (Suc n)) \<le> 2" for n
    using tahan_lewat [of "[contoh_budget]" "contoh_sistem n" 2 60 "[]"]
    by (auto simp: contoh_sistem_def admisi_def split: prod.splits)
  have "sistem_run [contoh_budget] (contoh_sistem 0) \<and> si_now (contoh_sistem 0) \<le> 2"
    unfolding contoh_sistem_def using mulai [of 1 "[contoh_budget]"] by simp
  then have run: "sistem_run [contoh_budget] (contoh_sistem 2)" using step by (simp add: numeral_2_eq_2)
  have db: "si_db (contoh_sistem 2) = [contoh_budget]" and two: "length (si_log (contoh_sistem 2)) = 1" by code_simp+
  have g: "anggaran_dijaga contoh_budget" "bu_spent contoh_budget \<le> bu_limit contoh_budget" "masih_berlaku (si_now (contoh_sistem 2)) contoh_budget"
    by code_simp+
  show ?thesis
    using billing_never_overspends [OF run g(1) _ g(2), of contoh_budget] two g(3)
    by (simp add: db) (simp add: contoh_budget_def)
qed

end
