(* ===== verification/Provider_Errors.thy ===== *)
theory Provider_Errors
  imports Prelude
begin

text \<open>
  Classified upstream failures, \<^verbatim>\<open>internal/providers/errors.go\<close>: the kinds, which of them are safe to
  retry or to fail over, and the classification of HTTP statuses and transport errors.  A transport
  error is what \<^verbatim>\<open>errors.Is\<close> and \<^verbatim>\<open>errors.As\<close> report of it.
\<close>

datatype error_kind =
    KindTimeout | KindNetwork | KindRateLimit | KindQuota | KindAuth | KindPermission | KindInvalidRequest
  | KindModelNotFound | KindContentFilter | KindOverloaded | KindServer | KindStreamAborted | KindCanceled | KindUnknown

definition retryable_kinds :: "error_kind list" where
  "retryable_kinds = [KindTimeout, KindNetwork, KindRateLimit, KindOverloaded, KindServer]"

definition failoverable_kinds :: "error_kind list" where
  "failoverable_kinds = [KindTimeout, KindNetwork, KindRateLimit, KindQuota, KindOverloaded, KindServer,
     KindModelNotFound, KindAuth, KindPermission]"

record perror =
  pe_kind :: error_kind
  pe_provider :: string
  pe_status_code :: int
  pe_message :: string
  pe_upstream_code :: string
  pe_retry_after :: durasi
  pe_local :: bool
  pe_streamed_bytes :: int

definition retryable :: "perror \<Rightarrow> bool" where
  "retryable e = (if 0 < pe_streamed_bytes e then False else pe_kind e \<in> set retryable_kinds)"

definition failoverable :: "perror \<Rightarrow> bool" where
  "failoverable e = (if 0 < pe_streamed_bytes e then False else pe_kind e \<in> set failoverable_kinds)"

definition newf :: "error_kind \<Rightarrow> string \<Rightarrow> string \<Rightarrow> perror" where
  "newf kind provider pesan = \<lparr>pe_kind = kind, pe_provider = provider, pe_status_code = 0, pe_message = pesan,
     pe_upstream_code = [], pe_retry_after = 0, pe_local = False, pe_streamed_bytes = 0\<rparr>"

definition classify :: "int \<Rightarrow> string \<Rightarrow> error_kind" where
  "classify status upstream_code =
     (if upstream_code \<in> {''insufficient_quota'', ''billing_hard_limit_reached'', ''credit_balance_too_low''} then KindQuota
      else if upstream_code \<in> {''model_not_found'', ''model_not_available''} then KindModelNotFound
      else if upstream_code \<in> {''content_filter'', ''content_policy_violation''} then KindContentFilter
      else if status = 401 then KindAuth
      else if status = 403 then KindPermission
      else if status = 404 then KindModelNotFound
      else if status = 408 then KindTimeout
      else if status = 413 then KindInvalidRequest
      else if status = 429 then KindRateLimit
      else if status = 503 \<or> status = 529 then KindOverloaded
      else if 500 \<le> status then KindServer
      else if 400 \<le> status then KindInvalidRequest
      else KindUnknown)"

text \<open>\<^verbatim>\<open>tr_net\<close>: the error is a \<^verbatim>\<open>net.Error\<close>, and whether it says it timed out.\<close>

record transport =
  tr_canceled :: bool
  tr_deadline :: bool
  tr_net :: "bool option"

definition transport_batal :: transport where "transport_batal = \<lparr>tr_canceled = True, tr_deadline = False, tr_net = None\<rparr>"
definition transport_tenggat :: transport where "transport_tenggat = \<lparr>tr_canceled = False, tr_deadline = True, tr_net = Some True\<rparr>"

definition classify_transport :: "transport option \<Rightarrow> error_kind" where
  "classify_transport err =
     (case err of
        None \<Rightarrow> KindUnknown
      | Some t \<Rightarrow>
          if tr_canceled t then KindCanceled
          else if tr_deadline t then KindTimeout
          else if tr_net t = Some True then KindTimeout
          else KindNetwork)"

definition from_transport :: "string \<Rightarrow> transport option \<Rightarrow> perror" where
  "from_transport provider err =
     (let kind = classify_transport err
      in newf kind provider
           (case kind of
              KindCanceled \<Rightarrow> ''permintaan dibatalkan sebelum selesai''
            | KindTimeout \<Rightarrow> ''upstream tidak menjawab sebelum batas waktu''
            | _ \<Rightarrow> ''gagal menghubungi upstream''))"

text \<open>What an adapter may return as its error: a classified failure in its chain, or something else.\<close>

datatype galat_adapter = GalatProvider perror | GalatLain transport

definition as_error :: "galat_adapter \<Rightarrow> perror option" where
  "as_error e = (case e of GalatProvider p \<Rightarrow> Some p | GalatLain _ \<Rightarrow> None)"

section \<open>Lemmas\<close>

named_theorems perror_simps \<open>what a classified failure allows\<close>

lemma retryable_failoverable: "retryable e \<Longrightarrow> failoverable e"
  by (auto simp: retryable_def failoverable_def retryable_kinds_def failoverable_kinds_def split: if_splits)

lemma streamed_final [perror_simps]:
  "0 < pe_streamed_bytes e \<Longrightarrow> \<not> retryable e" "0 < pe_streamed_bytes e \<Longrightarrow> \<not> failoverable e"
  by (simp_all add: retryable_def failoverable_def)

lemma newf_simps [simp]:
  "pe_kind (newf k p m) = k" "pe_local (newf k p m) = False" "pe_streamed_bytes (newf k p m) = 0"
  "pe_retry_after (newf k p m) = 0" "pe_provider (newf k p m) = p"
  by (simp_all add: newf_def)

end
