(* ===== verification/Executor.thy ===== *)
theory Executor
  imports Provider_Errors Routing_Rules Breaker_Scripts
begin

text \<open>
  The execution engine, \<^verbatim>\<open>internal/gateway/executor.go\<close>: one request against an ordered list of
  candidates, with retries, failover, the circuit guard, concurrency slots and the attempt budget.
  Everything outside (the clock, the request context, sleeping, jitter, the adapter, the guard, the
  health of egress pools) is a record \<open>dunia\<close> of functions over a world \<^typ>\<open>'w\<close>; a slot counter per
  provider is the executor's own state.  Logs are not modelled.
\<close>

section \<open>Constants and plans\<close>

definition max_backoff :: durasi where "max_backoff = 10 * detik"
definition max_retry_after :: durasi where "max_retry_after = 5 * detik"
definition default_attempt_timeout :: durasi where "default_attempt_timeout = 60 * detik"
definition batas_total_rencana :: durasi where "batas_total_rencana = 5 * menit"
definition ambang_basi_kesehatan_egress :: durasi where "ambang_basi_kesehatan_egress = 5 * menit"

definition breaker_config_nol :: breaker_config where
  "breaker_config_nol = \<lparr>bc_failure_threshold = Some 0, bc_min_samples = 0, bc_window = 0, bc_open_duration = 0, bc_half_open_probes = 0\<rparr>"

record plan =
  pl_candidates :: "route_candidate list"
  pl_model :: string
  pl_max_attempts :: int
  pl_budget :: int
  pl_backoff_base :: durasi
  pl_breaker_cfg :: breaker_config
  pl_model_names :: "(string \<times> string) list"
  pl_streaming :: bool

definition model_kandidat :: "plan \<Rightarrow> route_candidate \<Rightarrow> string" where
  "model_kandidat plan c =
     (if rc_model_id c \<noteq> []
      then (case map_of (pl_model_names plan) (rc_model_id c) of
              Some nama \<Rightarrow> if nama \<noteq> [] then nama else pl_model plan
            | None \<Rightarrow> pl_model plan)
      else pl_model plan)"

definition plan_from_rule :: "rule option \<Rightarrow> string \<Rightarrow> route_candidate list \<Rightarrow> plan" where
  "plan_from_rule rule model cands =
     (let p = \<lparr>pl_candidates = cands, pl_model = model, pl_max_attempts = 3, pl_budget = 0, pl_backoff_base = 250 * milidetik,
                pl_breaker_cfg = breaker_config_nol, pl_model_names = [], pl_streaming = False\<rparr>
      in case rule of
           None \<Rightarrow> p
         | Some r \<Rightarrow>
             let p1 = (if 0 < ru_max_attempts r then p\<lparr>pl_max_attempts := ru_max_attempts r\<rparr> else p);
                 p2 = (case ru_pipeline r of
                         Some pipa \<Rightarrow> if combo (Some r) \<and> 0 < cp_attempts pipa then p1\<lparr>pl_budget := cp_attempts pipa\<rparr> else p1
                       | None \<Rightarrow> p1);
                 p3 = (if 0 < ru_backoff_base r then p2\<lparr>pl_backoff_base := ru_backoff_base r\<rparr> else p2);
                 c0 = pl_breaker_cfg p3;
                 c1 = (if 0 < ru_failure_threshold r then c0\<lparr>bc_min_samples := ru_failure_threshold r\<rparr> else c0);
                 c2 = (if 0 < ru_open_duration r then c1\<lparr>bc_open_duration := ru_open_duration r\<rparr> else c1);
                 c3 = (if 0 < ru_half_open_probes r then c2\<lparr>bc_half_open_probes := ru_half_open_probes r\<rparr> else c2)
             in p3\<lparr>pl_breaker_cfg := c3\<rparr>)"

record attempt =
  at_provider_id :: string
  at_provider_name :: string
  at_provider_model_id :: string
  at_upstream_model :: string
  at_nth :: int
  at_started :: waktu
  at_duration :: durasi
  at_breaker_state :: state
  at_err :: "perror option"
  at_skip_reason :: string

definition berhasil :: "attempt \<Rightarrow> bool" where
  "berhasil a \<longleftrightarrow> at_err a = None \<and> at_skip_reason a = []"

definition hitung_percobaan_nyata :: "attempt list \<Rightarrow> nat" where
  "hitung_percobaan_nyata att = length (filter (\<lambda>a. at_skip_reason a = []) att)"

record 'v outcome =
  ou_value :: "'v option"
  ou_candidate :: "route_candidate option"
  ou_attempts :: "attempt list"
  ou_err :: "perror option"

definition percobaan :: "'v outcome \<Rightarrow> nat" where
  "percobaan o' = hitung_percobaan_nyata (ou_attempts o')"

definition tanpa_kandidat :: "'v outcome \<Rightarrow> bool" where
  "tanpa_kandidat o' \<longleftrightarrow> percobaan o' = 0"

section \<open>The world\<close>

text \<open>
  The guard: which of the optional interfaces it implements, and its operations.  A permit is
  \<open>(allowed, state, token, failed)\<close>; a record answers whether it failed.  \<^const>\<open>None\<close> for the configuration
  is the variant without one.
\<close>

type_synonym 'w izin = "'w \<times> bool \<times> state \<times> int \<times> bool"

record 'w penjaga =
  pg_episode :: bool
  pg_hasil_probe :: bool
  pg_terkonfigurasi :: bool
  pg_izinkan_episode :: "breaker_config option \<Rightarrow> string \<Rightarrow> string \<Rightarrow> 'w \<Rightarrow> 'w izin"
  pg_allow :: "breaker_config option \<Rightarrow> string \<Rightarrow> string \<Rightarrow> 'w \<Rightarrow> 'w \<times> bool \<times> state \<times> bool"
  pg_record_episode :: "breaker_config option \<Rightarrow> string \<Rightarrow> string \<Rightarrow> bool \<Rightarrow> int \<Rightarrow> 'w \<Rightarrow> 'w"
  pg_record_hasil :: "breaker_config option \<Rightarrow> string \<Rightarrow> string \<Rightarrow> bool \<Rightarrow> bool \<Rightarrow> 'w \<Rightarrow> 'w"
  pg_record :: "breaker_config option \<Rightarrow> string \<Rightarrow> string \<Rightarrow> bool \<Rightarrow> 'w \<Rightarrow> 'w"

text \<open>The last recorded health of an egress pool, when it can be read and has one.\<close>

record kesehatan_egress =
  ke_status :: "string option"
  ke_at :: "waktu option"

record 'w dunia =
  du_now :: "'w \<Rightarrow> waktu"
  du_ctx_err :: "'w \<Rightarrow> transport option"
  du_deadline :: "'w \<Rightarrow> waktu option"
  du_tidur :: "waktu option \<Rightarrow> durasi \<Rightarrow> 'w \<Rightarrow> 'w \<times> bool"
  du_acak :: "int \<Rightarrow> 'w \<Rightarrow> 'w \<times> int"
  du_penjaga :: "'w penjaga option"
  du_egress :: "(string \<Rightarrow> 'w \<Rightarrow> kesehatan_egress option) option"

text \<open>A context derived with a deadline of its own.\<close>

definition ctx_err :: "'w dunia \<Rightarrow> waktu option \<Rightarrow> 'w \<Rightarrow> transport option" where
  "ctx_err D batas w =
     (case du_ctx_err D w of
        Some e \<Rightarrow> Some e
      | None \<Rightarrow> (case batas of Some t \<Rightarrow> if t \<le> du_now D w then Some transport_tenggat else None | None \<Rightarrow> None))"

definition ctx_deadline :: "'w dunia \<Rightarrow> waktu option \<Rightarrow> 'w \<Rightarrow> waktu option" where
  "ctx_deadline D batas w =
     (case (du_deadline D w, batas) of
        (Some a, Some b) \<Rightarrow> Some (if a < b then a else b)
      | (None, b) \<Rightarrow> b
      | (a, None) \<Rightarrow> a)"

section \<open>Guard, slots and delays\<close>

definition izinkan :: "'w dunia \<Rightarrow> route_candidate \<Rightarrow> string \<Rightarrow> breaker_config \<Rightarrow> 'w \<Rightarrow> 'w izin" where
  "izinkan D c model cfg w =
     (case du_penjaga D of
        None \<Rightarrow> (w, True, [], 0, False)
      | Some g \<Rightarrow>
          if pg_episode g then
            (case pg_izinkan_episode g (if cfg \<noteq> breaker_config_nol then Some cfg else None) (rc_provider_id c) model w of
               (w', izin, st, token, err) \<Rightarrow> if err then (w', True, st, 0, True) else (w', izin, st, token, False))
          else (case pg_allow g (if cfg \<noteq> breaker_config_nol \<and> pg_terkonfigurasi g then Some cfg else None) (rc_provider_id c) model w of
                  (w', izin, st, err) \<Rightarrow> if err then (w', True, st, 0, True) else (w', izin, st, 0, False)))"

definition catat ::
    "'w dunia \<Rightarrow> route_candidate \<Rightarrow> string \<Rightarrow> bool \<Rightarrow> breaker_config \<Rightarrow> bool \<Rightarrow> int \<Rightarrow> 'w \<Rightarrow> 'w" where
  "catat D c model sukses cfg probe token w =
     (case du_penjaga D of
        None \<Rightarrow> w
      | Some g \<Rightarrow>
          let k = (if cfg \<noteq> breaker_config_nol then Some cfg else None)
          in if pg_episode g \<and> token \<noteq> 0 then pg_record_episode g k (rc_provider_id c) model sukses token w
             else if pg_hasil_probe g then pg_record_hasil g k (rc_provider_id c) model sukses probe w
             else pg_record g (if pg_terkonfigurasi g then k else None) (rc_provider_id c) model sukses w)"

definition dikecualikan_dari_pencatatan_breaker :: "perror option \<Rightarrow> bool" where
  "dikecualikan_dari_pencatatan_breaker err =
     (case err of
        None \<Rightarrow> False
      | Some e \<Rightarrow> pe_kind e \<in> {KindCanceled, KindInvalidRequest, KindContentFilter, KindModelNotFound} \<or> pe_local e)"

type_synonym slots = "string \<Rightarrow> nat"

text \<open>\<^verbatim>\<open>ambilSlot\<close>: \<^const>\<open>None\<close> when full; otherwise the provider whose slot has to be given back, if any.\<close>

definition ambil_slot :: "route_candidate \<Rightarrow> slots \<Rightarrow> (slots \<times> string option) option" where
  "ambil_slot c slots =
     (case rc_max_concurrent c of
        None \<Rightarrow> Some (slots, None)
      | Some m \<Rightarrow>
          if m \<le> 0 then Some (slots, None)
          else if m \<le> int (slots (rc_provider_id c)) then None
          else Some (slots(rc_provider_id c := slots (rc_provider_id c) + 1), Some (rc_provider_id c)))"

definition lepas_slot :: "string option \<Rightarrow> slots \<Rightarrow> slots" where
  "lepas_slot pegang slots =
     (case pegang of None \<Rightarrow> slots | Some p \<Rightarrow> if 0 < slots p then slots(p := slots p - 1) else slots)"

text \<open>\<^verbatim>\<open>backoff\<close>; the shift and the doubling are those of a 64-bit duration.\<close>

definition backoff :: "'w dunia \<Rightarrow> durasi \<Rightarrow> int \<Rightarrow> 'w \<Rightarrow> 'w \<times> durasi" where
  "backoff D base n w =
     (if base \<le> 0 \<or> n < 2 then (w, 0)
      else let geser = nat (min (n - 2) 20);
               d0 = wrap64 (base * 2 ^ geser);
               d = (if d0 \<le> 0 \<or> max_backoff < d0 then max_backoff else d0);
               separuh = go_div d 2
           in if separuh \<le> 0 then (w, d)
              else case du_acak D separuh w of (w', j) \<Rightarrow> (w', separuh + j))"

text \<open>\<^verbatim>\<open>jedaSebelum\<close>: \<^const>\<open>None\<close> when the candidate should not be tried again.\<close>

definition jeda_sebelum :: "'w dunia \<Rightarrow> waktu option \<Rightarrow> durasi \<Rightarrow> int \<Rightarrow> perror option \<Rightarrow> 'w \<Rightarrow> 'w \<times> durasi option" where
  "jeda_sebelum D batas base n perr w =
     (case backoff D base n w of
        (w1, jeda0) \<Rightarrow>
          let ra = (case perr of None \<Rightarrow> 0 | Some e \<Rightarrow> pe_retry_after e)
          in if 0 < ra \<and> max_retry_after < ra then (w1, None)
             else let jeda = (if 0 < ra then ra else jeda0)
                  in (w1, case ctx_deadline D batas w1 of
                            None \<Rightarrow> Some jeda
                          | Some t \<Rightarrow> if t - du_now D w1 \<le> jeda then None else Some jeda))"

section \<open>One attempt\<close>

type_synonym ('w, 'v) pelaksana = "waktu option \<Rightarrow> bool \<times> int \<Rightarrow> route_candidate \<Rightarrow> 'w \<Rightarrow> 'w \<times> 'v option \<times> perror option"

definition tenggat_percobaan :: "route_candidate \<Rightarrow> durasi" where
  "tenggat_percobaan c = (if 0 < rc_timeout_ms c then wrap64 (rc_timeout_ms c * milidetik) else default_attempt_timeout)"

definition jadikan_provider_error :: "string \<Rightarrow> galat_adapter \<Rightarrow> perror" where
  "jadikan_provider_error provider err =
     (case as_error err of
        Some p \<Rightarrow> if pe_provider p = [] then p\<lparr>pe_provider := provider\<rparr> else p
      | None \<Rightarrow>
          (case err of
             GalatLain t \<Rightarrow>
               if tr_canceled t \<or> tr_deadline t \<or> tr_net t \<noteq> None then from_transport provider (Some t)
               else newf KindUnknown provider ''kegagalan upstream yang tidak terklasifikasi''
           | GalatProvider p \<Rightarrow> p))"

definition koreksi_tenggat :: "transport option \<Rightarrow> transport option \<Rightarrow> perror \<Rightarrow> perror" where
  "koreksi_tenggat induk coba p =
     (if induk = None \<and> coba \<noteq> None \<and> pe_kind p = KindCanceled
      then p\<lparr>pe_kind := KindTimeout, pe_message := ''upstream tidak menjawab sebelum batas waktu percobaan''\<rparr> else p)"

text \<open>\<^verbatim>\<open>denganTenggat\<close> of an adapter call that may answer nothing, a value or an error.\<close>

definition dengan_tenggat ::
    "'w dunia \<Rightarrow> (waktu \<Rightarrow> bool \<times> int \<Rightarrow> route_candidate \<Rightarrow> 'w \<Rightarrow> 'w \<times> 'v option \<times> galat_adapter option) \<Rightarrow> ('w, 'v) pelaksana" where
  "dengan_tenggat D op batas probe c w =
     (let tenggat = du_now D w + tenggat_percobaan c;
          tenggat' = (case batas of Some t \<Rightarrow> if t < tenggat then t else tenggat | None \<Rightarrow> tenggat)
      in case op tenggat' probe c w of
           (w', nilai, None) \<Rightarrow> (w', nilai, None)
         | (w', nilai, Some err) \<Rightarrow>
             (w', nilai, Some (koreksi_tenggat (ctx_err D batas w') (ctx_err D (Some tenggat') w')
                                 (jadikan_provider_error (rc_provider_name c) err))))"

definition catatan :: "route_candidate \<Rightarrow> int \<Rightarrow> waktu \<Rightarrow> durasi \<Rightarrow> state \<Rightarrow> perror option \<Rightarrow> string \<Rightarrow> attempt" where
  "catatan c n mulai lama st err skip = \<lparr>at_provider_id = rc_provider_id c, at_provider_name = rc_provider_name c,
     at_provider_model_id = rc_provider_model_id c, at_upstream_model = rc_upstream_model_name c, at_nth = n,
     at_started = mulai, at_duration = lama, at_breaker_state = st, at_err = err, at_skip_reason = skip\<rparr>"

definition galat_slot_penuh :: "string \<Rightarrow> perror" where
  "galat_slot_penuh provider =
     (newf KindRateLimit provider ''batas konkurensi gateway ke provider ini sedang penuh'')\<lparr>pe_local := True\<rparr>"

definition galat_nil :: "string \<Rightarrow> perror" where
  "galat_nil provider = newf KindServer provider ''adapter mengembalikan respons kosong (nil) tanpa error''"

definition skip_slot :: string where "skip_slot = ''batas konkurensi provider penuh''"
definition skip_breaker :: string where "skip_breaker = ''pemutus arus terbuka''"
definition skip_ditolak :: string where "skip_ditolak = ''model kandidat sudah ditolak invalid_request pada permintaan ini''"

text \<open>
  The body of the loop of \<^verbatim>\<open>cobaKandidat\<close>: it ends the loop with a value or without, or goes on.  The
  last component of \<open>Berhenti\<close> is the slot a stream goes on holding.
\<close>

datatype ('w, 'v) langkah = Berhenti 'w slots "'v option" attempt "string option" | Ulangi 'w slots attempt

definition setelah_gagal ::
    "'w dunia \<Rightarrow> plan \<Rightarrow> waktu option \<Rightarrow> bool \<Rightarrow> int \<Rightarrow> perror \<Rightarrow> attempt \<Rightarrow> slots \<Rightarrow> 'w \<Rightarrow> ('w, 'v) langkah" where
  "setelah_gagal D plan batas terakhir n e a slots w =
     (if \<not> retryable e \<or> terakhir then Berhenti w slots None a None
      else case jeda_sebelum D batas (pl_backoff_base plan) (n + 1) (Some e) w of
             (w1, None) \<Rightarrow> Berhenti w1 slots None a None
           | (w1, Some jeda) \<Rightarrow>
               (case du_tidur D batas jeda w1 of
                  (w2, berhenti) \<Rightarrow> if berhenti then Berhenti w2 slots None a None else Ulangi w2 slots a))"

definition percobaan_ke ::
    "'w dunia \<Rightarrow> plan \<Rightarrow> waktu option \<Rightarrow> ('w, 'v) pelaksana \<Rightarrow> route_candidate \<Rightarrow> bool \<Rightarrow> int \<Rightarrow> slots \<Rightarrow> 'w \<Rightarrow>
     ('w, 'v) langkah" where
  "percobaan_ke D plan batas jalankan c terakhir n slots w =
     (case ambil_slot c slots of
        None \<Rightarrow> Berhenti w slots None (catatan c n (du_now D w) 0 [] (Some (galat_slot_penuh (rc_provider_name c))) skip_slot) None
      | Some (slots1, pegang) \<Rightarrow>
          let mk = model_kandidat plan c
          in case izinkan D c mk (pl_breaker_cfg plan) w of
               (w1, izin, st, token, gerr) \<Rightarrow>
                 if \<not> izin then Berhenti w1 (lepas_slot pegang slots1) None (catatan c n (du_now D w1) 0 st None skip_breaker) None
                 else
                   let probe = (st = state_half_open);
                       mulai = du_now D w1
                   in case jalankan batas (probe, token) c w1 of
                        (w2, nilai, perr0) \<Rightarrow>
                          let lama = du_now D w2 - mulai;
                              perr = (if perr0 = None \<and> nilai = None then Some (galat_nil (rc_provider_name c)) else perr0)
                          in case perr of
                               None \<Rightarrow>
                                 if pl_streaming plan then Berhenti w2 slots1 nilai (catatan c n mulai lama st None []) pegang
                                 else Berhenti (catat D c mk True (pl_breaker_cfg plan) probe token w2) (lepas_slot pegang slots1)
                                        nilai (catatan c n mulai lama st None []) None
                             | Some e \<Rightarrow>
                                 setelah_gagal D plan batas terakhir n e (catatan c n mulai lama st (Some e) []) (lepas_slot pegang slots1)
                                   (if dikecualikan_dari_pencatatan_breaker (Some e) then w2
                                    else catat D c mk False (pl_breaker_cfg plan) probe token w2))"

text \<open>\<^verbatim>\<open>cobaKandidat\<close>, with \<open>k\<close> attempts left and \<open>n\<close> the number of the next one.\<close>

fun coba_kandidat ::
    "'w dunia \<Rightarrow> plan \<Rightarrow> waktu option \<Rightarrow> ('w, 'v) pelaksana \<Rightarrow> route_candidate \<Rightarrow> nat \<Rightarrow> int \<Rightarrow> slots \<Rightarrow> 'w \<Rightarrow>
     ('w \<times> slots) \<times> 'v option \<times> attempt list \<times> string option" where
  "coba_kandidat D plan batas jalankan c 0 n slots w = ((w, slots), None, [], None)"
| "coba_kandidat D plan batas jalankan c (Suc k) n slots w =
     (case percobaan_ke D plan batas jalankan c (k = 0) n slots w of
        Berhenti w1 slots1 hasil a pegang \<Rightarrow> ((w1, slots1), hasil, [a], pegang)
      | Ulangi w1 slots1 a \<Rightarrow>
          (case coba_kandidat D plan batas jalankan c k (n + 1) slots1 w1 of
             (ws, hasil, att, pegang) \<Rightarrow> (ws, hasil, a # att, pegang)))"

section \<open>The plan\<close>

definition pool_egress_tak_sehat :: "(string \<Rightarrow> 'w \<Rightarrow> kesehatan_egress option) \<Rightarrow> waktu \<Rightarrow> 'w \<Rightarrow> string \<Rightarrow> bool" where
  "pool_egress_tak_sehat baca_pool now w i =
     (case baca_pool i w of
        None \<Rightarrow> False
      | Some p \<Rightarrow> (if ke_status p \<noteq> Some ''unhealthy'' then False
                   else case ke_at p of None \<Rightarrow> False | Some t \<Rightarrow> now - t \<le> ambang_basi_kesehatan_egress))"

definition saring_kandidat_egress :: "'w dunia \<Rightarrow> 'w \<Rightarrow> route_candidate list \<Rightarrow> route_candidate list" where
  "saring_kandidat_egress D w cands =
     (case du_egress D of
        None \<Rightarrow> cands
      | Some baca_pool \<Rightarrow>
          if length cands < 2 then cands
          else let lolos = filter (\<lambda>c. case rc_egress_pool_id c of
                                          None \<Rightarrow> True
                                        | Some i \<Rightarrow> i = [] \<or> \<not> pool_egress_tak_sehat baca_pool (du_now D w) w i) cands
               in if lolos = [] then cands else lolos)"

definition ada_model_lain_tersisa :: "route_candidate list \<Rightarrow> string \<Rightarrow> string list \<Rightarrow> bool" where
  "ada_model_lain_tersisa sisa baru ditolak \<longleftrightarrow>
     list_ex (\<lambda>c. rc_model_id c \<noteq> [] \<and> rc_model_id c \<noteq> baru \<and> rc_model_id c \<notin> set ditolak) sisa"

text \<open>The error of the last attempt that has one and passes the test.\<close>

definition err_terakhir :: "(attempt \<Rightarrow> bool) \<Rightarrow> attempt list \<Rightarrow> perror option" where
  "err_terakhir P att = (case List.find (\<lambda>a. at_err a \<noteq> None \<and> P a) (rev att) of None \<Rightarrow> None | Some a \<Rightarrow> at_err a)"

definition jatah_kandidat :: "plan \<Rightarrow> int \<Rightarrow> route_candidate \<Rightarrow> int" where
  "jatah_kandidat plan sisa c =
     (let maks = max (pl_max_attempts plan) 1;
          jatah = (if 0 < pl_budget plan then min maks sisa else maks)
      in if 0 \<le> rc_max_retries c \<and> rc_max_retries c + 1 < jatah then rc_max_retries c + 1 else jatah)"

text \<open>What the loop carries: the budget left, rejected models, the spare error of skipped attempts, the
  attempts so far and the failure to report.\<close>

record putaran =
  pu_sisa :: int
  pu_ditolak :: "string list"
  pu_lewatan :: "perror option"
  pu_attempts :: "attempt list"
  pu_err :: "perror option"

definition galat_semua_terbuka :: perror where
  "galat_semua_terbuka = newf KindOverloaded [] ''semua provider untuk model ini sedang tidak tersedia karena pemutus arusnya terbuka''"

definition gagal :: "putaran \<Rightarrow> perror option \<Rightarrow> 'v outcome" where
  "gagal p err = \<lparr>ou_value = None, ou_candidate = None, ou_attempts = pu_attempts p, ou_err = err\<rparr>"

definition akhir_rencana :: "putaran \<Rightarrow> 'v outcome" where
  "akhir_rencana p =
     gagal p (case pu_err p of
                Some e \<Rightarrow> Some e
              | None \<Rightarrow> (case pu_lewatan p of Some e \<Rightarrow> Some e | None \<Rightarrow> Some galat_semua_terbuka))"

text \<open>What follows from one candidate's attempts: the request is decided, or the next candidate is up.\<close>

datatype 'v putusan = Selesai "'v outcome" | Lanjut putaran

definition putuskan :: "plan \<Rightarrow> route_candidate \<Rightarrow> route_candidate list \<Rightarrow> putaran \<Rightarrow> 'v option \<Rightarrow> attempt list \<Rightarrow> 'v putusan" where
  "putuskan plan c cs p hasil att =
     (let p1 = p\<lparr>pu_attempts := pu_attempts p @ att,
                 pu_sisa := (if 0 < pl_budget plan then pu_sisa p - int (hitung_percobaan_nyata att) else pu_sisa p)\<rparr>
      in case hasil of
           Some v \<Rightarrow> Selesai \<lparr>ou_value = Some v, ou_candidate = Some c, ou_attempts = pu_attempts p1, ou_err = None\<rparr>
         | None \<Rightarrow>
             (case err_terakhir (\<lambda>a. at_skip_reason a = []) att of
                None \<Rightarrow> Lanjut (p1\<lparr>pu_lewatan := (case err_terakhir (\<lambda>a. True) att of Some e \<Rightarrow> Some e | None \<Rightarrow> pu_lewatan p1)\<rparr>)
              | Some e \<Rightarrow>
                  let p2 = p1\<lparr>pu_err := Some e\<rparr>
                  in if 0 < pe_streamed_bytes e then Selesai (gagal p2 (Some e))
                     else if failoverable e then Lanjut p2
                     else if pe_kind e = KindInvalidRequest \<and> rc_model_id c \<noteq> [] \<and>
                             ada_model_lain_tersisa cs (rc_model_id c) (pu_ditolak p2)
                       then Lanjut (p2\<lparr>pu_ditolak := rc_model_id c # pu_ditolak p2\<rparr>)
                     else Selesai (gagal p2 (Some e))))"

fun rencana_loop ::
    "'w dunia \<Rightarrow> plan \<Rightarrow> waktu option \<Rightarrow> ('w, 'v) pelaksana \<Rightarrow> route_candidate list \<Rightarrow> putaran \<Rightarrow> slots \<Rightarrow> 'w \<Rightarrow>
     ('w \<times> slots) \<times> 'v outcome \<times> string option" where
  "rencana_loop D plan batas jalankan [] p slots w = ((w, slots), akhir_rencana p, None)"
| "rencana_loop D plan batas jalankan (c # cs) p slots w =
     (case ctx_err D batas w of
        Some err \<Rightarrow> ((w, slots), gagal p (Some (from_transport (rc_provider_name c) (Some err))), None)
      | None \<Rightarrow>
          if rc_model_id c \<noteq> [] \<and> rc_model_id c \<in> set (pu_ditolak p) then
            rencana_loop D plan batas jalankan cs
              (p\<lparr>pu_attempts := pu_attempts p @ [catatan c 1 (du_now D w) 0 [] None skip_ditolak]\<rparr>) slots w
          else if 0 < pl_budget plan \<and> pu_sisa p \<le> 0 then ((w, slots), akhir_rencana p, None)
          else
            (case coba_kandidat D plan batas jalankan c (nat (jatah_kandidat plan (pu_sisa p) c)) 1 slots w of
               ((w1, slots1), hasil, att, pegang) \<Rightarrow>
                 (case putuskan plan c cs p hasil att of
                    Selesai out \<Rightarrow> ((w1, slots1), out, pegang)
                  | Lanjut p' \<Rightarrow> rencana_loop D plan batas jalankan cs p' slots1 w1)))"

definition jalankan_rencana ::
    "'w dunia \<Rightarrow> plan \<Rightarrow> ('w, 'v) pelaksana \<Rightarrow> slots \<Rightarrow> 'w \<Rightarrow> ('w \<times> slots) \<times> 'v outcome \<times> string option" where
  "jalankan_rencana D plan jalankan slots w =
     (let p0 = \<lparr>pu_sisa = pl_budget plan, pu_ditolak = [], pu_lewatan = None, pu_attempts = [], pu_err = None\<rparr>
      in if pl_candidates plan = [] then
           ((w, slots), gagal p0 (Some (newf KindModelNotFound []
              (''tidak ada provider yang bisa melayani model '' @ CHR 0x22 # pl_model plan @ [CHR 0x22]))), None)
         else rencana_loop D plan (if pl_streaming plan then None else Some (du_now D w + batas_total_rencana)) jalankan
                (saring_kandidat_egress D w (pl_candidates plan)) p0 slots w)"

definition execute where
  "execute D plan op slots w = jalankan_rencana D plan (dengan_tenggat D op) slots w"

end
