(* ===== verification/Executor_Runs.thy ===== *)
theory Executor_Runs
  imports Executor
begin

text \<open>
  Proofs about \<^verbatim>\<open>internal/gateway/executor.go\<close>: the shape of one candidate's attempts, the shape of the
  whole history, the budget, the outcome, the slots and the delays.
\<close>

section \<open>One candidate\<close>

text \<open>What may follow an attempt: a retry on the same candidate, or the first attempt on a later one.\<close>

definition boleh_lanjut :: "attempt \<Rightarrow> attempt \<Rightarrow> bool" where
  "boleh_lanjut a b \<longleftrightarrow> \<not> berhasil a \<and>
     (at_nth b \<noteq> 1 \<longrightarrow> at_skip_reason a = [] \<and> at_provider_model_id a = at_provider_model_id b \<and> at_nth b = at_nth a + 1 \<and>
        (\<exists>e. at_err a = Some e \<and> retryable e)) \<and>
     (\<forall>e. at_err a = Some e \<and> at_skip_reason a = [] \<longrightarrow>
        pe_streamed_bytes e \<le> 0 \<and> (failoverable e \<or> pe_kind e = KindInvalidRequest))"

lemma catatan_simps [simp]:
  "at_nth (catatan c n m l st err skip) = n" "at_err (catatan c n m l st err skip) = err"
  "at_skip_reason (catatan c n m l st err skip) = skip"
  "at_provider_model_id (catatan c n m l st err skip) = rc_provider_model_id c"
  "at_provider_id (catatan c n m l st err skip) = rc_provider_id c"
  by (simp_all add: catatan_def)

lemma skip_simps [simp]: "skip_slot \<noteq> []" "skip_breaker \<noteq> []" "skip_ditolak \<noteq> []"
  by (simp_all add: skip_slot_def skip_breaker_def skip_ditolak_def)

lemma berhasil_catatan [simp]: "berhasil (catatan c n m l st err skip) \<longleftrightarrow> err = None \<and> skip = []"
  by (simp add: berhasil_def)

definition pegang_tambah :: "string option \<Rightarrow> slots \<Rightarrow> slots" where
  "pegang_tambah pegang slots = (case pegang of None \<Rightarrow> slots | Some p \<Rightarrow> slots(p := slots p + 1))"

lemma ambil_slot_tambah: "ambil_slot c slots = Some (s1, pegang) \<Longrightarrow> s1 = pegang_tambah pegang slots"
  by (auto simp: ambil_slot_def pegang_tambah_def split: option.splits if_splits)

lemma lepas_tambah [simp]: "lepas_slot pegang (pegang_tambah pegang slots) = slots"
  by (simp add: lepas_slot_def pegang_tambah_def split: option.split)

text \<open>The attempts of one candidate, numbered from \<open>n\<close>.\<close>

definition rangkaian :: "route_candidate \<Rightarrow> int \<Rightarrow> bool \<Rightarrow> attempt list \<Rightarrow> bool" where
  "rangkaian c n ok att \<longleftrightarrow> att \<noteq> [] \<and>
     (\<forall>i<length att. at_nth (att ! i) = n + int i \<and> at_provider_model_id (att ! i) = rc_provider_model_id c) \<and>
     (\<forall>a\<in>set att. at_skip_reason a \<noteq> [] \<longrightarrow> at_err a = None \<or> (\<exists>x. at_err a = Some (galat_slot_penuh x))) \<and>
     (\<forall>a\<in>set (butlast att). at_skip_reason a = [] \<and> (\<exists>e. at_err a = Some e \<and> retryable e)) \<and>
     berhasil (last att) = ok \<and> (\<not> ok \<longrightarrow> at_err (last att) \<noteq> None \<or> at_skip_reason (last att) \<noteq> [])"

lemma rangkaian_single: "rangkaian c n ok [catatan c n m l st err skip] \<longleftrightarrow>
     (ok \<longleftrightarrow> err = None \<and> skip = []) \<and> (skip \<noteq> [] \<longrightarrow> err = None \<or> (\<exists>x. err = Some (galat_slot_penuh x)))"
  by (auto simp: rangkaian_def)

lemma rangkaian_Cons:
  assumes "rangkaian c (n + 1) ok att" "retryable e"
  shows "rangkaian c n ok (catatan c n m l st (Some e) [] # att)"
proof -
  have "at_nth ((catatan c n m l st (Some e) [] # att) ! i) = n + int i \<and>
      at_provider_model_id ((catatan c n m l st (Some e) [] # att) ! i) = rc_provider_model_id c"
    if "i < Suc (length att)" for i
    using that assms(1) by (cases i) (auto simp: rangkaian_def)
  then show ?thesis using assms by (auto simp: rangkaian_def)
qed

text \<open>One attempt: what it leaves, and when it may be repeated.\<close>

lemma setelah_gagal_cases:
  "setelah_gagal D plan batas terakhir n e a slots w = l \<Longrightarrow>
     (\<exists>w'. l = Berhenti w' slots None a None) \<or> (retryable e \<and> \<not> terakhir \<and> (\<exists>w'. l = Ulangi w' slots a))"
  by (auto simp: setelah_gagal_def split: if_splits prod.splits option.splits)

lemma percobaan_ke_cases:
  assumes "percobaan_ke D plan batas jalankan c terakhir n slots w = l"
  obtains (berhenti) w' slots' hasil a pegang where "l = Berhenti w' slots' hasil a pegang"
      "rangkaian c n (hasil \<noteq> None) [a]" "slots' = pegang_tambah pegang slots" "\<not> pl_streaming plan \<or> hasil = None \<longrightarrow> pegang = None"
  | (ulangi) w' a e where "l = Ulangi w' slots a" "\<not> terakhir" "retryable e"
      "\<exists>m lm st. a = catatan c n m lm st (Some e) []"
proof (cases "ambil_slot c slots")
  case None
  then show ?thesis using assms by (intro berhenti [of w slots None _ None]) (auto simp: percobaan_ke_def rangkaian_single pegang_tambah_def)
next
  case (Some sp)
  obtain s1 pg where sp: "sp = (s1, pg)" by (cases sp)
  have s1: "s1 = pegang_tambah pg slots" using Some ambil_slot_tambah by (simp add: sp)
  obtain w1 izin st token gerr where iz: "izinkan D c (model_kandidat plan c) (pl_breaker_cfg plan) w = (w1, izin, st, token, gerr)"
    by (cases "izinkan D c (model_kandidat plan c) (pl_breaker_cfg plan) w") auto
  obtain w2 nilai perr0 where j: "jalankan batas (st = state_half_open, token) c w1 = (w2, nilai, perr0)"
    by (cases "jalankan batas (st = state_half_open, token) c w1") auto
  define perr where "perr = (if perr0 = None \<and> nilai = None then Some (galat_nil (rc_provider_name c)) else perr0)"
  note unf = assms [unfolded percobaan_ke_def Some sp option.case prod.case Let_def iz j perr_def [symmetric]]
  show ?thesis
  proof (cases izin)
    case False
    then show ?thesis using unf berhenti by (auto simp: rangkaian_single pegang_tambah_def [of None] s1)
  next
    case izin: True
    show ?thesis
    proof (cases perr)
      case None
      then have "nilai \<noteq> None" by (auto simp: perr_def split: if_splits)
      with unf izin None show ?thesis
        by (cases "pl_streaming plan") (auto simp: rangkaian_single pegang_tambah_def [of None] s1 intro!: berhenti)
    next
      case (Some e)
      with unf izin show ?thesis
        using setelah_gagal_cases [of D plan batas terakhir n e _ slots _ l]
        by (force simp: rangkaian_single pegang_tambah_def [of None] s1 intro: berhenti ulangi)
    qed
  qed
qed

lemma coba_rangkaian:
  "coba_kandidat D plan batas jalankan c (Suc k) n slots w = ((w', slots'), hasil, att, pegang) \<Longrightarrow>
     rangkaian c n (hasil \<noteq> None) att \<and> length att \<le> Suc k \<and> slots' = pegang_tambah pegang slots \<and>
     (\<not> pl_streaming plan \<or> hasil = None \<longrightarrow> pegang = None)"
proof (induction k arbitrary: n slots w w' slots' hasil att pegang)
  case (0 n slots w)
  show ?case
    by (rule percobaan_ke_cases [of D plan batas jalankan c True n slots w, OF refl]) (use 0 in auto)
next
  case (Suc k n slots w)
  have e0: "(Suc k = 0) = False" by simp
  note unf = Suc.prems [unfolded coba_kandidat.simps(2) [of D plan batas jalankan c "Suc k"] e0]
  show ?case
  proof (rule percobaan_ke_cases [of D plan batas jalankan c False n slots w, OF refl])
    fix w1 a e
    assume l: "percobaan_ke D plan batas jalankan c False n slots w = Ulangi w1 slots a" and e: "retryable e"
      "\<exists>m lm st. a = catatan c n m lm st (Some e) []"
    obtain ws hs at2 pg2 where rec: "coba_kandidat D plan batas jalankan c (Suc k) (n + 1) slots w1 = (ws, hs, at2, pg2)"
      by (cases "coba_kandidat D plan batas jalankan c (Suc k) (n + 1) slots w1") auto
    have eq: "(w', slots') = ws" "hasil = hs" "att = a # at2" "pegang = pg2"
      using unf unfolding l langkah.case rec prod.case by auto
    have "coba_kandidat D plan batas jalankan c (Suc k) (n + 1) slots w1 = ((w', slots'), hasil, at2, pegang)"
      unfolding rec eq ..
    from Suc.IH [OF this] rangkaian_Cons [OF _ e(1), of c n "hasil \<noteq> None" at2] e(2) show ?thesis
      by (auto simp: eq(3))
  next
    fix w1 s1 h a pg
    assume l: "percobaan_ke D plan batas jalankan c False n slots w = Berhenti w1 s1 h a pg" and
      *: "rangkaian c n (h \<noteq> None) [a]" "s1 = pegang_tambah pg slots" "\<not> pl_streaming plan \<or> h = None \<longrightarrow> pg = None"
    show ?thesis using unf * unfolding l langkah.case by auto
  qed
qed

section \<open>The whole history\<close>

definition nyata :: "attempt \<Rightarrow> bool" where "nyata a \<longleftrightarrow> at_skip_reason a = []"

text \<open>An attempt after which another candidate may be tried.\<close>

definition siap_pindah :: "attempt \<Rightarrow> bool" where
  "siap_pindah a \<longleftrightarrow> \<not> berhasil a \<and>
     (\<forall>e. at_err a = Some e \<and> at_skip_reason a = [] \<longrightarrow>
        pe_streamed_bytes e \<le> 0 \<and> (failoverable e \<or> pe_kind e = KindInvalidRequest))"

lemma boleh_pindah: "at_nth b = 1 \<Longrightarrow> boleh_lanjut a b = siap_pindah a"
  by (simp add: boleh_lanjut_def siap_pindah_def)

lemma rangkaian_slot:
  assumes "rangkaian c n ok att" "a \<in> set att" "\<not> nyata a" "at_err a = Some e"
  shows "\<exists>x. e = galat_slot_penuh x"
proof -
  have "at_err a = None \<or> (\<exists>x. at_err a = Some (galat_slot_penuh x))" using assms(1-3) by (auto simp: rangkaian_def nyata_def)
  then show ?thesis using assms(4) by simp
qed

lemma rangkaian_not_berhasil: "rangkaian c n ok att \<Longrightarrow> a \<in> set (butlast att) \<Longrightarrow> \<not> berhasil a"
  by (auto simp: rangkaian_def berhasil_def)

lemma rangkaian_tl:
  assumes "rangkaian c n ok (a # b # bs)"
  shows "rangkaian c (n + 1) ok (b # bs)" and "boleh_lanjut a b"
proof -
  from assms have nth: "\<And>i. i < Suc (Suc (length bs)) \<Longrightarrow> at_nth ((a # b # bs) ! i) = n + int i \<and>
      at_provider_model_id ((a # b # bs) ! i) = rc_provider_model_id c"
    by (simp add: rangkaian_def)
  have "at_nth ((b # bs) ! i) = n + 1 + int i \<and> at_provider_model_id ((b # bs) ! i) = rc_provider_model_id c"
    if "i < Suc (length bs)" for i
    using nth [of "Suc i"] that by simp
  then show "rangkaian c (n + 1) ok (b # bs)" using assms by (simp add: rangkaian_def split: if_splits)
  obtain e where e: "at_skip_reason a = []" "at_err a = Some e" "retryable e"
    using assms by (auto simp: rangkaian_def)
  then have "pe_streamed_bytes e \<le> 0" using streamed_final(1) [of e] by (meson not_le)
  then show "boleh_lanjut a b" using e nth [of 0] nth [of 1] retryable_failoverable [OF e(3)]
    by (simp add: boleh_lanjut_def berhasil_def)
qed

lemma rangkaian_chain: "rangkaian c n ok att \<Longrightarrow> successively boleh_lanjut att"
proof (induction boleh_lanjut att arbitrary: n rule: successively.induct)
  case (3 a b bs)
  then show ?case using rangkaian_tl [of c n ok a b bs] by simp
qed auto

lemma err_terakhir_snoc:
  "err_terakhir P (xs @ [a]) = (if at_err a \<noteq> None \<and> P a then at_err a else err_terakhir P xs)"
  by (simp add: err_terakhir_def)

lemma err_terakhir_append:
  "err_terakhir P (xs @ ys) = (case err_terakhir P ys of Some e \<Rightarrow> Some e | None \<Rightarrow> err_terakhir P xs)"
proof (induction ys rule: rev_induct)
  case (snoc y ys)
  have *: "err_terakhir P (xs @ ys @ [y]) = (if at_err y \<noteq> None \<and> P y then at_err y else err_terakhir P (xs @ ys))"
    using err_terakhir_snoc [of P "xs @ ys" y] by simp
  show ?case unfolding * snoc err_terakhir_snoc [of P ys y] by (cases "at_err y") simp_all
qed (simp add: err_terakhir_def)

lemma err_terakhir_in: "err_terakhir P xs = Some e \<Longrightarrow> \<exists>a\<in>set xs. P a \<and> at_err a = Some e"
proof (induction xs rule: rev_induct)
  case Nil
  then show ?case by (simp add: err_terakhir_def)
next
  case (snoc x xs)
  then show ?case by (cases "at_err x \<noteq> None \<and> P x") (auto simp: err_terakhir_snoc)
qed

lemma err_terakhir_None: "err_terakhir P xs = None \<longleftrightarrow> (\<forall>a\<in>set xs. at_err a \<noteq> None \<longrightarrow> \<not> P a)"
proof (induction xs rule: rev_induct)
  case Nil
  then show ?case by (simp add: err_terakhir_def)
next
  case (snoc x xs)
  then show ?case by (cases "at_err x \<noteq> None \<and> P x") (auto simp: err_terakhir_snoc)
qed

text \<open>A candidate that failed: if its last attempt is real, its error is the one reported.\<close>

lemma rangkaian_gagal:
  assumes "rangkaian c n False att"
  shows "\<not> nyata (last att) \<or> (\<exists>e. at_err (last att) = Some e \<and> err_terakhir nyata att = Some e)"
proof -
  from assms have ne: "att \<noteq> []" and b: "\<not> berhasil (last att)" by (auto simp: rangkaian_def)
  have "err_terakhir nyata (butlast att @ [last att]) = (if at_err (last att) \<noteq> None \<and> nyata (last att) then at_err (last att)
      else err_terakhir nyata (butlast att))" by (rule err_terakhir_snoc)
  then show ?thesis using ne b by (auto simp: berhasil_def nyata_def)
qed

lemma rangkaian_siap:
  assumes r: "rangkaian c n False att"
    and e: "\<And>e. err_terakhir nyata att = Some e \<Longrightarrow> pe_streamed_bytes e \<le> 0 \<and> (failoverable e \<or> pe_kind e = KindInvalidRequest)"
  shows "siap_pindah (last att)"
  using rangkaian_gagal [OF r] e r by (auto simp: siap_pindah_def nyata_def rangkaian_def)

text \<open>What the loop keeps about the history it carries.\<close>

definition putaran_sah :: "putaran \<Rightarrow> bool" where
  "putaran_sah p \<longleftrightarrow> successively boleh_lanjut (pu_attempts p) \<and>
     (\<forall>a\<in>set (pu_attempts p). \<not> berhasil a) \<and> (pu_attempts p \<noteq> [] \<longrightarrow> siap_pindah (last (pu_attempts p))) \<and>
     pu_err p = err_terakhir nyata (pu_attempts p) \<and>
     (\<forall>e. pu_lewatan p = Some e \<longrightarrow> (\<exists>x. e = galat_slot_penuh x))"

lemma successively_append:
  "xs \<noteq> [] \<Longrightarrow> ys \<noteq> [] \<Longrightarrow>
     successively P (xs @ ys) = (successively P xs \<and> successively P ys \<and> P (last xs) (hd ys))"
  by (auto simp: successively_append_iff)

lemma putaran_append:
  assumes p: "putaran_sah p" and r: "rangkaian c 1 ok att"
  shows "successively boleh_lanjut (pu_attempts p @ att)"
proof (cases "pu_attempts p = []")
  case True
  then show ?thesis using rangkaian_chain [OF r] by simp
next
  case False
  have ne: "att \<noteq> []" and h: "at_nth (hd att) = 1" using r by (auto simp: rangkaian_def hd_conv_nth)
  have "boleh_lanjut (last (pu_attempts p)) (hd att)" using p False boleh_pindah [OF h] by (simp add: putaran_sah_def)
  then show ?thesis using p rangkaian_chain [OF r] ne False by (simp add: putaran_sah_def successively_append)
qed

lemma putaran_sah_step:
  assumes p: "putaran_sah p" and r: "rangkaian c 1 False att"
    and e: "\<And>e. err_terakhir nyata att = Some e \<Longrightarrow> pe_streamed_bytes e \<le> 0 \<and> (failoverable e \<or> pe_kind e = KindInvalidRequest)"
    and q: "pu_attempts q = pu_attempts p @ att" "pu_err q = err_terakhir nyata (pu_attempts p @ att)"
      "\<And>e. pu_lewatan q = Some e \<Longrightarrow> \<exists>x. e = galat_slot_penuh x"
  shows "putaran_sah q"
proof -
  have ne: "att \<noteq> []" using r by (simp add: rangkaian_def)
  have "\<not> berhasil a" if "a \<in> set att" for a
  proof -
    from that ne have "a \<in> set (butlast att) \<or> a = last att" by (metis append_butlast_last_id in_set_conv_decomp Un_iff set_append set_ConsD empty_iff empty_set)
    then show ?thesis using rangkaian_not_berhasil [OF r] r by (auto simp: rangkaian_def)
  qed
  then show ?thesis
    using putaran_append [OF p r] rangkaian_siap [OF r e] p q ne by (auto simp: putaran_sah_def)
qed

section \<open>The loop over the candidates\<close>

lemma jatah_kandidat_bounds:
  assumes "\<not> (0 < pl_budget plan \<and> sisa \<le> 0)"
  shows "1 \<le> jatah_kandidat plan sisa c" and "jatah_kandidat plan sisa c \<le> max (pl_max_attempts plan) 1"
    and "0 \<le> rc_max_retries c \<Longrightarrow> jatah_kandidat plan sisa c \<le> rc_max_retries c + 1"
    and "0 < pl_budget plan \<Longrightarrow> jatah_kandidat plan sisa c \<le> sisa"
  using assms by (auto simp: jatah_kandidat_def Let_def)

text \<open>What \<^const>\<open>putuskan\<close> may say, once the attempts are those of one candidate.\<close>

lemma putuskan_sah:
  fixes hasil :: "'v option"
  assumes p: "putaran_sah p" and r: "rangkaian c 1 (hasil \<noteq> None) att"
  obtains (sukses) v where "hasil = Some v"
      "putuskan plan c cs p hasil att = Selesai \<lparr>ou_value = Some v, ou_candidate = Some c, ou_attempts = pu_attempts p @ att, ou_err = None\<rparr>"
  | (berhenti) e where "hasil = None" "err_terakhir nyata att = Some e"
      "putuskan plan c cs p hasil att =
         Selesai \<lparr>ou_value = None, ou_candidate = None, ou_attempts = pu_attempts p @ att, ou_err = Some e\<rparr>"
  | (lanjut) p' where "hasil = None" "putuskan plan c cs p hasil att = Lanjut p'" "putaran_sah p'" "pu_attempts p' = pu_attempts p @ att"
      "pu_sisa p' = (if 0 < pl_budget plan then pu_sisa p - int (hitung_percobaan_nyata att) else pu_sisa p)"
proof (cases hasil)
  case (Some v)
  then show ?thesis by (intro sukses) (auto simp: putuskan_def Let_def)
next
  case None
  define s where "s = (if 0 < pl_budget plan then pu_sisa p - int (hitung_percobaan_nyata att) else pu_sisa p)"
  define p1 where "p1 = p\<lparr>pu_attempts := pu_attempts p @ att, pu_sisa := s\<rparr>"
  have nyata: "(\<lambda>a. at_skip_reason a = []) = nyata" by (simp add: nyata_def fun_eq_iff)
  have r': "rangkaian c 1 False att" using r None by simp
  note unf = putuskan_def [of plan c cs p hasil att, folded s_def, folded p1_def, unfolded nyata None Let_def option.case]
  have lew: "err_terakhir (\<lambda>a. True) att = Some e \<Longrightarrow> err_terakhir nyata att = None \<Longrightarrow> \<exists>x. e = galat_slot_penuh x" for e
  proof -
    assume *: "err_terakhir (\<lambda>a. True) att = Some e" "err_terakhir nyata att = None"
    obtain a where a: "a \<in> set att" "at_err a = Some e" using err_terakhir_in [OF *(1)] by auto
    have "\<not> nyata a" using *(2) a by (auto simp: err_terakhir_None)
    then show "\<exists>x. e = galat_slot_penuh x" by (rule rangkaian_slot [OF r a(1) _ a(2)])
  qed
  show ?thesis
  proof (cases "err_terakhir nyata att")
    case e: None
    define q where "q = p1\<lparr>pu_lewatan := (case err_terakhir (\<lambda>a. True) att of Some e \<Rightarrow> Some e | None \<Rightarrow> pu_lewatan p1)\<rparr>"
    have "putuskan plan c cs p hasil att = Lanjut q" using unf None by (simp add: e q_def)
    moreover have "putaran_sah q"
    proof (rule putaran_sah_step [OF p r'])
      show "pu_err q = err_terakhir nyata (pu_attempts p @ att)"
        using p e by (simp add: q_def p1_def err_terakhir_append putaran_sah_def)
      show "\<exists>x. e = galat_slot_penuh x" if "pu_lewatan q = Some e" for e
        using that p e lew [of e] by (auto simp: q_def p1_def putaran_sah_def split: option.splits)
    qed (auto simp: e q_def p1_def)
    ultimately show ?thesis using None by (intro lanjut [of q]) (simp_all add: q_def p1_def s_def)
  next
    case e: (Some e)
    define p2 where "p2 = p1\<lparr>pu_err := Some e\<rparr>"
    have sah: "putaran_sah (p2\<lparr>pu_ditolak := d\<rparr>)" if "pe_streamed_bytes e \<le> 0" "failoverable e \<or> pe_kind e = KindInvalidRequest" for d
      by (rule putaran_sah_step [OF p r']) (use p e that in \<open>auto simp: p2_def p1_def err_terakhir_append putaran_sah_def\<close>)
    have p2: "p2\<lparr>pu_ditolak := pu_ditolak p2\<rparr> = p2" by simp
    have g: "gagal p2 (Some e) = \<lparr>ou_value = None, ou_candidate = None, ou_attempts = pu_attempts p @ att, ou_err = Some e\<rparr>"
      by (simp add: gagal_def p2_def p1_def)
    show ?thesis
    proof (cases "0 < pe_streamed_bytes e \<or> (\<not> failoverable e \<and> \<not> (pe_kind e = KindInvalidRequest \<and> rc_model_id c \<noteq> [] \<and>
                             ada_model_lain_tersisa cs (rc_model_id c) (pu_ditolak p2)))")
      case True
      then have "putuskan plan c cs p hasil att = Selesai (gagal p2 (Some e))"
        using unf None by (auto simp: e p2_def)
      then show ?thesis using None e by (intro berhenti) (simp_all add: g)
    next
      case False
      then have *: "pe_streamed_bytes e \<le> 0" "failoverable e \<or> pe_kind e = KindInvalidRequest" by auto
      show ?thesis
      proof (cases "failoverable e")
        case True
        then have "putuskan plan c cs p hasil att = Lanjut p2" using unf None *(1) by (simp add: e p2_def)
        then show ?thesis using None sah [OF *, of "pu_ditolak p2"] by (intro lanjut [of p2]) (simp_all add: p2_def p1_def s_def)
      next
        case nf: False
        then have "putuskan plan c cs p hasil att = Lanjut (p2\<lparr>pu_ditolak := rc_model_id c # pu_ditolak p2\<rparr>)"
          using unf None False by (simp add: e p2_def)
        then show ?thesis using None sah [OF *] by (intro lanjut [of "p2\<lparr>pu_ditolak := rc_model_id c # pu_ditolak p2\<rparr>"]) (simp_all add: p2_def p1_def s_def)
      qed
    qed
  qed
qed

text \<open>What an outcome has to be: a value of a candidate whose attempt is the last one, or an error with its reason.\<close>

definition alasan_sah :: "attempt list \<Rightarrow> perror \<Rightarrow> bool" where
  "alasan_sah att e \<longleftrightarrow> err_terakhir nyata att = Some e \<or> (\<exists>x t. e = from_transport x (Some t)) \<or>
     err_terakhir nyata att = None \<and> (e = galat_semua_terbuka \<or> (\<exists>x. e = galat_slot_penuh x))"

definition hasil_sah :: "route_candidate list \<Rightarrow> 'v outcome \<Rightarrow> bool" where
  "hasil_sah cs out \<longleftrightarrow>
     (case ou_value out of
        Some v \<Rightarrow> ou_err out = None \<and> ou_attempts out \<noteq> [] \<and> berhasil (last (ou_attempts out)) \<and>
          (\<forall>a\<in>set (butlast (ou_attempts out)). \<not> berhasil a) \<and>
          (\<exists>c\<in>set cs. ou_candidate out = Some c \<and> at_provider_model_id (last (ou_attempts out)) = rc_provider_model_id c)
      | None \<Rightarrow> ou_candidate out = None \<and> (\<forall>a\<in>set (ou_attempts out). \<not> berhasil a) \<and>
          (\<exists>e. ou_err out = Some e \<and> alasan_sah (ou_attempts out) e))"

lemma hasil_sah_more: "hasil_sah cs out \<Longrightarrow> hasil_sah (c # cs) out"
  by (auto simp: hasil_sah_def split: option.splits)

lemma hasil_sah_gagal:
  "putaran_sah p \<Longrightarrow> alasan_sah (pu_attempts p) e \<Longrightarrow> hasil_sah cs (gagal p (Some e))"
  by (simp add: hasil_sah_def gagal_def putaran_sah_def)

lemma hasil_sah_akhir:
  assumes p: "putaran_sah p"
  shows "hasil_sah cs (akhir_rencana p :: 'v outcome)"
proof -
  have e: "pu_err p = err_terakhir nyata (pu_attempts p)" and l: "\<And>e. pu_lewatan p = Some e \<Longrightarrow> \<exists>x. e = galat_slot_penuh x"
    using p by (auto simp: putaran_sah_def)
  define r where "r = (case pu_err p of Some e \<Rightarrow> e | None \<Rightarrow> (case pu_lewatan p of Some e \<Rightarrow> e | None \<Rightarrow> galat_semua_terbuka))"
  have "akhir_rencana p = (gagal p (Some r) :: 'v outcome)" by (simp add: akhir_rencana_def r_def split: option.split)
  moreover have "alasan_sah (pu_attempts p) r"
    using l unfolding alasan_sah_def r_def e by (cases "err_terakhir nyata (pu_attempts p)"; cases "pu_lewatan p") simp_all
  ultimately show ?thesis using hasil_sah_gagal [OF p, of r cs] by simp
qed

lemma putaran_ditolak:
  "putaran_sah p \<Longrightarrow> putaran_sah (p\<lparr>pu_attempts := pu_attempts p @ [catatan c 1 t 0 [] None skip_ditolak]\<rparr>)"
  by (rule putaran_sah_step [where att = "[catatan c 1 t 0 [] None skip_ditolak]" and c = c])
    (auto simp: rangkaian_single putaran_sah_def err_terakhir_snoc nyata_def err_terakhir_def [of nyata "[]"] err_terakhir_def [of nyata "[_]"])

lemma gagal_simps [simp]: "ou_attempts (gagal p err) = pu_attempts p" "ou_attempts (akhir_rencana p) = pu_attempts p"
  "ou_value (gagal p err) = None" "ou_value (akhir_rencana p) = None"
  by (simp_all add: gagal_def akhir_rencana_def)

lemma rangkaian_last:
  "rangkaian c n ok att \<Longrightarrow> at_provider_model_id (last att) = rc_provider_model_id c \<and> berhasil (last att) = ok \<and> att \<noteq> []"
  unfolding rangkaian_def by (metis diff_less length_greater_0_conv last_conv_nth less_numeral_extra(1))

lemma hasil_sah_sukses:
  assumes p: "putaran_sah p" and r: "rangkaian c 1 True att"
  shows "hasil_sah (c # cs) \<lparr>ou_value = Some v, ou_candidate = Some c, ou_attempts = pu_attempts p @ att, ou_err = None\<rparr>"
  using p rangkaian_last [OF r] rangkaian_not_berhasil [OF r]
  by (auto simp: hasil_sah_def putaran_sah_def butlast_append)

lemma hasil_sah_berhenti:
  assumes p: "putaran_sah p" and r: "rangkaian c 1 False att" and e: "err_terakhir nyata att = Some e"
  shows "hasil_sah cs \<lparr>ou_value = None, ou_candidate = None, ou_attempts = pu_attempts p @ att, ou_err = Some e\<rparr>"
proof -
  have "\<not> berhasil a" if "a \<in> set att" for a
    using that rangkaian_last [OF r] rangkaian_not_berhasil [OF r] by (metis append_butlast_last_id in_set_conv_decomp Un_iff set_append set_ConsD empty_iff empty_set)
  then show ?thesis using p e by (auto simp: hasil_sah_def putaran_sah_def alasan_sah_def err_terakhir_append)
qed

text \<open>One candidate's turn, with the allowance the loop gives it.\<close>

lemma giliran_sah:
  assumes "coba_kandidat D plan batas jalankan c (nat (jatah_kandidat plan sisa c)) 1 slots w = ((w', slots'), hasil, att, pegang)"
    and "\<not> (0 < pl_budget plan \<and> sisa \<le> 0)"
  shows "rangkaian c 1 (hasil \<noteq> None) att" and "int (length att) \<le> jatah_kandidat plan sisa c"
    and "slots' = pegang_tambah pegang slots" and "\<not> pl_streaming plan \<or> hasil = None \<Longrightarrow> pegang = None"
proof -
  have j: "1 \<le> jatah_kandidat plan sisa c" using jatah_kandidat_bounds(1) [OF assms(2)] .
  then obtain k where k: "nat (jatah_kandidat plan sisa c) = Suc k" by (cases "nat (jatah_kandidat plan sisa c)") auto
  note * = coba_rangkaian [OF assms(1) [unfolded k]]
  show "rangkaian c 1 (hasil \<noteq> None) att" "slots' = pegang_tambah pegang slots" using * by blast+
  show "\<not> pl_streaming plan \<or> hasil = None \<Longrightarrow> pegang = None" using * by blast
  show "int (length att) \<le> jatah_kandidat plan sisa c" using * k j by linarith
qed

definition rencana_sah :: "plan \<Rightarrow> route_candidate list \<Rightarrow> slots \<Rightarrow> slots \<Rightarrow> 'v outcome \<Rightarrow> string option \<Rightarrow> bool" where
  "rencana_sah plan cs slots slots' out pegang \<longleftrightarrow>
     successively boleh_lanjut (ou_attempts out) \<and> hasil_sah cs out \<and> slots' = pegang_tambah pegang slots \<and>
     (\<not> pl_streaming plan \<or> ou_value out = None \<longrightarrow> pegang = None)"

lemma rencana_sah_more: "rencana_sah plan cs s s' out pegang \<Longrightarrow> rencana_sah plan (c # cs) s s' out pegang"
  by (simp add: rencana_sah_def hasil_sah_more)

lemma rencana_sah_gagal:
  "putaran_sah p \<Longrightarrow> hasil_sah cs out \<Longrightarrow> ou_attempts out = pu_attempts p \<Longrightarrow> rencana_sah plan cs s s out None"
  by (simp add: rencana_sah_def putaran_sah_def pegang_tambah_def)

lemma rencana_loop_sah:
  fixes jalankan :: "('w, 'v) pelaksana"
  assumes "rencana_loop D plan batas jalankan cs p slots w = ((w', slots'), out, pegang)" and "putaran_sah p"
  shows "rencana_sah plan cs slots slots' out pegang"
  using assms
proof (induction cs arbitrary: p slots w)
  case Nil
  then show ?case using rencana_sah_gagal [OF Nil.prems(2) hasil_sah_akhir [OF Nil.prems(2)]] by auto
next
  case (Cons c cs p slots w)
  note unf = Cons.prems(1) [unfolded rencana_loop.simps(2)] and p = Cons.prems(2)
  show ?case
  proof (cases "ctx_err D batas w")
    case (Some err)
    then have "hasil_sah (c # cs) (gagal p (Some (from_transport (rc_provider_name c) (Some err))) :: 'v outcome)"
      by (intro hasil_sah_gagal p) (auto simp: alasan_sah_def)
    from rencana_sah_gagal [OF p this] show ?thesis using unf Some by auto
  next
    case None
    note unf = unf [unfolded None option.case]
    show ?thesis
    proof (cases "rc_model_id c \<noteq> [] \<and> rc_model_id c \<in> set (pu_ditolak p)")
      case True
      from unf [unfolded if_P [OF True]] show ?thesis
        by (intro rencana_sah_more Cons.IH [OF _ putaran_ditolak [OF p]])
    next
      case False
      note unf = unf [unfolded if_not_P [OF False]]
      show ?thesis
      proof (cases "0 < pl_budget plan \<and> pu_sisa p \<le> 0")
        case True
        from unf [unfolded if_P [OF True]] show ?thesis using rencana_sah_gagal [OF p hasil_sah_akhir [OF p]] by auto
      next
        case b: False
        obtain w1 slots1 hasil att pg where k: "coba_kandidat D plan batas jalankan c (nat (jatah_kandidat plan (pu_sisa p) c)) 1 slots w
            = ((w1, slots1), hasil, att, pg)" by (metis surj_pair)
        note g = giliran_sah [OF k b]
        note unf = unf [unfolded if_not_P [OF b] k prod.case]
        show ?thesis
        proof (rule putuskan_sah [OF p g(1), where plan = plan and cs = cs])
          fix v
          assume h: "hasil = Some v" and e: "putuskan plan c cs p hasil att =
            Selesai \<lparr>ou_value = Some v, ou_candidate = Some c, ou_attempts = pu_attempts p @ att, ou_err = None\<rparr>"
          have r: "rangkaian c 1 True att" using g(1) h by simp
          show ?thesis using unf [unfolded e putusan.case] g(3,4) putaran_append [OF p r] hasil_sah_sukses [OF p r, of cs v] h
            by (auto simp: rencana_sah_def)
        next
          fix x
          assume h: "hasil = None" "err_terakhir nyata att = Some x" and e: "putuskan plan c cs p hasil att =
            Selesai \<lparr>ou_value = None, ou_candidate = None, ou_attempts = pu_attempts p @ att, ou_err = Some x\<rparr>"
          have r: "rangkaian c 1 False att" using g(1) h by simp
          show ?thesis using unf [unfolded e putusan.case] g(3,4) putaran_append [OF p r] hasil_sah_berhenti [OF p r h(2), of "c # cs"] h
            by (auto simp: rencana_sah_def)
        next
          fix p'
          assume h: "hasil = None" and e: "putuskan plan c cs p hasil att = Lanjut p'" and p': "putaran_sah p'"
          have "slots1 = slots" using g(3,4) h by (simp add: pegang_tambah_def)
          then show ?thesis using unf [unfolded e putusan.case] by (intro rencana_sah_more Cons.IH [OF _ p']) simp
        qed
      qed
    qed
  qed
qed

section \<open>What the world sees\<close>

text \<open>
  An observer of the world that neither waiting nor the guard's permits move: what it has seen only grows, by
  something that \<open>Q\<close> allows for each attempt.
\<close>

definition menjejak :: "'w dunia \<Rightarrow> plan \<Rightarrow> ('w, 'v) pelaksana \<Rightarrow> ('w \<Rightarrow> 'a list) \<Rightarrow> (route_candidate \<Rightarrow> attempt \<Rightarrow> 'a list \<Rightarrow> bool) \<Rightarrow> bool" where
  "menjejak D plan jalankan h Q \<longleftrightarrow>
     (\<forall>batas c terakhir n slots w. case percobaan_ke D plan batas jalankan c terakhir n slots w of
        Berhenti w' s v a pg \<Rightarrow> \<exists>xs. h w' = h w @ xs \<and> Q c a xs
      | Ulangi w' s a \<Rightarrow> \<exists>xs. h w' = h w @ xs \<and> Q c a xs) \<and>
     (\<forall>c t. Q c (catatan c 1 t 0 [] None skip_ditolak) [])"

text \<open>Waiting and asking for a permit are not seen.\<close>

definition diam_menunggu :: "'w dunia \<Rightarrow> ('w \<Rightarrow> 'a) \<Rightarrow> bool" where
  "diam_menunggu D h \<longleftrightarrow>
     (\<forall>batas d w. h (fst (du_tidur D batas d w)) = h w) \<and> (\<forall>n w. h (fst (du_acak D n w)) = h w) \<and>
     (\<forall>g. du_penjaga D = Some g \<longrightarrow>
        (\<forall>k i m w. h (fst (pg_izinkan_episode g k i m w)) = h w) \<and> (\<forall>k i m w. h (fst (pg_allow g k i m w)) = h w))"

lemma diam_izinkan:
  assumes "diam_menunggu D h" "izinkan D c m cfg w = (w', r)"
  shows "h w' = h w"
proof (cases "du_penjaga D")
  case None
  with assms(2) show ?thesis by (simp add: izinkan_def)
next
  case (Some g)
  define k1 where "k1 = (if cfg \<noteq> breaker_config_nol then Some cfg else None)"
  define k2 where "k2 = (if cfg \<noteq> breaker_config_nol \<and> pg_terkonfigurasi g then Some cfg else None)"
  have "h (fst (pg_izinkan_episode g k1 (rc_provider_id c) m w)) = h w" "h (fst (pg_allow g k2 (rc_provider_id c) m w)) = h w"
    using assms(1) Some by (auto simp: diam_menunggu_def)
  with assms(2) Some show ?thesis
    by (auto simp: izinkan_def k1_def [symmetric] k2_def [symmetric] split: if_splits prod.splits)
qed

lemma diam_jeda:
  assumes "diam_menunggu D h" "jeda_sebelum D batas base n e w = (w', r)"
  shows "h w' = h w"
proof -
  obtain w1 d where b: "backoff D base n w = (w1, d)" by (cases "backoff D base n w")
  have a: "h (fst (du_acak D i w)) = h w" for i using assms(1) by (simp add: diam_menunggu_def)
  have "h w1 = h w"
    using b a unfolding backoff_def Let_def by (auto split: if_splits prod.splits) (metis fst_conv)+
  moreover have "w' = w1" using assms(2) b by (auto simp: jeda_sebelum_def Let_def split: if_splits)
  ultimately show ?thesis by simp
qed

lemma diam_setelah:
  assumes h: "diam_menunggu D h" and "setelah_gagal D plan batas terakhir n e a slots w = l"
  shows "(\<exists>w'. l = Berhenti w' slots None a None \<and> h w' = h w) \<or> (\<exists>w'. l = Ulangi w' slots a \<and> h w' = h w)"
proof -
  obtain w1 j where j: "jeda_sebelum D batas (pl_backoff_base plan) (n + 1) (Some e) w = (w1, j)" by fastforce
  have t: "h (fst (du_tidur D batas d w1)) = h w1" for d using h by (simp add: diam_menunggu_def)
  show ?thesis
  proof (cases "\<not> retryable e \<or> terakhir")
    case True
    with assms(2) show ?thesis by (auto simp: setelah_gagal_def)
  next
    case False
    then show ?thesis
      using assms(2) diam_jeda [OF h j] t [of "the j"] by (auto simp: setelah_gagal_def j split: option.splits prod.splits if_splits)
  qed
qed

text \<open>It is enough to know what the adapter's calls and the reports after them show.\<close>

lemma menjejakI:
  assumes h: "diam_menunggu D h"
    and skip: "\<And>c a. at_skip_reason a \<noteq> [] \<Longrightarrow> Q c a []"
    and ok: "\<And>batas pt c w w' v. jalankan batas pt c w = (w', Some v, None) \<Longrightarrow>
      \<exists>xs. (\<forall>a. at_skip_reason a = [] \<longrightarrow> at_err a = None \<longrightarrow> Q c a xs) \<and>
        h (if pl_streaming plan then w' else catat D c (model_kandidat plan c) True (pl_breaker_cfg plan) (fst pt) (snd pt) w') = h w @ xs"
    and err: "\<And>batas pt c w w' v e e'. jalankan batas pt c w = (w', v, e') \<Longrightarrow>
      e = (case e' of None \<Rightarrow> galat_nil (rc_provider_name c) | Some x \<Rightarrow> x) \<Longrightarrow> (e' = None \<longrightarrow> v = None) \<Longrightarrow>
      \<exists>xs. (\<forall>a. at_skip_reason a = [] \<longrightarrow> at_err a = Some e \<longrightarrow> Q c a xs) \<and>
        h (if dikecualikan_dari_pencatatan_breaker (Some e) then w'
           else catat D c (model_kandidat plan c) False (pl_breaker_cfg plan) (fst pt) (snd pt) w') = h w @ xs"
  shows "menjejak D plan jalankan h Q"
proof -
  have "case percobaan_ke D plan batas jalankan c terakhir n slots w of
        Berhenti w' s v a pg \<Rightarrow> \<exists>xs. h w' = h w @ xs \<and> Q c a xs
      | Ulangi w' s a \<Rightarrow> \<exists>xs. h w' = h w @ xs \<and> Q c a xs" for batas c terakhir n slots w
  proof (cases "ambil_slot c slots")
    case None
    then show ?thesis using skip by (simp add: percobaan_ke_def)
  next
    case (Some sp)
    obtain s1 pg where sp: "sp = (s1, pg)" by (cases sp)
    obtain w1 izin st token gerr where iz: "izinkan D c (model_kandidat plan c) (pl_breaker_cfg plan) w = (w1, izin, st, token, gerr)"
      by (cases "izinkan D c (model_kandidat plan c) (pl_breaker_cfg plan) w") auto
    obtain w2 nilai perr0 where j: "jalankan batas (st = state_half_open, token) c w1 = (w2, nilai, perr0)"
      by (cases "jalankan batas (st = state_half_open, token) c w1") auto
    define perr where "perr = (if perr0 = None \<and> nilai = None then Some (galat_nil (rc_provider_name c)) else perr0)"
    note unf = percobaan_ke_def [of D plan batas jalankan c terakhir n slots w, unfolded Some sp option.case prod.case Let_def iz j perr_def [symmetric]]
    have w1: "h w1 = h w" using diam_izinkan [OF h iz] .
    show ?thesis
    proof (cases izin)
      case False
      then show ?thesis using unf w1 skip by simp
    next
      case izin: True
      show ?thesis
      proof (cases perr)
        case None
        then obtain v where v: "nilai = Some v" "perr0 = None" by (auto simp: perr_def split: if_splits)
        from ok [OF j [unfolded v]] obtain xs where
          xs: "\<And>a. at_skip_reason a = [] \<Longrightarrow> at_err a = None \<Longrightarrow> Q c a xs"
          "h (if pl_streaming plan then w2 else catat D c (model_kandidat plan c) True (pl_breaker_cfg plan) (st = state_half_open) token w2) = h w1 @ xs"
          unfolding fst_conv snd_conv by blast
        then show ?thesis using unf izin None w1 by (cases "pl_streaming plan") auto
      next
        case (Some e)
        then have e: "e = (case perr0 of None \<Rightarrow> galat_nil (rc_provider_name c) | Some x \<Rightarrow> x)" "perr0 = None \<longrightarrow> nilai = None"
          by (auto simp: perr_def split: if_splits option.splits)
        define w3 where "w3 = (if dikecualikan_dari_pencatatan_breaker (Some e) then w2
            else catat D c (model_kandidat plan c) False (pl_breaker_cfg plan) (st = state_half_open) token w2)"
        from err [OF j e] obtain xs where xs: "\<And>a. at_skip_reason a = [] \<Longrightarrow> at_err a = Some e \<Longrightarrow> Q c a xs" "h w3 = h w1 @ xs"
          unfolding w3_def fst_conv snd_conv by blast
        let ?a = "catatan c n (du_now D w1) (du_now D w2 - du_now D w1) st (Some e) []"
        have "percobaan_ke D plan batas jalankan c terakhir n slots w = setelah_gagal D plan batas terakhir n e ?a (lepas_slot pg s1) w3"
          using unf izin Some by (simp add: w3_def)
        with diam_setelah [OF h this [symmetric]] xs w1 show ?thesis by auto
      qed
    qed
  qed
  with skip show ?thesis by (simp add: menjejak_def)
qed

lemma coba_jejak:
  assumes h: "menjejak D plan jalankan h Q"
  shows "coba_kandidat D plan batas jalankan c k n slots w = ((w', s'), hasil, att, pg) \<Longrightarrow>
    \<exists>b. map fst b = att \<and> h w' = h w @ concat (map snd b) \<and> (\<forall>(a, xs)\<in>set b. Q c a xs)"
proof (induction k arbitrary: n slots w att hasil pg w' s')
  case 0
  then show ?case by (intro exI [of _ "[]"]) simp
next
  case (Suc k)
  have p: "case percobaan_ke D plan batas jalankan c (k = 0) n slots w of
        Berhenti w' s v a pg \<Rightarrow> \<exists>xs. h w' = h w @ xs \<and> Q c a xs
      | Ulangi w' s a \<Rightarrow> \<exists>xs. h w' = h w @ xs \<and> Q c a xs"
    using h unfolding menjejak_def by blast
  note unf = Suc.prems [unfolded coba_kandidat.simps(2)]
  show ?case
  proof (cases "percobaan_ke D plan batas jalankan c (k = 0) n slots w")
    case (Berhenti w1 s1 v a pg1)
    with p obtain xs where "h w1 = h w @ xs" "Q c a xs" by auto
    then show ?thesis using unf Berhenti by (intro exI [of _ "[(a, xs)]"]) simp
  next
    case (Ulangi w1 s1 a)
    with p obtain xs where xs: "h w1 = h w @ xs" "Q c a xs" by auto
    obtain w2 s2 v at2 pg2 where r: "coba_kandidat D plan batas jalankan c k (n + 1) s1 w1 = ((w2, s2), v, at2, pg2)"
      by (metis surj_pair)
    from Suc.IH [OF r] obtain b where "map fst b = at2" "h w2 = h w1 @ concat (map snd b)" "\<forall>(a, xs)\<in>set b. Q c a xs" by blast
    then show ?thesis using unf xs unfolding Ulangi langkah.case r prod.case
      by (intro exI [of _ "(a, xs) # b"]) auto
  qed
qed

lemma hitung_append [simp]: "hitung_percobaan_nyata (xs @ ys) = hitung_percobaan_nyata xs + hitung_percobaan_nyata ys"
  by (simp add: hitung_percobaan_nyata_def)

lemma hitung_Cons: "hitung_percobaan_nyata (x # xs) = hitung_percobaan_nyata [x] + hitung_percobaan_nyata xs"
  by (simp add: hitung_percobaan_nyata_def)

lemma hitung_le: "hitung_percobaan_nyata xs \<le> length xs"
  by (simp add: hitung_percobaan_nyata_def)

text \<open>The most attempts one candidate may get, whatever is left of the budget.\<close>

definition batas_kandidat :: "plan \<Rightarrow> route_candidate \<Rightarrow> int" where
  "batas_kandidat plan c =
     (if 0 \<le> rc_max_retries c then min (max (pl_max_attempts plan) 1) (rc_max_retries c + 1) else max (pl_max_attempts plan) 1)"

lemma jatah_le_batas:
  "\<not> (0 < pl_budget plan \<and> sisa \<le> 0) \<Longrightarrow> jatah_kandidat plan sisa c \<le> batas_kandidat plan c"
  using jatah_kandidat_bounds [of plan sisa c] by (simp add: batas_kandidat_def)

lemma batas_kandidat_pos: "1 \<le> batas_kandidat plan c"
  by (simp add: batas_kandidat_def)

lemma batas_sum_nonneg: "0 \<le> sum_list (map (batas_kandidat plan) cs)"
  by (induction cs) (use batas_kandidat_pos [of plan] in \<open>auto simp: order_trans [of 0 1]\<close>)

lemma putuskan_nyata:
  assumes "putuskan plan c cs p hasil att = r"
  shows "case r of Selesai out \<Rightarrow> ou_attempts out = pu_attempts p @ att
    | Lanjut p' \<Rightarrow> pu_attempts p' = pu_attempts p @ att \<and>
        pu_sisa p' = (if 0 < pl_budget plan then pu_sisa p - int (hitung_percobaan_nyata att) else pu_sisa p)"
  using assms by (auto simp: putuskan_def Let_def gagal_def split: option.splits if_splits)

text \<open>The turns of a loop over \<open>cs\<close>: for each candidate its attempts with what was seen of them.\<close>

definition giliran :: "plan \<Rightarrow> (route_candidate \<Rightarrow> attempt \<Rightarrow> 'a list \<Rightarrow> bool) \<Rightarrow> route_candidate \<Rightarrow> (attempt \<times> 'a list) list \<Rightarrow> bool" where
  "giliran plan Q c b \<longleftrightarrow> (\<forall>(a, xs)\<in>set b. Q c a xs) \<and> int (hitung_percobaan_nyata (map fst b)) \<le> batas_kandidat plan c"

lemma giliran_Nil [simp]: "giliran plan Q c []"
  using batas_kandidat_pos [of plan c] by (simp add: giliran_def hitung_percobaan_nyata_def)

lemma giliran_kosong: "list_all2 (giliran plan Q) cs (map (\<lambda>_. []) cs)"
  by (simp add: list_all2_conv_all_nth)

lemma concat_kosong [simp]: "concat (map (\<lambda>_. []) cs) = []"
  by (induction cs) simp_all

lemma rencana_loop_jejak:
  fixes jalankan :: "('w, 'v) pelaksana" and h :: "'w \<Rightarrow> 'a list"
  assumes h: "menjejak D plan jalankan h Q"
    and "rencana_loop D plan batas jalankan cs p slots w = ((w', slots'), out, pegang)"
  shows "\<exists>bs. list_all2 (giliran plan Q) cs bs \<and> ou_attempts out = pu_attempts p @ map fst (concat bs) \<and>
    h w' = h w @ concat (map snd (concat bs)) \<and>
    (0 < pl_budget plan \<longrightarrow> int (hitung_percobaan_nyata (map fst (concat bs))) \<le> max 0 (pu_sisa p))"
  using assms(2)
proof (induction cs arbitrary: p slots w)
  case Nil
  then show ?case by (intro exI [of _ "[]"]) (auto simp: hitung_percobaan_nyata_def)
next
  case (Cons c cs p slots w)
  note unf = Cons.prems [unfolded rencana_loop.simps(2)]
  have zero: ?case if "w' = w" "ou_attempts out = pu_attempts p"
    using that giliran_kosong [of plan Q "c # cs"]
    by (intro exI [of _ "map (\<lambda>_. []) (c # cs)"]) (simp add: hitung_percobaan_nyata_def)
  show ?case
  proof (cases "ctx_err D batas w")
    case (Some err)
    then show ?thesis using unf by (intro zero) auto
  next
    case None
    note unf = unf [unfolded None option.case]
    show ?thesis
    proof (cases "rc_model_id c \<noteq> [] \<and> rc_model_id c \<in> set (pu_ditolak p)")
      case True
      let ?a = "catatan c 1 (du_now D w) 0 [] None skip_ditolak"
      from Cons.IH [OF unf [unfolded if_P [OF True]]] obtain bs where bs: "list_all2 (giliran plan Q) cs bs"
        "ou_attempts out = pu_attempts p @ ?a # map fst (concat bs)" "h w' = h w @ concat (map snd (concat bs))"
        "0 < pl_budget plan \<longrightarrow> int (hitung_percobaan_nyata (map fst (concat bs))) \<le> max 0 (pu_sisa p)" by auto
      have "Q c ?a []" using h by (simp add: menjejak_def)
      then have "giliran plan Q c [(?a, [])]" using batas_kandidat_pos [of plan c] by (simp add: giliran_def hitung_percobaan_nyata_def)
      with bs show ?thesis by (intro exI [of _ "[(?a, [])] # bs"]) (simp add: hitung_percobaan_nyata_def)
    next
      case False
      note unf = unf [unfolded if_not_P [OF False]]
      show ?thesis
      proof (cases "0 < pl_budget plan \<and> pu_sisa p \<le> 0")
        case True
        from unf [unfolded if_P [OF True]] show ?thesis by (intro zero) auto
      next
        case b: False
        obtain w1 slots1 hasil att pg where k: "coba_kandidat D plan batas jalankan c (nat (jatah_kandidat plan (pu_sisa p) c)) 1 slots w
            = ((w1, slots1), hasil, att, pg)" by (metis surj_pair)
        note g = giliran_sah(2) [OF k b]
        have n: "int (hitung_percobaan_nyata att) \<le> batas_kandidat plan c" "0 < pl_budget plan \<Longrightarrow> int (hitung_percobaan_nyata att) \<le> pu_sisa p"
          using g hitung_le [of att] jatah_le_batas [OF b, of c] jatah_kandidat_bounds(4) [OF b, of c] by linarith+
        from coba_jejak [OF h k] obtain b1 where b1: "map fst b1 = att" "h w1 = h w @ concat (map snd b1)" "\<forall>(a, xs)\<in>set b1. Q c a xs" by blast
        then have g1: "giliran plan Q c b1" using n(1) by (simp add: giliran_def)
        note unf = unf [unfolded if_not_P [OF b] k prod.case] and pn = putuskan_nyata [of plan c cs p hasil att, OF refl]
        show ?thesis
        proof (cases "putuskan plan c cs p hasil att")
          case (Selesai out')
          then show ?thesis using unf pn b1 g1 n(2) giliran_kosong [of plan Q cs]
            by (intro exI [of _ "b1 # map (\<lambda>_. []) cs"]) auto
        next
          case (Lanjut p')
          from Cons.IH [OF unf [unfolded Lanjut putusan.case]] obtain bs where bs: "list_all2 (giliran plan Q) cs bs"
            "ou_attempts out = pu_attempts p' @ map fst (concat bs)" "h w' = h w1 @ concat (map snd (concat bs))"
            "0 < pl_budget plan \<longrightarrow> int (hitung_percobaan_nyata (map fst (concat bs))) \<le> max 0 (pu_sisa p')" by blast
          then show ?thesis using pn b1 g1 n unfolding Lanjut putusan.case
            by (intro exI [of _ "b1 # bs"]) (auto split: if_splits)
        qed
      qed
    qed
  qed
qed

text \<open>The candidates that the egress filter leaves out have no turn.\<close>

lemma giliran_saring:
  "list_all2 (giliran plan Q) (filter P cs) bs \<Longrightarrow> \<exists>bs'. list_all2 (giliran plan Q) cs bs' \<and> concat bs' = concat bs"
proof (induction cs arbitrary: bs)
  case (Cons c cs)
  show ?case
  proof (cases "P c")
    case True
    with Cons.prems obtain b bs1 where b: "bs = b # bs1" "giliran plan Q c b" "list_all2 (giliran plan Q) (filter P cs) bs1"
      by (auto simp: list_all2_Cons1)
    from Cons.IH [OF b(3)] obtain bs' where "list_all2 (giliran plan Q) cs bs'" "concat bs' = concat bs1" by blast
    with b show ?thesis by (intro exI [of _ "b # bs'"]) simp
  next
    case False
    with Cons.prems Cons.IH [of bs] obtain bs' where "list_all2 (giliran plan Q) cs bs'" "concat bs' = concat bs" by auto
    then show ?thesis by (intro exI [of _ "[] # bs'"]) simp
  qed
qed simp

lemma saring_filter: "\<exists>P. saring_kandidat_egress D w cs = filter P cs"
proof -
  have "\<exists>P. cs = filter P cs" by (rule exI [of _ "\<lambda>_. True"]) simp
  then show ?thesis by (auto simp: saring_kandidat_egress_def Let_def split: option.split)
qed

section \<open>Counting the calls of the adapter\<close>

text \<open>The adapter's calls, as the candidates called: only the adapter moves this list.\<close>

definition pencatat_panggilan :: "'w dunia \<Rightarrow> ('w, 'v) pelaksana \<Rightarrow> ('w \<Rightarrow> route_candidate list) \<Rightarrow> bool" where
  "pencatat_panggilan D jalankan h \<longleftrightarrow>
     (\<forall>batas pt c w. h (fst (jalankan batas pt c w)) = h w @ [c]) \<and> diam_menunggu D h \<and>
     (\<forall>g. du_penjaga D = Some g \<longrightarrow>
        (\<forall>k i m s t w. h (pg_record_episode g k i m s t w) = h w) \<and>
        (\<forall>k i m s b w. h (pg_record_hasil g k i m s b w) = h w) \<and> (\<forall>k i m s w. h (pg_record g k i m s w) = h w))"

lemma panggilan_catat: "pencatat_panggilan D jalankan h \<Longrightarrow> h (catat D c m s cfg pr t w) = h w"
  by (auto simp: catat_def pencatat_panggilan_def Let_def split: option.split)

definition dipanggil :: "route_candidate \<Rightarrow> attempt \<Rightarrow> route_candidate list \<Rightarrow> bool" where
  "dipanggil c a xs \<longleftrightarrow> xs = (if at_skip_reason a = [] then [c] else [])"

lemma menjejak_panggilan:
  assumes "pencatat_panggilan D jalankan h"
  shows "menjejak D plan jalankan h dipanggil"
proof (rule menjejakI)
  show "diam_menunggu D h" using assms by (simp add: pencatat_panggilan_def)
  have j: "h w' = h w @ [c]" if "jalankan batas pt c w = (w', v, e)" for batas pt c w w' v e
    using assms that unfolding pencatat_panggilan_def by (metis fst_conv)
  show "\<exists>xs. (\<forall>a. at_skip_reason a = [] \<longrightarrow> at_err a = None \<longrightarrow> dipanggil c a xs) \<and>
      h (if pl_streaming plan then w' else catat D c (model_kandidat plan c) True (pl_breaker_cfg plan) (fst pt) (snd pt) w') = h w @ xs"
    if "jalankan batas pt c w = (w', Some v, None)" for batas pt c w w' v
    using j [OF that] panggilan_catat [OF assms] by (intro exI [of _ "[c]"]) (simp add: dipanggil_def)
  show "\<exists>xs. (\<forall>a. at_skip_reason a = [] \<longrightarrow> at_err a = Some e \<longrightarrow> dipanggil c a xs) \<and>
      h (if dikecualikan_dari_pencatatan_breaker (Some e) then w'
         else catat D c (model_kandidat plan c) False (pl_breaker_cfg plan) (fst pt) (snd pt) w') = h w @ xs"
    if "jalankan batas pt c w = (w', v, e')" for batas pt c w w' v e e'
    using j [OF that] panggilan_catat [OF assms] by (intro exI [of _ "[c]"]) (simp add: dipanggil_def)
qed (simp add: dipanggil_def)

lemma dipanggil_giliran: "\<forall>(a, xs)\<in>set b. dipanggil c a xs \<Longrightarrow> concat (map snd b) = replicate (hitung_percobaan_nyata (map fst b)) c"
proof (induction b)
  case (Cons x b)
  then show ?case by (cases x) (auto simp: dipanggil_def hitung_percobaan_nyata_def)
qed (simp add: hitung_percobaan_nyata_def)

lemma panggilan_giliran:
  assumes "list_all2 (giliran plan dipanggil) cs bs"
  shows "\<exists>ns. length ns = length cs \<and> concat (map snd (concat bs)) = concat (map2 replicate ns cs) \<and>
    (\<forall>i<length cs. int (ns ! i) \<le> batas_kandidat plan (cs ! i)) \<and> hitung_percobaan_nyata (map fst (concat bs)) = sum_list ns"
  using assms
proof (induction rule: list_all2_induct)
  case Nil
  then show ?case by (simp add: hitung_percobaan_nyata_def)
next
  case (Cons c cs b bs)
  then obtain ns where ns: "length ns = length cs" "concat (map snd (concat bs)) = concat (map2 replicate ns cs)"
    "\<forall>i<length cs. int (ns ! i) \<le> batas_kandidat plan (cs ! i)" "hitung_percobaan_nyata (map fst (concat bs)) = sum_list ns" by blast
  have b: "concat (map snd b) = replicate (hitung_percobaan_nyata (map fst b)) c" "int (hitung_percobaan_nyata (map fst b)) \<le> batas_kandidat plan c"
    using Cons.hyps(1) dipanggil_giliran [of b c] by (simp_all add: giliran_def)
  have "int ((hitung_percobaan_nyata (map fst b) # ns) ! i) \<le> batas_kandidat plan ((c # cs) ! i)" if "i < length (c # cs)" for i
    using ns(3) b(2) that by (cases i) simp_all
  with ns b show ?case by (intro exI [of _ "hitung_percobaan_nyata (map fst b) # ns"]) simp
qed

section \<open>Where a value comes from\<close>

lemma setelah_gagal_nilai: "setelah_gagal D plan batas terakhir n e a slots w \<noteq> Berhenti w' s' (Some v) b pg"
  by (auto simp: setelah_gagal_def split: prod.split option.split)

lemma percobaan_nilai:
  assumes P: "\<And>pt w w' v. jalankan batas pt c w = (w', Some v, None) \<Longrightarrow> P v"
    and l: "percobaan_ke D plan batas jalankan c terakhir n slots w = Berhenti w' s' (Some v) a pg"
  shows "P v"
proof (cases "ambil_slot c slots")
  case None
  then show ?thesis using l by (simp add: percobaan_ke_def)
next
  case (Some sp)
  obtain s1 pg0 where sp: "sp = (s1, pg0)" by (cases sp)
  obtain w1 izin st token gerr where iz: "izinkan D c (model_kandidat plan c) (pl_breaker_cfg plan) w = (w1, izin, st, token, gerr)"
    by (cases "izinkan D c (model_kandidat plan c) (pl_breaker_cfg plan) w") auto
  obtain w2 nilai perr where j: "jalankan batas (st = state_half_open, token) c w1 = (w2, nilai, perr)"
    by (cases "jalankan batas (st = state_half_open, token) c w1") auto
  note unf = l [unfolded percobaan_ke_def Some sp option.case prod.case Let_def iz j]
  show ?thesis
  proof (cases "izin \<and> perr = None \<and> nilai \<noteq> None")
    case True
    then have "nilai = Some v" using unf by (auto split: if_splits)
    with j True show ?thesis using P by simp
  next
    case False
    then show ?thesis using unf by (auto simp: setelah_gagal_nilai split: if_splits option.splits)
  qed
qed

lemma coba_nilai:
  assumes P: "\<And>pt w w' v. jalankan batas pt c w = (w', Some v, None) \<Longrightarrow> P v"
  shows "coba_kandidat D plan batas jalankan c k n slots w = (ws, Some v, att, pg) \<Longrightarrow> P v"
proof (induction k arbitrary: n slots w att)
  case (Suc k)
  show ?case
  proof (cases "percobaan_ke D plan batas jalankan c (k = 0) n slots w")
    case (Berhenti w1 s1 h a pg1)
    then show ?thesis using Suc.prems percobaan_nilai [of jalankan batas c P, OF P] by auto
  next
    case (Ulangi w1 s1 a)
    then show ?thesis using Suc by (auto split: prod.splits)
  qed
qed simp

lemma rencana_nilai:
  assumes P: "\<And>c pt w w' v. jalankan batas pt c w = (w', Some v, None) \<Longrightarrow> P v"
  shows "rencana_loop D plan batas jalankan cs p slots w = (ws, out, pg) \<Longrightarrow> ou_value out = Some v \<Longrightarrow> P v"
proof (induction cs arbitrary: p slots w)
  case (Cons c cs)
  note unf = Cons.prems(1) [unfolded rencana_loop.simps(2)]
  show ?case
  proof (cases "ctx_err D batas w \<noteq> None \<or> (rc_model_id c \<noteq> [] \<and> rc_model_id c \<in> set (pu_ditolak p)) \<or>
      (0 < pl_budget plan \<and> pu_sisa p \<le> 0)")
    case True
    then show ?thesis using unf Cons.prems(2) Cons.IH by (auto split: option.splits if_splits)
  next
    case False
    obtain ws1 h att pg1 where k: "coba_kandidat D plan batas jalankan c (nat (jatah_kandidat plan (pu_sisa p) c)) 1 slots w
        = (ws1, h, att, pg1)" by (metis prod_cases4)
    obtain w1 slots1 where ws1: "ws1 = (w1, slots1)" by (cases ws1)
    show ?thesis
    proof (cases h)
      case None
      then show ?thesis using unf False k ws1 Cons by (auto simp: putuskan_def gagal_def Let_def split: option.splits if_splits)
    next
      case (Some v')
      then have "v' = v" using unf False k ws1 Cons.prems(2) by (auto simp: putuskan_def Let_def)
      then show ?thesis using coba_nilai [OF P k [unfolded Some]] by simp
    qed
  qed
qed auto

section \<open>Delays\<close>

text \<open>The largest base the column \<^verbatim>\<open>backoff_ms\<close> of \<^verbatim>\<open>routing_rules\<close> accepts: one minute.\<close>

definition backoff_skema :: durasi where "backoff_skema = 60000 * milidetik"

lemma wrap64_geser:
  assumes "0 < base" "base \<le> backoff_skema" "0 \<le> g" "g \<le> 20"
  shows "wrap64 (base * 2 ^ nat g) = base * 2 ^ nat g"
proof -
  have "(2::int) ^ nat g \<le> 2 ^ 20" using assms(3,4) by (intro power_increasing) auto
  then have "base * 2 ^ nat g \<le> backoff_skema * 2 ^ 20" using assms(1,2) by (intro mult_mono) auto
  also have "\<dots> < 2 ^ 63" by (simp add: backoff_skema_def)
  finally have "base * 2 ^ nat g < 2 ^ 63" .
  moreover have "0 < base * 2 ^ nat g" using assms(1) by simp
  ultimately show ?thesis by (intro wrap64_id) (simp add: in_i64_def del: zero_less_mult_iff)
qed

definition jitter_sah :: "'w dunia \<Rightarrow> bool" where
  "jitter_sah D \<longleftrightarrow> (\<forall>n w. 0 < n \<longrightarrow> 0 \<le> snd (du_acak D n w) \<and> snd (du_acak D n w) < n)"

lemma backoff_batas:
  assumes "jitter_sah D" "backoff D base n w = (w', r)"
  shows "0 \<le> r" and "r \<le> max_backoff"
    and "0 < base \<Longrightarrow> base \<le> backoff_skema \<Longrightarrow> 2 \<le> n \<Longrightarrow>
           min max_backoff (base * 2 ^ nat (min (n - 2) 20)) \<le> 2 * r + 1 \<and> r \<le> min max_backoff (base * 2 ^ nat (min (n - 2) 20))"
proof -
  define d0 where "d0 = wrap64 (base * 2 ^ nat (min (n - 2) 20))"
  define d where "d = (if d0 \<le> 0 \<or> max_backoff < d0 then max_backoff else d0)"
  have d: "0 < d" "d \<le> max_backoff" by (auto simp: d_def max_backoff_def)
  have s: "go_div d 2 = d div 2" using d by (simp add: go_div_nonneg)
  have j: "0 < go_div d 2 \<Longrightarrow> 0 \<le> snd (du_acak D (go_div d 2) w) \<and> snd (du_acak D (go_div d 2) w) < go_div d 2"
    using assms(1) by (simp add: jitter_sah_def)
  have r: "(base \<le> 0 \<or> n < 2) \<and> r = 0 \<or> \<not> (base \<le> 0 \<or> n < 2) \<and> d \<le> 2 * r + 1 \<and> r \<le> d"
  proof (cases "base \<le> 0 \<or> n < 2")
    case True
    then show ?thesis using assms(2) by (auto simp: backoff_def)
  next
    case False
    have "(if go_div d 2 \<le> 0 then (w, d) else case du_acak D (go_div d 2) w of (w', j) \<Rightarrow> (w', go_div d 2 + j)) = (w', r)"
      using assms(2) unfolding backoff_def if_not_P [OF False] Let_def d0_def [symmetric] d_def [symmetric] .
    then show ?thesis using False d j s by (cases "go_div d 2 \<le> 0") (auto split: prod.splits)
  qed
  show "0 \<le> r" "r \<le> max_backoff" using r d by (auto simp: max_backoff_def)
  assume b: "0 < base" "base \<le> backoff_skema" "2 \<le> n"
  have "d0 = base * 2 ^ nat (min (n - 2) 20)" unfolding d0_def by (rule wrap64_geser) (use b in auto)
  moreover have "0 < base * 2 ^ nat (min (n - 2) 20)" using b by simp
  ultimately have "d = min max_backoff (base * 2 ^ nat (min (n - 2) 20))" by (auto simp: d_def)
  then show "min max_backoff (base * 2 ^ nat (min (n - 2) 20)) \<le> 2 * r + 1 \<and> r \<le> min max_backoff (base * 2 ^ nat (min (n - 2) 20))"
    using r b by auto
qed

section \<open>The plan\<close>

lemma saring_subset: "set (saring_kandidat_egress D w cs) \<subseteq> set cs"
  by (auto simp: saring_kandidat_egress_def Let_def split: option.splits if_splits)

lemma saring_nonempty: "cs \<noteq> [] \<Longrightarrow> saring_kandidat_egress D w cs \<noteq> []"
  by (auto simp: saring_kandidat_egress_def Let_def split: option.splits)

lemma hasil_sah_subset: "hasil_sah cs out \<Longrightarrow> set cs \<subseteq> set ds \<Longrightarrow> hasil_sah ds out"
  by (auto simp: hasil_sah_def split: option.splits)

definition putaran_awal :: "plan \<Rightarrow> putaran" where
  "putaran_awal plan = \<lparr>pu_sisa = pl_budget plan, pu_ditolak = [], pu_lewatan = None, pu_attempts = [], pu_err = None\<rparr>"

lemma putaran_awal_sah: "putaran_sah (putaran_awal plan)"
  by (simp add: putaran_sah_def putaran_awal_def err_terakhir_def)

lemma jalankan_rencana_cases:
  assumes "jalankan_rencana D plan jalankan slots w = r"
  obtains (kosong) "pl_candidates plan = []" "r = ((w, slots), gagal (putaran_awal plan) (Some (newf KindModelNotFound []
              (''tidak ada provider yang bisa melayani model '' @ CHR 0x22 # pl_model plan @ [CHR 0x22]))), None)"
  | (loop) batas where "pl_candidates plan \<noteq> []"
      "rencana_loop D plan batas jalankan (saring_kandidat_egress D w (pl_candidates plan)) (putaran_awal plan) slots w = r"
  using assms by (auto simp: jalankan_rencana_def putaran_awal_def Let_def split: if_splits)

lemma jalankan_nilai:
  assumes P: "\<And>batas c pt w w' v. jalankan batas pt c w = (w', Some v, None) \<Longrightarrow> P v"
    and "jalankan_rencana D plan jalankan slots w = (ws, out, pg)" and "ou_value out = Some v"
  shows "P v"
proof (rule jalankan_rencana_cases [OF assms(2)])
  fix batas
  assume r: "rencana_loop D plan batas jalankan (saring_kandidat_egress D w (pl_candidates plan)) (putaran_awal plan) slots w = (ws, out, pg)"
  show "P v" by (rule rencana_nilai [OF P r assms(3)])
qed (use assms(3) in auto)

lemma jalankan_slots:
  assumes "jalankan_rencana D plan jalankan slots w = ((w', slots'), out, pegang)"
  shows "slots' = pegang_tambah pegang slots \<and> (pegang \<noteq> None \<longrightarrow> pl_streaming plan \<and> ou_value out \<noteq> None)"
proof (rule jalankan_rencana_cases [OF assms])
  fix batas
  assume "rencana_loop D plan batas jalankan (saring_kandidat_egress D w (pl_candidates plan)) (putaran_awal plan) slots w
      = ((w', slots'), out, pegang)"
  from rencana_loop_sah [OF this putaran_awal_sah] show ?thesis by (auto simp: rencana_sah_def)
qed (auto simp: pegang_tambah_def)

lemma jalankan_berhasil:
  assumes "jalankan_rencana D plan jalankan slots w = ((w', slots'), out, pegang)" and "ou_value out = Some v"
  shows "ou_attempts out \<noteq> [] \<and> berhasil (last (ou_attempts out))"
proof (rule jalankan_rencana_cases [OF assms(1)])
  fix batas
  assume r: "rencana_loop D plan batas jalankan (saring_kandidat_egress D w (pl_candidates plan)) (putaran_awal plan) slots w
      = ((w', slots'), out, pegang)"
  from rencana_loop_sah [OF r putaran_awal_sah] assms(2) show ?thesis by (simp add: rencana_sah_def hasil_sah_def)
qed (use assms(2) in simp)

lemma jalankan_jejak:
  assumes h: "menjejak D plan jalankan h Q" and "jalankan_rencana D plan jalankan slots w = ((w', slots'), out, pegang)"
  shows "\<exists>bs. list_all2 (giliran plan Q) (pl_candidates plan) bs \<and> ou_attempts out = map fst (concat bs) \<and>
    h w' = h w @ concat (map snd (concat bs)) \<and> (0 < pl_budget plan \<longrightarrow> int (percobaan out) \<le> pl_budget plan)"
proof (rule jalankan_rencana_cases [OF assms(2)])
  fix batas
  assume "rencana_loop D plan batas jalankan (saring_kandidat_egress D w (pl_candidates plan))
        (putaran_awal plan) slots w = ((w', slots'), out, pegang)"
  from rencana_loop_jejak [OF h this] obtain bs where
    bs: "list_all2 (giliran plan Q) (saring_kandidat_egress D w (pl_candidates plan)) bs" "ou_attempts out = map fst (concat bs)"
    "h w' = h w @ concat (map snd (concat bs))"
    "0 < pl_budget plan \<longrightarrow> int (hitung_percobaan_nyata (map fst (concat bs))) \<le> max 0 (pl_budget plan)"
    by (auto simp: putaran_awal_def)
  obtain P where "saring_kandidat_egress D w (pl_candidates plan) = filter P (pl_candidates plan)"
    by (rule exE [OF saring_filter])
  with giliran_saring [of plan Q P "pl_candidates plan" bs] bs(1) obtain bs' where
    "list_all2 (giliran plan Q) (pl_candidates plan) bs'" "concat bs' = concat bs" by auto
  with bs(2-4) show ?thesis by (intro exI [of _ bs']) (auto simp: percobaan_def)
next
  assume k: "pl_candidates plan = []" and "((w', slots'), out, pegang) = ((w, slots), gagal (putaran_awal plan) (Some (newf KindModelNotFound []
              (''tidak ada provider yang bisa melayani model '' @ CHR 0x22 # pl_model plan @ [CHR 0x22]))), None)"
  then show ?thesis by (intro exI [of _ "[]"]) (simp add: putaran_awal_def percobaan_def hitung_percobaan_nyata_def)
qed

text \<open>A concrete world for the witnesses: it lists the candidates called; the adapter fails on provider \<open>a\<close>.\<close>

definition contoh_dunia :: "route_candidate list dunia" where
  "contoh_dunia = \<lparr>du_now = (\<lambda>w. 0), du_ctx_err = (\<lambda>w. None), du_deadline = (\<lambda>w. None), du_tidur = (\<lambda>b d w. (w, False)),
     du_acak = (\<lambda>n w. (w, 0)), du_penjaga = None, du_egress = None\<rparr>"

definition contoh_kandidat :: "string \<Rightarrow> route_candidate" where
  "contoh_kandidat i = \<lparr>rc_model_id = ''m'', rc_provider_model_id = i, rc_upstream_model_name = ''u'', rc_max_context_window = None,
     rc_supports_streaming = True, rc_supports_tools = True, rc_priority = 1, rc_weight = 1, rc_provider_id = i,
     rc_provider_name = i, rc_kind = ''openai'', rc_base_url = [], rc_timeout_ms = 0, rc_max_retries = 1,
     rc_rate_limit_rpm = None, rc_rate_limit_tpm = None, rc_max_concurrent = Some 1, rc_egress_pool_id = None,
     rc_is_byok = False, rc_owner_user_id = None, rc_last_health_status = None, rc_last_latency_ms = None,
     rc_consecutive_failures = 0\<rparr>"

definition contoh_plan :: plan where
  "contoh_plan = (plan_from_rule None ''turbo'' [contoh_kandidat ''a'', contoh_kandidat ''b''])\<lparr>pl_backoff_base := 0\<rparr>"

definition contoh_jalankan :: "(route_candidate list, int) pelaksana" where
  "contoh_jalankan batas pt c w =
     (w @ [c], if rc_provider_id c = ''a'' then None else Some 7,
      if rc_provider_id c = ''a'' then Some (newf KindServer ''a'' []) else None)"

definition contoh_hasil :: "(route_candidate list \<times> slots) \<times> int outcome \<times> string option" where
  "contoh_hasil = jalankan_rencana contoh_dunia contoh_plan contoh_jalankan (\<lambda>_. 0) []"

lemma contoh_pencatat: "pencatat_panggilan contoh_dunia contoh_jalankan (\<lambda>w. w)"
  by (simp add: pencatat_panggilan_def diam_menunggu_def contoh_dunia_def contoh_jalankan_def)

text \<open>C7. Nothing follows an attempt that succeeded or whose stream already reached the client.  A further
  attempt on the same candidate follows only a retryable failure of it; the next candidate is tried
  only after a failure that may be failed over or a rejection of the request by that model.\<close>

theorem executor_history:
  assumes "jalankan_rencana D plan jalankan slots w = (ws, out, pegang)" and "Suc i < length (ou_attempts out)"
  shows "boleh_lanjut (ou_attempts out ! i) (ou_attempts out ! Suc i)"
proof (rule jalankan_rencana_cases [OF assms(1)])
  assume "(ws, out, pegang) = ((w, slots), gagal (putaran_awal plan) (Some (newf KindModelNotFound []
              (''tidak ada provider yang bisa melayani model '' @ CHR 0x22 # pl_model plan @ [CHR 0x22]))), None)"
  then show ?thesis using assms(2) by (simp add: putaran_awal_def)
next
  fix batas
  assume r: "rencana_loop D plan batas jalankan (saring_kandidat_egress D w (pl_candidates plan)) (putaran_awal plan) slots w = (ws, out, pegang)"
  obtain w' slots' where ws: "ws = (w', slots')" by (cases ws)
  have "successively boleh_lanjut (ou_attempts out)"
    using rencana_loop_sah [OF r [unfolded ws] putaran_awal_sah] by (simp add: rencana_sah_def)
  then show ?thesis using assms(2) by (simp add: successively_conv_nth)
qed

lemma executor_history_witness:
  "map at_provider_id (ou_attempts (fst (snd contoh_hasil))) = [''a'', ''a'', ''b''] \<and>
   boleh_lanjut (ou_attempts (fst (snd contoh_hasil)) ! 1) (ou_attempts (fst (snd contoh_hasil)) ! 2)"
proof -
  have m: "map at_provider_id (ou_attempts (fst (snd contoh_hasil))) = [''a'', ''a'', ''b'']" by code_simp
  then have l: "length (ou_attempts (fst (snd contoh_hasil))) = 3" by (metis length_map list.size(3,4) numeral_3_eq_3 One_nat_def add.right_neutral add_Suc_right)
  have "jalankan_rencana contoh_dunia contoh_plan contoh_jalankan (\<lambda>_. 0) [] =
      (fst contoh_hasil, fst (snd contoh_hasil), snd (snd contoh_hasil))" by (simp add: contoh_hasil_def)
  from executor_history [OF this, of 1] l m show ?thesis by (simp add: numeral_2_eq_2)
qed

text \<open>C8. An outcome is a value of one of the plan's candidates, reached by the last attempt and by no other,
  or an error and no value; the error is that of the last attempt made, or the context's, or, when no
  attempt was made, the full slot's or that of a plan whose breakers are all open.  The slots are given
  back, except the one a successful stream goes on holding.\<close>

theorem executor_outcome:
  assumes "jalankan_rencana D plan jalankan slots w = ((w', slots'), out, pegang)"
  shows "(if pl_candidates plan = [] then ou_value out = None \<and> map_option pe_kind (ou_err out) = Some KindModelNotFound
      else hasil_sah (pl_candidates plan) out) \<and> slots' = pegang_tambah pegang slots \<and>
      (pegang \<noteq> None \<longrightarrow> pl_streaming plan \<and> ou_value out \<noteq> None)"
proof (rule jalankan_rencana_cases [OF assms])
  fix batas
  assume ne: "pl_candidates plan \<noteq> []" and r: "rencana_loop D plan batas jalankan (saring_kandidat_egress D w (pl_candidates plan))
      (putaran_awal plan) slots w = ((w', slots'), out, pegang)"
  have "hasil_sah (saring_kandidat_egress D w (pl_candidates plan)) out"
    using rencana_loop_sah [OF r putaran_awal_sah] by (simp add: rencana_sah_def)
  from hasil_sah_subset [OF this saring_subset] ne show ?thesis using jalankan_slots [OF assms] by simp
qed (auto simp: gagal_def pegang_tambah_def)

lemma executor_outcome_witness:
  "ou_value (fst (snd contoh_hasil)) = Some 7 \<and> hasil_sah (pl_candidates contoh_plan) (fst (snd contoh_hasil))"
proof -
  have v: "ou_value (fst (snd contoh_hasil)) = Some 7" by code_simp
  have ne: "pl_candidates contoh_plan \<noteq> []" by code_simp
  have "jalankan_rencana contoh_dunia contoh_plan contoh_jalankan (\<lambda>_. 0) [] =
      ((fst (fst contoh_hasil), snd (fst contoh_hasil)), fst (snd contoh_hasil), snd (snd contoh_hasil))"
    by (simp add: contoh_hasil_def)
  from executor_outcome [OF this] v ne show ?thesis by simp
qed

text \<open>C9. The plan ends after finitely many calls of the adapter, and they come in the order of its candidates:
  first those of the first candidate, then those of the second and so on, each candidate with at most its own
  allowance, which no other candidate can use; together they are the attempts the outcome counts, and never
  more than a positive budget shared by all candidates.\<close>

theorem executor_calls:
  assumes "pencatat_panggilan D jalankan h" and "jalankan_rencana D plan jalankan slots w = ((w', slots'), out, pegang)"
  shows "\<exists>ns. length ns = length (pl_candidates plan) \<and> h w' = h w @ concat (map2 replicate ns (pl_candidates plan)) \<and>
      (\<forall>i<length (pl_candidates plan). int (ns ! i) \<le> batas_kandidat plan (pl_candidates plan ! i)) \<and>
      percobaan out = sum_list ns \<and> (0 < pl_budget plan \<longrightarrow> int (sum_list ns) \<le> pl_budget plan)"
proof -
  from jalankan_jejak [OF menjejak_panggilan [OF assms(1)] assms(2)] obtain bs where
    bs: "list_all2 (giliran plan dipanggil) (pl_candidates plan) bs" "ou_attempts out = map fst (concat bs)"
    "h w' = h w @ concat (map snd (concat bs))" "0 < pl_budget plan \<longrightarrow> int (percobaan out) \<le> pl_budget plan" by blast
  from panggilan_giliran [OF bs(1)] obtain ns where ns: "length ns = length (pl_candidates plan)"
    "concat (map snd (concat bs)) = concat (map2 replicate ns (pl_candidates plan))"
    "\<forall>i<length (pl_candidates plan). int (ns ! i) \<le> batas_kandidat plan (pl_candidates plan ! i)"
    "hitung_percobaan_nyata (map fst (concat bs)) = sum_list ns" by blast
  with bs show ?thesis by (intro exI [of _ ns]) (simp add: percobaan_def)
qed

lemma executor_calls_witness:
  "map rc_provider_id (fst (fst contoh_hasil)) = [''a'', ''a'', ''b''] \<and> map (batas_kandidat contoh_plan) (pl_candidates contoh_plan) = [2, 2] \<and>
   (\<exists>ns. length ns = 2 \<and> fst (fst contoh_hasil) = concat (map2 replicate ns (pl_candidates contoh_plan)) \<and>
      percobaan (fst (snd contoh_hasil)) = sum_list ns)"
proof -
  have m: "map rc_provider_id (fst (fst contoh_hasil)) = [''a'', ''a'', ''b'']" by code_simp
  have b: "map (batas_kandidat contoh_plan) (pl_candidates contoh_plan) = [2, 2]" by code_simp
  have l: "length (pl_candidates contoh_plan) = 2" by code_simp
  have "jalankan_rencana contoh_dunia contoh_plan contoh_jalankan (\<lambda>_. 0) [] =
      ((fst (fst contoh_hasil), snd (fst contoh_hasil)), fst (snd contoh_hasil), snd (snd contoh_hasil))"
    by (simp add: contoh_hasil_def)
  from executor_calls [OF contoh_pencatat this] m b l show ?thesis by auto
qed

text \<open>C36. A delay is never negative, never above ten seconds and ends before the context's deadline.  A
  positive \<^verbatim>\<open>Retry-After\<close> up to five seconds is obeyed exactly; otherwise, for every base the schema
  accepts, the delay lies between half of the doubled base and all of it, without overflow.\<close>

theorem executor_delay:
  assumes "jitter_sah D" and "jeda_sebelum D batas base n (Some e) w = (w', Some jeda)"
  shows "0 \<le> jeda \<and> jeda \<le> max_backoff \<and>
      (case ctx_deadline D batas w' of Some t \<Rightarrow> du_now D w' + jeda < t | None \<Rightarrow> True) \<and>
      (0 < pe_retry_after e \<longrightarrow> jeda = pe_retry_after e \<and> jeda \<le> max_retry_after) \<and>
      (pe_retry_after e \<le> 0 \<longrightarrow> 0 < base \<longrightarrow> base \<le> backoff_skema \<longrightarrow> 2 \<le> n \<longrightarrow>
        min max_backoff (base * 2 ^ nat (min (n - 2) 20)) \<le> 2 * jeda + 1 \<and>
        jeda \<le> min max_backoff (base * 2 ^ nat (min (n - 2) 20)))"
proof -
  obtain r where b: "backoff D base n w = (w', r)" "\<not> (0 < pe_retry_after e \<and> max_retry_after < pe_retry_after e)"
      "jeda = (if 0 < pe_retry_after e then pe_retry_after e else r)"
      "case ctx_deadline D batas w' of Some t \<Rightarrow> du_now D w' + jeda < t | None \<Rightarrow> True"
    using assms(2) unfolding jeda_sebelum_def Let_def by (auto split: prod.splits option.splits if_splits)
  note bts = backoff_batas [OF assms(1) b(1)]
  have "max_retry_after \<le> max_backoff" by (simp add: max_retry_after_def max_backoff_def)
  then show ?thesis using b(2-4) bts by auto
qed

lemma executor_delay_witness:
  "jeda_sebelum contoh_dunia None (250 * milidetik) 4 (Some (newf KindServer ''a'' [])) [] = ([], Some (500 * milidetik)) \<and>
   1000 * milidetik \<le> 2 * (500 * milidetik) + (1::int)"
proof -
  have j: "jeda_sebelum contoh_dunia None (250 * milidetik) 4 (Some (newf KindServer ''a'' [])) [] = ([], Some (500 * milidetik))"
    by (simp add: jeda_sebelum_def backoff_def contoh_dunia_def wrap64_def max_backoff_def go_div_nonneg ctx_deadline_def)
  have "jitter_sah contoh_dunia" by (simp add: jitter_sah_def contoh_dunia_def)
  from executor_delay [OF this j] show ?thesis using j by (simp add: max_backoff_def backoff_skema_def)
qed

end

