(* ===== verification/Guarded_Executor.thy ===== *)
theory Guarded_Executor
  imports Executor_Runs Breaker
begin

text \<open>
  The executor over the circuit breaker: what the executor needs of a guard (\<^verbatim>\<open>CircuitGuard\<close> and its
  optional extensions in \<^verbatim>\<open>internal/gateway/executor.go\<close>) as a locale, the breaker of
  \<^verbatim>\<open>internal/gateway/breaker.go\<close> as that guard, and what follows for the skipped candidates.
\<close>

section \<open>What the executor needs of a guard\<close>

text \<open>Everything but the guard keeps \<open>jaga\<close>.\<close>

definition menjaga :: "'w dunia \<Rightarrow> ('w, 'v) pelaksana \<Rightarrow> ('w \<Rightarrow> bool) \<Rightarrow> bool" where
  "menjaga D jalankan jaga \<longleftrightarrow>
     (\<forall>batas pt c w. jaga w \<longrightarrow> jaga (fst (jalankan batas pt c w))) \<and>
     (\<forall>batas d w. jaga w \<longrightarrow> jaga (fst (du_tidur D batas d w))) \<and> (\<forall>n w. jaga w \<longrightarrow> jaga (fst (du_acak D n w)))"

locale circuit_guard =
  fixes g :: "'w penjaga" and jaga :: "'w \<Rightarrow> bool" and tolak :: "state set"
  assumes izin_episode: "jaga w \<Longrightarrow> pg_izinkan_episode g k i m w = (w', izin, st, token, err) \<Longrightarrow>
      jaga w' \<and> (\<not> izin \<longrightarrow> \<not> err \<longrightarrow> st \<in> tolak)"
    and izin_allow: "jaga w \<Longrightarrow> pg_allow g k i m w = (w', izin, st, err) \<Longrightarrow> jaga w' \<and> (\<not> izin \<longrightarrow> \<not> err \<longrightarrow> st \<in> tolak)"
    and record_episode: "jaga w \<Longrightarrow> jaga (pg_record_episode g k i m b t w)"
    and record_hasil: "jaga w \<Longrightarrow> jaga (pg_record_hasil g k i m b pr w)"
    and record_biasa: "jaga w \<Longrightarrow> jaga (pg_record g k i m b w)"

context circuit_guard begin

definition ditolak_wajar :: "attempt \<Rightarrow> bool" where
  "ditolak_wajar a \<longleftrightarrow> (at_skip_reason a = skip_breaker \<longrightarrow> at_breaker_state a \<in> tolak)"

lemma izinkan_inv:
  assumes "du_penjaga D = Some g" "jaga w" "izinkan D c m cfg w = (w', izin, st, token, err)"
  shows "jaga w'" and "\<not> izin \<Longrightarrow> st \<in> tolak"
proof -
  define k1 where "k1 = (if cfg \<noteq> breaker_config_nol then Some cfg else None)"
  define k2 where "k2 = (if cfg \<noteq> breaker_config_nol \<and> pg_terkonfigurasi g then Some cfg else None)"
  obtain w1 z1 s1 t1 e1 where 1: "pg_izinkan_episode g k1 (rc_provider_id c) m w = (w1, z1, s1, t1, e1)" by (metis prod_cases5)
  obtain w2 z2 s2 e2 where 2: "pg_allow g k2 (rc_provider_id c) m w = (w2, z2, s2, e2)" by (metis prod_cases4)
  have "(if pg_episode g then (if e1 then (w1, True, s1, 0, True) else (w1, z1, s1, t1, False))
         else (if e2 then (w2, True, s2, 0, True) else (w2, z2, s2, 0, False))) = (w', izin, st, token, err)"
    using assms(3) unfolding izinkan_def assms(1) option.case k1_def [symmetric] k2_def [symmetric] 1 2 prod.case .
  then show "jaga w'" "\<not> izin \<Longrightarrow> st \<in> tolak"
    using izin_episode [OF assms(2) 1] izin_allow [OF assms(2) 2] by (auto split: if_splits)
qed

lemma catat_inv: "du_penjaga D = Some g \<Longrightarrow> jaga w \<Longrightarrow> jaga (catat D c m s cfg pr t w)"
  by (simp add: catat_def Let_def record_episode record_hasil record_biasa)

lemma jeda_inv:
  assumes "menjaga D jalankan jaga" "jaga w" "jeda_sebelum D batas base n e w = (w', r)"
  shows "jaga w'"
proof -
  obtain w1 d where b: "backoff D base n w = (w1, d)" by (cases "backoff D base n w")
  have a: "jaga (fst (du_acak D i w))" for i using assms(1,2) by (simp add: menjaga_def)
  have "jaga w1"
    using b a assms(2) unfolding backoff_def Let_def by (auto split: if_splits prod.splits) (metis fst_conv)+
  moreover have "w' = w1" using assms(3) b by (auto simp: jeda_sebelum_def Let_def split: if_splits)
  ultimately show ?thesis by simp
qed

lemma setelah_inv:
  assumes m: "menjaga D jalankan jaga" and w: "jaga w" and "setelah_gagal D plan batas terakhir n e a slots w = l"
  shows "\<exists>w'. jaga w' \<and> (l = Berhenti w' slots None a None \<or> l = Ulangi w' slots a)"
proof -
  obtain w1 j where j: "jeda_sebelum D batas (pl_backoff_base plan) (n + 1) (Some e) w = (w1, j)" by fastforce
  have w1: "jaga w1" by (rule jeda_inv [OF m w j])
  then have t: "jaga (fst (du_tidur D batas d w1))" for d using m by (simp add: menjaga_def)
  show ?thesis
    using assms(3) w w1 t [of "the j"] by (auto simp: setelah_gagal_def j split: option.splits prod.splits if_splits)
qed

lemma percobaan_inv:
  assumes g: "du_penjaga D = Some g" and m: "menjaga D jalankan jaga" and w: "jaga w"
    and l: "percobaan_ke D plan batas jalankan c terakhir n slots w = l"
  shows "case l of Berhenti w' s v a pg \<Rightarrow> jaga w' \<and> ditolak_wajar a | Ulangi w' s a \<Rightarrow> jaga w' \<and> ditolak_wajar a"
proof (cases "ambil_slot c slots")
  case None
  then show ?thesis using l w by (auto simp: percobaan_ke_def ditolak_wajar_def skip_slot_def skip_breaker_def)
next
  case (Some sp)
  obtain s1 pg where sp: "sp = (s1, pg)" by (cases sp)
  obtain w1 izin st token gerr where iz: "izinkan D c (model_kandidat plan c) (pl_breaker_cfg plan) w = (w1, izin, st, token, gerr)"
    by (cases "izinkan D c (model_kandidat plan c) (pl_breaker_cfg plan) w") auto
  obtain w2 nilai perr0 where j: "jalankan batas (st = state_half_open, token) c w1 = (w2, nilai, perr0)"
    by (cases "jalankan batas (st = state_half_open, token) c w1") auto
  define perr where "perr = (if perr0 = None \<and> nilai = None then Some (galat_nil (rc_provider_name c)) else perr0)"
  note unf = l [unfolded percobaan_ke_def Some sp option.case prod.case Let_def iz j perr_def [symmetric]]
  have w1: "jaga w1" and st: "\<not> izin \<Longrightarrow> st \<in> tolak" using izinkan_inv [OF g w iz] by blast+
  have w2: "jaga w2" using m w1 j unfolding menjaga_def by (metis fst_conv)
  have nyata: "ditolak_wajar (catatan c n m' lm s e [])" for m' lm s e by (simp add: ditolak_wajar_def skip_breaker_def)
  show ?thesis
  proof (cases izin)
    case False
    then show ?thesis using unf w1 st by (auto simp: ditolak_wajar_def catatan_def)
  next
    case izin: True
    show ?thesis
    proof (cases perr)
      case None
      then show ?thesis using unf izin w2 nyata catat_inv [OF g w2] by (auto split: if_splits)
    next
      case (Some e)
      define w3 where "w3 = (if dikecualikan_dari_pencatatan_breaker (Some e) then w2
          else catat D c (model_kandidat plan c) False (pl_breaker_cfg plan) (st = state_half_open) token w2)"
      have w3: "jaga w3" using w2 catat_inv [OF g w2] by (simp add: w3_def)
      have "setelah_gagal D plan batas terakhir n e (catatan c n (du_now D w1) (du_now D w2 - du_now D w1) st (Some e) [])
          (lepas_slot pg s1) w3 = l" using unf izin Some by (simp add: w3_def)
      from setelah_inv [OF m w3 this] nyata show ?thesis by auto
    qed
  qed
qed

lemma coba_inv:
  assumes g: "du_penjaga D = Some g" and m: "menjaga D jalankan jaga"
  shows "jaga w \<Longrightarrow> coba_kandidat D plan batas jalankan c k n slots w = ((w', s'), hasil, att, pg) \<Longrightarrow>
    jaga w' \<and> (\<forall>a\<in>set att. ditolak_wajar a)"
proof (induction k arbitrary: n slots w att hasil pg w' s')
  case (Suc k)
  note p = percobaan_inv [OF g m Suc.prems(1) refl, where plan = plan and batas = batas and c = c and terakhir = "k = 0" and n = n and slots = slots]
  show ?case
  proof (cases "percobaan_ke D plan batas jalankan c (k = 0) n slots w")
    case (Berhenti w1 s1 v a pg1)
    then show ?thesis using Suc.prems(2) p by auto
  next
    case (Ulangi w1 s1 a)
    have w1: "jaga w1" "ditolak_wajar a" using p [unfolded Ulangi langkah.case] by blast+
    obtain w2 s2 v at2 pg2 where r: "coba_kandidat D plan batas jalankan c k (n + 1) s1 w1 = ((w2, s2), v, at2, pg2)"
      by (metis surj_pair)
    have "w' = w2" "att = a # at2" using Suc.prems(2) unfolding coba_kandidat.simps(2) Ulangi langkah.case r prod.case by blast+
    then show ?thesis using Suc.IH [OF w1(1) r] w1(2) by auto
  qed
qed simp

lemma rencana_inv:
  assumes g: "du_penjaga D = Some g" and m: "menjaga D jalankan jaga"
  shows "jaga w \<Longrightarrow> \<forall>a\<in>set (pu_attempts p). ditolak_wajar a \<Longrightarrow>
    rencana_loop D plan batas jalankan cs p slots w = ((w', s'), out, pg) \<Longrightarrow> jaga w' \<and> (\<forall>a\<in>set (ou_attempts out). ditolak_wajar a)"
proof (induction cs arbitrary: p slots w)
  case Nil
  then show ?case by auto
next
  case (Cons c cs)
  note unf = Cons.prems(3) [unfolded rencana_loop.simps(2)]
  show ?case
  proof (cases "ctx_err D batas w \<noteq> None \<or> (rc_model_id c \<noteq> [] \<and> rc_model_id c \<in> set (pu_ditolak p)) \<or>
      (0 < pl_budget plan \<and> pu_sisa p \<le> 0)")
    case True
    have lewat: "ditolak_wajar (catatan c 1 t 0 [] None skip_ditolak)" for t
      by (simp add: ditolak_wajar_def skip_ditolak_def skip_breaker_def)
    define q where "q = p\<lparr>pu_attempts := pu_attempts p @ [catatan c 1 (du_now D w) 0 [] None skip_ditolak]\<rparr>"
    have q: "\<forall>a\<in>set (pu_attempts q). ditolak_wajar a" using Cons.prems(2) lewat by (simp add: q_def)
    from True unf consider "w' = w" "ou_attempts out = pu_attempts p"
      | "rencana_loop D plan batas jalankan cs q slots w = ((w', s'), out, pg)"
      unfolding q_def [symmetric] by (cases "ctx_err D batas w") (auto split: if_splits)
    then show ?thesis using Cons.prems(1,2) Cons.IH [OF Cons.prems(1) q] by cases auto
  next
    case False
    obtain w1 slots1 h att pg1 where k: "coba_kandidat D plan batas jalankan c (nat (jatah_kandidat plan (pu_sisa p) c)) 1 slots w
        = ((w1, slots1), h, att, pg1)" by (metis surj_pair)
    have i: "jaga w1" "\<forall>a\<in>set att. ditolak_wajar a" using coba_inv [OF g m Cons.prems(1) k] by blast+
    have pn: "case putuskan plan c cs p h att of Selesai out \<Rightarrow> ou_attempts out = pu_attempts p @ att
        | Lanjut p' \<Rightarrow> pu_attempts p' = pu_attempts p @ att"
      using putuskan_nyata [of plan c cs p h att, OF refl] by (auto split: putusan.splits)
    have unf: "(case putuskan plan c cs p h att of Selesai out \<Rightarrow> ((w1, slots1), out, pg1)
        | Lanjut p' \<Rightarrow> rencana_loop D plan batas jalankan cs p' slots1 w1) = ((w', s'), out, pg)"
    proof -
      have f: "ctx_err D batas w = None" "\<not> (rc_model_id c \<noteq> [] \<and> rc_model_id c \<in> set (pu_ditolak p))"
        "\<not> (0 < pl_budget plan \<and> pu_sisa p \<le> 0)" using False by blast+
      show ?thesis using unf unfolding f(1) option.case if_not_P [OF f(2)] if_not_P [OF f(3)] k prod.case .
    qed
    show ?thesis
    proof (cases "putuskan plan c cs p h att")
      case (Selesai out')
      then show ?thesis using unf pn i Cons.prems(2) by auto
    next
      case (Lanjut p')
      then have "\<forall>a\<in>set (pu_attempts p'). ditolak_wajar a" using pn i Cons.prems(2) by auto
      from Cons.IH [OF i(1) this] Lanjut unf show ?thesis by simp
    qed
  qed
qed

lemma plan_inv:
  assumes "du_penjaga D = Some g" and "menjaga D jalankan jaga" and "jaga w"
    and "jalankan_rencana D plan jalankan slots w = ((w', s'), out, pg)"
  shows "jaga w' \<and> (\<forall>a\<in>set (ou_attempts out). at_skip_reason a = skip_breaker \<longrightarrow> at_breaker_state a \<in> tolak)"
proof (rule jalankan_rencana_cases [OF assms(4)])
  fix batas
  assume "rencana_loop D plan batas jalankan (saring_kandidat_egress D w (pl_candidates plan)) (putaran_awal plan) slots w = ((w', s'), out, pg)"
  from rencana_inv [OF assms(1-3) _ this] show ?thesis by (simp add: putaran_awal_def ditolak_wajar_def)
qed (use assms(3) in \<open>simp add: putaran_awal_def\<close>)

end

section \<open>The breaker as the executor's guard\<close>

text \<open>
  The world of one instance: its breaker, the server behind it, the clock, and how a round trip goes at a
  given time.
\<close>

record 'r gerbang =
  ge_breaker :: breaker
  ge_redis :: 'r
  ge_now :: waktu
  ge_jalan :: "waktu \<Rightarrow> Breaker.putaran"

definition simpan :: "breaker \<times> 'r \<times> 'a \<Rightarrow> 'r gerbang \<Rightarrow> 'r gerbang" where
  "simpan r w = w\<lparr>ge_breaker := fst r, ge_redis := fst (snd r)\<rparr>"

text \<open>Asking and reporting, with the breaker's own configuration or with the rule's.\<close>

definition tanya_breaker where
  "tanya_breaker R sidik k i m w =
     (let j = ge_jalan w (ge_now w)
      in case k of
           Some cfg \<Rightarrow> izinkan_episode_with_config R sidik j (ge_now w) i m cfg (ge_breaker w) (ge_redis w)
         | None \<Rightarrow> izinkan_episode R sidik j (ge_now w) i m (ge_breaker w) (ge_redis w))"

definition penjaga_breaker :: "'r redis \<Rightarrow> (breaker_config \<Rightarrow> string) \<Rightarrow> 'r gerbang penjaga" where
  "penjaga_breaker R sidik = \<lparr>pg_episode = True, pg_hasil_probe = True, pg_terkonfigurasi = True,
     pg_izinkan_episode = (\<lambda>k i m w. let r = tanya_breaker R sidik k i m w; h = snd (snd r)
        in (simpan r w, hi_izin h, hi_state h, hi_token h, hi_err h \<noteq> None)),
     pg_allow = (\<lambda>k i m w. let r = tanya_breaker R sidik k i m w; h = snd (snd r)
        in (simpan r w, hi_izin h, hi_state h, hi_err h \<noteq> None)),
     pg_record_episode = (\<lambda>k i m b t w. case k of
        Some cfg \<Rightarrow> simpan (record_hasil_episode_with_config R sidik (ge_jalan w (ge_now w)) (ge_now w) i m b t cfg (ge_breaker w) (ge_redis w)) w
      | None \<Rightarrow> simpan (record_hasil_episode R sidik (ge_jalan w (ge_now w)) (ge_now w) i m b t (ge_breaker w) (ge_redis w)) w),
     pg_record_hasil = (\<lambda>k i m b pr w. case k of
        Some cfg \<Rightarrow> simpan (record_hasil_with_config R sidik (ge_jalan w (ge_now w)) (ge_now w) i m b pr cfg (ge_breaker w) (ge_redis w)) w
      | None \<Rightarrow> simpan (record_hasil R sidik (ge_jalan w (ge_now w)) (ge_now w) i m b pr (ge_breaker w) (ge_redis w)) w),
     pg_record = (\<lambda>k i m b w. case k of
        Some cfg \<Rightarrow> simpan (record_with_config R sidik (ge_jalan w (ge_now w)) (ge_now w) i m b cfg (ge_breaker w) (ge_redis w)) w
      | None \<Rightarrow> simpan (record_biasa R sidik (ge_jalan w (ge_now w)) (ge_now w) i m b (ge_breaker w) (ge_redis w)) w)\<rparr>"

text \<open>Every such operation is one of the breaker's two.\<close>

lemma tanya_breaker_dengan:
  "\<exists>cfg pm. tanya_breaker R sidik k i m w =
     allow_dengan R sidik (ge_jalan w (ge_now w)) (ge_now w) i m cfg pm (ge_breaker w) (ge_redis w)"
  by (cases k) (auto simp: tanya_breaker_def Let_def izinkan_episode_def izinkan_episode_with_config_def)

definition catatan_breaker :: "'r redis \<Rightarrow> (breaker_config \<Rightarrow> string) \<Rightarrow> 'r gerbang \<Rightarrow> 'r gerbang \<Rightarrow> bool" where
  "catatan_breaker R sidik w w' \<longleftrightarrow> (\<exists>i m b cfg pm pr t.
     w' = simpan (record_dengan R sidik (ge_jalan w (ge_now w)) (ge_now w) i m b cfg pm pr t (ge_breaker w) (ge_redis w)) w)"

lemma penjaga_breaker_record:
  "catatan_breaker R sidik w (pg_record_episode (penjaga_breaker R sidik) k i m b t w)"
  "catatan_breaker R sidik w (pg_record_hasil (penjaga_breaker R sidik) k i m b pr w)"
  "catatan_breaker R sidik w (pg_record (penjaga_breaker R sidik) k i m b w)"
  by (cases k; fastforce simp: catatan_breaker_def penjaga_breaker_def record_hasil_episode_def record_hasil_episode_with_config_def
        record_hasil_def record_hasil_with_config_def record_biasa_def record_with_config_def)+

text \<open>First reading: the breaker is in a state its operations reach, and refuses only when open or half-open.\<close>

definition terjangkau :: "'r redis \<Rightarrow> (breaker_config \<Rightarrow> string) \<Rightarrow> 'r gerbang \<Rightarrow> bool" where
  "terjangkau R sidik w \<longleftrightarrow> (\<exists>t\<le>ge_now w. client_run R sidik False (ge_breaker w) (ge_redis w) t)"

lemma terjangkau_tanya: "terjangkau R sidik w \<Longrightarrow> terjangkau R sidik (simpan (tanya_breaker R sidik k i m w) w)"
proof -
  assume "terjangkau R sidik w"
  then obtain t where t: "t \<le> ge_now w" "client_run R sidik False (ge_breaker w) (ge_redis w) t" by (auto simp: terjangkau_def)
  obtain cfg pm where r: "tanya_breaker R sidik k i m w =
     allow_dengan R sidik (ge_jalan w (ge_now w)) (ge_now w) i m cfg pm (ge_breaker w) (ge_redis w)" using tanya_breaker_dengan by blast
  obtain b' s' h where "tanya_breaker R sidik k i m w = (b', s', h)" by (metis prod_cases3)
  with client_run.tanya [OF t(2,1)] r have "client_run R sidik False b' s' (ge_now w)" by metis
  then show ?thesis using \<open>tanya_breaker R sidik k i m w = (b', s', h)\<close> by (auto simp: terjangkau_def simpan_def)
qed

lemma terjangkau_catatan: "terjangkau R sidik w \<Longrightarrow> catatan_breaker R sidik w w' \<Longrightarrow> terjangkau R sidik w'"
proof -
  assume "terjangkau R sidik w" and c: "catatan_breaker R sidik w w'"
  then obtain t where t: "t \<le> ge_now w" "client_run R sidik False (ge_breaker w) (ge_redis w) t" by (auto simp: terjangkau_def)
  obtain i m b cfg pm pr tk where w': "w' = simpan (record_dengan R sidik (ge_jalan w (ge_now w)) (ge_now w) i m b cfg pm pr tk
      (ge_breaker w) (ge_redis w)) w" using c by (auto simp: catatan_breaker_def)
  obtain b' s' e where r: "record_dengan R sidik (ge_jalan w (ge_now w)) (ge_now w) i m b cfg pm pr tk (ge_breaker w) (ge_redis w) = (b', s', e)"
    by (metis prod_cases3)
  from client_run.catat [OF t(2,1) r] show ?thesis by (auto simp: w' r terjangkau_def simpan_def)
qed

lemma tanya_ditolak:
  assumes R: "redis_hash R" and w: "terjangkau R sidik w" and r: "tanya_breaker R sidik k i m w = (b', s', h)" and no: "\<not> hi_izin h"
  shows "hi_state h \<in> {state_open, state_half_open}"
proof -
  obtain t where t: "client_run R sidik False (ge_breaker w) (ge_redis w) t" using w by (auto simp: terjangkau_def)
  obtain cfg pm where a: "allow_dengan R sidik (ge_jalan w (ge_now w)) (ge_now w) i m cfg pm (ge_breaker w) (ge_redis w) = (b', s', h)"
    using tanya_breaker_dengan r by metis
  from allow_dengan_ditolak [OF R a no] consider
      e where "map_of (br_memo (ge_breaker w)) (kunci_untuk sidik (br_cfg (ge_breaker w)) i m cfg) = Some e" "\<not> me_allow e" "hi_state h = me_state e"
    | x n wt where "hi_state h = b_state x n" "\<not> fst (snd (b_allow n (bc_half_open_probes cfg) wt x))" by blast
  then show ?thesis
  proof cases
    case 1
    from map_of_SomeD [OF 1(1)] client_run_memo [OF R t] have "entri_sah t e" by (auto simp: memo_sah_def)
    then show ?thesis using 1 by (auto simp: entri_sah_def)
  next
    case 2
    then show ?thesis using b_allow_ditolak [OF 2(2)] b_state_cases [of x n] by auto
  qed
qed

lemma penjaga_breaker_guard:
  assumes "redis_hash R"
  shows "circuit_guard (penjaga_breaker R sidik) (terjangkau R sidik) {state_open, state_half_open}"
proof
  fix w w' k i m izin st token err
  assume "terjangkau R sidik w"
  note t = terjangkau_tanya [OF this, of k i m] tanya_ditolak [OF assms this, of k i m]
  show "terjangkau R sidik w' \<and> (\<not> izin \<longrightarrow> \<not> err \<longrightarrow> st \<in> {state_open, state_half_open})"
    if "pg_izinkan_episode (penjaga_breaker R sidik) k i m w = (w', izin, st, token, err)"
    using that t by (cases "tanya_breaker R sidik k i m w") (auto simp: penjaga_breaker_def Let_def)
  show "terjangkau R sidik w' \<and> (\<not> izin \<longrightarrow> \<not> err \<longrightarrow> st \<in> {state_open, state_half_open})"
    if "pg_allow (penjaga_breaker R sidik) k i m w = (w', izin, st, err)"
    using that t by (cases "tanya_breaker R sidik k i m w") (auto simp: penjaga_breaker_def Let_def)
qed (erule terjangkau_catatan, rule penjaga_breaker_record)+

interpretation mem_guard: circuit_guard "penjaga_breaker mem_redis sidik" "terjangkau mem_redis sidik" "{state_open, state_half_open}"
  for sidik by (rule penjaga_breaker_guard) (rule mem.redis_hash_axioms)

text \<open>Second reading: while Redis cannot be reached and nothing is remembered, nothing is refused.\<close>

definition tanpa_redis :: "'r gerbang \<Rightarrow> bool" where
  "tanpa_redis w \<longleftrightarrow> (\<forall>t. ge_jalan w t \<noteq> Berhasil) \<and> br_memo (ge_breaker w) = []"

lemma tanpa_redis_tanya:
  assumes "tanpa_redis w"
  shows "tanpa_redis (simpan (tanya_breaker R sidik k i m w) w) \<and> hi_izin (snd (snd (tanya_breaker R sidik k i m w)))"
proof -
  obtain cfg pm where r: "tanya_breaker R sidik k i m w =
     allow_dengan R sidik (ge_jalan w (ge_now w)) (ge_now w) i m cfg pm (ge_breaker w) (ge_redis w)" using tanya_breaker_dengan by blast
  obtain e sudah where "ge_jalan w (ge_now w) = Gagal e sudah" using assms by (cases "ge_jalan w (ge_now w)") (auto simp: tanpa_redis_def)
  then show ?thesis using assms
    by (auto simp: r allow_dengan_def tanpa_redis_def simpan_def memo_get_def Let_def split: prod.split)
qed

lemma tanpa_redis_catatan: "tanpa_redis w \<Longrightarrow> catatan_breaker R sidik w w' \<Longrightarrow> tanpa_redis w'"
proof -
  assume w: "tanpa_redis w" and "catatan_breaker R sidik w w'"
  moreover obtain e sudah where "ge_jalan w (ge_now w) = Gagal e sudah" using w by (cases "ge_jalan w (ge_now w)") (auto simp: tanpa_redis_def)
  ultimately show ?thesis
    by (auto simp: catatan_breaker_def record_dengan_def tanpa_redis_def simpan_def Let_def split: prod.split)
qed

interpretation down_guard: circuit_guard "penjaga_breaker R sidik" tanpa_redis "{}"
  for R :: "'r redis" and sidik
proof
  fix w w' :: "'r gerbang" and k i m izin st token err
  assume "tanpa_redis w"
  note t = tanpa_redis_tanya [OF this, of R sidik k i m]
  show "tanpa_redis w' \<and> (\<not> izin \<longrightarrow> \<not> err \<longrightarrow> st \<in> {})"
    if "pg_izinkan_episode (penjaga_breaker R sidik) k i m w = (w', izin, st, token, err)"
    using that t by (cases "tanya_breaker R sidik k i m w") (auto simp: penjaga_breaker_def Let_def)
  show "tanpa_redis w' \<and> (\<not> izin \<longrightarrow> \<not> err \<longrightarrow> st \<in> {})"
    if "pg_allow (penjaga_breaker R sidik) k i m w = (w', izin, st, err)"
    using that t by (cases "tanya_breaker R sidik k i m w") (auto simp: penjaga_breaker_def Let_def)
qed (erule tanpa_redis_catatan, rule penjaga_breaker_record)+

section \<open>Properties\<close>

text \<open>What the rest of the world does to one instance: the clock goes forward, the breaker is not touched,
  the server may be written by others.\<close>

definition luar_sah :: "'r gerbang dunia \<Rightarrow> ('r gerbang, 'v) pelaksana \<Rightarrow> bool" where
  "luar_sah D jalankan \<longleftrightarrow>
     (\<forall>w w'. (\<exists>batas pt c. w' = fst (jalankan batas pt c w)) \<or> (\<exists>batas d. w' = fst (du_tidur D batas d w)) \<or> (\<exists>n. w' = fst (du_acak D n w)) \<longrightarrow>
        ge_breaker w' = ge_breaker w \<and> ge_now w \<le> ge_now w' \<and> ge_jalan w' = ge_jalan w)"

lemma luar_terjangkau:
  assumes "luar_sah D jalankan"
  shows "menjaga D jalankan (terjangkau R sidik)" and "menjaga D jalankan tanpa_redis"
proof -
  have t: "terjangkau R sidik w'" if "terjangkau R sidik w" "ge_breaker w' = ge_breaker w" "ge_now w \<le> ge_now w'" for w w'
  proof -
    note asm = that
    obtain t where "t \<le> ge_now w" "client_run R sidik False (ge_breaker w) (ge_redis w) t" using asm(1) by (auto simp: terjangkau_def)
    with client_run.server [of R sidik False _ _ t "ge_redis w'"] asm(2,3) show ?thesis
      unfolding terjangkau_def by (metis order_trans)
  qed
  show "menjaga D jalankan (terjangkau R sidik)" "menjaga D jalankan tanpa_redis"
    using assms t unfolding menjaga_def luar_sah_def tanpa_redis_def by metis+
qed

text \<open>C10. Over the breaker, in any state its operations can reach, the executor skips a candidate only when its
  breaker is open or its probes are spent; afterwards the breaker is again in such a state.  While Redis
  cannot be reached and the instance remembers nothing, no candidate is skipped.\<close>

theorem executor_skips_for_cause:
  assumes R: "redis_hash R" and g: "du_penjaga D = Some (penjaga_breaker R sidik)" and luar: "luar_sah D jalankan"
    and r: "jalankan_rencana D plan jalankan slots w = ((w', s'), out, pg)"
    and a: "a \<in> set (ou_attempts out)" "at_skip_reason a = skip_breaker" and w: "terjangkau R sidik w \<or> tanpa_redis w"
  shows "at_breaker_state a \<in> {state_open, state_half_open} \<and> terjangkau R sidik w' \<and> \<not> tanpa_redis w"
proof -
  have no: "\<not> tanpa_redis w"
    using down_guard.plan_inv [OF g luar_terjangkau(2) [OF luar] _ r] a by auto
  with w have "terjangkau R sidik w" by simp
  from circuit_guard.plan_inv [OF penjaga_breaker_guard [OF R] g luar_terjangkau(1) [OF luar] this r] a no
  show ?thesis by blast
qed

definition contoh_gerbang :: "simpanan gerbang" where
  "contoh_gerbang = \<lparr>ge_breaker = contoh_breaker, ge_redis = contoh_server, ge_now = 1100 * milidetik, ge_jalan = (\<lambda>t. Berhasil)\<rparr>"

definition contoh_dunia_gerbang :: "simpanan gerbang dunia" where
  "contoh_dunia_gerbang = \<lparr>du_now = ge_now, du_ctx_err = (\<lambda>w. None), du_deadline = (\<lambda>w. None), du_tidur = (\<lambda>b d w. (w, False)),
     du_acak = (\<lambda>n w. (w, 0)), du_penjaga = Some (penjaga_breaker mem_redis (\<lambda>_. [])), du_egress = None\<rparr>"

definition contoh_hasil_gerbang :: "(simpanan gerbang \<times> slots) \<times> int outcome \<times> string option" where
  "contoh_hasil_gerbang = jalankan_rencana contoh_dunia_gerbang (plan_from_rule None ''m'' [contoh_kandidat ''p''])
     (\<lambda>batas pt c w. (w, Some 7, None)) (\<lambda>_. 0) contoh_gerbang"

lemma executor_skips_for_cause_witness:
  "\<exists>a. ou_attempts (fst (snd contoh_hasil_gerbang)) = [a] \<and> at_skip_reason a = skip_breaker \<and>
     at_breaker_state a \<in> {state_open, state_half_open}"
proof -
  let ?j = "(\<lambda>batas pt c w. (w, Some 7, None)) :: (simpanan gerbang, int) pelaksana"
  have "map at_skip_reason (ou_attempts (fst (snd contoh_hasil_gerbang))) = [skip_breaker]" by code_simp
  then obtain a where a: "ou_attempts (fst (snd contoh_hasil_gerbang)) = [a]" "at_skip_reason a = skip_breaker" by auto
  have g: "du_penjaga contoh_dunia_gerbang = Some (penjaga_breaker mem_redis (\<lambda>_. []))" by (simp add: contoh_dunia_gerbang_def)
  have l: "luar_sah contoh_dunia_gerbang ?j" by (auto simp: luar_sah_def contoh_dunia_gerbang_def)
  have w: "terjangkau mem_redis (\<lambda>_. []) contoh_gerbang \<or> tanpa_redis contoh_gerbang"
    using contoh_client_run [of False] unfolding terjangkau_def contoh_gerbang_def by (auto intro!: exI [of _ "1000 * milidetik"])
  have r: "jalankan_rencana contoh_dunia_gerbang (plan_from_rule None ''m'' [contoh_kandidat ''p'']) ?j (\<lambda>_. 0) contoh_gerbang =
      ((fst (fst contoh_hasil_gerbang), snd (fst contoh_hasil_gerbang)), fst (snd contoh_hasil_gerbang), snd (snd contoh_hasil_gerbang))"
    by (simp add: contoh_hasil_gerbang_def)
  have "a \<in> set (ou_attempts (fst (snd contoh_hasil_gerbang)))" by (simp add: a(1))
  from executor_skips_for_cause [OF mem.redis_hash_axioms g l r this a(2) w] a show ?thesis by blast
qed

end
