(* ===== verification/Streams.thy ===== *)
theory Streams
  imports Executor_Runs "HOL-Library.Multiset"
begin

text \<open>
  Streaming, the second half of \<^verbatim>\<open>internal/gateway/executor.go\<close>: opening a stream under a deadline, the
  wrappers around it and what each of them does on \<^verbatim>\<open>Recv\<close> and \<^verbatim>\<open>Close\<close>.  The adapter's stream is a
  handle with two operations on the world; an event is opaque, its payload \<^verbatim>\<open>Raw\<close> is a function.  The
  wrappers' fields are one record \<open>aliran\<close>, outermost wrapper last; a wrapper that is closed, or whose
  timer fires, changes its fields before the inner call, as the code does.
\<close>

section \<open>Streams and their wrappers\<close>

text \<open>An error of \<^verbatim>\<open>Recv\<close>: one that is \<^verbatim>\<open>io.EOF\<close>, or another.\<close>

datatype galat_aliran = Eof | GalatAliran galat_adapter

definition tenggat_diam_aliran :: durasi where "tenggat_diam_aliran = 120 * detik"

record ('w, 's, 'e) permukaan =
  pm_dunia :: "'w dunia"
  pm_plan :: plan
  pm_recv :: "'s \<Rightarrow> 'w \<Rightarrow> 'w \<times> 'e option \<times> galat_aliran option"
  pm_close :: "'s \<Rightarrow> 'w \<Rightarrow> 'w"
  pm_raw :: "'e \<Rightarrow> string"

text \<open>
  \<^verbatim>\<open>aliranPenjagaDiam\<close> (\<open>pd\<close>; the timer is absent, stopped or due at a time), \<^verbatim>\<open>aliranPeristiwaPertama\<close>
  (\<open>pp\<close>), \<^verbatim>\<open>aliranPencatat\<close> (\<open>pc\<close>, with what its closure captured) and \<^verbatim>\<open>streamTerikat\<close> (\<open>sb\<close>).
\<close>

record ('s, 'e) aliran =
  al_sumber :: 's
  pd_timer :: "waktu option option"
  pd_menembak :: bool
  pd_berakhir :: bool
  pd_terkirim :: int
  pp_ev :: "'e option"
  pp_sudah :: bool
  pc_kandidat :: route_candidate
  pc_probe :: "bool \<times> int"
  pc_sudah :: bool
  pc_terima :: int
  sb_lepas :: bool

subsection \<open>The silence guard\<close>

definition mulai_penjaga :: "('w, 's, 'e) permukaan \<Rightarrow> 'w \<Rightarrow> ('s, 'e) aliran \<Rightarrow> ('s, 'e) aliran" where
  "mulai_penjaga K w a = a\<lparr>pd_timer := Some (Some (du_now (pm_dunia K) w + tenggat_diam_aliran))\<rparr>"

definition tembak :: "('w, 's, 'e) permukaan \<Rightarrow> ('s, 'e) aliran \<Rightarrow> 'w \<Rightarrow> ('s, 'e) aliran \<times> 'w" where
  "tembak K a w = (a\<lparr>pd_menembak := True, pd_timer := Some None\<rparr>, pm_close K (al_sumber a) w)"

definition galat_peristiwa_nil :: galat_aliran where
  "galat_peristiwa_nil = GalatAliran (GalatProvider (newf KindServer [] ''adapter mengembalikan peristiwa kosong (nil) tanpa error''))"

definition galat_diam :: "int \<Rightarrow> perror" where
  "galat_diam terkirim = (newf KindTimeout [] ''upstream berhenti mengirim aliran terlalu lama'')\<lparr>pe_streamed_bytes := terkirim\<rparr>"

definition recv_penjaga ::
    "('w, 's, 'e) permukaan \<Rightarrow> ('s, 'e) aliran \<Rightarrow> 'w \<Rightarrow> ('s, 'e) aliran \<times> 'w \<times> 'e option \<times> galat_aliran option" where
  "recv_penjaga K a w =
     (case pm_recv K (al_sumber a) w of
        (w', ev, err0) \<Rightarrow>
          (case (if err0 = None \<and> ev = None then Some galat_peristiwa_nil else err0) of
             None \<Rightarrow>
               (a\<lparr>pd_terkirim := pd_terkirim a + (case ev of None \<Rightarrow> 0 | Some x \<Rightarrow> int (length (pm_raw K x))),
                  pd_timer := (if \<not> pd_berakhir a \<and> pd_timer a \<noteq> None
                               then Some (Some (du_now (pm_dunia K) w' + tenggat_diam_aliran)) else pd_timer a)\<rparr>,
                w', ev, None)
           | Some err \<Rightarrow>
               let a' = a\<lparr>pd_berakhir := True, pd_timer := map_option (\<lambda>_. None) (pd_timer a)\<rparr>
               in if pd_menembak a \<and> err \<noteq> Eof
                  then (a', w', None, Some (GalatAliran (GalatProvider (galat_diam (pd_terkirim a)))))
                  else (a', w', None, Some err)))"

definition close_penjaga :: "('w, 's, 'e) permukaan \<Rightarrow> ('s, 'e) aliran \<Rightarrow> 'w \<Rightarrow> ('s, 'e) aliran \<times> 'w" where
  "close_penjaga K a w = (a\<lparr>pd_berakhir := True, pd_timer := map_option (\<lambda>_. None) (pd_timer a)\<rparr>, pm_close K (al_sumber a) w)"

subsection \<open>Replaying the first event\<close>

definition recv_pertama ::
    "('w, 's, 'e) permukaan \<Rightarrow> ('s, 'e) aliran \<Rightarrow> 'w \<Rightarrow> ('s, 'e) aliran \<times> 'w \<times> 'e option \<times> galat_aliran option" where
  "recv_pertama K a w = (if \<not> pp_sudah a then (a\<lparr>pp_sudah := True\<rparr>, w, pp_ev a, None) else recv_penjaga K a w)"

subsection \<open>Reporting the end\<close>

definition laporkan :: "('w, 's, 'e) permukaan \<Rightarrow> bool \<Rightarrow> ('s, 'e) aliran \<Rightarrow> 'w \<Rightarrow> ('s, 'e) aliran \<times> 'w" where
  "laporkan K sukses a w =
     (if pc_sudah a then (a, w)
      else (a\<lparr>pc_sudah := True\<rparr>,
            if du_ctx_err (pm_dunia K) w \<noteq> None then w
            else catat (pm_dunia K) (pc_kandidat a) (model_kandidat (pm_plan K) (pc_kandidat a)) sukses
                   (pl_breaker_cfg (pm_plan K)) (fst (pc_probe a)) (snd (pc_probe a)) w))"

definition tandai_selesai :: "('s, 'e) aliran \<Rightarrow> ('s, 'e) aliran" where
  "tandai_selesai a = a\<lparr>pc_sudah := True\<rparr>"

definition galat_pencatat :: "galat_aliran \<Rightarrow> perror option" where
  "galat_pencatat err = (case err of Eof \<Rightarrow> None | GalatAliran g \<Rightarrow> as_error g)"

definition recv_pencatat ::
    "('w, 's, 'e) permukaan \<Rightarrow> ('s, 'e) aliran \<Rightarrow> 'w \<Rightarrow> ('s, 'e) aliran \<times> 'w \<times> 'e option \<times> galat_aliran option" where
  "recv_pencatat K a w =
     (case recv_pertama K a w of
        (a1, w1, ev, None) \<Rightarrow> (a1\<lparr>pc_terima := pc_terima a1 + 1\<rparr>, w1, ev, None)
      | (a1, w1, ev, Some err) \<Rightarrow>
          (case (if err = Eof then laporkan K True a1 w1
                 else if dikecualikan_dari_pencatatan_breaker (galat_pencatat err) then (tandai_selesai a1, w1)
                 else laporkan K False a1 w1) of
             (a2, w2) \<Rightarrow> (a2, w2, ev, Some err)))"

definition close_pencatat :: "('w, 's, 'e) permukaan \<Rightarrow> ('s, 'e) aliran \<Rightarrow> 'w \<Rightarrow> ('s, 'e) aliran \<times> 'w" where
  "close_pencatat K a w = (case laporkan K (0 < pc_terima a) a w of (a1, w1) \<Rightarrow> close_penjaga K a1 w1)"

text \<open>\<^verbatim>\<open>streamTerikat.Close\<close>: the stream first, then its context; \<^verbatim>\<open>Recv\<close> is the inner one.\<close>

definition close_terikat :: "('w, 's, 'e) permukaan \<Rightarrow> ('s, 'e) aliran \<Rightarrow> 'w \<Rightarrow> ('s, 'e) aliran \<times> 'w" where
  "close_terikat K a w = (case close_pencatat K a w of (a1, w1) \<Rightarrow> (a1\<lparr>sb_lepas := True\<rparr>, w1))"

subsection \<open>Holding the slot\<close>

text \<open>\<^verbatim>\<open>aliranPemegangSlot\<close>: the slot it holds, and whether it gave it back.\<close>

record ('s, 'e) aliran_pemegang_slot =
  ps_aliran :: "('s, 'e) aliran"
  ps_pegang :: "string option"
  ps_sekali :: bool

definition lepas_sekali :: "('s, 'e) aliran_pemegang_slot \<Rightarrow> slots \<Rightarrow> ('s, 'e) aliran_pemegang_slot \<times> slots" where
  "lepas_sekali p slots = (if ps_sekali p then (p, slots) else (p\<lparr>ps_sekali := True\<rparr>, lepas_slot (ps_pegang p) slots))"

definition recv_pemegang ::
    "('w, 's, 'e) permukaan \<Rightarrow> ('s, 'e) aliran_pemegang_slot \<Rightarrow> slots \<Rightarrow> 'w \<Rightarrow>
     (('s, 'e) aliran_pemegang_slot \<times> slots \<times> 'w) \<times> 'e option \<times> galat_aliran option" where
  "recv_pemegang K p slots w =
     (case recv_pencatat K (ps_aliran p) w of
        (a, w1, ev, err) \<Rightarrow>
          (case (if err \<noteq> None then lepas_sekali (p\<lparr>ps_aliran := a\<rparr>) slots else (p\<lparr>ps_aliran := a\<rparr>, slots)) of
             (p1, slots1) \<Rightarrow> ((p1, slots1, w1), ev, err)))"

definition close_pemegang ::
    "('w, 's, 'e) permukaan \<Rightarrow> ('s, 'e) aliran_pemegang_slot \<Rightarrow> slots \<Rightarrow> 'w \<Rightarrow> ('s, 'e) aliran_pemegang_slot \<times> slots \<times> 'w" where
  "close_pemegang K p slots w =
     (case close_terikat K (ps_aliran p) w of
        (a, w1) \<Rightarrow> (case lepas_sekali (p\<lparr>ps_aliran := a\<rparr>) slots of (p1, slots1) \<Rightarrow> (p1, slots1, w1)))"

section \<open>Opening\<close>

definition galat_aliran_kosong :: "string \<Rightarrow> perror" where
  "galat_aliran_kosong provider = newf KindServer provider ''upstream menutup aliran tanpa mengirim satu pun peristiwa''"

definition galat_pembukaan :: "string \<Rightarrow> galat_aliran \<Rightarrow> galat_adapter" where
  "galat_pembukaan provider err = (case err of Eof \<Rightarrow> GalatProvider (galat_aliran_kosong provider) | GalatAliran g \<Rightarrow> g)"

type_synonym ('w, 's) pembuka = "waktu \<Rightarrow> bool \<times> int \<Rightarrow> route_candidate \<Rightarrow> 'w \<Rightarrow> 'w \<times> 's option \<times> galat_adapter option"

text \<open>\<^verbatim>\<open>bungkusPencatatAliran\<close>: the stream is opened and its first event read at once.\<close>

definition bungkus_pencatat_aliran :: "('w, 's, 'e) permukaan \<Rightarrow> ('w, 's) pembuka \<Rightarrow> ('w, ('s, 'e) aliran) pembuka" where
  "bungkus_pencatat_aliran K buka tenggat probe c w =
     (case buka tenggat probe c w of
        (w1, _, Some err) \<Rightarrow> (w1, None, Some err)
      | (w1, None, None) \<Rightarrow> (w1, None, Some (GalatProvider (galat_nil (rc_provider_name c))))
      | (w1, Some s, None) \<Rightarrow>
          let a = mulai_penjaga K w1 \<lparr>al_sumber = s, pd_timer = None, pd_menembak = False, pd_berakhir = False, pd_terkirim = 0,
                    pp_ev = None, pp_sudah = False, pc_kandidat = c, pc_probe = probe, pc_sudah = False, pc_terima = 1, sb_lepas = False\<rparr>
          in (case recv_penjaga K a w1 of
                (a1, w2, ev, None) \<Rightarrow> (w2, Some (a1\<lparr>pp_ev := ev\<rparr>), None)
              | (a1, w2, ev, Some err) \<Rightarrow>
                  (snd (close_penjaga K a1 w2), None, Some (galat_pembukaan (rc_provider_name c) err))))"

definition pesan_tenggat_pembukaan :: string where
  "pesan_tenggat_pembukaan = ''upstream tidak mulai mengirim aliran sebelum batas waktu percobaan''"

text \<open>\<^verbatim>\<open>denganTenggatPembukaan\<close>: the watchdog has fired when its time is reached before the opening returns.\<close>

definition dengan_tenggat_pembukaan ::
    "('w, 's, 'e) permukaan \<Rightarrow> ('w, ('s, 'e) aliran) pembuka \<Rightarrow> ('w, ('s, 'e) aliran) pelaksana" where
  "dengan_tenggat_pembukaan K buka batas probe c w =
     (let tenggat = du_now (pm_dunia K) w + tenggat_percobaan c;
          tenggat' = (case batas of Some t \<Rightarrow> if t < tenggat then t else tenggat | None \<Rightarrow> tenggat)
      in case buka tenggat' probe c w of
           (w1, str, err) \<Rightarrow>
             let berhenti = (du_now (pm_dunia K) w1 < tenggat)
             in (case err of
                   None \<Rightarrow>
                     (case str of
                        Some a \<Rightarrow>
                          if \<not> berhenti then
                            (snd (close_pencatat K a w1), None, Some (newf KindTimeout (rc_provider_name c) pesan_tenggat_pembukaan))
                          else (w1, Some a, None)
                      | None \<Rightarrow> (w1, None, Some (newf KindUnknown (rc_provider_name c) ''adapter mengembalikan aliran kosong tanpa error'')))
                 | Some e \<Rightarrow>
                     let p = jadikan_provider_error (rc_provider_name c) e
                     in (w1, None, Some (if ctx_err (pm_dunia K) batas w1 = None \<and> \<not> berhenti
                           then p\<lparr>pe_kind := KindTimeout, pe_message := pesan_tenggat_pembukaan\<rparr> else p))))"

text \<open>\<^verbatim>\<open>ExecuteStream\<close>; a stream that is returned goes on holding its slot.\<close>

definition execute_stream where
  "execute_stream K buka slots w =
     (case jalankan_rencana (pm_dunia K) ((pm_plan K)\<lparr>pl_streaming := True\<rparr>)
             (dengan_tenggat_pembukaan K (bungkus_pencatat_aliran K buka)) slots w of
        (ws, out, pegang) \<Rightarrow> (ws, out, map_option (\<lambda>a. \<lparr>ps_aliran = a, ps_pegang = pegang, ps_sekali = False\<rparr>) (ou_value out)))"

section \<open>A stream's life\<close>

text \<open>
  What happened to a stream: a read with its event or error, and whether the request was already
  cancelled when it would be reported; a close likewise.
\<close>

datatype 'e kejadian = KRecv "'e option" "galat_aliran option" bool | KClose bool

fun akhir :: "'e kejadian \<Rightarrow> bool" where
  "akhir (KRecv ev err batal) = (err \<noteq> None)"
| "akhir (KClose batal) = True"

text \<open>What the breaker is told: the verdict of the first end, once.\<close>

fun laporan :: "'e kejadian list \<Rightarrow> bool list" where
  "laporan [] = []"
| "laporan (KRecv ev None batal # xs) = laporan xs"
| "laporan (KRecv ev (Some err) batal # xs) =
     (if batal \<or> (err \<noteq> Eof \<and> dikecualikan_dari_pencatatan_breaker (galat_pencatat err)) then [] else [err = Eof])"
| "laporan (KClose batal # xs) = (if batal then [] else [True])"

fun dikirim :: "'e kejadian list \<Rightarrow> 'e list" where
  "dikirim [] = []"
| "dikirim (KRecv (Some ev) None batal # xs) = ev # dikirim xs"
| "dikirim (_ # xs) = dikirim xs"

definition berakhir :: "'e kejadian list \<Rightarrow> bool" where "berakhir xs \<longleftrightarrow> (\<exists>x\<in>set xs. akhir x)"

lemma laporan_snoc: "laporan (xs @ [x]) = laporan xs @ (if berakhir xs then [] else laporan [x])"
  by (induction xs rule: laporan.induct) (auto simp: berakhir_def)

lemma dikirim_append [simp]: "dikirim (xs @ ys) = dikirim xs @ dikirim ys"
  by (induction xs rule: dikirim.induct) auto

lemma berakhir_snoc [simp]: "berakhir (xs @ [x]) \<longleftrightarrow> berakhir xs \<or> akhir x"
  by (auto simp: berakhir_def)

lemma berakhir_Nil [simp]: "\<not> berakhir []"
  by (simp add: berakhir_def)

definition batal :: "('w, 's, 'e) permukaan \<Rightarrow> 'w \<Rightarrow> bool" where
  "batal K w \<longleftrightarrow> du_ctx_err (pm_dunia K) w \<noteq> None"

text \<open>
  Two observers of the world: \<open>h\<close> sees what is reported to the guard, \<open>g\<close> the events the adapter's
  stream yields.
\<close>

definition pengamat :: "('w, 's, 'e) permukaan \<Rightarrow> ('w \<Rightarrow> bool list) \<Rightarrow> ('w \<Rightarrow> 'e list) \<Rightarrow> bool" where
  "pengamat K h g \<longleftrightarrow>
     (\<forall>c m b cfg pr t w. h (catat (pm_dunia K) c m b cfg pr t w) = h w @ [b] \<and> g (catat (pm_dunia K) c m b cfg pr t w) = g w) \<and>
     (\<forall>s w. h (pm_close K s w) = h w \<and> g (pm_close K s w) = g w) \<and>
     (\<forall>s w w' ev err. pm_recv K s w = (w', ev, err) \<longrightarrow> h w' = h w \<and>
        g w' = g w @ (case (ev, err) of (Some x, None) \<Rightarrow> [x] | _ \<Rightarrow> []))"

inductive aliran_run for K :: "('w, 's, 'e) permukaan" and h :: "'w \<Rightarrow> bool list" and g :: "'w \<Rightarrow> 'e list"
    and p0 :: "('s, 'e) aliran_pemegang_slot" and slots0 :: slots and w0 :: 'w where
  buka: "aliran_run K h g p0 slots0 w0 p0 slots0 w0 []"
| recv: "aliran_run K h g p0 slots0 w0 p slots w xs \<Longrightarrow> recv_pemegang K p slots w = ((p', slots', w'), ev, err) \<Longrightarrow>
    aliran_run K h g p0 slots0 w0 p' slots' w' (xs @ [KRecv ev err (batal K (fst (snd (recv_pertama K (ps_aliran p) w))))])"
| tutup: "aliran_run K h g p0 slots0 w0 p slots w xs \<Longrightarrow> close_pemegang K p slots w = (p', slots', w') \<Longrightarrow>
    aliran_run K h g p0 slots0 w0 p' slots' w' (xs @ [KClose (batal K w)])"
| tembak: "aliran_run K h g p0 slots0 w0 p slots w xs \<Longrightarrow> pd_timer (ps_aliran p) = Some (Some t) \<Longrightarrow>
    t \<le> du_now (pm_dunia K) w \<Longrightarrow> tembak K (ps_aliran p) w = (a', w') \<Longrightarrow>
    aliran_run K h g p0 slots0 w0 (p\<lparr>ps_aliran := a'\<rparr>) slots w' xs"
| luar: "aliran_run K h g p0 slots0 w0 p slots w xs \<Longrightarrow> h w' = h w \<Longrightarrow> g w' = g w \<Longrightarrow>
    aliran_run K h g p0 slots0 w0 p slots w' xs"

text \<open>A stream as \<^const>\<open>bungkus_pencatat_aliran\<close> hands it over, its first event \<open>x\<close> read.\<close>

definition aliran_baru :: "('w, 's, 'e) permukaan \<Rightarrow> 'e \<Rightarrow> ('s, 'e) aliran \<Rightarrow> bool" where
  "aliran_baru K x a \<longleftrightarrow> pp_ev a = Some x \<and> \<not> pp_sudah a \<and> \<not> pc_sudah a \<and> pc_terima a = 1 \<and> \<not> sb_lepas a \<and>
     \<not> pd_menembak a \<and> \<not> pd_berakhir a \<and> pd_terkirim a = int (length (pm_raw K x)) \<and> (\<exists>t. pd_timer a = Some (Some t))"

lemma recv_penjaga_baru:
  assumes "recv_penjaga K a w = (a', w', ev, None)"
  obtains x t where "ev = Some x" "pm_recv K (al_sumber a) w = (w', Some x, None)"
    "a' = a\<lparr>pd_terkirim := pd_terkirim a + int (length (pm_raw K x)), pd_timer := t\<rparr>"
    "\<not> pd_berakhir a \<Longrightarrow> pd_timer a \<noteq> None \<Longrightarrow> t = Some (Some (du_now (pm_dunia K) w' + tenggat_diam_aliran))"
proof -
  obtain w1 ev0 err0 where r: "pm_recv K (al_sumber a) w = (w1, ev0, err0)" by (metis prod_cases3)
  have n: "err0 = None" "ev0 \<noteq> None" using assms by (auto simp: recv_penjaga_def r Let_def split: option.splits if_splits)
  then obtain x where x: "ev0 = Some x" by blast
  show thesis
  proof (rule that)
    show "ev = Some x" "pm_recv K (al_sumber a) w = (w', Some x, None)"
      using assms n x by (auto simp: recv_penjaga_def r)
    show "a' = a\<lparr>pd_terkirim := pd_terkirim a + int (length (pm_raw K x)), pd_timer := (if \<not> pd_berakhir a \<and> pd_timer a \<noteq> None
        then Some (Some (du_now (pm_dunia K) w' + tenggat_diam_aliran)) else pd_timer a)\<rparr>"
      using assms n x by (auto simp: recv_penjaga_def r)
  qed simp
qed

lemma recv_penjaga_galat:
  assumes "recv_penjaga K a w = (a', w', ev, Some err)"
  shows "ev = None" and "\<exists>ev0 err0. pm_recv K (al_sumber a) w = (w', ev0, err0) \<and> (err0 = None \<longrightarrow> ev0 = None)"
    and "a' = a\<lparr>pd_berakhir := True, pd_timer := map_option (\<lambda>_. None) (pd_timer a)\<rparr>"
    and "pd_menembak a \<Longrightarrow> err \<noteq> Eof \<Longrightarrow> err = GalatAliran (GalatProvider (galat_diam (pd_terkirim a)))"
  using assms by (auto simp: recv_penjaga_def Let_def split: prod.splits option.splits if_splits)

lemma bungkus_baru:
  assumes "bungkus_pencatat_aliran K buka t pr c w = (w', Some a, None)"
  shows "\<exists>x. aliran_baru K x a"
proof -
  obtain w1 s where b: "buka t pr c w = (w1, Some s, None)"
    using assms by (auto simp: bungkus_pencatat_aliran_def split: prod.splits option.splits)
  define a0 where "a0 = mulai_penjaga K w1 (\<lparr>al_sumber = s, pd_timer = None, pd_menembak = False, pd_berakhir = False, pd_terkirim = 0,
    pp_ev = None, pp_sudah = False, pc_kandidat = c, pc_probe = pr, pc_sudah = False, pc_terima = 1, sb_lepas = False\<rparr> :: ('b, 'c) aliran)"
  obtain a1 w2 ev err where r: "recv_penjaga K a0 w1 = (a1, w2, ev, err)" by (metis prod_cases4)
  have "err = None" and a: "a = a1\<lparr>pp_ev := ev\<rparr>"
    using assms b r by (auto simp: bungkus_pencatat_aliran_def a0_def Let_def split: option.splits)
  from recv_penjaga_baru [OF r [unfolded this(1)]] obtain x t where x: "ev = Some x"
    "a1 = a0\<lparr>pd_terkirim := pd_terkirim a0 + int (length (pm_raw K x)), pd_timer := t\<rparr>"
    "\<not> pd_berakhir a0 \<Longrightarrow> pd_timer a0 \<noteq> None \<Longrightarrow> t = Some (Some (du_now (pm_dunia K) w2 + tenggat_diam_aliran))" by blast
  then have "aliran_baru K x a" by (simp add: aliran_baru_def a a0_def mulai_penjaga_def)
  then show ?thesis ..
qed

lemma pembukaan_baru:
  assumes "dengan_tenggat_pembukaan K (bungkus_pencatat_aliran K buka) batas pr c w = (w', Some a, None)"
  shows "\<exists>x. aliran_baru K x a"
proof -
  obtain t w1 where "bungkus_pencatat_aliran K buka t pr c w = (w1, Some a, None)"
    using assms by (auto simp: dengan_tenggat_pembukaan_def Let_def split: prod.splits option.splits if_splits)
  then show ?thesis by (rule bungkus_baru)
qed

text \<open>The stream that a successful plan returns is such a stream, and holds the plan's slot.\<close>

lemma execute_stream_baru:
  assumes "execute_stream K buka slots w = (ws, out, Some p)"
  shows "\<exists>x. aliran_baru K x (ps_aliran p)" and "\<not> ps_sekali p" and "snd ws = pegang_tambah (ps_pegang p) slots"
proof -
  obtain pegang where r: "jalankan_rencana (pm_dunia K) ((pm_plan K)\<lparr>pl_streaming := True\<rparr>)
      (dengan_tenggat_pembukaan K (bungkus_pencatat_aliran K buka)) slots w = (ws, out, pegang)"
    and p: "ou_value out = Some (ps_aliran p)" "ps_pegang p = pegang" "\<not> ps_sekali p"
    using assms by (auto simp: execute_stream_def split: prod.splits)
  show "\<exists>x. aliran_baru K x (ps_aliran p)"
    by (rule jalankan_nilai [OF _ r p(1)]) (rule pembukaan_baru)
  show "\<not> ps_sekali p" by (rule p)
  obtain w' s' where ws: "ws = (w', s')" by (cases ws)
  show "snd ws = pegang_tambah (ps_pegang p) slots" using jalankan_slots [OF r [unfolded ws]] by (simp add: ws p(2))
qed

section \<open>What a run keeps\<close>

text \<open>After the first event \<open>x\<close> the adapter yielded \<open>ys\<close>.\<close>

definition aliran_sah ::
    "('w, 's, 'e) permukaan \<Rightarrow> 'e \<Rightarrow> 'e list \<Rightarrow> ('s, 'e) aliran \<Rightarrow> 'e kejadian list \<Rightarrow> bool" where
  "aliran_sah K x ys a xs \<longleftrightarrow> pp_ev a = Some x \<and> 1 \<le> pc_terima a \<and> pc_sudah a = berakhir xs \<and>
     dikirim xs = (if pp_sudah a then x # ys else []) \<and> (\<not> pp_sudah a \<longrightarrow> ys = []) \<and>
     pd_terkirim a = int (length (concat (map (pm_raw K) (x # ys))))"

text \<open>One read, one layer at a time.\<close>

lemma recv_pertama_sah:
  assumes s: "aliran_sah K x ys a xs" and o: "pengamat K h g"
    and r: "recv_pertama K a w = (a', w', ev, err)"
  shows "h w' = h w \<and> (\<exists>zs. g w' = g w @ zs \<and> aliran_sah K x (ys @ zs) a' (xs @ [KRecv ev None True]) \<and> (err = None \<longrightarrow> ev \<noteq> None) \<and>
      (err \<noteq> None \<longrightarrow> zs = [] \<and> ev = None)) \<and> pc_sudah a' = pc_sudah a \<and> pc_terima a' = pc_terima a"
proof (cases "pp_sudah a")
  case False
  then have "a' = a\<lparr>pp_sudah := True\<rparr>" "w' = w" "ev = Some x" "err = None" using r s by (auto simp: recv_pertama_def aliran_sah_def)
  then show ?thesis using s False by (auto simp: aliran_sah_def)
next
  case True
  then have r: "recv_penjaga K a w = (a', w', ev, err)" using r by (simp add: recv_pertama_def)
  show ?thesis
  proof (cases err)
    case None
    from recv_penjaga_baru [OF r [unfolded None]] obtain y t where y: "ev = Some y" "pm_recv K (al_sumber a) w = (w', Some y, None)"
      "a' = a\<lparr>pd_terkirim := pd_terkirim a + int (length (pm_raw K y)), pd_timer := t\<rparr>" by blast
    have "h w' = h w \<and> g w' = g w @ [y]" using o y(2) unfolding pengamat_def by fastforce
    then show ?thesis using s True None y by (intro conjI exI [of _ "[y]"]) (auto simp: aliran_sah_def)
  next
    case (Some e)
    note e = recv_penjaga_galat [OF r [unfolded Some]]
    obtain ev0 err0 where 1: "pm_recv K (al_sumber a) w = (w', ev0, err0)" "err0 = None \<longrightarrow> ev0 = None" using e(2) by blast
    then have "h w' = h w \<and> g w' = g w @ (case (ev0, err0) of (Some x, None) \<Rightarrow> [x] | _ \<Rightarrow> [])" using o unfolding pengamat_def by blast
    then have "h w' = h w \<and> g w' = g w" using 1(2) by (cases err0; cases ev0) auto
    then show ?thesis using s True Some e(1,3) by (intro conjI exI [of _ "[]"]) (auto simp: aliran_sah_def)
  qed
qed

lemma aliran_sah_lain:
  assumes "aliran_sah K x ys a xs" "pp_ev a' = pp_ev a" "pc_terima a \<le> pc_terima a'" "pp_sudah a' = pp_sudah a"
    "pd_terkirim a' = pd_terkirim a" "dikirim xs' = dikirim xs" "pc_sudah a' = berakhir xs'"
  shows "aliran_sah K x ys a' xs'"
  using assms by (auto simp: aliran_sah_def)

lemma laporkan_sah:
  assumes o: "pengamat K h g" and r: "laporkan K b a w = (a', w')"
  shows "a' = a\<lparr>pc_sudah := True\<rparr> \<and> h w' = h w @ (if pc_sudah a \<or> batal K w then [] else [b]) \<and> g w' = g w"
  using o r by (auto simp: laporkan_def pengamat_def batal_def split: if_splits)

lemma recv_pencatat_sah:
  assumes s: "aliran_sah K x ys a xs" and o: "pengamat K h g"
    and r: "recv_pencatat K a w = (a', w', ev, err)"
    and e: "k = KRecv ev err (batal K (fst (snd (recv_pertama K a w))))"
  shows "h w' = h w @ (if berakhir xs then [] else laporan [k])"
    and "\<exists>zs. g w' = g w @ zs \<and> aliran_sah K x (ys @ zs) a' (xs @ [k])"
proof -
  obtain a1 w1 ev1 err1 where p: "recv_pertama K a w = (a1, w1, ev1, err1)" by (metis prod_cases4)
  obtain zs where z: "h w1 = h w" "g w1 = g w @ zs" "aliran_sah K x (ys @ zs) a1 (xs @ [KRecv ev1 None True])"
      "err1 \<noteq> None \<Longrightarrow> zs = [] \<and> ev1 = None" "pc_sudah a1 = pc_sudah a" "err1 = None \<Longrightarrow> ev1 \<noteq> None"
    using recv_pertama_sah [OF s o p] by blast
  have sudah: "pc_sudah a = berakhir xs" using s by (simp add: aliran_sah_def)
  have main: "h w' = h w @ (if berakhir xs then [] else laporan [k]) \<and> g w' = g w1 \<and> aliran_sah K x (ys @ zs) a' (xs @ [k])"
  proof (cases err1)
    case None
    then have "a' = a1\<lparr>pc_terima := pc_terima a1 + 1\<rparr>" "w' = w1" "ev = ev1" "err = None" using r p by (auto simp: recv_pencatat_def)
    moreover obtain y where "ev1 = Some y" using z(6) None by blast
    ultimately show ?thesis using z(1,3,5) sudah e p by (auto intro: aliran_sah_lain)
  next
    case (Some x1)
    define b where "b = (x1 = Eof)"
    have er: "err = Some x1" "ev = None" using r p Some z(4) by (auto simp: recv_pencatat_def split: prod.splits)
    have k: "k = KRecv None (Some x1) (batal K w1)" using e p er by simp
    have kk: "dikirim (xs @ [k]) = dikirim (xs @ [KRecv ev1 None True])" "berakhir (xs @ [k])" using k z(4) Some by simp_all
    show ?thesis
    proof (cases "x1 \<noteq> Eof \<and> dikecualikan_dari_pencatatan_breaker (galat_pencatat x1)")
      case True
      then have "a' = a1\<lparr>pc_sudah := True\<rparr>" "w' = w1" using r p Some by (auto simp: recv_pencatat_def tandai_selesai_def)
      then show ?thesis using z True k kk by (auto intro!: aliran_sah_lain [OF z(3)])
    next
      case False
      then have "laporkan K b a1 w1 = (a', w')" using r p Some by (auto simp: recv_pencatat_def b_def split: prod.splits if_splits)
      from laporkan_sah [OF o this] show ?thesis using z False k kk sudah
        by (auto simp: b_def intro!: aliran_sah_lain [OF z(3)])
    qed
  qed
  then show "h w' = h w @ (if berakhir xs then [] else laporan [k])" by blast
  show "\<exists>zs. g w' = g w @ zs \<and> aliran_sah K x (ys @ zs) a' (xs @ [k])" using main z(2) by auto
qed

lemma close_terikat_sah:
  assumes s: "aliran_sah K x ys a xs" and o: "pengamat K h g" and r: "close_terikat K a w = (a', w')"
    and e: "k = KClose (batal K w)"
  shows "h w' = h w @ (if berakhir xs then [] else laporan [k]) \<and> g w' = g w \<and> aliran_sah K x ys a' (xs @ [k])"
proof -
  have t: "0 < pc_terima a" and sudah: "pc_sudah a = berakhir xs" using s by (auto simp: aliran_sah_def)
  obtain a1 w1 where l: "laporkan K True a w = (a1, w1)" by (cases "laporkan K True a w")
  have a': "a' = a1\<lparr>pd_berakhir := True, pd_timer := map_option (\<lambda>_. None) (pd_timer a1), sb_lepas := True\<rparr>" "w' = pm_close K (al_sumber a1) w1"
    using r l t by (auto simp: close_terikat_def close_pencatat_def close_penjaga_def)
  have "h w' = h w1 \<and> g w' = g w1" using o a' by (simp add: pengamat_def)
  with laporkan_sah [OF o l] show ?thesis using sudah e a' by (auto intro!: aliran_sah_lain [OF s])
qed

text \<open>The whole run.\<close>

lemma lepas_sekali_sah:
  "lepas_sekali p slots = (p', slots') \<Longrightarrow>
     ps_sekali p' \<and> ps_aliran p' = ps_aliran p \<and> ps_pegang p' = ps_pegang p \<and>
     slots' = (if ps_sekali p then slots else lepas_slot (ps_pegang p) slots)"
  by (auto simp: lepas_sekali_def split: if_splits)

lemma aliran_run_sah:
  assumes run: "aliran_run K h g p0 slots0 w0 p slots w xs" and o: "pengamat K h g"
    and b: "aliran_baru K x (ps_aliran p0)" "\<not> ps_sekali p0"
  shows "h w = h w0 @ laporan xs \<and> (\<exists>ys. g w = g w0 @ ys \<and> aliran_sah K x ys (ps_aliran p) xs) \<and>
     ps_sekali p = berakhir xs \<and> ps_pegang p = ps_pegang p0 \<and>
     slots = (if berakhir xs then lepas_slot (ps_pegang p0) slots0 else slots0)"
  using run
proof induction
  case buka
  then show ?case using b by (auto simp: aliran_sah_def aliran_baru_def)
next
  case (recv p slots w xs p' slots' w' ev err)
  define k where "k = KRecv ev err (batal K (fst (snd (recv_pertama K (ps_aliran p) w))))"
  obtain ys where g: "g w = g w0 @ ys" and s: "aliran_sah K x ys (ps_aliran p) xs" using recv.IH by blast
  obtain a where r: "recv_pencatat K (ps_aliran p) w = (a, w', ev, err)"
    and l: "(if err \<noteq> None then lepas_sekali (p\<lparr>ps_aliran := a\<rparr>) slots else (p\<lparr>ps_aliran := a\<rparr>, slots)) = (p', slots')"
    using recv.hyps(2) by (auto simp: recv_pemegang_def split: prod.splits)
  note p = recv_pencatat_sah [OF s o r k_def]
  have "ps_aliran p' = a" "ps_sekali p' = berakhir (xs @ [k])" "ps_pegang p' = ps_pegang p0"
      "slots' = (if berakhir (xs @ [k]) then lepas_slot (ps_pegang p0) slots0 else slots0)"
    using l recv.IH lepas_sekali_sah [of "p\<lparr>ps_aliran := a\<rparr>" slots p' slots'] by (auto simp: k_def split: if_splits)
  moreover have "h w' = h w0 @ laporan (xs @ [k])" using p(1) recv.IH laporan_snoc [of xs k] by auto
  moreover have "\<exists>ys. g w' = g w0 @ ys \<and> aliran_sah K x ys a (xs @ [k])" using p(2) g by auto
  ultimately show ?case unfolding k_def by simp
next
  case (tutup p slots w xs p' slots' w')
  define k :: "'c kejadian" where "k = KClose (batal K w)"
  obtain ys where g: "g w = g w0 @ ys" and s: "aliran_sah K x ys (ps_aliran p) xs" using tutup.IH by blast
  obtain a where r: "close_terikat K (ps_aliran p) w = (a, w')" and l: "lepas_sekali (p\<lparr>ps_aliran := a\<rparr>) slots = (p', slots')"
    using tutup.hyps(2) by (auto simp: close_pemegang_def split: prod.splits)
  note p = close_terikat_sah [OF s o r k_def]
  have "ps_aliran p' = a" "ps_sekali p' = berakhir (xs @ [k])" "ps_pegang p' = ps_pegang p0"
      "slots' = (if berakhir (xs @ [k]) then lepas_slot (ps_pegang p0) slots0 else slots0)"
    using lepas_sekali_sah [OF l] tutup.IH by (auto simp: k_def)
  moreover have "h w' = h w0 @ laporan (xs @ [k])" using p tutup.IH laporan_snoc [of xs k] by auto
  ultimately show ?case using p g unfolding k_def by auto
next
  case (tembak p slots w xs t a' w')
  then have a': "a' = (ps_aliran p)\<lparr>pd_menembak := True, pd_timer := Some None\<rparr>" "h w' = h w" "g w' = g w"
    using o by (auto simp: tembak_def pengamat_def)
  obtain ys where "g w = g w0 @ ys" "aliran_sah K x ys (ps_aliran p) xs" using tembak.IH by blast
  moreover from this(2) have "aliran_sah K x ys a' xs" by (simp add: aliran_sah_def a')
  ultimately show ?case using tembak.IH a' by auto
next
  case (luar p slots w xs w')
  then show ?case by simp
qed

lemma laporan_once: "length (laporan xs) \<le> 1"
  by (induction xs rule: laporan.induct) auto

text \<open>
  A stream whose opening returns after the watchdog fired is closed, and that close reports a success;
  the attempt then answers a timeout, which \<^verbatim>\<open>cobaKandidat\<close> reports as a failure of the same attempt.
\<close>

lemma late_opening_reports_success:
  assumes o: "pengamat K h g" and b: "bungkus_pencatat_aliran K buka t pr c w = (w1, Some a, None)"
    and t: "t = (case batas of Some b \<Rightarrow> min b (du_now (pm_dunia K) w + tenggat_percobaan c) | None \<Rightarrow> du_now (pm_dunia K) w + tenggat_percobaan c)"
    and late: "du_now (pm_dunia K) w + tenggat_percobaan c \<le> du_now (pm_dunia K) w1" and c: "\<not> batal K w1"
  shows "\<exists>w' e. dengan_tenggat_pembukaan K (bungkus_pencatat_aliran K buka) batas pr c w = (w', None, Some e) \<and>
     pe_kind e = KindTimeout \<and> \<not> dikecualikan_dari_pencatatan_breaker (Some e) \<and> h w' = h w1 @ [True]"
proof -
  define e where "e = newf KindTimeout (rc_provider_name c) pesan_tenggat_pembukaan"
  obtain x where "aliran_baru K x a" using bungkus_baru [OF b] by blast
  then have a: "pc_terima a = 1" "\<not> pc_sudah a" by (auto simp: aliran_baru_def)
  obtain a1 w2 where l: "laporkan K True a w1 = (a1, w2)" by (cases "laporkan K True a w1")
  have "h (snd (close_pencatat K a w1)) = h w1 @ [True]"
    using laporkan_sah [OF o l] a c o l by (simp add: close_pencatat_def close_penjaga_def pengamat_def)
  moreover have "t = (case batas of Some t \<Rightarrow> if t < du_now (pm_dunia K) w + tenggat_percobaan c then t else du_now (pm_dunia K) w + tenggat_percobaan c
      | None \<Rightarrow> du_now (pm_dunia K) w + tenggat_percobaan c)" unfolding t by (auto simp: min_def split: option.split)
  then have "dengan_tenggat_pembukaan K (bungkus_pencatat_aliran K buka) batas pr c w = (snd (close_pencatat K a w1), None, Some e)"
    using b late by (simp add: dengan_tenggat_pembukaan_def Let_def e_def)
  moreover have "pe_kind e = KindTimeout" "\<not> dikecualikan_dari_pencatatan_breaker (Some e)"
    by (simp_all add: e_def dikecualikan_dari_pencatatan_breaker_def)
  ultimately show ?thesis by blast
qed

text \<open>
  What the breaker is told while a stream is opened.  The adapter's opening itself, waiting and asking for a
  permit tell it nothing.
\<close>

definition pembuka_diam :: "('w, 's, 'e) permukaan \<Rightarrow> ('w, 's) pembuka \<Rightarrow> ('w \<Rightarrow> bool list) \<Rightarrow> bool" where
  "pembuka_diam K buka h \<longleftrightarrow> (\<forall>t pr c w. h (fst (buka t pr c w)) = h w) \<and> diam_menunggu (pm_dunia K) h"

text \<open>The reports one attempt may cause: none or one, or two after a late opening.\<close>

definition laporan_percobaan :: "attempt \<Rightarrow> bool list \<Rightarrow> bool" where
  "laporan_percobaan a rs \<longleftrightarrow>
     (if at_skip_reason a \<noteq> [] then rs = []
      else case at_err a of
             None \<Rightarrow> rs = []
           | Some e \<Rightarrow>
               if dikecualikan_dari_pencatatan_breaker (Some e) then rs = []
               else rs = [False] \<or> rs = [True, False] \<and> pe_kind e = KindTimeout \<and> pe_message e = pesan_tenggat_pembukaan)"

lemma bungkus_lapor:
  assumes o: "pengamat K h g" and p: "pembuka_diam K buka h"
    and b: "bungkus_pencatat_aliran K buka t pr c w = (w', r)"
  shows "h w' = h w"
proof -
  obtain w1 s err where bk: "buka t pr c w = (w1, s, err)" by (metis prod_cases3)
  have w1: "h w1 = h w" using p bk unfolding pembuka_diam_def by (metis fst_conv)
  show ?thesis
  proof (cases "err = None \<and> s \<noteq> None")
    case False
    with b bk w1 show ?thesis by (cases err; cases s) (simp_all add: bungkus_pencatat_aliran_def)
  next
    case True
    then obtain s' where s: "s = Some s'" by blast
    define a0 where "a0 = mulai_penjaga K w1 (\<lparr>al_sumber = s', pd_timer = None, pd_menembak = False, pd_berakhir = False, pd_terkirim = 0,
      pp_ev = None, pp_sudah = False, pc_kandidat = c, pc_probe = pr, pc_sudah = False, pc_terima = 1, sb_lepas = False\<rparr> :: ('b, 'c) aliran)"
    obtain a1 w2 ev e where r: "recv_penjaga K a0 w1 = (a1, w2, ev, e)" by (metis prod_cases4)
    then obtain ev0 err0 where "pm_recv K (al_sumber a0) w1 = (w2, ev0, err0)"
      by (auto simp: recv_penjaga_def Let_def split: prod.splits option.splits if_splits)
    then have "h w2 = h w1" using o unfolding pengamat_def by blast
    moreover have "h (snd (close_penjaga K a1 w2)) = h w2" using o by (simp add: pengamat_def close_penjaga_def)
    ultimately show ?thesis using b bk True s r w1 a0_def
      by (cases e) (auto simp: bungkus_pencatat_aliran_def Let_def)
  qed
qed

lemma pembukaan_lapor:
  assumes o: "pengamat K h g" and p: "pembuka_diam K buka h"
    and j: "dengan_tenggat_pembukaan K (bungkus_pencatat_aliran K buka) batas pr c w = (w', v, e)"
  shows "h w' = h w \<or> h w' = h w @ [True] \<and> v = None \<and>
    (\<exists>x. e = Some x \<and> pe_kind x = KindTimeout \<and> pe_message x = pesan_tenggat_pembukaan \<and> \<not> dikecualikan_dari_pencatatan_breaker (Some x))"
proof -
  let ?t = "du_now (pm_dunia K) w + tenggat_percobaan c"
  let ?t' = "case batas of Some t \<Rightarrow> if t < ?t then t else ?t | None \<Rightarrow> ?t"
  obtain w1 str err where b: "bungkus_pencatat_aliran K buka ?t' pr c w = (w1, str, err)" by (rule prod_cases3)
  note w1 = bungkus_lapor [OF o p b]
  show ?thesis
  proof (cases "err = None \<and> str \<noteq> None \<and> ?t \<le> du_now (pm_dunia K) w1")
    case False
    then have "w' = w1" using j b by (cases err; cases str) (simp_all add: dengan_tenggat_pembukaan_def Let_def)
    with w1 show ?thesis by simp
  next
    case True
    then obtain a where a: "str = Some a" "err = None" by blast
    obtain a1 w2 where l: "laporkan K (0 < pc_terima a) a w1 = (a1, w2)" by (cases "laporkan K (0 < pc_terima a) a w1")
    obtain x where "aliran_baru K x a" using bungkus_baru [OF b [unfolded a]] by blast
    then have pc: "pc_terima a = 1" "\<not> pc_sudah a" by (auto simp: aliran_baru_def)
    have "h (snd (close_pencatat K a w1)) = h w2" using o l by (simp add: close_pencatat_def close_penjaga_def pengamat_def)
    with laporkan_sah [OF o l] pc have "h (snd (close_pencatat K a w1)) \<in> {h w1, h w1 @ [True]}" by simp
    moreover have "w' = snd (close_pencatat K a w1) \<and> v = None \<and> e = Some (newf KindTimeout (rc_provider_name c) pesan_tenggat_pembukaan)"
      using j b a True by (simp add: dengan_tenggat_pembukaan_def Let_def)
    ultimately show ?thesis using w1 by (auto simp: dikecualikan_dari_pencatatan_breaker_def newf_def)
  qed
qed

lemma menjejak_laporan:
  assumes o: "pengamat K h g" and p: "pembuka_diam K buka h"
  shows "menjejak (pm_dunia K) ((pm_plan K)\<lparr>pl_streaming := True\<rparr>) (dengan_tenggat_pembukaan K (bungkus_pencatat_aliran K buka)) h
    (\<lambda>c. laporan_percobaan)"
proof (rule menjejakI)
  let ?j = "dengan_tenggat_pembukaan K (bungkus_pencatat_aliran K buka)" and ?plan = "(pm_plan K)\<lparr>pl_streaming := True\<rparr>"
  have catat: "h (catat (pm_dunia K) c m b cfg pr t w) = h w @ [b]" for c m b cfg pr t w using o by (simp add: pengamat_def)
  show "diam_menunggu (pm_dunia K) h" using p by (simp add: pembuka_diam_def)
  show "\<exists>xs. (\<forall>a. at_skip_reason a = [] \<longrightarrow> at_err a = None \<longrightarrow> laporan_percobaan a xs) \<and>
      h (if pl_streaming ?plan then w' else catat (pm_dunia K) c (model_kandidat ?plan c) True (pl_breaker_cfg ?plan) (fst pt) (snd pt) w') = h w @ xs"
    if "?j batas pt c w = (w', Some v, None)" for batas pt c w w' v
    using pembukaan_lapor [OF o p that] by (intro exI [of _ "[]"]) (simp add: laporan_percobaan_def)
  show "\<exists>xs. (\<forall>a. at_skip_reason a = [] \<longrightarrow> at_err a = Some e \<longrightarrow> laporan_percobaan a xs) \<and>
      h (if dikecualikan_dari_pencatatan_breaker (Some e) then w'
         else catat (pm_dunia K) c (model_kandidat ?plan c) False (pl_breaker_cfg ?plan) (fst pt) (snd pt) w') = h w @ xs"
    if r: "?j batas pt c w = (w', v, e')" and e: "e = (case e' of None \<Rightarrow> galat_nil (rc_provider_name c) | Some x \<Rightarrow> x)"
    for batas pt c w w' v e e'
  proof (cases "dikecualikan_dari_pencatatan_breaker (Some e)")
    case True
    with pembukaan_lapor [OF o p r] e have "h w' = h w" by auto
    with True show ?thesis by (intro exI [of _ "[]"]) (simp add: laporan_percobaan_def)
  next
    case False
    from pembukaan_lapor [OF o p r] consider "h w' = h w" | "h w' = h w @ [True]" "pe_kind e = KindTimeout" "pe_message e = pesan_tenggat_pembukaan"
      using e by auto
    then show ?thesis
    proof cases
      case 1
      with False catat show ?thesis by (intro exI [of _ "[False]"]) (simp add: laporan_percobaan_def)
    next
      case 2
      with False catat show ?thesis by (intro exI [of _ "[True, False]"]) (simp add: laporan_percobaan_def)
    qed
  qed
qed (simp add: laporan_percobaan_def)

lemma execute_stream_lapor:
  assumes o: "pengamat K h g" and p: "pembuka_diam K buka h" and ex: "execute_stream K buka slots w = ((w1, slots1), out, Some p0)"
  shows "\<exists>rss. list_all2 laporan_percobaan (ou_attempts out) rss \<and> rss \<noteq> [] \<and> last rss = [] \<and> h w1 = h w @ concat rss"
proof -
  obtain pegang where r: "jalankan_rencana (pm_dunia K) ((pm_plan K)\<lparr>pl_streaming := True\<rparr>)
      (dengan_tenggat_pembukaan K (bungkus_pencatat_aliran K buka)) slots w = ((w1, slots1), out, pegang)" and v: "ou_value out = Some (ps_aliran p0)"
    using ex by (auto simp: execute_stream_def split: prod.splits)
  from jalankan_jejak [OF menjejak_laporan [OF o p] r] obtain bs where
    bs: "list_all2 (giliran ((pm_plan K)\<lparr>pl_streaming := True\<rparr>) (\<lambda>c. laporan_percobaan)) (pl_candidates (pm_plan K)) bs"
    "ou_attempts out = map fst (concat bs)" "h w1 = h w @ concat (map snd (concat bs))" by auto
  have "\<forall>b\<in>set bs. \<forall>(a, xs)\<in>set b. laporan_percobaan a xs"
    using bs(1) by (induction rule: list_all2_induct) (auto simp: giliran_def)
  then have q: "list_all2 laporan_percobaan (map fst ys) (map snd ys)" if "set ys \<subseteq> set (concat bs)" for ys
    using that by (induction ys) fastforce+
  from q [of "concat bs"] have all: "list_all2 laporan_percobaan (ou_attempts out) (map snd (concat bs))" by (simp add: bs(2))
  note ok = jalankan_berhasil [OF r v]
  then have ne: "map snd (concat bs) \<noteq> []" by (simp add: bs(2))
  have "laporan_percobaan (last (ou_attempts out)) (last (map snd (concat bs)))"
    using q [of "[last (concat bs)]"] ne last_in_set [of "concat bs"] by (simp add: bs(2) last_map)
  with ok have "last (map snd (concat bs)) = []" by (simp add: laporan_percobaan_def berhasil_def)
  with all ne bs(3) show ?thesis by blast
qed

text \<open>
  Silence: once the timer fired, an error other than the end of the stream reaches the reader as a timeout
  that carries all the bytes delivered, so that a reader that got any byte neither retries nor fails over.
\<close>

lemma silence_is_timeout:
  assumes s: "aliran_sah K x ys a xs" and m: "pd_menembak a" "pp_sudah a" and r: "recv_pertama K a w = (a', w', ev, Some err)" "err \<noteq> Eof"
  shows "\<exists>e. err = GalatAliran (GalatProvider e) \<and> pe_kind e = KindTimeout \<and>
     pe_streamed_bytes e = int (length (concat (map (pm_raw K) (dikirim xs)))) \<and> \<not> dikecualikan_dari_pencatatan_breaker (Some e) \<and>
     (concat (map (pm_raw K) (dikirim xs)) \<noteq> [] \<longrightarrow> \<not> retryable e \<and> \<not> failoverable e)"
proof -
  have "recv_penjaga K a w = (a', w', ev, Some err)" using r m(2) by (simp add: recv_pertama_def)
  note err = recv_penjaga_galat(4) [OF this m(1) r(2)]
  define bs where "bs = concat (map (pm_raw K) (dikirim xs))"
  define e where "e = galat_diam (int (length bs))"
  have "pd_terkirim a = int (length bs)" using s m(2) by (auto simp: aliran_sah_def bs_def)
  then have "err = GalatAliran (GalatProvider e)" using err by (simp add: e_def)
  moreover have "pe_kind e = KindTimeout" "pe_streamed_bytes e = int (length bs)" "\<not> dikecualikan_dari_pencatatan_breaker (Some e)"
    by (simp_all add: e_def galat_diam_def dikecualikan_dari_pencatatan_breaker_def)
  moreover have "bs \<noteq> [] \<Longrightarrow> 0 < pe_streamed_bytes e" by (simp add: calculation(3))
  then have "bs \<noteq> [] \<longrightarrow> \<not> retryable e \<and> \<not> failoverable e" using streamed_final by blast
  ultimately show ?thesis unfolding bs_def [symmetric] by blast
qed

section \<open>Slots under concurrent requests\<close>

text \<open>Any interleaving of reservations and of releases, each of a slot that is held; \<open>held\<close> are the held ones.\<close>

inductive slot_run :: "route_candidate set \<Rightarrow> slots \<Rightarrow> string multiset \<Rightarrow> bool" for C where
  awal: "slot_run C (\<lambda>_. 0) {#}"
| ambil: "slot_run C slots held \<Longrightarrow> c \<in> C \<Longrightarrow> ambil_slot c slots = Some (slots', pegang) \<Longrightarrow>
    slot_run C slots' (held + (case pegang of None \<Rightarrow> {#} | Some p \<Rightarrow> {#p#}))"
| lepas: "slot_run C slots held \<Longrightarrow> p \<in># held \<Longrightarrow> slot_run C (lepas_slot (Some p) slots) (held - {#p#})"

lemma slot_run_count: "slot_run C slots held \<Longrightarrow> slots p = count held p"
proof (induction rule: slot_run.induct)
  case (ambil slots held c slots' pegang)
  then show ?case by (auto simp: ambil_slot_def split: option.splits if_splits)
next
  case (lepas slots held q)
  then show ?case by (auto simp: lepas_slot_def count_eq_zero_iff [symmetric] simp del: count_eq_zero_iff)
qed simp

section \<open>Properties\<close>

text \<open>A world for the witness: the reports, the events yielded and how many are left.\<close>

type_synonym contoh_w = "bool list \<times> string list \<times> int"

definition contoh_penjaga :: "contoh_w penjaga" where
  "contoh_penjaga = \<lparr>pg_episode = False, pg_hasil_probe = False, pg_terkonfigurasi = False,
     pg_izinkan_episode = (\<lambda>k i m w. (w, True, state_closed, 0, False)), pg_allow = (\<lambda>k i m w. (w, True, state_closed, False)),
     pg_record_episode = (\<lambda>k i m b t w. (fst w @ [b], snd w)), pg_record_hasil = (\<lambda>k i m b pr w. (fst w @ [b], snd w)),
     pg_record = (\<lambda>k i m b w. (fst w @ [b], snd w))\<rparr>"

definition contoh_permukaan :: "(contoh_w, unit, string) permukaan" where
  "contoh_permukaan = \<lparr>
     pm_dunia = \<lparr>du_now = (\<lambda>w. 0), du_ctx_err = (\<lambda>w. None), du_deadline = (\<lambda>w. None), du_tidur = (\<lambda>b d w. (w, False)),
       du_acak = (\<lambda>n w. (w, 0)), du_penjaga = Some contoh_penjaga, du_egress = None\<rparr>,
     pm_plan = contoh_plan,
     pm_recv = (\<lambda>s (h, g, n). if n \<le> 0 then ((h, g, n), None, Some Eof) else ((h, g @ [''x''], n - 1), Some ''x'', None)),
     pm_close = (\<lambda>s w. w), pm_raw = (\<lambda>e. e)\<rparr>"

definition contoh_buka :: "(contoh_w, unit) pembuka" where
  "contoh_buka t pr c w = (w, Some (), None)"

definition contoh_aliran :: "(contoh_w \<times> slots) \<times> (unit, string) aliran outcome \<times> (unit, string) aliran_pemegang_slot option" where
  "contoh_aliran = execute_stream contoh_permukaan contoh_buka (\<lambda>_. 0) ([], [], 2)"

lemma contoh_pengamat: "pengamat contoh_permukaan fst (\<lambda>w. fst (snd w))"
  by (auto simp: pengamat_def contoh_permukaan_def catat_def contoh_penjaga_def Let_def split: if_splits)

lemma contoh_pembuka: "pembuka_diam contoh_permukaan contoh_buka fst"
  by (simp add: pembuka_diam_def contoh_buka_def contoh_permukaan_def contoh_penjaga_def diam_menunggu_def)

text \<open>C13. What the breaker is told of a streamed request, from the call of \<^verbatim>\<open>ExecuteStream\<close> to the end of the
  stream it returned.  While it is opened: nothing for an attempt that was skipped or failed for a reason about
  the request, one failure for any other failed attempt (and before it a success, if the adapter opened the stream
  only after the watchdog had fired, which is the defect noted above), and nothing for the attempt that succeeded.
  Afterwards, however the stream is read, closed, silenced or cancelled, at most one report, by its first end:
  success at the end of the stream or when it is closed, failure at another error, nothing when the client left or the
  error is about the request.  The reader gets the adapter's events from the first one on, none lost or
  twice, and the concurrency slot is given back exactly once, at that first end.\<close>

theorem stream_reported_once:
  assumes "pengamat K h g" and "pembuka_diam K buka h" and "execute_stream K buka slots w = ((w1, slots1), out, Some p0)"
    and "aliran_run K h g p0 slots1 w1 p slots2 w2 xs"
  shows "(\<exists>rss. list_all2 laporan_percobaan (ou_attempts out) rss \<and> rss \<noteq> [] \<and> last rss = [] \<and> h w2 = h w @ concat rss @ laporan xs) \<and>
    length (laporan xs) \<le> 1 \<and>
    (\<exists>x ys. g w2 = g w1 @ ys \<and> dikirim xs = (if pp_sudah (ps_aliran p) then x # ys else [])) \<and>
    slots2 = (if berakhir xs then slots else slots1)"
proof -
  note b = execute_stream_baru [OF assms(3)] and l = execute_stream_lapor [OF assms(1-3)]
  obtain x where x: "aliran_baru K x (ps_aliran p0)" using b(1) by blast
  note r = aliran_run_sah [OF assms(4,1) x b(2)]
  then obtain ys where "g w2 = g w1 @ ys" "aliran_sah K x ys (ps_aliran p) xs" by blast
  then have "\<exists>x ys. g w2 = g w1 @ ys \<and> dikirim xs = (if pp_sudah (ps_aliran p) then x # ys else [])"
    unfolding aliran_sah_def by blast
  moreover have "lepas_slot (ps_pegang p0) slots1 = slots" using b(3) by simp
  moreover have "\<exists>rss. list_all2 laporan_percobaan (ou_attempts out) rss \<and> rss \<noteq> [] \<and> last rss = [] \<and> h w2 = h w @ concat rss @ laporan xs"
    using l r by (metis append.assoc)
  ultimately show ?thesis using r laporan_once [of xs] by simp
qed

lemma stream_reported_once_witness:
  "\<exists>p slots2 w2. fst w2 = [True] \<and> slots2 = (\<lambda>_. 0) \<and>
     aliran_run contoh_permukaan fst (\<lambda>w. fst (snd w)) (the (snd (snd contoh_aliran))) (snd (fst contoh_aliran))
       (fst (fst contoh_aliran)) p slots2 w2 [KRecv (Some ''x'') None False, KRecv (Some ''x'') None False, KRecv None (Some Eof) False]"
proof -
  define p0 where "p0 = the (snd (snd contoh_aliran))"
  define w0 where "w0 = fst (fst contoh_aliran)"
  define s0 where "s0 = snd (fst contoh_aliran)"
  define r1 where "r1 = recv_pemegang contoh_permukaan p0 s0 w0"
  define r2 where "r2 = recv_pemegang contoh_permukaan (fst (fst r1)) (fst (snd (fst r1))) (snd (snd (fst r1)))"
  define r3 where "r3 = recv_pemegang contoh_permukaan (fst (fst r2)) (fst (snd (fst r2))) (snd (snd (fst r2)))"
  note defs = r3_def r2_def r1_def p0_def w0_def s0_def
  have e: "snd r1 = (Some ''x'', None)" "snd r2 = (Some ''x'', None)" "snd r3 = (None, Some Eof)" "fst w0 = []"
    unfolding defs by code_simp+
  have ex: "execute_stream contoh_permukaan contoh_buka (\<lambda>_. 0) ([], [], 2) = ((w0, s0), fst (snd contoh_aliran), Some p0)"
  proof -
    have "snd (snd contoh_aliran) \<noteq> None" by code_simp
    then show ?thesis by (auto simp: defs contoh_aliran_def)
  qed
  have step: "recv_pemegang contoh_permukaan p s w = ((fst (fst r), fst (snd (fst r)), snd (snd (fst r))), fst (snd r), snd (snd r))"
    if "r = recv_pemegang contoh_permukaan p s w" for p s w r using that by simp
  have nb: "\<not> batal contoh_permukaan w" for w by (simp add: batal_def contoh_permukaan_def)
  note run = aliran_run.recv [OF aliran_run.recv [OF aliran_run.recv [OF aliran_run.buka
      step [OF r1_def]] step [OF r2_def]] step [OF r3_def]]
  define xs where "xs = [KRecv (Some ''x'') None False, KRecv (Some ''x'') None False, KRecv None (Some Eof) False]"
  have run': "aliran_run contoh_permukaan fst (\<lambda>w. fst (snd w)) p0 s0 w0 (fst (fst r3)) (fst (snd (fst r3))) (snd (snd (fst r3))) xs"
    using run by (simp add: e nb xs_def)
  have l: "laporan xs = [True]" "berakhir xs" by (simp_all add: xs_def berakhir_def)
  have at: "map at_err (ou_attempts (fst (snd contoh_aliran))) = [None]" by code_simp
  from stream_reported_once [OF contoh_pengamat contoh_pembuka ex run'] obtain rss where
    rss: "list_all2 laporan_percobaan (ou_attempts (fst (snd contoh_aliran))) rss" "last rss = []"
      "fst (snd (snd (fst r3))) = fst ([] :: bool list, [] :: string list, 2 :: int) @ concat rss @ laporan xs"
      "fst (snd (fst r3)) = (if berakhir xs then (\<lambda>_. 0) else s0)" by blast
  from list_all2_lengthD [OF rss(1)] at have "length rss = 1" by (metis length_map length_Cons list.size(3) One_nat_def)
  then obtain rs where "rss = [rs]" by (cases rss) auto
  with rss(2-4) l have "fst (snd (snd (fst r3))) = [True]" "fst (snd (fst r3)) = (\<lambda>_. 0)" by simp_all
  with run' show ?thesis unfolding p0_def [symmetric] w0_def [symmetric] s0_def [symmetric] xs_def by blast
qed

text \<open>C35. However requests interleave, the counter of a provider is the number of its slots in use, and it never
  exceeds the largest \<^verbatim>\<open>max_concurrent\<close> any of the provider's candidates carried.\<close>

theorem executor_slots:
  assumes "slot_run C slots held"
    and "\<And>c k. c \<in> C \<Longrightarrow> rc_provider_id c = p \<Longrightarrow> rc_max_concurrent c = Some k \<Longrightarrow> k \<le> m" and "0 \<le> m"
  shows "slots p = count held p \<and> int (slots p) \<le> m"
proof -
  have "int (slots p) \<le> m"
    using assms(1)
  proof induction
    case (ambil slots held c slots' pegang)
    then show ?case using assms(2) [of c] by (auto simp: ambil_slot_def split: option.splits if_splits)
  next
    case (lepas slots held q)
    then show ?case by (auto simp: lepas_slot_def)
  qed (use assms(3) in simp)
  with slot_run_count [OF assms(1)] show ?thesis by simp
qed

lemma executor_slots_witness:
  "slot_run {contoh_kandidat ''a''} ((\<lambda>_. 0)(''a'' := 1)) {#''a''#} \<and> ((\<lambda>_. 0)(''a'' := 1)) ''a'' \<le> (1::nat) \<and>
   ambil_slot (contoh_kandidat ''a'') ((\<lambda>_. 0)(''a'' := 1)) = None"
proof -
  have "slot_run {contoh_kandidat ''a''} ((\<lambda>_. 0)(''a'' := 1)) ({#} + (case Some ''a'' of None \<Rightarrow> {#} | Some p \<Rightarrow> {#p#}))"
    by (rule slot_run.ambil [OF slot_run.awal, of "contoh_kandidat ''a''"]) (simp_all add: ambil_slot_def contoh_kandidat_def)
  then have r: "slot_run {contoh_kandidat ''a''} ((\<lambda>_. 0)(''a'' := 1)) {#''a''#}" by simp
  have "int (((\<lambda>_. 0)(''a'' := 1)) ''a'') \<le> 1"
    using executor_slots [OF r, of "''a''" 1] by (simp add: contoh_kandidat_def)
  then show ?thesis using r by (simp add: ambil_slot_def contoh_kandidat_def)
qed

end
