(* ===== verification/Content_Filter.thy ===== *)
theory Content_Filter
  imports Complex_Main Policy_Cache
begin

text \<open>
  The content filter, \<^verbatim>\<open>internal/contentfilter/contentfilter.go\<close>, over the rows of \<^verbatim>\<open>content_filters\<close>
  (\<^verbatim>\<open>internal/database/repo/policy/filters.go\<close>).  A compiled expression is the set of texts it matches:
  \<open>kompilasi\<close> is what \<^verbatim>\<open>regexp.Compile\<close> answers.  How long a match takes is not a function of the code, so
  \<open>habis\<close> says for which rule and text the timer of the budget fires first, and \<open>penuh\<close> whether all
  slots of the semaphore are taken.  \<^verbatim>\<open>strings.ToLower\<close> folds ASCII letters.
\<close>

section \<open>Rows\<close>

definition filter_blocked_pattern :: string where "filter_blocked_pattern = ''blocked_pattern''"
definition filter_allowed_pattern :: string where "filter_allowed_pattern = ''allowed_pattern''"
definition filter_model_restriction :: string where "filter_model_restriction = ''model_restriction''"
definition filter_provider_restriction :: string where "filter_provider_restriction = ''provider_restriction''"
definition filter_request_size :: string where "filter_request_size = ''request_size''"
definition filter_moderation :: string where "filter_moderation = ''moderation''"
definition pattern_regex :: string where "pattern_regex = ''regex''"
definition applies_to_request :: string where "applies_to_request = ''request''"
definition applies_to_response :: string where "applies_to_response = ''response''"
definition action_warn :: string where "action_warn = ''warn''"

record content_filter =
  cf_id :: string
  cf_name :: string
  cf_description :: string
  cf_kind :: string
  cf_priority :: int
  cf_applies_to :: string
  cf_action :: string
  cf_pattern :: string
  cf_pattern_type :: string
  cf_case_sensitive :: bool
  cf_max_eval_ms :: int
  cf_model_id :: string
  cf_provider_id :: string
  cf_max_request_bytes :: "int option"
  cf_enabled :: bool

text \<open>
  \<^verbatim>\<open>ActiveFilters\<close>: the enabled rows by priority, name and id.  The database compares names by its collation, which
  is a parameter; the ids are UUIDs, which sort as their bytes.
\<close>

definition banding_filter :: "(string \<Rightarrow> string \<Rightarrow> int) \<Rightarrow> content_filter \<Rightarrow> content_filter \<Rightarrow> int" where
  "banding_filter kolasi a b =
     (let p = cmp_compare (cf_priority a) (cf_priority b);
          n = kolasi (cf_name a) (cf_name b)
      in if p \<noteq> 0 then p else if n \<noteq> 0 then n else cmp_compare (cf_id a) (cf_id b))"

definition active_filters :: "(string \<Rightarrow> string \<Rightarrow> int) \<Rightarrow> content_filter list \<Rightarrow> content_filter list" where
  "active_filters kolasi tabel = sort_stable_func (banding_filter kolasi) (filter cf_enabled tabel)"

section \<open>The engine\<close>

record subject =
  su_text :: string
  su_bytes :: int
  su_tak_terperiksa :: bool
  su_model_id :: string
  su_provider_id :: string
  su_response :: bool

record verdict_filter =
  vf_blocked :: bool
  vf_filter :: "content_filter option"
  vf_reason :: string
  vf_warnings :: "content_filter list"

record aturan_filter =
  af_row :: content_filter
  af_re :: "(string \<Rightarrow> bool) option"
  af_pola :: string
  af_rusak :: bool

definition default_filter_ttl :: durasi where "default_filter_ttl = 5 * detik"
definition batas_teks_terjaga :: int where "batas_teks_terjaga = 4096"

record mesin_filter =
  mf_dimuat :: waktu
  mf_aturan :: "aturan_filter list"
  mf_dilaporkan :: "string list"

definition new_filter_engine :: mesin_filter where
  "new_filter_engine = \<lparr>mf_dimuat = waktu_nol, mf_aturan = [], mf_dilaporkan = []\<rparr>"

definition invalidate_filters :: "mesin_filter \<Rightarrow> mesin_filter" where
  "invalidate_filters e = e\<lparr>mf_dimuat := waktu_nol\<rparr>"

definition siapkan :: "(string \<Rightarrow> (string \<Rightarrow> bool) option) \<Rightarrow> content_filter \<Rightarrow> aturan_filter" where
  "siapkan kompilasi row =
     (let a = \<lparr>af_row = row, af_re = None, af_pola = [], af_rusak = False\<rparr>
      in if cf_kind row = filter_moderation then a\<lparr>af_rusak := True\<rparr>
         else if cf_kind row = filter_blocked_pattern \<or> cf_kind row = filter_allowed_pattern then
           (if cf_pattern_type row = pattern_regex then
              (let pola = (if \<not> cf_case_sensitive row then ''(?i)'' @ cf_pattern row else cf_pattern row)
               in case kompilasi pola of
                    None \<Rightarrow> a\<lparr>af_rusak := True\<rparr>
                  | Some re \<Rightarrow> a\<lparr>af_re := Some re\<rparr>)
            else a\<lparr>af_pola := (if \<not> cf_case_sensitive row then to_lower (cf_pattern row) else cf_pattern row)\<rparr>)
         else a)"

text \<open>\<^verbatim>\<open>muat\<close>; the second result are the unusable rules that are complained about for the first time.\<close>

definition keluhan_baru :: "content_filter list \<Rightarrow> string list \<Rightarrow> string list \<times> content_filter list" where
  "keluhan_baru keluhan sudah =
     foldl (\<lambda>(s, baru) row. if cf_id row \<in> set s then (s, baru) else (s @ [cf_id row], baru @ [row])) (sudah, []) keluhan"

definition muat_filter ::
    "durasi \<Rightarrow> (string \<Rightarrow> (string \<Rightarrow> bool) option) \<Rightarrow> content_filter baris_kebijakan \<Rightarrow> waktu \<Rightarrow> mesin_filter \<Rightarrow>
     mesin_filter \<times> content_filter list" where
  "muat_filter ttl kompilasi src now e =
     (case src of
        None \<Rightarrow> (e, [])
      | Some jawaban \<Rightarrow>
          if mf_dimuat e \<noteq> waktu_nol \<and> now - mf_dimuat e < ttl then (e, [])
          else (case jawaban of
                  Inl err \<Rightarrow> (e, [])
                | Inr rows \<Rightarrow>
                    let daftar = map (siapkan kompilasi) rows
                    in case keluhan_baru (map af_row (filter af_rusak daftar)) (mf_dilaporkan e) of
                         (s, baru) \<Rightarrow> (e\<lparr>mf_aturan := daftar, mf_dimuat := now, mf_dilaporkan := s\<rparr>, baru)))"

definition berlaku_arah :: "content_filter \<Rightarrow> subject \<Rightarrow> bool" where
  "berlaku_arah f s =
     (if cf_applies_to f = applies_to_request then \<not> su_response s
      else if cf_applies_to f = applies_to_response then su_response s
      else True)"

definition berlaku :: "content_filter \<Rightarrow> subject \<Rightarrow> bool" where
  "berlaku f s =
     (if \<not> berlaku_arah f s then False
      else if cf_kind f = filter_request_size then \<not> su_response s \<and> 0 < su_bytes s \<and> cf_max_request_bytes f \<noteq> None
      else if cf_kind f = filter_blocked_pattern \<or> cf_kind f = filter_allowed_pattern then su_text s \<noteq> []
      else if cf_kind f = filter_model_restriction then su_model_id s \<noteq> []
      else if cf_kind f = filter_provider_restriction then su_provider_id s \<noteq> []
      else False)"

text \<open>The match itself, and \<^verbatim>\<open>cocok\<close> with its time budget: \<open>(matched, ran out of time)\<close>.\<close>

definition cocok_pola :: "aturan_filter \<Rightarrow> string \<Rightarrow> bool" where
  "cocok_pola a teks =
     (case af_re a of
        Some re \<Rightarrow> re teks
      | None \<Rightarrow> if cf_case_sensitive (af_row a) then contains teks (af_pola a) else contains (to_lower teks) (af_pola a))"

definition cocok :: "(aturan_filter \<Rightarrow> string \<Rightarrow> bool) \<Rightarrow> bool \<Rightarrow> aturan_filter \<Rightarrow> string \<Rightarrow> bool \<times> bool" where
  "cocok habis penuh a teks =
     (if int (length teks) < batas_teks_terjaga then (cocok_pola a teks, False)
      else if cf_max_eval_ms (af_row a) * milidetik \<le> 0 then (cocok_pola a teks, False)
      else if penuh then (cocok_pola a teks, False)
      else if habis a teks then (False, True)
      else (cocok_pola a teks, False))"

definition terpicu :: "(aturan_filter \<Rightarrow> string \<Rightarrow> bool) \<Rightarrow> bool \<Rightarrow> aturan_filter \<Rightarrow> subject \<Rightarrow> bool" where
  "terpicu habis penuh a s =
     (let f = af_row a
      in if cf_kind f = filter_request_size then (case cf_max_request_bytes f of Some m \<Rightarrow> m < su_bytes s | None \<Rightarrow> False)
         else if cf_kind f = filter_model_restriction then su_model_id s = cf_model_id f
         else if cf_kind f = filter_provider_restriction then su_provider_id s = cf_provider_id f
         else if cf_kind f = filter_blocked_pattern then
           (if af_rusak a then False else case cocok habis penuh a (su_text s) of (c, h) \<Rightarrow> c \<and> \<not> h)
         else if cf_kind f = filter_allowed_pattern then
           (if af_rusak a then True else case cocok habis penuh a (su_text s) of (c, h) \<Rightarrow> if h then True else \<not> c)
         else False)"

text \<open>A name in quotes, cut to eighty bytes with an ellipsis.\<close>

definition kutip :: "string \<Rightarrow> string" where
  "kutip v = CHR 0x22 # (if 80 < length v then take 80 v @ [CHR 0xE2, CHR 0x80, CHR 0xA6] else v) @ [CHR 0x22]"

definition alasan :: "content_filter \<Rightarrow> string" where
  "alasan f =
     (if cf_kind f = filter_request_size then ''permintaan melebihi batas ukuran yang ditetapkan kebijakan '' @ kutip (cf_name f)
      else if cf_kind f = filter_blocked_pattern then ''isi permintaan tertahan kebijakan konten '' @ kutip (cf_name f)
      else if cf_kind f = filter_allowed_pattern then ''isi permintaan tidak memenuhi kebijakan konten '' @ kutip (cf_name f)
      else if cf_kind f = filter_model_restriction then ''model ini dibatasi kebijakan '' @ kutip (cf_name f)
      else if cf_kind f = filter_provider_restriction then ''provider untuk model ini dibatasi kebijakan '' @ kutip (cf_name f)
      else ''permintaan tertahan kebijakan konten '' @ kutip (cf_name f))"

definition alasan_tak_terperiksa :: "content_filter \<Rightarrow> string" where
  "alasan_tak_terperiksa f = ''isi permintaan tidak dapat diperiksa terhadap kebijakan konten '' @ kutip (cf_name f) @
     '' karena sebagian muatan tidak berbentuk teks''"

definition tolak_filter :: "content_filter list \<Rightarrow> content_filter \<Rightarrow> string \<Rightarrow> verdict_filter" where
  "tolak_filter ws f r = \<lparr>vf_blocked = True, vf_filter = Some f, vf_reason = r, vf_warnings = ws\<rparr>"

text \<open>The two loops of \<^verbatim>\<open>Check\<close>: over the rules that have their material, and, for a payload that cannot be
  read as text, over the pattern rules.\<close>

fun check_loop ::
    "(aturan_filter \<Rightarrow> string \<Rightarrow> bool) \<Rightarrow> bool \<Rightarrow> subject \<Rightarrow> aturan_filter list \<Rightarrow> content_filter list \<Rightarrow>
     content_filter list \<times> content_filter option" where
  "check_loop habis penuh s [] ws = (ws, None)"
| "check_loop habis penuh s (a # as) ws =
     (if \<not> berlaku (af_row a) s then check_loop habis penuh s as ws
      else if \<not> terpicu habis penuh a s then check_loop habis penuh s as ws
      else if cf_action (af_row a) = action_warn then check_loop habis penuh s as (ws @ [af_row a])
      else (ws, Some (af_row a)))"

fun tak_terperiksa_loop :: "subject \<Rightarrow> aturan_filter list \<Rightarrow> content_filter option" where
  "tak_terperiksa_loop s [] = None"
| "tak_terperiksa_loop s (a # as) =
     (if cf_action (af_row a) = action_warn then tak_terperiksa_loop s as
      else if cf_kind (af_row a) \<noteq> filter_blocked_pattern \<and> cf_kind (af_row a) \<noteq> filter_allowed_pattern then tak_terperiksa_loop s as
      else if \<not> berlaku_arah (af_row a) s then tak_terperiksa_loop s as
      else if af_rusak a \<and> cf_kind (af_row a) = filter_blocked_pattern then tak_terperiksa_loop s as
      else Some (af_row a))"

definition check_rules :: "(aturan_filter \<Rightarrow> string \<Rightarrow> bool) \<Rightarrow> bool \<Rightarrow> aturan_filter list \<Rightarrow> subject \<Rightarrow> verdict_filter" where
  "check_rules habis penuh daftar s =
     (case check_loop habis penuh s daftar [] of
        (ws, Some f) \<Rightarrow> tolak_filter ws f (alasan f)
      | (ws, None) \<Rightarrow>
          if su_tak_terperiksa s then
            (case tak_terperiksa_loop s daftar of
               Some f \<Rightarrow> tolak_filter ws f (alasan_tak_terperiksa f)
             | None \<Rightarrow> \<lparr>vf_blocked = False, vf_filter = None, vf_reason = [], vf_warnings = ws\<rparr>)
          else \<lparr>vf_blocked = False, vf_filter = None, vf_reason = [], vf_warnings = ws\<rparr>)"

definition check_filter where
  "check_filter ttl kompilasi habis penuh src now s e =
     (let e1 = fst (muat_filter ttl kompilasi src now e) in (e1, check_rules habis penuh (mf_aturan e1) s))"

definition inert :: "mesin_filter \<Rightarrow> string list" where
  "inert e = map (\<lambda>a. cf_name (af_row a)) (filter af_rusak (mf_aturan e))"

section \<open>Storing a filter\<close>

text \<open>\<^verbatim>\<open>validasiPolaRegex\<close>: whether the row may be stored or switched on.\<close>

definition validasi_pola_regex :: "(string \<Rightarrow> (string \<Rightarrow> bool) option) \<Rightarrow> string \<Rightarrow> string \<Rightarrow> string \<Rightarrow> bool \<Rightarrow> bool" where
  "validasi_pola_regex kompilasi kind pattern_type pattern case_sensitive =
     (if pattern_type \<noteq> pattern_regex then True
      else if kind \<noteq> filter_blocked_pattern \<and> kind \<noteq> filter_allowed_pattern then True
      else kompilasi (if \<not> case_sensitive then ''(?i)'' @ pattern else pattern) \<noteq> None)"

datatype filter_error = ErrFilterPola | ErrFilterNotFound | ErrFilterNoChanges | ErrFilterReference

text \<open>\<^verbatim>\<open>idOK\<close>: the shape of a UUID.\<close>

definition is_hex :: "char \<Rightarrow> bool" where
  "is_hex c \<longleftrightarrow> CHR ''0'' \<le> c \<and> c \<le> CHR ''9'' \<or> CHR ''a'' \<le> c \<and> c \<le> CHR ''f'' \<or> CHR ''A'' \<le> c \<and> c \<le> CHR ''F''"

definition id_ok :: "string \<Rightarrow> bool" where
  "id_ok i \<longleftrightarrow> length i = 36 \<and>
     list_all (\<lambda>(k, c). if k = 8 \<or> k = 13 \<or> k = 18 \<or> k = 23 then c = CHR ''-'' else is_hex c) (zip [0..<36] i)"

definition referensi_ok :: "string \<Rightarrow> bool" where
  "referensi_ok i \<longleftrightarrow> i = [] \<or> id_ok i"

definition cari_filter :: "string \<Rightarrow> content_filter list \<Rightarrow> content_filter option" where
  "cari_filter i tabel = (if id_ok i then List.find (\<lambda>f. cf_id f = i) tabel else None)"

definition ubah_filter :: "string \<Rightarrow> (content_filter \<Rightarrow> content_filter) \<Rightarrow> content_filter list \<Rightarrow> content_filter list" where
  "ubah_filter i g tabel = map (\<lambda>f. if cf_id f = i then g f else f) tabel"

text \<open>\<^verbatim>\<open>CreateFilter\<close> with its defaults; \<open>i\<close> is the id the database gives.  The columns of the moderation
  integration, the author and the timestamps, which no rule reads, are left out.\<close>

definition create_filter where
  "create_filter kompilasi i p tabel =
     (let f = p\<lparr>cf_id := i, cf_enabled := True,
                cf_priority := (if cf_priority p = 0 then 100 else cf_priority p),
                cf_applies_to := (if cf_applies_to p = [] then applies_to_request else cf_applies_to p),
                cf_action := (if cf_action p = [] then ''block'' else cf_action p),
                cf_max_eval_ms := (if cf_max_eval_ms p = 0 then 50 else cf_max_eval_ms p)\<rparr>
      in if \<not> referensi_ok (cf_model_id p) \<or> \<not> referensi_ok (cf_provider_id p) then Inl ErrFilterReference
         else if \<not> validasi_pola_regex kompilasi (cf_kind p) (cf_pattern_type p) (cf_pattern p) (cf_case_sensitive p) then Inl ErrFilterPola
         else Inr (tabel @ [f], f))"

definition set_filter_enabled where
  "set_filter_enabled kompilasi i enabled tabel =
     (case cari_filter i tabel of
        None \<Rightarrow> Inl ErrFilterNotFound
      | Some kini \<Rightarrow>
          if enabled \<and> \<not> validasi_pola_regex kompilasi (cf_kind kini) (cf_pattern_type kini) (cf_pattern kini) (cf_case_sensitive kini)
          then Inl ErrFilterPola
          else Inr (ubah_filter i (\<lambda>f. f\<lparr>cf_enabled := enabled\<rparr>) tabel))"

definition delete_filter :: "string \<Rightarrow> content_filter list \<Rightarrow> filter_error + content_filter list" where
  "delete_filter i tabel =
     (if cari_filter i tabel = None then Inl ErrFilterNotFound else Inr (filter (\<lambda>f. cf_id f \<noteq> i) tabel))"

text \<open>\<^verbatim>\<open>UpdateFilter\<close>: the fields that are given; the pattern is checked when it, its kind or the switch is touched.\<close>

record update_filter_params =
  uf_name :: "string option"
  uf_description :: "string option"
  uf_kind :: "string option"
  uf_priority :: "int option"
  uf_applies_to :: "string option"
  uf_action :: "string option"
  uf_pattern :: "string option"
  uf_pattern_type :: "string option"
  uf_case_sensitive :: "bool option"
  uf_max_eval_ms :: "int option"
  uf_model_id :: "string option"
  uf_provider_id :: "string option"
  uf_max_request_bytes :: "int option"
  uf_enabled :: "bool option"

definition pilih :: "'a option \<Rightarrow> 'a \<Rightarrow> 'a" where
  "pilih v lama = (case v of Some x \<Rightarrow> x | None \<Rightarrow> lama)"

definition terapkan_filter :: "update_filter_params \<Rightarrow> content_filter \<Rightarrow> content_filter" where
  "terapkan_filter p f = f\<lparr>cf_name := pilih (uf_name p) (cf_name f), cf_description := pilih (uf_description p) (cf_description f),
     cf_kind := pilih (uf_kind p) (cf_kind f), cf_priority := pilih (uf_priority p) (cf_priority f),
     cf_applies_to := pilih (uf_applies_to p) (cf_applies_to f), cf_action := pilih (uf_action p) (cf_action f),
     cf_pattern := pilih (uf_pattern p) (cf_pattern f), cf_pattern_type := pilih (uf_pattern_type p) (cf_pattern_type f),
     cf_case_sensitive := pilih (uf_case_sensitive p) (cf_case_sensitive f), cf_max_eval_ms := pilih (uf_max_eval_ms p) (cf_max_eval_ms f),
     cf_model_id := pilih (uf_model_id p) (cf_model_id f), cf_provider_id := pilih (uf_provider_id p) (cf_provider_id f),
     cf_max_request_bytes := (case uf_max_request_bytes p of Some m \<Rightarrow> Some m | None \<Rightarrow> cf_max_request_bytes f),
     cf_enabled := pilih (uf_enabled p) (cf_enabled f)\<rparr>"

definition tanpa_perubahan :: update_filter_params where
  "tanpa_perubahan = \<lparr>uf_name = None, uf_description = None, uf_kind = None, uf_priority = None, uf_applies_to = None, uf_action = None,
     uf_pattern = None, uf_pattern_type = None, uf_case_sensitive = None, uf_max_eval_ms = None, uf_model_id = None,
     uf_provider_id = None, uf_max_request_bytes = None, uf_enabled = None\<rparr>"

definition update_filter where
  "update_filter kompilasi i p tabel =
     (let periksa_pola = (uf_enabled p = Some True \<or> uf_kind p \<noteq> None \<or> uf_pattern p \<noteq> None \<or> uf_pattern_type p \<noteq> None \<or>
            uf_case_sensitive p \<noteq> None);
         rujukan_buruk = (case uf_model_id p of Some m \<Rightarrow> \<not> referensi_ok m | None \<Rightarrow> False) \<or>
            (case uf_provider_id p of Some m \<Rightarrow> \<not> referensi_ok m | None \<Rightarrow> False)
      in if \<not> id_ok i then Inl ErrFilterNotFound
         else case cari_filter i tabel of
           None \<Rightarrow>
             if periksa_pola then Inl ErrFilterNotFound
             else if rujukan_buruk then Inl ErrFilterReference
             else if p = tanpa_perubahan then Inl ErrFilterNoChanges
             else Inl ErrFilterNotFound
         | Some kini \<Rightarrow>
             let f = terapkan_filter p kini
             in if periksa_pola \<and> \<not> validasi_pola_regex kompilasi (cf_kind f) (cf_pattern_type f) (cf_pattern f) (cf_case_sensitive f)
                then Inl ErrFilterPola
                else if rujukan_buruk then Inl ErrFilterReference
                else if p = tanpa_perubahan then Inl ErrFilterNoChanges
                else Inr (ubah_filter i (terapkan_filter p) tabel))"

section \<open>What a rule forbids\<close>

text \<open>
  Read apart from the loops: a size limit is passed, a model or provider is the restricted one, a text
  matches a usable forbidden pattern in time, or it does not match a required one, or whether it does is
  unknown.  A payload that cannot be read as text violates every usable forbidden pattern and every
  required one.
\<close>

definition diketahui_cocok :: "(aturan_filter \<Rightarrow> string \<Rightarrow> bool) \<Rightarrow> bool \<Rightarrow> aturan_filter \<Rightarrow> string \<Rightarrow> bool option" where
  "diketahui_cocok habis penuh a teks =
     (if af_rusak a then None
      else if batas_teks_terjaga \<le> int (length teks) \<and> 0 < cf_max_eval_ms (af_row a) \<and> \<not> penuh \<and> habis a teks then None
      else Some (cocok_pola a teks))"

definition melanggar_isi :: "(aturan_filter \<Rightarrow> string \<Rightarrow> bool) \<Rightarrow> bool \<Rightarrow> aturan_filter \<Rightarrow> subject \<Rightarrow> bool" where
  "melanggar_isi habis penuh a s \<longleftrightarrow>
     (let f = af_row a in berlaku_arah f s \<and>
      (cf_kind f = filter_request_size \<and> \<not> su_response s \<and> 0 < su_bytes s \<and> (\<exists>m. cf_max_request_bytes f = Some m \<and> m < su_bytes s) \<or>
       cf_kind f = filter_model_restriction \<and> su_model_id s \<noteq> [] \<and> su_model_id s = cf_model_id f \<or>
       cf_kind f = filter_provider_restriction \<and> su_provider_id s \<noteq> [] \<and> su_provider_id s = cf_provider_id f \<or>
       cf_kind f = filter_blocked_pattern \<and> su_text s \<noteq> [] \<and> diketahui_cocok habis penuh a (su_text s) = Some True \<or>
       cf_kind f = filter_allowed_pattern \<and> su_text s \<noteq> [] \<and> diketahui_cocok habis penuh a (su_text s) \<noteq> Some True))"

definition melanggar_buta :: "aturan_filter \<Rightarrow> subject \<Rightarrow> bool" where
  "melanggar_buta a s \<longleftrightarrow> su_tak_terperiksa s \<and> berlaku_arah (af_row a) s \<and>
     (cf_kind (af_row a) = filter_blocked_pattern \<and> \<not> af_rusak a \<or> cf_kind (af_row a) = filter_allowed_pattern)"

lemmas jenis_filter_defs = filter_blocked_pattern_def filter_allowed_pattern_def filter_model_restriction_def
  filter_provider_restriction_def filter_request_size_def filter_moderation_def

lemma jenis_filter_beda [simp]:
  "filter_blocked_pattern \<noteq> filter_allowed_pattern" "filter_allowed_pattern \<noteq> filter_blocked_pattern"
  "filter_blocked_pattern \<noteq> filter_request_size" "filter_request_size \<noteq> filter_blocked_pattern"
  "filter_allowed_pattern \<noteq> filter_request_size" "filter_request_size \<noteq> filter_allowed_pattern"
  "filter_model_restriction \<noteq> filter_request_size" "filter_request_size \<noteq> filter_model_restriction"
  "filter_provider_restriction \<noteq> filter_request_size" "filter_request_size \<noteq> filter_provider_restriction"
  "filter_model_restriction \<noteq> filter_provider_restriction" "filter_provider_restriction \<noteq> filter_model_restriction"
  "filter_model_restriction \<noteq> filter_blocked_pattern" "filter_blocked_pattern \<noteq> filter_model_restriction"
  "filter_model_restriction \<noteq> filter_allowed_pattern" "filter_allowed_pattern \<noteq> filter_model_restriction"
  "filter_provider_restriction \<noteq> filter_blocked_pattern" "filter_blocked_pattern \<noteq> filter_provider_restriction"
  "filter_provider_restriction \<noteq> filter_allowed_pattern" "filter_allowed_pattern \<noteq> filter_provider_restriction"
  "filter_moderation \<noteq> filter_blocked_pattern" "filter_moderation \<noteq> filter_allowed_pattern"
  by (simp_all add: jenis_filter_defs)

lemma cocok_diketahui:
  "\<not> af_rusak a \<Longrightarrow> cocok habis penuh a teks =
     (case diketahui_cocok habis penuh a teks of None \<Rightarrow> (False, True) | Some c \<Rightarrow> (c, False))"
  by (auto simp: cocok_def diketahui_cocok_def)

lemma terpicu_melanggar:
  "berlaku (af_row a) s \<and> terpicu habis penuh a s \<longleftrightarrow> melanggar_isi habis penuh a s"
proof -
  consider "cf_kind (af_row a) = filter_request_size" | "cf_kind (af_row a) = filter_model_restriction"
    | "cf_kind (af_row a) = filter_provider_restriction" | "cf_kind (af_row a) = filter_blocked_pattern"
    | "cf_kind (af_row a) = filter_allowed_pattern"
    | "cf_kind (af_row a) \<notin> {filter_request_size, filter_model_restriction, filter_provider_restriction, filter_blocked_pattern, filter_allowed_pattern}"
    by blast
  then show ?thesis
  proof cases
    case 4
    then show ?thesis
      by (cases "af_rusak a"; cases "diketahui_cocok habis penuh a (su_text s)")
        (auto simp: berlaku_def terpicu_def melanggar_isi_def cocok_diketahui Let_def, auto simp: diketahui_cocok_def)
  next
    case 5
    then show ?thesis
      by (cases "af_rusak a"; cases "diketahui_cocok habis penuh a (su_text s)")
        (auto simp: berlaku_def terpicu_def melanggar_isi_def cocok_diketahui Let_def, auto simp: diketahui_cocok_def)
  qed (auto simp: berlaku_def terpicu_def melanggar_isi_def Let_def split: option.splits)
qed

definition memblokir :: "aturan_filter \<Rightarrow> bool" where
  "memblokir a \<longleftrightarrow> cf_action (af_row a) \<noteq> action_warn"

lemma check_loop_find:
  "check_loop habis penuh s as ws =
     (ws @ map af_row (filter (\<lambda>a. melanggar_isi habis penuh a s) (takeWhile (\<lambda>a. \<not> (melanggar_isi habis penuh a s \<and> memblokir a)) as)),
      map_option af_row (List.find (\<lambda>a. melanggar_isi habis penuh a s \<and> memblokir a) as))"
proof (induction as arbitrary: ws)
  case (Cons a as)
  then show ?case
    using terpicu_melanggar [of a s habis penuh] by (auto simp: memblokir_def)
qed simp

lemma tak_terperiksa_find:
  "su_tak_terperiksa s \<Longrightarrow>
     tak_terperiksa_loop s as = map_option af_row (List.find (\<lambda>a. melanggar_buta a s \<and> memblokir a) as)"
  by (induction as) (auto simp: melanggar_buta_def memblokir_def)

lemma buta_tak_terperiksa: "melanggar_buta a s \<Longrightarrow> su_tak_terperiksa s"
  by (simp add: melanggar_buta_def)

lemma check_rules_find:
  "vf_filter (check_rules habis penuh as s) =
     map_option af_row (case List.find (\<lambda>a. melanggar_isi habis penuh a s \<and> memblokir a) as of
        Some a \<Rightarrow> Some a | None \<Rightarrow> List.find (\<lambda>a. melanggar_buta a s \<and> memblokir a) as)"
  "vf_blocked (check_rules habis penuh as s) \<longleftrightarrow> vf_filter (check_rules habis penuh as s) \<noteq> None"
proof -
  have n: "\<not> su_tak_terperiksa s \<Longrightarrow> List.find (\<lambda>a. melanggar_buta a s \<and> memblokir a) as = None"
    by (auto simp: find_None_iff melanggar_buta_def)
  show "vf_filter (check_rules habis penuh as s) =
     map_option af_row (case List.find (\<lambda>a. melanggar_isi habis penuh a s \<and> memblokir a) as of
        Some a \<Rightarrow> Some a | None \<Rightarrow> List.find (\<lambda>a. melanggar_buta a s \<and> memblokir a) as)"
    using n by (auto simp: check_rules_def check_loop_find tak_terperiksa_find tolak_filter_def split: option.splits)
  show "vf_blocked (check_rules habis penuh as s) \<longleftrightarrow> vf_filter (check_rules habis penuh as s) \<noteq> None"
    by (auto simp: check_rules_def check_loop_find tolak_filter_def split: option.splits)
qed

text \<open>The first element with a property in a sorted list is a least one.\<close>

lemma find_least:
  assumes "List.find P xs = Some x" and "sorted_wrt R xs" and "\<And>z. R z z"
  shows "P x \<and> x \<in> set xs \<and> (\<forall>y\<in>set xs. P y \<longrightarrow> R x y)"
  using assms(1,2)
proof (induction xs)
  case (Cons z zs)
  then show ?case using assms(3) by (cases "P z") auto
qed simp

lemma banding_filter_le:
  "banding_filter kolasi a b \<le> 0 \<longleftrightarrow> cf_priority a < cf_priority b \<or> cf_priority a = cf_priority b \<and>
     (kolasi (cf_name a) (cf_name b) < 0 \<or> kolasi (cf_name a) (cf_name b) = 0 \<and> cf_id a \<le> cf_id b)"
  by (auto simp: banding_filter_def Let_def cmp_compare_def)

lemma banding_filter_cmp:
  assumes "go_cmp kolasi" shows "go_cmp (banding_filter kolasi)"
proof -
  have flip: "kolasi x y < 0 \<longleftrightarrow> 0 < kolasi y x" for x y by (rule go_cmp.cmp_flip [OF assms])
  have nol: "kolasi x y = 0 \<longleftrightarrow> kolasi y x = 0" for x y using flip [of x y] flip [of y x] by linarith
  have le: "kolasi x y \<le> 0 \<Longrightarrow> kolasi y z \<le> 0 \<Longrightarrow> kolasi x z \<le> 0" for x y z by (rule go_cmp.cmp_trans [OF assms])
  have lt: "kolasi x z < 0" if "kolasi x y \<le> 0" "kolasi y z \<le> 0" "kolasi x y < 0 \<or> kolasi y z < 0" for x y z
    using that le [of x y z] le [of z x y] le [of y z x] flip [of x z] flip [of x y] flip [of y z] nol [of x z] by linarith
  show ?thesis
  proof
    fix a b c
    show "banding_filter kolasi a b < 0 \<longleftrightarrow> 0 < banding_filter kolasi b a"
      using flip [of "cf_name a" "cf_name b"] nol [of "cf_name a" "cf_name b"] by (auto simp: banding_filter_def Let_def cmp_compare_def)
    show "banding_filter kolasi a b \<le> 0 \<Longrightarrow> banding_filter kolasi b c \<le> 0 \<Longrightarrow> banding_filter kolasi a c \<le> 0"
      using le [of "cf_name a" "cf_name b" "cf_name c"] lt [of "cf_name a" "cf_name b" "cf_name c"]
      unfolding banding_filter_le by fastforce
  qed
qed

interpretation byte_cmp: go_cmp "cmp_compare :: string \<Rightarrow> string \<Rightarrow> int"
  by standard (auto simp: cmp_compare_def split: if_splits)

lemma kolasi_byte: "go_cmp (cmp_compare :: string \<Rightarrow> string \<Rightarrow> int)"
  by (rule byte_cmp.go_cmp_axioms)

interpretation urut_filter: go_cmp "banding_filter cmp_compare"
  by (rule banding_filter_cmp [OF kolasi_byte])

lemma active_filters_sorted:
  "go_cmp kolasi \<Longrightarrow> sorted_wrt (\<lambda>a b. banding_filter kolasi a b \<le> 0) (active_filters kolasi tabel)"
  unfolding active_filters_def by (rule go_cmp.sort_stable_sorted [OF banding_filter_cmp])

lemma siapkan_row [simp]: "af_row (siapkan kompilasi f) = f"
  by (simp add: siapkan_def Let_def split: option.split)

lemma muat_filter_baru:
  "mf_dimuat e = waktu_nol \<Longrightarrow> mf_aturan (fst (muat_filter ttl kompilasi (Some (Inr rows)) now e)) = map (siapkan kompilasi) rows"
  by (simp add: muat_filter_def Let_def split: prod.split)

section \<open>Every stored pattern compiles\<close>

definition pola_sah :: "(string \<Rightarrow> (string \<Rightarrow> bool) option) \<Rightarrow> content_filter \<Rightarrow> bool" where
  "pola_sah kompilasi f \<longleftrightarrow> validasi_pola_regex kompilasi (cf_kind f) (cf_pattern_type f) (cf_pattern f) (cf_case_sensitive f)"

lemma pola_sah_usable: "pola_sah kompilasi f \<Longrightarrow> cf_kind f \<noteq> filter_moderation \<Longrightarrow> \<not> af_rusak (siapkan kompilasi f)"
  by (auto simp: pola_sah_def validasi_pola_regex_def siapkan_def Let_def split: if_splits option.splits)

inductive filter_run :: "(string \<Rightarrow> (string \<Rightarrow> bool) option) \<Rightarrow> content_filter list \<Rightarrow> bool" for kompilasi where
  fr_kosong: "filter_run kompilasi []"
| fr_buat: "filter_run kompilasi t \<Longrightarrow> i \<notin> cf_id ` set t \<Longrightarrow> create_filter kompilasi i p t = Inr (t', f) \<Longrightarrow> filter_run kompilasi t'"
| fr_ubah: "filter_run kompilasi t \<Longrightarrow> update_filter kompilasi i q t = Inr t' \<Longrightarrow> filter_run kompilasi t'"
| fr_saklar: "filter_run kompilasi t \<Longrightarrow> set_filter_enabled kompilasi i b t = Inr t' \<Longrightarrow> filter_run kompilasi t'"
| fr_hapus: "filter_run kompilasi t \<Longrightarrow> delete_filter i t = Inr t' \<Longrightarrow> filter_run kompilasi t'"

lemma cf_id_terapkan [simp]: "cf_id (terapkan_filter p f) = cf_id f"
  by (simp add: terapkan_filter_def)

lemma ubah_filter_ids: "(\<And>f. cf_id (g f) = cf_id f) \<Longrightarrow> map cf_id (ubah_filter i g t) = map cf_id t"
  by (induction t) (auto simp: ubah_filter_def)

lemma cari_filter_in: "cari_filter i t = Some f \<Longrightarrow> f \<in> set t \<and> cf_id f = i"
  by (auto simp: cari_filter_def find_Some_iff split: if_splits)

lemma set_ubah_filter:
  assumes "cari_filter i t = Some kini" "distinct (map cf_id t)" "f \<in> set (ubah_filter i g t)"
  shows "f = g kini \<or> f \<in> set t"
proof -
  obtain f0 where f0: "f0 \<in> set t" "f = (if cf_id f0 = i then g f0 else f0)" using assms(3) by (auto simp: ubah_filter_def)
  have "f0 = kini" if "cf_id f0 = i"
    using cari_filter_in [OF assms(1)] f0(1) assms(2) that by (metis distinct_map inj_onD)
  with f0 show ?thesis by auto
qed

lemma pola_sah_tetap:
  assumes "pola_sah kompilasi f" "uf_kind p = None" "uf_pattern p = None" "uf_pattern_type p = None" "uf_case_sensitive p = None"
  shows "pola_sah kompilasi (terapkan_filter p f)"
  using assms by (simp add: pola_sah_def terapkan_filter_def pilih_def)

lemma filter_run_sah: "filter_run kompilasi t \<Longrightarrow> distinct (map cf_id t) \<and> (\<forall>f\<in>set t. pola_sah kompilasi f)"
proof (induction rule: filter_run.induct)
  case (fr_buat t i p t' f)
  then show ?case by (auto simp: create_filter_def Let_def pola_sah_def split: if_splits)
next
  case (fr_ubah t i q t')
  then obtain kini where k: "cari_filter i t = Some kini" "t' = ubah_filter i (terapkan_filter q) t"
    and v: "pola_sah kompilasi (terapkan_filter q kini) \<or>
      uf_kind q = None \<and> uf_pattern q = None \<and> uf_pattern_type q = None \<and> uf_case_sensitive q = None"
    by (auto simp: update_filter_def Let_def pola_sah_def split: option.splits if_splits)
  have "pola_sah kompilasi (terapkan_filter q kini)"
    using v pola_sah_tetap cari_filter_in [OF k(1)] fr_ubah.IH by blast
  then show ?case using k fr_ubah.IH set_ubah_filter [OF k(1)] ubah_filter_ids [of "terapkan_filter q" i t] by auto
next
  case (fr_saklar t i b t')
  then obtain kini where k: "cari_filter i t = Some kini" "t' = ubah_filter i (\<lambda>f. f\<lparr>cf_enabled := b\<rparr>) t"
    by (auto simp: set_filter_enabled_def split: option.splits if_splits)
  have "pola_sah kompilasi (kini\<lparr>cf_enabled := b\<rparr>)"
    using cari_filter_in [OF k(1)] fr_saklar.IH by (simp add: pola_sah_def)
  then show ?case using k fr_saklar.IH set_ubah_filter [OF k(1)] ubah_filter_ids [of "\<lambda>f. f\<lparr>cf_enabled := b\<rparr>" i t] by auto
next
  case (fr_hapus t i t')
  then show ?case by (auto simp: delete_filter_def distinct_map_filter split: if_splits)
qed simp

section \<open>Properties\<close>

definition melanggar :: "(aturan_filter \<Rightarrow> string \<Rightarrow> bool) \<Rightarrow> bool \<Rightarrow> aturan_filter \<Rightarrow> subject \<Rightarrow> bool" where
  "melanggar habis penuh a s \<longleftrightarrow> melanggar_isi habis penuh a s \<or> melanggar_buta a s"

text \<open>C21. After a load a request or answer is refused exactly when an enabled, blocking rule of the table forbids
  it: a forbidden pattern only when it is known to match, a required one also when it is unknown whether
  it matches.  The rule named is the first by priority, name (in the collation of the database, any total preorder
  of strings) and id among those the content violates, and
  only if there is none, among those that a payload not readable as text violates.\<close>

theorem filter_verdict:
  assumes kol: "go_cmp kolasi" and nol: "mf_dimuat e = waktu_nol"
    and cek: "check_filter ttl kompilasi habis penuh (Some (Inr (active_filters kolasi tabel))) now s e = (e', v)"
  defines "aktif \<equiv> {f \<in> set tabel. cf_enabled f \<and> cf_action f \<noteq> action_warn}"
  shows "(vf_blocked v \<longleftrightarrow> (\<exists>f\<in>aktif. melanggar habis penuh (siapkan kompilasi f) s)) \<and>
    (\<forall>f. vf_filter v = Some f \<longrightarrow> f \<in> aktif \<and>
       (if \<exists>f\<in>aktif. melanggar_isi habis penuh (siapkan kompilasi f) s
        then melanggar_isi habis penuh (siapkan kompilasi f) s \<and>
             (\<forall>f'\<in>aktif. melanggar_isi habis penuh (siapkan kompilasi f') s \<longrightarrow> banding_filter kolasi f f' \<le> 0)
        else melanggar_buta (siapkan kompilasi f) s \<and>
             (\<forall>f'\<in>aktif. melanggar_buta (siapkan kompilasi f') s \<longrightarrow> banding_filter kolasi f f' \<le> 0)))"
proof -
  define as where "as = map (siapkan kompilasi) (active_filters kolasi tabel)"
  define P where "P a \<longleftrightarrow> melanggar_isi habis penuh a s \<and> memblokir a" for a
  define Q where "Q a \<longleftrightarrow> melanggar_buta a s \<and> memblokir a" for a
  have v: "v = check_rules habis penuh as s"
    using cek muat_filter_baru [OF nol, of ttl kompilasi "active_filters kolasi tabel" now] by (simp add: check_filter_def Let_def as_def)
  have srt: "sorted_wrt (\<lambda>a b. banding_filter kolasi (af_row a) (af_row b) \<le> 0) as"
    using active_filters_sorted [OF kol, of tabel] by (simp add: as_def sorted_wrt_map)
  have mem: "a \<in> set as \<and> memblokir a \<longleftrightarrow> (\<exists>f\<in>aktif. a = siapkan kompilasi f)" for a
    by (auto simp: as_def aktif_def active_filters_def memblokir_def)
  have refl: "banding_filter kolasi a a \<le> 0" for a using go_cmp.cmp_flip [OF banding_filter_cmp [OF kol], of a a] by linarith
  have ex: "(\<exists>a\<in>set as. P a) \<longleftrightarrow> (\<exists>f\<in>aktif. melanggar_isi habis penuh (siapkan kompilasi f) s)"
    using mem unfolding P_def by metis
  have eq: "(\<exists>a\<in>set as. Q a) \<longleftrightarrow> (\<exists>f\<in>aktif. melanggar_buta (siapkan kompilasi f) s)"
    using mem unfolding Q_def by metis
  have none: "List.find P as = None \<longleftrightarrow> \<not> (\<exists>a\<in>set as. P a)" "List.find Q as = None \<longleftrightarrow> \<not> (\<exists>a\<in>set as. Q a)"
    by (auto simp: find_None_iff)
  have vf: "vf_filter v = map_option af_row (case List.find P as of Some a \<Rightarrow> Some a | None \<Rightarrow> List.find Q as)"
    unfolding v P_def [abs_def] Q_def [abs_def] by (rule check_rules_find(1))
  have b: "vf_blocked v \<longleftrightarrow> (\<exists>f\<in>aktif. melanggar habis penuh (siapkan kompilasi f) s)"
    using check_rules_find(2) [of habis penuh as s] none ex eq vf unfolding v [symmetric] melanggar_def
    by (cases "List.find P as"; cases "List.find Q as") auto
  have least: "f \<in> aktif \<and> M (siapkan kompilasi f) \<and> (\<forall>f'\<in>aktif. M (siapkan kompilasi f') \<longrightarrow> banding_filter kolasi f f' \<le> 0)"
    if "List.find (\<lambda>a. M a \<and> memblokir a) as = Some a" "f = af_row a" for M a f
  proof -
    from find_least [OF that(1) srt refl] have a: "M a" "a \<in> set as" "memblokir a"
      "\<forall>y\<in>set as. M y \<and> memblokir y \<longrightarrow> banding_filter kolasi (af_row a) (af_row y) \<le> 0" by auto
    from a(2,3) mem obtain g where g: "g \<in> aktif" "a = siapkan kompilasi g" by blast
    then have f: "f = g" using that(2) by simp
    have "banding_filter kolasi f f' \<le> 0" if f': "f' \<in> aktif" "M (siapkan kompilasi f')" for f'
    proof -
      have "siapkan kompilasi f' \<in> set as \<and> memblokir (siapkan kompilasi f')" using mem f'(1) by blast
      with a(4) f'(2) g(2) f show ?thesis by fastforce
    qed
    with a(1) g f show ?thesis by blast
  qed
  show ?thesis
  proof (intro conjI b allI impI)
    fix f
    assume f: "vf_filter v = Some f"
    show "f \<in> aktif" using f vf least unfolding P_def [abs_def] Q_def [abs_def] by (auto split: option.splits)
    show "if \<exists>f\<in>aktif. melanggar_isi habis penuh (siapkan kompilasi f) s
        then melanggar_isi habis penuh (siapkan kompilasi f) s \<and>
             (\<forall>f'\<in>aktif. melanggar_isi habis penuh (siapkan kompilasi f') s \<longrightarrow> banding_filter kolasi f f' \<le> 0)
        else melanggar_buta (siapkan kompilasi f) s \<and>
             (\<forall>f'\<in>aktif. melanggar_buta (siapkan kompilasi f') s \<longrightarrow> banding_filter kolasi f f' \<le> 0)"
    proof (cases "List.find P as")
      case None
      then obtain a where "List.find Q as = Some a" "f = af_row a" using f vf by auto
      from least [OF this(1) [unfolded Q_def [abs_def]] this(2)] show ?thesis using None none ex by auto
    next
      case (Some a)
      then have "f = af_row a" using f vf by auto
      from least [OF Some [unfolded P_def [abs_def]] this] show ?thesis by auto
    qed
  qed
qed


text \<open>Two rules with a matcher that finds its expression as a plain text.\<close>

definition kompilasi_contoh :: "string \<Rightarrow> (string \<Rightarrow> bool) option" where
  "kompilasi_contoh pola = (if pola = ''('' then None else Some (\<lambda>teks. contains teks pola))"

definition filter_contoh :: "string \<Rightarrow> string \<Rightarrow> int \<Rightarrow> string \<Rightarrow> string \<Rightarrow> content_filter" where
  "filter_contoh i k p ptype pola = \<lparr>cf_id = i, cf_name = i, cf_description = [], cf_kind = k, cf_priority = p, cf_applies_to = [],
     cf_action = [], cf_pattern = pola, cf_pattern_type = ptype, cf_case_sensitive = True, cf_max_eval_ms = 0,
     cf_model_id = [], cf_provider_id = [], cf_max_request_bytes = None, cf_enabled = True\<rparr>"

definition subject_contoh :: subject where
  "subject_contoh = \<lparr>su_text = ''kata rahasia'', su_bytes = 12, su_tak_terperiksa = False, su_model_id = ''m1'', su_provider_id = [], su_response = False\<rparr>"

lemma filter_verdict_witness:
  "\<exists>e' v. check_filter 5 kompilasi_contoh (\<lambda>_ _. False) False
      (Some (Inr (active_filters cmp_compare [filter_contoh ''b'' filter_model_restriction 9 [] [], filter_contoh ''a'' filter_blocked_pattern 3 [] ''rahasia''])))
      7 subject_contoh new_filter_engine = (e', v) \<and> vf_blocked v \<and> vf_filter v = Some (filter_contoh ''a'' filter_blocked_pattern 3 [] ''rahasia'')"
proof -
  let ?f = "filter_contoh ''a'' filter_blocked_pattern 3 [] ''rahasia''"
  let ?t = "[filter_contoh ''b'' filter_model_restriction 9 [] [], ?f]"
  obtain e' v where eq: "check_filter 5 kompilasi_contoh (\<lambda>_ _. False) False (Some (Inr (active_filters cmp_compare ?t))) 7 subject_contoh new_filter_engine = (e', v)"
    by (meson surj_pair)
  have m: "melanggar_isi (\<lambda>_ _. False) False (siapkan kompilasi_contoh ?f) subject_contoh"
    by (simp add: melanggar_isi_def berlaku_arah_def diketahui_cocok_def cocok_pola_def siapkan_def filter_contoh_def subject_contoh_def
      jenis_filter_defs pattern_regex_def applies_to_request_def applies_to_response_def, code_simp)
  have le: "\<not> banding_filter cmp_compare (filter_contoh ''b'' filter_model_restriction 9 [] []) ?f \<le> 0" by code_simp
  have nol: "mf_dimuat new_filter_engine = waktu_nol" by (simp add: new_filter_engine_def)
  have akt: "?f \<in> {f \<in> set ?t. cf_enabled f \<and> cf_action f \<noteq> action_warn}" by (simp add: filter_contoh_def action_warn_def)
  note verdict = filter_verdict [OF kolasi_byte nol eq]
  have b: "vf_blocked v" unfolding verdict [THEN conjunct1] melanggar_def using m akt by blast
  then obtain f where f: "vf_filter v = Some f"
    using eq check_rules_find(2) by (auto simp: check_filter_def Let_def)
  have fs: "f \<in> set ?t \<and> banding_filter cmp_compare f ?f \<le> 0"
    using verdict [THEN conjunct2, rule_format, OF f] m akt by (metis (no_types, lifting) mem_Collect_eq)
  with m le have "f = ?f" by auto
  with eq b f show ?thesis by blast
qed

text \<open>However the table of filters is created, changed, switched and emptied, every rule over texts in it can be
  used: its expression compiles, so that an engine which loads it complains only of moderation rules.\<close>

theorem filter_table_usable:
  assumes "filter_run kompilasi t" and "mf_dimuat e = waktu_nol"
    and "muat_filter ttl kompilasi (Some (Inr (active_filters kolasi t))) now e = (e', baru)"
  shows "(\<forall>a\<in>set (mf_aturan e'). af_rusak a \<longrightarrow> cf_kind (af_row a) = filter_moderation) \<and>
    (\<forall>f\<in>set baru. cf_kind f = filter_moderation)"
proof -
  have a: "mf_aturan e' = map (siapkan kompilasi) (active_filters kolasi t)" using muat_filter_baru [OF assms(2)] assms(3) by (metis fst_conv)
  have ok: "cf_kind (af_row x) = filter_moderation" if "x \<in> set (mf_aturan e')" "af_rusak x" for x
    using that filter_run_sah [OF assms(1)] pola_sah_usable unfolding a active_filters_def by fastforce
  have "set (snd (keluhan_baru xs s)) \<subseteq> set xs" for xs s
  proof (induction xs rule: rev_induct)
    case (snoc x xs) then show ?case by (auto simp: keluhan_baru_def split: prod.splits)
  qed (simp add: keluhan_baru_def)
  moreover have "baru = snd (keluhan_baru (map af_row (filter af_rusak (mf_aturan e'))) (mf_dilaporkan e))"
    using assms(2,3) a by (auto simp: muat_filter_def Let_def split: prod.splits)
  ultimately have "set baru \<subseteq> af_row ` {x \<in> set (mf_aturan e'). af_rusak x}" by (metis (no_types) image_set list.set_map set_filter)
  with ok show ?thesis by blast
qed

lemma filter_table_usable_witness:
  "create_filter kompilasi_contoh ''x'' (filter_contoh [] filter_blocked_pattern 1 pattern_regex ''('') [] = Inl ErrFilterPola \<and>
   list_all (\<lambda>a. \<not> af_rusak a) (mf_aturan (fst (muat_filter 5 kompilasi_contoh
      (Some (Inr (active_filters cmp_compare [(filter_contoh ''x'' filter_blocked_pattern 1 pattern_regex ''a'')\<lparr>cf_applies_to := applies_to_request, cf_action := ''block'', cf_max_eval_ms := 50\<rparr>])))
      7 new_filter_engine)))"
proof -
  let ?f = "(filter_contoh ''x'' filter_blocked_pattern 1 pattern_regex ''a'')\<lparr>cf_applies_to := applies_to_request, cf_action := ''block'', cf_max_eval_ms := 50\<rparr>"
  have c: "create_filter kompilasi_contoh ''x'' (filter_contoh ''x'' filter_blocked_pattern 1 pattern_regex ''a'') [] = Inr ([?f], ?f)"
    by (simp add: create_filter_def Let_def referensi_ok_def filter_contoh_def validasi_pola_regex_def kompilasi_contoh_def)
  have r: "filter_run kompilasi_contoh [?f]" by (rule fr_buat [OF fr_kosong _ c]) simp
  obtain e' baru where m: "muat_filter 5 kompilasi_contoh (Some (Inr (active_filters cmp_compare [?f]))) 7 new_filter_engine = (e', baru)" by (meson surj_pair)
  have k: "cf_kind (af_row a) = filter_blocked_pattern" if "a \<in> set (mf_aturan e')" for a
    using that muat_filter_baru [of new_filter_engine 5 kompilasi_contoh "active_filters cmp_compare [?f]" 7] m
    by (auto simp: new_filter_engine_def active_filters_def filter_contoh_def)
  have "\<not> af_rusak a" if "a \<in> set (mf_aturan e')" for a
    using filter_table_usable [OF r _ m] k [OF that] that jenis_filter_beda by (auto simp: new_filter_engine_def)
  moreover have "create_filter kompilasi_contoh ''x'' (filter_contoh [] filter_blocked_pattern 1 pattern_regex ''('') [] = Inl ErrFilterPola"
    by (simp add: create_filter_def Let_def referensi_ok_def filter_contoh_def validasi_pola_regex_def kompilasi_contoh_def)
  ultimately show ?thesis unfolding m by (simp add: list_all_iff)
qed

end
