(* ===== verification/State_Logic.thy ===== *)
theory State_Logic
  imports Prelude "HOL-Library.State_Monad"
begin

text \<open>
  Programs that thread a state through many calls, as the request path of \<^verbatim>\<open>internal/gateway\<close> does: the
  library's state monad with three small logics for it.  \<open>terjamin P m Q\<close> is a Hoare triple; \<open>tetap I f m\<close>
  says that \<open>m\<close> keeps \<open>I\<close> and, under it, leaves the part \<open>f\<close> of the state alone; \<open>selalu m Q\<close> that every
  result of \<open>m\<close> has \<open>Q\<close>, whatever the state.
\<close>

named_theorems tetap_rules \<open>programs that leave a part of the state alone\<close>
named_theorems selalu_rules \<open>results that hold in every state\<close>
named_theorems terjamin_rules \<open>triples of the monad's constructs\<close>

type_synonym ('g, 'a) aksi = "('g, 'a) State_Monad.state"

definition aksi :: "('g \<Rightarrow> 'a \<times> 'g) \<Rightarrow> ('g, 'a) aksi" where
  "aksi f = State f"

definition baca_g :: "('g \<Rightarrow> 'a) \<Rightarrow> ('g, 'a) aksi" where
  "baca_g f = aksi (\<lambda>g. (f g, g))"

definition ubah_g :: "('g \<Rightarrow> 'g) \<Rightarrow> ('g, unit) aksi" where
  "ubah_g f = aksi (\<lambda>g. ((), f g))"

abbreviation kembali :: "'a \<Rightarrow> ('g, 'a) aksi" where
  "kembali \<equiv> State_Monad.return"

lemma run_aksi [simp]:
  "run_state (aksi f) g = f g" "run_state (baca_g h) g = (h g, g)" "run_state (ubah_g u) g = ((), u g)"
  by (simp_all add: aksi_def baca_g_def ubah_g_def)

section \<open>Frames\<close>

definition tetap :: "('g \<Rightarrow> bool) \<Rightarrow> ('g \<Rightarrow> 'c) \<Rightarrow> ('g, 'a) aksi \<Rightarrow> bool" where
  "tetap I f m \<longleftrightarrow> (\<forall>g. I g \<longrightarrow> I (snd (run_state m g)) \<and> f (snd (run_state m g)) = f g)"

lemma tetapD: "tetap I f m \<Longrightarrow> I g \<Longrightarrow> run_state m g = (a, g') \<Longrightarrow> I g' \<and> f g' = f g"
  by (metis tetap_def snd_conv)

lemma tetap_return [tetap_rules]: "tetap I f (kembali a)"
  by (simp add: tetap_def)

lemma tetap_baca [tetap_rules]: "tetap I f (baca_g h)"
  by (simp add: tetap_def)

lemma tetap_ubah: "(\<And>g. I g \<Longrightarrow> I (u g) \<and> f (u g) = f g) \<Longrightarrow> tetap I f (ubah_g u)"
  by (simp add: tetap_def)

lemma tetap_aksi: "(\<And>g. I g \<Longrightarrow> I (snd (h g)) \<and> f (snd (h g)) = f g) \<Longrightarrow> tetap I f (aksi h)"
  by (simp add: tetap_def)

lemma tetap_bind [tetap_rules]: "tetap I f m \<Longrightarrow> (\<And>a. tetap I f (k a)) \<Longrightarrow> tetap I f (State_Monad.bind m k)"
  by (simp add: tetap_def split_beta)

lemma tetap_if [tetap_rules]: "(b \<Longrightarrow> tetap I f m) \<Longrightarrow> (\<not> b \<Longrightarrow> tetap I f n) \<Longrightarrow> tetap I f (if b then m else n)"
  by simp

lemma tetap_option [tetap_rules]:
  "(x = None \<Longrightarrow> tetap I f m) \<Longrightarrow> (\<And>a. x = Some a \<Longrightarrow> tetap I f (k a)) \<Longrightarrow> tetap I f (case x of None \<Rightarrow> m | Some a \<Rightarrow> k a)"
  by (cases x) auto

lemma tetap_sum [tetap_rules]:
  "(\<And>a. x = Inl a \<Longrightarrow> tetap I f (m a)) \<Longrightarrow> (\<And>a. x = Inr a \<Longrightarrow> tetap I f (k a)) \<Longrightarrow> tetap I f (case x of Inl a \<Rightarrow> m a | Inr a \<Rightarrow> k a)"
  by (cases x) auto

lemma tetap_prod [tetap_rules]: "(\<And>a b. x = (a, b) \<Longrightarrow> tetap I f (k a b)) \<Longrightarrow> tetap I f (case x of (a, b) \<Rightarrow> k a b)"
  by (cases x) auto

lemma tetap_let [tetap_rules]: "tetap I f (k x) \<Longrightarrow> tetap I f (let a = x in k a)"
  by simp

section \<open>Triples\<close>

definition terjamin :: "('g \<Rightarrow> bool) \<Rightarrow> ('g, 'a) aksi \<Rightarrow> ('a \<Rightarrow> 'g \<Rightarrow> bool) \<Rightarrow> bool" where
  "terjamin P m Q \<longleftrightarrow> (\<forall>g. P g \<longrightarrow> (case run_state m g of (a, g') \<Rightarrow> Q a g'))"

lemma terjaminI: "(\<And>g a g'. P g \<Longrightarrow> run_state m g = (a, g') \<Longrightarrow> Q a g') \<Longrightarrow> terjamin P m Q"
  by (simp add: terjamin_def split_beta)

lemma terjaminD: "terjamin P m Q \<Longrightarrow> P g \<Longrightarrow> run_state m g = (a, g') \<Longrightarrow> Q a g'"
  by (auto simp: terjamin_def)

lemma terjamin_pre: "terjamin P m Q \<Longrightarrow> (\<And>g. P' g \<Longrightarrow> P g) \<Longrightarrow> terjamin P' m Q"
  by (simp add: terjamin_def)

lemma terjamin_post: "terjamin P m Q \<Longrightarrow> (\<And>a g. Q a g \<Longrightarrow> Q' a g) \<Longrightarrow> terjamin P m Q'"
  by (fastforce simp: terjamin_def split_beta)

lemma terjamin_return [terjamin_rules]: "(\<And>g. P g \<Longrightarrow> Q a g) \<Longrightarrow> terjamin P (kembali a) Q"
  by (simp add: terjamin_def)

lemma terjamin_baca: "(\<And>g. P g \<Longrightarrow> Q (h g) g) \<Longrightarrow> terjamin P (baca_g h) Q"
  by (simp add: terjamin_def)

lemma terjamin_bind: "terjamin P m R \<Longrightarrow> (\<And>a. terjamin (R a) (k a) Q) \<Longrightarrow> terjamin P (State_Monad.bind m k) Q"
  by (fastforce simp: terjamin_def split_beta)

lemma terjamin_if [terjamin_rules]:
  "(b \<Longrightarrow> terjamin P m Q) \<Longrightarrow> (\<not> b \<Longrightarrow> terjamin P n Q) \<Longrightarrow> terjamin P (if b then m else n) Q"
  by simp

lemma terjamin_option [terjamin_rules]:
  "(x = None \<Longrightarrow> terjamin P m Q) \<Longrightarrow> (\<And>a. x = Some a \<Longrightarrow> terjamin P (k a) Q) \<Longrightarrow>
     terjamin P (case x of None \<Rightarrow> m | Some a \<Rightarrow> k a) Q"
  by (cases x) auto

lemma terjamin_sum [terjamin_rules]:
  "(\<And>a. x = Inl a \<Longrightarrow> terjamin P (m a) Q) \<Longrightarrow> (\<And>a. x = Inr a \<Longrightarrow> terjamin P (k a) Q) \<Longrightarrow>
     terjamin P (case x of Inl a \<Rightarrow> m a | Inr a \<Rightarrow> k a) Q"
  by (cases x) auto

lemma terjamin_prod [terjamin_rules]:
  "(\<And>a b. x = (a, b) \<Longrightarrow> terjamin P (k a b) Q) \<Longrightarrow> terjamin P (case x of (a, b) \<Rightarrow> k a b) Q"
  by (cases x) auto

lemma terjamin_let [terjamin_rules]: "terjamin P (k x) Q \<Longrightarrow> terjamin P (let a = x in k a) Q"
  by simp

text \<open>A program that keeps a part of the state keeps every invariant over that part.\<close>

lemma terjamin_tetap: "tetap I f m \<Longrightarrow> terjamin (\<lambda>g. I g \<and> J (f g)) m (\<lambda>_ g. I g \<and> J (f g))"
  by (auto simp: terjamin_def tetap_def split_beta)

lemma terjamin_tetap_bind:
  "tetap I f m \<Longrightarrow> (\<And>a. terjamin (\<lambda>g. I g \<and> J (f g)) (k a) Q) \<Longrightarrow> terjamin (\<lambda>g. I g \<and> J (f g)) (State_Monad.bind m k) Q"
  by (blast intro: terjamin_bind terjamin_tetap)

section \<open>Results\<close>

definition selalu :: "('g, 'a) aksi \<Rightarrow> ('a \<Rightarrow> bool) \<Rightarrow> bool" where
  "selalu m Q \<longleftrightarrow> (\<forall>g. Q (fst (run_state m g)))"

lemma selaluD: "selalu m Q \<Longrightarrow> run_state m g = (a, g') \<Longrightarrow> Q a"
  by (metis selalu_def fst_conv)

lemma selalu_return [selalu_rules]: "Q a \<Longrightarrow> selalu (kembali a) Q"
  by (simp add: selalu_def)

lemma selalu_bind: "selalu m R \<Longrightarrow> (\<And>a. R a \<Longrightarrow> selalu (k a) Q) \<Longrightarrow> selalu (State_Monad.bind m k) Q"
  by (simp add: selalu_def split_beta)

lemma selalu_abaikan: "(\<And>a. selalu (k a) Q) \<Longrightarrow> selalu (State_Monad.bind m k) Q"
  by (simp add: selalu_def split_beta)

lemma selalu_post: "selalu m R \<Longrightarrow> (\<And>a. R a \<Longrightarrow> Q a) \<Longrightarrow> selalu m Q"
  by (simp add: selalu_def)

lemma selalu_if [selalu_rules]: "(b \<Longrightarrow> selalu m Q) \<Longrightarrow> (\<not> b \<Longrightarrow> selalu n Q) \<Longrightarrow> selalu (if b then m else n) Q"
  by simp

lemma selalu_option [selalu_rules]:
  "(x = None \<Longrightarrow> selalu m Q) \<Longrightarrow> (\<And>a. x = Some a \<Longrightarrow> selalu (k a) Q) \<Longrightarrow> selalu (case x of None \<Rightarrow> m | Some a \<Rightarrow> k a) Q"
  by (cases x) auto

lemma selalu_sum [selalu_rules]:
  "(\<And>a. x = Inl a \<Longrightarrow> selalu (m a) Q) \<Longrightarrow> (\<And>a. x = Inr a \<Longrightarrow> selalu (k a) Q) \<Longrightarrow> selalu (case x of Inl a \<Rightarrow> m a | Inr a \<Rightarrow> k a) Q"
  by (cases x) auto

lemma selalu_prod [selalu_rules]: "(\<And>a b. x = (a, b) \<Longrightarrow> selalu (k a b) Q) \<Longrightarrow> selalu (case x of (a, b) \<Rightarrow> k a b) Q"
  by (cases x) auto

end
