(* ===== verification/Request_Guard.thy ===== *)
theory Request_Guard
  imports Complex_Main State_Logic Rate_Policy Billing Content_Filter Route_Engine Provider_Errors
begin

text \<open>
  The guard of the request path, \<^verbatim>\<open>internal/gateway/guard.go\<close>: what it asks of the content filter, the
  limiter, the rate policy and the budgets, in the state monad over everything that one request
  shares with others.  What comes from outside, one answer per call, is a function of the number of
  the call: the clock, the Redis scripts, the rows read from the database.  A context is the
  addresses of the pointers it carries.  Logs, metrics and the payloads of webhook events beyond
  their subject are not modelled; the receiver and the API key are present.
\<close>

section \<open>State\<close>

text \<open>\<^verbatim>\<open>tandaKuotaModel\<close>: per model the increments not given back yet and their times.\<close>

record tanda_kuota =
  tk_jumlah :: "string \<Rightarrow> int"
  tk_jangkar :: "string \<Rightarrow> waktu list"
  tk_kunci :: "string list"

definition tanda_baru :: tanda_kuota where
  "tanda_baru = \<lparr>tk_jumlah = (\<lambda>_. 0), tk_jangkar = (\<lambda>_. []), tk_kunci = []\<rparr>"

definition tambah :: "string \<Rightarrow> waktu \<Rightarrow> tanda_kuota \<Rightarrow> tanda_kuota" where
  "tambah i jangkar t = t\<lparr>tk_jumlah := (tk_jumlah t)(i := tk_jumlah t i + 1),
     tk_jangkar := (tk_jangkar t)(i := tk_jangkar t i @ [jangkar]),
     tk_kunci := (if i \<in> set (tk_kunci t) then tk_kunci t else tk_kunci t @ [i])\<rparr>"

text \<open>\<^verbatim>\<open>klaim\<close> indexes the list of times without looking at its length: an empty one panics.\<close>

datatype klaim_hasil = KlaimKosong | Klaim waktu tanda_kuota | KlaimPanik

definition klaim :: "string \<Rightarrow> tanda_kuota \<Rightarrow> klaim_hasil" where
  "klaim i t =
     (if tk_jumlah t i \<le> 0 then KlaimKosong
      else case tk_jangkar t i of
             [] \<Rightarrow> KlaimPanik
           | j # js \<Rightarrow> Klaim j (t\<lparr>tk_jumlah := (tk_jumlah t)(i := tk_jumlah t i - 1), tk_jangkar := (tk_jangkar t)(i := js)\<rparr>))"

definition terdaftar :: "tanda_kuota \<Rightarrow> string list" where
  "terdaftar t = sort (filter (\<lambda>i. 0 < tk_jumlah t i) (tk_kunci t))"

record entri_memo =
  em_err :: "perror option"
  em_sampai :: waktu

text \<open>What a context of a request carries: the anchor of \<^verbatim>\<open>Limit\<close>, and the addresses of the marks and the memo.\<close>

record konteks =
  kx_jangkar :: "waktu option"
  kx_tanda :: "nat option"
  kx_memo :: "nat option"

definition konteks_kosong :: konteks where
  "konteks_kosong = \<lparr>kx_jangkar = None, kx_tanda = None, kx_memo = None\<rparr>"

text \<open>The shared state, with the number of calls to the outside so far.\<close>

record ('r, 's) gerbang =
  gb_n :: nat
  gb_redis :: 'r
  gb_rates :: rate_engine
  gb_filters :: mesin_filter
  gb_budgets :: enforcer
  gb_penanda :: 's
  gb_peristiwa :: "(string \<times> string) list"
  gb_tanda :: "tanda_kuota list"
  gb_memo :: "(string \<times> entri_memo) list list"
  gb_engine :: engine

text \<open>\<^verbatim>\<open>Guard\<close> and what the outside answers to call number \<open>n\<close>.\<close>

record ('r, 's) guard =
  gu_R :: "'r counters"
  gu_P :: "'s penanda"
  gu_filters :: bool
  gu_budgets :: bool
  gu_rates :: bool
  gu_limiter :: "limiter option"
  gu_webhooks :: bool
  gu_jam :: "nat \<Rightarrow> waktu"
  gu_skrip :: "nat \<Rightarrow> panggilan"
  gu_batas :: "nat \<Rightarrow> rate_limit_row baris_kebijakan"
  gu_filter :: "nat \<Rightarrow> content_filter baris_kebijakan"
  gu_anggaran :: "nat \<Rightarrow> budget baris_kebijakan"
  gu_kompilasi :: "string \<Rightarrow> (string \<Rightarrow> bool) option"
  gu_habis :: "nat \<Rightarrow> aturan_filter \<Rightarrow> string \<Rightarrow> bool"
  gu_penuh :: "nat \<Rightarrow> bool"

record pemohon =
  ph_key :: key_row
  ph_owner :: string

section \<open>The calls of the guard\<close>

definition dengan :: "(nat \<Rightarrow> ('r, 's) gerbang \<Rightarrow> 'a \<times> ('r, 's) gerbang) \<Rightarrow> (('r, 's) gerbang, 'a) aksi" where
  "dengan f = aksi (\<lambda>g. f (gb_n g) (g\<lparr>gb_n := Suc (gb_n g)\<rparr>))"

definition jam_kini :: "('r, 's) guard \<Rightarrow> (('r, 's) gerbang, waktu) aksi" where
  "jam_kini G = dengan (\<lambda>n g. (gu_jam G n, g))"

definition minta_batas :: "('r, 's) guard \<Rightarrow> target list \<Rightarrow> limits \<Rightarrow> (('r, 's) gerbang, scope_limits list) aksi" where
  "minta_batas G targets key_limits = dengan (\<lambda>n g.
     case requests default_rate_ttl (gu_batas G n) (gu_jam G n) targets key_limits (gb_rates g) of
       (e, scopes) \<Rightarrow> (scopes, g\<lparr>gb_rates := e\<rparr>))"

definition minta_batas_token ::
    "('r, 's) guard \<Rightarrow> target list \<Rightarrow> token_limits \<Rightarrow> (('r, 's) gerbang, scope_token_limits list) aksi" where
  "minta_batas_token G targets key_limits = dengan (\<lambda>n g.
     case tokens default_rate_ttl (gu_batas G n) (gu_jam G n) targets key_limits (gb_rates g) of
       (e, scopes) \<Rightarrow> (scopes, g\<lparr>gb_rates := e\<rparr>))"

text \<open>\<^verbatim>\<open>AllowScopesAt\<close>, \<^verbatim>\<open>AllowScopes\<close>, \<^verbatim>\<open>TokensExceededScopes\<close>, \<^verbatim>\<open>RecordTokensScopes\<close>, \<^verbatim>\<open>RefundScopesAt\<close>.\<close>

definition izinkan_pada :: "('r, 's) guard \<Rightarrow> limiter \<Rightarrow> scope_limits list \<Rightarrow> waktu \<Rightarrow> (('r, 's) gerbang, keputusan) aksi" where
  "izinkan_pada G l scopes now = dengan (\<lambda>n g.
     case allow_scopes_at (gu_R G) (gu_skrip G n) l scopes now (gb_redis g) of (r, d) \<Rightarrow> (d, g\<lparr>gb_redis := r\<rparr>))"

definition izinkan_cakupan :: "('r, 's) guard \<Rightarrow> limiter \<Rightarrow> scope_limits list \<Rightarrow> (('r, 's) gerbang, keputusan) aksi" where
  "izinkan_cakupan G l scopes = do { now \<leftarrow> jam_kini G; izinkan_pada G l scopes now }"

definition token_terlampaui :: "('r, 's) guard \<Rightarrow> limiter \<Rightarrow> scope_token_limits list \<Rightarrow> (('r, 's) gerbang, keputusan) aksi" where
  "token_terlampaui G l scopes = do {
     now \<leftarrow> jam_kini G;
     dengan (\<lambda>n g. case tokens_exceeded_scopes (gu_R G) (gu_skrip G n) l scopes now (gb_redis g) of
       (r, d) \<Rightarrow> (d, g\<lparr>gb_redis := r\<rparr>)) }"

definition catat_cakupan_token ::
    "('r, 's) guard \<Rightarrow> limiter \<Rightarrow> scope_token_limits list \<Rightarrow> int \<Rightarrow> (('r, 's) gerbang, keputusan) aksi" where
  "catat_cakupan_token G l scopes n_token = do {
     now \<leftarrow> jam_kini G;
     dengan (\<lambda>n g. case record_tokens_scopes (gu_R G) (gu_skrip G n) l scopes n_token now (gb_redis g) of
       (r, d) \<Rightarrow> (d, g\<lparr>gb_redis := r\<rparr>)) }"

definition kembalikan_pada :: "('r, 's) guard \<Rightarrow> limiter \<Rightarrow> scope_limits list \<Rightarrow> waktu \<Rightarrow> (('r, 's) gerbang, unit) aksi" where
  "kembalikan_pada G l scopes now = dengan (\<lambda>n g.
     ((), g\<lparr>gb_redis := refund_scopes_at (gu_R G) (gu_skrip G n) l scopes now (gb_redis g)\<rparr>))"

definition periksa_isi :: "('r, 's) guard \<Rightarrow> subject \<Rightarrow> (('r, 's) gerbang, verdict_filter) aksi" where
  "periksa_isi G s = dengan (\<lambda>n g.
     case check_filter default_filter_ttl (gu_kompilasi G) (gu_habis G n) (gu_penuh G n) (gu_filter G n) (gu_jam G n) s (gb_filters g) of
       (e, v) \<Rightarrow> (v, g\<lparr>gb_filters := e\<rparr>))"

definition cek_anggaran :: "('r, 's) guard \<Rightarrow> target list \<Rightarrow> (('r, 's) gerbang, verdict) aksi" where
  "cek_anggaran G targets = dengan (\<lambda>n g.
     case check (gu_anggaran G n) (gu_jam G n) targets (gb_budgets g) of (e, v) \<Rightarrow> (v, g\<lparr>gb_budgets := e\<rparr>))"

definition tahan_anggaran :: "('r, 's) guard \<Rightarrow> target list \<Rightarrow> usd \<Rightarrow> (('r, 's) gerbang, verdict) aksi" where
  "tahan_anggaran G targets estimasi = dengan (\<lambda>n g.
     case tahan (gu_anggaran G n) (gu_jam G n) targets estimasi (gb_budgets g) of (e, v) \<Rightarrow> (v, g\<lparr>gb_budgets := e\<rparr>))"

definition umumkan_anggaran :: "('r, 's) guard \<Rightarrow> verdict \<Rightarrow> (('r, 's) gerbang, unit) aksi" where
  "umumkan_anggaran G v =
     (if vd_alerts v = [] then kembali ()
      else dengan (\<lambda>n g. case announce (gu_P G) (vd_alerts v) (gb_penanda g) (gb_budgets g) of
        (s, ev, e) \<Rightarrow> ((), g\<lparr>gb_penanda := s, gb_peristiwa := gb_peristiwa g @ ev, gb_budgets := e\<rparr>)))"

text \<open>\<^verbatim>\<open>pancarkan\<close>: the event and its subject; a failure to enqueue is only logged.\<close>

definition pancarkan :: "('r, 's) guard \<Rightarrow> string \<Rightarrow> string \<Rightarrow> (('r, 's) gerbang, unit) aksi" where
  "pancarkan G ev subjek =
     (if \<not> gu_webhooks G then kembali ()
      else dengan (\<lambda>n g. ((), g\<lparr>gb_peristiwa := gb_peristiwa g @ [(ev, subjek)]\<rparr>)))"

section \<open>Rejections\<close>

record rejection =
  rj_status :: int
  rj_type :: string
  rj_code :: string
  rj_message :: string
  rj_retry_after :: durasi
  rj_headers :: "keputusan option"

definition tolakan :: "int \<Rightarrow> string \<Rightarrow> string \<Rightarrow> string \<Rightarrow> rejection" where
  "tolakan status tipe kode pesan = \<lparr>rj_status = status, rj_type = tipe, rj_code = kode, rj_message = pesan,
     rj_retry_after = 0, rj_headers = None\<rparr>"

definition err_invalid_request :: string where "err_invalid_request = ''invalid_request_error''"
definition err_permission :: string where "err_permission = ''permission_error''"
definition err_rate_limit :: string where "err_rate_limit = ''rate_limit_error''"
definition err_api :: string where "err_api = ''api_error''"

definition kutip_kebijakan :: "string \<Rightarrow> string" where
  "kutip_kebijakan v = CHR 0x22 # (if 80 < length v then take 80 v @ [CHR 0xE2, CHR 0x80, CHR 0xA6] else v) @ [CHR 0x22]"

definition rejection_batas :: "keputusan \<Rightarrow> string \<Rightarrow> rejection" where
  "rejection_batas d pesan = (tolakan 429 err_rate_limit ''rate_limit_exceeded'' pesan)\<lparr>rj_retry_after := kp_retry_after d, rj_headers := Some d\<rparr>"

section \<open>Content\<close>

definition saring :: "('r, 's) guard \<Rightarrow> subject \<Rightarrow> (('r, 's) gerbang, rejection option) aksi" where
  "saring G s = do {
     v \<leftarrow> periksa_isi G s;
     case vf_filter v of
       None \<Rightarrow> kembali None
     | Some f \<Rightarrow>
         if \<not> vf_blocked v then kembali None
         else if cf_kind f = filter_request_size
         then kembali (Some (tolakan 413 err_invalid_request ''payload_too_large'' (vf_reason v)))
         else do {
           _ \<leftarrow> pancarkan G ''content.blocked'' (cf_name f);
           kembali (Some (tolakan 400 err_invalid_request ''content_filter'' (vf_reason v))) } }"

definition saring_permintaan :: "('r, 's) guard \<Rightarrow> subject \<Rightarrow> (('r, 's) gerbang, rejection option) aksi" where
  "saring_permintaan G s = (if \<not> gu_filters G then kembali None else saring G (s\<lparr>su_response := False\<rparr>))"

definition subject_kosong :: subject where
  "subject_kosong = \<lparr>su_text = [], su_bytes = 0, su_tak_terperiksa = False, su_model_id = [], su_provider_id = [], su_response = False\<rparr>"

definition saring_jawaban :: "('r, 's) guard \<Rightarrow> string \<Rightarrow> string \<Rightarrow> string \<Rightarrow> (('r, 's) gerbang, rejection option) aksi" where
  "saring_jawaban G teks model_id provider_id =
     (if \<not> gu_filters G \<or> teks = [] then kembali None
      else saring G (subject_kosong\<lparr>su_text := teks, su_model_id := model_id, su_provider_id := provider_id, su_response := True\<rparr>))"

definition provider_dilarang :: "('r, 's) guard \<Rightarrow> string \<Rightarrow> (('r, 's) gerbang, bool) aksi" where
  "provider_dilarang G provider_id =
     (if \<not> gu_filters G \<or> provider_id = [] then kembali False
      else do { v \<leftarrow> periksa_isi G (subject_kosong\<lparr>su_provider_id := provider_id\<rparr>); kembali (vf_blocked v) })"

section \<open>Budgets\<close>

definition penolakan_anggaran :: "verdict \<Rightarrow> rejection" where
  "penolakan_anggaran v = tolakan 402 err_api ''budget_exceeded''
     (''anggaran '' @ kutip_kebijakan (case vd_budget v of Some b \<Rightarrow> bu_name b | None \<Rightarrow> []) @ '' untuk periode ini sudah habis'')"

definition periksa_anggaran :: "('r, 's) guard \<Rightarrow> target list \<Rightarrow> (('r, 's) gerbang, rejection option) aksi" where
  "periksa_anggaran G targets =
     (if \<not> gu_budgets G then kembali None
      else do {
        v \<leftarrow> cek_anggaran G targets;
        _ \<leftarrow> umumkan_anggaran G v;
        kembali (if \<not> vd_blocked v then None else Some (penolakan_anggaran v)) })"

definition periksa_anggaran_dengan_reservasi ::
    "('r, 's) guard \<Rightarrow> target list \<Rightarrow> usd \<Rightarrow> (('r, 's) gerbang, rejection option) aksi" where
  "periksa_anggaran_dengan_reservasi G targets estimasi =
     (if \<not> gu_budgets G then kembali None
      else if estimasi \<le> 0 then periksa_anggaran G targets
      else do {
        v \<leftarrow> tahan_anggaran G targets estimasi;
        _ \<leftarrow> umumkan_anggaran G v;
        kembali (if \<not> vd_blocked v then None else Some (penolakan_anggaran v)) })"

definition provider_anggaran_habis :: "('r, 's) guard \<Rightarrow> string \<Rightarrow> (('r, 's) gerbang, bool) aksi" where
  "provider_anggaran_habis G provider_id =
     (if \<not> gu_budgets G \<or> provider_id = [] then kembali False
      else do {
        v \<leftarrow> cek_anggaran G [\<lparr>tg_scope = ps_provider, tg_id = provider_id\<rparr>];
        _ \<leftarrow> umumkan_anggaran G v;
        kembali (vd_blocked v) })"

section \<open>Limits per model and their marks\<close>

definition tanda_di :: "konteks \<Rightarrow> ('r, 's) gerbang \<Rightarrow> tanda_kuota option" where
  "tanda_di ctx g = map_option (\<lambda>a. gb_tanda g ! a) (kx_tanda ctx)"

definition tanam_tanda :: "string \<Rightarrow> waktu \<Rightarrow> konteks \<Rightarrow> (('r, 's) gerbang, konteks) aksi" where
  "tanam_tanda i jangkar ctx =
     (if i = [] then kembali ctx
      else case kx_tanda ctx of
        Some a \<Rightarrow> aksi (\<lambda>g. (ctx, g\<lparr>gb_tanda := (gb_tanda g)[a := tambah i jangkar (gb_tanda g ! a)]\<rparr>))
      | None \<Rightarrow> aksi (\<lambda>g. (ctx\<lparr>kx_tanda := Some (length (gb_tanda g))\<rparr>, g\<lparr>gb_tanda := gb_tanda g @ [tambah i jangkar tanda_baru]\<rparr>)))"

definition semua_kuota_model_terbakar :: "konteks \<Rightarrow> (('r, 's) gerbang, string list) aksi" where
  "semua_kuota_model_terbakar ctx =
     baca_g (\<lambda>g. case tanda_di ctx g of None \<Rightarrow> [] | Some t \<Rightarrow> terdaftar t)"

text \<open>\<^verbatim>\<open>klaim\<close> on the shared mark; a panic has no result.\<close>

definition klaim_di :: "konteks \<Rightarrow> string \<Rightarrow> (('r, 's) gerbang, waktu option option) aksi" where
  "klaim_di ctx i =
     (case kx_tanda ctx of
        None \<Rightarrow> kembali (Some None)
      | Some a \<Rightarrow> aksi (\<lambda>g. case klaim i (gb_tanda g ! a) of
            KlaimKosong \<Rightarrow> (Some None, g)
          | Klaim j t \<Rightarrow> (Some (Some j), g\<lparr>gb_tanda := (gb_tanda g)[a := t]\<rparr>)
          | KlaimPanik \<Rightarrow> (None, g)))"

definition limits_kosong :: limits where
  "limits_kosong = \<lparr>li_rps = 0, li_rpm = 0, li_daily = 0, li_monthly = 0\<rparr>"

definition kembalikan_satu_kuota_model :: "('r, 's) guard \<Rightarrow> konteks \<Rightarrow> string \<Rightarrow> (('r, 's) gerbang, bool) aksi" where
  "kembalikan_satu_kuota_model G ctx i =
     (case gu_limiter G of
        None \<Rightarrow> kembali False
      | Some l \<Rightarrow>
          if \<not> gu_rates G \<or> i = [] then kembali False
          else do {
            k \<leftarrow> klaim_di ctx i;
            case k of
              Some (Some jangkar) \<Rightarrow> do {
                scopes \<leftarrow> minta_batas G [\<lparr>tg_scope = ps_model, tg_id = i\<rparr>] limits_kosong;
                _ \<leftarrow> kembalikan_pada G l scopes jangkar;
                kembali True }
            | _ \<Rightarrow> kembali False })"

definition kembalikan_kuota_model :: "('r, 's) guard \<Rightarrow> konteks \<Rightarrow> string \<Rightarrow> (('r, 's) gerbang, unit) aksi" where
  "kembalikan_kuota_model G ctx i = do { _ \<leftarrow> kembalikan_satu_kuota_model G ctx i; kembali () }"

text \<open>The inner loop of \<^verbatim>\<open>KembalikanKuota\<close>, with as many rounds as there are increments and one more.\<close>

fun kembalikan_berulang :: "('r, 's) guard \<Rightarrow> konteks \<Rightarrow> string \<Rightarrow> nat \<Rightarrow> (('r, 's) gerbang, unit) aksi" where
  "kembalikan_berulang G ctx i 0 = kembali ()"
| "kembalikan_berulang G ctx i (Suc n) = do {
     ada \<leftarrow> kembalikan_satu_kuota_model G ctx i;
     if ada then kembalikan_berulang G ctx i n else kembali () }"

fun kembalikan_semua :: "('r, 's) guard \<Rightarrow> konteks \<Rightarrow> string list \<Rightarrow> (('r, 's) gerbang, unit) aksi" where
  "kembalikan_semua G ctx [] = kembali ()"
| "kembalikan_semua G ctx (i # is) = do {
     n \<leftarrow> baca_g (\<lambda>g. case tanda_di ctx g of None \<Rightarrow> 0 | Some t \<Rightarrow> nat (tk_jumlah t i));
     _ \<leftarrow> kembalikan_berulang G ctx i (Suc n);
     kembalikan_semua G ctx is }"

text \<open>
  The resolver that \<^verbatim>\<open>main.go\<close> gives the limiter: the policy's limits of the key, its owner, the
  address and the whole gateway.  \<open>batas_permintaan\<close> is the middleware \<^verbatim>\<open>Limit\<close> around the handlers.
\<close>

definition resolver :: "('r, 's) guard \<Rightarrow> pemohon \<Rightarrow> string option \<Rightarrow> (('r, 's) gerbang, scope_limits list) aksi" where
  "resolver G p ip = minta_batas G (targets_for (ky_id (ph_key p)) (ph_owner p) [] ip) (limits_from_key (Some (ph_key p)))"

definition batas_permintaan ::
    "('r, 's) guard \<Rightarrow> limiter \<Rightarrow> pemohon \<Rightarrow> string option \<Rightarrow> (('r, 's) gerbang, hasil_limit) aksi" where
  "batas_permintaan G l p ip = do {
     jangkar \<leftarrow> jam_kini G;
     scopes \<leftarrow> resolver G p ip;
     dengan (\<lambda>n g.
       case limit_middleware (gu_R G) (gu_skrip G n) (l\<lparr>lm_resolver := Some (\<lambda>_ _. scopes)\<rparr>) (Some (ph_key p)) ip jangkar (gb_redis g) of
         (r, h) \<Rightarrow> (h, g\<lparr>gb_redis := r\<rparr>)) }"

definition kembalikan_permintaan ::
    "('r, 's) guard \<Rightarrow> limiter \<Rightarrow> konteks \<Rightarrow> pemohon \<Rightarrow> string option \<Rightarrow> (('r, 's) gerbang, unit) aksi" where
  "kembalikan_permintaan G l ctx p ip = do {
     scopes \<leftarrow> resolver G p ip;
     dengan (\<lambda>n g. ((), g\<lparr>gb_redis := refund_request (gu_R G) (gu_skrip G n) (l\<lparr>lm_resolver := Some (\<lambda>_ _. scopes)\<rparr>)
        (Some (ph_key p)) ip (kx_jangkar ctx) (gu_jam G n) (gb_redis g)\<rparr>)) }"

definition kembalikan_kuota :: "('r, 's) guard \<Rightarrow> konteks \<Rightarrow> pemohon \<Rightarrow> string option \<Rightarrow> (('r, 's) gerbang, unit) aksi" where
  "kembalikan_kuota G ctx p ip =
     (case gu_limiter G of
        None \<Rightarrow> kembali ()
      | Some l \<Rightarrow> do {
          _ \<leftarrow> kembalikan_permintaan G l ctx p ip;
          is \<leftarrow> semua_kuota_model_terbakar ctx;
          kembalikan_semua G ctx is })"

definition periksa_batas_model ::
    "('r, 's) guard \<Rightarrow> konteks \<Rightarrow> string \<Rightarrow> (('r, 's) gerbang, konteks \<times> rejection option) aksi" where
  "periksa_batas_model G ctx i =
     (case gu_limiter G of
        None \<Rightarrow> kembali (ctx, None)
      | Some l \<Rightarrow>
          if \<not> gu_rates G \<or> i = [] then kembali (ctx, None)
          else do {
            scopes \<leftarrow> minta_batas G [\<lparr>tg_scope = ps_model, tg_id = i\<rparr>] limits_kosong;
            if scopes = [] then kembali (ctx, None)
            else do {
              sekarang \<leftarrow> jam_kini G;
              d \<leftarrow> izinkan_pada G l scopes sekarang;
              if kp_allowed d then do { ctx' \<leftarrow> tanam_tanda i sekarang ctx; kembali (ctx', None) }
              else do {
                _ \<leftarrow> pancarkan G ''ratelimit.exceeded'' i;
                kembali (ctx, Some (rejection_batas d (''model '' @ kutip_kebijakan i @ '' sedang melewati batas lajunya''))) } } })"

section \<open>Limits per provider, remembered for the request\<close>

definition dengan_memo_batas :: "konteks \<Rightarrow> (('r, 's) gerbang, konteks) aksi" where
  "dengan_memo_batas ctx =
     (if kx_memo ctx \<noteq> None then kembali ctx
      else aksi (\<lambda>g. (ctx\<lparr>kx_memo := Some (length (gb_memo g))\<rparr>, g\<lparr>gb_memo := gb_memo g @ [[]]\<rparr>)))"

definition memo_ambil :: "('r, 's) guard \<Rightarrow> konteks \<Rightarrow> string \<Rightarrow> (('r, 's) gerbang, perror option option) aksi" where
  "memo_ambil G ctx kunci =
     (case kx_memo ctx of
        None \<Rightarrow> kembali None
      | Some a \<Rightarrow> do {
          now \<leftarrow> jam_kini G;
          aksi (\<lambda>g. case map_of (gb_memo g ! a) kunci of
              None \<Rightarrow> (None, g)
            | Some m \<Rightarrow>
                if em_sampai m \<noteq> waktu_nol \<and> \<not> now < em_sampai m
                then (None, g\<lparr>gb_memo := (gb_memo g)[a := AList.delete kunci (gb_memo g ! a)]\<rparr>)
                else (Some (em_err m), g)) })"

definition memo_simpan :: "('r, 's) guard \<Rightarrow> konteks \<Rightarrow> string \<Rightarrow> perror option \<Rightarrow> (('r, 's) gerbang, unit) aksi" where
  "memo_simpan G ctx kunci err =
     (case kx_memo ctx of
        None \<Rightarrow> kembali ()
      | Some a \<Rightarrow>
          (case err of
             None \<Rightarrow> aksi (\<lambda>g. ((), g\<lparr>gb_memo := (gb_memo g)[a := AList.update kunci \<lparr>em_err = None, em_sampai = waktu_nol\<rparr> (gb_memo g ! a)]\<rparr>))
           | Some e \<Rightarrow>
               if pe_retry_after e \<le> 0 then kembali ()
               else do {
                 now \<leftarrow> jam_kini G;
                 aksi (\<lambda>g. ((), g\<lparr>gb_memo := (gb_memo g)[a := AList.update kunci
                    \<lparr>em_err = Some e, em_sampai = now + pe_retry_after e\<rparr> (gb_memo g ! a)]\<rparr>)) }))"

text \<open>The shape both checks share: a remembered decision is used, a fresh one is remembered.\<close>

definition dengan_memo ::
    "('r, 's) guard \<Rightarrow> konteks \<Rightarrow> string \<Rightarrow> (('r, 's) gerbang, perror option) aksi \<Rightarrow> (('r, 's) gerbang, perror option) aksi" where
  "dengan_memo G ctx kunci tanya = do {
     m \<leftarrow> memo_ambil G ctx kunci;
     case m of
       Some tersimpan \<Rightarrow> kembali tersimpan
     | None \<Rightarrow> do { hasil \<leftarrow> tanya; _ \<leftarrow> memo_simpan G ctx kunci hasil; kembali hasil } }"

definition kunci_kebijakan :: "string \<Rightarrow> string" where "kunci_kebijakan provider_id = ''kebijakan:'' @ provider_id"
definition kunci_kolom :: "string \<Rightarrow> string" where "kunci_kolom provider_id = ''kolom:'' @ provider_id"

definition penolakan_lokal :: "string \<Rightarrow> string \<Rightarrow> keputusan \<Rightarrow> perror" where
  "penolakan_lokal provider pesan d =
     (newf KindRateLimit provider pesan)\<lparr>pe_local := True, pe_retry_after := kp_retry_after d\<rparr>"

definition periksa_batas_provider_segar ::
    "('r, 's) guard \<Rightarrow> limiter \<Rightarrow> string \<Rightarrow> string \<Rightarrow> (('r, 's) gerbang, perror option) aksi" where
  "periksa_batas_provider_segar G l provider_id provider_name = do {
     scopes \<leftarrow> minta_batas G [\<lparr>tg_scope = ps_provider, tg_id = provider_id\<rparr>] limits_kosong;
     if scopes = [] then kembali None
     else do {
       d \<leftarrow> izinkan_cakupan G l scopes;
       kembali (if kp_allowed d then None
                else Some (penolakan_lokal provider_name ''batas laju gateway ke provider ini sedang penuh'' d)) } }"

definition periksa_batas_provider ::
    "('r, 's) guard \<Rightarrow> konteks \<Rightarrow> string \<Rightarrow> string \<Rightarrow> (('r, 's) gerbang, perror option) aksi" where
  "periksa_batas_provider G ctx provider_id provider_name =
     (case gu_limiter G of
        None \<Rightarrow> kembali None
      | Some l \<Rightarrow>
          if \<not> gu_rates G \<or> provider_id = [] then kembali None
          else dengan_memo G ctx (kunci_kebijakan provider_id) (periksa_batas_provider_segar G l provider_id provider_name))"

definition cakupan_kolom_provider :: string where "cakupan_kolom_provider = ''provider_column''"

text \<open>The two parts of \<^verbatim>\<open>periksaKolomProviderSegar\<close>: the column of requests, then the column of tokens.\<close>

definition periksa_kolom_rpm :: "('r, 's) guard \<Rightarrow> limiter \<Rightarrow> route_candidate \<Rightarrow> (('r, 's) gerbang, perror option) aksi" where
  "periksa_kolom_rpm G l c =
     (case rc_rate_limit_rpm c of
        None \<Rightarrow> kembali None
      | Some rpm \<Rightarrow>
          if rpm \<le> 0 then kembali None
          else do {
            d \<leftarrow> izinkan_cakupan G l [\<lparr>sc_scope = cakupan_kolom_provider, sc_id = rc_provider_id c,
                   sc_limits = limits_kosong\<lparr>li_rpm := rpm\<rparr>\<rparr>];
            kembali (if kp_allowed d then None
                     else Some (penolakan_lokal (rc_provider_name c) ''batas laju (kolom provider) gateway ke provider ini sedang penuh'' d)) })"

definition cakupan_tpm :: "route_candidate \<Rightarrow> int \<Rightarrow> scope_token_limits list" where
  "cakupan_tpm c tpm = [\<lparr>st_scope = cakupan_kolom_provider, st_id = rc_provider_id c,
     st_limits = \<lparr>tl_tpm = tpm, tl_daily = 0, tl_monthly = 0\<rparr>\<rparr>]"

definition periksa_kolom_tpm :: "('r, 's) guard \<Rightarrow> limiter \<Rightarrow> route_candidate \<Rightarrow> (('r, 's) gerbang, perror option) aksi" where
  "periksa_kolom_tpm G l c =
     (case rc_rate_limit_tpm c of
        None \<Rightarrow> kembali None
      | Some tpm \<Rightarrow>
          if tpm \<le> 0 then kembali None
          else do {
            d \<leftarrow> token_terlampaui G l (cakupan_tpm c tpm);
            kembali (if kp_allowed d then None
                     else Some (penolakan_lokal (rc_provider_name c) ''anggaran token per menit (kolom provider) ke provider ini sudah habis'' d)) })"

definition periksa_kolom_provider_segar ::
    "('r, 's) guard \<Rightarrow> limiter \<Rightarrow> route_candidate \<Rightarrow> (('r, 's) gerbang, perror option) aksi" where
  "periksa_kolom_provider_segar G l c = do {
     e \<leftarrow> periksa_kolom_rpm G l c;
     case e of Some err \<Rightarrow> kembali (Some err) | None \<Rightarrow> periksa_kolom_tpm G l c }"

definition periksa_kolom_provider :: "('r, 's) guard \<Rightarrow> konteks \<Rightarrow> route_candidate \<Rightarrow> (('r, 's) gerbang, perror option) aksi" where
  "periksa_kolom_provider G ctx c =
     (case gu_limiter G of
        None \<Rightarrow> kembali None
      | Some l \<Rightarrow> dengan_memo G ctx (kunci_kolom (rc_provider_id c)) (periksa_kolom_provider_segar G l c))"

definition catat_token_kolom_provider :: "('r, 's) guard \<Rightarrow> route_candidate option \<Rightarrow> int \<Rightarrow> (('r, 's) gerbang, unit) aksi" where
  "catat_token_kolom_provider G cand n =
     (case (gu_limiter G, cand) of
        (Some l, Some c) \<Rightarrow>
          (case rc_rate_limit_tpm c of
             None \<Rightarrow> kembali ()
           | Some tpm \<Rightarrow>
               if n \<le> 0 \<or> tpm \<le> 0 then kembali ()
               else do { _ \<leftarrow> catat_cakupan_token G l (cakupan_tpm c tpm) n; kembali () })
      | _ \<Rightarrow> kembali ())"

section \<open>Tokens\<close>

definition cakupan_token :: "('r, 's) guard \<Rightarrow> pemohon \<Rightarrow> target list \<Rightarrow> (('r, 's) gerbang, scope_token_limits list) aksi" where
  "cakupan_token G p targets =
     (if gu_limiter G = None then kembali []
      else if \<not> gu_rates G then
        (let batas = token_limits_from_key (Some (ph_key p))
         in kembali (if token_limits_is_zero batas then []
                     else [\<lparr>st_scope = scope_api_key, st_id = ky_id (ph_key p), st_limits = batas\<rparr>]))
      else minta_batas_token G targets (token_limits_from_key (Some (ph_key p))))"

definition gerbang_token :: "('r, 's) guard \<Rightarrow> pemohon \<Rightarrow> target list \<Rightarrow> (('r, 's) gerbang, rejection option) aksi" where
  "gerbang_token G p targets = do {
     scopes \<leftarrow> cakupan_token G p targets;
     case gu_limiter G of
       None \<Rightarrow> kembali None
     | Some l \<Rightarrow>
         if scopes = [] then kembali None
         else do {
           d \<leftarrow> token_terlampaui G l scopes;
           if kp_allowed d then kembali None
           else do {
             _ \<leftarrow> pancarkan G ''ratelimit.exceeded'' (ky_id (ph_key p));
             kembali (Some (rejection_batas d ''anggaran token untuk periode ini sudah habis'')) } } }"

definition catat_token :: "('r, 's) guard \<Rightarrow> pemohon \<Rightarrow> target list \<Rightarrow> int \<Rightarrow> (('r, 's) gerbang, unit) aksi" where
  "catat_token G p targets n =
     (if n \<le> 0 then kembali ()
      else do {
        scopes \<leftarrow> cakupan_token G p targets;
        case gu_limiter G of
          None \<Rightarrow> kembali ()
        | Some l \<Rightarrow> if scopes = [] then kembali () else do { _ \<leftarrow> catat_cakupan_token G l scopes n; kembali () } })"

section \<open>Frames\<close>

text \<open>
  The part of the state in which quotas live, and a copy of the limits that keeps what it holds:
  every read of the policy fails or gives the rows it was built from.
\<close>

definition inti :: "('r, 's) gerbang \<Rightarrow> 'r \<times> tanda_kuota list" where
  "inti g = (gb_redis g, gb_tanda g)"

definition salinan_tetap :: "rate_limit_row list \<Rightarrow> ('r, 's) gerbang \<Rightarrow> bool" where
  "salinan_tetap rows g \<longleftrightarrow> sa_isi (gb_rates g) = bangun_batas rows"

definition kebijakan_tetap :: "rate_limit_row list \<Rightarrow> ('r, 's) guard \<Rightarrow> bool" where
  "kebijakan_tetap rows G \<longleftrightarrow> (\<forall>n. gu_batas G n = None \<or> (\<exists>e. gu_batas G n = Some (Inl e)) \<or> gu_batas G n = Some (Inr rows))"

lemma tetap_dengan: "(\<And>n g. I g \<Longrightarrow> I (g\<lparr>gb_n := Suc (gb_n g)\<rparr>)) \<Longrightarrow> (\<And>g. f (g\<lparr>gb_n := Suc (gb_n g)\<rparr>) = f g) \<Longrightarrow>
    (\<And>n g. I g \<Longrightarrow> I (snd (h n g)) \<and> f (snd (h n g)) = f g) \<Longrightarrow> tetap I f (dengan h)"
  by (simp add: dengan_def tetap_aksi)

lemma inti_n [simp]: "inti (g\<lparr>gb_n := n\<rparr>) = inti g" "salinan_tetap rows (g\<lparr>gb_n := n\<rparr>) = salinan_tetap rows g"
  by (simp_all add: inti_def salinan_tetap_def)

lemma tetap_dengan_inti: "(\<And>n g. salinan_tetap rows g \<Longrightarrow> salinan_tetap rows (snd (h n g)) \<and> inti (snd (h n g)) = inti g) \<Longrightarrow>
    tetap (salinan_tetap rows) inti (dengan h)"
  by (rule tetap_dengan) auto

lemma muat_batas_tetap:
  "kebijakan_tetap rows G \<Longrightarrow> sa_isi e = bangun_batas rows \<Longrightarrow> sa_isi (muat_batas ttl (gu_batas G n) now e) = bangun_batas rows"
  unfolding kebijakan_tetap_def by (drule spec [where x = n]) (auto simp: muat_batas_def muat_salinan_def split: if_splits)

lemma fase_baca_intip [simp]: "fst (fase_baca R 2 ks s) = s"
  by (induction R "2 :: int" ks s rule: fase_baca.induct) (simp_all add: Let_def split_beta)

lemma limiter_intip [simp]: "fst (limiter_script R 2 0 ks s) = s"
  by (simp add: limiter_script_def Let_def split_beta)

lemma intip_tetap [simp]: "fst (tokens_exceeded_scopes R p l scopes now s) = s"
  by (simp add: tokens_exceeded_scopes_def run_limiter_def split_beta split: panggilan.split)

lemma tetap_inti_dasar [tetap_rules]:
  "tetap (salinan_tetap rows) inti (jam_kini G)"
  "tetap (salinan_tetap rows) inti (periksa_isi G s)"
  "tetap (salinan_tetap rows) inti (cek_anggaran G targets)"
  "tetap (salinan_tetap rows) inti (tahan_anggaran G targets estimasi)"
  unfolding jam_kini_def periksa_isi_def cek_anggaran_def tahan_anggaran_def
  by (rule tetap_dengan_inti; simp add: inti_def salinan_tetap_def split: prod.split)+

lemma tetap_inti_batas [tetap_rules]:
  assumes "kebijakan_tetap rows G"
  shows "tetap (salinan_tetap rows) inti (minta_batas G targets key_limits)"
    and "tetap (salinan_tetap rows) inti (minta_batas_token G targets key_limits')"
  unfolding minta_batas_def minta_batas_token_def
  by (rule tetap_dengan_inti; simp add: inti_def salinan_tetap_def requests_def tokens_def Let_def muat_batas_tetap [OF assms])+

lemma tetap_inti_pancar [tetap_rules]:
  "tetap (salinan_tetap rows) inti (pancarkan G ev subjek)" "tetap (salinan_tetap rows) inti (umumkan_anggaran G v)"
  unfolding pancarkan_def umumkan_anggaran_def
  by (intro tetap_rules tetap_dengan_inti; simp add: inti_def salinan_tetap_def split: prod.split)+

lemma tetap_inti_token [tetap_rules]: "tetap (salinan_tetap rows) inti (token_terlampaui G l scopes)"
  unfolding token_terlampaui_def
  by (intro tetap_rules tetap_dengan_inti) (simp add: inti_def salinan_tetap_def split_beta)

lemma tetap_inti_saring [tetap_rules]:
  "tetap (salinan_tetap rows) inti (saring_permintaan G s)" "tetap (salinan_tetap rows) inti (saring_jawaban G teks m p)"
  "tetap (salinan_tetap rows) inti (provider_dilarang G p)" "tetap (salinan_tetap rows) inti (provider_anggaran_habis G p)"
  "tetap (salinan_tetap rows) inti (periksa_anggaran G targets)"
  "tetap (salinan_tetap rows) inti (periksa_anggaran_dengan_reservasi G targets estimasi)"
  unfolding saring_permintaan_def saring_jawaban_def saring_def provider_dilarang_def provider_anggaran_habis_def
    periksa_anggaran_def periksa_anggaran_dengan_reservasi_def
  by (intro tetap_rules)+

lemma tetap_inti_gerbang_token [tetap_rules]:
  "kebijakan_tetap rows G \<Longrightarrow> tetap (salinan_tetap rows) inti (gerbang_token G p targets)"
  unfolding gerbang_token_def cakupan_token_def by (intro tetap_rules)

section \<open>The ledger of a request\<close>

text \<open>
  What the marks say is still owed: the windows of every increment not given back, each at its own
  time.  The scopes of a model depend on the rows of the copy only.
\<close>

definition cakupan_model :: "rate_limit_row list \<Rightarrow> string \<Rightarrow> scope_limits list" where
  "cakupan_model rows i = requests_loop (salinan_baru (bangun_batas rows)) limits_kosong [\<lparr>tg_scope = ps_model, tg_id = i\<rparr>]"

definition tagih :: "scope_limits list \<Rightarrow> waktu \<Rightarrow> string \<Rightarrow> int" where
  "tagih scopes t k = (if k \<in> window_key ` set (jendela_cakupan scopes t) then 1 else 0)"

definition utang_model :: "rate_limit_row list \<Rightarrow> tanda_kuota \<Rightarrow> string \<Rightarrow> string \<Rightarrow> int" where
  "utang_model rows h k i = sum_list (map (\<lambda>t. tagih (cakupan_model rows i) t k) (tk_jangkar h i))"

definition utang :: "rate_limit_row list \<Rightarrow> string \<Rightarrow> tanda_kuota \<Rightarrow> int" where
  "utang rows k h = sum_list (map (utang_model rows h k) (tk_kunci h))"

definition tanda_sah :: "tanda_kuota \<Rightarrow> bool" where
  "tanda_sah h \<longleftrightarrow> distinct (tk_kunci h) \<and> (\<forall>i. tk_jumlah h i = int (length (tk_jangkar h i))) \<and>
     (\<forall>i. i \<notin> set (tk_kunci h) \<longrightarrow> tk_jangkar h i = []) \<and> (\<forall>i\<in>set (tk_kunci h). rapi i)"

definition tanda_lunas :: "tanda_kuota \<Rightarrow> bool" where
  "tanda_lunas h \<longleftrightarrow> (\<forall>i. tk_jangkar h i = [])"

lemma requests_loop_isi:
  assumes "sa_isi e = sa_isi e'"
  shows "requests_loop e k ts = requests_loop e' k ts"
proof -
  have "cari_terkunci e = cari_terkunci e'" using assms by (simp add: cari_terkunci_def fun_eq_iff)
  then show ?thesis by (induction ts) (simp_all cong: option.case_cong if_cong)
qed

lemma sum_list_ubah:
  fixes f :: "'a \<Rightarrow> int"
  shows "distinct xs \<Longrightarrow> i \<in> set xs \<Longrightarrow> sum_list (map (f(i := v)) xs) = sum_list (map f xs) - f i + v"
proof (induction xs)
  case (Cons x xs)
  show ?case
  proof (cases "x = i")
    case True
    then have eq: "map (f(i := v)) xs = map f xs" using Cons.prems by (intro map_cong) auto
    show ?thesis unfolding list.map sum_list.Cons eq using True by simp
  qed (use Cons in auto)
qed simp

lemma tagih_nonneg: "0 \<le> tagih scopes t k" by (simp add: tagih_def)

lemma utang_model_nonneg: "0 \<le> utang_model rows h k i"
  unfolding utang_model_def by (rule sum_list_nonneg) (auto simp: tagih_nonneg)

lemma utang_nonneg: "0 \<le> utang rows k h"
  unfolding utang_def by (rule sum_list_nonneg) (auto simp: utang_model_nonneg)

lemma tanda_baru_sah: "tanda_sah tanda_baru" "tanda_lunas tanda_baru" "utang rows k tanda_baru = 0"
  by (simp_all add: tanda_sah_def tanda_lunas_def tanda_baru_def utang_def)

lemma utang_lunas: "tanda_lunas h \<Longrightarrow> utang rows k h = 0"
  by (simp add: tanda_lunas_def utang_def utang_model_def [abs_def])

lemma utang_model_tambah:
  "utang_model rows (tambah i t h) k j = utang_model rows h k j + (if j = i then tagih (cakupan_model rows i) t k else 0)"
  by (simp add: utang_model_def tambah_def)

lemma utang_tambah:
  assumes "tanda_sah h"
  shows "utang rows k (tambah i t h) = utang rows k h + tagih (cakupan_model rows i) t k"
proof -
  define v where "v = utang_model rows h k i + tagih (cakupan_model rows i) t k"
  have f: "utang_model rows (tambah i t h) k = (utang_model rows h k)(i := v)"
    by (rule ext) (simp add: utang_model_tambah v_def)
  have d: "distinct (tk_kunci (tambah i t h))" "i \<in> set (tk_kunci (tambah i t h))"
    using assms by (auto simp: tanda_sah_def tambah_def)
  have "sum_list (map (utang_model rows h k) (tk_kunci (tambah i t h))) = utang rows k h"
    using assms by (auto simp: utang_def tambah_def tanda_sah_def utang_model_def)
  then show ?thesis using sum_list_ubah [OF d, of "utang_model rows h k" v] by (simp add: utang_def f v_def)
qed

lemma tambah_sah: "tanda_sah h \<Longrightarrow> rapi i \<Longrightarrow> tanda_sah (tambah i t h)"
  by (auto simp: tanda_sah_def tambah_def)

text \<open>In a mark with this invariant \<^const>\<open>klaim\<close> never panics, and takes what it owes off the ledger.\<close>

lemma klaim_sah:
  assumes "tanda_sah h"
  obtains "klaim i h = KlaimKosong" "tk_jangkar h i = []"
  | t h' where "klaim i h = Klaim t h'" "tanda_sah h'" "tk_jangkar h' = (tk_jangkar h)(i := tl (tk_jangkar h i))"
      "tk_jangkar h i = t # tl (tk_jangkar h i)" "tk_kunci h' = tk_kunci h" "rapi i"
      "\<And>rows k. utang rows k h = utang rows k h' + tagih (cakupan_model rows i) t k"
proof (cases "tk_jangkar h i")
  case Nil
  then show thesis using that(1) assms by (simp add: klaim_def tanda_sah_def)
next
  case (Cons t ts)
  define h' where "h' = h\<lparr>tk_jumlah := (tk_jumlah h)(i := tk_jumlah h i - 1), tk_jangkar := (tk_jangkar h)(i := ts)\<rparr>"
  have i: "i \<in> set (tk_kunci h)" using assms Cons by (metis list.distinct(1) tanda_sah_def)
  have u: "utang rows k h = utang rows k h' + tagih (cakupan_model rows i) t k" for rows k
  proof -
    have f: "utang_model rows h' k = (utang_model rows h k)(i := utang_model rows h k i - tagih (cakupan_model rows i) t k)"
      by (rule ext) (simp add: utang_model_def h'_def Cons)
    have "distinct (tk_kunci h)" using assms by (simp add: tanda_sah_def)
    from sum_list_ubah [OF this i] show ?thesis by (simp add: utang_def f) (simp add: h'_def)
  qed
  have jum: "tk_jumlah h i = 1 + int (length ts)" using assms Cons by (simp add: tanda_sah_def)
  then have k: "klaim i h = Klaim t h'" using Cons by (simp add: klaim_def h'_def)
  have "tanda_sah h'" using assms i jum by (auto simp: tanda_sah_def h'_def)
  with that(2) [OF k _ _ _ _ _ u] i assms Cons show thesis by (simp add: h'_def tanda_sah_def)
qed

lemma cakupan_model_sah: "rapi i \<Longrightarrow> cakupan_sah (cakupan_model rows i)"
  unfolding cakupan_model_def by (rule requests_loop_sah) (simp_all add: id_untuk_def ps_model_def ps_global_def)

lemma minta_batas_jalan:
  assumes "kebijakan_tetap rows G" "salinan_tetap rows g" "run_state (minta_batas G targets key_limits) g = (scopes, g')"
  shows "scopes = requests_loop (salinan_baru (bangun_batas rows)) key_limits targets \<and> salinan_tetap rows g' \<and> inti g' = inti g"
proof -
  have s: "scopes = requests_loop (muat_batas default_rate_ttl (gu_batas G (gb_n g)) (gu_jam G (gb_n g)) (gb_rates g)) key_limits targets"
    using assms(3) by (simp add: minta_batas_def dengan_def requests_def Let_def)
  have "sa_isi (muat_batas default_rate_ttl (gu_batas G (gb_n g)) (gu_jam G (gb_n g)) (gb_rates g)) = bangun_batas rows"
    using muat_batas_tetap [OF assms(1)] assms(2) by (simp add: salinan_tetap_def)
  then have "scopes = requests_loop (salinan_baru (bangun_batas rows)) key_limits targets"
    unfolding s by (intro requests_loop_isi) (simp add: salinan_baru_def)
  with tetapD [OF tetap_inti_batas(1) [OF assms(1)] assms(2,3)] show ?thesis by simp
qed

text \<open>
  The balance of a request: every counter is a base plus what the marks owe, and no mark but the one
  of the context owes anything.
\<close>

definition neraca :: "rate_limit_row list \<Rightarrow> 'r counters \<Rightarrow> (string \<Rightarrow> int) \<Rightarrow> konteks \<Rightarrow> 'r \<times> tanda_kuota list \<Rightarrow> bool" where
  "neraca rows R dasar ctx x \<longleftrightarrow> (case x of (r, ts) \<Rightarrow>
     (\<forall>h\<in>set ts. tanda_sah h) \<and> (\<forall>k. 0 \<le> dasar k) \<and>
     (\<forall>k. baca R r k = dasar k + sum_list (map (utang rows k) ts)) \<and>
     (\<forall>a<length ts. kx_tanda ctx \<noteq> Some a \<longrightarrow> tanda_lunas (ts ! a)) \<and>
     (\<forall>a. kx_tanda ctx = Some a \<longrightarrow> a < length ts))"

text \<open>How \<open>main.go\<close> wires the guard, with Redis answering.\<close>

definition lancar :: "rate_limit_row list \<Rightarrow> 'r counters \<Rightarrow> limiter \<Rightarrow> ('r, 's) guard \<Rightarrow> bool" where
  "lancar rows R l G \<longleftrightarrow> gu_R G = R \<and> gu_rates G \<and> gu_limiter G = Some l \<and> lm_ada_redis l \<and>
     (\<forall>n. gu_skrip G n = SkripBerhasil) \<and> kebijakan_tetap rows G"

lemma sum_list_list_update:
  fixes f :: "'a \<Rightarrow> int"
  shows "a < length xs \<Longrightarrow> sum_list (map f (xs[a := x])) = sum_list (map f xs) - f (xs ! a) + f x"
proof (induction xs arbitrary: a)
  case (Cons y ys)
  then show ?case by (cases a) auto
qed simp

lemma utang_di_nonneg: "0 \<le> sum_list (map (utang rows k) ts)"
  by (rule sum_list_nonneg) (auto simp: utang_nonneg)

lemma utang_satu: "a < length ts \<Longrightarrow> utang rows k (ts ! a) \<le> sum_list (map (utang rows k) ts)"
  by (rule member_le_sum_list) (auto simp: utang_nonneg)

definition cakupan_permintaan :: "rate_limit_row list \<Rightarrow> pemohon \<Rightarrow> string option \<Rightarrow> scope_limits list" where
  "cakupan_permintaan rows p ip = requests_loop (salinan_baru (bangun_batas rows)) (limits_from_key (Some (ph_key p)))
     (targets_for (ky_id (ph_key p)) (ph_owner p) [] ip)"

definition pemohon_rapi :: "pemohon \<Rightarrow> string option \<Rightarrow> bool" where
  "pemohon_rapi p ip \<longleftrightarrow> rapi (ky_id (ph_key p)) \<and> (ph_owner p = [] \<or> rapi (ph_owner p)) \<and> (\<forall>a. ip = Some a \<longrightarrow> rapi a)"

lemma cakupan_permintaan_sah: "pemohon_rapi p ip \<Longrightarrow> cakupan_sah (cakupan_permintaan rows p ip)"
proof -
  assume p: "pemohon_rapi p ip"
  have g: "rapi global_id" by code_simp
  then show ?thesis unfolding cakupan_permintaan_def using p
    by (intro requests_loop_sah targets_for_distinct) (auto simp: targets_for_def id_untuk_def pemohon_rapi_def split: option.splits)
qed

context redis_counter begin

lemma kembalikan_tagih:
  assumes "lm_ada_redis l" "cakupan_sah scopes" "\<forall>k. 0 \<le> baca R r k" "\<forall>k. tagih scopes t k \<le> baca R r k"
  shows "baca R (refund_scopes_at R SkripBerhasil l scopes t r) k = baca R r k - tagih scopes t k"
proof -
  have "refund_scopes_at R SkripBerhasil l scopes t r = refund_script R 1 (map window_key (jendela_cakupan scopes t)) r"
    using assms(1) unfolding refund_scopes_at_def Let_def jendela_cakupan_def [symmetric]
    by (cases "jendela_cakupan scopes t = []"; cases "scopes = []") (auto simp: jendela_cakupan_def [of "[]"])
  then show ?thesis
    using refund_spec [OF window_keys_distinct [OF assms(2), of t] zero_le_one assms(3), of k] assms(4) [rule_format, of k]
    by (auto simp: tagih_def split: if_splits)
qed

lemma izin_tagih:
  assumes "allow_scopes_at R SkripBerhasil l scopes t r = (r', d)" "lm_ada_redis l" "cakupan_sah scopes"
  shows "baca R r' k = baca R r k + (if kp_allowed d then tagih scopes t k else 0)"
  using allow_scopes_at_spec(1,3) [OF assms] by (simp add: tagih_def)

text \<open>Planting a mark after the counters went up keeps the balance.\<close>

lemma neraca_tambah:
  assumes "neraca rows R dasar ctx (r, ts)" "rapi i"
    and "\<forall>k. baca R r' k = baca R r k + tagih (cakupan_model rows i) t k"
    and run: "run_state (tanam_tanda i t ctx) g = (ctx', g')" "gb_tanda g = ts"
  shows "neraca rows R dasar ctx' (r', gb_tanda g') \<and> kx_jangkar ctx' = kx_jangkar ctx \<and> kx_memo ctx' = kx_memo ctx \<and>
    gb_redis g' = gb_redis g \<and> gb_rates g' = gb_rates g \<and>
    (ctx' = ctx \<or> kx_tanda ctx = None \<and> (\<exists>a. kx_tanda ctx' = Some a \<and> a < length (gb_tanda g') \<and> gb_tanda g' ! a = tambah i t tanda_baru))"
proof (cases "kx_tanda ctx")
  case None
  from assms(2) have "i \<noteq> []" by (auto simp: rapi_def)
  with run None have r: "ctx' = ctx\<lparr>kx_tanda := Some (length ts)\<rparr>" "g' = g\<lparr>gb_tanda := ts @ [tambah i t tanda_baru]\<rparr>"
    by (auto simp: tanam_tanda_def)
  show ?thesis using assms(1-3) None tambah_sah [OF tanda_baru_sah(1) assms(2)] utang_tambah [OF tanda_baru_sah(1)]
    by (auto simp: r neraca_def tanda_baru_sah nth_append)
next
  case (Some a)
  from assms(2) have "i \<noteq> []" by (auto simp: rapi_def)
  with run Some have r: "ctx' = ctx" "g' = g\<lparr>gb_tanda := ts[a := tambah i t (ts ! a)]\<rparr>"
    by (auto simp: tanam_tanda_def)
  have a: "a < length ts" "tanda_sah (ts ! a)" using assms(1) Some by (auto simp: neraca_def)
  have s: "sum_list (map (utang rows k) (ts[a := tambah i t (ts ! a)])) = sum_list (map (utang rows k) ts) + tagih (cakupan_model rows i) t k" for k
    by (simp add: sum_list_list_update [OF a(1)] utang_tambah [OF a(2)])
  show ?thesis using assms(1,3) Some a tambah_sah [OF a(2) assms(2)] by (auto simp: r neraca_def s nth_list_update dest!: set_update_subset_insert [THEN subsetD])
qed

lemma neraca_nonneg: "neraca rows R dasar ctx (r, ts) \<Longrightarrow> 0 \<le> baca R r k"
  using utang_di_nonneg [of rows k ts] by (simp add: neraca_def add_nonneg_nonneg)

text \<open>\<^verbatim>\<open>PeriksaBatasModel\<close>: an admission is counted and marked, a refusal is neither.\<close>

lemma periksa_batas_model_sah:
  assumes L: "lancar rows R l G" and i: "rapi i"
    and g: "salinan_tetap rows g" "neraca rows R dasar ctx (inti g)"
    and run: "run_state (periksa_batas_model G ctx i) g = ((ctx', rj), g')"
  shows "salinan_tetap rows g' \<and> neraca rows R dasar ctx' (inti g') \<and> kx_jangkar ctx' = kx_jangkar ctx \<and> kx_memo ctx' = kx_memo ctx \<and>
    (rj \<noteq> None \<longrightarrow> ctx' = ctx) \<and>
    (ctx' = ctx \<or> kx_tanda ctx = None \<and> (\<exists>a t. kx_tanda ctx' = Some a \<and> a < length (gb_tanda g') \<and> gb_tanda g' ! a = tambah i t tanda_baru))"
proof -
  from L have L': "gu_R G = R" "gu_rates G" "gu_limiter G = Some l" "lm_ada_redis l" "\<forall>n. gu_skrip G n = SkripBerhasil" "kebijakan_tetap rows G"
    by (auto simp: lancar_def)
  from i have i0: "i \<noteq> []" by (auto simp: rapi_def)
  obtain sc g1 where m1: "run_state (minta_batas G [\<lparr>tg_scope = ps_model, tg_id = i\<rparr>] limits_kosong) g = (sc, g1)" by (meson surj_pair)
  note M1 = minta_batas_jalan [OF L'(6) g(1) m1, folded cakupan_model_def]
  show ?thesis
  proof (cases "sc = []")
    case True
    with run L' i0 m1 have "ctx' = ctx" "rj = None" "g' = g1" by (simp_all add: periksa_batas_model_def)
    with M1 g(2) show ?thesis by simp
  next
    case False
    obtain t g2 where m2: "run_state (jam_kini G) g1 = (t, g2)" by (meson surj_pair)
    obtain d g3 where m3: "run_state (izinkan_pada G l sc t) g2 = (d, g3)" by (meson surj_pair)
    have M2: "salinan_tetap rows g2" "inti g2 = inti g"
      using tetapD [OF tetap_inti_dasar(1) conjunct1 [OF conjunct2 [OF M1]] m2] M1 by simp_all
    from m3 obtain r' where r': "allow_scopes_at R SkripBerhasil l sc t (gb_redis g2) = (r', d)"
      and g3: "gb_redis g3 = r'" "gb_tanda g3 = gb_tanda g2" "gb_rates g3 = gb_rates g2"
      by (auto simp: izinkan_pada_def dengan_def L' split: prod.splits)
    have B: "baca R r' k = baca R (gb_redis g2) k + (if kp_allowed d then tagih sc t k else 0)" for k
      using izin_tagih [OF r' L'(4)] cakupan_model_sah [OF i] M1 by metis
    have N: "neraca rows R dasar ctx (gb_redis g2, gb_tanda g2)" using g(2) M2(2) by (simp add: inti_def)
    show ?thesis
    proof (cases "kp_allowed d")
      case True
      obtain c3 g4 where m4: "run_state (tanam_tanda i t ctx) g3 = (c3, g4)" by (meson surj_pair)
      have res: "ctx' = c3" "rj = None" "g' = g4" using run L' i0 m1 m2 m3 m4 False True by (simp_all add: periksa_batas_model_def)
      have "\<forall>k. baca R r' k = baca R (gb_redis g2) k + tagih (cakupan_model rows i) t k" using B True M1 by simp
      from neraca_tambah [OF N i this m4 g3(2)] show ?thesis
        using M2(1) g3 by (auto simp: res inti_def salinan_tetap_def)
    next
      case no: False
      obtain u g4 where m4: "run_state (pancarkan G ''ratelimit.exceeded'' i) g3 = (u, g4)" by (meson surj_pair)
      have res: "ctx' = ctx" "g' = g4" using run L' i0 m1 m2 m3 m4 False no by (simp_all add: periksa_batas_model_def)
      have s3: "salinan_tetap rows g3" using M2(1) g3 by (simp add: salinan_tetap_def)
      have M4: "salinan_tetap rows g4" "inti g4 = inti g3" using tetapD [OF tetap_inti_pancar(1) s3 m4] by simp_all
      have "neraca rows R dasar ctx (inti g3)" using N B no by (simp add: inti_def g3 neraca_def)
      with M4 show ?thesis by (simp add: res)
    qed
  qed
qed

text \<open>One refund takes the oldest increment of the model off the ledger and off its windows.\<close>

lemma kembalikan_satu_sah:
  assumes L: "lancar rows R l G" and g: "salinan_tetap rows g" "neraca rows R dasar ctx (inti g)"
    and run: "run_state (kembalikan_satu_kuota_model G ctx i) g = (b, g')"
  shows "salinan_tetap rows g' \<and> neraca rows R dasar ctx (inti g') \<and> length (gb_tanda g') = length (gb_tanda g) \<and>
    (case kx_tanda ctx of
       None \<Rightarrow> \<not> b
     | Some a \<Rightarrow> (b \<longleftrightarrow> tk_jangkar (gb_tanda g ! a) i \<noteq> []) \<and> tk_kunci (gb_tanda g' ! a) = tk_kunci (gb_tanda g ! a) \<and>
         tk_jangkar (gb_tanda g' ! a) = (tk_jangkar (gb_tanda g ! a))(i := tl (tk_jangkar (gb_tanda g ! a) i)))"
proof -
  from L have L': "gu_R G = R" "gu_rates G" "gu_limiter G = Some l" "lm_ada_redis l" "\<forall>n. gu_skrip G n = SkripBerhasil" "kebijakan_tetap rows G"
    by (auto simp: lancar_def)
  obtain r ts where x: "inti g = (r, ts)" "gb_redis g = r" "gb_tanda g = ts" by (simp add: inti_def)
  show ?thesis
  proof (cases "kx_tanda ctx")
    case None
    with run L' g show ?thesis by (auto simp: kembalikan_satu_kuota_model_def klaim_di_def split: if_splits)
  next
    case (Some a)
    have a: "a < length ts" "tanda_sah (ts ! a)" using g(2) Some by (auto simp: neraca_def x)
    from a(2) show ?thesis
    proof (cases rule: klaim_sah [of _ i])
      case 1
      then have "b = False \<and> g' = g" using run L' Some x by (auto simp: kembalikan_satu_kuota_model_def klaim_di_def split: if_splits)
      with 1 g Some x show ?thesis by (auto simp: fun_upd_idem)
    next
      case (2 t h')
      have i0: "i \<noteq> []" using 2(6) by (auto simp: rapi_def)
      define g1 where "g1 = g\<lparr>gb_tanda := ts[a := h']\<rparr>"
      have k: "run_state (klaim_di ctx i) g = (Some (Some t), g1)" using 2(1) Some x by (simp add: klaim_di_def g1_def)
      obtain sc g2 where m2: "run_state (minta_batas G [\<lparr>tg_scope = ps_model, tg_id = i\<rparr>] limits_kosong) g1 = (sc, g2)" by (meson surj_pair)
      have s1: "salinan_tetap rows g1" using g(1) by (simp add: g1_def salinan_tetap_def)
      note M2 = minta_batas_jalan [OF L'(6) s1 m2, folded cakupan_model_def]
      obtain u g3 where m3: "run_state (kembalikan_pada G l sc t) g2 = (u, g3)" by (meson surj_pair)
      have g3: "gb_tanda g3 = ts[a := h']" "gb_rates g3 = gb_rates g2"
        "gb_redis g3 = refund_scopes_at R SkripBerhasil l (cakupan_model rows i) t r"
        using m3 M2 x by (auto simp: kembalikan_pada_def dengan_def L' inti_def g1_def)
      have res: "b = True" "g' = g3" using run L' i0 k m2 m3 by (simp_all add: kembalikan_satu_kuota_model_def)
      have N: "neraca rows R dasar ctx (r, ts)" using g(2) x by simp
      have le: "tagih (cakupan_model rows i) t k \<le> baca R r k" for k
      proof -
        have "tagih (cakupan_model rows i) t k \<le> utang rows k (ts ! a)" using 2(7) [of rows k] utang_nonneg [of rows k h'] by linarith
        also have "\<dots> \<le> sum_list (map (utang rows k) ts)" by (rule utang_satu [OF a(1)])
        also have "\<dots> \<le> baca R r k" using N by (simp add: neraca_def)
        finally show ?thesis .
      qed
      have B: "baca R (gb_redis g3) k = baca R r k - tagih (cakupan_model rows i) t k" for k
        unfolding g3 by (rule kembalikan_tagih [OF L'(4) cakupan_model_sah [OF 2(6)]]) (use neraca_nonneg [OF N] le in auto)
      have S: "sum_list (map (utang rows k) (ts[a := h'])) = sum_list (map (utang rows k) ts) - tagih (cakupan_model rows i) t k" for k
        using sum_list_list_update [OF a(1)] 2(7) by simp
      have "neraca rows R dasar ctx (inti g3)"
        using N 2(2) Some by (auto simp: inti_def g3(1) neraca_def B S nth_list_update dest!: set_update_subset_insert [THEN subsetD])
      with M2 g3 2 a Some x show ?thesis by (auto simp: res salinan_tetap_def)
    qed
  qed
qed

text \<open>Discarding a tier: its increment goes back, and a mark made for it owes nothing.\<close>

lemma kembalikan_model_sah:
  assumes L: "lancar rows R l G" and g: "salinan_tetap rows g" "neraca rows R dasar ctx' (inti g)"
    and b: "ctx' = ctx \<or> kx_tanda ctx = None \<and> (\<exists>a t. kx_tanda ctx' = Some a \<and> a < length (gb_tanda g) \<and> gb_tanda g ! a = tambah i t tanda_baru)"
    and run: "run_state (kembalikan_kuota_model G ctx' i) g = (u, g')"
  shows "salinan_tetap rows g' \<and> neraca rows R dasar ctx (inti g')"
proof -
  obtain ada where m: "run_state (kembalikan_satu_kuota_model G ctx' i) g = (ada, g')"
    using run by (auto simp: kembalikan_kuota_model_def split: prod.splits)
  note K = kembalikan_satu_sah [OF L g m]
  from b show ?thesis
  proof (elim disjE conjE exE)
    assume "ctx' = ctx" with K show ?thesis by simp
  next
    fix a t
    assume a: "kx_tanda ctx = None" "kx_tanda ctx' = Some a" "a < length (gb_tanda g)" "gb_tanda g ! a = tambah i t tanda_baru"
    then have "tanda_lunas (gb_tanda g' ! a)" using K by (auto simp: tanda_lunas_def tambah_def tanda_baru_def)
    with K a show ?thesis by (auto simp: neraca_def inti_def)
  qed
qed

text \<open>The loops of \<^verbatim>\<open>KembalikanKuota\<close> end with the mark of the context owing nothing.\<close>

lemma kembalikan_berulang_sah:
  assumes L: "lancar rows R l G" and "salinan_tetap rows g" "neraca rows R dasar ctx (inti g)" "kx_tanda ctx = Some a"
    and "length (tk_jangkar (gb_tanda g ! a) i) < n" and "run_state (kembalikan_berulang G ctx i n) g = (u, g')"
  shows "salinan_tetap rows g' \<and> neraca rows R dasar ctx (inti g') \<and> length (gb_tanda g') = length (gb_tanda g) \<and>
    tk_kunci (gb_tanda g' ! a) = tk_kunci (gb_tanda g ! a) \<and> tk_jangkar (gb_tanda g' ! a) = (tk_jangkar (gb_tanda g ! a))(i := [])"
  using assms(2,3,5,6)
proof (induction n arbitrary: g)
  case (Suc n)
  obtain b g1 where m: "run_state (kembalikan_satu_kuota_model G ctx i) g = (b, g1)" by (meson surj_pair)
  note K = kembalikan_satu_sah [OF L Suc.prems(1,2) m] 
  show ?case
  proof (cases b)
    case True
    with Suc.prems(4) m have r: "run_state (kembalikan_berulang G ctx i n) g1 = (u, g')" by simp
    have "length (tk_jangkar (gb_tanda g1 ! a) i) < n" using K True Suc.prems(3) assms(4) by (cases "tk_jangkar (gb_tanda g ! a) i") auto
    from Suc.IH [OF _ _ this r] K assms(4) show ?thesis by (simp add: fun_eq_iff)
  next
    case False
    with Suc.prems(4) m have "g' = g1" by simp
    with K False assms(4) show ?thesis by simp
  qed
qed simp

lemma kembalikan_semua_sah:
  assumes L: "lancar rows R l G" and "salinan_tetap rows g" "neraca rows R dasar ctx (inti g)" "kx_tanda ctx = Some a"
    and "run_state (kembalikan_semua G ctx is) g = (u, g')"
  shows "salinan_tetap rows g' \<and> neraca rows R dasar ctx (inti g') \<and> length (gb_tanda g') = length (gb_tanda g) \<and>
    (\<forall>i. tk_jangkar (gb_tanda g' ! a) i = (if i \<in> set is then [] else tk_jangkar (gb_tanda g ! a) i))"
  using assms(2,3,5)
proof (induction "is" arbitrary: g)
  case (Cons i "is")
  let ?n = "Suc (nat (tk_jumlah (gb_tanda g ! a) i))"
  obtain v g1 where m: "run_state (kembalikan_berulang G ctx i ?n) g = (v, g1)" by (meson surj_pair)
  have r: "run_state (kembalikan_semua G ctx is) g1 = (u, g')"
    using Cons.prems(3) m assms(4) by (simp add: tanda_di_def del: kembalikan_berulang.simps)
  have "tanda_sah (gb_tanda g ! a)" using Cons.prems(2) assms(4) by (auto simp: neraca_def inti_def)
  then have n: "length (tk_jangkar (gb_tanda g ! a) i) < ?n" by (simp add: tanda_sah_def)
  note B = kembalikan_berulang_sah [OF L Cons.prems(1,2) assms(4) n m]
  from Cons.IH [OF _ _ r] B show ?case by simp
qed simp

text \<open>The middleware and its refund.\<close>

lemma batas_permintaan_sah:
  assumes L: "lancar rows R l G" and p: "pemohon_rapi p ip" and g: "salinan_tetap rows g"
    and run: "run_state (batas_permintaan G l p ip) g = (h, g')"
  shows "salinan_tetap rows g' \<and> gb_tanda g' = gb_tanda g \<and>
    (case h of
       Lanjutkan t d \<Rightarrow> \<forall>k. baca R (gb_redis g') k = baca R (gb_redis g) k + tagih (cakupan_permintaan rows p ip) t k
     | _ \<Rightarrow> \<forall>k. baca R (gb_redis g') k = baca R (gb_redis g) k)"
proof -
  from L have L': "gu_R G = R" "lm_ada_redis l" "\<forall>n. gu_skrip G n = SkripBerhasil" "kebijakan_tetap rows G"
    by (auto simp: lancar_def)
  obtain t g1 where m1: "run_state (jam_kini G) g = (t, g1)" by (meson surj_pair)
  obtain sc g2 where m2: "run_state (minta_batas G (targets_for (ky_id (ph_key p)) (ph_owner p) [] ip) (limits_from_key (Some (ph_key p)))) g1 = (sc, g2)"
    by (meson surj_pair)
  have s1: "salinan_tetap rows g1" "inti g1 = inti g" using tetapD [OF tetap_inti_dasar(1) g m1] by simp_all
  note M2 = minta_batas_jalan [OF L'(4) s1(1) m2, folded cakupan_permintaan_def]
  obtain r' d where a: "allow_scopes_at R SkripBerhasil (l\<lparr>lm_resolver := Some (\<lambda>_ _. sc)\<rparr>) sc t (gb_redis g2) = (r', d)" by (meson surj_pair)
  have B: "baca R r' k = baca R (gb_redis g2) k + (if kp_allowed d then tagih sc t k else 0)" for k
    using izin_tagih [OF a] cakupan_permintaan_sah [OF p] M2 L'(2) by simp
  have res: "gb_redis g' = r'" "gb_tanda g' = gb_tanda g2" "gb_rates g' = gb_rates g2" "h = (if \<not> kp_allowed d then Ditolak429 d else Lanjutkan t d)"
    using run m1 m2 a by (auto simp: batas_permintaan_def resolver_def dengan_def limit_middleware_def L' split: prod.splits)
  show ?thesis using B M2 s1 by (auto simp: res inti_def salinan_tetap_def)
qed

lemma kembalikan_permintaan_sah:
  assumes L: "lancar rows R l G" and p: "pemohon_rapi p ip" and t: "kx_jangkar ctx = Some t"
    and g: "salinan_tetap rows g" "neraca rows R dasar ctx (inti g)"
    and le: "\<forall>k. 0 \<le> asal k" "\<forall>k. dasar k = asal k + tagih (cakupan_permintaan rows p ip) t k"
    and run: "run_state (kembalikan_permintaan G l ctx p ip) g = (u, g')"
  shows "salinan_tetap rows g' \<and> neraca rows R asal ctx (inti g') \<and> gb_tanda g' = gb_tanda g"
proof -
  from L have L': "gu_R G = R" "lm_ada_redis l" "\<forall>n. gu_skrip G n = SkripBerhasil" "kebijakan_tetap rows G"
    by (auto simp: lancar_def)
  obtain sc g2 where m2: "run_state (minta_batas G (targets_for (ky_id (ph_key p)) (ph_owner p) [] ip) (limits_from_key (Some (ph_key p)))) g = (sc, g2)"
    by (meson surj_pair)
  note M2 = minta_batas_jalan [OF L'(4) g(1) m2, folded cakupan_permintaan_def]
  have N: "neraca rows R dasar ctx (gb_redis g, gb_tanda g)" using g(2) by (simp add: inti_def)
  have nn: "0 \<le> sum_list (map (utang rows k) (gb_tanda g))" for k by (rule utang_di_nonneg)
  have le': "tagih (cakupan_permintaan rows p ip) t k \<le> baca R (gb_redis g) k" for k
    using N le nn [of k] by (simp add: neraca_def add_increasing2)
  have res: "gb_redis g' = refund_scopes_at R SkripBerhasil (l\<lparr>lm_resolver := Some (\<lambda>_ _. sc)\<rparr>) sc t (gb_redis g2)"
    "gb_tanda g' = gb_tanda g2" "gb_rates g' = gb_rates g2"
    using run m2 t by (auto simp: kembalikan_permintaan_def resolver_def dengan_def refund_request_def L' split: prod.splits)
  have B: "baca R (gb_redis g') k = baca R (gb_redis g) k - tagih (cakupan_permintaan rows p ip) t k" for k
    unfolding res(1) using kembalikan_tagih [OF _ cakupan_permintaan_sah [OF p, of rows]] M2 L'(2) neraca_nonneg [OF N] le'
    by (simp add: inti_def)
  show ?thesis using N M2 B le by (auto simp: res neraca_def inti_def salinan_tetap_def)
qed

lemma neraca_lunas:
  assumes "neraca rows R asal ctx (r, ts)" "\<forall>a. kx_tanda ctx = Some a \<longrightarrow> tanda_lunas (ts ! a)"
  shows "baca R r k = asal k" and "\<forall>h\<in>set ts. tanda_lunas h"
proof -
  have l: "\<forall>h\<in>set ts. tanda_lunas h"
  proof
    fix h assume "h \<in> set ts"
    then obtain a where "a < length ts" "h = ts ! a" by (auto simp: in_set_conv_nth)
    with assms show "tanda_lunas h" by (cases "kx_tanda ctx = Some a") (auto simp: neraca_def)
  qed
  then have "map (utang rows k) ts = map (\<lambda>_. 0) ts" by (intro map_cong) (auto simp: utang_lunas)
  then have "sum_list (map (utang rows k) ts) = 0" by (metis sum_list_0)
  with assms(1) show "baca R r k = asal k" by (simp add: neraca_def)
  show "\<forall>h\<in>set ts. tanda_lunas h" by (rule l)
qed

text \<open>\<^verbatim>\<open>KembalikanKuota\<close> gives back everything the request has counted.\<close>

lemma kembalikan_kuota_sah:
  assumes L: "lancar rows R l G" and p: "pemohon_rapi p ip" and t: "kx_jangkar ctx = Some t"
    and g: "salinan_tetap rows g" "neraca rows R dasar ctx (inti g)"
    and le: "\<forall>k. 0 \<le> asal k" "\<forall>k. dasar k = asal k + tagih (cakupan_permintaan rows p ip) t k"
    and run: "run_state (kembalikan_kuota G ctx p ip) g = (u, g')"
  shows "salinan_tetap rows g' \<and> neraca rows R asal ctx (inti g') \<and> (\<forall>h\<in>set (gb_tanda g'). tanda_lunas h) \<and> (\<forall>k. baca R (gb_redis g') k = asal k)"
proof -
  from L have l: "gu_limiter G = Some l" by (simp add: lancar_def)
  obtain v g1 where m1: "run_state (kembalikan_permintaan G l ctx p ip) g = (v, g1)" by (meson surj_pair)
  note M1 = kembalikan_permintaan_sah [OF L p t g le m1]
  define daftar where "daftar = (case tanda_di ctx g1 of None \<Rightarrow> [] | Some t \<Rightarrow> terdaftar t)"
  have run2: "run_state (kembalikan_semua G ctx daftar) g1 = (u, g')"
    using run m1 l by (simp add: kembalikan_kuota_def semua_kuota_model_terbakar_def daftar_def)
  have "salinan_tetap rows g' \<and> neraca rows R asal ctx (inti g') \<and> (\<forall>a. kx_tanda ctx = Some a \<longrightarrow> tanda_lunas (gb_tanda g' ! a))"
  proof (cases "kx_tanda ctx")
    case None
    then have "daftar = []" by (simp add: daftar_def tanda_di_def)
    with run2 have "g' = g1" by simp
    with M1 None show ?thesis by simp
  next
    case (Some a)
    note K = kembalikan_semua_sah [OF L conjunct1 [OF M1] conjunct1 [OF conjunct2 [OF M1]] Some run2]
    have "tanda_sah (gb_tanda g1 ! a)" using M1 Some by (auto simp: neraca_def inti_def)
    then have "tk_jangkar (gb_tanda g1 ! a) i = []" if "i \<notin> set daftar" for i
      using that Some by (auto simp: daftar_def tanda_di_def terdaftar_def tanda_sah_def)
    with K Some show ?thesis by (simp add: tanda_lunas_def)
  qed
  then have A: "salinan_tetap rows g'" "neraca rows R asal ctx (inti g')" "\<forall>a. kx_tanda ctx = Some a \<longrightarrow> tanda_lunas (gb_tanda g' ! a)" by blast+
  from neraca_lunas [OF A(2) [unfolded inti_def] A(3)] A show ?thesis by simp
qed

end

section \<open>Remembered decisions\<close>

definition cakupan_provider :: "rate_limit_row list \<Rightarrow> string \<Rightarrow> scope_limits list" where
  "cakupan_provider rows i = requests_loop (salinan_baru (bangun_batas rows)) limits_kosong [\<lparr>tg_scope = ps_provider, tg_id = i\<rparr>]"

definition memo_sah :: "(string \<times> entri_memo) list \<Rightarrow> bool" where
  "memo_sah xs \<longleftrightarrow> (\<forall>k m. map_of xs k = Some m \<longrightarrow> em_err m = None \<longrightarrow> em_sampai m = waktu_nol)"

definition diingat :: "(string \<times> entri_memo) list \<Rightarrow> string \<Rightarrow> bool" where
  "diingat xs pid \<longleftrightarrow> map_of xs (kunci_kebijakan pid) = Some \<lparr>em_err = None, em_sampai = waktu_nol\<rparr>"

lemma kunci_kebijakan_eq [simp]: "kunci_kebijakan p = kunci_kebijakan q \<longleftrightarrow> p = q"
  by (simp add: kunci_kebijakan_def)

lemma cakupan_provider_sah: "i = [] \<or> rapi i \<Longrightarrow> cakupan_sah (cakupan_provider rows i)"
  unfolding cakupan_provider_def by (rule requests_loop_sah) (auto simp: id_untuk_def ps_provider_def ps_global_def)

text \<open>Looking a decision up: an admission stays, a refusal is dropped once its time is over.\<close>

lemma memo_ambil_sah:
  assumes "kx_memo ctx = Some a" "a < length (gb_memo g)" "memo_sah (gb_memo g ! a)"
    and "run_state (memo_ambil G ctx (kunci_kebijakan pid)) g = (m, g')"
  shows "gb_redis g' = gb_redis g \<and> gb_rates g' = gb_rates g \<and> a < length (gb_memo g') \<and> memo_sah (gb_memo g' ! a) \<and>
    (\<forall>q. diingat (gb_memo g' ! a) q \<longleftrightarrow> diingat (gb_memo g ! a) q) \<and>
    (m = Some None \<longleftrightarrow> diingat (gb_memo g ! a) pid)"
proof -
  let ?x = "gb_memo g ! a" and ?k = "kunci_kebijakan pid"
  show ?thesis
  proof (cases "map_of ?x ?k")
    case None
    then show ?thesis using assms by (auto simp: memo_ambil_def jam_kini_def dengan_def diingat_def)
  next
    case (Some e)
    show ?thesis
    proof (cases "em_sampai e \<noteq> waktu_nol \<and> \<not> gu_jam G (gb_n g) < em_sampai e")
      case True
      then have "m = None \<and> g' = g\<lparr>gb_n := Suc (gb_n g), gb_memo := (gb_memo g)[a := AList.delete ?k ?x]\<rparr>"
        using assms Some by (simp add: memo_ambil_def jam_kini_def dengan_def)
      moreover have "memo_sah (AList.delete ?k ?x)" using assms(3) by (auto simp: memo_sah_def delete_conv')
      moreover have "\<not> diingat ?x pid" using Some True by (auto simp: diingat_def)
      ultimately show ?thesis using assms(2) by (auto simp: diingat_def delete_conv')
    next
      case False
      then have "m = Some (em_err e) \<and> g' = g\<lparr>gb_n := Suc (gb_n g)\<rparr>"
        using assms Some by (auto simp: memo_ambil_def jam_kini_def dengan_def)
      moreover have "em_err e = None \<longleftrightarrow> diingat ?x pid"
        using Some assms(3) [unfolded memo_sah_def, rule_format, OF Some] by (cases e) (auto simp: diingat_def)
      ultimately show ?thesis using assms by auto
    qed
  qed
qed

lemma memo_simpan_sah:
  assumes "kx_memo ctx = Some a" "a < length (gb_memo g)" "memo_sah (gb_memo g ! a)"
    and "run_state (memo_simpan G ctx (kunci_kebijakan pid) e) g = (u, g')" and "\<not> diingat (gb_memo g ! a) pid"
  shows "gb_redis g' = gb_redis g \<and> gb_rates g' = gb_rates g \<and> a < length (gb_memo g') \<and> memo_sah (gb_memo g' ! a) \<and>
    (\<forall>q. diingat (gb_memo g' ! a) q \<longleftrightarrow> diingat (gb_memo g ! a) q \<or> q = pid \<and> e = None)"
  using assms by (auto simp: memo_simpan_def jam_kini_def dengan_def diingat_def memo_sah_def update_conv' split: option.splits if_splits)

fun cek_provider :: "('r, 's) guard \<Rightarrow> konteks \<Rightarrow> string list \<Rightarrow> (('r, 's) gerbang, perror option list) aksi" where
  "cek_provider G ctx [] = kembali []"
| "cek_provider G ctx (p # ps) = do {
     e \<leftarrow> periksa_batas_provider G ctx p p; es \<leftarrow> cek_provider G ctx ps; kembali (e # es) }"

context redis_counter begin

lemma periksa_segar_sah:
  assumes L: "lancar rows R l G" and p: "rapi pid" and g: "salinan_tetap rows g"
    and run: "run_state (periksa_batas_provider_segar G l pid pname) g = (e, g')"
  shows "salinan_tetap rows g' \<and> gb_memo g' = gb_memo g \<and>
    (\<exists>t. \<forall>k. baca R (gb_redis g') k = baca R (gb_redis g) k + (if e = None then tagih (cakupan_provider rows pid) t k else 0))"
proof -
  from L have L': "gu_R G = R" "lm_ada_redis l" "\<forall>n. gu_skrip G n = SkripBerhasil" "kebijakan_tetap rows G" by (auto simp: lancar_def)
  obtain sc g1 where m1: "run_state (minta_batas G [\<lparr>tg_scope = ps_provider, tg_id = pid\<rparr>] limits_kosong) g = (sc, g1)" by (meson surj_pair)
  have M1: "sc = cakupan_provider rows pid" "salinan_tetap rows g1" "gb_redis g1 = gb_redis g" "gb_memo g1 = gb_memo g"
    using minta_batas_jalan [OF L'(4) g m1] m1 by (auto simp: cakupan_provider_def inti_def minta_batas_def dengan_def split: prod.splits)
  show ?thesis
  proof (cases "sc = []")
    case True
    with run m1 have "e = None" "g' = g1" by (simp_all add: periksa_batas_provider_segar_def)
    with M1 True show ?thesis by (simp add: tagih_def jendela_cakupan_def)
  next
    case False
    define t where "t = gu_jam G (gb_n g1)"
    obtain r d where a: "allow_scopes_at R SkripBerhasil l sc t (gb_redis g) = (r, d)" by (meson surj_pair)
    have "g' = g1\<lparr>gb_n := Suc (Suc (gb_n g1)), gb_redis := r\<rparr>" "e = None \<longleftrightarrow> kp_allowed d"
      using run m1 False a M1(3) L' by (auto simp: periksa_batas_provider_segar_def izinkan_cakupan_def izinkan_pada_def jam_kini_def dengan_def t_def split: if_splits)
    then show ?thesis
      using izin_tagih [OF a L'(2)] cakupan_provider_sah [of pid rows] p M1 by (auto simp: salinan_tetap_def)
  qed
qed

lemma periksa_provider_sah:
  assumes L: "lancar rows R l G" and p: "rapi pid" and g: "salinan_tetap rows g"
    and a: "kx_memo ctx = Some a" "a < length (gb_memo g)" "memo_sah (gb_memo g ! a)"
    and run: "run_state (periksa_batas_provider G ctx pid pname) g = (e, g')"
  shows "salinan_tetap rows g' \<and> a < length (gb_memo g') \<and> memo_sah (gb_memo g' ! a) \<and>
    (\<forall>q. diingat (gb_memo g' ! a) q \<longleftrightarrow> diingat (gb_memo g ! a) q \<or> q = pid \<and> e = None) \<and>
    (diingat (gb_memo g ! a) pid \<longrightarrow> e = None) \<and>
    (\<exists>t. \<forall>k. baca R (gb_redis g') k = baca R (gb_redis g) k +
       (if e = None \<and> \<not> diingat (gb_memo g ! a) pid then tagih (cakupan_provider rows pid) t k else 0))"
proof -
  from p have p0: "pid \<noteq> []" by (auto simp: rapi_def)
  from L have L': "gu_rates G" "gu_limiter G = Some l" by (auto simp: lancar_def)
  obtain m g1 where m1: "run_state (memo_ambil G ctx (kunci_kebijakan pid)) g = (m, g1)" by (meson surj_pair)
  note M1 = memo_ambil_sah [OF a m1]
  have s1: "salinan_tetap rows g1" using g M1 by (simp add: salinan_tetap_def)
  show ?thesis
  proof (cases m)
    case (Some e0)
    then have "e = e0" "g' = g1" using run m1 p0 L' by (simp_all add: periksa_batas_provider_def dengan_memo_def)
    then show ?thesis using M1 s1 Some by auto
  next
    case None
    obtain e2 g2 where m2: "run_state (periksa_batas_provider_segar G l pid pname) g1 = (e2, g2)" by (meson surj_pair)
    obtain u g3 where m3: "run_state (memo_simpan G ctx (kunci_kebijakan pid) e2) g2 = (u, g3)" by (meson surj_pair)
    have res: "e = e2" "g' = g3" using run m1 m2 m3 None p0 L' by (simp_all add: periksa_batas_provider_def dengan_memo_def)
    note M2 = periksa_segar_sah [OF L p s1 m2]
    have x2: "a < length (gb_memo g2)" "memo_sah (gb_memo g2 ! a)" "\<forall>q. diingat (gb_memo g2 ! a) q \<longleftrightarrow> diingat (gb_memo g ! a) q"
      "\<not> diingat (gb_memo g2 ! a) pid" using M1 M2 None by auto
    note M3 = memo_simpan_sah [OF a(1) x2(1,2) m3 x2(4)]
    have "salinan_tetap rows g3" using M2 M3 by (simp add: salinan_tetap_def)
    moreover obtain t where "\<forall>k. baca R (gb_redis g2) k = baca R (gb_redis g1) k + (if e2 = None then tagih (cakupan_provider rows pid) t k else 0)"
      using M2 by blast
    ultimately show ?thesis using M1 M3 x2 by (auto simp: res)
  qed
qed

text \<open>Any sequence of checks of one request, over any providers.\<close>

lemma cek_provider_sah:
  assumes L: "lancar rows R l G" and "kx_memo ctx = Some a"
    and "\<forall>p\<in>set ps. rapi p" "salinan_tetap rows g" "a < length (gb_memo g)" "memo_sah (gb_memo g ! a)"
    and "run_state (cek_provider G ctx ps) g = (es, g')"
  shows "length es = length ps \<and> (\<forall>j<length ps. diingat (gb_memo g ! a) (ps ! j) \<longrightarrow> es ! j = None) \<and>
    (\<forall>i j. i < j \<longrightarrow> j < length ps \<longrightarrow> ps ! i = ps ! j \<longrightarrow> es ! i = None \<longrightarrow> es ! j = None) \<and>
    (\<exists>t. \<forall>k. baca R (gb_redis g') k = baca R (gb_redis g) k +
       (\<Sum>p\<in>{p. (p, None) \<in> set (zip ps es) \<and> \<not> diingat (gb_memo g ! a) p}. tagih (cakupan_provider rows p) (t p) k))"
  using assms(3-)
proof (induction ps arbitrary: g es)
  case (Cons p ps)
  obtain e g1 where m1: "run_state (periksa_batas_provider G ctx p p) g = (e, g1)" by (meson surj_pair)
  obtain es' where m2: "run_state (cek_provider G ctx ps) g1 = (es', g')" and es: "es = e # es'"
    using Cons.prems(5) m1 by (auto split: prod.splits)
  from Cons.prems have "rapi p" by simp
  note K = periksa_provider_sah [OF L this Cons.prems(2) assms(2) Cons.prems(3,4) m1]
  have IH: "length es' = length ps \<and> (\<forall>j<length ps. diingat (gb_memo g1 ! a) (ps ! j) \<longrightarrow> es' ! j = None) \<and>
    (\<forall>i j. i < j \<longrightarrow> j < length ps \<longrightarrow> ps ! i = ps ! j \<longrightarrow> es' ! i = None \<longrightarrow> es' ! j = None) \<and>
    (\<exists>t. \<forall>k. baca R (gb_redis g') k = baca R (gb_redis g1) k +
       (\<Sum>p\<in>{p. (p, None) \<in> set (zip ps es') \<and> \<not> diingat (gb_memo g1 ! a) p}. tagih (cakupan_provider rows p) (t p) k))"
    by (rule Cons.IH [OF _ _ _ _ m2]) (use Cons.prems K in auto)
  let ?S = "\<lambda>ps es g. {p. (p, None) \<in> set (zip ps es) \<and> \<not> diingat (gb_memo g ! a) p}"
  from IH obtain t where t: "\<And>k. baca R (gb_redis g') k = baca R (gb_redis g1) k + (\<Sum>q\<in>?S ps es' g1. tagih (cakupan_provider rows q) (t q) k)" by blast
  from K obtain t0 where t0: "\<And>k. baca R (gb_redis g1) k = baca R (gb_redis g) k +
      (if e = None \<and> \<not> diingat (gb_memo g ! a) p then tagih (cakupan_provider rows p) t0 k else 0)" by blast
  have fin: "finite (?S ps es' g1)" by (rule finite_subset [of _ "set ps"]) (auto dest: set_zip_leftD)
  have "\<exists>t. \<forall>k. baca R (gb_redis g') k = baca R (gb_redis g) k + (\<Sum>q\<in>?S (p # ps) es g. tagih (cakupan_provider rows q) (t q) k)"
  proof (cases "e = None \<and> \<not> diingat (gb_memo g ! a) p")
    case True
    have S: "?S (p # ps) es g = insert p (?S ps es' g1)" "p \<notin> ?S ps es' g1" using K True by (auto simp: es)
    have "(\<Sum>q\<in>?S (p # ps) es g. tagih (cakupan_provider rows q) ((t(p := t0)) q) k) =
      tagih (cakupan_provider rows p) t0 k + (\<Sum>q\<in>?S ps es' g1. tagih (cakupan_provider rows q) (t q) k)" for k
      unfolding S(1) using fin S(2) by (subst sum.insert) (auto intro!: sum.cong)
    then show ?thesis using t t0 True by (intro exI [of _ "t(p := t0)"]) simp
  next
    case False
    then have "?S (p # ps) es g = ?S ps es' g1" using K by (auto simp: es)
    then show ?thesis using t t0 False by (intro exI [of _ t]) auto
  qed
  moreover have "es ! j = None" if "j < length (p # ps)" "diingat (gb_memo g ! a) ((p # ps) ! j)" for j
    using that K IH by (cases j) (auto simp: es)
  moreover have "es ! j = None" if "i < j" "j < length (p # ps)" "(p # ps) ! i = (p # ps) ! j" "es ! i = None" for i j
    using that K IH by (cases j; cases i) (auto simp: es)
  ultimately show ?case using IH by (auto simp: es)
qed (auto intro!: exI)

end

text \<open>A provider is barred by the rules of the content filter.\<close>

lemma check_rules_provider:
  assumes "pid \<noteq> []"
  shows "vf_blocked (check_rules habis penuh as (subject_kosong\<lparr>su_provider_id := pid\<rparr>)) \<longleftrightarrow>
    (\<exists>a\<in>set as. cf_action (af_row a) \<noteq> action_warn \<and> cf_kind (af_row a) = filter_provider_restriction \<and>
       cf_applies_to (af_row a) \<noteq> applies_to_response \<and> cf_provider_id (af_row a) = pid)"
proof -
  let ?s = "subject_kosong\<lparr>su_provider_id := pid\<rparr>"
  have beda: "applies_to_response \<noteq> applies_to_request" by (simp add: applies_to_response_def applies_to_request_def)
  have m: "melanggar_isi habis penuh a ?s \<longleftrightarrow> cf_kind (af_row a) = filter_provider_restriction \<and>
      cf_applies_to (af_row a) \<noteq> applies_to_response \<and> cf_provider_id (af_row a) = pid" for a
    using assms by (auto simp: melanggar_isi_def subject_kosong_def berlaku_arah_def Let_def beda)
  have b: "\<not> melanggar_buta a ?s" for a by (simp add: melanggar_buta_def subject_kosong_def)
  have "List.find (\<lambda>a. melanggar_buta a ?s \<and> memblokir a) as = None" by (simp add: find_None_iff b)
  then have "vf_blocked (check_rules habis penuh as ?s) \<longleftrightarrow> List.find (\<lambda>a. melanggar_isi habis penuh a ?s \<and> memblokir a) as \<noteq> None"
    unfolding check_rules_find(2) check_rules_find(1) by (simp split: option.split)
  then show ?thesis by (auto simp: m memblokir_def find_None_iff)
qed

section \<open>The marks by themselves\<close>

text \<open>
  Any sequence of increments and claims; the log has the increments and the claims so far, and is what
  the marks remember of it.
\<close>

inductive tanda_run :: "tanda_kuota \<Rightarrow> (string \<times> waktu) list \<Rightarrow> (string \<times> waktu) list \<Rightarrow> bool" where
  tr_awal: "tanda_run tanda_baru [] []"
| tr_tambah: "tanda_run h naik turun \<Longrightarrow> tanda_run (tambah i t h) (naik @ [(i, t)]) turun"
| tr_klaim: "tanda_run h naik turun \<Longrightarrow> klaim i h = Klaim t h' \<Longrightarrow> tanda_run h' naik (turun @ [(i, t)])"

definition untuk_model :: "string \<Rightarrow> (string \<times> waktu) list \<Rightarrow> waktu list" where
  "untuk_model i xs = map snd (filter (\<lambda>x. fst x = i) xs)"

lemma untuk_model_snoc [simp]: "untuk_model i [] = []"
  "untuk_model i (xs @ [(j, t)]) = untuk_model i xs @ (if j = i then [t] else [])"
  by (simp_all add: untuk_model_def)

lemma tanda_run_sah:
  "tanda_run h naik turun \<Longrightarrow> (\<forall>i. tk_jumlah h i = int (length (tk_jangkar h i))) \<and>
     (\<forall>i. i \<notin> set (tk_kunci h) \<longrightarrow> tk_jangkar h i = []) \<and>
     (\<forall>i. untuk_model i naik = untuk_model i turun @ tk_jangkar h i)"
proof (induction rule: tanda_run.induct)
  case (tr_klaim h naik turun i t h')
  then show ?case by (auto simp: klaim_def split: list.splits if_splits)
qed (auto simp: tanda_baru_def tambah_def)

section \<open>Properties\<close>

text \<open>In every order of increments and claims the marks of a request stay consistent: a claim never runs
  into an empty list, per model the claims are the first increments in their order, so each increment is
  given back at most once and at its own time, and the models listed are those with increments left.\<close>

theorem quota_marks_consistent:
  assumes "tanda_run h naik turun"
  shows "klaim i h \<noteq> KlaimPanik \<and> (\<exists>sisa. untuk_model i naik = untuk_model i turun @ sisa \<and>
      (case klaim i h of Klaim t h' \<Rightarrow> \<exists>sisa'. sisa = t # sisa' | _ \<Rightarrow> sisa = []) \<and> (i \<in> set (terdaftar h) \<longleftrightarrow> sisa \<noteq> [])) \<and>
    sorted (terdaftar h)"
proof -
  note S = tanda_run_sah [OF assms]
  then have "case klaim i h of KlaimKosong \<Rightarrow> tk_jangkar h i = [] | Klaim t h' \<Rightarrow> \<exists>ts. tk_jangkar h i = t # ts | KlaimPanik \<Rightarrow> False"
    by (cases "tk_jangkar h i") (auto simp: klaim_def)
  moreover have "i \<in> set (terdaftar h) \<longleftrightarrow> tk_jangkar h i \<noteq> []" using S by (auto simp: terdaftar_def)
  ultimately show ?thesis using S by (auto simp: terdaftar_def split: klaim_hasil.splits intro: exI [of _ "tk_jangkar h i"])
qed

lemma quota_marks_consistent_witness:
  "klaim ''m'' (tambah ''m'' 5 (tambah ''m'' 3 tanda_baru)) \<noteq> KlaimPanik \<and> sorted (terdaftar (tambah ''m'' 5 (tambah ''m'' 3 tanda_baru)))"
  using quota_marks_consistent [OF tr_tambah [OF tr_tambah [OF tr_awal, of "''m''" 3], of "''m''" 5], of "''m''"] by blast

definition contoh_guard :: "rate_limit_row list \<Rightarrow> (simpanan_penghitung, unit) guard" where
  "contoh_guard rows = \<lparr>gu_R = mem_counters, gu_P = \<lparr>pn_ambang = (\<lambda>_ s. (s, Inr False)), pn_terlampaui = (\<lambda>_ s. (s, Inr False))\<rparr>,
     gu_filters = True, gu_budgets = False, gu_rates = True, gu_limiter = Some contoh_limiter, gu_webhooks = True, gu_jam = int,
     gu_skrip = (\<lambda>_. SkripBerhasil), gu_batas = (\<lambda>_. Some (Inr rows)), gu_filter = (\<lambda>_. None), gu_anggaran = (\<lambda>_. None),
     gu_kompilasi = (\<lambda>_. None), gu_habis = (\<lambda>_ _ _. False), gu_penuh = (\<lambda>_. False)\<rparr>"

definition contoh_gerbang :: "rate_limit_row list \<Rightarrow> (simpanan_penghitung, unit) gerbang" where
  "contoh_gerbang rows = \<lparr>gb_n = 0, gb_redis = [], gb_rates = salinan_baru (bangun_batas rows), gb_filters = new_filter_engine,
     gb_budgets = new_enforcer, gb_penanda = (), gb_peristiwa = [], gb_tanda = [], gb_memo = [], gb_engine = new_engine\<rparr>"

lemma contoh_lancar: "lancar rows mem_counters contoh_limiter (contoh_guard rows)" "salinan_tetap rows (contoh_gerbang rows)"
  by (simp_all add: lancar_def contoh_guard_def kebijakan_tetap_def contoh_limiter_def salinan_tetap_def contoh_gerbang_def salinan_baru_def)

text \<open>
  Why every script has to succeed: one request counts against the limit of model m1, a second one is admitted only
  because its script failed, and giving that second one back lowers the counters to which the first had contributed.
\<close>

definition contoh_guard_gagal :: "(simpanan_penghitung, unit) guard" where
  "contoh_guard_gagal = (contoh_guard [contoh_row\<lparr>rl_scope := ps_model, rl_scope_id := ''m1''\<rparr>])\<lparr>gu_jam := (\<lambda>_. 0),
     gu_skrip := (\<lambda>n. if 3 \<le> n \<and> n < 6 then SkripGagal False else SkripBerhasil)\<rparr>"

lemma failed_script_refunds:
  "let g1 = snd (run_state (periksa_batas_model contoh_guard_gagal konteks_kosong ''m1'') (contoh_gerbang []));
       ((ctx, tolak), g2) = run_state (periksa_batas_model contoh_guard_gagal konteks_kosong ''m1'') g1;
       g3 = snd (run_state (kembalikan_kuota_model contoh_guard_gagal ctx ''m1'') g2);
       k = ''routex:rl:model:m1:rps-0''
   in tolak = None \<and> map (\<lambda>g. baca mem_counters (gb_redis g) k) [g1, g2, g3] = [1, 1, 0]"
  by code_simp

text \<open>A policy row of provider scope, so that the provider of the witness has limits.\<close>

definition contoh_row_provider :: rate_limit_row where
  "contoh_row_provider = contoh_row\<lparr>rl_scope := ps_provider, rl_scope_id := ''p1''\<rparr>"

text \<open>C19. However often and in whatever order one request tries providers, the limits that the rate-limit
  policies set for a provider (not those of the provider's own columns, which another check reads) are charged for it
  at most once, at one time, and exactly if the provider was admitted; a provider once admitted stays admitted
  for the request.  This holds while every Redis script succeeds and the copy of the policies does not change
  during the request; with Redis failing, a provider is admitted and not charged.\<close>

theorem provider_quota_once:
  assumes "lancar rows mem_counters l G" and "salinan_tetap rows g" and "\<forall>p\<in>set ps. rapi p" and "kx_memo ctx = None"
    and "run_state (do { ctx' \<leftarrow> dengan_memo_batas ctx; cek_provider G ctx' ps }) g = (es, g')"
  shows "length es = length ps \<and>
    (\<forall>i j. i < j \<longrightarrow> j < length ps \<longrightarrow> ps ! i = ps ! j \<longrightarrow> es ! i = None \<longrightarrow> es ! j = None) \<and>
    (\<exists>t. \<forall>k. baca mem_counters (gb_redis g') k = baca mem_counters (gb_redis g) k +
       (\<Sum>p\<in>{p. (p, None) \<in> set (zip ps es)}. tagih (cakupan_provider rows p) (t p) k))"
proof -
  define ctx' where "ctx' = ctx\<lparr>kx_memo := Some (length (gb_memo g))\<rparr>"
  define g1 where "g1 = g\<lparr>gb_memo := gb_memo g @ [[]]\<rparr>"
  have run: "run_state (cek_provider G ctx' ps) g1 = (es, g')" using assms(4,5) by (simp add: dengan_memo_batas_def ctx'_def g1_def)
  have "\<not> diingat [] p" for p by (simp add: diingat_def)
  with memk.cek_provider_sah [OF assms(1) _ assms(3) _ _ _ run, of "length (gb_memo g)"] assms(2) show ?thesis
    by (simp add: ctx'_def g1_def salinan_tetap_def memo_sah_def)
qed

lemma provider_quota_once_witness:
  "\<exists>g' t. run_state (do { ctx \<leftarrow> dengan_memo_batas konteks_kosong; cek_provider (contoh_guard [contoh_row_provider]) ctx [''p1'', ''p1''] })
     (contoh_gerbang [contoh_row_provider]) = ([None, None], g') \<and>
     map (\<lambda>c. (sc_scope c, sc_id c)) (cakupan_provider [contoh_row_provider] ''p1'') = [(''provider'', ''p1'')] \<and>
     (\<forall>k. baca mem_counters (gb_redis g') k = tagih (cakupan_provider [contoh_row_provider] ''p1'') t k)"
proof -
  let ?m = "do { ctx \<leftarrow> dengan_memo_batas konteks_kosong; cek_provider (contoh_guard [contoh_row_provider]) ctx [''p1'', ''p1''] }"
  have "fst (run_state ?m (contoh_gerbang [contoh_row_provider])) = [None, None]" by code_simp
  then obtain g' where r: "run_state ?m (contoh_gerbang [contoh_row_provider]) = ([None, None], g')" by (metis prod.collapse)
  have p: "\<forall>p\<in>set [''p1'', ''p1'']. rapi p" by code_simp
  have n: "kx_memo konteks_kosong = None" by (simp add: konteks_kosong_def)
  have z: "baca mem_counters (gb_redis (contoh_gerbang [contoh_row_provider])) k = 0" for k
    by (simp add: contoh_gerbang_def baca_def mem_counters_def)
  have s: "{p. (p, None) \<in> set (zip [''p1'', ''p1''] [None, None :: perror option])} = {''p1''}" by auto
  have c: "map (\<lambda>c. (sc_scope c, sc_id c)) (cakupan_provider [contoh_row_provider] ''p1'') = [(''provider'', ''p1'')]" by code_simp
  from provider_quota_once [OF contoh_lancar p n r] obtain t where
    q: "\<forall>k. baca mem_counters (gb_redis g') k = tagih (cakupan_provider [contoh_row_provider] ''p1'') (t ''p1'') k"
    unfolding s z by auto
  show ?thesis by (intro exI conjI, rule r, rule c, rule q)
qed

text \<open>The filter of candidates drops a provider exactly if a blocking rule of the copy in force restricts
  that provider for requests; no other kind of rule can, and an empty id is never dropped.\<close>

theorem provider_barred_exactly:
  assumes "run_state (provider_dilarang G pid) g = (b, g')"
  shows "b \<longleftrightarrow> gu_filters G \<and> pid \<noteq> [] \<and>
    (\<exists>a\<in>set (mf_aturan (gb_filters g')). cf_action (af_row a) \<noteq> action_warn \<and> cf_kind (af_row a) = filter_provider_restriction \<and>
       cf_applies_to (af_row a) \<noteq> applies_to_response \<and> cf_provider_id (af_row a) = pid)"
  using assms check_rules_provider [of pid]
  by (auto simp: provider_dilarang_def periksa_isi_def dengan_def check_filter_def Let_def split: if_splits prod.splits)

lemma provider_barred_exactly_witness:
  "\<not> fst (run_state (provider_dilarang (contoh_guard []) ''p1'') (contoh_gerbang []))"
proof -
  obtain b g' where r: "run_state (provider_dilarang (contoh_guard []) ''p1'') (contoh_gerbang []) = (b, g')" by (meson surj_pair)
  then have "mf_aturan (gb_filters g') = []"
    by (auto simp: provider_dilarang_def periksa_isi_def dengan_def check_filter_def muat_filter_def contoh_guard_def contoh_gerbang_def new_filter_engine_def)
  with provider_barred_exactly [OF r] r show ?thesis by simp
qed

end
