(* ===== verification/Json.thy ===== *)
theory Json
  imports Complex_Main Money
begin

text \<open>
  What the code uses of \<^verbatim>\<open>encoding/json\<close>.  A raw message is a value together with the text it was read
  from, so that both its length and its content can be asked for; parsing itself is not modelled.
  Reading into a Go variable is a partial function.  A struct field is read from every entry whose name matches it up to
  case, one after the other: each has to fit, the last one counts, and \<^verbatim>\<open>null\<close> leaves a string, a number, a truth value or a
  nested struct as it is but clears a pointer or a slice (that two objects given for one nested struct are merged field
  by field is not modelled: the later one replaces the earlier).  Strings are bytes, and valid UTF-8, as
  the decoder leaves them.
\<close>

section \<open>Values\<close>

datatype json = Nilai (sumber: string) (isi: isi)
  and isi = JNull | JBool bool | JNum | JStr string | JArr "json list" | JObj "(string \<times> json) list"

text \<open>The value of a number literal; its text is the source.\<close>

definition nat_desimal :: "string \<Rightarrow> nat" where
  "nat_desimal s = foldl (\<lambda>n c. n * 10 + digit_val c) 0 s"

definition int_desimal :: "string \<Rightarrow> int" where
  "int_desimal s = (case s of
      [] \<Rightarrow> 0
    | c # cs \<Rightarrow> if c = CHR ''-'' then - int (nat_desimal cs) else if c = CHR ''+'' then int (nat_desimal cs) else int (nat_desimal s))"

definition nilai_desimal :: "string \<Rightarrow> rat" where
  "nilai_desimal s =
     (let neg = has_prefix s ''-'';
          t = (if neg then drop 1 s else s);
          bulat = takeWhile is_digit t;
          t1 = dropWhile is_digit t;
          pecahan = (if has_prefix t1 ''.'' then takeWhile is_digit (drop 1 t1) else []);
          t2 = (if has_prefix t1 ''.'' then dropWhile is_digit (drop 1 t1) else t1);
          pangkat = (if t2 = [] then 0 else int_desimal (drop 1 t2));
          q = of_nat (nat_desimal (bulat @ pecahan)) * (10 powi (pangkat - int (length pecahan)))
      in if neg then - q else q)"

section \<open>Reading into Go variables\<close>

text \<open>An absent field keeps the zero value, and so does \<^verbatim>\<open>null\<close>.\<close>

definition u_teks :: "json \<Rightarrow> string option" where
  "u_teks j = (case isi j of JNull \<Rightarrow> Some [] | JStr s \<Rightarrow> Some s | _ \<Rightarrow> None)"

definition u_int :: "json \<Rightarrow> int option" where
  "u_int j = (case isi j of
      JNull \<Rightarrow> Some 0
    | JNum \<Rightarrow> (case parse_int (sumber j) of Inr n \<Rightarrow> Some n | Inl _ \<Rightarrow> None)
    | _ \<Rightarrow> None)"

definition batas_float :: rat where "batas_float = 2 ^ 1024 - 2 ^ 970"

definition u_float :: "json \<Rightarrow> rat option" where
  "u_float j = (case isi j of
      JNull \<Rightarrow> Some 0
    | JNum \<Rightarrow> (if \<bar>nilai_desimal (sumber j)\<bar> < batas_float then Some (nilai_desimal (sumber j)) else None)
    | _ \<Rightarrow> None)"

definition u_bool :: "json \<Rightarrow> bool option" where
  "u_bool j = (case isi j of JNull \<Rightarrow> Some False | JBool b \<Rightarrow> Some b | _ \<Rightarrow> None)"

definition u_larik :: "(json \<Rightarrow> 'a option) \<Rightarrow> json \<Rightarrow> 'a list option" where
  "u_larik f j = (case isi j of JNull \<Rightarrow> Some [] | JArr xs \<Rightarrow> those (map f xs) | _ \<Rightarrow> None)"

text \<open>A pointer is nil for \<^verbatim>\<open>null\<close>.\<close>

definition u_ptr :: "(json \<Rightarrow> 'a option) \<Rightarrow> json \<Rightarrow> 'a option option" where
  "u_ptr f j = (if isi j = JNull then Some None else map_option Some (f j))"

text \<open>The fields of a struct: \<^verbatim>\<open>null\<close> has none.\<close>

definition u_bidang :: "json \<Rightarrow> (string \<times> json) list option" where
  "u_bidang j = (case isi j of JNull \<Rightarrow> Some [] | JObj kvs \<Rightarrow> Some kvs | _ \<Rightarrow> None)"

text \<open>
  The entries of one field in their order, those that are not \<^verbatim>\<open>null\<close>, and the last entry, which a raw message
  keeps.  \<open>u_opsi\<close> reads a variable from all its entries: from \<open>semua\<close> for a pointer, a slice or a type with an
  \<^verbatim>\<open>UnmarshalJSON\<close> of its own, from \<open>terisi\<close> for a scalar or a struct.
\<close>

definition semua :: "string \<Rightarrow> (string \<times> json) list \<Rightarrow> json list" where
  "semua nama kvs = map snd (filter (\<lambda>(k, v). to_lower k = nama) kvs)"

definition terisi :: "string \<Rightarrow> (string \<times> json) list \<Rightarrow> json list" where
  "terisi nama kvs = filter (\<lambda>v. isi v \<noteq> JNull) (semua nama kvs)"

definition bidang :: "string \<Rightarrow> (string \<times> json) list \<Rightarrow> json option" where
  "bidang nama kvs = (let js = semua nama kvs in if js = [] then None else Some (last js))"

definition u_opsi :: "'a \<Rightarrow> (json \<Rightarrow> 'a option) \<Rightarrow> json list \<Rightarrow> 'a option" where
  "u_opsi nol f js = map_option (\<lambda>xs. if xs = [] then nol else last xs) (those (map f js))"

lemma semua_isi: "v \<in> set (semua n kvs) \<Longrightarrow> \<exists>k. (k, v) \<in> set kvs"
  by (auto simp: semua_def)

lemma those_map_Some: "those (map f xs) = Some ys \<longleftrightarrow> list_all2 (\<lambda>x y. f x = Some y) xs ys"
proof (induction xs arbitrary: ys)
  case (Cons x xs)
  then show ?case by (cases ys) (auto split: option.splits)
qed auto

lemma those_map_length: "those (map f xs) = Some ys \<Longrightarrow> length ys = length xs"
  by (auto simp: those_map_Some dest: list_all2_lengthD)

section \<open>Writing\<close>

text \<open>
  \<^verbatim>\<open>json.Marshal\<close> of a string, with the characters that are special in HTML escaped, and of a raw message,
  which drops the space between tokens.
\<close>

definition hex_kecil :: "nat \<Rightarrow> char" where
  "hex_kecil n = ''0123456789abcdef'' ! (n mod 16)"

definition u_escape :: "char \<Rightarrow> string" where
  "u_escape c = (let n = of_char c in CHR 0x5C # ''u00'' @ [hex_kecil (n div 16), hex_kecil n])"

definition escape_html :: "char \<Rightarrow> string" where
  "escape_html c = (if c \<in> set ''<>&'' then u_escape c else [c])"

definition escape_char :: "char \<Rightarrow> string" where
  "escape_char c =
     (if c = CHR 0x22 \<or> c = CHR 0x5C then [CHR 0x5C, c]
      else if c = CHR 0x08 then CHR 0x5C # ''b''
      else if c = CHR 0x0C then CHR 0x5C # ''f''
      else if c = CHR 0x0A then CHR 0x5C # ''n''
      else if c = CHR 0x0D then CHR 0x5C # ''r''
      else if c = CHR 0x09 then CHR 0x5C # ''t''
      else if of_char c < (32::nat) then u_escape c
      else escape_html c)"

text \<open>U+2028 and U+2029.\<close>

definition pemisah_baris :: "string \<Rightarrow> char option" where
  "pemisah_baris s =
     (if has_prefix s [CHR 0xE2, CHR 0x80, CHR 0xA8] then Some (CHR ''8'')
      else if has_prefix s [CHR 0xE2, CHR 0x80, CHR 0xA9] then Some (CHR ''9'') else None)"

fun escape_teks :: "string \<Rightarrow> string" where
  "escape_teks [] = []"
| "escape_teks (c # cs) =
     (case pemisah_baris (c # cs) of
        Some d \<Rightarrow> CHR 0x5C # ''u202'' @ [d] @ escape_teks (drop 2 cs)
      | None \<Rightarrow> escape_char c @ escape_teks cs)"

definition tulis_string :: "string \<Rightarrow> string" where
  "tulis_string s = CHR 0x22 # escape_teks s @ [CHR 0x22]"

fun padatkan :: "bool \<Rightarrow> bool \<Rightarrow> string \<Rightarrow> string" where
  "padatkan dalam luput [] = []"
| "padatkan dalam luput (c # cs) =
     (case pemisah_baris (c # cs) of
        Some d \<Rightarrow> CHR 0x5C # ''u202'' @ [d] @ padatkan dalam False (drop 2 cs)
      | None \<Rightarrow>
          if dalam then escape_html c @ padatkan (luput \<or> c \<noteq> CHR 0x22) (\<not> luput \<and> c = CHR 0x5C) cs
          else if c \<in> {CHR 0x20, CHR 0x09, CHR 0x0A, CHR 0x0D} then padatkan False False cs
          else escape_html c @ padatkan (c = CHR 0x22) False cs)"

definition tulis_mentah :: "json \<Rightarrow> string" where
  "tulis_mentah j = padatkan False False (sumber j)"

text \<open>An object from its written entries, an array from its written elements.\<close>

definition gabung :: "string \<Rightarrow> string list \<Rightarrow> string" where
  "gabung p xs = (case xs of [] \<Rightarrow> [] | y # ys \<Rightarrow> y @ concat (map (\<lambda>s. p @ s) ys))"

definition tulis_objek :: "(string \<times> string) list \<Rightarrow> string" where
  "tulis_objek kvs = ''{'' @ gabung '','' (map (\<lambda>(k, v). tulis_string k @ '':'' @ v) kvs) @ ''}''"

definition tulis_larik :: "string list \<Rightarrow> string" where
  "tulis_larik xs = ''['' @ gabung '','' xs @ '']''"

lemma tulis_contoh:
  "tulis_objek [(''a'', tulis_string ''x<y''), (''b'', tulis_mentah (Nilai ''[1, 2]'' (JArr [])))]
     = ''{'' @ [CHR 0x22] @ ''a'' @ [CHR 0x22] @ '':'' @ [CHR 0x22] @ ''x'' @ CHR 0x5C # ''u003cy'' @ [CHR 0x22] @ '','' @
       [CHR 0x22] @ ''b'' @ [CHR 0x22] @ '':[1,2]}''"
  by code_simp

end
