(* ===== verification/Chat_Request.thy ===== *)
theory Chat_Request
  imports Complex_Main Json Routing_Rules "HOL-Library.Sublist"
begin

text \<open>
  The canonical requests and answers of \<^verbatim>\<open>internal/providers/providers.go\<close> and what the gateway reads off
  them: the text that is screened (\<^verbatim>\<open>http.go\<close>), the capabilities and the estimate of tokens
  (\<^verbatim>\<open>codec.go\<close>), the floors of a usage.  A \<^verbatim>\<open>json.RawMessage\<close> is an optional value with its text;
  a float is an exact number.
\<close>

section \<open>Requests\<close>

record image_url =
  iu_url :: string
  iu_detail :: string

record audio =
  au_data :: string
  au_format :: string

record document =
  dk_media_type :: string
  dk_data :: string

record content_part =
  cp_type :: string
  cp_text :: string
  cp_image_url :: "image_url option"
  cp_audio :: "audio option"
  cp_document :: "document option"

record tool_call =
  tc_index :: int
  tc_id :: string
  tc_type :: string
  tc_name :: string
  tc_arguments :: string
  tc_thought_signature :: string

record message =
  ms_role :: string
  ms_content :: string
  ms_parts :: "content_part list"
  ms_name :: string
  ms_tool_calls :: "tool_call list"
  ms_tool_call_id :: string
  ms_is_error :: bool
  ms_reasoning_content :: string
  ms_reasoning_signature :: string
  ms_refusal :: string
  ms_audio_transcript :: string

record thinking_param =
  th_type :: string
  th_budget_tokens :: int
  th_extra :: "(string \<times> json) list"

record function_def =
  fd_name :: string
  fd_description :: string
  fd_parameters :: "json option"
  fd_strict :: "bool option"

record tool =
  tl_type :: string
  tl_function :: function_def

record chat_request =
  cr_model :: string
  cr_messages :: "message list"
  cr_max_tokens :: "int option"
  cr_temperature :: "rat option"
  cr_top_p :: "rat option"
  cr_top_k :: "int option"
  cr_stop :: "string list"
  cr_stream :: bool
  cr_thinking :: "thinking_param option"
  cr_tools :: "tool list"
  cr_tool_choice :: "json option"
  cr_parallel_tool_calls :: "bool option"
  cr_response_format :: "json option"
  cr_seed :: "int option"
  cr_reasoning_effort :: string
  cr_user :: string
  cr_extra :: "(string \<times> json) list"

record embeddings_request =
  er_model :: string
  er_input :: "string list"
  er_token_input :: "int list list"
  er_dimensions :: "int option"
  er_user :: string
  er_encoding_format :: string
  er_extra :: "(string \<times> json) list"

record usage =
  us_input :: int
  us_cached_input :: int
  us_cache_creation :: int
  us_cache_creation_1h :: int
  us_cache_creation_5m :: int
  us_output :: int
  us_reasoning :: int
  us_total :: int

record choice =
  ch_index :: int
  ch_message :: message
  ch_finish_reason :: string
  ch_stop_sequence :: string

record chat_response =
  rs_id :: string
  rs_model :: string
  rs_created :: int
  rs_choices :: "choice list"
  rs_usage :: usage
  rs_raw :: "json option"

definition part_type_text :: string where "part_type_text = ''text''"
definition part_type_image_url :: string where "part_type_image_url = ''image_url''"
definition part_type_audio :: string where "part_type_audio = ''input_audio''"
definition part_type_document :: string where "part_type_document = ''document''"
definition kind_openai :: string where "kind_openai = ''openai''"
definition kind_anthropic :: string where "kind_anthropic = ''anthropic''"

section \<open>Text\<close>

text \<open>One more line of text, as the builders of \<^verbatim>\<open>Message.Text\<close> and of \<^verbatim>\<open>teksPermintaan\<close> append it.\<close>

definition tambah_baris :: "string \<Rightarrow> string \<Rightarrow> string" where
  "tambah_baris b s = (if s = [] then b else if b = [] then s else b @ CHR 0x0A # s)"

definition is_multimodal :: "message \<Rightarrow> bool" where
  "is_multimodal m \<longleftrightarrow> ms_parts m \<noteq> []"

definition teks_pesan :: "message \<Rightarrow> string" where
  "teks_pesan m =
     (let b = (if \<not> is_multimodal m then ms_content m
               else foldl (\<lambda>b p. if cp_type p = part_type_text then tambah_baris b (cp_text p) else b) [] (ms_parts m))
      in foldl tambah_baris b [ms_refusal m, ms_audio_transcript m])"

text \<open>\<^verbatim>\<open>teksPermintaan\<close>: the pieces in the order in which the closure \<^verbatim>\<open>tambah\<close> receives them.\<close>

definition potongan_pesan :: "message \<Rightarrow> string list" where
  "potongan_pesan m =
     [teks_pesan m] @ concat (map (\<lambda>tc. [tc_name tc, tc_arguments tc]) (ms_tool_calls m)) @
     concat (map (\<lambda>p. case cp_image_url p of None \<Rightarrow> [] | Some u \<Rightarrow> [iu_url u]) (ms_parts m))"

definition potongan_tool :: "tool \<Rightarrow> string list" where
  "potongan_tool t =
     [fd_name (tl_function t), fd_description (tl_function t)] @
     (case fd_parameters (tl_function t) of None \<Rightarrow> [] | Some j \<Rightarrow> [sumber j])"

definition teks_permintaan :: "chat_request \<Rightarrow> string" where
  "teks_permintaan req = foldl tambah_baris []
     (concat (map potongan_pesan (cr_messages req)) @ concat (map potongan_tool (cr_tools req)))"

definition teks_jawaban :: "chat_response \<Rightarrow> string" where
  "teks_jawaban resp = foldl tambah_baris [] (map (teks_pesan \<circ> ch_message) (rs_choices resp))"

definition pesan_berisi :: "message \<Rightarrow> bool" where
  "pesan_berisi m \<longleftrightarrow> ms_content m \<noteq> [] \<or> ms_parts m \<noteq> [] \<or> ms_tool_calls m \<noteq> [] \<or>
     ms_reasoning_content m \<noteq> [] \<or> ms_refusal m \<noteq> [] \<or> ms_audio_transcript m \<noteq> []"

definition respons_kanonik_kosong :: "chat_response option \<Rightarrow> bool" where
  "respons_kanonik_kosong resp =
     (case resp of None \<Rightarrow> True | Some r \<Rightarrow> \<not> list_ex (pesan_berisi \<circ> ch_message) (rs_choices r))"

section \<open>Capabilities\<close>

definition ada_gambar :: "message list \<Rightarrow> bool" where
  "ada_gambar msgs = list_ex (\<lambda>m. list_ex (\<lambda>p. cp_type p = part_type_image_url) (ms_parts m)) msgs"

definition tool_choice_memaksa :: "json option \<Rightarrow> bool" where
  "tool_choice_memaksa raw =
     (case raw of
        None \<Rightarrow> False
      | Some j \<Rightarrow>
          (case isi j of
             JObj _ \<Rightarrow> True
           | _ \<Rightarrow> (case u_teks j of Some s \<Rightarrow> s \<noteq> ''none'' \<and> s \<noteq> ''auto'' | None \<Rightarrow> False)))"

definition required_capabilities :: "chat_request \<Rightarrow> string list" where
  "required_capabilities req =
     [''text''] @ (if ada_gambar (cr_messages req) then [''vision''] else []) @
     (if cr_tools req \<noteq> [] \<or> tool_choice_memaksa (cr_tool_choice req) then [''tools''] else []) @
     (if cr_reasoning_effort req \<noteq> [] then [''reasoning''] else [])"

definition mengandung_dokumen_pdf :: "chat_request \<Rightarrow> bool" where
  "mengandung_dokumen_pdf req =
     list_ex (\<lambda>m. list_ex (\<lambda>p. cp_type p = part_type_document \<and> cp_document p \<noteq> None) (ms_parts m)) (cr_messages req)"

definition kandidat_anthropic_saja :: "route_candidate list \<Rightarrow> route_candidate list" where
  "kandidat_anthropic_saja cands = filter (\<lambda>c. rc_kind c = kind_anthropic) cands"

definition untuk_kandidat :: "chat_request \<Rightarrow> route_candidate \<Rightarrow> chat_request" where
  "untuk_kandidat req c =
     (let salinan = req\<lparr>cr_model := rc_upstream_model_name c\<rparr>
      in if rc_kind c \<noteq> kind_anthropic \<and> (case cr_thinking salinan of Some t \<Rightarrow> th_type t = ''adaptive'' | None \<Rightarrow> False)
         then salinan\<lparr>cr_thinking := None\<rparr> else salinan)"

section \<open>The estimate of tokens\<close>

definition byte_per_token :: int where "byte_per_token = 4"
definition overhead_pesan :: int where "overhead_pesan = 4"
definition overhead_permintaan :: int where "overhead_permintaan = 3"
definition token_gambar_detail_rendah :: int where "token_gambar_detail_rendah = 85"
definition token_gambar_detail_tinggi :: int where "token_gambar_detail_tinggi = 765"
definition token_audio_minimum :: int where "token_audio_minimum = 100"
definition perkiraan_output_bawaan :: int where "perkiraan_output_bawaan = 512"
definition maks_salinan_output :: int where "maks_salinan_output = 128"

definition bagi_ke_atas :: "int \<Rightarrow> int \<Rightarrow> int" where
  "bagi_ke_atas n pembagi = (if n \<le> 0 then 0 else go_div (n + pembagi - 1) pembagi)"

definition angka_extra :: "(string \<times> json) list \<Rightarrow> string \<Rightarrow> int option" where
  "angka_extra extra key =
     (case map_of extra key of
        None \<Rightarrow> None
      | Some j \<Rightarrow>
          (case u_float j of
             None \<Rightarrow> None
           | Some f \<Rightarrow> if f < 0 \<or> 2147483647 < f then None else Some \<lfloor>f\<rfloor>))"

definition token_dokumen :: "document option \<Rightarrow> int" where
  "token_dokumen dok =
     (case dok of
        None \<Rightarrow> 0
      | Some d \<Rightarrow> if dk_data d = [] then 0 else bagi_ke_atas (int (length (dk_data d)) div 4 * 3) byte_per_token)"

definition token_gambar :: "image_url option \<Rightarrow> int" where
  "token_gambar img =
     (case img of
        Some u \<Rightarrow> if iu_detail u = ''low'' then token_gambar_detail_rendah else token_gambar_detail_tinggi
      | None \<Rightarrow> token_gambar_detail_tinggi)"

definition token_bagian :: "content_part \<Rightarrow> int" where
  "token_bagian p =
     (if cp_type p = part_type_text then bagi_ke_atas (int (length (cp_text p))) byte_per_token
      else if cp_type p = part_type_image_url then token_gambar (cp_image_url p)
      else if cp_type p = part_type_audio then token_audio_minimum
      else if cp_type p = part_type_document then token_dokumen (cp_document p)
      else 0)"

definition perkiraan_token_pesan :: "message \<Rightarrow> int" where
  "perkiraan_token_pesan m =
     overhead_pesan +
     bagi_ke_atas (int (length (ms_role m) + length (ms_name m) + length (ms_tool_call_id m))) byte_per_token +
     (if \<not> is_multimodal m then bagi_ke_atas (int (length (ms_content m))) byte_per_token
      else sum_list (map token_bagian (ms_parts m))) +
     sum_list (map (\<lambda>tc. overhead_pesan + bagi_ke_atas (int (length (tc_name tc) + length (tc_arguments tc))) byte_per_token)
       (ms_tool_calls m))"

text \<open>\<^verbatim>\<open>json.Marshal(req.Tools)\<close>, by the tags of the structs.\<close>

definition tulis_function_def :: "function_def \<Rightarrow> string" where
  "tulis_function_def f = tulis_objek
     ([(''name'', tulis_string (fd_name f))] @
      (if fd_description f = [] then [] else [(''description'', tulis_string (fd_description f))]) @
      (case fd_parameters f of None \<Rightarrow> [] | Some j \<Rightarrow> [(''parameters'', tulis_mentah j)]) @
      (case fd_strict f of None \<Rightarrow> [] | Some b \<Rightarrow> [(''strict'', if b then ''true'' else ''false'')]))"

definition tulis_tool :: "tool \<Rightarrow> string" where
  "tulis_tool t = tulis_objek [(''type'', tulis_string (tl_type t)), (''function'', tulis_function_def (tl_function t))]"

definition tulis_tools :: "tool list \<Rightarrow> string" where
  "tulis_tools ts = tulis_larik (map tulis_tool ts)"

definition token_masuk :: "chat_request \<Rightarrow> int" where
  "token_masuk req =
     overhead_permintaan + sum_list (map perkiraan_token_pesan (cr_messages req)) +
     (if cr_tools req \<noteq> [] then bagi_ke_atas (int (length (tulis_tools (cr_tools req)))) byte_per_token else 0) +
     (case cr_response_format req of None \<Rightarrow> 0 | Some j \<Rightarrow> bagi_ke_atas (int (length (sumber j))) byte_per_token)"

text \<open>The limit on the output, and the number of copies; their product may leave the 64 bits of an \<^verbatim>\<open>int\<close>.\<close>

definition batas_keluaran :: "chat_request \<Rightarrow> int" where
  "batas_keluaran req =
     (case cr_max_tokens req of
        Some n \<Rightarrow> if 0 < n then n else
          (case angka_extra (cr_extra req) ''max_completion_tokens'' of Some k \<Rightarrow> if 0 < k then k else perkiraan_output_bawaan
           | None \<Rightarrow> perkiraan_output_bawaan)
      | None \<Rightarrow>
          (case angka_extra (cr_extra req) ''max_completion_tokens'' of Some k \<Rightarrow> if 0 < k then k else perkiraan_output_bawaan
           | None \<Rightarrow> perkiraan_output_bawaan))"

definition salinan_keluaran :: "chat_request \<Rightarrow> int" where
  "salinan_keluaran req =
     (case angka_extra (cr_extra req) ''n'' of Some n \<Rightarrow> if 1 < n then min n maks_salinan_output else 1 | None \<Rightarrow> 1)"

definition estimate_tokens :: "chat_request \<Rightarrow> token_estimate" where
  "estimate_tokens req = \<lparr>te_input = token_masuk req, te_output = wrap64 (batas_keluaran req * salinan_keluaran req)\<rparr>"

section \<open>Usage\<close>

definition tambah_token :: "int \<Rightarrow> int \<Rightarrow> int" where
  "tambah_token a b =
     (if 0 < b \<and> max_i64 - b < a then max_i64
      else if b < 0 \<and> a < - (2 ^ 63) - b then - (2 ^ 63)
      else wrap64 (a + b))"

definition lantai_masukan :: "chat_request \<Rightarrow> usage \<Rightarrow> usage" where
  "lantai_masukan req u =
     (if us_input u \<le> 0 \<and> 0 < te_input (estimate_tokens req)
      then u\<lparr>us_input := te_input (estimate_tokens req), us_total := tambah_token (us_total u) (te_input (estimate_tokens req))\<rparr>
      else u)"

definition lantai_keluaran :: "int \<Rightarrow> usage \<Rightarrow> usage" where
  "lantai_keluaran byte_konten u =
     (if us_output u \<le> 0 \<and> 0 < byte_konten
      then let keluar = (if go_div byte_konten byte_per_token < 1 then 1 else go_div byte_konten byte_per_token)
           in u\<lparr>us_output := keluar, us_total := tambah_token (us_total u) keluar\<rparr>
      else u)"

definition terapkan_lantai_pemakaian :: "chat_request \<Rightarrow> usage \<Rightarrow> int \<Rightarrow> usage" where
  "terapkan_lantai_pemakaian req u byte_konten = lantai_keluaran byte_konten (lantai_masukan req u)"

definition lantai_pemakaian_embeddings :: "embeddings_request \<Rightarrow> usage \<Rightarrow> usage" where
  "lantai_pemakaian_embeddings req u =
     (if 0 < us_total u then u
      else if 0 < us_input u then u\<lparr>us_total := us_input u\<rparr>
      else
        let n0 = int (sum_list (map length (er_token_input req)));
            n = (if n0 = 0 then bagi_ke_atas (int (sum_list (map length (er_input req)))) byte_per_token else n0)
        in if 0 < n then u\<lparr>us_input := n, us_total := n\<rparr> else u)"

text \<open>\<^verbatim>\<open>pemakaianCacheHIT\<close>: the usage booked for an answer from the cache.\<close>

definition pemakaian_cache_hit :: "chat_request \<Rightarrow> usage \<Rightarrow> usage" where
  "pemakaian_cache_hit req u =
     (if 0 < us_total u then u
      else let est = max (te_input (estimate_tokens req)) 1 in u\<lparr>us_input := est, us_total := est\<rparr>)"

section \<open>What is screened\<close>

lemma contains_trans: "contains s p \<Longrightarrow> contains p q \<Longrightarrow> contains s q"
  unfolding contains_iff by (metis append.assoc)

lemma contains_tambah_baris:
  "contains b p \<or> contains s p \<Longrightarrow> p \<noteq> [] \<Longrightarrow> contains (tambah_baris b s) p"
  unfolding contains_iff tambah_baris_def by (auto, (metis append.assoc append_Cons)+)

lemma contains_foldl_baris:
  "p \<noteq> [] \<Longrightarrow> contains b p \<or> (\<exists>s\<in>set xs. contains s p) \<Longrightarrow> contains (foldl tambah_baris b xs) p"
proof (induction xs arbitrary: b)
  case (Cons s xs)
  then have "contains (tambah_baris b s) p \<or> (\<exists>s\<in>set xs. contains s p)" using contains_tambah_baris by auto
  with Cons.IH [OF Cons.prems(1)] show ?case by simp
qed simp

lemma foldl_pilih: "foldl (\<lambda>b p. if P p then f b (g p) else b) b xs = foldl f b (map g (filter P xs))"
  by (induction xs arbitrary: b) auto

lemma contains_self [simp]: "contains s s"
  unfolding contains_iff by (metis append_Nil append_Nil2)

text \<open>The text that a message carries, by field.\<close>

definition teks_isi :: "message \<Rightarrow> string list" where
  "teks_isi m =
     (if is_multimodal m then map cp_text (filter (\<lambda>p. cp_type p = part_type_text) (ms_parts m)) else [ms_content m]) @
     [ms_refusal m, ms_audio_transcript m]"

lemma teks_pesan_contains:
  assumes "s \<in> set (teks_isi m)" and "contains s p" and "p \<noteq> []"
  shows "contains (teks_pesan m) p"
proof -
  let ?b = "if \<not> is_multimodal m then ms_content m
            else foldl tambah_baris [] (map cp_text (filter (\<lambda>p. cp_type p = part_type_text) (ms_parts m)))"
  have "teks_pesan m = foldl tambah_baris ?b [ms_refusal m, ms_audio_transcript m]"
    using foldl_pilih [of "\<lambda>p :: content_part. cp_type p = part_type_text" tambah_baris cp_text] by (simp add: teks_pesan_def)
  moreover from assms have "contains ?b p \<or> (\<exists>s\<in>set [ms_refusal m, ms_audio_transcript m]. contains s p)"
    using contains_foldl_baris [OF assms(3), of "[]" "map cp_text (filter (\<lambda>p. cp_type p = part_type_text) (ms_parts m))"]
    by (auto simp: teks_isi_def split: if_splits)
  ultimately show ?thesis using contains_foldl_baris [OF assms(3)] by metis
qed

text \<open>
  The text of a request that is screened: the content of its messages (the text parts of a multimodal one), refusals
  and transcripts, the names and arguments of tool calls, image addresses and the definitions of tools.  It is not all
  the text that is sent: \<open>screening_ignores\<close> below names fields that are forwarded and do not reach the filter.
\<close>

definition teks_disaring :: "chat_request \<Rightarrow> string set" where
  "teks_disaring req =
     (\<Union>m\<in>set (cr_messages req). set (teks_isi m) \<union> (\<Union>tc\<in>set (ms_tool_calls m). {tc_name tc, tc_arguments tc}) \<union>
        {iu_url u | u p. p \<in> set (ms_parts m) \<and> cp_image_url p = Some u}) \<union>
     (\<Union>t\<in>set (cr_tools req). {fd_name (tl_function t), fd_description (tl_function t)} \<union>
        sumber ` set_option (fd_parameters (tl_function t)))"

lemma screened_text_covers:
  assumes "s \<in> teks_disaring req" and "contains s p" and "p \<noteq> []"
  shows "contains (teks_permintaan req) p"
proof -
  have "\<exists>q\<in>set (concat (map potongan_pesan (cr_messages req)) @ concat (map potongan_tool (cr_tools req))). contains q p"
    using assms(1) unfolding teks_disaring_def
  proof (elim UnE UN_E)
    fix m assume m: "m \<in> set (cr_messages req)" and s: "s \<in> set (teks_isi m)"
    from teks_pesan_contains [OF s assms(2,3)] m show ?thesis by (auto simp: potongan_pesan_def)
  next
    fix m tc assume "m \<in> set (cr_messages req)" "tc \<in> set (ms_tool_calls m)" "s \<in> {tc_name tc, tc_arguments tc}"
    with assms(2) show ?thesis by (auto simp: potongan_pesan_def)
  next
    fix m assume m: "m \<in> set (cr_messages req)" and "s \<in> {iu_url u |u p. p \<in> set (ms_parts m) \<and> cp_image_url p = Some u}"
    then obtain u q where q: "s = iu_url u" "q \<in> set (ms_parts m)" "cp_image_url q = Some u" by blast
    then have "s \<in> set (potongan_pesan m)" by (force simp: potongan_pesan_def)
    with m assms(2) show ?thesis by auto
  next
    fix t assume "t \<in> set (cr_tools req)" "s \<in> {fd_name (tl_function t), fd_description (tl_function t)}"
    with assms(2) show ?thesis by (auto simp: potongan_tool_def)
  next
    fix t assume t: "t \<in> set (cr_tools req)" and "s \<in> sumber ` set_option (fd_parameters (tl_function t))"
    then have "s \<in> set (potongan_tool t)" by (auto simp: potongan_tool_def)
    with t assms(2) show ?thesis by auto
  qed
  then show ?thesis unfolding teks_permintaan_def by (intro contains_foldl_baris [OF assms(3)] disjI2)
qed

text \<open>What the filter reads does not depend on these fields, which \<^verbatim>\<open>chatPayload\<close> forwards all the same.\<close>

lemma screening_ignores:
  "teks_permintaan (req\<lparr>cr_messages := map (\<lambda>m. m\<lparr>ms_parts := map (\<lambda>p. p\<lparr>cp_audio := a p, cp_document := d p\<rparr>) (ms_parts m),
       ms_name := f m, ms_tool_call_id := g m, ms_reasoning_content := h m\<rparr>) (cr_messages req),
     cr_stop := stop, cr_user := user, cr_response_format := format, cr_tool_choice := choice, cr_extra := extra\<rparr>) = teks_permintaan req"
proof -
  have "potongan_pesan (m\<lparr>ms_parts := map (\<lambda>p. p\<lparr>cp_audio := a p, cp_document := d p\<rparr>) (ms_parts m),
      ms_name := f m, ms_tool_call_id := g m, ms_reasoning_content := h m\<rparr>) = potongan_pesan m" for m
    by (simp add: potongan_pesan_def teks_pesan_def is_multimodal_def foldl_map comp_def cong: if_cong)
  then show ?thesis by (simp add: teks_permintaan_def comp_def)
qed

section \<open>Bounds of the estimate and of the floors\<close>

lemma bagi_ke_atas_bounds: "n \<le> 4 * bagi_ke_atas n byte_per_token" "0 \<le> bagi_ke_atas n byte_per_token"
  "0 \<le> n \<Longrightarrow> 4 * bagi_ke_atas n byte_per_token < n + 4"
  by (auto simp: bagi_ke_atas_def byte_per_token_def go_div_def)

definition byte_pesan :: "message \<Rightarrow> int" where
  "byte_pesan m = int (length (ms_role m) + length (ms_name m) + length (ms_tool_call_id m)) +
     (if is_multimodal m then sum_list (map (\<lambda>p. if cp_type p = part_type_text then int (length (cp_text p)) else 0) (ms_parts m))
      else int (length (ms_content m))) +
     sum_list (map (\<lambda>tc. int (length (tc_name tc) + length (tc_arguments tc))) (ms_tool_calls m))"

definition byte_permintaan :: "chat_request \<Rightarrow> int" where
  "byte_permintaan req = sum_list (map byte_pesan (cr_messages req)) +
     (if cr_tools req = [] then 0 else int (length (tulis_tools (cr_tools req)))) +
     (case cr_response_format req of None \<Rightarrow> 0 | Some j \<Rightarrow> int (length (sumber j)))"

lemma sum_list_mult_mono:
  fixes f g :: "'a \<Rightarrow> int"
  assumes "\<And>x. x \<in> set xs \<Longrightarrow> f x \<le> 4 * g x"
  shows "sum_list (map f xs) \<le> 4 * sum_list (map g xs)"
  using assms by (induction xs) (auto simp: algebra_simps, fastforce)

lemma token_bagian_bounds: "(if cp_type p = part_type_text then int (length (cp_text p)) else 0) \<le> 4 * token_bagian p"
  using bagi_ke_atas_bounds(1,2)
  by (auto simp: token_bagian_def token_gambar_def token_dokumen_def token_gambar_detail_rendah_def
      token_gambar_detail_tinggi_def token_audio_minimum_def split: option.splits)

lemma perkiraan_token_pesan_bounds: "byte_pesan m + 16 \<le> 4 * perkiraan_token_pesan m"
proof -
  let ?b = "\<lambda>n. bagi_ke_atas n byte_per_token"
  let ?tc = "\<lambda>tc. overhead_pesan + ?b (int (length (tc_name tc) + length (tc_arguments tc)))"
  have "sum_list (map (\<lambda>tc. int (length (tc_name tc) + length (tc_arguments tc))) (ms_tool_calls m)) \<le> 4 * sum_list (map ?tc (ms_tool_calls m))"
    using bagi_ke_atas_bounds(1) by (intro sum_list_mult_mono) (smt (verit) overhead_pesan_def)
  moreover have "sum_list (map (\<lambda>p. if cp_type p = part_type_text then int (length (cp_text p)) else 0) (ms_parts m))
      \<le> 4 * sum_list (map token_bagian (ms_parts m))"
    by (rule sum_list_mult_mono) (rule token_bagian_bounds)
  moreover note bagi_ke_atas_bounds(1) [of "int (length (ms_content m))"]
    bagi_ke_atas_bounds(1) [of "int (length (ms_role m) + length (ms_name m) + length (ms_tool_call_id m))"]
  ultimately show ?thesis by (simp add: perkiraan_token_pesan_def byte_pesan_def overhead_pesan_def)
qed

lemma token_masuk_bounds: "byte_permintaan req + 12 \<le> 4 * token_masuk req"
proof -
  have "sum_list (map byte_pesan (cr_messages req)) \<le> 4 * sum_list (map perkiraan_token_pesan (cr_messages req))"
    using perkiraan_token_pesan_bounds by (intro sum_list_mult_mono) (smt (verit))
  moreover note bagi_ke_atas_bounds(1) [of "int (length (tulis_tools (cr_tools req)))"]
  moreover have "(case cr_response_format req of None \<Rightarrow> 0 | Some j \<Rightarrow> int (length (sumber j)))
      \<le> 4 * (case cr_response_format req of None \<Rightarrow> 0 | Some j \<Rightarrow> bagi_ke_atas (int (length (sumber j))) byte_per_token)"
    using bagi_ke_atas_bounds(1) by (auto split: option.split)
  ultimately show ?thesis by (simp add: token_masuk_def byte_permintaan_def overhead_permintaan_def)
qed

lemma byte_permintaan_nonneg: "0 \<le> byte_permintaan req"
  unfolding byte_permintaan_def byte_pesan_def
  by (auto intro!: add_nonneg_nonneg sum_list_nonneg split: option.split)

lemma token_masuk_pos: "3 \<le> token_masuk req"
  using token_masuk_bounds [of req] byte_permintaan_nonneg [of req] by linarith

lemma salinan_keluaran_bounds: "1 \<le> salinan_keluaran req \<and> salinan_keluaran req \<le> 128"
  by (auto simp: salinan_keluaran_def maks_salinan_output_def split: option.split)

lemma angka_extra_bounds: "angka_extra e k = Some n \<Longrightarrow> 0 \<le> n \<and> n \<le> 2147483647"
  by (auto simp: angka_extra_def floor_le_iff split: option.splits if_splits)

lemma batas_keluaran_pos: "0 < batas_keluaran req"
  by (auto simp: batas_keluaran_def perkiraan_output_bawaan_def split: option.split)

text \<open>\<^verbatim>\<open>TambahToken\<close> is addition clamped to the range of an \<^verbatim>\<open>int\<close>.\<close>

lemma tambah_token_saturates:
  assumes "in_i64 a" and "in_i64 b"
  shows "tambah_token a b = max (- (2 ^ 63)) (min max_i64 (a + b))"
  using assms by (auto simp: tambah_token_def in_i64_def wrap64_id)

lemma lantai_masukan_floor:
  assumes "0 \<le> us_total u" and "us_total u \<le> max_i64" and "token_masuk req \<le> max_i64"
  shows "us_input (lantai_masukan req u) = (if us_input u \<le> 0 then token_masuk req else us_input u)"
    and "us_total (lantai_masukan req u) = (if us_input u \<le> 0 then min max_i64 (us_total u + token_masuk req) else us_total u)"
    and "us_output (lantai_masukan req u) = us_output u"
    and "0 \<le> us_total (lantai_masukan req u) \<and> us_total (lantai_masukan req u) \<le> max_i64"
  using assms token_masuk_pos [of req] tambah_token_saturates [of "us_total u" "token_masuk req"]
  by (auto simp: lantai_masukan_def estimate_tokens_def in_i64_def)

lemma lantai_keluaran_floor:
  assumes "0 \<le> us_total u" and "us_total u \<le> max_i64" and "byte_konten \<le> max_i64"
  shows "us_output (lantai_keluaran byte_konten u) = (if us_output u \<le> 0 \<and> 0 < byte_konten then max 1 (byte_konten div 4) else us_output u)"
    and "us_total (lantai_keluaran byte_konten u) =
      (if us_output u \<le> 0 \<and> 0 < byte_konten then min max_i64 (us_total u + max 1 (byte_konten div 4)) else us_total u)"
    and "us_input (lantai_keluaran byte_konten u) = us_input u"
  using assms tambah_token_saturates [of "us_total u" "max 1 (byte_konten div 4)"]
  by (auto simp: lantai_keluaran_def Let_def in_i64_def go_div_def byte_per_token_def max_def)

section \<open>Properties\<close>

text \<open>The floor of a usage fills what the upstream left out and nothing else: a reported count stays, a missing
  input becomes the estimate of the prompt, a missing output at least one token if anything was produced,
  and the total grows by exactly what was filled in, clamped at the largest \<^verbatim>\<open>int\<close>.\<close>

theorem usage_floor:
  assumes "0 \<le> us_total u" and "us_total u \<le> max_i64" and "token_masuk req \<le> max_i64" and "byte_konten \<le> max_i64"
    and "v = terapkan_lantai_pemakaian req u byte_konten"
  shows "us_input v = (if us_input u \<le> 0 then token_masuk req else us_input u) \<and>
    us_output v = (if us_output u \<le> 0 \<and> 0 < byte_konten then max 1 (byte_konten div 4) else us_output u) \<and>
    us_total v = min max_i64 (us_total u + (if us_input u \<le> 0 then token_masuk req else 0) +
       (if us_output u \<le> 0 \<and> 0 < byte_konten then max 1 (byte_konten div 4) else 0)) \<and>
    0 < us_input v"
proof (intro conjI)
  note I = lantai_masukan_floor [OF assms(1-3)]
  note O = lantai_keluaran_floor [of "lantai_masukan req u" byte_konten] 
  have v: "v = lantai_keluaran byte_konten (lantai_masukan req u)" using assms(5) by (simp add: terapkan_lantai_pemakaian_def)
  show i: "us_input v = (if us_input u \<le> 0 then token_masuk req else us_input u)" using I O assms(4) v by simp
  show "us_output v = (if us_output u \<le> 0 \<and> 0 < byte_konten then max 1 (byte_konten div 4) else us_output u)"
    using I O assms(4) v by simp
  show "us_total v = min max_i64 (us_total u + (if us_input u \<le> 0 then token_masuk req else 0) +
       (if us_output u \<le> 0 \<and> 0 < byte_konten then max 1 (byte_konten div 4) else 0))"
    using I O assms(1,2,4) v by (simp add: min_def max_def)
  show "0 < us_input v" using i token_masuk_pos [of req] by (simp split: if_splits)
qed

definition contoh_chat :: chat_request where
  "contoh_chat = \<lparr>cr_model = ''m'', cr_messages = [], cr_max_tokens = None, cr_temperature = None, cr_top_p = None,
     cr_top_k = None, cr_stop = [], cr_stream = False, cr_thinking = None, cr_tools = [], cr_tool_choice = None,
     cr_parallel_tool_calls = None, cr_response_format = None, cr_seed = None, cr_reasoning_effort = [], cr_user = [],
     cr_extra = []\<rparr>"

definition pemakaian_nol :: usage where
  "pemakaian_nol = \<lparr>us_input = 0, us_cached_input = 0, us_cache_creation = 0, us_cache_creation_1h = 0,
     us_cache_creation_5m = 0, us_output = 0, us_reasoning = 0, us_total = 0\<rparr>"

lemma usage_floor_witness: "us_total (terapkan_lantai_pemakaian contoh_chat pemakaian_nol 9) = 5"
  using usage_floor [of pemakaian_nol contoh_chat 9, OF _ _ _ _ refl]
  by (simp add: pemakaian_nol_def contoh_chat_def token_masuk_def overhead_permintaan_def)

text \<open>The estimate never falls short of the text: four bytes per token cover every byte of roles, names, texts, tool
  calls, tool definitions and schema.  The output is the limit times the copies, and positive, as long as
  that product is an \<^verbatim>\<open>int\<close>; beyond, it wraps and can be negative.\<close>

theorem estimate_covers:
  shows "byte_permintaan req + 12 \<le> 4 * te_input (estimate_tokens req) \<and>
    (batas_keluaran req * salinan_keluaran req \<le> max_i64 \<longrightarrow>
      te_output (estimate_tokens req) = batas_keluaran req * salinan_keluaran req \<and> 0 < te_output (estimate_tokens req)) \<and>
    (cr_max_tokens req = Some (2 ^ 62) \<and> angka_extra (cr_extra req) ''n'' = Some 2 \<longrightarrow>
      te_output (estimate_tokens req) = - (2 ^ 63))"
proof -
  have pos: "0 < batas_keluaran req * salinan_keluaran req"
    using batas_keluaran_pos [of req] salinan_keluaran_bounds [of req] by simp
  have "byte_permintaan req + 12 \<le> 4 * te_input (estimate_tokens req)"
    using token_masuk_bounds by (simp add: estimate_tokens_def)
  moreover have "te_output (estimate_tokens req) = batas_keluaran req * salinan_keluaran req \<and> 0 < te_output (estimate_tokens req)"
    if "batas_keluaran req * salinan_keluaran req \<le> max_i64"
    using pos that by (simp add: estimate_tokens_def wrap64_id in_i64_def)
  moreover have "te_output (estimate_tokens req) = - (2 ^ 63)"
    if "cr_max_tokens req = Some (2 ^ 62) \<and> angka_extra (cr_extra req) ''n'' = Some 2"
    using that by (simp add: estimate_tokens_def batas_keluaran_def salinan_keluaran_def maks_salinan_output_def wrap64_def)
  ultimately show ?thesis by blast
qed

lemma estimate_covers_witness:
  "te_output (estimate_tokens contoh_chat) = 512 \<and>
   te_output (estimate_tokens (contoh_chat\<lparr>cr_max_tokens := Some (2 ^ 62), cr_extra := [(''n'', Nilai ''2'' JNum)]\<rparr>)) = - (2 ^ 63)"
proof
  show "te_output (estimate_tokens contoh_chat) = 512"
    using estimate_covers [of contoh_chat]
    by (simp add: contoh_chat_def batas_keluaran_def salinan_keluaran_def angka_extra_def perkiraan_output_bawaan_def)
  have "nilai_desimal ''2'' = 2"
    by (simp add: nilai_desimal_def Let_def nat_desimal_def digit_val_def is_digit_def)
  moreover have "(2 :: rat) < batas_float" by (simp add: batas_float_def)
  ultimately have "angka_extra [(''n'', Nilai ''2'' JNum)] ''n'' = Some 2" by (simp add: angka_extra_def u_float_def)
  then show "te_output (estimate_tokens (contoh_chat\<lparr>cr_max_tokens := Some (2 ^ 62), cr_extra := [(''n'', Nilai ''2'' JNum)]\<rparr>)) = - (2 ^ 63)"
    using estimate_covers [of "contoh_chat\<lparr>cr_max_tokens := Some (2 ^ 62), cr_extra := [(''n'', Nilai ''2'' JNum)]\<rparr>"] by simp
qed

end
