(* ===== verification/Chat_Codec.thy ===== *)
theory Chat_Codec
  imports Complex_Main Chat_Request "HOL-Library.Monad_Syntax" "HOL-Library.AList"
begin

text \<open>
  The decoders of the public API, \<^verbatim>\<open>internal/gateway/codec.go\<close>: a body becomes a canonical request, and
  what is not known of it becomes \<^verbatim>\<open>Extra\<close>.  The map of the top-level fields is threaded through the
  decoder, which takes out every field it reads.  An error carries the path of the field and the
  sentence about it.
\<close>

datatype galat_codec = GalatBody string | GalatField string string

type_synonym fields = "(string \<times> json) list"
type_synonym 'a dekoder = "fields \<Rightarrow> galat_codec + ('a \<times> fields)"

section \<open>Decoders\<close>

definition hasil :: "'a \<Rightarrow> 'a dekoder" where "hasil x = (\<lambda>fs. Inr (x, fs))"
definition angkat :: "galat_codec + 'a \<Rightarrow> 'a dekoder" where "angkat r = (\<lambda>fs. lanjut r (\<lambda>x. Inr (x, fs)))"
definition lalu :: "'a dekoder \<Rightarrow> ('a \<Rightarrow> 'b dekoder) \<Rightarrow> 'b dekoder" where
  "lalu m k = (\<lambda>fs. lanjut (m fs) (\<lambda>(x, fs'). k x fs'))"
definition pastikan :: "bool \<Rightarrow> galat_codec \<Rightarrow> galat_codec + unit" where
  "pastikan b e = (if b then Inr () else Inl e)"

lemma lalu_Inr: "lalu m k fs = Inr (y, fs2) \<longleftrightarrow> (\<exists>x fs1. m fs = Inr (x, fs1) \<and> k x fs1 = Inr (y, fs2))"
  by (auto simp: lalu_def lanjut_Inr_iff)

lemma hasil_Inr [simp]: "hasil x fs = Inr (y, fs1) \<longleftrightarrow> y = x \<and> fs1 = fs"
  by (auto simp: hasil_def)

lemma angkat_Inr [simp]: "angkat r fs = Inr (y, fs1) \<longleftrightarrow> r = Inr y \<and> fs1 = fs"
  by (cases r) (auto simp: angkat_def)

lemma pastikan_Inr [simp]: "pastikan b e = Inr u \<longleftrightarrow> b"
  by (simp add: pastikan_def)

section \<open>Top-level fields\<close>

text \<open>\<^verbatim>\<open>json.Unmarshal\<close> into a map: of a name given twice the last value stays.\<close>

definition sebagai_peta :: "(string \<times> json) list \<Rightarrow> fields" where
  "sebagai_peta kvs = foldl (\<lambda>m (k, v). AList.update k v m) [] kvs"

definition bidang_tingkat_atas :: "string \<Rightarrow> json option \<Rightarrow> galat_codec + fields" where
  "bidang_tingkat_atas body terurai =
     (if trim_space body = [] then Inl (GalatBody ''body permintaan kosong'')
      else case terurai of
             Some (Nilai _ (JObj kvs)) \<Rightarrow> Inr (sebagai_peta kvs)
           | _ \<Rightarrow> Inl (GalatBody ''body permintaan bukan objek JSON yang sah''))"

definition adalah_null :: "json option \<Rightarrow> bool" where
  "adalah_null raw = (case raw of None \<Rightarrow> True | Some j \<Rightarrow> isi j = JNull)"

definition ambil :: "string \<Rightarrow> (json option) dekoder" where
  "ambil key = (\<lambda>fs. let raw = map_of fs key in Inr (if adalah_null raw then None else raw, AList.delete key fs))"

definition bentuk :: "string \<Rightarrow> galat_codec" where "bentuk nama = GalatField nama ''bentuknya tidak sesuai''"
definition wajib :: "string \<Rightarrow> galat_codec" where "wajib nama = GalatField nama ''wajib diisi''"

definition uraikan_ke :: "(json \<Rightarrow> 'a option) \<Rightarrow> string \<Rightarrow> json \<Rightarrow> galat_codec + 'a" where
  "uraikan_ke f nama raw = (case f raw of Some x \<Rightarrow> Inr x | None \<Rightarrow> Inl (bentuk nama))"

text \<open>\<^verbatim>\<open>if raw, ok := ambil(fields, f); ok\<close> with \<^verbatim>\<open>uraikanKe\<close> inside.\<close>

definition bila_ada :: "'a \<Rightarrow> (json \<Rightarrow> galat_codec + 'a) \<Rightarrow> string \<Rightarrow> 'a dekoder" where
  "bila_ada nol f nama = lalu (ambil nama) (\<lambda>raw. angkat (case raw of None \<Rightarrow> Inr nol | Some j \<Rightarrow> f j))"

definition bidang_ke :: "'a \<Rightarrow> (json \<Rightarrow> 'a option) \<Rightarrow> string \<Rightarrow> 'a dekoder" where
  "bidang_ke nol f nama = bila_ada nol (uraikan_ke f nama) nama"

definition bidang_ptr :: "(json \<Rightarrow> 'a option) \<Rightarrow> string \<Rightarrow> ('a option) dekoder" where
  "bidang_ptr f nama = bidang_ke None (u_ptr f) nama"

section \<open>Stop sequences and tools\<close>

definition uraikan_stop :: "json \<Rightarrow> galat_codec + string list" where
  "uraikan_stop raw =
     (case u_teks raw of
        Some satu \<Rightarrow> Inr [satu]
      | None \<Rightarrow>
          (case u_larik u_teks raw of
             Some banyak \<Rightarrow> Inr banyak
           | None \<Rightarrow> Inl (GalatField ''stop'' ''harus berupa string atau array string'')))"

definition function_def_kosong :: function_def where
  "function_def_kosong = \<lparr>fd_name = [], fd_description = [], fd_parameters = None, fd_strict = None\<rparr>"

definition u_function_def :: "json \<Rightarrow> function_def option" where
  "u_function_def j = do {
     kvs \<leftarrow> u_bidang j;
     nama \<leftarrow> u_opsi [] u_teks (terisi ''name'' kvs);
     deskripsi \<leftarrow> u_opsi [] u_teks (terisi ''description'' kvs);
     ketat \<leftarrow> u_opsi None (u_ptr u_bool) (semua ''strict'' kvs);
     Some \<lparr>fd_name = nama, fd_description = deskripsi, fd_parameters = bidang ''parameters'' kvs, fd_strict = ketat\<rparr> }"

definition u_tool :: "json \<Rightarrow> tool option" where
  "u_tool j = do {
     kvs \<leftarrow> u_bidang j;
     jenis \<leftarrow> u_opsi [] u_teks (terisi ''type'' kvs);
     fungsi \<leftarrow> u_opsi function_def_kosong u_function_def (terisi ''function'' kvs);
     Some \<lparr>tl_type = jenis, tl_function = fungsi\<rparr> }"

definition jalur_ke :: "string \<Rightarrow> nat \<Rightarrow> string" where
  "jalur_ke nama i = nama @ ''['' @ show_nat i @ '']''"

fun periksa_tools :: "nat \<Rightarrow> tool list \<Rightarrow> galat_codec + unit" where
  "periksa_tools i [] = Inr ()"
| "periksa_tools i (t # ts) =
     (if fd_name (tl_function t) = [] then Inl (wajib (jalur_ke ''tools'' i @ ''.function.name'')) else periksa_tools (Suc i) ts)"

definition uraikan_tools :: "json \<Rightarrow> galat_codec + tool list" where
  "uraikan_tools raw =
     (case u_larik u_tool raw of
        None \<Rightarrow> Inl (bentuk ''tools'')
      | Some ts \<Rightarrow> lanjut (periksa_tools 0 ts) (\<lambda>_. Inr ts))"

section \<open>Messages\<close>

record tool_call_masuk =
  tm_id :: string
  tm_type :: string
  tm_signature :: string
  tm_name :: string
  tm_arguments :: "json option"

record pesan_masuk =
  pm_role :: string
  pm_content :: "json option"
  pm_name :: string
  pm_tool_calls :: "tool_call_masuk list"
  pm_tool_call_id :: string
  pm_signature :: string

text \<open>\<^verbatim>\<open>SignatureToleran\<close>: a number is kept as its text, any other shape is dropped.\<close>

definition u_signature :: "json \<Rightarrow> string option" where
  "u_signature j = (case isi j of JStr s \<Rightarrow> Some s | JNum \<Rightarrow> Some (sumber j) | _ \<Rightarrow> Some [])"

definition u_fungsi_masuk :: "json \<Rightarrow> (string \<times> json option) option" where
  "u_fungsi_masuk j = do {
     kvs \<leftarrow> u_bidang j;
     nama \<leftarrow> u_opsi [] u_teks (terisi ''name'' kvs);
     Some (nama, bidang ''arguments'' kvs) }"

definition u_tool_call_masuk :: "json \<Rightarrow> tool_call_masuk option" where
  "u_tool_call_masuk j = do {
     kvs \<leftarrow> u_bidang j;
     id \<leftarrow> u_opsi [] u_teks (terisi ''id'' kvs);
     jenis \<leftarrow> u_opsi [] u_teks (terisi ''type'' kvs);
     ttd \<leftarrow> u_opsi [] u_signature (semua ''thought_signature'' kvs);
     f \<leftarrow> u_opsi ([], None) u_fungsi_masuk (terisi ''function'' kvs);
     Some \<lparr>tm_id = id, tm_type = jenis, tm_signature = ttd, tm_name = fst f, tm_arguments = snd f\<rparr> }"

definition u_pesan_masuk :: "json \<Rightarrow> pesan_masuk option" where
  "u_pesan_masuk j = do {
     kvs \<leftarrow> u_bidang j;
     role \<leftarrow> u_opsi [] u_teks (terisi ''role'' kvs);
     nama \<leftarrow> u_opsi [] u_teks (terisi ''name'' kvs);
     tcs \<leftarrow> u_opsi [] (u_larik u_tool_call_masuk) (semua ''tool_calls'' kvs);
     tcid \<leftarrow> u_opsi [] u_teks (terisi ''tool_call_id'' kvs);
     ttd \<leftarrow> u_opsi [] u_signature (semua ''thought_signature'' kvs);
     Some \<lparr>pm_role = role, pm_content = bidang ''content'' kvs, pm_name = nama, pm_tool_calls = tcs,
       pm_tool_call_id = tcid, pm_signature = ttd\<rparr> }"

definition u_image_url :: "json \<Rightarrow> image_url option" where
  "u_image_url j = do {
     kvs \<leftarrow> u_bidang j;
     url \<leftarrow> u_opsi [] u_teks (terisi ''url'' kvs);
     detail \<leftarrow> u_opsi [] u_teks (terisi ''detail'' kvs);
     Some \<lparr>iu_url = url, iu_detail = detail\<rparr> }"

definition u_audio :: "json \<Rightarrow> audio option" where
  "u_audio j = do {
     kvs \<leftarrow> u_bidang j;
     data \<leftarrow> u_opsi [] u_teks (terisi ''data'' kvs);
     format \<leftarrow> u_opsi [] u_teks (terisi ''format'' kvs);
     Some \<lparr>au_data = data, au_format = format\<rparr> }"

definition bagian_kosong :: content_part where
  "bagian_kosong = \<lparr>cp_type = [], cp_text = [], cp_image_url = None, cp_audio = None, cp_document = None\<rparr>"

definition u_bagian :: "json \<Rightarrow> (string \<times> string option \<times> image_url option \<times> audio option) option" where
  "u_bagian raw = do {
     kvs \<leftarrow> u_bidang raw;
     jenis \<leftarrow> u_opsi [] u_teks (terisi ''type'' kvs);
     teks \<leftarrow> u_opsi None (u_ptr u_teks) (semua ''text'' kvs);
     gambar \<leftarrow> u_opsi None (u_ptr u_image_url) (semua ''image_url'' kvs);
     suara \<leftarrow> u_opsi None (u_ptr u_audio) (semua ''input_audio'' kvs);
     Some (jenis, teks, gambar, suara) }"

definition uraikan_bagian :: "string \<Rightarrow> json \<Rightarrow> galat_codec + content_part" where
  "uraikan_bagian jalur raw =
     (case u_bagian raw of
        None \<Rightarrow> Inl (bentuk jalur)
      | Some (jenis, teks, gambar, suara) \<Rightarrow>
          if jenis = part_type_text then
            (case teks of
               None \<Rightarrow> Inl (wajib (jalur @ ''.text''))
             | Some t \<Rightarrow> Inr (bagian_kosong\<lparr>cp_type := jenis, cp_text := t\<rparr>))
          else if jenis = part_type_image_url then
            (case gambar of
               None \<Rightarrow> Inl (wajib (jalur @ ''.image_url.url''))
             | Some u \<Rightarrow> if iu_url u = [] then Inl (wajib (jalur @ ''.image_url.url''))
                 else Inr (bagian_kosong\<lparr>cp_type := jenis, cp_image_url := gambar\<rparr>))
          else if jenis = part_type_audio then
            (case suara of
               None \<Rightarrow> Inl (wajib (jalur @ ''.input_audio.data''))
             | Some a \<Rightarrow> if au_data a = [] then Inl (wajib (jalur @ ''.input_audio.data''))
                 else if au_format a = [] then Inl (wajib (jalur @ ''.input_audio.format''))
                 else Inr (bagian_kosong\<lparr>cp_type := jenis, cp_audio := suara\<rparr>))
          else if jenis = [] then Inl (wajib (jalur @ ''.type''))
          else Inl (GalatField (jalur @ ''.type'') ''memuat jenis bagian konten yang belum didukung gateway ini''))"

fun uraikan_bagian_dari :: "string \<Rightarrow> nat \<Rightarrow> json list \<Rightarrow> galat_codec + content_part list" where
  "uraikan_bagian_dari jalur i [] = Inr []"
| "uraikan_bagian_dari jalur i (b # bs) =
     lanjut (uraikan_bagian (jalur_ke jalur i) b) (\<lambda>p. lanjut (uraikan_bagian_dari jalur (Suc i) bs) (\<lambda>ps. Inr (p # ps)))"

text \<open>\<^verbatim>\<open>uraikanKonten\<close>: whether there is a content, its text and its parts.\<close>

definition uraikan_konten :: "json option \<Rightarrow> string \<Rightarrow> galat_codec + (bool \<times> string \<times> content_part list)" where
  "uraikan_konten raw jalur =
     (if adalah_null raw then Inr (False, [], [])
      else case u_teks (the raw) of
             Some teks \<Rightarrow> Inr (True, teks, [])
           | None \<Rightarrow>
               (case u_larik Some (the raw) of
                  None \<Rightarrow> Inl (GalatField jalur ''harus berupa string atau array bagian konten'')
                | Some bs \<Rightarrow> lanjut (uraikan_bagian_dari jalur 0 bs) (\<lambda>ps. Inr (True, [], ps))))"

definition uraikan_argumen :: "string \<Rightarrow> json option \<Rightarrow> galat_codec + string" where
  "uraikan_argumen jalur raw =
     (if adalah_null raw then Inr []
      else case u_teks (the raw) of
             Some s \<Rightarrow> Inr s
           | None \<Rightarrow> Inl (GalatField (jalur @ ''.function.arguments'') ''harus berupa string JSON''))"

fun uraikan_tool_calls :: "string \<Rightarrow> nat \<Rightarrow> tool_call_masuk list \<Rightarrow> galat_codec + tool_call list" where
  "uraikan_tool_calls jalur j [] = Inr []"
| "uraikan_tool_calls jalur j (tc # tcs) =
     (let jalur_tc = jalur_ke (jalur @ ''.tool_calls'') j
      in if tm_name tc = [] then Inl (wajib (jalur_tc @ ''.function.name''))
         else lanjut (uraikan_argumen jalur_tc (tm_arguments tc)) (\<lambda>args.
           lanjut (uraikan_tool_calls jalur (Suc j) tcs) (\<lambda>sisa.
             Inr (\<lparr>tc_index = int j, tc_id = tm_id tc, tc_type = tm_type tc, tc_name = tm_name tc,
                   tc_arguments = args, tc_thought_signature = tm_signature tc\<rparr> # sisa))))"

definition uraikan_satu_pesan :: "nat \<Rightarrow> pesan_masuk \<Rightarrow> galat_codec + message" where
  "uraikan_satu_pesan i m =
     (let jalur = jalur_ke ''messages'' i
      in if pm_role m = [] then Inl (wajib (jalur @ ''.role''))
         else lanjut (uraikan_konten (pm_content m) (jalur @ ''.content'')) (\<lambda>(ada, teks, bagian).
           lanjut (uraikan_tool_calls jalur 0 (pm_tool_calls m)) (\<lambda>tcs.
             if \<not> ada \<and> tcs = [] then Inl (GalatField jalur ''wajib memuat content atau tool_calls'')
             else Inr \<lparr>ms_role = pm_role m, ms_content = teks, ms_parts = bagian, ms_name = pm_name m,
                       ms_tool_calls = tcs, ms_tool_call_id = pm_tool_call_id m, ms_is_error = False,
                       ms_reasoning_content = [], ms_reasoning_signature = pm_signature m, ms_refusal = [],
                       ms_audio_transcript = []\<rparr>)))"

fun uraikan_pesan_dari :: "nat \<Rightarrow> pesan_masuk list \<Rightarrow> galat_codec + message list" where
  "uraikan_pesan_dari i [] = Inr []"
| "uraikan_pesan_dari i (m # ms) =
     lanjut (uraikan_satu_pesan i m) (\<lambda>p. lanjut (uraikan_pesan_dari (Suc i) ms) (\<lambda>ps. Inr (p # ps)))"

definition uraikan_pesan :: "json \<Rightarrow> galat_codec + message list" where
  "uraikan_pesan raw =
     (case u_larik u_pesan_masuk raw of
        None \<Rightarrow> Inl (bentuk ''messages'')
      | Some masuk \<Rightarrow>
          if masuk = [] then Inl (GalatField ''messages'' ''wajib memuat setidaknya satu pesan'')
          else uraikan_pesan_dari 0 masuk)"

section \<open>Chat requests\<close>

definition periksa_rentang :: "int option \<Rightarrow> rat option \<Rightarrow> rat option \<Rightarrow> galat_codec + unit" where
  "periksa_rentang max_tokens temperature top_p =
     lanjut (pastikan (\<forall>n\<in>set_option max_tokens. 0 < n) (GalatField ''max_tokens'' ''harus lebih besar dari 0'')) (\<lambda>_.
     lanjut (pastikan (\<forall>t\<in>set_option temperature. 0 \<le> t \<and> t \<le> 2) (GalatField ''temperature'' ''harus antara 0 dan 2'')) (\<lambda>_.
     pastikan (\<forall>p\<in>set_option top_p. 0 \<le> p \<and> p \<le> 1) (GalatField ''top_p'' ''harus antara 0 dan 1'')))"

text \<open>The two limits that stay in \<^verbatim>\<open>Extra\<close> are read, not taken out.\<close>

definition periksa_bilangan :: "string \<Rightarrow> (int \<Rightarrow> galat_codec + unit) \<Rightarrow> fields \<Rightarrow> galat_codec + unit" where
  "periksa_bilangan nama batas fs =
     (if adalah_null (map_of fs nama) then Inr ()
      else case u_int (the (map_of fs nama)) of
             None \<Rightarrow> Inl (GalatField nama ''harus bilangan bulat lebih besar dari 0'')
           | Some n \<Rightarrow> if n \<le> 0 then Inl (GalatField nama ''harus bilangan bulat lebih besar dari 0'') else batas n)"

definition periksa_sisa :: "fields \<Rightarrow> galat_codec + unit" where
  "periksa_sisa fs =
     lanjut (periksa_bilangan ''max_completion_tokens'' (\<lambda>_. Inr ()) fs) (\<lambda>_.
       periksa_bilangan ''n'' (\<lambda>n. pastikan (n \<le> maks_salinan_output) (GalatField ''n'' ''melebihi batas maksimum 128'')) fs)"

definition uraikan_chat :: "chat_request dekoder" where
  "uraikan_chat =
     lalu (bidang_ke [] u_teks ''model'') (\<lambda>model.
     lalu (angkat (pastikan (model \<noteq> []) (wajib ''model''))) (\<lambda>_.
     lalu (ambil ''messages'') (\<lambda>raw.
     lalu (angkat (case raw of None \<Rightarrow> Inl (wajib ''messages'') | Some j \<Rightarrow> uraikan_pesan j)) (\<lambda>messages.
     lalu (bidang_ptr u_int ''max_tokens'') (\<lambda>max_tokens.
     lalu (bidang_ptr u_float ''temperature'') (\<lambda>temperature.
     lalu (bidang_ptr u_float ''top_p'') (\<lambda>top_p.
     lalu (angkat (periksa_rentang max_tokens temperature top_p)) (\<lambda>_.
     lalu (bila_ada [] uraikan_stop ''stop'') (\<lambda>stop.
     lalu (bidang_ke False u_bool ''stream'') (\<lambda>stream.
     lalu (bila_ada [] uraikan_tools ''tools'') (\<lambda>tools.
     lalu (ambil ''tool_choice'') (\<lambda>tool_choice.
     lalu (bidang_ptr u_bool ''parallel_tool_calls'') (\<lambda>parallel.
     lalu (ambil ''response_format'') (\<lambda>response_format.
     lalu (bidang_ptr u_int ''seed'') (\<lambda>seed.
     lalu (bidang_ke [] u_teks ''reasoning_effort'') (\<lambda>effort.
     lalu (bidang_ke [] u_teks ''user'') (\<lambda>user.
     (\<lambda>fs. lanjut (periksa_sisa fs) (\<lambda>_. hasil
        \<lparr>cr_model = model, cr_messages = messages, cr_max_tokens = max_tokens, cr_temperature = temperature,
         cr_top_p = top_p, cr_top_k = None, cr_stop = stop, cr_stream = stream, cr_thinking = None,
         cr_tools = tools, cr_tool_choice = tool_choice, cr_parallel_tool_calls = parallel,
         cr_response_format = response_format, cr_seed = seed, cr_reasoning_effort = effort, cr_user = user,
         cr_extra = fs\<rparr> fs)))))))))))))))))))"

definition decode_chat_request :: "string \<Rightarrow> json option \<Rightarrow> galat_codec + chat_request" where
  "decode_chat_request body terurai =
     lanjut (bidang_tingkat_atas body terurai) (\<lambda>fs. lanjut (uraikan_chat fs) (\<lambda>(req, _). Inr req))"

section \<open>Embeddings\<close>

definition periksa_token_embedding :: "string \<Rightarrow> int list \<Rightarrow> galat_codec + unit" where
  "periksa_token_embedding jalur urutan =
     lanjut (pastikan (urutan \<noteq> []) (wajib jalur)) (\<lambda>_.
       pastikan (list_all (\<lambda>i. 0 \<le> i) urutan) (GalatField jalur ''memuat id token negatif''))"

fun periksa_teks_embedding :: "nat \<Rightarrow> string list \<Rightarrow> galat_codec + unit" where
  "periksa_teks_embedding i [] = Inr ()"
| "periksa_teks_embedding i (s # ss) = (if s = [] then Inl (wajib (jalur_ke ''input'' i)) else periksa_teks_embedding (Suc i) ss)"

fun periksa_token_semua :: "nat \<Rightarrow> int list list \<Rightarrow> galat_codec + unit" where
  "periksa_token_semua i [] = Inr ()"
| "periksa_token_semua i (u # us) = lanjut (periksa_token_embedding (jalur_ke ''input'' i) u) (\<lambda>_. periksa_token_semua (Suc i) us)"

definition uraikan_masukan_embedding :: "json \<Rightarrow> galat_codec + (string list \<times> int list list)" where
  "uraikan_masukan_embedding raw =
     (case u_teks raw of
        Some satu \<Rightarrow> if satu = [] then Inl (wajib ''input'') else Inr ([satu], [])
      | None \<Rightarrow>
     (case u_larik u_teks raw of
        Some banyak \<Rightarrow> if banyak = [] then Inl (wajib ''input'')
          else lanjut (periksa_teks_embedding 0 banyak) (\<lambda>_. Inr (banyak, []))
      | None \<Rightarrow>
     (case u_larik u_int raw of
        Some satu \<Rightarrow> lanjut (periksa_token_embedding ''input'' satu) (\<lambda>_. Inr ([], [satu]))
      | None \<Rightarrow>
     (case u_larik (u_larik u_int) raw of
        Some banyak \<Rightarrow> if banyak = [] then Inl (wajib ''input'')
          else lanjut (periksa_token_semua 0 banyak) (\<lambda>_. Inr ([], banyak))
      | None \<Rightarrow> Inl (GalatField ''input'' ''harus berupa string, array string, atau array token'')))))"

definition uraikan_embeddings :: "embeddings_request dekoder" where
  "uraikan_embeddings =
     lalu (bidang_ke [] u_teks ''model'') (\<lambda>model.
     lalu (angkat (pastikan (model \<noteq> []) (wajib ''model''))) (\<lambda>_.
     lalu (ambil ''input'') (\<lambda>raw.
     lalu (angkat (case raw of None \<Rightarrow> Inl (wajib ''input'') | Some j \<Rightarrow> uraikan_masukan_embedding j)) (\<lambda>masukan.
     lalu (bidang_ptr u_int ''dimensions'') (\<lambda>dimensions.
     lalu (angkat (pastikan (\<forall>d\<in>set_option dimensions. 0 < d) (GalatField ''dimensions'' ''harus lebih besar dari 0''))) (\<lambda>_.
     lalu (bidang_ke [] u_teks ''user'') (\<lambda>user.
     lalu (bidang_ke [] u_teks ''encoding_format'') (\<lambda>encoding.
     (\<lambda>fs. hasil \<lparr>er_model = model, er_input = fst masukan, er_token_input = snd masukan, er_dimensions = dimensions,
        er_user = user, er_encoding_format = encoding, er_extra = fs\<rparr> fs)))))))))"

definition decode_embeddings_request :: "string \<Rightarrow> json option \<Rightarrow> galat_codec + embeddings_request" where
  "decode_embeddings_request body terurai =
     lanjut (bidang_tingkat_atas body terurai) (\<lambda>fs. lanjut (uraikan_embeddings fs) (\<lambda>(req, _). Inr req))"

section \<open>Accepted requests\<close>

definition bagian_sah :: "content_part \<Rightarrow> bool" where
  "bagian_sah p \<longleftrightarrow>
     p = bagian_kosong\<lparr>cp_type := part_type_text, cp_text := cp_text p\<rparr> \<or>
     (case cp_image_url p of Some u \<Rightarrow> iu_url u \<noteq> [] \<and> p = bagian_kosong\<lparr>cp_type := part_type_image_url, cp_image_url := Some u\<rparr>
      | None \<Rightarrow> False) \<or>
     (case cp_audio p of Some a \<Rightarrow> au_data a \<noteq> [] \<and> au_format a \<noteq> [] \<and> p = bagian_kosong\<lparr>cp_type := part_type_audio, cp_audio := Some a\<rparr>
      | None \<Rightarrow> False)"

definition tool_calls_sah :: "nat \<Rightarrow> tool_call list \<Rightarrow> bool" where
  "tool_calls_sah n tcs \<longleftrightarrow> (\<forall>tc\<in>set tcs. tc_name tc \<noteq> []) \<and> map tc_index tcs = map int [n..<n + length tcs]"

definition pesan_sah :: "message \<Rightarrow> bool" where
  "pesan_sah m \<longleftrightarrow> ms_role m \<noteq> [] \<and> (\<forall>p\<in>set (ms_parts m). bagian_sah p) \<and> (ms_parts m \<noteq> [] \<longrightarrow> ms_content m = []) \<and>
     tool_calls_sah 0 (ms_tool_calls m) \<and> \<not> ms_is_error m \<and> ms_reasoning_content m = [] \<and> ms_refusal m = [] \<and>
     ms_audio_transcript m = []"

definition bidang_kanonik :: "string set" where
  "bidang_kanonik = {''model'', ''messages'', ''max_tokens'', ''temperature'', ''top_p'', ''stop'', ''stream'', ''tools'',
     ''tool_choice'', ''parallel_tool_calls'', ''response_format'', ''seed'', ''reasoning_effort'', ''user''}"

definition nilai_ada :: "json option \<Rightarrow> bool" where
  "nilai_ada x \<longleftrightarrow> (\<forall>j. x = Some j \<longrightarrow> isi j \<noteq> JNull)"

definition permintaan_sah :: "chat_request \<Rightarrow> bool" where
  "permintaan_sah req \<longleftrightarrow>
     cr_model req \<noteq> [] \<and> cr_messages req \<noteq> [] \<and> (\<forall>m\<in>set (cr_messages req). pesan_sah m) \<and>
     (\<forall>n. cr_max_tokens req = Some n \<longrightarrow> 0 < n \<and> n \<le> max_i64) \<and>
     (\<forall>t. cr_temperature req = Some t \<longrightarrow> 0 \<le> t \<and> t \<le> 2) \<and>
     (\<forall>p. cr_top_p req = Some p \<longrightarrow> 0 \<le> p \<and> p \<le> 1) \<and>
     (\<forall>n. cr_seed req = Some n \<longrightarrow> in_i64 n) \<and>
     (\<forall>t\<in>set (cr_tools req). fd_name (tl_function t) \<noteq> []) \<and>
     nilai_ada (cr_tool_choice req) \<and> nilai_ada (cr_response_format req) \<and>
     cr_thinking req = None \<and> cr_top_k req = None \<and>
     periksa_sisa (cr_extra req) = Inr () \<and> fst ` set (cr_extra req) \<inter> bidang_kanonik = {}"

lemma parse_int_range: "parse_int s = Inr n \<Longrightarrow> in_i64 n"
  by (auto simp: parse_int_def in_i64_def Let_def lanjut_Inr_iff split: list.splits if_splits)

lemma u_int_range: "u_int j = Some n \<Longrightarrow> in_i64 n"
  using parse_int_range by (auto simp: u_int_def in_i64_def split: isi.splits sum.splits)

lemma bagian_sahI:
  "bagian_sah (bagian_kosong\<lparr>cp_type := part_type_text, cp_text := t\<rparr>)"
  "iu_url u \<noteq> [] \<Longrightarrow> bagian_sah (bagian_kosong\<lparr>cp_type := part_type_image_url, cp_image_url := Some u\<rparr>)"
  "au_data a \<noteq> [] \<Longrightarrow> au_format a \<noteq> [] \<Longrightarrow> bagian_sah (bagian_kosong\<lparr>cp_type := part_type_audio, cp_audio := Some a\<rparr>)"
  by (simp_all add: bagian_sah_def)

lemma uraikan_bagian_sah: "uraikan_bagian jalur raw = Inr p \<Longrightarrow> bagian_sah p"
  unfolding uraikan_bagian_def
  by (split option.splits prod.splits if_splits; (elim exE conjE)?)+
    (auto intro: bagian_sahI split: option.splits if_splits)

lemma uraikan_bagian_dari_sah: "uraikan_bagian_dari jalur i bs = Inr ps \<Longrightarrow> p \<in> set ps \<Longrightarrow> bagian_sah p"
  by (induction jalur i bs arbitrary: ps rule: uraikan_bagian_dari.induct)
    (auto simp: lanjut_Inr_iff dest: uraikan_bagian_sah)

lemma uraikan_konten_sah:
  "uraikan_konten raw jalur = Inr (ada, teks, ps) \<Longrightarrow> (\<forall>p\<in>set ps. bagian_sah p) \<and> (ps \<noteq> [] \<longrightarrow> teks = [])"
  by (auto simp: uraikan_konten_def lanjut_Inr_iff dest: uraikan_bagian_dari_sah split: if_splits option.splits)

lemma uraikan_tool_calls_sah: "uraikan_tool_calls jalur n tms = Inr tcs \<Longrightarrow> tool_calls_sah n tcs"
proof (induction jalur n tms arbitrary: tcs rule: uraikan_tool_calls.induct)
  case (2 jalur j tm tms)
  from 2(2) obtain args sisa where r: "tm_name tm \<noteq> []" "uraikan_tool_calls jalur (Suc j) tms = Inr sisa"
    "tcs = \<lparr>tc_index = int j, tc_id = tm_id tm, tc_type = tm_type tm, tc_name = tm_name tm,
                   tc_arguments = args, tc_thought_signature = tm_signature tm\<rparr> # sisa"
    by (auto simp: Let_def lanjut_Inr_iff split: if_splits)
  from 2(1) [OF refl r(1)] r(2) have "tool_calls_sah (Suc j) sisa" by blast
  moreover have "map int [j..<j + Suc (length sisa)] = int j # map int [Suc j..<Suc j + length sisa]"
    by (simp add: upt_conv_Cons del: upt_Suc)
  ultimately show ?case using r(1,3) by (simp add: tool_calls_sah_def del: upt_Suc)
qed (simp add: tool_calls_sah_def)

lemma uraikan_satu_pesan_sah: "uraikan_satu_pesan i m = Inr p \<Longrightarrow> pesan_sah p"
  by (auto simp: uraikan_satu_pesan_def pesan_sah_def Let_def lanjut_Inr_iff
      dest: uraikan_konten_sah uraikan_tool_calls_sah split: if_splits prod.splits)

lemma uraikan_pesan_dari_sah: "uraikan_pesan_dari i ms = Inr ps \<Longrightarrow> (\<forall>p\<in>set ps. pesan_sah p) \<and> length ps = length ms"
  by (induction i ms arbitrary: ps rule: uraikan_pesan_dari.induct)
    (auto simp: lanjut_Inr_iff dest: uraikan_satu_pesan_sah)

lemma uraikan_pesan_sah: "uraikan_pesan raw = Inr ps \<Longrightarrow> (\<forall>p\<in>set ps. pesan_sah p) \<and> ps \<noteq> []"
  by (auto simp: uraikan_pesan_def dest!: uraikan_pesan_dari_sah split: option.splits if_splits)

lemma periksa_tools_sah: "periksa_tools i ts = Inr u \<longleftrightarrow> (\<forall>t\<in>set ts. fd_name (tl_function t) \<noteq> [])"
  by (induction i ts rule: periksa_tools.induct) auto

lemma uraikan_tools_sah: "uraikan_tools raw = Inr ts \<Longrightarrow> \<forall>t\<in>set ts. fd_name (tl_function t) \<noteq> []"
  by (auto simp: uraikan_tools_def lanjut_Inr_iff periksa_tools_sah split: option.splits)

lemma ambil_Inr: "ambil k fs = Inr (raw, fs1) \<longleftrightarrow>
    raw = (if adalah_null (map_of fs k) then None else map_of fs k) \<and> fs1 = AList.delete k fs"
  by (auto simp: ambil_def Let_def)

lemma ambil_ada: "ambil k fs = Inr (raw, fs1) \<Longrightarrow> nilai_ada raw"
  by (auto simp: ambil_Inr nilai_ada_def adalah_null_def split: if_splits option.splits)

lemma bila_ada_Inr: "bila_ada nol f k fs = Inr (x, fs1) \<longleftrightarrow>
    (\<exists>raw. ambil k fs = Inr (raw, fs1) \<and> (case raw of None \<Rightarrow> x = nol | Some j \<Rightarrow> f j = Inr x))"
  by (auto simp: bila_ada_def lalu_Inr split: option.splits)

lemma uraikan_ke_Inr: "uraikan_ke f k j = Inr x \<longleftrightarrow> f j = Some x"
  by (auto simp: uraikan_ke_def split: option.splits)

lemma bidang_ke_Inr: "bidang_ke nol f k fs = Inr (x, fs1) \<longleftrightarrow>
    (\<exists>raw. ambil k fs = Inr (raw, fs1) \<and> (case raw of None \<Rightarrow> x = nol | Some j \<Rightarrow> f j = Some x))"
  by (simp add: bidang_ke_def bila_ada_Inr uraikan_ke_Inr cong: option.case_cong)

lemma bidang_ptr_Inr: "bidang_ptr f k fs = Inr (x, fs1) \<Longrightarrow> fs1 = AList.delete k fs \<and> (\<forall>v. x = Some v \<longrightarrow> (\<exists>j. f j = Some v))"
  by (auto simp: bidang_ptr_def bidang_ke_Inr ambil_Inr u_ptr_def split: option.splits if_splits)

lemma periksa_rentang_Inr: "periksa_rentang m t p = Inr u \<longleftrightarrow> (\<forall>n. m = Some n \<longrightarrow> 0 < n) \<and>
    (\<forall>x. t = Some x \<longrightarrow> 0 \<le> x \<and> x \<le> 2) \<and> (\<forall>x. p = Some x \<longrightarrow> 0 \<le> x \<and> x \<le> 1)"
  by (cases m; cases t; cases p) (auto simp: periksa_rentang_def lanjut_Inr_iff)

text \<open>What each decoder of \<^verbatim>\<open>DecodeChatRequest\<close> takes out and guarantees.\<close>

lemma dekoder_hasil:
  "ambil k fs = Inr (raw, fs1) \<Longrightarrow> fs1 = AList.delete k fs \<and> nilai_ada raw"
  "bila_ada [] uraikan_stop k fs = Inr (ss, fs1) \<Longrightarrow> fs1 = AList.delete k fs"
  "bila_ada [] uraikan_tools k fs = Inr (ts, fs1) \<Longrightarrow> fs1 = AList.delete k fs \<and> (\<forall>t\<in>set ts. fd_name (tl_function t) \<noteq> [])"
  "bidang_ke nol f k fs = Inr (x, fs1) \<Longrightarrow> fs1 = AList.delete k fs"
  "bidang_ptr u_int k fs = Inr (n, fs1) \<Longrightarrow> fs1 = AList.delete k fs \<and> (\<forall>m. n = Some m \<longrightarrow> in_i64 m)"
  "bidang_ptr u_float k fs = Inr (q, fs1) \<Longrightarrow> fs1 = AList.delete k fs"
  "bidang_ptr u_bool k fs = Inr (b, fs1) \<Longrightarrow> fs1 = AList.delete k fs"
proof -
  show "ambil k fs = Inr (raw, fs1) \<Longrightarrow> fs1 = AList.delete k fs \<and> nilai_ada raw" using ambil_ada by (simp add: ambil_Inr)
  show "bila_ada [] uraikan_stop k fs = Inr (ss, fs1) \<Longrightarrow> fs1 = AList.delete k fs" by (auto simp: bila_ada_Inr ambil_Inr)
  show "bila_ada [] uraikan_tools k fs = Inr (ts, fs1) \<Longrightarrow> fs1 = AList.delete k fs \<and> (\<forall>t\<in>set ts. fd_name (tl_function t) \<noteq> [])"
    unfolding bila_ada_Inr ambil_Inr using uraikan_tools_sah by (fastforce split: option.splits)
  show "bidang_ke nol f k fs = Inr (x, fs1) \<Longrightarrow> fs1 = AList.delete k fs" by (auto simp: bidang_ke_Inr ambil_Inr)
  show "bidang_ptr u_int k fs = Inr (n, fs1) \<Longrightarrow> fs1 = AList.delete k fs \<and> (\<forall>m. n = Some m \<longrightarrow> in_i64 m)"
    using u_int_range bidang_ptr_Inr by blast
  show "bidang_ptr u_float k fs = Inr (q, fs1) \<Longrightarrow> fs1 = AList.delete k fs" using bidang_ptr_Inr by blast
  show "bidang_ptr u_bool k fs = Inr (b, fs1) \<Longrightarrow> fs1 = AList.delete k fs" using bidang_ptr_Inr by blast
qed

lemma ada_isi: "(case x of None \<Rightarrow> Inl e | Some j \<Rightarrow> f j) = Inr y \<Longrightarrow> \<exists>j. f j = Inr y"
  by (auto split: option.splits)

lemma delete_kanonik:
  "AList.delete ''user'' (AList.delete ''reasoning_effort'' (AList.delete ''seed'' (AList.delete ''response_format''
     (AList.delete ''parallel_tool_calls'' (AList.delete ''tool_choice'' (AList.delete ''tools'' (AList.delete ''stream''
     (AList.delete ''stop'' (AList.delete ''top_p'' (AList.delete ''temperature'' (AList.delete ''max_tokens''
     (AList.delete ''messages'' (AList.delete ''model'' fs))))))))))))) = filter (\<lambda>(k, v). k \<notin> bidang_kanonik) fs"
  unfolding AList.delete_eq filter_filter by (rule filter_cong) (auto simp: bidang_kanonik_def)

lemma uraikan_chat_bentuk:
  assumes "uraikan_chat fs = Inr (req, fs1)"
  shows "fs1 = cr_extra req \<and> cr_extra req = filter (\<lambda>(k, v). k \<notin> bidang_kanonik) fs \<and> permintaan_sah req"
proof -
  from assms have "fs1 = cr_extra req \<and> cr_extra req = filter (\<lambda>(k, v). k \<notin> bidang_kanonik) fs \<and>
      cr_model req \<noteq> [] \<and> (\<exists>raw. uraikan_pesan raw = Inr (cr_messages req)) \<and>
      (\<forall>n. cr_max_tokens req = Some n \<longrightarrow> in_i64 n) \<and> (\<forall>n. cr_seed req = Some n \<longrightarrow> in_i64 n) \<and>
      (\<exists>u. periksa_rentang (cr_max_tokens req) (cr_temperature req) (cr_top_p req) = Inr u) \<and>
      (\<forall>t\<in>set (cr_tools req). fd_name (tl_function t) \<noteq> []) \<and> nilai_ada (cr_tool_choice req) \<and>
      nilai_ada (cr_response_format req) \<and> (\<exists>u. periksa_sisa (cr_extra req) = Inr u) \<and> cr_thinking req = None \<and> cr_top_k req = None"
    unfolding uraikan_chat_def lalu_Inr angkat_Inr pastikan_Inr lanjut_Inr_iff hasil_Inr prod.case
    apply (elim exE conjE)
    apply (drule dekoder_hasil)+
    apply (elim conjE)
    apply hypsubst
    apply (unfold delete_kanonik chat_request.select_convs)
    by (intro conjI refl; (assumption | rule exI, assumption | rule ada_isi, assumption))
  then show ?thesis
    using uraikan_pesan_sah by (auto simp: permintaan_sah_def periksa_rentang_Inr in_i64_def)
qed

end
