(* ===== verification/Openai_Wire.thy ===== *)
theory Openai_Wire
  imports Complex_Main Chat_Codec Provider_Errors
begin

text \<open>
  The body that the OpenAI adapter sends, \<^verbatim>\<open>internal/providers/openai/chat.go\<close> and \<^verbatim>\<open>embeddings.go\<close>:
  the map that \<^verbatim>\<open>json.Marshal\<close> then writes, its values as JSON.  It is the opposite direction of
  the decoders, and the two have to agree: what a client sent and the upstream receives is compared
  here.  The text of a float is an argument.
\<close>

section \<open>Go values as JSON\<close>

definition j_teks :: "string \<Rightarrow> json" where "j_teks s = Nilai (tulis_string s) (JStr s)"
definition j_int :: "int \<Rightarrow> json" where "j_int n = Nilai (show_int n) JNum"
definition j_bool :: "bool \<Rightarrow> json" where "j_bool b = Nilai (if b then ''true'' else ''false'') (JBool b)"
definition j_float :: "(rat \<Rightarrow> string) \<Rightarrow> rat \<Rightarrow> json" where "j_float ftoa q = Nilai (ftoa q) JNum"
definition j_larik :: "json list \<Rightarrow> json" where "j_larik xs = Nilai (tulis_larik (map sumber xs)) (JArr xs)"
definition j_objek :: "(string \<times> json) list \<Rightarrow> json" where
  "j_objek kvs = Nilai (tulis_objek (map (\<lambda>(k, v). (k, sumber v)) kvs)) (JObj kvs)"

text \<open>A field with \<^verbatim>\<open>omitempty\<close>.\<close>

definition bila_isi :: "string \<Rightarrow> string \<Rightarrow> (string \<times> json) list" where
  "bila_isi k s = (if s = [] then [] else [(k, j_teks s)])"

definition bila_some :: "string \<Rightarrow> ('a \<Rightarrow> json) \<Rightarrow> 'a option \<Rightarrow> (string \<times> json) list" where
  "bila_some k f x = (case x of None \<Rightarrow> [] | Some v \<Rightarrow> [(k, f v)])"

definition bila_larik :: "string \<Rightarrow> json list \<Rightarrow> (string \<times> json) list" where
  "bila_larik k xs = (if xs = [] then [] else [(k, j_larik xs)])"

section \<open>The wire structs\<close>

definition j_image_url :: "image_url \<Rightarrow> json" where
  "j_image_url u = j_objek ([(''url'', j_teks (iu_url u))] @ bila_isi ''detail'' (iu_detail u))"

definition j_audio :: "audio \<Rightarrow> json" where
  "j_audio a = j_objek [(''data'', j_teks (au_data a)), (''format'', j_teks (au_format a))]"

definition j_document :: "document \<Rightarrow> json" where
  "j_document d = j_objek [(''media_type'', j_teks (dk_media_type d)), (''data'', j_teks (dk_data d))]"

definition j_bagian :: "content_part \<Rightarrow> json" where
  "j_bagian p = j_objek ([(''type'', j_teks (cp_type p))] @ bila_isi ''text'' (cp_text p) @
     bila_some ''image_url'' j_image_url (cp_image_url p) @ bila_some ''input_audio'' j_audio (cp_audio p) @
     bila_some ''document'' j_document (cp_document p))"

definition jenis_tool :: "string \<Rightarrow> string" where
  "jenis_tool t = (if t = [] then ''function'' else t)"

definition tool_call_to_wire :: "tool_call \<Rightarrow> json" where
  "tool_call_to_wire tc = j_objek (bila_isi ''id'' (tc_id tc) @ bila_isi ''type'' (jenis_tool (tc_type tc)) @
     bila_isi ''thought_signature'' (tc_thought_signature tc) @
     [(''function'', j_objek (bila_isi ''name'' (tc_name tc) @ [(''arguments'', j_teks (tc_arguments tc))]))])"

definition konten_wire :: "message \<Rightarrow> json option" where
  "konten_wire m =
     (if is_multimodal m then Some (j_larik (map j_bagian (ms_parts m)))
      else if ms_content m = [] \<and> ms_tool_calls m \<noteq> [] then None
      else Some (j_teks (ms_content m)))"

definition pesan_wire :: "message \<Rightarrow> json" where
  "pesan_wire m = j_objek ([(''role'', j_teks (ms_role m))] @ bila_some ''content'' id (konten_wire m) @
     bila_isi ''name'' (ms_name m) @ bila_larik ''tool_calls'' (map tool_call_to_wire (ms_tool_calls m)) @
     bila_isi ''tool_call_id'' (ms_tool_call_id m) @ bila_isi ''thought_signature'' (ms_reasoning_signature m) @
     bila_isi ''refusal'' (ms_refusal m))"

definition messages_to_wire :: "message list \<Rightarrow> json" where
  "messages_to_wire msgs = j_larik (map pesan_wire msgs)"

definition j_function_def :: "function_def \<Rightarrow> json" where
  "j_function_def f = j_objek ([(''name'', j_teks (fd_name f))] @ bila_isi ''description'' (fd_description f) @
     bila_some ''parameters'' id (fd_parameters f) @ bila_some ''strict'' j_bool (fd_strict f))"

definition j_tool :: "tool \<Rightarrow> json" where
  "j_tool t = j_objek [(''type'', j_teks (tl_type t)), (''function'', j_function_def (tl_function t))]"

definition tools_to_wire :: "tool list \<Rightarrow> tool list" where
  "tools_to_wire ts = map (\<lambda>t. t\<lparr>tl_type := jenis_tool (tl_type t)\<rparr>) ts"

section \<open>The body\<close>

text \<open>\<^verbatim>\<open>applyExtra\<close>: what the gateway has set stays.\<close>

definition apply_extra :: "(string \<times> json) list \<Rightarrow> (string \<times> json) list \<Rightarrow> (string \<times> json) list" where
  "apply_extra body extra =
     body @ filter (\<lambda>(k, v). k \<noteq> [] \<and> sumber v \<noteq> [] \<and> k \<notin> fst ` set body) extra"

definition wants_stream_usage :: "string \<Rightarrow> bool" where
  "wants_stream_usage kind \<longleftrightarrow> kind = kind_openai"

definition bidang_gateway :: "(rat \<Rightarrow> string) \<Rightarrow> string \<Rightarrow> chat_request \<Rightarrow> bool \<Rightarrow> (string \<times> json) list" where
  "bidang_gateway ftoa kind req streaming =
     [(''model'', j_teks (cr_model req)), (''messages'', messages_to_wire (cr_messages req)), (''stream'', j_bool streaming)] @
     (if streaming \<and> wants_stream_usage kind then [(''stream_options'', j_objek [(''include_usage'', j_bool True)])] else []) @
     bila_some ''max_tokens'' j_int (cr_max_tokens req) @
     bila_some ''temperature'' (j_float ftoa) (cr_temperature req) @
     bila_some ''top_p'' (j_float ftoa) (cr_top_p req) @
     bila_larik ''stop'' (map j_teks (cr_stop req)) @
     bila_larik ''tools'' (map j_tool (tools_to_wire (cr_tools req))) @
     bila_some ''tool_choice'' id (cr_tool_choice req) @
     bila_some ''parallel_tool_calls'' j_bool (cr_parallel_tool_calls req) @
     bila_some ''response_format'' id (cr_response_format req) @
     bila_some ''seed'' j_int (cr_seed req) @
     bila_isi ''reasoning_effort'' (cr_reasoning_effort req) @
     bila_isi ''user'' (cr_user req)"

definition chat_payload ::
    "(rat \<Rightarrow> string) \<Rightarrow> string \<Rightarrow> string \<Rightarrow> chat_request \<Rightarrow> bool \<Rightarrow> perror + (string \<times> json) list" where
  "chat_payload ftoa kind name req streaming =
     (if cr_messages req = [] then Inl (newf KindInvalidRequest name ''permintaan chat tanpa pesan'')
      else if list_ex (\<lambda>m. list_ex (\<lambda>p. cp_type p = part_type_document) (ms_parts m)) (cr_messages req)
        then Inl (newf KindInvalidRequest name ''dokumen PDF hanya bisa dilayani provider Anthropic'')
      else if trim_space (cr_model req) = [] then Inl (newf KindInvalidRequest name ''nama model wajib diisi'')
      else Inr (apply_extra (bidang_gateway ftoa kind req streaming) (cr_extra req)))"

definition embeddings_payload :: "string \<Rightarrow> embeddings_request \<Rightarrow> perror + (string \<times> json) list" where
  "embeddings_payload name req =
     (if er_input req = [] \<and> er_token_input req = []
      then Inl (newf KindInvalidRequest name ''permintaan embedding tanpa input'')
      else Inr (apply_extra
        ([(''model'', j_teks (er_model req)),
          (''input'', case er_token_input req of
             [] \<Rightarrow> j_larik (map j_teks (er_input req))
           | [ts] \<Rightarrow> j_larik (map j_int ts)
           | tss \<Rightarrow> j_larik (map (\<lambda>ts. j_larik (map j_int ts)) tss))] @
         bila_some ''dimensions'' j_int (er_dimensions req) @ bila_isi ''user'' (er_user req) @
         bila_isi ''encoding_format'' (er_encoding_format req))
        (er_extra req)))"

section \<open>Reading what was written\<close>

named_theorems baca_tulis \<open>a Go value read back from its JSON\<close>

lemma nama_kecil [simp]:
  "to_lower ''role'' = ''role''" "to_lower ''content'' = ''content''" "to_lower ''name'' = ''name''"
  "to_lower ''tool_calls'' = ''tool_calls''" "to_lower ''tool_call_id'' = ''tool_call_id''"
  "to_lower ''thought_signature'' = ''thought_signature''" "to_lower ''refusal'' = ''refusal''"
  "to_lower ''id'' = ''id''" "to_lower ''type'' = ''type''" "to_lower ''function'' = ''function''"
  "to_lower ''arguments'' = ''arguments''" "to_lower ''text'' = ''text''" "to_lower ''image_url'' = ''image_url''"
  "to_lower ''input_audio'' = ''input_audio''" "to_lower ''document'' = ''document''" "to_lower ''url'' = ''url''"
  "to_lower ''detail'' = ''detail''" "to_lower ''data'' = ''data''" "to_lower ''format'' = ''format''"
  "to_lower ''description'' = ''description''" "to_lower ''parameters'' = ''parameters''" "to_lower ''strict'' = ''strict''"
  by code_simp+

lemma case_option_id [simp]: "(case x of None \<Rightarrow> None | Some w \<Rightarrow> Some w) = x" "map_option id x = x"
  by (simp_all add: option.map_id split: option.split)

lemma bidang_Nil [simp]: "bidang n [] = None"
  by (simp add: bidang_def semua_def)

lemma bidang_append [simp]: "bidang n (xs @ ys) = (case bidang n ys of None \<Rightarrow> bidang n xs | Some v \<Rightarrow> Some v)"
  by (simp add: bidang_def semua_def Let_def)

lemma bidang_Cons [simp]:
  "bidang n ((k, v) # xs) = (case bidang n xs of None \<Rightarrow> if to_lower k = n then Some v else None | Some w \<Rightarrow> Some w)"
  by (simp add: bidang_def semua_def Let_def)

lemma bidang_bila_isi [simp]: "bidang n (bila_isi k s) = (if s \<noteq> [] \<and> to_lower k = n then Some (j_teks s) else None)"
  by (simp add: bila_isi_def)

lemma bidang_bila_some [simp]: "bidang n (bila_some k f x) = (if to_lower k = n then map_option f x else None)"
  by (simp add: bila_some_def split: option.split)

lemma bidang_bila_larik [simp]: "bidang n (bila_larik k xs) = (if xs \<noteq> [] \<and> to_lower k = n then Some (j_larik xs) else None)"
  by (simp add: bila_larik_def)

lemma semua_tulis [simp]:
  "semua n [] = []" "semua n (xs @ ys) = semua n xs @ semua n ys" "semua n ((k, v) # xs) = (if to_lower k = n then v # semua n xs else semua n xs)"
  "semua n (bila_isi k s) = (if s \<noteq> [] \<and> to_lower k = n then [j_teks s] else [])"
  "semua n (bila_some k f x) = (if to_lower k = n then (case x of None \<Rightarrow> [] | Some v \<Rightarrow> [f v]) else [])"
  "semua n (bila_larik k zs) = (if zs \<noteq> [] \<and> to_lower k = n then [j_larik zs] else [])"
  by (simp_all add: semua_def bila_isi_def bila_some_def bila_larik_def split: option.split)

lemma isi_j [simp]:
  "isi (j_teks s) = JStr s" "isi (j_int n) = JNum" "isi (j_bool b) = JBool b" "isi (j_float ftoa q) = JNum"
  "isi (j_larik xs) = JArr xs" "isi (j_objek kvs) = JObj kvs" "sumber (j_int n) = show_int n" "sumber (j_float ftoa q) = ftoa q"
  by (simp_all add: j_teks_def j_int_def j_bool_def j_float_def j_larik_def j_objek_def)

lemma parse_int_show_int: "in_i64 n \<Longrightarrow> parse_int (show_int n) = Inr n"
proof -
  assume n: "in_i64 n"
  have u: "m \<le> 18446744073709551615 \<Longrightarrow> parse_uint (show_nat m) = Inr m" for m
    using parse_uint_loop_digits [of "show_nat m" 0] show_nat_digits [of m] dec_val_show_nat [of m] by (simp add: parse_uint_def)
  have d: "is_digit c \<Longrightarrow> c \<noteq> CHR ''-'' \<and> c \<noteq> CHR ''+''" for c by (auto simp: is_digit_def)
  obtain c cs where s: "show_nat (nat n) = c # cs" by (cases "show_nat (nat n)") auto
  with show_nat_digits [of "nat n"] d have c: "c \<noteq> CHR ''-''" "c \<noteq> CHR ''+''" by auto
  show ?thesis
  proof (cases "n < 0")
    case True
    with n u [of "nat (- n)"] show ?thesis by (auto simp: show_int_def parse_int_def in_i64_def Let_def)
  next
    case False
    with n u [of "nat n"] s c show ?thesis by (auto simp: show_int_def parse_int_def in_i64_def Let_def)
  qed
qed

lemma u_dasar [simp]:
  "u_teks (j_teks s) = Some s" "u_bool (j_bool b) = Some b" "in_i64 n \<Longrightarrow> u_int (j_int n) = Some n"
  "u_bidang (j_objek kvs) = Some kvs" "u_signature (j_teks s) = Some s" "u_larik f (j_larik xs) = those (map f xs)"
  by (simp_all add: u_teks_def u_bool_def u_int_def u_bidang_def u_signature_def u_larik_def parse_int_show_int)

lemma u_ptr_j [simp]:
  "isi j \<noteq> JNull \<Longrightarrow> u_ptr f j = map_option Some (f j)"
  by (simp add: u_ptr_def)

lemma terisi_tulis [simp]:
  "terisi n [] = []" "terisi n (xs @ ys) = terisi n xs @ terisi n ys"
  "terisi n ((k, v) # xs) = (if to_lower k = n \<and> isi v \<noteq> JNull then v # terisi n xs else terisi n xs)"
  "terisi n (bila_isi k s) = (if s \<noteq> [] \<and> to_lower k = n then [j_teks s] else [])"
  "terisi n (bila_larik k zs) = (if zs \<noteq> [] \<and> to_lower k = n then [j_larik zs] else [])"
  by (simp_all add: terisi_def)

lemma terisi_bila_some [simp]:
  "terisi n (bila_some k f x) = (if to_lower k = n then filter (\<lambda>v. isi v \<noteq> JNull) (case x of None \<Rightarrow> [] | Some v \<Rightarrow> [f v]) else [])"
  unfolding terisi_def semua_tulis by (rule if_distrib [of "filter _", THEN trans], rule if_cong, rule refl, rule refl, rule filter.simps)

lemma u_opsi_simps [simp]: "u_opsi nol f [] = Some nol" "u_opsi nol f [j] = f j"
proof -
  show "u_opsi nol f [] = Some nol" by (simp add: u_opsi_def)
  show "u_opsi nol f [j] = f j" by (cases "f j") (simp_all add: u_opsi_def)
qed

lemma those_map_map: "(\<And>x. x \<in> set xs \<Longrightarrow> f (g x) = Some (h x)) \<Longrightarrow> those (map f (map g xs)) = Some (map h xs)"
  by (induction xs) auto

lemma u_opsi_isi [simp]:
  "u_opsi [] u_teks (if s = [] then [] else [j_teks s]) = Some s"
  "u_opsi [] u_signature (if s = [] then [] else [j_teks s]) = Some s"
  by simp_all

lemma record_literal [simp]:
  "\<lparr>iu_url = iu_url u, iu_detail = iu_detail u\<rparr> = (u :: image_url)"
  "\<lparr>au_data = au_data a, au_format = au_format a\<rparr> = (a :: audio)"
  "\<lparr>fd_name = fd_name f, fd_description = fd_description f, fd_parameters = fd_parameters f, fd_strict = fd_strict f\<rparr> = (f :: function_def)"
  "\<lparr>tl_type = tl_type t, tl_function = tl_function t\<rparr> = (t :: tool)"
  by simp_all

lemma baca_image_url [baca_tulis]: "u_image_url (j_image_url u) = Some u"
  by (simp add: u_image_url_def j_image_url_def)

lemma baca_audio [baca_tulis]: "u_audio (j_audio a) = Some a"
  by (simp add: u_audio_def j_audio_def)

lemma j_bukan_null [simp]: "isi (j_image_url u) \<noteq> JNull" "isi (j_audio a) \<noteq> JNull" "isi (j_function_def f) \<noteq> JNull"
  by (simp_all add: j_image_url_def j_audio_def j_function_def_def)

lemma baca_strict: "u_opsi None (u_ptr u_bool) (case x of None \<Rightarrow> [] | Some b \<Rightarrow> [j_bool b]) = Some x"
  by (cases x) auto

lemma baca_function_def [baca_tulis]: "u_function_def (j_function_def f) = Some f"
  by (simp add: u_function_def_def j_function_def_def baca_strict option.map_id0 id_def split: option.split)

lemma baca_tool [baca_tulis]: "u_tool (j_tool t) = Some t"
  by (simp add: u_tool_def j_tool_def baca_function_def)

lemma uraikan_tools_tulis:
  assumes "\<forall>t\<in>set ts. fd_name (tl_function t) \<noteq> []"
  shows "uraikan_tools (j_larik (map j_tool ts)) = Inr ts"
proof -
  have "periksa_tools 0 ts = Inr ()" using assms periksa_tools_sah [of 0 ts "()"] by blast
  moreover have "those (map u_tool (map j_tool ts)) = Some (map id ts)" by (rule those_map_map) (simp add: baca_tool)
  ultimately show ?thesis by (simp add: uraikan_tools_def)
qed

lemma uraikan_bagian_tulis:
  assumes "bagian_sah p" and "cp_type p = part_type_text \<longrightarrow> cp_text p \<noteq> []"
  shows "uraikan_bagian jalur (j_bagian p) = Inr p"
proof -
  have d: "part_type_text \<noteq> part_type_image_url" "part_type_text \<noteq> part_type_audio" "part_type_image_url \<noteq> part_type_audio"
    by (simp_all add: part_type_text_def part_type_image_url_def part_type_audio_def)
  from assms(1) consider (teks) "p = bagian_kosong\<lparr>cp_type := part_type_text, cp_text := cp_text p\<rparr>"
    | (gambar) u where "iu_url u \<noteq> []" "p = bagian_kosong\<lparr>cp_type := part_type_image_url, cp_image_url := Some u\<rparr>"
    | (suara) a where "au_data a \<noteq> []" "au_format a \<noteq> []" "p = bagian_kosong\<lparr>cp_type := part_type_audio, cp_audio := Some a\<rparr>"
    unfolding bagian_sah_def by (auto split: option.splits)
  then show ?thesis
  proof cases
    case teks
    then obtain t where p: "p = bagian_kosong\<lparr>cp_type := part_type_text, cp_text := t\<rparr>" by blast
    with assms(2) have "t \<noteq> []" by simp
    then show ?thesis by (simp add: p uraikan_bagian_def u_bagian_def j_bagian_def bagian_kosong_def)
  next
    case gambar
    then show ?thesis using d by (simp add: uraikan_bagian_def u_bagian_def j_bagian_def bagian_kosong_def baca_image_url)
  next
    case suara
    then show ?thesis using d by (simp add: uraikan_bagian_def u_bagian_def j_bagian_def bagian_kosong_def baca_audio)
  qed
qed

lemma uraikan_bagian_dari_tulis:
  assumes "\<forall>p\<in>set ps. bagian_sah p \<and> (cp_type p = part_type_text \<longrightarrow> cp_text p \<noteq> [])"
  shows "uraikan_bagian_dari jalur i (map j_bagian ps) = Inr ps"
  using assms by (induction ps arbitrary: i) (simp_all add: uraikan_bagian_tulis)

text \<open>A tool call is sent without its index, and with a type.\<close>

definition tool_call_terkirim :: "tool_call \<Rightarrow> tool_call" where
  "tool_call_terkirim tc = tc\<lparr>tc_type := jenis_tool (tc_type tc)\<rparr>"

definition pesan_terkirim :: "message \<Rightarrow> message" where
  "pesan_terkirim m = m\<lparr>ms_tool_calls := map tool_call_terkirim (ms_tool_calls m)\<rparr>"

lemma jenis_tool_isi [simp]: "jenis_tool t \<noteq> []"
  by (simp add: jenis_tool_def)

definition tool_call_dibaca :: "tool_call \<Rightarrow> tool_call_masuk" where
  "tool_call_dibaca tc = \<lparr>tm_id = tc_id tc, tm_type = jenis_tool (tc_type tc), tm_signature = tc_thought_signature tc,
     tm_name = tc_name tc, tm_arguments = Some (j_teks (tc_arguments tc))\<rparr>"

lemma baca_tool_call [baca_tulis]: "u_tool_call_masuk (tool_call_to_wire tc) = Some (tool_call_dibaca tc)"
  by (simp add: u_tool_call_masuk_def tool_call_to_wire_def u_fungsi_masuk_def tool_call_dibaca_def)

lemma uraikan_tool_calls_tulis:
  "tool_calls_sah n tcs \<Longrightarrow> uraikan_tool_calls jalur n (map tool_call_dibaca tcs) = Inr (map tool_call_terkirim tcs)"
proof (induction tcs arbitrary: n)
  case (Cons tc tcs)
  then have tc: "tc_name tc \<noteq> []" "tc_index tc = int n" and "tool_calls_sah (Suc n) tcs"
    by (auto simp: tool_calls_sah_def upt_conv_Cons simp del: upt_Suc)
  with Cons.IH show ?case
    by (simp add: tool_call_dibaca_def uraikan_argumen_def adalah_null_def Let_def tool_call_terkirim_def)
qed simp

definition tanpa_teks_kosong :: "message \<Rightarrow> bool" where
  "tanpa_teks_kosong m \<longleftrightarrow> (\<forall>p\<in>set (ms_parts m). cp_type p = part_type_text \<longrightarrow> cp_text p \<noteq> [])"

definition pesan_dibaca :: "message \<Rightarrow> pesan_masuk" where
  "pesan_dibaca m = \<lparr>pm_role = ms_role m, pm_content = konten_wire m, pm_name = ms_name m,
     pm_tool_calls = map tool_call_dibaca (ms_tool_calls m), pm_tool_call_id = ms_tool_call_id m,
     pm_signature = ms_reasoning_signature m\<rparr>"

lemma baca_pesan [baca_tulis]:
  assumes "ms_role m \<noteq> []"
  shows "u_pesan_masuk (pesan_wire m) = Some (pesan_dibaca m)"
proof -
  have "those (map (u_tool_call_masuk \<circ> tool_call_to_wire) (ms_tool_calls m)) = Some (map tool_call_dibaca (ms_tool_calls m))"
    using those_map_map [of "ms_tool_calls m" u_tool_call_masuk tool_call_to_wire tool_call_dibaca] by (simp add: baca_tool_call)
  then show ?thesis by (simp add: u_pesan_masuk_def pesan_wire_def pesan_dibaca_def)
qed

lemma uraikan_konten_tulis:
  assumes "pesan_sah m" and "tanpa_teks_kosong m"
  shows "uraikan_konten (konten_wire m) jalur = Inr (konten_wire m \<noteq> None, ms_content m, ms_parts m)"
proof (cases "is_multimodal m")
  case True
  from assms have "uraikan_bagian_dari jalur 0 (map j_bagian (ms_parts m)) = Inr (ms_parts m)"
    by (intro uraikan_bagian_dari_tulis) (auto simp: pesan_sah_def tanpa_teks_kosong_def)
  moreover have "those (map Some (map j_bagian (ms_parts m))) = Some (map j_bagian (ms_parts m))"
    using those_map_map [of "map j_bagian (ms_parts m)" Some id id] by simp
  ultimately show ?thesis using True assms(1)
    by (simp add: konten_wire_def uraikan_konten_def adalah_null_def u_teks_def is_multimodal_def pesan_sah_def)
next
  case False
  then show ?thesis by (auto simp: konten_wire_def uraikan_konten_def adalah_null_def is_multimodal_def)
qed

lemma uraikan_satu_pesan_tulis:
  assumes "pesan_sah m" and "tanpa_teks_kosong m"
  shows "uraikan_satu_pesan i (pesan_dibaca m) = Inr (pesan_terkirim m)"
proof -
  have "konten_wire m \<noteq> None \<or> ms_tool_calls m \<noteq> []" by (auto simp: konten_wire_def)
  with assms show ?thesis
    by (simp add: uraikan_satu_pesan_def pesan_dibaca_def uraikan_konten_tulis uraikan_tool_calls_tulis Let_def
        pesan_terkirim_def pesan_sah_def)
qed

lemma uraikan_pesan_dari_tulis:
  "\<forall>m\<in>set ms. pesan_sah m \<and> tanpa_teks_kosong m \<Longrightarrow> uraikan_pesan_dari i (map pesan_dibaca ms) = Inr (map pesan_terkirim ms)"
  by (induction ms arbitrary: i) (simp_all add: uraikan_satu_pesan_tulis)

lemma uraikan_pesan_tulis:
  assumes "ms \<noteq> []" and "\<forall>m\<in>set ms. pesan_sah m \<and> tanpa_teks_kosong m"
  shows "uraikan_pesan (messages_to_wire ms) = Inr (map pesan_terkirim ms)"
proof -
  have "those (map u_pesan_masuk (map pesan_wire ms)) = Some (map pesan_dibaca ms)"
    using assms(2) by (intro those_map_map baca_pesan) (simp add: pesan_sah_def)
  then show ?thesis using assms by (simp add: uraikan_pesan_def messages_to_wire_def uraikan_pesan_dari_tulis)
qed

section \<open>What the upstream is told\<close>

definition hapus :: "string set \<Rightarrow> fields \<Rightarrow> fields" where
  "hapus ks fs = filter (\<lambda>(k, v). k \<notin> ks) fs"

lemma hapus_simps [simp]: "hapus {} fs = fs" "AList.delete k (hapus ks fs) = hapus (insert k ks) fs"
  by (auto simp: hapus_def AList.delete_eq intro!: filter_cong)

lemma map_of_hapus: "map_of (hapus ks fs) k = (if k \<in> ks then None else map_of fs k)"
  by (induction fs) (auto simp: hapus_def)

lemma ambil_hapus: "k \<notin> ks \<Longrightarrow> ambil k (hapus ks fs) = Inr (if adalah_null (map_of fs k) then None else map_of fs k, hapus (insert k ks) fs)"
  by (simp add: ambil_def Let_def map_of_hapus)

lemma adalah_null_simps [simp]: "adalah_null None" "adalah_null (Some j) \<longleftrightarrow> isi j = JNull"
  by (simp_all add: adalah_null_def)

text \<open>Each field that the adapter writes, read by the decoder.\<close>

lemma baca_isi: "k \<notin> ks \<Longrightarrow> map_of body k = (if s = [] then None else Some (j_teks s)) \<Longrightarrow>
    bidang_ke [] u_teks k (hapus ks body) = Inr (s, hapus (insert k ks) body)"
  by (simp add: bidang_ke_def bila_ada_def lalu_def ambil_hapus uraikan_ke_def angkat_def)

lemma baca_bool: "k \<notin> ks \<Longrightarrow> map_of body k = Some (j_bool b) \<Longrightarrow>
    bidang_ke x u_bool k (hapus ks body) = Inr (b, hapus (insert k ks) body)"
  by (simp add: bidang_ke_def bila_ada_def lalu_def ambil_hapus uraikan_ke_def angkat_def)

lemma baca_ptr: "k \<notin> ks \<Longrightarrow> map_of body k = map_option g x \<Longrightarrow> (\<And>v. x = Some v \<Longrightarrow> isi (g v) \<noteq> JNull \<and> f (g v) = Some v) \<Longrightarrow>
    bidang_ptr f k (hapus ks body) = Inr (x, hapus (insert k ks) body)"
  by (cases x) (auto simp: bidang_ptr_def bidang_ke_def bila_ada_def lalu_def ambil_hapus uraikan_ke_def angkat_def)

lemma baca_mentah: "k \<notin> ks \<Longrightarrow> map_of body k = x \<Longrightarrow> nilai_ada x \<Longrightarrow> ambil k (hapus ks body) = Inr (x, hapus (insert k ks) body)"
  by (cases x) (auto simp: ambil_hapus nilai_ada_def)

lemma baca_larik: "k \<notin> ks \<Longrightarrow> map_of body k = (if xs = [] then None else Some (j_larik (map g xs))) \<Longrightarrow> f (j_larik (map g xs)) = Inr xs \<Longrightarrow>
    bila_ada [] f k (hapus ks body) = Inr (xs, hapus (insert k ks) body)"
  by (simp add: bila_ada_def lalu_def ambil_hapus angkat_def)

lemma uraikan_stop_tulis: "uraikan_stop (j_larik (map j_teks ss)) = Inr ss"
proof -
  have "those (map u_teks (map j_teks ss)) = Some (map id ss)" by (rule those_map_map) simp
  then show ?thesis by (simp add: uraikan_stop_def u_teks_def)
qed

lemma map_of_tulis [simp]:
  "map_of (bila_isi k s) n = (if s \<noteq> [] \<and> k = n then Some (j_teks s) else None)"
  "map_of (bila_some k f x) n = (if k = n then map_option f x else None)"
  "map_of (bila_larik k xs) n = (if xs \<noteq> [] \<and> k = n then Some (j_larik xs) else None)"
  by (auto simp: bila_isi_def bila_some_def bila_larik_def split: option.split)

lemma tools_to_wire_simps [simp]: "tools_to_wire ts = [] \<longleftrightarrow> ts = []"
  "(\<forall>t\<in>set (tools_to_wire ts). P (tl_function t)) \<longleftrightarrow> (\<forall>t\<in>set ts. P (tl_function t))"
  by (auto simp: tools_to_wire_def)

definition permintaan_terkirim :: "chat_request \<Rightarrow> bool \<Rightarrow> chat_request" where
  "permintaan_terkirim req streaming =
     req\<lparr>cr_messages := map pesan_terkirim (cr_messages req), cr_stream := streaming, cr_tools := tools_to_wire (cr_tools req)\<rparr>"

definition terbaca_kembali :: "(rat \<Rightarrow> string) \<Rightarrow> rat option \<Rightarrow> bool" where
  "terbaca_kembali ftoa x \<longleftrightarrow> (\<forall>q. x = Some q \<longrightarrow> nilai_desimal (ftoa q) = q)"

lemma u_float_tulis: "nilai_desimal (ftoa q) = q \<Longrightarrow> 0 \<le> q \<Longrightarrow> q \<le> 2 \<Longrightarrow> u_float (j_float ftoa q) = Some q"
proof -
  assume q: "nilai_desimal (ftoa q) = q" "0 \<le> q" "q \<le> 2"
  have "(2 :: rat) < batas_float" unfolding batas_float_def by (simp add: power_numeral)
  with q show ?thesis by (simp add: u_float_def)
qed

lemma map_of_apply_extra:
  assumes "distinct (map fst extra)"
  shows "map_of (apply_extra b extra) k =
    (case map_of b k of Some v \<Rightarrow> Some v
     | None \<Rightarrow> (case map_of extra k of Some v \<Rightarrow> if k \<noteq> [] \<and> sumber v \<noteq> [] then Some v else None | None \<Rightarrow> None))"
proof -
  let ?P = "\<lambda>(k, v). k \<noteq> [] \<and> sumber v \<noteq> [] \<and> k \<notin> fst ` set b"
  have D: "map_of (filter ?P extra) k = (case map_of extra k of Some v \<Rightarrow> if ?P (k, v) then Some v else None | None \<Rightarrow> None)"
    using assms by (induction extra) (auto simp: map_of_eq_None_iff split: option.splits)
  show ?thesis
  proof (cases "map_of b k")
    case None
    then have "k \<notin> fst ` set b" by (simp add: map_of_eq_None_iff)
    with None D show ?thesis by (simp add: apply_extra_def map_add_def cong: option.case_cong)
  next
    case (Some v)
    then have "k \<in> fst ` set b" by (metis map_of_eq_None_iff option.simps(3))
    with D have "map_of (filter ?P extra) k = None" by (simp split: option.split)
    with Some show ?thesis by (simp add: apply_extra_def map_add_def)
  qed
qed

lemma sebagai_peta_distinct: "distinct (map fst (sebagai_peta kvs))"
proof -
  have "distinct (map fst m) \<Longrightarrow> distinct (map fst (foldl (\<lambda>m (k, v). AList.update k v m) m kvs))" for m
    by (induction kvs arbitrary: m) (auto simp: distinct_update)
  then show ?thesis by (simp add: sebagai_peta_def)
qed

lemma decode_chat_requestD:
  assumes "decode_chat_request body terurai = Inr req"
  obtains fs where "bidang_tingkat_atas body terurai = Inr fs" "distinct (map fst fs)" "uraikan_chat fs = Inr (req, cr_extra req)"
proof -
  from assms obtain fs ex where fs: "bidang_tingkat_atas body terurai = Inr fs" "uraikan_chat fs = Inr (req, ex)"
    by (auto simp: decode_chat_request_def lanjut_Inr_iff)
  from fs(1) have "distinct (map fst fs)"
    by (auto simp: bidang_tingkat_atas_def sebagai_peta_distinct split: if_splits option.splits json.splits isi.splits)
  with fs uraikan_chat_bentuk [OF fs(2)] that show thesis by blast
qed

lemma map_of_gateway:
  "map_of (bidang_gateway ftoa kind req streaming) ''model'' = Some (j_teks (cr_model req))"
  "map_of (bidang_gateway ftoa kind req streaming) ''messages'' = Some (messages_to_wire (cr_messages req))"
  "map_of (bidang_gateway ftoa kind req streaming) ''stream'' = Some (j_bool streaming)"
  "map_of (bidang_gateway ftoa kind req streaming) ''max_tokens'' = map_option j_int (cr_max_tokens req)"
  "map_of (bidang_gateway ftoa kind req streaming) ''temperature'' = map_option (j_float ftoa) (cr_temperature req)"
  "map_of (bidang_gateway ftoa kind req streaming) ''top_p'' = map_option (j_float ftoa) (cr_top_p req)"
  "map_of (bidang_gateway ftoa kind req streaming) ''stop'' = (if cr_stop req = [] then None else Some (j_larik (map j_teks (cr_stop req))))"
  "map_of (bidang_gateway ftoa kind req streaming) ''tools'' =
     (if tools_to_wire (cr_tools req) = [] then None else Some (j_larik (map j_tool (tools_to_wire (cr_tools req)))))"
  "map_of (bidang_gateway ftoa kind req streaming) ''tool_choice'' = cr_tool_choice req"
  "map_of (bidang_gateway ftoa kind req streaming) ''parallel_tool_calls'' = map_option j_bool (cr_parallel_tool_calls req)"
  "map_of (bidang_gateway ftoa kind req streaming) ''response_format'' = cr_response_format req"
  "map_of (bidang_gateway ftoa kind req streaming) ''seed'' = map_option j_int (cr_seed req)"
  "map_of (bidang_gateway ftoa kind req streaming) ''reasoning_effort'' =
     (if cr_reasoning_effort req = [] then None else Some (j_teks (cr_reasoning_effort req)))"
  "map_of (bidang_gateway ftoa kind req streaming) ''user'' = (if cr_user req = [] then None else Some (j_teks (cr_user req)))"
  by (simp_all add: bidang_gateway_def map_add_def cong: option.case_cong split: option.split)

lemma nama_tulis: "fst ` set (bila_isi k s) \<subseteq> {k}" "fst ` set (bila_some k f x) \<subseteq> {k}" "fst ` set (bila_larik k xs) \<subseteq> {k}"
  by (auto simp: bila_isi_def bila_some_def bila_larik_def split: option.split)

lemma map_of_gateway_lain:
  assumes "k \<notin> bidang_kanonik"
  shows "map_of (bidang_gateway ftoa kind req streaming) k =
     (if k = ''stream_options'' \<and> streaming \<and> kind = kind_openai then Some (j_objek [(''include_usage'', j_bool True)]) else None)"
proof (cases "k = ''stream_options''")
  case True
  then show ?thesis by (simp add: bidang_gateway_def map_add_def wants_stream_usage_def)
next
  case False
  have "fst ` set (bidang_gateway ftoa kind req streaming) \<subseteq> insert ''stream_options'' bidang_kanonik"
    unfolding bidang_gateway_def set_append image_Un
    by (intro Un_least subset_trans [OF nama_tulis(1)] subset_trans [OF nama_tulis(2)] subset_trans [OF nama_tulis(3)])
      (auto simp: bidang_kanonik_def)
  with False assms have "k \<notin> fst ` set (bidang_gateway ftoa kind req streaming)" by blast
  with False show ?thesis by (simp add: map_of_eq_None_iff)
qed

lemma periksa_bilangan_subset:
  assumes "periksa_bilangan k f fs = Inr ()" and "map_of gs k = map_of fs k \<or> map_of gs k = None"
  shows "periksa_bilangan k f gs = Inr ()"
  using assms by (auto simp: periksa_bilangan_def)

lemma periksa_sisa_subset:
  assumes "periksa_sisa fs = Inr ()" and "\<And>k. k \<in> {''n'', ''max_completion_tokens''} \<Longrightarrow> map_of gs k = map_of fs k \<or> map_of gs k = None"
  shows "periksa_sisa gs = Inr ()"
  using assms periksa_bilangan_subset by (auto simp: periksa_sisa_def lanjut_Inr_iff)

lemma uraikan_chat_tulis:
  assumes S: "permintaan_sah req" and D: "distinct (map fst (cr_extra req))"
    and T: "\<forall>m\<in>set (cr_messages req). tanpa_teks_kosong m"
    and F: "terbaca_kembali ftoa (cr_temperature req)" "terbaca_kembali ftoa (cr_top_p req)"
    and body: "body = apply_extra (bidang_gateway ftoa kind req streaming) (cr_extra req)"
  shows "uraikan_chat body = Inr ((permintaan_terkirim req streaming)\<lparr>cr_extra := hapus bidang_kanonik body\<rparr>, hapus bidang_kanonik body)"
proof -
  have ex: "k \<in> bidang_kanonik \<Longrightarrow> map_of (cr_extra req) k = None" for k
    using S by (auto simp: permintaan_sah_def map_of_eq_None_iff)
  have M: "k \<in> bidang_kanonik \<Longrightarrow> map_of body k = map_of (bidang_gateway ftoa kind req streaming) k" for k
    using ex by (auto simp: body map_of_apply_extra [OF D] split: option.split)
  have nama: "''model'' \<in> bidang_kanonik" "''messages'' \<in> bidang_kanonik" "''stream'' \<in> bidang_kanonik"
      "''max_tokens'' \<in> bidang_kanonik" "''temperature'' \<in> bidang_kanonik" "''top_p'' \<in> bidang_kanonik"
      "''stop'' \<in> bidang_kanonik" "''tools'' \<in> bidang_kanonik" "''tool_choice'' \<in> bidang_kanonik"
      "''parallel_tool_calls'' \<in> bidang_kanonik" "''response_format'' \<in> bidang_kanonik" "''seed'' \<in> bidang_kanonik"
      "''reasoning_effort'' \<in> bidang_kanonik" "''user'' \<in> bidang_kanonik"
    by (simp_all add: bidang_kanonik_def)
  note B = map_of_gateway [of ftoa kind req streaming, folded nama [THEN M]]
  have sisa: "periksa_sisa (hapus bidang_kanonik body) = Inr ()"
  proof (rule periksa_sisa_subset)
    show "periksa_sisa (cr_extra req) = Inr ()" using S by (simp add: permintaan_sah_def)
    show "map_of (hapus bidang_kanonik body) k = map_of (cr_extra req) k \<or> map_of (hapus bidang_kanonik body) k = None"
      if "k \<in> {''n'', ''max_completion_tokens''}" for k
      using that by (auto simp: map_of_hapus body map_of_apply_extra [OF D] map_of_gateway_lain split: option.split)
  qed
  have A: "ambil ''messages'' (hapus ks body) = Inr (Some (messages_to_wire (cr_messages req)), hapus (insert ''messages'' ks) body)"
    if "''messages'' \<notin> ks" for ks using that B(2) by (intro baca_mentah) (auto simp: nilai_ada_def messages_to_wire_def)
  have P: "uraikan_pesan (messages_to_wire (cr_messages req)) = Inr (map pesan_terkirim (cr_messages req))"
    using S T by (intro uraikan_pesan_tulis) (auto simp: permintaan_sah_def)
  have U: "uraikan_tools (j_larik (map j_tool (tools_to_wire (cr_tools req)))) = Inr (tools_to_wire (cr_tools req))"
    using S by (intro uraikan_tools_tulis) (auto simp: permintaan_sah_def tools_to_wire_def)
  have I: "bidang_ptr u_int k (hapus ks body) = Inr (x, hapus (insert k ks) body)"
    if "k \<notin> ks" "map_of body k = map_option j_int x" "\<forall>n. x = Some n \<longrightarrow> in_i64 n" for k ks x
    using that by (intro baca_ptr) auto
  have Q: "bidang_ptr u_float k (hapus ks body) = Inr (x, hapus (insert k ks) body)"
    if "k \<notin> ks" "map_of body k = map_option (j_float ftoa) x" "terbaca_kembali ftoa x" "\<forall>q. x = Some q \<longrightarrow> 0 \<le> q \<and> q \<le> 2" for k ks x
    using that by (intro baca_ptr) (auto simp: terbaca_kembali_def u_float_tulis)
  have model: "bidang_ke [] u_teks ''model'' body = Inr (cr_model req, hapus {''model''} body)"
    using baca_isi [of "''model''" "{}" body "cr_model req"] B(1) S by (simp add: permintaan_sah_def)
  have max_tokens: "bidang_ptr u_int ''max_tokens'' (hapus ks body) = Inr (cr_max_tokens req, hapus (insert ''max_tokens'' ks) body)" if "''max_tokens'' \<notin> ks" for ks
    using that B(4) S by (intro I) (auto simp: permintaan_sah_def in_i64_def)
  have temperature: "bidang_ptr u_float ''temperature'' (hapus ks body) = Inr (cr_temperature req, hapus (insert ''temperature'' ks) body)" if "''temperature'' \<notin> ks" for ks
    using that B(5) S F by (intro Q) (auto simp: permintaan_sah_def)
  have top_p: "bidang_ptr u_float ''top_p'' (hapus ks body) = Inr (cr_top_p req, hapus (insert ''top_p'' ks) body)" if "''top_p'' \<notin> ks" for ks
    using that B(6) S F by (intro Q) (fastforce simp: permintaan_sah_def)+
  have stop: "bila_ada [] uraikan_stop ''stop'' (hapus ks body) = Inr (cr_stop req, hapus (insert ''stop'' ks) body)" if "''stop'' \<notin> ks" for ks
    using that B(7) by (rule baca_larik) (rule uraikan_stop_tulis)
  have stream: "bidang_ke False u_bool ''stream'' (hapus ks body) = Inr (streaming, hapus (insert ''stream'' ks) body)" if "''stream'' \<notin> ks" for ks
    using that B(3) by (rule baca_bool)
  have tools: "bila_ada [] uraikan_tools ''tools'' (hapus ks body) = Inr (tools_to_wire (cr_tools req), hapus (insert ''tools'' ks) body)" if "''tools'' \<notin> ks" for ks
    using that B(8) U by (rule baca_larik)
  have tool_choice: "ambil ''tool_choice'' (hapus ks body) = Inr (cr_tool_choice req, hapus (insert ''tool_choice'' ks) body)" if "''tool_choice'' \<notin> ks" for ks
    using that B(9) S by (intro baca_mentah) (auto simp: permintaan_sah_def)
  have parallel_tool_calls: "bidang_ptr u_bool ''parallel_tool_calls'' (hapus ks body) = Inr (cr_parallel_tool_calls req, hapus (insert ''parallel_tool_calls'' ks) body)" if "''parallel_tool_calls'' \<notin> ks" for ks
    using that B(10) by (intro baca_ptr) auto
  have response_format: "ambil ''response_format'' (hapus ks body) = Inr (cr_response_format req, hapus (insert ''response_format'' ks) body)" if "''response_format'' \<notin> ks" for ks
    using that B(11) S by (intro baca_mentah) (auto simp: permintaan_sah_def)
  have seed: "bidang_ptr u_int ''seed'' (hapus ks body) = Inr (cr_seed req, hapus (insert ''seed'' ks) body)" if "''seed'' \<notin> ks" for ks
    using that B(12) S by (intro I) (auto simp: permintaan_sah_def)
  have reasoning_effort: "bidang_ke [] u_teks ''reasoning_effort'' (hapus ks body) = Inr (cr_reasoning_effort req, hapus (insert ''reasoning_effort'' ks) body)" if "''reasoning_effort'' \<notin> ks" for ks
    using that B(13) by (rule baca_isi)
  have user: "bidang_ke [] u_teks ''user'' (hapus ks body) = Inr (cr_user req, hapus (insert ''user'' ks) body)" if "''user'' \<notin> ks" for ks
    using that B(14) by (rule baca_isi)
  have "periksa_rentang (cr_max_tokens req) (cr_temperature req) (cr_top_p req) = Inr ()"
    using S periksa_rentang_Inr [of _ _ _ "()"] by (simp add: permintaan_sah_def)
  moreover have "hapus {''user'', ''reasoning_effort'', ''seed'', ''response_format'', ''parallel_tool_calls'', ''tool_choice'',
      ''tools'', ''stream'', ''stop'', ''top_p'', ''temperature'', ''max_tokens'', ''messages'', ''model''} body = hapus bidang_kanonik body"
    unfolding bidang_kanonik_def by (rule arg_cong [where f = "\<lambda>ks. hapus ks body"]) auto
  moreover have "cr_model req \<noteq> []" "cr_thinking req = None" "cr_top_k req = None" using S by (auto simp: permintaan_sah_def)
  ultimately show ?thesis
    by (simp add: uraikan_chat_def lalu_def model A P max_tokens temperature top_p stop stream tools tool_choice
        parallel_tool_calls response_format seed reasoning_effort user angkat_def pastikan_def hasil_def sisa permintaan_terkirim_def)
qed

section \<open>Properties\<close>

text \<open>A body for the witnesses: two messages, a tool call and a field that the gateway does not know.\<close>

definition contoh_nilai :: "string \<Rightarrow> json" where "contoh_nilai s = Nilai ([CHR 0x22] @ s @ [CHR 0x22]) (JStr s)"

definition contoh_body :: json where
  "contoh_body = Nilai ''(body)'' (JObj
     [(''model'', contoh_nilai ''gpt''),
      (''messages'', Nilai ''[..]'' (JArr
         [Nilai ''{..}'' (JObj [(''role'', contoh_nilai ''user''), (''content'', contoh_nilai ''hi'')]),
          Nilai ''{..}'' (JObj [(''role'', contoh_nilai ''assistant''), (''tool_calls'', Nilai ''[..]'' (JArr
            [Nilai ''{..}'' (JObj [(''id'', contoh_nilai ''c1''),
               (''function'', Nilai ''{..}'' (JObj [(''name'', contoh_nilai ''f''), (''arguments'', contoh_nilai ''1'')]))])]))])])),
      (''top_k'', Nilai ''5'' JNum), (''stream'', Nilai ''true'' (JBool True))])"

definition contoh_permintaan :: chat_request where
  "contoh_permintaan = (case decode_chat_request ''(body)'' (Some contoh_body) of Inr req \<Rightarrow> req)"

lemma contoh_decode: "decode_chat_request ''(body)'' (Some contoh_body) = Inr contoh_permintaan"
  by code_simp

text \<open>C31. Whatever the decoder accepts is well formed: a model, at least one message, every message with a role and
  only known kinds of parts, limits and sampling parameters in range, every tool and tool call with a name,
  a copy count of at most 128; and \<^verbatim>\<open>Extra\<close> is the body without the fields that have a place of their own.\<close>

theorem decode_wellformed:
  assumes "decode_chat_request body terurai = Inr req"
  shows "permintaan_sah req \<and> salinan_keluaran req \<le> 128 \<and>
    (\<exists>kvs. terurai = Some (Nilai (sumber (the terurai)) (JObj kvs)) \<and>
      (\<forall>k. map_of (cr_extra req) k = (if k \<in> bidang_kanonik then None else map_of (sebagai_peta kvs) k)))"
proof (intro conjI)
  obtain fs where fs: "bidang_tingkat_atas body terurai = Inr fs" "uraikan_chat fs = Inr (req, cr_extra req)"
    using decode_chat_requestD [OF assms] by blast
  note U = uraikan_chat_bentuk [OF fs(2)]
  from U show "permintaan_sah req" by blast
  show "salinan_keluaran req \<le> 128" using salinan_keluaran_bounds by blast
  from fs(1) obtain kvs where kvs: "terurai = Some (Nilai (sumber (the terurai)) (JObj kvs))" "fs = sebagai_peta kvs"
    by (auto simp: bidang_tingkat_atas_def split: if_splits option.splits json.splits isi.splits)
  have "cr_extra req = hapus bidang_kanonik fs" using U by (simp add: hapus_def)
  with kvs show "\<exists>kvs. terurai = Some (Nilai (sumber (the terurai)) (JObj kvs)) \<and>
      (\<forall>k. map_of (cr_extra req) k = (if k \<in> bidang_kanonik then None else map_of (sebagai_peta kvs) k))"
    by (intro exI [of _ kvs]) (simp add: map_of_hapus)
qed

lemma decode_wellformed_witness:
  "permintaan_sah contoh_permintaan \<and> map_of (cr_extra contoh_permintaan) ''top_k'' = Some (Nilai ''5'' JNum)"
proof
  show "permintaan_sah contoh_permintaan" using decode_wellformed [OF contoh_decode] by blast
  show "map_of (cr_extra contoh_permintaan) ''top_k'' = Some (Nilai ''5'' JNum)" by code_simp
qed

text \<open>C20. What the OpenAI adapter sends for an accepted request without an empty text part (such a part is accepted but
  written without its text, and does not decode again) and whose temperature and top_p the writer prints so that they read
  back as the same number, decoded again, is that request: the same messages,
  parameters and tools (a missing tool type filled in), under the upstream's model name and the gateway's
  own \<^verbatim>\<open>stream\<close>; every field that the gateway does not know arrives unchanged and none is added or replaced
  but \<^verbatim>\<open>stream_options\<close>.\<close>

theorem openai_body_faithful:
  assumes "decode_chat_request teks terurai = Inr req"
    and "chat_payload ftoa kind name (untuk_kandidat req c) streaming = Inr body"
    and "\<forall>m\<in>set (cr_messages req). tanpa_teks_kosong m"
    and "terbaca_kembali ftoa (cr_temperature req)" and "terbaca_kembali ftoa (cr_top_p req)"
  shows "\<exists>ex. uraikan_chat body =
        Inr ((permintaan_terkirim req streaming)\<lparr>cr_model := rc_upstream_model_name c, cr_extra := ex\<rparr>, ex) \<and>
      (\<forall>k v. map_of (cr_extra req) k = Some v \<longrightarrow> k \<noteq> [] \<longrightarrow> sumber v \<noteq> [] \<longrightarrow> k \<noteq> ''stream_options'' \<longrightarrow> map_of ex k = Some v) \<and>
      (\<forall>k v. map_of ex k = Some v \<longrightarrow> k \<noteq> ''stream_options'' \<longrightarrow> map_of (cr_extra req) k = Some v)"
proof -
  let ?r = "req\<lparr>cr_model := rc_upstream_model_name c\<rparr>"
  obtain fs where fs: "distinct (map fst fs)" "uraikan_chat fs = Inr (req, cr_extra req)"
    using decode_chat_requestD [OF assms(1)] by blast
  note U = uraikan_chat_bentuk [OF fs(2)]
  then have D: "distinct (map fst (cr_extra req))" using fs(1) by (simp add: distinct_map_filter)
  from U have "cr_thinking req = None" by (simp add: permintaan_sah_def)
  then have c: "untuk_kandidat req c = ?r" by (simp add: untuk_kandidat_def Let_def)
  from assms(2) have body: "body = apply_extra (bidang_gateway ftoa kind ?r streaming) (cr_extra req)"
    and m: "rc_upstream_model_name c \<noteq> []"
    unfolding c by (auto simp: chat_payload_def trim_space_def split: if_splits)
  have "permintaan_sah req" using U by blast
  then have S: "permintaan_sah ?r" using m by (simp add: permintaan_sah_def)
  have K: "k \<notin> bidang_kanonik" if "map_of (cr_extra req) k = Some v" for k v
    using U map_of_SomeD [OF that] by (auto simp: permintaan_sah_def)
  have "uraikan_chat body = Inr ((permintaan_terkirim req streaming)\<lparr>cr_model := rc_upstream_model_name c,
      cr_extra := hapus bidang_kanonik body\<rparr>, hapus bidang_kanonik body)"
    using uraikan_chat_tulis [OF S, of ftoa "body" kind streaming] D assms(3-5) body by (simp add: permintaan_terkirim_def)
  moreover have "map_of (hapus bidang_kanonik body) k = Some v"
    if "map_of (cr_extra req) k = Some v" "k \<noteq> []" "sumber v \<noteq> []" "k \<noteq> ''stream_options''" for k v
    using that K [OF that(1)] by (simp add: map_of_hapus body map_of_apply_extra [OF D] map_of_gateway_lain)
  moreover have "map_of (cr_extra req) k = Some v"
    if "map_of (hapus bidang_kanonik body) k = Some v" "k \<noteq> ''stream_options''" for k v
    using that by (auto simp: map_of_hapus body map_of_apply_extra [OF D] map_of_gateway_lain split: if_splits option.splits)
  ultimately show ?thesis by blast
qed

definition contoh_kandidat_openai :: route_candidate where
  "contoh_kandidat_openai = \<lparr>rc_model_id = ''m'', rc_provider_model_id = ''pm'', rc_upstream_model_name = ''gpt-4o'', rc_max_context_window = None,
     rc_supports_streaming = True, rc_supports_tools = True, rc_priority = 1, rc_weight = 1, rc_provider_id = ''p'',
     rc_provider_name = ''p'', rc_kind = ''openai'', rc_base_url = [], rc_timeout_ms = 0, rc_max_retries = 1,
     rc_rate_limit_rpm = None, rc_rate_limit_tpm = None, rc_max_concurrent = Some 1, rc_egress_pool_id = None,
     rc_is_byok = False, rc_owner_user_id = None, rc_last_health_status = None, rc_last_latency_ms = None,
     rc_consecutive_failures = 0\<rparr>"

lemma openai_body_faithful_witness:
  "\<exists>body ex. chat_payload (\<lambda>_. []) ''openai'' ''p'' (untuk_kandidat contoh_permintaan contoh_kandidat_openai) True = Inr body \<and>
     uraikan_chat body = Inr ((permintaan_terkirim contoh_permintaan True)\<lparr>cr_model := ''gpt-4o'', cr_extra := ex\<rparr>, ex) \<and>
     map_of ex ''top_k'' = Some (Nilai ''5'' JNum)"
proof -
  have "case chat_payload (\<lambda>_. []) ''openai'' ''p'' (untuk_kandidat contoh_permintaan contoh_kandidat_openai) True of Inr _ \<Rightarrow> True | Inl _ \<Rightarrow> False"
    by code_simp
  then obtain body where b: "chat_payload (\<lambda>_. []) ''openai'' ''p'' (untuk_kandidat contoh_permintaan contoh_kandidat_openai) True = Inr body"
    by (auto split: sum.splits)
  have t: "\<forall>m\<in>set (cr_messages contoh_permintaan). tanpa_teks_kosong m" by code_simp
  have "Option.is_none (cr_temperature contoh_permintaan)" "Option.is_none (cr_top_p contoh_permintaan)" by code_simp+
  then have f: "terbaca_kembali (\<lambda>_. []) (cr_temperature contoh_permintaan)" "terbaca_kembali (\<lambda>_. []) (cr_top_p contoh_permintaan)"
    by (auto simp: terbaca_kembali_def split: option.splits)
  have k: "map_of (cr_extra contoh_permintaan) ''top_k'' = Some (Nilai ''5'' JNum)" by code_simp
  have u: "rc_upstream_model_name contoh_kandidat_openai = ''gpt-4o''" by code_simp
  from openai_body_faithful [OF contoh_decode b t f] show ?thesis
  proof (elim exE conjE)
    fix ex
    assume A: "uraikan_chat body = Inr ((permintaan_terkirim contoh_permintaan True)
        \<lparr>cr_model := rc_upstream_model_name contoh_kandidat_openai, cr_extra := ex\<rparr>, ex)"
      and B: "\<forall>k v. map_of (cr_extra contoh_permintaan) k = Some v \<longrightarrow> k \<noteq> [] \<longrightarrow> sumber v \<noteq> [] \<longrightarrow> k \<noteq> ''stream_options'' \<longrightarrow> map_of ex k = Some v"
    from B [rule_format, OF k] have "map_of ex ''top_k'' = Some (Nilai ''5'' JNum)" by simp
    with A b show ?thesis unfolding u by blast
  qed
qed

end
