(* ===== verification/Request_Gate.thy ===== *)
theory Request_Gate
  imports Complex_Main Request_Guard Chat_Codec Executor
begin

text \<open>
  Everything a chat request passes before the first upstream call, \<^verbatim>\<open>internal/gateway/http.go\<close>: reading it,
  the filter, the model and the key's rights to it, the limits, budgets and token gate of the model, the
  candidates and their order, combo recipes, the older tiers of a combo, and the refund of what was
  counted if the request is refused on the way.  The repositories, the prices and the decoder of JSON are
  functions, those with state answering by the number of the call.  A request comes with its key; where
  the code replaces the request's context, the model returns the new one.
\<close>

section \<open>What the handlers use\<close>

record model_kanonik =
  mo_id :: string
  mo_model_id :: string
  mo_enabled :: bool
  mo_capabilities :: "string list"

datatype hasil_resolve = ModelAda model_kanonik | ModelTiada | ModelGalat

record route_query =
  qy_model_id :: string
  qy_owner :: string
  qy_unhealthy :: bool
  qy_disabled :: bool

record combo_tier =
  ct_tier :: int
  ct_model :: string
  ct_providers :: "string list"

record ('r, 's) handlers =
  hd_guard :: "('r, 's) guard"
  hd_json :: "string \<Rightarrow> json option"
  hd_resolve :: "nat \<Rightarrow> string \<Rightarrow> hasil_resolve"
  hd_candidates :: "nat \<Rightarrow> route_query \<Rightarrow> route_candidate list option"
  hd_restrict :: bool
  hd_allows_model :: "nat \<Rightarrow> string \<Rightarrow> string \<Rightarrow> bool option"
  hd_allows_provider :: "nat \<Rightarrow> string \<Rightarrow> string \<Rightarrow> bool option"
  hd_mappings :: "(nat \<Rightarrow> string \<Rightarrow> string list option) option"
  hd_penaksir :: "(nat \<Rightarrow> string \<Rightarrow> token_estimate \<Rightarrow> usd option) option"
  hd_aturan :: "nat \<Rightarrow> jawaban_sumber"
  hd_urai :: "string \<Rightarrow> combo_pipeline option"
  hd_urai_tier :: "string \<Rightarrow> combo_tier list option"
  hd_sumber :: "nat \<Rightarrow> sumber"

definition tanya :: "(nat \<Rightarrow> 'a) \<Rightarrow> (('r, 's) gerbang, 'a) aksi" where
  "tanya f = dengan (\<lambda>n g. (f n, g))"

text \<open>\<^verbatim>\<open>persiapan\<close>: what the execution is given.\<close>

record persiapan =
  si_req :: chat_request
  si_model :: model_kanonik
  si_decision :: decision
  si_targets :: "target list"
  si_plan :: plan

definition kutip_nama :: "string \<Rightarrow> string" where
  "kutip_nama v = CHR 0x22 # (if 100 < length v then take 100 v @ [CHR 0xE2, CHR 0x80, CHR 0xA6] else v) @ [CHR 0x22]"

definition galat_internal :: rejection where
  "galat_internal = tolakan 500 err_api ''internal_error'' ''terjadi kesalahan internal, coba lagi nanti''"

section \<open>The model\<close>

text \<open>\<^verbatim>\<open>bentukUUID\<close>.\<close>

definition bentuk_uuid :: "string \<Rightarrow> bool" where
  "bentuk_uuid s \<longleftrightarrow> length s = 36 \<and>
     list_all (\<lambda>i. if i \<in> {8, 13, 18, 23} then s ! i = CHR ''-'' else s ! i \<in> set ''0123456789abcdefABCDEF'') [0..<length s]"

definition tidak_dikenal :: "string \<Rightarrow> rejection" where
  "tidak_dikenal diminta = tolakan 404 err_invalid_request ''model_not_found''
     (''model '' @ kutip_nama diminta @ '' tidak dikenal gateway ini; lihat GET /v1/models'')"

definition cari_target_aturan :: "('r, 's) handlers \<Rightarrow> string \<Rightarrow> (('r, 's) gerbang, string) aksi" where
  "cari_target_aturan H diminta = dengan (\<lambda>n g.
     case find_rule_target_model_id (hd_urai H) default_rule_ttl (hd_aturan H n) (gu_jam (hd_guard H) n) diminta (gb_engine g) of
       (e, t) \<Rightarrow> (t, g\<lparr>gb_engine := e\<rparr>))"

text \<open>A name that is neither a model nor its alias may be that of a rule.\<close>

definition resolusi :: "('r, 's) handlers \<Rightarrow> string \<Rightarrow> (('r, 's) gerbang, hasil_resolve) aksi" where
  "resolusi H diminta = do {
     r \<leftarrow> tanya (\<lambda>n. hd_resolve H n diminta);
     if r \<noteq> ModelTiada then kembali r
     else do {
       t \<leftarrow> cari_target_aturan H diminta;
       if t = [] then kembali ModelTiada else tanya (\<lambda>n. hd_resolve H n t) } }"

definition selesaikan_model :: "('r, 's) handlers \<Rightarrow> string \<Rightarrow> (('r, 's) gerbang, rejection + model_kanonik) aksi" where
  "selesaikan_model H diminta =
     (if bentuk_uuid diminta then kembali (Inl (tidak_dikenal diminta))
      else do {
        r \<leftarrow> resolusi H diminta;
        kembali (case r of
            ModelTiada \<Rightarrow> Inl (tidak_dikenal diminta)
          | ModelGalat \<Rightarrow> Inl galat_internal
          | ModelAda m \<Rightarrow>
              if \<not> mo_enabled m
              then Inl (tolakan 404 err_invalid_request ''model_disabled'' (''model '' @ kutip_nama diminta @ '' dimatikan pada gateway ini''))
              else Inr m) })"

definition periksa_key :: "('r, 's) handlers \<Rightarrow> pemohon \<Rightarrow> bool" where
  "periksa_key H p \<longleftrightarrow> hd_restrict H \<and> ky_id (ph_key p) \<noteq> []"

text \<open>The question of \<^verbatim>\<open>AllowsModel\<close>, without one the key is not restricted; \<^const>\<open>None\<close> is a failure.\<close>

definition boleh_model :: "('r, 's) handlers \<Rightarrow> pemohon \<Rightarrow> model_kanonik \<Rightarrow> (('r, 's) gerbang, bool option) aksi" where
  "boleh_model H p m =
     (if \<not> periksa_key H p then kembali (Some True)
      else tanya (\<lambda>n. hd_allows_model H n (ky_id (ph_key p)) (mo_id m)))"

definition model_terlarang :: "model_kanonik \<Rightarrow> rejection" where
  "model_terlarang m = tolakan 403 err_permission ''model_not_allowed''
     (''API key ini tidak diizinkan memakai model '' @ kutip_nama (mo_model_id m))"

definition izin_model :: "('r, 's) handlers \<Rightarrow> pemohon \<Rightarrow> model_kanonik \<Rightarrow> (('r, 's) gerbang, rejection option) aksi" where
  "izin_model H p m = do {
     b \<leftarrow> boleh_model H p m;
     kembali (case b of None \<Rightarrow> Some galat_internal | Some True \<Rightarrow> None | Some False \<Rightarrow> Some (model_terlarang m)) }"

section \<open>Policies of the model\<close>

text \<open>\<^verbatim>\<open>estimasiBiaya\<close>: the dearest of the model's mappings that has a price; zero without any.\<close>

fun biaya_termahal ::
    "(nat \<Rightarrow> string \<Rightarrow> token_estimate \<Rightarrow> usd option) \<Rightarrow> token_estimate \<Rightarrow> usd \<Rightarrow> string list \<Rightarrow> (('r, 's) gerbang, usd) aksi" where
  "biaya_termahal penaksir est maks [] = kembali maks"
| "biaya_termahal penaksir est maks (i # ids) = do {
     b \<leftarrow> tanya (\<lambda>n. penaksir n i est);
     biaya_termahal penaksir est (case b of None \<Rightarrow> maks | Some x \<Rightarrow> if maks < x then x else maks) ids }"

definition estimasi_biaya :: "('r, 's) handlers \<Rightarrow> model_kanonik \<Rightarrow> chat_request \<Rightarrow> (('r, 's) gerbang, usd) aksi" where
  "estimasi_biaya H m req =
     (case (hd_penaksir H, hd_mappings H) of
        (Some penaksir, Some pemetaan) \<Rightarrow> do {
          ids \<leftarrow> tanya (\<lambda>n. pemetaan n (mo_id m));
          case ids of None \<Rightarrow> kembali 0 | Some ids \<Rightarrow> biaya_termahal penaksir (estimate_tokens req) 0 ids }
      | _ \<Rightarrow> kembali 0)"

text \<open>\<^verbatim>\<open>kebijakan\<close>, with the context that replaces the request's.\<close>

definition kebijakan ::
    "('r, 's) handlers \<Rightarrow> konteks \<Rightarrow> pemohon \<Rightarrow> model_kanonik \<Rightarrow> target list \<Rightarrow> usd \<Rightarrow> (('r, 's) gerbang, konteks \<times> rejection option) aksi" where
  "kebijakan H ctx p m targets estimasi = do {
     rj \<leftarrow> saring_permintaan (hd_guard H) (subject_kosong\<lparr>su_model_id := mo_id m\<rparr>);
     case rj of Some r \<Rightarrow> kembali (ctx, Some r) | None \<Rightarrow> do {
     (ctx', rj) \<leftarrow> periksa_batas_model (hd_guard H) ctx (mo_id m);
     case rj of Some r \<Rightarrow> kembali (ctx, Some r) | None \<Rightarrow> do {
     rj \<leftarrow> periksa_anggaran_dengan_reservasi (hd_guard H) targets estimasi;
     case rj of Some r \<Rightarrow> kembali (ctx', Some r) | None \<Rightarrow> do {
     rj \<leftarrow> gerbang_token (hd_guard H) p targets;
     kembali (ctx', rj) } } } }"

section \<open>Candidates\<close>

datatype boleh = Boleh | GugurLain | GugurKey | GugurGalat

text \<open>One provider: the content filter, its budgets, then the key's restrictions.\<close>

definition boleh_provider :: "('r, 's) handlers \<Rightarrow> pemohon \<Rightarrow> string \<Rightarrow> (('r, 's) gerbang, boleh) aksi" where
  "boleh_provider H p pid = do {
     dilarang \<leftarrow> provider_dilarang (hd_guard H) pid;
     if dilarang then kembali GugurLain
     else do {
       habis \<leftarrow> provider_anggaran_habis (hd_guard H) pid;
       if habis then kembali GugurLain
       else if \<not> periksa_key H p then kembali Boleh
       else do {
         b \<leftarrow> tanya (\<lambda>n. hd_allows_provider H n (ky_id (ph_key p)) pid);
         kembali (case b of None \<Rightarrow> GugurGalat | Some True \<Rightarrow> Boleh | Some False \<Rightarrow> GugurKey) } } }"

text \<open>The loop \<^verbatim>\<open>kandidat\<close> and \<^verbatim>\<open>saringKandidatTier2\<close> share: each provider is asked once, a failure ends it.\<close>

fun nilai_kandidat ::
    "('r, 's) handlers \<Rightarrow> pemohon \<Rightarrow> (string \<times> boleh) list \<Rightarrow> route_candidate list \<Rightarrow>
     (('r, 's) gerbang, (route_candidate \<times> boleh) list option) aksi" where
  "nilai_kandidat H p ingat [] = kembali (Some [])"
| "nilai_kandidat H p ingat (c # cs) = do {
     b \<leftarrow> (case map_of ingat (rc_provider_id c) of Some b \<Rightarrow> kembali b | None \<Rightarrow> boleh_provider H p (rc_provider_id c));
     if b = GugurGalat then kembali None
     else do {
       r \<leftarrow> nilai_kandidat H p ((rc_provider_id c, b) # ingat) cs;
       kembali (map_option (\<lambda>xs. (c, b) # xs) r) } }"

definition yang_boleh :: "(route_candidate \<times> boleh) list \<Rightarrow> route_candidate list" where
  "yang_boleh xs = map fst (filter (\<lambda>x. snd x = Boleh) xs)"

record diagnosa_kandidat =
  dg_dilarang_key :: bool
  dg_semua_tak_sehat :: bool
  dg_semua_nonaktif :: bool

definition query :: "string \<Rightarrow> string \<Rightarrow> route_query" where
  "query model_id owner = \<lparr>qy_model_id = model_id, qy_owner = owner, qy_unhealthy = False, qy_disabled = False\<rparr>"

definition ada_isinya :: "'a list option \<Rightarrow> bool" where
  "ada_isinya xs \<longleftrightarrow> xs \<noteq> None \<and> xs \<noteq> Some []"

text \<open>Why a query came back empty.\<close>

definition diagnosa :: "('r, 's) handlers \<Rightarrow> route_query \<Rightarrow> (('r, 's) gerbang, bool \<times> bool) aksi" where
  "diagnosa H q = do {
     sakit \<leftarrow> tanya (\<lambda>n. hd_candidates H n (q\<lparr>qy_unhealthy := True\<rparr>));
     if ada_isinya sakit then kembali (True, False)
     else do {
       mati \<leftarrow> tanya (\<lambda>n. hd_candidates H n (q\<lparr>qy_unhealthy := True, qy_disabled := True\<rparr>));
       kembali (False, ada_isinya mati) } }"

definition kandidat ::
    "('r, 's) handlers \<Rightarrow> pemohon \<Rightarrow> request \<Rightarrow> (('r, 's) gerbang, (route_candidate list \<times> diagnosa_kandidat) option) aksi" where
  "kandidat H p rreq = do {
     r \<leftarrow> tanya (\<lambda>n. hd_candidates H n (query (rq_model_id rreq) (rq_owner_user_id rreq)));
     case r of
       None \<Rightarrow> kembali None
     | Some cands \<Rightarrow> do {
         (sakit, mati) \<leftarrow> (if cands = [] then diagnosa H (query (rq_model_id rreq) (rq_owner_user_id rreq)) else kembali (False, False));
         nilai \<leftarrow> nilai_kandidat H p [] cands;
         kembali (map_option (\<lambda>xs. (yang_boleh xs,
            \<lparr>dg_dilarang_key = (cands \<noteq> [] \<and> yang_boleh xs = [] \<and>
                list_ex (\<lambda>x. snd x = GugurKey) xs \<and> \<not> list_ex (\<lambda>x. snd x = GugurLain) xs),
             dg_semua_tak_sehat = sakit, dg_semua_nonaktif = mati\<rparr>)) nilai) } }"

section \<open>Combo recipes\<close>

text \<open>The candidates of one member that are not there yet, with the mappings seen.\<close>

fun saring_combo ::
    "('r, 's) handlers \<Rightarrow> pemohon \<Rightarrow> string list \<Rightarrow> route_candidate list \<Rightarrow> (('r, 's) gerbang, string list \<times> route_candidate list) aksi" where
  "saring_combo H p pernah [] = kembali (pernah, [])"
| "saring_combo H p pernah (c # cs) =
     (if rc_provider_model_id c \<in> set pernah then saring_combo H p pernah cs
      else do {
        b \<leftarrow> boleh_provider H p (rc_provider_id c);
        if b \<noteq> Boleh then saring_combo H p pernah cs
        else do {
          (pernah', out) \<leftarrow> saring_combo H p (rc_provider_model_id c # pernah) cs;
          kembali (pernah', c # out) } })"

text \<open>One member of the recipe; a member that cannot be used is passed over.\<close>

definition anggota_combo ::
    "('r, 's) handlers \<Rightarrow> pemohon \<Rightarrow> string list \<Rightarrow> string \<Rightarrow>
     (('r, 's) gerbang, string list \<times> (model_kanonik \<times> route_candidate list) option) aksi" where
  "anggota_combo H p pernah nama = do {
     r \<leftarrow> tanya (\<lambda>n. hd_resolve H n nama);
     case r of
       ModelAda m \<Rightarrow>
         if \<not> mo_enabled m then kembali (pernah, None)
         else do {
           b \<leftarrow> boleh_model H p m;
           if b \<noteq> Some True then kembali (pernah, None)
           else do {
             r \<leftarrow> tanya (\<lambda>n. hd_candidates H n (query (mo_id m) (ph_owner p)));
             case r of
               None \<Rightarrow> kembali (pernah, None)
             | Some cands \<Rightarrow> do {
                 (pernah', out) \<leftarrow> saring_combo H p pernah cands;
                 kembali (pernah', Some (m, out)) } } }
     | _ \<Rightarrow> kembali (pernah, None) }"

fun kumpul_combo ::
    "('r, 's) handlers \<Rightarrow> pemohon \<Rightarrow> string list \<Rightarrow> string list \<Rightarrow> (('r, 's) gerbang, (model_kanonik \<times> route_candidate list) list) aksi" where
  "kumpul_combo H p pernah [] = kembali []"
| "kumpul_combo H p pernah (nama # namas) = do {
     (pernah', x) \<leftarrow> anggota_combo H p pernah nama;
     xs \<leftarrow> kumpul_combo H p pernah' namas;
     kembali (case x of None \<Rightarrow> xs | Some a \<Rightarrow> a # xs) }"

text \<open>\<^verbatim>\<open>namaModelPerID\<close>: the names of the members that gave a candidate; a later entry replaces an earlier one.\<close>

definition nama_per_id :: "(model_kanonik \<times> route_candidate list) list \<Rightarrow> (string \<times> string) list" where
  "nama_per_id xs = foldl (\<lambda>m (a, cs). if cs = [] then m else AList.update (mo_id a) (mo_model_id a) m) [] xs"

definition kandidat_combo ::
    "('r, 's) handlers \<Rightarrow> pemohon \<Rightarrow> rule \<Rightarrow> combo_pipeline \<Rightarrow> request \<Rightarrow>
     (('r, 's) gerbang, route_candidate list \<times> (string \<times> string) list) aksi" where
  "kandidat_combo H p r pipa rreq = do {
     xs \<leftarrow> kumpul_combo H p [] (cp_models pipa);
     dengan (\<lambda>n g. case order_candidates (hd_sumber H n) (gu_jam (hd_guard H) n) rreq (ru_id r) (cp_strategy pipa) (concat (map snd xs)) (gb_engine g) of
       (e, out) \<Rightarrow> ((out, nama_per_id xs), g\<lparr>gb_engine := e\<rparr>)) }"

section \<open>Older tiers\<close>

text \<open>\<^verbatim>\<open>ekstrakTier2Model\<close>, \<^verbatim>\<open>ekstrakComboPipeline\<close>; \<open>hd_urai_tier\<close> is the JSON decoder at the start of a text.\<close>

definition ekstrak_tier2_model :: "rule option \<Rightarrow> string" where
  "ekstrak_tier2_model r =
     (case r of
        None \<Rightarrow> []
      | Some r \<Rightarrow>
          (case index_of (ru_description r) ''[combo:tier2='' of
             None \<Rightarrow> []
           | Some i \<Rightarrow>
               let sub = drop (i + length ''[combo:tier2='') (ru_description r)
               in (case index_of sub '']'' of None \<Rightarrow> [] | Some e \<Rightarrow> trim_space (take e sub))))"

definition ekstrak_combo_pipeline :: "('r, 's) handlers \<Rightarrow> rule option \<Rightarrow> combo_tier list" where
  "ekstrak_combo_pipeline H r =
     (let t2 = ekstrak_tier2_model r;
          lama = (if t2 = [] then [] else [\<lparr>ct_tier = 2, ct_model = t2, ct_providers = []\<rparr>])
      in case r of
           None \<Rightarrow> []
         | Some r \<Rightarrow>
             (case index_of (ru_description r) ''[combo:pipeline='' of
                None \<Rightarrow> lama
              | Some i \<Rightarrow>
                  let sub = drop (i + length ''[combo:pipeline='') (ru_description r)
                  in if take 1 sub = ''['' then (case hd_urai_tier H sub of Some (t # ts) \<Rightarrow> t # ts | _ \<Rightarrow> lama) else lama))"

definition semua_kandidat_kekecilan :: "route_candidate list \<Rightarrow> int \<Rightarrow> bool" where
  "semua_kandidat_kekecilan cands masuk \<longleftrightarrow> cands \<noteq> [] \<and> 0 < masuk \<and>
     list_all (\<lambda>c. case rc_max_context_window c of None \<Rightarrow> False | Some w \<Rightarrow> 0 < w \<and> w < masuk) cands"

datatype hasil_tier = TierTiada | TierTolak rejection | TierSiap model_kanonik "route_candidate list" "target list"

definition target_permintaan :: "pemohon \<Rightarrow> model_kanonik \<Rightarrow> string option \<Rightarrow> target list" where
  "target_permintaan p m ip = targets_for (ky_id (ph_key p)) (ph_owner p) (mo_id m) ip"

text \<open>The three parts of \<^verbatim>\<open>siapkanTierFallback\<close>: its model, what follows the limits, and the whole with its refunds.\<close>

definition model_tier ::
    "('r, 's) handlers \<Rightarrow> pemohon \<Rightarrow> model_kanonik \<Rightarrow> string \<Rightarrow> (('r, 's) gerbang, hasil_tier + model_kanonik) aksi" where
  "model_tier H p kini nama = do {
     r \<leftarrow> tanya (\<lambda>n. hd_resolve H n nama);
     case r of
       ModelAda m \<Rightarrow>
         if \<not> mo_enabled m \<or> mo_id m = mo_id kini then kembali (Inl TierTiada)
         else do {
           b \<leftarrow> boleh_model H p m;
           kembali (case b of None \<Rightarrow> Inl TierTiada | Some False \<Rightarrow> Inl (TierTolak (model_terlarang m)) | Some True \<Rightarrow> Inr m) }
     | _ \<Rightarrow> kembali (Inl TierTiada) }"

definition saring_kandidat_tier2 ::
    "('r, 's) handlers \<Rightarrow> pemohon \<Rightarrow> bool \<Rightarrow> route_candidate list \<Rightarrow> (('r, 's) gerbang, route_candidate list option) aksi" where
  "saring_kandidat_tier2 H p stream cands = do {
     nilai \<leftarrow> nilai_kandidat H p [] (filter (\<lambda>c. stream \<longrightarrow> rc_supports_streaming c) cands);
     kembali (map_option yang_boleh nilai) }"

definition kandidat_tier ::
    "('r, 's) handlers \<Rightarrow> pemohon \<Rightarrow> combo_tier \<Rightarrow> model_kanonik \<Rightarrow> chat_request \<Rightarrow> bool \<Rightarrow> (('r, 's) gerbang, route_candidate list) aksi" where
  "kandidat_tier H p tier m req stream = do {
     r \<leftarrow> tanya (\<lambda>n. hd_candidates H n (query (mo_id m) (ph_owner p)));
     case r of
       None \<Rightarrow> kembali []
     | Some cands \<Rightarrow> do {
         saring \<leftarrow> saring_kandidat_tier2 H p stream
           (if ct_providers tier = [] then cands else filter (\<lambda>c. rc_provider_id c \<in> set (ct_providers tier)) cands);
         kembali (case saring of
             None \<Rightarrow> []
           | Some cs \<Rightarrow> if mengandung_dokumen_pdf req then kandidat_anthropic_saja cs else cs) } }"

definition isi_tier ::
    "('r, 's) handlers \<Rightarrow> pemohon \<Rightarrow> string option \<Rightarrow> combo_tier \<Rightarrow> model_kanonik \<Rightarrow> chat_request \<Rightarrow> bool \<Rightarrow> (('r, 's) gerbang, hasil_tier) aksi" where
  "isi_tier H p ip tier m req stream = do {
     rj \<leftarrow> periksa_anggaran (hd_guard H) (target_permintaan p m ip);
     case rj of Some r \<Rightarrow> kembali (TierTolak r) | None \<Rightarrow> do {
     rj \<leftarrow> gerbang_token (hd_guard H) p (target_permintaan p m ip);
     case rj of Some r \<Rightarrow> kembali (TierTolak r) | None \<Rightarrow> do {
     cs \<leftarrow> kandidat_tier H p tier m req stream;
     kembali (if cs = [] then TierTiada else TierSiap m cs (target_permintaan p m ip)) } } }"

definition siapkan_tier_fallback ::
    "('r, 's) handlers \<Rightarrow> konteks \<Rightarrow> pemohon \<Rightarrow> string option \<Rightarrow> model_kanonik \<Rightarrow> combo_tier \<Rightarrow> chat_request \<Rightarrow> bool \<Rightarrow>
     (('r, 's) gerbang, hasil_tier \<times> konteks) aksi" where
  "siapkan_tier_fallback H ctx p ip kini tier req stream = do {
     x \<leftarrow> model_tier H p kini (ct_model tier);
     case x of Inl h \<Rightarrow> kembali (h, ctx) | Inr m \<Rightarrow> do {
     rj \<leftarrow> saring_permintaan (hd_guard H) (subject_kosong\<lparr>su_model_id := mo_id m\<rparr>);
     case rj of Some r \<Rightarrow> kembali (TierTolak r, ctx) | None \<Rightarrow> do {
     (ctx', rj) \<leftarrow> periksa_batas_model (hd_guard H) ctx (mo_id m);
     case rj of Some r \<Rightarrow> kembali (TierTolak r, ctx) | None \<Rightarrow> do {
     h \<leftarrow> isi_tier H p ip tier m req stream;
     case h of
       TierSiap tm cs tg \<Rightarrow> kembali (h, ctx')
     | _ \<Rightarrow> do { _ \<leftarrow> kembalikan_kuota_model (hd_guard H) ctx' (mo_id m); kembali (h, ctx') } } } } }"

text \<open>The loop over the tiers in \<^verbatim>\<open>siapkanChatParsed\<close>: a tier that is too small as well is given back.\<close>

fun coba_tier ::
    "('r, 's) handlers \<Rightarrow> konteks \<Rightarrow> pemohon \<Rightarrow> string option \<Rightarrow> model_kanonik \<Rightarrow> chat_request \<Rightarrow> combo_tier list \<Rightarrow>
     (('r, 's) gerbang, (model_kanonik \<times> route_candidate list \<times> target list \<times> konteks) option) aksi" where
  "coba_tier H ctx p ip kini req [] = kembali None"
| "coba_tier H ctx p ip kini req (t # ts) = do {
     (h, ctx') \<leftarrow> siapkan_tier_fallback H ctx p ip kini t req (cr_stream req);
     case h of
       TierSiap tm cs tg \<Rightarrow>
         if semua_kandidat_kekecilan cs (te_input (estimate_tokens req))
         then do { _ \<leftarrow> kembalikan_kuota_model (hd_guard H) ctx' (mo_id tm); coba_tier H ctx p ip kini req ts }
         else kembali (Some (tm, cs, tg, ctx'))
     | _ \<Rightarrow> coba_tier H ctx p ip kini req ts }"

section \<open>No candidate\<close>

definition semua_kandidat_kekecilan_untuk_permintaan :: "route_candidate list \<Rightarrow> token_estimate \<Rightarrow> bool" where
  "semua_kandidat_kekecilan_untuk_permintaan cands est \<longleftrightarrow> cands \<noteq> [] \<and> 0 < wrap64 (te_input est + te_output est) \<and>
     list_all (\<lambda>c. case rc_max_context_window c of None \<Rightarrow> False | Some w \<Rightarrow> w < wrap64 (te_input est + te_output est)) cands"

definition perlu_embeddings :: "request \<Rightarrow> bool" where
  "perlu_embeddings rreq \<longleftrightarrow> ''embeddings'' \<in> set (rq_capabilities rreq)"

definition butuh_tools :: "request \<Rightarrow> bool" where
  "butuh_tools rreq \<longleftrightarrow> ''tools'' \<in> set (rq_capabilities rreq)"

definition tidak_ada_yang_mendukung :: "route_candidate list \<Rightarrow> (route_candidate \<Rightarrow> bool) \<Rightarrow> bool" where
  "tidak_ada_yang_mendukung cands syarat \<longleftrightarrow> \<not> list_ex syarat cands"

definition tolak_tanpa_kandidat :: "request \<Rightarrow> model_kanonik \<Rightarrow> route_candidate list \<Rightarrow> diagnosa_kandidat \<Rightarrow> rejection" where
  "tolak_tanpa_kandidat rreq m cands dg =
     (let nama = kutip_nama (mo_model_id m)
      in if dg_dilarang_key dg
         then tolakan 403 err_permission ''provider_not_allowed''
           (''API key ini tidak diizinkan memakai provider mana pun untuk model '' @ nama)
         else if dg_semua_tak_sehat dg \<and> cands = []
         then tolakan 503 err_api ''provider_unhealthy''
           (''semua provider untuk model '' @ nama @ '' sedang ditandai tidak sehat dan disisihkan sementara; coba lagi sesudah pemeriksaan kesehatan berikutnya'')
         else if dg_semua_nonaktif dg \<and> cands = []
         then tolakan 503 err_api ''provider_disabled''
           (''semua provider untuk model '' @ nama @ '' dinonaktifkan; pemetaan provider ada tetapi tidak ada yang aktif ''
              @ [CHR 0xE2, CHR 0x80, CHR 0x94] @ '' aktifkan kembali salah satu providernya'')
         else if cands = []
         then tolakan 503 err_api ''no_provider_for_model'' (''tidak ada provider yang dikonfigurasi untuk model '' @ nama)
         else if perlu_embeddings rreq
         then tolakan 400 err_invalid_request ''embeddings_not_supported''
           (''tidak ada provider yang bisa melayani embeddings untuk model '' @ nama)
         else if rq_streaming rreq \<and> tidak_ada_yang_mendukung cands rc_supports_streaming
         then tolakan 400 err_invalid_request ''streaming_not_supported''
           (''tidak ada provider untuk model '' @ nama @ '' yang mendukung streaming; kirim ulang dengan \"stream\": false'')
         else if butuh_tools rreq \<and> tidak_ada_yang_mendukung cands rc_supports_tools
         then tolakan 400 err_invalid_request ''tools_not_supported''
           (''tidak ada provider untuk model '' @ nama @ '' yang mendukung pemanggilan tool'')
         else if semua_kandidat_kekecilan_untuk_permintaan cands (rq_tokens rreq)
         then tolakan 400 err_invalid_request ''context_length_exceeded''
           (''permintaan melebihi jendela konteks setiap provider yang melayani model '' @ nama)
         else tolakan 503 err_api ''no_available_provider''
           (''tidak ada kandidat yang tersedia untuk model '' @ nama @ '' saat ini; semua kandidat tersisih oleh aturan rute atau keadaan sementara ''
              @ [CHR 0xE2, CHR 0x80, CHR 0x94] @ '' periksa aturan routing model ini''))"

section \<open>The request\<close>

definition permintaan_rute :: "pemohon \<Rightarrow> model_kanonik \<Rightarrow> chat_request \<Rightarrow> request" where
  "permintaan_rute p m req = \<lparr>rq_model_id = mo_id m, rq_model_name = cr_model req, rq_api_key_id = ky_id (ph_key p),
     rq_owner_user_id = ph_owner p, rq_capabilities = required_capabilities req, rq_streaming = cr_stream req,
     rq_tokens = estimate_tokens req\<rparr>"

definition rutekan :: "('r, 's) handlers \<Rightarrow> request \<Rightarrow> route_candidate list \<Rightarrow> (('r, 's) gerbang, decision) aksi" where
  "rutekan H rreq cands = dengan (\<lambda>n g.
     case route (hd_urai H) default_rule_ttl (hd_sumber H n) (hd_aturan H n) (gu_jam (hd_guard H) n) rreq cands (gb_engine g) of
       (e, d) \<Rightarrow> (d, g\<lparr>gb_engine := e\<rparr>))"

text \<open>The second half of \<^verbatim>\<open>siapkanChatParsed\<close>, from the candidates on: a recipe first, then older tiers, then the model itself.\<close>

definition gabungan_combo ::
    "('r, 's) handlers \<Rightarrow> pemohon \<Rightarrow> rule option \<Rightarrow> request \<Rightarrow> (('r, 's) gerbang, route_candidate list \<times> (string \<times> string) list) aksi" where
  "gabungan_combo H p r rreq =
     (if \<not> combo r then kembali ([], [])
      else kandidat_combo H p (the r) (the (ru_pipeline (the r))) rreq)"

definition pilih_rencana ::
    "('r, 's) handlers \<Rightarrow> konteks \<Rightarrow> pemohon \<Rightarrow> string option \<Rightarrow> chat_request \<Rightarrow> model_kanonik \<Rightarrow> route_candidate list \<Rightarrow>
     diagnosa_kandidat \<Rightarrow> decision \<Rightarrow> (('r, 's) gerbang, konteks \<times> (rejection + persiapan)) aksi" where
  "pilih_rencana H ctx p ip req m cands dg d = do {
     (gabungan, nama) \<leftarrow> gabungan_combo H p (de_rule d) (permintaan_rute p m req);
     if gabungan \<noteq> []
     then kembali (ctx, Inr \<lparr>si_req = req, si_model = m, si_decision = d, si_targets = target_permintaan p m ip,
            si_plan = (plan_from_rule (de_rule d) (mo_model_id m) gabungan)\<lparr>pl_model_names := nama\<rparr>\<rparr>)
     else do {
       x \<leftarrow> (if de_candidates d = [] \<or> semua_kandidat_kekecilan (de_candidates d) (te_input (estimate_tokens req))
             then coba_tier H ctx p ip m req (ekstrak_combo_pipeline H (de_rule d)) else kembali None);
       kembali (case x of
           Some (tm, cs, tg, ctx') \<Rightarrow>
             (ctx', Inr \<lparr>si_req = req\<lparr>cr_model := mo_model_id tm\<rparr>, si_model = tm, si_decision = d, si_targets = tg,
                si_plan = plan_from_rule (de_rule d) (mo_model_id tm) cs\<rparr>)
         | None \<Rightarrow>
             (ctx, if de_candidates d = [] then Inl (tolak_tanpa_kandidat (permintaan_rute p m req) m cands dg)
                   else Inr \<lparr>si_req = req, si_model = m, si_decision = d, si_targets = target_permintaan p m ip,
                          si_plan = plan_from_rule (de_rule d) (mo_model_id m) (de_candidates d)\<rparr>)) } }"

definition siapkan_rute ::
    "('r, 's) handlers \<Rightarrow> konteks \<Rightarrow> pemohon \<Rightarrow> string option \<Rightarrow> chat_request \<Rightarrow> model_kanonik \<Rightarrow>
     (('r, 's) gerbang, konteks \<times> (rejection + persiapan)) aksi" where
  "siapkan_rute H ctx p ip req m = do {
     k \<leftarrow> kandidat H p (permintaan_rute p m req);
     case k of
       None \<Rightarrow> kembali (ctx, Inl galat_internal)
     | Some (cands, dg) \<Rightarrow> do {
         d \<leftarrow> rutekan H (permintaan_rute p m req) cands;
         pilih_rencana H ctx p ip req m cands dg d } }"

definition siapkan_chat_parsed ::
    "('r, 's) handlers \<Rightarrow> konteks \<Rightarrow> pemohon \<Rightarrow> string option \<Rightarrow> chat_request \<Rightarrow> nat \<Rightarrow>
     (('r, 's) gerbang, konteks \<times> (rejection + persiapan)) aksi" where
  "siapkan_chat_parsed H ctx p ip req panjang = do {
     rj \<leftarrow> saring_permintaan (hd_guard H) (subject_kosong\<lparr>su_text := teks_permintaan req, su_bytes := int panjang\<rparr>);
     case rj of Some r \<Rightarrow> kembali (ctx, Inl r) | None \<Rightarrow> do {
     x \<leftarrow> selesaikan_model H (cr_model req);
     case x of Inl r \<Rightarrow> kembali (ctx, Inl r) | Inr m \<Rightarrow> do {
     rj \<leftarrow> izin_model H p m;
     case rj of Some r \<Rightarrow> kembali (ctx, Inl r) | None \<Rightarrow> do {
     estimasi \<leftarrow> estimasi_biaya H m req;
     (ctx', rj) \<leftarrow> kebijakan H ctx p m (target_permintaan p m ip) estimasi;
     case rj of Some r \<Rightarrow> kembali (ctx', Inl r) | None \<Rightarrow> siapkan_rute H ctx' p ip req m } } } }"

text \<open>\<^verbatim>\<open>siapkanChat\<close> on a body already read.\<close>

definition teks_galat :: "galat_codec \<Rightarrow> string" where
  "teks_galat e = (case e of GalatBody s \<Rightarrow> s | GalatField nama s \<Rightarrow> ''field '' @ kutip_nama nama @ CHR 0x20 # s)"

definition siapkan_chat ::
    "('r, 's) handlers \<Rightarrow> konteks \<Rightarrow> pemohon \<Rightarrow> string option \<Rightarrow> string \<Rightarrow> (('r, 's) gerbang, konteks \<times> (rejection + persiapan)) aksi" where
  "siapkan_chat H ctx p ip body =
     (case decode_chat_request body (hd_json H body) of
        Inl e \<Rightarrow> kembali (ctx, Inl (tolakan 400 err_invalid_request ''invalid_request'' (teks_galat e)))
      | Inr req \<Rightarrow> siapkan_chat_parsed H ctx p ip req (length body))"

text \<open>
  \<^verbatim>\<open>ChatCompletions\<close> up to the first upstream call, with \<^verbatim>\<open>jagaKuota\<close>: what is refused here has its
  quota given back.  \<open>terima_chat\<close> is the same behind the middleware \<^verbatim>\<open>Limit\<close> of its route.
\<close>

datatype hasil_gerbang = DitolakLimit hasil_limit | DitolakGerbang rejection | Diteruskan konteks persiapan

definition chat_completions ::
    "('r, 's) handlers \<Rightarrow> konteks \<Rightarrow> pemohon \<Rightarrow> string option \<Rightarrow> string \<Rightarrow> (('r, 's) gerbang, hasil_gerbang) aksi" where
  "chat_completions H ctx p ip body = do {
     ctx \<leftarrow> dengan_memo_batas ctx;
     (ctx', x) \<leftarrow> siapkan_chat H ctx p ip body;
     case x of
       Inr pr \<Rightarrow> kembali (Diteruskan ctx' pr)
     | Inl r \<Rightarrow> do { _ \<leftarrow> kembalikan_kuota (hd_guard H) ctx' p ip; kembali (DitolakGerbang r) } }"

definition terima_chat ::
    "('r, 's) handlers \<Rightarrow> limiter \<Rightarrow> pemohon \<Rightarrow> string option \<Rightarrow> string \<Rightarrow> (('r, 's) gerbang, hasil_gerbang) aksi" where
  "terima_chat H l p ip body = do {
     h \<leftarrow> batas_permintaan (hd_guard H) l p ip;
     case h of
       Lanjutkan t d \<Rightarrow> chat_completions H (konteks_kosong\<lparr>kx_jangkar := Some t\<rparr>) p ip body
     | _ \<Rightarrow> kembali (DitolakLimit h) }"

end
