(* ===== verification/Gate_Runs.thy ===== *)
theory Gate_Runs
  imports Complex_Main Request_Gate Openai_Wire
begin

text \<open>
  What holds of the way of a chat request through the gate (\<open>Request_Gate\<close>): the counters of a refused
  request are what they were, those of a passed one carry exactly its charges; every candidate of a plan
  was answered for this requester and allowed to its key; a refusal names its cause; and a forbidden word in
  the screened text is refused.
\<close>

section \<open>Frames\<close>

text \<open>Only the limits of models and their refunds touch counters and marks.\<close>

lemma tetap_inti_tanya [tetap_rules]: "tetap (salinan_tetap rows) inti (tanya f)"
  unfolding tanya_def by (rule tetap_dengan_inti) simp

lemma tetap_inti_engine [tetap_rules]:
  "tetap (salinan_tetap rows) inti (cari_target_aturan H diminta)" "tetap (salinan_tetap rows) inti (rutekan H rreq cands)"
  unfolding cari_target_aturan_def rutekan_def
  by (rule tetap_dengan_inti; simp add: inti_def salinan_tetap_def split: prod.split)+

lemma tetap_resolve [tetap_rules]:
  "(\<And>m. r = ModelAda m \<Longrightarrow> tetap I f (k m)) \<Longrightarrow> tetap I f x \<Longrightarrow> tetap I f y \<Longrightarrow>
     tetap I f (case r of ModelAda m \<Rightarrow> k m | ModelTiada \<Rightarrow> x | ModelGalat \<Rightarrow> y)"
  by (cases r) auto

lemma tetap_inti_model [tetap_rules]:
  "tetap (salinan_tetap rows) inti (selesaikan_model H diminta)" "tetap (salinan_tetap rows) inti (boleh_model H p m)"
  "tetap (salinan_tetap rows) inti (izin_model H p m)"
  unfolding selesaikan_model_def resolusi_def boleh_model_def izin_model_def by (intro tetap_rules)+

lemma tetap_inti_biaya: "tetap (salinan_tetap rows) inti (biaya_termahal penaksir est maks ids)"
  by (induction ids arbitrary: maks) (auto intro!: tetap_rules)

lemma tetap_inti_estimasi [tetap_rules]: "tetap (salinan_tetap rows) inti (estimasi_biaya H m req)"
  unfolding estimasi_biaya_def by (intro tetap_rules tetap_inti_biaya)

lemma tetap_inti_provider [tetap_rules]: "tetap (salinan_tetap rows) inti (boleh_provider H p pid)"
  unfolding boleh_provider_def by (intro tetap_rules)

lemma tetap_inti_nilai [tetap_rules]: "tetap (salinan_tetap rows) inti (nilai_kandidat H p ingat cands)"
proof (induction cands arbitrary: ingat)
  case (Cons c cs)
  then show ?case unfolding nilai_kandidat.simps by (intro tetap_rules)
qed (simp add: tetap_rules)

lemma tetap_inti_kandidat [tetap_rules]: "tetap (salinan_tetap rows) inti (kandidat H p rreq)"
  unfolding kandidat_def diagnosa_def by (intro tetap_rules)

lemma tetap_inti_saring_combo [tetap_rules]: "tetap (salinan_tetap rows) inti (saring_combo H p pernah cands)"
proof (induction cands arbitrary: pernah)
  case (Cons c cs)
  then show ?case unfolding saring_combo.simps by (intro tetap_rules)
qed (simp add: tetap_rules)

lemma tetap_inti_kumpul [tetap_rules]: "tetap (salinan_tetap rows) inti (kumpul_combo H p pernah namas)"
proof (induction namas arbitrary: pernah)
  case (Cons nama namas)
  then show ?case unfolding kumpul_combo.simps anggota_combo_def by (intro tetap_rules)
qed (simp add: tetap_rules)

lemma tetap_inti_combo [tetap_rules]: "tetap (salinan_tetap rows) inti (gabungan_combo H p r rreq)"
proof -
  have "tetap (salinan_tetap rows) inti (dengan (\<lambda>n g. case order_candidates (hd_sumber H n) (gu_jam (hd_guard H) n) rreq i st cs (gb_engine g) of
       (e, out) \<Rightarrow> ((out, nama), g\<lparr>gb_engine := e\<rparr>)))" for i st cs nama
    by (rule tetap_dengan_inti) (simp add: inti_def salinan_tetap_def split: prod.split)
  then show ?thesis unfolding gabungan_combo_def kandidat_combo_def by (intro tetap_rules)
qed

lemma tetap_inti_tier [tetap_rules]:
  "tetap (salinan_tetap rows) inti (model_tier H p kini nama)"
  "kebijakan_tetap rows (hd_guard H) \<Longrightarrow> tetap (salinan_tetap rows) inti (isi_tier H p ip tier m req stream)"
  unfolding model_tier_def isi_tier_def kandidat_tier_def saring_kandidat_tier2_def by (intro tetap_rules; assumption)+

lemma tetap_inti_memo [tetap_rules]: "tetap (salinan_tetap rows) inti (dengan_memo_batas ctx)"
  unfolding dengan_memo_batas_def by (intro tetap_rules tetap_aksi) (simp add: inti_def salinan_tetap_def)

section \<open>The balance of a request at the gate\<close>

text \<open>Models have identifiers that make separate Redis keys.\<close>

definition model_rapi :: "('r, 's) handlers \<Rightarrow> bool" where
  "model_rapi H \<longleftrightarrow> (\<forall>n nama m. hd_resolve H n nama = ModelAda m \<longrightarrow> rapi (mo_id m))"

lemma selalu_tanya: "(\<And>n. Q (f n)) \<Longrightarrow> selalu (tanya f) Q"
  by (simp add: selalu_def tanya_def dengan_def)

lemma selalu_resolve [selalu_rules]:
  "(\<And>m. r = ModelAda m \<Longrightarrow> selalu (k m) Q) \<Longrightarrow> (r = ModelTiada \<Longrightarrow> selalu x Q) \<Longrightarrow> (r = ModelGalat \<Longrightarrow> selalu y Q) \<Longrightarrow>
     selalu (case r of ModelAda m \<Rightarrow> k m | ModelTiada \<Rightarrow> x | ModelGalat \<Rightarrow> y) Q"
  by (cases r) auto

text \<open>A model the gate works with: known under some name, enabled, and the key's if it is restricted.\<close>

definition model_diakui :: "('r, 's) handlers \<Rightarrow> model_kanonik \<Rightarrow> bool" where
  "model_diakui H m \<longleftrightarrow> (\<exists>n nama. hd_resolve H n nama = ModelAda m) \<and> mo_enabled m"

definition model_boleh :: "('r, 's) handlers \<Rightarrow> pemohon \<Rightarrow> model_kanonik \<Rightarrow> bool" where
  "model_boleh H p m \<longleftrightarrow> model_diakui H m \<and>
     (periksa_key H p \<longrightarrow> (\<exists>n. hd_allows_model H n (ky_id (ph_key p)) (mo_id m) = Some True))"

lemma selalu_resolusi: "selalu (resolusi H diminta) (\<lambda>r. \<forall>m. r = ModelAda m \<longrightarrow> (\<exists>n nama. hd_resolve H n nama = ModelAda m))"
  unfolding resolusi_def
  by (rule selalu_bind [where R = "\<lambda>r. \<exists>n. r = hd_resolve H n diminta"], rule selalu_tanya, blast)
    (intro selalu_rules selalu_abaikan selalu_tanya; auto dest: sym)

lemma selalu_selesaikan_model: "selalu (selesaikan_model H diminta) (\<lambda>x. \<forall>m. x = Inr m \<longrightarrow> model_diakui H m)"
  unfolding selesaikan_model_def
  by (intro selalu_rules selalu_bind [OF selalu_resolusi]) (auto simp: model_diakui_def split: hasil_resolve.splits if_splits)

lemma selalu_boleh_model:
  "model_diakui H m \<Longrightarrow> selalu (boleh_model H p m) (\<lambda>b. b = Some True \<longrightarrow> model_boleh H p m)"
  unfolding boleh_model_def by (auto intro!: selalu_rules selalu_tanya simp: model_boleh_def intro: sym)

lemma selalu_izin_model: "model_diakui H m \<Longrightarrow> selalu (izin_model H p m) (\<lambda>rj. rj = None \<longrightarrow> model_boleh H p m)"
  unfolding izin_model_def
  by (rule selalu_bind [OF selalu_boleh_model], assumption, rule selalu_rules) (auto split: option.splits bool.splits)

lemma selalu_model_tier: "selalu (model_tier H p kini nama) (\<lambda>x. \<forall>m. x = Inr m \<longrightarrow> model_boleh H p m)"
  unfolding model_tier_def
proof (rule selalu_bind [where R = "\<lambda>r. \<forall>m. r = ModelAda m \<longrightarrow> (\<exists>n nama. hd_resolve H n nama = ModelAda m)"], rule selalu_tanya, metis, intro selalu_rules)
  fix r m
  assume r: "\<forall>m. r = ModelAda m \<longrightarrow> (\<exists>n nama. hd_resolve H n nama = ModelAda m)" "r = ModelAda m" "\<not> (\<not> mo_enabled m \<or> mo_id m = mo_id kini)"
  then have "model_diakui H m" by (auto simp: model_diakui_def)
  from selalu_boleh_model [OF this, of p]
  show "selalu (do { b \<leftarrow> boleh_model H p m;
       kembali (case b of None \<Rightarrow> Inl TierTiada | Some False \<Rightarrow> Inl (TierTolak (model_terlarang m)) | Some True \<Rightarrow> Inr m) })
     (\<lambda>x. \<forall>m. x = Inr m \<longrightarrow> model_boleh H p m)"
    by (rule selalu_bind) (auto intro!: selalu_rules split: option.splits bool.splits)
qed simp_all

lemma selalu_conj: "selalu m P \<Longrightarrow> selalu m Q \<Longrightarrow> selalu m (\<lambda>a. P a \<and> Q a)"
  by (simp add: selalu_def)

lemma selalu_model_tier_Inl: "selalu (model_tier H p kini nama) (\<lambda>x. \<forall>h. x = Inl h \<longrightarrow> h = TierTiada \<or> (\<exists>r. h = TierTolak r))"
  unfolding model_tier_def by (intro selalu_rules selalu_abaikan) (auto split: option.splits bool.splits)

lemma model_rapiD: "model_rapi H \<Longrightarrow> model_diakui H m \<Longrightarrow> rapi (mo_id m)" "model_rapi H \<Longrightarrow> model_boleh H p m \<Longrightarrow> rapi (mo_id m)"
  by (auto simp: model_rapi_def model_diakui_def model_boleh_def)

lemma selalu_isi_tier: "selalu (isi_tier H p ip tier m req stream) (\<lambda>h. \<forall>tm cs tg. h = TierSiap tm cs tg \<longrightarrow> tm = m \<and> cs \<noteq> [] \<and> tg = target_permintaan p m ip)"
  unfolding isi_tier_def by (intro selalu_rules selalu_abaikan) auto

text \<open>The context after a step: the anchor stays, and a mark made for model \<open>i\<close> is new.\<close>

definition konteks_lanjut :: "konteks \<Rightarrow> konteks \<Rightarrow> string \<Rightarrow> tanda_kuota list \<Rightarrow> bool" where
  "konteks_lanjut ctx ctx' i ts \<longleftrightarrow> kx_jangkar ctx' = kx_jangkar ctx \<and>
     (ctx' = ctx \<or> kx_tanda ctx = None \<and> (\<exists>a t. kx_tanda ctx' = Some a \<and> a < length ts \<and> ts ! a = tambah i t tanda_baru))"

context redis_counter begin

lemma tetap_neraca:
  "tetap (salinan_tetap rows) inti m \<Longrightarrow> salinan_tetap rows g \<Longrightarrow> neraca rows R dasar ctx (inti g) \<Longrightarrow> run_state m g = (a, g') \<Longrightarrow>
     salinan_tetap rows g' \<and> neraca rows R dasar ctx (inti g') \<and> gb_tanda g' = gb_tanda g"
  by (drule (2) tetapD) (simp add: inti_def)

lemma kebijakan_sah:
  assumes L: "lancar rows R l (hd_guard H)" and i: "rapi (mo_id m)"
    and g: "salinan_tetap rows g" "neraca rows R dasar ctx (inti g)"
    and run: "run_state (kebijakan H ctx p m targets estimasi) g = ((ctx', rj), g')"
  shows "salinan_tetap rows g' \<and> neraca rows R dasar ctx' (inti g') \<and> kx_jangkar ctx' = kx_jangkar ctx"
proof -
  from L have K: "kebijakan_tetap rows (hd_guard H)" by (simp add: lancar_def)
  obtain r0 g1 where m1: "run_state (saring_permintaan (hd_guard H) (subject_kosong\<lparr>su_model_id := mo_id m\<rparr>)) g = (r0, g1)" by (meson surj_pair)
  note M1 = tetap_neraca [OF tetap_inti_saring(1) g m1]
  obtain c2 r2 g2 where m2: "run_state (periksa_batas_model (hd_guard H) ctx (mo_id m)) g1 = ((c2, r2), g2)" by (metis surj_pair)
  note M2 = periksa_batas_model_sah [OF L i conjunct1 [OF M1] conjunct1 [OF conjunct2 [OF M1]] m2]
  obtain r3 g3 where m3: "run_state (periksa_anggaran_dengan_reservasi (hd_guard H) targets estimasi) g2 = (r3, g3)" by (meson surj_pair)
  note M3 = tetap_neraca [OF tetap_inti_saring(6) conjunct1 [OF M2] conjunct1 [OF conjunct2 [OF M2]] m3]
  obtain r4 g4 where m4: "run_state (gerbang_token (hd_guard H) p targets) g3 = (r4, g4)" by (meson surj_pair)
  note M4 = tetap_neraca [OF tetap_inti_gerbang_token [OF K] conjunct1 [OF M3] conjunct1 [OF conjunct2 [OF M3]] m4]
  show ?thesis
    using run m1 m2 m3 m4 M1 M2 M3 M4 by (cases r0; cases r2; cases r3) (auto simp: kebijakan_def)
qed

lemma siapkan_tier_sah:
  assumes L: "lancar rows R l (hd_guard H)" and H: "model_rapi H"
    and g: "salinan_tetap rows g" "neraca rows R dasar ctx (inti g)"
    and run: "run_state (siapkan_tier_fallback H ctx p ip kini tier req stream) g = ((h, ctx'), g')"
  shows "salinan_tetap rows g' \<and>
    (case h of
       TierSiap tm cs tg \<Rightarrow> neraca rows R dasar ctx' (inti g') \<and> konteks_lanjut ctx ctx' (mo_id tm) (gb_tanda g') \<and> cs \<noteq> []
     | _ \<Rightarrow> neraca rows R dasar ctx (inti g'))"
proof -
  from L have K: "kebijakan_tetap rows (hd_guard H)" by (simp add: lancar_def)
  obtain x g1 where m1: "run_state (model_tier H p kini (ct_model tier)) g = (x, g1)" by (meson surj_pair)
  note M1 = tetap_neraca [OF tetap_inti_tier(1) g m1]
  show ?thesis
  proof (cases x)
    case (Inl h0)
    have "h0 = TierTiada \<or> (\<exists>r. h0 = TierTolak r)"
      using selaluD [OF selalu_model_tier_Inl m1] Inl by simp
    moreover have "h = h0 \<and> g' = g1" using run m1 Inl by (simp add: siapkan_tier_fallback_def)
    ultimately show ?thesis using M1 by (auto split: hasil_tier.splits)
  next
    case (Inr m)
    have i: "rapi (mo_id m)" using selaluD [OF selalu_model_tier m1] Inr model_rapiD(2) [OF H] by simp
    obtain r1 g2 where m2: "run_state (saring_permintaan (hd_guard H) (subject_kosong\<lparr>su_model_id := mo_id m\<rparr>)) g1 = (r1, g2)" by (meson surj_pair)
    note M2 = tetap_neraca [OF tetap_inti_saring(1) conjunct1 [OF M1] conjunct1 [OF conjunct2 [OF M1]] m2]
    obtain c3 r3 g3 where m3: "run_state (periksa_batas_model (hd_guard H) ctx (mo_id m)) g2 = ((c3, r3), g3)" by (metis surj_pair)
    note M3 = periksa_batas_model_sah [OF L i conjunct1 [OF M2] conjunct1 [OF conjunct2 [OF M2]] m3]
    obtain h4 g4 where m4: "run_state (isi_tier H p ip tier m req stream) g3 = (h4, g4)" by (meson surj_pair)
    note M4 = tetap_neraca [OF tetap_inti_tier(2) [OF K] conjunct1 [OF M3] conjunct1 [OF conjunct2 [OF M3]] m4]
    have b: "c3 = ctx \<or> kx_tanda ctx = None \<and> (\<exists>a t. kx_tanda c3 = Some a \<and> a < length (gb_tanda g4) \<and> gb_tanda g4 ! a = tambah (mo_id m) t tanda_baru)"
      using M3 M4 by auto
    obtain u g5 where m5: "run_state (kembalikan_kuota_model (hd_guard H) c3 (mo_id m)) g4 = (u, g5)" by (meson surj_pair)
    note M5 = kembalikan_model_sah [OF L conjunct1 [OF M4] conjunct1 [OF conjunct2 [OF M4]] b m5]
    show ?thesis
    proof (cases "r1 = None \<and> r3 = None")
      case False
      with run m1 m2 m3 Inr have "(\<exists>r. h = TierTolak r) \<and> (g' = g2 \<or> r3 \<noteq> None \<and> g' = g3)"
        by (cases r1; cases r3) (auto simp: siapkan_tier_fallback_def)
      with M2 M3 show ?thesis by auto
    next
      case True
      show ?thesis
      proof (cases h4)
        case (TierSiap tm cs tg)
        then have "h = h4 \<and> ctx' = c3 \<and> g' = g4" using run m1 m2 m3 m4 Inr True by (simp add: siapkan_tier_fallback_def)
        moreover have "tm = m \<and> cs \<noteq> []" using selaluD [OF selalu_isi_tier m4] TierSiap by simp
        ultimately show ?thesis using M3 M4 b TierSiap by (auto simp: konteks_lanjut_def)
      qed (use run m1 m2 m3 m4 m5 M5 Inr True in \<open>auto simp: siapkan_tier_fallback_def split: hasil_tier.splits\<close>)
    qed
  qed
qed

lemma coba_tier_sah:
  assumes L: "lancar rows R l (hd_guard H)" and H: "model_rapi H"
    and "salinan_tetap rows g" "neraca rows R dasar ctx (inti g)"
    and "run_state (coba_tier H ctx p ip kini req ts) g = (x, g')"
  shows "salinan_tetap rows g' \<and>
    (case x of None \<Rightarrow> neraca rows R dasar ctx (inti g')
     | Some (tm, cs, tg, ctx') \<Rightarrow> neraca rows R dasar ctx' (inti g') \<and> kx_jangkar ctx' = kx_jangkar ctx)"
  using assms(3-)
proof (induction ts arbitrary: g)
  case (Cons t ts)
  obtain h c1 g1 where m1: "run_state (siapkan_tier_fallback H ctx p ip kini t req (cr_stream req)) g = ((h, c1), g1)" by (metis surj_pair)
  note M1 = siapkan_tier_sah [OF L H Cons.prems(1,2) m1]
  show ?case
  proof (cases h)
    case (TierSiap tm cs tg)
    show ?thesis
    proof (cases "semua_kandidat_kekecilan cs (te_input (estimate_tokens req))")
      case True
      obtain u g2 where m2: "run_state (kembalikan_kuota_model (hd_guard H) c1 (mo_id tm)) g1 = (u, g2)" by (meson surj_pair)
      have "salinan_tetap rows g2 \<and> neraca rows R dasar ctx (inti g2)"
        using M1 TierSiap by (intro kembalikan_model_sah [OF L _ _ _ m2]) (auto simp: konteks_lanjut_def)
      moreover have "run_state (coba_tier H ctx p ip kini req ts) g2 = (x, g')" using Cons.prems(3) m1 m2 TierSiap True by simp
      ultimately show ?thesis using Cons.IH by blast
    next
      case False
      then have "x = Some (tm, cs, tg, c1) \<and> g' = g1" using Cons.prems(3) m1 TierSiap by simp
      with M1 TierSiap show ?thesis by (simp add: konteks_lanjut_def)
    qed
  qed (use Cons m1 M1 in \<open>auto\<close>)
qed simp

lemma pilih_rencana_sah:
  assumes L: "lancar rows R l (hd_guard H)" and H: "model_rapi H"
    and g: "salinan_tetap rows g" "neraca rows R dasar ctx (inti g)"
    and run: "run_state (pilih_rencana H ctx p ip req m cands dg d) g = ((ctx', x), g')"
  shows "salinan_tetap rows g' \<and> neraca rows R dasar ctx' (inti g') \<and> kx_jangkar ctx' = kx_jangkar ctx"
proof -
  obtain gab nama g1 where m1: "run_state (gabungan_combo H p (de_rule d) (permintaan_rute p m req)) g = ((gab, nama), g1)" by (metis surj_pair)
  note M1 = tetap_neraca [OF tetap_inti_combo g m1]
  define tier where "tier = (if de_candidates d = [] \<or> semua_kandidat_kekecilan (de_candidates d) (te_input (estimate_tokens req))
             then coba_tier H ctx p ip m req (ekstrak_combo_pipeline H (de_rule d)) else kembali None)"
  obtain y g2 where m2: "run_state tier g1 = (y, g2)" by (meson surj_pair)
  have M2: "salinan_tetap rows g2 \<and>
    (case y of None \<Rightarrow> neraca rows R dasar ctx (inti g2)
     | Some (tm, cs, tg, ctx') \<Rightarrow> neraca rows R dasar ctx' (inti g2) \<and> kx_jangkar ctx' = kx_jangkar ctx)"
  proof (cases "de_candidates d = [] \<or> semua_kandidat_kekecilan (de_candidates d) (te_input (estimate_tokens req))")
    case True
    with m2 show ?thesis using M1 by (intro coba_tier_sah [OF L H]) (auto simp: tier_def)
  next
    case False
    with m2 have "y = None" "g2 = g1" by (auto simp: tier_def)
    with M1 show ?thesis by simp
  qed
  show ?thesis
  proof (cases "gab = []")
    case True
    then show ?thesis
      using run m1 m2 M2 by (auto simp: pilih_rencana_def tier_def [symmetric] split: option.splits prod.splits)
  next
    case False
    then show ?thesis using run m1 M1 by (auto simp: pilih_rencana_def)
  qed
qed

lemma siapkan_rute_sah:
  assumes L: "lancar rows R l (hd_guard H)" and H: "model_rapi H"
    and g: "salinan_tetap rows g" "neraca rows R dasar ctx (inti g)"
    and run: "run_state (siapkan_rute H ctx p ip req m) g = ((ctx', x), g')"
  shows "salinan_tetap rows g' \<and> neraca rows R dasar ctx' (inti g') \<and> kx_jangkar ctx' = kx_jangkar ctx"
proof -
  obtain k g1 where m1: "run_state (kandidat H p (permintaan_rute p m req)) g = (k, g1)" by (meson surj_pair)
  note M1 = tetap_neraca [OF tetap_inti_kandidat g m1]
  show ?thesis
  proof (cases k)
    case None
    with run m1 M1 show ?thesis by (auto simp: siapkan_rute_def)
  next
    case (Some cd)
    obtain cands dg where cd: "cd = (cands, dg)" by (cases cd)
    obtain d g2 where m2: "run_state (rutekan H (permintaan_rute p m req) cands) g1 = (d, g2)" by (meson surj_pair)
    note M2 = tetap_neraca [OF tetap_inti_engine(2) conjunct1 [OF M1] conjunct1 [OF conjunct2 [OF M1]] m2]
    have "run_state (pilih_rencana H ctx p ip req m cands dg d) g2 = ((ctx', x), g')" using run m1 m2 Some cd by (simp add: siapkan_rute_def)
    from pilih_rencana_sah [OF L H conjunct1 [OF M2] conjunct1 [OF conjunct2 [OF M2]] this] show ?thesis .
  qed
qed

lemma siapkan_chat_sah:
  assumes L: "lancar rows R l (hd_guard H)" and H: "model_rapi H"
    and g: "salinan_tetap rows g" "neraca rows R dasar ctx (inti g)"
    and run: "run_state (siapkan_chat_parsed H ctx p ip req n) g = ((ctx', x), g')"
  shows "salinan_tetap rows g' \<and> neraca rows R dasar ctx' (inti g') \<and> kx_jangkar ctx' = kx_jangkar ctx"
proof -
  let ?s = "subject_kosong\<lparr>su_text := teks_permintaan req, su_bytes := int n\<rparr>"
  obtain r1 g1 where m1: "run_state (saring_permintaan (hd_guard H) ?s) g = (r1, g1)" by (meson surj_pair)
  note M1 = tetap_neraca [OF tetap_inti_saring(1) g m1]
  obtain y g2 where m2: "run_state (selesaikan_model H (cr_model req)) g1 = (y, g2)" by (meson surj_pair)
  note M2 = tetap_neraca [OF tetap_inti_model(1) conjunct1 [OF M1] conjunct1 [OF conjunct2 [OF M1]] m2]
  consider (tolak) r where "r1 = Some r" | (tanpa) r where "r1 = None" "y = Inl r" | (model) m where "r1 = None" "y = Inr m"
    by (cases r1; cases y) auto
  then show ?thesis
  proof cases
    case (model m)
    have i: "rapi (mo_id m)" using selaluD [OF selalu_selesaikan_model m2] model(2) model_rapiD(1) [OF H] by simp
    obtain r3 g3 where m3: "run_state (izin_model H p m) g2 = (r3, g3)" by (meson surj_pair)
    note M3 = tetap_neraca [OF tetap_inti_model(3) conjunct1 [OF M2] conjunct1 [OF conjunct2 [OF M2]] m3]
    obtain e g4 where m4: "run_state (estimasi_biaya H m req) g3 = (e, g4)" by (meson surj_pair)
    note M4 = tetap_neraca [OF tetap_inti_estimasi conjunct1 [OF M3] conjunct1 [OF conjunct2 [OF M3]] m4]
    obtain c5 r5 g5 where m5: "run_state (kebijakan H ctx p m (target_permintaan p m ip) e) g4 = ((c5, r5), g5)" by (metis surj_pair)
    note M5 = kebijakan_sah [OF L i conjunct1 [OF M4] conjunct1 [OF conjunct2 [OF M4]] m5]
    show ?thesis
    proof (cases "r3 = None \<and> r5 = None")
      case True
      then have "run_state (siapkan_rute H c5 p ip req m) g5 = ((ctx', x), g')"
        using run m1 m2 m3 m4 m5 model by (simp add: siapkan_chat_parsed_def)
      from siapkan_rute_sah [OF L H conjunct1 [OF M5] conjunct1 [OF conjunct2 [OF M5]] this] M5 show ?thesis by simp
    qed (use run m1 m2 m3 m4 m5 model M3 M5 in \<open>cases r3; cases r5; auto simp: siapkan_chat_parsed_def\<close>)
  qed (use run m1 m2 M1 M2 in \<open>auto simp: siapkan_chat_parsed_def\<close>)
qed

text \<open>A balance with one context: only its mark owes.\<close>

lemma neraca_satu:
  assumes "neraca rows R dasar ctx (r, ts)"
  shows "baca R r k = dasar k + (case kx_tanda ctx of None \<Rightarrow> 0 | Some a \<Rightarrow> utang rows k (ts ! a))"
proof (cases "kx_tanda ctx")
  case None
  with neraca_lunas(1) [OF assms] show ?thesis by simp
next
  case (Some a)
  with assms have a: "a < length ts" by (auto simp: neraca_def)
  have "\<forall>h\<in>set (ts[a := tanda_baru]). tanda_lunas h"
    using assms Some by (auto simp: neraca_def in_set_conv_nth nth_list_update tanda_baru_sah(2))
  then have "map (utang rows k) (ts[a := tanda_baru]) = map (\<lambda>_. 0) (ts[a := tanda_baru])" by (intro map_cong) (auto simp: utang_lunas)
  then have "sum_list (map (utang rows k) (ts[a := tanda_baru])) = 0" by (metis sum_list_0)
  then have "sum_list (map (utang rows k) ts) = utang rows k (ts ! a)"
    using sum_list_list_update [OF a, of "utang rows k" tanda_baru] by (simp add: tanda_baru_sah(3))
  with assms Some show ?thesis by (simp add: neraca_def)
qed

text \<open>The handler: a refusal gives back what the middleware and the gate counted.\<close>

lemma chat_completions_sah:
  assumes L: "lancar rows R l (hd_guard H)" and H: "model_rapi H" and p: "pemohon_rapi p ip" and t: "kx_jangkar ctx = Some t"
    and g: "salinan_tetap rows g" "neraca rows R dasar ctx (inti g)"
    and asal: "\<forall>k. 0 \<le> asal k" "\<forall>k. dasar k = asal k + tagih (cakupan_permintaan rows p ip) t k"
    and run: "run_state (chat_completions H ctx p ip body) g = (x, g')"
  shows "case x of
      Diteruskan ctx' pr \<Rightarrow> neraca rows R dasar ctx' (inti g') \<and> kx_jangkar ctx' = Some t
    | DitolakGerbang r \<Rightarrow> (\<forall>k. baca R (gb_redis g') k = asal k) \<and> (\<forall>h\<in>set (gb_tanda g'). tanda_lunas h)
    | DitolakLimit h \<Rightarrow> False"
proof -
  obtain c1 g1 where m1: "run_state (dengan_memo_batas ctx) g = (c1, g1)" by (meson surj_pair)
  have c1: "kx_tanda c1 = kx_tanda ctx" "kx_jangkar c1 = kx_jangkar ctx" using m1 by (auto simp: dengan_memo_batas_def split: if_splits)
  have M1: "salinan_tetap rows g1" "neraca rows R dasar c1 (inti g1)"
    using tetap_neraca [OF tetap_inti_memo g m1] c1 by (auto simp: neraca_def)
  obtain c2 y g2 where m2: "run_state (siapkan_chat H c1 p ip body) g1 = ((c2, y), g2)" by (metis surj_pair)
  have M2: "salinan_tetap rows g2 \<and> neraca rows R dasar c2 (inti g2) \<and> kx_jangkar c2 = kx_jangkar c1"
  proof (cases "decode_chat_request body (hd_json H body)")
    case (Inl e)
    with m2 M1 show ?thesis by (auto simp: siapkan_chat_def)
  next
    case (Inr req)
    with m2 have "run_state (siapkan_chat_parsed H c1 p ip req (length body)) g1 = ((c2, y), g2)" by (simp add: siapkan_chat_def)
    from siapkan_chat_sah [OF L H M1 this] show ?thesis .
  qed
  show ?thesis
  proof (cases y)
    case (Inr pr)
    with run m1 m2 have "x = Diteruskan c2 pr" "g' = g2" by (auto simp: chat_completions_def)
    with M2 c1 t show ?thesis by simp
  next
    case (Inl r)
    obtain u g3 where m3: "run_state (kembalikan_kuota (hd_guard H) c2 p ip) g2 = (u, g3)" by (meson surj_pair)
    with run m1 m2 Inl have "x = DitolakGerbang r" "g' = g3" by (auto simp: chat_completions_def)
    moreover have "kx_jangkar c2 = Some t" using M2 c1 t by simp
    from kembalikan_kuota_sah [OF L p this _ _ asal m3] M2 have "(\<forall>k. baca R (gb_redis g3) k = asal k) \<and> (\<forall>h\<in>set (gb_tanda g3). tanda_lunas h)" by blast
    ultimately show ?thesis by simp
  qed
qed

end

text \<open>Nothing is owed before the request.\<close>

definition gerbang_sah :: "rate_limit_row list \<Rightarrow> 'r counters \<Rightarrow> ('r, 's) gerbang \<Rightarrow> bool" where
  "gerbang_sah rows R g \<longleftrightarrow> salinan_tetap rows g \<and> (\<forall>h\<in>set (gb_tanda g). tanda_sah h \<and> tanda_lunas h) \<and> (\<forall>k. 0 \<le> baca R (gb_redis g) k)"

text \<open>C1. No quota is lost at the gate, as long as every Redis script succeeds and the copy of the rate-limit policies
  does not change during the request (\<^const>\<open>lancar\<close>, \<^const>\<open>salinan_tetap\<close>), the ids in the counters' names are clean and nothing
  was owed before: a chat request that is refused before its first upstream call, whether by the
  middleware or by any check behind it, leaves every counter as it was, and nothing stays marked as owed.  One
  that passes has raised every counter by its own windows, once, and by exactly the increments of model
  limits that its marks remember.  Without the first condition it fails: \<^verbatim>\<open>PeriksaBatasModel\<close> plants a mark also when it
  admitted only because the script failed, and the refund then lowers counters it had not raised
  (\<open>Request_Guard.failed_script_refunds\<close>).\<close>

theorem gate_refunds_refusals:
  assumes L: "lancar rows mem_counters l (hd_guard H)" and H: "model_rapi H" and p: "pemohon_rapi p ip"
    and g: "gerbang_sah rows mem_counters g" and run: "run_state (terima_chat H l p ip body) g = (x, g')"
  shows "case x of
      Diteruskan ctx pr \<Rightarrow> \<exists>t. kx_jangkar ctx = Some t \<and> (\<forall>k. baca mem_counters (gb_redis g') k =
        baca mem_counters (gb_redis g) k + tagih (cakupan_permintaan rows p ip) t k +
          (case tanda_di ctx g' of None \<Rightarrow> 0 | Some h \<Rightarrow> utang rows k h))
    | _ \<Rightarrow> (\<forall>k. baca mem_counters (gb_redis g') k = baca mem_counters (gb_redis g) k) \<and> (\<forall>h\<in>set (gb_tanda g'). tanda_lunas h)"
proof -
  have g': "salinan_tetap rows g" "\<forall>h\<in>set (gb_tanda g). tanda_sah h \<and> tanda_lunas h" "\<forall>k. 0 \<le> baca mem_counters (gb_redis g) k"
    using g by (auto simp: gerbang_sah_def)
  obtain h g1 where m1: "run_state (batas_permintaan (hd_guard H) l p ip) g = (h, g1)" by (meson surj_pair)
  note M1 = memk.batas_permintaan_sah [OF L p g'(1) m1]
  show ?thesis
  proof (cases h)
    case (Lanjutkan t d)
    let ?ctx = "konteks_kosong\<lparr>kx_jangkar := Some t\<rparr>"
    define dasar where "dasar k = baca mem_counters (gb_redis g) k + tagih (cakupan_permintaan rows p ip) t k" for k
    have run2: "run_state (chat_completions H ?ctx p ip body) g1 = (x, g')" using run m1 Lanjutkan by (simp add: terima_chat_def)
    have "map (utang rows k) (gb_tanda g1) = map (\<lambda>_. 0) (gb_tanda g1)" for k
      using g'(2) M1 by (intro map_cong) (auto simp: utang_lunas)
    then have z: "sum_list (map (utang rows k) (gb_tanda g1)) = 0" for k by (metis sum_list_0)
    have N: "neraca rows mem_counters dasar ?ctx (inti g1)"
      using M1 Lanjutkan g'(2,3) z tagih_nonneg
      by (auto simp: neraca_def inti_def dasar_def konteks_kosong_def intro!: add_nonneg_nonneg)
    have "kx_jangkar ?ctx = Some t" by simp
    note C = memk.chat_completions_sah [OF L H p this conjunct1 [OF M1] N g'(3) _ run2, unfolded dasar_def, simplified]
    show ?thesis
    proof (cases x)
      case (Diteruskan ctx pr)
      with C have "neraca rows mem_counters dasar ctx (gb_redis g', gb_tanda g')" "kx_jangkar ctx = Some t"
        by (simp_all add: inti_def dasar_def [abs_def])
      with memk.neraca_satu [OF this(1)] Diteruskan show ?thesis
        by (auto simp: dasar_def tanda_di_def split: option.splits)
    qed (use C in auto)
  qed (use run m1 M1 g' in \<open>auto simp: terima_chat_def\<close>)
qed

section \<open>Where candidates come from\<close>

definition provider_boleh :: "('r, 's) handlers \<Rightarrow> pemohon \<Rightarrow> string \<Rightarrow> bool" where
  "provider_boleh H p pid \<longleftrightarrow> (periksa_key H p \<longrightarrow> (\<exists>n. hd_allows_provider H n (ky_id (ph_key p)) pid = Some True))"

definition disisihkan :: "('r, 's) handlers \<Rightarrow> string \<Rightarrow> bool" where
  "disisihkan H pid \<longleftrightarrow> (\<exists>g. fst (run_state (provider_dilarang (hd_guard H) pid) g)) \<or> (\<exists>g. fst (run_state (provider_anggaran_habis (hd_guard H) pid) g))"

text \<open>
  The evidence for a verdict: the key may use the provider, the content filter or the budgets of the provider set it aside, or
  the key was denied it.
\<close>

definition nilai_sah :: "('r, 's) handlers \<Rightarrow> pemohon \<Rightarrow> route_candidate \<times> boleh \<Rightarrow> bool" where
  "nilai_sah H p x \<longleftrightarrow> (snd x = Boleh \<longrightarrow> provider_boleh H p (rc_provider_id (fst x))) \<and>
     (snd x = GugurLain \<longrightarrow> disisihkan H (rc_provider_id (fst x))) \<and>
     (snd x = GugurKey \<longrightarrow> periksa_key H p \<and> (\<exists>n. hd_allows_provider H n (ky_id (ph_key p)) (rc_provider_id (fst x)) = Some False)) \<and>
     snd x \<noteq> GugurGalat"

text \<open>A candidate with its model: both answered to this requester, both allowed to the key.\<close>

definition kandidat_diakui :: "('r, 's) handlers \<Rightarrow> pemohon \<Rightarrow> model_kanonik \<Rightarrow> route_candidate \<Rightarrow> bool" where
  "kandidat_diakui H p m c \<longleftrightarrow> model_boleh H p m \<and> provider_boleh H p (rc_provider_id c) \<and>
     (\<exists>n cs. hd_candidates H n (query (mo_id m) (ph_owner p)) = Some cs \<and> c \<in> set cs)"

lemma selalu_hasil: "selalu m (\<lambda>a. \<exists>g. fst (run_state m g) = a)"
  by (auto simp: selalu_def)

lemma selalu_boleh_provider:
  "selalu (boleh_provider H p (rc_provider_id c)) (\<lambda>b. b \<noteq> GugurGalat \<longrightarrow> nilai_sah H p (c, b))"
  unfolding boleh_provider_def
proof (rule selalu_bind [OF selalu_hasil], rule selalu_if)
  fix b assume "\<exists>g. fst (run_state (provider_dilarang (hd_guard H) (rc_provider_id c)) g) = b" "b"
  then show "selalu (kembali GugurLain) (\<lambda>b. b \<noteq> GugurGalat \<longrightarrow> nilai_sah H p (c, b))"
    by (auto intro: selalu_return simp: nilai_sah_def disisihkan_def)
next
  let ?tanya = "do { b \<leftarrow> tanya (\<lambda>n. hd_allows_provider H n (ky_id (ph_key p)) (rc_provider_id c));
         kembali (case b of None \<Rightarrow> GugurGalat | Some True \<Rightarrow> Boleh | Some False \<Rightarrow> GugurKey) }"
  have k: "selalu ?tanya (\<lambda>b. b \<noteq> GugurGalat \<longrightarrow> nilai_sah H p (c, b))" if "periksa_key H p"
    by (rule selalu_bind [where R = "\<lambda>b. \<exists>n. hd_allows_provider H n (ky_id (ph_key p)) (rc_provider_id c) = b"], rule selalu_tanya, blast)
      (use that in \<open>auto intro!: selalu_rules simp: nilai_sah_def provider_boleh_def split: option.splits bool.splits\<close>)
  show "selalu (do { habis \<leftarrow> provider_anggaran_habis (hd_guard H) (rc_provider_id c);
         if habis then kembali GugurLain else if \<not> periksa_key H p then kembali Boleh else ?tanya })
     (\<lambda>b. b \<noteq> GugurGalat \<longrightarrow> nilai_sah H p (c, b))"
  proof (rule selalu_bind [OF selalu_hasil], rule selalu_if)
    fix b assume "\<exists>g. fst (run_state (provider_anggaran_habis (hd_guard H) (rc_provider_id c)) g) = b" "b"
    then show "selalu (kembali GugurLain) (\<lambda>b. b \<noteq> GugurGalat \<longrightarrow> nilai_sah H p (c, b))"
      by (auto intro: selalu_return simp: nilai_sah_def disisihkan_def)
  next
    show "selalu (if \<not> periksa_key H p then kembali Boleh else ?tanya) (\<lambda>b. b \<noteq> GugurGalat \<longrightarrow> nilai_sah H p (c, b))"
      by (rule selalu_if, rule selalu_return, simp add: nilai_sah_def provider_boleh_def, rule k) simp
  qed
qed

definition ingat_sah :: "('r, 's) handlers \<Rightarrow> pemohon \<Rightarrow> (string \<times> boleh) list \<Rightarrow> bool" where
  "ingat_sah H p ingat \<longleftrightarrow> (\<forall>c b. map_of ingat (rc_provider_id c) = Some b \<longrightarrow> nilai_sah H p (c, b))"

lemma selalu_nilai_kandidat:
  "ingat_sah H p ingat \<Longrightarrow> selalu (nilai_kandidat H p ingat cands)
     (\<lambda>r. \<forall>xs. r = Some xs \<longrightarrow> map fst xs = cands \<and> (\<forall>x\<in>set xs. nilai_sah H p x))"
proof (induction cands arbitrary: ingat)
  case (Cons c cs)
  let ?Q = "\<lambda>cs r. \<forall>xs. r = Some xs \<longrightarrow> map fst xs = cs \<and> (\<forall>x\<in>set xs. nilai_sah H p x)"
  have 1: "selalu (case map_of ingat (rc_provider_id c) of Some b \<Rightarrow> kembali b | None \<Rightarrow> boleh_provider H p (rc_provider_id c))
     (\<lambda>b. b \<noteq> GugurGalat \<longrightarrow> nilai_sah H p (c, b))"
    using Cons.prems by (intro selalu_rules selalu_boleh_provider) (auto simp: ingat_sah_def)
  show ?case unfolding nilai_kandidat.simps
  proof (rule selalu_bind [OF 1], rule selalu_if)
    fix b assume b: "b \<noteq> GugurGalat \<longrightarrow> nilai_sah H p (c, b)" "b \<noteq> GugurGalat"
    then have "ingat_sah H p ((rc_provider_id c, b) # ingat)"
      using Cons.prems by (auto simp: ingat_sah_def nilai_sah_def split: if_splits)
    from Cons.IH [OF this]
    show "selalu (do { r \<leftarrow> nilai_kandidat H p ((rc_provider_id c, b) # ingat) cs; kembali (map_option (\<lambda>xs. (c, b) # xs) r) }) (?Q (c # cs))"
      by (rule selalu_bind) (use b in \<open>auto intro!: selalu_rules\<close>)
  qed (simp add: selalu_rules)
qed (simp add: selalu_rules)

lemma yang_boleh_sah:
  assumes "map fst xs = cands" "\<forall>x\<in>set xs. nilai_sah H p x"
  shows "set (yang_boleh xs) \<subseteq> set cands" and "c \<in> set (yang_boleh xs) \<Longrightarrow> provider_boleh H p (rc_provider_id c)"
  using assms by (force simp: yang_boleh_def nilai_sah_def)+

lemma selalu_saring_tier2:
  "selalu (saring_kandidat_tier2 H p stream cands) (\<lambda>r. \<forall>cs. r = Some cs \<longrightarrow>
     (\<forall>c\<in>set cs. c \<in> set cands \<and> (stream \<longrightarrow> rc_supports_streaming c) \<and> provider_boleh H p (rc_provider_id c)))"
  unfolding saring_kandidat_tier2_def
proof (rule selalu_bind [OF selalu_nilai_kandidat], simp add: ingat_sah_def, rule selalu_return, intro allI impI ballI)
  let ?cands = "filter (\<lambda>c. stream \<longrightarrow> rc_supports_streaming c) cands"
  fix r cs c
  assume r: "\<forall>xs. r = Some xs \<longrightarrow> map fst xs = ?cands \<and> (\<forall>x\<in>set xs. nilai_sah H p x)" "map_option yang_boleh r = Some cs" "c \<in> set cs"
  then obtain xs where xs: "map fst xs = ?cands" "\<forall>x\<in>set xs. nilai_sah H p x" "cs = yang_boleh xs" by auto
  show "c \<in> set cands \<and> (stream \<longrightarrow> rc_supports_streaming c) \<and> provider_boleh H p (rc_provider_id c)"
    using yang_boleh_sah [OF xs(1,2)] r(3) xs(3) by auto
qed

text \<open>
  What \<open>kandidat\<close> works with in a state: the candidates the source answers to the first question, each with the
  verdict on it; \<open>None\<close> when one of these failed.  The diagnosis follows from them and from two further answers.
\<close>

definition penilaian :: "('r, 's) handlers \<Rightarrow> pemohon \<Rightarrow> route_query \<Rightarrow> ('r, 's) gerbang \<Rightarrow> (route_candidate \<times> boleh) list option" where
  "penilaian H p q g = (case hd_candidates H (gb_n g) q of
      None \<Rightarrow> None
    | Some cands \<Rightarrow> fst (run_state (nilai_kandidat H p [] cands) (g\<lparr>gb_n := Suc (gb_n g)\<rparr>)))"

definition jawaban_sakit :: "('r, 's) handlers \<Rightarrow> route_query \<Rightarrow> ('r, 's) gerbang \<Rightarrow> route_candidate list option" where
  "jawaban_sakit H q g = hd_candidates H (Suc (gb_n g)) (q\<lparr>qy_unhealthy := True\<rparr>)"

definition jawaban_mati :: "('r, 's) handlers \<Rightarrow> route_query \<Rightarrow> ('r, 's) gerbang \<Rightarrow> route_candidate list option" where
  "jawaban_mati H q g = hd_candidates H (Suc (Suc (gb_n g))) (q\<lparr>qy_unhealthy := True, qy_disabled := True\<rparr>)"

definition diagnosa_tepat :: "(route_candidate \<times> boleh) list \<Rightarrow> bool \<Rightarrow> bool \<Rightarrow> diagnosa_kandidat" where
  "diagnosa_tepat xs sakit mati = \<lparr>dg_dilarang_key = (xs \<noteq> [] \<and> list_all (\<lambda>x. snd x = GugurKey) xs),
     dg_semua_tak_sehat = (xs = [] \<and> sakit), dg_semua_nonaktif = (xs = [] \<and> \<not> sakit \<and> mati)\<rparr>"

lemma penilaian_sah:
  assumes "penilaian H p q g = Some xs"
  shows "hd_candidates H (gb_n g) q = Some (map fst xs) \<and> (\<forall>x\<in>set xs. nilai_sah H p x)"
proof -
  from assms obtain cands where c: "hd_candidates H (gb_n g) q = Some cands"
    "fst (run_state (nilai_kandidat H p [] cands) (g\<lparr>gb_n := Suc (gb_n g)\<rparr>)) = Some xs"
    by (auto simp: penilaian_def split: option.splits)
  have "ingat_sah H p []" by (simp add: ingat_sah_def)
  from selaluD [OF selalu_nilai_kandidat [OF this] prod.collapse [symmetric]] c show ?thesis by metis
qed

lemma semua_key:
  assumes "\<forall>x\<in>set xs. nilai_sah H p x"
  shows "(xs \<noteq> [] \<and> yang_boleh xs = [] \<and> list_ex (\<lambda>x. snd x = GugurKey) xs \<and> \<not> list_ex (\<lambda>x. snd x = GugurLain) xs) \<longleftrightarrow>
    (xs \<noteq> [] \<and> list_all (\<lambda>x. snd x = GugurKey) xs)"
proof -
  have "snd x \<noteq> GugurGalat" if "x \<in> set xs" for x using assms that by (auto simp: nilai_sah_def)
  then have "(\<forall>x\<in>set xs. snd x \<noteq> Boleh \<and> snd x \<noteq> GugurLain) \<longleftrightarrow> (\<forall>x\<in>set xs. snd x = GugurKey)" by (metis boleh.exhaust boleh.distinct)
  then show ?thesis by (cases xs) (auto simp: yang_boleh_def filter_empty_conv list_ex_iff list_all_iff)
qed

lemma kandidat_tepat:
  fixes H :: "('r, 's) handlers" and rreq :: request
  defines "q \<equiv> query (rq_model_id rreq) (rq_owner_user_id rreq)"
  assumes "run_state (kandidat H p rreq) g = (r, g')"
  shows "r = map_option (\<lambda>xs. (yang_boleh xs, diagnosa_tepat xs (ada_isinya (jawaban_sakit H q g)) (ada_isinya (jawaban_mati H q g)))) (penilaian H p q g)"
proof (cases "hd_candidates H (gb_n g) q")
  case None
  with assms(2) show ?thesis by (simp add: kandidat_def penilaian_def tanya_def dengan_def q_def)
next
  case (Some cands)
  show ?thesis
  proof (cases cands)
    case Nil
    with Some assms(2) show ?thesis
      by (auto simp: kandidat_def diagnosa_def penilaian_def tanya_def dengan_def diagnosa_tepat_def jawaban_sakit_def jawaban_mati_def
          yang_boleh_def simp flip: q_def split: if_splits)
  next
    case (Cons c cs)
    obtain nilai g2 where n: "run_state (nilai_kandidat H p [] (c # cs)) (g\<lparr>gb_n := Suc (gb_n g)\<rparr>) = (nilai, g2)" by (meson surj_pair)
    have P: "penilaian H p q g = nilai" using Some Cons n by (simp add: penilaian_def)
    have r: "r = map_option (\<lambda>xs. (yang_boleh xs,
            \<lparr>dg_dilarang_key = (c # cs \<noteq> [] \<and> yang_boleh xs = [] \<and>
                list_ex (\<lambda>x. snd x = GugurKey) xs \<and> \<not> list_ex (\<lambda>x. snd x = GugurLain) xs),
             dg_semua_tak_sehat = False, dg_semua_nonaktif = False\<rparr>)) nilai"
      using Some Cons assms(2) n by (simp add: kandidat_def tanya_def dengan_def del: nilai_kandidat.simps flip: q_def)
    show ?thesis
    proof (cases nilai)
      case None
      with P r show ?thesis by simp
    next
      case (Some xs)
      with penilaian_sah [of H p q g xs] P have xs: "Some (c # cs) = Some (map fst xs)" "\<forall>x\<in>set xs. nilai_sah H p x"
        using \<open>hd_candidates H (gb_n g) q = Some cands\<close> Cons by auto
      then have "xs \<noteq> []" by auto
      with semua_key [OF xs(2)] Some P r show ?thesis by (simp add: diagnosa_tepat_def)
    qed
  qed
qed

definition kandidat_sah :: "('r, 's) handlers \<Rightarrow> pemohon \<Rightarrow> route_query \<Rightarrow> route_candidate list \<Rightarrow> bool" where
  "kandidat_sah H p q out \<longleftrightarrow> (\<exists>n xs. hd_candidates H n q = Some (map fst xs) \<and> out = yang_boleh xs \<and> (\<forall>x\<in>set xs. nilai_sah H p x))"

lemma selalu_kandidat:
  "selalu (kandidat H p rreq) (\<lambda>r. \<forall>out dg. r = Some (out, dg) \<longrightarrow> kandidat_sah H p (query (rq_model_id rreq) (rq_owner_user_id rreq)) out)"
  unfolding selalu_def
proof (intro allI impI)
  fix g out dg assume "fst (run_state (kandidat H p rreq) g) = Some (out, dg)"
  then obtain g' where "run_state (kandidat H p rreq) g = (Some (out, dg), g')" by (metis prod.collapse)
  from kandidat_tepat [OF this] obtain xs where "penilaian H p (query (rq_model_id rreq) (rq_owner_user_id rreq)) g = Some xs" "out = yang_boleh xs"
    by (cases "penilaian H p (query (rq_model_id rreq) (rq_owner_user_id rreq)) g") simp_all
  with penilaian_sah show "kandidat_sah H p (query (rq_model_id rreq) (rq_owner_user_id rreq)) out" unfolding kandidat_sah_def by blast
qed

lemma kandidat_sah_diakui:
  "kandidat_sah H p (query (mo_id m) (ph_owner p)) out \<Longrightarrow> model_boleh H p m \<Longrightarrow> c \<in> set out \<Longrightarrow> kandidat_diakui H p m c"
  unfolding kandidat_sah_def
proof (elim exE conjE)
  fix n xs
  assume m: "model_boleh H p m" and c: "c \<in> set out" and x: "hd_candidates H n (query (mo_id m) (ph_owner p)) = Some (map fst xs)"
    "out = yang_boleh xs" "\<forall>x\<in>set xs. nilai_sah H p x"
  from yang_boleh_sah [OF refl x(3)] c x(2) have "c \<in> set (map fst xs)" "provider_boleh H p (rc_provider_id c)" by blast+
  with m x(1) show "kandidat_diakui H p m c" unfolding kandidat_diakui_def by blast
qed

lemma selalu_saring_combo:
  "selalu (saring_combo H p pernah cands) (\<lambda>(per, out). \<forall>c\<in>set out. c \<in> set cands \<and> provider_boleh H p (rc_provider_id c))"
proof (induction cands arbitrary: pernah)
  case (Cons c cs)
  note IH = selalu_post [OF Cons.IH]
  show ?case unfolding saring_combo.simps
  proof (rule selalu_if, rule IH, force, rule selalu_bind [OF selalu_boleh_provider], rule selalu_if, rule IH, force)
    fix b assume b: "b \<noteq> GugurGalat \<longrightarrow> nilai_sah H p (c, b)" "\<not> b \<noteq> Boleh"
    show "selalu (do { (pernah', out) \<leftarrow> saring_combo H p (rc_provider_model_id c # pernah) cs; kembali (pernah', c # out) })
       (\<lambda>(per, out). \<forall>c'\<in>set out. c' \<in> set (c # cs) \<and> provider_boleh H p (rc_provider_id c'))"
      by (rule selalu_bind [OF Cons.IH], rule selalu_prod, rule selalu_return) (use b in \<open>auto simp: nilai_sah_def\<close>)
  qed
qed (simp add: selalu_rules)

lemma selalu_anggota_combo:
  "selalu (anggota_combo H p pernah nama) (\<lambda>(per, x). \<forall>m cs. x = Some (m, cs) \<longrightarrow> (\<forall>c\<in>set cs. kandidat_diakui H p m c))"
  unfolding anggota_combo_def
proof (rule selalu_bind [where R = "\<lambda>r. \<exists>n. r = hd_resolve H n nama"], rule selalu_tanya, blast, rule selalu_resolve)
  fix r m assume r: "\<exists>n. r = hd_resolve H n nama" "r = ModelAda m"
  let ?Q = "\<lambda>(per, x). \<forall>m cs. x = Some (m, cs) \<longrightarrow> (\<forall>c\<in>set cs. kandidat_diakui H p m c)"
  let ?tanya = "tanya (\<lambda>n. hd_candidates H n (query (mo_id m) (ph_owner p)))"
  have inner: "selalu (do { r \<leftarrow> ?tanya; case r of None \<Rightarrow> kembali (pernah, None)
      | Some cands \<Rightarrow> do { (pernah', out) \<leftarrow> saring_combo H p pernah cands; kembali (pernah', Some (m, out)) } }) ?Q" if m: "model_boleh H p m"
  proof (rule selalu_bind [where R = "\<lambda>r. \<exists>n. r = hd_candidates H n (query (mo_id m) (ph_owner p))"], rule selalu_tanya, blast,
      rule selalu_option, simp add: selalu_return, rule selalu_bind [OF selalu_saring_combo], rule selalu_prod, rule selalu_return)
    fix r cands x pernah' out
    assume "\<exists>n. r = hd_candidates H n (query (mo_id m) (ph_owner p))" "r = Some cands"
      "case x of (per, out) \<Rightarrow> \<forall>c\<in>set out. c \<in> set cands \<and> provider_boleh H p (rc_provider_id c)" "x = (pernah', out)"
    with m show "?Q (pernah', Some (m, out))" by (auto simp: kandidat_diakui_def dest: sym)
  qed
  show "selalu (if \<not> mo_enabled m then kembali (pernah, None)
      else do { b \<leftarrow> boleh_model H p m; if b \<noteq> Some True then kembali (pernah, None)
        else do { r \<leftarrow> ?tanya; case r of None \<Rightarrow> kembali (pernah, None)
      | Some cands \<Rightarrow> do { (pernah', out) \<leftarrow> saring_combo H p pernah cands; kembali (pernah', Some (m, out)) } } }) ?Q"
  proof (rule selalu_if, simp add: selalu_return)
    assume "\<not> \<not> mo_enabled m"
    with r have "model_diakui H m" by (auto simp: model_diakui_def dest: sym)
    from selalu_boleh_model [OF this, of p]
    show "selalu (do { b \<leftarrow> boleh_model H p m; if b \<noteq> Some True then kembali (pernah, None)
        else do { r \<leftarrow> ?tanya; case r of None \<Rightarrow> kembali (pernah, None)
      | Some cands \<Rightarrow> do { (pernah', out) \<leftarrow> saring_combo H p pernah cands; kembali (pernah', Some (m, out)) } } }) ?Q"
      by (rule selalu_bind, intro selalu_if) (use inner in \<open>simp_all add: selalu_return\<close>)
  qed
qed (simp_all add: selalu_return)

lemma selalu_kumpul_combo:
  "selalu (kumpul_combo H p pernah namas) (\<lambda>xs. \<forall>(m, cs)\<in>set xs. \<forall>c\<in>set cs. kandidat_diakui H p m c)"
proof (induction namas arbitrary: pernah)
  case (Cons nama namas)
  show ?case unfolding kumpul_combo.simps
    by (rule selalu_bind [OF selalu_anggota_combo], rule selalu_prod, rule selalu_bind [OF Cons.IH], rule selalu_return)
      (auto split: option.splits)
qed (simp add: selalu_return)

lemma selalu_dengan: "(\<And>n g. Q (fst (f n g))) \<Longrightarrow> selalu (dengan f) Q"
  by (simp add: selalu_def dengan_def)

lemma saring_kandidat_sah: "c \<in> set (saring_kandidat rreq r cands) \<Longrightarrow>
    c \<in> set cands \<and> (rq_streaming rreq \<longrightarrow> rc_supports_streaming c) \<and> (''tools'' \<in> set (rq_capabilities rreq) \<longrightarrow> rc_supports_tools c)"
  by (auto simp: saring_kandidat_def Let_def split: if_splits)

lemma selalu_kandidat_combo:
  "selalu (kandidat_combo H p r pipa rreq) (\<lambda>(out, nama). \<forall>c\<in>set out. (\<exists>m. kandidat_diakui H p m c) \<and> (rq_streaming rreq \<longrightarrow> rc_supports_streaming c))"
  unfolding kandidat_combo_def
proof (rule selalu_bind [OF selalu_kumpul_combo], rule selalu_dengan)
  fix xs n and g :: "('a, 'b) gerbang"
  assume xs: "\<forall>(m, cs)\<in>set xs. \<forall>c\<in>set cs. kandidat_diakui H p m c"
  obtain e out where o: "order_candidates (hd_sumber H n) (gu_jam (hd_guard H) n) rreq (ru_id r) (cp_strategy pipa) (concat (map snd xs)) (gb_engine g) = (e, out)"
    by (meson surj_pair)
  have "mset out = mset (saring_kandidat rreq (Some (rule_tiruan (ru_id r) (cp_strategy pipa))) (concat (map snd xs)))"
    using o mset_order [of "hd_sumber H n" "gu_jam (hd_guard H) n" rreq "Some (rule_tiruan (ru_id r) (cp_strategy pipa))" "concat (map snd xs)" "en_sel (gb_engine g)"]
    by (auto simp: order_candidates_def split: prod.splits)
  then have set_out: "set out = set (saring_kandidat rreq (Some (rule_tiruan (ru_id r) (cp_strategy pipa))) (concat (map snd xs)))"
    by (metis set_mset_mset)
  have "(\<exists>m. kandidat_diakui H p m c) \<and> (rq_streaming rreq \<longrightarrow> rc_supports_streaming c)" if "c \<in> set out" for c
    using saring_kandidat_sah [OF that [unfolded set_out]] xs by fastforce
  then show "case fst (case order_candidates (hd_sumber H n) (gu_jam (hd_guard H) n) rreq (ru_id r) (cp_strategy pipa) (concat (map snd xs)) (gb_engine g) of
       (e, out) \<Rightarrow> ((out, nama_per_id xs), g\<lparr>gb_engine := e\<rparr>)) of
     (out, nama) \<Rightarrow> \<forall>c\<in>set out. (\<exists>m. kandidat_diakui H p m c) \<and> (rq_streaming rreq \<longrightarrow> rc_supports_streaming c)"
    by (simp add: o)
qed

lemma selalu_gabungan_combo:
  "selalu (gabungan_combo H p r rreq) (\<lambda>(out, nama). \<forall>c\<in>set out. (\<exists>m. kandidat_diakui H p m c) \<and> (rq_streaming rreq \<longrightarrow> rc_supports_streaming c))"
  unfolding gabungan_combo_def by (intro selalu_if selalu_return selalu_kandidat_combo) simp

lemma selalu_kandidat_tier:
  assumes m: "model_boleh H p m"
  shows "selalu (kandidat_tier H p tier m req stream) (\<lambda>cs. \<forall>c\<in>set cs. kandidat_diakui H p m c \<and> (stream \<longrightarrow> rc_supports_streaming c))"
  unfolding kandidat_tier_def
proof (rule selalu_bind [where R = "\<lambda>r. \<exists>n. r = hd_candidates H n (query (mo_id m) (ph_owner p))"], rule selalu_tanya, blast,
    rule selalu_option, simp add: selalu_return, rule selalu_bind [OF selalu_saring_tier2], rule selalu_return)
  fix r cands x
  assume "\<exists>n. r = hd_candidates H n (query (mo_id m) (ph_owner p))" "r = Some cands"
  then obtain n where n: "hd_candidates H n (query (mo_id m) (ph_owner p)) = Some cands" by auto
  let ?pilihan = "if ct_providers tier = [] then cands else filter (\<lambda>c. rc_provider_id c \<in> set (ct_providers tier)) cands"
  assume x: "\<forall>cs. x = Some cs \<longrightarrow> (\<forall>c\<in>set cs. c \<in> set ?pilihan \<and> (stream \<longrightarrow> rc_supports_streaming c) \<and> provider_boleh H p (rc_provider_id c))"
  have "kandidat_diakui H p m c \<and> (stream \<longrightarrow> rc_supports_streaming c)" if "x = Some cs" "c \<in> set cs" for cs c
  proof -
    have "c \<in> set ?pilihan" "stream \<longrightarrow> rc_supports_streaming c" "provider_boleh H p (rc_provider_id c)" using x that by auto
    moreover have "c \<in> set cands" using calculation(1) by (auto split: if_splits)
    ultimately show ?thesis using m n unfolding kandidat_diakui_def by blast
  qed
  then show "\<forall>c\<in>set (case x of None \<Rightarrow> [] | Some cs \<Rightarrow> if mengandung_dokumen_pdf req then kandidat_anthropic_saja cs else cs).
      kandidat_diakui H p m c \<and> (stream \<longrightarrow> rc_supports_streaming c)"
    by (auto simp: kandidat_anthropic_saja_def split: option.splits if_splits)
qed

definition tier_sah :: "('r, 's) handlers \<Rightarrow> pemohon \<Rightarrow> bool \<Rightarrow> model_kanonik \<Rightarrow> route_candidate list \<Rightarrow> bool" where
  "tier_sah H p stream m cs \<longleftrightarrow> model_boleh H p m \<and> cs \<noteq> [] \<and> (\<forall>c\<in>set cs. kandidat_diakui H p m c \<and> (stream \<longrightarrow> rc_supports_streaming c))"

lemma selalu_isi_tier_sah:
  assumes m: "model_boleh H p m"
  shows "selalu (isi_tier H p ip tier m req stream) (\<lambda>h. \<forall>tm cs tg. h = TierSiap tm cs tg \<longrightarrow> tm = m \<and> tier_sah H p stream m cs)"
  unfolding isi_tier_def
  by (rule selalu_abaikan, rule selalu_option, rule selalu_abaikan, rule selalu_option, rule selalu_bind [OF selalu_kandidat_tier [OF m]])
    (use m in \<open>auto intro!: selalu_return simp: tier_sah_def split: if_splits\<close>)

lemma selalu_siapkan_tier:
  "selalu (siapkan_tier_fallback H ctx p ip kini tier req stream) (\<lambda>(h, ctx'). \<forall>tm cs tg. h = TierSiap tm cs tg \<longrightarrow> tier_sah H p stream tm cs)"
  unfolding siapkan_tier_fallback_def
proof (rule selalu_bind [OF selalu_conj [OF selalu_model_tier selalu_model_tier_Inl]], rule selalu_sum)
  fix x m assume x: "(\<forall>m. x = Inr m \<longrightarrow> model_boleh H p m) \<and> (\<forall>h. x = Inl h \<longrightarrow> h = TierTiada \<or> (\<exists>r. h = TierTolak r))" "x = Inr m"
  let ?Q = "\<lambda>(h, ctx'). \<forall>tm cs tg. h = TierSiap tm cs tg \<longrightarrow> tier_sah H p stream tm cs"
  have akhir: "selalu (do { h \<leftarrow> isi_tier H p ip tier m req stream;
     case h of TierSiap tm cs tg \<Rightarrow> kembali (h, ctx')
     | _ \<Rightarrow> do { _ \<leftarrow> kembalikan_kuota_model (hd_guard H) ctx' (mo_id m); kembali (h, ctx') } }) ?Q" for ctx'
  proof (rule selalu_bind [OF selalu_isi_tier_sah])
    show "model_boleh H p m" using x by simp
    fix h assume "\<forall>tm cs tg. h = TierSiap tm cs tg \<longrightarrow> tm = m \<and> tier_sah H p stream m cs"
    then show "selalu (case h of TierSiap tm cs tg \<Rightarrow> kembali (h, ctx')
     | _ \<Rightarrow> do { _ \<leftarrow> kembalikan_kuota_model (hd_guard H) ctx' (mo_id m); kembali (h, ctx') }) ?Q"
      by (cases h) (auto intro!: selalu_return selalu_abaikan)
  qed
  show "selalu (do {
     rj \<leftarrow> saring_permintaan (hd_guard H) (subject_kosong\<lparr>su_model_id := mo_id m\<rparr>);
     case rj of Some r \<Rightarrow> kembali (TierTolak r, ctx) | None \<Rightarrow> do {
     (ctx', rj) \<leftarrow> periksa_batas_model (hd_guard H) ctx (mo_id m);
     case rj of Some r \<Rightarrow> kembali (TierTolak r, ctx) | None \<Rightarrow> do {
     h \<leftarrow> isi_tier H p ip tier m req stream;
     case h of
       TierSiap tm cs tg \<Rightarrow> kembali (h, ctx')
     | _ \<Rightarrow> do { _ \<leftarrow> kembalikan_kuota_model (hd_guard H) ctx' (mo_id m); kembali (h, ctx') } } } }) ?Q"
    by (rule selalu_abaikan, rule selalu_option, rule selalu_abaikan, rule selalu_prod, rule selalu_option, rule akhir)
      (simp_all add: selalu_return)
qed (auto intro!: selalu_return)

lemma selalu_coba_tier:
  "selalu (coba_tier H ctx p ip kini req ts) (\<lambda>x. \<forall>tm cs tg ctx'. x = Some (tm, cs, tg, ctx') \<longrightarrow> tier_sah H p (cr_stream req) tm cs)"
proof (induction ts)
  case (Cons t ts)
  show ?case unfolding coba_tier.simps
  proof (rule selalu_bind [OF selalu_siapkan_tier], rule selalu_prod)
    fix x h and c1 :: konteks
    assume "case x of (h, ctx') \<Rightarrow> \<forall>tm cs tg. h = TierSiap tm cs tg \<longrightarrow> tier_sah H p (cr_stream req) tm cs" "x = (h, c1)"
    then show "selalu (case h of
       TierSiap tm cs tg \<Rightarrow>
         if semua_kandidat_kekecilan cs (te_input (estimate_tokens req))
         then do { _ \<leftarrow> kembalikan_kuota_model (hd_guard H) c1 (mo_id tm); coba_tier H ctx p ip kini req ts }
         else kembali (Some (tm, cs, tg, c1))
     | _ \<Rightarrow> coba_tier H ctx p ip kini req ts) (\<lambda>x. \<forall>tm cs tg ctx'. x = Some (tm, cs, tg, ctx') \<longrightarrow> tier_sah H p (cr_stream req) tm cs)"
      using Cons.IH by (cases h) (auto intro!: selalu_return selalu_abaikan)
  qed
qed (simp add: selalu_return)

section \<open>Plans and refusals\<close>

definition rencana_sah :: "('r, 's) handlers \<Rightarrow> pemohon \<Rightarrow> chat_request \<Rightarrow> persiapan \<Rightarrow> bool" where
  "rencana_sah H p req pr \<longleftrightarrow> model_boleh H p (si_model pr) \<and> pl_candidates (si_plan pr) \<noteq> [] \<and>
     (\<forall>c\<in>set (pl_candidates (si_plan pr)). (\<exists>m. kandidat_diakui H p m c) \<and> (cr_stream req \<longrightarrow> rc_supports_streaming c))"

lemma pl_candidates_plan [simp]: "pl_candidates (plan_from_rule r m cs) = cs"
  by (simp add: plan_from_rule_def Let_def split: option.split)

lemma selalu_rutekan:
  "selalu (rutekan H rreq cands) (\<lambda>d. set (de_candidates d) = set (saring_kandidat rreq (de_rule d) cands))"
  unfolding rutekan_def
proof (rule selalu_dengan)
  fix n and g :: "('a, 'b) gerbang"
  let ?r = "route (hd_urai H) default_rule_ttl (hd_sumber H n) (hd_aturan H n) (gu_jam (hd_guard H) n) rreq cands (gb_engine g)"
  have "mset (de_candidates (snd ?r)) = mset (saring_kandidat rreq (de_rule (snd ?r)) cands)" by (simp add: snd_route Let_def mset_order)
  then show "set (de_candidates (fst (case ?r of (e, d) \<Rightarrow> (d, g\<lparr>gb_engine := e\<rparr>)))) =
      set (saring_kandidat rreq (de_rule (fst (case ?r of (e, d) \<Rightarrow> (d, g\<lparr>gb_engine := e\<rparr>)))) cands)"
    by (cases ?r) (simp, metis set_mset_mset)
qed

text \<open>What the second half of the gate returns, refusals included.\<close>

definition hasil_pilih_sah ::
    "('r, 's) handlers \<Rightarrow> pemohon \<Rightarrow> chat_request \<Rightarrow> model_kanonik \<Rightarrow> route_candidate list \<Rightarrow> diagnosa_kandidat \<Rightarrow> rejection + persiapan \<Rightarrow> bool" where
  "hasil_pilih_sah H p req m out dg x \<longleftrightarrow>
     (case x of
        Inr pr \<Rightarrow> rencana_sah H p req pr
      | Inl r \<Rightarrow> r = tolak_tanpa_kandidat (permintaan_rute p m req) m out dg \<and> (\<exists>rule. saring_kandidat (permintaan_rute p m req) rule out = []))"

lemma selalu_pilih_rencana:
  assumes m: "model_boleh H p m" and k: "kandidat_sah H p (query (mo_id m) (ph_owner p)) out"
    and d: "set (de_candidates d) = set (saring_kandidat (permintaan_rute p m req) (de_rule d) out)"
  shows "selalu (pilih_rencana H ctx p ip req m out dg d) (\<lambda>(ctx', x). hasil_pilih_sah H p req m out dg x)"
  unfolding pilih_rencana_def
proof (rule selalu_bind [OF selalu_gabungan_combo], rule selalu_prod, rule selalu_if)
  fix x gab and nama :: "(string \<times> string) list"
  assume "case x of (out, nama) \<Rightarrow> \<forall>c\<in>set out. (\<exists>m. kandidat_diakui H p m c) \<and> (rq_streaming (permintaan_rute p m req) \<longrightarrow> rc_supports_streaming c)"
    "x = (gab, nama)" "gab \<noteq> []"
  with m show "selalu (kembali (ctx, Inr \<lparr>si_req = req, si_model = m, si_decision = d, si_targets = target_permintaan p m ip,
            si_plan = (plan_from_rule (de_rule d) (mo_model_id m) gab)\<lparr>pl_model_names := nama\<rparr>\<rparr>)) (\<lambda>(ctx', x). hasil_pilih_sah H p req m out dg x)"
    by (auto intro!: selalu_return simp: hasil_pilih_sah_def rencana_sah_def permintaan_rute_def)
next
  let ?tier = "if de_candidates d = [] \<or> semua_kandidat_kekecilan (de_candidates d) (te_input (estimate_tokens req))
             then coba_tier H ctx p ip m req (ekstrak_combo_pipeline H (de_rule d)) else kembali None"
  let ?T = "\<lambda>x :: (model_kanonik \<times> route_candidate list \<times> target list \<times> konteks) option. \<forall>tm cs tg ctx'. x = Some (tm, cs, tg, ctx') \<longrightarrow> tier_sah H p (cr_stream req) tm cs"
  have T: "selalu ?tier ?T" by (intro selalu_if selalu_coba_tier selalu_return) simp
  have sah: "kandidat_diakui H p m c \<and> (cr_stream req \<longrightarrow> rc_supports_streaming c)" if "c \<in> set (de_candidates d)" for c
    using saring_kandidat_sah [OF that [unfolded d]] kandidat_sah_diakui [OF k m, of c] by (simp add: permintaan_rute_def)
  show "selalu (do {
       x \<leftarrow> ?tier;
       kembali (case x of
           Some (tm, cs, tg, ctx') \<Rightarrow>
             (ctx', Inr \<lparr>si_req = req\<lparr>cr_model := mo_model_id tm\<rparr>, si_model = tm, si_decision = d, si_targets = tg,
                si_plan = plan_from_rule (de_rule d) (mo_model_id tm) cs\<rparr>)
         | None \<Rightarrow>
             (ctx, if de_candidates d = [] then Inl (tolak_tanpa_kandidat (permintaan_rute p m req) m out dg)
                   else Inr \<lparr>si_req = req, si_model = m, si_decision = d, si_targets = target_permintaan p m ip,
                          si_plan = plan_from_rule (de_rule d) (mo_model_id m) (de_candidates d)\<rparr>)) })
      (\<lambda>(ctx', x). hasil_pilih_sah H p req m out dg x)"
  proof (rule selalu_bind [OF T], rule selalu_return)
    fix x :: "(model_kanonik \<times> route_candidate list \<times> target list \<times> konteks) option" assume x: "?T x"
    show "case (case x of
           Some (tm, cs, tg, ctx') \<Rightarrow>
             (ctx', Inr \<lparr>si_req = req\<lparr>cr_model := mo_model_id tm\<rparr>, si_model = tm, si_decision = d, si_targets = tg,
                si_plan = plan_from_rule (de_rule d) (mo_model_id tm) cs\<rparr>)
         | None \<Rightarrow>
             (ctx, if de_candidates d = [] then Inl (tolak_tanpa_kandidat (permintaan_rute p m req) m out dg)
                   else Inr \<lparr>si_req = req, si_model = m, si_decision = d, si_targets = target_permintaan p m ip,
                          si_plan = plan_from_rule (de_rule d) (mo_model_id m) (de_candidates d)\<rparr>)) of
        (ctx', x) \<Rightarrow> hasil_pilih_sah H p req m out dg x"
    proof (cases x)
      case None
      have "saring_kandidat (permintaan_rute p m req) (de_rule d) out = []" if "de_candidates d = []" using d that by simp
      with None k m sah show ?thesis by (auto simp: hasil_pilih_sah_def rencana_sah_def)
    next
      case (Some y)
      then obtain tm cs tg c2 where "x = Some (tm, cs, tg, c2)" by (cases y) auto
      with x show ?thesis by (auto simp: hasil_pilih_sah_def rencana_sah_def tier_sah_def)
    qed
  qed
qed

lemma siapkan_rute_hasil:
  assumes m: "model_boleh H p m" and r: "run_state (siapkan_rute H ctx p ip req m) g = ((ctx', x), g')"
  shows "case fst (run_state (kandidat H p (permintaan_rute p m req)) g) of None \<Rightarrow> x = Inl galat_internal | Some (out, dg) \<Rightarrow> hasil_pilih_sah H p req m out dg x"
proof -
  obtain k g1 where k: "run_state (kandidat H p (permintaan_rute p m req)) g = (k, g1)" by (meson surj_pair)
  show ?thesis
  proof (cases k)
    case None
    with k r show ?thesis by (simp add: siapkan_rute_def)
  next
    case (Some y)
    obtain out dg where y: "y = (out, dg)" by (cases y)
    obtain d g2 where d: "run_state (rutekan H (permintaan_rute p m req) out) g1 = (d, g2)" by (meson surj_pair)
    have "kandidat_sah H p (query (mo_id m) (ph_owner p)) out"
      using selaluD [OF selalu_kandidat k] Some y by (simp add: permintaan_rute_def)
    from selaluD [OF selalu_pilih_rencana [OF m this selaluD [OF selalu_rutekan d]], of ctx ip dg g2 "(ctx', x)" g'] k d r Some y
    show ?thesis by (simp add: siapkan_rute_def)
  qed
qed

lemma selalu_siapkan_rute:
  assumes m: "model_boleh H p m"
  shows "selalu (siapkan_rute H ctx p ip req m) (\<lambda>(ctx', x). \<forall>pr. x = Inr pr \<longrightarrow> rencana_sah H p req pr)"
  unfolding selalu_def
proof (intro allI)
  fix g
  obtain ctx' x g' where r: "run_state (siapkan_rute H ctx p ip req m) g = ((ctx', x), g')" by (metis surj_pair)
  from siapkan_rute_hasil [OF m r] have "x = Inr pr \<Longrightarrow> rencana_sah H p req pr" for pr by (auto simp: hasil_pilih_sah_def split: option.splits)
  with r show "case fst (run_state (siapkan_rute H ctx p ip req m) g) of (ctx', x) \<Rightarrow> \<forall>pr. x = Inr pr \<longrightarrow> rencana_sah H p req pr" by simp
qed

lemma selalu_siapkan_chat:
  "selalu (siapkan_chat_parsed H ctx p ip req n) (\<lambda>(ctx', x). \<forall>pr. x = Inr pr \<longrightarrow> rencana_sah H p req pr)"
  unfolding siapkan_chat_parsed_def
proof (rule selalu_abaikan, rule selalu_option, rule selalu_bind [OF selalu_selesaikan_model], rule selalu_sum)
  let ?Q = "\<lambda>(ctx', x). \<forall>pr. x = Inr pr \<longrightarrow> rencana_sah H p req pr"
  fix x m assume "\<forall>m. x = Inr m \<longrightarrow> model_diakui H m" "x = Inr m"
  then have m: "model_diakui H m" by simp
  show "selalu (do {
     rj \<leftarrow> izin_model H p m;
     case rj of Some r \<Rightarrow> kembali (ctx, Inl r) | None \<Rightarrow> do {
     estimasi \<leftarrow> estimasi_biaya H m req;
     (ctx', rj) \<leftarrow> kebijakan H ctx p m (target_permintaan p m ip) estimasi;
     case rj of Some r \<Rightarrow> kembali (ctx', Inl r) | None \<Rightarrow> siapkan_rute H ctx' p ip req m } }) ?Q"
  proof (rule selalu_bind [OF selalu_izin_model [OF m]], rule selalu_option, rule selalu_abaikan, rule selalu_abaikan, rule selalu_prod, rule selalu_option)
    fix rj ctx' assume "rj = None \<longrightarrow> model_boleh H p m" "rj = None"
    then have b: "model_boleh H p m" by simp
    show "selalu (siapkan_rute H ctx' p ip req m) ?Q"
      by (rule selalu_siapkan_rute [OF b])
  qed (auto intro: selalu_return)
qed (auto intro: selalu_return)

section \<open>Screening\<close>

text \<open>A rule in force that forbids a word in requests.\<close>

definition larangan_kata :: "aturan_filter \<Rightarrow> bool" where
  "larangan_kata a \<longleftrightarrow> cf_kind (af_row a) = filter_blocked_pattern \<and> cf_action (af_row a) \<noteq> action_warn \<and>
     cf_applies_to (af_row a) \<noteq> applies_to_response \<and> \<not> af_rusak a \<and> af_re a = None \<and> af_pola a \<noteq> []"

definition memuat_kata :: "aturan_filter \<Rightarrow> string \<Rightarrow> bool" where
  "memuat_kata a s \<longleftrightarrow> (if cf_case_sensitive (af_row a) then contains s (af_pola a) else contains (to_lower s) (af_pola a))"

definition aturan_berlaku :: "('r, 's) guard \<Rightarrow> ('r, 's) gerbang \<Rightarrow> aturan_filter list" where
  "aturan_berlaku G g = mf_aturan (fst (muat_filter default_filter_ttl (gu_kompilasi G) (gu_filter G (gb_n g)) (gu_jam G (gb_n g)) (gb_filters g)))"

lemma contains_lower: "contains s p \<Longrightarrow> contains (to_lower s) (to_lower p)"
  by (auto simp: contains_iff to_lower_def) blast

lemma memuat_kata_teks:
  assumes "larangan_kata a" "s \<in> teks_disaring req" "memuat_kata a s"
  shows "memuat_kata a (teks_permintaan req)"
proof -
  have "s \<noteq> []" using assms(1,3) by (auto simp: larangan_kata_def memuat_kata_def contains_iff to_lower_def split: if_splits)
  with screened_text_covers [OF assms(2) contains_self] have c: "contains (teks_permintaan req) s" by blast
  from contains_trans [OF c] contains_trans [OF contains_lower [OF c]] assms(3) show ?thesis
    by (auto simp: memuat_kata_def split: if_splits)
qed

lemma saring_menolak:
  assumes G: "gu_filters G" and a: "a \<in> set (aturan_berlaku G g)" "larangan_kata a" "memuat_kata a teks"
    and h: "\<not> gu_habis G (gb_n g) a teks" and s: "su_text s = teks"
    and run: "run_state (saring_permintaan G s) g = (rj, g')"
  shows "\<exists>r. rj = Some r \<and> (rj_code r = ''content_filter'' \<or> rj_code r = ''payload_too_large'') \<and> gb_redis g' = gb_redis g \<and> gb_engine g' = gb_engine g"
proof -
  let ?s = "s\<lparr>su_response := False\<rparr>"
  let ?v = "check_rules (gu_habis G (gb_n g)) (gu_penuh G (gb_n g)) (aturan_berlaku G g) ?s"
  have t: "teks \<noteq> []" using a(2,3) by (auto simp: larangan_kata_def memuat_kata_def contains_iff to_lower_def split: if_splits)
  have beda: "applies_to_response \<noteq> applies_to_request" by (simp add: applies_to_response_def applies_to_request_def)
  have "melanggar_isi (gu_habis G (gb_n g)) (gu_penuh G (gb_n g)) a ?s"
    using a(2,3) s t h by (auto simp: melanggar_isi_def larangan_kata_def memuat_kata_def diketahui_cocok_def cocok_pola_def berlaku_arah_def Let_def)
  moreover have "memblokir a" using a(2) by (simp add: larangan_kata_def memblokir_def)
  ultimately have "List.find (\<lambda>a. melanggar_isi (gu_habis G (gb_n g)) (gu_penuh G (gb_n g)) a ?s \<and> memblokir a) (aturan_berlaku G g) \<noteq> None"
    using a(1) by (auto simp: find_None_iff)
  then obtain f where f: "vf_filter ?v = Some f" "vf_blocked ?v"
    using check_rules_find(1,2) [of "gu_habis G (gb_n g)" "gu_penuh G (gb_n g)" "aturan_berlaku G g" ?s] by auto
  define g1 where "g1 = g\<lparr>gb_n := Suc (gb_n g), gb_filters := fst (muat_filter default_filter_ttl (gu_kompilasi G) (gu_filter G (gb_n g)) (gu_jam G (gb_n g)) (gb_filters g))\<rparr>"
  have "run_state (periksa_isi G ?s) g = (?v, g1)"
    by (simp add: periksa_isi_def dengan_def check_filter_def Let_def aturan_berlaku_def g1_def)
  with run G f show ?thesis
    by (auto simp: saring_permintaan_def saring_def pancarkan_def dengan_def tolakan_def g1_def split: if_splits)
qed

section \<open>Properties of plans and refusals\<close>

text \<open>C2. A request never reaches an upstream its requester has no right to: in every plan that leaves the gate,
  also one of a combo recipe or of an older tier, the candidates were answered by the source for an enabled
  model and for this owner, model and provider were both allowed to the key if it is restricted, and a
  streaming request has only candidates that stream; and no plan is empty.\<close>

theorem plan_authorised:
  assumes "run_state (siapkan_chat_parsed H ctx p ip req n) g = ((ctx', Inr pr), g')"
  shows "model_boleh H p (si_model pr) \<and> pl_candidates (si_plan pr) \<noteq> [] \<and>
    (\<forall>c\<in>set (pl_candidates (si_plan pr)). (cr_stream req \<longrightarrow> rc_supports_streaming c) \<and>
       (\<exists>m. model_boleh H p m \<and> provider_boleh H p (rc_provider_id c) \<and>
          (\<exists>n cs. hd_candidates H n (query (mo_id m) (ph_owner p)) = Some cs \<and> c \<in> set cs)))"
  using selaluD [OF selalu_siapkan_chat assms] by (auto simp: rencana_sah_def kandidat_diakui_def)

text \<open>
  The code and the status that a chat request with no candidate is owed, said of the candidates with their verdicts and of what
  the source answers when it is asked for unhealthy and for switched-off ones as well.
\<close>

definition sebab_penolakan :: "chat_request \<Rightarrow> (route_candidate \<times> boleh) list \<Rightarrow> bool \<Rightarrow> bool \<Rightarrow> string \<times> int" where
  "sebab_penolakan req xs sakit mati =
     (let out = yang_boleh xs; perlu = wrap64 (te_input (estimate_tokens req) + te_output (estimate_tokens req))
      in if xs = []
         then (if sakit then (''provider_unhealthy'', 503) else if mati then (''provider_disabled'', 503) else (''no_provider_for_model'', 503))
         else if list_all (\<lambda>x. snd x = GugurKey) xs then (''provider_not_allowed'', 403)
         else if out = [] then (''no_provider_for_model'', 503)
         else if cr_stream req \<and> list_all (\<lambda>c. \<not> rc_supports_streaming c) out then (''streaming_not_supported'', 400)
         else if ''tools'' \<in> set (required_capabilities req) \<and> list_all (\<lambda>c. \<not> rc_supports_tools c) out then (''tools_not_supported'', 400)
         else if 0 < perlu \<and> list_all (\<lambda>c. case rc_max_context_window c of None \<Rightarrow> False | Some w \<Rightarrow> w < perlu) out
         then (''context_length_exceeded'', 400)
         else (''no_available_provider'', 503))"

lemma tolak_sebab:
  "(rj_code r, rj_status r) = sebab_penolakan req xs sakit mati"
  if "r = tolak_tanpa_kandidat (permintaan_rute p m req) m (yang_boleh xs) (diagnosa_tepat xs sakit mati)"
proof -
  have emb: "\<not> perlu_embeddings (permintaan_rute p m req)"
    by (auto simp: perlu_embeddings_def permintaan_rute_def required_capabilities_def split: if_splits)
  have rq: "rq_streaming (permintaan_rute p m req) = cr_stream req" "rq_tokens (permintaan_rute p m req) = estimate_tokens req"
    "butuh_tools (permintaan_rute p m req) \<longleftrightarrow> ''tools'' \<in> set (required_capabilities req)"
    by (simp_all add: permintaan_rute_def butuh_tools_def)
  have b: "yang_boleh xs = []" if "xs = []" using that by (simp add: yang_boleh_def)
  have t: "tidak_ada_yang_mendukung cs f \<longleftrightarrow> list_all (\<lambda>c. \<not> f c) cs" for cs f
    by (simp add: tidak_ada_yang_mendukung_def list_ex_iff list_all_iff)
  show ?thesis
    unfolding that tolak_tanpa_kandidat_def sebab_penolakan_def diagnosa_tepat_def semua_kandidat_kekecilan_untuk_permintaan_def rq t Let_def
    using emb b by (simp add: tolakan_def)
qed

text \<open>C22. A refusal for want of a candidate names its cause, and always the same one: its code and status are those that
  \<^const>\<open>sebab_penolakan\<close> gives for the candidates the source answered and the verdicts on them.  If the source has none, the
  client is told that providers are unhealthy when asking for those too finds one, that they are switched off when only
  asking for those as well does, and that none is configured otherwise; if the key was denied every one, that the key is
  the reason; if all are set aside and not only by the key, that none is configured; else streaming, tools or the
  context window when no candidate left has them, in this order, and otherwise that none is available.  Every
  verdict has its evidence, some rule filters all candidates left, and only a failing source is an internal error.\<close>

theorem refusal_names_cause:
  assumes "model_boleh H p m" and "run_state (siapkan_rute H ctx p ip req m) g = ((ctx', Inl r), g')"
  shows "case penilaian H p (query (mo_id m) (ph_owner p)) g of
      None \<Rightarrow> r = galat_internal
    | Some xs \<Rightarrow> hd_candidates H (gb_n g) (query (mo_id m) (ph_owner p)) = Some (map fst xs) \<and> (\<forall>x\<in>set xs. nilai_sah H p x) \<and>
        (rj_code r, rj_status r) = sebab_penolakan req xs (ada_isinya (jawaban_sakit H (query (mo_id m) (ph_owner p)) g))
          (ada_isinya (jawaban_mati H (query (mo_id m) (ph_owner p)) g)) \<and>
        (\<exists>rule. saring_kandidat (permintaan_rute p m req) rule (yang_boleh xs) = [])"
proof -
  obtain k g1 where k: "run_state (kandidat H p (permintaan_rute p m req)) g = (k, g1)" by (meson surj_pair)
  have q: "query (rq_model_id (permintaan_rute p m req)) (rq_owner_user_id (permintaan_rute p m req)) = query (mo_id m) (ph_owner p)"
    by (simp add: permintaan_rute_def)
  note K = kandidat_tepat [OF k, unfolded q]
  from siapkan_rute_hasil [OF assms] k have h: "case k of None \<Rightarrow> r = galat_internal | Some (out, dg) \<Rightarrow> hasil_pilih_sah H p req m out dg (Inl r)" by (cases k) simp_all
  show ?thesis
  proof (cases "penilaian H p (query (mo_id m) (ph_owner p)) g")
    case None
    with K h show ?thesis by simp
  next
    case (Some xs)
    with K h penilaian_sah [OF Some] tolak_sebab show ?thesis by (simp add: hasil_pilih_sah_def)
  qed
qed

text \<open>C14. The screened text of a chat request: if a rule in force forbids a word and the word occurs in the content of a message
  or in one of its text parts, in a refusal, a transcript, the address of an image, the name or the arguments of a
  tool call, or the name, the description or the parameters of a tool, the request is refused before a model is
  resolved, and no counter moves; unless the rule ran out of its time.  Other text is sent upstream without being
  screened and is no part of this claim: stop sequences, user, response_format, tool_choice, the name, the tool_call_id
  and the reasoning content of a message, audio and documents, and the fields the gateway does not know (\<open>screening_ignores\<close>).\<close>

theorem screened_before_sending:
  assumes "gu_filters (hd_guard H)" and "a \<in> set (aturan_berlaku (hd_guard H) g)" and "larangan_kata a"
    and "s \<in> teks_disaring req" and "memuat_kata a s" and "\<not> gu_habis (hd_guard H) (gb_n g) a (teks_permintaan req)"
    and "run_state (siapkan_chat_parsed H ctx p ip req n) g = ((ctx', x), g')"
  shows "\<exists>r. x = Inl r \<and> (rj_code r = ''content_filter'' \<or> rj_code r = ''payload_too_large'') \<and> ctx' = ctx \<and>
    gb_redis g' = gb_redis g \<and> gb_engine g' = gb_engine g"
proof -
  let ?s = "subject_kosong\<lparr>su_text := teks_permintaan req, su_bytes := int n\<rparr>"
  obtain rj g1 where r: "run_state (saring_permintaan (hd_guard H) ?s) g = (rj, g1)" by (meson surj_pair)
  have t: "su_text ?s = teks_permintaan req" by simp
  from saring_menolak [OF assms(1,2,3) memuat_kata_teks [OF assms(3,4,5)] assms(6) t r] assms(7) r
  show ?thesis by (auto simp: siapkan_chat_parsed_def)
qed

section \<open>Witnesses\<close>

definition contoh_model :: model_kanonik where
  "contoh_model = \<lparr>mo_id = ''m1'', mo_model_id = ''m'', mo_enabled = True, mo_capabilities = [''text'']\<rparr>"

definition contoh_pemohon :: pemohon where
  "contoh_pemohon = \<lparr>ph_key = \<lparr>ky_id = ''k1'', ky_rate_limit_rps = Some 5, ky_rate_limit_rpm = None, ky_rate_limit_tpm = None,
     ky_daily_request_limit = None, ky_monthly_request_limit = None, ky_daily_token_limit = None, ky_monthly_token_limit = None\<rparr>,
     ph_owner = ''u1''\<rparr>"

definition contoh_handlers :: "rate_limit_row list \<Rightarrow> hasil_resolve \<Rightarrow> route_candidate list \<Rightarrow> (simpanan_penghitung, unit) handlers" where
  "contoh_handlers rows m cands = \<lparr>hd_guard = contoh_guard rows, hd_json = (\<lambda>_. Some contoh_body), hd_resolve = (\<lambda>_ _. m),
     hd_candidates = (\<lambda>_ _. Some cands), hd_restrict = True, hd_allows_model = (\<lambda>_ _ _. Some True), hd_allows_provider = (\<lambda>_ _ i. Some (i = ''a'')),
     hd_mappings = None, hd_penaksir = None, hd_aturan = (\<lambda>_. None), hd_urai = (\<lambda>_. None), hd_urai_tier = (\<lambda>_. None),
     hd_sumber = (\<lambda>_. contoh_sumber)\<rparr>"

definition contoh_handlers_bebas :: "route_candidate list \<Rightarrow> (simpanan_penghitung, unit) handlers" where
  "contoh_handlers_bebas cands = (contoh_handlers [] (ModelAda contoh_model) cands)\<lparr>hd_guard := (contoh_guard [])\<lparr>gu_filters := False, gu_limiter := None\<rparr>\<rparr>"

lemma contoh_bebas [simp]:
  "gu_filters (hd_guard (contoh_handlers_bebas cs)) = False" "gu_limiter (hd_guard (contoh_handlers_bebas cs)) = None"
  "gu_budgets (hd_guard (contoh_handlers_bebas cs)) = False" "hd_resolve (contoh_handlers_bebas cs) n s = ModelAda contoh_model"
  "hd_candidates (contoh_handlers_bebas cs) n q = Some cs" "hd_allows_model (contoh_handlers_bebas cs) n k m = Some True"
  "hd_allows_provider (contoh_handlers_bebas cs) n k i = Some (i = ''a'')" "hd_penaksir (contoh_handlers_bebas cs) = None"
  "hd_aturan (contoh_handlers_bebas cs) n = None" "periksa_key (contoh_handlers_bebas cs) contoh_pemohon"
  by (simp_all add: contoh_handlers_bebas_def contoh_handlers_def contoh_guard_def periksa_key_def contoh_pemohon_def)

lemma contoh_diakui: "model_boleh (contoh_handlers_bebas cs) contoh_pemohon contoh_model"
  by (simp add: model_boleh_def model_diakui_def) (simp add: contoh_model_def)

lemma contoh_boleh_provider: "run_state (boleh_provider (contoh_handlers_bebas cs) contoh_pemohon i) g =
    (if i = ''a'' then Boleh else GugurKey, g\<lparr>gb_n := Suc (gb_n g)\<rparr>)"
  by (simp add: boleh_provider_def provider_dilarang_def provider_anggaran_habis_def tanya_def dengan_def)

definition contoh_kandidat :: "route_candidate list" where
  "contoh_kandidat = [contoh_cand ''b'' 1 1, (contoh_cand ''a'' 2 1)\<lparr>rc_max_context_window := None\<rparr>]"

lemma contoh_masuk: "\<exists>g1. run_state (siapkan_chat_parsed (contoh_handlers_bebas cs) ctx contoh_pemohon ip contoh_chat n) g =
    run_state (siapkan_rute (contoh_handlers_bebas cs) ctx contoh_pemohon ip contoh_chat contoh_model) g1"
  by (intro exI, simp add: siapkan_chat_parsed_def selesaikan_model_def resolusi_def bentuk_uuid_def izin_model_def boleh_model_def
      estimasi_biaya_def kebijakan_def saring_permintaan_def periksa_batas_model_def periksa_anggaran_dengan_reservasi_def gerbang_token_def
      cakupan_token_def tanya_def dengan_def) (simp add: contoh_chat_def contoh_model_def)


definition diagnosa_kosong :: diagnosa_kandidat where
  "diagnosa_kosong = \<lparr>dg_dilarang_key = False, dg_semua_tak_sehat = False, dg_semua_nonaktif = False\<rparr>"

lemma contoh_kandidat_hasil:
  "\<exists>g1. run_state (kandidat (contoh_handlers_bebas contoh_kandidat) contoh_pemohon rreq) g = (Some ([(contoh_cand ''a'' 2 1)\<lparr>rc_max_context_window := None\<rparr>], diagnosa_kosong), g1)"
  "\<exists>g1. run_state (kandidat (contoh_handlers_bebas []) contoh_pemohon rreq) g = (Some ([], diagnosa_kosong), g1)"
  by (simp_all add: kandidat_def diagnosa_def tanya_def dengan_def contoh_boleh_provider contoh_kandidat_def yang_boleh_def diagnosa_kosong_def
      ada_isinya_def contoh_cand_def)

lemma contoh_rutekan:
  assumes "run_state (rutekan (contoh_handlers_bebas cs) rreq cands) g = (d, g')"
  shows "de_rule d = None \<and> set (de_candidates d) = set (saring_kandidat rreq None cands)"
proof -
  have "de_rule d = None"
    using assms by (auto simp: rutekan_def dengan_def route_def aturan_def Let_def first_match_None split: prod.splits)
  with selaluD [OF selalu_rutekan assms] show ?thesis by simp
qed

lemma contoh_rute:
  "\<exists>ctx' pr g'. run_state (siapkan_rute (contoh_handlers_bebas contoh_kandidat) ctx contoh_pemohon ip contoh_chat contoh_model) g = ((ctx', Inr pr), g')"
  "\<exists>ctx' g'. run_state (siapkan_rute (contoh_handlers_bebas []) ctx contoh_pemohon ip contoh_chat contoh_model) g =
     ((ctx', Inl (tolak_tanpa_kandidat (permintaan_rute contoh_pemohon contoh_model contoh_chat) contoh_model [] diagnosa_kosong)), g')"
proof -
  let ?H = "contoh_handlers_bebas contoh_kandidat" and ?q = "permintaan_rute contoh_pemohon contoh_model contoh_chat"
  let ?c = "(contoh_cand ''a'' 2 1)\<lparr>rc_max_context_window := None\<rparr>"
  obtain g1 where k: "run_state (kandidat ?H contoh_pemohon ?q) g = (Some ([?c], diagnosa_kosong), g1)" using contoh_kandidat_hasil(1) by blast
  obtain d g2 where r: "run_state (rutekan ?H ?q [?c]) g1 = (d, g2)" by (meson surj_pair)
  have "saring_kandidat ?q None [?c] = [?c]" by code_simp
  with contoh_rutekan [OF r] have d: "de_rule d = None" "set (de_candidates d) = {?c}" by simp_all
  then have "de_candidates d \<noteq> []" "\<not> semua_kandidat_kekecilan (de_candidates d) i" for i
    by (auto simp: semua_kandidat_kekecilan_def list_all_iff)
  then show "\<exists>ctx' pr g'. run_state (siapkan_rute ?H ctx contoh_pemohon ip contoh_chat contoh_model) g = ((ctx', Inr pr), g')"
    using k r d(1) by (simp add: siapkan_rute_def pilih_rencana_def gabungan_combo_def combo_def)
next
  let ?H = "contoh_handlers_bebas []" and ?q = "permintaan_rute contoh_pemohon contoh_model contoh_chat"
  obtain g1 where k: "run_state (kandidat ?H contoh_pemohon ?q) g = (Some ([], diagnosa_kosong), g1)" using contoh_kandidat_hasil(2) by blast
  obtain d g2 where r: "run_state (rutekan ?H ?q []) g1 = (d, g2)" by (meson surj_pair)
  have "saring_kandidat ?q None [] = []" by code_simp
  with contoh_rutekan [OF r] have d: "de_rule d = None" "de_candidates d = []" by simp_all
  then show "\<exists>ctx' g'. run_state (siapkan_rute ?H ctx contoh_pemohon ip contoh_chat contoh_model) g =
     ((ctx', Inl (tolak_tanpa_kandidat ?q contoh_model [] diagnosa_kosong)), g')"
    using k r by (simp add: siapkan_rute_def pilih_rencana_def gabungan_combo_def combo_def ekstrak_combo_pipeline_def)
qed

lemma plan_authorised_witness:
  "\<exists>ctx' pr g'. run_state (siapkan_chat_parsed (contoh_handlers_bebas contoh_kandidat) konteks_kosong contoh_pemohon None contoh_chat 10) (contoh_gerbang []) = ((ctx', Inr pr), g') \<and>
     pl_candidates (si_plan pr) \<noteq> []"
proof -
  obtain ctx' pr g' where r: "run_state (siapkan_chat_parsed (contoh_handlers_bebas contoh_kandidat) konteks_kosong contoh_pemohon None contoh_chat 10) (contoh_gerbang []) = ((ctx', Inr pr), g')"
    using contoh_masuk contoh_rute(1) by metis
  with plan_authorised [OF r] show ?thesis by blast
qed

lemma refusal_names_cause_witness:
  "\<exists>ctx' r g'. run_state (siapkan_rute (contoh_handlers_bebas []) konteks_kosong contoh_pemohon None contoh_chat contoh_model) (contoh_gerbang []) = ((ctx', Inl r), g') \<and>
     rj_code r = ''no_provider_for_model'' \<and> rj_status r = 503"
proof -
  obtain ctx' r g' where r: "run_state (siapkan_rute (contoh_handlers_bebas []) konteks_kosong contoh_pemohon None contoh_chat contoh_model) (contoh_gerbang []) = ((ctx', Inl r), g')"
    using contoh_rute(2) by metis
  have "penilaian (contoh_handlers_bebas []) contoh_pemohon q g = Some []" for q g by (simp add: penilaian_def)
  moreover have "sebab_penolakan contoh_chat [] False False = (''no_provider_for_model'', 503)" by (simp add: sebab_penolakan_def)
  moreover have "\<not> ada_isinya (jawaban_sakit (contoh_handlers_bebas []) q g)" "\<not> ada_isinya (jawaban_mati (contoh_handlers_bebas []) q g)" for q g
    by (simp_all add: ada_isinya_def jawaban_sakit_def jawaban_mati_def)
  ultimately have "rj_code r = ''no_provider_for_model'' \<and> rj_status r = 503"
    using refusal_names_cause [OF contoh_diakui r] by simp
  with r show ?thesis by blast
qed

definition contoh_larangan :: aturan_filter where
  "contoh_larangan = siapkan (\<lambda>_. None) \<lparr>cf_id = ''f'', cf_name = ''f'', cf_description = [], cf_kind = filter_blocked_pattern, cf_priority = 1,
     cf_applies_to = applies_to_request, cf_action = ''block'', cf_pattern = ''Key'', cf_pattern_type = ''literal'', cf_case_sensitive = False,
     cf_max_eval_ms = 0, cf_model_id = [], cf_provider_id = [], cf_max_request_bytes = None, cf_enabled = True\<rparr>"

definition contoh_chat_tool :: chat_request where
  "contoh_chat_tool = contoh_chat\<lparr>cr_tools := [\<lparr>tl_type = ''function'', tl_function =
     \<lparr>fd_name = ''f'', fd_description = ''the KEY'', fd_parameters = None, fd_strict = None\<rparr>\<rparr>]\<rparr>"

lemma screened_before_sending_witness:
  "\<exists>r ctx' g'. run_state (siapkan_chat_parsed (contoh_handlers [] (ModelAda contoh_model) contoh_kandidat) konteks_kosong contoh_pemohon None contoh_chat_tool 10)
     ((contoh_gerbang [])\<lparr>gb_filters := new_filter_engine\<lparr>mf_aturan := [contoh_larangan]\<rparr>\<rparr>) = ((ctx', Inl r), g')"
proof -
  let ?H = "contoh_handlers [] (ModelAda contoh_model) contoh_kandidat" and ?g = "(contoh_gerbang [])\<lparr>gb_filters := new_filter_engine\<lparr>mf_aturan := [contoh_larangan]\<rparr>\<rparr>"
  obtain ctx' x g' where r: "run_state (siapkan_chat_parsed ?H konteks_kosong contoh_pemohon None contoh_chat_tool 10) ?g = ((ctx', x), g')" by (metis surj_pair)
  have "gu_filters (hd_guard ?H)" "\<not> gu_habis (hd_guard ?H) (gb_n ?g) contoh_larangan (teks_permintaan contoh_chat_tool)"
    "contoh_larangan \<in> set (aturan_berlaku (hd_guard ?H) ?g)"
    by (simp_all add: contoh_handlers_def contoh_guard_def aturan_berlaku_def muat_filter_def)
  moreover have "larangan_kata contoh_larangan" "memuat_kata contoh_larangan ''the KEY''" by code_simp+
  moreover have "''the KEY'' \<in> teks_disaring contoh_chat_tool" by (simp add: teks_disaring_def contoh_chat_tool_def contoh_chat_def)
  ultimately have "\<exists>r. x = Inl r" using screened_before_sending [OF _ _ _ _ _ _ r] by blast
  with r show ?thesis by blast
qed

lemma contoh_baca: "gb_redis (contoh_gerbang rows) = []" "baca mem_counters [] k = 0"
  by (simp_all add: contoh_gerbang_def baca_def mem_counters_def)

lemma gate_refunds_refusals_witness:
  "\<exists>x g'. run_state (terima_chat (contoh_handlers [contoh_row] ModelTiada []) contoh_limiter contoh_pemohon None ''(body)'') (contoh_gerbang [contoh_row]) = (x, g') \<and>
     (\<forall>k. baca mem_counters (gb_redis g') k = 0)"
proof -
  let ?H = "contoh_handlers [contoh_row] ModelTiada []" and ?g = "contoh_gerbang [contoh_row]"
  obtain x g' where r: "run_state (terima_chat ?H contoh_limiter contoh_pemohon None ''(body)'') ?g = (x, g')" by (meson surj_pair)
  have "lancar [contoh_row] mem_counters contoh_limiter (hd_guard ?H)" using contoh_lancar(1) by (simp add: contoh_handlers_def)
  moreover have "model_rapi ?H" by (simp add: model_rapi_def contoh_handlers_def)
  moreover have "rapi ''k1''" "rapi ''u1''" by code_simp+
  then have "pemohon_rapi contoh_pemohon None" by (simp add: pemohon_rapi_def contoh_pemohon_def)
  moreover have "gerbang_sah [contoh_row] mem_counters ?g"
    using contoh_lancar(2) by (simp add: gerbang_sah_def contoh_baca) (simp add: contoh_gerbang_def)
  ultimately have C: "case x of Diteruskan ctx pr \<Rightarrow> True | _ \<Rightarrow> \<forall>k. baca mem_counters (gb_redis g') k = baca mem_counters (gb_redis ?g) k"
    using gate_refunds_refusals [OF _ _ _ _ r] by (cases x) auto
  have "\<not> rencana_sah ?H contoh_pemohon req pr" for req pr
    by (simp add: rencana_sah_def model_boleh_def model_diakui_def contoh_handlers_def)
  then have S: "selalu (siapkan_chat ?H ctx contoh_pemohon None ''(body)'') (\<lambda>(ctx', x). \<forall>pr. x \<noteq> Inr pr)" for ctx
    unfolding siapkan_chat_def by (intro selalu_sum selalu_return selalu_post [OF selalu_siapkan_chat]) auto
  have "x \<noteq> Diteruskan c pr" for c pr
    using r by (auto simp: terima_chat_def chat_completions_def split: hasil_limit.splits prod.splits sum.splits dest!: selaluD [OF S])
  with C r show ?thesis by (cases x) (auto simp: contoh_baca)
qed

end
