(* ===== verification/Ssrf.thy ===== *)
theory Ssrf
  imports Prelude
begin

unbundle bit_operations_syntax

text \<open>
  The guard against server-side request forgery, \<^verbatim>\<open>internal/security/ssrf.go\<close>: the two layers of it
  (\<^verbatim>\<open>ValidateBaseURL\<close> and \<^verbatim>\<open>ValidateProxyURL\<close> when an address is saved, \<^verbatim>\<open>NewSSRFControl\<close> and
  \<^verbatim>\<open>PeriksaHostTujuan\<close> when it is contacted) and \<^verbatim>\<open>CheckAddr\<close>, the one place both ask.  An IPv4 address is
  a 32-bit word, an IPv6 address a 128-bit word with its zone.  What the code uses of \<^verbatim>\<open>net/netip\<close> is written
  out; the parser of URLs (\<^verbatim>\<open>url.Parse\<close>) and the resolver are arguments.
\<close>

named_theorems ssrf_simps \<open>prefixes as intervals of numbers\<close>

section \<open>Addresses and prefixes\<close>

datatype alamat = V4 "32 word" | V6 "128 word" string

datatype awalan = Awalan (aw_addr: alamat) (aw_bits: nat)

fun is4 :: "alamat \<Rightarrow> bool" where
  "is4 (V4 v) = True"
| "is4 (V6 w z) = False"

fun is4in6 :: "alamat \<Rightarrow> bool" where
  "is4in6 (V4 v) = False"
| "is4in6 (V6 w z) = (drop_bit 32 w = 0xFFFF)"

text \<open>\<^verbatim>\<open>Addr.Unmap\<close> drops the zone with the wrapping; \<^verbatim>\<open>unmap4In6\<close>.\<close>

fun unmap :: "alamat \<Rightarrow> alamat" where
  "unmap (V4 v) = V4 v"
| "unmap (V6 w z) = (if is4in6 (V6 w z) then V4 (ucast w) else V6 w z)"

definition unmap4in6 :: "alamat \<Rightarrow> alamat" where
  "unmap4in6 a = (if is4in6 a then unmap a else a)"

text \<open>\<^verbatim>\<open>Prefix.Contains\<close>: an address with a zone is in no prefix.\<close>

fun memuat :: "awalan \<Rightarrow> alamat \<Rightarrow> bool" where
  "memuat (Awalan (V4 p) n) (V4 a) \<longleftrightarrow> drop_bit (32 - n) (a XOR p) = 0"
| "memuat (Awalan (V6 p _) n) (V6 a z) \<longleftrightarrow> z = [] \<and> drop_bit (128 - n) (a XOR p) = 0"
| "memuat _ _ \<longleftrightarrow> False"

text \<open>The classes of \<^verbatim>\<open>netip\<close>, on unwrapped addresses.\<close>

fun is_loopback :: "alamat \<Rightarrow> bool" where
  "is_loopback (V4 v) \<longleftrightarrow> drop_bit 24 v = 127"
| "is_loopback (V6 w z) \<longleftrightarrow> w = 1"

fun is_link_local_unicast :: "alamat \<Rightarrow> bool" where
  "is_link_local_unicast (V4 v) \<longleftrightarrow> drop_bit 16 v = 169 * 256 + 254"
| "is_link_local_unicast (V6 w z) \<longleftrightarrow> drop_bit 118 w = 0x3FA"

fun is_link_local_multicast :: "alamat \<Rightarrow> bool" where
  "is_link_local_multicast (V4 v) \<longleftrightarrow> drop_bit 8 v = 224 * 65536"
| "is_link_local_multicast (V6 w z) \<longleftrightarrow> drop_bit 112 w AND 0xFF0F = 0xFF02"

fun is_interface_local_multicast :: "alamat \<Rightarrow> bool" where
  "is_interface_local_multicast (V4 v) \<longleftrightarrow> False"
| "is_interface_local_multicast (V6 w z) \<longleftrightarrow> drop_bit 112 w AND 0xFF0F = 0xFF01"

definition is_unspecified :: "alamat \<Rightarrow> bool" where
  "is_unspecified a \<longleftrightarrow> a = V4 0 \<or> a = V6 0 []"

text \<open>\<^verbatim>\<open>netip.MustParsePrefix\<close> of a literal with no bits set below its length.\<close>

definition ip4 :: "int \<Rightarrow> int \<Rightarrow> int \<Rightarrow> int \<Rightarrow> alamat" where
  "ip4 a b c d = V4 (word_of_int (((a * 256 + b) * 256 + c) * 256 + d))"

definition ip6 :: "int \<Rightarrow> int \<Rightarrow> int \<Rightarrow> int \<Rightarrow> int \<Rightarrow> int \<Rightarrow> int \<Rightarrow> int \<Rightarrow> alamat" where
  "ip6 a b c d e f g h =
     V6 (word_of_int (foldl (\<lambda>n k. n * 65536 + k) 0 [a, b, c, d, e, f, g, h])) []"

text \<open>\<^verbatim>\<open>blockedPrefixes\<close>.\<close>

definition blocked_prefixes :: "awalan list" where
  "blocked_prefixes =
     [Awalan (ip4 0 0 0 0) 8, Awalan (ip4 10 0 0 0) 8, Awalan (ip4 100 64 0 0) 10, Awalan (ip4 127 0 0 0) 8,
      Awalan (ip4 169 254 0 0) 16, Awalan (ip4 172 16 0 0) 12, Awalan (ip4 192 0 0 0) 24,
      Awalan (ip4 192 0 2 0) 24, Awalan (ip4 192 168 0 0) 16, Awalan (ip4 198 18 0 0) 15,
      Awalan (ip4 198 51 100 0) 24, Awalan (ip4 203 0 113 0) 24, Awalan (ip4 224 0 0 0) 4,
      Awalan (ip4 240 0 0 0) 4, Awalan (ip4 255 255 255 255) 32,
      Awalan (ip6 0 0 0 0 0 0 0 0) 128, Awalan (ip6 0 0 0 0 0 0 0 1) 128, Awalan (ip6 0xFC00 0 0 0 0 0 0 0) 7,
      Awalan (ip6 0xFE80 0 0 0 0 0 0 0) 10, Awalan (ip6 0xFF00 0 0 0 0 0 0 0) 8,
      Awalan (ip6 0x2001 0xDB8 0 0 0 0 0 0) 32, Awalan (ip6 0x64 0xFF9B 0 0 0 0 0 0) 96,
      Awalan (ip6 0x64 0xFF9B 1 0 0 0 0 0) 48, Awalan (ip6 0 0 0 0 0 0 0 0) 96,
      Awalan (ip6 0x2002 0 0 0 0 0 0 0) 16, Awalan (ip6 0x2001 0 0 0 0 0 0 0) 32]"

section \<open>The policy and \<^verbatim>\<open>CheckAddr\<close>\<close>

record ssrf_policy =
  sp_allow_http :: bool
  sp_allow_private :: bool
  sp_allowed :: "awalan list"

definition default_ssrf_policy :: ssrf_policy where
  "default_ssrf_policy = \<lparr>sp_allow_http = False, sp_allow_private = False, sp_allowed = []\<rparr>"

datatype galat_ssrf = SkemaTerlarang | KredensialDiUrl | AlamatTerlarang | UrlTidakSah

definition allows_addr :: "ssrf_policy \<Rightarrow> alamat \<Rightarrow> bool" where
  "allows_addr p a =
     (if sp_allow_private p then True
      else let a = unmap4in6 a
           in list_ex (\<lambda>pfx. is4 (aw_addr pfx) = is4 a \<and> memuat pfx a) (sp_allowed p))"

definition allows_loopback_name :: "ssrf_policy \<Rightarrow> bool" where
  "allows_loopback_name p \<longleftrightarrow> allows_addr p (ip4 127 0 0 1) \<or> allows_addr p (ip6 0 0 0 0 0 0 0 1)"

text \<open>\<^verbatim>\<open>CheckAddr\<close>; a parsed address is always valid.\<close>

definition check_addr :: "ssrf_policy \<Rightarrow> alamat \<Rightarrow> galat_ssrf option" where
  "check_addr p a =
     (if sp_allow_private p then None
      else let a = unmap4in6 a
           in if allows_addr p a then None
              else if list_ex (\<lambda>q. is4 (aw_addr q) = is4 a \<and> memuat q a) blocked_prefixes then Some AlamatTerlarang
              else if is_loopback a \<or> is_link_local_unicast a \<or> is_link_local_multicast a
                      \<or> is_interface_local_multicast a \<or> is_unspecified a
                   then Some AlamatTerlarang
              else None)"

section \<open>Reading addresses\<close>

text \<open>\<^verbatim>\<open>netip.ParseAddr\<close>: dotted quads without leading zeros, IPv6 with one \<^verbatim>\<open>::\<close>, a dotted tail and a zone.\<close>

definition aksara_angka :: "char \<Rightarrow> bool" where
  "aksara_angka c \<longleftrightarrow> 48 \<le> (of_char c :: nat) \<and> (of_char c :: nat) \<le> 57"

definition digit_hex :: "char \<Rightarrow> int option" where
  "digit_hex c =
     (let n = (of_char c :: int)
      in if 48 \<le> n \<and> n \<le> 57 then Some (n - 48)
         else if 97 \<le> n \<and> n \<le> 102 then Some (n - 87)
         else if 65 \<le> n \<and> n \<le> 70 then Some (n - 55) else None)"

text \<open>\<^verbatim>\<open>parseIPv4Fields\<close>: the state of the loop is the value, the number of its digits and the finished fields.\<close>

fun bidang_ipv4 :: "string \<Rightarrow> int \<Rightarrow> nat \<Rightarrow> int list \<Rightarrow> int list option" where
  "bidang_ipv4 [] v k fs = (if length fs = 3 \<and> 0 < k then Some (fs @ [v]) else None)"
| "bidang_ipv4 (c # cs) v k fs =
     (if aksara_angka c then
        (if k = 1 \<and> v = 0 then None
         else let v' = v * 10 + (of_char c - 48) in if 255 < v' then None else bidang_ipv4 cs v' (Suc k) fs)
      else if c = CHR ''.'' then (if k = 0 \<or> length fs = 3 then None else bidang_ipv4 cs 0 0 (fs @ [v]))
      else None)"

text \<open>One group of hexadecimal digits: its value, how many digits and the rest; more than four are refused.\<close>

fun kelompok_hex :: "string \<Rightarrow> int \<Rightarrow> nat \<Rightarrow> (int \<times> nat \<times> string) option" where
  "kelompok_hex [] v k = Some (v, k, [])"
| "kelompok_hex (c # cs) v k =
     (case digit_hex c of
        None \<Rightarrow> Some (v, k, c # cs)
      | Some d \<Rightarrow> if 3 < k then None else kelompok_hex cs (v * 16 + d) (Suc k))"

text \<open>The loop of \<^verbatim>\<open>parseIPv6\<close>: groups read so far, the position of the ellipsis and the rest of the text.\<close>

fun gelung_ipv6 :: "nat \<Rightarrow> string \<Rightarrow> int list \<Rightarrow> nat option \<Rightarrow> (int list \<times> nat option \<times> string) option" where
  "gelung_ipv6 0 s gs e = Some (gs, e, s)"
| "gelung_ipv6 (Suc n) s gs e =
     (case kelompok_hex s 0 0 of
        None \<Rightarrow> None
      | Some (v, k, r) \<Rightarrow>
          if k = 0 then None
          else if r \<noteq> [] \<and> hd r = CHR ''.'' then
            (if e = None \<and> length gs \<noteq> 6 then None
             else if 6 < length gs then None
             else case bidang_ipv4 s 0 0 [] of
                    Some [a, b, c, d] \<Rightarrow> Some (gs @ [a * 256 + b, c * 256 + d], e, [])
                  | _ \<Rightarrow> None)
          else
            (case r of
               [] \<Rightarrow> Some (gs @ [v], e, [])
             | c # r' \<Rightarrow>
                 if c \<noteq> CHR '':'' \<or> r' = [] then None
                 else if hd r' = CHR '':'' then
                   (if e \<noteq> None then None
                    else if tl r' = [] then Some (gs @ [v], Some (Suc (length gs)), [])
                    else gelung_ipv6 n (tl r') (gs @ [v]) (Some (Suc (length gs))))
                 else gelung_ipv6 n r' (gs @ [v]) e))"

definition susun_ipv6 :: "int list \<Rightarrow> string \<Rightarrow> alamat" where
  "susun_ipv6 gs z = V6 (word_of_int (foldl (\<lambda>n k. n * 65536 + k) 0 gs)) z"

definition parse_ipv6 :: "string \<Rightarrow> alamat option" where
  "parse_ipv6 s0 =
     (let (s, z) = (case index_byte s0 CHR ''%'' of None \<Rightarrow> (s0, None) | Some i \<Rightarrow> (take i s0, Some (drop (Suc i) s0)))
      in if z = Some [] then None
         else let z = (case z of None \<Rightarrow> [] | Some z \<Rightarrow> z);
                  (e, s) = (if has_prefix s ''::'' then (Some 0, drop 2 s) else (None, s))
              in if e = Some 0 \<and> s = [] then Some (V6 0 z)
                 else case gelung_ipv6 8 s [] e of
                        None \<Rightarrow> None
                      | Some (gs, e, r) \<Rightarrow>
                          if r \<noteq> [] then None
                          else if length gs < 8 then
                            (case e of None \<Rightarrow> None
                             | Some k \<Rightarrow> Some (susun_ipv6 (take k gs @ replicate (8 - length gs) 0 @ drop k gs) z))
                          else if e \<noteq> None then None
                          else Some (susun_ipv6 gs z))"

fun parse_addr_loop :: "string \<Rightarrow> string \<Rightarrow> alamat option" where
  "parse_addr_loop s [] = None"
| "parse_addr_loop s (c # cs) =
     (if c = CHR ''.'' then
        (case bidang_ipv4 s 0 0 [] of Some [a, b, c, d] \<Rightarrow> Some (ip4 a b c d) | _ \<Rightarrow> None)
      else if c = CHR '':'' then parse_ipv6 s
      else if c = CHR ''%'' then None
      else parse_addr_loop s cs)"

definition parse_addr :: "string \<Rightarrow> alamat option" where
  "parse_addr s = parse_addr_loop s s"

section \<open>Operator exceptions\<close>

text \<open>\<^verbatim>\<open>netip.ParsePrefix\<close>: no zone, a length without leading zeros within the family.\<close>

fun angka :: "string \<Rightarrow> nat" where
  "angka s = foldl (\<lambda>n c. n * 10 + (of_char c - 48)) 0 s"

definition last_index_byte :: "string \<Rightarrow> char \<Rightarrow> nat option" where
  "last_index_byte s c = map_option (\<lambda>i. length s - Suc i) (index_byte (rev s) c)"

fun ber_zona :: "alamat \<Rightarrow> bool" where
  "ber_zona (V4 v) = False"
| "ber_zona (V6 w z) = (z \<noteq> [])"

definition bit_len :: "alamat \<Rightarrow> nat" where
  "bit_len a = (if is4 a then 32 else 128)"

definition parse_prefix :: "string \<Rightarrow> awalan option" where
  "parse_prefix s =
     (case last_index_byte s CHR ''/'' of
        None \<Rightarrow> None
      | Some i \<Rightarrow>
          (case parse_addr (take i s) of
             None \<Rightarrow> None
           | Some a \<Rightarrow>
               let b = drop (Suc i) s
               in if ber_zona a \<or> b = [] \<or> \<not> list_all aksara_angka b \<or> (1 < length b \<and> hd b = CHR ''0'')
                     \<or> bit_len a < angka b then None
                  else Some (Awalan a (angka b))))"

text \<open>\<^verbatim>\<open>Prefix.Masked\<close> and \<^verbatim>\<open>netip.PrefixFrom\<close>, which strips the zone.\<close>

fun masked :: "awalan \<Rightarrow> awalan" where
  "masked (Awalan (V4 v) n) = Awalan (V4 (push_bit (32 - n) (drop_bit (32 - n) v))) n"
| "masked (Awalan (V6 w z) n) = Awalan (V6 (push_bit (128 - n) (drop_bit (128 - n) w)) []) n"

fun tanpa_zona :: "alamat \<Rightarrow> alamat" where
  "tanpa_zona (V4 v) = V4 v"
| "tanpa_zona (V6 w z) = V6 w []"

text \<open>\<^verbatim>\<open>ParsePrivateAddrs\<close>; \<^const>\<open>None\<close> is its error.\<close>

fun parse_private_addrs :: "string list \<Rightarrow> awalan list option" where
  "parse_private_addrs [] = Some []"
| "parse_private_addrs (v0 # vs) =
     (let v = trim_space v0
      in if v = [] then parse_private_addrs vs
         else case parse_prefix v of
                Some pfx \<Rightarrow> map_option (Cons (masked pfx)) (parse_private_addrs vs)
              | None \<Rightarrow>
                  (case parse_addr v of
                     None \<Rightarrow> None
                   | Some a \<Rightarrow>
                       let a = unmap4in6 a
                       in map_option (Cons (Awalan (tanpa_zona a) (bit_len a))) (parse_private_addrs vs)))"

section \<open>The first layer: saved URLs\<close>

text \<open>
  What the code reads of a parsed URL: its scheme (lower case, as \<^verbatim>\<open>url.Parse\<close> leaves it), whether it has
  a userinfo part, and its host.  The parser is the argument \<open>U\<close>; \<^const>\<open>None\<close> is its error.
\<close>

record url_terurai =
  ur_scheme :: string
  ur_user :: bool
  ur_host :: string

type_synonym pengurai = "string \<Rightarrow> url_terurai option"

text \<open>\<^verbatim>\<open>URL.Hostname\<close>: without port and brackets.\<close>

definition valid_optional_port :: "string \<Rightarrow> bool" where
  "valid_optional_port s \<longleftrightarrow> (case s of [] \<Rightarrow> True | c # cs \<Rightarrow> c = CHR '':'' \<and> list_all aksara_angka cs)"

definition hostname :: "string \<Rightarrow> string" where
  "hostname hp =
     (let h = (case last_index_byte hp CHR '':'' of
                 None \<Rightarrow> hp
               | Some i \<Rightarrow> if valid_optional_port (drop i hp) then take i hp else hp)
      in if h \<noteq> [] \<and> hd h = CHR ''['' \<and> last h = CHR '']'' then butlast (tl h) else h)"

definition has_suffix :: "string \<Rightarrow> string \<Rightarrow> bool" where
  "has_suffix s p = has_prefix (rev s) (rev p)"

definition trim_suffix :: "string \<Rightarrow> string \<Rightarrow> string" where
  "trim_suffix s p = (if has_suffix s p then take (length s - length p) s else s)"

definition tampak_numerik :: "string \<Rightarrow> bool" where
  "tampak_numerik h =
     (if h = [] then False
      else if contains h ''0x'' \<or> contains h ''0X'' then True
      else list_all (\<lambda>c. aksara_angka c \<or> c = CHR ''.'' \<or> c = CHR '':'') h)"

definition is_obvious_local_name :: "string \<Rightarrow> bool" where
  "is_obvious_local_name host =
     (let h = to_lower (trim_suffix host ''.'')
      in h = ''localhost'' \<or> has_suffix h ''.localhost'' \<or> h = ''localhost.localdomain'')"

text \<open>The part \<^verbatim>\<open>ValidateBaseURL\<close> and \<^verbatim>\<open>ValidateProxyURL\<close> share, from the host name on.\<close>

definition periksa_nama_host :: "ssrf_policy \<Rightarrow> string \<Rightarrow> galat_ssrf option" where
  "periksa_nama_host p h0 =
     (if h0 = [] then Some UrlTidakSah
      else let host = trim_suffix h0 ''.''
           in case parse_addr host of
                Some a \<Rightarrow> check_addr p a
              | None \<Rightarrow>
                  if tampak_numerik host then Some AlamatTerlarang
                  else if is_obvious_local_name host \<and> \<not> allows_loopback_name p then Some AlamatTerlarang
                  else None)"

definition validate_base_url :: "pengurai \<Rightarrow> ssrf_policy \<Rightarrow> string \<Rightarrow> galat_ssrf option" where
  "validate_base_url U p raw =
     (case U (trim_space raw) of
        None \<Rightarrow> Some UrlTidakSah
      | Some u \<Rightarrow>
          if ur_scheme u \<noteq> ''https'' \<and> \<not> (ur_scheme u = ''http'' \<and> sp_allow_http p) then Some SkemaTerlarang
          else if ur_host u = [] then Some UrlTidakSah
          else if ur_user u then Some KredensialDiUrl
          else periksa_nama_host p (hostname (ur_host u)))"

definition validate_proxy_url :: "pengurai \<Rightarrow> ssrf_policy \<Rightarrow> string \<Rightarrow> galat_ssrf option" where
  "validate_proxy_url U p raw =
     (case U (trim_space raw) of
        None \<Rightarrow> Some UrlTidakSah
      | Some u \<Rightarrow>
          if ur_scheme u \<notin> {''https'', ''http'', ''socks5'', ''socks5h''} then Some SkemaTerlarang
          else if ur_host u = [] then Some UrlTidakSah
          else periksa_nama_host p (hostname (ur_host u)))"

section \<open>The second layer: the address contacted\<close>

text \<open>\<^verbatim>\<open>net.SplitHostPort\<close>, the host only.\<close>

definition split_host_port :: "string \<Rightarrow> string option" where
  "split_host_port hp =
     (case last_index_byte hp CHR '':'' of
        None \<Rightarrow> None
      | Some i \<Rightarrow>
          if hd hp = CHR ''['' then
            (case index_byte hp CHR '']'' of
               None \<Rightarrow> None
             | Some e \<Rightarrow>
                 if Suc e \<noteq> i then None
                 else if CHR ''['' \<in> set (drop 1 hp) \<or> CHR '']'' \<in> set (drop (Suc e) hp) then None
                 else Some (take (e - 1) (drop 1 hp)))
          else if CHR '':'' \<in> set (take i hp) then None
          else if CHR ''['' \<in> set hp \<or> CHR '']'' \<in> set hp then None
          else Some (take i hp))"

text \<open>\<^verbatim>\<open>NewSSRFControl\<close>: called with the address a socket is about to connect to.\<close>

definition ssrf_control :: "ssrf_policy \<Rightarrow> string \<Rightarrow> string \<Rightarrow> galat_ssrf option" where
  "ssrf_control p network address =
     (if network \<notin> {''tcp'', ''tcp4'', ''tcp6''} then Some AlamatTerlarang
      else case split_host_port address of
             None \<Rightarrow> Some AlamatTerlarang
           | Some h \<Rightarrow> (case parse_addr h of None \<Rightarrow> Some AlamatTerlarang | Some a \<Rightarrow> check_addr p a))"

text \<open>
  \<^verbatim>\<open>PeriksaHostTujuan\<close>, for destinations reached through a forward proxy: \<open>R\<close> resolves a name
  (\<^const>\<open>None\<close> is a failed lookup); a resolved address that \<^verbatim>\<open>netip.AddrFromSlice\<close> cannot read is \<^const>\<open>None\<close>.
\<close>

fun periksa_semua :: "ssrf_policy \<Rightarrow> alamat option list \<Rightarrow> galat_ssrf option" where
  "periksa_semua p [] = None"
| "periksa_semua p (None # as) = Some AlamatTerlarang"
| "periksa_semua p (Some a # as) = (case check_addr p a of Some e \<Rightarrow> Some e | None \<Rightarrow> periksa_semua p as)"

definition periksa_host_tujuan ::
    "pengurai \<Rightarrow> (string \<Rightarrow> alamat option list option) \<Rightarrow> ssrf_policy \<Rightarrow> string \<Rightarrow> galat_ssrf option" where
  "periksa_host_tujuan U R p raw =
     (case U (trim_space raw) of
        None \<Rightarrow> Some UrlTidakSah
      | Some u \<Rightarrow>
          let host = trim_suffix (hostname (ur_host u)) ''.''
          in if host = [] then Some UrlTidakSah
             else case parse_addr host of
                    Some a \<Rightarrow> check_addr p a
                  | None \<Rightarrow>
                      (case R host of
                         None \<Rightarrow> Some AlamatTerlarang
                       | Some as \<Rightarrow> if as = [] then Some AlamatTerlarang else periksa_semua p as))"

section \<open>Prefixes as intervals\<close>

text \<open>
  The reference for the prefix list: the reserved ranges as intervals of numbers, neighbours merged.
\<close>

definition dalam :: "(int \<times> int) list \<Rightarrow> int \<Rightarrow> bool" where
  "dalam rs x \<longleftrightarrow> list_ex (\<lambda>(l, h). l \<le> x \<and> x < h) rs"

definition kuad :: "int \<Rightarrow> int \<Rightarrow> int \<Rightarrow> int" where
  "kuad a b c = ((a * 256 + b) * 256 + c) * 256"

definition rentang4 :: "(int \<times> int) list" where
  "rentang4 =
     [(0, kuad 1 0 0), (kuad 10 0 0, kuad 11 0 0), (kuad 100 64 0, kuad 100 128 0), (kuad 127 0 0, kuad 128 0 0),
      (kuad 169 254 0, kuad 169 255 0), (kuad 172 16 0, kuad 172 32 0), (kuad 192 0 0, kuad 192 0 1),
      (kuad 192 0 2, kuad 192 0 3), (kuad 192 168 0, kuad 192 169 0), (kuad 198 18 0, kuad 198 20 0),
      (kuad 198 51 100, kuad 198 51 101), (kuad 203 0 113, kuad 203 0 114), (kuad 224 0 0, 2 ^ 32)]"

definition rentang6 :: "(int \<times> int) list" where
  "rentang6 =
     [(0, 2 ^ 32), (0x64FF9B * 2 ^ 96, 0x64FF9B * 2 ^ 96 + 2 ^ 32),
      (0x64FF9B0001 * 2 ^ 80, 0x64FF9B0002 * 2 ^ 80), (0x20010000 * 2 ^ 96, 0x20010001 * 2 ^ 96),
      (0x20010DB8 * 2 ^ 96, 0x20010DB9 * 2 ^ 96), (0x2002 * 2 ^ 112, 0x2003 * 2 ^ 112),
      (0xFC00 * 2 ^ 112, 0xFE00 * 2 ^ 112), (0xFE80 * 2 ^ 112, 0xFEC0 * 2 ^ 112), (0xFF00 * 2 ^ 112, 2 ^ 128)]"

text \<open>
  Addresses outside the reserved ranges, and the classes the library knows, which are smaller.  No prefix holds an
  address with a zone, so such an address is only asked for those classes.
\<close>

definition kelas_khusus :: "alamat \<Rightarrow> bool" where
  "kelas_khusus a \<longleftrightarrow> is_loopback a \<or> is_link_local_unicast a \<or> is_link_local_multicast a
     \<or> is_interface_local_multicast a \<or> is_unspecified a"

fun umum :: "alamat \<Rightarrow> bool" where
  "umum (V4 v) \<longleftrightarrow> \<not> dalam rentang4 (uint v)"
| "umum (V6 w z) \<longleftrightarrow> \<not> dalam rentang6 (uint w)"

fun berzona :: "alamat \<Rightarrow> bool" where
  "berzona (V4 v) \<longleftrightarrow> False"
| "berzona (V6 w z) \<longleftrightarrow> z \<noteq> []"

lemma div_interval: "0 < (m::int) \<Longrightarrow> x div m = k \<longleftrightarrow> k * m \<le> x \<and> x < (k + 1) * m"
proof
  assume "0 < m" "x div m = k"
  then have "x = k * m + x mod m" "0 \<le> x mod m" "x mod m < m" by (auto simp: mult_div_mod_eq)
  then show "k * m \<le> x \<and> x < (k + 1) * m" by (simp add: distrib_right)
next
  assume "0 < m" "k * m \<le> x \<and> x < (k + 1) * m"
  then show "x div m = k"
    by (intro int_div_pos_eq [of _ _ _ "x - k * m"]) (simp_all add: algebra_simps)
qed

lemma uint_drop_bit: "uint (drop_bit n w) = uint w div 2 ^ n" for w :: "'a::len word"
  by (simp only: uint_nat unat_drop_bit_eq) (simp add: drop_bit_eq_div zdiv_int)

lemma drop_bit_interval:
  fixes w :: "'a::len word"
  assumes "0 \<le> k" "k < 2 ^ LENGTH('a)"
  shows "drop_bit n w = word_of_int k \<longleftrightarrow> k * 2 ^ n \<le> uint w \<and> uint w < (k + 1) * 2 ^ n"
proof -
  note uint_drop_bit [of n w]
  moreover have "uint (word_of_int k :: 'a word) = k"
    using assms by (simp add: uint_word_of_int)
  ultimately show ?thesis
    by (simp add: div_interval word_uint_eq_iff)
qed


lemma xor_interval:
  fixes a p :: "'a::len word"
  shows "drop_bit n (a XOR p) = 0 \<longleftrightarrow> (let k = uint p div 2 ^ n in k * 2 ^ n \<le> uint a \<and> uint a < (k + 1) * 2 ^ n)"
proof -
  have x0: "x XOR y = 0 \<longleftrightarrow> x = y" for x y :: "'a word"
    by (metis xor.assoc xor_self_eq xor.right_neutral)
  have "drop_bit n (a XOR p) = 0 \<longleftrightarrow> drop_bit n a = drop_bit n p"
    by (simp only: drop_bit_xor x0)
  also have "\<dots> \<longleftrightarrow> uint a div 2 ^ n = uint p div 2 ^ n"
    by (simp only: word_uint_eq_iff uint_drop_bit)
  finally show ?thesis by (simp add: div_interval Let_def)
qed



lemma memuat_interval [ssrf_simps]:
  "memuat (Awalan (V4 p) n) (V4 a) \<longleftrightarrow>
     (let k = uint p div 2 ^ (32 - n) in k * 2 ^ (32 - n) \<le> uint a \<and> uint a < (k + 1) * 2 ^ (32 - n))"
  "memuat (Awalan (V6 q z') n) (V6 b z) \<longleftrightarrow>
     z = [] \<and> (let k = uint q div 2 ^ (128 - n) in k * 2 ^ (128 - n) \<le> uint b \<and> uint b < (k + 1) * 2 ^ (128 - n))"
  by (simp_all only: memuat.simps xor_interval)

lemmas daftar_simps = blocked_prefixes_def ip4_def ip6_def dalam_def rentang4_def rentang6_def kuad_def ssrf_simps
  Let_def uint_word_of_int


lemma blocked4: "list_ex (\<lambda>q. is4 (aw_addr q) = is4 (V4 v) \<and> memuat q (V4 v)) blocked_prefixes \<longleftrightarrow> dalam rentang4 (uint v)"
proof -
  have u: "uint v < 2 ^ 32" "0 \<le> uint v" using uint_lt2p [of v] by simp_all
  then have "(3758096384 \<le> uint v \<and> uint v < 4026531840) \<or> 4026531840 \<le> uint v \<or> 4294967295 \<le> uint v \<longleftrightarrow> 3758096384 \<le> uint v"
    by auto
  with u show ?thesis
    by (simp add: daftar_simps del: memuat.simps)
qed
lemma blocked6: "list_ex (\<lambda>q. is4 (aw_addr q) = is4 (V6 w []) \<and> memuat q (V6 w [])) blocked_prefixes \<longleftrightarrow> dalam rentang6 (uint w)"
proof -
  have "uint w < 2 ^ 128" "0 \<le> uint w" using uint_lt2p [of w] by simp_all
  moreover from this have "uint w = 0 \<or> 1 \<le> uint w \<and> uint w \<le> 1 \<or> uint w < 4294967296 \<longleftrightarrow> uint w < 4294967296" by auto
  ultimately show ?thesis
    by (simp add: daftar_simps del: memuat.simps) blast
qed

lemma blocked6_zone: "z \<noteq> [] \<Longrightarrow> \<not> list_ex (\<lambda>q. is4 (aw_addr q) = is4 (V6 w z) \<and> memuat q (V6 w z)) blocked_prefixes"
  by (simp add: blocked_prefixes_def ip4_def ip6_def)

lemma unmap4in6_simps [simp]:
  "unmap4in6 (V4 v) = V4 v"
  "drop_bit 32 w = 0xFFFF \<Longrightarrow> unmap4in6 (V6 w z) = V4 (ucast w)"
  "drop_bit 32 w \<noteq> 0xFFFF \<Longrightarrow> unmap4in6 (V6 w z) = V6 w z"
  by (simp_all add: unmap4in6_def)

lemma unmap4in6_idem [simp]: "unmap4in6 (unmap4in6 a) = unmap4in6 a"
  by (cases a) (auto simp: unmap4in6_def)


text \<open>The classes \<^verbatim>\<open>netip\<close> knows are already inside the prefixes.\<close>


lemma dalamI: "(l, h) \<in> set rs \<Longrightarrow> l \<le> x \<Longrightarrow> x < h \<Longrightarrow> dalam rs x"
  by (auto simp: dalam_def list_ex_iff)

lemma drop_bit_range:
  fixes w :: "'a::len word"
  assumes "drop_bit n w = word_of_int k" "0 \<le> k" "k < 2 ^ LENGTH('a)"
  shows "k * 2 ^ n \<le> uint w" "uint w < (k + 1) * 2 ^ n"
  using assms drop_bit_interval [where k=k and w=w and n=n] by blast+

lemma khusus4: "kelas_khusus (V4 v) \<Longrightarrow> dalam rentang4 (uint v)"
  unfolding kelas_khusus_def is_unspecified_def
proof (elim disjE)
  assume "is_loopback (V4 v)"
  then show ?thesis
    using drop_bit_range [where k=127 and w=v and n=24]
    by (intro dalamI [of "kuad 127 0 0" "kuad 128 0 0"]) (simp_all add: rentang4_def kuad_def)
next
  assume "is_link_local_unicast (V4 v)"
  then show ?thesis
    using drop_bit_range [where k=43518 and w=v and n=16]
    by (intro dalamI [of "kuad 169 254 0" "kuad 169 255 0"]) (simp_all add: rentang4_def kuad_def)
next
  assume "is_link_local_multicast (V4 v)"
  then show ?thesis
    using drop_bit_range [where k=14680064 and w=v and n=8] uint_lt2p [of v]
    by (intro dalamI [of "kuad 224 0 0" "2 ^ 32"]) (simp_all add: rentang4_def kuad_def)
qed (simp_all add: dalam_def rentang4_def kuad_def)

lemma multicast_atas:
  fixes w :: "128 word"
  assumes "drop_bit 112 w AND 0xFF0F = k" "0xFF00 \<le> uint k"
  shows "0xFF00 * 2 ^ 112 \<le> uint w"
proof -
  have "k \<le> drop_bit 112 w" using word_and_le2 [of "drop_bit 112 w" "0xFF0F"] assms(1) by (simp add: and.commute)
  then have "uint k \<le> uint w div 2 ^ 112" by (simp only: word_le_def uint_drop_bit)
  with assms(2) have "0xFF00 \<le> uint w div 2 ^ 112" by simp
  then show ?thesis by simp
qed


lemma khusus6: "kelas_khusus (V6 w z) \<Longrightarrow> dalam rentang6 (uint w)"
  unfolding kelas_khusus_def is_unspecified_def
proof (elim disjE)
  assume "is_link_local_unicast (V6 w z)"
  then show ?thesis
    using drop_bit_range [where k="0x3FA" and w=w and n=118]
    by (intro dalamI [of "0xFE80 * 2 ^ 112" "0xFEC0 * 2 ^ 112"]) (simp_all add: rentang6_def)
next
  assume "is_link_local_multicast (V6 w z)"
  then show ?thesis
    using multicast_atas [of w "0xFF02"] uint_lt2p [of w]
    by (intro dalamI [of "0xFF00 * 2 ^ 112" "2 ^ 128"]) (simp_all add: rentang6_def)
next
  assume "is_interface_local_multicast (V6 w z)"
  then show ?thesis
    using multicast_atas [of w "0xFF01"] uint_lt2p [of w]
    by (intro dalamI [of "0xFF00 * 2 ^ 112" "2 ^ 128"]) (simp_all add: rentang6_def)
qed (simp_all add: dalam_def rentang6_def)

text \<open>
  \<^verbatim>\<open>CheckAddr\<close> accepts exactly the addresses outside the reserved ranges, the operator's exceptions, and those
  with a zone that are of no special class, whatever range they are in.
\<close>

lemma check_addr_verdict:
  "check_addr p a = None \<longleftrightarrow> sp_allow_private p \<or> allows_addr p a \<or>
     (if berzona (unmap4in6 a) then \<not> kelas_khusus (unmap4in6 a) else umum (unmap4in6 a))"
proof -
  let ?a = "unmap4in6 a"
  have "allows_addr p ?a = allows_addr p a" by (simp add: allows_addr_def)
  moreover have "list_ex (\<lambda>q. is4 (aw_addr q) = is4 ?a \<and> memuat q ?a) blocked_prefixes \<or> kelas_khusus ?a \<longleftrightarrow>
      \<not> (if berzona ?a then \<not> kelas_khusus ?a else umum ?a)"
  proof (cases ?a)
    case (V4 v)
    then show ?thesis using khusus4 [of v] blocked4 [of v] by (auto simp del: is4.simps)
  next
    case (V6 w z)
    then show ?thesis
      using khusus6 [of w z] blocked6 [of w] blocked6_zone [of z w] by (cases "z = []") (auto simp del: is4.simps)
  qed
  ultimately show ?thesis
    by (auto simp: check_addr_def Let_def kelas_khusus_def)
qed

section \<open>Addresses that stand for others\<close>

text \<open>IPv6 addresses that stand for an IPv4 address: wrapped, compatible, NAT64 and its local form, 6to4, Teredo.\<close>

definition menanam :: "128 word \<Rightarrow> 32 word \<Rightarrow> bool" where
  "menanam w v \<longleftrightarrow>
     (drop_bit 32 w \<in> {0xFFFF, 0, 0x64FF9B * 2 ^ 64} \<and> ucast w = v)
     \<or> (drop_bit 80 w = 0x64FF9B0001
        \<and> (ucast w = v \<or> push_bit 16 (take_bit 16 (ucast (drop_bit 64 w))) OR take_bit 16 (ucast (drop_bit 40 w)) = v))
     \<or> (drop_bit 112 w = 0x2002 \<and> ucast (drop_bit 80 w) = v)
     \<or> (drop_bit 96 w = 0x20010000 \<and> ucast w = NOT v)"


lemma menanam_range:
  assumes "menanam w v"
  shows "drop_bit 32 w = 0xFFFF \<and> ucast w = v \<or> drop_bit 32 w \<noteq> 0xFFFF \<and> dalam rentang6 (uint w)"
proof -
  have mapped: "drop_bit 32 w = 0xFFFF \<Longrightarrow> uint w < 2 ^ 48"
    using drop_bit_range [where k="0xFFFF" and w=w and n=32] by simp
  consider (mapped) "drop_bit 32 w = 0xFFFF" "ucast w = v" | (compat) "drop_bit 32 w = word_of_int 0"
    | (nat64) "drop_bit 32 w = word_of_int (0x64FF9B * 2 ^ 64)" | (local) "drop_bit 80 w = word_of_int 0x64FF9B0001"
    | (to4) "drop_bit 112 w = word_of_int 0x2002" | (teredo) "drop_bit 96 w = word_of_int 0x20010000"
    using assms by (auto simp: menanam_def)
  then show ?thesis
  proof cases
    case mapped then show ?thesis by simp
  next
    case compat
    from drop_bit_range [OF this] have "dalam rentang6 (uint w)"
      by (intro dalamI [of 0 "2 ^ 32"]) (simp_all add: rentang6_def)
    with compat show ?thesis by simp
  next
    case nat64
    note r = drop_bit_range [OF this]
    then have "dalam rentang6 (uint w)"
      by (intro dalamI [of "0x64FF9B * 2 ^ 96" "0x64FF9B * 2 ^ 96 + 2 ^ 32"]) (simp_all add: rentang6_def)
    with r mapped show ?thesis by auto
  next
    case local
    note r = drop_bit_range [OF this]
    then have "dalam rentang6 (uint w)"
      by (intro dalamI [of "0x64FF9B0001 * 2 ^ 80" "0x64FF9B0002 * 2 ^ 80"]) (simp_all add: rentang6_def)
    with r mapped show ?thesis by auto
  next
    case to4
    note r = drop_bit_range [OF this]
    then have "dalam rentang6 (uint w)"
      by (intro dalamI [of "0x2002 * 2 ^ 112" "0x2003 * 2 ^ 112"]) (simp_all add: rentang6_def)
    with r mapped show ?thesis by auto
  next
    case teredo
    note r = drop_bit_range [OF this]
    then have "dalam rentang6 (uint w)"
      by (intro dalamI [of "0x20010000 * 2 ^ 96" "0x20010001 * 2 ^ 96"]) (simp_all add: rentang6_def)
    with r mapped show ?thesis by auto
  qed
qed

text \<open>What passes because of a zone: every address the library classes do not name.\<close>

lemma zone_passes:
  "z \<noteq> [] \<Longrightarrow> drop_bit 32 w \<noteq> 0xFFFF \<Longrightarrow> \<not> kelas_khusus (V6 w z) \<Longrightarrow> check_addr p (V6 w z) = None"
  by (simp add: check_addr_verdict)

section \<open>Properties\<close>

text \<open>C23. No disguise: an IPv6 address without zone that stands for a refused IPv4 address, in any of the
  wrapped, compatible, NAT64, local NAT64, 6to4 and Teredo forms, is refused as well, unless the operator
  excepted that very IPv6 address.\<close>

lemma ssrf_no_disguise:
  assumes "menanam w v" "check_addr p (V4 v) \<noteq> None" "\<not> allows_addr p (V6 w [])"
  shows "check_addr p (V6 w []) = Some AlamatTerlarang"
proof -
  have "check_addr p (V6 w []) \<noteq> None"
    using menanam_range [OF assms(1)]
  proof (elim disjE conjE)
    assume "drop_bit 32 w = 0xFFFF" "ucast w = v"
    with assms(2,3) show ?thesis by (simp add: check_addr_verdict)
  next
    assume "drop_bit 32 w \<noteq> 0xFFFF" "dalam rentang6 (uint w)"
    with assms(2,3) show ?thesis by (simp add: check_addr_verdict)
  qed
  then show ?thesis by (auto simp: check_addr_def Let_def split: if_splits)
qed

lemma ssrf_no_disguise_witness:
  "menanam 0x64FF9B0000000000000000A9FEA9FE 0xA9FEA9FE
   \<and> check_addr default_ssrf_policy (V6 0x64FF9B0000000000000000A9FEA9FE []) = Some AlamatTerlarang"
proof -
  have "menanam 0x64FF9B0000000000000000A9FEA9FE 0xA9FEA9FE" by code_simp
  moreover have "check_addr default_ssrf_policy (V4 0xA9FEA9FE) \<noteq> None"
    by (simp add: check_addr_verdict allows_addr_def default_ssrf_policy_def dalam_def rentang4_def kuad_def)
  moreover have "\<not> allows_addr default_ssrf_policy (V6 0x64FF9B0000000000000000A9FEA9FE [])"
    by (simp add: allows_addr_def default_ssrf_policy_def)
  ultimately show ?thesis using ssrf_no_disguise by blast
qed

text \<open>C30. Screening of saved URLs: an accepted URL is https (or http, where the operator allows it), carries
  no credentials, and its host is an address or a name.  A name is neither a number in disguise nor, unless loopback is
  excepted, a name of this machine.  An address without a zone is outside every reserved range, unless the operator
  excepted it or allows private addresses.  An address with a zone escapes the ranges: of it the code only ensures
  that it is not loopback, link-local, interface-local multicast or unspecified (\<open>zone_bypass\<close> below shows what
  gets through).\<close>

lemma base_url_screened:
  assumes "validate_base_url U p raw = None"
  shows "\<exists>u. U (trim_space raw) = Some u \<and> \<not> ur_user u
    \<and> (ur_scheme u = ''https'' \<or> ur_scheme u = ''http'' \<and> sp_allow_http p)
    \<and> (case parse_addr (trim_suffix (hostname (ur_host u)) ''.'') of
         Some a \<Rightarrow> sp_allow_private p \<or> allows_addr p a \<or>
           (if berzona (unmap4in6 a) then \<not> kelas_khusus (unmap4in6 a) else umum (unmap4in6 a))
       | None \<Rightarrow> \<not> tampak_numerik (trim_suffix (hostname (ur_host u)) ''.'')
           \<and> (if is_obvious_local_name (trim_suffix (hostname (ur_host u)) ''.'') then allows_loopback_name p else True))"
  using assms
  by (auto simp: validate_base_url_def periksa_nama_host_def Let_def check_addr_verdict split: option.splits if_splits)

lemma base_url_screened_witness:
  "let U = (\<lambda>s. Some \<lparr>ur_scheme = ''https'', ur_user = False, ur_host = ''8.8.8.8:443''\<rparr>)
   in validate_base_url U default_ssrf_policy ''https://8.8.8.8:443/v1'' = None \<and> umum (ip4 8 8 8 8)"
proof -
  let ?U = "\<lambda>s::string. Some \<lparr>ur_scheme = ''https'', ur_user = False, ur_host = ''8.8.8.8:443''\<rparr>"
  have a: "validate_base_url ?U default_ssrf_policy ''https://8.8.8.8:443/v1'' = None" by code_simp
  have b: "parse_addr (trim_suffix (hostname ''8.8.8.8:443'') ''.'') = Some (ip4 8 8 8 8)" by code_simp
  have "umum (ip4 8 8 8 8)"
    using base_url_screened [OF a] b by (auto simp: default_ssrf_policy_def allows_addr_def ip4_def)
  with a show ?thesis by (simp add: Let_def)
qed

text \<open>
  A literal with a zone is read and passes both layers: the unique-local address \<^verbatim>\<open>fd00::1\<close> is refused, the
  same address written \<^verbatim>\<open>[fd00::1%eth0]\<close> is not.
\<close>

lemma zone_bypass:
  "let U = (\<lambda>s. Some \<lparr>ur_scheme = ''https'', ur_user = False, ur_host = s\<rparr>)
   in validate_base_url U default_ssrf_policy ''[fd00::1]'' = Some AlamatTerlarang
      \<and> validate_base_url U default_ssrf_policy ''[fd00::1%eth0]'' = None
      \<and> ssrf_control default_ssrf_policy ''tcp6'' ''[fd00::1%eth0]:443'' = None"
  by code_simp

end
