(* ===== verification/Webhook_Text.thy ===== *)
theory Webhook_Text
  imports Json Ssrf
begin

text \<open>
  The pure parts of \<^verbatim>\<open>internal/webhooks/dispatcher.go\<close>: the backoff between attempts, what is hidden
  from stored texts (secrets and the tokens in the path of a URL), the body that is sent and its
  signature.  HMAC-SHA256 is an argument; a message or a digest is a list of bytes.
\<close>

section \<open>Backoff\<close>

definition default_base_backoff :: durasi where "default_base_backoff = 2 * detik"
definition max_webhook_backoff :: durasi where "max_webhook_backoff = jam"

text \<open>
  \<^verbatim>\<open>CalculateBackoff\<close>; the shift is that of a 64-bit duration, and \<open>acak\<close> is the jitter function.
\<close>

definition calculate_backoff :: "int \<Rightarrow> durasi \<Rightarrow> durasi \<Rightarrow> (int \<Rightarrow> int) \<Rightarrow> durasi" where
  "calculate_backoff attempt base maks acak =
     (if base \<le> 0 \<or> attempt < 1 then 0
      else let geser = nat (min (attempt - 1) 20);
               d0 = wrap64 (base * 2 ^ geser);
               d = (if d0 \<le> 0 \<or> maks < d0 then maks else d0);
               separuh = go_div d 2
           in if separuh \<le> 0 then d else wrap64 (separuh + acak separuh))"

text \<open>\<^verbatim>\<open>defaultCryptoRandJitter\<close>: eight random bytes, \<^const>\<open>None\<close> when the source fails.\<close>

definition default_crypto_rand_jitter :: "64 word option \<Rightarrow> int \<Rightarrow> int" where
  "default_crypto_rand_jitter b n =
     (if n \<le> 0 then 0
      else case b of None \<Rightarrow> 0 | Some w \<Rightarrow> go_mod (uint (and w 0x7FFFFFFFFFFFFFFF)) n)"

definition dispatcher_backoff :: "(int \<Rightarrow> int) \<Rightarrow> int \<Rightarrow> durasi" where
  "dispatcher_backoff acak attempt = calculate_backoff attempt default_base_backoff max_webhook_backoff acak"

section \<open>Masks\<close>

definition mask_secret :: "string \<Rightarrow> string" where
  "mask_secret secret =
     (let s = trim_space secret
      in if length s < 12 then ''whsec_****'' else ''whsec_****'' @ drop (length s - 4) s)"

definition is_letter :: "char \<Rightarrow> bool" where
  "is_letter c \<longleftrightarrow> (let n = (of_char c :: nat) in (97 \<le> n \<and> n \<le> 122) \<or> (65 \<le> n \<and> n \<le> 90))"

definition is_hex_digit :: "char \<Rightarrow> bool" where
  "is_hex_digit c \<longleftrightarrow> digit_hex c \<noteq> None"

definition tampak_uuid :: "string \<Rightarrow> bool" where
  "tampak_uuid seg \<longleftrightarrow>
     length seg = 36 \<and>
     list_all (\<lambda>(i, c). if i \<in> {8, 13, 18, 23} then c = CHR ''-'' else is_hex_digit c) (zip [0..<36] seg)"

definition segmen_seperti_token :: "string \<Rightarrow> bool" where
  "segmen_seperti_token seg \<longleftrightarrow>
     \<not> (length seg < 24 \<or> tampak_uuid seg) \<and>
     list_all (\<lambda>c. is_letter c \<or> is_digit c \<or> c \<in> set ''-_.:'') seg \<and>
     list_ex is_letter seg \<and> list_ex is_digit seg"

text \<open>\<^verbatim>\<open>strings.Split\<close> by one byte and \<^verbatim>\<open>strings.Join\<close>.\<close>

fun split_byte :: "char \<Rightarrow> string \<Rightarrow> string list" where
  "split_byte c [] = [[]]"
| "split_byte c (x # xs) =
     (if x = c then [] # split_byte c xs
      else case split_byte c xs of [] \<Rightarrow> [[x]] | y # ys \<Rightarrow> (x # y) # ys)"

definition tersembunyi :: string where "tersembunyi = ''[TERSEMBUNYI]''"

text \<open>
  The first loop of \<^verbatim>\<open>samarkanPathToken\<close>: it writes two places ahead of where it reads, so a later
  step sees what an earlier one wrote.
\<close>

fun samarkan_discord :: "string list \<Rightarrow> string list" where
  "samarkan_discord (s # a # b # r) =
     (if s = ''webhooks'' \<and> b \<noteq> [] then s # samarkan_discord (a # tersembunyi # r)
      else s # samarkan_discord (a # b # r))"
| "samarkan_discord r = r"

definition samarkan_segmen :: "string \<Rightarrow> string" where
  "samarkan_segmen seg =
     (if seg = tersembunyi then seg
      else if has_prefix seg ''bot'' \<and> contains seg '':'' \<and> 12 < length seg then ''bot[TERSEMBUNYI]''
      else if segmen_seperti_token seg then tersembunyi
      else seg)"

definition samarkan_path_token :: "string \<Rightarrow> string" where
  "samarkan_path_token path =
     (if path = [] then path
      else gabung ''/'' (map samarkan_segmen (samarkan_discord (split_byte (CHR ''/'') path))))"

section \<open>The body and its signature\<close>

text \<open>\<^verbatim>\<open>json.Marshal\<close> of a map with one string entry.\<close>

definition bungkus :: "string \<Rightarrow> string \<Rightarrow> string" where
  "bungkus kunci teks = tulis_objek [(kunci, tulis_string teks)]"

definition lonceng :: string where "lonceng = [CHR 0xF0, CHR 0x9F, CHR 0x94, CHR 0x94]"

text \<open>\<open>judul\<close> is \<^verbatim>\<open>Alert\<close> for a delivery and \<^verbatim>\<open>Ping\<close> for a test.\<close>

definition body_final :: "string \<Rightarrow> string \<Rightarrow> string \<Rightarrow> string" where
  "body_final judul url payload =
     (if contains url ''discord.com/api/webhooks'' then
        bungkus ''content'' (lonceng @ '' **Route-X '' @ judul @ ''**'' @ [CHR 0x0A] @ ''```json'' @ [CHR 0x0A]
          @ payload @ [CHR 0x0A] @ ''```'')
      else if contains url ''api.telegram.org/bot'' then
        bungkus ''text'' (lonceng @ '' *Route-X '' @ judul @ ''*'' @ [CHR 0x0A] @ ''```json'' @ [CHR 0x0A]
          @ payload @ [CHR 0x0A] @ ''```'')
      else payload)"

definition hex_encode :: "string \<Rightarrow> string" where
  "hex_encode bs = concat (map (\<lambda>c. [hex_kecil (of_char c div 16), hex_kecil (of_char c)]) bs)"

fun hex_decode :: "string \<Rightarrow> string option" where
  "hex_decode [] = Some []"
| "hex_decode [c] = None"
| "hex_decode (a # b # r) =
     (case (digit_hex a, digit_hex b) of
        (Some x, Some y) \<Rightarrow> map_option (Cons (char_of (nat (x * 16 + y)))) (hex_decode r)
      | _ \<Rightarrow> None)"

type_synonym hmac = "string \<Rightarrow> string \<Rightarrow> string"

definition teks_tanda_tangan :: "string \<Rightarrow> int \<Rightarrow> string \<Rightarrow> string" where
  "teks_tanda_tangan timestamp delivery_id body = timestamp @ ''.'' @ show_int delivery_id @ ''.'' @ body"

definition sign_payload :: "hmac \<Rightarrow> string \<Rightarrow> string \<Rightarrow> int \<Rightarrow> string \<Rightarrow> string" where
  "sign_payload H secret timestamp delivery_id body = hex_encode (H secret (teks_tanda_tangan timestamp delivery_id body))"

definition trim_prefix :: "string \<Rightarrow> string \<Rightarrow> string" where
  "trim_prefix s p = (if has_prefix s p then drop (length p) s else s)"

definition verify_signature :: "hmac \<Rightarrow> string \<Rightarrow> string \<Rightarrow> string \<Rightarrow> int \<Rightarrow> string \<Rightarrow> bool" where
  "verify_signature H payload secret timestamp delivery_id sig_header =
     (case hex_decode (trim_prefix (trim_space sig_header) ''sha256='') of
        None \<Rightarrow> False
      | Some expected \<Rightarrow>
          (case hex_decode (sign_payload H secret timestamp delivery_id payload) of
             None \<Rightarrow> False
           | Some computed \<Rightarrow> computed = expected))"

text \<open>The request that goes out: what \<^verbatim>\<open>Dispatch\<close> and \<^verbatim>\<open>Ping\<close> set on it.\<close>

record kiriman =
  kr_url :: string
  kr_headers :: "(string \<times> string) list"
  kr_body :: string

definition susun_kiriman :: "hmac \<Rightarrow> string \<Rightarrow> string \<Rightarrow> string \<Rightarrow> int \<Rightarrow> string \<Rightarrow> int \<Rightarrow> string \<Rightarrow> kiriman" where
  "susun_kiriman H judul url secret delivery_id event unix payload =
     (let body = body_final judul url payload; ts = show_int unix
      in \<lparr>kr_url = url,
          kr_headers =
            [(''Content-Type'', ''application/json''), (''User-Agent'', ''Route-X-Webhook/1.0''),
             (''X-RouteX-Delivery'', show_int delivery_id), (''X-RouteX-Event'', event),
             (''X-RouteX-Timestamp'', ts),
             (''X-RouteX-Signature'', ''sha256='' @ sign_payload H secret ts delivery_id body)],
          kr_body = body\<rparr>)"

text \<open>\<^verbatim>\<open>security.WebhookAAD\<close>.\<close>

definition webhook_aad :: "string \<Rightarrow> string" where "webhook_aad webhook_id = ''webhook:'' @ webhook_id"

section \<open>Facts\<close>

lemma backoff_nominal:
  assumes "1 \<le> n"
  shows "let d0 = wrap64 (default_base_backoff * 2 ^ nat (min (n - 1) 20)) in
         (if d0 \<le> 0 \<or> jam < d0 then jam else d0) = min (2 * detik * 2 ^ nat (n - 1)) jam"
proof -
  have i: "in_i64 (2 * detik * 2 ^ k)" if "k \<le> 20" for k :: nat
  proof -
    have "(2::int) ^ k \<le> 2 ^ 20" using that by (intro power_increasing) auto
    moreover have "(0::int) < 2 ^ k" by simp
    moreover have "0 < x \<Longrightarrow> x \<le> 2 ^ 20 \<Longrightarrow> in_i64 (2 * detik * x)" for x by (simp add: in_i64_def)
    ultimately show ?thesis by blast
  qed
  show ?thesis
  proof (cases "n - 1 \<le> 20")
    case True
    then have "min (n - 1) 20 = n - 1" "nat (n - 1) \<le> 20" by auto
    then show ?thesis using i [of "nat (n - 1)"] by (simp add: Let_def default_base_backoff_def wrap64_id)
  next
    case False
    then have "(2::int) ^ 20 \<le> 2 ^ nat (n - 1)" by (intro power_increasing) auto
    moreover have "min (n - 1) 20 = 20" using False by simp
    ultimately show ?thesis using i [of 20] by (simp add: Let_def default_base_backoff_def wrap64_id)
  qed
qed

text \<open>Between half and the whole of two seconds doubled per attempt, capped at an hour.\<close>

lemma backoff_bounds:
  assumes "1 \<le> n" "\<And>k. 0 < k \<Longrightarrow> 0 \<le> acak k \<and> acak k < k"
  shows "min (2 * detik * 2 ^ nat (n - 1)) jam \<le> 2 * dispatcher_backoff acak n + 1"
    "dispatcher_backoff acak n \<le> min (2 * detik * 2 ^ nat (n - 1)) jam"
    "0 < dispatcher_backoff acak n"
proof -
  define d where "d = min (2 * detik * 2 ^ nat (n - 1)) jam"
  have p: "(1::int) \<le> 2 ^ nat (n - 1)" by simp
  then have d: "2 * detik \<le> d" "d \<le> jam" by (auto simp: d_def)
  then have h: "go_div d 2 = d div 2" by (simp add: go_div_nonneg)
  have a: "0 \<le> acak (d div 2)" "acak (d div 2) < d div 2" using assms(2) [of "d div 2"] d by auto
  have w: "wrap64 (d div 2 + acak (d div 2)) = d div 2 + acak (d div 2)"
    using a d by (intro wrap64_id) (auto simp: in_i64_def)
  have nom: "(if wrap64 (default_base_backoff * 2 ^ nat (min (n - 1) 20)) \<le> 0 \<or> jam < wrap64 (default_base_backoff * 2 ^ nat (min (n - 1) 20))
       then jam else wrap64 (default_base_backoff * 2 ^ nat (min (n - 1) 20))) = d"
    using backoff_nominal [OF assms(1)] by (simp only: Let_def d_def)
  have c: "\<not> (default_base_backoff \<le> 0 \<or> n < 1)" "\<not> d div 2 \<le> 0"
    using assms(1) d by (auto simp: default_base_backoff_def)
  have "dispatcher_backoff acak n = d div 2 + acak (d div 2)"
    by (simp only: dispatcher_backoff_def calculate_backoff_def max_webhook_backoff_def Let_def nom h w c if_False)
  with a d show "min (2 * detik * 2 ^ nat (n - 1)) jam \<le> 2 * dispatcher_backoff acak n + 1"
    "dispatcher_backoff acak n \<le> min (2 * detik * 2 ^ nat (n - 1)) jam" "0 < dispatcher_backoff acak n"
    unfolding d_def [symmetric] by auto
qed

lemma jitter_in_range: "0 < k \<Longrightarrow> 0 \<le> default_crypto_rand_jitter b k \<and> default_crypto_rand_jitter b k < k"
  by (auto simp: default_crypto_rand_jitter_def go_mod_def go_div_nonneg minus_mult_div_eq_mod split: option.splits)

subsection \<open>Splitting and joining\<close>

lemma split_byte_not_Nil [simp]: "split_byte c s \<noteq> []"
  by (induction s) (auto split: list.splits)

lemma split_byte_no: "c \<notin> set s \<Longrightarrow> split_byte c s = [s]"
  by (induction s) auto

lemma split_byte_append: "c \<notin> set s \<Longrightarrow> split_byte c (s @ c # t) = s # split_byte c t"
  by (induction s) auto

lemma split_byte_parts: "x \<in> set (split_byte c s) \<Longrightarrow> c \<notin> set x"
  by (induction s arbitrary: x) (auto split: list.splits if_splits)

lemma gabung_Cons: "gabung p (x # y # ys) = x @ p @ gabung p (y # ys)"
  by (simp add: gabung_def)

lemma split_gabung: "xs \<noteq> [] \<Longrightarrow> (\<And>x. x \<in> set xs \<Longrightarrow> c \<notin> set x) \<Longrightarrow> split_byte c (gabung [c] xs) = xs"
proof (induction xs)
  case (Cons x xs)
  show ?case
  proof (cases xs)
    case Nil
    with Cons.prems show ?thesis by (simp add: gabung_def split_byte_no)
  next
    case (Cons y ys)
    with Cons.IH Cons.prems show ?thesis by (simp add: gabung_Cons split_byte_append)
  qed
qed simp

lemma gabung_split: "gabung [c] (split_byte c s) = s"
proof (induction s)
  case (Cons x s)
  then show ?case by (cases "split_byte c s") (auto simp: gabung_def)
qed (simp add: gabung_def)

subsection \<open>Masked paths\<close>

definition tampak_rahasia :: "string \<Rightarrow> bool" where
  "tampak_rahasia seg \<longleftrightarrow> has_prefix seg ''bot'' \<and> contains seg '':'' \<and> 12 < length seg \<or> segmen_seperti_token seg"

fun posisi_discord :: "string list \<Rightarrow> bool" where
  "posisi_discord (s # a # b # r) \<longleftrightarrow>
     (if s = ''webhooks'' then b = [] \<or> b = tersembunyi else True) \<and> posisi_discord (a # b # r)"
| "posisi_discord r \<longleftrightarrow> True"

lemma samarkan_discord_not_Nil: "segs \<noteq> [] \<Longrightarrow> samarkan_discord segs \<noteq> []"
  by (induction segs rule: samarkan_discord.induct) auto

lemma samarkan_discord_parts: "x \<in> set (samarkan_discord segs) \<Longrightarrow> x \<in> set segs \<or> x = tersembunyi"
  by (induction segs rule: samarkan_discord.induct) (auto split: if_splits)

lemma samarkan_discord_first: "\<exists>r'. samarkan_discord (a # r) = a # r'"
  by (cases "(a # r)" rule: samarkan_discord.cases) auto

lemma samarkan_discord_two: "\<exists>r'. samarkan_discord (a # b # r) = a # b # r'"
proof (cases r)
  case (Cons c r')
  then show ?thesis
    using samarkan_discord_first [of b "tersembunyi # r'"] samarkan_discord_first [of b "c # r'"] by auto
qed simp

lemma posisi_samarkan: "posisi_discord (samarkan_discord segs)"
proof (induction segs rule: samarkan_discord.induct)
  case (1 s a b r)
  obtain t u where "samarkan_discord (a # tersembunyi # r) = a # tersembunyi # t" "samarkan_discord (a # b # r) = a # b # u"
    using samarkan_discord_two by metis
  with 1 show ?case by (auto simp: tersembunyi_def)
qed simp_all

lemma samarkan_segmen_simps [simp]:
  "samarkan_segmen [] = []" "samarkan_segmen tersembunyi = tersembunyi"
  by (simp_all add: samarkan_segmen_def segmen_seperti_token_def)

lemma samarkan_segmen_webhooks: "samarkan_segmen s = ''webhooks'' \<Longrightarrow> s = ''webhooks''"
  by (auto simp: samarkan_segmen_def tersembunyi_def split: if_splits)

lemma posisi_map: "posisi_discord segs \<Longrightarrow> posisi_discord (map samarkan_segmen segs)"
  by (induction segs rule: posisi_discord.induct) (auto dest: samarkan_segmen_webhooks split: if_splits)

lemma konstanta_aman: "\<not> tampak_rahasia tersembunyi" "\<not> tampak_rahasia ''bot[TERSEMBUNYI]''"
  by (simp_all add: tampak_rahasia_def segmen_seperti_token_def tersembunyi_def contains_def index_of.simps)

lemma samarkan_segmen_aman: "\<not> tampak_rahasia (samarkan_segmen s)"
  using konstanta_aman by (auto simp: samarkan_segmen_def tampak_rahasia_def)

lemma samarkan_segmen_parts: "CHR ''/'' \<notin> set s \<Longrightarrow> CHR ''/'' \<notin> set (samarkan_segmen s)"
  by (auto simp: samarkan_segmen_def tersembunyi_def)

lemma split_samarkan:
  "path \<noteq> [] \<Longrightarrow> split_byte CHR ''/'' (samarkan_path_token path)
     = map samarkan_segmen (samarkan_discord (split_byte CHR ''/'' path))"
  unfolding samarkan_path_token_def
  by (simp, subst split_gabung)
    (auto simp: samarkan_discord_not_Nil tersembunyi_def dest!: samarkan_discord_parts intro!: samarkan_segmen_parts dest: split_byte_parts)

lemma webhook_path_masked:
  "list_all (\<lambda>s. \<not> tampak_rahasia s) (split_byte CHR ''/'' (samarkan_path_token path))
   \<and> posisi_discord (split_byte CHR ''/'' (samarkan_path_token path))"
proof (cases "path = []")
  case True
  then show ?thesis
    by (simp add: samarkan_path_token_def tampak_rahasia_def segmen_seperti_token_def)
next
  case False
  then show ?thesis
    by (simp add: split_samarkan list_all_iff samarkan_segmen_aman posisi_map posisi_samarkan)
qed

text \<open>Nothing else of a path changes: without a secret-looking segment it is kept as it is.\<close>

lemma samarkan_discord_id: "posisi_discord segs \<Longrightarrow> samarkan_discord segs = segs"
  by (induction segs rule: posisi_discord.induct) (auto split: if_splits)

lemma webhook_path_kept:
  assumes "list_all (\<lambda>s. \<not> tampak_rahasia s) (split_byte CHR ''/'' path)" "posisi_discord (split_byte CHR ''/'' path)"
  shows "samarkan_path_token path = path"
proof -
  have "map samarkan_segmen (split_byte CHR ''/'' path) = split_byte CHR ''/'' path"
    using assms(1) by (auto simp: list_all_iff samarkan_segmen_def tampak_rahasia_def intro!: map_idI)
  with assms(2) show ?thesis
    by (simp add: samarkan_path_token_def samarkan_discord_id gabung_split)
qed

subsection \<open>Signatures\<close>

lemma digit_hex_kecil: "n < 16 \<Longrightarrow> digit_hex (hex_kecil n) = Some (int n)"
proof -
  assume "n < 16"
  then have "n \<in> set [0..<16]" by simp
  moreover have "list_all (\<lambda>n. digit_hex (hex_kecil n) = Some (int n)) [0..<16]" by code_simp
  ultimately show ?thesis unfolding list_all_iff by blast
qed

lemma hex_kecil_mod: "hex_kecil n = hex_kecil (n mod 16)"
  by (simp add: hex_kecil_def)

lemma of_char_lt: "(of_char c :: nat) < 256"
  by (metis of_char_mod_256 mod_less_divisor zero_less_numeral)

lemma hex_roundtrip: "hex_decode (hex_encode bs) = Some bs"
proof (induction bs)
  case (Cons c bs)
  have "(of_char c :: nat) div 16 < 16" using of_char_lt [of c] by (simp add: less_mult_imp_div_less)
  moreover have "hex_kecil (of_char c) = hex_kecil (of_char c mod 16)" by (rule hex_kecil_mod)
  moreover have "char_of (of_char c div 16 * 16 + of_char c mod 16 :: nat) = c" by simp
  ultimately show ?case using Cons
    by (simp add: hex_encode_def digit_hex_kecil nat_add_distrib nat_mult_distrib nat_int)
qed (simp add: hex_encode_def)

lemma hex_encode_chars: "c \<in> set (hex_encode bs) \<Longrightarrow> \<not> is_space c"
proof -
  have "list_all (\<lambda>n. \<not> is_space (hex_kecil n)) [0..<16]" by code_simp
  then have "\<not> is_space (hex_kecil n)" for n
    using hex_kecil_mod [of n] by (metis (no_types, lifting) list_all_iff atLeastLessThan_iff mod_less_divisor set_upt zero_le zero_less_numeral)
  then show "c \<in> set (hex_encode bs) \<Longrightarrow> \<not> is_space c" by (auto simp: hex_encode_def)
qed

lemma header_dibaca:
  "hex_decode (trim_prefix (trim_space (''sha256='' @ hex_encode bs)) ''sha256='') = Some bs"
proof -
  have "\<not> is_space (last (''sha256='' @ hex_encode bs))"
    using hex_encode_chars [of "last (hex_encode bs)" bs] by (cases "hex_encode bs = []") (auto simp: is_space_def)
  then have "trim_space (''sha256='' @ hex_encode bs) = ''sha256='' @ hex_encode bs"
    by (intro trim_space_id) (auto simp: is_space_def)
  then show ?thesis by (simp add: trim_prefix_def hex_roundtrip)
qed

lemma verify_sign:
  "verify_signature H body secret ts i (''sha256='' @ sign_payload H secret ts' i' body')
     \<longleftrightarrow> H secret (teks_tanda_tangan ts i body) = H secret (teks_tanda_tangan ts' i' body')"
  by (simp only: verify_signature_def sign_payload_def header_dibaca hex_roundtrip option.case)

lemma show_nat_inj: "show_nat m = show_nat n \<longleftrightarrow> m = n"
  by (metis dec_val_show_nat)

lemma show_int_inj: "show_int m = show_int n \<longleftrightarrow> m = n"
proof -
  have h: "hd (show_nat k) \<noteq> CHR ''-''" for k
    using show_nat_digits [of k] hd_in_set [of "show_nat k"] by (force simp: is_digit_def)
  have "CHR ''-'' # s \<noteq> show_nat k" for s k
    using h [of k] by (metis list.sel(1))
  then show ?thesis
    by (auto simp: show_int_def show_nat_inj split: if_splits) (metis)+
qed

lemma show_int_no_dot: "CHR ''.'' \<notin> set (show_int n)"
proof -
  have "CHR ''.'' \<notin> set (show_nat k)" for k using show_nat_digits [of k] by (auto simp: is_digit_def)
  then show ?thesis by (simp add: show_int_def)
qed

lemma append_sep: "c \<notin> set a \<Longrightarrow> c \<notin> set b \<Longrightarrow> a @ c # r = b @ c # t \<longleftrightarrow> a = b \<and> r = t"
  by (induction a arbitrary: b) (case_tac b; auto)+

lemma teks_tanda_tangan_inj:
  assumes "CHR ''.'' \<notin> set ts" "CHR ''.'' \<notin> set ts'"
  shows "teks_tanda_tangan ts i body = teks_tanda_tangan ts' i' body' \<longleftrightarrow> ts = ts' \<and> i = i' \<and> body = body'"
  using assms append_sep [OF show_int_no_dot show_int_no_dot, of i body i' body']
  by (simp add: teks_tanda_tangan_def append_sep show_int_inj)

section \<open>Properties\<close>

text \<open>
  The signed text joins its three parts with dots, so a received timestamp that itself has a dot can shift the
  borders: the check below accepts a delivery and a body that were never sent, under the very MAC of the sent ones.
\<close>

lemma dotted_timestamp_accepted:
  "let k = susun_kiriman H ''Alert'' ''https://x.test/hook'' secret 7 ev 17 ''5.x'' in
     verify_signature H ''x'' secret ''17.7'' 5 (the (map_of (kr_headers k) ''X-RouteX-Signature'')) \<and>
     map_of (kr_headers k) ''X-RouteX-Delivery'' = Some (show_int 7) \<and> show_int 7 \<noteq> show_int 5 \<and> kr_body k \<noteq> ''x''"
proof -
  let ?k = "susun_kiriman H ''Alert'' ''https://x.test/hook'' secret 7 ev 17 ''5.x''"
  have b: "kr_body ?k = ''5.x''" by (simp add: susun_kiriman_def Let_def) code_simp
  have "teks_tanda_tangan ''17.7'' 5 ''x'' = teks_tanda_tangan (show_int 17) 7 ''5.x''" by code_simp
  moreover have "the (map_of (kr_headers ?k) ''X-RouteX-Signature'') = ''sha256='' @ sign_payload H secret (show_int 17) 7 (kr_body ?k)"
    "map_of (kr_headers ?k) ''X-RouteX-Delivery'' = Some (show_int 7)"
    by (simp_all add: susun_kiriman_def Let_def)
  moreover have "show_int 7 \<noteq> show_int 5" by (simp add: show_int_inj)
  ultimately show ?thesis unfolding Let_def by (simp only: b verify_sign) simp
qed

text \<open>C38. A signature binds the delivery, for a receiver that takes a timestamp only without a dot in it, as every
  decimal number is (the lemma above shows what happens otherwise): its check of the header of a sent request
  then accepts exactly the timestamp, the delivery number and the body that were sent, or a second text with
  the same MAC.\<close>

lemma signature_binds:
  assumes "CHR ''.'' \<notin> set ts"
  shows "let k = susun_kiriman H judul url secret i ev unix payload in
    verify_signature H b secret ts j (the (map_of (kr_headers k) ''X-RouteX-Signature'')) \<longleftrightarrow>
      map_of (kr_headers k) ''X-RouteX-Timestamp'' = Some ts
      \<and> map_of (kr_headers k) ''X-RouteX-Delivery'' = Some (show_int j) \<and> b = kr_body k
      \<or> (teks_tanda_tangan ts j b \<noteq> teks_tanda_tangan (show_int unix) i (kr_body k)
         \<and> H secret (teks_tanda_tangan ts j b) = H secret (teks_tanda_tangan (show_int unix) i (kr_body k)))"
proof -
  let ?k = "susun_kiriman H judul url secret i ev unix payload"
  have h: "map_of (kr_headers ?k) ''X-RouteX-Timestamp'' = Some (show_int unix)"
    "map_of (kr_headers ?k) ''X-RouteX-Delivery'' = Some (show_int i)"
    "the (map_of (kr_headers ?k) ''X-RouteX-Signature'') = ''sha256='' @ sign_payload H secret (show_int unix) i (kr_body ?k)"
    by (simp_all add: susun_kiriman_def Let_def)
  have "teks_tanda_tangan ts j b = teks_tanda_tangan (show_int unix) i (kr_body ?k) \<longleftrightarrow>
      show_int unix = ts \<and> show_int i = show_int j \<and> b = kr_body ?k"
    using teks_tanda_tangan_inj [OF assms show_int_no_dot] by (auto simp: show_int_inj)
  then show ?thesis
    unfolding Let_def h verify_sign option.inject by (metis (no_types, lifting))
qed

lemma signature_binds_witness:
  "let H = (\<lambda>k m. rev m @ k); k = susun_kiriman H ''Alert'' ''https://x.test/hook'' ''s3cret'' 7 ''budget.exceeded'' 17 ''{}'';
       sig = the (map_of (kr_headers k) ''X-RouteX-Signature'')
   in verify_signature H ''{}'' ''s3cret'' ''17'' 7 sig \<and> \<not> verify_signature H ''{}'' ''s3cret'' ''18'' 7 sig"
proof -
  let ?H = "\<lambda>k m. rev m @ k :: string"
  let ?k = "susun_kiriman ?H ''Alert'' ''https://x.test/hook'' ''s3cret'' 7 ''budget.exceeded'' 17 ''{}''"
  have k: "map_of (kr_headers ?k) ''X-RouteX-Timestamp'' = Some ''17''"
    "map_of (kr_headers ?k) ''X-RouteX-Delivery'' = Some (show_int 7)" "kr_body ?k = ''{}''"
    by code_simp+
  have d: "CHR ''.'' \<notin> set ''17''" "CHR ''.'' \<notin> set ''18''" by simp_all
  show ?thesis
    using signature_binds [OF d(1), of ?H "''Alert''" "''https://x.test/hook''" "''s3cret''" 7 "''budget.exceeded''" 17 "''{}''" "''{}''" 7]
      signature_binds [OF d(2), of ?H "''Alert''" "''https://x.test/hook''" "''s3cret''" 7 "''budget.exceeded''" 17 "''{}''" "''{}''" 7]
    unfolding Let_def k by simp
qed

end
