(* ===== verification/Webhooks.thy ===== *)
theory Webhooks
  imports Webhook_Text
begin

text \<open>
  The webhook tables and their operations, \<^verbatim>\<open>internal/webhooks/webhooks.go\<close>, and the dispatch of one
  delivery, \<^verbatim>\<open>dispatcher.go\<close>.  The tables \<^verbatim>\<open>webhooks\<close> and \<^verbatim>\<open>webhook_deliveries\<close> are lists of rows; an
  SQL statement is a function on them that fails when a row it writes breaks a check constraint of
  \<^verbatim>\<open>internal/database/migrations/0008_automation.sql\<close>, and an operation of several statements takes, for
  each of them, whether the database answered.  The cipher, HMAC, the URL parser, the HTTP client, the
  clock and randomness are arguments.
\<close>

section \<open>Rows\<close>

datatype status_kirim = Pending | Delivering | Delivered | Failed | Abandoned

record webhook =
  wh_id :: string
  wh_name :: string
  wh_url :: string
  wh_events :: "string list"
  wh_secret_ciphertext :: string
  wh_encryption_key_id :: string
  wh_masked_hint :: string
  wh_enabled :: bool
  wh_max_retries :: int
  wh_timeout_ms :: int
  wh_last_delivery_at :: "waktu option"
  wh_last_delivery_status :: "status_kirim option"
  wh_consecutive_failures :: int
  wh_created_at :: waktu
  wh_updated_at :: waktu
  wh_created_by :: "string option"

record delivery =
  dl_id :: int
  dl_webhook_id :: string
  dl_event :: string
  dl_payload :: string
  dl_status :: status_kirim
  dl_attempt_count :: int
  dl_next_attempt_at :: waktu
  dl_locked_at :: "waktu option"
  dl_locked_by :: "string option"
  dl_response_status_code :: "int option"
  dl_error_message :: "string option"
  dl_created_at :: waktu
  dl_delivered_at :: "waktu option"

record antrean =
  an_webhooks :: "webhook list"
  an_deliveries :: "delivery list"
  an_seq :: int

section \<open>Constraints\<close>

definition known_events :: "string list" where
  "known_events =
     [''*'', ''request.completed'', ''request.failed'', ''provider.unhealthy'', ''provider.recovered'',
      ''circuit.opened'', ''circuit.closed'', ''budget.threshold'', ''budget.exceeded'',
      ''ratelimit.exceeded'', ''content.blocked'', ''api_key.created'', ''api_key.revoked'', ''ban.created'']"

definition valid_event :: "string \<Rightarrow> bool" where
  "valid_event e = list_ex (\<lambda>k. k = e) known_events"

text \<open>\<^verbatim>\<open>'^v[0-9]+\.[0-9a-f]+\.[A-Za-z0-9_-]+$'\<close>.\<close>

definition bentuk_ciphertext :: "string \<Rightarrow> bool" where
  "bentuk_ciphertext s =
     (case split_byte CHR ''.'' s of
        [v, k, c] \<Rightarrow> v \<noteq> [] \<and> hd v = CHR ''v'' \<and> tl v \<noteq> [] \<and> list_all is_digit (tl v)
          \<and> k \<noteq> [] \<and> list_all (\<lambda>x. is_digit x \<or> x \<in> set ''abcdef'') k
          \<and> c \<noteq> [] \<and> list_all (\<lambda>x. is_letter x \<or> is_digit x \<or> x \<in> set ''_-'') c
      | _ \<Rightarrow> False)"

text \<open>The check constraints of \<^verbatim>\<open>webhooks\<close>; \<^verbatim>\<open>btrim\<close> trims spaces.\<close>

definition webhook_sah :: "webhook \<Rightarrow> bool" where
  "webhook_sah w \<longleftrightarrow>
     list_ex (\<lambda>c. c \<noteq> CHR '' '') (wh_name w) \<and>
     (has_prefix (to_lower (wh_url w)) ''http://'' \<or> has_prefix (to_lower (wh_url w)) ''https://'') \<and>
     wh_events w \<noteq> [] \<and> list_all valid_event (wh_events w) \<and>
     bentuk_ciphertext (wh_secret_ciphertext w) \<and>
     0 \<le> wh_max_retries w \<and> wh_max_retries w \<le> 20 \<and>
     1000 \<le> wh_timeout_ms w \<and> wh_timeout_ms w \<le> 120000 \<and>
     0 \<le> wh_consecutive_failures w \<and>
     (case wh_last_delivery_status w of None \<Rightarrow> True | Some s \<Rightarrow> s \<in> {Delivered, Failed, Abandoned})"

text \<open>\<^verbatim>\<open>'^[a-z][a-z0-9_]*\.[a-z][a-z0-9_]*$'\<close>.\<close>

definition huruf_kecil :: "char \<Rightarrow> bool" where
  "huruf_kecil c \<longleftrightarrow> (let n = (of_char c :: nat) in 97 \<le> n \<and> n \<le> 122)"

definition bentuk_nama_event :: "string \<Rightarrow> bool" where
  "bentuk_nama_event s \<longleftrightarrow> s \<noteq> [] \<and> huruf_kecil (hd s) \<and> list_all (\<lambda>c. huruf_kecil c \<or> is_digit c \<or> c = CHR ''_'') s"

definition bentuk_event :: "string \<Rightarrow> bool" where
  "bentuk_event s =
     (case split_byte CHR ''.'' s of [a, b] \<Rightarrow> bentuk_nama_event a \<and> bentuk_nama_event b | _ \<Rightarrow> False)"

text \<open>Text columns hold valid UTF-8 without NUL; the decoder of Unicode, table 3-7.\<close>

fun utf8_sah :: "nat list \<Rightarrow> bool" where
  "utf8_sah [] = True"
| "utf8_sah (a # r) =
     (if a < 128 then utf8_sah r
      else case r of
        [] \<Rightarrow> False
      | b # r' \<Rightarrow>
          if 0xC2 \<le> a \<and> a \<le> 0xDF then 0x80 \<le> b \<and> b \<le> 0xBF \<and> utf8_sah r'
          else (case r' of
            [] \<Rightarrow> False
          | c # r'' \<Rightarrow>
              if 0xE0 \<le> a \<and> a \<le> 0xEF then
                (if a = 0xE0 then 0xA0 else 0x80) \<le> b \<and> b \<le> (if a = 0xED then 0x9F else 0xBF)
                \<and> 0x80 \<le> c \<and> c \<le> 0xBF \<and> utf8_sah r''
              else (case r'' of
                [] \<Rightarrow> False
              | d # r3 \<Rightarrow>
                  0xF0 \<le> a \<and> a \<le> 0xF4 \<and> (if a = 0xF0 then 0x90 else 0x80) \<le> b
                  \<and> b \<le> (if a = 0xF4 then 0x8F else 0xBF) \<and> 0x80 \<le> c \<and> c \<le> 0xBF
                  \<and> 0x80 \<le> d \<and> d \<le> 0xBF \<and> utf8_sah r3)))"

definition teks_sah :: "string \<Rightarrow> bool" where
  "teks_sah s \<longleftrightarrow> CHR 0x00 \<notin> set s \<and> utf8_sah (map of_char s)"

text \<open>The check constraints of \<^verbatim>\<open>webhook_deliveries\<close>.\<close>

definition delivery_sah :: "delivery \<Rightarrow> bool" where
  "delivery_sah d \<longleftrightarrow>
     bentuk_event (dl_event d) \<and> 0 \<le> dl_attempt_count d \<and>
     (case dl_response_status_code d of None \<Rightarrow> True | Some c \<Rightarrow> 100 \<le> c \<and> c \<le> 599) \<and>
     (dl_status d = Delivered) = (dl_delivered_at d \<noteq> None) \<and>
     (dl_status d = Delivering) = (dl_locked_at d \<noteq> None) \<and>
     (case dl_error_message d of None \<Rightarrow> True | Some s \<Rightarrow> teks_sah s)"

section \<open>Statements\<close>

definition cari_webhook :: "string \<Rightarrow> antrean \<Rightarrow> webhook option" where
  "cari_webhook i db = find (\<lambda>w. wh_id w = i) (an_webhooks db)"

definition cari_delivery :: "int \<Rightarrow> antrean \<Rightarrow> delivery option" where
  "cari_delivery i db = find (\<lambda>d. dl_id d = i) (an_deliveries db)"

text \<open>\<^verbatim>\<open>update webhook_deliveries set ... where ...\<close>; \<^const>\<open>None\<close> when a new row breaks a constraint.\<close>

definition update_deliveries :: "(delivery \<Rightarrow> bool) \<Rightarrow> (delivery \<Rightarrow> delivery) \<Rightarrow> antrean \<Rightarrow> antrean option" where
  "update_deliveries P f db =
     (if list_all (\<lambda>d. if P d then delivery_sah (f d) else True) (an_deliveries db)
      then Some (db\<lparr>an_deliveries := map (\<lambda>d. if P d then f d else d) (an_deliveries db)\<rparr>)
      else None)"

definition update_webhooks :: "(webhook \<Rightarrow> bool) \<Rightarrow> (webhook \<Rightarrow> webhook) \<Rightarrow> antrean \<Rightarrow> antrean option" where
  "update_webhooks P f db =
     (if list_all (\<lambda>w. if P w then webhook_sah (f w) else True) (an_webhooks db)
      then Some (db\<lparr>an_webhooks := map (\<lambda>w. if P w then f w else w) (an_webhooks db)\<rparr>)
      else None)"

section \<open>The registry of webhooks\<close>

text \<open>A cipher for one call: its key, and encryption and decryption under associated data.\<close>

record cipher =
  ci_key_id :: string
  ci_encrypt :: "string \<Rightarrow> string \<Rightarrow> string option"
  ci_decrypt :: "string \<Rightarrow> string \<Rightarrow> string option"

datatype galat_webhook =
    CipherWajib | NamaKosong | UrlKosong | UrlDitolak galat_ssrf | EventKosong | EventTakDikenal string
  | SecretKosong | TimeoutDiLuarRentang | RetriesDiLuarRentang | AcakGagal | EnkripsiGagal
  | TanpaPerubahan | TidakDitemukan | KonflikNama | PenggunaTidakAda | MelanggarKendala

record create_params =
  cp_id :: string
  cp_name :: string
  cp_url :: string
  cp_events :: "string list"
  cp_raw_secret :: string
  cp_cipher :: "cipher option"
  cp_enabled :: bool
  cp_max_retries :: int
  cp_timeout_ms :: int
  cp_created_by :: string
  cp_policy :: ssrf_policy

text \<open>\<^verbatim>\<open>newID\<close>: sixteen random bytes with the version and variant bits of a UUID.\<close>

definition new_id :: "8 word list option \<Rightarrow> string option" where
  "new_id acak =
     (case acak of
        None \<Rightarrow> None
      | Some b \<Rightarrow>
          let b = b[6 := or (and (b ! 6) 0x0F) 0x40, 8 := or (and (b ! 8) 0x3F) 0x80];
              h = hex_encode (map (\<lambda>w. char_of (unat w)) b)
          in Some (take 8 h @ ''-'' @ take 4 (drop 8 h) @ ''-'' @ take 4 (drop 12 h) @ ''-''
                   @ take 4 (drop 16 h) @ ''-'' @ drop 20 h))"

definition event_asing :: "string list \<Rightarrow> string option" where
  "event_asing es = find (\<lambda>e. \<not> valid_event e) es"

text \<open>The checks of \<^verbatim>\<open>Create\<close> up to the identifier, in their order.\<close>

definition periksa_create :: "pengurai \<Rightarrow> create_params \<Rightarrow> galat_webhook + cipher \<times> int" where
  "periksa_create U p =
     (case cp_cipher p of
        None \<Rightarrow> Inl CipherWajib
      | Some c \<Rightarrow>
          if trim_space (cp_name p) = [] then Inl NamaKosong
          else if trim_space (cp_url p) = [] then Inl UrlKosong
          else case validate_base_url U (cp_policy p) (cp_url p) of
                 Some e \<Rightarrow> Inl (UrlDitolak e)
               | None \<Rightarrow>
                   if cp_events p = [] then Inl EventKosong
                   else case event_asing (cp_events p) of
                          Some e \<Rightarrow> Inl (EventTakDikenal e)
                        | None \<Rightarrow>
                            if trim_space (cp_raw_secret p) = [] then Inl SecretKosong
                            else let t = (if cp_timeout_ms p \<le> 0 then 10000 else cp_timeout_ms p)
                                 in if t < 1000 \<or> 120000 < t then Inl TimeoutDiLuarRentang
                                    else if cp_max_retries p < 0 \<or> 20 < cp_max_retries p then Inl RetriesDiLuarRentang
                                    else Inr (c, t))"

text \<open>\<^verbatim>\<open>insert into webhooks\<close>: the check constraints, the primary key and the unique name, the reference to a user.\<close>

definition insert_webhook :: "(string \<Rightarrow> bool) \<Rightarrow> webhook \<Rightarrow> antrean \<Rightarrow> galat_webhook + antrean" where
  "insert_webhook user_ada w db =
     (if \<not> webhook_sah w then Inl MelanggarKendala
      else if list_ex (\<lambda>v. wh_id v = wh_id w \<or> wh_name v = wh_name w) (an_webhooks db) then Inl KonflikNama
      else if (case wh_created_by w of None \<Rightarrow> False | Some u \<Rightarrow> \<not> user_ada u) then Inl PenggunaTidakAda
      else Inr (db\<lparr>an_webhooks := an_webhooks db @ [w]\<rparr>))"

definition create_webhook ::
    "pengurai \<Rightarrow> (string \<Rightarrow> bool) \<Rightarrow> 8 word list option \<Rightarrow> waktu \<Rightarrow> create_params \<Rightarrow> antrean \<Rightarrow> galat_webhook + webhook \<times> antrean" where
  "create_webhook U user_ada acak now p db =
     (case periksa_create U p of
        Inl e \<Rightarrow> Inl e
      | Inr (c, t) \<Rightarrow>
          (case (if cp_id p = [] then new_id acak else Some (cp_id p)) of
             None \<Rightarrow> Inl AcakGagal
           | Some i \<Rightarrow>
               (case ci_encrypt c (cp_raw_secret p) (webhook_aad i) of
                  None \<Rightarrow> Inl EnkripsiGagal
                | Some ct \<Rightarrow>
                    let w = \<lparr>wh_id = i, wh_name = cp_name p, wh_url = cp_url p, wh_events = cp_events p,
                             wh_secret_ciphertext = ct, wh_encryption_key_id = ci_key_id c,
                             wh_masked_hint = mask_secret (cp_raw_secret p), wh_enabled = cp_enabled p,
                             wh_max_retries = cp_max_retries p, wh_timeout_ms = t,
                             wh_last_delivery_at = None, wh_last_delivery_status = None,
                             wh_consecutive_failures = 0, wh_created_at = now, wh_updated_at = now,
                             wh_created_by = (if cp_created_by p = [] then None else Some (cp_created_by p))\<rparr>
                    in lanjut (insert_webhook user_ada w db) (\<lambda>db'. Inr (w, db')))))"

record update_params =
  up_name :: "string option"
  up_url :: "string option"
  up_events :: "string list option"
  up_enabled :: "bool option"
  up_max_retries :: "int option"
  up_timeout_ms :: "int option"
  up_raw_secret :: string
  up_cipher :: "cipher option"
  up_policy :: ssrf_policy

text \<open>\<^verbatim>\<open>Update\<close>: each given field adds a clause, checked in the order of the code.\<close>

type_synonym klausa = "webhook \<Rightarrow> webhook"

definition klausa_update :: "pengurai \<Rightarrow> string \<Rightarrow> update_params \<Rightarrow> galat_webhook + klausa list" where
  "klausa_update U i p =
     (let nama = (case up_name p of None \<Rightarrow> [] | Some v \<Rightarrow> [\<lambda>w. w\<lparr>wh_name := v\<rparr>])
      in lanjut (case up_url p of None \<Rightarrow> Inr [] | Some v \<Rightarrow>
                   (case validate_base_url U (up_policy p) v of
                      Some e \<Rightarrow> Inl (UrlDitolak e) | None \<Rightarrow> Inr [\<lambda>w. w\<lparr>wh_url := v\<rparr>])) (\<lambda>url.
         lanjut (case up_events p of None \<Rightarrow> Inr [] | Some v \<Rightarrow>
                   if v = [] then Inl EventKosong
                   else (case event_asing v of Some e \<Rightarrow> Inl (EventTakDikenal e) | None \<Rightarrow> Inr [\<lambda>w. w\<lparr>wh_events := v\<rparr>])) (\<lambda>ev.
         lanjut (case up_enabled p of None \<Rightarrow> Inr [] | Some v \<Rightarrow> Inr [\<lambda>w. w\<lparr>wh_enabled := v\<rparr>]) (\<lambda>en.
         lanjut (case up_max_retries p of None \<Rightarrow> Inr [] | Some v \<Rightarrow>
                   if v < 0 \<or> 20 < v then Inl RetriesDiLuarRentang else Inr [\<lambda>w. w\<lparr>wh_max_retries := v\<rparr>]) (\<lambda>mr.
         lanjut (case up_timeout_ms p of None \<Rightarrow> Inr [] | Some v \<Rightarrow>
                   if v < 1000 \<or> 120000 < v then Inl TimeoutDiLuarRentang else Inr [\<lambda>w. w\<lparr>wh_timeout_ms := v\<rparr>]) (\<lambda>tm.
         lanjut (if up_raw_secret p = [] then Inr []
                 else case up_cipher p of
                        None \<Rightarrow> Inl CipherWajib
                      | Some c \<Rightarrow>
                          (case ci_encrypt c (up_raw_secret p) (webhook_aad i) of
                             None \<Rightarrow> Inl EnkripsiGagal
                           | Some ct \<Rightarrow> Inr [\<lambda>w. w\<lparr>wh_secret_ciphertext := ct, wh_encryption_key_id := ci_key_id c,
                                               wh_masked_hint := mask_secret (up_raw_secret p)\<rparr>])) (\<lambda>sc.
         Inr (nama @ url @ ev @ en @ mr @ tm @ sc))))))))"

definition update_webhook ::
    "pengurai \<Rightarrow> waktu \<Rightarrow> string \<Rightarrow> update_params \<Rightarrow> antrean \<Rightarrow> galat_webhook + antrean" where
  "update_webhook U now i p db =
     lanjut (klausa_update U i p) (\<lambda>ks.
       if ks = [] then Inl TanpaPerubahan
       else case cari_webhook i db of
              None \<Rightarrow> Inl TidakDitemukan
            | Some w \<Rightarrow>
                let w' = (foldl (\<lambda>w k. k w) w ks)\<lparr>wh_updated_at := now\<rparr>
                in if list_ex (\<lambda>v. wh_id v \<noteq> i \<and> wh_name v = wh_name w') (an_webhooks db) then Inl KonflikNama
                   else case update_webhooks (\<lambda>v. wh_id v = i) (\<lambda>_. w') db of
                          None \<Rightarrow> Inl MelanggarKendala
                        | Some db' \<Rightarrow> Inr db')"

definition set_enabled :: "pengurai \<Rightarrow> waktu \<Rightarrow> string \<Rightarrow> bool \<Rightarrow> antrean \<Rightarrow> galat_webhook + antrean" where
  "set_enabled U now i b db =
     update_webhook U now i
       \<lparr>up_name = None, up_url = None, up_events = None, up_enabled = Some b, up_max_retries = None,
        up_timeout_ms = None, up_raw_secret = [], up_cipher = None, up_policy = default_ssrf_policy\<rparr> db"

text \<open>\<^verbatim>\<open>Delete\<close>; the deliveries stay.\<close>

definition delete_webhook :: "string \<Rightarrow> antrean \<Rightarrow> galat_webhook + antrean" where
  "delete_webhook i db =
     (if cari_webhook i db = None then Inl TidakDitemukan
      else Inr (db\<lparr>an_webhooks := filter (\<lambda>w. wh_id w \<noteq> i) (an_webhooks db)\<rparr>))"

section \<open>The queue\<close>

text \<open>
  \<^verbatim>\<open>Enqueue\<close>: \<^const>\<open>None\<close> for the payload is a value \<^verbatim>\<open>json.Marshal\<close> refuses; \<open>gagal k\<close> that the database
  does not answer the \<open>k\<close>-th insert.  The result is the number of rows inserted and whether there was no error.
\<close>

definition berlangganan :: "string \<Rightarrow> webhook \<Rightarrow> bool" where
  "berlangganan event w \<longleftrightarrow> wh_enabled w \<and> (event \<in> set (wh_events w) \<or> ''*'' \<in> set (wh_events w))"

definition delivery_baru :: "waktu \<Rightarrow> int \<Rightarrow> string \<Rightarrow> string \<Rightarrow> string \<Rightarrow> delivery" where
  "delivery_baru now i wid event payload =
     \<lparr>dl_id = i, dl_webhook_id = wid, dl_event = event, dl_payload = payload, dl_status = Pending,
      dl_attempt_count = 0, dl_next_attempt_at = now, dl_locked_at = None, dl_locked_by = None,
      dl_response_status_code = None, dl_error_message = None, dl_created_at = now, dl_delivered_at = None\<rparr>"

fun sisip_deliveries :: "(nat \<Rightarrow> bool) \<Rightarrow> waktu \<Rightarrow> string \<Rightarrow> string \<Rightarrow> nat \<Rightarrow> string list \<Rightarrow> antrean \<Rightarrow> antrean \<times> nat \<times> bool" where
  "sisip_deliveries gagal now event payload k [] db = (db, k, True)"
| "sisip_deliveries gagal now event payload k (wid # ws) db =
     (let d = delivery_baru now (an_seq db + 1) wid event payload
      in if gagal k \<or> \<not> delivery_sah d then (db, k, False)
         else sisip_deliveries gagal now event payload (Suc k) ws
                (db\<lparr>an_deliveries := an_deliveries db @ [d], an_seq := an_seq db + 1\<rparr>))"

definition enqueue :: "bool \<Rightarrow> (nat \<Rightarrow> bool) \<Rightarrow> waktu \<Rightarrow> string \<Rightarrow> string option \<Rightarrow> antrean \<Rightarrow> antrean \<times> nat \<times> bool" where
  "enqueue terbaca gagal now event payload db =
     (case payload of
        None \<Rightarrow> (db, 0, False)
      | Some badan \<Rightarrow>
          if \<not> terbaca then (db, 0, False)
          else let ids = map wh_id (filter (berlangganan event) (an_webhooks db))
               in if ids = [] then (db, 0, True) else sisip_deliveries gagal now event badan 0 ids db)"

text \<open>
  \<^verbatim>\<open>ClaimDue\<close>: the due rows, oldest first, up to the limit, less those \<open>dilewati\<close> (rows another
  transaction holds: \<^verbatim>\<open>skip locked\<close>); the claimed rows become leased in the same statement.
\<close>

definition siap_diambil :: "waktu \<Rightarrow> delivery \<Rightarrow> bool" where
  "siap_diambil now d \<longleftrightarrow> dl_status d \<in> {Pending, Failed} \<and> dl_next_attempt_at d \<le> now"

definition sewa :: "waktu \<Rightarrow> string \<Rightarrow> delivery \<Rightarrow> delivery" where
  "sewa now worker d = d\<lparr>dl_status := Delivering, dl_locked_at := Some now, dl_locked_by := Some worker\<rparr>"

definition claimed :: "(int \<Rightarrow> bool) \<Rightarrow> int \<Rightarrow> waktu \<Rightarrow> antrean \<Rightarrow> int list" where
  "claimed dilewati limit now db =
     (let n = (if limit \<le> 0 then 50 else limit)
      in map dl_id (take (nat n)
           (sort_stable_func (\<lambda>a b. cmp_compare (dl_next_attempt_at a) (dl_next_attempt_at b))
              (filter (\<lambda>d. siap_diambil now d \<and> \<not> dilewati (dl_id d)) (an_deliveries db)))))"

definition claim_due :: "(int \<Rightarrow> bool) \<Rightarrow> string \<Rightarrow> int \<Rightarrow> waktu \<Rightarrow> antrean \<Rightarrow> (delivery list \<times> antrean) option" where
  "claim_due dilewati worker limit now db =
     (let ids = claimed dilewati limit now db
      in map_option (\<lambda>db'. (filter (\<lambda>d. dl_id d \<in> set ids) (an_deliveries db'), db'))
           (update_deliveries (\<lambda>d. dl_id d \<in> set ids) (sewa now worker) db))"

definition bebaskan :: "delivery \<Rightarrow> delivery" where
  "bebaskan d = d\<lparr>dl_status := Pending, dl_locked_at := None, dl_locked_by := None\<rparr>"

definition tersangkut :: "durasi \<Rightarrow> waktu \<Rightarrow> delivery \<Rightarrow> bool" where
  "tersangkut lama now d \<longleftrightarrow>
     dl_status d = Delivering \<and>
     (case dl_locked_at d of None \<Rightarrow> False | Some t \<Rightarrow> t < now - milliseconds lama * milidetik)"

definition recover_stuck :: "durasi \<Rightarrow> waktu \<Rightarrow> antrean \<Rightarrow> antrean option" where
  "recover_stuck lama now db =
     update_deliveries (tersangkut (if lama \<le> 0 then 5 * menit else lama) now) bebaskan db"

text \<open>\<^verbatim>\<open>RecordSuccess\<close>: both statements in one transaction.\<close>

definition hitung_webhook :: "waktu \<Rightarrow> status_kirim \<Rightarrow> webhook \<Rightarrow> webhook" where
  "hitung_webhook now st w =
     w\<lparr>wh_last_delivery_at := Some now, wh_last_delivery_status := Some st,
       wh_consecutive_failures := (if st = Delivered then 0 else wh_consecutive_failures w + 1),
       wh_updated_at := now\<rparr>"

definition terkirim :: "waktu \<Rightarrow> int \<Rightarrow> delivery \<Rightarrow> delivery" where
  "terkirim now code d =
     d\<lparr>dl_status := Delivered, dl_locked_at := None, dl_locked_by := None, dl_delivered_at := Some now,
       dl_response_status_code := Some code, dl_error_message := None\<rparr>"

definition record_success :: "waktu \<Rightarrow> int \<Rightarrow> string \<Rightarrow> int \<Rightarrow> antrean \<Rightarrow> antrean option" where
  "record_success now i wid code db =
     Option.bind (update_webhooks (\<lambda>w. wh_id w = wid) (hitung_webhook now Delivered) db)
       (update_deliveries (\<lambda>d. dl_id d = i) (terkirim now code))"

definition nullif_kosong :: "string \<Rightarrow> string option" where
  "nullif_kosong s = (if s = [] then None else Some s)"

definition gagal_baris :: "status_kirim \<Rightarrow> int \<Rightarrow> waktu \<Rightarrow> int option \<Rightarrow> string \<Rightarrow> delivery \<Rightarrow> delivery" where
  "gagal_baris st n next code pesan d =
     d\<lparr>dl_status := st, dl_locked_at := None, dl_locked_by := None, dl_attempt_count := n,
       dl_next_attempt_at := next, dl_response_status_code := code, dl_error_message := nullif_kosong pesan\<rparr>"

definition tinggal_baris :: "int \<Rightarrow> string \<Rightarrow> delivery \<Rightarrow> delivery" where
  "tinggal_baris n pesan d =
     d\<lparr>dl_status := Abandoned, dl_locked_at := None, dl_locked_by := None, dl_attempt_count := n,
       dl_error_message := nullif_kosong pesan\<rparr>"

text \<open>
  Two statements without a transaction: \<open>ok1\<close> and \<open>ok2\<close> say whether the database answers them.  The
  result carries whether there was no error; a failed second statement leaves the first in place.
\<close>

definition dua_langkah :: "bool \<Rightarrow> bool \<Rightarrow> (antrean \<Rightarrow> antrean option) \<Rightarrow> (antrean \<Rightarrow> antrean option) \<Rightarrow> antrean \<Rightarrow> antrean \<times> bool" where
  "dua_langkah ok1 ok2 f g db =
     (case (if ok1 then f db else None) of
        None \<Rightarrow> (db, False)
      | Some db1 \<Rightarrow> (case (if ok2 then g db1 else None) of None \<Rightarrow> (db1, False) | Some db2 \<Rightarrow> (db2, True)))"

definition record_failure ::
    "bool \<Rightarrow> bool \<Rightarrow> waktu \<Rightarrow> int \<Rightarrow> string \<Rightarrow> int \<Rightarrow> int \<Rightarrow> waktu \<Rightarrow> int option \<Rightarrow> string \<Rightarrow> antrean \<Rightarrow> antrean \<times> bool" where
  "record_failure ok1 ok2 now i wid attempt_count max_retries next code pesan db =
     (let st = (if max_retries < attempt_count then Abandoned else Failed)
      in dua_langkah ok1 ok2
           (update_deliveries (\<lambda>d. dl_id d = i) (gagal_baris st attempt_count next code pesan))
           (update_webhooks (\<lambda>w. wh_id w = wid) (hitung_webhook now st)) db)"

definition record_abandoned :: "bool \<Rightarrow> bool \<Rightarrow> waktu \<Rightarrow> int \<Rightarrow> string \<Rightarrow> int \<Rightarrow> string \<Rightarrow> antrean \<Rightarrow> antrean \<times> bool" where
  "record_abandoned ok1 ok2 now i wid attempt_count pesan db =
     dua_langkah ok1 ok2
       (update_deliveries (\<lambda>d. dl_id d = i) (tinggal_baris attempt_count pesan))
       (update_webhooks (\<lambda>w. wh_id w = wid) (hitung_webhook now Abandoned)) db"

definition renew_leases :: "int list \<Rightarrow> string \<Rightarrow> waktu \<Rightarrow> antrean \<Rightarrow> antrean option" where
  "renew_leases ids worker now db =
     (if ids = [] then Some db
      else update_deliveries (\<lambda>d. dl_id d \<in> set ids \<and> dl_status d = Delivering \<and> dl_locked_by d = Some worker)
             (\<lambda>d. d\<lparr>dl_locked_at := Some now\<rparr>) db)"

definition delete_retention :: "waktu \<Rightarrow> int \<Rightarrow> antrean \<Rightarrow> antrean \<times> nat" where
  "delete_retention cutoff batch db =
     (let n = (if batch \<le> 0 then 500 else batch);
          ids = map dl_id (take (nat n)
                  (filter (\<lambda>d. dl_status d \<in> {Delivered, Abandoned} \<and> dl_created_at d < cutoff) (an_deliveries db)))
      in (db\<lparr>an_deliveries := filter (\<lambda>d. dl_id d \<notin> set ids) (an_deliveries db)\<rparr>, length ids))"

section \<open>Dispatching one delivery\<close>

text \<open>What \<^verbatim>\<open>Dispatch\<close> needs from outside; texts of errors are arguments, already sanitised.\<close>

record lingkungan =
  lk_decrypt :: "string \<Rightarrow> string \<Rightarrow> string option"
  lk_urai :: pengurai
  lk_policy :: ssrf_policy
  lk_teks_ssrf :: "string \<Rightarrow> galat_ssrf \<Rightarrow> string"
  lk_permintaan :: "string \<Rightarrow> string option"
  lk_hmac :: hmac
  lk_acak :: "int \<Rightarrow> int"

datatype hasil_siap =
    Tinggalkan string string
  | GagalSusun webhook string
  | Kirim webhook kiriman

text \<open>
  The first part of \<^verbatim>\<open>Dispatch\<close>, up to the request: \<open>terbaca\<close> is whether the database answered \<^verbatim>\<open>Get\<close>; the
  result is to give up (with the webhook's identifier and the reason), a request that could not be
  built, or the webhook as it was read and the request to send.
\<close>

definition dispatch_siap :: "lingkungan \<Rightarrow> bool \<Rightarrow> int \<Rightarrow> delivery \<Rightarrow> antrean \<Rightarrow> hasil_siap" where
  "dispatch_siap E terbaca unix d db =
     (case (if terbaca then cari_webhook (dl_webhook_id d) db else None) of
        None \<Rightarrow> Tinggalkan (dl_webhook_id d) ''webhook induk tidak ditemukan''
      | Some w \<Rightarrow>
          if \<not> wh_enabled w then Tinggalkan (wh_id w) ''webhook dinonaktifkan operator''
          else case lk_decrypt E (wh_secret_ciphertext w) (webhook_aad (wh_id w)) of
                 None \<Rightarrow> Tinggalkan (wh_id w) ''gagal mendekripsi secret webhook''
               | Some secret \<Rightarrow>
                   (case validate_base_url (lk_urai E) (lk_policy E) (wh_url w) of
                      Some e \<Rightarrow> Tinggalkan (wh_id w) (''SSRF: '' @ lk_teks_ssrf E (wh_url w) e)
                    | None \<Rightarrow>
                        (case lk_permintaan E (wh_url w) of
                           Some e \<Rightarrow> GagalSusun w e
                         | None \<Rightarrow>
                             Kirim w (susun_kiriman (lk_hmac E) ''Alert'' (wh_url w) secret (dl_id d) (dl_event d) unix (dl_payload d)))))"

datatype hasil_http = GalatHttp string | Balasan int

text \<open>The second part: what the HTTP client returned is recorded against the webhook as it was read.\<close>

definition kode_sukses :: "int \<Rightarrow> bool" where
  "kode_sukses c \<longleftrightarrow> 200 \<le> c \<and> c < 300"

definition catat_gagal :: "lingkungan \<Rightarrow> bool \<Rightarrow> bool \<Rightarrow> waktu \<Rightarrow> webhook \<Rightarrow> delivery \<Rightarrow> int option \<Rightarrow> string \<Rightarrow> antrean \<Rightarrow> antrean \<times> bool" where
  "catat_gagal E ok1 ok2 now w d code pesan db =
     (let n = dl_attempt_count d + 1
      in record_failure ok1 ok2 now (dl_id d) (wh_id w) n (wh_max_retries w)
           (now + dispatcher_backoff (lk_acak E) n) code pesan db)"

definition dispatch_catat :: "lingkungan \<Rightarrow> bool \<Rightarrow> bool \<Rightarrow> waktu \<Rightarrow> webhook \<Rightarrow> delivery \<Rightarrow> hasil_http \<Rightarrow> antrean \<Rightarrow> antrean \<times> bool" where
  "dispatch_catat E ok1 ok2 now w d h db =
     (case h of
        GalatHttp e \<Rightarrow> catat_gagal E ok1 ok2 now w d None e db
      | Balasan c \<Rightarrow>
          if kode_sukses c then
            (case (if ok1 \<and> ok2 then record_success now (dl_id d) (wh_id w) c db else None) of
               None \<Rightarrow> (db, False) | Some db' \<Rightarrow> (db', True))
          else catat_gagal E ok1 ok2 now w d (Some c) (''HTTP '' @ show_int c) db)"

text \<open>\<^verbatim>\<open>Dispatch\<close> as a whole, when nothing happens in between: the request that was sent and the record.\<close>

definition dispatch ::
    "lingkungan \<Rightarrow> bool \<Rightarrow> bool \<Rightarrow> bool \<Rightarrow> waktu \<Rightarrow> hasil_http \<Rightarrow> delivery \<Rightarrow> antrean \<Rightarrow> kiriman option \<times> antrean \<times> bool" where
  "dispatch E terbaca ok1 ok2 now h d db =
     (case dispatch_siap E terbaca (now div detik) d db of
        Tinggalkan wid pesan \<Rightarrow> (None, record_abandoned ok1 ok2 now (dl_id d) wid (dl_attempt_count d + 1) pesan db)
      | GagalSusun w pesan \<Rightarrow> (None, catat_gagal E ok1 ok2 now w d None pesan db)
      | Kirim w k \<Rightarrow> (Some k, dispatch_catat E ok1 ok2 now w d h db))"

section \<open>Reading deliveries\<close>

text \<open>\<^verbatim>\<open>repo.Page.Normalize\<close>.\<close>

definition normalize_limit :: "int \<Rightarrow> nat" where
  "normalize_limit n = nat (if n \<le> 0 then 50 else if 500 < n then 500 else n)"

text \<open>\<^verbatim>\<open>fmt.Sscanf\<close> with \<^verbatim>\<open>%d\<close>: blanks, a sign and as many digits as follow; anything after them is ignored.\<close>

definition sscanf_d :: "string \<Rightarrow> int option" where
  "sscanf_d s0 =
     (let s = dropWhile (\<lambda>c. c = CHR '' '') s0;
          neg = has_prefix s ''-'';
          b = (if neg \<or> has_prefix s ''+'' then tl s else s);
          ds = takeWhile is_digit b
      in if ds = [] then None
         else case parse_int ((if neg then ''-'' else []) @ ds) of Inl _ \<Rightarrow> None | Inr n \<Rightarrow> Some n)"

definition list_deliveries :: "string \<Rightarrow> string \<Rightarrow> int \<Rightarrow> antrean \<Rightarrow> delivery list \<times> string" where
  "list_deliveries wid cursor minta db =
     (let limit = normalize_limit minta;
          cur = (if cursor = [] then None else case sscanf_d cursor of None \<Rightarrow> None | Some n \<Rightarrow> if 0 < n then Some n else None);
          rows = filter (\<lambda>d. dl_webhook_id d = wid \<and> (case cur of None \<Rightarrow> True | Some c \<Rightarrow> dl_id d < c)) (an_deliveries db);
          items = take (Suc limit) (sort_stable_func (\<lambda>a b. cmp_compare (dl_id b) (dl_id a)) rows)
      in if limit < length items then (take limit items, show_int (dl_id (items ! (limit - 1))))
         else (items, []))"

end
