(* ===== verification/Webhook_Queue.thy ===== *)
theory Webhook_Queue
  imports Webhooks
begin

text \<open>
  Several workers on one delivery queue, \<^verbatim>\<open>internal/worker/webhook.go\<close> over \<^verbatim>\<open>internal/webhooks\<close>: what is
  in the tables and what each worker holds in memory.  Claiming, preparing a request and recording its
  outcome are separate events, so those of different workers, the operations of the registry, lease
  renewal, recovery of stuck rows and retention interleave freely, and a worker can stop at any point.
\<close>

section \<open>Events\<close>

text \<open>
  A delivery in the memory of a worker: claimed, or with its request sent and the webhook as it was read.
\<close>

datatype pekerjaan =
    Diambil (pk_worker: string) (pk_delivery: delivery)
  | Dikirimkan (pk_worker: string) (pk_delivery: delivery) (pk_webhook: webhook)

abbreviation pk_id :: "pekerjaan \<Rightarrow> int" where
  "pk_id j \<equiv> dl_id (pk_delivery j)"

text \<open>
  The logs are not part of the program: deliveries whose request was sent, those answered with 2xx, and
  those lost, that is, whose dispatch returned an error or never came to an end.
\<close>

record sistem_antrean =
  si_db :: antrean
  si_now :: waktu
  si_kerja :: "pekerjaan list"
  si_kirim :: "int list"
  si_sukses :: "int list"
  si_hilang :: "int list"

definition sistem_awal :: "waktu \<Rightarrow> sistem_antrean" where
  "sistem_awal t =
     \<lparr>si_db = \<lparr>an_webhooks = [], an_deliveries = [], an_seq = 0\<rparr>, si_now = t, si_kerja = [],
      si_kirim = [], si_sukses = [], si_hilang = []\<rparr>"

datatype peristiwa_antrean =
    Berlalu durasi
  | Masuk bool "nat list" string "string option"
  | Ambil string int "int list"
  | Siapkan nat bool bool bool
  | Catat nat bool bool hasil_http
  | Putus nat
  | Perbarui string "int list"
  | Pulihkan durasi
  | Buat "8 word list option" create_params
  | Perbaiki string update_params
  | Hapus string
  | Retensi waktu int

definition buang :: "nat \<Rightarrow> 'a list \<Rightarrow> 'a list" where
  "buang k xs = take k xs @ drop (Suc k) xs"

text \<open>The end of a dispatch: the job leaves memory; an error is only logged by the worker.\<close>

definition selesai :: "nat \<Rightarrow> int \<Rightarrow> antrean \<times> bool \<Rightarrow> sistem_antrean \<Rightarrow> sistem_antrean" where
  "selesai k i r s =
     s\<lparr>si_db := fst r, si_kerja := buang k (si_kerja s),
       si_hilang := (if snd r then si_hilang s else i # si_hilang s)\<rparr>"

definition siapkan_kirim :: "lingkungan \<Rightarrow> nat \<Rightarrow> bool \<Rightarrow> bool \<Rightarrow> bool \<Rightarrow> sistem_antrean \<Rightarrow> sistem_antrean" where
  "siapkan_kirim E k terbaca ok1 ok2 s =
     (if length (si_kerja s) \<le> k then s
      else case si_kerja s ! k of
        Dikirimkan _ _ _ \<Rightarrow> s
      | Diambil w d \<Rightarrow>
          (case dispatch_siap E terbaca (si_now s div detik) d (si_db s) of
             Tinggalkan wid pesan \<Rightarrow>
               selesai k (dl_id d) (record_abandoned ok1 ok2 (si_now s) (dl_id d) wid (dl_attempt_count d + 1) pesan (si_db s)) s
           | GagalSusun wh pesan \<Rightarrow>
               selesai k (dl_id d) (catat_gagal E ok1 ok2 (si_now s) wh d None pesan (si_db s)) s
           | Kirim wh _ \<Rightarrow>
               s\<lparr>si_kerja := (si_kerja s)[k := Dikirimkan w d wh], si_kirim := dl_id d # si_kirim s\<rparr>))"

definition dijawab_sukses :: "hasil_http \<Rightarrow> bool" where
  "dijawab_sukses h \<longleftrightarrow> (case h of GalatHttp _ \<Rightarrow> False | Balasan c \<Rightarrow> kode_sukses c)"

definition catat_hasil :: "lingkungan \<Rightarrow> nat \<Rightarrow> bool \<Rightarrow> bool \<Rightarrow> hasil_http \<Rightarrow> sistem_antrean \<Rightarrow> sistem_antrean" where
  "catat_hasil E k ok1 ok2 h s =
     (if length (si_kerja s) \<le> k then s
      else case si_kerja s ! k of
        Diambil _ _ \<Rightarrow> s
      | Dikirimkan w d wh \<Rightarrow>
          (selesai k (dl_id d) (dispatch_catat E ok1 ok2 (si_now s) wh d h (si_db s)) s)
            \<lparr>si_sukses := (if dijawab_sukses h then dl_id d # si_sukses s else si_sukses s)\<rparr>)"

definition pakai :: "antrean option \<Rightarrow> sistem_antrean \<Rightarrow> sistem_antrean" where
  "pakai r s = (case r of None \<Rightarrow> s | Some db \<Rightarrow> s\<lparr>si_db := db\<rparr>)"

definition dari :: "'e + antrean \<Rightarrow> antrean option" where
  "dari r = (case r of Inl _ \<Rightarrow> None | Inr db \<Rightarrow> Some db)"

fun langkah_antrean :: "lingkungan \<Rightarrow> (string \<Rightarrow> bool) \<Rightarrow> peristiwa_antrean \<Rightarrow> sistem_antrean \<Rightarrow> sistem_antrean" where
  "langkah_antrean E ua (Berlalu dt) s = s\<lparr>si_now := si_now s + max 0 dt\<rparr>"
| "langkah_antrean E ua (Masuk terbaca gagal ev isi') s =
     s\<lparr>si_db := fst (enqueue terbaca (\<lambda>k. k \<in> set gagal) (si_now s) ev isi' (si_db s))\<rparr>"
| "langkah_antrean E ua (Ambil w limit lewat) s =
     (case claim_due (\<lambda>i. i \<in> set lewat) w limit (si_now s) (si_db s) of
        None \<Rightarrow> s
      | Some (ds, db) \<Rightarrow> s\<lparr>si_db := db, si_kerja := si_kerja s @ map (Diambil w) ds\<rparr>)"
| "langkah_antrean E ua (Siapkan k terbaca ok1 ok2) s = siapkan_kirim E k terbaca ok1 ok2 s"
| "langkah_antrean E ua (Catat k ok1 ok2 h) s = catat_hasil E k ok1 ok2 h s"
| "langkah_antrean E ua (Putus k) s =
     (if length (si_kerja s) \<le> k then s
      else s\<lparr>si_kerja := buang k (si_kerja s), si_hilang := pk_id (si_kerja s ! k) # si_hilang s\<rparr>)"
| "langkah_antrean E ua (Perbarui w ids) s = pakai (renew_leases ids w (si_now s) (si_db s)) s"
| "langkah_antrean E ua (Pulihkan lama) s = pakai (recover_stuck lama (si_now s) (si_db s)) s"
| "langkah_antrean E ua (Buat acak p) s =
     pakai (dari (map_sum id snd (create_webhook (lk_urai E) ua acak (si_now s) p (si_db s)))) s"
| "langkah_antrean E ua (Perbaiki i p) s = pakai (dari (update_webhook (lk_urai E) (si_now s) i p (si_db s))) s"
| "langkah_antrean E ua (Hapus i) s = pakai (dari (delete_webhook i (si_db s))) s"
| "langkah_antrean E ua (Retensi cutoff batch) s = s\<lparr>si_db := fst (delete_retention cutoff batch (si_db s))\<rparr>"

definition jalan :: "lingkungan \<Rightarrow> (string \<Rightarrow> bool) \<Rightarrow> peristiwa_antrean list \<Rightarrow> sistem_antrean \<Rightarrow> sistem_antrean" where
  "jalan E ua evs s = foldl (\<lambda>s e. langkah_antrean E ua e s) s evs"

text \<open>
  The leases are kept when no recovery takes the row of a delivery that a worker still holds: workers
  renew every thirty seconds, recovery waits for minutes.
\<close>

fun sewa_terjaga :: "lingkungan \<Rightarrow> (string \<Rightarrow> bool) \<Rightarrow> peristiwa_antrean list \<Rightarrow> sistem_antrean \<Rightarrow> bool" where
  "sewa_terjaga E ua [] s = True"
| "sewa_terjaga E ua (e # evs) s =
     ((case e of
         Pulihkan lama \<Rightarrow>
           list_all (\<lambda>j. case cari_delivery (pk_id j) (si_db s) of
                           None \<Rightarrow> True
                         | Some d \<Rightarrow> \<not> tersangkut (if lama \<le> 0 then 5 * menit else lama) (si_now s) d) (si_kerja s)
       | _ \<Rightarrow> True)
      \<and> sewa_terjaga E ua evs (langkah_antrean E ua e s))"

section \<open>Statements and lookups\<close>

lemma cari_delivery_id: "cari_delivery i db = Some d \<Longrightarrow> dl_id d = i \<and> d \<in> set (an_deliveries db)"
  by (auto simp: cari_delivery_def find_Some_iff)

lemma find_map_same:
  "(\<And>x. P (f x) \<longleftrightarrow> P x) \<Longrightarrow> find P (map f xs) = map_option f (find P xs)"
  by (induction xs) auto

lemma find_filter_same:
  "find P (filter Q xs) = find (\<lambda>x. P x \<and> Q x) xs"
  by (induction xs) auto

lemma update_deliveries_cari:
  assumes "update_deliveries P f db = Some db'" "\<And>d. dl_id (f d) = dl_id d"
  shows "cari_delivery i db' = map_option (\<lambda>d. if P d then f d else d) (cari_delivery i db)"
    "an_webhooks db' = an_webhooks db" "an_seq db' = an_seq db"
    "map dl_id (an_deliveries db') = map dl_id (an_deliveries db)"
    "P d \<Longrightarrow> d \<in> set (an_deliveries db) \<Longrightarrow> delivery_sah (f d)"
  using assms
  by (auto simp: update_deliveries_def cari_delivery_def find_map_same list_all_iff comp_def split: if_splits)

lemma update_webhooks_sama:
  assumes "update_webhooks P f db = Some db'"
  shows "an_deliveries db' = an_deliveries db" "an_seq db' = an_seq db"
    "list_all webhook_sah (an_webhooks db) \<Longrightarrow> list_all webhook_sah (an_webhooks db')"
  using assms by (auto simp: update_webhooks_def list_all_iff split: if_splits)

lemma cari_delivery_cong: "an_deliveries db' = an_deliveries db \<Longrightarrow> cari_delivery i db' = cari_delivery i db"
  by (simp add: cari_delivery_def)

section \<open>One row at a time\<close>

text \<open>What an operation on the row \<open>i\<close> leaves alone.\<close>

definition hanya :: "int \<Rightarrow> antrean \<Rightarrow> antrean \<Rightarrow> bool" where
  "hanya i db db' \<longleftrightarrow>
     an_seq db' = an_seq db \<and> map dl_id (an_deliveries db') = map dl_id (an_deliveries db) \<and>
     (if list_all webhook_sah (an_webhooks db) then list_all webhook_sah (an_webhooks db') else True) \<and>
     (\<forall>j. j \<noteq> i \<longrightarrow> cari_delivery j db' = cari_delivery j db)"

lemma hanya_refl [simp]: "hanya i db db" by (simp add: hanya_def)

lemma hanya_trans: "hanya i a b \<Longrightarrow> hanya i b c \<Longrightarrow> hanya i a c"
  by (auto simp: hanya_def split: if_splits)

lemma hanya_row:
  assumes "update_deliveries (\<lambda>d. dl_id d = i) f db = Some db'" "\<And>d. dl_id (f d) = dl_id d"
  shows "hanya i db db'" "cari_delivery i db' = map_option f (cari_delivery i db)"
    "cari_delivery i db = Some r \<Longrightarrow> delivery_sah (f r)"
proof -
  note u = update_deliveries_cari [OF assms]
  show "hanya i db db'"
    using u(1-4) by (auto simp: hanya_def map_option_case dest: cari_delivery_id split: option.splits)
  show "cari_delivery i db' = map_option f (cari_delivery i db)"
    using u(1) [of i] by (cases "cari_delivery i db") (auto dest: cari_delivery_id)
  show "cari_delivery i db = Some r \<Longrightarrow> delivery_sah (f r)"
    using u(5) cari_delivery_id by blast
qed

lemma hanya_webhooks:
  assumes "update_webhooks P f db = Some db'"
  shows "hanya i db db'" "cari_delivery j db' = cari_delivery j db"
  using update_webhooks_sama [OF assms] by (auto simp: hanya_def cari_delivery_def)

lemma dl_id_updates [simp]:
  "dl_id (sewa now w d) = dl_id d" "dl_id (bebaskan d) = dl_id d" "dl_id (terkirim now c d) = dl_id d"
  "dl_id (gagal_baris st n nx cd p d) = dl_id d" "dl_id (tinggal_baris n p d) = dl_id d"
  by (simp_all add: sewa_def bebaskan_def terkirim_def gagal_baris_def tinggal_baris_def)

text \<open>
  How a dispatch ends for its row: unrecorded, closed by a success, or with one attempt more, failed or
  given up.
\<close>

definition akhir_baris :: "bool \<Rightarrow> int \<Rightarrow> bool \<Rightarrow> delivery \<Rightarrow> delivery \<Rightarrow> bool" where
  "akhir_baris sukses n ok r r' \<longleftrightarrow>
     (r' = r \<and> \<not> ok)
     \<or> (\<not> sukses \<and> delivery_sah r' \<and> dl_attempt_count r' = n \<and> (dl_status r' = Abandoned \<or> dl_status r' = Failed \<and> n \<le> 20))
     \<or> (sukses \<and> delivery_sah r' \<and> dl_attempt_count r' = dl_attempt_count r \<and> dl_status r' = Delivered)"

definition penutup :: "int \<Rightarrow> bool \<Rightarrow> int \<Rightarrow> antrean \<Rightarrow> antrean \<times> bool \<Rightarrow> bool" where
  "penutup i sukses n db h \<longleftrightarrow>
     hanya i db (fst h) \<and>
     (\<forall>r. cari_delivery i db = Some r \<longrightarrow>
        (\<exists>r'. cari_delivery i (fst h) = Some r' \<and> akhir_baris sukses n (snd h) r r'))"

lemma akhir_dua_langkah:
  assumes f: "\<And>db'. f db = Some db' \<Longrightarrow> hanya i db db' \<and> cari_delivery i db' = map_option u (cari_delivery i db)"
    and sah: "\<And>db' r. f db = Some db' \<Longrightarrow> cari_delivery i db = Some r \<Longrightarrow> akhir_baris sukses n True r (u r)"
    and ab: "\<And>r. akhir_baris sukses n True r (u r) \<Longrightarrow> akhir_baris sukses n False r (u r)"
    and g: "\<And>db1 db2. g db1 = Some db2 \<Longrightarrow> hanya i db1 db2 \<and> cari_delivery i db2 = cari_delivery i db1"
  shows "penutup i sukses n db (dua_langkah ok1 ok2 f g db)"
proof (cases "if ok1 then f db else None")
  case None
  then show ?thesis by (simp add: dua_langkah_def penutup_def akhir_baris_def)
next
  case (Some db1)
  then have f1: "f db = Some db1" by (simp split: if_splits)
  note f2 = f [OF f1] and s = sah [OF f1]
  show ?thesis
  proof (cases "if ok2 then g db1 else None")
    case None
    with f2 s ab show ?thesis by (auto simp: dua_langkah_def Some penutup_def)
  next
    case g1: (Some db2)
    then have "g db1 = Some db2" by (simp split: if_splits)
    with f2 s g show ?thesis by (auto simp: dua_langkah_def Some g1 penutup_def intro: hanya_trans)
  qed
qed

lemma akhir_abandoned: "penutup i False n db (record_abandoned ok1 ok2 now i wid n pesan db)"
  unfolding record_abandoned_def
proof (rule akhir_dua_langkah)
  fix db' assume u: "update_deliveries (\<lambda>d. dl_id d = i) (tinggal_baris n pesan) db = Some db'"
  note h = hanya_row [OF u]
  show "hanya i db db' \<and> cari_delivery i db' = map_option (tinggal_baris n pesan) (cari_delivery i db)"
    using h(1,2) by simp
  fix r assume "cari_delivery i db = Some r"
  with h(3) show "akhir_baris False n True r (tinggal_baris n pesan r)"
    by (simp add: akhir_baris_def) (simp add: tinggal_baris_def)
qed (auto simp: akhir_baris_def hanya_webhooks)

lemma akhir_failure:
  assumes "max_retries \<le> 20"
  shows "penutup i False n db (record_failure ok1 ok2 now i wid n max_retries next code pesan db)"
  unfolding record_failure_def Let_def
proof (rule akhir_dua_langkah)
  let ?st = "if max_retries < n then Abandoned else Failed"
  fix db' assume u: "update_deliveries (\<lambda>d. dl_id d = i) (gagal_baris ?st n next code pesan) db = Some db'"
  note h = hanya_row [OF u]
  show "hanya i db db' \<and> cari_delivery i db' = map_option (gagal_baris ?st n next code pesan) (cari_delivery i db)"
    using h(1,2) by simp
  fix r assume "cari_delivery i db = Some r"
  with h(3) assms show "akhir_baris False n True r (gagal_baris ?st n next code pesan r)"
    by (simp add: akhir_baris_def) (simp add: gagal_baris_def)
qed (auto simp: akhir_baris_def hanya_webhooks)

lemma akhir_success:
  "penutup i True n db
     (case (if ok then record_success now i wid code db else None) of None \<Rightarrow> (db, False) | Some db' \<Rightarrow> (db', True))"
proof (cases "if ok then record_success now i wid code db else None")
  case None
  then show ?thesis by (simp add: penutup_def akhir_baris_def)
next
  case (Some db2)
  then obtain db1 where 1: "update_webhooks (\<lambda>w. wh_id w = wid) (hitung_webhook now Delivered) db = Some db1"
    and 2: "update_deliveries (\<lambda>d. dl_id d = i) (terkirim now code) db1 = Some db2"
    by (auto simp: record_success_def bind_eq_Some_conv split: if_splits)
  note h1 = hanya_webhooks [OF 1] and h2 = hanya_row [OF 2, simplified]
  show ?thesis
    using h1 h2 hanya_trans [OF h1(1) h2(1)]
    by (auto simp: Some penutup_def akhir_baris_def) (auto simp: terkirim_def)
qed

lemma akhir_catat:
  assumes "wh_max_retries wh \<le> 20"
  shows "penutup (dl_id d) (dijawab_sukses h) (dl_attempt_count d + 1) db (dispatch_catat E ok1 ok2 now wh d h db)"
  using assms akhir_success [of "dl_id d" _ db "ok1 \<and> ok2"]
  by (auto simp: dispatch_catat_def dijawab_sukses_def catat_gagal_def Let_def intro!: akhir_failure split: hasil_http.split)

section \<open>The invariant\<close>

definition baris_aman :: "delivery \<Rightarrow> bool" where
  "baris_aman d \<longleftrightarrow> delivery_sah d \<and> dl_attempt_count d \<le> (if dl_status d = Abandoned then 21 else 20)"

text \<open>A delivery in memory and its row agree: the row is leased to that worker, at the same attempt.\<close>

definition pegang :: "antrean \<Rightarrow> pekerjaan \<Rightarrow> bool" where
  "pegang db j \<longleftrightarrow>
     (case cari_delivery (pk_id j) db of
        None \<Rightarrow> False
      | Some r \<Rightarrow> dl_status r = Delivering \<and> dl_locked_by r = Some (pk_worker j)
                  \<and> dl_attempt_count r = dl_attempt_count (pk_delivery j)) \<and>
     (case j of Diambil _ _ \<Rightarrow> True | Dikirimkan _ _ w \<Rightarrow> webhook_sah w)"

fun sedang_kirim :: "int \<Rightarrow> pekerjaan \<Rightarrow> bool" where
  "sedang_kirim i (Diambil w d) = False"
| "sedang_kirim i (Dikirimkan w d wh) = (dl_id d = i)"

definition satu :: "bool \<Rightarrow> int" where "satu b = (if b then 1 else 0)"

text \<open>The accounts of one delivery: every request sent is an attempt on record, in flight, delivered or lost.\<close>

definition buku_kirim :: "sistem_antrean \<Rightarrow> int \<Rightarrow> bool" where
  "buku_kirim s i \<longleftrightarrow>
     (case cari_delivery i (si_db s) of
        None \<Rightarrow>
          int (count_list (si_kirim s) i) \<le> (if an_seq (si_db s) < i then 0 else 21) + int (count_list (si_hilang s) i)
          \<and> int (count_list (si_sukses s) i) \<le> (if an_seq (si_db s) < i then 0 else 1) + int (count_list (si_hilang s) i)
      | Some d \<Rightarrow>
          int (count_list (si_kirim s) i)
            \<le> dl_attempt_count d + satu (dl_status d = Delivered) + satu (list_ex (sedang_kirim i) (si_kerja s))
              + int (count_list (si_hilang s) i)
          \<and> int (count_list (si_sukses s) i) \<le> satu (dl_status d = Delivered) + int (count_list (si_hilang s) i))"

definition antrean_utuh :: "antrean \<Rightarrow> bool" where
  "antrean_utuh db \<longleftrightarrow>
     distinct (map dl_id (an_deliveries db)) \<and> list_all webhook_sah (an_webhooks db) \<and>
     (\<forall>d\<in>set (an_deliveries db). dl_id d \<le> an_seq db \<and> baris_aman d)"

definition utuh :: "sistem_antrean \<Rightarrow> bool" where
  "utuh s \<longleftrightarrow>
     antrean_utuh (si_db s) \<and> distinct (map pk_id (si_kerja s)) \<and>
     (\<forall>j\<in>set (si_kerja s). pegang (si_db s) j) \<and> (\<forall>i. buku_kirim s i)"

lemma cari_unik: "distinct (map dl_id (an_deliveries db)) \<Longrightarrow> d \<in> set (an_deliveries db) \<Longrightarrow> cari_delivery (dl_id d) db = Some d"
proof -
  have "distinct (map dl_id xs) \<Longrightarrow> d \<in> set xs \<Longrightarrow> find (\<lambda>e. dl_id e = dl_id d) xs = Some d" for xs
    by (induction xs) (auto simp: image_iff)
  then show "distinct (map dl_id (an_deliveries db)) \<Longrightarrow> d \<in> set (an_deliveries db) \<Longrightarrow> cari_delivery (dl_id d) db = Some d"
    by (simp add: cari_delivery_def)
qed

lemma cari_None: "cari_delivery i db = None \<longleftrightarrow> i \<notin> set (map dl_id (an_deliveries db))"
  by (auto simp: cari_delivery_def find_None_iff)

text \<open>The invariant of the tables, by lookups.\<close>

lemma antrean_utuh_iff:
  "antrean_utuh db \<longleftrightarrow>
     distinct (map dl_id (an_deliveries db)) \<and> list_all webhook_sah (an_webhooks db) \<and>
     (\<forall>i d. cari_delivery i db = Some d \<longrightarrow> i \<le> an_seq db \<and> baris_aman d)"
  unfolding antrean_utuh_def using cari_unik [of db] cari_delivery_id [of _ db] by metis

lemma antrean_utuhD:
  assumes "antrean_utuh db" "cari_delivery i db = Some d"
  shows "i \<le> an_seq db" "delivery_sah d" "dl_attempt_count d \<le> (if dl_status d = Abandoned then 21 else 20)"
    "0 \<le> dl_attempt_count d"
  using assms by (auto simp: antrean_utuh_iff baris_aman_def delivery_sah_def)

lemma cari_webhook_sah: "antrean_utuh db \<Longrightarrow> cari_webhook i db = Some w \<Longrightarrow> webhook_sah w"
  by (auto simp: antrean_utuh_def cari_webhook_def list_all_iff find_Some_iff)

subsection \<open>The end of a dispatch\<close>

lemma buang_set: "k < length xs \<Longrightarrow> set xs = insert (xs ! k) (set (buang k xs))"
  by (metis buang_def id_take_nth_drop list.set(2) set_append Un_insert_right)

lemma buang_distinct: "distinct (map f xs) \<Longrightarrow> k < length xs \<Longrightarrow> distinct (map f (buang k xs)) \<and> f (xs ! k) \<notin> f ` set (buang k xs)"
  by (subst (asm) id_take_nth_drop [of k xs]) (auto simp: buang_def)

lemma count_list_Cons: "count_list (x # xs) i = (if x = i then 1 else 0) + count_list xs i"
  by simp

lemma selesai_utuh:
  assumes u: "utuh s" and k: "k < length (si_kerja s)" and i: "pk_id (si_kerja s ! k) = i"
    and a: "penutup i sukses (dl_attempt_count (pk_delivery (si_kerja s ! k)) + 1) (si_db s) h"
  shows "utuh ((selesai k i h s)\<lparr>si_sukses := (if sukses then i # si_sukses s else si_sukses s)\<rparr>)"
    (is "utuh ?s'")
proof -
  let ?j = "si_kerja s ! k"
  obtain db ok where h: "h = (db, ok)" by (cases h)
  have j: "?j \<in> set (si_kerja s)" using k by simp
  obtain r where r: "cari_delivery i (si_db s) = Some r" "dl_status r = Delivering"
    "dl_attempt_count r = dl_attempt_count (pk_delivery ?j)"
    using u j i by (auto simp: utuh_def pegang_def split: option.splits)
  note rb = antrean_utuhD [OF _ r(1)]
  have ut: "antrean_utuh (si_db s)" using u by (simp add: utuh_def)
  obtain r' where r': "cari_delivery i db = Some r'" "akhir_baris sukses (dl_attempt_count r + 1) ok r r'"
    using a r h by (auto simp: penutup_def)
  have hn: "hanya i (si_db s) db" using a h by (simp add: penutup_def)
  have same: "cari_delivery x db = cari_delivery x (si_db s)" if "x \<noteq> i" for x
    using hn that by (simp add: hanya_def)
  have aman: "baris_aman r'"
    using r' r(2) rb [OF ut] by (auto simp: akhir_baris_def baris_aman_def)
  have db: "antrean_utuh db"
    using ut hn r'(1) aman same rb(1) [OF ut]
    unfolding antrean_utuh_iff by (auto simp: hanya_def) (metis option.inject)+
  have dist: "distinct (map pk_id (buang k (si_kerja s)))" "i \<notin> pk_id ` set (buang k (si_kerja s))"
    using buang_distinct [of pk_id "si_kerja s" k] u k i by (auto simp: utuh_def)
  have peg: "\<forall>x\<in>set (buang k (si_kerja s)). pegang db x"
  proof
    fix x assume x: "x \<in> set (buang k (si_kerja s))"
    then have "pk_id x \<noteq> i" using dist(2) by auto
    moreover have "pegang (si_db s) x" using u x buang_set [OF k] by (auto simp: utuh_def)
    ultimately show "pegang db x" using same by (simp add: pegang_def)
  qed
  have tiada: "\<not> list_ex (sedang_kirim i) (buang k (si_kerja s))"
    using dist(2) by (force simp: list_ex_iff elim!: sedang_kirim.elims)
  have lain: "list_ex (sedang_kirim x) (buang k (si_kerja s)) = list_ex (sedang_kirim x) (si_kerja s)" if "x \<noteq> i" for x
    using buang_set [OF k] that i by (auto simp: list_ex_iff elim!: sedang_kirim.elims)
  have "buku_kirim ?s' x" for x
  proof (cases "x = i")
    case True
    have c: "int (count_list (si_kirim s) i) \<le> dl_attempt_count r + satu (list_ex (sedang_kirim i) (si_kerja s)) + int (count_list (si_hilang s) i)"
      "int (count_list (si_sukses s) i) \<le> int (count_list (si_hilang s) i)"
      using u r by (auto simp: utuh_def buku_kirim_def satu_def dest!: spec [where x=i] split: option.splits)
    have "satu (list_ex (sedang_kirim i) (si_kerja s)) \<le> 1" by (simp add: satu_def)
    with c r'(2) r(2) tiada True r'(1) h show ?thesis
      by (auto simp: buku_kirim_def selesai_def satu_def akhir_baris_def)
  next
    case False
    have "buku_kirim s x" using u by (simp add: utuh_def)
    with False show ?thesis
      using same [OF False] lain [OF False] hn h
      by (auto simp: buku_kirim_def selesai_def hanya_def split: option.splits)
  qed
  with db dist(1) peg h show ?thesis by (simp add: utuh_def selesai_def)
qed

subsection \<open>Changes of the tables alone\<close>

definition setara :: "delivery option \<Rightarrow> delivery option \<Rightarrow> bool" where
  "setara x y \<longleftrightarrow>
     (case (x, y) of
        (None, None) \<Rightarrow> True
      | (Some r, Some r') \<Rightarrow> dl_attempt_count r' = dl_attempt_count r \<and> (dl_status r' = Delivered) = (dl_status r = Delivered)
      | (Some r, None) \<Rightarrow> dl_status r \<in> {Delivered, Abandoned}
      | (None, Some _) \<Rightarrow> False)"

lemma tidak_dikirim:
  assumes "\<forall>j\<in>set kerja. pegang db j" "cari_delivery i db = Some r" "dl_status r \<noteq> Delivering"
  shows "\<not> list_ex (sedang_kirim i) kerja"
  using assms by (fastforce simp: list_ex_iff pegang_def elim!: sedang_kirim.elims)

lemma utuh_tabel:
  assumes u: "utuh s" and db: "antrean_utuh db" "an_seq db = an_seq (si_db s)"
    and c: "\<And>i. setara (cari_delivery i (si_db s)) (cari_delivery i db)"
    and p: "\<And>j. j \<in> set (si_kerja s) \<Longrightarrow> pegang db j"
  shows "utuh (s\<lparr>si_db := db\<rparr>)"
proof -
  have "buku_kirim (s\<lparr>si_db := db\<rparr>) i" for i
  proof (cases "cari_delivery i (si_db s)")
    case None
    then have "cari_delivery i db = None" using c [of i] by (simp add: setara_def split: option.splits)
    moreover have "buku_kirim s i" using u by (simp add: utuh_def)
    ultimately show ?thesis using None db(2) by (simp add: buku_kirim_def)
  next
    case r: (Some r)
    have cs: "buku_kirim s i" and ut: "antrean_utuh (si_db s)" and pg: "\<forall>j\<in>set (si_kerja s). pegang (si_db s) j"
      using u by (simp_all add: utuh_def)
    show ?thesis
    proof (cases "cari_delivery i db")
      case (Some r')
      then show ?thesis using cs r c [of i] by (simp add: buku_kirim_def setara_def)
    next
      case None
      then have st: "dl_status r \<in> {Delivered, Abandoned}" using r c [of i] by (simp add: setara_def)
      then have "\<not> list_ex (sedang_kirim i) (si_kerja s)" using tidak_dikirim [OF pg r] by auto
      with None st cs r antrean_utuhD [OF ut r] db(2) show ?thesis
        by (auto simp: buku_kirim_def satu_def)
    qed
  qed
  with u db(1) p show ?thesis by (simp add: utuh_def)
qed

text \<open>An update that keeps attempts and neither makes nor unmakes a delivered row.\<close>

lemma utuh_update:
  assumes u: "utuh s" and up: "update_deliveries P f (si_db s) = Some db"
    and f: "\<And>d. dl_id (f d) = dl_id d" "\<And>d. dl_attempt_count (f d) = dl_attempt_count d"
      "\<And>d. P d \<Longrightarrow> dl_status d \<notin> {Delivered, Abandoned} \<and> dl_status (f d) \<notin> {Delivered, Abandoned}"
    and p: "\<And>j r. j \<in> set (si_kerja s) \<Longrightarrow> cari_delivery (pk_id j) (si_db s) = Some r \<Longrightarrow> P r \<Longrightarrow>
              dl_status (f r) = dl_status r \<and> dl_locked_by (f r) = dl_locked_by r"
  shows "utuh (s\<lparr>si_db := db\<rparr>)"
proof (rule utuh_tabel [OF u])
  note up' = update_deliveries_cari [OF up f(1)]
  have ut: "antrean_utuh (si_db s)" using u by (simp add: utuh_def)
  show "an_seq db = an_seq (si_db s)" by (rule up')
  show "setara (cari_delivery i (si_db s)) (cari_delivery i db)" for i
    using f(2,3) by (cases "cari_delivery i (si_db s)") (auto simp: up'(1) setara_def)
  show "antrean_utuh db"
    unfolding antrean_utuh_iff up'
  proof (intro conjI allI impI)
    show "distinct (map dl_id (an_deliveries (si_db s)))" "list_all webhook_sah (an_webhooks (si_db s))"
      using ut by (simp_all add: antrean_utuh_def)
    fix i d assume "map_option (\<lambda>d. if P d then f d else d) (cari_delivery i (si_db s)) = Some d"
    then obtain r where r: "cari_delivery i (si_db s) = Some r" "d = (if P r then f r else r)" by auto
    show "i \<le> an_seq (si_db s)" by (rule antrean_utuhD [OF ut r(1)])
    show "baris_aman d"
      using antrean_utuhD [OF ut r(1)] r f(2,3) [of r] up'(5) [of r] cari_delivery_id [OF r(1)]
      by (auto simp: baris_aman_def split: if_splits)
  qed
  show "pegang db j" if j: "j \<in> set (si_kerja s)" for j
  proof -
    have "pegang (si_db s) j" using u j by (simp add: utuh_def)
    then show ?thesis using p [OF j] f(2) by (auto simp: pegang_def up'(1) split: option.splits)
  qed
qed

lemma utuh_perbarui: "utuh s \<Longrightarrow> utuh (langkah_antrean E ua (Perbarui w ids) s)"
proof -
  assume u: "utuh s"
  show ?thesis
  proof (cases "renew_leases ids w (si_now s) (si_db s)")
    case (Some db)
    show ?thesis
    proof (cases "ids = []")
      case True
      with Some u show ?thesis by (cases s) (simp add: pakai_def renew_leases_def)
    next
      case False
      with Some have "update_deliveries (\<lambda>d. dl_id d \<in> set ids \<and> dl_status d = Delivering \<and> dl_locked_by d = Some w)
             (\<lambda>d. d\<lparr>dl_locked_at := Some (si_now s)\<rparr>) (si_db s) = Some db" by (simp add: renew_leases_def)
      from utuh_update [OF u this] show ?thesis by (simp add: Some pakai_def)
    qed
  qed (simp add: u pakai_def)
qed

lemma utuh_pulihkan:
  assumes u: "utuh s"
    and a: "list_all (\<lambda>j. case cari_delivery (pk_id j) (si_db s) of None \<Rightarrow> True
                           | Some d \<Rightarrow> \<not> tersangkut (if lama \<le> 0 then 5 * menit else lama) (si_now s) d) (si_kerja s)"
  shows "utuh (langkah_antrean E ua (Pulihkan lama) s)"
proof (cases "recover_stuck lama (si_now s) (si_db s)")
  case (Some db)
  from Some [unfolded recover_stuck_def] have "utuh (s\<lparr>si_db := db\<rparr>)"
    by (rule utuh_update [OF u])
      (use a in \<open>auto simp: bebaskan_def tersangkut_def list_all_iff split: option.splits\<close>)
  then show ?thesis by (simp add: Some pakai_def)
qed (simp add: u pakai_def)

lemma utuh_retensi: "utuh s \<Longrightarrow> utuh (langkah_antrean E ua (Retensi cutoff batch) s)"
proof -
  assume u: "utuh s"
  have ut: "antrean_utuh (si_db s)" using u by (simp add: utuh_def)
  define ids where "ids = map dl_id (take (nat (if batch \<le> 0 then 500 else batch))
      (filter (\<lambda>d. dl_status d \<in> {Delivered, Abandoned} \<and> dl_created_at d < cutoff) (an_deliveries (si_db s))))"
  define db where "db = (si_db s)\<lparr>an_deliveries := filter (\<lambda>d. dl_id d \<notin> set ids) (an_deliveries (si_db s))\<rparr>"
  have c: "cari_delivery i db = (if i \<in> set ids then None else cari_delivery i (si_db s))" for i
    by (auto simp: cari_delivery_def db_def find_filter_same find_None_iff intro!: arg_cong2 [where f=find])
  have st: "dl_status r \<in> {Delivered, Abandoned}" if "i \<in> set ids" "cari_delivery i (si_db s) = Some r" for i r
  proof -
    from that(1) obtain d where d: "d \<in> set (an_deliveries (si_db s))" "dl_id d = i" "dl_status d \<in> {Delivered, Abandoned}"
      by (auto simp: ids_def dest!: in_set_takeD)
    moreover from this ut have "cari_delivery i (si_db s) = Some d" using cari_unik by (auto simp: antrean_utuh_def)
    ultimately show ?thesis using that(2) by simp
  qed
  have "utuh (s\<lparr>si_db := db\<rparr>)"
  proof (rule utuh_tabel [OF u])
    show "antrean_utuh db" using ut by (auto simp: antrean_utuh_def db_def distinct_map_filter)
    show "an_seq db = an_seq (si_db s)" by (simp add: db_def)
    show "setara (cari_delivery i (si_db s)) (cari_delivery i db)" for i
      using st [of i] by (cases "cari_delivery i (si_db s)") (auto simp: c setara_def)
    show "pegang db j" if "j \<in> set (si_kerja s)" for j
    proof -
      have "pegang (si_db s) j" using u that by (simp add: utuh_def)
      with st [of "pk_id j"] show ?thesis by (auto simp: pegang_def c split: option.splits)
    qed
  qed
  then show ?thesis by (simp add: delete_retention_def Let_def db_def ids_def)
qed

text \<open>The registry: only rows of webhooks change, and they keep their constraints.\<close>

lemma utuh_registry:
  assumes u: "utuh s" and db: "an_deliveries db = an_deliveries (si_db s)" "an_seq db = an_seq (si_db s)"
    "list_all webhook_sah (an_webhooks db)"
  shows "utuh (s\<lparr>si_db := db\<rparr>)"
proof (rule utuh_tabel [OF u])
  have c: "cari_delivery i db = cari_delivery i (si_db s)" for i using db(1) by (rule cari_delivery_cong)
  show "antrean_utuh db" using u db by (simp add: utuh_def antrean_utuh_def)
  show "an_seq db = an_seq (si_db s)" by (rule db)
  show "setara (cari_delivery i (si_db s)) (cari_delivery i db)" for i by (simp add: c setara_def split: option.splits)
  show "pegang db j" if "j \<in> set (si_kerja s)" for j
    using u that by (auto simp: utuh_def pegang_def c)
qed

lemma insert_webhook_tabel:
  assumes "insert_webhook ua w db = Inr db'" "list_all webhook_sah (an_webhooks db)"
  shows "an_deliveries db' = an_deliveries db \<and> an_seq db' = an_seq db \<and> list_all webhook_sah (an_webhooks db')"
  using assms by (auto simp: insert_webhook_def split: if_splits)

lemma create_webhook_tabel:
  assumes "create_webhook U ua acak now p db = Inr (w, db')" "list_all webhook_sah (an_webhooks db)"
  shows "an_deliveries db' = an_deliveries db \<and> an_seq db' = an_seq db \<and> list_all webhook_sah (an_webhooks db')"
proof -
  obtain v where "insert_webhook ua v db = Inr db'"
    using assms(1) by (auto simp: create_webhook_def Let_def lanjut_Inr_iff split: sum.splits option.splits)
  then show ?thesis using assms(2) by (rule insert_webhook_tabel)
qed

lemma update_webhook_tabel:
  assumes "update_webhook U now i p db = Inr db'" "list_all webhook_sah (an_webhooks db)"
  shows "an_deliveries db' = an_deliveries db \<and> an_seq db' = an_seq db \<and> list_all webhook_sah (an_webhooks db')"
  using assms update_webhooks_sama
  by (fastforce simp: update_webhook_def lanjut_Inr_iff Let_def split: option.splits if_splits)

lemma delete_webhook_tabel:
  assumes "delete_webhook i db = Inr db'" "list_all webhook_sah (an_webhooks db)"
  shows "an_deliveries db' = an_deliveries db \<and> an_seq db' = an_seq db \<and> list_all webhook_sah (an_webhooks db')"
  using assms by (auto simp: delete_webhook_def list_all_iff split: if_splits)

lemma utuh_buat: "utuh s \<Longrightarrow> utuh (langkah_antrean E ua (Buat acak p) s)"
  using create_webhook_tabel [of "lk_urai E" ua acak "si_now s" p "si_db s"]
  by (cases "create_webhook (lk_urai E) ua acak (si_now s) p (si_db s)")
    (auto simp: pakai_def dari_def utuh_def [of s] antrean_utuh_def [of "si_db s"] intro!: utuh_registry)

lemma utuh_perbaiki: "utuh s \<Longrightarrow> utuh (langkah_antrean E ua (Perbaiki i p) s)"
  using update_webhook_tabel [of "lk_urai E" "si_now s" i p "si_db s"]
  by (auto simp: pakai_def dari_def utuh_def [of s] antrean_utuh_def [of "si_db s"]
      intro!: utuh_registry split: option.splits sum.splits)

lemma utuh_hapus: "utuh s \<Longrightarrow> utuh (langkah_antrean E ua (Hapus i) s)"
  using delete_webhook_tabel [of i "si_db s"]
  by (auto simp: pakai_def dari_def utuh_def [of s] antrean_utuh_def [of "si_db s"]
      intro!: utuh_registry split: option.splits sum.splits)

subsection \<open>New deliveries and claims\<close>

lemma utuh_sisip:
  assumes u: "utuh (s\<lparr>si_db := db\<rparr>)" and d: "dl_id d = an_seq db + 1" "delivery_sah d" "dl_attempt_count d = 0" "dl_status d = Pending"
  shows "utuh (s\<lparr>si_db := db\<lparr>an_deliveries := an_deliveries db @ [d], an_seq := an_seq db + 1\<rparr>\<rparr>)" (is "utuh (s\<lparr>si_db := ?db\<rparr>)")
proof -
  have ut: "antrean_utuh db" using u by (simp add: utuh_def)
  have none: "cari_delivery (an_seq db + 1) db = None"
    using antrean_utuhD(1) [OF ut, of "an_seq db + 1"] by (cases "cari_delivery (an_seq db + 1) db") auto
  have find_snoc: "find P (xs @ [x]) = (case find P xs of None \<Rightarrow> if P x then Some x else None | Some y \<Rightarrow> Some y)" for P xs and x :: delivery
    by (induction xs) auto
  have c: "cari_delivery i ?db = (if i = an_seq db + 1 then Some d else cari_delivery i db)" for i
    using none d(1) by (auto simp: cari_delivery_def find_snoc split: option.splits)
  have "antrean_utuh ?db"
    using ut d none cari_None [of "an_seq db + 1" db]
    by (auto simp: antrean_utuh_def baris_aman_def)
  moreover have "buku_kirim (s\<lparr>si_db := ?db\<rparr>) i" for i
  proof -
    have cs: "buku_kirim (s\<lparr>si_db := db\<rparr>) i" using u by (simp add: utuh_def)
    show ?thesis
    proof (cases "i = an_seq db + 1")
      case True
      then show ?thesis using cs none d(3,4) by (auto simp: buku_kirim_def c satu_def)
    next
      case False
      then show ?thesis using cs by (auto simp: buku_kirim_def c split: option.splits)
    qed
  qed
  moreover have "pegang ?db j" if "j \<in> set (si_kerja s)" for j
    using u that none by (auto simp: utuh_def pegang_def c split: option.splits)
  ultimately show ?thesis using u by (simp add: utuh_def)
qed

lemma utuh_sisip_deliveries:
  "utuh (s\<lparr>si_db := db\<rparr>) \<Longrightarrow> utuh (s\<lparr>si_db := fst (sisip_deliveries gagal now ev isi' k ws db)\<rparr>)"
proof (induction gagal now ev isi' k ws db rule: sisip_deliveries.induct)
  case (2 gagal now ev isi' k wid ws db)
  let ?d = "delivery_baru now (an_seq db + 1) wid ev isi'"
  have "utuh (s\<lparr>si_db := db\<lparr>an_deliveries := an_deliveries db @ [?d], an_seq := an_seq db + 1\<rparr>\<rparr>)" if "delivery_sah ?d"
    by (rule utuh_sisip [OF "2.prems" _ that]) (simp_all add: delivery_baru_def)
  with 2 show ?case by (simp add: Let_def)
qed simp

lemma utuh_masuk: "utuh s \<Longrightarrow> utuh (langkah_antrean E ua (Masuk terbaca gagal ev isi') s)"
proof -
  assume "utuh s"
  then have "utuh (s\<lparr>si_db := si_db s\<rparr>)" by (cases s) simp
  then show ?thesis
    using utuh_sisip_deliveries by (auto simp: enqueue_def Let_def split: option.split)
qed

lemma claimed_siap: "i \<in> set (claimed lewat limit now db) \<Longrightarrow> \<exists>d\<in>set (an_deliveries db). dl_id d = i \<and> siap_diambil now d"
  by (auto simp: claimed_def Let_def dest!: in_set_takeD)

lemma utuh_ambil: "utuh s \<Longrightarrow> utuh (langkah_antrean E ua (Ambil w limit lewat) s)"
proof -
  assume u: "utuh s"
  let ?db = "si_db s" and ?now = "si_now s"
  define ids where "ids = claimed (\<lambda>i. i \<in> set lewat) limit ?now ?db"
  have ut: "antrean_utuh ?db" using u by (simp add: utuh_def)
  have siap: "siap_diambil ?now r" if "i \<in> set ids" "cari_delivery i ?db = Some r" for i r
    using claimed_siap [of i "\<lambda>i. i \<in> set lewat" limit ?now ?db] that cari_unik [of ?db] ut
    by (auto simp: ids_def antrean_utuh_def)
  show ?thesis
  proof (cases "update_deliveries (\<lambda>d. dl_id d \<in> set ids) (sewa ?now w) ?db")
    case None
    with u show ?thesis by (simp add: claim_due_def Let_def ids_def)
  next
    case (Some db)
    note up = update_deliveries_cari [OF Some, simplified]
    let ?ds = "filter (\<lambda>d. dl_id d \<in> set ids) (an_deliveries db)"
    have pg: "\<forall>j\<in>set (si_kerja s). pegang ?db j" using u by (simp add: utuh_def)
    have bebas: "pk_id j \<notin> set ids" if "j \<in> set (si_kerja s)" for j
      using pg that siap [of "pk_id j"] by (auto simp: pegang_def siap_diambil_def split: option.splits)
    define P where "P = (\<lambda>d. siap_diambil ?now d \<and> dl_id d \<in> set ids)"
    have "update_deliveries P (sewa ?now w) ?db = Some db"
    proof -
      have "(dl_id d \<in> set ids) = P d" if "d \<in> set (an_deliveries ?db)" for d
        using siap [of "dl_id d" d] cari_unik [OF _ that] ut that by (auto simp: P_def antrean_utuh_def)
      then show ?thesis using Some by (simp add: update_deliveries_def list_all_iff cong: map_cong if_cong)
    qed
    then have 1: "utuh (s\<lparr>si_db := db\<rparr>)"
    proof (rule utuh_update [OF u])
      fix j r assume "j \<in> set (si_kerja s)" "cari_delivery (pk_id j) ?db = Some r" "P r"
      with bebas show "dl_status (sewa ?now w r) = dl_status r \<and> dl_locked_by (sewa ?now w r) = dl_locked_by r"
        using cari_delivery_id [of "pk_id j" ?db r] by (auto simp: P_def)
    qed (auto simp: P_def sewa_def siap_diambil_def)
    have dist: "distinct (map dl_id (an_deliveries db))" using up(4) ut by (simp add: antrean_utuh_def)
    have ds: "cari_delivery (dl_id d) db = Some d \<and> dl_id d \<in> set ids \<and> dl_status d = Delivering \<and> dl_locked_by d = Some w"
      if "d \<in> set ?ds" for d
    proof -
      have d: "d \<in> set (an_deliveries db)" "dl_id d \<in> set ids" using that by auto
      have cd: "cari_delivery (dl_id d) db = Some d" by (rule cari_unik [OF dist d(1)])
      then obtain r where r: "cari_delivery (dl_id d) ?db = Some r" "d = (if dl_id r \<in> set ids then sewa ?now w r else r)"
        using up(1) [of "dl_id d"] by auto
      have "dl_id r = dl_id d" using cari_delivery_id [OF r(1)] by blast
      then have "dl_id r \<in> set ids" using d(2) by metis
      then have e: "d = sewa ?now w r" by (intro trans [OF r(2)]) (simp only: if_True)
      have "dl_status (sewa ?now w r) = Delivering" "dl_locked_by (sewa ?now w r) = Some w" by (simp_all add: sewa_def)
      with cd d(2) show ?thesis unfolding e [symmetric] by blast
    qed
    have "utuh (s\<lparr>si_db := db, si_kerja := si_kerja s @ map (Diambil w) ?ds\<rparr>)"
    proof -
      have "buku_kirim (s\<lparr>si_db := db, si_kerja := si_kerja s @ map (Diambil w) ?ds\<rparr>) i" for i
      proof -
        have "list_ex (sedang_kirim i) (map (Diambil w) ?ds) = False" by (auto simp: list_ex_iff)
        moreover have "buku_kirim (s\<lparr>si_db := db\<rparr>) i" using 1 by (simp add: utuh_def)
        ultimately show ?thesis by (cases s) (simp add: buku_kirim_def cong: option.case_cong)
      qed
      moreover have "pegang db j" if "j \<in> set (map (Diambil w) ?ds)" for j
      proof -
        from that obtain d where d: "j = Diambil w d" "d \<in> set ?ds" by auto
        from ds [OF d(2)] show ?thesis by (simp add: d(1) pegang_def cong: option.case_cong)
      qed
      moreover have "distinct (map pk_id (si_kerja s @ map (Diambil w) ?ds))"
      proof -
        have "distinct (map pk_id (si_kerja s))" using u by (simp add: utuh_def)
        moreover have "distinct (map dl_id ?ds)" using dist by (rule distinct_map_filter)
        moreover have "map pk_id (map (Diambil w) ?ds) = map dl_id ?ds" by simp
        moreover have "set (map pk_id (si_kerja s)) \<inter> set (map dl_id ?ds) = {}"
          using bebas by (auto simp: disjoint_iff) (metis (no_types))
        ultimately show ?thesis by (simp only: map_append distinct_append)
      qed
      ultimately show ?thesis using 1 by (auto simp: utuh_def)
    qed
    then show ?thesis using Some by (simp add: claim_due_def Let_def ids_def)
  qed
qed

subsection \<open>Dispatch and loss\<close>

lemma selesai_utuh_gagal:
  assumes "utuh s" "k < length (si_kerja s)" "pk_id (si_kerja s ! k) = i"
    "penutup i False (dl_attempt_count (pk_delivery (si_kerja s ! k)) + 1) (si_db s) h"
  shows "utuh (selesai k i h s)"
  using selesai_utuh [OF assms] by (simp add: selesai_def)

lemma utuh_siapkan: "utuh s \<Longrightarrow> utuh (langkah_antrean E ua (Siapkan k terbaca ok1 ok2) s)"
proof -
  assume u: "utuh s"
  show ?thesis
  proof (cases "k < length (si_kerja s)")
    case k: True
    show ?thesis
    proof (cases "si_kerja s ! k")
      case j: (Diambil w d)
      have i: "pk_id (si_kerja s ! k) = dl_id d" by (simp add: j)
      show ?thesis
      proof (cases "dispatch_siap E terbaca (si_now s div detik) d (si_db s)")
        case (Tinggalkan wid pesan)
        with k j selesai_utuh_gagal [OF u k i] show ?thesis
          by (simp add: siapkan_kirim_def akhir_abandoned)
      next
        case (GagalSusun wh pesan)
        then have "webhook_sah wh"
          using cari_webhook_sah u by (auto simp: utuh_def dispatch_siap_def split: option.splits if_splits)
        with GagalSusun k j selesai_utuh_gagal [OF u k i] show ?thesis
          by (simp add: siapkan_kirim_def catat_gagal_def Let_def akhir_failure webhook_sah_def)
      next
        case (Kirim wh kr)
        then have wh: "webhook_sah wh"
          using cari_webhook_sah u by (auto simp: utuh_def dispatch_siap_def split: option.splits if_splits)
        let ?kerja = "(si_kerja s)[k := Dikirimkan w d wh]"
        let ?s = "s\<lparr>si_kerja := ?kerja, si_kirim := dl_id d # si_kirim s\<rparr>"
        have id: "map pk_id ?kerja = map pk_id (si_kerja s)"
          using k j by (simp add: map_update list_update_same_conv)
        have pg: "\<forall>x\<in>set (si_kerja s). pegang (si_db s) x" using u by (simp add: utuh_def)
        then have pd: "pegang (si_db s) (Diambil w d)" using k j by (metis nth_mem)
        have "pegang (si_db s) x" if "x \<in> set ?kerja" for x
        proof -
          have "x = Dikirimkan w d wh \<or> x \<in> set (si_kerja s)"
            using that set_update_subset_insert [of "si_kerja s" k] by blast
          moreover have "pegang (si_db s) (Dikirimkan w d wh)" using pd wh by (simp add: pegang_def cong: option.case_cong)
          ultimately show ?thesis using pg by blast
        qed
        moreover have "buku_kirim ?s x" for x
        proof -
          have cs: "buku_kirim s x" using u by (simp add: utuh_def)
          have kx: "list_ex (sedang_kirim x) ?kerja \<longleftrightarrow> (x = dl_id d \<or> list_ex (sedang_kirim x) (si_kerja s))"
            using k j by (auto simp: list_ex_length nth_list_update) (metis sedang_kirim.simps(1))+
          show ?thesis
          proof (cases "x = dl_id d")
            case True
            have "\<not> list_ex (sedang_kirim x) (si_kerja s)"
            proof
              assume "list_ex (sedang_kirim x) (si_kerja s)"
              then obtain n where n: "n < length (si_kerja s)" "sedang_kirim x (si_kerja s ! n)" by (auto simp: list_ex_length)
              then have "pk_id (si_kerja s ! n) = pk_id (si_kerja s ! k)" using True i by (auto elim!: sedang_kirim.elims)
              then have "n = k"
                using u n(1) k nth_eq_iff_index_eq [of "map pk_id (si_kerja s)" n k] by (simp add: utuh_def)
              with n(2) j show False by simp
            qed
            with cs True kx pd show ?thesis by (auto simp: buku_kirim_def pegang_def satu_def split: option.splits)
          next
            case False
            with cs kx show ?thesis by (auto simp: buku_kirim_def split: option.splits)
          qed
        qed
        ultimately have "utuh ?s" using u id by (simp add: utuh_def)
        with k j Kirim show ?thesis by (simp add: siapkan_kirim_def)
      qed
    next
      case (Dikirimkan w d wh)
      with u k show ?thesis by (simp add: siapkan_kirim_def)
    qed
  qed (simp add: u siapkan_kirim_def)
qed

lemma utuh_catat: "utuh s \<Longrightarrow> utuh (langkah_antrean E ua (Catat k ok1 ok2 h) s)"
proof -
  assume u: "utuh s"
  show ?thesis
  proof (cases "k < length (si_kerja s)")
    case k: True
    show ?thesis
    proof (cases "si_kerja s ! k")
      case j: (Dikirimkan w d wh)
      have "pegang (si_db s) (Dikirimkan w d wh)" using u k j by (metis utuh_def nth_mem)
      then have "wh_max_retries wh \<le> 20" by (simp add: pegang_def webhook_sah_def)
      from akhir_catat [OF this, of d h "si_db s" E ok1 ok2 "si_now s"]
      show ?thesis
        using selesai_utuh [OF u k, of "dl_id d" "dijawab_sukses h"] k j by (simp add: catat_hasil_def)
    qed (use u k in \<open>simp add: catat_hasil_def\<close>)
  qed (simp add: u catat_hasil_def)
qed

lemma utuh_putus: "utuh s \<Longrightarrow> utuh (langkah_antrean E ua (Putus k) s)"
proof -
  assume u: "utuh s"
  show ?thesis
  proof (cases "k < length (si_kerja s)")
    case k: True
    let ?i = "pk_id (si_kerja s ! k)"
    have "penutup ?i False (dl_attempt_count (pk_delivery (si_kerja s ! k)) + 1) (si_db s) (si_db s, False)"
      by (simp add: penutup_def akhir_baris_def)
    from selesai_utuh_gagal [OF u k refl this] k show ?thesis by (cases s) (simp add: selesai_def)
  qed (simp add: u)
qed

lemma utuh_waktu: "utuh (s\<lparr>si_now := t\<rparr>) = utuh s"
proof -
  have "buku_kirim (s\<lparr>si_now := t\<rparr>) i = buku_kirim s i" for i
    by (cases s) (simp add: buku_kirim_def cong: option.case_cong)
  then show ?thesis by (simp add: utuh_def)
qed

lemma utuh_langkah:
  assumes "utuh s"
    "case e of
         Pulihkan lama \<Rightarrow>
           list_all (\<lambda>j. case cari_delivery (pk_id j) (si_db s) of
                           None \<Rightarrow> True
                         | Some d \<Rightarrow> \<not> tersangkut (if lama \<le> 0 then 5 * menit else lama) (si_now s) d) (si_kerja s)
       | _ \<Rightarrow> True"
  shows "utuh (langkah_antrean E ua e s)"
proof (cases e)
  case (Berlalu dt)
  with assms(1) show ?thesis by (simp add: utuh_waktu)
next
  case (Pulihkan lama)
  with assms(2) show ?thesis using utuh_pulihkan [OF assms(1)] by simp
qed (use assms(1) utuh_masuk utuh_ambil utuh_siapkan utuh_catat utuh_putus utuh_perbarui utuh_buat utuh_perbaiki utuh_hapus utuh_retensi
  in \<open>auto simp del: langkah_antrean.simps\<close>)

lemma utuh_jalan: "utuh s \<Longrightarrow> sewa_terjaga E ua evs s \<Longrightarrow> utuh (jalan E ua evs s)"
proof (induction evs arbitrary: s)
  case (Cons e evs)
  then have "utuh (langkah_antrean E ua e s)" by (intro utuh_langkah) auto
  with Cons show ?case by (simp add: jalan_def)
qed (simp add: jalan_def)

lemma utuh_awal: "utuh (sistem_awal t)"
  by (simp add: utuh_def sistem_awal_def antrean_utuh_def buku_kirim_def cari_delivery_def)

end
