(* ===== verification/Webhook_Runs.thy ===== *)
theory Webhook_Runs
  imports Webhook_Queue
begin

text \<open>
  What runs of the webhook queue guarantee: no delivery is held twice and every request is accounted for
  while leases are kept; a delivery to a reachable webhook settles after its allowed attempts; an answer
  whose status the table cannot hold is never settled.
\<close>

section \<open>Rounds of one delivery\<close>

text \<open>
  One round for one delivery, the others being left to other workers: it is claimed, sent and its answer
  recorded, and the longest backoff passes.
\<close>

definition lainnya :: "int \<Rightarrow> antrean \<Rightarrow> int list" where
  "lainnya i db = filter (\<lambda>j. j \<noteq> i) (map dl_id (an_deliveries db))"

definition putaran_antrean :: "string \<Rightarrow> int list \<Rightarrow> hasil_http \<Rightarrow> peristiwa_antrean list" where
  "putaran_antrean w lewat h = [Ambil w 1 lewat, Siapkan 0 True True True, Catat 0 True True h, Berlalu jam]"

text \<open>The webhook of a delivery can be sent to, and allows \<open>mr\<close> retries.\<close>

definition kirim_lancar :: "lingkungan \<Rightarrow> int \<Rightarrow> string \<Rightarrow> antrean \<Rightarrow> bool" where
  "kirim_lancar E mr wid db \<longleftrightarrow>
     (case cari_webhook wid db of
        None \<Rightarrow> False
      | Some w \<Rightarrow> wh_enabled w \<and> lk_decrypt E (wh_secret_ciphertext w) (webhook_aad wid) \<noteq> None
          \<and> validate_base_url (lk_urai E) (lk_policy E) (wh_url w) = None \<and> lk_permintaan E (wh_url w) = None
          \<and> wh_max_retries w = mr)"

text \<open>Answers the table can hold: a status of three digits below 600, a text in UTF-8.\<close>

definition tercatat :: "hasil_http \<Rightarrow> bool" where
  "tercatat h = (case h of GalatHttp e \<Rightarrow> teks_sah e | Balasan c \<Rightarrow> 100 \<le> c \<and> c \<le> 599)"

text \<open>The fate of a delivery, as the schema describes it: one attempt and then at most \<open>mr\<close> retries.\<close>

fun nasib :: "int \<Rightarrow> int \<Rightarrow> hasil_http list \<Rightarrow> (status_kirim option) \<times> int" where
  "nasib mr a [] = (None, a)"
| "nasib mr a (h # hs) =
     (if dijawab_sukses h then (Some Delivered, a)
      else if mr < a + 1 then (Some Abandoned, a + 1)
      else nasib mr (a + 1) hs)"

lemma nasib_terbuka: "fst (nasib mr a hs) = None \<Longrightarrow> int (length hs) \<le> max 0 (mr - a)"
  by (induction mr a hs rule: nasib.induct) (auto split: if_splits)

lemma nasib_status: "fst (nasib mr a hs) \<in> {None, Some Delivered, Some Abandoned}"
  by (induction mr a hs rule: nasib.induct) auto

section \<open>Statements that succeed\<close>

lemma update_satu:
  assumes "distinct (map dl_id (an_deliveries db))" "cari_delivery i db = Some r" "delivery_sah (f r)"
  shows "update_deliveries (\<lambda>d. dl_id d = i) f db
     = Some (db\<lparr>an_deliveries := map (\<lambda>d. if dl_id d = i then f d else d) (an_deliveries db)\<rparr>)"
  using assms cari_unik [OF assms(1)] by (auto simp: update_deliveries_def list_all_iff)

lemma update_webhooks_hitung:
  assumes "list_all webhook_sah (an_webhooks db)" "st \<in> {Delivered, Failed, Abandoned}"
  shows "update_webhooks P (hitung_webhook now st) db
     = Some (db\<lparr>an_webhooks := map (\<lambda>w. if P w then hitung_webhook now st w else w) (an_webhooks db)\<rparr>)"
proof -
  have "webhook_sah (hitung_webhook now st w)" if "webhook_sah w" for w
    using that assms(2) by (auto simp: webhook_sah_def hitung_webhook_def)
  with assms(1) show ?thesis by (auto simp: update_webhooks_def list_all_iff)
qed

lemma lancar_hitung:
  "kirim_lancar E mr wid db \<Longrightarrow> an_webhooks db' = map (\<lambda>w. if P w then hitung_webhook now st w else w) (an_webhooks db)
     \<Longrightarrow> kirim_lancar E mr wid db'"
proof -
  assume l: "kirim_lancar E mr wid db" and w: "an_webhooks db' = map (\<lambda>w. if P w then hitung_webhook now st w else w) (an_webhooks db)"
  have "cari_webhook wid db' = map_option (\<lambda>w. if P w then hitung_webhook now st w else w) (cari_webhook wid db)"
    unfolding cari_webhook_def w by (rule find_map_same) (simp add: hitung_webhook_def)
  with l show "kirim_lancar E mr wid db'"
    by (auto simp: kirim_lancar_def hitung_webhook_def split: option.splits)
qed

lemma teks_sah_ascii: "(\<And>c. c \<in> set s \<Longrightarrow> 0 < (of_char c :: nat) \<and> (of_char c :: nat) < 128) \<Longrightarrow> teks_sah s"
proof -
  assume a: "\<And>c. c \<in> set s \<Longrightarrow> 0 < (of_char c :: nat) \<and> (of_char c :: nat) < 128"
  have "utf8_sah (map of_char s)" using a by (induction s) auto
  moreover have "CHR 0x00 \<notin> set s" using a by force
  ultimately show "teks_sah s" by (simp add: teks_sah_def)
qed

lemma teks_http: "teks_sah (''HTTP '' @ show_int c)"
proof (rule teks_sah_ascii)
  fix x assume "x \<in> set (''HTTP '' @ show_int c)"
  moreover have "x \<in> set (show_nat n) \<Longrightarrow> 48 \<le> (of_char x :: nat) \<and> (of_char x :: nat) \<le> 57" for n
    using show_nat_digits [of n] by (auto simp: is_digit_def)
  ultimately show "0 < (of_char x :: nat) \<and> (of_char x :: nat) < 128"
    by (auto simp: show_int_def split: if_splits) fastforce+
qed

section \<open>One round\<close>

lemma filter_unik:
  "distinct (map f xs) \<Longrightarrow> find (\<lambda>x. f x = i) xs = Some r \<Longrightarrow> filter (\<lambda>x. P x \<and> f x = i) xs = (if P r then [r] else [])"
proof (induction xs)
  case (Cons x xs)
  show ?case
  proof (cases "f x = i")
    case True
    with Cons.prems have "r = x" "filter (\<lambda>y. P y \<and> f y = i) xs = []" by (auto simp: filter_empty_conv image_iff)
    with True show ?thesis by simp
  next
    case False
    with Cons show ?thesis by simp
  qed
qed simp

lemma claimed_satu:
  assumes "distinct (map dl_id (an_deliveries db))" "cari_delivery i db = Some r"
  shows "claimed (\<lambda>j. j \<in> set (lainnya i db)) 1 now db = (if siap_diambil now r then [i] else [])"
proof -
  have "filter (\<lambda>d. siap_diambil now d \<and> dl_id d \<notin> set (lainnya i db)) (an_deliveries db)
      = filter (\<lambda>d. siap_diambil now d \<and> dl_id d = i) (an_deliveries db)"
    by (rule filter_cong) (auto simp: lainnya_def)
  also have "\<dots> = (if siap_diambil now r then [r] else [])"
    using filter_unik [OF assms(1)] assms(2) by (simp add: cari_delivery_def)
  finally show ?thesis using cari_delivery_id [OF assms(2)] by (simp add: claimed_def)
qed

definition ganti :: "int \<Rightarrow> (delivery \<Rightarrow> delivery) \<Rightarrow> antrean \<Rightarrow> antrean" where
  "ganti i f db = db\<lparr>an_deliveries := map (\<lambda>d. if dl_id d = i then f d else d) (an_deliveries db)\<rparr>"

lemma ganti_facts:
  assumes "\<And>d. dl_id (f d) = dl_id d"
  shows "map dl_id (an_deliveries (ganti i f db)) = map dl_id (an_deliveries db)"
    "cari_delivery j (ganti i f db) = map_option (\<lambda>d. if dl_id d = i then f d else d) (cari_delivery j db)"
    "an_webhooks (ganti i f db) = an_webhooks db"
  using assms by (auto simp: ganti_def cari_delivery_def find_map_same comp_def)

lemma cari_ganti:
  assumes "\<And>d. dl_id (f d) = dl_id d" "cari_delivery i db = Some r"
  shows "cari_delivery i (ganti i f db) = Some (f r)"
  using ganti_facts(2) [of f i i db, OF assms(1)] assms(2) cari_delivery_id [OF assms(2)] by simp

lemma claim_satu:
  assumes "distinct (map dl_id (an_deliveries db))" "cari_delivery i db = Some r" "siap_diambil now r" "delivery_sah r"
  shows "claim_due (\<lambda>j. j \<in> set (lainnya i db)) w 1 now db = Some ([sewa now w r], ganti i (sewa now w) db)"
proof -
  have s: "delivery_sah (sewa now w r)"
    using assms(3,4) by (auto simp: delivery_sah_def sewa_def siap_diambil_def)
  have "update_deliveries (\<lambda>d. dl_id d \<in> set [i]) (sewa now w) db = Some (ganti i (sewa now w) db)"
    using update_satu [where f="sewa now w", OF assms(1,2) s] by (simp add: ganti_def)
  moreover have "filter (\<lambda>d. dl_id d = i) (an_deliveries (ganti i (sewa now w) db)) = [sewa now w r]"
    using filter_unik [of dl_id "an_deliveries (ganti i (sewa now w) db)" i "sewa now w r" "\<lambda>_. True"]
      cari_ganti [of "sewa now w" i db r] assms(1,2) ganti_facts(1) [of "sewa now w" i db]
    by (simp add: cari_delivery_def)
  ultimately show ?thesis
    using claimed_satu [OF assms(1,2), of now] assms(3) by (simp add: claim_due_def Let_def)
qed

text \<open>Recording an answer the table can hold always succeeds.\<close>

lemma catat_berhasil:
  assumes db: "distinct (map dl_id (an_deliveries db))" "list_all webhook_sah (an_webhooks db)"
    and r: "cari_delivery i db = Some d" "dl_status d = Delivering" "delivery_sah d" and h: "tercatat h"
  shows "\<exists>db'. dispatch_catat E True True now wh d h db = (db', True)
    \<and> map dl_id (an_deliveries db') = map dl_id (an_deliveries db)
    \<and> (\<forall>mr. kirim_lancar E mr wid db \<longrightarrow> kirim_lancar E mr wid db')
    \<and> cari_delivery i db' =
        Some (case h of
          Balasan c \<Rightarrow>
            if kode_sukses c then terkirim now c d
            else gagal_baris (if wh_max_retries wh < dl_attempt_count d + 1 then Abandoned else Failed) (dl_attempt_count d + 1)
                   (now + dispatcher_backoff (lk_acak E) (dl_attempt_count d + 1)) (Some c) (''HTTP '' @ show_int c) d
        | GalatHttp e \<Rightarrow>
            gagal_baris (if wh_max_retries wh < dl_attempt_count d + 1 then Abandoned else Failed) (dl_attempt_count d + 1)
              (now + dispatcher_backoff (lk_acak E) (dl_attempt_count d + 1)) None e d)"
proof -
  have i: "dl_id d = i" using cari_delivery_id [OF r(1)] by simp
  have gagal: "\<exists>db'. catat_gagal E True True now wh d code pesan db = (db', True)
    \<and> map dl_id (an_deliveries db') = map dl_id (an_deliveries db)
    \<and> (\<forall>mr. kirim_lancar E mr wid db \<longrightarrow> kirim_lancar E mr wid db')
    \<and> cari_delivery i db' = Some (gagal_baris (if wh_max_retries wh < dl_attempt_count d + 1 then Abandoned else Failed)
        (dl_attempt_count d + 1) (now + dispatcher_backoff (lk_acak E) (dl_attempt_count d + 1)) code pesan d)"
    if "case code of None \<Rightarrow> True | Some c \<Rightarrow> 100 \<le> c \<and> c \<le> 599" "teks_sah pesan" for code pesan
  proof -
    let ?st = "if wh_max_retries wh < dl_attempt_count d + 1 then Abandoned else Failed"
    let ?f = "gagal_baris ?st (dl_attempt_count d + 1) (now + dispatcher_backoff (lk_acak E) (dl_attempt_count d + 1)) code pesan"
    have "delivery_sah (?f d)"
      using that r(2,3) by (auto simp: delivery_sah_def gagal_baris_def nullif_kosong_def split: option.splits)
    note u = update_satu [where f="?f", OF db(1) r(1) this, folded ganti_def]
    note v = update_webhooks_hitung [of "ganti i ?f db" ?st "\<lambda>w. wh_id w = wh_id wh" now]
    have v': "update_webhooks (\<lambda>w. wh_id w = wh_id wh) (hitung_webhook now ?st) (ganti i ?f db)
        = Some ((ganti i ?f db)\<lparr>an_webhooks := map (\<lambda>w. if wh_id w = wh_id wh then hitung_webhook now ?st w else w) (an_webhooks db)\<rparr>)"
      using v db(2) by (simp add: ganti_facts(3))
    let ?db = "(ganti i ?f db)\<lparr>an_webhooks := map (\<lambda>w. if wh_id w = wh_id wh then hitung_webhook now ?st w else w) (an_webhooks db)\<rparr>"
    have "catat_gagal E True True now wh d code pesan db = (?db, True)"
      by (simp only: catat_gagal_def record_failure_def Let_def dua_langkah_def i u v' if_True option.case)
    moreover have "map dl_id (an_deliveries ?db) = map dl_id (an_deliveries db)" by (simp add: ganti_facts(1))
    moreover have "cari_delivery i ?db = Some (?f d)"
      using cari_ganti [of ?f i db d] r(1) cari_delivery_cong [of ?db "ganti i ?f db"] by simp
    moreover have "\<forall>mr. kirim_lancar E mr wid db \<longrightarrow> kirim_lancar E mr wid ?db"
      using lancar_hitung [of E _ wid db ?db "\<lambda>w. wh_id w = wh_id wh" now ?st] by simp
    ultimately show ?thesis by blast
  qed
  show ?thesis
  proof (cases h)
    case (GalatHttp e)
    with gagal [of None e] h show ?thesis by (simp add: dispatch_catat_def tercatat_def)
  next
    case (Balasan c)
    show ?thesis
    proof (cases "kode_sukses c")
      case False
      with Balasan gagal [of "Some c" "''HTTP '' @ show_int c"] h teks_http [of c] show ?thesis
        by (simp add: dispatch_catat_def tercatat_def)
    next
      case True
      let ?W = "map (\<lambda>w. if wh_id w = wh_id wh then hitung_webhook now Delivered w else w) (an_webhooks db)"
      let ?db1 = "db\<lparr>an_webhooks := ?W\<rparr>"
      have u: "update_webhooks (\<lambda>w. wh_id w = wh_id wh) (hitung_webhook now Delivered) db = Some ?db1"
        using update_webhooks_hitung [of db Delivered] db(2) by simp
      have s: "delivery_sah (terkirim now c d)"
        using r(2,3) True by (auto simp: delivery_sah_def terkirim_def kode_sukses_def)
      have c1: "cari_delivery i ?db1 = Some d" using r(1) cari_delivery_cong [of ?db1 db] by simp
      have d1: "distinct (map dl_id (an_deliveries ?db1))" using db(1) by simp
      note v = update_satu [where f="terkirim now c", OF d1 c1 s, folded ganti_def]
      have "record_success now i (wh_id wh) c db = Some (ganti i (terkirim now c) ?db1)"
        by (simp add: record_success_def u v del: split_paired_Ex)
      moreover have "cari_delivery i (ganti i (terkirim now c) ?db1) = Some (terkirim now c d)"
        using cari_ganti [OF _ c1, of "terkirim now c"] by simp
      moreover have "\<forall>mr. kirim_lancar E mr wid db \<longrightarrow> kirim_lancar E mr wid (ganti i (terkirim now c) ?db1)"
        using lancar_hitung [of E _ wid db _ "\<lambda>w. wh_id w = wh_id wh" now Delivered] ganti_facts(3) [of "terkirim now c" i ?db1] by simp
      ultimately show ?thesis using Balasan True i
        by (simp add: dispatch_catat_def ganti_facts(1))
    qed
  qed
qed

text \<open>The three events of a round, with the record left as the call that makes it.\<close>

lemma jalan_append: "jalan E ua (xs @ ys) s = jalan E ua ys (jalan E ua xs s)"
  by (simp add: jalan_def)

lemma utuh_sah:
  "utuh s \<Longrightarrow> distinct (map dl_id (an_deliveries (si_db s)))"
  "utuh s \<Longrightarrow> list_all webhook_sah (an_webhooks (si_db s))"
  "utuh s \<Longrightarrow> cari_delivery i (si_db s) = Some r \<Longrightarrow> delivery_sah r"
proof -
  assume "utuh s"
  then have u: "antrean_utuh (si_db s)" by (simp add: utuh_def)
  then show "distinct (map dl_id (an_deliveries (si_db s)))" "list_all webhook_sah (an_webhooks (si_db s))"
    by (simp_all add: antrean_utuh_def)
  show "cari_delivery i (si_db s) = Some r \<Longrightarrow> delivery_sah r" by (rule antrean_utuhD(2) [OF u])
qed

lemma siap_lancar:
  assumes "kirim_lancar E mr (dl_webhook_id d) db"
  shows "\<exists>wh k. dispatch_siap E True unix d db = Kirim wh k \<and> wh_max_retries wh = mr"
proof -
  from assms obtain wh where wh: "cari_webhook (dl_webhook_id d) db = Some wh"
    "wh_enabled wh" "lk_decrypt E (wh_secret_ciphertext wh) (webhook_aad (dl_webhook_id d)) \<noteq> None"
    "validate_base_url (lk_urai E) (lk_policy E) (wh_url wh) = None" "lk_permintaan E (wh_url wh) = None" "wh_max_retries wh = mr"
    by (auto simp: kirim_lancar_def split: option.splits)
  moreover have "wh_id wh = dl_webhook_id d" using wh(1) by (auto simp: cari_webhook_def find_Some_iff)
  ultimately show ?thesis by (auto simp: dispatch_siap_def)
qed

lemma putaran_jalan:
  assumes u: "utuh s" and k: "si_kerja s = []" and r: "cari_delivery i (si_db s) = Some r" "siap_diambil (si_now s) r"
    and l: "kirim_lancar E mr (dl_webhook_id r) (si_db s)"
  shows "\<exists>wh h'. wh_max_retries wh = mr
    \<and> dispatch_catat E True True (si_now s) wh (sewa (si_now s) w r) h (ganti i (sewa (si_now s) w) (si_db s)) = h'
    \<and> jalan E ua [Ambil w 1 (lainnya i (si_db s)), Siapkan 0 True True True, Catat 0 True True h] s
      = s\<lparr>si_db := fst h', si_kirim := i # si_kirim s,
          si_sukses := (if dijawab_sukses h then i # si_sukses s else si_sukses s),
          si_hilang := (if snd h' then si_hilang s else i # si_hilang s)\<rparr>"
proof -
  let ?now = "si_now s" and ?db = "ganti i (sewa (si_now s) w) (si_db s)"
  have i: "dl_id r = i" using cari_delivery_id [OF r(1)] by simp
  note c = claim_satu [OF utuh_sah(1) [OF u] r utuh_sah(3) [OF u r(1)], of w]
  have "kirim_lancar E mr (dl_webhook_id (sewa ?now w r)) ?db"
    using l by (simp add: kirim_lancar_def cari_webhook_def ganti_facts(3) sewa_def)
  from siap_lancar [OF this, of "?now div detik"]
  obtain wh kr where wh: "dispatch_siap E True (?now div detik) (sewa ?now w r) ?db = Kirim wh kr" "wh_max_retries wh = mr" by blast
  have "jalan E ua [Ambil w 1 (lainnya i (si_db s)), Siapkan 0 True True True] s
      = s\<lparr>si_db := ?db, si_kerja := [Dikirimkan w (sewa ?now w r) wh], si_kirim := i # si_kirim s\<rparr>"
    using c wh(1) i by (simp add: jalan_def k siapkan_kirim_def)
  then have "jalan E ua ([Ambil w 1 (lainnya i (si_db s)), Siapkan 0 True True True] @ [Catat 0 True True h]) s
      = langkah_antrean E ua (Catat 0 True True h) (s\<lparr>si_db := ?db, si_kerja := [Dikirimkan w (sewa ?now w r) wh], si_kirim := i # si_kirim s\<rparr>)"
    unfolding jalan_append by (simp add: jalan_def)
  then show ?thesis
    using wh(2) i k
    by (intro exI [of _ wh] exI [of _ "dispatch_catat E True True ?now wh (sewa ?now w r) h ?db"] conjI)
      (cases s; simp add: catat_hasil_def selesai_def buang_def cong: if_cong)+
qed

lemma putaran_kosong:
  assumes u: "utuh s" and k: "si_kerja s = []" and r: "cari_delivery i (si_db s) = Some r" "\<not> siap_diambil (si_now s) r"
  shows "jalan E ua [Ambil w 1 (lainnya i (si_db s)), Siapkan 0 True True True, Catat 0 True True h] s = s"
proof -
  have "claim_due (\<lambda>j. j \<in> set (lainnya i (si_db s))) w 1 (si_now s) (si_db s) = Some ([], si_db s)"
    using claimed_satu [OF utuh_sah(1) [OF u] r(1), of "si_now s"] r(2)
    by (simp add: claim_due_def Let_def update_deliveries_def list_all_iff)
  then show ?thesis using k by (cases s) (simp add: jalan_def siapkan_kirim_def catat_hasil_def)
qed

lemma tanpa_pulih: "list_all (\<lambda>e. \<not> (\<exists>l. e = Pulihkan l)) evs \<Longrightarrow> sewa_terjaga E ua evs s"
  by (induction evs arbitrary: s) (auto split: peristiwa_antrean.split)

lemma utuh_putaran: "utuh s \<Longrightarrow> utuh (jalan E ua (putaran_antrean w lewat h) s)"
  by (rule utuh_jalan) (auto simp: putaran_antrean_def intro!: tanpa_pulih)

text \<open>What a round preserves while the delivery is open.\<close>

definition terbuka :: "lingkungan \<Rightarrow> int \<Rightarrow> int \<Rightarrow> int \<Rightarrow> sistem_antrean \<Rightarrow> bool" where
  "terbuka E mr i a s \<longleftrightarrow>
     utuh s \<and> si_kerja s = [] \<and>
     (\<exists>r. cari_delivery i (si_db s) = Some r \<and> siap_diambil (si_now s) r \<and> dl_attempt_count r = a
        \<and> kirim_lancar E mr (dl_webhook_id r) (si_db s))"

definition tertutup :: "int \<Rightarrow> status_kirim \<Rightarrow> int \<Rightarrow> sistem_antrean \<Rightarrow> bool" where
  "tertutup i st a s \<longleftrightarrow>
     utuh s \<and> si_kerja s = [] \<and>
     (\<exists>r. cari_delivery i (si_db s) = Some r \<and> dl_status r = st \<and> dl_attempt_count r = a)"

lemma jalan_putaran: "jalan E ua (putaran_antrean w lewat h) s
   = langkah_antrean E ua (Berlalu jam) (jalan E ua [Ambil w 1 lewat, Siapkan 0 True True True, Catat 0 True True h] s)"
  by (simp add: jalan_def putaran_antrean_def)

lemma lainnya_cong: "map dl_id (an_deliveries db') = map dl_id (an_deliveries db) \<Longrightarrow> lainnya i db' = lainnya i db"
  by (simp add: lainnya_def)

lemma putaran_terbuka:
  assumes t: "terbuka E mr i a s" and h: "tercatat h"
    and acak: "\<And>k. 0 < k \<Longrightarrow> 0 \<le> lk_acak E k \<and> lk_acak E k < k"
  shows "let s' = jalan E ua (putaran_antrean w (lainnya i (si_db s)) h) s in
    lainnya i (si_db s') = lainnya i (si_db s) \<and>
    (if dijawab_sukses h then tertutup i Delivered a s'
     else if mr < a + 1 then tertutup i Abandoned (a + 1) s'
     else terbuka E mr i (a + 1) s')"
proof -
  let ?now = "si_now s"
  from t obtain r where u: "utuh s" and k: "si_kerja s = []" and r: "cari_delivery i (si_db s) = Some r" "siap_diambil ?now r"
    "dl_attempt_count r = a" and l: "kirim_lancar E mr (dl_webhook_id r) (si_db s)" by (auto simp: terbuka_def)
  let ?d = "sewa ?now w r" and ?db = "ganti i (sewa ?now w) (si_db s)"
  obtain wh h' where wh: "wh_max_retries wh = mr" "dispatch_catat E True True ?now wh ?d h ?db = h'"
    and j: "jalan E ua [Ambil w 1 (lainnya i (si_db s)), Siapkan 0 True True True, Catat 0 True True h] s
      = s\<lparr>si_db := fst h', si_kirim := i # si_kirim s,
          si_sukses := (if dijawab_sukses h then i # si_sukses s else si_sukses s),
          si_hilang := (if snd h' then si_hilang s else i # si_hilang s)\<rparr>"
    using putaran_jalan [OF u k r(1,2) l, of w h ua] by blast
  have d: "cari_delivery i ?db = Some ?d" by (rule cari_ganti [OF _ r(1)]) simp
  have ds: "delivery_sah ?d" using utuh_sah(3) [OF u r(1)] r(2) by (auto simp: delivery_sah_def sewa_def siap_diambil_def)
  have da: "dl_attempt_count ?d = a" "dl_status ?d = Delivering" "dl_webhook_id ?d = dl_webhook_id r"
    using r(3) by (simp_all add: sewa_def)
  have lb: "kirim_lancar E mr (dl_webhook_id r) ?db" using l by (simp add: kirim_lancar_def cari_webhook_def ganti_facts(3))
  have map1: "map dl_id (an_deliveries ?db) = map dl_id (an_deliveries (si_db s))" by (simp add: ganti_facts(1))
  have "distinct (map dl_id (an_deliveries ?db))" "list_all webhook_sah (an_webhooks ?db)"
    using utuh_sah(1,2) [OF u] by (simp_all only: map1 ganti_facts(3) [of "sewa ?now w", simplified])
  from catat_berhasil [OF this d da(2) ds h, of E ?now wh "dl_webhook_id r"]
  obtain db' where db': "h' = (db', True)" "map dl_id (an_deliveries db') = map dl_id (an_deliveries ?db)"
    "kirim_lancar E mr (dl_webhook_id r) db'"
    and c: "cari_delivery i db' =
        Some (case h of
          Balasan c \<Rightarrow>
            if kode_sukses c then terkirim ?now c ?d
            else gagal_baris (if mr < a + 1 then Abandoned else Failed) (a + 1)
                   (?now + dispatcher_backoff (lk_acak E) (a + 1)) (Some c) (''HTTP '' @ show_int c) ?d
        | GalatHttp e \<Rightarrow>
            gagal_baris (if mr < a + 1 then Abandoned else Failed) (a + 1)
              (?now + dispatcher_backoff (lk_acak E) (a + 1)) None e ?d)"
    using wh lb da(1) by auto
  let ?s = "jalan E ua (putaran_antrean w (lainnya i (si_db s)) h) s"
  have s': "si_db ?s = db'" "si_kerja ?s = []" "si_now ?s = ?now + jam"
    by (simp_all add: jalan_putaran j db'(1) k)
  have us: "utuh ?s" by (rule utuh_putaran [OF u])
  have "0 \<le> a" using antrean_utuhD(4) [OF _ r(1)] u r(3) by (simp add: utuh_def)
  then have "dispatcher_backoff (lk_acak E) (a + 1) \<le> jam"
    using backoff_bounds(2) [of "a + 1" "lk_acak E", OF _ acak] by simp
  moreover have "lainnya i (si_db ?s) = lainnya i (si_db s)"
    by (rule lainnya_cong) (simp only: s'(1) db'(2) map1)
  ultimately show ?thesis
    using us s' c db'(3) da(1,3)
    by (cases h) (auto simp: Let_def dijawab_sukses_def tertutup_def terbuka_def terkirim_def gagal_baris_def siap_diambil_def)
qed

lemma putaran_tertutup:
  assumes t: "tertutup i st a s" and st: "st \<in> {Delivered, Abandoned}"
  shows "tertutup i st a (jalan E ua (putaran_antrean w (lainnya i (si_db s)) h) s)
    \<and> si_db (jalan E ua (putaran_antrean w (lainnya i (si_db s)) h) s) = si_db s"
proof -
  from t obtain r where u: "utuh s" "si_kerja s = []" and r: "cari_delivery i (si_db s) = Some r" "dl_status r = st" "dl_attempt_count r = a"
    by (auto simp: tertutup_def)
  then have "\<not> siap_diambil (si_now s) r" using st by (auto simp: siap_diambil_def)
  from putaran_kosong [OF u r(1) this, of E ua w h] utuh_putaran [OF u(1), of E ua w "lainnya i (si_db s)" h] u r
  show ?thesis by (auto simp: jalan_putaran tertutup_def)
qed

section \<open>Whole runs\<close>

lemma rounds_tertutup:
  "tertutup i st a s \<Longrightarrow> st \<in> {Delivered, Abandoned} \<Longrightarrow> L = lainnya i (si_db s) \<Longrightarrow>
     tertutup i st a (jalan E ua (concat (map (putaran_antrean w L) hs)) s)"
proof (induction hs arbitrary: s)
  case (Cons h hs)
  let ?s = "jalan E ua (putaran_antrean w L h) s"
  have "tertutup i st a ?s" "L = lainnya i (si_db ?s)"
    using putaran_tertutup [OF Cons.prems(1,2), of E ua w h] Cons.prems(3) by simp_all
  from Cons.IH [OF this(1) Cons.prems(2) this(2)] show ?case by (simp add: jalan_append)
qed (simp add: jalan_def)

lemma rounds_nasib:
  assumes "\<And>k. 0 < k \<Longrightarrow> 0 \<le> lk_acak E k \<and> lk_acak E k < k"
  shows "terbuka E mr i a s \<Longrightarrow> list_all tercatat hs \<Longrightarrow> L = lainnya i (si_db s) \<Longrightarrow>
     (case nasib mr a hs of
        (None, n) \<Rightarrow> terbuka E mr i n (jalan E ua (concat (map (putaran_antrean w L) hs)) s)
      | (Some st, n) \<Rightarrow> tertutup i st n (jalan E ua (concat (map (putaran_antrean w L) hs)) s))"
proof (induction hs arbitrary: a s)
  case (Cons h hs)
  let ?s = "jalan E ua (putaran_antrean w L h) s"
  have p: "lainnya i (si_db ?s) = L" "if dijawab_sukses h then tertutup i Delivered a ?s
     else if mr < a + 1 then tertutup i Abandoned (a + 1) ?s else terbuka E mr i (a + 1) ?s"
    using putaran_terbuka [OF Cons.prems(1) _ assms, of h ua w] Cons.prems(2,3) by (simp_all add: Let_def)
  have e: "jalan E ua (concat (map (putaran_antrean w L) (h # hs))) s = jalan E ua (concat (map (putaran_antrean w L) hs)) ?s"
    by (simp add: jalan_append)
  show ?case
    unfolding e
    using p Cons.IH [of "a + 1" ?s] Cons.prems(2) rounds_tertutup [of i Delivered a ?s L E ua w hs]
      rounds_tertutup [of i Abandoned "a + 1" ?s L E ua w hs]
    by (auto split: if_splits)
qed (simp add: jalan_def)

subsection \<open>An answer that cannot be recorded\<close>

lemma catat_tidak_muat:
  assumes "cari_delivery (dl_id d) db = Some d" "c < 100 \<or> 599 < c"
  shows "dispatch_catat E ok1 ok2 now wh d (Balasan c) db = (db, False)"
proof -
  have "update_deliveries (\<lambda>x. dl_id x = dl_id d) (gagal_baris st n nx (Some c) p) db = None" for st n nx p
    using assms cari_delivery_id [OF assms(1)]
    by (auto simp: update_deliveries_def list_all_iff delivery_sah_def gagal_baris_def intro!: bexI [of _ d])
  with assms(2) show ?thesis
    by (auto simp: dispatch_catat_def kode_sukses_def catat_gagal_def record_failure_def Let_def dua_langkah_def)
qed

text \<open>A round whose answer is \<open>c\<close>, with the recovery of stuck rows an hour later.\<close>

definition putaran_pulih :: "string \<Rightarrow> int list \<Rightarrow> int \<Rightarrow> peristiwa_antrean list" where
  "putaran_pulih w lewat c = putaran_antrean w lewat (Balasan c) @ [Pulihkan (5 * menit)]"

lemma pulih_berhasil:
  assumes "antrean_utuh db"
  shows "\<exists>db'. recover_stuck lama now db = Some db' \<and> an_webhooks db' = an_webhooks db
    \<and> map dl_id (an_deliveries db') = map dl_id (an_deliveries db)
    \<and> (\<forall>i. cari_delivery i db' = map_option (\<lambda>d. if tersangkut (if lama \<le> 0 then 5 * menit else lama) now d then bebaskan d else d) (cari_delivery i db))"
proof -
  let ?P = "tersangkut (if lama \<le> 0 then 5 * menit else lama) now"
  have "delivery_sah (bebaskan d)" if "?P d" "d \<in> set (an_deliveries db)" for d
    using that assms by (auto simp: antrean_utuh_def baris_aman_def delivery_sah_def bebaskan_def tersangkut_def)
  then have "recover_stuck lama now db \<noteq> None"
    by (simp add: recover_stuck_def update_deliveries_def list_all_iff)
  then obtain db' where "recover_stuck lama now db = Some db'" by blast
  with update_deliveries_cari [OF this [unfolded recover_stuck_def]] show ?thesis by simp
qed

lemma putaran_pulih_terbuka:
  assumes t: "terbuka E mr i a s" and c: "c < 100 \<or> 599 < c"
  shows "let s' = jalan E ua (putaran_pulih w (lainnya i (si_db s)) c) s in
    lainnya i (si_db s') = lainnya i (si_db s) \<and> terbuka E mr i a s' \<and> si_kirim s' = i # si_kirim s
    \<and> (case cari_delivery i (si_db s') of None \<Rightarrow> False | Some r \<Rightarrow> dl_status r = Pending)"
proof -
  let ?now = "si_now s"
  from t obtain r where u: "utuh s" and k: "si_kerja s = []" and r: "cari_delivery i (si_db s) = Some r" "siap_diambil ?now r"
    "dl_attempt_count r = a" and l: "kirim_lancar E mr (dl_webhook_id r) (si_db s)" by (auto simp: terbuka_def)
  let ?d = "sewa ?now w r" and ?db = "ganti i (sewa ?now w) (si_db s)"
  have i: "dl_id r = i" using cari_delivery_id [OF r(1)] by simp
  have d: "cari_delivery i ?db = Some ?d" by (rule cari_ganti [OF _ r(1)]) simp
  obtain wh h' where wh: "dispatch_catat E True True ?now wh ?d (Balasan c) ?db = h'"
    and j: "jalan E ua [Ambil w 1 (lainnya i (si_db s)), Siapkan 0 True True True, Catat 0 True True (Balasan c)] s
      = s\<lparr>si_db := fst h', si_kirim := i # si_kirim s,
          si_sukses := (if dijawab_sukses (Balasan c) then i # si_sukses s else si_sukses s),
          si_hilang := (if snd h' then si_hilang s else i # si_hilang s)\<rparr>"
    using putaran_jalan [OF u k r(1,2) l, of w "Balasan c" ua] by blast
  have h': "h' = (?db, False)" using wh catat_tidak_muat [of ?d ?db c] d c i by simp
  let ?s1 = "jalan E ua (putaran_antrean w (lainnya i (si_db s)) (Balasan c)) s"
  have s1: "si_db ?s1 = ?db" "si_kerja ?s1 = []" "si_now ?s1 = ?now + jam" "si_kirim ?s1 = i # si_kirim s"
    by (simp_all add: jalan_putaran j h' k)
  have u1: "utuh ?s1" by (rule utuh_putaran [OF u])
  obtain db' where p: "recover_stuck (5 * menit) (?now + jam) ?db = Some db'" "an_webhooks db' = an_webhooks ?db"
    "map dl_id (an_deliveries db') = map dl_id (an_deliveries ?db)"
    "\<And>x. cari_delivery x db' = map_option (\<lambda>d. if tersangkut (5 * menit) (?now + jam) d then bebaskan d else d) (cari_delivery x ?db)"
    using pulih_berhasil [of ?db "5 * menit" "?now + jam"] u1 s1(1) by (auto simp: utuh_def)
  have st: "tersangkut (5 * menit) (?now + jam) ?d" by (simp add: tersangkut_def sewa_def milliseconds_nonneg)
  let ?s = "jalan E ua (putaran_pulih w (lainnya i (si_db s)) c) s"
  have s: "?s = ?s1\<lparr>si_db := db'\<rparr>"
    using p(1) s1(1,3) by (simp add: putaran_pulih_def jalan_append) (simp add: jalan_def pakai_def)
  have us: "utuh ?s"
    using utuh_pulihkan [OF u1, of "5 * menit" E ua] s1 p(1) by (simp add: s pakai_def)
  have c': "cari_delivery i db' = Some (bebaskan ?d)" using st by (simp add: p(4) d)
  have "kirim_lancar E mr (dl_webhook_id r) db'"
    using l p(2) by (simp add: kirim_lancar_def cari_webhook_def ganti_facts(3))
  moreover have "lainnya i db' = lainnya i (si_db s)"
    by (rule lainnya_cong) (simp add: p(3) ganti_facts(1))
  moreover have "dl_webhook_id (bebaskan ?d) = dl_webhook_id r" "dl_attempt_count (bebaskan ?d) = a"
    "siap_diambil (?now + jam) (bebaskan ?d)" "dl_status (bebaskan ?d) = Pending"
    using r(2,3) by (auto simp: bebaskan_def sewa_def siap_diambil_def)
  ultimately show ?thesis using us s1 c' by (simp add: s Let_def terbuka_def)
qed

lemma rounds_pulih:
  assumes "c < 100 \<or> 599 < c"
  shows "terbuka E mr i a s \<Longrightarrow> L = lainnya i (si_db s) \<Longrightarrow>
    (let s' = jalan E ua (concat (replicate n (putaran_pulih w L c))) s in
       terbuka E mr i a s' \<and> si_kirim s' = replicate n i @ si_kirim s
       \<and> (case cari_delivery i (si_db s') of None \<Rightarrow> False | Some r \<Rightarrow> dl_status r \<in> {Pending, Failed}))"
proof (induction n arbitrary: s)
  case 0
  then show ?case by (auto simp: jalan_def terbuka_def siap_diambil_def)
next
  case (Suc n)
  let ?s = "jalan E ua (putaran_pulih w L c) s"
  from putaran_pulih_terbuka [OF Suc.prems(1) assms, of ua w] Suc.prems(2)
  have p: "lainnya i (si_db ?s) = L" "terbuka E mr i a ?s" "si_kirim ?s = i # si_kirim s" by (simp_all add: Let_def)
  from Suc.IH [OF p(2) p(1) [symmetric]] p(3) show ?case
    by (simp add: jalan_append replicate_app_Cons_same Let_def)
qed

section \<open>Properties\<close>

text \<open>A registry with one webhook and two deliveries, for the examples.\<close>

definition lingkungan_contoh :: lingkungan where
  "lingkungan_contoh =
     \<lparr>lk_decrypt = \<lambda>c a. Some ''kunci'', lk_urai = \<lambda>s. Some \<lparr>ur_scheme = ''https'', ur_user = False, ur_host = ''hook.test''\<rparr>,
      lk_policy = default_ssrf_policy, lk_teks_ssrf = \<lambda>u e. [], lk_permintaan = \<lambda>u. None,
      lk_hmac = \<lambda>k m. k, lk_acak = \<lambda>k. 0\<rparr>"

definition daftar_contoh :: "peristiwa_antrean list" where
  "daftar_contoh =
     [Buat None \<lparr>cp_id = ''w1'', cp_name = ''uji'', cp_url = ''https://hook.test/a'', cp_events = [''*''],
        cp_raw_secret = ''rahasia'', cp_cipher = Some \<lparr>ci_key_id = ''k1'', ci_encrypt = \<lambda>p a. Some ''v1.a.x'', ci_decrypt = \<lambda>c a. None\<rparr>,
        cp_enabled = True, cp_max_retries = 1, cp_timeout_ms = 0, cp_created_by = [], cp_policy = default_ssrf_policy\<rparr>,
      Masuk True [] ''budget.exceeded'' (Some ''{}''), Masuk True [] ''circuit.opened'' (Some ''{}'')]"

definition sistem_contoh :: sistem_antrean where
  "sistem_contoh = jalan lingkungan_contoh (\<lambda>u. True) daftar_contoh (sistem_awal 0)"

definition baris_contoh :: delivery where
  "baris_contoh = delivery_baru 0 1 ''w1'' ''budget.exceeded'' ''{}''"

lemma contoh_sewa: "sewa_terjaga lingkungan_contoh (\<lambda>u. True) daftar_contoh (sistem_awal 0)"
  by (rule tanpa_pulih) (simp add: daftar_contoh_def)

text \<open>Its value, so that the examples do not compute it again.\<close>

definition nilai_contoh :: sistem_antrean where
  "nilai_contoh =
     \<lparr>si_db =
        \<lparr>an_webhooks =
           [\<lparr>wh_id = ''w1'', wh_name = ''uji'', wh_url = ''https://hook.test/a'', wh_events = [''*''],
             wh_secret_ciphertext = ''v1.a.x'', wh_encryption_key_id = ''k1'', wh_masked_hint = ''whsec_****'',
             wh_enabled = True, wh_max_retries = 1, wh_timeout_ms = 10000, wh_last_delivery_at = None,
             wh_last_delivery_status = None, wh_consecutive_failures = 0, wh_created_at = 0, wh_updated_at = 0,
             wh_created_by = None\<rparr>],
         an_deliveries = [baris_contoh, delivery_baru 0 2 ''w1'' ''circuit.opened'' ''{}''], an_seq = 2\<rparr>,
      si_now = 0, si_kerja = [], si_kirim = [], si_sukses = [], si_hilang = []\<rparr>"

lemma contoh_nilai: "sistem_contoh = nilai_contoh"
  by code_simp

lemma jalan_contoh:
  "jalan lingkungan_contoh (\<lambda>u. True) (daftar_contoh @ evs) (sistem_awal 0)
     = jalan lingkungan_contoh (\<lambda>u. True) evs nilai_contoh"
  by (simp add: jalan_append contoh_nilai [unfolded sistem_contoh_def])

lemma sewa_terjaga_append:
  "sewa_terjaga E ua (xs @ ys) s \<longleftrightarrow> sewa_terjaga E ua xs s \<and> sewa_terjaga E ua ys (jalan E ua xs s)"
  by (induction xs arbitrary: s) (auto simp: jalan_def)

lemma sewa_contoh:
  "sewa_terjaga lingkungan_contoh (\<lambda>u. True) (daftar_contoh @ evs) (sistem_awal 0)
     \<longleftrightarrow> sewa_terjaga lingkungan_contoh (\<lambda>u. True) evs nilai_contoh"
  by (simp add: sewa_terjaga_append contoh_sewa contoh_nilai [unfolded sistem_contoh_def])

lemma contoh_siap:
  "(\<lambda>s. si_kerja s = [] \<and> si_kirim s = [] \<and> cari_delivery 1 (si_db s) = Some baris_contoh
     \<and> siap_diambil (si_now s) baris_contoh \<and> kirim_lancar lingkungan_contoh 1 (dl_webhook_id baris_contoh) (si_db s)) nilai_contoh"
  by code_simp

lemma contoh_sah:
  "si_kerja sistem_contoh = []" "si_kirim sistem_contoh = []" "cari_delivery 1 (si_db sistem_contoh) = Some baris_contoh"
  "siap_diambil (si_now sistem_contoh) baris_contoh"
  "kirim_lancar lingkungan_contoh 1 (dl_webhook_id baris_contoh) (si_db sistem_contoh)"
  "dl_attempt_count baris_contoh = 0"
  using contoh_siap by (simp_all add: contoh_nilai baris_contoh_def delivery_baru_def)

text \<open>C26. One holder per delivery: while no recovery takes the row of a delivery a worker still holds, no
  two workers (and no worker twice) hold the same delivery, and every held delivery has its row leased to
  the worker that holds it, whatever the order of claims, sends, records, crashes, renewals, recoveries
  and changes of the registry.\<close>

lemma queue_exclusive:
  assumes "sewa_terjaga E ua evs (sistem_awal t)"
  shows "let s = jalan E ua evs (sistem_awal t) in
    distinct (map pk_id (si_kerja s)) \<and>
    list_all (\<lambda>j. case cari_delivery (pk_id j) (si_db s) of
                    None \<Rightarrow> False
                  | Some r \<Rightarrow> dl_status r = Delivering \<and> dl_locked_by r = Some (pk_worker j)) (si_kerja s)"
proof -
  have "utuh (jalan E ua evs (sistem_awal t))" by (rule utuh_jalan [OF utuh_awal assms])
  then show ?thesis by (auto simp: utuh_def pegang_def list_all_iff Let_def split: option.splits)
qed

lemma queue_exclusive_witness:
  "let evs = daftar_contoh @ [Ambil ''A'' 1 [], Siapkan 0 True True True, Ambil ''B'' 25 [], Berlalu menit, Perbarui ''A'' [1], Pulihkan 0];
       s = jalan lingkungan_contoh (\<lambda>u. True) evs (sistem_awal 0)
   in map pk_id (si_kerja s) = [1, 2] \<and> map pk_worker (si_kerja s) = [''A'', ''B''] \<and> distinct (map pk_id (si_kerja s))"
proof -
  let ?evs = "daftar_contoh @ [Ambil ''A'' 1 [], Siapkan 0 True True True, Ambil ''B'' 25 [], Berlalu menit, Perbarui ''A'' [1], Pulihkan 0]"
  have t: "sewa_terjaga lingkungan_contoh (\<lambda>u. True) ?evs (sistem_awal 0)"
    unfolding sewa_contoh by code_simp
  have "let s = jalan lingkungan_contoh (\<lambda>u. True) ?evs (sistem_awal 0)
    in map pk_id (si_kerja s) = [1, 2] \<and> map pk_worker (si_kerja s) = [''A'', ''B'']"
    unfolding jalan_contoh by code_simp
  with queue_exclusive [OF t] show ?thesis by (simp add: Let_def)
qed

text \<open>C37. Every request is accounted for, as long as leases are kept: however often a delivery is recovered and claimed again, the
  number of requests sent for it is at most 21 (one and the most retries a webhook may have) plus the
  dispatches that were lost or could not be recorded, and it is answered with 2xx at most once more than that
  loss.\<close>

lemma queue_bounded:
  assumes "sewa_terjaga E ua evs (sistem_awal t)"
  shows "let s = jalan E ua evs (sistem_awal t) in
    count_list (si_kirim s) i \<le> 21 + count_list (si_hilang s) i
    \<and> count_list (si_sukses s) i \<le> 1 + count_list (si_hilang s) i"
proof -
  let ?s = "jalan E ua evs (sistem_awal t)"
  have u: "utuh ?s" by (rule utuh_jalan [OF utuh_awal assms])
  then have c: "buku_kirim ?s i" and ut: "antrean_utuh (si_db ?s)" and pg: "\<forall>j\<in>set (si_kerja ?s). pegang (si_db ?s) j"
    by (simp_all add: utuh_def)
  show ?thesis
  proof (cases "cari_delivery i (si_db ?s)")
    case None
    with c show ?thesis by (auto simp: buku_kirim_def Let_def split: if_splits)
  next
    case (Some r)
    note b = antrean_utuhD(3) [OF ut Some]
    show ?thesis
    proof (cases "dl_status r = Delivering")
      case True
      with c b Some show ?thesis by (auto simp: buku_kirim_def Let_def satu_def split: if_splits)
    next
      case False
      with tidak_dikirim [OF pg Some] c b Some show ?thesis
        by (auto simp: buku_kirim_def Let_def satu_def split: if_splits)
    qed
  qed
qed

lemma queue_bounded_witness:
  "let evs = daftar_contoh @ [Ambil ''A'' 1 [], Siapkan 0 True True True, Putus 0, Berlalu 1, Pulihkan 1,
         Ambil ''B'' 1 [2], Siapkan 0 True True True, Catat 0 True True (Balasan 204)];
       s = jalan lingkungan_contoh (\<lambda>u. True) evs (sistem_awal 0)
   in count_list (si_kirim s) 1 = 2 \<and> count_list (si_hilang s) 1 = 1 \<and> count_list (si_sukses s) 1 \<le> 2"
proof -
  let ?evs = "daftar_contoh @ [Ambil ''A'' 1 [], Siapkan 0 True True True, Putus 0, Berlalu 1, Pulihkan 1,
         Ambil ''B'' 1 [2], Siapkan 0 True True True, Catat 0 True True (Balasan 204)]"
  have t: "sewa_terjaga lingkungan_contoh (\<lambda>u. True) ?evs (sistem_awal 0)"
    unfolding sewa_contoh by code_simp
  have c: "let s = jalan lingkungan_contoh (\<lambda>u. True) ?evs (sistem_awal 0)
    in count_list (si_kirim s) 1 = 2 \<and> count_list (si_hilang s) 1 = 1"
    unfolding jalan_contoh by code_simp
  from queue_bounded [OF t, of 1] c show ?thesis by (simp add: Let_def)
qed

text \<open>C27. A delivery settles as long as its answers can be recorded: every answer either has a status between 100
  and 599 or is an error whose text is UTF-8 (\<^const>\<open>tercatat\<close>; the last property of this theory shows what another status does), leases are kept, no
  worker holds a delivery when the rounds begin, and its webhook can be sent to throughout.  The rounds of a due delivery then
  follow the schema: it is delivered by the first 2xx answer within one attempt and the allowed retries,
  abandoned when they are used up, and open only while fewer answers have come; the attempts on record
  are those that failed.\<close>

lemma delivery_settles:
  assumes "sewa_terjaga E ua evs (sistem_awal t)" "s = jalan E ua evs (sistem_awal t)" "si_kerja s = []"
    "cari_delivery i (si_db s) = Some r" "siap_diambil (si_now s) r" "kirim_lancar E mr (dl_webhook_id r) (si_db s)"
    "list_all tercatat hs" "\<And>k. 0 < k \<Longrightarrow> 0 \<le> lk_acak E k \<and> lk_acak E k < k"
  shows "let s' = jalan E ua (concat (map (putaran_antrean w (lainnya i (si_db s))) hs)) s; n = nasib mr (dl_attempt_count r) hs in
    case cari_delivery i (si_db s') of
      None \<Rightarrow> False
    | Some r' \<Rightarrow> dl_attempt_count r' = snd n
        \<and> (case fst n of
             None \<Rightarrow> dl_status r' \<in> {Pending, Failed} \<and> int (length hs) \<le> max 0 (mr - dl_attempt_count r)
           | Some st \<Rightarrow> dl_status r' = st \<and> st \<in> {Delivered, Abandoned})"
proof -
  have "terbuka E mr i (dl_attempt_count r) s"
    using utuh_jalan [OF utuh_awal assms(1)] assms(2-6) by (simp add: terbuka_def)
  from rounds_nasib [OF assms(8) this assms(7) refl, of ua w]
    nasib_terbuka [of mr "dl_attempt_count r" hs] nasib_status [of mr "dl_attempt_count r" hs]
  show ?thesis
    by (auto simp: Let_def terbuka_def tertutup_def siap_diambil_def split: option.splits prod.splits)
qed

lemma delivery_settles_witness:
  "let s' = jalan lingkungan_contoh (\<lambda>u. True)
       (concat (map (putaran_antrean ''A'' (lainnya 1 (si_db sistem_contoh))) [GalatHttp ''x'', Balasan 200])) sistem_contoh
   in case cari_delivery 1 (si_db s') of None \<Rightarrow> False | Some r \<Rightarrow> dl_status r = Delivered \<and> dl_attempt_count r = 1"
proof -
  have h: "list_all tercatat [GalatHttp ''x'', Balasan 200]" by code_simp
  have a: "0 \<le> lk_acak lingkungan_contoh k \<and> lk_acak lingkungan_contoh k < k" if "0 < k" for k
    using that by (simp add: lingkungan_contoh_def)
  have n: "nasib 1 (dl_attempt_count baris_contoh) [GalatHttp ''x'', Balasan 200] = (Some Delivered, 1)"
    by code_simp
  from delivery_settles [OF contoh_sewa sistem_contoh_def contoh_sah(1,3-5) h a, of "''A''"] show ?thesis
    by (simp add: Let_def n del: nasib.simps split: option.splits)
qed

text \<open>C39. An answer that does not fit is never settled: a status below 100 or above 599 breaks a constraint of
  the table, the record fails, and however many rounds pass the delivery is open at the same attempt,
  with one more request sent in each.\<close>

lemma unrecordable_repeats:
  assumes "sewa_terjaga E ua evs (sistem_awal t)" "s = jalan E ua evs (sistem_awal t)" "si_kerja s = []"
    "cari_delivery i (si_db s) = Some r" "siap_diambil (si_now s) r" "kirim_lancar E mr (dl_webhook_id r) (si_db s)"
    "c < 100 \<or> 599 < c"
  shows "let s' = jalan E ua (concat (replicate n (putaran_pulih w (lainnya i (si_db s)) c))) s in
    count_list (si_kirim s') i = n + count_list (si_kirim s) i
    \<and> (case cari_delivery i (si_db s') of
         None \<Rightarrow> False | Some r' \<Rightarrow> dl_attempt_count r' = dl_attempt_count r \<and> dl_status r' \<in> {Pending, Failed})"
proof -
  have t: "terbuka E mr i (dl_attempt_count r) s"
    using utuh_jalan [OF utuh_awal assms(1)] assms(2-6) by (simp add: terbuka_def)
  have "count_list (replicate n i) i = n" by (induction n) auto
  with rounds_pulih [OF assms(7) t refl, of ua n w] show ?thesis
    by (auto simp: Let_def terbuka_def split: option.splits)
qed

lemma unrecordable_repeats_witness:
  "let s' = jalan lingkungan_contoh (\<lambda>u. True)
       (concat (replicate 100 (putaran_pulih ''A'' (lainnya 1 (si_db sistem_contoh)) 999))) sistem_contoh
   in count_list (si_kirim s') 1 = 100
      \<and> (case cari_delivery 1 (si_db s') of None \<Rightarrow> False | Some r \<Rightarrow> dl_attempt_count r = 0)"
proof -
  have c: "(999::int) < 100 \<or> 599 < (999::int)" by simp
  from unrecordable_repeats [OF contoh_sewa sistem_contoh_def contoh_sah(1,3-5) c, of 100 "''A''"] show ?thesis
    by (simp add: Let_def contoh_sah split: option.splits)
qed

end
