(* ===== verification/Anthropic_Wire.thy ===== *)
theory Anthropic_Wire
  imports Complex_Main Openai_Wire
begin

text \<open>
  The Anthropic dialect of \<^verbatim>\<open>internal/providers/anthropic\<close>: content blocks and usage as they stand on the
  wire, their reading, the canonical answer made of them (\<^verbatim>\<open>translate.go\<close>) and its form in the dialect
  of OpenAI (\<^verbatim>\<open>openai_dialect.go\<close>), which clients of the chat surface receive.
\<close>

section \<open>Blocks\<close>

record image_source =
  is_type :: string
  is_media_type :: string
  is_data :: string
  is_url :: string

datatype blok = Blok
  (bk_type: string) (bk_text: string) (bk_thinking: string) (bk_signature: string) (bk_source: "image_source option")
  (bk_id: string) (bk_name: string) (bk_input: "json option")
  (bk_tool_use_id: string) (bk_content: "blok list") (bk_is_error: bool)

definition u_image_source :: "json \<Rightarrow> image_source option" where
  "u_image_source j = do {
     kvs \<leftarrow> u_bidang j;
     jenis \<leftarrow> u_opsi [] u_teks (terisi ''type'' kvs);
     mt \<leftarrow> u_opsi [] u_teks (terisi ''media_type'' kvs);
     d \<leftarrow> u_opsi [] u_teks (terisi ''data'' kvs);
     u \<leftarrow> u_opsi [] u_teks (terisi ''url'' kvs);
     Some \<lparr>is_type = jenis, is_media_type = mt, is_data = d, is_url = u\<rparr> }"

text \<open>Blocks nest in tool results; reading follows the structure of the value.\<close>

lemma u_larik_cong [fundef_cong]:
  "j = j' \<Longrightarrow> (\<And>xs x. isi j' = JArr xs \<Longrightarrow> x \<in> set xs \<Longrightarrow> f x = g x) \<Longrightarrow> u_larik f j = u_larik g j'"
  by (auto simp: u_larik_def split: isi.splits intro!: arg_cong [where f = those])

lemma u_opsi_cong [fundef_cong]:
  "nol = nol' \<Longrightarrow> x = x' \<Longrightarrow> (\<And>j. j \<in> set x' \<Longrightarrow> f j = g j) \<Longrightarrow> u_opsi nol f x = u_opsi nol' g x'"
  unfolding u_opsi_def by (metis map_cong)

lemma size_isi: "isi j = x \<Longrightarrow> size x < size j"
  by (cases j) auto

lemma size_bidang_isi:
  assumes "u_bidang j = Some kvs" "v \<in> set (semua n kvs)" "isi v = JArr xs" "x \<in> set xs"
  shows "size x < size j"
proof -
  have o: "isi j = JObj kvs" using assms(1,2) by (auto simp: u_bidang_def semua_def split: isi.splits)
  have "size v < size (JObj kvs)"
  proof -
    obtain k where "(k, v) \<in> set kvs" using semua_isi [OF assms(2)] by blast
    then show ?thesis by (induction kvs) auto
  qed
  moreover have "size x < size (JArr xs)" using assms(4) by (induction xs) auto
  ultimately show ?thesis using size_isi [OF o] size_isi [OF assms(3)] by simp
qed

function u_blok :: "json \<Rightarrow> blok option" where
  "u_blok j = do {
     kvs \<leftarrow> u_bidang j;
     jenis \<leftarrow> u_opsi [] u_teks (terisi ''type'' kvs);
     teks \<leftarrow> u_opsi [] u_teks (terisi ''text'' kvs);
     pikir \<leftarrow> u_opsi [] u_teks (terisi ''thinking'' kvs);
     ttd \<leftarrow> u_opsi [] u_signature (semua ''signature'' kvs);
     sumber \<leftarrow> u_opsi None (u_ptr u_image_source) (semua ''source'' kvs);
     id \<leftarrow> u_opsi [] u_teks (terisi ''id'' kvs);
     nama \<leftarrow> u_opsi [] u_teks (terisi ''name'' kvs);
     tuid \<leftarrow> u_opsi [] u_teks (terisi ''tool_use_id'' kvs);
     konten \<leftarrow> u_opsi [] (u_larik u_blok) (semua ''content'' kvs);
     galat \<leftarrow> u_opsi False u_bool (terisi ''is_error'' kvs);
     Some (Blok jenis teks pikir ttd sumber id nama (bidang ''input'' kvs) tuid konten galat) }"
  by pat_completeness auto
termination
  by (relation "measure size") (auto intro: size_bidang_isi)

declare u_blok.simps [simp del]

section \<open>Usage\<close>

record rincian_cache =
  rc_1h :: int
  rc_5m :: int

record upstream_usage =
  uu_input :: int
  uu_output :: int
  uu_cache_read :: int
  uu_cache_creation :: int
  uu_rincian :: "rincian_cache option"

definition usage_nol :: upstream_usage where
  "usage_nol = \<lparr>uu_input = 0, uu_output = 0, uu_cache_read = 0, uu_cache_creation = 0, uu_rincian = None\<rparr>"

definition u_rincian :: "json \<Rightarrow> rincian_cache option" where
  "u_rincian j = do {
     kvs \<leftarrow> u_bidang j;
     a \<leftarrow> u_opsi 0 u_int (terisi ''ephemeral_1h_input_tokens'' kvs);
     b \<leftarrow> u_opsi 0 u_int (terisi ''ephemeral_5m_input_tokens'' kvs);
     Some \<lparr>rc_1h = a, rc_5m = b\<rparr> }"

definition u_upstream_usage :: "json \<Rightarrow> upstream_usage option" where
  "u_upstream_usage j = do {
     kvs \<leftarrow> u_bidang j;
     i \<leftarrow> u_opsi 0 u_int (terisi ''input_tokens'' kvs);
     k \<leftarrow> u_opsi 0 u_int (terisi ''output_tokens'' kvs);
     r \<leftarrow> u_opsi 0 u_int (terisi ''cache_read_input_tokens'' kvs);
     c \<leftarrow> u_opsi 0 u_int (terisi ''cache_creation_input_tokens'' kvs);
     p \<leftarrow> u_opsi None (u_ptr u_rincian) (semua ''cache_creation'' kvs);
     Some \<lparr>uu_input = i, uu_output = k, uu_cache_read = r, uu_cache_creation = c, uu_rincian = p\<rparr> }"

definition to_canonical_usage :: "upstream_usage \<Rightarrow> usage" where
  "to_canonical_usage u =
     (let masuk = tambah_token (tambah_token (uu_input u) (uu_cache_read u)) (uu_cache_creation u)
      in \<lparr>us_input = masuk, us_cached_input = uu_cache_read u, us_cache_creation = uu_cache_creation u,
          us_cache_creation_1h = (case uu_rincian u of None \<Rightarrow> 0 | Some r \<Rightarrow> rc_1h r),
          us_cache_creation_5m = (case uu_rincian u of None \<Rightarrow> 0 | Some r \<Rightarrow> rc_5m r),
          us_output = uu_output u, us_reasoning = 0, us_total = tambah_token masuk (uu_output u)\<rparr>)"

section \<open>Answers\<close>

record messages_response =
  mr_id :: string
  mr_type :: string
  mr_role :: string
  mr_model :: string
  mr_content :: "blok list"
  mr_stop_reason :: string
  mr_stop_sequence :: string
  mr_usage :: upstream_usage
  mr_error :: "(string \<times> string) option"

definition u_galat :: "json \<Rightarrow> (string \<times> string) option" where
  "u_galat j = do {
     kvs \<leftarrow> u_bidang j;
     jenis \<leftarrow> u_opsi [] u_teks (terisi ''type'' kvs);
     pesan \<leftarrow> u_opsi [] u_teks (terisi ''message'' kvs);
     Some (jenis, pesan) }"

definition u_messages_response :: "json \<Rightarrow> messages_response option" where
  "u_messages_response j = do {
     kvs \<leftarrow> u_bidang j;
     id \<leftarrow> u_opsi [] u_teks (terisi ''id'' kvs);
     jenis \<leftarrow> u_opsi [] u_teks (terisi ''type'' kvs);
     peran \<leftarrow> u_opsi [] u_teks (terisi ''role'' kvs);
     model \<leftarrow> u_opsi [] u_teks (terisi ''model'' kvs);
     konten \<leftarrow> u_opsi [] (u_larik u_blok) (semua ''content'' kvs);
     henti \<leftarrow> u_opsi [] u_teks (terisi ''stop_reason'' kvs);
     urutan \<leftarrow> u_opsi [] u_teks (terisi ''stop_sequence'' kvs);
     pakai \<leftarrow> u_opsi usage_nol u_upstream_usage (terisi ''usage'' kvs);
     galat \<leftarrow> u_opsi None (u_ptr u_galat) (semua ''error'' kvs);
     Some \<lparr>mr_id = id, mr_type = jenis, mr_role = peran, mr_model = model, mr_content = konten,
       mr_stop_reason = henti, mr_stop_sequence = urutan, mr_usage = pakai, mr_error = galat\<rparr> }"

definition finish_stop :: string where "finish_stop = ''stop''"
definition finish_length :: string where "finish_length = ''length''"
definition finish_tool_calls :: string where "finish_tool_calls = ''tool_calls''"
definition finish_content_filter :: string where "finish_content_filter = ''content_filter''"
definition finish_stop_sequence :: string where "finish_stop_sequence = ''stop_sequence''"
definition finish_pause_turn :: string where "finish_pause_turn = ''pause_turn''"

definition map_stop_reason :: "string \<Rightarrow> string" where
  "map_stop_reason r =
     (if r = [] then []
      else if r = ''max_tokens'' then finish_length
      else if r = ''tool_use'' then finish_tool_calls
      else if r = ''refusal'' then finish_content_filter
      else if r = ''stop_sequence'' then finish_stop_sequence
      else if r = ''pause_turn'' then finish_pause_turn
      else finish_stop)"

text \<open>The URL of an image: a link as it is, base64 as a data URI.\<close>

definition url_gambar :: "image_source \<Rightarrow> string option" where
  "url_gambar s =
     (if is_type s = ''url'' \<and> is_url s \<noteq> [] then Some (is_url s)
      else if is_data s \<noteq> [] then Some (''data:'' @ is_media_type s @ '';base64,'' @ is_data s)
      else None)"

definition bagian_gambar :: "string \<Rightarrow> content_part" where
  "bagian_gambar u = bagian_kosong\<lparr>cp_type := part_type_image_url, cp_image_url := Some \<lparr>iu_url = u, iu_detail = []\<rparr>\<rparr>"

record rakitan =
  rk_teks :: string
  rk_pikir :: string
  rk_panggil :: "tool_call list"
  rk_ttd :: string
  rk_jumlah :: nat
  rk_bagian :: "content_part list"
  rk_gambar :: bool

definition rakitan_awal :: rakitan where
  "rakitan_awal = \<lparr>rk_teks = [], rk_pikir = [], rk_panggil = [], rk_ttd = [], rk_jumlah = 0, rk_bagian = [], rk_gambar = False\<rparr>"

definition argumen_utuh :: "json option \<Rightarrow> string" where
  "argumen_utuh x = (case x of None \<Rightarrow> ''{}'' | Some j \<Rightarrow> if trim_space (sumber j) = [] then ''{}'' else sumber j)"

definition rakit_blok :: "rakitan \<Rightarrow> blok \<Rightarrow> rakitan" where
  "rakit_blok r b =
     (if bk_type b = ''text'' then
        r\<lparr>rk_teks := rk_teks r @ bk_text b,
          rk_bagian := rk_bagian r @ [bagian_kosong\<lparr>cp_type := part_type_text, cp_text := bk_text b\<rparr>]\<rparr>
      else if bk_type b = ''image'' then
        (case Option.bind (bk_source b) url_gambar of
           None \<Rightarrow> r
         | Some u \<Rightarrow> r\<lparr>rk_bagian := rk_bagian r @ [bagian_gambar u], rk_gambar := True\<rparr>)
      else if bk_type b = ''thinking'' then
        r\<lparr>rk_pikir := rk_pikir r @ bk_thinking b, rk_jumlah := rk_jumlah r + 1, rk_ttd := bk_signature b\<rparr>
      else if bk_type b = ''tool_use'' then
        r\<lparr>rk_panggil := rk_panggil r @
            [\<lparr>tc_index = int (length (rk_panggil r)), tc_id = bk_id b, tc_type = ''function'', tc_name = bk_name b,
              tc_arguments = argumen_utuh (bk_input b), tc_thought_signature = []\<rparr>]\<rparr>
      else r)"

definition pesan_rakitan :: "rakitan \<Rightarrow> message" where
  "pesan_rakitan r =
     \<lparr>ms_role = ''assistant'', ms_content = rk_teks r, ms_parts = (if rk_gambar r then rk_bagian r else []),
      ms_name = [], ms_tool_calls = rk_panggil r, ms_tool_call_id = [], ms_is_error = False,
      ms_reasoning_content = rk_pikir r, ms_reasoning_signature = (if rk_jumlah r = 1 then rk_ttd r else []),
      ms_refusal = [], ms_audio_transcript = []\<rparr>"

section \<open>The dialect of OpenAI\<close>

definition j_null :: json where "j_null = Nilai ''null'' JNull"

definition encode_usage :: "usage \<Rightarrow> json" where
  "encode_usage u = j_objek
     ([(''prompt_tokens'', j_int (us_input u)), (''completion_tokens'', j_int (us_output u)), (''total_tokens'', j_int (us_total u))] @
      (if 0 < us_cached_input u then [(''prompt_tokens_details'', j_objek [(''cached_tokens'', j_int (us_cached_input u))])] else []) @
      (if 0 < us_reasoning u then [(''completion_tokens_details'', j_objek [(''reasoning_tokens'', j_int (us_reasoning u))])] else []))"

definition encode_tool_call :: "bool \<Rightarrow> tool_call \<Rightarrow> json" where
  "encode_tool_call with_index tc = j_objek
     ((if with_index then [(''index'', j_int (tc_index tc))] else []) @ bila_isi ''id'' (tc_id tc) @ bila_isi ''type'' (tc_type tc) @
      [(''function'', j_objek (bila_isi ''name'' (tc_name tc) @ [(''arguments'', j_teks (tc_arguments tc))]))])"

definition encode_tool_calls :: "tool_call list \<Rightarrow> bool \<Rightarrow> json list" where
  "encode_tool_calls tcs with_index = map (encode_tool_call with_index) tcs"

definition finish_reason_untuk_openai :: "string \<Rightarrow> string" where
  "finish_reason_untuk_openai r = (if r = finish_stop_sequence \<or> r = finish_pause_turn then finish_stop else r)"

definition finish_openai :: "string \<Rightarrow> json" where
  "finish_openai r = (if r = [] then j_null else j_teks (finish_reason_untuk_openai r))"

definition oa_content_part :: "content_part \<Rightarrow> json list" where
  "oa_content_part p =
     (if cp_type p = part_type_text then [j_objek ([(''type'', j_teks ''text'')] @ bila_isi ''text'' (cp_text p))]
      else if cp_type p = part_type_image_url then
        (case cp_image_url p of
           None \<Rightarrow> []
         | Some u \<Rightarrow> [j_objek [(''type'', j_teks ''image_url''), (''image_url'', j_objek [(''url'', j_teks (iu_url u))])]])
      else [])"

definition encode_bagian_openai :: "content_part list \<Rightarrow> json" where
  "encode_bagian_openai ps = j_larik (concat (map oa_content_part ps))"

definition encode_choice :: "choice \<Rightarrow> json" where
  "encode_choice c =
     (let m = ch_message c;
          konten = (if ms_parts m \<noteq> [] then encode_bagian_openai (ms_parts m)
                    else if ms_content m \<noteq> [] \<or> ms_tool_calls m = [] then j_teks (ms_content m) else j_null)
      in j_objek
        [(''index'', j_int (ch_index c)),
         (''message'', j_objek ([(''role'', j_teks (ms_role m)), (''content'', konten)] @
            bila_isi ''reasoning_content'' (ms_reasoning_content m) @
            bila_larik ''tool_calls'' (encode_tool_calls (ms_tool_calls m) False) @
            bila_isi ''thought_signature'' (ms_reasoning_signature m))),
         (''finish_reason'', finish_openai (ch_finish_reason c))])"

definition encode_completion :: "chat_response \<Rightarrow> json" where
  "encode_completion resp = j_objek
     [(''id'', j_teks (rs_id resp)), (''object'', j_teks ''chat.completion''), (''created'', j_int (rs_created resp)),
      (''model'', j_teks (rs_model resp)), (''choices'', j_larik (map encode_choice (rs_choices resp))),
      (''usage'', encode_usage (rs_usage resp))]"

text \<open>A piece of a stream; \<open>None\<close> for the delta is a piece without a choice.\<close>

record oa_delta =
  od_role :: string
  od_content :: "json option"
  od_reasoning :: string
  od_signature :: string
  od_tool_calls :: "json list"

definition delta_kosong :: oa_delta where
  "delta_kosong = \<lparr>od_role = [], od_content = None, od_reasoning = [], od_signature = [], od_tool_calls = []\<rparr>"

definition j_delta :: "oa_delta \<Rightarrow> json" where
  "j_delta d = j_objek (bila_isi ''role'' (od_role d) @ bila_some ''content'' id (od_content d) @
     bila_isi ''reasoning_content'' (od_reasoning d) @ bila_isi ''thought_signature'' (od_signature d) @
     bila_larik ''tool_calls'' (od_tool_calls d))"

definition text_delta :: "string \<Rightarrow> oa_delta" where
  "text_delta s = delta_kosong\<lparr>od_content := Some (j_teks s)\<rparr>"

definition encode_chunk :: "string \<Rightarrow> string \<Rightarrow> int \<Rightarrow> oa_delta option \<Rightarrow> string \<Rightarrow> usage option \<Rightarrow> json" where
  "encode_chunk i model created delta finish u = j_objek
     ([(''id'', j_teks i), (''object'', j_teks ''chat.completion.chunk''), (''created'', j_int created), (''model'', j_teks model),
       (''choices'', j_larik (case delta of None \<Rightarrow> []
          | Some d \<Rightarrow> [j_objek [(''index'', j_int 0), (''delta'', j_delta d), (''finish_reason'', finish_openai finish)]]))] @
      bila_some ''usage'' encode_usage u)"

section \<open>The canonical answer\<close>

definition to_canonical_response :: "int \<Rightarrow> messages_response \<Rightarrow> chat_response" where
  "to_canonical_response created u =
     (let resp = \<lparr>rs_id = mr_id u, rs_model = mr_model u, rs_created = created,
                  rs_choices = [\<lparr>ch_index = 0, ch_message = pesan_rakitan (foldl rakit_blok rakitan_awal (mr_content u)),
                                ch_finish_reason = map_stop_reason (mr_stop_reason u), ch_stop_sequence = mr_stop_sequence u\<rparr>],
                  rs_usage = to_canonical_usage (mr_usage u), rs_raw = None\<rparr>
      in resp\<lparr>rs_raw := Some (encode_completion resp)\<rparr>)"

end
