(* ===== verification/Anthropic_Stream.thy ===== *)
theory Anthropic_Stream
  imports Complex_Main Anthropic_Wire
begin

text \<open>
  The stream of the Anthropic adapter, \<^verbatim>\<open>internal/providers/anthropic/stream.go\<close>: server-sent events of the
  upstream become canonical events.  The events are a list that ends with the end of the body or an
  error of its reading; \<open>urai\<close> is the JSON parser.
\<close>

section \<open>Events\<close>

record sse_event =
  sv_event :: string
  sv_data :: string

datatype akhir_baca = AkhirBody | GalatBaca transport

record stream_delta =
  sd_type :: string
  sd_text :: string
  sd_partial_json :: string
  sd_thinking :: string
  sd_stop_reason :: string
  sd_stop_sequence :: string
  sd_signature :: string

record amplop =
  ap_type :: string
  ap_index :: int
  ap_message :: "messages_response option"
  ap_content_block :: "blok option"
  ap_delta :: "stream_delta option"
  ap_usage :: "upstream_usage option"
  ap_error :: "(string \<times> string) option"

definition u_stream_delta :: "json \<Rightarrow> stream_delta option" where
  "u_stream_delta j = do {
     kvs \<leftarrow> u_bidang j;
     jenis \<leftarrow> u_opsi [] u_teks (terisi ''type'' kvs);
     teks \<leftarrow> u_opsi [] u_teks (terisi ''text'' kvs);
     bagian \<leftarrow> u_opsi [] u_teks (terisi ''partial_json'' kvs);
     pikir \<leftarrow> u_opsi [] u_teks (terisi ''thinking'' kvs);
     henti \<leftarrow> u_opsi [] u_teks (terisi ''stop_reason'' kvs);
     urutan \<leftarrow> u_opsi [] u_teks (terisi ''stop_sequence'' kvs);
     ttd \<leftarrow> u_opsi [] u_signature (semua ''signature'' kvs);
     Some \<lparr>sd_type = jenis, sd_text = teks, sd_partial_json = bagian, sd_thinking = pikir,
       sd_stop_reason = henti, sd_stop_sequence = urutan, sd_signature = ttd\<rparr> }"

definition u_amplop :: "json \<Rightarrow> amplop option" where
  "u_amplop j = do {
     kvs \<leftarrow> u_bidang j;
     jenis \<leftarrow> u_opsi [] u_teks (terisi ''type'' kvs);
     i \<leftarrow> u_opsi 0 u_int (terisi ''index'' kvs);
     pesan \<leftarrow> u_opsi None (u_ptr u_messages_response) (semua ''message'' kvs);
     b \<leftarrow> u_opsi None (u_ptr u_blok) (semua ''content_block'' kvs);
     d \<leftarrow> u_opsi None (u_ptr u_stream_delta) (semua ''delta'' kvs);
     u \<leftarrow> u_opsi None (u_ptr u_upstream_usage) (semua ''usage'' kvs);
     g \<leftarrow> u_opsi None (u_ptr u_galat) (semua ''error'' kvs);
     Some \<lparr>ap_type = jenis, ap_index = i, ap_message = pesan, ap_content_block = b, ap_delta = d, ap_usage = u, ap_error = g\<rparr> }"

text \<open>\<^verbatim>\<open>providers.StreamEvent\<close>.\<close>

record stream_event =
  se_delta :: string
  se_reasoning :: string
  se_signature :: string
  se_refusal :: string
  se_transcript :: string
  se_tool_calls :: "tool_call list"
  se_parts :: "content_part list"
  se_finish :: string
  se_stop_sequence :: string
  se_usage :: "usage option"
  se_raw :: "json option"

definition event_kosong :: stream_event where
  "event_kosong = \<lparr>se_delta = [], se_reasoning = [], se_signature = [], se_refusal = [], se_transcript = [],
     se_tool_calls = [], se_parts = [], se_finish = [], se_stop_sequence = [], se_usage = None, se_raw = None\<rparr>"

definition panjang_raw :: "stream_event \<Rightarrow> int" where
  "panjang_raw e = (case se_raw e of None \<Rightarrow> 0 | Some j \<Rightarrow> int (length (sumber j)))"

section \<open>The state of a stream\<close>

record aliran_anthropic =
  aa_provider :: string
  aa_retry_after :: durasi
  aa_created :: int
  aa_done :: bool
  aa_streamed :: int
  aa_id :: string
  aa_model :: string
  aa_usage :: upstream_usage
  aa_usage_seen :: bool
  aa_usage_sent :: bool
  aa_tool_index :: "(int \<times> int) list"
  aa_next_tool :: int
  aa_stop_sequence :: string

text \<open>\<^verbatim>\<open>event\<close>.\<close>

definition buat_event :: "aliran_anthropic \<Rightarrow> oa_delta option \<Rightarrow> string \<Rightarrow> usage option \<Rightarrow> stream_event" where
  "buat_event s delta finish u =
     event_kosong\<lparr>se_finish := finish, se_usage := u, se_raw := Some (encode_chunk (aa_id s) (aa_model s) (aa_created s) delta finish u)\<rparr>"

definition tool_index_for :: "int \<Rightarrow> aliran_anthropic \<Rightarrow> int \<times> aliran_anthropic" where
  "tool_index_for i s =
     (case map_of (aa_tool_index s) i of
        Some k \<Rightarrow> (k, s)
      | None \<Rightarrow> (aa_next_tool s, s\<lparr>aa_next_tool := aa_next_tool s + 1, aa_tool_index := (i, aa_next_tool s) # aa_tool_index s\<rparr>))"

definition terbaru :: "int \<Rightarrow> int \<Rightarrow> int" where
  "terbaru lama baru = (if 0 < baru then baru else lama)"

definition gabung_rincian :: "rincian_cache option \<Rightarrow> rincian_cache option \<Rightarrow> rincian_cache option" where
  "gabung_rincian lama baru =
     (case baru of
        None \<Rightarrow> lama
      | Some r \<Rightarrow>
          let l = (case lama of None \<Rightarrow> \<lparr>rc_1h = 0, rc_5m = 0\<rparr> | Some l \<Rightarrow> l)
          in Some \<lparr>rc_1h = terbaru (rc_1h l) (rc_1h r), rc_5m = terbaru (rc_5m l) (rc_5m r)\<rparr>)"

definition gabung_usage :: "upstream_usage \<Rightarrow> upstream_usage \<Rightarrow> upstream_usage" where
  "gabung_usage lama u =
     \<lparr>uu_input = terbaru (uu_input lama) (uu_input u), uu_output = terbaru (uu_output lama) (uu_output u),
      uu_cache_read = terbaru (uu_cache_read lama) (uu_cache_read u),
      uu_cache_creation = terbaru (uu_cache_creation lama) (uu_cache_creation u),
      uu_rincian = gabung_rincian (uu_rincian lama) (uu_rincian u)\<rparr>"

definition ada_usage :: "upstream_usage \<Rightarrow> bool" where
  "ada_usage u \<longleftrightarrow> 0 < uu_input u \<or> 0 < uu_output u \<or> 0 < uu_cache_read u \<or> 0 < uu_cache_creation u"

definition merge_usage :: "upstream_usage \<Rightarrow> aliran_anthropic \<Rightarrow> aliran_anthropic" where
  "merge_usage u s = s\<lparr>aa_usage := gabung_usage (aa_usage s) u, aa_usage_seen := (aa_usage_seen s \<or> ada_usage u)\<rparr>"

section \<open>Failures\<close>

definition kind_for_upstream_type :: "string \<Rightarrow> error_kind" where
  "kind_for_upstream_type t =
     (if t = ''overloaded_error'' then KindOverloaded
      else if t = ''rate_limit_error'' then KindRateLimit
      else if t = ''authentication_error'' then KindAuth
      else if t = ''permission_error'' then KindPermission
      else if t = ''not_found_error'' then KindModelNotFound
      else if t = ''invalid_request_error'' then KindInvalidRequest
      else if t = ''timeout_error'' then KindTimeout
      else KindServer)"

definition upstream_error :: "amplop \<Rightarrow> aliran_anthropic \<Rightarrow> perror" where
  "upstream_error env s =
     (let kode = (case ap_error env of None \<Rightarrow> [] | Some (t, _) \<Rightarrow> t)
      in (newf (kind_for_upstream_type kode) (aa_provider s)
            (''Anthropic melaporkan galat di tengah aliran'' @
             (if kode = [] then [] else '' (kode upstream: '' @ kode @ '')'')))
           \<lparr>pe_upstream_code := kode, pe_streamed_bytes := aa_streamed s, pe_retry_after := aa_retry_after s\<rparr>)"

definition failure :: "transport option \<Rightarrow> string \<Rightarrow> aliran_anthropic \<Rightarrow> perror" where
  "failure err pesan s =
     (let (kind, teks) =
        (if (case err of None \<Rightarrow> False | Some t \<Rightarrow> tr_canceled t) then (KindCanceled, ''permintaan dibatalkan sebelum aliran selesai'')
         else if (case err of None \<Rightarrow> False | Some t \<Rightarrow> tr_deadline t) then (KindTimeout, ''aliran melewati batas waktu sebelum selesai'')
         else if 0 < aa_streamed s then (KindStreamAborted, pesan)
         else (KindServer, pesan))
      in (newf kind (aa_provider s) teks)\<lparr>pe_streamed_bytes := aa_streamed s\<rparr>)"

section \<open>One event\<close>

text \<open>\<^verbatim>\<open>Tamat\<close> is \<^verbatim>\<open>io.EOF\<close>.\<close>

datatype tanggapan = Lewati | Terbit stream_event | Gagalkan perror | Tamat

definition masukan_utuh :: "json option \<Rightarrow> string" where
  "masukan_utuh x = (case x of None \<Rightarrow> [] | Some j \<Rightarrow>
     (let t = trim_space (sumber j) in if t = ''{}'' \<or> t = ''null'' then [] else t))"

definition panggilan_kosong :: tool_call where
  "panggilan_kosong = \<lparr>tc_index = 0, tc_id = [], tc_type = [], tc_name = [], tc_arguments = [], tc_thought_signature = []\<rparr>"

definition event_panggilan :: "aliran_anthropic \<Rightarrow> tool_call \<Rightarrow> stream_event" where
  "event_panggilan s call =
     (buat_event s (Some (delta_kosong\<lparr>od_tool_calls := encode_tool_calls [call] True\<rparr>)) [] None)\<lparr>se_tool_calls := [call]\<rparr>"

definition block_start :: "amplop \<Rightarrow> aliran_anthropic \<Rightarrow> tanggapan \<times> aliran_anthropic" where
  "block_start env s =
     (case ap_content_block env of
        None \<Rightarrow> (Lewati, s)
      | Some b \<Rightarrow>
          if bk_type b = ''tool_use'' then
            let (k, s') = tool_index_for (ap_index env) s;
                call = panggilan_kosong\<lparr>tc_index := k, tc_id := bk_id b, tc_type := ''function'', tc_name := bk_name b,
                         tc_arguments := masukan_utuh (bk_input b)\<rparr>
            in (Terbit (event_panggilan s' call), s')
          else if bk_type b = ''text'' then
            if bk_text b = [] then (Lewati, s)
            else (Terbit ((buat_event s (Some (text_delta (bk_text b))) [] None)\<lparr>se_delta := bk_text b\<rparr>), s)
          else if bk_type b = ''image'' then
            (case Option.bind (bk_source b) url_gambar of
               None \<Rightarrow> (Lewati, s)
             | Some u \<Rightarrow>
                 (Terbit ((buat_event s (Some (delta_kosong\<lparr>od_content := Some (j_larik (oa_content_part (bagian_gambar u)))\<rparr>)) [] None)
                    \<lparr>se_parts := [bagian_gambar u]\<rparr>), s))
          else (Lewati, s))"

definition block_delta :: "amplop \<Rightarrow> aliran_anthropic \<Rightarrow> tanggapan \<times> aliran_anthropic" where
  "block_delta env s =
     (case ap_delta env of
        None \<Rightarrow> (Lewati, s)
      | Some d \<Rightarrow>
          if sd_type d = ''text_delta'' then
            if sd_text d = [] then (Lewati, s)
            else (Terbit ((buat_event s (Some (text_delta (sd_text d))) [] None)\<lparr>se_delta := sd_text d\<rparr>), s)
          else if sd_type d = ''thinking_delta'' then
            if sd_thinking d = [] then (Lewati, s)
            else (Terbit ((buat_event s (Some (delta_kosong\<lparr>od_reasoning := sd_thinking d\<rparr>)) [] None)\<lparr>se_reasoning := sd_thinking d\<rparr>), s)
          else if sd_type d = ''input_json_delta'' then
            if sd_partial_json d = [] then (Lewati, s)
            else
              let (k, s') = tool_index_for (ap_index env) s
              in (Terbit (event_panggilan s' (panggilan_kosong\<lparr>tc_index := k, tc_arguments := sd_partial_json d\<rparr>)), s')
          else if sd_type d = ''signature_delta'' then
            if sd_signature d = [] then (Lewati, s)
            else (Terbit ((buat_event s (Some (delta_kosong\<lparr>od_signature := sd_signature d\<rparr>)) [] None)\<lparr>se_signature := sd_signature d\<rparr>), s)
          else (Lewati, s))"

definition message_start :: "amplop \<Rightarrow> aliran_anthropic \<Rightarrow> tanggapan \<times> aliran_anthropic" where
  "message_start env s =
     (let s' = (case ap_message env of
                  None \<Rightarrow> s
                | Some m \<Rightarrow> merge_usage (mr_usage m) (s\<lparr>aa_id := mr_id m, aa_model := (if mr_model m = [] then aa_model s else mr_model m)\<rparr>))
      in (Terbit (buat_event s' (Some (delta_kosong\<lparr>od_role := ''assistant''\<rparr>)) [] None), s'))"

definition message_delta :: "amplop \<Rightarrow> aliran_anthropic \<Rightarrow> tanggapan \<times> aliran_anthropic" where
  "message_delta env s =
     (let s1 = (case ap_usage env of None \<Rightarrow> s | Some u \<Rightarrow> merge_usage u s);
          (henti, s2) = (case ap_delta env of
                           None \<Rightarrow> ([], s1)
                         | Some d \<Rightarrow> (map_stop_reason (sd_stop_reason d), s1\<lparr>aa_stop_sequence := sd_stop_sequence d\<rparr>));
          (u, s3) = (if aa_usage_seen s2 then (Some (to_canonical_usage (aa_usage s2)), s2\<lparr>aa_usage_sent := True\<rparr>) else (None, s2))
      in (Terbit ((buat_event s3 (Some delta_kosong) henti u)\<lparr>se_stop_sequence := aa_stop_sequence s3\<rparr>), s3))"

definition message_stop :: "aliran_anthropic \<Rightarrow> tanggapan \<times> aliran_anthropic" where
  "message_stop s =
     (let s1 = s\<lparr>aa_done := True\<rparr>
      in if aa_usage_seen s1 \<and> \<not> aa_usage_sent s1
         then let s2 = s1\<lparr>aa_usage_sent := True\<rparr>
              in (Terbit (buat_event s2 None [] (Some (to_canonical_usage (aa_usage s2)))), s2)
         else (Tamat, s1))"

text \<open>\<^verbatim>\<open>handle\<close>, after the data has been parsed, and on the bytes.\<close>

definition tangani :: "string \<Rightarrow> amplop \<Rightarrow> aliran_anthropic \<Rightarrow> tanggapan \<times> aliran_anthropic" where
  "tangani nama env s =
     (let kind = (if ap_type env = [] then nama else ap_type env)
      in if kind = ''ping'' \<or> kind = ''content_block_stop'' then (Lewati, s)
         else if kind = ''error'' then (Gagalkan (upstream_error env s), s)
         else if kind = ''message_start'' then message_start env s
         else if kind = ''content_block_start'' then block_start env s
         else if kind = ''content_block_delta'' then block_delta env s
         else if kind = ''message_delta'' then message_delta env s
         else if kind = ''message_stop'' then message_stop s
         else (Lewati, s))"

definition handle :: "(string \<Rightarrow> json option) \<Rightarrow> sse_event \<Rightarrow> aliran_anthropic \<Rightarrow> tanggapan \<times> aliran_anthropic" where
  "handle urai ev s =
     (if sv_data ev = [] then (Lewati, s)
      else case Option.bind (urai (sv_data ev)) u_amplop of
             None \<Rightarrow> (Gagalkan (failure None ''peristiwa aliran Anthropic tidak bisa diurai'' s), s)
           | Some env \<Rightarrow> tangani (sv_event ev) env s)"

section \<open>Recv\<close>

datatype terima = Peristiwa stream_event | Habis | Putus perror

fun recv_loop :: "(string \<Rightarrow> json option) \<Rightarrow> akhir_baca \<Rightarrow> sse_event list \<Rightarrow> aliran_anthropic \<Rightarrow> terima \<times> sse_event list \<times> aliran_anthropic" where
  "recv_loop urai a [] s =
     (let s' = s\<lparr>aa_done := True\<rparr>
      in (case a of
            AkhirBody \<Rightarrow> (Putus (failure None ''aliran Anthropic terputus sebelum peristiwa message_stop'' s'), [], s')
          | GalatBaca t \<Rightarrow> (Putus (failure (Some t) ''aliran Anthropic gagal dibaca'' s'), [], s')))"
| "recv_loop urai a (ev # evs) s =
     (case handle urai ev s of
        (Lewati, s') \<Rightarrow> recv_loop urai a evs s'
      | (Gagalkan e, s') \<Rightarrow> (Putus e, evs, s'\<lparr>aa_done := True\<rparr>)
      | (Tamat, s') \<Rightarrow> (Habis, evs, s'\<lparr>aa_done := True\<rparr>)
      | (Terbit e, s') \<Rightarrow> (Peristiwa e, evs, s'\<lparr>aa_streamed := aa_streamed s' + panjang_raw e\<rparr>))"

definition recv :: "(string \<Rightarrow> json option) \<Rightarrow> akhir_baca \<Rightarrow> sse_event list \<Rightarrow> aliran_anthropic \<Rightarrow> terima \<times> sse_event list \<times> aliran_anthropic" where
  "recv urai a evs s = (if aa_done s then (Habis, evs, s) else recv_loop urai a evs s)"

definition aliran_awal :: "string \<Rightarrow> durasi \<Rightarrow> int \<Rightarrow> string \<Rightarrow> aliran_anthropic" where
  "aliran_awal provider retry created model =
     \<lparr>aa_provider = provider, aa_retry_after = retry, aa_created = created, aa_done = False, aa_streamed = 0,
      aa_id = [], aa_model = model, aa_usage = usage_nol, aa_usage_seen = False, aa_usage_sent = False,
      aa_tool_index = [], aa_next_tool = 0, aa_stop_sequence = []\<rparr>"

text \<open>A consumer that calls \<^verbatim>\<open>Recv\<close> until it says that nothing follows.\<close>

lemma recv_loop_shorter: "recv_loop urai a evs s = (Peristiwa e, evs', s') \<Longrightarrow> length evs' < length evs"
proof (induction evs arbitrary: s)
  case (Cons ev evs)
  then show ?case by (fastforce split: prod.splits tanggapan.splits)
qed (simp add: Let_def split: akhir_baca.splits)

function baca_semua :: "(string \<Rightarrow> json option) \<Rightarrow> akhir_baca \<Rightarrow> sse_event list \<Rightarrow> aliran_anthropic \<Rightarrow> stream_event list \<times> perror option" where
  "baca_semua urai a evs s =
     (case recv urai a evs s of
        (Peristiwa e, evs', s') \<Rightarrow> (case baca_semua urai a evs' s' of (es, r) \<Rightarrow> (e # es, r))
      | (Habis, _, _) \<Rightarrow> ([], None)
      | (Putus e, _, _) \<Rightarrow> ([], Some e))"
  by pat_completeness auto
termination
  by (relation "measure (\<lambda>(urai, a, evs, s). length evs)")
    (auto simp: recv_def split: if_splits dest: recv_loop_shorter [OF sym])

declare baca_semua.simps [simp del]

end
