(* ===== verification/Messages_Stream.thy ===== *)
theory Messages_Stream
  imports Complex_Main Anthropic_Stream
begin

text \<open>
  The Messages surface of the gateway while it streams, \<^verbatim>\<open>anthropicChatMengalir\<close> in
  \<^verbatim>\<open>internal/gateway/anthropic.go\<close>, from the first byte of its answer on: canonical events become content
  blocks.  What is written is a list of events with their payloads; \<open>W n\<close> says whether the \<open>n\<close>-th write
  reaches the client.  The mapping of failures is that of \<^verbatim>\<open>errors_http.go\<close>.
\<close>

section \<open>Failures as the client sees them\<close>

record http_galat =
  hg_status :: int
  hg_type :: string
  hg_code :: string
  hg_message :: string

definition pesan_klien_aman :: "perror \<Rightarrow> string \<Rightarrow> string" where
  "pesan_klien_aman e generik =
     (if pe_message e = [] then generik
      else if pe_local e \<or> pe_status_code e = 0 then pe_message e
      else generik)"

definition status_client_closed :: int where "status_client_closed = 499"

definition http_untuk :: "perror option \<Rightarrow> http_galat" where
  "http_untuk x =
     (case x of
        None \<Rightarrow> \<lparr>hg_status = 500, hg_type = ''api_error'', hg_code = ''internal_error'',
                 hg_message = ''terjadi kesalahan internal, coba lagi nanti''\<rparr>
      | Some e \<Rightarrow>
          (case pe_kind e of
             KindInvalidRequest \<Rightarrow> \<lparr>hg_status = 400, hg_type = ''invalid_request_error'', hg_code = ''invalid_request_error'',
               hg_message = pesan_klien_aman e ''permintaan tidak sah menurut provider''\<rparr>
           | KindModelNotFound \<Rightarrow> \<lparr>hg_status = 404, hg_type = ''invalid_request_error'', hg_code = ''model_not_found'',
               hg_message = pesan_klien_aman e ''model tidak tersedia di provider yang melayani permintaan ini''\<rparr>
           | KindContentFilter \<Rightarrow> \<lparr>hg_status = 400, hg_type = ''invalid_request_error'', hg_code = ''content_filter'',
               hg_message = pesan_klien_aman e ''permintaan ditolak kebijakan konten provider''\<rparr>
           | KindRateLimit \<Rightarrow> \<lparr>hg_status = 429, hg_type = ''rate_limit_error'', hg_code = ''rate_limit_exceeded'',
               hg_message = ''seluruh provider untuk model ini sedang membatasi laju, coba lagi beberapa saat lagi''\<rparr>
           | KindOverloaded \<Rightarrow> \<lparr>hg_status = 503, hg_type = ''overloaded_error'', hg_code = ''upstream_overloaded'',
               hg_message = ''provider untuk model ini sedang penuh, coba lagi beberapa saat lagi''\<rparr>
           | KindTimeout \<Rightarrow> \<lparr>hg_status = 504, hg_type = ''api_error'', hg_code = ''upstream_timeout'',
               hg_message = ''provider tidak menjawab sebelum batas waktu''\<rparr>
           | KindAuth \<Rightarrow> \<lparr>hg_status = 502, hg_type = ''api_error'', hg_code = ''upstream_auth_failed'',
               hg_message = ''kredensial gateway ke provider ditolak; ini bukan soal API key Anda''\<rparr>
           | KindPermission \<Rightarrow> \<lparr>hg_status = 502, hg_type = ''api_error'', hg_code = ''upstream_permission_denied'',
               hg_message = ''gateway tidak berhak memakai model ini di provider yang tersedia''\<rparr>
           | KindQuota \<Rightarrow> \<lparr>hg_status = 502, hg_type = ''api_error'', hg_code = ''upstream_quota_exhausted'',
               hg_message = ''kuota gateway pada provider untuk model ini sudah habis''\<rparr>
           | KindCanceled \<Rightarrow> \<lparr>hg_status = status_client_closed, hg_type = ''api_error'', hg_code = ''client_closed_request'',
               hg_message = ''permintaan dibatalkan sebelum selesai''\<rparr>
           | _ \<Rightarrow> \<lparr>hg_status = 502, hg_type = ''api_error'', hg_code = ''upstream_error'',
               hg_message = ''provider gagal menjawab permintaan ini''\<rparr>))"

definition tipe_error_anthropic_untuk_upstream :: "perror option \<Rightarrow> string" where
  "tipe_error_anthropic_untuk_upstream x =
     (case x of
        None \<Rightarrow> ''api_error''
      | Some e \<Rightarrow>
          (case pe_kind e of
             KindRateLimit \<Rightarrow> ''rate_limit_error''
           | KindOverloaded \<Rightarrow> ''overloaded_error''
           | KindInvalidRequest \<Rightarrow> ''invalid_request_error''
           | KindContentFilter \<Rightarrow> ''invalid_request_error''
           | KindModelNotFound \<Rightarrow> ''not_found_error''
           | KindAuth \<Rightarrow> ''authentication_error''
           | KindPermission \<Rightarrow> ''permission_error''
           | KindQuota \<Rightarrow> ''billing_error''
           | _ \<Rightarrow> ''api_error''))"

section \<open>Usage and images\<close>

record anthropic_usage =
  au_input :: int
  au_output :: int
  au_cache_creation :: int
  au_cache_read :: int
  au_rincian :: "rincian_cache option"

definition usage_anthropic_dari_kanonik :: "usage \<Rightarrow> anthropic_usage" where
  "usage_anthropic_dari_kanonik u =
     (let masuk = wrap64 (us_input u - us_cached_input u - us_cache_creation u)
      in \<lparr>au_input = (if masuk < 0 then 0 else masuk), au_output = us_output u,
          au_cache_creation = us_cache_creation u, au_cache_read = us_cached_input u,
          au_rincian = (if 0 < us_cache_creation_1h u \<or> 0 < us_cache_creation_5m u
                        then Some \<lparr>rc_1h = us_cache_creation_1h u, rc_5m = us_cache_creation_5m u\<rparr> else None)\<rparr>)"

definition akhiran_base64 :: string where "akhiran_base64 = '';base64''"

definition has_suffix :: "string \<Rightarrow> string \<Rightarrow> bool" where
  "has_suffix s t \<longleftrightarrow> length t \<le> length s \<and> drop (length s - length t) s = t"

text \<open>\<^verbatim>\<open>strings.Cut\<close> at one byte.\<close>

definition cut :: "char \<Rightarrow> string \<Rightarrow> (string \<times> string) option" where
  "cut c s = (if c \<in> set s then Some (takeWhile (\<lambda>x. x \<noteq> c) s, drop 1 (dropWhile (\<lambda>x. x \<noteq> c) s)) else None)"

definition sumber_data_uri :: "string \<Rightarrow> image_source option" where
  "sumber_data_uri url =
     (if \<not> has_prefix url ''data:'' then None
      else case cut (CHR '','') (drop 5 url) of
             None \<Rightarrow> None
           | Some (meta, d) \<Rightarrow>
               if has_suffix meta akhiran_base64 then
                 Some \<lparr>is_type = ''base64'',
                       is_media_type = takeWhile (\<lambda>c. c \<noteq> CHR '';'') (take (length meta - length akhiran_base64) meta),
                       is_data = d, is_url = []\<rparr>
               else None)"

definition blok_gambar_dari_part :: "content_part \<Rightarrow> image_source option" where
  "blok_gambar_dari_part p =
     (case cp_image_url p of
        None \<Rightarrow> None
      | Some u \<Rightarrow>
          if iu_url u = [] then None
          else (case sumber_data_uri (iu_url u) of
                  Some s \<Rightarrow> Some s
                | None \<Rightarrow> Some \<lparr>is_type = ''url'', is_media_type = [], is_data = [], is_url = iu_url u\<rparr>))"

section \<open>What is written\<close>

datatype blok_keluar = BTeks | BPikir | BAlat string string | BGambar image_source

datatype delta_keluar = DTeks string | DPikir string | DTtd string | DArgumen string

datatype keluaran =
    KMulai string string int
  | KBlok int blok_keluar
  | KDelta int delta_keluar
  | KTutup int
  | KPesan string string anthropic_usage
  | KHenti
  | KGalat string string

text \<open>\<^verbatim>\<open>json.Marshal\<close> of a map writes its keys in order.\<close>

definition j_image_source :: "image_source \<Rightarrow> json" where
  "j_image_source s = j_objek ([(''type'', j_teks (is_type s))] @ bila_isi ''media_type'' (is_media_type s) @
     bila_isi ''data'' (is_data s) @ bila_isi ''url'' (is_url s))"

definition j_blok_keluar :: "blok_keluar \<Rightarrow> json" where
  "j_blok_keluar b =
     (case b of
        BTeks \<Rightarrow> j_objek [(''text'', j_teks []), (''type'', j_teks ''text'')]
      | BPikir \<Rightarrow> j_objek [(''thinking'', j_teks []), (''type'', j_teks ''thinking'')]
      | BAlat i n \<Rightarrow> j_objek [(''id'', j_teks i), (''input'', j_objek []), (''name'', j_teks n), (''type'', j_teks ''tool_use'')]
      | BGambar s \<Rightarrow> j_objek [(''type'', j_teks ''image''), (''source'', j_image_source s)])"

definition j_delta_keluar :: "delta_keluar \<Rightarrow> json" where
  "j_delta_keluar d =
     (case d of
        DTeks s \<Rightarrow> j_objek [(''text'', j_teks s), (''type'', j_teks ''text_delta'')]
      | DPikir s \<Rightarrow> j_objek [(''thinking'', j_teks s), (''type'', j_teks ''thinking_delta'')]
      | DTtd s \<Rightarrow> j_objek [(''signature'', j_teks s), (''type'', j_teks ''signature_delta'')]
      | DArgumen s \<Rightarrow> j_objek [(''partial_json'', j_teks s), (''type'', j_teks ''input_json_delta'')])"

definition j_rincian :: "rincian_cache \<Rightarrow> json" where
  "j_rincian r = j_objek [(''ephemeral_1h_input_tokens'', j_int (rc_1h r)), (''ephemeral_5m_input_tokens'', j_int (rc_5m r))]"

definition j_usage_keluar :: "anthropic_usage \<Rightarrow> json" where
  "j_usage_keluar u = j_objek (bila_some ''cache_creation'' j_rincian (au_rincian u) @
     [(''cache_creation_input_tokens'', j_int (au_cache_creation u)), (''cache_read_input_tokens'', j_int (au_cache_read u)),
      (''input_tokens'', j_int (au_input u)), (''output_tokens'', j_int (au_output u))])"

definition nama_keluaran :: "keluaran \<Rightarrow> string" where
  "nama_keluaran k =
     (case k of
        KMulai _ _ _ \<Rightarrow> ''message_start'' | KBlok _ _ \<Rightarrow> ''content_block_start'' | KDelta _ _ \<Rightarrow> ''content_block_delta''
      | KTutup _ \<Rightarrow> ''content_block_stop'' | KPesan _ _ _ \<Rightarrow> ''message_delta'' | KHenti \<Rightarrow> ''message_stop''
      | KGalat _ _ \<Rightarrow> ''error'')"

definition j_keluaran :: "keluaran \<Rightarrow> json" where
  "j_keluaran k =
     (case k of
        KMulai i model n \<Rightarrow>
          j_objek [(''message'', j_objek
            [(''content'', j_larik []), (''id'', j_teks i), (''model'', j_teks model), (''role'', j_teks ''assistant''),
             (''stop_reason'', j_null), (''stop_sequence'', j_null), (''type'', j_teks ''message''),
             (''usage'', j_objek [(''input_tokens'', j_int n), (''output_tokens'', j_int 0)])]),
            (''type'', j_teks ''message_start'')]
      | KBlok i b \<Rightarrow> j_objek [(''content_block'', j_blok_keluar b), (''index'', j_int i), (''type'', j_teks ''content_block_start'')]
      | KDelta i d \<Rightarrow> j_objek [(''delta'', j_delta_keluar d), (''index'', j_int i), (''type'', j_teks ''content_block_delta'')]
      | KTutup i \<Rightarrow> j_objek [(''index'', j_int i), (''type'', j_teks ''content_block_stop'')]
      | KPesan r s u \<Rightarrow>
          j_objek [(''delta'', j_objek [(''stop_reason'', j_teks r), (''stop_sequence'', if s = [] then j_null else j_teks s)]),
            (''type'', j_teks ''message_delta''), (''usage'', j_usage_keluar u)]
      | KHenti \<Rightarrow> j_objek [(''type'', j_teks ''message_stop'')]
      | KGalat t m \<Rightarrow> j_objek [(''error'', j_objek [(''message'', j_teks m), (''type'', j_teks t)]), (''type'', j_teks ''error'')])"

section \<open>The writer\<close>

record alat_aliran =
  al_index :: int
  al_id :: string
  al_blok :: int

record penulis =
  pn_keluar :: "keluaran list"
  pn_tulis :: nat
  pn_gagal :: bool
  pn_berhenti :: bool
  pn_index :: int
  pn_tipe :: string
  pn_terbuka :: bool
  pn_berikut :: int
  pn_alat :: "alat_aliran list"
  pn_stop :: string
  pn_stop_seq :: string
  pn_usage :: usage
  pn_konten :: int
  pn_asing :: "string list"
  pn_galat :: "perror option option"

definition penulis_awal :: penulis where
  "penulis_awal =
     \<lparr>pn_keluar = [], pn_tulis = 0, pn_gagal = False, pn_berhenti = False, pn_index = 0, pn_tipe = [], pn_terbuka = False,
      pn_berikut = 0, pn_alat = [], pn_stop = ''end_turn'', pn_stop_seq = [], pn_usage = pemakaian_nol, pn_konten = 0,
      pn_asing = [], pn_galat = None\<rparr>"

text \<open>One write, \<^verbatim>\<open>kirimEvent\<close>, which marks the trace when it fails, and one whose failure is ignored.\<close>

definition kirim_abai :: "(nat \<Rightarrow> bool) \<Rightarrow> keluaran \<Rightarrow> penulis \<Rightarrow> penulis" where
  "kirim_abai W k p = p\<lparr>pn_keluar := (if W (pn_tulis p) then pn_keluar p @ [k] else pn_keluar p), pn_tulis := pn_tulis p + 1\<rparr>"

definition kirim_event :: "(nat \<Rightarrow> bool) \<Rightarrow> keluaran \<Rightarrow> penulis \<Rightarrow> bool \<times> penulis" where
  "kirim_event W k p = (W (pn_tulis p), (kirim_abai W k p)\<lparr>pn_gagal := (pn_gagal p \<or> \<not> W (pn_tulis p))\<rparr>)"

text \<open>A write whose failure ends the handler, and what follows only while it goes on.\<close>

definition kirim_wajib :: "(nat \<Rightarrow> bool) \<Rightarrow> keluaran \<Rightarrow> penulis \<Rightarrow> penulis" where
  "kirim_wajib W k p = (case kirim_event W k p of (ok, q) \<Rightarrow> if ok then q else q\<lparr>pn_berhenti := True\<rparr>)"

definition lalu_bila :: "penulis \<Rightarrow> (penulis \<Rightarrow> penulis) \<Rightarrow> penulis" where
  "lalu_bila p f = (if pn_berhenti p then p else f p)"

definition tutup_blok :: "(nat \<Rightarrow> bool) \<Rightarrow> penulis \<Rightarrow> penulis" where
  "tutup_blok W p =
     (if \<not> pn_terbuka p then p
      else (snd (kirim_event W (KTutup (pn_index p)) p))\<lparr>pn_terbuka := False, pn_tipe := []\<rparr>)"

definition buka_blok :: "(nat \<Rightarrow> bool) \<Rightarrow> blok_keluar \<Rightarrow> string \<Rightarrow> penulis \<Rightarrow> penulis" where
  "buka_blok W b tipe p =
     (let p1 = tutup_blok W p;
          p2 = kirim_wajib W (KBlok (pn_berikut p1) b) (p1\<lparr>pn_index := pn_berikut p1, pn_berikut := pn_berikut p1 + 1\<rparr>)
      in lalu_bila p2 (\<lambda>q. q\<lparr>pn_terbuka := True, pn_tipe := tipe\<rparr>))"

definition pastikan_blok :: "(nat \<Rightarrow> bool) \<Rightarrow> blok_keluar \<Rightarrow> string \<Rightarrow> penulis \<Rightarrow> penulis" where
  "pastikan_blok W b tipe p = (if pn_tipe p \<noteq> tipe then buka_blok W b tipe p else p)"

definition tulis_pikir :: "(nat \<Rightarrow> bool) \<Rightarrow> string \<Rightarrow> string \<Rightarrow> penulis \<Rightarrow> penulis" where
  "tulis_pikir W teks ttd p =
     (if teks = [] \<and> ttd = [] then p
      else
        lalu_bila (lalu_bila (pastikan_blok W BPikir ''thinking'' p) (\<lambda>p1.
          if teks = [] then p1
          else kirim_wajib W (KDelta (pn_index p1) (DPikir teks)) (p1\<lparr>pn_konten := pn_konten p1 + int (length teks)\<rparr>)))
          (\<lambda>p2. if ttd = [] then p2 else kirim_wajib W (KDelta (pn_index p2) (DTtd ttd)) p2))"

definition tulis_teks :: "(nat \<Rightarrow> bool) \<Rightarrow> string \<Rightarrow> penulis \<Rightarrow> penulis" where
  "tulis_teks W teks p =
     (if teks = [] then p
      else lalu_bila (pastikan_blok W BTeks ''text'' (p\<lparr>pn_konten := pn_konten p + int (length teks)\<rparr>))
             (\<lambda>p1. kirim_wajib W (KDelta (pn_index p1) (DTeks teks)) p1))"

definition tulis_bagian :: "(nat \<Rightarrow> bool) \<Rightarrow> content_part \<Rightarrow> penulis \<Rightarrow> penulis" where
  "tulis_bagian W b p =
     (if cp_type b \<noteq> part_type_image_url then p
      else case blok_gambar_dari_part b of
             None \<Rightarrow> p
           | Some s \<Rightarrow>
               let p1 = tutup_blok W p; i = pn_berikut p1
               in lalu_bila (kirim_wajib W (KBlok i (BGambar s)) (p1\<lparr>pn_berikut := i + 1\<rparr>))
                    (\<lambda>p2. kirim_wajib W (KTutup i) p2))"

text \<open>\<^verbatim>\<open>cariAlat\<close>: by identifier; without one, the tool opened last for the index.\<close>

definition cari_alat :: "tool_call \<Rightarrow> alat_aliran list \<Rightarrow> int option" where
  "cari_alat tc alat =
     map_option al_blok
       (if tc_id tc \<noteq> [] then find (\<lambda>a. al_id a = tc_id tc) alat
        else find (\<lambda>a. al_index a = tc_index tc) (rev alat))"

definition tulis_argumen :: "(nat \<Rightarrow> bool) \<Rightarrow> int \<Rightarrow> string \<Rightarrow> penulis \<Rightarrow> penulis" where
  "tulis_argumen W i args p =
     (if args = [] then p
      else kirim_wajib W (KDelta i (DArgumen args)) (p\<lparr>pn_konten := pn_konten p + int (length args)\<rparr>))"

definition tulis_alat :: "(nat \<Rightarrow> bool) \<Rightarrow> tool_call \<Rightarrow> penulis \<Rightarrow> penulis" where
  "tulis_alat W tc p =
     (case cari_alat tc (pn_alat p) of
        Some i \<Rightarrow> tulis_argumen W i (tc_arguments tc) p
      | None \<Rightarrow>
          let p1 = tutup_blok W p; i = pn_berikut p1;
              p2 = p1\<lparr>pn_berikut := i + 1, pn_alat := pn_alat p1 @ [\<lparr>al_index = tc_index tc, al_id = tc_id tc, al_blok = i\<rparr>], pn_index := i\<rparr>
          in lalu_bila (kirim_wajib W (KBlok i (BAlat (tc_id tc) (tc_name tc))) p2)
               (\<lambda>p3. tulis_argumen W i (tc_arguments tc) (p3\<lparr>pn_terbuka := True, pn_tipe := ''tool_use''\<rparr>)))"

definition stop_reason_untuk :: "string \<Rightarrow> string" where
  "stop_reason_untuk f =
     (if f = finish_stop then ''end_turn''
      else if f = finish_tool_calls then ''tool_use''
      else if f = finish_length then ''max_tokens''
      else if f = finish_stop_sequence then ''stop_sequence''
      else if f = finish_pause_turn then ''pause_turn''
      else if f = finish_content_filter then ''refusal''
      else ''end_turn'')"

definition finish_dikenal :: "string \<Rightarrow> bool" where
  "finish_dikenal f \<longleftrightarrow> f \<in> {finish_stop, finish_tool_calls, finish_length, finish_stop_sequence, finish_pause_turn, finish_content_filter}"

definition catat_event :: "stream_event \<Rightarrow> penulis \<Rightarrow> penulis" where
  "catat_event ev p =
     p\<lparr>pn_usage := (case se_usage ev of None \<Rightarrow> pn_usage p | Some u \<Rightarrow> u),
       pn_stop_seq := (if se_stop_sequence ev = [] then pn_stop_seq p else se_stop_sequence ev),
       pn_stop := (if se_finish ev = [] then pn_stop p else stop_reason_untuk (se_finish ev)),
       pn_asing := (if se_finish ev = [] \<or> finish_dikenal (se_finish ev) then pn_asing p else pn_asing p @ [se_finish ev])\<rparr>"

definition teks_event :: "stream_event \<Rightarrow> string" where
  "teks_event ev = se_delta ev @ se_refusal ev @ se_transcript ev"

definition tulis_semua :: "('a \<Rightarrow> penulis \<Rightarrow> penulis) \<Rightarrow> 'a list \<Rightarrow> penulis \<Rightarrow> penulis" where
  "tulis_semua f xs p = foldl (\<lambda>p x. lalu_bila p (f x)) p xs"

definition tulis_event :: "(nat \<Rightarrow> bool) \<Rightarrow> stream_event \<Rightarrow> penulis \<Rightarrow> penulis" where
  "tulis_event W ev p =
     lalu_bila (lalu_bila (lalu_bila (tulis_pikir W (se_reasoning ev) (se_signature ev) (catat_event ev p))
       (tulis_teks W (teks_event ev)))
       (tulis_semua (tulis_bagian W) (se_parts ev)))
       (tulis_semua (tulis_alat W) (se_tool_calls ev))"

section \<open>The handler\<close>

definition tulis_galat :: "(nat \<Rightarrow> bool) \<Rightarrow> perror option \<Rightarrow> penulis \<Rightarrow> penulis" where
  "tulis_galat W e p =
     (kirim_abai W (KGalat (tipe_error_anthropic_untuk_upstream e) (hg_message (http_untuk e))) p)
       \<lparr>pn_galat := Some e, pn_berhenti := True\<rparr>"

definition galat_tanpa_isi :: perror where
  "galat_tanpa_isi = newf KindServer [] ''upstream menutup aliran tanpa menghasilkan konten''"

definition finalisasi :: "chat_request \<Rightarrow> penulis \<Rightarrow> penulis" where
  "finalisasi req p = p\<lparr>pn_usage := terapkan_lantai_pemakaian req (pn_usage p) (pn_konten p)\<rparr>"

text \<open>After the loop; the deferred booking of the usage is the last step of every way out.\<close>

definition tutup_aliran :: "(nat \<Rightarrow> bool) \<Rightarrow> chat_request \<Rightarrow> penulis \<Rightarrow> penulis" where
  "tutup_aliran W req p =
     (if pn_konten p = 0 \<and> pn_berikut p = 0 \<and> pn_stop p \<noteq> ''refusal'' then finalisasi req (tulis_galat W (Some galat_tanpa_isi) p)
      else
        let p1 = finalisasi req (tutup_blok W p)
        in kirim_abai W KHenti
             (kirim_abai W (KPesan (pn_stop p1) (pn_stop_seq p1) (usage_anthropic_dari_kanonik (pn_usage p1))) p1))"

definition anthropic_chat_mengalir ::
    "(nat \<Rightarrow> bool) \<Rightarrow> chat_request \<Rightarrow> string \<Rightarrow> string \<Rightarrow> stream_event list \<Rightarrow> perror option option \<Rightarrow> penulis" where
  "anthropic_chat_mengalir W req msg_id model evs akhir =
     (let p0 = kirim_wajib W (KMulai msg_id model (te_input (estimate_tokens req))) penulis_awal;
          p1 = tulis_semua (tulis_event W) evs p0
      in if pn_berhenti p1 then finalisasi req p1
         else case akhir of
                None \<Rightarrow> tutup_aliran W req p1
              | Some e \<Rightarrow> finalisasi req (tulis_galat W e p1))"

end
