(* ===== verification/Messages_Protocol.thy ===== *)
theory Messages_Protocol
  imports Complex_Main Messages_Stream
begin

text \<open>
  The order of the events that \<open>Messages_Stream\<close> writes, against the protocol of the Messages API: one
  message start, blocks that open, grow and close one after the other with consecutive numbers, one closing
  delta and one stop, or an error as the last event.
\<close>

section \<open>The protocol\<close>

datatype fase = FAwal | FAntar int | FDalam int blok_keluar | FPesan | FAkhir

fun cocok :: "blok_keluar \<Rightarrow> delta_keluar \<Rightarrow> bool" where
  "cocok BTeks (DTeks s) = True"
| "cocok BPikir (DPikir s) = True"
| "cocok BPikir (DTtd s) = True"
| "cocok (BAlat i n) (DArgumen s) = True"
| "cocok b d = False"

fun maju :: "keluaran \<Rightarrow> fase \<Rightarrow> fase option" where
  "maju (KMulai i m n) FAwal = Some (FAntar 0)"
| "maju (KBlok i b) (FAntar n) = (if i = n then Some (FDalam n b) else None)"
| "maju (KDelta i d) (FDalam n b) = (if i = n \<and> cocok b d then Some (FDalam n b) else None)"
| "maju (KTutup i) (FDalam n b) = (if i = n then Some (FAntar (n + 1)) else None)"
| "maju (KPesan r s u) (FAntar n) = Some FPesan"
| "maju KHenti FPesan = Some FAkhir"
| "maju (KGalat t m) (FAntar n) = Some FAkhir"
| "maju (KGalat t m) (FDalam n b) = Some FAkhir"
| "maju k f = None"

definition fase_sesudah :: "keluaran list \<Rightarrow> fase option" where
  "fase_sesudah ks = foldl (\<lambda>f k. Option.bind f (maju k)) (Some FAwal) ks"

lemma fase_sesudah_simps [simp]:
  "fase_sesudah [] = Some FAwal" "fase_sesudah (ks @ [k]) = Option.bind (fase_sesudah ks) (maju k)"
  by (simp_all add: fase_sesudah_def)

text \<open>
  Tool fragments that continue a tool come while its block is the open one.  The tracker holds the tools
  seen, numbered, and the one whose block is open.
\<close>

type_synonym pelacak = "alat_aliran list \<times> int option"

definition lacak_alat :: "tool_call \<Rightarrow> pelacak \<Rightarrow> pelacak option" where
  "lacak_alat tc t =
     (case cari_alat tc (fst t) of
        Some k \<Rightarrow> if tc_arguments tc = [] \<or> snd t = Some k then Some t else None
      | None \<Rightarrow>
          Some (fst t @ [\<lparr>al_index = tc_index tc, al_id = tc_id tc, al_blok = int (length (fst t))\<rparr>], Some (int (length (fst t)))))"

fun lacak_semua :: "('a \<Rightarrow> pelacak \<Rightarrow> pelacak option) \<Rightarrow> 'a list \<Rightarrow> pelacak \<Rightarrow> pelacak option" where
  "lacak_semua f [] t = Some t"
| "lacak_semua f (x # xs) t = Option.bind (f x t) (lacak_semua f xs)"

definition blok_lain :: "stream_event \<Rightarrow> bool" where
  "blok_lain ev \<longleftrightarrow> se_reasoning ev \<noteq> [] \<or> se_signature ev \<noteq> [] \<or> teks_event ev \<noteq> []
     \<or> list_ex (\<lambda>b. cp_type b = part_type_image_url \<and> blok_gambar_dari_part b \<noteq> None) (se_parts ev)"

definition lacak_event :: "stream_event \<Rightarrow> pelacak \<Rightarrow> pelacak option" where
  "lacak_event ev t = lacak_semua lacak_alat (se_tool_calls ev) (if blok_lain ev then (fst t, None) else t)"

definition alat_bersambung :: "stream_event list \<Rightarrow> bool" where
  "alat_bersambung evs \<longleftrightarrow> lacak_semua lacak_event evs ([], None) \<noteq> None"

section \<open>The invariant of the writer\<close>

text \<open>A connection that broke stays broken; after that nothing more is written, and the handler ends only then.\<close>

definition mati :: "(nat \<Rightarrow> bool) \<Rightarrow> penulis \<Rightarrow> bool" where
  "mati W p \<longleftrightarrow> (\<forall>n\<ge>pn_tulis p. \<not> W n)"

definition nama_blok :: "blok_keluar \<Rightarrow> string" where
  "nama_blok b = (case b of BTeks \<Rightarrow> ''text'' | BPikir \<Rightarrow> ''thinking'' | BAlat _ _ \<Rightarrow> ''tool_use'' | BGambar _ \<Rightarrow> ''image'')"

definition seiring :: "(alat_aliran \<Rightarrow> alat_aliran \<Rightarrow> bool) \<Rightarrow> alat_aliran list \<Rightarrow> alat_aliran list \<Rightarrow> bool" where
  "seiring R xs ys \<longleftrightarrow> list_all2 (\<lambda>x y. al_id x = al_id y \<and> al_index x = al_index y \<and> R x y) xs ys
     \<and> (\<forall>y\<in>set ys. al_blok y < int (length ys))"

definition posisi_sah :: "bool \<Rightarrow> int \<Rightarrow> int \<Rightarrow> string \<Rightarrow> alat_aliran list \<Rightarrow> pelacak \<Rightarrow> fase \<Rightarrow> bool" where
  "posisi_sah terbuka i n tipe alat t f \<longleftrightarrow>
     (if terbuka then \<exists>b. f = FDalam i b \<and> n = i + 1 \<and> tipe = nama_blok b else f = FAntar n \<and> tipe = [])
     \<and> (case snd t of
          None \<Rightarrow> seiring (\<lambda>x y. True) alat (fst t)
        | Some k \<Rightarrow> terbuka \<and> tipe = ''tool_use'' \<and> seiring (\<lambda>x y. al_blok y = k \<longrightarrow> al_blok x = i) alat (fst t))"

definition selaras :: "penulis \<Rightarrow> pelacak \<Rightarrow> fase \<Rightarrow> bool" where
  "selaras p t f \<longleftrightarrow> posisi_sah (pn_terbuka p) (pn_index p) (pn_berikut p) (pn_tipe p) (pn_alat p) t f"

definition sah :: "(nat \<Rightarrow> bool) \<Rightarrow> pelacak \<Rightarrow> penulis \<Rightarrow> bool" where
  "sah W t p \<longleftrightarrow> (\<exists>f. fase_sesudah (pn_keluar p) = Some f \<and> (mati W p \<or> selaras p t f))"

definition putus_selamanya :: "(nat \<Rightarrow> bool) \<Rightarrow> bool" where
  "putus_selamanya W \<longleftrightarrow> (\<forall>m n. m \<le> n \<longrightarrow> W n \<longrightarrow> W m)"

subsection \<open>After the connection broke\<close>

definition diam :: "(nat \<Rightarrow> bool) \<Rightarrow> penulis \<Rightarrow> penulis \<Rightarrow> bool" where
  "diam W p q \<longleftrightarrow> (mati W p \<longrightarrow> mati W q \<and> pn_keluar q = pn_keluar p)
     \<and> (putus_selamanya W \<longrightarrow> (pn_berhenti p \<longrightarrow> mati W p) \<longrightarrow> pn_berhenti q \<longrightarrow> mati W q)"

lemma diam_trans: "diam W p q \<Longrightarrow> diam W q r \<Longrightarrow> diam W p r"
  by (simp add: diam_def)

lemma diam_refl: "diam W p p"
  by (simp add: diam_def)

lemma diam_abai: "diam W p (kirim_abai W k p)"
  by (auto simp: diam_def mati_def kirim_abai_def)

lemma diam_event: "diam W p (snd (kirim_event W k p))"
  by (auto simp: diam_def mati_def kirim_abai_def kirim_event_def)

lemma putus_mati: "putus_selamanya W \<Longrightarrow> \<not> W m \<Longrightarrow> m \<le> n \<Longrightarrow> \<not> W n"
  by (auto simp: putus_selamanya_def)

lemma diam_wajib: "diam W p (kirim_wajib W k p)"
  by (auto simp: diam_def mati_def kirim_abai_def kirim_event_def kirim_wajib_def dest: putus_mati Suc_leD)

lemma diam_upd:
  "diam W p (q\<lparr>pn_index := i\<rparr>) = diam W p q" "diam W p (q\<lparr>pn_berikut := i\<rparr>) = diam W p q"
  "diam W p (q\<lparr>pn_terbuka := b\<rparr>) = diam W p q" "diam W p (q\<lparr>pn_tipe := t\<rparr>) = diam W p q"
  "diam W p (q\<lparr>pn_konten := i\<rparr>) = diam W p q" "diam W p (q\<lparr>pn_alat := as\<rparr>) = diam W p q"
  "diam W p (q\<lparr>pn_usage := u\<rparr>) = diam W p q"
  by (simp_all add: diam_def mati_def)

lemma diam_lalu: "diam W p q \<Longrightarrow> (\<And>r. diam W r (f r)) \<Longrightarrow> diam W p (lalu_bila q f)"
  by (auto simp: lalu_bila_def intro: diam_trans)

lemma diam_semua: "(\<And>x r. diam W r (f x r)) \<Longrightarrow> diam W p (tulis_semua f xs p)"
proof (induction xs arbitrary: p)
  case (Cons x xs)
  have "diam W p (lalu_bila p (f x))" using Cons.prems by (intro diam_lalu diam_refl)
  with Cons.IH [of "lalu_bila p (f x)"] Cons.prems show ?case by (auto simp: tulis_semua_def intro: diam_trans)
qed (simp add: tulis_semua_def diam_refl)

lemma diam_tutup: "diam W p (tutup_blok W p)"
  by (simp add: tutup_blok_def diam_refl diam_upd diam_event)

lemma diam_buka: "diam W p (buka_blok W b t p)"
  unfolding buka_blok_def Let_def
  by (rule diam_lalu [OF diam_trans [OF diam_tutup diam_trans [OF _ diam_wajib]]]) (simp_all add: diam_upd diam_refl)

lemma diam_pastikan: "diam W p (pastikan_blok W b t p)"
  by (simp add: pastikan_blok_def diam_buka diam_refl)

lemma diam_kirim_konten: "diam W p (kirim_wajib W k (p\<lparr>pn_konten := i\<rparr>))"
  by (rule diam_trans [OF _ diam_wajib]) (simp add: diam_upd diam_refl)

lemma diam_pikir: "diam W p (tulis_pikir W a b p)"
  unfolding tulis_pikir_def
  by (auto intro!: diam_lalu diam_pastikan diam_refl diam_kirim_konten diam_wajib)

lemma diam_teks: "diam W p (tulis_teks W a p)"
  unfolding tulis_teks_def
  by (auto intro!: diam_lalu diam_refl diam_wajib diam_trans [OF _ diam_pastikan] simp: diam_upd)

lemma diam_bagian: "diam W p (tulis_bagian W b p)"
  unfolding tulis_bagian_def Let_def
  by (auto intro!: diam_lalu diam_refl diam_wajib diam_trans [OF _ diam_wajib] diam_tutup simp: diam_upd split: option.split)

lemma diam_argumen: "diam W p (tulis_argumen W i a p)"
  by (simp add: tulis_argumen_def diam_refl diam_kirim_konten)

lemma diam_alat: "diam W p (tulis_alat W tc p)"
  unfolding tulis_alat_def Let_def
  by (auto intro!: diam_lalu diam_argumen diam_trans [OF _ diam_wajib] diam_trans [OF _ diam_argumen] diam_tutup
      simp: diam_upd diam_refl split: option.split)

lemma catat_sel [simp]: "pn_berhenti (catat_event ev p) = pn_berhenti p"
  by (simp add: catat_event_def)

lemma diam_catat: "diam W p (catat_event ev p)"
  by (simp add: catat_event_def diam_def mati_def)

lemma diam_tulis_event: "diam W p (tulis_event W ev p)"
  unfolding tulis_event_def
  by (intro diam_lalu diam_semua diam_teks diam_bagian diam_alat diam_trans [OF diam_catat diam_pikir])

subsection \<open>One write\<close>

lemma sah_mati: "sah W t p \<Longrightarrow> mati W p \<Longrightarrow> diam W p q \<Longrightarrow> sah W t' q"
  by (auto simp: sah_def diam_def)

lemma sah_upd:
  "sah W t (p\<lparr>pn_konten := i\<rparr>) = sah W t p" "sah W t (p\<lparr>pn_usage := u\<rparr>) = sah W t p"
  "sah W t (catat_event ev p) = sah W t p"
  by (simp_all add: sah_def mati_def selaras_def catat_event_def)

text \<open>A write that the protocol allows, followed by bookkeeping \<open>g\<close> that neither writes nor counts.\<close>

lemma sah_kirim:
  assumes "putus_selamanya W" "fase_sesudah (pn_keluar p) = Some f" "maju k f = Some f'"
    and g: "\<And>q. pn_keluar (g q) = pn_keluar q" "\<And>q. pn_tulis (g q) = pn_tulis q"
    and s: "W (pn_tulis p) \<Longrightarrow> selaras (g (kirim_abai W k p)) t f'"
  shows "sah W t (g (kirim_abai W k p))"
proof (cases "W (pn_tulis p)")
  case True
  with assms(2,3) s [OF True] g(1) show ?thesis by (simp add: sah_def kirim_abai_def)
next
  case False
  have "\<not> W n" if "Suc (pn_tulis p) \<le> n" for n
  proof
    assume "W n"
    moreover have "pn_tulis p \<le> n" using that by simp
    ultimately have "W (pn_tulis p)" using assms(1) unfolding putus_selamanya_def by blast
    with False show False by simp
  qed
  then have "mati W (g (kirim_abai W k p))" by (simp add: mati_def g kirim_abai_def)
  with False assms(2) g(1) show ?thesis by (simp add: sah_def kirim_abai_def)
qed

lemma kirim_wajib_alt:
  "kirim_wajib W k p = (\<lambda>q. q\<lparr>pn_gagal := (pn_gagal p \<or> \<not> W (pn_tulis p)), pn_berhenti := (if W (pn_tulis p) then pn_berhenti p else True)\<rparr>) (kirim_abai W k p)"
  by (simp add: kirim_wajib_def kirim_event_def kirim_abai_def)

lemma kirim_abai_sel [simp]:
  "pn_index (kirim_abai W k p) = pn_index p" "pn_tipe (kirim_abai W k p) = pn_tipe p"
  "pn_terbuka (kirim_abai W k p) = pn_terbuka p" "pn_berikut (kirim_abai W k p) = pn_berikut p"
  "pn_alat (kirim_abai W k p) = pn_alat p" "pn_berhenti (kirim_abai W k p) = pn_berhenti p"
  by (simp_all add: kirim_abai_def)

lemma kirim_wajib_sel [simp]:
  "pn_index (kirim_wajib W k p) = pn_index p" "pn_tipe (kirim_wajib W k p) = pn_tipe p"
  "pn_terbuka (kirim_wajib W k p) = pn_terbuka p" "pn_berikut (kirim_wajib W k p) = pn_berikut p"
  "pn_alat (kirim_wajib W k p) = pn_alat p" "pn_keluar (kirim_wajib W k p) = pn_keluar (kirim_abai W k p)"
  "pn_tulis (kirim_wajib W k p) = pn_tulis (kirim_abai W k p)"
  by (simp_all add: kirim_wajib_alt)

lemma sah_wajib:
  assumes "putus_selamanya W" "fase_sesudah (pn_keluar p) = Some f" "maju k f = Some f'"
    and g: "\<And>q. pn_keluar (g q) = pn_keluar q" "\<And>q. pn_tulis (g q) = pn_tulis q"
    and s: "W (pn_tulis p) \<Longrightarrow> selaras (g (kirim_wajib W k p)) t f'"
  shows "sah W t (g (kirim_wajib W k p))"
  unfolding kirim_wajib_alt
  by (rule sah_kirim [OF assms(1-3), where g = "\<lambda>q. g (q\<lparr>pn_gagal := _, pn_berhenti := _\<rparr>)"])
    (use g s in \<open>simp_all add: kirim_wajib_alt\<close>)

lemma selaras_upd:
  "selaras (p\<lparr>pn_gagal := a\<rparr>) t f = selaras p t f" "selaras (p\<lparr>pn_berhenti := a\<rparr>) t f = selaras p t f"
  by (simp_all add: selaras_def)

lemma selaras_kirim: "selaras (kirim_wajib W k p) t f = selaras p t f" "selaras (kirim_abai W k p) t f = selaras p t f"
  by (simp_all add: selaras_def)

lemma sah_wajib0:
  assumes "putus_selamanya W" "fase_sesudah (pn_keluar p) = Some f" "maju k f = Some f'" "selaras p t f'"
  shows "sah W t (kirim_wajib W k p)"
  using sah_wajib [OF assms(1-3), where g = "\<lambda>q. q"] assms(4) by (simp add: selaras_kirim)

lemma seiring_lemah: "seiring R xs ys \<Longrightarrow> seiring (\<lambda>x y. True) xs ys"
  by (auto simp: seiring_def elim: list_all2_mono)

subsection \<open>Opening and closing\<close>

lemma posisi_terbuka:
  "posisi_sah True i n tipe alat t f \<Longrightarrow> \<exists>b. f = FDalam i b \<and> n = i + 1 \<and> tipe = nama_blok b"
  "posisi_sah False i n tipe alat t f \<Longrightarrow> f = FAntar n \<and> tipe = [] \<and> snd t = None"
  "posisi_sah terbuka i n tipe alat t f \<Longrightarrow> seiring (\<lambda>x y. True) alat (fst t)"
  by (auto simp: posisi_sah_def split: option.splits intro: seiring_lemah)

lemma sah_tutup:
  assumes W: "putus_selamanya W" and s: "sah W t p"
  shows "sah W (fst t, None) (tutup_blok W p)"
proof (cases "mati W p")
  case True
  show ?thesis by (rule sah_mati [OF s True diam_tutup])
next
  case False
  with s obtain f where f: "fase_sesudah (pn_keluar p) = Some f" "selaras p t f" by (auto simp: sah_def)
  note r = posisi_terbuka(3) [OF f(2) [unfolded selaras_def]]
  show ?thesis
  proof (cases "pn_terbuka p")
    case True
    with f(2) have "posisi_sah True (pn_index p) (pn_berikut p) (pn_tipe p) (pn_alat p) t f" by (simp add: selaras_def)
    from posisi_terbuka(1) [OF this] obtain b where b: "f = FDalam (pn_index p) b" "pn_berikut p = pn_index p + 1" by blast
    have "sah W (fst t, None) ((\<lambda>q. q\<lparr>pn_gagal := (pn_gagal p \<or> \<not> W (pn_tulis p)), pn_terbuka := False, pn_tipe := []\<rparr>)
        (kirim_abai W (KTutup (pn_index p)) p))"
      by (rule sah_kirim [OF W f(1)]) (use b r in \<open>simp_all add: selaras_def posisi_sah_def\<close>)
    with True show ?thesis by (simp add: tutup_blok_def kirim_event_def)
  next
    case F: False
    with f(2) have "posisi_sah False (pn_index p) (pn_berikut p) (pn_tipe p) (pn_alat p) t f" by (simp add: selaras_def)
    from posisi_terbuka(2) [OF this] have "t = (fst t, None)" by (simp add: prod_eq_iff)
    with F s show ?thesis by (simp add: tutup_blok_def)
  qed
qed

lemma tutup_terbuka [simp]: "\<not> pn_terbuka (tutup_blok W p)"
  by (simp add: tutup_blok_def)

lemma tutup_sel [simp]:
  "pn_berikut (tutup_blok W p) = pn_berikut p" "pn_alat (tutup_blok W p) = pn_alat p" "pn_berhenti (tutup_blok W p) = pn_berhenti p"
  by (simp_all add: tutup_blok_def kirim_event_def kirim_abai_def)

lemma sah_hidup:
  assumes "sah W t p" "\<not> mati W p" "\<not> pn_terbuka p"
  shows "fase_sesudah (pn_keluar p) = Some (FAntar (pn_berikut p))" "pn_tipe p = []" "snd t = None"
    "seiring (\<lambda>x y. True) (pn_alat p) (fst t)"
proof -
  from assms obtain f where "fase_sesudah (pn_keluar p) = Some f" "posisi_sah False (pn_index p) (pn_berikut p) (pn_tipe p) (pn_alat p) t f"
    by (auto simp: sah_def selaras_def simp del: split_paired_All split_paired_Ex)
  with posisi_terbuka(2,3) show "fase_sesudah (pn_keluar p) = Some (FAntar (pn_berikut p))" "pn_tipe p = []" "snd t = None"
    "seiring (\<lambda>x y. True) (pn_alat p) (fst t)" by blast+
qed

text \<open>A new block on a writer whose last block is closed: \<open>u\<close> sets the counters before the write, \<open>g\<close> what follows it.\<close>

lemma sah_mulai_blok:
  assumes W: "putus_selamanya W" and s: "sah W t p" and n: "\<not> pn_terbuka p" "\<not> pn_berhenti p"
    and u: "pn_keluar r = pn_keluar p" "pn_tulis r = pn_tulis p" "pn_berhenti r = pn_berhenti p"
    and g: "\<And>q. pn_keluar (g q) = pn_keluar q" "\<And>q. pn_tulis (g q) = pn_tulis q" "\<And>q. pn_berhenti (g q) = pn_berhenti q"
    and c: "seiring (\<lambda>x y. True) (pn_alat p) (fst t) \<Longrightarrow> selaras (g (kirim_wajib W (KBlok (pn_berikut p) b) r)) t' (FDalam (pn_berikut p) b)"
  shows "sah W t' (lalu_bila (kirim_wajib W (KBlok (pn_berikut p) b) r) g)"
proof (cases "mati W p")
  case True
  have "diam W p (lalu_bila (kirim_wajib W (KBlok (pn_berikut p) b) r) g)"
    by (rule diam_lalu [OF diam_trans [OF _ diam_wajib]]) (use u g in \<open>simp_all add: diam_def mati_def\<close>)
  with sah_mati [OF s True] show ?thesis by blast
next
  case False
  note h = sah_hidup [OF s False n(1)]
  have f: "fase_sesudah (pn_keluar r) = Some (FAntar (pn_berikut p))" using h(1) u by simp
  have m: "maju (KBlok (pn_berikut p) b) (FAntar (pn_berikut p)) = Some (FDalam (pn_berikut p) b)" by simp
  show ?thesis
  proof (rule sah_wajib [OF W f m, where g = "\<lambda>x. lalu_bila x g"])
    assume w: "W (pn_tulis r)"
    then have "\<not> pn_berhenti (kirim_wajib W (KBlok (pn_berikut p) b) r)" using n(2) u(3) by (simp add: kirim_wajib_alt)
    with c [OF h(4)] show "selaras (lalu_bila (kirim_wajib W (KBlok (pn_berikut p) b) r) g) t' (FDalam (pn_berikut p) b)"
      by (simp add: lalu_bila_def)
  qed (simp_all add: lalu_bila_def g)
qed

lemma sah_buka:
  assumes W: "putus_selamanya W" and s: "sah W t p" and b: "tipe = nama_blok b" and n: "\<not> pn_berhenti p"
  shows "sah W (fst t, None) (buka_blok W b tipe p)"
  unfolding buka_blok_def Let_def
  by (rule sah_mulai_blok [OF W sah_tutup [OF W s]]) (use b n in \<open>simp_all add: selaras_def posisi_sah_def\<close>)

text \<open>A block of text or reasoning is open afterwards, unless the connection broke.\<close>

lemma sah_pastikan:
  assumes W: "putus_selamanya W" and s: "sah W t p" and b: "tipe = nama_blok b" "tipe \<noteq> ''tool_use''" and n: "\<not> pn_berhenti p"
  shows "sah W (fst t, None) (pastikan_blok W b tipe p)" "\<not> pn_berhenti (pastikan_blok W b tipe p) \<Longrightarrow> pn_tipe (pastikan_blok W b tipe p) = tipe"
proof -
  show "sah W (fst t, None) (pastikan_blok W b tipe p)"
  proof (cases "pn_tipe p = tipe")
    case True
    show ?thesis
    proof (cases "mati W p")
      case True
      show ?thesis by (rule sah_mati [OF s True diam_pastikan])
    next
      case False
      with s obtain f where f: "fase_sesudah (pn_keluar p) = Some f" "selaras p t f" by (auto simp: sah_def)
      with \<open>pn_tipe p = tipe\<close> b(2) have "t = (fst t, None)"
        by (auto simp: selaras_def posisi_sah_def prod_eq_iff split: option.splits)
      with s True \<open>pn_tipe p = tipe\<close> show ?thesis by (simp add: pastikan_blok_def)
    qed
  next
    case False
    with sah_buka [OF W s b(1) n] show ?thesis by (simp add: pastikan_blok_def)
  qed
  show "\<not> pn_berhenti (pastikan_blok W b tipe p) \<Longrightarrow> pn_tipe (pastikan_blok W b tipe p) = tipe"
    by (auto simp: pastikan_blok_def buka_blok_def Let_def lalu_bila_def split: if_splits)
qed

text \<open>A delta for the open block.\<close>

lemma sah_delta:
  assumes W: "putus_selamanya W" and s: "sah W t p" and d: "\<And>b. pn_tipe p = nama_blok b \<Longrightarrow> cocok b d" and n: "pn_tipe p \<noteq> []"
  shows "sah W t (kirim_wajib W (KDelta (pn_index p) d) p)"
proof (cases "mati W p")
  case True
  show ?thesis by (rule sah_mati [OF s True diam_wajib])
next
  case False
  with s obtain f where f: "fase_sesudah (pn_keluar p) = Some f" "selaras p t f" by (auto simp: sah_def)
  then have po: "posisi_sah (pn_terbuka p) (pn_index p) (pn_berikut p) (pn_tipe p) (pn_alat p) t f" by (simp add: selaras_def)
  with n have "pn_terbuka p" by (cases "pn_terbuka p") (auto simp: posisi_sah_def)
  with po posisi_terbuka(1) obtain b where b: "f = FDalam (pn_index p) b" "pn_tipe p = nama_blok b" by metis
  with d have m: "maju (KDelta (pn_index p) d) f = Some f" by simp
  show ?thesis
    by (rule sah_wajib0 [OF W f(1) m f(2)])
qed

subsection \<open>The steps of an event\<close>

lemma sah_lalu: "sah W t q \<Longrightarrow> (\<not> pn_berhenti q \<Longrightarrow> sah W t (f q)) \<Longrightarrow> sah W t (lalu_bila q f)"
  by (simp add: lalu_bila_def)

lemma sah_lemah: "sah W t p \<Longrightarrow> sah W (fst t, None) p"
proof -
  have "posisi_sah a i n tipe alat t f \<Longrightarrow> posisi_sah a i n tipe alat (fst t, None) f" for a i n tipe alat f
    using posisi_terbuka(3) [of a i n tipe alat t f] by (simp add: posisi_sah_def)
  then show "sah W t p \<Longrightarrow> sah W (fst t, None) p" unfolding sah_def selaras_def by blast
qed

lemma cocok_nama:
  "nama_blok b = ''text'' \<Longrightarrow> cocok b (DTeks s)" "nama_blok b = ''thinking'' \<Longrightarrow> cocok b (DPikir s)"
  "nama_blok b = ''thinking'' \<Longrightarrow> cocok b (DTtd s)" "nama_blok b = ''tool_use'' \<Longrightarrow> cocok b (DArgumen s)"
  by (cases b; simp add: nama_blok_def)+

lemma sah_delta_konten:
  assumes "putus_selamanya W" "sah W t p" "\<And>b. pn_tipe p = nama_blok b \<Longrightarrow> cocok b d" "pn_tipe p \<noteq> []"
  shows "sah W t (kirim_wajib W (KDelta (pn_index p) d) (p\<lparr>pn_konten := i\<rparr>))"
  using sah_delta [of W t "p\<lparr>pn_konten := i\<rparr>" d] assms by (simp add: sah_upd)

lemma sah_pikir:
  assumes W: "putus_selamanya W" and s: "sah W t p" and n: "\<not> pn_berhenti p"
  shows "sah W (fst t, None) (tulis_pikir W teks ttd p)"
proof -
  have b: "''thinking'' = nama_blok BPikir" "''thinking'' \<noteq> ''tool_use''" by (simp_all add: nama_blok_def)
  let ?q = "pastikan_blok W BPikir ''thinking'' p"
  let ?f = "\<lambda>p1. if teks = [] then p1 else kirim_wajib W (KDelta (pn_index p1) (DPikir teks)) (p1\<lparr>pn_konten := pn_konten p1 + int (length teks)\<rparr>)"
  note q = sah_pastikan [OF W s b n]
  have 1: "sah W (fst t, None) (lalu_bila ?q ?f)"
    by (rule sah_lalu [OF q(1)]) (use q in \<open>auto intro!: sah_delta_konten [OF W] dest: sym cocok_nama(2)\<close>)
  have 2: "\<not> pn_berhenti (lalu_bila ?q ?f) \<Longrightarrow> pn_tipe (lalu_bila ?q ?f) = ''thinking''"
    using q(2) by (auto simp: lalu_bila_def)
  have "sah W (fst t, None) (lalu_bila (lalu_bila ?q ?f) (\<lambda>p2. if ttd = [] then p2 else kirim_wajib W (KDelta (pn_index p2) (DTtd ttd)) p2))"
    by (rule sah_lalu [OF 1]) (use 1 2 in \<open>auto intro!: sah_delta [OF W] dest: sym cocok_nama(3)\<close>)
  with sah_lemah [OF s] show ?thesis by (simp add: tulis_pikir_def)
qed

lemma sah_teks:
  assumes W: "putus_selamanya W" and s: "sah W t p" and n: "\<not> pn_berhenti p"
  shows "sah W (fst t, None) (tulis_teks W teks p)"
proof -
  have b: "''text'' = nama_blok BTeks" "''text'' \<noteq> ''tool_use''" by (simp_all add: nama_blok_def)
  let ?p = "p\<lparr>pn_konten := pn_konten p + int (length teks)\<rparr>"
  have "sah W t ?p" "\<not> pn_berhenti ?p" using s n by (simp_all add: sah_upd)
  note q = sah_pastikan [OF W this(1) b this(2)]
  have "sah W (fst t, None) (lalu_bila (pastikan_blok W BTeks ''text'' ?p) (\<lambda>p1. kirim_wajib W (KDelta (pn_index p1) (DTeks teks)) p1))"
    by (rule sah_lalu [OF q(1)]) (use q in \<open>auto intro!: sah_delta [OF W] dest: sym cocok_nama(1)\<close>)
  with sah_lemah [OF s] show ?thesis by (simp add: tulis_teks_def)
qed

lemma sah_bagian:
  assumes W: "putus_selamanya W" and s: "sah W t p" and n: "\<not> pn_berhenti p"
  shows "sah W (fst t, None) (tulis_bagian W b p)"
proof (cases "blok_gambar_dari_part b")
  case None
  with sah_lemah [OF s] show ?thesis by (simp add: tulis_bagian_def)
next
  case (Some src)
  let ?q = "tutup_blok W p" and ?t = "(fst t, None) :: pelacak"
  let ?i = "pn_berikut ?q"
  let ?r = "?q\<lparr>pn_berikut := ?i + 1\<rparr>"
  let ?x = "kirim_wajib W (KBlok ?i (BGambar src)) ?r"
  note sq = sah_tutup [OF W s]
  have "sah W ?t (lalu_bila ?x (\<lambda>p2. kirim_wajib W (KTutup ?i) p2))"
  proof (cases "mati W ?q")
    case True
    have "diam W ?q (lalu_bila ?x (\<lambda>p2. kirim_wajib W (KTutup ?i) p2))"
      by (intro diam_lalu diam_wajib diam_trans [OF _ diam_wajib]) (simp add: diam_upd diam_refl)
    with sah_mati [OF sq True] show ?thesis by blast
  next
    case False
    note h = sah_hidup [OF sq False tutup_terbuka]
    show ?thesis
    proof (cases "W (pn_tulis ?q)")
      case True
      have k: "pn_keluar ?x = pn_keluar ?q @ [KBlok ?i (BGambar src)]" and "\<not> pn_berhenti ?x"
        using True n by (simp_all add: kirim_abai_def kirim_wajib_alt)
      have f: "fase_sesudah (pn_keluar ?x) = Some (FDalam ?i (BGambar src))"
        unfolding k fase_sesudah_simps h(1) by simp
      have m: "maju (KTutup ?i) (FDalam ?i (BGambar src)) = Some (FAntar (?i + 1))" by simp
      have "sah W ?t (kirim_wajib W (KTutup ?i) ?x)"
        by (rule sah_wajib0 [OF W f m]) (use h(2,4) in \<open>simp add: selaras_def posisi_sah_def\<close>)
      then show ?thesis using \<open>\<not> pn_berhenti ?x\<close> by (simp add: lalu_bila_def)
    next
      case F: False
      have "\<not> W k" if "Suc (pn_tulis ?q) \<le> k" for k
        using F W that unfolding putus_selamanya_def by (meson Suc_leD)
      then have m: "mati W ?x" and "pn_keluar ?x = pn_keluar ?q" "pn_berhenti ?x"
        using F by (simp_all add: mati_def kirim_abai_def kirim_wajib_alt)
      then show ?thesis using h(1) by (simp add: lalu_bila_def sah_def)
    qed
  qed
  moreover have "cp_type b \<noteq> part_type_image_url \<Longrightarrow> sah W ?t p" by (rule sah_lemah [OF s])
  ultimately show ?thesis by (simp add: tulis_bagian_def Some Let_def)
qed

lemma sah_semua:
  assumes "\<And>x q. x \<in> set xs \<Longrightarrow> sah W t q \<Longrightarrow> \<not> pn_berhenti q \<Longrightarrow> sah W t (f x q)" "sah W t p"
  shows "sah W t (tulis_semua f xs p)"
  using assms
proof (induction xs arbitrary: p)
  case (Cons x xs)
  have "sah W t (lalu_bila p (f x))" using Cons.prems by (intro sah_lalu) auto
  with Cons.IH [of "lalu_bila p (f x)"] Cons.prems(1) show ?case by (simp add: tulis_semua_def)
qed (simp add: tulis_semua_def)

lemma find_all2:
  "list_all2 (\<lambda>x y. P x = Q y \<and> S x y) xs ys \<Longrightarrow>
     (case find Q ys of None \<Rightarrow> find P xs = None | Some y \<Rightarrow> y \<in> set ys \<and> (\<exists>x. find P xs = Some x \<and> S x y))"
  by (induction rule: list_all2_induct) (auto split: option.splits)

lemma cari_seiring:
  assumes "seiring R xs ys"
  shows "case cari_alat tc ys of
      None \<Rightarrow> cari_alat tc xs = None
    | Some k \<Rightarrow> \<exists>x y. cari_alat tc xs = Some (al_blok x) \<and> k = al_blok y \<and> R x y"
proof -
  have a: "list_all2 (\<lambda>x y. al_id x = al_id y \<and> al_index x = al_index y \<and> R x y) xs ys"
    using assms by (simp add: seiring_def)
  have 1: "list_all2 (\<lambda>x y. (al_id x = tc_id tc) = (al_id y = tc_id tc) \<and> R x y) xs ys"
    using a by (rule list_all2_mono) simp
  have 2: "list_all2 (\<lambda>x y. (al_index x = tc_index tc) = (al_index y = tc_index tc) \<and> R x y) (rev xs) (rev ys)"
    using a by (intro list_all2_rev [THEN iffD2] list_all2_mono [OF a]) simp
  from find_all2 [OF 1] find_all2 [OF 2] show ?thesis
    by (auto simp: cari_alat_def split: option.splits)
qed

lemma seiring_baru:
  assumes "seiring (\<lambda>x y. True) xs ys" "al_id a = al_id b" "al_index a = al_index b" "al_blok a = i" "al_blok b = int (length ys)"
  shows "seiring (\<lambda>x y. al_blok y = int (length ys) \<longrightarrow> al_blok x = i) (xs @ [a]) (ys @ [b])"
proof -
  have l: "list_all2 (\<lambda>x y. al_id x = al_id y \<and> al_index x = al_index y) xs ys" "\<forall>y\<in>set ys. al_blok y < int (length ys)"
    using assms(1) by (auto simp: seiring_def)
  then have "list_all2 (\<lambda>x y. al_id x = al_id y \<and> al_index x = al_index y \<and> (al_blok y = int (length ys) \<longrightarrow> al_blok x = i)) xs ys"
    unfolding list_all2_conv_all_nth by (metis nth_mem order_less_irrefl)
  moreover have "\<forall>y\<in>set ys. al_blok y < int (length (ys @ [b]))" using l(2) by auto
  ultimately show ?thesis using assms(2-5) by (simp add: seiring_def list_all2_appendI)
qed

lemma tulis_argumen_lalu:
  "lalu_bila x (\<lambda>p. tulis_argumen W i a (p\<lparr>pn_terbuka := True, pn_tipe := c\<rparr>))
     = lalu_bila (lalu_bila x (\<lambda>p. p\<lparr>pn_terbuka := True, pn_tipe := c\<rparr>)) (tulis_argumen W i a)"
  by (simp add: lalu_bila_def)

lemma sah_alat:
  assumes W: "putus_selamanya W" and s: "sah W t p" and n: "\<not> pn_berhenti p" and t': "lacak_alat tc t = Some t'"
  shows "sah W t' (tulis_alat W tc p)"
proof (cases "mati W p")
  case True
  show ?thesis by (rule sah_mati [OF s True diam_alat])
next
  case False
  with s obtain f where f: "fase_sesudah (pn_keluar p) = Some f"
    and po: "posisi_sah (pn_terbuka p) (pn_index p) (pn_berikut p) (pn_tipe p) (pn_alat p) t f" by (auto simp: sah_def selaras_def)
  note c = cari_seiring [OF posisi_terbuka(3) [OF po], of tc]
  show ?thesis
  proof (cases "cari_alat tc (fst t)")
    case None
    with c have none: "cari_alat tc (pn_alat p) = None" by simp
    let ?q = "tutup_blok W p"
    let ?i = "pn_berikut ?q"
    let ?y = "\<lparr>al_index = tc_index tc, al_id = tc_id tc, al_blok = int (length (fst t))\<rparr>"
    let ?r = "?q\<lparr>pn_berikut := ?i + 1, pn_alat := pn_alat ?q @ [\<lparr>al_index = tc_index tc, al_id = tc_id tc, al_blok = ?i\<rparr>], pn_index := ?i\<rparr>"
    let ?b = "BAlat (tc_id tc) (tc_name tc)"
    let ?g = "\<lambda>p. p\<lparr>pn_terbuka := True, pn_tipe := ''tool_use''\<rparr>"
    let ?z = "lalu_bila (kirim_wajib W (KBlok ?i ?b) ?r) ?g"
    have t: "t' = (fst t @ [?y], Some (int (length (fst t))))" using t' None by (simp add: lacak_alat_def)
    have z: "sah W t' ?z"
    proof (rule sah_mulai_blok [OF W sah_tutup [OF W s]])
      assume "seiring (\<lambda>x y. True) (pn_alat ?q) (fst (fst t, None))"
      then have "seiring (\<lambda>x y. al_blok y = int (length (fst t)) \<longrightarrow> al_blok x = ?i)
          (pn_alat ?q @ [\<lparr>al_index = tc_index tc, al_id = tc_id tc, al_blok = ?i\<rparr>]) (fst t @ [?y])"
        by (intro seiring_baru) simp_all
      then show "selaras (?g (kirim_wajib W (KBlok ?i ?b) ?r)) t' (FDalam ?i ?b)"
        by (simp add: t selaras_def posisi_sah_def nama_blok_def)
    qed (use n in simp_all)
    have "sah W t' (lalu_bila ?z (tulis_argumen W ?i (tc_arguments tc)))"
    proof (rule sah_lalu [OF z])
      assume "\<not> pn_berhenti ?z"
      then have i: "pn_index ?z = ?i" "pn_tipe ?z = ''tool_use''" by (auto simp: lalu_bila_def split: if_splits)
      have "sah W t' (kirim_wajib W (KDelta (pn_index ?z) (DArgumen (tc_arguments tc))) (?z\<lparr>pn_konten := pn_konten ?z + int (length (tc_arguments tc))\<rparr>))"
        by (rule sah_delta_konten [OF W z]) (use i cocok_nama(4) in \<open>auto dest: sym\<close>)
      with z i(1) show "sah W t' (tulis_argumen W ?i (tc_arguments tc) ?z)" by (simp add: tulis_argumen_def)
    qed
    with none show ?thesis by (simp add: tulis_alat_def Let_def tulis_argumen_lalu)
  next
    case (Some k)
    with t' have t: "t' = t" "tc_arguments tc = [] \<or> snd t = Some k" by (auto simp: lacak_alat_def split: if_splits)
    from c Some obtain i where i: "cari_alat tc (pn_alat p) = Some i" by auto
    show ?thesis
    proof (cases "tc_arguments tc = []")
      case True
      with i s t(1) show ?thesis by (simp add: tulis_alat_def tulis_argumen_def)
    next
      case False
      with t(2) have k: "snd t = Some k" by simp
      with po have o: "pn_terbuka p" "pn_tipe p = ''tool_use''" "seiring (\<lambda>x y. al_blok y = k \<longrightarrow> al_blok x = pn_index p) (pn_alat p) (fst t)"
        by (auto simp: posisi_sah_def)
      from cari_seiring [OF o(3), of tc] Some i have "i = pn_index p" by auto
      moreover have "sah W t (kirim_wajib W (KDelta (pn_index p) (DArgumen (tc_arguments tc))) (p\<lparr>pn_konten := pn_konten p + int (length (tc_arguments tc))\<rparr>))"
        by (rule sah_delta_konten [OF W s]) (use o cocok_nama(4) in \<open>auto dest: sym\<close>)
      ultimately show ?thesis using False i t(1) by (simp add: tulis_alat_def tulis_argumen_def)
    qed
  qed
qed

text \<open>The state after a list of steps; the tracker has advanced when none of them failed.\<close>

definition sah_maju :: "(nat \<Rightarrow> bool) \<Rightarrow> pelacak \<Rightarrow> penulis \<Rightarrow> bool" where
  "sah_maju W t p \<longleftrightarrow> (\<exists>t0. sah W t0 p) \<and> (\<not> pn_berhenti p \<longrightarrow> sah W t p)"

lemma sah_majuI: "sah W t p \<Longrightarrow> sah_maju W t p"
  unfolding sah_maju_def by blast

lemma sah_maju_semua:
  assumes "\<And>x q t t'. sah W t q \<Longrightarrow> \<not> pn_berhenti q \<Longrightarrow> g x t = Some t' \<Longrightarrow> sah_maju W t' (f x q)"
  shows "lacak_semua g xs t = Some t' \<Longrightarrow> sah_maju W t p \<Longrightarrow> sah_maju W t' (tulis_semua f xs p)"
proof (induction xs arbitrary: t p)
  case (Cons x xs)
  from Cons.prems obtain t1 where t1: "g x t = Some t1" "lacak_semua g xs t1 = Some t'" by (auto simp: bind_eq_Some_conv)
  have "sah_maju W t1 (lalu_bila p (f x))"
    using Cons.prems(2) assms [OF _ _ t1(1)] by (auto simp: lalu_bila_def sah_maju_def)
  from Cons.IH [OF t1(2) this] show ?case by (simp add: tulis_semua_def)
qed (simp add: tulis_semua_def)

lemma blok_lain_tidak:
  assumes "\<not> blok_lain ev"
  shows "tulis_pikir W (se_reasoning ev) (se_signature ev) p = p" "tulis_teks W (teks_event ev) p = p"
    "tulis_semua (tulis_bagian W) (se_parts ev) p = p"
proof -
  have "tulis_semua (tulis_bagian W) bs p = p" if "\<not> list_ex (\<lambda>b. cp_type b = part_type_image_url \<and> blok_gambar_dari_part b \<noteq> None) bs" for bs
    using that by (induction bs) (auto simp: tulis_semua_def lalu_bila_def tulis_bagian_def split: option.splits)
  with assms show "tulis_pikir W (se_reasoning ev) (se_signature ev) p = p" "tulis_teks W (teks_event ev) p = p"
    "tulis_semua (tulis_bagian W) (se_parts ev) p = p"
    by (auto simp: blok_lain_def tulis_pikir_def tulis_teks_def)
qed

lemma sah_event:
  assumes W: "putus_selamanya W" and s: "sah W t p" and n: "\<not> pn_berhenti p" and t': "lacak_event ev t = Some t'"
  shows "sah_maju W t' (tulis_event W ev p)"
proof -
  let ?p = "catat_event ev p"
  let ?t = "if blok_lain ev then (fst t, None) else t"
  let ?a = "lalu_bila (tulis_pikir W (se_reasoning ev) (se_signature ev) ?p) (tulis_teks W (teks_event ev))"
  let ?b = "lalu_bila ?a (tulis_semua (tulis_bagian W) (se_parts ev))"
  have c: "sah W t ?p" "\<not> pn_berhenti ?p" using s n by (simp_all only: sah_upd catat_sel not_False_eq_True)
  have b: "sah W ?t ?b"
  proof (cases "blok_lain ev")
    case True
    have a: "sah W (fst t, None) ?a"
      by (rule sah_lalu [OF sah_pikir [OF W c]]) (use sah_teks [OF W sah_pikir [OF W c]] in simp)
    have "sah W (fst t, None) ?b"
      by (rule sah_lalu [OF a], rule sah_semua [OF _ a]) (use sah_bagian [OF W, of "(fst t, None)"] in auto)
    with True show ?thesis by simp
  next
    case False
    with c show ?thesis by (simp add: blok_lain_tidak lalu_bila_def)
  qed
  have "sah_maju W t' (tulis_semua (tulis_alat W) (se_tool_calls ev) ?b)" if "\<not> pn_berhenti ?b"
  proof (rule sah_maju_semua)
    show "lacak_semua lacak_alat (se_tool_calls ev) ?t = Some t'" using t' by (simp add: lacak_event_def)
    show "sah_maju W ?t ?b" by (rule sah_majuI [OF b])
    show "sah_maju W t2 (tulis_alat W x q)" if "sah W t1 q" "\<not> pn_berhenti q" "lacak_alat x t1 = Some t2" for x q t1 t2
      by (rule sah_majuI [OF sah_alat [OF W that]])
  qed
  moreover have "sah_maju W t' ?b" if "pn_berhenti ?b" using b that unfolding sah_maju_def by blast
  ultimately show ?thesis unfolding tulis_event_def lalu_bila_def [of ?b] by simp
qed

section \<open>The whole answer\<close>

text \<open>A write whose failure is ignored, as the last one or before others of its kind.\<close>

lemma kirim_abai_fase:
  assumes W: "putus_selamanya W" and f: "fase_sesudah (pn_keluar p) = Some f" and m: "mati W p \<or> maju k f = Some f'"
  shows "(fase_sesudah (pn_keluar (kirim_abai W k p)) = Some f \<and> mati W (kirim_abai W k p))
    \<or> (fase_sesudah (pn_keluar (kirim_abai W k p)) = Some f' \<and> maju k f = Some f')"
proof (cases "W (pn_tulis p)")
  case True
  then have "\<not> mati W p" by (auto simp: mati_def)
  with True f m show ?thesis by (auto simp: kirim_abai_def)
next
  case False
  with f show ?thesis by (auto simp: kirim_abai_def mati_def dest: putus_mati [OF W False] Suc_leD)
qed

lemma sah_galat:
  assumes W: "putus_selamanya W" and s: "sah W t p"
  shows "\<exists>f. fase_sesudah (pn_keluar (tulis_galat W e p)) = Some f \<and> (f = FAkhir \<or> mati W (tulis_galat W e p))"
proof -
  from s obtain f where f: "fase_sesudah (pn_keluar p) = Some f" "mati W p \<or> selaras p t f" by (auto simp: sah_def)
  have "mati W p \<or> maju (KGalat a b) f = Some FAkhir" for a b
    using f(2) by (cases "pn_terbuka p") (auto simp: selaras_def dest: posisi_terbuka(1,2))
  from kirim_abai_fase [OF W f(1) this] show ?thesis by (auto simp: tulis_galat_def mati_def)
qed

lemma sah_tutup_aliran:
  assumes W: "putus_selamanya W" and s: "sah W t p"
  shows "let p1 = finalisasi req (tutup_blok W p);
           q = kirim_abai W KHenti (kirim_abai W (KPesan r u v) p1)
    in \<exists>f. fase_sesudah (pn_keluar q) = Some f \<and> (f = FAkhir \<or> mati W q)"
proof -
  let ?p = "finalisasi req (tutup_blok W p)"
  from sah_tutup [OF W s] have "sah W (fst t, None) ?p" by (simp add: finalisasi_def sah_upd)
  then obtain f where f: "fase_sesudah (pn_keluar ?p) = Some f" "mati W ?p \<or> selaras ?p (fst t, None) f" by (auto simp: sah_def)
  have "\<not> pn_terbuka ?p" by (simp add: finalisasi_def)
  with f(2) have "mati W ?p \<or> maju (KPesan r u v) f = Some FPesan"
    by (auto simp: selaras_def dest: posisi_terbuka(2))
  from kirim_abai_fase [OF W f(1) this] show ?thesis
  proof
    let ?q = "kirim_abai W (KPesan r u v) ?p"
    assume a: "fase_sesudah (pn_keluar ?q) = Some f \<and> mati W ?q"
    from kirim_abai_fase [OF W, of ?q f KHenti FAkhir] a show ?thesis by (auto simp: Let_def)
  next
    let ?q = "kirim_abai W (KPesan r u v) ?p"
    assume a: "fase_sesudah (pn_keluar ?q) = Some FPesan \<and> maju (KPesan r u v) f = Some FPesan"
    from kirim_abai_fase [OF W, of ?q FPesan KHenti FAkhir] a show ?thesis by (auto simp: Let_def)
  qed
qed

section \<open>Properties\<close>

definition potong_teks :: "string \<Rightarrow> stream_event" where "potong_teks s = event_kosong\<lparr>se_delta := s\<rparr>"

definition potong_alat :: "int \<Rightarrow> string \<Rightarrow> string \<Rightarrow> string \<Rightarrow> stream_event" where
  "potong_alat i k n a = event_kosong\<lparr>se_tool_calls := [panggilan_kosong\<lparr>tc_index := i, tc_id := k, tc_name := n, tc_arguments := a\<rparr>]\<rparr>"

text \<open>C28. The Messages stream keeps its protocol: whatever the upstream sends, and wherever the client's connection
  breaks, what the gateway writes is a message start, blocks with consecutive numbers that open, take deltas of
  their own kind and close one at a time, and a closing or an error at the end, as long as the fragments
  of a tool call follow each other.\<close>

theorem messages_protocol:
  assumes W: "putus_selamanya W" and a: "alat_bersambung evs"
  shows "let out = anthropic_chat_mengalir W req msg_id model evs akhir in
    \<exists>f. fase_sesudah (pn_keluar out) = Some f \<and> (f = FAkhir \<or> mati W out)"
proof -
  let ?m = "KMulai msg_id model (te_input (estimate_tokens req))"
  let ?p0 = "kirim_wajib W ?m penulis_awal"
  let ?p1 = "tulis_semua (tulis_event W) evs ?p0"
  have 0: "sah W ([], None) ?p0"
    by (rule sah_wajib0 [OF W, where f = FAwal and f' = "FAntar 0"])
      (simp_all add: penulis_awal_def selaras_def posisi_sah_def seiring_def)
  from a obtain t where t: "lacak_semua lacak_event evs ([], None) = Some t" by (auto simp: alat_bersambung_def)
  have 1: "sah_maju W t ?p1"
    by (rule sah_maju_semua [OF sah_event [OF W] t sah_majuI [OF 0]])
  have "diam W penulis_awal ?p1"
    by (rule diam_trans [OF diam_wajib diam_semua [OF diam_tulis_event]])
  then have b: "pn_berhenti ?p1 \<Longrightarrow> mati W ?p1" using W by (simp add: diam_def penulis_awal_def)
  have fin: "pn_keluar (finalisasi req p) = pn_keluar p" "mati W (finalisasi req p) = mati W p" for p
    by (simp_all add: finalisasi_def mati_def)
  show ?thesis
  proof (cases "pn_berhenti ?p1")
    case True
    with 1 b obtain f where "fase_sesudah (pn_keluar ?p1) = Some f" "mati W ?p1" by (auto simp: sah_maju_def sah_def)
    with True fin show ?thesis by (auto simp: anthropic_chat_mengalir_def Let_def)
  next
    case False
    with 1 have s: "sah W t ?p1" by (simp add: sah_maju_def)
    have g: "\<exists>f. fase_sesudah (pn_keluar (tulis_galat W e ?p1)) = Some f \<and> (f = FAkhir \<or> mati W (tulis_galat W e ?p1))" for e
      by (rule sah_galat [OF W s])
    have h: "\<exists>f. fase_sesudah (pn_keluar (tutup_aliran W req ?p1)) = Some f \<and> (f = FAkhir \<or> mati W (tutup_aliran W req ?p1))"
      using sah_tutup_aliran [OF W s] g fin by (simp add: tutup_aliran_def Let_def)
    from False g h fin show ?thesis
      by (cases akhir) (simp_all add: anthropic_chat_mengalir_def Let_def)
  qed
qed

definition contoh_berurutan :: "stream_event list" where
  "contoh_berurutan = [event_kosong\<lparr>se_reasoning := ''p''\<rparr>, potong_teks ''a'', potong_alat 0 ''t1'' ''f'' [], potong_alat 0 [] [] ''{'',
     potong_alat 0 [] [] ''}'', potong_alat 0 ''t2'' ''g'' ''{}'', event_kosong\<lparr>se_finish := finish_tool_calls\<rparr>]"

definition contoh_permintaan_kosong :: chat_request where
  "contoh_permintaan_kosong = \<lparr>cr_model = ''m'', cr_messages = [], cr_max_tokens = None, cr_temperature = None, cr_top_p = None,
     cr_top_k = None, cr_stop = [], cr_stream = True, cr_thinking = None, cr_tools = [], cr_tool_choice = None,
     cr_parallel_tool_calls = None, cr_response_format = None, cr_seed = None, cr_reasoning_effort = [], cr_user = [], cr_extra = []\<rparr>"

lemma messages_protocol_witness:
  "let out = anthropic_chat_mengalir (\<lambda>n. n < 8) contoh_permintaan_kosong ''m1'' ''m'' contoh_berurutan None in
     length (pn_keluar out) = 8 \<and> fase_sesudah (pn_keluar out) \<noteq> None"
proof -
  have W: "putus_selamanya (\<lambda>n. n < 8)" by (auto simp: putus_selamanya_def)
  have a: "alat_bersambung contoh_berurutan" by code_simp
  have "length (pn_keluar (anthropic_chat_mengalir (\<lambda>n. n < 8) contoh_permintaan_kosong ''m1'' ''m'' contoh_berurutan None)) = 8"
    by code_simp
  with messages_protocol [OF W a, of contoh_permintaan_kosong "''m1''" "''m''" None] show ?thesis
    by (auto simp: Let_def)
qed

text \<open>Fragments of two tools that alternate: the second fragment of the first goes to a block that is closed.\<close>

lemma fragmen_berselang:
  "fase_sesudah (pn_keluar (anthropic_chat_mengalir (\<lambda>n. True) contoh_permintaan_kosong ''m1'' ''m''
     [potong_alat 0 ''t1'' ''f'' ''{'', potong_alat 1 ''t2'' ''g'' ''{}'', potong_alat 0 [] [] ''}''] None)) = None"
  by code_simp

end
