(* ===== verification/Messages_Relay.thy ===== *)
theory Messages_Relay
  imports Complex_Main Messages_Protocol
begin

text \<open>
  A gateway behind a gateway: what \<open>Messages_Stream\<close> writes is read by the stream of the Anthropic adapter,
  \<open>Anthropic_Stream\<close>.  A stream of canonical events is compared by the message that it adds up to.
\<close>

section \<open>The message of a stream\<close>

record hasil_aliran =
  ha_teks :: string
  ha_pikir :: string
  ha_ttd :: string
  ha_gambar :: "string list"
  ha_alat :: "tool_call list"
  ha_henti :: string
  ha_urutan :: string
  ha_usage :: "usage option"

definition hasil_awal :: hasil_aliran where
  "hasil_awal = \<lparr>ha_teks = [], ha_pikir = [], ha_ttd = [], ha_gambar = [], ha_alat = [], ha_henti = [], ha_urutan = [], ha_usage = None\<rparr>"

text \<open>
  A fragment with an identifier belongs to the tool of that identifier, one without to the last tool of its
  index; otherwise it starts a tool.
\<close>

definition posisi_alat :: "tool_call \<Rightarrow> tool_call list \<Rightarrow> nat option" where
  "posisi_alat tc as =
     (if tc_id tc \<noteq> [] then find (\<lambda>i. tc_id (as ! i) = tc_id tc) [0..<length as]
      else find (\<lambda>i. tc_index (as ! i) = tc_index tc) (rev [0..<length as]))"

definition rangkai_alat :: "tool_call list \<Rightarrow> tool_call \<Rightarrow> tool_call list" where
  "rangkai_alat as tc =
     (case posisi_alat tc as of
        None \<Rightarrow> as @ [tc]
      | Some i \<Rightarrow> as[i := (as ! i)\<lparr>tc_arguments := tc_arguments (as ! i) @ tc_arguments tc\<rparr>])"

definition gambar_bagian :: "content_part \<Rightarrow> string list" where
  "gambar_bagian b =
     (if cp_type b = part_type_image_url then case cp_image_url b of None \<Rightarrow> [] | Some u \<Rightarrow> if iu_url u = [] then [] else [iu_url u]
      else [])"

definition rangkai_pikir :: "string \<Rightarrow> string \<Rightarrow> hasil_aliran \<Rightarrow> hasil_aliran" where
  "rangkai_pikir teks ttd h = h\<lparr>ha_pikir := ha_pikir h @ teks, ha_ttd := (if ttd = [] then ha_ttd h else ttd)\<rparr>"

definition rangkai_event :: "stream_event \<Rightarrow> hasil_aliran \<Rightarrow> hasil_aliran" where
  "rangkai_event e h =
     \<lparr>ha_teks = ha_teks h @ teks_event e, ha_pikir = ha_pikir h @ se_reasoning e,
      ha_ttd = (if se_signature e = [] then ha_ttd h else se_signature e),
      ha_gambar = ha_gambar h @ concat (map gambar_bagian (se_parts e)),
      ha_alat = foldl rangkai_alat (ha_alat h) (se_tool_calls e),
      ha_henti = (if se_finish e = [] then ha_henti h else se_finish e),
      ha_urutan = (if se_stop_sequence e = [] then ha_urutan h else se_stop_sequence e),
      ha_usage = (case se_usage e of None \<Rightarrow> ha_usage h | Some u \<Rightarrow> Some u)\<rparr>"

definition rangkai :: "stream_event list \<Rightarrow> hasil_aliran" where
  "rangkai es = foldl (\<lambda>h e. rangkai_event e h) hasil_awal es"

section \<open>Reading what was written\<close>

definition delta_nol :: stream_delta where
  "delta_nol = \<lparr>sd_type = [], sd_text = [], sd_partial_json = [], sd_thinking = [], sd_stop_reason = [], sd_stop_sequence = [], sd_signature = []\<rparr>"

definition blok_dari :: "blok_keluar \<Rightarrow> blok" where
  "blok_dari b =
     (case b of
        BTeks \<Rightarrow> Blok ''text'' [] [] [] None [] [] None [] [] False
      | BPikir \<Rightarrow> Blok ''thinking'' [] [] [] None [] [] None [] [] False
      | BAlat i n \<Rightarrow> Blok ''tool_use'' [] [] [] None i n (Some (j_objek [])) [] [] False
      | BGambar s \<Rightarrow> Blok ''image'' [] [] [] (Some s) [] [] None [] [] False)"

definition delta_dari :: "delta_keluar \<Rightarrow> stream_delta" where
  "delta_dari d =
     (case d of
        DTeks s \<Rightarrow> delta_nol\<lparr>sd_type := ''text_delta'', sd_text := s\<rparr>
      | DPikir s \<Rightarrow> delta_nol\<lparr>sd_type := ''thinking_delta'', sd_thinking := s\<rparr>
      | DTtd s \<Rightarrow> delta_nol\<lparr>sd_type := ''signature_delta'', sd_signature := s\<rparr>
      | DArgumen s \<Rightarrow> delta_nol\<lparr>sd_type := ''input_json_delta'', sd_partial_json := s\<rparr>)"

definition usage_dari :: "anthropic_usage \<Rightarrow> upstream_usage" where
  "usage_dari u = \<lparr>uu_input = au_input u, uu_output = au_output u, uu_cache_read = au_cache_read u,
     uu_cache_creation = au_cache_creation u, uu_rincian = au_rincian u\<rparr>"

definition amplop_nol :: amplop where
  "amplop_nol = \<lparr>ap_type = [], ap_index = 0, ap_message = None, ap_content_block = None, ap_delta = None, ap_usage = None, ap_error = None\<rparr>"

definition amplop_dari :: "keluaran \<Rightarrow> amplop" where
  "amplop_dari k =
     (let a = amplop_nol\<lparr>ap_type := nama_keluaran k\<rparr>
      in case k of
           KMulai i m n \<Rightarrow> a\<lparr>ap_message := Some \<lparr>mr_id = i, mr_type = ''message'', mr_role = ''assistant'', mr_model = m,
              mr_content = [], mr_stop_reason = [], mr_stop_sequence = [], mr_usage = usage_nol\<lparr>uu_input := n\<rparr>, mr_error = None\<rparr>\<rparr>
         | KBlok i b \<Rightarrow> a\<lparr>ap_index := i, ap_content_block := Some (blok_dari b)\<rparr>
         | KDelta i d \<Rightarrow> a\<lparr>ap_index := i, ap_delta := Some (delta_dari d)\<rparr>
         | KTutup i \<Rightarrow> a\<lparr>ap_index := i\<rparr>
         | KPesan r s u \<Rightarrow> a\<lparr>ap_delta := Some (delta_nol\<lparr>sd_stop_reason := r, sd_stop_sequence := s\<rparr>), ap_usage := Some (usage_dari u)\<rparr>
         | KHenti \<Rightarrow> a
         | KGalat t m \<Rightarrow> a\<lparr>ap_error := Some (t, m)\<rparr>)"

text \<open>The numbers fit the integers of the reader.\<close>

definition usage_muat :: "anthropic_usage \<Rightarrow> bool" where
  "usage_muat u \<longleftrightarrow> in_i64 (au_input u) \<and> in_i64 (au_output u) \<and> in_i64 (au_cache_creation u) \<and> in_i64 (au_cache_read u)
     \<and> (case au_rincian u of None \<Rightarrow> True | Some r \<Rightarrow> in_i64 (rc_1h r) \<and> in_i64 (rc_5m r))"

definition muat :: "keluaran \<Rightarrow> bool" where
  "muat k \<longleftrightarrow> (case k of KMulai _ _ n \<Rightarrow> in_i64 n | KBlok i _ \<Rightarrow> in_i64 i | KDelta i _ \<Rightarrow> in_i64 i | KTutup i \<Rightarrow> in_i64 i
     | KPesan _ _ u \<Rightarrow> usage_muat u | _ \<Rightarrow> True)"

lemma nama_kecil_anthropic [simp]:
  "to_lower ''message'' = ''message''" "to_lower ''index'' = ''index''" "to_lower ''content_block'' = ''content_block''"
  "to_lower ''delta'' = ''delta''" "to_lower ''usage'' = ''usage''" "to_lower ''error'' = ''error''" "to_lower ''input'' = ''input''"
  "to_lower ''source'' = ''source''" "to_lower ''media_type'' = ''media_type''" "to_lower ''signature'' = ''signature''"
  "to_lower ''thinking'' = ''thinking''" "to_lower ''partial_json'' = ''partial_json''" "to_lower ''stop_reason'' = ''stop_reason''"
  "to_lower ''stop_sequence'' = ''stop_sequence''" "to_lower ''model'' = ''model''" "to_lower ''input_tokens'' = ''input_tokens''"
  "to_lower ''output_tokens'' = ''output_tokens''" "to_lower ''cache_read_input_tokens'' = ''cache_read_input_tokens''"
  "to_lower ''cache_creation_input_tokens'' = ''cache_creation_input_tokens''" "to_lower ''cache_creation'' = ''cache_creation''"
  "to_lower ''ephemeral_1h_input_tokens'' = ''ephemeral_1h_input_tokens''" "to_lower ''ephemeral_5m_input_tokens'' = ''ephemeral_5m_input_tokens''"
  "to_lower ''tool_use_id'' = ''tool_use_id''" "to_lower ''is_error'' = ''is_error''"
  by code_simp+

lemma isi_j_null [simp]: "isi j_null = JNull"
  by (simp add: j_null_def)

lemma u_null [simp]: "u_teks j_null = Some []" "u_ptr f j_null = Some None"
  by (simp_all add: u_teks_def u_ptr_def)

lemma those_Nil [simp]: "those [] = Some []"
  by simp

lemma baca_image_source: "u_image_source (j_image_source s) = Some s"
  by (simp add: u_image_source_def j_image_source_def)

lemma j_bukan_null_keluar [simp]:
  "isi (j_image_source s) \<noteq> JNull" "isi (j_blok_keluar b) \<noteq> JNull" "isi (j_delta_keluar d) \<noteq> JNull"
  "isi (j_usage_keluar u) \<noteq> JNull" "isi (j_rincian r) \<noteq> JNull"
  by (simp_all add: j_image_source_def j_blok_keluar_def j_delta_keluar_def j_usage_keluar_def j_rincian_def
      split: blok_keluar.split delta_keluar.split)

lemma baca_blok_keluar: "u_blok (j_blok_keluar b) = Some (blok_dari b)"
  by (cases b) (simp_all add: u_blok.simps j_blok_keluar_def blok_dari_def baca_image_source)

lemma baca_delta_keluar: "u_stream_delta (j_delta_keluar d) = Some (delta_dari d)"
  by (cases d) (simp_all add: u_stream_delta_def j_delta_keluar_def delta_dari_def delta_nol_def)

lemma baca_rincian: "in_i64 (rc_1h r) \<Longrightarrow> in_i64 (rc_5m r) \<Longrightarrow> u_rincian (j_rincian r) = Some r"
  by (simp add: u_rincian_def j_rincian_def)

lemma baca_usage_keluar: "usage_muat u \<Longrightarrow> u_upstream_usage (j_usage_keluar u) = Some (usage_dari u)"
  by (cases "au_rincian u") (simp_all add: u_upstream_usage_def j_usage_keluar_def usage_dari_def usage_muat_def baca_rincian)

lemma baca_delta_pesan:
  "u_stream_delta (j_objek [(''stop_reason'', j_teks r), (''stop_sequence'', if u = [] then j_null else j_teks u)])
     = Some (delta_nol\<lparr>sd_stop_reason := r, sd_stop_sequence := u\<rparr>)"
  by (simp add: u_stream_delta_def delta_nol_def)

lemma baca_keluaran: "muat k \<Longrightarrow> u_amplop (j_keluaran k) = Some (amplop_dari k)"
proof (cases k)
  case (KMulai i m n)
  assume "muat k"
  with KMulai have n: "in_i64 n" "in_i64 0" by (simp_all add: muat_def in_i64_def)
  let ?u = "j_objek [(''input_tokens'', j_int n), (''output_tokens'', j_int 0)]"
  have "u_upstream_usage ?u = Some (usage_nol\<lparr>uu_input := n\<rparr>)"
    using n by (simp add: u_upstream_usage_def usage_nol_def)
  then show ?thesis
    by (simp add: KMulai j_keluaran_def u_amplop_def amplop_dari_def amplop_nol_def nama_keluaran_def u_messages_response_def)
qed (simp_all add: j_keluaran_def u_amplop_def amplop_dari_def amplop_nol_def nama_keluaran_def muat_def
    baca_blok_keluar baca_delta_keluar baca_usage_keluar baca_delta_pesan u_galat_def)

section \<open>One event read\<close>

definition langkah_baca :: "keluaran \<Rightarrow> aliran_anthropic \<times> hasil_aliran \<Rightarrow> aliran_anthropic \<times> hasil_aliran" where
  "langkah_baca k x =
     (case tangani (nama_keluaran k) (amplop_dari k) (fst x) of
        (Terbit e, s) \<Rightarrow> (s\<lparr>aa_streamed := aa_streamed s + panjang_raw e\<rparr>, rangkai_event e (snd x))
      | (_, s) \<Rightarrow> (s, snd x))"

definition dibaca :: "aliran_anthropic \<Rightarrow> keluaran list \<Rightarrow> aliran_anthropic \<times> hasil_aliran" where
  "dibaca s ks = foldl (\<lambda>x k. langkah_baca k x) (s, hasil_awal) ks"

lemma dibaca_simps [simp]:
  "dibaca s [] = (s, hasil_awal)" "dibaca s (ks @ [k]) = langkah_baca k (dibaca s ks)"
  by (simp_all add: dibaca_def)

text \<open>The tools of a stream, apart from what the size of its pieces counts.\<close>

definition peta_alat :: "aliran_anthropic \<Rightarrow> (int \<times> int) list \<times> int" where
  "peta_alat s = (aa_tool_index s, aa_next_tool s)"

definition tetap :: "aliran_anthropic \<Rightarrow> aliran_anthropic \<Rightarrow> bool" where
  "tetap s s' \<longleftrightarrow> aa_usage s' = aa_usage s \<and> aa_usage_seen s' = aa_usage_seen s \<and> aa_usage_sent s' = aa_usage_sent s \<and> aa_done s' = aa_done s"

lemma tetap_refl [simp]: "tetap s s"
  by (simp add: tetap_def)

lemma tetap_trans: "tetap s t \<Longrightarrow> tetap t u \<Longrightarrow> tetap s u"
  by (simp add: tetap_def)

lemmas baca_defs = langkah_baca_def tangani_def amplop_dari_def amplop_nol_def nama_keluaran_def Let_def

lemma rangkai_event_simps [simp]:
  "rangkai_event ((buat_event s d [] None)\<lparr>se_delta := t\<rparr>) h = h\<lparr>ha_teks := ha_teks h @ t\<rparr>"
  "rangkai_event ((buat_event s d [] None)\<lparr>se_reasoning := t\<rparr>) h = h\<lparr>ha_pikir := ha_pikir h @ t\<rparr>"
  "rangkai_event ((buat_event s d [] None)\<lparr>se_signature := t\<rparr>) h = h\<lparr>ha_ttd := (if t = [] then ha_ttd h else t)\<rparr>"
  "rangkai_event ((buat_event s d [] None)\<lparr>se_parts := [b]\<rparr>) h = h\<lparr>ha_gambar := ha_gambar h @ gambar_bagian b\<rparr>"
  "rangkai_event ((buat_event s d [] None)\<lparr>se_tool_calls := [c]\<rparr>) h = h\<lparr>ha_alat := rangkai_alat (ha_alat h) c\<rparr>"
  "rangkai_event (buat_event s d [] None) h = h"
  by (simp_all add: rangkai_event_def buat_event_def event_kosong_def teks_event_def)

lemma baca_tutup: "langkah_baca (KTutup i) x = x"
  by (simp add: baca_defs)

lemma baca_buka: "b = BTeks \<or> b = BPikir \<Longrightarrow> langkah_baca (KBlok i b) x = x"
  by (auto simp: baca_defs block_start_def blok_dari_def)

lemma baca_teks:
  assumes "t \<noteq> []"
  shows "snd (langkah_baca (KDelta i (DTeks t)) x) = snd x\<lparr>ha_teks := ha_teks (snd x) @ t\<rparr>"
    "peta_alat (fst (langkah_baca (KDelta i (DTeks t)) x)) = peta_alat (fst x)" "tetap (fst x) (fst (langkah_baca (KDelta i (DTeks t)) x))"
  using assms by (simp_all add: baca_defs block_delta_def delta_dari_def delta_nol_def peta_alat_def tetap_def)

lemma baca_pikir:
  assumes "t \<noteq> []"
  shows "snd (langkah_baca (KDelta i (DPikir t)) x) = snd x\<lparr>ha_pikir := ha_pikir (snd x) @ t\<rparr>"
    "peta_alat (fst (langkah_baca (KDelta i (DPikir t)) x)) = peta_alat (fst x)" "tetap (fst x) (fst (langkah_baca (KDelta i (DPikir t)) x))"
  using assms by (simp_all add: baca_defs block_delta_def delta_dari_def delta_nol_def peta_alat_def tetap_def)

lemma baca_ttd:
  assumes "t \<noteq> []"
  shows "snd (langkah_baca (KDelta i (DTtd t)) x) = snd x\<lparr>ha_ttd := t\<rparr>"
    "peta_alat (fst (langkah_baca (KDelta i (DTtd t)) x)) = peta_alat (fst x)" "tetap (fst x) (fst (langkah_baca (KDelta i (DTtd t)) x))"
  using assms by (simp_all add: baca_defs block_delta_def delta_dari_def delta_nol_def peta_alat_def tetap_def)

lemma baca_gambar:
  shows "snd (langkah_baca (KBlok i (BGambar g)) x)
      = snd x\<lparr>ha_gambar := ha_gambar (snd x) @ (case url_gambar g of None \<Rightarrow> [] | Some u \<Rightarrow> gambar_bagian (bagian_gambar u))\<rparr>"
    "peta_alat (fst (langkah_baca (KBlok i (BGambar g)) x)) = peta_alat (fst x)" "tetap (fst x) (fst (langkah_baca (KBlok i (BGambar g)) x))"
  by (auto simp: baca_defs block_start_def blok_dari_def peta_alat_def tetap_def split: option.split)

text \<open>The number of a block among the tools.\<close>

lemma baca_alat:
  shows "snd (langkah_baca (KBlok i (BAlat k n)) x) = snd x\<lparr>ha_alat := rangkai_alat (ha_alat (snd x))
      (panggilan_kosong\<lparr>tc_index := fst (tool_index_for i (fst x)), tc_id := k, tc_type := ''function'', tc_name := n\<rparr>)\<rparr>"
    "peta_alat (fst (langkah_baca (KBlok i (BAlat k n)) x)) = peta_alat (snd (tool_index_for i (fst x)))"
    "tetap (fst x) (fst (langkah_baca (KBlok i (BAlat k n)) x))"
proof -
  have "masukan_utuh (Some (j_objek [])) = []" by code_simp
  then show "snd (langkah_baca (KBlok i (BAlat k n)) x) = snd x\<lparr>ha_alat := rangkai_alat (ha_alat (snd x))
      (panggilan_kosong\<lparr>tc_index := fst (tool_index_for i (fst x)), tc_id := k, tc_type := ''function'', tc_name := n\<rparr>)\<rparr>"
    "peta_alat (fst (langkah_baca (KBlok i (BAlat k n)) x)) = peta_alat (snd (tool_index_for i (fst x)))"
    "tetap (fst x) (fst (langkah_baca (KBlok i (BAlat k n)) x))"
    by (auto simp: baca_defs block_start_def blok_dari_def peta_alat_def tetap_def event_panggilan_def tool_index_for_def panggilan_kosong_def
        split: prod.split option.split)
qed

lemma baca_argumen:
  assumes "a \<noteq> []"
  shows "snd (langkah_baca (KDelta i (DArgumen a)) x) = snd x\<lparr>ha_alat := rangkai_alat (ha_alat (snd x))
      (panggilan_kosong\<lparr>tc_index := fst (tool_index_for i (fst x)), tc_arguments := a\<rparr>)\<rparr>"
    "peta_alat (fst (langkah_baca (KDelta i (DArgumen a)) x)) = peta_alat (snd (tool_index_for i (fst x)))"
    "tetap (fst x) (fst (langkah_baca (KDelta i (DArgumen a)) x))"
  using assms
  by (auto simp: baca_defs block_delta_def delta_dari_def delta_nol_def peta_alat_def tetap_def event_panggilan_def tool_index_for_def
      split: prod.split option.split)

section \<open>The simulation\<close>

text \<open>An image as it comes back: a data URI loses its parameters, and one without data is lost.\<close>

definition gambar_lewat :: "string \<Rightarrow> string list" where
  "gambar_lewat u =
     (case blok_gambar_dari_part (bagian_gambar u) of
        None \<Rightarrow> []
      | Some g \<Rightarrow> (case url_gambar g of None \<Rightarrow> [] | Some v \<Rightarrow> [v]))"

text \<open>A tool as it comes back: its index is its position.\<close>

definition alat_lewat :: "nat \<Rightarrow> tool_call \<Rightarrow> tool_call" where
  "alat_lewat i t = \<lparr>tc_index = int i, tc_id = tc_id t, tc_type = ''function'', tc_name = tc_name t,
     tc_arguments = tc_arguments t, tc_thought_signature = []\<rparr>"

definition alat_padu :: "alat_aliran list \<Rightarrow> int \<Rightarrow> tool_call list \<Rightarrow> (int \<times> int) list \<times> int \<Rightarrow> tool_call list \<Rightarrow> bool" where
  "alat_padu alat n as peta bs \<longleftrightarrow>
     length alat = length as \<and> length bs = length as \<and> snd peta = int (length as) \<and>
     (\<forall>i<length as. al_id (alat ! i) = tc_id (as ! i) \<and> al_index (alat ! i) = tc_index (as ! i) \<and>
        bs ! i = alat_lewat i (as ! i) \<and> map_of (fst peta) (al_blok (alat ! i)) = Some (int i)) \<and>
     (\<forall>b\<ge>n. map_of (fst peta) b = None)"

definition lanjut :: "keluaran \<Rightarrow> bool" where
  "lanjut k \<longleftrightarrow> (case k of KHenti \<Rightarrow> False | KGalat _ _ \<Rightarrow> False | _ \<Rightarrow> True)"

text \<open>\<open>s0\<close> is the reader at the start, \<open>s1\<close> the reader after the message start.\<close>

definition padu :: "aliran_anthropic \<Rightarrow> aliran_anthropic \<Rightarrow> penulis \<Rightarrow> hasil_aliran \<Rightarrow> bool" where
  "padu s0 s1 p a \<longleftrightarrow>
     (case dibaca s0 (pn_keluar p) of (s, b) \<Rightarrow>
        \<not> pn_berhenti p \<and> pn_galat p = None \<and> list_all lanjut (pn_keluar p) \<and> tetap s1 s \<and>
        ha_teks b = ha_teks a \<and> ha_pikir b = ha_pikir a \<and> ha_ttd b = ha_ttd a \<and>
        ha_gambar b = concat (map gambar_lewat (ha_gambar a)) \<and> ha_urutan b = [] \<and>
        pn_stop p = (if ha_henti a = [] then ''end_turn'' else stop_reason_untuk (ha_henti a)) \<and> pn_stop_seq p = ha_urutan a \<and>
        alat_padu (pn_alat p) (pn_berikut p) (ha_alat a) (peta_alat s) (ha_alat b))"

lemma alat_padu_mono: "alat_padu alat n as peta bs \<Longrightarrow> n \<le> m \<Longrightarrow> alat_padu alat m as peta bs"
  by (auto simp: alat_padu_def)

text \<open>With every write going through.\<close>

abbreviation sampai :: "nat \<Rightarrow> bool" where "sampai \<equiv> \<lambda>n. True"

lemma kirim_sampai: "kirim_wajib sampai k p = kirim_abai sampai k p"
  by (simp add: kirim_wajib_def kirim_event_def kirim_abai_def)

lemma abai_sampai [simp]:
  "pn_keluar (kirim_abai sampai k p) = pn_keluar p @ [k]" "pn_berhenti (kirim_abai sampai k p) = pn_berhenti p"
  "pn_galat (kirim_abai sampai k p) = pn_galat p" "pn_stop (kirim_abai sampai k p) = pn_stop p"
  "pn_stop_seq (kirim_abai sampai k p) = pn_stop_seq p" "pn_alat (kirim_abai sampai k p) = pn_alat p"
  "pn_berikut (kirim_abai sampai k p) = pn_berikut p" "pn_usage (kirim_abai sampai k p) = pn_usage p"
  by (simp_all add: kirim_abai_def)

definition serupa :: "penulis \<Rightarrow> penulis \<Rightarrow> bool" where
  "serupa p p' \<longleftrightarrow> pn_keluar p' = pn_keluar p \<and> pn_berhenti p' = pn_berhenti p \<and> pn_galat p' = pn_galat p \<and>
     pn_stop p' = pn_stop p \<and> pn_stop_seq p' = pn_stop_seq p"

text \<open>
  One write that touches no tool; \<open>f\<close> is what the reader does with it.
\<close>

lemma padu_kirim:
  assumes "padu s0 s1 p a" "serupa p p'" "pn_alat p' = pn_alat p" "pn_berikut p \<le> pn_berikut p'" "lanjut k"
    and k: "\<And>x. snd (langkah_baca k x) = f (snd x)" "\<And>x. peta_alat (fst (langkah_baca k x)) = peta_alat (fst x)"
      "\<And>x. tetap (fst x) (fst (langkah_baca k x))"
    and f: "\<And>b. ha_teks b = ha_teks a \<Longrightarrow> ha_pikir b = ha_pikir a \<Longrightarrow> ha_ttd b = ha_ttd a \<Longrightarrow>
        ha_gambar b = concat (map gambar_lewat (ha_gambar a)) \<Longrightarrow> ha_teks (f b) = ha_teks a' \<and> ha_pikir (f b) = ha_pikir a' \<and>
        ha_ttd (f b) = ha_ttd a' \<and> ha_gambar (f b) = concat (map gambar_lewat (ha_gambar a')) \<and> ha_alat (f b) = ha_alat b \<and> ha_urutan (f b) = ha_urutan b"
      "ha_alat a' = ha_alat a" "ha_henti a' = ha_henti a" "ha_urutan a' = ha_urutan a"
  shows "padu s0 s1 (kirim_abai sampai k p') a'"
proof -
  obtain s b where x: "dibaca s0 (pn_keluar p) = (s, b)" by (cases "dibaca s0 (pn_keluar p)")
  obtain s' b' where y: "langkah_baca k (s, b) = (s', b')" by (cases "langkah_baca k (s, b)")
  from assms(1) x have i: "\<not> pn_berhenti p" "ha_teks b = ha_teks a" "ha_pikir b = ha_pikir a" "ha_ttd b = ha_ttd a"
    "ha_gambar b = concat (map gambar_lewat (ha_gambar a))" "tetap s1 s" "pn_galat p = None" "list_all lanjut (pn_keluar p)"
    "pn_stop p = (if ha_henti a = [] then ''end_turn'' else stop_reason_untuk (ha_henti a))" "pn_stop_seq p = ha_urutan a"
    "alat_padu (pn_alat p) (pn_berikut p) (ha_alat a) (peta_alat s) (ha_alat b)" "ha_urutan b = []"
    by (simp_all add: padu_def)
  from k [of "(s, b)"] y have b': "b' = f b" "peta_alat s' = peta_alat s" "tetap s s'" by simp_all
  note f1 = f(1) [OF i(2-5)]
  have "alat_padu (pn_alat p) (pn_berikut p') (ha_alat a') (peta_alat s') (ha_alat b')"
    using alat_padu_mono [OF i(11) assms(4)] f(2) f1 b' by simp
  moreover have "tetap s1 s'" using i(6) b'(3) by (rule tetap_trans)
  moreover have "dibaca s0 (pn_keluar p') = (s, b)" using assms(2) x by (simp add: serupa_def)
  ultimately show ?thesis using assms(2,3,5) x y i f1 f(3,4) b'(1) by (simp add: padu_def serupa_def)
qed

lemma padu_upd:
  "padu s0 s1 (p\<lparr>pn_konten := i\<rparr>) a = padu s0 s1 p a" "padu s0 s1 (p\<lparr>pn_index := i\<rparr>) a = padu s0 s1 p a"
  "padu s0 s1 (p\<lparr>pn_terbuka := b\<rparr>) a = padu s0 s1 p a" "padu s0 s1 (p\<lparr>pn_tipe := t\<rparr>) a = padu s0 s1 p a"
  "padu s0 s1 (p\<lparr>pn_gagal := b\<rparr>) a = padu s0 s1 p a" "padu s0 s1 (p\<lparr>pn_usage := u\<rparr>) a = padu s0 s1 p a"
  by (simp_all add: padu_def)

lemma padu_berhenti: "padu s0 s1 p a \<Longrightarrow> \<not> pn_berhenti p"
  by (auto simp: padu_def)

lemma tutup_sampai: "tutup_blok sampai p = (if pn_terbuka p then (kirim_abai sampai (KTutup (pn_index p)) p)\<lparr>pn_terbuka := False, pn_tipe := []\<rparr> else p)"
  by (simp add: tutup_blok_def kirim_event_def kirim_abai_def)

lemma padu_tutup: "padu s0 s1 p a \<Longrightarrow> padu s0 s1 (tutup_blok sampai p) a"
  unfolding tutup_sampai
  by (auto simp: padu_upd baca_tutup serupa_def lanjut_def intro!: padu_kirim [where f = "\<lambda>b. b"])

lemma padu_buka:
  assumes "padu s0 s1 p a" "b = BTeks \<or> b = BPikir"
  shows "padu s0 s1 (buka_blok sampai b t p) a"
proof -
  let ?q = "tutup_blok sampai p"
  have "padu s0 s1 (kirim_abai sampai (KBlok (pn_berikut ?q) b) (?q\<lparr>pn_index := pn_berikut ?q, pn_berikut := pn_berikut ?q + 1\<rparr>)) a"
    by (rule padu_kirim [OF padu_tutup [OF assms(1)], where f = "\<lambda>b. b"]) (use assms(2) in \<open>simp_all add: baca_buka serupa_def lanjut_def\<close>)
  then show ?thesis using padu_berhenti by (simp add: buka_blok_def Let_def lalu_bila_def padu_upd kirim_sampai)
qed

lemma padu_pastikan: "padu s0 s1 p a \<Longrightarrow> b = BTeks \<or> b = BPikir \<Longrightarrow> padu s0 s1 (pastikan_blok sampai b t p) a"
  by (simp add: pastikan_blok_def padu_buka)

lemma padu_lalu: "padu s0 s1 p a \<Longrightarrow> padu s0 s1 (f p) a' \<Longrightarrow> padu s0 s1 (lalu_bila p f) a'"
  by (auto simp: lalu_bila_def dest: padu_berhenti)

lemma padu_teks:
  assumes "padu s0 s1 p a"
  shows "padu s0 s1 (tulis_teks sampai t p) (a\<lparr>ha_teks := ha_teks a @ t\<rparr>)"
proof (cases "t = []")
  case False
  let ?q = "pastikan_blok sampai BTeks ''text'' (p\<lparr>pn_konten := pn_konten p + int (length t)\<rparr>)"
  have q: "padu s0 s1 ?q a" using assms by (simp add: padu_pastikan padu_upd)
  have "padu s0 s1 (kirim_abai sampai (KDelta (pn_index ?q) (DTeks t)) ?q) (a\<lparr>ha_teks := ha_teks a @ t\<rparr>)"
    by (rule padu_kirim [OF q, where f = "\<lambda>b. b\<lparr>ha_teks := ha_teks b @ t\<rparr>"]) (use False in \<open>simp_all add: baca_teks serupa_def lanjut_def\<close>)
  with False q show ?thesis by (simp add: tulis_teks_def padu_lalu kirim_sampai)
qed (use assms in \<open>simp add: tulis_teks_def\<close>)

lemma padu_pikir:
  assumes "padu s0 s1 p a"
  shows "padu s0 s1 (tulis_pikir sampai t u p) (rangkai_pikir t u a)"
proof (cases "t = [] \<and> u = []")
  case True
  then show ?thesis using assms by (simp add: tulis_pikir_def rangkai_pikir_def)
next
  case False
  let ?q = "pastikan_blok sampai BPikir ''thinking'' p"
  let ?f = "\<lambda>p1. if t = [] then p1 else kirim_wajib sampai (KDelta (pn_index p1) (DPikir t)) (p1\<lparr>pn_konten := pn_konten p1 + int (length t)\<rparr>)"
  let ?r = "lalu_bila ?q ?f" and ?a = "a\<lparr>ha_pikir := ha_pikir a @ t\<rparr>"
  have q: "padu s0 s1 ?q a" using assms by (simp add: padu_pastikan)
  have "padu s0 s1 (?f ?q) ?a"
  proof (cases "t = []")
    case False
    have "padu s0 s1 (kirim_abai sampai (KDelta (pn_index ?q) (DPikir t)) (?q\<lparr>pn_konten := pn_konten ?q + int (length t)\<rparr>)) ?a"
      by (rule padu_kirim [OF q, where f = "\<lambda>b. b\<lparr>ha_pikir := ha_pikir b @ t\<rparr>"]) (use False in \<open>simp_all add: baca_pikir serupa_def lanjut_def\<close>)
    with False show ?thesis by (simp add: kirim_sampai)
  qed (use q in simp)
  with q have r: "padu s0 s1 ?r ?a" by (rule padu_lalu)
  have "padu s0 s1 (if u = [] then ?r else kirim_wajib sampai (KDelta (pn_index ?r) (DTtd u)) ?r) (rangkai_pikir t u a)"
  proof (cases "u = []")
    case True
    with r show ?thesis by (simp add: rangkai_pikir_def)
  next
    case False
    have "padu s0 s1 (kirim_abai sampai (KDelta (pn_index ?r) (DTtd u)) ?r) (rangkai_pikir t u a)"
      by (rule padu_kirim [OF r, where f = "\<lambda>b. b\<lparr>ha_ttd := u\<rparr>"]) (use False in \<open>simp_all add: baca_ttd rangkai_pikir_def serupa_def lanjut_def\<close>)
    with False show ?thesis by (simp add: kirim_sampai)
  qed
  with r have "padu s0 s1 (lalu_bila ?r (\<lambda>p2. if u = [] then p2 else kirim_wajib sampai (KDelta (pn_index p2) (DTtd u)) p2)) (rangkai_pikir t u a)"
    by (rule padu_lalu)
  moreover have "tulis_pikir sampai t u p = lalu_bila ?r (\<lambda>p2. if u = [] then p2 else kirim_wajib sampai (KDelta (pn_index p2) (DTtd u)) p2)"
    unfolding tulis_pikir_def using False by (rule if_not_P)
  ultimately show ?thesis by simp
qed


subsection \<open>Images\<close>

lemma kembali_gambar:
  "blok_gambar_dari_part b = None \<Longrightarrow> gambar_bagian b = []"
  "blok_gambar_dari_part b = Some g \<Longrightarrow> cp_type b = part_type_image_url \<Longrightarrow>
     concat (map gambar_lewat (gambar_bagian b)) = (case url_gambar g of None \<Rightarrow> [] | Some u \<Rightarrow> gambar_bagian (bagian_gambar u))"
proof -
  show "blok_gambar_dari_part b = None \<Longrightarrow> gambar_bagian b = []"
    by (auto simp: blok_gambar_dari_part_def gambar_bagian_def split: option.splits if_splits)
  assume g: "blok_gambar_dari_part b = Some g" and t: "cp_type b = part_type_image_url"
  then obtain u where u: "cp_image_url b = Some u" "iu_url u \<noteq> []"
    by (auto simp: blok_gambar_dari_part_def split: option.splits if_splits)
  with g have "blok_gambar_dari_part (bagian_gambar (iu_url u)) = Some g"
    by (simp add: blok_gambar_dari_part_def bagian_gambar_def cong: option.case_cong)
  moreover have "gambar_bagian (bagian_gambar v) = [v]" if "url_gambar g = Some v" for v
  proof -
    from that have "v \<noteq> []" by (auto simp: url_gambar_def split: if_splits)
    then show ?thesis by (simp add: gambar_bagian_def bagian_gambar_def)
  qed
  ultimately show "concat (map gambar_lewat (gambar_bagian b)) = (case url_gambar g of None \<Rightarrow> [] | Some u \<Rightarrow> gambar_bagian (bagian_gambar u))"
    using t u by (auto simp: gambar_bagian_def gambar_lewat_def split: option.split)
qed

lemma padu_bagian:
  assumes "padu s0 s1 p a"
  shows "padu s0 s1 (tulis_bagian sampai b p) (a\<lparr>ha_gambar := ha_gambar a @ gambar_bagian b\<rparr>)"
proof (cases "cp_type b = part_type_image_url \<and> blok_gambar_dari_part b \<noteq> None")
  case False
  then have "gambar_bagian b = []" by (cases "cp_type b = part_type_image_url") (simp add: kembali_gambar(1), simp add: gambar_bagian_def)
  with False assms show ?thesis by (auto simp: tulis_bagian_def)
next
  case True
  then obtain g where t: "cp_type b = part_type_image_url" and g: "blok_gambar_dari_part b = Some g" by auto
  let ?p1 = "tutup_blok sampai p" and ?a = "a\<lparr>ha_gambar := ha_gambar a @ gambar_bagian b\<rparr>"
  let ?g = "case url_gambar g of None \<Rightarrow> [] | Some u \<Rightarrow> gambar_bagian (bagian_gambar u)"
  let ?p2 = "kirim_abai sampai (KBlok (pn_berikut ?p1) (BGambar g)) (?p1\<lparr>pn_berikut := pn_berikut ?p1 + 1\<rparr>)"
  have p2: "padu s0 s1 ?p2 ?a"
    by (rule padu_kirim [OF padu_tutup [OF assms], where f = "\<lambda>b. b\<lparr>ha_gambar := ha_gambar b @ ?g\<rparr>"])
      (simp_all add: baca_gambar serupa_def lanjut_def kembali_gambar(2) [OF g t])
  have "padu s0 s1 (kirim_abai sampai (KTutup (pn_berikut ?p1)) ?p2) ?a"
    by (rule padu_kirim [OF p2, where f = "\<lambda>b. b"]) (simp_all add: baca_tutup serupa_def lanjut_def)
  with p2 t g show ?thesis by (simp add: tulis_bagian_def Let_def kirim_sampai padu_lalu)
qed

subsection \<open>Tools\<close>

lemma find_nth: "find P xs = map_option (\<lambda>i. xs ! i) (find (\<lambda>i. P (xs ! i)) [0..<length xs])"
  "find P (rev xs) = map_option (\<lambda>i. xs ! i) (find (\<lambda>i. P (xs ! i)) (rev [0..<length xs]))"
proof -
  have m: "find P (map f ys) = map_option f (find (\<lambda>i. P (f i)) ys)" for f :: "'b \<Rightarrow> 'a" and ys
    by (induction ys) simp_all
  show "find P xs = map_option (\<lambda>i. xs ! i) (find (\<lambda>i. P (xs ! i)) [0..<length xs])"
    using m [of "\<lambda>i. xs ! i" "[0..<length xs]"] by (simp add: map_nth)
  have "rev xs = map (\<lambda>i. xs ! i) (rev [0..<length xs])" by (simp only: rev_map [symmetric] map_nth)
  with m [of "\<lambda>i. xs ! i" "rev [0..<length xs]"]
  show "find P (rev xs) = map_option (\<lambda>i. xs ! i) (find (\<lambda>i. P (xs ! i)) (rev [0..<length xs]))" by simp
qed

lemma find_anggota: "find P xs = Some x \<Longrightarrow> x \<in> set xs \<and> P x"
  by (auto simp: find_Some_iff)

lemma posisi_batas: "posisi_alat tc as = Some i \<Longrightarrow> i < length as"
  by (auto simp: posisi_alat_def split: if_splits dest: find_anggota)

lemma cari_posisi:
  assumes "alat_padu alat n as peta bs"
  shows "cari_alat tc alat = map_option (\<lambda>i. al_blok (alat ! i)) (posisi_alat tc as)"
proof -
  have l: "length alat = length as"
    and e: "\<And>i. i < length as \<Longrightarrow> al_id (alat ! i) = tc_id (as ! i)" "\<And>i. i < length as \<Longrightarrow> al_index (alat ! i) = tc_index (as ! i)"
    using assms by (simp_all add: alat_padu_def)
  have "find (\<lambda>i. al_id (alat ! i) = tc_id tc) [0..<length as] = find (\<lambda>i. tc_id (as ! i) = tc_id tc) [0..<length as]"
    "find (\<lambda>i. al_index (alat ! i) = tc_index tc) (rev [0..<length as]) = find (\<lambda>i. tc_index (as ! i) = tc_index tc) (rev [0..<length as])"
    by (rule find_cong; simp add: e)+
  then show ?thesis
    unfolding cari_alat_def posisi_alat_def find_nth(1) [of _ alat] find_nth(2) [of _ alat] l by (simp add: option.map_comp comp_def)
qed

text \<open>Growing the arguments of a tool.\<close>

lemma rangkai_ada: "posisi_alat tc as = Some i \<Longrightarrow>
    rangkai_alat as tc = as[i := (as ! i)\<lparr>tc_arguments := tc_arguments (as ! i) @ tc_arguments tc\<rparr>]"
  by (simp add: rangkai_alat_def)

lemma posisi_nomor:
  assumes "\<And>j. j < length bs \<Longrightarrow> tc_index (bs ! j) = int j" "i < length bs" "tc_id tc = []" "tc_index tc = int i"
  shows "posisi_alat tc bs = Some i"
proof -
  have "find (\<lambda>j. tc_index (bs ! j) = tc_index tc) (rev [0..<length bs]) = find (\<lambda>j. j = i) (rev [0..<length bs])"
    by (rule find_cong) (simp_all add: assms)
  also have "\<dots> = Some i"
  proof -
    have "find (\<lambda>j. j = i) xs = Some i" if "i \<in> set xs" for xs :: "nat list" using that by (induction xs) auto
    with assms(2) show ?thesis by simp
  qed
  finally show ?thesis using assms(3) by (simp add: posisi_alat_def)
qed

lemma alat_padu_tumbuh:
  assumes "alat_padu alat n as peta bs" "i < length as"
  shows "alat_padu alat n (as[i := (as ! i)\<lparr>tc_arguments := tc_arguments (as ! i) @ t\<rparr>]) peta
    (rangkai_alat bs (panggilan_kosong\<lparr>tc_index := int i, tc_arguments := t\<rparr>))"
proof -
  have b: "length bs = length as" "\<And>j. j < length as \<Longrightarrow> bs ! j = alat_lewat j (as ! j)"
    using assms(1) by (simp_all add: alat_padu_def)
  have "posisi_alat (panggilan_kosong\<lparr>tc_index := int i, tc_arguments := t\<rparr>) bs = Some i"
    by (rule posisi_nomor) (simp_all add: b assms(2) alat_lewat_def panggilan_kosong_def)
  then show ?thesis using assms
    by (auto simp: rangkai_ada alat_padu_def nth_list_update alat_lewat_def panggilan_kosong_def)
qed

lemma alat_padu_baru:
  assumes "alat_padu alat n as peta bs" "tc_arguments tc = []"
    and c: "c = panggilan_kosong\<lparr>tc_index := int (length as), tc_id := tc_id tc, tc_type := ''function'', tc_name := tc_name tc\<rparr>"
    and new: "posisi_alat tc as = None"
  shows "alat_padu (alat @ [\<lparr>al_index = tc_index tc, al_id = tc_id tc, al_blok = n\<rparr>]) (n + 1) (as @ [tc])
    ((n, int (length as)) # fst peta, int (length as) + 1) (rangkai_alat bs c)"
proof -
  have l: "length alat = length as" "length bs = length as" and b: "\<And>j. j < length as \<Longrightarrow> bs ! j = alat_lewat j (as ! j)"
    and m: "\<And>j. j < length as \<Longrightarrow> map_of (fst peta) (al_blok (alat ! j)) = Some (int j)" "\<And>b. n \<le> b \<Longrightarrow> map_of (fst peta) b = None"
    using assms(1) by (simp_all add: alat_padu_def)
  have ne: "al_blok (alat ! j) \<noteq> n" if "j < length as" for j
    using m(1) [OF that] m(2) [of n] by auto
  have "posisi_alat c bs = None"
  proof (cases "tc_id tc = []")
    case True
    then show ?thesis by (auto simp: posisi_alat_def c panggilan_kosong_def find_None_iff l b alat_lewat_def)
  next
    case False
    with new have "\<And>j. j < length as \<Longrightarrow> tc_id (as ! j) \<noteq> tc_id tc" by (simp add: posisi_alat_def find_None_iff)
    with False show ?thesis by (auto simp: posisi_alat_def c panggilan_kosong_def find_None_iff l b alat_lewat_def)
  qed
  then have r: "rangkai_alat bs c = bs @ [alat_lewat (length as) tc]"
    using assms(2) by (simp add: rangkai_alat_def c alat_lewat_def panggilan_kosong_def)
  show ?thesis unfolding r
    using assms(1) ne by (auto simp: alat_padu_def nth_append less_Suc_eq)
qed

lemma padu_pecah:
  assumes "padu s0 s1 p a"
  obtains s b where "dibaca s0 (pn_keluar p) = (s, b)" "alat_padu (pn_alat p) (pn_berikut p) (ha_alat a) (peta_alat s) (ha_alat b)"
proof -
  obtain s b where "dibaca s0 (pn_keluar p) = (s, b)" by (cases "dibaca s0 (pn_keluar p)")
  with assms that show ?thesis by (simp add: padu_def)
qed

lemma padu_tulis:
  assumes "padu s0 s1 p a" "serupa p p'" "lanjut k" "dibaca s0 (pn_keluar p) = (s, b)"
    and "snd (langkah_baca k (s, b)) = b\<lparr>ha_alat := bs\<rparr>" "tetap s (fst (langkah_baca k (s, b)))"
    and "alat_padu (pn_alat p') (pn_berikut p') as (peta_alat (fst (langkah_baca k (s, b)))) bs"
  shows "padu s0 s1 (kirim_abai sampai k p') (a\<lparr>ha_alat := as\<rparr>)"
proof -
  obtain s' where y: "langkah_baca k (s, b) = (s', b\<lparr>ha_alat := bs\<rparr>)" using assms(5) by (cases "langkah_baca k (s, b)") simp
  have "dibaca s0 (pn_keluar p') = (s, b)" using assms(2,4) by (simp add: serupa_def)
  moreover have "tetap s1 s'" using assms(1,4,6) y by (auto simp: padu_def intro: tetap_trans)
  ultimately show ?thesis using assms(1-4,7) y by (simp add: padu_def serupa_def)
qed

lemma padu_argumen:
  assumes "padu s0 s1 p a" "i < length (ha_alat a)"
  shows "padu s0 s1 (tulis_argumen sampai (al_blok (pn_alat p ! i)) t p)
    (a\<lparr>ha_alat := (ha_alat a)[i := (ha_alat a ! i)\<lparr>tc_arguments := tc_arguments (ha_alat a ! i) @ t\<rparr>]\<rparr>)"
proof (cases "t = []")
  case True
  have "(ha_alat a)[i := (ha_alat a ! i)\<lparr>tc_arguments := tc_arguments (ha_alat a ! i) @ t\<rparr>] = ha_alat a"
    using True by simp
  with True assms(1) show ?thesis by (simp add: tulis_argumen_def)
next
  case False
  obtain s b where x: "dibaca s0 (pn_keluar p) = (s, b)"
    and al: "alat_padu (pn_alat p) (pn_berikut p) (ha_alat a) (peta_alat s) (ha_alat b)"
    by (rule padu_pecah [OF assms(1)])
  let ?m = "al_blok (pn_alat p ! i)"
  have "tool_index_for ?m s = (int i, s)"
    using al assms(2) by (auto simp: alat_padu_def peta_alat_def tool_index_for_def)
  then have "padu s0 s1 (kirim_abai sampai (KDelta ?m (DArgumen t)) (p\<lparr>pn_konten := pn_konten p + int (length t)\<rparr>))
    (a\<lparr>ha_alat := (ha_alat a)[i := (ha_alat a ! i)\<lparr>tc_arguments := tc_arguments (ha_alat a ! i) @ t\<rparr>]\<rparr>)"
    using baca_argumen [OF False, where i = ?m and x = "(s, b)"] alat_padu_tumbuh [OF al assms(2), of t]
    by (intro padu_tulis [OF assms(1) _ _ x]) (simp_all add: serupa_def lanjut_def)
  with False show ?thesis by (simp add: tulis_argumen_def kirim_sampai)
qed

lemma padu_alat_baru:
  assumes "padu s0 s1 p a" "posisi_alat tc (ha_alat a) = None"
  shows "padu s0 s1 (kirim_abai sampai (KBlok (pn_berikut p) (BAlat (tc_id tc) (tc_name tc)))
      (p\<lparr>pn_berikut := pn_berikut p + 1, pn_alat := pn_alat p @ [\<lparr>al_index = tc_index tc, al_id = tc_id tc, al_blok = pn_berikut p\<rparr>], pn_index := i\<rparr>))
    (a\<lparr>ha_alat := ha_alat a @ [tc\<lparr>tc_arguments := []\<rparr>]\<rparr>)"
proof -
  let ?tc = "tc\<lparr>tc_arguments := []\<rparr>" and ?n = "pn_berikut p" and ?as = "ha_alat a"
  obtain s b where x: "dibaca s0 (pn_keluar p) = (s, b)" and al: "alat_padu (pn_alat p) ?n ?as (peta_alat s) (ha_alat b)"
    by (rule padu_pecah [OF assms(1)])
  have "map_of (aa_tool_index s) ?n = None" "aa_next_tool s = int (length ?as)"
    using al by (simp_all add: alat_padu_def peta_alat_def)
  then have t: "fst (tool_index_for ?n s) = int (length ?as)"
    "peta_alat (snd (tool_index_for ?n s)) = ((?n, int (length ?as)) # fst (peta_alat s), int (length ?as) + 1)"
    by (simp_all add: tool_index_for_def peta_alat_def)
  have "posisi_alat ?tc ?as = None" using assms(2) by (simp add: posisi_alat_def split: if_splits)
  from alat_padu_baru [OF al _ refl this] t show ?thesis
    using baca_alat [where i = ?n and k = "tc_id tc" and n = "tc_name tc" and x = "(s, b)"]
    by (intro padu_tulis [OF assms(1) _ _ x]) (simp_all add: serupa_def lanjut_def)
qed

lemma padu_alat:
  assumes "padu s0 s1 p a"
  shows "padu s0 s1 (tulis_alat sampai tc p) (a\<lparr>ha_alat := rangkai_alat (ha_alat a) tc\<rparr>)"
proof (cases "posisi_alat tc (ha_alat a)")
  case (Some i)
  obtain s b where "dibaca s0 (pn_keluar p) = (s, b)" "alat_padu (pn_alat p) (pn_berikut p) (ha_alat a) (peta_alat s) (ha_alat b)"
    by (rule padu_pecah [OF assms])
  note al = this(2)
  from cari_posisi [OF al, of tc] Some padu_argumen [OF assms posisi_batas [OF Some], of "tc_arguments tc"]
  show ?thesis by (simp add: tulis_alat_def rangkai_ada [OF Some])
next
  case None
  let ?p1 = "tutup_blok sampai p" and ?as = "ha_alat a"
  let ?b = "\<lparr>al_index = tc_index tc, al_id = tc_id tc, al_blok = pn_berikut ?p1\<rparr>"
  let ?p2 = "?p1\<lparr>pn_berikut := pn_berikut ?p1 + 1, pn_alat := pn_alat ?p1 @ [?b], pn_index := pn_berikut ?p1\<rparr>"
  let ?p3 = "kirim_abai sampai (KBlok (pn_berikut ?p1) (BAlat (tc_id tc) (tc_name tc))) ?p2"
  let ?p4 = "?p3\<lparr>pn_terbuka := True, pn_tipe := ''tool_use''\<rparr>"
  let ?a3 = "a\<lparr>ha_alat := ?as @ [tc\<lparr>tc_arguments := []\<rparr>]\<rparr>"
  have p3: "padu s0 s1 ?p3 ?a3" by (rule padu_alat_baru [OF padu_tutup [OF assms] None])
  then have p4: "padu s0 s1 ?p4 ?a3" by (simp add: padu_upd)
  obtain s b where "dibaca s0 (pn_keluar p) = (s, b)" and al: "alat_padu (pn_alat p) (pn_berikut p) ?as (peta_alat s) (ha_alat b)"
    by (rule padu_pecah [OF assms])
  obtain s' b' where "dibaca s0 (pn_keluar ?p1) = (s', b')" "alat_padu (pn_alat ?p1) (pn_berikut ?p1) ?as (peta_alat s') (ha_alat b')"
    by (rule padu_pecah [OF padu_tutup [OF assms]])
  then have l: "length (pn_alat ?p1) = length ?as" by (simp add: alat_padu_def)
  from padu_argumen [OF p4, of "length ?as" "tc_arguments tc"] l
  have "padu s0 s1 (tulis_argumen sampai (pn_berikut ?p1) (tc_arguments tc) ?p4) (a\<lparr>ha_alat := ?as @ [tc]\<rparr>)"
    by (simp add: nth_append)
  with p3 have "padu s0 s1 (lalu_bila ?p3 (\<lambda>p3. tulis_argumen sampai (pn_berikut ?p1) (tc_arguments tc) (p3\<lparr>pn_terbuka := True, pn_tipe := ''tool_use''\<rparr>)))
    (a\<lparr>ha_alat := ?as @ [tc]\<rparr>)"
    by (rule padu_lalu)
  with cari_posisi [OF al, of tc] None show ?thesis
    by (simp add: tulis_alat_def Let_def kirim_sampai rangkai_alat_def)
qed

subsection \<open>Events\<close>

lemma padu_urut: "padu s0 s1 p a \<Longrightarrow> (\<And>q. padu s0 s1 q a \<Longrightarrow> padu s0 s1 (f q) a') \<Longrightarrow> padu s0 s1 (lalu_bila p f) a'"
  by (rule padu_lalu)

lemma padu_semua:
  assumes "\<And>x p a. padu s0 s1 p a \<Longrightarrow> padu s0 s1 (f x p) (g a x)"
  shows "padu s0 s1 p a \<Longrightarrow> padu s0 s1 (tulis_semua f xs p) (foldl g a xs)"
proof (induction xs arbitrary: p a)
  case (Cons x xs)
  have "padu s0 s1 (lalu_bila p (f x)) (g a x)" using Cons.prems by (rule padu_urut) (rule assms)
  from Cons.IH [OF this] show ?case by (simp add: tulis_semua_def)
qed (simp add: tulis_semua_def)

definition rangkai_henti :: "stream_event \<Rightarrow> hasil_aliran \<Rightarrow> hasil_aliran" where
  "rangkai_henti e h = h\<lparr>ha_henti := (if se_finish e = [] then ha_henti h else se_finish e),
     ha_urutan := (if se_stop_sequence e = [] then ha_urutan h else se_stop_sequence e),
     ha_usage := (case se_usage e of None \<Rightarrow> ha_usage h | Some u \<Rightarrow> Some u)\<rparr>"

lemma padu_catat: "padu s0 s1 p a \<Longrightarrow> padu s0 s1 (catat_event e p) (rangkai_henti e a)"
  by (simp add: padu_def catat_event_def rangkai_henti_def split: prod.splits)

lemma rangkai_pecah:
  "rangkai_event e a =
     (let a1 = rangkai_pikir (se_reasoning e) (se_signature e) (rangkai_henti e a);
          a2 = a1\<lparr>ha_teks := ha_teks a1 @ teks_event e\<rparr>;
          a3 = foldl (\<lambda>a b. a\<lparr>ha_gambar := ha_gambar a @ gambar_bagian b\<rparr>) a2 (se_parts e)
      in foldl (\<lambda>a tc. a\<lparr>ha_alat := rangkai_alat (ha_alat a) tc\<rparr>) a3 (se_tool_calls e))"
proof -
  have g: "foldl (\<lambda>a b. a\<lparr>ha_gambar := ha_gambar a @ gambar_bagian b\<rparr>) h bs = h\<lparr>ha_gambar := ha_gambar h @ concat (map gambar_bagian bs)\<rparr>" for h bs
    by (induction bs arbitrary: h) simp_all
  have t: "foldl (\<lambda>a tc. a\<lparr>ha_alat := rangkai_alat (ha_alat a) tc\<rparr>) h ts = h\<lparr>ha_alat := foldl rangkai_alat (ha_alat h) ts\<rparr>" for h ts
    by (induction ts arbitrary: h) simp_all
  show ?thesis by (simp add: rangkai_event_def rangkai_pikir_def rangkai_henti_def g t)
qed

lemma padu_event:
  assumes "padu s0 s1 p a"
  shows "padu s0 s1 (tulis_event sampai e p) (rangkai_event e a)"
  unfolding tulis_event_def rangkai_pecah Let_def
  by (rule padu_urut [OF padu_urut [OF padu_urut [OF padu_pikir [OF padu_catat [OF assms]]]]])
    (rule padu_teks padu_semua padu_bagian padu_alat | assumption)+

section \<open>The start and the end\<close>

definition sse :: "keluaran \<Rightarrow> sse_event" where
  "sse k = \<lparr>sv_event = nama_keluaran k, sv_data = sumber (j_keluaran k)\<rparr>"

lemma padu_awal:
  assumes "aa_tool_index s0 = []" "aa_next_tool s0 = 0"
  shows "padu s0 (fst (dibaca s0 [KMulai i m n])) (kirim_wajib sampai (KMulai i m n) penulis_awal) hasil_awal"
proof -
  have d: "dibaca s0 [KMulai i m n] = langkah_baca (KMulai i m n) (s0, hasil_awal)" by (simp add: dibaca_def)
  obtain s1 b where x: "langkah_baca (KMulai i m n) (s0, hasil_awal) = (s1, b)" by (cases "langkah_baca (KMulai i m n) (s0, hasil_awal)")
  have "snd (langkah_baca (KMulai i m n) (s0, hasil_awal)) = hasil_awal"
    "peta_alat (fst (langkah_baca (KMulai i m n) (s0, hasil_awal))) = ([], 0)"
    using assms by (simp_all add: baca_defs message_start_def merge_usage_def peta_alat_def)
  with x d have "dibaca s0 [KMulai i m n] = (s1, hasil_awal)" "peta_alat s1 = ([], 0)" by simp_all
  then show ?thesis
    by (simp add: padu_def kirim_sampai penulis_awal_def lanjut_def alat_padu_def kirim_abai_def) (simp add: hasil_awal_def)
qed

lemma baca_tutupan:
  assumes "aa_usage_seen (merge_usage (usage_dari u) s)"
  shows "langkah_baca KHenti (langkah_baca (KPesan r q u) (s, b)) =
    (case langkah_baca KHenti (langkah_baca (KPesan r q u) (s, b)) of (s', _) \<Rightarrow>
      (s', b\<lparr>ha_henti := (if r = [] then ha_henti b else map_stop_reason r), ha_urutan := (if q = [] then ha_urutan b else q),
        ha_usage := Some (to_canonical_usage (gabung_usage (aa_usage s) (usage_dari u)))\<rparr>))"
  using assms
  by (auto simp: baca_defs message_delta_def message_stop_def merge_usage_def rangkai_event_def buat_event_def event_kosong_def teks_event_def
      delta_nol_def map_stop_reason_def finish_stop_def finish_length_def finish_tool_calls_def finish_content_filter_def
      finish_stop_sequence_def finish_pause_turn_def split: prod.splits)

subsection \<open>Usage\<close>

text \<open>The prompt was not served from the cache alone, something was written, and the sums do not overflow.\<close>

definition usage_sehat :: "usage \<Rightarrow> bool" where
  "usage_sehat u \<longleftrightarrow> 0 \<le> us_cached_input u \<and> 0 \<le> us_cache_creation u \<and> 0 \<le> us_cache_creation_1h u \<and> 0 \<le> us_cache_creation_5m u \<and>
     us_cached_input u + us_cache_creation u < us_input u \<and> 0 < us_output u \<and> us_input u + us_output u \<le> max_i64"

definition usage_lewat :: "usage \<Rightarrow> usage" where
  "usage_lewat u = u\<lparr>us_reasoning := 0, us_total := us_input u + us_output u\<rparr>"

lemma usage_kembali:
  assumes "usage_sehat u"
  shows "to_canonical_usage (gabung_usage (usage_nol\<lparr>uu_input := m\<rparr>) (usage_dari (usage_anthropic_dari_kanonik u))) = usage_lewat u"
    "ada_usage (usage_dari (usage_anthropic_dari_kanonik u))"
proof -
  let ?m = "us_input u - us_cached_input u - us_cache_creation u"
  from assms have u: "0 \<le> us_cached_input u" "0 \<le> us_cache_creation u" "0 \<le> us_cache_creation_1h u" "0 \<le> us_cache_creation_5m u"
    "0 < ?m" "0 < us_output u" "us_input u + us_output u \<le> max_i64" by (simp_all add: usage_sehat_def)
  then have w: "wrap64 ?m = ?m" by (intro wrap64_id) (simp add: in_i64_def)
  have t: "tambah_token a b = a + b" if "0 \<le> a" "0 \<le> b" "a + b \<le> max_i64" for a b
    using that by (auto simp: tambah_token_def in_i64_def intro!: wrap64_id)
  have "tambah_token ?m (us_cached_input u) = us_input u - us_cache_creation u"
    "tambah_token (us_input u - us_cache_creation u) (us_cache_creation u) = us_input u"
    "tambah_token (us_input u) (us_output u) = us_input u + us_output u"
    using u by (simp_all add: t)
  moreover have "terbaru 0 b = b" if "0 \<le> b" for b using that by (simp add: terbaru_def)
  moreover have "terbaru m ?m = ?m" using u by (simp add: terbaru_def)
  ultimately have "gabung_usage (usage_nol\<lparr>uu_input := m\<rparr>) (usage_dari (usage_anthropic_dari_kanonik u)) =
      \<lparr>uu_input = ?m, uu_output = us_output u, uu_cache_read = us_cached_input u, uu_cache_creation = us_cache_creation u,
        uu_rincian = au_rincian (usage_anthropic_dari_kanonik u)\<rparr>"
    and c: "tambah_token (tambah_token ?m (us_cached_input u)) (us_cache_creation u) = us_input u"
      "tambah_token (us_input u) (us_output u) = us_input u + us_output u"
    using u w by (simp_all add: gabung_usage_def usage_nol_def usage_dari_def usage_anthropic_dari_kanonik_def gabung_rincian_def Let_def)
  moreover have "(case au_rincian (usage_anthropic_dari_kanonik u) of None \<Rightarrow> 0 | Some r \<Rightarrow> rc_1h r) = us_cache_creation_1h u"
    "(case au_rincian (usage_anthropic_dari_kanonik u) of None \<Rightarrow> 0 | Some r \<Rightarrow> rc_5m r) = us_cache_creation_5m u"
    using u by (simp_all add: usage_anthropic_dari_kanonik_def Let_def)
  ultimately show "to_canonical_usage (gabung_usage (usage_nol\<lparr>uu_input := m\<rparr>) (usage_dari (usage_anthropic_dari_kanonik u))) = usage_lewat u"
    by (simp add: to_canonical_usage_def usage_lewat_def Let_def)
  show "ada_usage (usage_dari (usage_anthropic_dari_kanonik u))"
    using u w by (simp add: ada_usage_def usage_dari_def usage_anthropic_dari_kanonik_def Let_def)
qed

subsection \<open>The consumer\<close>

lemma baca_semua_lanjut:
  assumes "\<not> aa_done s"
  shows "baca_semua urai a (ev # evs) s =
    (case handle urai ev s of
       (Lewati, s') \<Rightarrow> if aa_done s' then baca_semua urai a (ev # evs) s else baca_semua urai a evs s'
     | (Terbit e, s') \<Rightarrow> (case baca_semua urai a evs (s'\<lparr>aa_streamed := aa_streamed s' + panjang_raw e\<rparr>) of (es, r) \<Rightarrow> (e # es, r))
     | (Gagalkan e, s') \<Rightarrow> ([], Some e)
     | (Tamat, s') \<Rightarrow> ([], None))"
proof -
  obtain t s' where h: "handle urai ev s = (t, s')" by (cases "handle urai ev s")
  show ?thesis
  proof (cases t)
    case Lewati
    show ?thesis
    proof (cases "aa_done s'")
      case False
      with Lewati h assms have "recv urai a (ev # evs) s = recv urai a evs s'" by (simp add: recv_def)
      then have "baca_semua urai a (ev # evs) s = baca_semua urai a evs s'" by (simp add: baca_semua.simps)
      with Lewati h False show ?thesis by simp
    qed (simp add: h Lewati)
  qed (simp_all add: h assms recv_def baca_semua.simps [of urai a "ev # evs" s])
qed

lemma handle_sse:
  assumes "muat k" "urai (sumber (j_keluaran k)) = Some (j_keluaran k)"
  shows "handle urai (sse k) s = tangani (nama_keluaran k) (amplop_dari k) s"
proof -
  have "sumber (j_keluaran k) \<noteq> []" by (simp add: j_keluaran_def j_objek_def tulis_objek_def split: keluaran.split)
  with assms show ?thesis by (simp add: handle_def sse_def baca_keluaran)
qed

lemma tangani_lanjut:
  assumes "lanjut k"
  shows "case tangani (nama_keluaran k) (amplop_dari k) s of
    (Lewati, s') \<Rightarrow> aa_done s' = aa_done s | (Terbit e, s') \<Rightarrow> aa_done s' = aa_done s | _ \<Rightarrow> False"
proof -
  have d: "aa_done x2 = aa_done s" if "tool_index_for i s = (x1, x2)" for i x1 x2
    using that by (auto simp: tool_index_for_def split: option.splits)
  note defs = tangani_def amplop_dari_def amplop_nol_def nama_keluaran_def Let_def
  show ?thesis
  proof (cases k)
    case (KBlok i b)
    then show ?thesis using d
      by (cases b) (simp_all add: defs block_start_def blok_dari_def split: option.split prod.split)
  next
    case (KDelta i x)
    then show ?thesis using d
      by (cases x) (simp_all add: defs block_delta_def delta_dari_def delta_nol_def split: prod.split)
  qed (use assms in \<open>simp_all add: lanjut_def defs message_start_def message_delta_def merge_usage_def\<close>)
qed

definition terbaca :: "(string \<Rightarrow> json option) \<Rightarrow> keluaran \<Rightarrow> bool" where
  "terbaca urai k \<longleftrightarrow> muat k \<and> urai (sumber (j_keluaran k)) = Some (j_keluaran k)"

lemma baca_henti:
  assumes "terbaca urai KHenti" "\<not> aa_done s"
  shows "case baca_semua urai a [sse KHenti] s of
    (es, r) \<Rightarrow> r = None \<and> foldl (\<lambda>h e. rangkai_event e h) h es = snd (langkah_baca KHenti (s, h))"
proof -
  have "handle urai (sse KHenti) s = message_stop s"
    using assms(1) by (simp add: terbaca_def handle_sse tangani_def amplop_dari_def amplop_nol_def nama_keluaran_def)
  moreover have "baca_semua urai a [] t = ([], None)" if "aa_done t" for t
    using that by (simp add: baca_semua.simps recv_def)
  ultimately show ?thesis using assms(2)
    by (simp add: baca_semua_lanjut message_stop_def langkah_baca_def tangani_def amplop_dari_def amplop_nol_def nama_keluaran_def Let_def)
qed

lemma baca_rangkai:
  assumes "list_all lanjut ks" "list_all (terbaca urai) (ks @ [KHenti])" "\<not> aa_done s"
  shows "case baca_semua urai a (map sse (ks @ [KHenti])) s of
    (es, r) \<Rightarrow> r = None \<and> foldl (\<lambda>h e. rangkai_event e h) h es = snd (foldl (\<lambda>x k. langkah_baca k x) (s, h) (ks @ [KHenti]))"
  using assms
proof (induction ks arbitrary: s h)
  case (Cons k ks)
  then have k: "lanjut k" "terbaca urai k" "\<not> aa_done s" and ks: "list_all lanjut ks" "list_all (terbaca urai) (ks @ [KHenti])" by simp_all
  obtain t s' where t: "tangani (nama_keluaran k) (amplop_dari k) s = (t, s')" by (cases "tangani (nama_keluaran k) (amplop_dari k) s")
  have h: "handle urai (sse k) s = (t, s')" using k(2) t by (simp add: terbaca_def handle_sse)
  note l = tangani_lanjut [OF k(1), of s, unfolded t]
  show ?case
  proof (cases t)
    case Lewati
    with l k(3) have d: "\<not> aa_done s'" by simp
    show ?thesis using Cons.IH [OF ks d, of h] Lewati t h d k(3) by (simp add: baca_semua_lanjut langkah_baca_def)
  next
    case (Terbit e)
    let ?s = "s'\<lparr>aa_streamed := aa_streamed s' + panjang_raw e\<rparr>"
    from Terbit l k(3) have d: "\<not> aa_done ?s" by simp
    show ?thesis using Cons.IH [OF ks d, of "rangkai_event e h"] Terbit t h k(3)
      by (simp add: baca_semua_lanjut langkah_baca_def split: prod.splits)
  qed (use l in simp_all)
qed (use baca_henti in simp)

section \<open>The message on the other side\<close>

definition hasil_lewat :: "usage \<Rightarrow> hasil_aliran \<Rightarrow> hasil_aliran" where
  "hasil_lewat u h =
     h\<lparr>ha_gambar := concat (map gambar_lewat (ha_gambar h)),
       ha_alat := map (\<lambda>i. alat_lewat i (ha_alat h ! i)) [0..<length (ha_alat h)],
       ha_henti := (if finish_dikenal (ha_henti h) then ha_henti h else finish_stop),
       ha_usage := Some (usage_lewat u)\<rparr>"

lemma henti_kembali:
  "map_stop_reason (if f = [] then ''end_turn'' else stop_reason_untuk f) = (if finish_dikenal f then f else finish_stop)"
  "stop_reason_untuk f \<noteq> []"
proof -
  show "stop_reason_untuk f \<noteq> []" by (simp add: stop_reason_untuk_def)
  show "map_stop_reason (if f = [] then ''end_turn'' else stop_reason_untuk f) = (if finish_dikenal f then f else finish_stop)"
    by (auto simp: map_stop_reason_def stop_reason_untuk_def finish_dikenal_def finish_stop_def finish_length_def finish_tool_calls_def
        finish_content_filter_def finish_stop_sequence_def finish_pause_turn_def)
qed

lemma galat_tutup: "pn_galat (finalisasi req p) = pn_galat p" "pn_galat (tulis_galat W e p) = Some e"
  by (simp_all add: finalisasi_def tulis_galat_def)

lemma tutup_utuh:
  assumes "pn_galat (tutup_aliran sampai req p) = None"
  shows "pn_keluar (tutup_aliran sampai req p) = pn_keluar (tutup_blok sampai p) @
    [KPesan (pn_stop (tutup_blok sampai p)) (pn_stop_seq (tutup_blok sampai p)) (usage_anthropic_dari_kanonik (pn_usage (tutup_aliran sampai req p))), KHenti]"
proof (cases "pn_konten p = 0 \<and> pn_berikut p = 0 \<and> pn_stop p \<noteq> ''refusal''")
  case True
  with assms show ?thesis by (simp add: tutup_aliran_def galat_tutup)
next
  case False
  then have "tutup_aliran sampai req p = (let p1 = finalisasi req (tutup_blok sampai p)
    in kirim_abai sampai KHenti (kirim_abai sampai (KPesan (pn_stop p1) (pn_stop_seq p1) (usage_anthropic_dari_kanonik (pn_usage p1))) p1))"
    unfolding tutup_aliran_def by (rule if_not_P)
  then show ?thesis by (simp add: Let_def finalisasi_def)
qed

lemma padu_akhir:
  assumes p: "padu s0 s1 p a" and u: "usage_sehat u" and s1: "aa_usage s1 = usage_nol\<lparr>uu_input := m\<rparr>"
    and s0: "\<not> aa_done s0"
    and t: "list_all (terbaca urai) (pn_keluar p @ [KPesan (pn_stop p) (pn_stop_seq p) (usage_anthropic_dari_kanonik u), KHenti])"
  shows "case baca_semua urai akhir (map sse (pn_keluar p @ [KPesan (pn_stop p) (pn_stop_seq p) (usage_anthropic_dari_kanonik u), KHenti])) s0 of
    (es, r) \<Rightarrow> r = None \<and> rangkai es = hasil_lewat u a"
proof -
  let ?U = "usage_anthropic_dari_kanonik u" and ?ks = "pn_keluar p @ [KPesan (pn_stop p) (pn_stop_seq p) (usage_anthropic_dari_kanonik u)]"
  obtain s b where x: "dibaca s0 (pn_keluar p) = (s, b)" by (cases "dibaca s0 (pn_keluar p)")
  with p have i: "list_all lanjut (pn_keluar p)" "tetap s1 s" "ha_teks b = ha_teks a" "ha_pikir b = ha_pikir a" "ha_ttd b = ha_ttd a"
    "ha_gambar b = concat (map gambar_lewat (ha_gambar a))" "ha_urutan b = []"
    "pn_stop p = (if ha_henti a = [] then ''end_turn'' else stop_reason_untuk (ha_henti a))" "pn_stop_seq p = ha_urutan a"
    "alat_padu (pn_alat p) (pn_berikut p) (ha_alat a) (peta_alat s) (ha_alat b)"
    by (simp_all add: padu_def)
  have al: "ha_alat b = map (\<lambda>i. alat_lewat i (ha_alat a ! i)) [0..<length (ha_alat a)]"
    using i(10) by (intro nth_equalityI) (simp_all add: alat_padu_def)
  have us: "aa_usage s = usage_nol\<lparr>uu_input := m\<rparr>" using i(2) s1 by (simp add: tetap_def)
  have "aa_usage_seen (merge_usage (usage_dari ?U) s)" using usage_kembali(2) [OF u] by (simp add: merge_usage_def)
  from baca_tutupan [OF this, of "pn_stop p" "pn_stop_seq p" b]
  have "snd (langkah_baca KHenti (langkah_baca (KPesan (pn_stop p) (pn_stop_seq p) ?U) (s, b))) =
      b\<lparr>ha_henti := (if pn_stop p = [] then ha_henti b else map_stop_reason (pn_stop p)),
        ha_urutan := (if pn_stop_seq p = [] then ha_urutan b else pn_stop_seq p),
        ha_usage := Some (to_canonical_usage (gabung_usage (aa_usage s) (usage_dari ?U)))\<rparr>"
    by (metis (no_types, lifting) case_prod_beta snd_conv)
  also have "\<dots> = hasil_lewat u a"
    using i al us usage_kembali(1) [OF u, of m] henti_kembali(1) [of "ha_henti a"] henti_kembali(2) [of "ha_henti a"]
    by (simp add: hasil_lewat_def split: if_splits)
  finally have e: "snd (foldl (\<lambda>x k. langkah_baca k x) (s0, hasil_awal) (?ks @ [KHenti])) = hasil_lewat u a"
    using x by (simp add: dibaca_def)
  have "list_all lanjut ?ks" using i(1) by (simp add: lanjut_def)
  from baca_rangkai [OF this _ s0, where urai = urai and a = akhir and h = hasil_awal] t e show ?thesis
    by (simp add: rangkai_def)
qed

text \<open>C29.
  A stream that the Messages surface writes to its end, read by the Anthropic adapter of another gateway, adds
  up to the message of the stream that came in: the same text, reasoning and signature, the same tools with
  their identifiers, names and whole arguments, the same stop sequence, the same reason to stop (one that the
  dialect does not know becomes a plain stop), the usage that was booked, less the reasoning tokens, which the
  dialect does not carry, and every image, up to the parameters of its data URI.  Hypotheses: every write reaches
  the client; the upstream ended without an error and produced something; the parser reads back what was
  serialized, whose numbers fit 64 bits; and the booked prompt did not come from the cache alone.
\<close>

theorem messages_relay:
  assumes "out = anthropic_chat_mengalir sampai req msg_id model evs None" "pn_galat out = None"
    and "list_all (terbaca urai) (pn_keluar out)" "usage_sehat (pn_usage out)"
  shows "case baca_semua urai akhir (map sse (pn_keluar out)) (aliran_awal provider retry created nama) of
    (es, r) \<Rightarrow> r = None \<and> rangkai es = hasil_lewat (pn_usage out) (rangkai evs)"
proof -
  let ?m = "KMulai msg_id model (te_input (estimate_tokens req))" and ?s0 = "aliran_awal provider retry created nama"
  let ?s1 = "fst (dibaca ?s0 [?m])" and ?p = "tulis_semua (tulis_event sampai) evs (kirim_wajib sampai ?m penulis_awal)"
  have "padu ?s0 ?s1 (kirim_wajib sampai ?m penulis_awal) hasil_awal" by (rule padu_awal) (simp_all add: aliran_awal_def)
  then have p: "padu ?s0 ?s1 ?p (rangkai evs)" unfolding rangkai_def
    by (rule padu_semua [where g = "\<lambda>h e. rangkai_event e h", rotated]) (rule padu_event)
  have s: "aa_usage ?s1 = usage_nol\<lparr>uu_input := terbaru 0 (te_input (estimate_tokens req))\<rparr>" "\<not> aa_done ?s0"
    by (simp_all add: dibaca_def baca_defs message_start_def merge_usage_def gabung_usage_def gabung_rincian_def usage_nol_def terbaru_def aliran_awal_def)
  have out: "out = tutup_aliran sampai req ?p" using assms(1) padu_berhenti [OF p] by (simp add: anthropic_chat_mengalir_def Let_def)
  from tutup_utuh [of req ?p] assms(2-4) padu_akhir [OF padu_tutup [OF p] _ s, of "pn_usage out"] show ?thesis by (simp add: out)
qed

text \<open>An answer with reasoning, text, an image and a tool whose arguments come in two pieces.\<close>

definition contoh_kiriman :: "stream_event list" where
  "contoh_kiriman =
     [event_kosong\<lparr>se_reasoning := ''r''\<rparr>, event_kosong\<lparr>se_signature := ''s''\<rparr>, event_kosong\<lparr>se_delta := ''hi''\<rparr>,
      event_kosong\<lparr>se_parts := [bagian_gambar ''data:image/png;x=1;base64,QQ'']\<rparr>,
      potong_alat 4 ''t1'' ''f'' ''{'', potong_alat 4 [] [] ''}'',
      event_kosong\<lparr>se_finish := ''tool_calls'', se_usage := Some (pemakaian_nol\<lparr>us_input := 9, us_cached_input := 4, us_output := 3, us_total := 12\<rparr>)\<rparr>]"

definition contoh_tulisan :: "keluaran list" where
  "contoh_tulisan = pn_keluar (anthropic_chat_mengalir sampai contoh_permintaan_kosong ''m1'' ''m'' contoh_kiriman None)"

definition urai_contoh :: "string \<Rightarrow> json option" where
  "urai_contoh = map_of (map (\<lambda>k. (sumber (j_keluaran k), j_keluaran k)) contoh_tulisan)"

lemma terbaca_contoh:
  assumes "list_all muat ks" "distinct (map (\<lambda>k. sumber (j_keluaran k)) ks)"
  shows "list_all (terbaca (map_of (map (\<lambda>k. (sumber (j_keluaran k), j_keluaran k)) ks))) ks"
  using assms by (auto simp: list_all_iff terbaca_def comp_def intro!: map_of_is_SomeI)

lemma messages_relay_witness:
  "case baca_semua urai_contoh AkhirBody (map sse contoh_tulisan) (aliran_awal ''p'' 0 0 ''m'') of (es, r) \<Rightarrow>
     r = None \<and> rangkai es =
       \<lparr>ha_teks = ''hi'', ha_pikir = ''r'', ha_ttd = ''s'', ha_gambar = [''data:image/png;base64,QQ''],
        ha_alat = [\<lparr>tc_index = 0, tc_id = ''t1'', tc_type = ''function'', tc_name = ''f'', tc_arguments = ''{}'', tc_thought_signature = []\<rparr>],
        ha_henti = ''tool_calls'', ha_urutan = [],
        ha_usage = Some (pemakaian_nol\<lparr>us_input := 9, us_cached_input := 4, us_output := 3, us_total := 12\<rparr>)\<rparr>"
proof -
  let ?out = "anthropic_chat_mengalir sampai contoh_permintaan_kosong ''m1'' ''m'' contoh_kiriman None"
  have k: "pn_keluar ?out = contoh_tulisan" by (simp add: contoh_tulisan_def)
  have "pn_galat ?out = None" by code_simp
  moreover have "list_all (terbaca urai_contoh) contoh_tulisan" unfolding urai_contoh_def by (rule terbaca_contoh; code_simp)
  moreover have u: "pn_usage ?out = pemakaian_nol\<lparr>us_input := 9, us_cached_input := 4, us_output := 3, us_total := 12\<rparr>" by code_simp
  moreover have "usage_sehat (pemakaian_nol\<lparr>us_input := 9, us_cached_input := 4, us_output := 3, us_total := 12\<rparr>)" by code_simp
  moreover have "hasil_lewat (pemakaian_nol\<lparr>us_input := 9, us_cached_input := 4, us_output := 3, us_total := 12\<rparr>) (rangkai contoh_kiriman) =
       \<lparr>ha_teks = ''hi'', ha_pikir = ''r'', ha_ttd = ''s'', ha_gambar = [''data:image/png;base64,QQ''],
        ha_alat = [\<lparr>tc_index = 0, tc_id = ''t1'', tc_type = ''function'', tc_name = ''f'', tc_arguments = ''{}'', tc_thought_signature = []\<rparr>],
        ha_henti = ''tool_calls'', ha_urutan = [],
        ha_usage = Some (pemakaian_nol\<lparr>us_input := 9, us_cached_input := 4, us_output := 3, us_total := 12\<rparr>)\<rparr>" by code_simp
  ultimately show ?thesis
    using messages_relay [of ?out contoh_permintaan_kosong "''m1''" "''m''" contoh_kiriman urai_contoh AkhirBody "''p''" 0 0 "''m''"]
    by (simp add: k)
qed

text \<open>
  Without the last hypothesis the sums part: the closing usage does not replace the estimate of the message
  start when every token of the prompt came from the cache, because the reader keeps what is not exceeded by
  a positive number.
\<close>

lemma taksiran_bertahan:
  assumes "0 < m" "0 < c" "0 < n" "m + c + n \<le> max_i64"
    and "u = pemakaian_nol\<lparr>us_input := c, us_cached_input := c, us_output := n\<rparr>"
  shows "us_input (to_canonical_usage (gabung_usage (usage_nol\<lparr>uu_input := m\<rparr>) (usage_dari (usage_anthropic_dari_kanonik u)))) = m + c"
proof -
  have "wrap64 0 = 0" by (simp add: wrap64_id in_i64_def)
  then have "gabung_usage (usage_nol\<lparr>uu_input := m\<rparr>) (usage_dari (usage_anthropic_dari_kanonik u)) =
      \<lparr>uu_input = m, uu_output = n, uu_cache_read = c, uu_cache_creation = 0, uu_rincian = None\<rparr>"
    using assms by (simp add: gabung_usage_def usage_nol_def usage_dari_def usage_anthropic_dari_kanonik_def pemakaian_nol_def terbaru_def
        gabung_rincian_def Let_def)
  moreover have "wrap64 (m + c) = m + c" using assms by (intro wrap64_id) (simp add: in_i64_def)
  ultimately show ?thesis using assms by (simp add: to_canonical_usage_def tambah_token_def Let_def)
qed

end
