(* ===== verification/Spec2Isabelle.thy ===== *)
theory Spec2Isabelle
  imports Prelude Money Price_Table Cache_Keys Routing_Rules Selector Route_Engine Redis_Hash Breaker_Scripts
    Breaker_Runs Breaker Limiter Policy_Cache Rate_Policy Budgets Billing Provider_Errors Executor Executor_Runs
    Guarded_Executor Streams Content_Filter State_Logic Request_Guard
    Json Chat_Request Chat_Codec Openai_Wire Request_Gate Gate_Runs Ssrf
    Webhook_Text Webhooks Webhook_Queue Webhook_Runs Anthropic_Wire Anthropic_Stream Messages_Stream Messages_Protocol
    Messages_Relay
begin

text \<open>
  Route-X is a gateway in front of AI providers, one Go binary with PostgreSQL and Redis beside it.  A
  request passes the limits of its key (\<^verbatim>\<open>internal/apikey\<close>, \<^verbatim>\<open>internal/ratelimit\<close>) and the budgets
  (\<^verbatim>\<open>internal/billing\<close>), is given an ordered list of candidates (\<^verbatim>\<open>internal/router\<close>), and is run against
  them by the executor (\<^verbatim>\<open>internal/gateway/executor.go\<close>) under a circuit breaker
  (\<^verbatim>\<open>internal/gateway/breaker.go\<close>); what it used is priced (\<^verbatim>\<open>internal/database/repo/upstream\<close>) and booked.
  This development models that path and proves what makes each part of it correct.

  \<^bold>\<open>Theories and code.\<close>
  \<^item> \<^verbatim>\<open>Prelude\<close>: 64-bit integers with Go's wrap-around (\<^const>\<open>wrap64\<close>, \<^const>\<open>go_div\<close>), durations and instants in
    nanoseconds, stable sorting with a Go comparator (locale \<open>go_cmp\<close>), string functions.
  \<^item> \<^verbatim>\<open>Money\<close> (\<^verbatim>\<open>money.go\<close>, \<^verbatim>\<open>pricing.go\<close>): amounts, their decimal text, the cost of a usage.  \<^verbatim>\<open>Price_Table\<close>
    (\<^verbatim>\<open>pricing.go\<close>): the price history as a list of rows; setting a price against the timeline it means.
  \<^item> \<^verbatim>\<open>Cache_Keys\<close> (\<^verbatim>\<open>cache/keys.go\<close>), \<^verbatim>\<open>Redis_Hash\<close>: Redis keys; the hash commands as a record of
    functions with their contract as a locale, interpreted on an executable store.
  \<^item> \<^verbatim>\<open>Routing_Rules\<close>, \<^verbatim>\<open>Selector\<close>, \<^verbatim>\<open>Route_Engine\<close> (\<^verbatim>\<open>router/rules.go\<close>, \<^verbatim>\<open>strategies.go\<close>, \<^verbatim>\<open>engine.go\<close>):
    matching rules, the six orderings with the state of the round robin, the cached rules.
  \<^item> \<^verbatim>\<open>Breaker_Scripts\<close>, \<^verbatim>\<open>Breaker_Runs\<close>, \<^verbatim>\<open>Breaker\<close> (\<^verbatim>\<open>breaker.go\<close>): the three Lua scripts, their abstract
    specification and all interleavings of their calls, and the instance in front of them with its memory of
    recent answers, its listener and the reset.
  \<^item> \<^verbatim>\<open>Limiter\<close> (\<^verbatim>\<open>apikey/limiter.go\<close>): windows, both scripts, decisions, refunds.  \<^verbatim>\<open>Policy_Cache\<close>,
    \<^verbatim>\<open>Rate_Policy\<close> (\<^verbatim>\<open>ratelimit/ratelimit.go\<close>): the copy of a policy table, the limits and scopes of a request.
  \<^item> \<^verbatim>\<open>Budgets\<close>, \<^verbatim>\<open>Billing\<close> (\<^verbatim>\<open>policy/budgets.go\<close>, \<^verbatim>\<open>billing/billing.go\<close>): the table of budgets and the
    enforcer that reserves estimates against its copy.  \<^verbatim>\<open>Content_Filter\<close>
    (\<^verbatim>\<open>contentfilter/contentfilter.go\<close>, \<^verbatim>\<open>policy/filters.go\<close>): the rules over texts, sizes, models and providers.
  \<^item> \<^verbatim>\<open>Provider_Errors\<close> (\<^verbatim>\<open>providers/errors.go\<close>), \<^verbatim>\<open>Executor\<close>, \<^verbatim>\<open>Executor_Runs\<close>, \<^verbatim>\<open>Streams\<close>,
    \<^verbatim>\<open>Guarded_Executor\<close> (\<^verbatim>\<open>executor.go\<close>): the attempt loop, its history, calls, outcome, slots and delays;
    streams and their wrappers; the executor over the breaker.
  \<^item> \<^verbatim>\<open>State_Logic\<close>, \<^verbatim>\<open>Request_Guard\<close> (\<^verbatim>\<open>guard.go\<close>): triples over the library's state monad; the guard, which
    asks filter, limiter and budgets for one request, with its marks of charged limits and its memo.
  \<^item> \<^verbatim>\<open>Json\<close>, \<^verbatim>\<open>Chat_Request\<close> (\<^verbatim>\<open>providers/providers.go\<close>), \<^verbatim>\<open>Chat_Codec\<close> (\<^verbatim>\<open>gateway/codec.go\<close>), \<^verbatim>\<open>Openai_Wire\<close>
    (\<^verbatim>\<open>providers/openai/chat.go\<close>): JSON values with their source text, the canonical request, its decoder, its
    estimate and screened text, and the body sent to an OpenAI upstream.
  \<^item> \<^verbatim>\<open>Request_Gate\<close>, \<^verbatim>\<open>Gate_Runs\<close> (\<^verbatim>\<open>gateway/http.go\<close>): everything a chat request passes before its first
    upstream call, composed of the parts above, and what holds of its way through them.
  \<^item> \<^verbatim>\<open>Ssrf\<close> (\<^verbatim>\<open>security/ssrf.go\<close>): addresses and prefixes as words, the checks of saved URLs and of the addresses
    sockets connect to.
  \<^item> \<^verbatim>\<open>Webhook_Text\<close>, \<^verbatim>\<open>Webhooks\<close>, \<^verbatim>\<open>Webhook_Queue\<close>, \<^verbatim>\<open>Webhook_Runs\<close> (\<^verbatim>\<open>webhooks/dispatcher.go\<close>,
    \<^verbatim>\<open>webhooks/webhooks.go\<close>, \<^verbatim>\<open>worker/webhook.go\<close>): backoff, masks and signatures; the tables with their constraints and
    every statement on them; several workers as a sequence of events and its invariant; whole rounds of a delivery.
  \<^item> \<^verbatim>\<open>Anthropic_Wire\<close>, \<^verbatim>\<open>Anthropic_Stream\<close> (\<^verbatim>\<open>providers/anthropic\<close>): answers and streams of an Anthropic upstream
    made canonical.  \<^verbatim>\<open>Messages_Stream\<close>, \<^verbatim>\<open>Messages_Protocol\<close> (\<^verbatim>\<open>gateway/anthropic.go\<close>, \<^verbatim>\<open>errors_http.go\<close>): the
    streamed answer of the Messages surface and the protocol it keeps.  \<^verbatim>\<open>Messages_Relay\<close>: this stream read by that
    adapter.

  \<^bold>\<open>How it is modelled.\<close>  A struct is a record, an operation a function that returns the new state, an error
  a value of a sum or option type, a loop a recursion over its list or its remaining attempts.  What lies
  outside the code under \<^verbatim>\<open>src/\<close> is an argument: Redis commands (locales \<open>redis_hash\<close>, \<open>redis_counter\<close>,
  interpreted on executable stores), the clock, random draws, database answers, digests, and for the executor a
  record \<^typ>\<open>'w dunia\<close> of functions over a world.  What the executor needs of its guard is the locale
  \<open>circuit_guard\<close>, interpreted on the breaker's model.  Concurrency is the interleaving of
  operations, each one step, as the code's mutexes and Redis scripts make them; such runs are inductive
  relations (\<^const>\<open>client_run\<close>, \<^const>\<open>slot_run\<close>, \<^const>\<open>aliran_run\<close> and others), and invariants hold by rule
  induction.

  \<^bold>\<open>What is proved.\<close>  Money: cost is accurate within three units and fails only on overflow; amounts survive
  printing.  Prices: no two prices apply at once, and setting one changes the timeline from its start only.
  Routing: an order is a permutation of the candidates able to serve, sorted as its strategy says, and the
  round robin is fair.  Breaker: the scripts refine an abstract breaker, the probe quota holds in all
  interleavings, it always recovers, and refuses only for cause.  Limits: a request is admitted exactly when
  all windows have room, and quotas hold over runs.  Budgets: what is booked against a blocking budget stays
  within it, except one of provider scope, which is never reserved.  Filters: a text is refused exactly when a
  rule in force forbids it, and every stored expression compiles.  Executor: nothing follows a success or a
  partly sent stream; an outcome is a value or an error with its reason; calls come in the order of the
  candidates, each within its own allowance and all within the shared budget, so the loop ends; slots are
  balanced; delays are bounded; an attempt that opens the stream returned reports nothing, that stream is
  reported at most once, and it loses no event.
  Guard: the limits that the policies set for a provider are charged once per request, and marks of model limits
  are given back at most once each.  Codec: what is accepted is well formed, and the body sent upstream decodes
  to the same request, empty text parts apart.
  Gate: a refusal moves no counter while Redis answers and the policies stand still, and its code is exactly
  that of its cause; a plan holds only candidates the key may use; a forbidden word in the screened text is
  refused (some fields are sent unscreened).  SSRF guard: no IPv6 disguise of a refused IPv4 address is accepted; an
  address with a zone, however, escapes the reserved ranges.
  Webhooks: no delivery has two holders while leases are kept, requests are bounded by retries and losses, a
  delivery settles as the retry schema says unless its answer cannot be stored, and a signature binds its
  delivery for timestamps without a dot.  Messages: the events written follow the protocol of the API wherever
  the connection breaks, and the adapter reads from them the message that went in.

  \<^bold>\<open>Where the code falls short.\<close>  Defects that limit a property are proved as lemmas beside it: a stream that opens
  after its watchdog fired is reported twice (\<open>Streams.late_opening_reports_success\<close>), a model check that passed on a failed
  script is refunded (\<open>Request_Guard.failed_script_refunds\<close>), fields are sent unscreened
  (\<open>Chat_Request.screening_ignores\<close>), zones escape the ranges (\<open>Ssrf.zone_bypass\<close>), a dotted timestamp confuses the
  signature (\<open>Webhook_Text.dotted_timestamp_accepted\<close>), and interleaved tool fragments break the protocol
  (\<open>Messages_Protocol.fragmen_berselang\<close>).

  \<^bold>\<open>Bounds and idealisations.\<close>  No fuel is used: the attempt loop recurs on the attempts left, the plan on its
  candidates, so every modelled operation is total.  Floating point is exact (rationals for the token bucket,
  reals for the keys of the weighted order).  Integers are mathematical and wrapped with \<^const>\<open>wrap64\<close> where the
  code's range can matter; elsewhere values stay in the ranges of their database columns, so nothing wraps.
  JSON objects with a name given twice follow \<^verbatim>\<open>encoding/json\<close> but for the merging of nested objects; names are
  ordered by the collation of the database, a parameter.  An operation reads the clock once unless its model threads a world.  A SQL table is the list of its rows in
  insertion order; only constraints that decide a result are modelled.  Blank space is ASCII blank space, the
  operator's zone a fixed offset from UTC.  A timer has fired when its time is reached before the call it
  guards returns.

  \<^bold>\<open>Not modelled.\<close>  Logs, metrics and audit entries; the parser of JSON text and the writers of responses and SSE;
  requests in the Anthropic dialect, the Responses and Google dialects (\<^verbatim>\<open>responses.go\<close>, \<^verbatim>\<open>providers/google\<close>),
  the HTTP clients of the adapters; the dashboard's handlers, command-line configuration, authentication, the
  other background workers and the SQL of the remaining repositories.
\<close>

end
